(* ===== verification/Prelude.thy ===== *)
theory Prelude
  imports Complex_Main "HOL-Library.Multiset" "HOL-Library.List_Lexorder" "HOL-Library.Char_ord"
begin

text \<open>
  The vocabulary every component of the model shares: Python values (as they arrive in JSON
  bodies and JSONB columns) with their truth value, exceptions as values of a sum type,
  insertion-ordered dictionaries as association lists, \<^verbatim>\<open>min\<close>, \<^verbatim>\<open>max\<close> and stable sorts
  with a key, and the collections of facts the component proofs draw on.
  A Python float is an exact rational or one of the three IEEE specials; rounding of the
  arithmetic itself is not modelled.
\<close>

named_theorems frame_simps \<open>which tables of the store an operation leaves alone\<close>
named_theorems run_defs \<open>definitions unfolded to run an operation on a concrete input\<close>

subsection \<open>Python values\<close>

datatype pyfloat = Fin rat | PosInf | NegInf | NaN

datatype pyval =
    PNone
  | PBool bool
  | PInt int
  | PFloat pyfloat
  | PStr string
  | PList "pyval list"
  | PDict "(string \<times> pyval) list"

text \<open>\<^verbatim>\<open>bool(v)\<close>: the truth value Python gives a value in an \<^verbatim>\<open>if\<close>.\<close>

fun truthy :: "pyval \<Rightarrow> bool" where
  "truthy PNone = False"
| "truthy (PBool b) = b"
| "truthy (PInt i) = (i \<noteq> 0)"
| "truthy (PFloat x) = (x \<noteq> Fin 0)"
| "truthy (PStr s) = (s \<noteq> [])"
| "truthy (PList xs) = (xs \<noteq> [])"
| "truthy (PDict d) = (d \<noteq> [])"

subsection \<open>Dictionaries in insertion order\<close>

text \<open>
  A \<^verbatim>\<open>dict\<close> is an association list without repeated keys: assignment replaces the value in
  place when the key is present and appends otherwise.
\<close>

fun dict_put :: "'k \<Rightarrow> 'v \<Rightarrow> ('k \<times> 'v) list \<Rightarrow> ('k \<times> 'v) list" where
  "dict_put k v [] = [(k, v)]"
| "dict_put k v ((k', v') # d) = (if k' = k then (k, v) # d else (k', v') # dict_put k v d)"

definition dict_get :: "('k \<times> 'v) list \<Rightarrow> 'k \<Rightarrow> 'v \<Rightarrow> 'v" where
  "dict_get d k dflt = (case map_of d k of None \<Rightarrow> dflt | Some v \<Rightarrow> v)"

text \<open>\<^verbatim>\<open>d.setdefault(k, []).append(v)\<close>\<close>

definition dict_append :: "'k \<Rightarrow> 'v \<Rightarrow> ('k \<times> 'v list) list \<Rightarrow> ('k \<times> 'v list) list" where
  "dict_append k v d = dict_put k (dict_get d k [] @ [v]) d"

lemma map_of_dict_put [simp]: "map_of (dict_put k v d) = (map_of d)(k \<mapsto> v)"
  by (induction d) (auto simp: fun_eq_iff)

lemma dom_dict_put: "fst ` set (dict_put k v d) = insert k (fst ` set d)"
  by (induction k v d rule: dict_put.induct) auto

lemma distinct_dict_put: "distinct (map fst d) \<Longrightarrow> distinct (map fst (dict_put k v d))"
proof (induction k v d rule: dict_put.induct)
  case (2 k v k' v' d)
  then show ?case using dom_dict_put [of k v d] by (auto simp flip: set_map)
qed simp

lemma dict_get_put: "dict_get (dict_put k v d) k' dflt = (if k' = k then v else dict_get d k' dflt)"
  by (simp add: dict_get_def)

lemma dict_get_append:
  "dict_get (dict_append k v d) k' [] = dict_get d k' [] @ (if k' = k then [v] else [])"
  by (auto simp: dict_append_def dict_get_put)

lemma dom_dict_append: "fst ` set (dict_append k v d) = insert k (fst ` set d)"
  by (simp add: dict_append_def dom_dict_put)

lemma distinct_dict_append: "distinct (map fst d) \<Longrightarrow> distinct (map fst (dict_append k v d))"
  by (simp add: dict_append_def distinct_dict_put)

subsection \<open>Exceptions\<close>

text \<open>
  A raised exception is the left side of a sum. The text of a message is a format string with
  its interpolated parts, so that two messages are equal when the code would print the same.
\<close>

datatype msg = Fmt string "string list" | Blocked "msg list"

datatype exn =
    HTTPException nat msg
  | RuntimeError msg
  | ValueError msg
  | TypeErr msg
  | KeyErr string
  | DbError msg
  | ContractError msg
  | OverflowErr msg
  | ZeroDivision msg
  | IndexErr msg
  | StructErr msg
  | AttrErr msg
  | ConnectionErr msg
  | OsErr msg
  | NotImplemented msg

type_synonym 'a result = "exn + 'a"

text \<open>The text of a message, and \<^verbatim>\<open>str(exc)\<close>.\<close>

fun interpolate :: "string \<Rightarrow> string list \<Rightarrow> string" where
  "interpolate (a # b # cs) args =
     (if a = CHR ''{'' \<and> b = CHR ''}''
      then (case args of [] \<Rightarrow> interpolate cs [] | x # xs \<Rightarrow> x @ interpolate cs xs)
      else a # interpolate (b # cs) args)"
| "interpolate cs args = cs"

fun num_text :: "nat \<Rightarrow> string" where
  "num_text n = (if n < 10 then [char_of (48 + n)] else num_text (n div 10) @ [char_of (48 + n mod 10)])"

declare num_text.simps [simp del]

fun msg_text :: "msg \<Rightarrow> string" where
  "msg_text (Fmt fmt args) = interpolate fmt args"
| "msg_text (Blocked ms) = concat (map (\<lambda>m. msg_text m @ ''; '') ms)"

fun exn_msg :: "exn \<Rightarrow> msg" where
  "exn_msg (HTTPException _ m) = m"
| "exn_msg (RuntimeError m) = m"
| "exn_msg (ValueError m) = m"
| "exn_msg (TypeErr m) = m"
| "exn_msg (KeyErr k) = Fmt k []"
| "exn_msg (DbError m) = m"
| "exn_msg (ContractError m) = m"
| "exn_msg (OverflowErr m) = m"
| "exn_msg (ZeroDivision m) = m"
| "exn_msg (IndexErr m) = m"
| "exn_msg (StructErr m) = m"
| "exn_msg (AttrErr m) = m"
| "exn_msg (ConnectionErr m) = m"
| "exn_msg (OsErr m) = m"
| "exn_msg (NotImplemented m) = m"

fun is_http :: "exn \<Rightarrow> bool" where
  "is_http (HTTPException _ _) = True"
| "is_http _ = False"

fun http_status :: "exn \<Rightarrow> nat" where
  "http_status (HTTPException c _) = c"
| "http_status _ = 500"

definition bindR :: "'a result \<Rightarrow> ('a \<Rightarrow> 'b result) \<Rightarrow> 'b result" where
  "bindR m f = (case m of Inl e \<Rightarrow> Inl e | Inr x \<Rightarrow> f x)"

lemma bindR_simps [simp]: "bindR (Inl e) f = Inl e" "bindR (Inr x) f = f x"
  by (simp_all add: bindR_def)

lemma bindR_eq_Inr: "bindR m f = Inr y \<longleftrightarrow> (\<exists>x. m = Inr x \<and> f x = Inr y)"
  by (cases m) simp_all

subsection \<open>Selection and sorting with a key\<close>

text \<open>\<^verbatim>\<open>min(xs, key=f)\<close> and \<^verbatim>\<open>max(xs, key=f)\<close> return the first extremal element.\<close>

fun min_by :: "('a \<Rightarrow> 'b::linorder) \<Rightarrow> 'a \<Rightarrow> 'a list \<Rightarrow> 'a" where
  "min_by f b [] = b"
| "min_by f b (x # xs) = (if f x < f b then min_by f x xs else min_by f b xs)"

fun max_by :: "('a \<Rightarrow> 'b::linorder) \<Rightarrow> 'a \<Rightarrow> 'a list \<Rightarrow> 'a" where
  "max_by f b [] = b"
| "max_by f b (x # xs) = (if f b < f x then max_by f x xs else max_by f b xs)"

text \<open>\<^verbatim>\<open>xs.sort(key=f, reverse=True)\<close>: descending and stable.\<close>

definition sort_desc :: "('a \<Rightarrow> 'b::linorder) \<Rightarrow> 'a list \<Rightarrow> 'a list" where
  "sort_desc f xs = rev (sort_key f (rev xs))"

lemma min_by_in: "min_by f b xs \<in> insert b (set xs)"
  by (induction xs arbitrary: b) (auto split: if_splits)

lemma min_by_le_start: "f (min_by f b xs) \<le> f b"
proof (induction xs arbitrary: b)
  case (Cons x xs)
  show ?case using Cons.IH [of x] Cons.IH [of b] by (auto intro: order_trans)
qed simp

lemma min_by_le: "y \<in> set xs \<Longrightarrow> f (min_by f b xs) \<le> f y"
proof (induction xs arbitrary: b)
  case (Cons x xs)
  have "y = x \<or> y \<in> set xs" using Cons.prems by simp
  then show ?case
  proof
    assume "y = x"
    then show ?thesis
      using min_by_le_start [of f x xs] min_by_le_start [of f b xs] by (auto intro: order_trans)
  next
    assume "y \<in> set xs"
    then show ?thesis using Cons.IH by simp
  qed
qed simp

lemma max_by_in: "max_by f b xs \<in> insert b (set xs)"
  by (induction xs arbitrary: b) (auto split: if_splits)

lemma max_by_ge_start: "f b \<le> f (max_by f b xs)"
proof (induction xs arbitrary: b)
  case (Cons x xs)
  show ?case using Cons.IH [of x] Cons.IH [of b] by (auto intro: order_trans)
qed simp

lemma max_by_ge: "y \<in> set xs \<Longrightarrow> f y \<le> f (max_by f b xs)"
proof (induction xs arbitrary: b)
  case (Cons x xs)
  have "y = x \<or> y \<in> set xs" using Cons.prems by simp
  then show ?case
  proof
    assume "y = x"
    then show ?thesis
      using max_by_ge_start [of f x xs] max_by_ge_start [of f b xs] by (auto intro: order_trans)
  next
    assume "y \<in> set xs"
    then show ?thesis using Cons.IH by simp
  qed
qed simp

lemma set_sort_desc [simp]: "set (sort_desc f xs) = set xs"
  by (simp add: sort_desc_def)

lemma length_sort_desc [simp]: "length (sort_desc f xs) = length xs"
  by (simp add: sort_desc_def)

lemma sort_desc_sorted: "sorted_wrt (\<lambda>x y. f y \<le> f x) (sort_desc f xs)"
proof -
  have "sorted (map f (sort_key f (rev xs)))" by (rule sorted_sort_key)
  then have "sorted_wrt (\<lambda>x y. f x \<le> f y) (sort_key f (rev xs))"
    by (simp add: sorted_map)
  then show ?thesis
    by (simp add: sort_desc_def sorted_wrt_rev)
qed

lemma sort_desc_stable: "filter (\<lambda>x. f x = k) (sort_desc f xs) = filter (\<lambda>x. f x = k) xs"
  by (simp add: sort_desc_def rev_filter [symmetric] sort_key_stable)

lemma filter_length_sort_desc:
  "length (filter P (sort_desc f xs)) = length (filter P xs)"
proof -
  have "mset (sort_desc f xs) = mset xs" by (simp add: sort_desc_def)
  then have "size (filter_mset P (mset (sort_desc f xs))) = size (filter_mset P (mset xs))" by simp
  then show ?thesis by (simp add: mset_filter [symmetric] del: mset_filter)
qed

subsection \<open>Sequencing fallible steps\<close>

primrec mapR :: "('a \<Rightarrow> 'b result) \<Rightarrow> 'a list \<Rightarrow> 'b list result" where
  "mapR f [] = Inr []"
| "mapR f (x # xs) = bindR (f x) (\<lambda>y. bindR (mapR f xs) (\<lambda>ys. Inr (y # ys)))"

lemma mapR_Inr: "mapR f xs = Inr ys \<longleftrightarrow> list_all2 (\<lambda>x y. f x = Inr y) xs ys"
  by (induction xs arbitrary: ys) (auto simp: bindR_eq_Inr list_all2_Cons1)

definition guardR :: "bool \<Rightarrow> exn \<Rightarrow> unit result" where
  "guardR b e = (if b then Inr () else Inl e)"

lemma guardR_Inr [simp]: "guardR b e = Inr u \<longleftrightarrow> b"
  by (simp add: guardR_def)

lemma guardR_True [simp]: "guardR True e = Inr ()"
  by (simp add: guardR_def)

subsection \<open>State and exceptions\<close>

text \<open>
  Code that writes and may raise: the result or the exception together with the state left
  behind, since nothing undoes the writes made before an exception.
\<close>

type_synonym ('s, 'a) action = "'s \<Rightarrow> 'a result \<times> 's"

definition ret :: "'a \<Rightarrow> ('s, 'a) action" where
  "ret x s = (Inr x, s)"

definition fail :: "exn \<Rightarrow> ('s, 'a) action" where
  "fail e s = (Inl e, s)"

definition bindS :: "('s, 'a) action \<Rightarrow> ('a \<Rightarrow> ('s, 'b) action) \<Rightarrow> ('s, 'b) action" where
  "bindS m f s = (case m s of (Inl e, s') \<Rightarrow> (Inl e, s') | (Inr x, s') \<Rightarrow> f x s')"

definition lift :: "('s \<Rightarrow> 'a result) \<Rightarrow> ('s, 'a) action" where
  "lift r s = (r s, s)"

definition modify :: "('s \<Rightarrow> 's) \<Rightarrow> ('s, unit) action" where
  "modify f s = (Inr (), f s)"

text \<open>A relation between the stores before and after that every run respects.\<close>

definition keeps :: "('s \<Rightarrow> 's \<Rightarrow> bool) \<Rightarrow> ('s, 'a) action \<Rightarrow> bool" where
  "keeps R m \<longleftrightarrow> (\<forall>s. R s (snd (m s)))"

lemma run_simps [simp]:
  "ret x s = (Inr x, s)" "fail e s = (Inl e, s)" "lift r s = (r s, s)" "modify f s = (Inr (), f s)"
  by (simp_all add: ret_def fail_def lift_def modify_def)

lemma keeps_bindS:
  assumes "keeps R m" "\<And>x. keeps R (f x)" "\<And>s s' s''. R s s' \<Longrightarrow> R s' s'' \<Longrightarrow> R s s''"
  shows "keeps R (bindS m f)"
  unfolding keeps_def
proof
  fix s
  obtain r s' where m: "m s = (r, s')" by fastforce
  with assms(1) have 1: "R s s'" by (metis keeps_def snd_conv)
  show "R s (snd (bindS m f s))"
  proof (cases r)
    case (Inl e)
    with m 1 show ?thesis by (simp add: bindS_def)
  next
    case (Inr x)
    have "R s' (snd (f x s'))" using assms(2) by (simp add: keeps_def)
    with m 1 Inr assms(3) show ?thesis by (auto simp: bindS_def)
  qed
qed

lemma keepsD: "keeps R m \<Longrightarrow> m s = (r, s') \<Longrightarrow> R s s'"
  by (metis keeps_def snd_conv)

subsection \<open>Splitting a string\<close>

text \<open>\<^verbatim>\<open>s.split(c)\<close> for a single character.\<close>

fun split_on :: "char \<Rightarrow> string \<Rightarrow> string list" where
  "split_on c [] = [[]]"
| "split_on c (x # xs) = (if x = c then [] # split_on c xs
     else (case split_on c xs of [] \<Rightarrow> [[x]] | p # ps \<Rightarrow> (x # p) # ps))"

lemma split_on_nonempty [simp]: "split_on c s \<noteq> []"
  by (cases "(c, s)" rule: split_on.cases) (auto split: list.splits)

lemma split_on_none: "c \<notin> set s \<Longrightarrow> split_on c s = [s]"
  by (induction s) auto

lemma split_on_append: "c \<notin> set s \<Longrightarrow> split_on c (s @ c # t) = s # split_on c t"
  by (induction s) auto

subsection \<open>Images\<close>

lemma image_absorb:
  assumes "A \<subseteq> insert x B \<union> C" "insert x B \<subseteq> A" "\<And>y. y \<in> C \<Longrightarrow> f y = f x"
  shows "f ` A = insert (f x) (f ` B)"
proof
  show "f ` A \<subseteq> insert (f x) (f ` B)"
  proof
    fix z assume "z \<in> f ` A"
    then obtain a where a: "a \<in> A" "z = f a" by blast
    with assms(1) have "a = x \<or> a \<in> B \<or> a \<in> C" by blast
    with a assms(3) show "z \<in> insert (f x) (f ` B)" by blast
  qed
  show "insert (f x) (f ` B) \<subseteq> f ` A" using assms(2) by blast
qed

subsection \<open>Environment flags\<close>

text \<open>\<^verbatim>\<open>os.getenv(...).strip().lower() in ("1", "true", "yes", "on")\<close>\<close>

definition is_space :: "char \<Rightarrow> bool" where
  "is_space c \<longleftrightarrow> of_char c \<in> {9::nat, 10, 11, 12, 13, 28, 29, 30, 31, 32}"

definition strip :: "string \<Rightarrow> string" where
  "strip s = rev (dropWhile is_space (rev (dropWhile is_space s)))"

definition to_lower :: "string \<Rightarrow> string" where
  "to_lower = map (\<lambda>c. let n = (of_char c :: nat) in if 65 \<le> n \<and> n \<le> 90 then char_of (n + 32) else c)"

definition to_upper :: "string \<Rightarrow> string" where
  "to_upper = map (\<lambda>c. let n = (of_char c :: nat) in if 97 \<le> n \<and> n \<le> 122 then char_of (n - 32) else c)"

definition flag_on :: "string option \<Rightarrow> string \<Rightarrow> bool" where
  "flag_on v dflt = (to_lower (strip (case v of None \<Rightarrow> dflt | Some s \<Rightarrow> s))
     \<in> {''1'', ''true'', ''yes'', ''on''})"

end
