(* ===== verification/Graph_Search.thy ===== *)
theory Graph_Search
  imports Prelude
begin

text \<open>
  The graph walk the code repeats in \<^verbatim>\<open>fastapi/common.py\<close>, \<^verbatim>\<open>fastapi/routers/topology.py\<close>,
  \<^verbatim>\<open>fastapi/routers/dms.py\<close>, \<^verbatim>\<open>fastapi/routers/oc_switch.py\<close> and
  \<^verbatim>\<open>fastapi/dms/contingency.py\<close>: a stack of nodes, a set of seen nodes, and for every popped
  node its unseen neighbours are marked and pushed. It is proved to terminate and to compute
  exactly the nodes reachable in the reflexive transitive closure of the arcs, and the locale
  \<open>reachability\<close> states what callers may rely on.
\<close>

subsection \<open>The stack loop\<close>

text \<open>\<^verbatim>\<open>adj.get(c, [])\<close> for the adjacency lists built from the arcs in their order.\<close>

definition successors :: "('n \<times> 'n) list \<Rightarrow> 'n \<Rightarrow> 'n list" where
  "successors arcs c = map snd (filter (\<lambda>e. fst e = c) arcs)"

text \<open>
  \<^verbatim>\<open>for n in adj.get(c, []): if n not in seen: seen.add(n); stack.append(n)\<close>.
  The head of the list \<open>stack\<close> is the end of the Python list, where \<^verbatim>\<open>pop\<close> takes from;
  \<open>seen\<close> is kept in the order of discovery.
\<close>

fun push_new :: "'n list \<Rightarrow> 'n list \<Rightarrow> 'n list \<Rightarrow> 'n list \<times> 'n list" where
  "push_new [] seen stack = (seen, stack)"
| "push_new (n # ns) seen stack =
     (if n \<in> set seen then push_new ns seen stack else push_new ns (seen @ [n]) (n # stack))"

lemma push_new_seen:
  "push_new ns seen stack = (seen', stack') \<Longrightarrow> set seen' = set seen \<union> set ns"
  by (induction ns seen stack rule: push_new.induct) (auto split: if_splits)

lemma push_new_stack:
  "push_new ns seen stack = (seen', stack') \<Longrightarrow>
     set stack' = set stack \<union> (set ns - set seen) \<and>
     (set ns \<subseteq> set seen \<longrightarrow> stack' = stack)"
  by (induction ns seen stack rule: push_new.induct) (auto split: if_splits)

lemma push_new_distinct:
  "push_new ns seen stack = (seen', stack') \<Longrightarrow> distinct seen \<Longrightarrow> distinct seen'"
  by (induction ns seen stack rule: push_new.induct) (auto split: if_splits)

lemma push_new_prefix:
  "push_new ns seen stack = (seen', stack') \<Longrightarrow> \<exists>more. seen' = seen @ more"
  by (induction ns seen stack rule: push_new.induct) (auto split: if_splits)

lemma set_successors: "set (successors arcs c) = {n. (c, n) \<in> set arcs}"
  by (auto simp: successors_def image_iff)

text \<open>
  Every iteration either marks a node that some arc leads to, or pops without pushing.
\<close>

lemma explore_measure_step:
  assumes "push_new (successors arcs c) seen stack = (seen', stack')"
  shows "card (snd ` set arcs - set seen') < card (snd ` set arcs - set seen) \<or>
         (card (snd ` set arcs - set seen') = card (snd ` set arcs - set seen) \<and>
          length stack' < Suc (length stack))"
proof (cases "set (successors arcs c) \<subseteq> set seen")
  case True
  with push_new_seen [OF assms] have "set seen' = set seen" by blast
  with True push_new_stack [OF assms] show ?thesis by simp
next
  case False
  then obtain n where n: "n \<in> set (successors arcs c)" "n \<notin> set seen" by blast
  then have "n \<in> snd ` set arcs" by (force simp: set_successors)
  with n push_new_seen [OF assms]
  have "snd ` set arcs - set seen' \<subset> snd ` set arcs - set seen" by blast
  then show ?thesis by (simp add: psubset_card_mono)
qed

function explore :: "('n \<times> 'n) list \<Rightarrow> 'n list \<Rightarrow> 'n list \<Rightarrow> 'n list" where
  "explore arcs seen [] = seen"
| "explore arcs seen (c # stack) =
     (let (seen', stack') = push_new (successors arcs c) seen stack in explore arcs seen' stack')"
  by pat_completeness auto

termination
proof (relation "measures [\<lambda>(arcs, seen, stack). card (snd ` set arcs - set seen),
                           \<lambda>(arcs, seen, stack). length stack]", goal_cases)
  case 1
  then show ?case by simp
next
  case (2 arcs seen c stack x seen' stack')
  then have "push_new (successors arcs c) seen stack = (seen', stack')" by simp
  from explore_measure_step [OF this] show ?case by auto
qed

text \<open>\<^verbatim>\<open>seen = set(sources); stack = list(sources)\<close>\<close>

definition reach :: "('n \<times> 'n) list \<Rightarrow> 'n list \<Rightarrow> 'n list" where
  "reach arcs sources = explore arcs (remdups sources) (rev sources)"

subsection \<open>Correctness of the loop\<close>

text \<open>
  The invariant: whatever is on the stack is marked, and a marked node whose arcs have not all
  been followed is still on the stack.
\<close>

definition walk_inv :: "('n \<times> 'n) list \<Rightarrow> 'n list \<Rightarrow> 'n list \<Rightarrow> bool" where
  "walk_inv arcs seen stack \<longleftrightarrow>
     set stack \<subseteq> set seen \<and> set arcs `` (set seen - set stack) \<subseteq> set seen"

lemma walk_inv_step:
  assumes "walk_inv arcs seen (c # stack)"
    and "push_new (successors arcs c) seen stack = (seen', stack')"
  shows "walk_inv arcs seen' stack'"
proof -
  have s: "set seen' = set seen \<union> set (successors arcs c)"
    and t: "set stack' = set stack \<union> (set (successors arcs c) - set seen)"
    using push_new_seen [OF assms(2)] push_new_stack [OF assms(2)] by auto
  show ?thesis
    using assms(1) unfolding walk_inv_def s t by (auto simp: set_successors)
qed

lemma explore_set:
  "walk_inv arcs seen stack \<Longrightarrow> set (explore arcs seen stack) = (set arcs)\<^sup>* `` set seen"
proof (induction arcs seen stack rule: explore.induct)
  case (1 arcs seen)
  then show ?case by (simp add: walk_inv_def Image_closed_trancl)
next
  case (2 arcs seen c stack)
  obtain seen' stack' where p: "push_new (successors arcs c) seen stack = (seen', stack')"
    by fastforce
  have c: "c \<in> set seen" using "2.prems" by (auto simp: walk_inv_def)
  have "set (explore arcs seen' stack') = (set arcs)\<^sup>* `` set seen'"
    using "2.IH" [OF p [symmetric] refl] walk_inv_step [OF "2.prems" p] by simp
  also have "\<dots> = (set arcs)\<^sup>* `` set seen"
  proof -
    have "set seen \<subseteq> set seen'" and "set seen' \<subseteq> (set arcs)\<^sup>* `` set seen"
      using push_new_seen [OF p] c by (auto simp: set_successors)
    moreover have "(set arcs)\<^sup>* `` ((set arcs)\<^sup>* `` set seen) = (set arcs)\<^sup>* `` set seen"
      by (auto intro: rtrancl_trans)
    ultimately show ?thesis by blast
  qed
  finally show ?case by (simp add: p)
qed

lemma explore_distinct: "distinct seen \<Longrightarrow> distinct (explore arcs seen stack)"
proof (induction arcs seen stack rule: explore.induct)
  case (2 arcs seen c stack)
  obtain seen' stack' where p: "push_new (successors arcs c) seen stack = (seen', stack')"
    by fastforce
  show ?case using "2.IH" [OF p [symmetric] refl] push_new_distinct [OF p "2.prems"] by (simp add: p)
qed simp

lemma reach_set: "set (reach arcs sources) = (set arcs)\<^sup>* `` set sources"
  by (simp add: reach_def explore_set walk_inv_def)

lemma reach_distinct: "distinct (reach arcs sources)"
  by (simp add: reach_def explore_distinct)

lemma length_reach: "length (reach arcs sources) = card ((set arcs)\<^sup>* `` set sources)"
  using reach_distinct reach_set by (metis distinct_card)

declare explore.simps [simp del]

subsection \<open>The interface callers rely on\<close>

text \<open>
  Each caller has its own notion of network (all edges, closed edges, closed edges with one
  flipped, undirected edges) and asks which nodes a set of sources energizes.
\<close>

locale reachability =
  fixes arcs :: "'net \<Rightarrow> ('n \<times> 'n) set"
    and live :: "'net \<Rightarrow> 'n list \<Rightarrow> 'n set"
  assumes sources_live: "set ss \<subseteq> live net ss"
    and live_closed: "a \<in> live net ss \<Longrightarrow> (a, b) \<in> arcs net \<Longrightarrow> b \<in> live net ss"
    and live_least: "set ss \<subseteq> X \<Longrightarrow> arcs net `` X \<subseteq> X \<Longrightarrow> live net ss \<subseteq> X"
begin

lemma live_eq: "live net ss = (arcs net)\<^sup>* `` set ss"
proof
  show "live net ss \<subseteq> (arcs net)\<^sup>* `` set ss"
    by (rule live_least) (auto intro: rtrancl.rtrancl_into_rtrancl)
  have "arcs net `` live net ss \<subseteq> live net ss" by (auto intro: live_closed)
  then have "(arcs net)\<^sup>* `` live net ss = live net ss" by (rule Image_closed_trancl)
  with sources_live [of ss net] show "(arcs net)\<^sup>* `` set ss \<subseteq> live net ss" by blast
qed

lemma live_mono:
  assumes "arcs net \<subseteq> arcs net'"
  shows "live net ss \<subseteq> live net' ss"
  unfolding live_eq using rtrancl_mono [OF assms] by blast

text \<open>An arc whose tail is dead carries nothing: adding it changes no node.\<close>

lemma live_dead_arc:
  assumes "arcs net' \<subseteq> insert (a, b) (arcs net)" "arcs net \<subseteq> arcs net'" "a \<notin> live net ss"
  shows "live net' ss = live net ss"
proof
  show "live net ss \<subseteq> live net' ss" by (rule live_mono) (rule assms)
  have "arcs net' `` live net ss \<subseteq> live net ss" using assms live_closed by blast
  then show "live net' ss \<subseteq> live net ss" by (rule live_least [OF sources_live])
qed

text \<open>What one more arc energizes: the old nodes, and whatever its head reaches.\<close>

lemma live_add_arc:
  assumes "arcs net' \<subseteq> insert (a, b) (arcs net)"
  shows "live net' ss \<subseteq> live net ss \<union> (arcs net)\<^sup>* `` {b}"
proof (rule live_least)
  show "set ss \<subseteq> live net ss \<union> (arcs net)\<^sup>* `` {b}" using sources_live by blast
  have "arcs net `` live net ss \<subseteq> live net ss" by (auto intro: live_closed)
  moreover have "arcs net `` ((arcs net)\<^sup>* `` {b}) \<subseteq> (arcs net)\<^sup>* `` {b}"
    by (auto intro: rtrancl.rtrancl_into_rtrancl)
  ultimately show "arcs net' `` (live net ss \<union> (arcs net)\<^sup>* `` {b})
      \<subseteq> live net ss \<union> (arcs net)\<^sup>* `` {b}"
    using assms by blast
qed

end

lemma reachability_of_reach:
  assumes "\<And>net ss. live net ss = set (reach (es net) ss)" and "\<And>net. arcs net = set (es net)"
  shows "reachability arcs live"
proof unfold_locales
  fix ss net
  show "set ss \<subseteq> live net ss" by (auto simp: assms reach_set)
next
  fix a net ss b
  assume "a \<in> live net ss" "(a, b) \<in> arcs net"
  then show "b \<in> live net ss"
    by (auto simp: assms reach_set intro: rtrancl.rtrancl_into_rtrancl)
next
  fix ss X net
  assume "set ss \<subseteq> X" "arcs net `` X \<subseteq> X"
  then show "live net ss \<subseteq> X"
    using Image_closed_trancl [of "set (es net)" X] by (simp add: assms reach_set) blast
qed

interpretation walk: reachability set "\<lambda>arcs ss. set (reach arcs ss)"
  by (rule reachability_of_reach) (rule refl)+

end
