(* ===== verification/Py_Numbers.thy ===== *)
theory Py_Numbers
  imports Prelude
begin

text \<open>
  The numeric parts of Python the code leans on: \<^verbatim>\<open>float(...)\<close> of a value that came in as
  JSON, comparisons and subtraction in the presence of \<^verbatim>\<open>nan\<close> and the infinities, and
  \<^verbatim>\<open>round(x, n)\<close> with ties to even.
\<close>

subsection \<open>Arithmetic with IEEE specials\<close>

fun fl_less :: "pyfloat \<Rightarrow> pyfloat \<Rightarrow> bool" where
  "fl_less NaN y = False"
| "fl_less x NaN = False"
| "fl_less (Fin x) (Fin y) = (x < y)"
| "fl_less NegInf y = (y \<noteq> NegInf)"
| "fl_less x PosInf = (x \<noteq> PosInf)"
| "fl_less x y = False"

fun fl_le :: "pyfloat \<Rightarrow> pyfloat \<Rightarrow> bool" where
  "fl_le NaN y = False"
| "fl_le x NaN = False"
| "fl_le (Fin x) (Fin y) = (x \<le> y)"
| "fl_le NegInf y = True"
| "fl_le x PosInf = True"
| "fl_le x y = False"

fun fl_neg :: "pyfloat \<Rightarrow> pyfloat" where
  "fl_neg (Fin x) = Fin (- x)"
| "fl_neg PosInf = NegInf"
| "fl_neg NegInf = PosInf"
| "fl_neg NaN = NaN"

fun fl_add :: "pyfloat \<Rightarrow> pyfloat \<Rightarrow> pyfloat" where
  "fl_add (Fin x) (Fin y) = Fin (x + y)"
| "fl_add NaN y = NaN"
| "fl_add x NaN = NaN"
| "fl_add PosInf NegInf = NaN"
| "fl_add NegInf PosInf = NaN"
| "fl_add (Fin x) y = y"
| "fl_add x y = x"

definition fl_sub :: "pyfloat \<Rightarrow> pyfloat \<Rightarrow> pyfloat" where
  "fl_sub x y = fl_add x (fl_neg y)"

text \<open>Multiplication by a positive finite constant, the only product the code forms.\<close>

fun fl_scale :: "rat \<Rightarrow> pyfloat \<Rightarrow> pyfloat" where
  "fl_scale k (Fin x) = Fin (x * k)"
| "fl_scale k x = x"

fun fl_abs :: "pyfloat \<Rightarrow> pyfloat" where
  "fl_abs (Fin x) = Fin \<bar>x\<bar>"
| "fl_abs NaN = NaN"
| "fl_abs _ = PosInf"

definition is_finite :: "pyfloat \<Rightarrow> bool" where
  "is_finite x \<longleftrightarrow> (case x of Fin _ \<Rightarrow> True | _ \<Rightarrow> False)"

lemma fl_nan [simp]: "\<not> fl_less NaN y" "\<not> fl_less x NaN" "\<not> fl_le NaN y" "\<not> fl_le x NaN"
  by (cases x; simp)+

lemma fl_sub_nan [simp]: "fl_sub NaN y = NaN"
  by (cases y) (simp_all add: fl_sub_def)

lemma fl_sub_Fin [simp]: "fl_sub (Fin x) (Fin y) = Fin (x - y)"
  by (simp add: fl_sub_def)

lemma fl_scale_finite [simp]: "is_finite (fl_scale k x) = is_finite x"
  by (cases x) (simp_all add: is_finite_def)

lemma fl_le_iff: "fl_le x y \<longleftrightarrow> fl_less x y \<or> (x = y \<and> x \<noteq> NaN)"
  by (cases x; cases y) auto

subsection \<open>Rounding\<close>

text \<open>\<^verbatim>\<open>round(x, n)\<close>: nearest multiple of \<open>10 ^ -n\<close>, ties to the even one.\<close>

definition round_even :: "rat \<Rightarrow> int" where
  "round_even x = (let f = \<lfloor>x\<rfloor>; d = x - of_int f in
     if d < 1/2 then f else if 1/2 < d then f + 1 else if even f then f else f + 1)"

definition py_round :: "nat \<Rightarrow> rat \<Rightarrow> rat" where
  "py_round n x = of_int (round_even (x * 10 ^ n)) / 10 ^ n"

lemma round_even_error: "\<bar>of_int (round_even x) - x\<bar> \<le> 1/2"
proof -
  have "of_int \<lfloor>x\<rfloor> \<le> x" "x < of_int \<lfloor>x\<rfloor> + 1" by linarith+
  then show ?thesis
    by (auto simp: round_even_def Let_def abs_if) (use of_int_floor_le [of x] in linarith)+
qed

lemma round_even_of_int [simp]: "round_even (of_int i) = i"
  by (simp add: round_even_def Let_def)

lemma round_even_mono: "x \<le> y \<Longrightarrow> round_even x \<le> round_even y"
proof -
  assume xy: "x \<le> y"
  then have f: "\<lfloor>x\<rfloor> \<le> \<lfloor>y\<rfloor>" by (rule floor_mono)
  show ?thesis
  proof (cases "\<lfloor>x\<rfloor> = \<lfloor>y\<rfloor>")
    case True
    with xy show ?thesis by (auto simp: round_even_def Let_def)
  next
    case False
    with f have "\<lfloor>x\<rfloor> + 1 \<le> \<lfloor>y\<rfloor>" by linarith
    then show ?thesis by (auto simp: round_even_def Let_def)
  qed
qed

lemma py_round_0 [simp]: "py_round n 0 = 0"
  using round_even_of_int [of 0] by (simp add: py_round_def)

lemma py_round_mono: "x \<le> y \<Longrightarrow> py_round n x \<le> py_round n y"
  unfolding py_round_def
  by (intro divide_right_mono) (auto intro!: round_even_mono mult_right_mono)

lemma py_round_nonneg: "0 \<le> x \<Longrightarrow> 0 \<le> py_round n x"
  using py_round_mono [of 0 x n] by simp

fun fl_round :: "nat \<Rightarrow> pyfloat \<Rightarrow> pyfloat" where
  "fl_round n (Fin x) = Fin (py_round n x)"
| "fl_round n x = x"

subsection \<open>\<^verbatim>\<open>float(v)\<close>\<close>

definition digit_val :: "char \<Rightarrow> nat option" where
  "digit_val c = (let n = (of_char c :: nat) in if 48 \<le> n \<and> n \<le> 57 then Some (n - 48) else None)"

text \<open>
  Digits with single underscores between them: the value read, how many digits, and the rest.
\<close>

fun take_digits :: "nat \<Rightarrow> nat \<Rightarrow> string \<Rightarrow> nat \<times> nat \<times> string" where
  "take_digits acc n [] = (acc, n, [])"
| "take_digits acc n (c # cs) =
     (case digit_val c of
        Some d \<Rightarrow> take_digits (10 * acc + d) (n + 1) cs
      | None \<Rightarrow>
          (if c = CHR ''_'' \<and> 0 < n \<and> cs \<noteq> [] \<and> digit_val (hd cs) \<noteq> None
           then take_digits acc n cs else (acc, n, c # cs)))"

definition split_sign :: "string \<Rightarrow> bool \<times> string" where
  "split_sign s = (case s of c # cs \<Rightarrow> (if c = CHR ''-'' then (True, cs) else if c = CHR ''+'' then (False, cs)
     else (False, s)) | [] \<Rightarrow> (False, []))"

definition pow10 :: "int \<Rightarrow> rat" where
  "pow10 e = (if 0 \<le> e then 10 ^ nat e else 1 / 10 ^ nat (- e))"

definition parse_exponent :: "string \<Rightarrow> int option" where
  "parse_exponent s = (case s of
       [] \<Rightarrow> Some 0
     | c # cs \<Rightarrow>
         (if c = CHR ''e'' \<or> c = CHR ''E'' then
            (let (neg, r) = split_sign cs; (v, n, rest) = take_digits 0 0 r
             in if 0 < n \<and> rest = [] then Some (if neg then - int v else int v) else None)
          else None))"

definition float_of_string :: "string \<Rightarrow> pyfloat option" where
  "float_of_string str =
     (let (neg, s) = split_sign (strip str); low = to_lower s in
      if low = ''inf'' \<or> low = ''infinity'' then Some (if neg then NegInf else PosInf)
      else if low = ''nan'' then Some NaN
      else let (ip, n1, r1) = take_digits 0 0 s;
               (fp, n2, r2) = (case r1 of c # cs \<Rightarrow> (if c = CHR ''.'' then take_digits 0 0 cs else (0, 0, r1))
                               | [] \<Rightarrow> (0, 0, []))
           in if n1 + n2 = 0 then None
              else map_option
                (\<lambda>e. let v = (of_nat ip + of_nat fp / 10 ^ n2) * pow10 e in Fin (if neg then - v else v))
                (parse_exponent r2))"

fun py_float :: "pyval \<Rightarrow> pyfloat result" where
  "py_float (PFloat x) = Inr x"
| "py_float (PInt i) = Inr (Fin (of_int i))"
| "py_float (PBool b) = Inr (Fin (if b then 1 else 0))"
| "py_float (PStr s) = (case float_of_string s of
      Some x \<Rightarrow> Inr x
    | None \<Rightarrow> Inl (ValueError (Fmt ''could not convert string to float: {}'' [s])))"
| "py_float _ = Inl (TypeErr (Fmt ''float() argument must be a string or a real number'' []))"

lemma float_of_string_examples:
  "float_of_string ''12.5'' = Some (Fin (25/2))"
  "float_of_string '' -1_000e-2 '' = Some (Fin (-10))"
  "float_of_string ''nan'' = Some NaN"
  "float_of_string ''.'' = None"
  by code_simp+

subsection \<open>\<^verbatim>\<open>int(v)\<close>\<close>

definition trunc :: "rat \<Rightarrow> int" where
  "trunc x = (if 0 \<le> x then \<lfloor>x\<rfloor> else \<lceil>x\<rceil>)"

definition int_of_string :: "string \<Rightarrow> int result" where
  "int_of_string s = (let (neg, r) = split_sign (strip s); (v, n, rest) = take_digits 0 0 r in
     if 0 < n \<and> rest = [] then Inr (if neg then - int v else int v)
     else Inl (ValueError (Fmt ''invalid literal for int()'' [])))"

fun py_int :: "pyval \<Rightarrow> int result" where
  "py_int (PInt i) = Inr i"
| "py_int (PBool b) = Inr (if b then 1 else 0)"
| "py_int (PFloat (Fin x)) = Inr (trunc x)"
| "py_int (PFloat NaN) = Inl (ValueError (Fmt ''cannot convert float NaN to integer'' []))"
| "py_int (PFloat _) = Inl (OverflowErr (Fmt ''cannot convert float infinity to integer'' []))"
| "py_int (PStr s) = int_of_string s"
| "py_int _ = Inl (TypeErr (Fmt ''int() argument'' []))"

text \<open>Reading back a printed number: \<^verbatim>\<open>int(str(n))\<close>.\<close>

lemma digit_val_char [simp]: "d < 10 \<Longrightarrow> digit_val (char_of (48 + d)) = Some d"
  by (simp add: digit_val_def)

lemma take_digits_num_text:
  "take_digits acc k (num_text n @ s)
     = take_digits (acc * 10 ^ length (num_text n) + n) (k + length (num_text n)) s"
proof (induction n arbitrary: acc k s rule: num_text.induct)
  case (1 n)
  show ?case
  proof (cases "n < 10")
    case True
    then have e: "num_text n = [char_of (48 + n)]" by (subst num_text.simps) simp
    show ?thesis using True by (simp add: e digit_val_char mult.commute)
  next
    case False
    then have e: "num_text n = num_text (n div 10) @ [char_of (48 + n mod 10)]"
      by (subst num_text.simps) simp
    have d: "digit_val (char_of (48 + n mod 10)) = Some (n mod 10)" by (simp add: digit_val_char)
    have n: "10 * (acc * 10 ^ length (num_text (n div 10)) + n div 10) + n mod 10
        = acc * 10 ^ Suc (length (num_text (n div 10))) + n"
      by (simp add: algebra_simps)
    show ?thesis
      by (simp only: e append_assoc append_Cons append_Nil 1 [OF False] take_digits.simps d option.case n
          length_append list.size) simp
  qed
qed

lemma num_text_nonempty [simp]: "num_text n \<noteq> []"
  by (simp add: num_text.simps [of n])

lemma num_text_hd: "\<exists>d<10::nat. hd (num_text n) = char_of (48 + d)"
proof (induction n rule: num_text.induct)
  case (1 n)
  then show ?case by (cases "n < 10") (auto simp: num_text.simps [of n])
qed

lemma num_text_digits: "set (num_text n) \<subseteq> (\<lambda>d. char_of (48 + d)) ` {0..<10::nat}"
proof (induction n rule: num_text.induct)
  case (1 n)
  then show ?case by (cases "n < 10") (auto simp: num_text.simps [of n])
qed

lemma num_text_char:
  assumes "c \<in> set (num_text n)"
  shows "\<not> is_space c \<and> c \<noteq> CHR ''.'' \<and> c \<noteq> CHR ''-'' \<and> c \<noteq> CHR ''+''"
proof -
  obtain d where d: "d < 10" "c = char_of (48 + d :: nat)" using num_text_digits [of n] assms by auto
  then have c: "of_char c = (48 + d :: nat)" by simp
  have "c \<noteq> char_of (k :: nat)" if "k < 48" for k
  proof
    assume "c = char_of k"
    then have "of_char c = k" using that by simp
    with c that show False by simp
  qed
  from this [of 46] this [of 45] this [of 43] show ?thesis using c d(1) by (auto simp: is_space_def)
qed

lemma strip_num_text [simp]: "strip (num_text n) = num_text n"
proof -
  have drop_id: "dropWhile is_space xs = xs" if "\<forall>c\<in>set xs. \<not> is_space c" for xs
    using that by (cases xs) simp_all
  have "\<forall>c\<in>set (num_text n). \<not> is_space c" using num_text_char [of _ n] by blast
  then show ?thesis by (simp add: strip_def drop_id)
qed

lemma int_of_num_text [simp]: "int_of_string (num_text n) = Inr (int n)"
proof -
  have "split_sign (num_text n) = (False, num_text n)"
    using num_text_char [of "hd (num_text n)" n] by (cases "num_text n") (auto simp: split_sign_def)
  moreover have "take_digits 0 0 (num_text n) = (n, length (num_text n), [])"
    using take_digits_num_text [of 0 0 n "[]"] by simp
  ultimately show ?thesis by (simp add: int_of_string_def)
qed

text \<open>PostgreSQL refuses \<^verbatim>\<open>NaN\<close> and \<^verbatim>\<open>Infinity\<close>, which \<^verbatim>\<open>json.dumps\<close> prints, in a JSONB value.\<close>

fun jsonb_ok :: "pyval \<Rightarrow> bool" where
  "jsonb_ok (PFloat x) = is_finite x"
| "jsonb_ok (PList xs) = list_all jsonb_ok xs"
| "jsonb_ok (PDict d) = list_all (\<lambda>kv. jsonb_ok (snd kv)) d"
| "jsonb_ok _ = True"

end
