(* ===== verification/Store.thy ===== *)
theory Store
  imports Py_Numbers
begin

text \<open>
  The database every handler works on, one field per table of \<^verbatim>\<open>src/sql\<close> and one record per
  row type. Rows keep the order in which they were inserted; a query without
  \<^verbatim>\<open>ORDER BY\<close> returns them in that order. An UUID drawn by \<^verbatim>\<open>uuid.uuid4()\<close> is the next number of
  a counter, so that drawn identifiers are pairwise different. \<open>now\<close> is the instant
  (in seconds) at which a handler runs.
\<close>

type_synonym uuid = nat

subsection \<open>Network model (sql/013, sql/021)\<close>

record grid_node =
  node_id :: string
  node_type :: string
  node_name :: "string option"
  parent_id :: "string option"
  node_site :: "string option"
  node_device :: "string option"
  latitude :: "rat option"
  longitude :: "rat option"
  nominal_kv :: "rat option"
  node_phases :: string
  base_load_kw :: rat
  base_load_kvar :: rat
  load_class :: "string option"
  node_attrs :: pyval
  node_version :: "nat option"

record grid_edge =
  edge_id :: string
  from_node :: string
  to_node :: string
  edge_type :: string
  is_switchable :: bool
  normally_closed :: bool
  is_closed :: bool
  rating_kw :: "rat option"
  resistance_r_ohm :: "rat option"
  reactance_x_ohm :: "rat option"
  length_km :: "rat option"
  ampacity_a :: "rat option"
  edge_phases :: string
  edge_attrs :: pyval
  edge_version :: "nat option"

record model_version =
  version :: nat
  version_label :: string
  version_description :: "string option"
  created_by :: string
  is_current :: bool

record customer =
  customer_id :: string
  customer_name :: "string option"
  customer_address :: "string option"
  customer_phone :: "string option"
  customer_priority :: string

record service_point =
  service_point_id :: string
  sp_customer :: "string option"
  sp_node :: "string option"
  sp_meter :: "string option"

subsection \<open>Devices, telemetry and commands (sql/000, sql/001, sql/009, sql/016)\<close>

record device =
  device_id :: string
  device_type :: string
  device_tenant :: string
  device_status :: string
  device_site :: "string option"
  device_location :: "string option"
  device_created :: rat

record telemetry =
  t_device :: string
  t_time :: rat
  t_voltage :: "rat option"
  t_current :: "rat option"
  t_power_kw :: "rat option"
  t_frequency :: "rat option"
  t_solar_kw :: "rat option"
  t_battery_soc :: "rat option"
  t_grid_import_kw :: "rat option"
  t_grid_export_kw :: "rat option"
  t_power_factor :: "rat option"
  t_energy_import_kwh :: "rat option"
  t_energy_export_kwh :: "rat option"
  t_temperature :: "rat option"
  t_soh :: "rat option"
  t_state :: "string option"
  t_metadata :: pyval

datatype command_status = C_PENDING | C_SENT | C_ACKED | C_FAILED | C_COMPLETED

record command =
  command_id :: uuid
  command_device :: string
  command_device_type :: string
  command_type :: string
  command_params :: pyval
  command_status :: command_status
  issued_by :: string
  command_error :: "msg option"
  command_created :: rat
  dispatched_at :: "rat option"
  acked_at :: "rat option"

record der_asset =
  der_id :: string
  der_type :: string
  der_node :: "string option"
  rated_kw :: "rat option"
  rated_kwh :: "rat option"
  controllable :: bool
  vpp_group :: "string option"
  der_tenant :: string

subsection \<open>Control plane (sql/018) and automation (sql/020)\<close>

datatype action_status = PENDING | APPROVED | REJECTED | EXECUTED | FAILED | ROLLED_BACK
datatype action_mode = DryRun | Live
datatype risk_class = Low | High
datatype audit_event_kind =
  REQUESTED_EV | APPROVED_EV | REJECTED_EV | DRYRUN_EV | EXECUTED_EV | FAILED_EV | BLOCKED_EV | ROLLED_BACK_EV

record control_action =
  action_id :: uuid
  action_type :: string
  action_target :: "string option"
  action_params :: pyval
  action_mode :: action_mode
  action_risk :: risk_class
  action_status :: action_status
  action_reason :: "string option"
  requested_by :: string
  approved_by :: "string option"
  before_state :: pyval
  after_state :: "pyval option"
  action_error :: "msg option"
  action_tenant :: string
  action_version :: "nat option"
  created_at :: rat
  approved_at :: "rat option"
  executed_at :: "rat option"

record audit_row =
  audit_action :: uuid
  audit_event :: audit_event_kind
  audit_actor :: string
  audit_detail :: pyval
  audit_version :: "nat option"
  audit_at :: rat

record automation_policy =
  policy_id :: string
  policy_kind :: string
  policy_enabled :: bool
  policy_mode :: string
  policy_bounds :: pyval
  consecutive_failures :: nat
  policy_tripped :: bool
  last_run_at :: "rat option"
  policy_tenant :: string

record automation_event =
  ev_policy :: string
  ev_kind :: string
  ev_decision :: string
  ev_trigger :: pyval
  ev_action :: "uuid option"
  ev_detail :: pyval
  ev_tenant :: string
  ev_version :: "nat option"
  ev_at :: rat

record flisr_event =
  fe_id :: uuid
  fe_fault_node :: string
  fe_fault_edge :: "string option"
  fe_isolated :: "string list"
  fe_restored :: "string list"
  fe_customers_lost :: nat
  fe_customers_restored :: nat
  fe_customers_still_out :: nat
  fe_executed :: bool
  fe_steps :: "msg list"
  fe_version :: "nat option"

subsection \<open>Outage management (sql/014)\<close>

datatype case_status = DETECTED | CONFIRMED | RESTORED | CLOSED

record outage_case =
  case_id :: uuid
  case_status :: case_status
  case_cause :: string
  affected_node_id :: "string option"
  customers_affected :: nat
  detected_at :: rat
  confirmed_at :: "rat option"
  restored_at :: "rat option"
  closed_at :: "rat option"
  case_notes :: "string option"
  case_version :: "nat option"

record case_meter =
  cm_case :: uuid
  cm_meter :: string
  cm_node :: "string option"

datatype report_status = R_NEW | R_LINKED | R_CLOSED

record outage_report =
  report_id :: uuid
  report_customer :: "string option"
  report_meter :: "string option"
  report_node :: "string option"
  report_caller :: "string option"
  report_phone :: "string option"
  report_text :: "string option"
  report_created :: rat
  report_status :: report_status
  report_case :: "uuid option"

subsection \<open>The store\<close>

record db =
  now :: rat
  next_uuid :: uuid
  sites :: "string list"
  grid_nodes :: "grid_node list"
  grid_edges :: "grid_edge list"
  model_versions :: "model_version list"
  customers :: "customer list"
  service_points :: "service_point list"
  devices :: "device list"
  telemetry_rows :: "telemetry list"
  commands :: "command list"
  der_assets :: "der_asset list"
  control_actions :: "control_action list"
  control_audit :: "audit_row list"
  automation_policies :: "automation_policy list"
  automation_events :: "automation_event list"
  flisr_events :: "flisr_event list"
  outage_cases :: "outage_case list"
  case_meters :: "case_meter list"
  outage_reports :: "outage_report list"

text \<open>The store of a fresh installation, before any seed row.\<close>

definition empty_db :: db where
  "empty_db = \<lparr>now = 0, next_uuid = 0, sites = [], grid_nodes = [], grid_edges = [], model_versions = [],
     customers = [], service_points = [], devices = [], telemetry_rows = [], commands = [],
     der_assets = [], control_actions = [], control_audit = [], automation_policies = [],
     automation_events = [], flisr_events = [], outage_cases = [], case_meters = [],
     outage_reports = []\<rparr>"

text \<open>\<^verbatim>\<open>common.current_model_version()\<close>: the highest version flagged current, if any.\<close>

definition current_model_version :: "db \<Rightarrow> nat option" where
  "current_model_version s =
     (case map version (filter is_current (model_versions s)) of
        [] \<Rightarrow> None
      | v # vs \<Rightarrow> Some (fold max vs v))"

text \<open>\<^verbatim>\<open>SELECT ... FROM telemetry WHERE device_id = d ORDER BY time DESC LIMIT 1\<close>\<close>

definition latest_telemetry :: "db \<Rightarrow> string \<Rightarrow> telemetry option" where
  "latest_telemetry s d =
     (case filter (\<lambda>t. t_device t = d) (telemetry_rows s) of
        [] \<Rightarrow> None
      | t # ts \<Rightarrow> Some (max_by t_time t ts))"

lemma latest_telemetry_newest:
  assumes "latest_telemetry s d = Some t"
  shows "t \<in> set (telemetry_rows s)" and "t_device t = d"
    and "\<And>t'. t' \<in> set (telemetry_rows s) \<Longrightarrow> t_device t' = d \<Longrightarrow> t_time t' \<le> t_time t"
proof -
  obtain x xs where f: "filter (\<lambda>t. t_device t = d) (telemetry_rows s) = x # xs"
    and t: "t = max_by t_time x xs"
    using assms by (auto simp: latest_telemetry_def split: list.splits)
  have mem: "set (x # xs) = {t \<in> set (telemetry_rows s). t_device t = d}"
    by (simp flip: f)
  have "t \<in> set (x # xs)" using max_by_in [of t_time x xs] t by simp
  with mem show "t \<in> set (telemetry_rows s)" "t_device t = d" by auto
  fix t' assume "t' \<in> set (telemetry_rows s)" "t_device t' = d"
  with mem have "t' \<in> set (x # xs)" by simp
  then show "t_time t' \<le> t_time t"
    using max_by_ge [of t' xs t_time x] max_by_ge_start [of t_time x xs] t by auto
qed

subsection \<open>Row updates\<close>

text \<open>
  \<^verbatim>\<open>UPDATE t SET ... WHERE key = k\<close>: every matching row is rewritten in place.
\<close>

definition update_where :: "('a \<Rightarrow> bool) \<Rightarrow> ('a \<Rightarrow> 'a) \<Rightarrow> 'a list \<Rightarrow> 'a list" where
  "update_where p f = map (\<lambda>x. if p x then f x else x)"

lemma length_update_where [simp]: "length (update_where p f xs) = length xs"
  by (simp add: update_where_def)

lemma update_where_key:
  "(\<And>x. key (f x) = key x) \<Longrightarrow> map key (update_where p f xs) = map key xs"
  by (simp add: update_where_def)

lemma find_update_where:
  "(\<And>x. q (f x) = q x) \<Longrightarrow>
     find q (update_where p f xs) = map_option (\<lambda>x. if p x then f x else x) (find q xs)"
  by (induction xs) (auto simp: update_where_def)

lemma update_where_Nil [simp]: "update_where p f [] = []"
  by (simp add: update_where_def)

lemma update_where_Cons [simp]:
  "update_where p f (x # xs) = (if p x then f x else x) # update_where p f xs"
  by (simp add: update_where_def)

lemma in_set_update_where:
  "y \<in> set (update_where p f xs) \<longleftrightarrow> (\<exists>x\<in>set xs. y = (if p x then f x else x))"
  by (auto simp: update_where_def)

text \<open>\<^verbatim>\<open>UPDATE grid_edges SET is_closed = v WHERE edge_id = e\<close>\<close>

definition set_edge_closed :: "string \<Rightarrow> bool \<Rightarrow> grid_edge list \<Rightarrow> grid_edge list" where
  "set_edge_closed e v = update_where (\<lambda>x. edge_id x = e) (is_closed_update (\<lambda>_. v))"

definition write_edge :: "string \<Rightarrow> bool \<Rightarrow> db \<Rightarrow> db" where
  "write_edge e v s = s\<lparr>grid_edges := set_edge_closed e v (grid_edges s)\<rparr>"

lemma set_edge_closed_id: "map edge_id (set_edge_closed e v es) = map edge_id es"
  by (simp add: set_edge_closed_def update_where_key)

lemma set_edge_closed_twice:
  "set_edge_closed e v (set_edge_closed e w es) = set_edge_closed e v es"
  by (induction es) (simp_all add: set_edge_closed_def)

lemma set_edge_closed_same:
  "(\<And>x. x \<in> set es \<Longrightarrow> edge_id x = e \<Longrightarrow> is_closed x = v) \<Longrightarrow> set_edge_closed e v es = es"
  by (induction es) (auto simp: set_edge_closed_def)

lemma set_edge_closed_commute:
  "e \<noteq> e' \<Longrightarrow> set_edge_closed e v (set_edge_closed e' w es) = set_edge_closed e' w (set_edge_closed e v es)"
  by (induction es) (auto simp: set_edge_closed_def)

lemma write_edge_frame [simp, frame_simps]:
  "now (write_edge e v s) = now s" "next_uuid (write_edge e v s) = next_uuid s"
  "grid_nodes (write_edge e v s) = grid_nodes s" "service_points (write_edge e v s) = service_points s"
  "customers (write_edge e v s) = customers s" "devices (write_edge e v s) = devices s"
  "telemetry_rows (write_edge e v s) = telemetry_rows s" "commands (write_edge e v s) = commands s"
  "der_assets (write_edge e v s) = der_assets s" "outage_cases (write_edge e v s) = outage_cases s"
  "control_actions (write_edge e v s) = control_actions s" "control_audit (write_edge e v s) = control_audit s"
  "automation_policies (write_edge e v s) = automation_policies s"
  "model_versions (write_edge e v s) = model_versions s" "flisr_events (write_edge e v s) = flisr_events s"
  "grid_edges (write_edge e v s) = set_edge_closed e v (grid_edges s)"
  by (simp_all add: write_edge_def)

subsection \<open>Handlers that write and may raise\<close>

text \<open>
  Every statement commits by itself, so an exception leaves the writes made before it in place:
  a handler returns its result or exception together with the store it leaves behind.
\<close>

type_synonym 'a run = "(db, 'a) action"

definition http :: "nat \<Rightarrow> string \<Rightarrow> string list \<Rightarrow> 'a run" where
  "http code fmt args = fail (HTTPException code (Fmt fmt args))"

lemma http_run [simp]: "http c fmt a s = (Inl (HTTPException c (Fmt fmt a)), s)"
  by (simp add: http_def)

end
