(* ===== verification/Auth.thy ===== *)
theory Auth
  imports Store
begin

text \<open>
  Roles and tenants (\<^verbatim>\<open>src/fastapi/auth.py\<close>): the principal a request carries, the role ladder
  viewer < operator < engineer < admin with the machine role \<^verbatim>\<open>service\<close> beside it, and the
  guard \<^verbatim>\<open>require_role\<close> every endpoint runs first.
\<close>

datatype role = Viewer | Operator | Engineer | Admin | Service | OtherRole string

record principal =
  p_name :: string
  p_role :: role
  p_tenant :: "string option"

fun role_allowed :: "role \<Rightarrow> role list \<Rightarrow> bool" where
  "role_allowed Admin allowed = True"
| "role_allowed Service allowed = (Service \<in> set allowed)"
| "role_allowed Engineer allowed = list_ex (\<lambda>r. r \<in> set allowed) [Engineer, Operator, Viewer]"
| "role_allowed Operator allowed = list_ex (\<lambda>r. r \<in> set allowed) [Operator, Viewer]"
| "role_allowed Viewer allowed = (Viewer \<in> set allowed)"
| "role_allowed (OtherRole _) allowed = False"

text \<open>
  \<^verbatim>\<open>require_role(*allowed)\<close> with authentication enforced: \<open>None\<close> is a request that carries no
  valid credential.
\<close>

definition require_role :: "role list \<Rightarrow> principal option \<Rightarrow> principal result" where
  "require_role allowed po =
     (case po of
        None \<Rightarrow> Inl (HTTPException 401 (Fmt ''authentication required'' []))
      | Some p \<Rightarrow>
          if role_allowed (p_role p) allowed then Inr p
          else Inl (HTTPException 403 (Fmt ''role not permitted'' [])))"

lemma require_role_Inr:
  "require_role allowed po = Inr p \<longleftrightarrow> po = Some p \<and> role_allowed (p_role p) allowed"
  by (auto simp: require_role_def split: option.splits)

text \<open>The human ladder: whoever is higher is let in wherever a lower role is.\<close>

fun rank :: "role \<Rightarrow> nat option" where
  "rank Viewer = Some 1"
| "rank Operator = Some 2"
| "rank Engineer = Some 3"
| "rank Admin = Some 4"
| "rank _ = None"

definition at_least :: "role \<Rightarrow> role \<Rightarrow> bool" where
  "at_least hi lo = (case (rank hi, rank lo) of (Some h, Some l) \<Rightarrow> l \<le> h | _ \<Rightarrow> False)"

lemma role_allowed_mono:
  "at_least hi lo \<Longrightarrow> role_allowed lo allowed \<Longrightarrow> role_allowed hi allowed"
  by (cases hi; cases lo) (auto simp: at_least_def)

end
