(* ===== verification/Network_Model.thy ===== *)
theory Network_Model
  imports Graph_Search Auth
begin

text \<open>
  The unified network model: \<^verbatim>\<open>src/fastapi/common.py\<close> (the downstream walk) and
  \<^verbatim>\<open>src/fastapi/routers/topology.py\<close> (node, edge, customer and version CRUD, the switch endpoint,
  the downstream query, connected components and the topology validator). The constraints of
  \<^verbatim>\<open>src/sql/013_network_model.sql\<close> and \<^verbatim>\<open>sql/021\<close> are checked by the writes, where a violation is
  the \<^verbatim>\<open>psycopg2.IntegrityError\<close> the handlers turn into 409. Column widths are not modelled.
\<close>

subsection \<open>Walking the edges\<close>

definition closed_arcs :: "grid_edge list \<Rightarrow> (string \<times> string) list" where
  "closed_arcs es = map (\<lambda>e. (from_node e, to_node e)) (filter is_closed es)"

definition all_arcs :: "grid_edge list \<Rightarrow> (string \<times> string) list" where
  "all_arcs es = map (\<lambda>e. (from_node e, to_node e)) es"

definition downstream_node_ids :: "db \<Rightarrow> string \<Rightarrow> bool \<Rightarrow> string list" where
  "downstream_node_ids s start energized_only =
     reach (if energized_only then closed_arcs (grid_edges s) else all_arcs (grid_edges s)) [start]"

lemma set_closed_arcs:
  "set (closed_arcs es) = {(from_node e, to_node e) | e. e \<in> set es \<and> is_closed e}"
  by (auto simp: closed_arcs_def)

lemma set_all_arcs: "set (all_arcs es) = {(from_node e, to_node e) | e. e \<in> set es}"
  by (auto simp: all_arcs_def)

lemma closed_arcs_subset: "set (closed_arcs es) \<subseteq> set (all_arcs es)"
  by (auto simp: set_closed_arcs set_all_arcs)

lemma closed_arcs_open:
  "set (closed_arcs (set_edge_closed e False es)) \<subseteq> set (closed_arcs es)"
  by (auto simp: set_closed_arcs set_edge_closed_def in_set_update_where split: if_splits)

lemma closed_arcs_close:
  "set (closed_arcs es) \<subseteq> set (closed_arcs (set_edge_closed e True es))"
  by (force simp: set_closed_arcs set_edge_closed_def in_set_update_where)

lemma closed_arcs_close_upper:
  assumes "\<And>x. x \<in> set es \<Longrightarrow> edge_id x = e \<Longrightarrow> from_node x = a \<and> to_node x = b"
  shows "set (closed_arcs (set_edge_closed e True es)) \<subseteq> insert (a, b) (set (closed_arcs es))"
  using assms by (force simp: set_closed_arcs set_edge_closed_def in_set_update_where)

text \<open>The interface of \<open>Graph_Search\<close> for the closed network and for the physical one.\<close>

interpretation energized: reachability "\<lambda>es. set (closed_arcs es)" "\<lambda>es ss. set (reach (closed_arcs es) ss)"
  by (rule reachability_of_reach) (rule refl)+

interpretation physical: reachability "\<lambda>es. set (all_arcs es)" "\<lambda>es ss. set (reach (all_arcs es) ss)"
  by (rule reachability_of_reach) (rule refl)+

subsection \<open>Integrity constraints\<close>

definition node_types :: "string list" where
  "node_types = [''substation'', ''feeder'', ''transformer'', ''switch'', ''recloser'', ''bus'',
     ''meter'', ''der'', ''load'']"

definition edge_types :: "string list" where
  "edge_types = [''line'', ''switch'', ''transformer'', ''tie'']"

definition node_ids :: "db \<Rightarrow> string list" where
  "node_ids s = map node_id (grid_nodes s)"

definition edge_ids :: "db \<Rightarrow> string list" where
  "edge_ids s = map edge_id (grid_edges s)"

definition ref_ok :: "'a option \<Rightarrow> 'a list \<Rightarrow> bool" where
  "ref_ok r ks = (case r of None \<Rightarrow> True | Some k \<Rightarrow> k \<in> set ks)"

text \<open>Foreign keys and checks of one \<^verbatim>\<open>grid_nodes\<close> row, given the keys that will be present.\<close>

definition node_row_ok :: "db \<Rightarrow> string list \<Rightarrow> grid_node \<Rightarrow> bool" where
  "node_row_ok s ids n \<longleftrightarrow> node_type n \<in> set node_types \<and> ref_ok (parent_id n) ids \<and>
     ref_ok (node_site n) (sites s) \<and> ref_ok (node_device n) (map device_id (devices s))"

definition edge_row_ok :: "string list \<Rightarrow> grid_edge \<Rightarrow> bool" where
  "edge_row_ok ids e \<longleftrightarrow> edge_type e \<in> set edge_types \<and> from_node e \<in> set ids \<and> to_node e \<in> set ids"

text \<open>The rows of other tables that refer to a grid node.\<close>

definition node_refs :: "db \<Rightarrow> string option list" where
  "node_refs s = map sp_node (service_points s) @ map der_node (der_assets s)
     @ map affected_node_id (outage_cases s) @ map cm_node (case_meters s)
     @ map report_node (outage_reports s) @ map (\<lambda>f. Some (fe_fault_node f)) (flisr_events s)"

text \<open>Referential integrity of the network model.\<close>

definition grid_wf :: "db \<Rightarrow> bool" where
  "grid_wf s \<longleftrightarrow> distinct (node_ids s) \<and> distinct (edge_ids s) \<and>
     (\<forall>n\<in>set (grid_nodes s). node_row_ok s (node_ids s) n) \<and>
     (\<forall>e\<in>set (grid_edges s). edge_row_ok (node_ids s) e) \<and>
     (\<forall>r\<in>set (node_refs s). ref_ok r (node_ids s))"

lemma ref_ok_mono: "ref_ok r ks \<Longrightarrow> set ks \<subseteq> set ks' \<Longrightarrow> ref_ok r ks'"
  by (auto simp: ref_ok_def split: option.splits)

subsection \<open>Nodes\<close>

abbreviation "READ_ROLES \<equiv> [Viewer, Operator, Engineer, Admin, Service]"
abbreviation "WRITE_ROLES \<equiv> [Admin, Engineer]"
abbreviation "SWITCH_ROLES \<equiv> [Operator, Engineer, Admin]"

definition find_node :: "db \<Rightarrow> string \<Rightarrow> grid_node option" where
  "find_node s nid = find (\<lambda>n. node_id n = nid) (grid_nodes s)"

definition find_edge :: "db \<Rightarrow> string \<Rightarrow> grid_edge option" where
  "find_edge s eid = find (\<lambda>e. edge_id e = eid) (grid_edges s)"

definition conflict :: "'a result" where
  "conflict = Inl (HTTPException 409 (Fmt ''integrity error'' []))"

definition unknown :: "string \<Rightarrow> string \<Rightarrow> 'a result" where
  "unknown what k = Inl (HTTPException 404 (Fmt ''unknown {} {}'' [what, k]))"

text \<open>\<^verbatim>\<open>create_node\<close>: the row carries the current model version; a violated constraint is 409.\<close>

definition create_node :: "principal option \<Rightarrow> grid_node \<Rightarrow> db \<Rightarrow> (grid_node \<times> db) result" where
  "create_node po n s = bindR (require_role WRITE_ROLES po) (\<lambda>_.
     let n' = n\<lparr>node_version := current_model_version s\<rparr> in
     if node_id n \<in> set (node_ids s) \<or> \<not> node_row_ok s (node_id n # node_ids s) n' then conflict
     else Inr (n', s\<lparr>grid_nodes := grid_nodes s @ [n']\<rparr>))"

text \<open>
  \<^verbatim>\<open>NodeUpdate\<close>: the outer option is whether the field was sent, the inner one its null.
\<close>

record node_update =
  up_name :: "string option option"
  up_parent :: "string option option"
  up_site :: "string option option"
  up_device :: "string option option"
  up_latitude :: "rat option option"
  up_longitude :: "rat option option"
  up_kv :: "rat option option"
  up_phases :: "string option option"
  up_load_kw :: "rat option option"
  up_load_kvar :: "rat option option"
  up_class :: "string option option"
  up_attrs :: "pyval option"

definition apply_field :: "'a option \<Rightarrow> 'a \<Rightarrow> 'a" where
  "apply_field f old = (case f of None \<Rightarrow> old | Some v \<Rightarrow> v)"

text \<open>The three NOT NULL columns among them refuse an explicit null.\<close>

definition nulls_ok :: "node_update \<Rightarrow> bool" where
  "nulls_ok u \<longleftrightarrow> up_phases u \<noteq> Some None \<and> up_load_kw u \<noteq> Some None \<and> up_load_kvar u \<noteq> Some None"

definition apply_update :: "node_update \<Rightarrow> grid_node \<Rightarrow> grid_node" where
  "apply_update u n = n\<lparr>
     node_name := apply_field (up_name u) (node_name n),
     parent_id := apply_field (up_parent u) (parent_id n),
     node_site := apply_field (up_site u) (node_site n),
     node_device := apply_field (up_device u) (node_device n),
     latitude := apply_field (up_latitude u) (latitude n),
     longitude := apply_field (up_longitude u) (longitude n),
     nominal_kv := apply_field (up_kv u) (nominal_kv n),
     node_phases := (case up_phases u of Some (Some p) \<Rightarrow> p | _ \<Rightarrow> node_phases n),
     base_load_kw := (case up_load_kw u of Some (Some x) \<Rightarrow> x | _ \<Rightarrow> base_load_kw n),
     base_load_kvar := (case up_load_kvar u of Some (Some x) \<Rightarrow> x | _ \<Rightarrow> base_load_kvar n),
     load_class := apply_field (up_class u) (load_class n),
     node_attrs := apply_field (up_attrs u) (node_attrs n)\<rparr>"

definition update_node :: "principal option \<Rightarrow> string \<Rightarrow> node_update \<Rightarrow> db \<Rightarrow> (grid_node \<times> db) result" where
  "update_node po nid u s = bindR (require_role WRITE_ROLES po) (\<lambda>_.
     case find_node s nid of
       None \<Rightarrow> unknown ''node'' nid
     | Some n \<Rightarrow>
         let n' = apply_update u n in
         if \<not> nulls_ok u \<or> \<not> node_row_ok s (node_ids s) n' then conflict
         else Inr (n', s\<lparr>grid_nodes := update_where (\<lambda>x. node_id x = nid) (apply_update u) (grid_nodes s)\<rparr>))"

text \<open>\<^verbatim>\<open>delete_node\<close>: a row another row still refers to is a conflict.\<close>

definition node_referenced :: "db \<Rightarrow> string \<Rightarrow> bool" where
  "node_referenced s nid \<longleftrightarrow>
     (\<exists>n\<in>set (grid_nodes s). node_id n \<noteq> nid \<and> parent_id n = Some nid) \<or>
     (\<exists>e\<in>set (grid_edges s). from_node e = nid \<or> to_node e = nid) \<or>
     Some nid \<in> set (node_refs s)"

definition delete_node :: "principal option \<Rightarrow> string \<Rightarrow> db \<Rightarrow> db result" where
  "delete_node po nid s = bindR (require_role [Admin] po) (\<lambda>_.
     case find_node s nid of
       None \<Rightarrow> unknown ''node'' nid
     | Some _ \<Rightarrow> if node_referenced s nid then conflict
         else Inr (s\<lparr>grid_nodes := filter (\<lambda>n. node_id n \<noteq> nid) (grid_nodes s)\<rparr>))"

subsection \<open>Edges, versions, customers and service points\<close>

definition create_edge :: "principal option \<Rightarrow> grid_edge \<Rightarrow> db \<Rightarrow> (grid_edge \<times> db) result" where
  "create_edge po e s = bindR (require_role WRITE_ROLES po) (\<lambda>_.
     let e' = e\<lparr>edge_version := current_model_version s\<rparr> in
     if edge_id e \<in> set (edge_ids s) \<or> \<not> edge_row_ok (node_ids s) e' then conflict
     else Inr (e', s\<lparr>grid_edges := grid_edges s @ [e']\<rparr>))"

definition delete_edge :: "principal option \<Rightarrow> string \<Rightarrow> db \<Rightarrow> db result" where
  "delete_edge po eid s = bindR (require_role [Admin] po) (\<lambda>_.
     case find_edge s eid of
       None \<Rightarrow> unknown ''edge'' eid
     | Some _ \<Rightarrow> Inr (s\<lparr>grid_edges := filter (\<lambda>e. edge_id e \<noteq> eid) (grid_edges s)\<rparr>))"

definition set_switch :: "principal option \<Rightarrow> string \<Rightarrow> bool \<Rightarrow> db \<Rightarrow> (grid_edge \<times> db) result" where
  "set_switch po eid v s = bindR (require_role SWITCH_ROLES po) (\<lambda>_.
     case find_edge s eid of
       None \<Rightarrow> unknown ''edge'' eid
     | Some e \<Rightarrow>
         if \<not> is_switchable e then Inl (HTTPException 409 (Fmt ''edge {} is not switchable'' [eid]))
         else Inr (e\<lparr>is_closed := v\<rparr>, write_edge eid v s))"

text \<open>
  \<^verbatim>\<open>publish_version\<close>: the version column is a sequence, one past every version drawn so far.
\<close>

definition next_version :: "db \<Rightarrow> nat" where
  "next_version s = Suc (fold max (map version (model_versions s)) 0)"

definition publish_version :: "principal option \<Rightarrow> string \<Rightarrow> string option \<Rightarrow> db
    \<Rightarrow> (model_version \<times> db) result" where
  "publish_version po label descr s = bindR (require_role WRITE_ROLES po) (\<lambda>p.
     let v = \<lparr>version = next_version s, version_label = label, version_description = descr, created_by = p_name p, is_current = True\<rparr>
     in Inr (v, s\<lparr>model_versions :=
          update_where is_current (is_current_update (\<lambda>_. False)) (model_versions s) @ [v]\<rparr>))"

definition priorities :: "string list" where
  "priorities = [''standard'', ''medical'', ''critical'']"

definition create_customer :: "principal option \<Rightarrow> customer \<Rightarrow> db \<Rightarrow> (customer \<times> db) result" where
  "create_customer po c s = bindR (require_role WRITE_ROLES po) (\<lambda>_.
     if customer_id c \<in> customer_id ` set (customers s) \<or> customer_priority c \<notin> set priorities then conflict
     else Inr (c, s\<lparr>customers := customers s @ [c]\<rparr>))"

definition create_service_point :: "principal option \<Rightarrow> service_point \<Rightarrow> db \<Rightarrow> (service_point \<times> db) result" where
  "create_service_point po p s = bindR (require_role WRITE_ROLES po) (\<lambda>_.
     if service_point_id p \<in> service_point_id ` set (service_points s)
        \<or> \<not> ref_ok (sp_customer p) (map customer_id (customers s))
        \<or> \<not> ref_ok (sp_node p) (node_ids s)
        \<or> \<not> ref_ok (sp_meter p) (map device_id (devices s)) then conflict
     else Inr (p, s\<lparr>service_points := service_points s @ [p]\<rparr>))"

subsection \<open>Every write keeps referential integrity\<close>

lemma grid_wf_nodes_cong:
  assumes "grid_wf s" and "grid_nodes s' = grid_nodes s" "sites s' = sites s" "devices s' = devices s"
    and "distinct (edge_ids s')" "\<And>e. e \<in> set (grid_edges s') \<Longrightarrow> edge_row_ok (node_ids s) e"
    and "\<And>r. r \<in> set (node_refs s') \<Longrightarrow> ref_ok r (node_ids s)"
  shows "grid_wf s'"
  using assms by (simp add: grid_wf_def node_ids_def node_row_ok_def)

lemma find_node_Some: "find_node s nid = Some n \<Longrightarrow> n \<in> set (grid_nodes s) \<and> node_id n = nid"
  by (auto simp: find_node_def find_Some_iff)

lemma find_node_None: "find_node s nid = None \<longleftrightarrow> nid \<notin> set (node_ids s)"
  by (auto simp: find_node_def find_None_iff node_ids_def)

lemma find_edge_Some: "find_edge s eid = Some e \<Longrightarrow> e \<in> set (grid_edges s) \<and> edge_id e = eid"
  by (auto simp: find_edge_def find_Some_iff)

lemma find_edge_None: "find_edge s eid = None \<longleftrightarrow> eid \<notin> set (edge_ids s)"
  by (auto simp: find_edge_def find_None_iff edge_ids_def)

text \<open>Growing the set of node keys keeps every row of the model legal.\<close>

lemma node_row_ok_mono:
  "node_row_ok s ids n \<Longrightarrow> set ids \<subseteq> set ids' \<Longrightarrow> node_row_ok s ids' n"
  by (auto simp: node_row_ok_def intro: ref_ok_mono)

lemma edge_row_ok_mono: "edge_row_ok ids e \<Longrightarrow> set ids \<subseteq> set ids' \<Longrightarrow> edge_row_ok ids' e"
  by (auto simp: edge_row_ok_def)

lemma create_node_wf:
  assumes "grid_wf s" "create_node po n s = Inr (r, s')"
  shows "grid_wf s'"
proof -
  obtain p where "require_role WRITE_ROLES po = Inr p"
    using assms(2) by (auto simp: create_node_def bindR_eq_Inr)
  with assms(2) have fresh: "node_id n \<notin> set (node_ids s)" and ok: "node_row_ok s (node_id n # node_ids s) r"
    and r: "r = n\<lparr>node_version := current_model_version s\<rparr>"
    and s': "s' = s\<lparr>grid_nodes := grid_nodes s @ [r]\<rparr>"
    by (auto simp: create_node_def Let_def conflict_def split: if_splits)
  have ids: "node_ids s' = node_ids s @ [node_id n]" by (simp add: s' r node_ids_def)
  have "\<forall>x\<in>set (grid_nodes s'). node_row_ok s' (node_ids s') x"
  proof
    fix x assume "x \<in> set (grid_nodes s')"
    then have "x = r \<or> x \<in> set (grid_nodes s)" by (auto simp: s')
    then have "node_row_ok s (node_ids s') x"
    proof
      assume "x = r"
      with ok show ?thesis by (auto simp: ids intro: node_row_ok_mono)
    next
      assume "x \<in> set (grid_nodes s)"
      with assms(1) have "node_row_ok s (node_ids s) x" by (simp add: grid_wf_def)
      then show ?thesis by (auto simp: ids intro: node_row_ok_mono)
    qed
    then show "node_row_ok s' (node_ids s') x" by (simp add: node_row_ok_def s')
  qed
  moreover have frame: "grid_edges s' = grid_edges s" "edge_ids s' = edge_ids s" "node_refs s' = node_refs s"
    by (simp_all add: s' edge_ids_def node_refs_def)
  moreover have "set (node_ids s) \<subseteq> set (node_ids s')" by (auto simp: ids)
  ultimately show ?thesis
    using assms(1) fresh unfolding grid_wf_def
    by (auto simp: ids intro: edge_row_ok_mono ref_ok_mono)
qed

lemma apply_update_id [simp]: "node_id (apply_update u n) = node_id n"
  and apply_update_type [simp]: "node_type (apply_update u n) = node_type n"
  by (simp_all add: apply_update_def)

lemma update_node_wf:
  assumes "grid_wf s" "update_node po nid u s = Inr (r, s')"
  shows "grid_wf s'"
proof -
  obtain n where n: "find_node s nid = Some n" and ok: "node_row_ok s (node_ids s) (apply_update u n)"
    and s': "s' = s\<lparr>grid_nodes := update_where (\<lambda>x. node_id x = nid) (apply_update u) (grid_nodes s)\<rparr>"
    using assms(2)
    by (auto simp: update_node_def bindR_eq_Inr Let_def conflict_def unknown_def
             split: option.splits if_splits)
  have ids: "node_ids s' = node_ids s" by (simp add: s' node_ids_def update_where_key)
  have uniq: "x = n" if "x \<in> set (grid_nodes s)" "node_id x = nid" for x
    using that find_node_Some [OF n] assms(1) by (auto simp: grid_wf_def node_ids_def distinct_map inj_on_def)
  have "\<forall>x\<in>set (grid_nodes s'). node_row_ok s' (node_ids s') x"
    using assms(1) ok uniq
    by (auto simp: s' in_set_update_where grid_wf_def node_row_ok_def node_ids_def update_where_key)
  then show ?thesis
    using assms(1) by (simp add: grid_wf_def ids) (simp add: s' edge_ids_def node_refs_def)
qed

lemma delete_node_wf:
  assumes "grid_wf s" "delete_node po nid s = Inr s'"
  shows "grid_wf s'"
proof -
  have free: "\<not> node_referenced s nid"
    and s': "s' = s\<lparr>grid_nodes := filter (\<lambda>n. node_id n \<noteq> nid) (grid_nodes s)\<rparr>"
    using assms(2)
    by (auto simp: delete_node_def bindR_eq_Inr conflict_def unknown_def split: option.splits if_splits)
  have ids: "node_ids s' = filter (\<lambda>k. k \<noteq> nid) (node_ids s)"
    by (simp add: s' node_ids_def filter_map o_def)
  have keep: "ref_ok r (node_ids s')" if "ref_ok r (node_ids s)" "r \<noteq> Some nid" for r
    using that by (auto simp: ids ref_ok_def split: option.splits)
  have frame: "grid_edges s' = grid_edges s" "edge_ids s' = edge_ids s" "node_refs s' = node_refs s"
    "sites s' = sites s" "devices s' = devices s"
    "grid_nodes s' = filter (\<lambda>n. node_id n \<noteq> nid) (grid_nodes s)"
    by (simp_all add: s' edge_ids_def node_refs_def)
  have "node_row_ok s' (node_ids s') n" if "n \<in> set (grid_nodes s')" for n
    using that assms(1) free keep [of "parent_id n"]
    by (auto simp: grid_wf_def frame node_row_ok_def node_referenced_def)
  moreover have "edge_row_ok (node_ids s') e" if "e \<in> set (grid_edges s')" for e
    using that assms(1) free by (auto simp: grid_wf_def frame edge_row_ok_def node_referenced_def ids)
  moreover have "ref_ok r (node_ids s')" if "r \<in> set (node_refs s')" for r
    by (rule keep) (use that assms(1) free in \<open>auto simp: grid_wf_def frame node_referenced_def\<close>)
  ultimately show ?thesis
    using assms(1) by (simp add: grid_wf_def frame ids)
qed

lemma create_edge_wf:
  assumes "grid_wf s" "create_edge po e s = Inr (r, s')"
  shows "grid_wf s'"
proof -
  obtain p where "require_role WRITE_ROLES po = Inr p"
    using assms(2) by (auto simp: create_edge_def bindR_eq_Inr)
  with assms(2) have "edge_id e \<notin> set (edge_ids s)" "edge_row_ok (node_ids s) r" "edge_id r = edge_id e"
    and s': "s' = s\<lparr>grid_edges := grid_edges s @ [r]\<rparr>"
    by (auto simp: create_edge_def Let_def conflict_def split: if_splits)
  then show ?thesis
    using assms(1) by (intro grid_wf_nodes_cong [OF assms(1)]) (auto simp: grid_wf_def edge_ids_def node_refs_def)
qed

lemma delete_edge_wf:
  assumes "grid_wf s" "delete_edge po eid s = Inr s'"
  shows "grid_wf s'"
proof -
  have s': "s' = s\<lparr>grid_edges := filter (\<lambda>e. edge_id e \<noteq> eid) (grid_edges s)\<rparr>"
    using assms(2) by (auto simp: delete_edge_def bindR_eq_Inr unknown_def split: option.splits)
  then show ?thesis
    using assms(1)
    by (intro grid_wf_nodes_cong [OF assms(1)]) (auto simp: grid_wf_def edge_ids_def node_refs_def distinct_map_filter)
qed

lemma write_edge_wf:
  assumes "grid_wf s"
  shows "grid_wf (write_edge e v s)"
proof (rule grid_wf_nodes_cong [OF assms])
  show "distinct (edge_ids (write_edge e v s))"
    using assms by (simp add: grid_wf_def edge_ids_def set_edge_closed_id)
  fix x assume "x \<in> set (grid_edges (write_edge e v s))"
  then show "edge_row_ok (node_ids s) x"
    using assms by (auto simp: set_edge_closed_def in_set_update_where grid_wf_def edge_row_ok_def split: if_splits)
next
  fix r assume "r \<in> set (node_refs (write_edge e v s))"
  then show "ref_ok r (node_ids s)" using assms by (simp add: grid_wf_def node_refs_def write_edge_def)
qed (simp_all add: write_edge_def)

lemma set_switch_wf:
  assumes "grid_wf s" "set_switch po eid v s = Inr (r, s')"
  shows "grid_wf s'"
  using assms write_edge_wf
  by (auto simp: set_switch_def bindR_eq_Inr unknown_def split: option.splits if_splits)

lemma create_service_point_wf:
  assumes "grid_wf s" "create_service_point po sp s = Inr (r, s')"
  shows "grid_wf s'"
  using assms
  by (intro grid_wf_nodes_cong [OF assms(1)])
     (auto simp: create_service_point_def bindR_eq_Inr conflict_def grid_wf_def edge_ids_def node_refs_def
           split: if_splits)

text \<open>The writes of the topology API as a step relation.\<close>

inductive topology_step :: "db \<Rightarrow> db \<Rightarrow> bool" where
  create_node_step: "create_node po n s = Inr (r, s') \<Longrightarrow> topology_step s s'"
| update_node_step: "update_node po nid u s = Inr (r, s') \<Longrightarrow> topology_step s s'"
| delete_node_step: "delete_node po nid s = Inr s' \<Longrightarrow> topology_step s s'"
| create_edge_step: "create_edge po e s = Inr (r, s') \<Longrightarrow> topology_step s s'"
| delete_edge_step: "delete_edge po eid s = Inr s' \<Longrightarrow> topology_step s s'"
| set_switch_step: "set_switch po eid v s = Inr (r, s') \<Longrightarrow> topology_step s s'"
| publish_version_step: "publish_version po l d s = Inr (v, s') \<Longrightarrow> topology_step s s'"
| create_customer_step: "create_customer po c s = Inr (r, s') \<Longrightarrow> topology_step s s'"
| create_service_point_step: "create_service_point po p s = Inr (r', s') \<Longrightarrow> topology_step s s'"

lemma topology_step_wf: "topology_step s s' \<Longrightarrow> grid_wf s \<Longrightarrow> grid_wf s'"
proof (induction rule: topology_step.induct)
  case (publish_version_step po l d s v s')
  then show ?case
    by (auto simp: publish_version_def bindR_eq_Inr Let_def grid_wf_def edge_ids_def node_ids_def
                   node_row_ok_def node_refs_def)
next
  case (create_customer_step po c s r s')
  then show ?case
    by (auto simp: create_customer_def bindR_eq_Inr conflict_def grid_wf_def edge_ids_def node_ids_def
                   node_row_ok_def node_refs_def split: if_splits)
qed (auto intro: create_node_wf update_node_wf delete_node_wf create_edge_wf delete_edge_wf
       set_switch_wf create_service_point_wf)

text \<open>
  Given the constraints of the schema, which the operations above evaluate as their errors (the
  handlers check nothing of the kind), no sequence of topology API calls breaks the referential
  integrity of the network model: unique node and edge keys, every edge end, parent
  and reference of another table naming an existing node.
\<close>

theorem topology_history_wf:
  assumes "topology_step\<^sup>*\<^sup>* s s'" "grid_wf s"
  shows "grid_wf s'"
  using assms by (induction rule: rtranclp_induct) (auto intro: topology_step_wf)

lemma empty_wf: "grid_wf empty_db"
  by code_simp

theorem topology_history_wf_witness:
  "\<exists>s'. topology_step\<^sup>*\<^sup>* empty_db s' \<and> length (model_versions s') = 1 \<and> grid_wf s'"
proof -
  let ?p = "Some \<lparr>p_name = ''eng'', p_role = Engineer, p_tenant = None\<rparr>"
  have "map_sum id (length \<circ> model_versions \<circ> snd) (publish_version ?p ''v1'' None empty_db) = Inr 1"
    by code_simp
  then obtain v s' where v: "publish_version ?p ''v1'' None empty_db = Inr (v, s')"
    and n: "length (model_versions s') = 1"
    by (cases "publish_version ?p ''v1'' None empty_db") auto
  then have "topology_step\<^sup>*\<^sup>* empty_db s'" by (blast intro: publish_version_step)
  with n topology_history_wf [OF this empty_wf] show ?thesis by blast
qed

lemma fold_max_ge: "(v::nat) \<in> set vs \<or> v \<le> a \<Longrightarrow> v \<le> fold max vs a"
  by (induction vs arbitrary: a) (auto simp: le_max_iff_disj)

text \<open>
  Publishing a version leaves exactly one current version, the new one; its number exceeds
  every earlier number, and rows created from then on are stamped with it.
\<close>

theorem publish_version_current:
  assumes "publish_version po l d s = Inr (v, s')"
  shows "filter is_current (model_versions s') = [v] \<and> current_model_version s' = Some (version v) \<and>
    (\<forall>v'\<in>set (model_versions s). version v' < version v) \<and>
    (\<forall>po n r s''. create_node po n s' = Inr (r, s'') \<longrightarrow> node_version r = Some (version v))"
proof -
  have v: "is_current v" "version v = next_version s"
    "model_versions s' = update_where is_current (is_current_update (\<lambda>_. False)) (model_versions s) @ [v]"
    using assms by (auto simp: publish_version_def bindR_eq_Inr Let_def)
  have f: "filter is_current (update_where is_current (is_current_update (\<lambda>_. False)) vs) = []" for vs :: "model_version list"
    by (induction vs) auto
  have cur: "filter is_current (model_versions s') = [v]" using v f by simp
  then have c: "current_model_version s' = Some (version v)" by (simp add: current_model_version_def)
  have "version v' < version v" if "v' \<in> set (model_versions s)" for v'
    using fold_max_ge [of "version v'" "map version (model_versions s)" 0] that
    by (auto simp: v(2) next_version_def less_Suc_eq_le)
  with cur c show ?thesis
    by (auto simp: create_node_def bindR_eq_Inr Let_def conflict_def split: if_splits)
qed

theorem publish_version_current_witness:
  "\<exists>v s'. publish_version (Some \<lparr>p_name = ''eng'', p_role = Engineer, p_tenant = None\<rparr>) ''v1'' None empty_db
     = Inr (v, s') \<and> current_model_version s' = Some (version v)"
proof -
  let ?p = "Some \<lparr>p_name = ''eng'', p_role = Engineer, p_tenant = None\<rparr>"
  have "\<not> isl (publish_version ?p ''v1'' None empty_db)" by code_simp
  then obtain v s' where v: "publish_version ?p ''v1'' None empty_db = Inr (v, s')"
    by (cases "publish_version ?p ''v1'' None empty_db") auto
  with publish_version_current [OF v] show ?thesis by blast
qed

end
