(* ===== verification/Demo_Network.thy ===== *)
theory Demo_Network
  imports Network_Model
begin

text \<open>
  Concrete networks on which the properties are exercised: a feeder with one tie, the same feeder
  fed from both ends, and a ring of two parallel lines. They also carry the customers, devices
  and telemetry that the outage and control components look up.
\<close>

definition mk_node :: "string \<Rightarrow> string \<Rightarrow> string option \<Rightarrow> grid_node" where
  "mk_node n ty par = \<lparr>node_id = n, node_type = ty, node_name = None, parent_id = par, node_site = None,
     node_device = None, latitude = None, longitude = None, nominal_kv = None, node_phases = ''ABC'', base_load_kw = 0, base_load_kvar = 0,
     load_class = None, node_attrs = PDict [], node_version = None\<rparr>"

definition mk_edge :: "string \<Rightarrow> string \<Rightarrow> string \<Rightarrow> string \<Rightarrow> bool \<Rightarrow> grid_edge" where
  "mk_edge e a b ty cl = \<lparr>edge_id = e, from_node = a, to_node = b, edge_type = ty, is_switchable = True,
     normally_closed = cl, is_closed = cl, rating_kw = None, resistance_r_ohm = None,
     reactance_x_ohm = None, length_km = None, ampacity_a = None, edge_phases = ''ABC'',
     edge_attrs = PDict [], edge_version = None\<rparr>"

definition mk_sp :: "string \<Rightarrow> string \<Rightarrow> service_point" where
  "mk_sp k n = \<lparr>service_point_id = k, sp_customer = Some ''CUST'', sp_node = Some n, sp_meter = None\<rparr>"

definition mk_device :: "string \<Rightarrow> string \<Rightarrow> string \<Rightarrow> device" where [simp]:
  "mk_device d ty tn = \<lparr>device_id = d, device_type = ty, device_tenant = tn, device_status = ''ONLINE'',
     device_site = None, device_location = None, device_created = 0\<rparr>"

definition mk_telemetry :: "string \<Rightarrow> rat \<Rightarrow> pyval \<Rightarrow> telemetry" where
  "mk_telemetry d t md = \<lparr>t_device = d, t_time = t, t_voltage = None, t_current = None, t_power_kw = Some 4, t_frequency = None,
     t_solar_kw = None, t_battery_soc = None, t_grid_import_kw = None, t_grid_export_kw = None, t_power_factor = None,
     t_energy_import_kwh = None, t_energy_export_kwh = None, t_temperature = None, t_soh = None, t_state = None, t_metadata = md\<rparr>"

text \<open>\<open>S1 - E1 - A - E2 - B - E3 - C\<close>, with an open tie \<open>T1\<close> from a second source \<open>S2\<close> to \<open>C\<close>.\<close>

definition demo_db :: db where
  "demo_db = empty_db\<lparr>
     grid_nodes := [mk_node ''S1'' ''substation'' None, mk_node ''S2'' ''substation'' None,
       mk_node ''A'' ''bus'' (Some ''S1''), mk_node ''B'' ''bus'' (Some ''A''), mk_node ''C'' ''meter'' (Some ''B'')],
     grid_edges := [mk_edge ''E1'' ''S1'' ''A'' ''switch'' True, (mk_edge ''E2'' ''A'' ''B'' ''switch'' True)
         \<lparr>edge_attrs := PDict [(''device_id'', PStr ''RTU1'')]\<rparr>,
       mk_edge ''E3'' ''B'' ''C'' ''switch'' True, mk_edge ''T1'' ''S2'' ''C'' ''tie'' False],
     customers := [\<lparr>customer_id = ''CUST'', customer_name = None, customer_address = None, customer_phone = None,
       customer_priority = ''medical''\<rparr>],
     devices := [mk_device ''RTU1'' ''microgrid'' ''default'', mk_device ''EV1'' ''ev_charger'' ''other''],
     telemetry_rows := [mk_telemetry ''RTU1'' 90 (PDict [(''grid_connected'', PBool True)]),
       mk_telemetry ''EV1'' 95 (PDict [])],
     der_assets := [\<lparr>der_id = ''EV1'', der_type = ''ev_charger'', der_node = Some ''C'', rated_kw = Some 22,
       rated_kwh = None, controllable = True, vpp_group = None, der_tenant = ''default''\<rparr>],
     now := 100,
     service_points := [mk_sp ''P1'' ''A'', mk_sp ''P2'' ''B'', mk_sp ''P3'' ''C'']\<rparr>"

text \<open>The same feeder with \<open>A\<close> fed from \<open>S2\<close> as well.\<close>

definition ring_db :: db where
  "ring_db = demo_db\<lparr>grid_edges := [mk_edge ''E1'' ''S1'' ''A'' ''switch'' True, mk_edge ''R1'' ''S2'' ''A'' ''switch'' True]\<rparr>"

text \<open>Two closed lines between the same two nodes, drawn in opposite directions.\<close>

definition parallel_db :: db where
  "parallel_db = demo_db\<lparr>grid_edges := grid_edges demo_db @ [mk_edge ''E2R'' ''B'' ''A'' ''line'' True]\<rparr>"

definition operator1 :: principal where
  "operator1 = \<lparr>p_name = ''op1'', p_role = Operator, p_tenant = Some ''default''\<rparr>"

definition engineer1 :: principal where
  "engineer1 = \<lparr>p_name = ''eng1'', p_role = Engineer, p_tenant = Some ''default''\<rparr>"

definition admin1 :: principal where
  "admin1 = \<lparr>p_name = ''admin1'', p_role = Admin, p_tenant = Some ''default''\<rparr>"

end
