(* ===== verification/Topology_Analysis.thy ===== *)
theory Topology_Analysis
  imports Demo_Network
begin

text \<open>
  The read side of \<^verbatim>\<open>src/fastapi/routers/topology.py\<close>: the downstream query, connected
  components, and the validator with its orphan, loop, multi-feed and hierarchy checks.
\<close>

subsection \<open>Downstream of a node\<close>

definition sp_priority :: "db \<Rightarrow> service_point \<Rightarrow> string option" where
  "sp_priority s sp = (case sp_customer sp of None \<Rightarrow> None
     | Some c \<Rightarrow> map_option customer_priority (find (\<lambda>x. customer_id x = c) (customers s)))"

definition service_points_at :: "db \<Rightarrow> string set \<Rightarrow> service_point list" where
  "service_points_at s ns = filter (\<lambda>sp. case sp_node sp of None \<Rightarrow> False | Some n \<Rightarrow> n \<in> ns) (service_points s)"

fun count_by :: "string list \<Rightarrow> (string \<times> nat) list \<Rightarrow> (string \<times> nat) list" where
  "count_by [] d = d"
| "count_by (k # ks) d = count_by ks (dict_put k (dict_get d k 0 + 1) d)"

record downstream_report =
  dr_reachable :: "string list"
  dr_meters :: "string list"
  dr_service_points :: "service_point list"
  dr_count :: nat
  dr_by_priority :: "(string \<times> nat) list"

definition priority_key :: "db \<Rightarrow> service_point \<Rightarrow> string" where
  "priority_key s sp = (case sp_priority s sp of None \<Rightarrow> ''standard''
     | Some p \<Rightarrow> if p = [] then ''standard'' else p)"

definition downstream :: "principal option \<Rightarrow> string \<Rightarrow> bool \<Rightarrow> db \<Rightarrow> downstream_report result" where
  "downstream po nid energized_only s = bindR (require_role READ_ROLES po) (\<lambda>_.
     case find_node s nid of
       None \<Rightarrow> unknown ''node'' nid
     | Some _ \<Rightarrow>
         let reachable = downstream_node_ids s nid energized_only;
             nodes = filter (\<lambda>n. node_id n \<in> set reachable) (grid_nodes s);
             sps = service_points_at s (set reachable)
         in Inr \<lparr>dr_reachable = reachable,
                 dr_meters = map node_id (filter (\<lambda>n. node_type n = ''meter'') nodes),
                 dr_service_points = sps, dr_count = length sps,
                 dr_by_priority = count_by (map (priority_key s) sps) []\<rparr>)"

lemma count_by_get:
  "dict_get (count_by ks d) k 0 = dict_get d k 0 + count_list ks k"
  by (induction ks d rule: count_by.induct) (auto simp: dict_get_put)

lemma count_by_keys: "fst ` set (count_by ks d) = fst ` set d \<union> set ks"
  by (induction ks d rule: count_by.induct) (auto simp: dom_dict_put)

lemma count_by_distinct: "distinct (map fst d) \<Longrightarrow> distinct (map fst (count_by ks d))"
  by (induction ks d rule: count_by.induct) (simp_all add: distinct_dict_put)

lemma sum_dict_put:
  "distinct (map fst d) \<Longrightarrow>
     sum_list (map snd (dict_put k (Suc (dict_get d k 0)) d)) = Suc (sum_list (map snd d))"
proof (induction d)
  case (Cons p d)
  obtain a b where p: "p = (a, b)" by fastforce
  show ?case using Cons by (auto simp: p dict_get_def)
qed (simp add: dict_get_def)

lemma count_by_total:
  "distinct (map fst d) \<Longrightarrow> sum_list (map snd (count_by ks d)) = sum_list (map snd d) + length ks"
proof (induction ks d rule: count_by.induct)
  case (2 k ks d)
  then show ?case by (simp add: distinct_dict_put sum_dict_put)
qed simp

subsection \<open>Connected components\<close>

text \<open>
  \<^verbatim>\<open>_components\<close>: one walk per node that no earlier walk has marked. The nodes a walk pops are
  the ones it marked, which are the new tail of \<open>seen\<close>.
\<close>

fun components_from :: "(string \<times> string) list \<Rightarrow> string list \<Rightarrow> string list \<Rightarrow> string list list" where
  "components_from arcs [] seen = []"
| "components_from arcs (x # xs) seen =
     (if x \<in> set seen then components_from arcs xs seen
      else let seen' = explore arcs (seen @ [x]) [x]
           in sort (drop (length seen) seen') # components_from arcs xs seen')"

definition components :: "string list \<Rightarrow> (string \<times> string) list \<Rightarrow> string list list" where
  "components ids arcs = components_from arcs (sort (remdups ids)) []"

lemma explore_prefix: "\<exists>more. explore arcs seen stack = seen @ more"
proof (induction arcs seen stack rule: explore.induct)
  case (2 arcs seen c stack)
  obtain seen' stack' where p: "push_new (successors arcs c) seen stack = (seen', stack')"
    by fastforce
  obtain more where "explore arcs seen' stack' = seen' @ more"
    using "2.IH" [OF p [symmetric] refl] by blast
  with push_new_prefix [OF p] show ?case by (auto simp: p explore.simps)
qed (simp add: explore.simps)

text \<open>One more walk over a symmetric graph adds exactly one equivalence class.\<close>

lemma new_component:
  assumes cl: "set arcs `` set seen \<subseteq> set seen" and x: "x \<notin> set seen" and d: "distinct seen"
    and sym: "sym (set arcs)" and e: "seen' = explore arcs (seen @ [x]) [x]"
  shows "set (drop (length seen) seen') = (set arcs)\<^sup>* `` {x}" and "distinct seen'"
    and "set seen' = set seen \<union> (set arcs)\<^sup>* `` {x}" and "set arcs `` set seen' \<subseteq> set seen'"
proof -
  let ?R = "(set arcs)\<^sup>*"
  have w: "walk_inv arcs (seen @ [x]) [x]" using cl x by (auto simp: walk_inv_def)
  have cls: "?R `` set seen = set seen" using cl by (rule Image_closed_trancl)
  have s: "set seen' = set seen \<union> ?R `` {x}"
    using explore_set [OF w] cls by (auto simp: e)
  then show "set seen' = set seen \<union> ?R `` {x}" .
  show dd: "distinct seen'" using d x by (simp add: e explore_distinct)
  have disj: "?R `` {x} \<inter> set seen = {}"
  proof (rule ccontr)
    assume "?R `` {x} \<inter> set seen \<noteq> {}"
    then obtain y where y: "(x, y) \<in> ?R" "y \<in> set seen" by blast
    then have "(y, x) \<in> ?R" using sym by (metis sym_rtrancl symD)
    with y cls x show False by blast
  qed
  obtain more where m: "seen' = (seen @ [x]) @ more" using explore_prefix [of arcs "seen @ [x]" "[x]"] e by auto
  then have dr: "drop (length seen) seen' = x # more" by simp
  have "set seen' = set seen \<union> set (drop (length seen) seen')" by (simp add: m)
  moreover have "set seen \<inter> set (drop (length seen) seen') = {}" using dd by (auto simp: m)
  ultimately show "set (drop (length seen) seen') = ?R `` {x}" using s disj by blast
  show "set arcs `` set seen' \<subseteq> set seen'"
    unfolding s using cl by (auto intro: rtrancl.rtrancl_into_rtrancl)
qed

lemma components_from_classes:
  assumes "sym (set arcs)" "set arcs `` set seen \<subseteq> set seen" "distinct seen"
  shows "set (map set (components_from arcs xs seen)) = (\<lambda>x. (set arcs)\<^sup>* `` {x}) ` (set xs - set seen)"
  using assms
proof (induction arcs xs seen rule: components_from.induct)
  case (2 arcs x xs seen)
  let ?R = "(set arcs)\<^sup>*"
  show ?case
  proof (cases "x \<in> set seen")
    case True
    with 2 show ?thesis by (simp add: insert_absorb)
  next
    case False
    define seen' where e: "seen' = explore arcs (seen @ [x]) [x]"
    note nc = new_component [OF "2.prems"(2) False "2.prems"(3,1) e]
    have IH: "set (map set (components_from arcs xs seen')) = (\<lambda>x. ?R `` {x}) ` (set xs - set seen')"
      using "2.IH"(2) [OF False e] "2.prems"(1) nc by blast
    have same: "?R `` {y} = ?R `` {x}" if "y \<in> ?R `` {x}" for y
    proof -
      have xy: "(x, y) \<in> ?R" using that by simp
      then have yx: "(y, x) \<in> ?R" by (rule symD [OF sym_rtrancl [OF "2.prems"(1)]])
      show ?thesis by (auto intro: rtrancl_trans [OF xy] rtrancl_trans [OF yx])
    qed
    have "set (x # xs) - set seen \<subseteq> insert x (set xs - set seen') \<union> ?R `` {x}"
      "insert x (set xs - set seen') \<subseteq> set (x # xs) - set seen"
      using False by (auto simp: nc(3))
    then have "(\<lambda>x. ?R `` {x}) ` (set (x # xs) - set seen)
        = insert (?R `` {x}) ((\<lambda>x. ?R `` {x}) ` (set xs - set seen'))"
      by (rule image_absorb) (rule same)
    moreover have "components_from arcs (x # xs) seen
        = sort (drop (length seen) seen') # components_from arcs xs seen'"
      using False by (simp add: Let_def e)
    ultimately show ?thesis using IH nc(1) by simp
  qed
qed simp

lemma components_from_disjoint:
  assumes "sym (set arcs)" "set arcs `` set seen \<subseteq> set seen" "distinct seen"
  shows "distinct (concat (components_from arcs xs seen)) \<and>
         set (concat (components_from arcs xs seen)) \<inter> set seen = {}"
  using assms
proof (induction arcs xs seen rule: components_from.induct)
  case (2 arcs x xs seen)
  show ?case
  proof (cases "x \<in> set seen")
    case True
    with 2 show ?thesis by simp
  next
    case False
    define seen' where e: "seen' = explore arcs (seen @ [x]) [x]"
    note nc = new_component [OF "2.prems"(2) False "2.prems"(3,1) e]
    have IH: "distinct (concat (components_from arcs xs seen')) \<and>
        set (concat (components_from arcs xs seen')) \<inter> set seen' = {}"
      using "2.IH"(2) [OF False e] "2.prems"(1) nc by blast
    obtain more where m: "seen' = seen @ more"
      using explore_prefix [of arcs "seen @ [x]" "[x]"] e by auto
    have step: "components_from arcs (x # xs) seen
        = sort (drop (length seen) seen') # components_from arcs xs seen'"
      using False by (simp add: Let_def e)
    show ?thesis unfolding step using nc(2) IH by (auto simp: m)
  qed
qed simp

text \<open>The components of a symmetric graph are its equivalence classes, each listed once.\<close>

lemma components_classes:
  assumes "sym (set arcs)"
  shows "set (map set (components ids arcs)) = (\<lambda>x. (set arcs)\<^sup>* `` {x}) ` set ids"
    and "distinct (concat (components ids arcs))"
  using components_from_classes [of arcs "[]" "sort (remdups ids)"]
    components_from_disjoint [of arcs "[]" "sort (remdups ids)"] assms
  by (simp_all add: components_def)

lemma components_from_nonempty: "[] \<notin> set (components_from arcs xs seen)"
proof (induction arcs xs seen rule: components_from.induct)
  case (2 arcs x xs seen)
  obtain more where "explore arcs (seen @ [x]) [x] = (seen @ [x]) @ more"
    using explore_prefix [of arcs "seen @ [x]" "[x]"] by blast
  then have "sort (drop (length seen) (explore arcs (seen @ [x]) [x])) \<noteq> []"
    by (simp flip: length_0_conv)
  with 2 show ?case by (simp add: Let_def)
qed simp

subsection \<open>The validator\<close>

definition both_ways :: "(string \<times> string) list \<Rightarrow> (string \<times> string) list" where
  "both_ways arcs = arcs @ map (\<lambda>(a, b). (b, a)) arcs"

lemma set_both_ways: "set (both_ways arcs) = set arcs \<union> (set arcs)\<inverse>"
  by (auto simp: both_ways_def)

lemma sym_both_ways: "sym (set (both_ways arcs))"
  by (auto simp: set_both_ways sym_def)

datatype topology_issue =
    NoSource
  | ManySources "string list"
  | Orphans "string list"
  | OperationalLoops int
  | MultiFed "string list"
  | NoParent string
  | MissingParent string string
  | HierarchyGap "string list"
  | MissingImpedance "string list"

record topology_report =
  tr_ok :: bool
  tr_radial :: bool
  tr_nodes :: nat
  tr_edges :: nat
  tr_sources :: nat
  tr_components :: nat
  tr_structural_loops :: int
  tr_operational_loops :: int
  tr_loop_closing :: "string list"
  tr_orphans :: "string list"
  tr_multi_fed :: "string list"
  tr_errors :: "topology_issue list"
  tr_warnings :: "topology_issue list"

text \<open>
  \<^verbatim>\<open>loops(adj)\<close>: the cyclomatic number. The adjacency maps are maps to sets, so parallel arcs
  count once.
\<close>

definition cyclomatic :: "string list \<Rightarrow> (string \<times> string) list \<Rightarrow> int" where
  "cyclomatic ids arcs =
     int (sum_list (map (\<lambda>n. length (remdups (successors arcs n))) ids) div 2)
     - int (length ids) + int (length (components ids arcs))"

definition substations :: "db \<Rightarrow> string list" where
  "substations s = map node_id (filter (\<lambda>n. node_type n = ''substation'') (grid_nodes s))"

definition orphans_of :: "string list \<Rightarrow> string list \<Rightarrow> string list list \<Rightarrow> string list" where
  "orphans_of ids sources comps =
     (let energizable = concat (filter (\<lambda>c. list_ex (\<lambda>x. x \<in> set c) sources) comps)
      in sort (filter (\<lambda>n. n \<notin> set energizable \<and> n \<notin> set sources) ids))"

definition component_of :: "string list list \<Rightarrow> string \<Rightarrow> string list option" where
  "component_of comps n = find (\<lambda>c. n \<in> set c) comps"

definition loop_closing_switches :: "grid_edge list \<Rightarrow> string list list \<Rightarrow> string list" where
  "loop_closing_switches es comps = sort (map edge_id (filter (\<lambda>e. \<not> is_closed e \<and> is_switchable e \<and>
     component_of comps (from_node e) \<noteq> None \<and>
     component_of comps (from_node e) = component_of comps (to_node e)) es))"

definition closed_parents :: "grid_edge list \<Rightarrow> string \<Rightarrow> string list" where
  "closed_parents es n = map from_node (filter (\<lambda>e. is_closed e \<and> to_node e = n) es)"

definition parent_issues :: "grid_node list \<Rightarrow> string list \<Rightarrow> topology_issue list \<times> topology_issue list" where
  "parent_issues nodes ids =
     (concat (map (\<lambda>n. case parent_id n of Some p \<Rightarrow> if p \<notin> set ids then [MissingParent (node_id n) p] else []
                                          | None \<Rightarrow> []) nodes),
      concat (map (\<lambda>n. if parent_id n = None \<and> node_type n \<noteq> ''substation'' then [NoParent (node_id n)] else [])
         nodes))"

definition hierarchy_gaps :: "grid_node list \<Rightarrow> string list \<Rightarrow> (string \<times> string) list \<Rightarrow> string list" where
  "hierarchy_gaps nodes ids between = map node_id (filter (\<lambda>n. case parent_id n of None \<Rightarrow> False
     | Some p \<Rightarrow> p \<in> set ids \<and> (p, node_id n) \<notin> set between) nodes)"

definition missing_impedance :: "grid_edge list \<Rightarrow> string list" where
  "missing_impedance es = map edge_id (filter (\<lambda>e. edge_type e \<in> {''line'', ''transformer'', ''tie''} \<and>
     (resistance_r_ohm e = None \<or> reactance_x_ohm e = None)) es)"

definition validate_topology :: "db \<Rightarrow> topology_report result" where
  "validate_topology s =
     (let nodes = grid_nodes s; edges = grid_edges s; ids = remdups (node_ids s);
          sources = substations s;
          und = both_ways (all_arcs edges); closed_und = both_ways (closed_arcs edges) in
      case find (\<lambda>e. from_node e \<notin> set ids \<or> to_node e \<notin> set ids) edges of
        Some e \<Rightarrow> Inl (KeyErr (if from_node e \<notin> set ids then from_node e else to_node e))
      | None \<Rightarrow>
        let comps = components ids und;
            orphans = orphans_of ids sources comps;
            structural = cyclomatic ids und;
            operational = cyclomatic ids closed_und;
            multi = sort (filter (\<lambda>n. 1 < length (closed_parents edges n)) ids);
            gaps = hierarchy_gaps nodes ids und;
            missing = missing_impedance edges;
            (missing_parents, no_parents) = parent_issues nodes ids;
            errors = (if sources = [] then [NoSource] else []) @ (if orphans \<noteq> [] then [Orphans orphans] else [])
              @ (if 0 < operational then [OperationalLoops operational] else [])
              @ (if multi \<noteq> [] then [MultiFed multi] else []) @ missing_parents;
            warnings = (if 1 < length sources then [ManySources sources] else []) @ no_parents
              @ (if gaps \<noteq> [] then [HierarchyGap (sort gaps)] else [])
              @ (if missing \<noteq> [] then [MissingImpedance missing] else [])
        in Inr \<lparr>tr_ok = (errors = []), tr_radial = (operational = 0 \<and> multi = []),
                tr_nodes = length ids, tr_edges = length edges, tr_sources = length sources,
                tr_components = length comps, tr_structural_loops = structural,
                tr_operational_loops = operational,
                tr_loop_closing = loop_closing_switches edges (components ids closed_und),
                tr_orphans = orphans, tr_multi_fed = multi, tr_errors = errors, tr_warnings = warnings\<rparr>)"

text \<open>\<^verbatim>\<open>adjacency\<close>: the outgoing edges of every node and the components.\<close>

definition adjacency :: "bool \<Rightarrow> db \<Rightarrow> ((string \<times> (string \<times> string \<times> string \<times> bool) list) list \<times> string list list) result" where
  "adjacency closed_only s =
     (let ids = remdups (node_ids s);
          edges = filter (\<lambda>e. \<not> (closed_only \<and> \<not> is_closed e)) (grid_edges s) in
      case find (\<lambda>e. from_node e \<notin> set ids \<or> to_node e \<notin> set ids) edges of
        Some e \<Rightarrow> Inl (KeyErr (if from_node e \<notin> set ids then from_node e else to_node e))
      | None \<Rightarrow> Inr (map (\<lambda>n. (n, map (\<lambda>e. (to_node e, edge_id e, edge_type e, is_closed e))
                                     (filter (\<lambda>e. from_node e = n) edges))) ids,
                    components ids (both_ways (all_arcs edges))))"

subsection \<open>What the validator reports\<close>

lemma grid_wf_ends:
  assumes "grid_wf s" "e \<in> set (grid_edges s)"
  shows "from_node e \<in> set (node_ids s)" "to_node e \<in> set (node_ids s)"
  using assms by (auto simp: grid_wf_def edge_row_ok_def)

lemma dangling_None:
  assumes "grid_wf s" "set es \<subseteq> set (grid_edges s)"
  shows "find (\<lambda>e. from_node e \<notin> set (remdups (node_ids s)) \<or> to_node e \<notin> set (remdups (node_ids s))) es = None"
  using assms grid_wf_ends by (force simp: find_None_iff)

lemma component_of_iff:
  assumes "n \<in> set ids" "\<And>a b. (a, b) \<in> set arcs \<Longrightarrow> a \<in> set ids \<and> b \<in> set ids" "sym (set arcs)"
  shows "(\<exists>c\<in>set (components ids arcs). m \<in> set c \<and> n \<in> set c) \<longleftrightarrow> (m, n) \<in> (set arcs)\<^sup>*"
proof
  assume "\<exists>c\<in>set (components ids arcs). m \<in> set c \<and> n \<in> set c"
  then obtain c where c: "set c \<in> set (map set (components ids arcs))" "m \<in> set c" "n \<in> set c" by auto
  then obtain x where "set c = (set arcs)\<^sup>* `` {x}" by (auto simp only: components_classes(1) [OF assms(3)])
  with c have xm: "(x, m) \<in> (set arcs)\<^sup>*" and "(x, n) \<in> (set arcs)\<^sup>*" by auto
  moreover have "(m, x) \<in> (set arcs)\<^sup>*" using xm by (rule symD [OF sym_rtrancl [OF assms(3)]])
  ultimately show "(m, n) \<in> (set arcs)\<^sup>*" by (auto intro: rtrancl_trans)
next
  assume mn: "(m, n) \<in> (set arcs)\<^sup>*"
  have nm: "(n, m) \<in> (set arcs)\<^sup>*" by (rule symD [OF sym_rtrancl [OF assms(3)] mn])
  have "(set arcs)\<^sup>* `` {n} \<in> set (map set (components ids arcs))"
    unfolding components_classes(1) [OF assms(3)] using assms(1) by blast
  then obtain c where "c \<in> set (components ids arcs)" "set c = (set arcs)\<^sup>* `` {n}" by auto
  with nm show "\<exists>c\<in>set (components ids arcs). m \<in> set c \<and> n \<in> set c" by auto
qed

lemma orphans_of_set:
  assumes "\<And>a b. (a, b) \<in> set arcs \<Longrightarrow> a \<in> set ids \<and> b \<in> set ids" "sym (set arcs)"
  shows "set (orphans_of ids sources (components ids arcs))
    = {n \<in> set ids. \<forall>src\<in>set sources. (src, n) \<notin> (set arcs)\<^sup>*}"
proof -
  have "(n \<in> set (concat (filter (\<lambda>c. list_ex (\<lambda>x. x \<in> set c) sources) (components ids arcs)))) \<longleftrightarrow>
      (\<exists>src\<in>set sources. (src, n) \<in> (set arcs)\<^sup>*)" if n: "n \<in> set ids" for n
    using component_of_iff [OF n assms] by (fastforce simp: list_ex_iff)
  then show ?thesis by (auto simp: orphans_of_def Let_def simp del: set_concat)
qed

abbreviation joined :: "grid_edge list \<Rightarrow> (string \<times> string) set" where
  "joined es \<equiv> (set (all_arcs es) \<union> (set (all_arcs es))\<inverse>)\<^sup>*"

lemma validate_Inr:
  assumes "validate_topology s = Inr r"
  shows "\<And>e. e \<in> set (grid_edges s) \<Longrightarrow> from_node e \<in> set (node_ids s) \<and> to_node e \<in> set (node_ids s)"
    and "tr_orphans r = orphans_of (remdups (node_ids s)) (substations s)
           (components (remdups (node_ids s)) (both_ways (all_arcs (grid_edges s))))"
    and "tr_multi_fed r = sort (filter (\<lambda>n. 1 < length (closed_parents (grid_edges s) n)) (remdups (node_ids s)))"
    and "tr_ok r \<longleftrightarrow> tr_errors r = []"
    and "tr_ok r \<Longrightarrow> substations s \<noteq> [] \<and> tr_orphans r = [] \<and> \<not> 0 < tr_operational_loops r \<and> tr_multi_fed r = []"
proof -
  have none: "find (\<lambda>e. from_node e \<notin> set (remdups (node_ids s)) \<or> to_node e \<notin> set (remdups (node_ids s)))
      (grid_edges s) = None"
    using assms by (cases "find (\<lambda>e. from_node e \<notin> set (remdups (node_ids s)) \<or> to_node e \<notin> set (remdups (node_ids s)))
      (grid_edges s)") (simp_all add: validate_topology_def Let_def)
  obtain ms ns where pi: "parent_issues (grid_nodes s) (remdups (node_ids s)) = (ms, ns)" by fastforce
  note r = assms [unfolded validate_topology_def Let_def none option.case pi prod.case sum.inject(2), symmetric]
  show "from_node e \<in> set (node_ids s) \<and> to_node e \<in> set (node_ids s)" if "e \<in> set (grid_edges s)" for e
    using none that by (auto simp: find_None_iff)
  show "tr_orphans r = orphans_of (remdups (node_ids s)) (substations s)
           (components (remdups (node_ids s)) (both_ways (all_arcs (grid_edges s))))"
    unfolding r by simp
  show "tr_multi_fed r = sort (filter (\<lambda>n. 1 < length (closed_parents (grid_edges s) n)) (remdups (node_ids s)))"
    unfolding r by simp
  show "tr_ok r \<longleftrightarrow> tr_errors r = []" unfolding r by simp
  show "substations s \<noteq> [] \<and> tr_orphans r = [] \<and> \<not> 0 < tr_operational_loops r \<and> tr_multi_fed r = []"
    if "tr_ok r" using that unfolding r by (simp split: if_splits)
qed

definition single_fed :: "grid_edge list \<Rightarrow> bool" where
  "single_fed es \<longleftrightarrow> list_all (\<lambda>e. length (closed_parents es (to_node e)) \<le> 1) es"

lemma single_fed_unique:
  assumes "single_fed es" "e \<in> set es" "e' \<in> set es" "is_closed e" "is_closed e'" "to_node e = to_node e'"
  shows "e = e'"
proof (rule ccontr)
  assume ne: "e \<noteq> e'"
  let ?l = "filter (\<lambda>x. is_closed x \<and> to_node x = to_node e) es"
  have "length ?l \<le> 1" using assms by (auto simp: single_fed_def list_all_iff closed_parents_def)
  moreover have "e \<in> set ?l" "e' \<in> set ?l" using assms by auto
  ultimately show False using ne by (cases ?l; cases "tl ?l") auto
qed

lemma single_fed_det:
  assumes "single_fed es" "(x, z) \<in> set (closed_arcs es)" "(y, z) \<in> set (closed_arcs es)"
  shows "x = y"
proof -
  obtain e e' where e: "e \<in> set es" "is_closed e" "from_node e = x" "to_node e = z"
    and e': "e' \<in> set es" "is_closed e'" "from_node e' = y" "to_node e' = z"
    using assms(2,3) by (auto simp: set_closed_arcs)
  have "e = e'" by (rule single_fed_unique [OF assms(1) e(1) e'(1) e(2) e'(2)]) (simp add: e e')
  with e e' show ?thesis by simp
qed

lemma validate_single_fed:
  assumes "validate_topology s = Inr r" "tr_multi_fed r = []"
  shows "single_fed (grid_edges s)"
proof -
  have "filter (\<lambda>n. 1 < length (closed_parents (grid_edges s) n)) (remdups (node_ids s)) = []"
    using assms(2) by (simp add: validate_Inr(3) [OF assms(1)] flip: length_0_conv)
  then show ?thesis
    using validate_Inr(1) [OF assms(1)] by (auto simp: single_fed_def list_all_iff filter_empty_conv not_less)
qed

text \<open>
  On a network that satisfies its integrity constraints the validator always returns a
  report, and the orphans it lists are exactly the nodes that no substation is connected to.
\<close>

theorem validate_orphans:
  assumes "grid_wf s"
  shows "\<exists>r. validate_topology s = Inr r \<and>
    set (tr_orphans r) = {n \<in> set (node_ids s). \<forall>src\<in>set (substations s). (src, n) \<notin> joined (grid_edges s)}"
proof -
  have "find (\<lambda>e. from_node e \<notin> set (remdups (node_ids s)) \<or> to_node e \<notin> set (remdups (node_ids s)))
      (grid_edges s) = None"
    by (rule dangling_None [OF assms]) simp
  then have "\<not> isl (validate_topology s)"
    by (simp add: validate_topology_def Let_def split: prod.splits)
  then obtain r where r: "validate_topology s = Inr r" by (cases "validate_topology s") auto
  have "a \<in> set (remdups (node_ids s)) \<and> b \<in> set (remdups (node_ids s))"
    if "(a, b) \<in> set (both_ways (all_arcs (grid_edges s)))" for a b
    using that grid_wf_ends [OF assms] by (auto simp: set_both_ways set_all_arcs)
  from orphans_of_set [OF this sym_both_ways] r validate_Inr(2) [OF r] show ?thesis
    by (auto simp: set_both_ways)
qed

lemma demo_wf: "grid_wf demo_db"
  by code_simp

theorem validate_orphans_witness:
  "\<exists>r. validate_topology demo_db = Inr r \<and> ''C'' \<notin> set (tr_orphans r) \<and>
    (\<exists>src\<in>set (substations demo_db). (src, ''C'') \<in> joined (grid_edges demo_db))"
proof -
  obtain r where r: "validate_topology demo_db = Inr r" "set (tr_orphans r) = {n \<in> set (node_ids demo_db).
       \<forall>src\<in>set (substations demo_db). (src, n) \<notin> joined (grid_edges demo_db)}"
    using validate_orphans [OF demo_wf] by blast
  have "map_sum id tr_orphans (validate_topology demo_db) = Inr []" "''C'' \<in> set (node_ids demo_db)" by code_simp+
  with r(1) have "tr_orphans r = []" "''C'' \<in> set (node_ids demo_db)" by simp_all
  with r show ?thesis by auto
qed

text \<open>
  a network the validator calls ok has a substation, joins every node to one, and
  feeds no node over two closed edges.
\<close>

theorem validate_ok_sound:
  assumes "validate_topology s = Inr r" "tr_ok r"
  shows "substations s \<noteq> [] \<and> tr_operational_loops r \<le> 0 \<and>
    (\<forall>n\<in>set (node_ids s). \<exists>src\<in>set (substations s). (src, n) \<in> joined (grid_edges s)) \<and>
    (\<forall>e\<in>set (grid_edges s). \<forall>e'\<in>set (grid_edges s).
       is_closed e \<longrightarrow> is_closed e' \<longrightarrow> to_node e = to_node e' \<longrightarrow> e = e')"
proof -
  note v = validate_Inr [OF assms(1)]
  have ends: "a \<in> set (remdups (node_ids s)) \<and> b \<in> set (remdups (node_ids s))"
    if "(a, b) \<in> set (both_ways (all_arcs (grid_edges s)))" for a b
    using that v(1) by (auto simp: set_both_ways set_all_arcs)
  have orph: "set (tr_orphans r) = {n \<in> set (node_ids s). \<forall>src\<in>set (substations s). (src, n) \<notin> joined (grid_edges s)}"
    using orphans_of_set [OF ends sym_both_ways] v(2) by (auto simp: set_both_ways)
  have none: "tr_orphans r = []" using v(5) [OF assms(2)] by simp
  have "\<exists>src\<in>set (substations s). (src, n) \<in> joined (grid_edges s)" if n: "n \<in> set (node_ids s)" for n
  proof (rule ccontr)
    assume "\<not> ?thesis"
    with n have "n \<in> set (tr_orphans r)" unfolding orph by blast
    with none show False by simp
  qed
  moreover have "single_fed (grid_edges s)"
    using validate_single_fed [OF assms(1)] v(5) [OF assms(2)] by simp
  ultimately show ?thesis
    using v(5) [OF assms(2)] single_fed_unique by auto
qed

theorem validate_ok_sound_witness:
  "\<exists>r. validate_topology demo_db = Inr r \<and> tr_ok r \<and>
    (\<exists>src\<in>set (substations demo_db). (src, ''C'') \<in> joined (grid_edges demo_db))"
proof -
  have "map_sum id tr_ok (validate_topology demo_db) = Inr True" "''C'' \<in> set (node_ids demo_db)" by code_simp+
  then obtain r where r: "validate_topology demo_db = Inr r" "tr_ok r" "''C'' \<in> set (node_ids demo_db)"
    by (cases "validate_topology demo_db") auto
  with validate_ok_sound [OF r(1,2)] show ?thesis by blast
qed

text \<open>
  Two closed lines between the same nodes in opposite directions are a cycle the validator does
  not see: its adjacency maps hold sets, and each node has one closed feed.
\<close>

lemma validate_misses_parallel_lines:
  "map_sum id (\<lambda>r. (tr_radial r, tr_operational_loops r, tr_multi_fed r))
     (validate_topology (demo_db\<lparr>grid_edges := [mk_edge ''L1'' ''A'' ''B'' ''line'' True,
        mk_edge ''L2'' ''B'' ''A'' ''line'' True]\<rparr>)) = Inr (True, 0, [])"
  by code_simp

end
