(* ===== verification/Flisr_Planner.thy ===== *)
theory Flisr_Planner
  imports Topology_Analysis
begin

text \<open>
  Fault location, isolation and service restoration: \<^verbatim>\<open>plan_flisr\<close> and \<^verbatim>\<open>flisr_simulate\<close> of
  \<^verbatim>\<open>src/fastapi/routers/dms.py\<close>. The planner works on copies of the edge rows, so each step of
  the plan is a new edge list.
\<close>

definition energized_set :: "grid_edge list \<Rightarrow> string list \<Rightarrow> string set" where
  "energized_set es sources = set (reach (closed_arcs es) sources)"

lemma energized_set_eq: "energized_set es ss = (set (closed_arcs es))\<^sup>* `` set ss"
  by (simp add: energized_set_def reach_set)

record flisr_plan =
  fp_fault_node :: string
  fp_fault_edge :: "string option"
  fp_isolated_edge :: string
  fp_restored_edges :: "string list"
  fp_customers_lost :: nat
  fp_customers_restored :: nat
  fp_customers_still_out :: nat
  fp_still_out_nodes :: "string list"
  fp_steps :: "msg list"
  fp_before_switch_state :: "(string \<times> bool) list"

text \<open>The faulted node (an empty string counts as absent): the head of a named edge, or a named node.\<close>

definition given :: "string option \<Rightarrow> string option" where
  "given x = (case x of Some k \<Rightarrow> if k = [] then None else Some k | None \<Rightarrow> None)"

definition fault_of :: "db \<Rightarrow> string option \<Rightarrow> string option \<Rightarrow> string result" where
  "fault_of s fnode fedge =
     (case given fedge of
        Some fe \<Rightarrow> (case find_edge s fe of None \<Rightarrow> unknown ''edge'' fe | Some e \<Rightarrow> Inr (to_node e))
      | None \<Rightarrow> (case given fnode of
          Some n \<Rightarrow> if n \<in> set (node_ids s) then Inr n else unknown ''node'' n
        | None \<Rightarrow> Inl (HTTPException 422 (Fmt ''fault_node or fault_edge required'' []))))"

text \<open>Switches that can isolate: closed, switchable, with the fault downstream.\<close>

definition isolation_candidates :: "grid_edge list \<Rightarrow> string \<Rightarrow> grid_edge list" where
  "isolation_candidates es fault =
     filter (\<lambda>e. is_switchable e \<and> is_closed e \<and> fault \<in> energized_set es [to_node e]) es"

definition downstream_size :: "grid_edge list \<Rightarrow> grid_edge \<Rightarrow> nat" where
  "downstream_size es e = length (reach (closed_arcs es) [to_node e])"

text \<open>Open ties and normally open switches, in row order.\<close>

definition tie_candidates :: "grid_edge list \<Rightarrow> grid_edge list" where
  "tie_candidates es = filter (\<lambda>e. \<not> is_closed e \<and> (edge_type e = ''tie'' \<or> \<not> normally_closed e)) es"

text \<open>
  The restoration loop: a tie that touches lost load is closed for good when, with it closed,
  the fault stays dead and some lost node comes back.
\<close>

fun restore_loop :: "string list \<Rightarrow> string \<Rightarrow> string set \<Rightarrow> grid_edge list \<Rightarrow> grid_edge list
    \<Rightarrow> string list \<Rightarrow> grid_edge list \<times> string list" where
  "restore_loop sources fault lost [] cur restored = (cur, restored)"
| "restore_loop sources fault lost (t # ts) cur restored =
     (if to_node t \<in> lost \<or> from_node t \<in> lost then
        let trial = set_edge_closed (edge_id t) True cur; energ = energized_set trial sources in
        if fault \<notin> energ \<and> energ \<inter> lost \<noteq> {}
        then restore_loop sources fault lost ts trial (restored @ [edge_id t])
        else restore_loop sources fault lost ts cur restored
      else restore_loop sources fault lost ts cur restored)"

definition plan_steps :: "string \<Rightarrow> string option \<Rightarrow> grid_edge \<Rightarrow> grid_edge list \<Rightarrow> string list \<Rightarrow> msg list" where
  "plan_steps fault fedge sw edges restored =
     [Fmt ''fault detected at {}'' [case given fedge of Some fe \<Rightarrow> fe | None \<Rightarrow> fault],
      Fmt ''open switch {} to isolate {}'' [edge_id sw, to_node sw]]
     @ concat (map (\<lambda>r. map (\<lambda>t. Fmt ''close tie {} to back-feed {}'' [r, to_node t])
                         (filter (\<lambda>t. edge_id t = r) edges)) restored)
     @ (if restored = [] then [Fmt ''no tie available to restore lost load'' []] else [])"

definition plan_flisr :: "db \<Rightarrow> string option \<Rightarrow> string option \<Rightarrow> flisr_plan result" where
  "plan_flisr s fnode fedge = bindR (fault_of s fnode fedge) (\<lambda>fault.
     let edges = grid_edges s; sources = substations s; before = energized_set edges sources in
     case isolation_candidates edges fault of
       [] \<Rightarrow> Inl (HTTPException 409 (Fmt ''no upstream switch can isolate this fault'' []))
     | c # cs \<Rightarrow>
         let sw = min_by (downstream_size edges) c cs;
             edges_iso = set_edge_closed (edge_id sw) False edges;
             after_iso = energized_set edges_iso sources;
             lost = before - after_iso;
             (edges_cur, restored_edges) = restore_loop sources fault lost (tie_candidates edges_iso) edges_iso [];
             after_restore = energized_set edges_cur sources;
             restored = (after_restore - after_iso) - {fault};
             still_out = before - after_restore
         in Inr \<lparr>fp_fault_node = fault, fp_fault_edge = fedge, fp_isolated_edge = edge_id sw,
                 fp_restored_edges = restored_edges,
                 fp_customers_lost = length (service_points_at s lost),
                 fp_customers_restored = length (service_points_at s restored),
                 fp_customers_still_out = length (service_points_at s still_out),
                 fp_still_out_nodes = sort (filter (\<lambda>n. n \<in> still_out) (reach (closed_arcs edges) sources)),
                 fp_steps = plan_steps fault fedge sw edges restored_edges,
                 fp_before_switch_state =
                   fold (\<lambda>e d. dict_put e False d) restored_edges [(edge_id sw, True)]\<rparr>)"

text \<open>The switch moves of a plan, on the rows and on the store.\<close>

definition close_edges :: "string list \<Rightarrow> db \<Rightarrow> db" where
  "close_edges es s = fold (\<lambda>e. write_edge e True) es s"

definition apply_plan :: "flisr_plan \<Rightarrow> db \<Rightarrow> db" where
  "apply_plan p s = close_edges (fp_restored_edges p) (write_edge (fp_isolated_edge p) False s)"

definition flisr_simulate :: "bool \<Rightarrow> principal option \<Rightarrow> string option \<Rightarrow> string option \<Rightarrow> bool
    \<Rightarrow> db \<Rightarrow> (flisr_event \<times> db) result" where
  "flisr_simulate controls_enabled po fnode fedge execute s =
     bindR (require_role [Operator, Engineer, Admin] po) (\<lambda>_.
     bindR (plan_flisr s fnode fedge) (\<lambda>p.
       if execute \<and> \<not> controls_enabled then
         Inl (HTTPException 403 (Fmt ''live FLISR execution requires OC_CONTROLS_ENABLED'' []))
       else
         let s1 = (if execute then apply_plan p s else s);
             ev = \<lparr>fe_id = next_uuid s, fe_fault_node = fp_fault_node p, fe_fault_edge = fedge,
                   fe_isolated = [fp_isolated_edge p], fe_restored = fp_restored_edges p,
                   fe_customers_lost = fp_customers_lost p, fe_customers_restored = fp_customers_restored p,
                   fe_customers_still_out = fp_customers_still_out p, fe_executed = execute,
                   fe_steps = fp_steps p @
                     (if execute then [Fmt ''executed: switch states updated in network model'' []] else []),
                   fe_version = current_model_version s\<rparr>
         in Inr (ev, s1\<lparr>next_uuid := Suc (next_uuid s), flisr_events := flisr_events s1 @ [ev]\<rparr>)))"

subsection \<open>What the restoration loop keeps\<close>

text \<open>The edges the loop ends with are the ones it started from with the restored ties closed.\<close>

lemma restore_loop_edges:
  "restore_loop sources fault lost ts cur restored = (cur', restored') \<Longrightarrow>
     \<exists>more. restored' = restored @ more \<and> set more \<subseteq> edge_id ` set ts \<and>
            cur' = fold (\<lambda>e. set_edge_closed e True) more cur"
proof (induction sources fault lost ts cur restored rule: restore_loop.induct)
  case (2 sources fault lost t ts cur restored)
  let ?trial = "set_edge_closed (edge_id t) True cur"
  show ?case
  proof (cases "(to_node t \<in> lost \<or> from_node t \<in> lost) \<and> fault \<notin> energized_set ?trial sources
      \<and> energized_set ?trial sources \<inter> lost \<noteq> {}")
    case True
    with "2.prems" have "restore_loop sources fault lost ts ?trial (restored @ [edge_id t]) = (cur', restored')"
      by (simp add: Let_def)
    with True "2.IH"(1) [OF _ refl refl] obtain more where
      "restored' = (restored @ [edge_id t]) @ more" "set more \<subseteq> edge_id ` set ts"
      "cur' = fold (\<lambda>e. set_edge_closed e True) more ?trial"
      by (meson)
    then show ?thesis by (intro exI [of _ "edge_id t # more"]) auto
  next
    case False
    with "2.prems" have "restore_loop sources fault lost ts cur restored = (cur', restored')"
      by (auto simp: Let_def split: if_splits)
    with False "2.IH"(2) [OF _ refl refl] "2.IH"(3) obtain more where
      "restored' = restored @ more" "set more \<subseteq> edge_id ` set ts"
      "cur' = fold (\<lambda>e. set_edge_closed e True) more cur"
      by meson
    then show ?thesis by auto
  qed
qed simp

text \<open>Whenever a tie has been closed, the fault is dead at the end.\<close>

lemma restore_loop_fault_dead:
  "restore_loop sources fault lost ts cur restored = (cur', restored') \<Longrightarrow>
     fault \<notin> energized_set cur sources \<or> restored' \<noteq> restored \<Longrightarrow>
     fault \<notin> energized_set cur' sources"
proof (induction sources fault lost ts cur restored rule: restore_loop.induct)
  case (2 sources fault lost t ts cur restored)
  let ?trial = "set_edge_closed (edge_id t) True cur"
  show ?case
  proof (cases "(to_node t \<in> lost \<or> from_node t \<in> lost) \<and> fault \<notin> energized_set ?trial sources
      \<and> energized_set ?trial sources \<inter> lost \<noteq> {}")
    case True
    with "2.prems" have "restore_loop sources fault lost ts ?trial (restored @ [edge_id t]) = (cur', restored')"
      by (simp add: Let_def)
    with True "2.IH"(1) [OF _ refl refl] show ?thesis by meson
  next
    case False
    with "2.prems"(1) have "restore_loop sources fault lost ts cur restored = (cur', restored')"
      by (auto simp: Let_def split: if_splits)
    with False "2.IH"(2) [OF _ refl refl] "2.IH"(3) "2.prems"(2) show ?thesis by meson
  qed
qed simp

text \<open>Each restored tie is closed once.\<close>

lemma restore_loop_distinct:
  assumes "restore_loop sources fault lost ts cur [] = (cur', restored')" "distinct (map edge_id ts)"
  shows "distinct restored'"
proof -
  have "restore_loop sources fault lost ts cur restored = (cur', restored') \<Longrightarrow>
      distinct (map edge_id ts) \<Longrightarrow> distinct restored \<Longrightarrow> set restored \<inter> edge_id ` set ts = {} \<Longrightarrow>
      distinct restored'" for restored
  proof (induction sources fault lost ts cur restored rule: restore_loop.induct)
    case (2 sources fault lost t ts cur restored)
    then show ?case by (auto simp: Let_def split: if_splits)
  qed simp
  with assms show ?thesis by fastforce
qed

lemma fold_close_mono:
  "set (closed_arcs es) \<subseteq> set (closed_arcs (fold (\<lambda>e. set_edge_closed e True) rs es))"
proof (induction rs arbitrary: es)
  case (Cons r rs)
  show ?case using closed_arcs_close [of es r] Cons.IH [of "set_edge_closed r True es"] by simp
qed simp

lemma grid_edges_close_edges:
  "grid_edges (close_edges rs s) = fold (\<lambda>e. set_edge_closed e True) rs (grid_edges s)"
  unfolding close_edges_def by (induction rs arbitrary: s) simp_all

lemma close_edges_frame [simp, frame_simps]:
  "grid_nodes (close_edges rs s) = grid_nodes s" "next_uuid (close_edges rs s) = next_uuid s"
  "flisr_events (close_edges rs s) = flisr_events s" "service_points (close_edges rs s) = service_points s"
  "control_actions (close_edges rs s) = control_actions s" "control_audit (close_edges rs s) = control_audit s"
  "model_versions (close_edges rs s) = model_versions s" "now (close_edges rs s) = now s"
  unfolding close_edges_def by (induction rs arbitrary: s) simp_all

lemma apply_plan_frame [simp, frame_simps]:
  "grid_nodes (apply_plan p s) = grid_nodes s" "next_uuid (apply_plan p s) = next_uuid s"
  "flisr_events (apply_plan p s) = flisr_events s" "service_points (apply_plan p s) = service_points s"
  "control_actions (apply_plan p s) = control_actions s" "control_audit (apply_plan p s) = control_audit s"
  "model_versions (apply_plan p s) = model_versions s" "now (apply_plan p s) = now s"
  by (simp_all add: apply_plan_def)

text \<open>The parts of a successful plan, named once for the proofs about it.\<close>

lemma plan_flisr_cases:
  assumes "plan_flisr s fnode fedge = Inr p"
  obtains fault sw edges_iso lost cur where
    "fault_of s fnode fedge = Inr fault" "fp_fault_node p = fault" "fp_isolated_edge p = edge_id sw"
    "sw \<in> set (isolation_candidates (grid_edges s) fault)"
    "\<And>e. e \<in> set (isolation_candidates (grid_edges s) fault) \<Longrightarrow>
       downstream_size (grid_edges s) sw \<le> downstream_size (grid_edges s) e"
    "edges_iso = set_edge_closed (edge_id sw) False (grid_edges s)"
    "lost = energized_set (grid_edges s) (substations s) - energized_set edges_iso (substations s)"
    "restore_loop (substations s) fault lost (tie_candidates edges_iso) edges_iso [] = (cur, fp_restored_edges p)"
    "fp_customers_lost p = length (service_points_at s lost)"
    "fp_customers_restored p = length (service_points_at s
       ((energized_set cur (substations s) - energized_set edges_iso (substations s)) - {fault}))"
    "fp_customers_still_out p = length (service_points_at s
       (energized_set (grid_edges s) (substations s) - energized_set cur (substations s)))"
    "grid_edges (apply_plan p s) = cur"
    "fp_before_switch_state p =
       fold (\<lambda>e d. dict_put e False d) (fp_restored_edges p) [(edge_id sw, True)]"
proof -
  obtain fault where f: "fault_of s fnode fedge = Inr fault"
    using assms by (auto simp: plan_flisr_def bindR_eq_Inr)
  with assms have "isolation_candidates (grid_edges s) fault \<noteq> []"
    by (auto simp: plan_flisr_def)
  then obtain c cs where c: "isolation_candidates (grid_edges s) fault = c # cs"
    by (meson neq_Nil_conv)
  define sw where "sw = min_by (downstream_size (grid_edges s)) c cs"
  define ei where "ei = set_edge_closed (edge_id sw) False (grid_edges s)"
  define lost where "lost = energized_set (grid_edges s) (substations s) - energized_set ei (substations s)"
  obtain cur restored where r: "restore_loop (substations s) fault lost (tie_candidates ei) ei [] = (cur, restored)"
    by fastforce
  have mem: "sw \<in> set (c # cs)" using min_by_in [of "downstream_size (grid_edges s)" c cs] by (simp add: sw_def)
  have least: "downstream_size (grid_edges s) sw \<le> downstream_size (grid_edges s) e" if "e \<in> set (c # cs)" for e
    using that min_by_le [of e cs] min_by_le_start by (auto simp: sw_def)
  have p: "fp_fault_node p = fault" "fp_isolated_edge p = edge_id sw" "fp_restored_edges p = restored"
    "fp_customers_lost p = length (service_points_at s lost)"
    "fp_customers_restored p = length (service_points_at s
       ((energized_set cur (substations s) - energized_set ei (substations s)) - {fault}))"
    "fp_customers_still_out p = length (service_points_at s
       (energized_set (grid_edges s) (substations s) - energized_set cur (substations s)))"
    "fp_before_switch_state p = fold (\<lambda>e d. dict_put e False d) restored [(edge_id sw, True)]"
    using assms r by (auto simp: plan_flisr_def f c Let_def sw_def [symmetric] ei_def [symmetric]
                                 lost_def [symmetric])
  have g: "grid_edges (apply_plan p s) = cur"
    using restore_loop_edges [OF r] p by (auto simp: apply_plan_def grid_edges_close_edges ei_def)
  show ?thesis
    by (rule that [OF f p(1,2) _ _ ei_def lost_def _ p(4,5,6) g p(7) [folded p(3)]]) (use mem least c r p(3) in auto)
qed

subsection \<open>Isolation in a radial network\<close>

text \<open>
  With one closed edge into every node, two walks back from the same node agree: the walk from
  a source passes the start of the other walk, or starts below it.
\<close>

lemma unique_parent_paths:
  assumes det: "\<And>x y z. (x, z) \<in> r \<Longrightarrow> (y, z) \<in> r \<Longrightarrow> x = y" and sub: "r' \<subseteq> r"
    and bf: "(b, f) \<in> r\<^sup>*" and sf: "(src, f) \<in> r'\<^sup>*"
  shows "(src, b) \<in> r'\<^sup>* \<or> (b, src) \<in> r\<^sup>*"
  using bf sf
proof (induction rule: rtrancl_induct)
  case (step y z)
  from step.prems show ?case
  proof (cases rule: rtranclE)
    case base
    with step.hyps show ?thesis by (auto intro: rtrancl_into_rtrancl)
  next
    case (step w)
    then have "w = y" using sub \<open>(y, z) \<in> r\<close> det by blast
    with step \<open>(src, y) \<in> r'\<^sup>* \<Longrightarrow> _\<close> show ?thesis by blast
  qed
qed simp

text \<open>Opening the only closed edge into a node that feeds the fault cuts the fault off.\<close>

lemma open_edge_isolates:
  assumes sf: "single_fed es" and top: "\<And>src. src \<in> set ss \<Longrightarrow> closed_parents es src = []"
    and sw: "sw \<in> set (isolation_candidates es f)"
  shows "f \<notin> energized_set (set_edge_closed (edge_id sw) False es) ss"
proof
  let ?es = "set_edge_closed (edge_id sw) False es"
  let ?r = "set (closed_arcs es)" and ?r' = "set (closed_arcs ?es)"
  have sw': "sw \<in> set es" "is_closed sw" and bf: "(to_node sw, f) \<in> ?r\<^sup>*"
    using sw by (auto simp: isolation_candidates_def energized_set_eq)
  note det = single_fed_det [OF sf]
  have cut: "(x, to_node sw) \<notin> ?r'" for x
  proof
    assume "(x, to_node sw) \<in> ?r'"
    then obtain z where z: "z \<in> set ?es" "is_closed z" "to_node z = to_node sw"
      by (auto simp: set_closed_arcs)
    then obtain y where y: "y \<in> set es" "z = (if edge_id y = edge_id sw then y\<lparr>is_closed := False\<rparr> else y)"
      by (auto simp: set_edge_closed_def in_set_update_where)
    with z have "edge_id y \<noteq> edge_id sw" by (cases "edge_id y = edge_id sw") simp_all
    with y z have y: "y \<in> set es" "edge_id y \<noteq> edge_id sw" "is_closed y" "to_node y = to_node sw"
      by simp_all
    with single_fed_unique [OF sf y(1) sw'(1) y(3) sw'(2) y(4)] show False by simp
  qed
  have root: "(x, src) \<notin> ?r" if "src \<in> set ss" for x src
    using top [OF that] by (auto simp: set_closed_arcs closed_parents_def filter_empty_conv)
  assume "f \<in> energized_set ?es ss"
  then obtain src where src: "src \<in> set ss" and sf': "(src, f) \<in> ?r'\<^sup>*"
    by (auto simp: energized_set_eq)
  have below: "(to_node sw, src) \<notin> ?r\<^sup>*"
  proof
    assume "(to_node sw, src) \<in> ?r\<^sup>*"
    then have "to_node sw = src" using root [OF src] by (auto elim: rtranclE)
    moreover have "(from_node sw, to_node sw) \<in> ?r" using sw' by (auto simp: set_closed_arcs)
    ultimately show False using root [OF src] by blast
  qed
  then have "(src, to_node sw) \<in> ?r'\<^sup>*" "src \<noteq> to_node sw"
    using unique_parent_paths [OF det closed_arcs_open bf sf'] by auto
  then show False using cut by (auto elim: rtranclE)
qed

text \<open>Closing ties only adds energized nodes.\<close>

lemma energized_set_mono:
  "set (closed_arcs es) \<subseteq> set (closed_arcs es') \<Longrightarrow> energized_set es ss \<subseteq> energized_set es' ss"
  by (simp add: energized_set_def energized.live_mono)

lemma service_points_at_split:
  assumes "A \<inter> B = {}"
  shows "length (service_points_at s (A \<union> B)) = length (service_points_at s A) + length (service_points_at s B)"
proof -
  have "length (filter (\<lambda>sp. case sp_node sp of None \<Rightarrow> False | Some n \<Rightarrow> n \<in> A \<union> B) xs)
    = length (filter (\<lambda>sp. case sp_node sp of None \<Rightarrow> False | Some n \<Rightarrow> n \<in> A) xs)
    + length (filter (\<lambda>sp. case sp_node sp of None \<Rightarrow> False | Some n \<Rightarrow> n \<in> B) xs)" for xs
    using assms by (induction xs) (auto split: option.splits)
  then show ?thesis by (simp add: service_points_at_def)
qed

subsection \<open>Properties\<close>

text \<open>
  C13: in a network where the validator finds no node with several closed feeds and no substation
  is fed from another node, the switch moves of every plan leave the faulted node without supply,
  whatever ties the plan closes to restore the others.
\<close>

theorem flisr_fault_isolated:
  assumes "plan_flisr s fnode fedge = Inr p" "validate_topology s = Inr r" "tr_multi_fed r = []"
    and "\<And>src. src \<in> set (substations s) \<Longrightarrow> closed_parents (grid_edges s) src = []"
  shows "fp_fault_node p \<notin> energized_set (grid_edges (apply_plan p s)) (substations s)"
proof -
  from assms(1) show ?thesis
  proof (cases rule: plan_flisr_cases)
    case (1 fault sw edges_iso lost cur)
    have "fault \<notin> energized_set edges_iso (substations s)"
      using open_edge_isolates [OF validate_single_fed [OF assms(2,3)] assms(4) 1(4)] by (simp add: 1(6))
    with restore_loop_fault_dead [OF 1(8)] show ?thesis by (simp add: 1(2,12))
  qed
qed

lemma demo_plan: "\<not> isl (plan_flisr demo_db (Some ''B'') None)"
  by code_simp

lemma demo_plan_Inr: obtains p where "plan_flisr demo_db (Some ''B'') None = Inr p"
  using demo_plan by (cases "plan_flisr demo_db (Some ''B'') None") auto

theorem flisr_fault_isolated_witness:
  "\<exists>p. plan_flisr demo_db (Some ''B'') None = Inr p \<and>
     fp_fault_node p \<notin> energized_set (grid_edges (apply_plan p demo_db)) (substations demo_db)"
proof -
  obtain p where p: "plan_flisr demo_db (Some ''B'') None = Inr p" by (rule demo_plan_Inr)
  have "map_sum id tr_multi_fed (validate_topology demo_db) = Inr []" by code_simp
  then obtain r where r: "validate_topology demo_db = Inr r" "tr_multi_fed r = []"
    by (cases "validate_topology demo_db") auto
  have "list_all (\<lambda>src. closed_parents (grid_edges demo_db) src = []) (substations demo_db)" by code_simp
  with flisr_fault_isolated [OF p r] p show ?thesis by (auto simp: list_all_iff)
qed

text \<open>
  C14: in any network, radial or not, a plan that closes at least one tie leaves the faulted node
  without supply, and every tie it closes was an open tie (or normally open) edge of the model.
\<close>

theorem flisr_restore_safe:
  assumes "plan_flisr s fnode fedge = Inr p" "fp_restored_edges p \<noteq> []"
  shows "fp_fault_node p \<notin> energized_set (grid_edges (apply_plan p s)) (substations s) \<and>
    set (fp_restored_edges p) \<subseteq>
      edge_id ` set (tie_candidates (set_edge_closed (fp_isolated_edge p) False (grid_edges s)))"
proof -
  from assms(1) show ?thesis
  proof (cases rule: plan_flisr_cases)
    case (1 fault sw edges_iso lost cur)
    then show ?thesis
      using restore_loop_fault_dead [OF 1(8)] restore_loop_edges [OF 1(8)] assms(2) by auto
  qed
qed

theorem flisr_restore_safe_witness:
  "\<exists>p. plan_flisr demo_db (Some ''B'') None = Inr p \<and> fp_restored_edges p = [''T1''] \<and>
     fp_fault_node p \<notin> energized_set (grid_edges (apply_plan p demo_db)) (substations demo_db)"
proof -
  obtain p where p: "plan_flisr demo_db (Some ''B'') None = Inr p" by (rule demo_plan_Inr)
  have "map_sum id fp_restored_edges (plan_flisr demo_db (Some ''B'') None) = Inr [''T1'']" by code_simp
  with p have r: "fp_restored_edges p = [''T1'']" by simp
  with flisr_restore_safe [OF p] p show ?thesis by auto
qed

text \<open>
  a plan opens a closed switchable edge that feeds the fault, and none of the other such
  switches cuts off fewer nodes.
\<close>

theorem flisr_isolates_least:
  assumes "plan_flisr s fnode fedge = Inr p"
  shows "\<exists>sw\<in>set (grid_edges s). edge_id sw = fp_isolated_edge p \<and> is_switchable sw \<and> is_closed sw \<and>
    (to_node sw, fp_fault_node p) \<in> (set (closed_arcs (grid_edges s)))\<^sup>* \<and>
    (\<forall>e\<in>set (grid_edges s). is_switchable e \<longrightarrow> is_closed e \<longrightarrow>
       (to_node e, fp_fault_node p) \<in> (set (closed_arcs (grid_edges s)))\<^sup>* \<longrightarrow>
       card ((set (closed_arcs (grid_edges s)))\<^sup>* `` {to_node sw})
         \<le> card ((set (closed_arcs (grid_edges s)))\<^sup>* `` {to_node e}))"
proof -
  from assms show ?thesis
  proof (cases rule: plan_flisr_cases)
    case (1 fault sw edges_iso lost cur)
    show ?thesis
    proof (rule bexI [of _ sw])
      show "sw \<in> set (grid_edges s)" using 1(4) by (simp add: isolation_candidates_def)
    qed (use 1(2-5) in \<open>auto simp: isolation_candidates_def energized_set_eq downstream_size_def length_reach\<close>)
  qed
qed

theorem flisr_isolates_least_witness:
  "\<exists>p. plan_flisr demo_db (Some ''B'') None = Inr p \<and>
     (\<exists>sw\<in>set (grid_edges demo_db). edge_id sw = fp_isolated_edge p \<and> is_closed sw)"
proof -
  obtain p where p: "plan_flisr demo_db (Some ''B'') None = Inr p" by (rule demo_plan_Inr)
  with flisr_isolates_least [OF p] show ?thesis by blast
qed

text \<open>
  The customer counts of a plan add up: whoever loses supply when the switch opens is either
  restored or still out at the end; the restored count also includes customers who had no supply
  before the fault and get it from the ties.
\<close>

theorem flisr_accounting:
  assumes "plan_flisr s fnode fedge = Inr p"
  shows "fp_customers_restored p + fp_customers_still_out p = fp_customers_lost p +
    length (service_points_at s (energized_set (grid_edges (apply_plan p s)) (substations s)
                                 - energized_set (grid_edges s) (substations s)))"
proof -
  let ?E = "\<lambda>es. energized_set es (substations s)"
  let ?n = "\<lambda>X. length (service_points_at s X)"
  from assms show ?thesis
  proof (cases rule: plan_flisr_cases)
    case (1 fault sw edges_iso lost cur)
    have up: "?E edges_iso \<subseteq> ?E cur"
      using restore_loop_edges [OF 1(8)] fold_close_mono by (auto intro!: energized_set_mono)
    have down: "?E edges_iso \<subseteq> ?E (grid_edges s)"
      unfolding 1(6) by (rule energized_set_mono) (rule closed_arcs_open)
    have nofault: "?E cur - ?E edges_iso - {fault} = ?E cur - ?E edges_iso"
    proof (cases "fp_restored_edges p = []")
      case True
      then show ?thesis using restore_loop_edges [OF 1(8)] by auto
    next
      case False
      then show ?thesis using restore_loop_fault_dead [OF 1(8)] by auto
    qed
    have "?E cur - ?E edges_iso = (lost \<inter> ?E cur) \<union> (?E cur - ?E (grid_edges s))"
      using up down unfolding 1(7) by blast
    moreover have "(lost \<inter> ?E cur) \<inter> (?E cur - ?E (grid_edges s)) = {}" unfolding 1(7) by blast
    ultimately have a: "?n (?E cur - ?E edges_iso) = ?n (lost \<inter> ?E cur) + ?n (?E cur - ?E (grid_edges s))"
      using service_points_at_split by metis
    have "lost = (lost \<inter> ?E cur) \<union> (?E (grid_edges s) - ?E cur)"
      using up unfolding 1(7) by blast
    moreover have "(lost \<inter> ?E cur) \<inter> (?E (grid_edges s) - ?E cur) = {}" by blast
    ultimately have "?n lost = ?n (lost \<inter> ?E cur) + ?n (?E (grid_edges s) - ?E cur)"
      using service_points_at_split by metis
    with a show ?thesis by (simp add: 1(9-12) nofault)
  qed
qed

theorem flisr_accounting_witness:
  "\<exists>p. plan_flisr demo_db (Some ''B'') None = Inr p \<and> fp_customers_lost p = 2 \<and>
     fp_customers_restored p + fp_customers_still_out p = 2"
proof -
  obtain p where p: "plan_flisr demo_db (Some ''B'') None = Inr p" by (rule demo_plan_Inr)
  have "map_sum id (\<lambda>p. (fp_customers_lost p, length (service_points_at demo_db
      (energized_set (grid_edges (apply_plan p demo_db)) (substations demo_db)
        - energized_set (grid_edges demo_db) (substations demo_db)))))
      (plan_flisr demo_db (Some ''B'') None) = Inr (2, 0)" by code_simp
  with p flisr_accounting [OF p] show ?thesis by auto
qed

text \<open>
  Simulating FLISR records one event and moves switches only when the caller asked to
  execute, holds an operating role and the control flag is on; then it moves exactly the
  switches of the plan.
\<close>

theorem flisr_simulate_gated:
  assumes "flisr_simulate enabled po fnode fedge execute s = Inr (ev, s')"
  shows "flisr_events s' = flisr_events s @ [ev] \<and> grid_nodes s' = grid_nodes s \<and>
    (if execute
     then enabled \<and> (\<exists>pr. po = Some pr \<and> role_allowed (p_role pr) [Operator, Engineer, Admin]) \<and>
       (\<exists>p. plan_flisr s fnode fedge = Inr p \<and> fe_isolated ev = [fp_isolated_edge p] \<and>
            fe_restored ev = fp_restored_edges p \<and> grid_edges s' = grid_edges (apply_plan p s))
     else grid_edges s' = grid_edges s)"
proof -
  obtain pr p where r: "require_role [Operator, Engineer, Admin] po = Inr pr"
    and p: "plan_flisr s fnode fedge = Inr p"
    using assms by (auto simp: flisr_simulate_def bindR_eq_Inr)
  have role: "po = Some pr" "role_allowed (p_role pr) [Operator, Engineer, Admin]"
    using r by (auto simp: require_role_Inr)
  show ?thesis
  proof (cases execute)
    case True
    with assms r p have "enabled" by (cases enabled) (auto simp: flisr_simulate_def)
    with True assms r p role show ?thesis by (auto simp: flisr_simulate_def Let_def)
  next
    case False
    with assms r p show ?thesis by (auto simp: flisr_simulate_def Let_def)
  qed
qed

theorem flisr_simulate_gated_witness:
  "\<exists>ev s'. flisr_simulate True (Some operator1) (Some ''B'') None True demo_db = Inr (ev, s') \<and>
     flisr_events s' = [ev] \<and> map is_closed (grid_edges s') = [True, False, True, True]"
proof -
  have "map_sum id (map is_closed \<circ> grid_edges \<circ> snd)
      (flisr_simulate True (Some operator1) (Some ''B'') None True demo_db) = Inr [True, False, True, True]"
    by code_simp
  then obtain ev s' where f: "flisr_simulate True (Some operator1) (Some ''B'') None True demo_db = Inr (ev, s')"
    and c: "map is_closed (grid_edges s') = [True, False, True, True]"
    by (cases "flisr_simulate True (Some operator1) (Some ''B'') None True demo_db") auto
  have "flisr_events demo_db = []" by (simp add: demo_db_def empty_db_def)
  with flisr_simulate_gated [OF f] f c show ?thesis by auto
qed

text \<open>
  Without the radiality hypothesis isolation can fail: with \<open>A\<close> fed from two sources, the plan
  opens one of the two switches and the fault keeps its supply.
\<close>

lemma flisr_doubly_fed:
  "map_sum id (\<lambda>p. (fp_isolated_edge p,
       fp_fault_node p \<in> energized_set (grid_edges (apply_plan p ring_db)) (substations ring_db)))
     (plan_flisr ring_db (Some ''A'') None) = Inr (''E1'', True)"
  by code_simp

end
