(* ===== verification/Field_Devices.thy ===== *)
theory Field_Devices
  imports Demo_Network
begin

text \<open>
  The path to the field: \<^verbatim>\<open>_dispatch_command\<close>, \<^verbatim>\<open>create_command\<close> and \<^verbatim>\<open>ack_command\<close> of
  \<^verbatim>\<open>src/fastapi/app.py\<close>, the acknowledgement poll of \<^verbatim>\<open>routers/oc_switch.py\<close> and the state
  readback and echo verification of \<^verbatim>\<open>routers/device_state.py\<close>. What other processes do while
  a handler waits is data of the run: the stores it would read at each poll.
\<close>

subsection \<open>The surroundings of one handler run\<close>

text \<open>
  The environment variables read at call time, whether Kafka takes the message, an
  acknowledgement that arrives before the dispatch is marked, the stores seen by the polls for
  the acknowledgement and for the echo until their deadlines, and which switch write (counted
  from 0) the database refuses, if any.
\<close>

record field_env =
  env_flag :: "string option"
  env_echo :: "string option"
  env_kafka_ok :: bool
  env_early_ack :: "(command_status \<times> msg option) option"
  env_polls :: "db list"
  env_readings :: "db list"
  env_write_fault :: "nat option"

definition controls_enabled :: "field_env \<Rightarrow> bool" where
  "controls_enabled env = flag_on (env_flag env) ''false''"

definition echo_enabled :: "field_env \<Rightarrow> bool" where
  "echo_enabled env = flag_on (env_echo env) ''true''"

subsection \<open>Commands\<close>

definition allowed_commands :: "(string \<times> string list) list" where
  "allowed_commands =
     [(''ev_charger'', [''start_charging'', ''stop_charging'', ''set_limit'']),
      (''battery'', [''charge'', ''discharge'', ''set_soc_target'', ''idle'', ''set_power_limit'', ''standby'']),
      (''solar_inverter'', [''curtail'', ''set_limit'', ''resume'']),
      (''microgrid'', [''island'', ''grid_connect'', ''set_setpoint'']),
      (''smartmeter'', [''read_only'', ''remote_disconnect'', ''remote_connect''])]"

definition find_device :: "db \<Rightarrow> string \<Rightarrow> device option" where
  "find_device s d = find (\<lambda>x. device_id x = d) (devices s)"

definition command_allowed :: "string \<Rightarrow> string \<Rightarrow> bool" where
  "command_allowed dty cty = (case map_of allowed_commands dty of None \<Rightarrow> True | Some cs \<Rightarrow> cty \<in> set cs)"

definition find_command :: "db \<Rightarrow> uuid \<Rightarrow> command option" where
  "find_command s cid = find (\<lambda>c. command_id c = cid) (commands s)"

definition update_command :: "uuid \<Rightarrow> (command \<Rightarrow> command) \<Rightarrow> db \<Rightarrow> db" where
  "update_command cid f s = s\<lparr>commands := update_where (\<lambda>c. command_id c = cid) f (commands s)\<rparr>"

definition terminal_command :: "command_status \<Rightarrow> bool" where
  "terminal_command st \<longleftrightarrow> st = C_ACKED \<or> st = C_FAILED \<or> st = C_COMPLETED"

text \<open>The statement of an acknowledgement, and the one that marks a command dispatched.\<close>

definition acknowledge :: "rat \<Rightarrow> command_status \<Rightarrow> msg option \<Rightarrow> command \<Rightarrow> command" where
  "acknowledge t st err c = c\<lparr>command_status := st, command_error := err, acked_at := Some t\<rparr>"

definition mark_dispatched :: "rat \<Rightarrow> command \<Rightarrow> command" where
  "mark_dispatched t c = c\<lparr>dispatched_at := (case dispatched_at c of None \<Rightarrow> Some t | Some u \<Rightarrow> Some u),
     command_status := (if terminal_command (command_status c) then command_status c else C_SENT)\<rparr>"

definition early_ack :: "field_env \<Rightarrow> uuid \<Rightarrow> db \<Rightarrow> db" where
  "early_ack env cid s = (case env_early_ack env of
       None \<Rightarrow> s | Some (st, err) \<Rightarrow> update_command cid (acknowledge (now s) st err) s)"

definition pending_command :: "device \<Rightarrow> string \<Rightarrow> string \<Rightarrow> pyval \<Rightarrow> string \<Rightarrow> db \<Rightarrow> command" where
  "pending_command d dev cty params by s = \<lparr>command_id = next_uuid s, command_device = dev,
     command_device_type = device_type d, command_type = cty, command_params = params,
     command_status = C_PENDING, issued_by = by, command_error = None, command_created = now s,
     dispatched_at = None, acked_at = None\<rparr>"

definition dispatch_command :: "field_env \<Rightarrow> string \<Rightarrow> string \<Rightarrow> pyval \<Rightarrow> string \<Rightarrow> command run" where
  "dispatch_command env dev cty params by s =
     (case find_device s dev of
        None \<Rightarrow> http 404 ''Unknown device_id {}'' [dev] s
      | Some d \<Rightarrow>
          if \<not> command_allowed (device_type d) cty
          then http 422 ''command_type {} not valid for device_type {}'' [cty, device_type d] s
          else if \<not> jsonb_ok params then fail (DbError (Fmt ''invalid input syntax for type json'' [])) s
          else
            let cid = next_uuid s;
                s1 = s\<lparr>next_uuid := Suc cid, commands := commands s @ [pending_command d dev cty params by s]\<rparr>
            in if \<not> env_kafka_ok env
               then http 502 ''Failed to publish command to Kafka'' []
                      (update_command cid (\<lambda>c. c\<lparr>command_status := C_FAILED,
                         command_error := Some (Fmt ''kafka publish failed'' [])\<rparr>) s1)
               else let s2 = update_command cid (mark_dispatched (now s)) (early_ack env cid s1)
                    in (case find_command s2 cid of
                          Some c \<Rightarrow> (Inr c, s2)
                        | None \<Rightarrow> fail (TypeErr (Fmt ''NoneType object is not subscriptable'' [])) s2))"

text \<open>The tenant guard and the public endpoint.\<close>

definition assert_device_tenant :: "principal \<Rightarrow> string \<Rightarrow> db \<Rightarrow> unit result" where
  "assert_device_tenant p dev s =
     (case (p_tenant p, find_device s dev) of
        (Some t, Some d) \<Rightarrow>
          if device_tenant d \<noteq> t then Inl (HTTPException 403 (Fmt ''device {} belongs to another tenant'' [dev]))
          else Inr ()
      | _ \<Rightarrow> Inr ())"

definition create_command :: "field_env \<Rightarrow> principal option \<Rightarrow> string \<Rightarrow> string \<Rightarrow> pyval \<Rightarrow> string \<Rightarrow> command run" where
  "create_command env po dev cty params by =
     bindS (lift (\<lambda>_. require_role [Operator] po)) (\<lambda>p.
     bindS (lift (assert_device_tenant p dev)) (\<lambda>_.
       dispatch_command env dev cty params by))"

definition ack_status :: "string \<Rightarrow> command_status option" where
  "ack_status st = (let u = to_upper st in
     if u = ''ACKED'' then Some C_ACKED else if u = ''FAILED'' then Some C_FAILED else None)"

definition ack_command :: "principal option \<Rightarrow> uuid \<Rightarrow> string \<Rightarrow> msg option \<Rightarrow> command_status run" where
  "ack_command po cid st err s =
     bindS (lift (\<lambda>_. require_role [Service] po)) (\<lambda>_ s.
       case ack_status st of
         None \<Rightarrow> http 422 ''status must be ACKED or FAILED'' [] s
       | Some v \<Rightarrow>
           if find_command s cid = None then http 404 ''Unknown command_id'' [] s
           else (Inr v, update_command cid (acknowledge (now s) v err) s)) s"

subsection \<open>Waiting for the device\<close>

record ack =
  acked :: bool
  ack_state :: command_status
  ack_timed_out :: bool

fun poll_ack :: "uuid \<Rightarrow> db list \<Rightarrow> ack" where
  "poll_ack cid [] = \<lparr>acked = False, ack_state = C_PENDING, ack_timed_out = True\<rparr>"
| "poll_ack cid (snap # snaps) =
     (case find_command snap cid of
        Some c \<Rightarrow> if command_status c = C_ACKED \<or> command_status c = C_FAILED
                  then \<lparr>acked = (command_status c = C_ACKED), ack_state = command_status c, ack_timed_out = False\<rparr>
                  else poll_ack cid snaps
      | None \<Rightarrow> poll_ack cid snaps)"

text \<open>What a device last reported.\<close>

record reading =
  rd_ts :: rat
  rd_age :: rat
  rd_power_kw :: "rat option"
  rd_frequency :: "rat option"
  rd_voltage :: "rat option"
  rd_grid_connected :: "bool option"
  rd_mode :: pyval
  rd_setpoint :: "pyfloat option"

definition dict_lookup :: "pyval \<Rightarrow> string \<Rightarrow> pyval" where
  "dict_lookup v k = (case v of PDict d \<Rightarrow> dict_get d k PNone | _ \<Rightarrow> PNone)"

definition read_device_state :: "db \<Rightarrow> string \<Rightarrow> reading option result" where
  "read_device_state s dev =
     (case latest_telemetry s dev of
        None \<Rightarrow> Inr None
      | Some t \<Rightarrow>
          let gc = dict_lookup (t_metadata t) ''grid_connected''; sp = dict_lookup (t_metadata t) ''setpoint_kw'' in
          bindR (if sp = PNone then Inr None else bindR (py_float sp) (\<lambda>x. Inr (Some x))) (\<lambda>spv.
            Inr (Some \<lparr>rd_ts = t_time t, rd_age = now s - t_time t, rd_power_kw = t_power_kw t,
                       rd_frequency = t_frequency t, rd_voltage = t_voltage t,
                       rd_grid_connected = (if gc = PNone then None else Some (truthy gc)),
                       rd_mode = dict_lookup (t_metadata t) ''mode'', rd_setpoint = spv\<rparr>)))"

datatype expectation = ExpectGrid bool | ExpectSetpoint pyfloat

definition setpoint_tol_kw :: pyfloat where
  "setpoint_tol_kw = Fin 1"

text \<open>\<^verbatim>\<open>_field_match\<close>: nothing when the device does not report the field.\<close>

fun field_match :: "reading \<Rightarrow> expectation \<Rightarrow> bool option" where
  "field_match st (ExpectGrid want) = map_option (\<lambda>have. have = want) (rd_grid_connected st)"
| "field_match st (ExpectSetpoint want) =
     map_option (\<lambda>have. fl_le (fl_abs (fl_sub have want)) setpoint_tol_kw) (rd_setpoint st)"

record echo =
  confirmed :: "bool option"
  echo_timed_out :: bool
  observed :: "reading option"
  expected :: expectation

fun echo_loop :: "string \<Rightarrow> expectation \<Rightarrow> rat \<Rightarrow> bool \<Rightarrow> reading option \<Rightarrow> db list \<Rightarrow> echo result" where
  "echo_loop dev want base reported prev [] =
     Inr \<lparr>confirmed = (if reported then Some False else None), echo_timed_out = True,
          observed = prev, expected = want\<rparr>"
| "echo_loop dev want base reported prev (snap # snaps) =
     bindR (read_device_state snap dev) (\<lambda>r.
       case r of
         Some st \<Rightarrow>
           if base < rd_ts st then
             (if field_match st want = Some True
              then Inr \<lparr>confirmed = Some True, echo_timed_out = False, observed = Some st, expected = want\<rparr>
              else echo_loop dev want base (reported \<or> field_match st want \<noteq> None) (Some st) snaps)
           else echo_loop dev want base reported prev snaps
       | None \<Rightarrow> echo_loop dev want base reported prev snaps)"

definition verify_echo :: "field_env \<Rightarrow> string \<Rightarrow> expectation \<Rightarrow> db \<Rightarrow> echo result" where
  "verify_echo env dev want s =
     bindR (read_device_state s dev) (\<lambda>start.
       echo_loop dev want (case start of None \<Rightarrow> 0 | Some st \<Rightarrow> rd_ts st) False start (env_readings env))"

subsection \<open>JSON of the results\<close>

definition opt_num :: "rat option \<Rightarrow> pyval" where
  "opt_num x = (case x of None \<Rightarrow> PNone | Some r \<Rightarrow> PFloat (Fin r))"

definition reading_json :: "reading \<Rightarrow> pyval" where
  "reading_json st = PDict
     [(''grid_connected'', case rd_grid_connected st of None \<Rightarrow> PNone | Some b \<Rightarrow> PBool b),
      (''mode'', rd_mode st),
      (''setpoint_kw'', case rd_setpoint st of None \<Rightarrow> PNone | Some x \<Rightarrow> PFloat x),
      (''power_kw'', opt_num (rd_power_kw st)), (''age_s'', PFloat (Fin (py_round 1 (rd_age st))))]"

fun expectation_json :: "expectation \<Rightarrow> pyval" where
  "expectation_json (ExpectGrid b) = PDict [(''grid_connected'', PBool b)]"
| "expectation_json (ExpectSetpoint x) = PDict [(''setpoint_kw'', PFloat x)]"

definition echo_json :: "echo \<Rightarrow> pyval" where
  "echo_json e = PDict
     ([(''confirmed'', case confirmed e of None \<Rightarrow> PNone | Some b \<Rightarrow> PBool b),
       (''timed_out'', PBool (echo_timed_out e))]
      @ (if echo_timed_out e
         then [(''reason'', PStr (if confirmed e = Some False
                 then ''device reported but never reached the commanded state''
                 else ''device does not report the expected field(s)''))] else [])
      @ [(''observed'', case observed e of None \<Rightarrow> PNone | Some st \<Rightarrow> reading_json st),
         (''expected'', expectation_json (expected e))])"

fun command_status_name :: "command_status \<Rightarrow> string" where
  "command_status_name C_PENDING = ''PENDING''"
| "command_status_name C_SENT = ''SENT''"
| "command_status_name C_ACKED = ''ACKED''"
| "command_status_name C_FAILED = ''FAILED''"
| "command_status_name C_COMPLETED = ''COMPLETED''"

definition ack_json :: "ack \<Rightarrow> (string \<times> pyval) list" where
  "ack_json a = [(''acked'', PBool (acked a)), (''status'', PStr (command_status_name (ack_state a))),
                 (''timed_out'', PBool (ack_timed_out a))]"

subsection \<open>What the dispatch leaves behind\<close>

lemma update_command_frame [simp, frame_simps]:
  "now (update_command c f s) = now s" "next_uuid (update_command c f s) = next_uuid s"
  "grid_nodes (update_command c f s) = grid_nodes s" "grid_edges (update_command c f s) = grid_edges s"
  "devices (update_command c f s) = devices s" "control_actions (update_command c f s) = control_actions s"
  "control_audit (update_command c f s) = control_audit s" "flisr_events (update_command c f s) = flisr_events s"
  "commands (update_command c f s) = update_where (\<lambda>x. command_id x = c) f (commands s)"
  by (simp_all add: update_command_def)

lemma early_ack_frame [simp, frame_simps]:
  "now (early_ack env c s) = now s" "next_uuid (early_ack env c s) = next_uuid s"
  "grid_nodes (early_ack env c s) = grid_nodes s" "grid_edges (early_ack env c s) = grid_edges s"
  "devices (early_ack env c s) = devices s" "control_actions (early_ack env c s) = control_actions s"
  "control_audit (early_ack env c s) = control_audit s" "flisr_events (early_ack env c s) = flisr_events s"
  by (simp_all add: early_ack_def split: option.splits)

text \<open>Command keys come from the counter, so they stay below it and apart.\<close>

definition commands_wf :: "db \<Rightarrow> bool" where
  "commands_wf s \<longleftrightarrow> (\<forall>c\<in>set (commands s). command_id c < next_uuid s) \<and> distinct (map command_id (commands s))"

lemma update_where_fresh:
  "(\<And>x. x \<in> set xs \<Longrightarrow> \<not> p x) \<Longrightarrow> update_where p f (xs @ [y]) = xs @ [if p y then f y else y]"
  by (induction xs) (auto simp: update_where_def)

lemma find_fresh:
  "(\<And>x. x \<in> set xs \<Longrightarrow> \<not> p x) \<Longrightarrow> p y \<Longrightarrow> find p (xs @ [y]) = Some y"
  by (induction xs) auto

text \<open>The only tables a dispatch touches are the commands, and it appends at most one row.\<close>

lemma dispatch_frame:
  assumes "dispatch_command env dev cty params by s = (r, s')"
  shows "grid_nodes s' = grid_nodes s" "grid_edges s' = grid_edges s" "devices s' = devices s"
    and "control_actions s' = control_actions s" "control_audit s' = control_audit s"
    and "flisr_events s' = flisr_events s" "next_uuid s \<le> next_uuid s'" "now s' = now s"
  using assms by (auto simp: dispatch_command_def Let_def split: option.splits if_splits)

lemma dispatch_appends:
  assumes "commands_wf s" "dispatch_command env dev cty params by s = (r, s')"
    and "\<And>st err. env_early_ack env = Some (st, err) \<Longrightarrow> st = C_ACKED \<or> st = C_FAILED"
  shows "(commands s' = commands s \<and> isl r) \<or>
    (\<exists>c d. commands s' = commands s @ [c] \<and> find_device s dev = Some d \<and>
       command_allowed (device_type d) cty \<and> command_device c = dev \<and> command_device_type c = device_type d \<and> command_type c = cty \<and>
       command_params c = params \<and> command_id c = next_uuid s \<and>
       (if env_kafka_ok env
        then r = Inr c \<and> dispatched_at c = Some (now s) \<and>
             command_status c = (case env_early_ack env of None \<Rightarrow> C_SENT | Some (st, _) \<Rightarrow> st)
        else command_status c = C_FAILED \<and> (\<exists>m. r = Inl (HTTPException 502 m))))"
proof -
  consider (none) "find_device s dev = None"
    | (bad) d where "find_device s dev = Some d" "\<not> command_allowed (device_type d) cty"
    | (nojson) d where "find_device s dev = Some d" "command_allowed (device_type d) cty" "\<not> jsonb_ok params"
    | (run) d where "find_device s dev = Some d" "command_allowed (device_type d) cty" "jsonb_ok params"
    by (cases "find_device s dev") auto
  then show ?thesis
  proof cases
    case run
    let ?row = "pending_command d dev cty params by s"
    let ?id = "\<lambda>x. command_id x = next_uuid s"
    have fresh: "\<not> ?id c" if "c \<in> set (commands s)" for c
      using assms(1) that by (auto simp: commands_wf_def)
    have u: "update_where ?id f (commands s @ [c]) = commands s @ [f c]" if "?id c" for f c
      using that update_where_fresh [OF fresh, of "commands s"] by simp
    have row: "?id ?row" "command_device ?row = dev" "command_type ?row = cty" "command_params ?row = params"
      "command_device_type ?row = device_type d" "dispatched_at ?row = None" "command_status ?row = C_PENDING"
      by (simp_all add: pending_command_def)
    show ?thesis
    proof (cases "env_kafka_ok env")
      case False
      let ?f = "\<lambda>c. c\<lparr>command_status := C_FAILED, command_error := Some (Fmt ''kafka publish failed'' [])\<rparr>"
      have "r = Inl (HTTPException 502 (Fmt ''Failed to publish command to Kafka'' []))"
        and "commands s' = commands s @ [?f ?row]"
        using assms(2) run False by (auto simp: dispatch_command_def Let_def u row)
      with run row False show ?thesis by (intro disjI2 exI [of _ "?f ?row"] exI [of _ d]) simp
    next
      case True
      define c1 where "c1 = (case env_early_ack env of None \<Rightarrow> ?row | Some (st, err) \<Rightarrow> acknowledge (now s) st err ?row)"
      define c2 where "c2 = mark_dispatched (now s) c1"
      let ?s1 = "s\<lparr>next_uuid := Suc (next_uuid s), commands := commands s @ [?row]\<rparr>"
      have c1: "?id c1" "command_device c1 = dev" "command_type c1 = cty" "command_params c1 = params"
        "command_device_type c1 = device_type d" "dispatched_at c1 = None" using row by (auto simp: c1_def acknowledge_def split: option.splits)
      have st: "command_status c1 = (case env_early_ack env of None \<Rightarrow> C_PENDING | Some (st, _) \<Rightarrow> st)"
        using row by (auto simp: c1_def acknowledge_def split: option.splits)
      have "commands (early_ack env (next_uuid s) ?s1) = commands s @ [c1]"
        using row by (auto simp: early_ack_def c1_def u split: option.splits)
      moreover define s2 where "s2 = update_command (next_uuid s) (mark_dispatched (now s)) (early_ack env (next_uuid s) ?s1)"
      ultimately have cs: "commands s2 = commands s @ [c2]" using c1 by (simp add: u c2_def)
      have c2: "?id c2" "command_device c2 = dev" "command_type c2 = cty" "command_params c2 = params"
        "command_device_type c2 = device_type d" "dispatched_at c2 = Some (now s)" using c1 by (simp_all add: c2_def mark_dispatched_def)
      have "command_status c2 = (case env_early_ack env of None \<Rightarrow> C_SENT | Some (st, _) \<Rightarrow> st)"
        using st assms(3) by (auto simp: c2_def mark_dispatched_def terminal_command_def split: option.splits)
      moreover have "find_command s2 (next_uuid s) = Some c2"
        using find_fresh [where xs = "commands s" and p = ?id, OF fresh c2(1)] by (simp add: find_command_def cs)
      then have "r = Inr c2 \<and> s' = s2"
        using assms(2) run True by (auto simp: dispatch_command_def Let_def s2_def [symmetric])
      with cs have "r = Inr c2 \<and> commands s' = commands s @ [c2]" by simp
      ultimately show ?thesis using c2 run True by auto
    qed
  qed (use assms(2) in \<open>auto simp: dispatch_command_def\<close>)
qed

text \<open>
  a dispatch either leaves the command table alone (unknown device, command not in the
  vocabulary of the device type, parameters that are no JSON), or appends exactly one row for
  this device: marked failed with 502 when Kafka refuses it, and otherwise dispatched, with
  the status of an acknowledgement that came first kept and \<^verbatim>\<open>SENT\<close> if there was none.
\<close>

theorem dispatch_outcome:
  assumes "commands_wf s" "dispatch_command env dev cty params by s = (r, s')"
    and "\<And>st err. env_early_ack env = Some (st, err) \<Longrightarrow> st = C_ACKED \<or> st = C_FAILED"
  shows "(commands s' = commands s \<and> isl r) \<or>
    (\<exists>c d. commands s' = commands s @ [c] \<and> find_device s dev = Some d \<and>
       command_allowed (device_type d) cty \<and> command_device c = dev \<and> command_device_type c = device_type d \<and> command_type c = cty \<and>
       command_params c = params \<and> command_id c = next_uuid s \<and>
       (if env_kafka_ok env
        then r = Inr c \<and> dispatched_at c = Some (now s) \<and>
             command_status c = (case env_early_ack env of None \<Rightarrow> C_SENT | Some (st, _) \<Rightarrow> st)
        else command_status c = C_FAILED \<and> (\<exists>m. r = Inl (HTTPException 502 m))))"
  by (rule dispatch_appends [OF assms])

definition quiet_env :: field_env where
  "quiet_env = \<lparr>env_flag = Some ''true'', env_echo = None, env_kafka_ok = True, env_early_ack = None,
     env_polls = [], env_readings = [], env_write_fault = None\<rparr>"

theorem dispatch_outcome_witness:
  "\<exists>c s'. dispatch_command quiet_env ''RTU1'' ''island'' (PDict []) ''oc-switch'' demo_db = (Inr c, s') \<and>
     commands s' = [c] \<and> command_status c = C_SENT"
proof -
  have "map_sum id command_type (fst (dispatch_command quiet_env ''RTU1'' ''island'' (PDict []) ''oc-switch'' demo_db))
      = Inr ''island''" by code_simp
  then obtain c s' where d: "dispatch_command quiet_env ''RTU1'' ''island'' (PDict []) ''oc-switch'' demo_db = (Inr c, s')"
    by (cases "dispatch_command quiet_env ''RTU1'' ''island'' (PDict []) ''oc-switch'' demo_db";
        cases "fst (dispatch_command quiet_env ''RTU1'' ''island'' (PDict []) ''oc-switch'' demo_db)") auto
  have "commands_wf demo_db" "commands demo_db = []" by code_simp+
  with dispatch_outcome [OF _ d] d show ?thesis by (auto simp: quiet_env_def)
qed

subsection \<open>What an echo verdict means\<close>

text \<open>The readings of the device newer than the baseline, in the order they were polled.\<close>

definition fresh_readings :: "string \<Rightarrow> rat \<Rightarrow> db list \<Rightarrow> reading set" where
  "fresh_readings dev base snaps =
     {st. \<exists>snap\<in>set snaps. read_device_state snap dev = Inr (Some st) \<and> base < rd_ts st}"

lemma fresh_readings_Nil [simp]: "fresh_readings dev base [] = {}"
  by (simp add: fresh_readings_def)

lemma fresh_readings_Cons:
  "fresh_readings dev base (snap # snaps) = fresh_readings dev base snaps \<union>
     {st. read_device_state snap dev = Inr (Some st) \<and> base < rd_ts st}"
  by (auto simp: fresh_readings_def)

lemma echo_loop_verdict:
  assumes "echo_loop dev want base reported prev snaps = Inr e"
  shows "(confirmed e = Some True \<longrightarrow> (\<exists>st\<in>fresh_readings dev base snaps. field_match st want = Some True)) \<and>
    (confirmed e = Some False \<longrightarrow> (\<forall>st\<in>fresh_readings dev base snaps. field_match st want \<noteq> Some True) \<and>
       (reported \<or> (\<exists>st\<in>fresh_readings dev base snaps. field_match st want = Some False))) \<and>
    (confirmed e = None \<longrightarrow> \<not> reported \<and> (\<forall>st\<in>fresh_readings dev base snaps. field_match st want = None))"
  using assms
proof (induction snaps arbitrary: reported prev)
  case (Cons snap snaps)
  obtain r where r: "read_device_state snap dev = Inr r"
    using Cons.prems by (auto simp: bindR_eq_Inr)
  show ?case
  proof (cases "\<exists>st. r = Some st \<and> base < rd_ts st")
    case False
    then have "fresh_readings dev base (snap # snaps) = fresh_readings dev base snaps"
      using r by (auto simp: fresh_readings_Cons)
    moreover have e: "echo_loop dev want base reported prev snaps = Inr e"
      using Cons.prems r False by (auto split: option.splits if_splits)
    ultimately show ?thesis using Cons.IH [OF e] by simp
  next
    case True
    then obtain st where st: "r = Some st" "base < rd_ts st" by blast
    then have f: "fresh_readings dev base (snap # snaps) = insert st (fresh_readings dev base snaps)"
      using r by (auto simp: fresh_readings_Cons)
    show ?thesis
    proof (cases "field_match st want = Some True")
      case True
      with Cons.prems r st have "confirmed e = Some True" by auto
      with True f show ?thesis by auto
    next
      case False
      then have e: "echo_loop dev want base (reported \<or> field_match st want \<noteq> None) (Some st) snaps = Inr e"
        using Cons.prems r st by simp
      show ?thesis
        using Cons.IH [OF e] False unfolding f by (cases "field_match st want") auto
    qed
  qed
qed (auto split: if_splits)

text \<open>
  The verdict of the echo verification. \<^verbatim>\<open>True\<close> means that some reading newer than the one
  before the check showed the commanded state; \<^verbatim>\<open>False\<close> that newer readings reported the field
  and none showed the commanded state; no verdict, that no newer reading reported the field.
\<close>

theorem verify_echo_verdict:
  assumes "verify_echo env dev want s = Inr e" "read_device_state s dev = Inr start"
    and "base = (case start of None \<Rightarrow> 0 | Some st \<Rightarrow> rd_ts st)"
  shows "(confirmed e = Some True \<longrightarrow>
            (\<exists>st\<in>fresh_readings dev base (env_readings env). field_match st want = Some True)) \<and>
    (confirmed e = Some False \<longrightarrow>
       (\<forall>st\<in>fresh_readings dev base (env_readings env). field_match st want \<noteq> Some True) \<and>
       (\<exists>st\<in>fresh_readings dev base (env_readings env). field_match st want = Some False)) \<and>
    (confirmed e = None \<longrightarrow> (\<forall>st\<in>fresh_readings dev base (env_readings env). field_match st want = None))"
proof -
  have "echo_loop dev want base False start (env_readings env) = Inr e"
    using assms by (simp add: verify_echo_def)
  from echo_loop_verdict [OF this] show ?thesis by blast
qed

definition moved_env :: field_env where
  "moved_env = quiet_env\<lparr>env_readings := [demo_db, demo_db\<lparr>telemetry_rows :=
     [mk_telemetry ''RTU1'' 99 (PDict [(''grid_connected'', PBool False)])]\<rparr>]\<rparr>"

theorem verify_echo_verdict_witness:
  "\<exists>e. verify_echo moved_env ''RTU1'' (ExpectGrid False) demo_db = Inr e \<and> confirmed e = Some True \<and>
     (\<exists>st\<in>fresh_readings ''RTU1'' 90 (env_readings moved_env). rd_grid_connected st = Some False)"
proof -
  have "map_sum id confirmed (verify_echo moved_env ''RTU1'' (ExpectGrid False) demo_db) = Inr (Some True)"
    by code_simp
  then obtain e where e: "verify_echo moved_env ''RTU1'' (ExpectGrid False) demo_db = Inr e" "confirmed e = Some True"
    by (cases "verify_echo moved_env ''RTU1'' (ExpectGrid False) demo_db") auto
  have "map_sum id (map_option rd_ts) (read_device_state demo_db ''RTU1'') = Inr (Some 90)" by code_simp
  then obtain st where st: "read_device_state demo_db ''RTU1'' = Inr (Some st)" "rd_ts st = 90"
    by (cases "read_device_state demo_db ''RTU1''") auto
  with verify_echo_verdict [OF e(1) st(1) refl] e show ?thesis by auto
qed

end
