(* ===== verification/Controls.thy ===== *)
theory Controls
  imports Field_Devices
begin

text \<open>
  The governance core of \<^verbatim>\<open>src/fastapi/routers/controls.py\<close>: the handler registry, the audit
  trail, and the endpoints that request, approve, reject, execute and roll back a control
  action. The components that actuate (\<open>Switch_Ops\<close>, \<open>Flisr_Exec\<close>, \<open>Volt_Var\<close>) supply handlers;
  what the core needs of them is the locale \<open>control_handlers\<close>. Metrics and logs are not modelled.
\<close>

subsection \<open>Handlers\<close>

record handler =
  h_plan :: "string option \<Rightarrow> pyval \<Rightarrow> db \<Rightarrow> (pyval \<times> pyval) result"
  h_risk_for :: "string option \<Rightarrow> pyval \<Rightarrow> db \<Rightarrow> risk_class result"
  h_execute :: "field_env \<Rightarrow> control_action \<Rightarrow> pyval run"
  h_rollback :: "field_env \<Rightarrow> control_action \<Rightarrow> pyval run"

type_synonym registry = "(string \<times> handler) list"

definition noop_handler :: handler where
  "noop_handler = \<lparr>
     h_plan = (\<lambda>_ params _. Inr (PDict [(''noop'', PBool True)], PDict [(''noop'', PBool True), (''echo'', params)])),
     h_risk_for = (\<lambda>_ _ _. Inr Low),
     h_execute = (\<lambda>_ _. ret (PDict [(''noop'', PBool True), (''executed'', PBool True)])),
     h_rollback = (\<lambda>_ a. ret (if truthy (before_state a) then before_state a else PDict []))\<rparr>"

subsection \<open>Rows, audit and guards\<close>

abbreviation "REQUEST_ROLES \<equiv> [Operator, Engineer, Admin]"
abbreviation "APPROVE_ROLES \<equiv> [Engineer, Admin]"

fun mode_name :: "action_mode \<Rightarrow> string" where
  "mode_name DryRun = ''dry_run''" | "mode_name Live = ''live''"

fun risk_name :: "risk_class \<Rightarrow> string" where
  "risk_name Low = ''low''" | "risk_name High = ''high''"

fun status_name :: "action_status \<Rightarrow> string" where
  "status_name PENDING = ''PENDING''"
| "status_name APPROVED = ''APPROVED''"
| "status_name REJECTED = ''REJECTED''"
| "status_name EXECUTED = ''EXECUTED''"
| "status_name FAILED = ''FAILED''"
| "status_name ROLLED_BACK = ''ROLLED_BACK''"

definition opt_str :: "string option \<Rightarrow> pyval" where
  "opt_str x = (case x of None \<Rightarrow> PNone | Some v \<Rightarrow> PStr v)"

definition bad_json :: exn where
  "bad_json = DbError (Fmt ''invalid input syntax for type json'' [])"

definition logged :: "uuid \<Rightarrow> audit_event_kind \<Rightarrow> string \<Rightarrow> pyval \<Rightarrow> db \<Rightarrow> db" where
  "logged aid ev who detail s = s\<lparr>control_audit := control_audit s @
     [\<lparr>audit_action = aid, audit_event = ev, audit_actor = who, audit_detail = detail,
       audit_version = current_model_version s, audit_at = now s\<rparr>]\<rparr>"

definition add_audit :: "uuid \<Rightarrow> audit_event_kind \<Rightarrow> string \<Rightarrow> pyval \<Rightarrow> unit run" where
  "add_audit aid ev who detail s =
     (if jsonb_ok detail then (Inr (), logged aid ev who detail s) else (Inl bad_json, s))"

definition find_action :: "db \<Rightarrow> uuid \<Rightarrow> control_action option" where
  "find_action s aid = find (\<lambda>a. action_id a = aid) (control_actions s)"

definition rewrite_action :: "uuid \<Rightarrow> (control_action \<Rightarrow> control_action) \<Rightarrow> db \<Rightarrow> db" where
  "rewrite_action aid f s =
     s\<lparr>control_actions := update_where (\<lambda>a. action_id a = aid) f (control_actions s)\<rparr>"

definition put_action :: "uuid \<Rightarrow> (control_action \<Rightarrow> control_action) \<Rightarrow> unit run" where
  "put_action aid f = modify (rewrite_action aid f)"

definition assert_tenant :: "principal \<Rightarrow> control_action \<Rightarrow> unit result" where
  "assert_tenant p a = (case p_tenant p of
       None \<Rightarrow> Inr ()
     | Some t \<Rightarrow> if action_tenant a \<noteq> t then Inl (HTTPException 403 (Fmt ''action belongs to another tenant'' []))
               else Inr ())"

definition fetch :: "uuid \<Rightarrow> control_action run" where
  "fetch aid s = (case find_action s aid of
       None \<Rightarrow> http 404 ''action not found'' [] s | Some a \<Rightarrow> (Inr a, s))"

text \<open>The opening of every endpoint on one action: role, existence, tenant.\<close>

definition load_action :: "role list \<Rightarrow> principal option \<Rightarrow> uuid \<Rightarrow> (principal \<times> control_action) run" where
  "load_action roles po aid =
     bindS (lift (\<lambda>_. require_role roles po)) (\<lambda>p.
     bindS (fetch aid) (\<lambda>a.
     bindS (lift (\<lambda>_. assert_tenant p a)) (\<lambda>_. ret (p, a))))"

subsection \<open>Requesting\<close>

definition new_action :: "string \<Rightarrow> string option \<Rightarrow> pyval \<Rightarrow> action_mode \<Rightarrow> risk_class \<Rightarrow> string option
    \<Rightarrow> string \<Rightarrow> pyval \<Rightarrow> string \<Rightarrow> db \<Rightarrow> control_action" where
  "new_action ty target params mode risk reason by before tenant s =
     \<lparr>action_id = next_uuid s, action_type = ty, action_target = target, action_params = params,
      action_mode = mode, action_risk = risk, action_status = PENDING, action_reason = reason,
      requested_by = by, approved_by = None, before_state = before, after_state = None,
      action_error = None, action_tenant = tenant, action_version = current_model_version s,
      created_at = now s, approved_at = None, executed_at = None\<rparr>"

definition submit_action :: "registry \<Rightarrow> string \<Rightarrow> string option \<Rightarrow> pyval \<Rightarrow> action_mode \<Rightarrow> string option
    \<Rightarrow> string \<Rightarrow> string \<Rightarrow> (control_action \<times> risk_class \<times> pyval) run" where
  "submit_action H ty target params mode reason by tenant s =
     (case map_of H ty of
        None \<Rightarrow> http 422 ''unknown action_type {}'' [ty] s
      | Some h \<Rightarrow>
          bindS (lift (h_plan h target params)) (\<lambda>(before, preview).
          bindS (lift (h_risk_for h target params)) (\<lambda>risk s.
            if \<not> jsonb_ok params \<or> \<not> jsonb_ok before then (Inl bad_json, s\<lparr>next_uuid := Suc (next_uuid s)\<rparr>)
            else
              let a = new_action ty target params mode risk reason by before
                        (if tenant = [] then ''default'' else tenant) s
              in bindS (modify (\<lambda>s. s\<lparr>next_uuid := Suc (next_uuid s), control_actions := control_actions s @ [a]\<rparr>)) (\<lambda>_.
                 bindS (add_audit (action_id a) REQUESTED_EV by
                   (PDict [(''action_type'', PStr ty), (''target'', opt_str target), (''mode'', PStr (mode_name mode)),
                           (''risk'', PStr (risk_name risk)), (''preview'', preview)])) (\<lambda>_.
                   ret (a, risk, preview))) s)) s)"

definition create_action :: "registry \<Rightarrow> principal option \<Rightarrow> string \<Rightarrow> string option \<Rightarrow> pyval \<Rightarrow> action_mode
    \<Rightarrow> string option \<Rightarrow> (control_action \<times> risk_class \<times> pyval) run" where
  "create_action H po ty target params mode reason =
     bindS (lift (\<lambda>_. require_role REQUEST_ROLES po)) (\<lambda>p.
       submit_action H ty target params mode reason (p_name p)
         (case p_tenant p of None \<Rightarrow> ''default'' | Some t \<Rightarrow> t))"

subsection \<open>Deciding\<close>

definition reason_json :: "string option \<Rightarrow> pyval" where
  "reason_json r = PDict [(''reason'', opt_str r)]"

definition mark_approved :: "rat \<Rightarrow> string \<Rightarrow> control_action \<Rightarrow> control_action" where
  "mark_approved t who a = a\<lparr>action_status := APPROVED, approved_by := Some who, approved_at := Some t\<rparr>"

definition mark_rejected :: "string \<Rightarrow> control_action \<Rightarrow> control_action" where
  "mark_rejected who a = a\<lparr>action_status := REJECTED, approved_by := Some who\<rparr>"

definition approve :: "principal option \<Rightarrow> uuid \<Rightarrow> string option \<Rightarrow> control_action run" where
  "approve po aid reason = bindS (load_action APPROVE_ROLES po aid) (\<lambda>(p, a).
     if action_status a \<noteq> PENDING then http 409 ''cannot approve from status {}'' [status_name (action_status a)]
     else if action_risk a = High \<and> p_name p = requested_by a
     then http 403 ''high-risk action requires a different approver'' []
     else bindS (\<lambda>s. put_action aid (mark_approved (now s) (p_name p)) s) (\<lambda>_.
          bindS (add_audit aid APPROVED_EV (p_name p) (reason_json reason)) (\<lambda>_. fetch aid)))"

definition reject :: "principal option \<Rightarrow> uuid \<Rightarrow> string option \<Rightarrow> control_action run" where
  "reject po aid reason = bindS (load_action APPROVE_ROLES po aid) (\<lambda>(p, a).
     if action_status a \<noteq> PENDING then http 409 ''cannot reject from status {}'' [status_name (action_status a)]
     else bindS (put_action aid (mark_rejected (p_name p))) (\<lambda>_.
          bindS (add_audit aid REJECTED_EV (p_name p) (reason_json reason)) (\<lambda>_. fetch aid)))"

subsection \<open>Executing\<close>

definition mark_executed :: "rat \<Rightarrow> pyval \<Rightarrow> control_action \<Rightarrow> control_action" where
  "mark_executed t after a = a\<lparr>action_status := EXECUTED, executed_at := Some t,
     after_state := Some after, action_error := None\<rparr>"

definition mark_failed :: "exn \<Rightarrow> control_action \<Rightarrow> control_action" where
  "mark_failed e a = a\<lparr>action_status := FAILED, action_error := Some (exn_msg e)\<rparr>"

definition set_executed :: "uuid \<Rightarrow> pyval \<Rightarrow> unit run" where
  "set_executed aid after s = put_action aid (mark_executed (now s) after) s"

definition execute_dry :: "principal \<Rightarrow> control_action \<Rightarrow> control_action run" where
  "execute_dry p a =
     (if action_status a \<notin> {PENDING, APPROVED}
      then http 409 ''cannot execute from status {}'' [status_name (action_status a)]
      else bindS (add_audit (action_id a) DRYRUN_EV (p_name p) (PDict [])) (\<lambda>_.
           bindS (set_executed (action_id a) (PDict [(''dry_run'', PBool True)])) (\<lambda>_. fetch (action_id a))))"

definition run_handler :: "handler \<Rightarrow> field_env \<Rightarrow> principal \<Rightarrow> control_action \<Rightarrow> control_action run" where
  "run_handler h env p a s =
     (case h_execute h env a s of
        (Inl e, s1) \<Rightarrow>
          if is_http e then (Inl e, s1)
          else bindS (put_action (action_id a) (mark_failed e)) (\<lambda>_.
               bindS (add_audit (action_id a) FAILED_EV (p_name p)
                        (PDict [(''error'', PStr (msg_text (exn_msg e)))])) (\<lambda>_.
                 http 500 ''execution failed: {}'' [msg_text (exn_msg e)])) s1
      | (Inr after, s1) \<Rightarrow>
          if \<not> jsonb_ok after then (Inl bad_json, s1)
          else bindS (set_executed (action_id a) after) (\<lambda>_.
               bindS (add_audit (action_id a) EXECUTED_EV (p_name p)
                        (PDict [(''after_state'', after), (''mode'', PStr ''live'')])) (\<lambda>_.
                 fetch (action_id a))) s1)"

definition execute_live :: "handler \<Rightarrow> field_env \<Rightarrow> principal \<Rightarrow> control_action \<Rightarrow> control_action run" where
  "execute_live h env p a =
     (if \<not> controls_enabled env
      then bindS (add_audit (action_id a) BLOCKED_EV (p_name p)
                    (PDict [(''reason'', PStr ''OC_CONTROLS_ENABLED=false'')])) (\<lambda>_.
             http 403 ''operational controls disabled'' [])
      else if action_risk a = High \<and> action_status a \<noteq> APPROVED
      then bindS (add_audit (action_id a) BLOCKED_EV (p_name p)
                    (PDict [(''reason'', PStr (interpolate ''high-risk live action not approved (status={})''
                                                 [status_name (action_status a)]))])) (\<lambda>_.
             http 409 ''high-risk live action requires two-person approval (status={})''
               [status_name (action_status a)])
      else if action_status a \<notin> {PENDING, APPROVED}
      then http 409 ''cannot execute from status {}'' [status_name (action_status a)]
      else run_handler h env p a)"

definition execute_action :: "registry \<Rightarrow> field_env \<Rightarrow> principal option \<Rightarrow> uuid \<Rightarrow> control_action run" where
  "execute_action H env po aid = bindS (load_action REQUEST_ROLES po aid) (\<lambda>(p, a).
     case map_of H (action_type a) of
       None \<Rightarrow> http 422 ''no handler for {}'' [action_type a]
     | Some h \<Rightarrow> (case action_mode a of DryRun \<Rightarrow> execute_dry p a | Live \<Rightarrow> execute_live h env p a))"

definition mark_rolled_back :: "pyval \<Rightarrow> control_action \<Rightarrow> control_action" where
  "mark_rolled_back after a = a\<lparr>action_status := ROLLED_BACK, after_state := Some after\<rparr>"

definition rollback_action :: "registry \<Rightarrow> field_env \<Rightarrow> principal option \<Rightarrow> uuid \<Rightarrow> control_action run" where
  "rollback_action H env po aid = bindS (load_action APPROVE_ROLES po aid) (\<lambda>(p, a).
     if action_status a \<noteq> EXECUTED then http 409 ''cannot roll back from status {}'' [status_name (action_status a)]
     else case map_of H (action_type a) of
       None \<Rightarrow> http 422 ''no handler for {}'' [action_type a]
     | Some h \<Rightarrow>
         bindS (h_rollback h env a) (\<lambda>after s.
           if \<not> jsonb_ok after then (Inl bad_json, s)
           else bindS (put_action aid (mark_rolled_back after)) (\<lambda>_.
                bindS (add_audit aid ROLLED_BACK_EV (p_name p) (PDict [(''after_state'', after)])) (\<lambda>_.
                  fetch aid)) s))"

subsection \<open>Reading\<close>

definition visible :: "principal \<Rightarrow> control_action \<Rightarrow> bool" where
  "visible p a \<longleftrightarrow> (case p_tenant p of None \<Rightarrow> True | Some t \<Rightarrow> action_tenant a = t)"

definition clamp :: "int \<Rightarrow> int \<Rightarrow> int \<Rightarrow> int" where
  "clamp lo hi x = min (max x lo) hi"

definition list_actions :: "principal option \<Rightarrow> action_status option \<Rightarrow> int \<Rightarrow> db \<Rightarrow> control_action list result" where
  "list_actions po st limit s = bindR (require_role READ_ROLES po) (\<lambda>p.
     Inr (take (nat (clamp 1 200 limit)) (sort_desc created_at
       (filter (\<lambda>a. visible p a \<and> (case st of None \<Rightarrow> True | Some v \<Rightarrow> action_status a = v)) (control_actions s)))))"

definition get_action :: "principal option \<Rightarrow> uuid \<Rightarrow> db \<Rightarrow> (control_action \<times> audit_row list) result" where
  "get_action po aid s = bindR (require_role READ_ROLES po) (\<lambda>p.
     case find_action s aid of
       None \<Rightarrow> Inl (HTTPException 404 (Fmt ''action not found'' []))
     | Some a \<Rightarrow> bindR (assert_tenant p a) (\<lambda>_.
         Inr (a, sort_key audit_at (filter (\<lambda>r. audit_action r = aid) (control_audit s)))))"

definition audit_trail :: "principal option \<Rightarrow> uuid option \<Rightarrow> int \<Rightarrow> db \<Rightarrow> audit_row list result" where
  "audit_trail po aid limit s = bindR (require_role READ_ROLES po) (\<lambda>p.
     case aid of
       Some k \<Rightarrow> Inr (sort_key audit_at (filter (\<lambda>r. audit_action r = k) (control_audit s)))
     | None \<Rightarrow> Inr (take (nat (clamp 1 500 limit)) (sort_desc audit_at
         (filter (\<lambda>r. case p_tenant p of None \<Rightarrow> True
             | Some t \<Rightarrow> (case find_action s (audit_action r) of Some a \<Rightarrow> action_tenant a = t | None \<Rightarrow> False))
           (control_audit s)))))"

end
