(* ===== verification/Control_Lifecycle.thy ===== *)
theory Control_Lifecycle
  imports Controls
begin

text \<open>
  What the governance core promises: which moves an action can make, who has to agree, what is
  written to the audit trail, and what no request without the master flag can do. The interface
  to the handlers is the locale \<open>control_handlers\<close>; the history of the control plane is the
  reflexive transitive closure of \<open>control_step\<close>, whose last rule stands for whatever the other
  components do in between.
\<close>

subsection \<open>How a request may change the actions\<close>

definition controls_wf :: "db \<Rightarrow> bool" where
  "controls_wf s \<longleftrightarrow> distinct (map action_id (control_actions s)) \<and>
     (\<forall>a\<in>set (control_actions s). action_id a < next_uuid s)"

text \<open>The columns no endpoint rewrites.\<close>

definition same_request :: "control_action \<Rightarrow> control_action \<Rightarrow> bool" where
  "same_request a b \<longleftrightarrow> action_id b = action_id a \<and> action_type b = action_type a \<and>
     action_target b = action_target a \<and> action_params b = action_params a \<and> action_mode b = action_mode a \<and>
     action_risk b = action_risk a \<and> action_reason b = action_reason a \<and> requested_by b = requested_by a \<and>
     before_state b = before_state a \<and> action_tenant b = action_tenant a \<and> created_at b = created_at a"

definition second_person :: "control_action \<Rightarrow> bool" where
  "second_person a \<longleftrightarrow> (\<exists>who. approved_by a = Some who \<and> who \<noteq> requested_by a)"

text \<open>The moves of the lifecycle.\<close>

inductive legal_move :: "control_action \<Rightarrow> control_action \<Rightarrow> bool" where
  approve_move: "same_request a b \<Longrightarrow> action_status a = PENDING \<Longrightarrow> action_status b = APPROVED \<Longrightarrow>
     (action_risk a = High \<Longrightarrow> second_person b) \<Longrightarrow> legal_move a b"
| reject_move: "same_request a b \<Longrightarrow> action_status a = PENDING \<Longrightarrow> action_status b = REJECTED \<Longrightarrow> legal_move a b"
| execute_move: "same_request a b \<Longrightarrow> action_status a \<in> {PENDING, APPROVED} \<Longrightarrow> action_status b = EXECUTED \<Longrightarrow>
     approved_by b = approved_by a \<Longrightarrow> (action_mode a = Live \<Longrightarrow> action_risk a = High \<Longrightarrow> action_status a = APPROVED)
     \<Longrightarrow> legal_move a b"
| fail_move: "same_request a b \<Longrightarrow> action_status a \<in> {PENDING, APPROVED} \<Longrightarrow> action_status b = FAILED \<Longrightarrow>
     action_mode a = Live \<Longrightarrow> approved_by b = approved_by a \<Longrightarrow> (action_risk a = High \<Longrightarrow> action_status a = APPROVED)
     \<Longrightarrow> legal_move a b"
| rollback_move: "same_request a b \<Longrightarrow> action_status a = EXECUTED \<Longrightarrow> action_status b = ROLLED_BACK \<Longrightarrow>
     approved_by b = approved_by a \<Longrightarrow> legal_move a b"

inductive_cases legal_moveE: "legal_move a b"

text \<open>The audit events that prove a status.\<close>

fun evidence :: "action_status \<Rightarrow> audit_event_kind set" where
  "evidence PENDING = {}"
| "evidence APPROVED = {APPROVED_EV}"
| "evidence REJECTED = {REJECTED_EV}"
| "evidence EXECUTED = {DRYRUN_EV, EXECUTED_EV}"
| "evidence FAILED = {FAILED_EV}"
| "evidence ROLLED_BACK = {ROLLED_BACK_EV}"

text \<open>
  One request: old actions stay or make one legal move that it logs, new actions are pending and
  carry fresh keys, and the audit trail grows at its end.
\<close>

definition actions_evolve :: "db \<Rightarrow> db \<Rightarrow> bool" where
  "actions_evolve s s' \<longleftrightarrow> next_uuid s \<le> next_uuid s' \<and>
     (\<exists>f fresh rows. control_actions s' = map f (control_actions s) @ fresh \<and>
        control_audit s' = control_audit s @ rows \<and>
        (\<forall>a\<in>set (control_actions s). f a = a \<or> legal_move a (f a) \<and>
           (\<exists>r\<in>set rows. audit_action r = action_id a \<and> audit_event r \<in> evidence (action_status (f a)))) \<and>
        (\<forall>a\<in>set fresh. action_status a = PENDING \<and> next_uuid s \<le> action_id a \<and> action_id a < next_uuid s') \<and>
        distinct (map action_id fresh))"

lemma legal_move_id: "legal_move a b \<Longrightarrow> action_id b = action_id a"
  by (auto elim!: legal_moveE simp: same_request_def)

lemma evolve_refl:
  "control_actions s' = control_actions s \<Longrightarrow> control_audit s' = control_audit s @ rows \<Longrightarrow>
     next_uuid s \<le> next_uuid s' \<Longrightarrow> actions_evolve s s'"
  unfolding actions_evolve_def by (auto intro!: exI [of _ id] exI [of _ "[]"])

lemma evolve_new:
  "control_actions s' = control_actions s @ [a] \<Longrightarrow> control_audit s' = control_audit s @ rows \<Longrightarrow>
     action_status a = PENDING \<Longrightarrow> action_id a = next_uuid s \<Longrightarrow> next_uuid s' = Suc (next_uuid s) \<Longrightarrow>
     actions_evolve s s'"
  unfolding actions_evolve_def by (auto intro!: exI [of _ id] exI [of _ "[a]"])

lemma evolveE:
  assumes "actions_evolve s s'"
  obtains f fresh rows where "next_uuid s \<le> next_uuid s'" "control_actions s' = map f (control_actions s) @ fresh"
    "control_audit s' = control_audit s @ rows"
    "\<And>a. a \<in> set (control_actions s) \<Longrightarrow> f a = a \<or> legal_move a (f a) \<and>
       (\<exists>r\<in>set rows. audit_action r = action_id a \<and> audit_event r \<in> evidence (action_status (f a)))"
    "\<And>a. a \<in> set (control_actions s) \<Longrightarrow> action_id (f a) = action_id a"
    "\<And>a. a \<in> set fresh \<Longrightarrow> action_status a = PENDING \<and> next_uuid s \<le> action_id a \<and> action_id a < next_uuid s'"
    "distinct (map action_id fresh)"
proof -
  obtain f fresh rows where f: "next_uuid s \<le> next_uuid s'" "control_actions s' = map f (control_actions s) @ fresh"
    "control_audit s' = control_audit s @ rows"
    "\<forall>a\<in>set (control_actions s). f a = a \<or> legal_move a (f a) \<and>
       (\<exists>r\<in>set rows. audit_action r = action_id a \<and> audit_event r \<in> evidence (action_status (f a)))"
    "\<forall>a\<in>set fresh. action_status a = PENDING \<and> next_uuid s \<le> action_id a \<and> action_id a < next_uuid s'"
    "distinct (map action_id fresh)"
    using assms unfolding actions_evolve_def by (elim conjE exE)
  have ids: "action_id (f a) = action_id a" if "a \<in> set (control_actions s)" for a
    using bspec [OF f(4) that] legal_move_id [of a "f a"] by auto
  show ?thesis
    by (rule that [OF f(1-3) bspec [OF f(4)] ids bspec [OF f(5)] f(6)])
qed

lemma evolve_wf:
  assumes "actions_evolve s s'" "controls_wf s"
  shows "controls_wf s'"
  using assms(1)
proof (rule evolveE)
  fix f fresh rows
  assume f: "next_uuid s \<le> next_uuid s'" "control_actions s' = map f (control_actions s) @ fresh"
    "\<And>a. a \<in> set (control_actions s) \<Longrightarrow> action_id (f a) = action_id a"
    "\<And>a. a \<in> set fresh \<Longrightarrow> action_status a = PENDING \<and> next_uuid s \<le> action_id a \<and> action_id a < next_uuid s'"
    "distinct (map action_id fresh)"
  have ids: "map action_id (map f (control_actions s)) = map action_id (control_actions s)"
    using f(3) by simp
  have "set (map action_id (control_actions s)) \<inter> set (map action_id fresh) = {}"
    using assms(2) f(4) by (fastforce simp: controls_wf_def)
  then have "distinct (map action_id (control_actions s'))"
    unfolding f(2) map_append ids distinct_append using assms(2) f(5) by (simp add: controls_wf_def)
  moreover have "action_id a < next_uuid s'" if "a \<in> set (control_actions s')" for a
    using that assms(2) f(1,3,4) unfolding f(2) controls_wf_def by fastforce
  ultimately show ?thesis by (simp add: controls_wf_def)
qed

text \<open>A handler run in front of the move changes nothing here.\<close>

lemma put_evolves:
  assumes "controls_wf s" "find_action s aid = Some a" "legal_move a (g a)"
    and "control_actions s' = update_where (\<lambda>a. action_id a = aid) g (control_actions s)"
    and "next_uuid s \<le> next_uuid s'" "control_audit s' = control_audit s @ [row]"
    and "audit_action row = aid" "audit_event row \<in> evidence (action_status (g a))"
  shows "actions_evolve s s'"
proof -
  have aid: "action_id a = aid" using assms(2) by (auto simp: find_action_def find_Some_iff)
  have uniq: "b = a" if "b \<in> set (control_actions s)" "action_id b = aid" for b
    using assms(1,2) that by (auto simp: controls_wf_def find_action_def find_Some_iff distinct_map inj_on_def)
  show ?thesis
    unfolding actions_evolve_def
    using assms uniq aid
    by (intro conjI exI [of _ "\<lambda>x. if action_id x = aid then g x else x"] exI [of _ "[]"] exI [of _ "[row]"])
      (auto simp: update_where_def)
qed

definition governance_frame :: "db \<Rightarrow> db \<Rightarrow> bool" where
  "governance_frame s s' \<longleftrightarrow> control_actions s' = control_actions s \<and> control_audit s' = control_audit s \<and>
     next_uuid s \<le> next_uuid s'"

subsection \<open>The effect of each endpoint on the store\<close>

lemma lifecycle_run [simp]:
  "put_action aid f s = (Inr (), rewrite_action aid f s)"
  "jsonb_ok d \<Longrightarrow> add_audit aid ev who d s = (Inr (), logged aid ev who d s)"
  "snd (fetch aid s) = s"
  by (simp_all add: put_action_def add_audit_def fetch_def split: option.splits)

lemma bindS_run [simp]:
  "m s = (Inr x, s1) \<Longrightarrow> bindS m f s = f x s1" "m s = (Inl e, s1) \<Longrightarrow> bindS m f s = (Inl e, s1)"
  by (simp_all add: bindS_def)

lemma rewrite_simps [simp]:
  "control_actions (rewrite_action aid f s) = update_where (\<lambda>a. action_id a = aid) f (control_actions s)"
  "control_audit (rewrite_action aid f s) = control_audit s" "next_uuid (rewrite_action aid f s) = next_uuid s"
  "grid_edges (rewrite_action aid f s) = grid_edges s" "commands (rewrite_action aid f s) = commands s"
  "control_actions (logged aid ev who d s) = control_actions s" "next_uuid (logged aid ev who d s) = next_uuid s"
  "grid_edges (logged aid ev who d s) = grid_edges s" "commands (logged aid ev who d s) = commands s"
  "control_audit (logged aid ev who d s) = control_audit s @
     [\<lparr>audit_action = aid, audit_event = ev, audit_actor = who, audit_detail = d,
       audit_version = current_model_version s, audit_at = now s\<rparr>]"
  by (simp_all add: rewrite_action_def logged_def)

lemma load_action_run:
  assumes "load_action roles po aid s = (r, s')"
  shows "s' = s" and "r = Inr (p, a) \<Longrightarrow> po = Some p \<and> role_allowed (p_role p) roles \<and>
    find_action s aid = Some a \<and> action_id a = aid \<and> visible p a"
  using assms
  by (auto simp: load_action_def bindS_def fetch_def require_role_def assert_tenant_def visible_def
        find_action_def find_Some_iff split: sum.splits option.splits if_splits)

lemma load_action_cases:
  obtains (refused) e where "load_action roles po aid s = (Inl e, s)"
    | (loaded) p a where "load_action roles po aid s = (Inr (p, a), s)" "po = Some p"
        "role_allowed (p_role p) roles" "find_action s aid = Some a" "action_id a = aid" "visible p a"
proof -
  obtain l s1 where l: "load_action roles po aid s = (l, s1)" by fastforce
  show ?thesis
  proof (cases l)
    case (Inl e)
    with l load_action_run(1) [OF l] show ?thesis by (auto intro: refused)
  next
    case (Inr pa)
    obtain p a where pa: "pa = (p, a)" by fastforce
    with l load_action_run(1) [OF l] load_action_run(2) [OF l Inr [unfolded pa]] Inr
    show ?thesis by (auto intro: loaded)
  qed
qed

lemma reason_json_ok [simp]: "jsonb_ok (reason_json r)"
  by (simp add: reason_json_def opt_str_def split: option.splits)

lemma approve_effect:
  obtains (same) "snd (approve po aid reason s) = s"
    | (approved) p a where "po = Some p" "role_allowed (p_role p) APPROVE_ROLES" "find_action s aid = Some a"
        "visible p a" "action_status a = PENDING" "action_risk a = High \<Longrightarrow> p_name p \<noteq> requested_by a"
        "snd (approve po aid reason s) =
           logged aid APPROVED_EV (p_name p) (reason_json reason) (rewrite_action aid (mark_approved (now s) (p_name p)) s)"
proof (cases rule: load_action_cases [of APPROVE_ROLES po aid s])
  case (refused e)
  then show ?thesis by (intro same) (simp add: approve_def)
next
  case (loaded p a)
  then show ?thesis
    by (cases "action_status a \<noteq> PENDING \<or> action_risk a = High \<and> p_name p = requested_by a")
       (auto intro: same approved simp: approve_def)
qed

lemma reject_effect:
  obtains (same) "snd (reject po aid reason s) = s"
    | (rejected) p a where "po = Some p" "role_allowed (p_role p) APPROVE_ROLES" "find_action s aid = Some a"
        "visible p a" "action_status a = PENDING"
        "snd (reject po aid reason s) =
           logged aid REJECTED_EV (p_name p) (reason_json reason) (rewrite_action aid (mark_rejected (p_name p)) s)"
proof (cases rule: load_action_cases [of APPROVE_ROLES po aid s])
  case (refused e)
  then show ?thesis by (intro same) (simp add: reject_def)
next
  case (loaded p a)
  then show ?thesis
    by (cases "action_status a = PENDING") (auto intro: same rejected simp: reject_def)
qed

text \<open>
  An execution refuses, records a dry run, is blocked by a gate, or hands over to the handler of
  a live action that the gates let through.
\<close>

definition may_run_live :: "field_env \<Rightarrow> control_action \<Rightarrow> bool" where
  "may_run_live env a \<longleftrightarrow> controls_enabled env \<and> action_mode a = Live \<and> action_status a \<in> {PENDING, APPROVED} \<and>
     (action_risk a = High \<longrightarrow> action_status a = APPROVED)"

lemma execute_effect:
  obtains (same) "snd (execute_action H env po aid s) = s"
    | (dry) p a where "po = Some p" "find_action s aid = Some a" "visible p a" "action_mode a = DryRun"
        "action_status a \<in> {PENDING, APPROVED}"
        "snd (execute_action H env po aid s) = rewrite_action aid (mark_executed (now s) (PDict [(''dry_run'', PBool True)]))
           (logged aid DRYRUN_EV (p_name p) (PDict []) s)"
    | (blocked) p a d where "po = Some p" "find_action s aid = Some a" "visible p a" "action_mode a = Live"
        "\<not> may_run_live env a" "snd (execute_action H env po aid s) = logged aid BLOCKED_EV (p_name p) d s"
    | (live) p a h where "po = Some p" "role_allowed (p_role p) REQUEST_ROLES" "find_action s aid = Some a"
        "visible p a" "map_of H (action_type a) = Some h" "may_run_live env a" "action_id a = aid"
        "execute_action H env po aid s = run_handler h env p a s"
proof (cases rule: load_action_cases [of REQUEST_ROLES po aid s])
  case (refused e)
  then show ?thesis by (intro same) (simp add: execute_action_def)
next
  case (loaded p a)
  show ?thesis
  proof (cases "map_of H (action_type a)")
    case None
    with loaded show ?thesis by (intro same) (simp add: execute_action_def)
  next
    case (Some h)
    show ?thesis
    proof (cases "action_mode a")
      case DryRun
      with Some loaded have e: "execute_action H env po aid s = execute_dry p a s"
        by (simp add: execute_action_def)
      show ?thesis
      proof (cases "action_status a \<in> {PENDING, APPROVED}")
        case True
        have "now (logged aid DRYRUN_EV (p_name p) (PDict []) s) = now s" by (simp add: logged_def)
        with True loaded DryRun e show ?thesis
          by (intro dry [of p a]) (auto simp: execute_dry_def set_executed_def)
      next
        case False
        with e show ?thesis by (intro same) (simp add: execute_dry_def)
      qed
    next
      case Live
      with Some loaded have e: "execute_action H env po aid s = execute_live h env p a s"
        by (simp add: execute_action_def)
      consider (off) "\<not> controls_enabled env"
        | (needs) "controls_enabled env" "action_risk a = High" "action_status a \<noteq> APPROVED"
        | (status) "controls_enabled env" "\<not> (action_risk a = High \<and> action_status a \<noteq> APPROVED)"
            "action_status a \<notin> {PENDING, APPROVED}"
        | (go) "may_run_live env a"
        using Live by (auto simp: may_run_live_def)
      then show ?thesis
      proof cases
        case off
        with e loaded Live show ?thesis
          by (intro blocked [of p a]) (auto simp: execute_live_def may_run_live_def)
      next
        case needs
        with e loaded Live show ?thesis
          by (intro blocked [of p a]) (auto simp: execute_live_def may_run_live_def)
      next
        case status
        with e show ?thesis by (intro same) (auto simp: execute_live_def)
      next
        case go
        with e have "execute_action H env po aid s = run_handler h env p a s"
          by (auto simp: execute_live_def may_run_live_def)
        with go loaded Some show ?thesis by (intro live [of p a h]) auto
      qed
    qed
  qed
qed

lemma run_handler_effect:
  obtains (raised) e s1 where "h_execute h env a s = (Inl e, s1)" "is_http e" "run_handler h env p a s = (Inl e, s1)"
    | (failed) e s1 where "h_execute h env a s = (Inl e, s1)" "\<not> is_http e"
        "snd (run_handler h env p a s) = logged (action_id a) FAILED_EV (p_name p)
           (PDict [(''error'', PStr (msg_text (exn_msg e)))]) (rewrite_action (action_id a) (mark_failed e) s1)"
    | (nojson) after s1 where "h_execute h env a s = (Inr after, s1)" "run_handler h env p a s = (Inl bad_json, s1)"
    | (completed) after s1 where "h_execute h env a s = (Inr after, s1)" "jsonb_ok after"
        "snd (run_handler h env p a s) = logged (action_id a) EXECUTED_EV (p_name p)
           (PDict [(''after_state'', after), (''mode'', PStr ''live'')])
           (rewrite_action (action_id a) (mark_executed (now s1) after) s1)"
proof -
  obtain r s1 where h: "h_execute h env a s = (r, s1)" by fastforce
  show ?thesis
  proof (cases r)
    case (Inl e)
    with h show ?thesis by (cases "is_http e") (auto intro: raised failed simp: run_handler_def)
  next
    case (Inr after)
    with h show ?thesis
      by (cases "jsonb_ok after") (auto intro: nojson completed simp: run_handler_def set_executed_def)
  qed
qed

lemma rollback_effect:
  obtains (same) "snd (rollback_action H env po aid s) = s"
    | (raised) p a h r s1 where "po = Some p" "find_action s aid = Some a" "visible p a" "action_status a = EXECUTED"
        "map_of H (action_type a) = Some h" "h_rollback h env a s = (r, s1)" "snd (rollback_action H env po aid s) = s1"
    | (completed) p a h after s1 where "po = Some p" "role_allowed (p_role p) APPROVE_ROLES" "find_action s aid = Some a"
        "visible p a" "action_status a = EXECUTED" "map_of H (action_type a) = Some h"
        "h_rollback h env a s = (Inr after, s1)" "jsonb_ok after"
        "snd (rollback_action H env po aid s) = logged aid ROLLED_BACK_EV (p_name p)
           (PDict [(''after_state'', after)]) (rewrite_action aid (mark_rolled_back after) s1)"
proof (cases rule: load_action_cases [of APPROVE_ROLES po aid s])
  case (refused e)
  then show ?thesis by (intro same) (simp add: rollback_action_def)
next
  case (loaded p a)
  show ?thesis
  proof (cases "action_status a = EXECUTED")
    case False
    with loaded show ?thesis by (intro same) (simp add: rollback_action_def)
  next
    case True
    show ?thesis
    proof (cases "map_of H (action_type a)")
      case None
      with loaded True show ?thesis by (intro same) (simp add: rollback_action_def)
    next
      case (Some h)
      obtain r s1 where h: "h_rollback h env a s = (r, s1)" by fastforce
      show ?thesis
      proof (cases "\<exists>after. r = Inr after \<and> jsonb_ok after")
        case True
        then obtain after where "r = Inr after" "jsonb_ok after" by blast
        with h loaded \<open>action_status a = EXECUTED\<close> Some show ?thesis
          by (intro completed [of p a h after s1]) (auto simp: rollback_action_def)
      next
        case False
        with h loaded True Some show ?thesis
          by (intro raised [of p a h r s1]) (cases r; auto simp: rollback_action_def)+
      qed
    qed
  qed
qed

lemma new_action_simps [simp]:
  "action_status (new_action ty target params mode risk reason by before tenant s) = PENDING"
  "action_id (new_action ty target params mode risk reason by before tenant s) = next_uuid s"
  "requested_by (new_action ty target params mode risk reason by before tenant s) = by"
  "action_tenant (new_action ty target params mode risk reason by before tenant s) = tenant"
  by (simp_all add: new_action_def)

lemma submit_effect:
  obtains (same) "control_actions (snd (submit_action H ty target params mode reason by tenant s)) = control_actions s"
      "control_audit (snd (submit_action H ty target params mode reason by tenant s)) = control_audit s"
      "next_uuid s \<le> next_uuid (snd (submit_action H ty target params mode reason by tenant s))"
      "grid_edges (snd (submit_action H ty target params mode reason by tenant s)) = grid_edges s"
      "commands (snd (submit_action H ty target params mode reason by tenant s)) = commands s"
      "isl (fst (submit_action H ty target params mode reason by tenant s))"
    | (created) risk before preview h s1 where "map_of H ty = Some h" "h_plan h target params s = Inr (before, preview)"
        "h_risk_for h target params s = Inr risk"
        "s1 = s\<lparr>next_uuid := Suc (next_uuid s), control_actions := control_actions s @
           [new_action ty target params mode risk reason by before (if tenant = [] then ''default'' else tenant) s]\<rparr>"
        "submit_action H ty target params mode reason by tenant s =
           (let d = PDict [(''action_type'', PStr ty), (''target'', opt_str target), (''mode'', PStr (mode_name mode)),
                           (''risk'', PStr (risk_name risk)), (''preview'', preview)]
            in if jsonb_ok preview
               then (Inr (new_action ty target params mode risk reason by before (if tenant = [] then ''default'' else tenant) s,
                      risk, preview), logged (next_uuid s) REQUESTED_EV by d s1)
               else (Inl bad_json, s1))"
proof (cases "map_of H ty")
  case None
  then show ?thesis by (intro same) (simp_all add: submit_action_def)
next
  case (Some h)
  show ?thesis
  proof (cases "h_plan h target params s")
    case (Inl e)
    with Some show ?thesis by (intro same) (simp_all add: submit_action_def bindS_def)
  next
    case (Inr bp)
    obtain before preview where bp: "bp = (before, preview)" by fastforce
    show ?thesis
    proof (cases "h_risk_for h target params s")
      case (Inl e)
      with Some Inr bp show ?thesis by (intro same) (simp_all add: submit_action_def bindS_def)
    next
      case r: (Inr risk)
      have js: "jsonb_ok (opt_str target)" by (simp add: opt_str_def split: option.splits)
      show ?thesis
      proof (cases "jsonb_ok params \<and> jsonb_ok before")
        case False
        with Some Inr bp r show ?thesis by (intro same) (simp_all add: submit_action_def bindS_def)
      next
        case True
        have pl: "h_plan h target params s = Inr (before, preview)" using Inr bp by simp
        show ?thesis
          by (rule created [OF Some pl r refl])
            (use True Some pl r js in \<open>simp add: submit_action_def bindS_def Let_def add_audit_def\<close>)
      qed
    qed
  qed
qed

subsection \<open>The interface to the handlers\<close>

locale control_handlers =
  fixes H :: registry
  assumes execute_keeps: "map_of H ty = Some h \<Longrightarrow> governance_frame s (snd (h_execute h env a s))"
    and rollback_keeps: "map_of H ty = Some h \<Longrightarrow> governance_frame s (snd (h_rollback h env a s))"

text \<open>
  What can happen to the control tables: an endpoint of the control plane, or anything else that
  leaves them alone. The last case is as wide as possible, since the invariants below are about
  the control tables under arbitrary surroundings (devices, telemetry, operators who command a
  device directly); it does not say who may touch the field. That is said by \<open>execute_gated\<close>
  of \<open>Control_Registry\<close> and by \<open>automation_step\<close> of \<open>Automation_Correct\<close>.
\<close>

inductive control_step :: "registry \<Rightarrow> db \<Rightarrow> db \<Rightarrow> bool" for H where
  submit_step: "control_step H s (snd (submit_action H ty target params mode reason by tenant s))"
| approve_step: "control_step H s (snd (approve po aid reason s))"
| reject_step: "control_step H s (snd (reject po aid reason s))"
| execute_step: "control_step H s (snd (execute_action H env po aid s))"
| rollback_step: "control_step H s (snd (rollback_action H env po aid s))"
| other_step: "governance_frame s s' \<Longrightarrow> control_step H s s'"

lemma marks_same [simp]:
  "same_request a (mark_approved t who a)" "same_request a (mark_rejected who a)"
  "same_request a (mark_executed t v a)" "same_request a (mark_failed e a)" "same_request a (mark_rolled_back v a)"
  "action_status (mark_approved t who a) = APPROVED" "action_status (mark_rejected who a) = REJECTED"
  "action_status (mark_executed t v a) = EXECUTED" "action_status (mark_failed e a) = FAILED"
  "action_status (mark_rolled_back v a) = ROLLED_BACK" "approved_by (mark_approved t who a) = Some who"
  "approved_by (mark_executed t v a) = approved_by a" "approved_by (mark_failed e a) = approved_by a"
  "approved_by (mark_rolled_back v a) = approved_by a" "requested_by (mark_approved t who a) = requested_by a"
  by (simp_all add: same_request_def mark_approved_def mark_rejected_def mark_executed_def mark_failed_def
        mark_rolled_back_def)

lemma approve_evolves: "controls_wf s \<Longrightarrow> actions_evolve s (snd (approve po aid reason s))"
proof (cases rule: approve_effect [of po aid reason s])
  case (approved p a)
  assume "controls_wf s"
  moreover have "legal_move a (mark_approved (now s) (p_name p) a)"
    using approved by (intro approve_move) (auto simp: second_person_def)
  ultimately show ?thesis
    using approved by (intro put_evolves [where a = a and g = "mark_approved (now s) (p_name p)"]) auto
qed (auto intro: evolve_refl [where rows = "[]"])

lemma reject_evolves: "controls_wf s \<Longrightarrow> actions_evolve s (snd (reject po aid reason s))"
proof (cases rule: reject_effect [of po aid reason s])
  case (rejected p a)
  assume "controls_wf s"
  moreover have "legal_move a (mark_rejected (p_name p) a)" using rejected by (intro reject_move) auto
  ultimately show ?thesis
    using rejected by (intro put_evolves [where a = a and g = "mark_rejected (p_name p)"]) auto
qed (auto intro: evolve_refl [where rows = "[]"])

lemma submit_evolves: "actions_evolve s (snd (submit_action H ty target params mode reason by tenant s))"
proof (cases rule: submit_effect [of H ty target params mode reason "by" tenant s])
  case same
  then show ?thesis by (intro evolve_refl [where rows = "[]"]) auto
next
  case (created risk before preview h s1)
  then show ?thesis
    by (cases "jsonb_ok preview")
      (auto simp: Let_def intro!: evolve_new [where a = "new_action ty target params mode risk reason by before
          (if tenant = [] then ''default'' else tenant) s"])
qed

context control_handlers
begin

lemma handler_then_put:
  assumes "controls_wf s" "find_action s aid = Some a" "legal_move a (g a)" "governance_frame s s1"
    and "ev \<in> evidence (action_status (g a))"
  shows "actions_evolve s (logged aid ev who d (rewrite_action aid g s1))"
  using assms by (intro put_evolves [where a = a and g = g]) (auto simp: governance_frame_def)

lemma execute_evolves:
  assumes wf: "controls_wf s"
  shows "actions_evolve s (snd (execute_action H env po aid s))"
proof (cases rule: execute_effect [of H env po aid s])
  case same
  then show ?thesis by (auto intro: evolve_refl [where rows = "[]"])
next
  case (dry p a)
  have "legal_move a (mark_executed (now s) (PDict [(''dry_run'', PBool True)]) a)"
    using dry by (intro execute_move) auto
  with dry wf show ?thesis
    by (intro put_evolves [where a = a and g = "mark_executed (now s) (PDict [(''dry_run'', PBool True)])"]) auto
next
  case (blocked p a d)
  then show ?thesis by (auto intro!: evolve_refl)
next
  case (live p a h)
  have gf: "governance_frame s s1" if "h_execute h env a s = (r, s1)" for r s1
    using execute_keeps [OF live(5), of s env a] that by simp
  have refl: "actions_evolve s s1" if "governance_frame s s1" for s1
    using that by (intro evolve_refl [where rows = "[]"]) (auto simp: governance_frame_def)
  from live(6) have m: "action_status a \<in> {PENDING, APPROVED}" "action_mode a = Live"
    "action_risk a = High \<Longrightarrow> action_status a = APPROVED" by (auto simp: may_run_live_def)
  show ?thesis unfolding live(8)
  proof (cases rule: run_handler_effect [of h env a s p])
    case (raised e s1)
    with gf refl show "actions_evolve s (snd (run_handler h env p a s))" by simp
  next
    case (failed e s1)
    have "legal_move a (mark_failed e a)" using m by (intro fail_move) auto
    with failed gf live wf show "actions_evolve s (snd (run_handler h env p a s))"
      by (auto intro!: handler_then_put)
  next
    case (nojson after s1)
    with gf refl show "actions_evolve s (snd (run_handler h env p a s))" by simp
  next
    case (completed after s1)
    have "legal_move a (mark_executed (now s1) after a)" using m by (intro execute_move) auto
    with completed gf live wf show "actions_evolve s (snd (run_handler h env p a s))"
      by (auto intro!: handler_then_put)
  qed
qed

lemma rollback_evolves:
  assumes wf: "controls_wf s"
  shows "actions_evolve s (snd (rollback_action H env po aid s))"
proof (cases rule: rollback_effect [of H env po aid s])
  case same
  then show ?thesis by (auto intro: evolve_refl [where rows = "[]"])
next
  case (raised p a h r s1)
  then have "governance_frame s s1" using rollback_keeps [OF raised(5), of s env a] by simp
  with raised show ?thesis by (intro evolve_refl [where rows = "[]"]) (auto simp: governance_frame_def)
next
  case (completed p a h after s1)
  then have "governance_frame s s1" using rollback_keeps [OF completed(6), of s env a] by simp
  moreover have "legal_move a (mark_rolled_back after a)" using completed by (intro rollback_move) auto
  ultimately show ?thesis unfolding completed(9) using completed wf by (auto intro!: handler_then_put)
qed

lemma step_evolves: "control_step H s s' \<Longrightarrow> controls_wf s \<Longrightarrow> actions_evolve s s'"
proof (induction rule: control_step.induct)
  case (other_step s s')
  then show ?case by (intro evolve_refl [where rows = "[]"]) (auto simp: governance_frame_def)
qed (auto intro: submit_evolves approve_evolves reject_evolves execute_evolves rollback_evolves)

end

subsection \<open>Invariants of the history\<close>

definition two_person :: "control_action \<Rightarrow> bool" where
  "two_person a \<longleftrightarrow> (action_risk a = High \<and>
     (action_status a = APPROVED \<or> action_mode a = Live \<and> action_status a \<in> {EXECUTED, FAILED, ROLLED_BACK})
     \<longrightarrow> second_person a)"

text \<open>A status other than the first is proved by an audit row of the same action.\<close>

definition evidenced :: "db \<Rightarrow> control_action \<Rightarrow> bool" where
  "evidenced s a \<longleftrightarrow> action_status a = PENDING \<or>
     (\<exists>r\<in>set (control_audit s). audit_action r = action_id a \<and> audit_event r \<in> evidence (action_status a))"

definition control_inv :: "db \<Rightarrow> bool" where
  "control_inv s \<longleftrightarrow> controls_wf s \<and> (\<forall>a\<in>set (control_actions s). two_person a \<and> evidenced s a)"

definition lifecycle :: "(action_status \<times> action_status) set" where
  "lifecycle = {(PENDING, APPROVED), (PENDING, REJECTED), (PENDING, EXECUTED), (PENDING, FAILED),
     (APPROVED, EXECUTED), (APPROVED, FAILED), (EXECUTED, ROLLED_BACK)}"

lemma legal_move_two_person: "legal_move a b \<Longrightarrow> two_person a \<Longrightarrow> two_person b"
  by (erule legal_moveE) (auto simp: two_person_def second_person_def same_request_def)

lemma legal_move_lifecycle: "legal_move a b \<Longrightarrow> (action_status a, action_status b) \<in> lifecycle"
  by (erule legal_moveE) (auto simp: lifecycle_def)

lemma legal_move_same: "legal_move a b \<Longrightarrow> same_request a b"
  by (auto elim: legal_moveE)

lemma same_request_refl [simp]: "same_request a a"
  by (simp add: same_request_def)

lemma same_request_trans: "same_request a b \<Longrightarrow> same_request b c \<Longrightarrow> same_request a c"
  by (simp add: same_request_def)

lemma evolve_inv:
  assumes "actions_evolve s s'" "control_inv s"
  shows "control_inv s'"
proof -
  have wf: "controls_wf s'" using assms evolve_wf by (auto simp: control_inv_def)
  from assms(1) show ?thesis
  proof (rule evolveE)
    fix f fresh rows
    assume f: "control_actions s' = map f (control_actions s) @ fresh" "control_audit s' = control_audit s @ rows"
      "\<And>a. a \<in> set (control_actions s) \<Longrightarrow> f a = a \<or> legal_move a (f a) \<and>
         (\<exists>r\<in>set rows. audit_action r = action_id a \<and> audit_event r \<in> evidence (action_status (f a)))"
      "\<And>a. a \<in> set (control_actions s) \<Longrightarrow> action_id (f a) = action_id a"
      "\<And>a. a \<in> set fresh \<Longrightarrow> action_status a = PENDING \<and> next_uuid s \<le> action_id a \<and> action_id a < next_uuid s'"
    have old: "two_person (f a) \<and> evidenced s' (f a)" if "a \<in> set (control_actions s)" for a
    proof -
      from assms(2) that have a: "two_person a" "evidenced s a" by (auto simp: control_inv_def)
      show ?thesis
      proof (cases "f a = a")
        case True
        with a show ?thesis by (auto simp: evidenced_def f(2))
      next
        case False
        with f(3) [OF that] have "legal_move a (f a)"
          "\<exists>r\<in>set rows. audit_action r = action_id a \<and> audit_event r \<in> evidence (action_status (f a))"
          by blast+
        with a f(4) [OF that] show ?thesis
          by (auto simp: evidenced_def f(2) intro: legal_move_two_person)
      qed
    qed
    have "two_person a \<and> evidenced s' a" if "a \<in> set fresh" for a
      using f(5) [OF that] by (simp add: two_person_def evidenced_def)
    with old wf show ?thesis by (auto simp: control_inv_def f(1))
  qed
qed

lemma evolve_lifecycle:
  assumes "actions_evolve s s'" "a \<in> set (control_actions s)"
  shows "\<exists>b\<in>set (control_actions s'). same_request a b \<and> (action_status a, action_status b) \<in> lifecycle\<^sup>="
  using assms(1)
proof (rule evolveE)
  fix f fresh rows
  assume f: "control_actions s' = map f (control_actions s) @ fresh"
    "\<And>a. a \<in> set (control_actions s) \<Longrightarrow> f a = a \<or> legal_move a (f a) \<and>
       (\<exists>r\<in>set rows. audit_action r = action_id a \<and> audit_event r \<in> evidence (action_status (f a)))"
  have "f a \<in> set (control_actions s')" using assms(2) by (simp add: f(1))
  moreover have "same_request a (f a) \<and> (action_status a, action_status (f a)) \<in> lifecycle\<^sup>="
    using f(2) [OF assms(2)] by (auto dest: legal_move_same legal_move_lifecycle)
  ultimately show ?thesis by blast
qed

context control_handlers
begin

lemma history_inv: "(control_step H)\<^sup>*\<^sup>* s s' \<Longrightarrow> control_inv s \<Longrightarrow> control_inv s'"
proof (induction rule: rtranclp_induct)
  case (step y z)
  then have "control_inv y" by blast
  moreover from this have "actions_evolve y z" using step.hyps(2) step_evolves by (simp add: control_inv_def)
  ultimately show ?case by (rule evolve_inv [rotated])
qed

lemma history_audit:
  "(control_step H)\<^sup>*\<^sup>* s s' \<Longrightarrow> control_inv s \<Longrightarrow> \<exists>rows. control_audit s' = control_audit s @ rows"
proof (induction rule: rtranclp_induct)
  case (step y z)
  then have "control_inv y" by (blast intro: history_inv)
  then have "actions_evolve y z" using step.hyps(2) by (auto intro: step_evolves simp: control_inv_def)
  with step show ?case by (auto elim!: evolveE)
qed simp

lemma history_lifecycle:
  "(control_step H)\<^sup>*\<^sup>* s s' \<Longrightarrow> control_inv s \<Longrightarrow> a \<in> set (control_actions s) \<Longrightarrow>
     \<exists>b\<in>set (control_actions s'). same_request a b \<and> (action_status a, action_status b) \<in> lifecycle\<^sup>*"
proof (induction rule: rtranclp_induct)
  case (step y z)
  then obtain b where b: "b \<in> set (control_actions y)" "same_request a b"
    "(action_status a, action_status b) \<in> lifecycle\<^sup>*" by blast
  from step have "control_inv y" by (blast intro: history_inv)
  then have "actions_evolve y z" using step.hyps(2) by (auto intro: step_evolves simp: control_inv_def)
  from evolve_lifecycle [OF this b(1)] obtain c where c: "c \<in> set (control_actions z)" "same_request b c"
    "(action_status b, action_status c) \<in> lifecycle\<^sup>=" by blast
  with b have "(action_status a, action_status c) \<in> lifecycle\<^sup>*" by (auto intro: rtrancl_into_rtrancl)
  with b c show ?case by (blast intro: same_request_trans)
qed (auto intro!: bexI [of _ a])

end

text \<open>The terminal statuses.\<close>

lemma lifecycle_terminal:
  "(x, y) \<in> lifecycle\<^sup>* \<Longrightarrow> x \<in> {REJECTED, FAILED, ROLLED_BACK} \<Longrightarrow> y = x"
  by (erule converse_rtranclE) (auto simp: lifecycle_def)

subsection \<open>Gates of the endpoints\<close>

text \<open>What the grid and the devices can feel of a request.\<close>

definition same_field :: "db \<Rightarrow> db \<Rightarrow> bool" where
  "same_field s s' \<longleftrightarrow> grid_nodes s' = grid_nodes s \<and> grid_edges s' = grid_edges s \<and> commands s' = commands s \<and>
     devices s' = devices s \<and> der_assets s' = der_assets s \<and> flisr_events s' = flisr_events s"

lemma same_field_logged [simp]: "same_field s (logged aid ev who d s') = same_field s s'"
  by (simp add: same_field_def logged_def)

lemma same_field_rewrite [simp]: "same_field s (rewrite_action aid g s') = same_field s s'"
  by (simp add: same_field_def rewrite_action_def)

lemma same_field_refl [simp]: "same_field s s"
  by (simp add: same_field_def)

end
