(* ===== verification/Switch_Ops.thy ===== *)
theory Switch_Ops
  imports Control_Lifecycle Topology_Analysis
begin

text \<open>
  Governed switch operations, \<^verbatim>\<open>src/fastapi/routers/oc_switch.py\<close>: the interlocks evaluated at
  plan time and again at execute time, the model write, the breaker command with its
  acknowledgement, the echo check with its revert, and the rollback.
\<close>

subsection \<open>Resolving the request\<close>

definition has_key :: "pyval \<Rightarrow> string \<Rightarrow> bool" where
  "has_key v k = (case v of PDict d \<Rightarrow> k \<in> set (map fst d) | _ \<Rightarrow> False)"

definition no_target :: "string option \<Rightarrow> bool" where
  "no_target t = (case t of None \<Rightarrow> True | Some x \<Rightarrow> x = [])"

definition switch_resolve :: "string option \<Rightarrow> pyval \<Rightarrow> db \<Rightarrow> (grid_edge \<times> bool) result" where
  "switch_resolve target params s =
     (if no_target target then Inl (HTTPException 422 (Fmt ''switch_op requires target (edge_id)'' []))
      else case find_edge s (the target) of
        None \<Rightarrow> unknown ''edge'' (the target)
      | Some e \<Rightarrow>
          if \<not> is_switchable e then Inl (HTTPException 409 (Fmt ''edge {} is not switchable'' [the target]))
          else if \<not> has_key params ''close'' then Inl (HTTPException 422 (Fmt ''params.close (bool) required'' []))
          else Inr (e, truthy (dict_lookup params ''close'')))"

subsection \<open>Interlocks\<close>

definition live_nodes :: "grid_edge list \<Rightarrow> db \<Rightarrow> string set" where
  "live_nodes es s = set (reach (closed_arcs es) (substations s))"

definition critical_sp :: "db \<Rightarrow> service_point \<Rightarrow> bool" where
  "critical_sp s sp \<longleftrightarrow> sp_priority s sp \<in> {Some ''critical'', Some ''medical''}"

definition active_outage_nodes :: "db \<Rightarrow> string list" where
  "active_outage_nodes s = concat (map (\<lambda>c. case affected_node_id c of Some n \<Rightarrow> [n] | None \<Rightarrow> [])
     (filter (\<lambda>c. case_status c = DETECTED \<or> case_status c = CONFIRMED) (outage_cases s)))"

definition switch_blocks :: "db \<Rightarrow> grid_edge \<Rightarrow> bool \<Rightarrow> string set \<Rightarrow> string set \<Rightarrow> msg list" where
  "switch_blocks s e want before after =
     (let lost = before - after; gained = after - before in
      if \<not> want then
        (let crit = filter (critical_sp s) (service_points_at s lost) in
         if crit \<noteq> [] then [Fmt ''opening would island {} critical/medical customer(s)'' [num_text (length crit)]] else [])
      else
        (let faulted = filter (\<lambda>n. n \<in> gained) (active_outage_nodes s) in
         (if faulted \<noteq> []
          then [Fmt ''closing would re-energize node(s) with an active outage: {}'' [concat (sort (remdups faulted))]]
          else []) @
         (if from_node e \<in> before \<and> to_node e \<in> before
          then [Fmt ''closing would parallel two already-energized sources'' []] else [])))"

definition switch_preview :: "db \<Rightarrow> grid_edge \<Rightarrow> bool \<Rightarrow> string set \<Rightarrow> string set \<Rightarrow> msg list \<Rightarrow> bool \<Rightarrow> pyval" where
  "switch_preview s e want before after blocks override = PDict
     [(''edge'', PStr (edge_id e)), (''from'', PStr (from_node e)), (''to'', PStr (to_node e)),
      (''set_closed'', PBool want),
      (''customers_lost'', PInt (int (length (service_points_at s (before - after))))),
      (''customers_restored'', PInt (int (length (service_points_at s (after - before))))),
      (''interlocks'', PList (map (PStr \<circ> msg_text) blocks)),
      (''overridden'', PBool (blocks \<noteq> [] \<and> override)),
      (''device_backed'', PBool (truthy (dict_lookup (edge_attrs e) ''device_id'')))]"

definition switch_plan :: "string option \<Rightarrow> pyval \<Rightarrow> db \<Rightarrow> (pyval \<times> pyval) result" where
  "switch_plan target params s = bindR (switch_resolve target params s) (\<lambda>(e, want).
     let override = truthy (dict_lookup params ''override'') in
     if is_closed e = want
     then Inl (HTTPException 409 (Fmt ''edge already {} (no-op)'' [if want then ''closed'' else ''open'']))
     else
       let before = live_nodes (grid_edges s) s;
           after = live_nodes (set_edge_closed (edge_id e) want (grid_edges s)) s;
           blocks = switch_blocks s e want before after
       in if blocks \<noteq> [] \<and> \<not> override then Inl (HTTPException 409 (Blocked blocks))
          else Inr (PDict [(''edge_id'', PStr (edge_id e)), (''is_closed'', PBool (is_closed e)),
                           (''device_id'', dict_lookup (edge_attrs e) ''device_id'')],
                    switch_preview s e want before after blocks override))"

subsection \<open>Actuation\<close>

text \<open>\<^verbatim>\<open>CommandRequest\<close> validates that both fields are strings.\<close>

definition as_str :: "pyval \<Rightarrow> string result" where
  "as_str v = (case v of PStr x \<Rightarrow> Inr x | _ \<Rightarrow> Inl (ValueError (Fmt ''Input should be a valid string'' [])))"

definition dispatch_and_wait :: "field_env \<Rightarrow> pyval \<Rightarrow> pyval \<Rightarrow> pyval run" where
  "dispatch_and_wait env dev cty =
     bindS (lift (\<lambda>_. as_str dev)) (\<lambda>d.
     bindS (lift (\<lambda>_. as_str cty)) (\<lambda>ct.
     bindS (dispatch_command env d ct (PDict []) ''oc-switch'') (\<lambda>c.
       ret (PDict ([(''device_id'', dev), (''command_type'', cty), (''command_id'', PInt (int (command_id c)))]
                   @ ack_json (poll_ack (command_id c) (env_polls env)))))))"

definition breaker_command :: "pyval \<Rightarrow> bool \<Rightarrow> pyval" where
  "breaker_command attrs want = (let k = (if want then ''cmd_close'' else ''cmd_open'') in
     if has_key attrs k then dict_lookup attrs k else PStr (if want then ''grid_connect'' else ''island''))"

definition check_echo :: "field_env \<Rightarrow> grid_edge \<Rightarrow> string \<Rightarrow> bool \<Rightarrow> (string \<times> pyval) list run" where
  "check_echo env e dev want =
     bindS (lift (verify_echo env dev (ExpectGrid want))) (\<lambda>ec.
       if confirmed ec = Some False
       then bindS (modify (write_edge (edge_id e) (is_closed e))) (\<lambda>_.
            fail (RuntimeError (Fmt ''device {} did not confirm breaker {} (echo divergence)''
                    [dev, if want then ''close'' else ''open''])))
       else ret [(''echo'', echo_json ec)])"

definition switch_field :: "field_env \<Rightarrow> grid_edge \<Rightarrow> bool \<Rightarrow> (string \<times> pyval) list run" where
  "switch_field env e want =
     (let dev = dict_lookup (edge_attrs e) ''device_id'' in
      if \<not> truthy dev then ret []
      else bindS (dispatch_and_wait env dev (breaker_command (edge_attrs e) want)) (\<lambda>d.
           bindS (lift (\<lambda>_. as_str dev)) (\<lambda>dn.
           bindS (if echo_enabled env then check_echo env e dn want else ret []) (\<lambda>ec.
             ret ((''device'', d) # ec)))))"

definition switch_execute :: "field_env \<Rightarrow> control_action \<Rightarrow> pyval run" where
  "switch_execute env a =
     bindS (lift (switch_plan (action_target a) (action_params a))) (\<lambda>_.
     bindS (lift (switch_resolve (action_target a) (action_params a))) (\<lambda>(e, want).
     bindS (modify (write_edge (edge_id e) want)) (\<lambda>_.
     bindS (switch_field env e want) (\<lambda>fld.
       ret (PDict ([(''edge_id'', PStr (edge_id e)), (''is_closed'', PBool want),
                    (''model_updated'', PBool True)] @ fld))))))"

definition rollback_field :: "field_env \<Rightarrow> pyval \<Rightarrow> bool \<Rightarrow> (string \<times> pyval) list run" where
  "rollback_field env dev b =
     (if \<not> truthy dev then ret []
      else bindS (dispatch_and_wait env dev (PStr (if b then ''grid_connect'' else ''island''))) (\<lambda>d.
           bindS (lift (\<lambda>_. as_str dev)) (\<lambda>dn.
           bindS (if echo_enabled env
                  then bindS (lift (verify_echo env dn (ExpectGrid b))) (\<lambda>ec. ret [(''echo'', echo_json ec)])
                  else ret []) (\<lambda>ec. ret ((''device'', d) # ec)))))"

definition switch_rollback :: "field_env \<Rightarrow> control_action \<Rightarrow> pyval run" where
  "switch_rollback env a =
     (let before = before_state a; prev = dict_lookup before ''is_closed'';
          edge = (if truthy (dict_lookup before ''edge_id'') then dict_lookup before ''edge_id'' else opt_str (action_target a));
          dev = dict_lookup before ''device_id''
      in case prev of
           PNone \<Rightarrow> http 409 ''no before_state to roll back to'' []
         | PBool b \<Rightarrow>
             bindS (case edge of PStr eid \<Rightarrow> modify (write_edge eid b) | _ \<Rightarrow> ret ()) (\<lambda>_.
             bindS (rollback_field env dev b) (\<lambda>fld.
               ret (PDict ([(''edge_id'', edge), (''restored_is_closed'', PBool b)] @ fld))))
         | _ \<Rightarrow> fail (DbError (Fmt ''column is_closed is of type boolean'' [])))"

definition switch_handler :: handler where
  "switch_handler = \<lparr>h_plan = switch_plan, h_risk_for = (\<lambda>_ _ _. Inr High),
     h_execute = switch_execute, h_rollback = switch_rollback\<rparr>"

subsection \<open>What the field path leaves alone\<close>

lemma governance_refl [simp]: "governance_frame s s"
  by (simp add: governance_frame_def)

lemma governance_trans: "governance_frame s s' \<Longrightarrow> governance_frame s' s'' \<Longrightarrow> governance_frame s s''"
  by (simp add: governance_frame_def)

lemma governance_write_edge [simp]: "governance_frame s (write_edge e v s') = governance_frame s s'"
  by (simp add: governance_frame_def)

text \<open>Neither a dispatch nor the wait for its acknowledgement touches the model or the governance.\<close>

lemma dispatch_not_runtime: "dispatch_command env dev cty params by s \<noteq> (Inl (RuntimeError m), s')"
  by (auto simp: dispatch_command_def Let_def split: option.splits)

lemma dispatch_and_wait_run:
  assumes "dispatch_and_wait env dev cty s = (r, s')"
  shows "grid_edges s' = grid_edges s \<and> governance_frame s s' \<and> r \<noteq> Inl (RuntimeError m)"
proof -
  obtain rd where d: "as_str dev = rd" by simp
  obtain rc where c: "as_str cty = rc" by simp
  have ns: "as_str v \<noteq> Inl (RuntimeError m)" for v by (simp add: as_str_def split: pyval.splits)
  show ?thesis
  proof (cases "\<exists>dn ct. rd = Inr dn \<and> rc = Inr ct")
    case False
    with assms d c ns [of dev] ns [of cty] show ?thesis
      by (cases rd; cases rc) (auto simp: dispatch_and_wait_def)
  next
    case True
    then obtain dn ct where "rd = Inr dn" "rc = Inr ct" by blast
    with d c have dc: "as_str dev = Inr dn" "as_str cty = Inr ct" by simp_all
    obtain q s1 where q: "dispatch_command env dn ct (PDict []) ''oc-switch'' s = (q, s1)" by fastforce
    have "grid_edges s1 = grid_edges s" "governance_frame s s1" "q \<noteq> Inl (RuntimeError m)"
      using dispatch_frame [OF q] q dispatch_not_runtime by (auto simp: governance_frame_def)
    with assms dc q show ?thesis by (cases q) (auto simp: dispatch_and_wait_def)
  qed
qed

lemma py_float_not_runtime: "py_float v \<noteq> Inl (RuntimeError m)"
  by (cases v) (auto split: option.splits)

lemma read_not_runtime: "read_device_state s dev \<noteq> Inl (RuntimeError m)"
proof (cases "latest_telemetry s dev")
  case (Some t)
  let ?sp = "dict_lookup (t_metadata t) ''setpoint_kw''"
  show ?thesis
    using py_float_not_runtime [of ?sp m]
    by (cases "?sp = PNone"; cases "py_float ?sp") (simp_all add: read_device_state_def Some Let_def)
qed (simp add: read_device_state_def)

lemma echo_loop_not_runtime: "echo_loop dev want base rep prev snaps \<noteq> Inl (RuntimeError m)"
proof (induction snaps arbitrary: rep prev)
  case (Cons snap snaps)
  show ?case
    using Cons.IH read_not_runtime [of snap dev m]
    by (cases "read_device_state snap dev") (auto split: option.splits)
qed simp

lemma verify_echo_not_runtime: "verify_echo env dev want s \<noteq> Inl (RuntimeError m)"
  using read_not_runtime [of s dev m] echo_loop_not_runtime
  by (cases "read_device_state s dev") (auto simp: verify_echo_def)

text \<open>
  The field part of a switch operation ends with the model as written, or, exactly when the echo
  contradicts the command, with the old position written back.
\<close>

lemma check_echo_run:
  assumes "check_echo env e dev want s = (r, s')"
  shows "(s' = s \<and> (\<forall>m. r \<noteq> Inl (RuntimeError m)) \<and>
      (\<forall>x. r = Inr x \<longrightarrow> (\<exists>ec. verify_echo env dev (ExpectGrid want) s = Inr ec \<and> confirmed ec \<noteq> Some False))) \<or>
    (s' = write_edge (edge_id e) (is_closed e) s \<and> (\<exists>m. r = Inl (RuntimeError m)))"
proof (cases "verify_echo env dev (ExpectGrid want) s")
  case (Inl x)
  with assms verify_echo_not_runtime [of env dev "ExpectGrid want" s] show ?thesis
    by (auto simp: check_echo_def)
next
  case (Inr ec)
  with assms show ?thesis by (cases "confirmed ec = Some False") (auto simp: check_echo_def)
qed

lemma switch_field_echo:
  assumes "truthy (dict_lookup (edge_attrs e) ''device_id'')"
    and "dispatch_and_wait env (dict_lookup (edge_attrs e) ''device_id'') (breaker_command (edge_attrs e) want) s = (Inr dv, s1)"
    and "as_str (dict_lookup (edge_attrs e) ''device_id'') = Inr dn" "echo_enabled env"
    and "check_echo env e dn want s1 = (q, s2)"
  shows "switch_field env e want s = ((case q of Inl x \<Rightarrow> Inl x | Inr ec \<Rightarrow> Inr ((''device'', dv) # ec)), s2)"
  unfolding switch_field_def Let_def using assms
  apply (simp only: if_False not_True_eq_False simp_thms)
  apply (subst bindS_run(1), assumption)
  apply (subst bindS_run(1), simp)
  apply (cases q)
   apply (simp_all add: bindS_def del: bindS_run)
  done

lemma switch_field_run:
  assumes "switch_field env e want s = (r, s')"
  shows "governance_frame s s' \<and>
    ((grid_edges s' = grid_edges s \<and> (\<forall>m. r \<noteq> Inl (RuntimeError m))) \<or>
     (grid_edges s' = set_edge_closed (edge_id e) (is_closed e) (grid_edges s) \<and> (\<exists>m. r = Inl (RuntimeError m))))"
proof -
  let ?dev = "dict_lookup (edge_attrs e) ''device_id''"
  show ?thesis
  proof (cases "truthy ?dev")
    case False
    with assms show ?thesis by (auto simp: switch_field_def)
  next
    case True
    obtain d s1 where d: "dispatch_and_wait env ?dev (breaker_command (edge_attrs e) want) s = (d, s1)" by fastforce
    note dw = dispatch_and_wait_run [OF d]
    show ?thesis
    proof (cases "\<exists>dv dn. d = Inr dv \<and> as_str ?dev = Inr dn")
      case False
      have "as_str ?dev \<noteq> Inl (RuntimeError m)" for m by (simp add: as_str_def split: pyval.splits)
      with False assms True d dw show ?thesis
        by (cases d; cases "as_str ?dev") (auto simp: switch_field_def)
    next
      case dv: True
      then obtain dv dn where dv: "d = Inr dv" "as_str ?dev = Inr dn" by blast
      show ?thesis
      proof (cases "echo_enabled env")
        case False
        with assms True d dv dw show ?thesis by (auto simp: switch_field_def)
      next
        case en: True
        obtain q s2 where q: "check_echo env e dn want s1 = (q, s2)" by fastforce
        have rs: "r = (case q of Inl x \<Rightarrow> Inl x | Inr ec \<Rightarrow> Inr ((''device'', dv) # ec))" "s' = s2"
          using switch_field_echo [OF True d [unfolded dv(1)] dv(2) en q] assms by simp_all
        have gf: "grid_edges s1 = grid_edges s" "governance_frame s s1" using dw by blast+
        from check_echo_run [OF q] show ?thesis
        proof
          assume "s2 = s1 \<and> (\<forall>m. q \<noteq> Inl (RuntimeError m)) \<and> (\<forall>x. q = Inr x \<longrightarrow>
              (\<exists>ec. verify_echo env dn (ExpectGrid want) s1 = Inr ec \<and> confirmed ec \<noteq> Some False))"
          with gf rs show ?thesis by (cases q) simp_all
        next
          assume "s2 = write_edge (edge_id e) (is_closed e) s1 \<and> (\<exists>m. q = Inl (RuntimeError m))"
          with gf rs show ?thesis by auto
        qed
      qed
    qed
  qed
qed

text \<open>The building blocks of \<open>keeps\<close> for a reflexive relation.\<close>

lemma keeps_prims:
  assumes "\<And>s. R s s"
  shows "keeps R (ret x)" "keeps R (fail e)" "keeps R (lift g)" "keeps R (http c fmt xs)"
  using assms by (simp_all add: keeps_def)

definition edges_governance :: "db \<Rightarrow> db \<Rightarrow> bool" where
  "edges_governance s s' \<longleftrightarrow> grid_edges s' = grid_edges s \<and> governance_frame s s'"

lemma edges_governance_refl: "edges_governance s s"
  by (simp add: edges_governance_def)

lemma edges_governance_trans: "edges_governance s s' \<Longrightarrow> edges_governance s' s'' \<Longrightarrow> edges_governance s s''"
  by (auto simp: edges_governance_def intro: governance_trans)

lemmas edges_governance_intros =
  keeps_bindS [where R = edges_governance, OF _ _ edges_governance_trans]
  keeps_prims [where R = edges_governance, OF edges_governance_refl]

lemma dispatch_and_wait_keeps: "keeps edges_governance (dispatch_and_wait env dev cty)"
  unfolding keeps_def edges_governance_def
  by (metis dispatch_and_wait_run prod.collapse)

lemma rollback_field_keeps: "keeps edges_governance (rollback_field env dev b)"
  unfolding rollback_field_def
  by (auto intro!: edges_governance_intros dispatch_and_wait_keeps)

lemma set_edge_closed_restore:
  assumes "distinct (map edge_id es)" "e \<in> set es"
  shows "set_edge_closed (edge_id e) (is_closed e) (set_edge_closed (edge_id e) v es) = es"
proof -
  have "is_closed x = is_closed e" if "x \<in> set es" "edge_id x = edge_id e" for x
    using assms that by (metis distinct_map inj_on_eq_iff)
  then show ?thesis by (simp add: set_edge_closed_twice set_edge_closed_same)
qed

lemma switch_resolve_edge:
  "switch_resolve target params s = Inr (e, want) \<Longrightarrow>
     target = Some (edge_id e) \<and> edge_id e \<noteq> [] \<and> e \<in> set (grid_edges s) \<and> find_edge s (edge_id e) = Some e \<and> is_switchable e"
  by (cases target) (auto simp: switch_resolve_def no_target_def unknown_def dest: find_edge_Some split: if_splits option.splits)

lemma switch_execute_cases:
  obtains (refused) e where "switch_execute env a s = (Inl e, s)" "\<And>m. e \<noteq> RuntimeError m"
    | (moved) e want b pv r s' where "switch_plan (action_target a) (action_params a) s = Inr (b, pv)"
        "switch_resolve (action_target a) (action_params a) s = Inr (e, want)"
        "switch_field env e want (write_edge (edge_id e) want s) = (r, s')"
        "switch_execute env a s = (map_sum id (\<lambda>fld. PDict ([(''edge_id'', PStr (edge_id e)), (''is_closed'', PBool want),
                    (''model_updated'', PBool True)] @ fld)) r, s')"
proof (cases "switch_plan (action_target a) (action_params a) s")
  case (Inl x)
  have "x \<noteq> RuntimeError m" for m
    using Inl by (auto simp: switch_plan_def bindR_def switch_resolve_def unknown_def Let_def
        split: sum.splits if_splits option.splits prod.splits)
  with Inl show ?thesis by (intro refused [of x]) (simp_all add: switch_execute_def)
next
  case (Inr bp)
  obtain b pv where bp: "bp = (b, pv)" by fastforce
  with Inr obtain e want where ew: "switch_resolve (action_target a) (action_params a) s = Inr (e, want)"
    by (auto simp: switch_plan_def bindR_eq_Inr)
  obtain r s' where f: "switch_field env e want (write_edge (edge_id e) want s) = (r, s')" by fastforce
  show ?thesis
    by (rule moved [OF Inr [unfolded bp] ew f])
      (use Inr ew f in \<open>cases r; simp add: switch_execute_def\<close>)
qed

subsection \<open>Properties\<close>

text \<open>
  C15: a switch operation is planned without an override only if opening the edge takes supply
  from no critical or medical customer, and closing it neither feeds a node with an active
  outage nor joins two energized parts.
\<close>

theorem switch_interlocks:
  assumes "switch_plan target params s = Inr (b, pv)" "\<not> truthy (dict_lookup params ''override'')"
  shows "\<exists>e want. find_edge s (the target) = Some e \<and> is_switchable e \<and> is_closed e = (\<not> want) \<and>
    want = truthy (dict_lookup params ''close'') \<and>
    (let before = live_nodes (grid_edges s) s;
         after = live_nodes (set_edge_closed (edge_id e) want (grid_edges s)) s
     in if want then (\<forall>n\<in>set (active_outage_nodes s). n \<in> after \<longrightarrow> n \<in> before) \<and>
                     \<not> (from_node e \<in> before \<and> to_node e \<in> before)
        else (\<forall>sp\<in>set (service_points_at s (before - after)). \<not> critical_sp s sp))"
proof -
  obtain e want where ew: "switch_resolve target params s = Inr (e, want)"
    using assms by (auto simp: switch_plan_def bindR_eq_Inr)
  let ?before = "live_nodes (grid_edges s) s"
  let ?after = "live_nodes (set_edge_closed (edge_id e) want (grid_edges s)) s"
  have ne: "is_closed e \<noteq> want" and "switch_blocks s e want ?before ?after = []"
    using assms ew by (auto simp: switch_plan_def Let_def split: if_splits)
  then have blk: "if want then (\<forall>n\<in>set (active_outage_nodes s). n \<in> ?after \<longrightarrow> n \<in> ?before) \<and>
                     \<not> (from_node e \<in> ?before \<and> to_node e \<in> ?before)
        else (\<forall>sp\<in>set (service_points_at s (?before - ?after)). \<not> critical_sp s sp)"
    by (cases want) (auto simp: switch_blocks_def Let_def filter_empty_conv split: if_splits)
  have "want = truthy (dict_lookup params ''close'')"
    using ew by (auto simp: switch_resolve_def unknown_def split: if_splits option.splits)
  with switch_resolve_edge [OF ew] ne blk show ?thesis
    by (intro exI [of _ e] exI [of _ want]) (auto simp: Let_def)
qed

text \<open>The demonstration feeder with \<open>E2\<close> open, and a request to close it.\<close>

definition split_db :: db where
  "split_db = write_edge ''E2'' False demo_db"

definition close_e2 :: control_action where
  "close_e2 = new_action ''switch_op'' (Some ''E2'') (PDict [(''close'', PBool True)]) Live High None ''op1''
     (PDict [(''edge_id'', PStr ''E2''), (''is_closed'', PBool False), (''device_id'', PStr ''RTU1'')]) ''default'' split_db"

lemma close_e2_plan:
  "map_sum id fst (switch_plan (Some ''E2'') (PDict [(''close'', PBool True)]) split_db) = Inr (before_state close_e2)"
  by code_simp

theorem switch_interlocks_witness:
  "\<exists>b pv. switch_plan (Some ''E2'') (PDict [(''close'', PBool True)]) split_db = Inr (b, pv) \<and>
     \<not> (''A'' \<in> live_nodes (grid_edges split_db) split_db \<and> ''B'' \<in> live_nodes (grid_edges split_db) split_db)"
proof -
  obtain b pv where p: "switch_plan (Some ''E2'') (PDict [(''close'', PBool True)]) split_db = Inr (b, pv)"
    using close_e2_plan by (cases "switch_plan (Some ''E2'') (PDict [(''close'', PBool True)]) split_db") auto
  have o: "\<not> truthy (dict_lookup (PDict [(''close'', PBool True)]) ''override'')"
    "truthy (dict_lookup (PDict [(''close'', PBool True)]) ''close'')" by code_simp+
  have e: "map_option (\<lambda>e. (from_node e, to_node e)) (find_edge split_db ''E2'') = Some (''A'', ''B'')" by code_simp
  from switch_interlocks [OF p o(1)] e o(2) p show ?thesis by (auto simp: Let_def)
qed

text \<open>A verification whose readings can all be parsed returns a verdict.\<close>

lemma echo_loop_returns:
  assumes "\<And>snap. snap \<in> set snaps \<Longrightarrow> \<exists>r. read_device_state snap dev = Inr r"
  shows "\<exists>ec. echo_loop dev want base reported prev snaps = Inr ec"
  using assms
proof (induction snaps arbitrary: reported prev)
  case (Cons snap snaps)
  have IH: "\<exists>ec. echo_loop dev want base rep pr snaps = Inr ec" for rep pr
    using Cons.IH [OF Cons.prems] by simp
  obtain r where "read_device_state snap dev = Inr r" using Cons.prems [of snap] by auto
  then show ?case using IH by (simp split: option.split)
qed simp

lemma verify_echo_contradicted:
  assumes "read_device_state s dev = Inr start"
    and "\<And>snap. snap \<in> set (env_readings env) \<Longrightarrow> \<exists>r. read_device_state snap dev = Inr r"
    and "st \<in> fresh_readings dev (case start of None \<Rightarrow> 0 | Some st \<Rightarrow> rd_ts st) (env_readings env)"
    and "rd_grid_connected st = Some (\<not> want)"
    and "\<And>st. st \<in> fresh_readings dev (case start of None \<Rightarrow> 0 | Some st \<Rightarrow> rd_ts st) (env_readings env)
           \<Longrightarrow> rd_grid_connected st \<noteq> Some want"
  shows "\<exists>ec. verify_echo env dev (ExpectGrid want) s = Inr ec \<and> confirmed ec = Some False"
proof -
  let ?base = "case start of None \<Rightarrow> 0 | Some st \<Rightarrow> rd_ts st"
  obtain ec where ec: "echo_loop dev (ExpectGrid want) ?base False start (env_readings env) = Inr ec"
    using echo_loop_returns [OF assms(2)] by blast
  have miss: "field_match st' (ExpectGrid want) \<noteq> Some True" if "st' \<in> fresh_readings dev ?base (env_readings env)" for st'
    using assms(5) [OF that] by auto
  have "confirmed ec = Some False"
  proof (cases "confirmed ec")
    case None
    with echo_loop_verdict [OF ec] assms(3,4) show ?thesis by auto
  next
    case (Some v)
    moreover have "confirmed ec \<noteq> Some True" using echo_loop_verdict [OF ec] miss by blast
    ultimately show ?thesis by (cases v) simp_all
  qed
  with ec assms(1) show ?thesis by (simp add: verify_echo_def)
qed

lemma check_echo_contradicted:
  assumes "verify_echo env dev (ExpectGrid want) s = Inr ec" "confirmed ec = Some False"
  shows "\<exists>m. check_echo env e dev want s = (Inl (RuntimeError m), write_edge (edge_id e) (is_closed e) s)"
  using assms by (simp add: check_echo_def)

lemma write_edge_find_action [simp]: "find_action (write_edge e v s) aid = find_action s aid"
  by (simp add: find_action_def)

text \<open>
  C5: a live switch operation on a device-backed edge whose command was dispatched, and whose
  device afterwards reports the other position and never the commanded one (every reading newer
  than the last one before the check), answers 500: the action is \<^verbatim>\<open>FAILED\<close> with the
  audit row that says so, and every edge of the network model is as it was before.
\<close>

theorem switch_echo_reverts:
  assumes action: "switch_plan (action_target a) (action_params a) s = Inr (b, pv)"
      "switch_resolve (action_target a) (action_params a) s = Inr (e, want)"
      "find_action s (action_id a) = Some a" "distinct (edge_ids s)"
    and device: "dict_lookup (edge_attrs e) ''device_id'' = PStr dn" "dn \<noteq> []" "echo_enabled env"
      "dispatch_and_wait env (PStr dn) (breaker_command (edge_attrs e) want)
         (write_edge (edge_id e) want s) = (Inr dv, s1)"
    and readable: "read_device_state s1 dn = Inr start"
      "\<forall>snap\<in>set (env_readings env). \<exists>r. read_device_state snap dn = Inr r"
    and contradicts: "\<exists>st\<in>fresh_readings dn (case start of None \<Rightarrow> 0 | Some st \<Rightarrow> rd_ts st) (env_readings env).
        rd_grid_connected st = Some (\<not> want)"
      "\<forall>st\<in>fresh_readings dn (case start of None \<Rightarrow> 0 | Some st \<Rightarrow> rd_ts st) (env_readings env).
        rd_grid_connected st \<noteq> Some want"
  shows "\<exists>m s'. run_handler switch_handler env p a s = (Inl (HTTPException 500 m), s') \<and>
    grid_edges s' = grid_edges s \<and>
    map_option action_status (find_action s' (action_id a)) = Some FAILED \<and>
    (\<exists>row. control_audit s' = control_audit s @ [row] \<and> audit_action row = action_id a \<and> audit_event row = FAILED_EV)"
proof -
  let ?w = "write_edge (edge_id e) want s" and ?s2 = "write_edge (edge_id e) (is_closed e) s1"
  obtain st where st: "st \<in> fresh_readings dn (case start of None \<Rightarrow> 0 | Some st \<Rightarrow> rd_ts st) (env_readings env)"
    "rd_grid_connected st = Some (\<not> want)" using contradicts(1) by blast
  obtain ec where ec: "verify_echo env dn (ExpectGrid want) s1 = Inr ec" "confirmed ec = Some False"
    using verify_echo_contradicted [OF readable(1) _ st] readable(2) contradicts(2) by blast
  obtain m where m: "check_echo env e dn want s1 = (Inl (RuntimeError m), ?s2)"
    using check_echo_contradicted [OF ec] by blast
  have dev: "truthy (dict_lookup (edge_attrs e) ''device_id'')" "as_str (dict_lookup (edge_attrs e) ''device_id'') = Inr dn"
    using device by (simp_all add: as_str_def)
  have field: "switch_field env e want ?w = (Inl (RuntimeError m), ?s2)"
    using switch_field_echo [OF dev(1) _ dev(2) device(3) m] device by simp
  have x: "switch_execute env a s = (Inl (RuntimeError m), ?s2)"
    using action(1,2) field by (simp add: switch_execute_def)
  have s1: "grid_edges s1 = grid_edges ?w" "governance_frame ?w s1" using dispatch_and_wait_run [OF device(4)] by auto
  have acts: "control_actions ?s2 = control_actions s" "control_audit ?s2 = control_audit s"
    using s1(2) by (simp_all add: governance_frame_def)
  let ?f = "mark_failed (RuntimeError m)"
  let ?d = "PDict [(''error'', PStr (msg_text m))]"
  let ?s3 = "logged (action_id a) FAILED_EV (p_name p) ?d (rewrite_action (action_id a) ?f ?s2)"
  have run: "\<exists>m'. run_handler switch_handler env p a s = (Inl (HTTPException 500 m'), ?s3)"
    using x by (simp add: run_handler_def switch_handler_def put_action_def add_audit_def)
  have edges: "grid_edges ?s3 = grid_edges s"
    using switch_resolve_edge [OF action(2)] action(4) s1(1)
    by (simp add: set_edge_closed_restore edge_ids_def logged_def rewrite_action_def)
  have "find_action ?s3 (action_id a) = Some (?f a)"
    using action(3) acts unfolding find_action_def
    by (simp add: logged_def rewrite_action_def find_update_where mark_failed_def)
  then have "map_option action_status (find_action ?s3 (action_id a)) = Some FAILED" by (simp add: mark_failed_def)
  moreover have "\<exists>row. control_audit ?s3 = control_audit s @ [row] \<and> audit_action row = action_id a \<and> audit_event row = FAILED_EV"
    using acts by (simp add: logged_def rewrite_action_def)
  ultimately show ?thesis using run edges by blast
qed

definition stuck_env :: field_env where
  "stuck_env = quiet_env\<lparr>env_readings := [split_db\<lparr>telemetry_rows :=
     [mk_telemetry ''RTU1'' 99 (PDict [(''grid_connected'', PBool False)])]\<rparr>]\<rparr>"

text \<open>\<open>E2\<close> is closed, and the device then reports that it is still islanded.\<close>

definition stuck_db :: db where
  "stuck_db = split_db\<lparr>control_actions := [close_e2], next_uuid := Suc (action_id close_e2)\<rparr>"

theorem switch_echo_reverts_witness:
  "\<exists>m s'. run_handler switch_handler stuck_env operator1 close_e2 stuck_db = (Inl (HTTPException 500 m), s') \<and>
     grid_edges s' = grid_edges stuck_db \<and>
     map_option action_status (find_action s' (action_id close_e2)) = Some FAILED"
proof -
  have plan: "map_sum id (\<lambda>_. ()) (switch_plan (action_target close_e2) (action_params close_e2) stuck_db) = Inr ()"
    and act: "find_action stuck_db (action_id close_e2) = Some close_e2" "distinct (edge_ids stuck_db)" "echo_enabled stuck_env"
    by code_simp+
  have res: "map_sum id (\<lambda>(e, w). (dict_lookup (edge_attrs e) ''device_id'', w, edge_id e, breaker_command (edge_attrs e) w))
      (switch_resolve (action_target close_e2) (action_params close_e2) stuck_db)
      = Inr (PStr ''RTU1'', True, ''E2'', PStr ''grid_connect'')" by code_simp
  obtain b pv where p: "switch_plan (action_target close_e2) (action_params close_e2) stuck_db = Inr (b, pv)"
    using plan by (cases "switch_plan (action_target close_e2) (action_params close_e2) stuck_db") auto
  obtain e where e: "switch_resolve (action_target close_e2) (action_params close_e2) stuck_db = Inr (e, True)"
    "dict_lookup (edge_attrs e) ''device_id'' = PStr ''RTU1''" "edge_id e = ''E2''"
    "breaker_command (edge_attrs e) True = PStr ''grid_connect''"
    using res by (cases "switch_resolve (action_target close_e2) (action_params close_e2) stuck_db") auto
  let ?d = "dispatch_and_wait stuck_env (PStr ''RTU1'') (PStr ''grid_connect'') (write_edge ''E2'' True stuck_db)"
  have "\<not> isl (fst ?d)" and start: "map_sum id (map_option rd_ts) (read_device_state (snd ?d) ''RTU1'') = Inr (Some 90)"
    by code_simp+
  then obtain dv s1 where d: "?d = (Inr dv, s1)" by (cases ?d; cases "fst ?d") auto
  obtain st0 where st0: "read_device_state s1 ''RTU1'' = Inr (Some st0)" "rd_ts st0 = 90"
    using start d by (cases "read_device_state s1 ''RTU1''") auto
  have one: "length (env_readings stuck_env) = 1"
    and "map_sum id (map_option (\<lambda>st. (rd_ts st, rd_grid_connected st)))
      (read_device_state (hd (env_readings stuck_env)) ''RTU1'') = Inr (Some (99, Some False))"
    by code_simp+
  then obtain st where st: "read_device_state (hd (env_readings stuck_env)) ''RTU1'' = Inr (Some st)"
    "rd_ts st = 99" "rd_grid_connected st = Some False"
    by (cases "read_device_state (hd (env_readings stuck_env)) ''RTU1''") auto
  then obtain snap where sn: "env_readings stuck_env = [snap]" "read_device_state snap ''RTU1'' = Inr (Some st)"
    "rd_ts st = 99" "rd_grid_connected st = Some False"
    using one by (cases "env_readings stuck_env") auto
  have fresh: "fresh_readings ''RTU1'' 90 (env_readings stuck_env) = {st}"
    using sn by (auto simp: fresh_readings_def)
  show ?thesis
    using switch_echo_reverts [OF p e(1) act(1,2) e(2) _ act(3) _ st0(1), of dv operator1] d e(3,4) sn fresh st0(2) by auto
qed

text \<open>
  rolling back a switch operation puts every edge back to where it was when the operation
  was planned, even if the command to the device fails on the way back.
\<close>

theorem switch_rollback_restores:
  assumes "switch_plan (action_target a) (action_params a) s = Inr (before_state a, pv)"
    and "switch_execute env a s = (Inr after, s1)" "distinct (edge_ids s)" "grid_edges s2 = grid_edges s1"
  shows "grid_edges (snd (switch_rollback env' a s2)) = grid_edges s"
proof (cases rule: switch_execute_cases [of env a s])
  case (refused e)
  with assms(2) show ?thesis by auto
next
  case (moved e want b pv' r s')
  with assms(2) have r: "\<exists>x. r = Inr x" "s' = s1" by (cases r; simp)+
  then have "grid_edges s1 = set_edge_closed (edge_id e) want (grid_edges s)"
    using switch_field_run [OF moved(3)] by auto
  with assms(3,4) switch_resolve_edge [OF moved(2)]
  have undo: "set_edge_closed (edge_id e) (is_closed e) (grid_edges s2) = grid_edges s"
    by (simp add: set_edge_closed_restore edge_ids_def)
  have before: "before_state a = PDict [(''edge_id'', PStr (edge_id e)), (''is_closed'', PBool (is_closed e)),
      (''device_id'', dict_lookup (edge_attrs e) ''device_id'')]"
    using assms(1) moved(2) by (auto simp: switch_plan_def Let_def split: if_splits)
  have look: "dict_lookup (before_state a) ''is_closed'' = PBool (is_closed e)"
    "dict_lookup (before_state a) ''edge_id'' = PStr (edge_id e)"
    by (simp_all add: before dict_lookup_def dict_get_def)
  have nt: "edge_id e \<noteq> []" using switch_resolve_edge [OF moved(2)] by simp
  obtain q s3 where q: "rollback_field env' (dict_lookup (before_state a) ''device_id'') (is_closed e)
      (write_edge (edge_id e) (is_closed e) s2) = (q, s3)" by fastforce
  have "grid_edges s3 = grid_edges (write_edge (edge_id e) (is_closed e) s2)"
    using keepsD [OF rollback_field_keeps q] by (simp add: edges_governance_def)
  moreover have "snd (switch_rollback env' a s2) = s3"
    using look nt q by (cases q) (simp_all add: switch_rollback_def Let_def bindS_def del: bindS_run)
  ultimately show ?thesis using undo by simp
qed

theorem switch_rollback_restores_witness:
  "\<exists>after s1. switch_execute quiet_env close_e2 split_db = (Inr after, s1) \<and> grid_edges s1 \<noteq> grid_edges split_db \<and>
     grid_edges (snd (switch_rollback (quiet_env\<lparr>env_kafka_ok := False\<rparr>) close_e2 s1)) = grid_edges split_db"
proof -
  have "\<not> isl (fst (switch_execute quiet_env close_e2 split_db))"
    and ne: "map is_closed (grid_edges (snd (switch_execute quiet_env close_e2 split_db)))
             \<noteq> map is_closed (grid_edges split_db)" and d: "distinct (edge_ids split_db)"
    and t: "action_target close_e2 = Some ''E2''" "action_params close_e2 = PDict [(''close'', PBool True)]"
    by code_simp+
  then obtain after s1 where x: "switch_execute quiet_env close_e2 split_db = (Inr after, s1)"
    by (cases "switch_execute quiet_env close_e2 split_db"; cases "fst (switch_execute quiet_env close_e2 split_db)") auto
  obtain b pv where p: "switch_plan (Some ''E2'') (PDict [(''close'', PBool True)]) split_db = Inr (b, pv)"
    using close_e2_plan by (cases "switch_plan (Some ''E2'') (PDict [(''close'', PBool True)]) split_db") auto
  with close_e2_plan have "b = before_state close_e2" by simp
  with p t have "switch_plan (action_target close_e2) (action_params close_e2) split_db = Inr (before_state close_e2, pv)"
    by simp
  from switch_rollback_restores [OF this x d refl] x ne show ?thesis by auto
qed

text \<open>
  A dispatch that fails after the model was written raises an \<^verbatim>\<open>HTTPException\<close>, which the core
  passes on: the model says closed although no command left, and the action stays approved.
\<close>

lemma switch_dispatch_failure_leaves_model:
  "(let (r, s') = switch_execute (quiet_env\<lparr>env_kafka_ok := False\<rparr>) close_e2 split_db
    in (case r of Inl e \<Rightarrow> is_http e \<and> http_status e = 502 | _ \<Rightarrow> False,
        map is_closed (grid_edges split_db), map is_closed (grid_edges s')))
   = (True, [True, False, True, False], [True, True, True, False])"
  by code_simp

subsection \<open>The laws of a handler\<close>

lemma switch_field_governance: "keeps governance_frame (switch_field env e want)"
  unfolding keeps_def by (metis switch_field_run prod.collapse)

lemma switch_execute_governance: "governance_frame s (snd (switch_execute env a s))"
proof (cases rule: switch_execute_cases [of env a s])
  case (moved e want b pv r s')
  then show ?thesis using switch_field_run [OF moved(3)] by (simp add: governance_frame_def)
qed simp

lemma switch_rollback_governance: "governance_frame s (snd (switch_rollback env a s))"
proof -
  have m: "keeps governance_frame (modify (write_edge eid b))" for eid b by (simp add: keeps_def)
  have f: "keeps governance_frame (rollback_field env dev b)" for dev b
    using rollback_field_keeps [of env dev b] by (auto simp: keeps_def edges_governance_def)
  have "keeps governance_frame (switch_rollback env a)"
    unfolding switch_rollback_def Let_def
    by (auto split: pyval.splits
        intro!: keeps_bindS [where R = governance_frame, OF _ _ governance_trans]
          keeps_prims [where R = governance_frame] m f)
  then show ?thesis by (simp add: keeps_def)
qed

end
