(* ===== verification/Flisr_Exec.thy ===== *)
theory Flisr_Exec
  imports Flisr_Planner Switch_Ops
begin

text \<open>
  Governed FLISR execution, \<^verbatim>\<open>src/fastapi/routers/oc_flisr.py\<close>: the plan of \<open>Flisr_Planner\<close>
  applied switch by switch, reverted when a write fails on the way, and rolled back from the
  switch positions captured when the action was requested.
\<close>

subsection \<open>Planning\<close>

text \<open>
  \<^verbatim>\<open>params.get("fault_node") or target\<close> and \<^verbatim>\<open>params.get("fault_edge")\<close>; a value that is no
  string names no row, and an unhashable one cannot be looked up.
\<close>

definition flisr_args :: "string option \<Rightarrow> pyval \<Rightarrow> (string option \<times> string option) result" where
  "flisr_args target params =
     (let fe = dict_lookup params ''fault_edge''; fn = dict_lookup params ''fault_node'' in
      if truthy fe then
        (case fe of
           PStr x \<Rightarrow> Inr (None, Some x)
         | PList _ \<Rightarrow> Inl (TypeErr (Fmt ''unhashable type'' []))
         | PDict _ \<Rightarrow> Inl (TypeErr (Fmt ''unhashable type'' []))
         | _ \<Rightarrow> unknown ''edge'' [])
      else let fe' = (case fe of PStr x \<Rightarrow> Some x | _ \<Rightarrow> None) in
        if truthy fn then (case fn of PStr x \<Rightarrow> Inr (Some x, fe') | _ \<Rightarrow> unknown ''node'' [])
        else Inr (target, fe'))"

definition flisr_replan :: "string option \<Rightarrow> pyval \<Rightarrow> db \<Rightarrow> flisr_plan result" where
  "flisr_replan target params s = bindR (flisr_args target params) (\<lambda>(fn, fe). plan_flisr s fn fe)"

definition switches_json :: "(string \<times> bool) list \<Rightarrow> pyval" where
  "switches_json sw = PDict (map (\<lambda>(e, v). (e, PBool v)) sw)"

definition str_list :: "string list \<Rightarrow> pyval" where
  "str_list xs = PList (map PStr xs)"

definition flisr_handler_plan :: "string option \<Rightarrow> pyval \<Rightarrow> db \<Rightarrow> (pyval \<times> pyval) result" where
  "flisr_handler_plan target params s = bindR (flisr_replan target params s) (\<lambda>p.
     Inr (PDict [(''switches'', switches_json (fp_before_switch_state p))],
          PDict [(''fault_node'', PStr (fp_fault_node p)), (''fault_edge'', opt_str (fp_fault_edge p)),
                 (''isolated_edges'', str_list [fp_isolated_edge p]), (''restored_edges'', str_list (fp_restored_edges p)),
                 (''customers_lost'', PInt (int (fp_customers_lost p))),
                 (''customers_restored'', PInt (int (fp_customers_restored p))),
                 (''customers_still_out'', PInt (int (fp_customers_still_out p))),
                 (''still_out_nodes'', str_list (fp_still_out_nodes p)),
                 (''steps'', PList (map (PStr \<circ> msg_text) (fp_steps p))),
                 (''restores_all'', PBool (fp_customers_still_out p = 0))]))"

subsection \<open>Applying and reverting\<close>

definition plan_moves :: "flisr_plan \<Rightarrow> (string \<times> bool) list" where
  "plan_moves p = (fp_isolated_edge p, False) # map (\<lambda>e. (e, True)) (fp_restored_edges p)"

definition write_moves :: "(string \<times> bool) list \<Rightarrow> db \<Rightarrow> db" where
  "write_moves ms s = fold (\<lambda>(e, v). write_edge e v) ms s"

text \<open>\<^verbatim>\<open>UPDATE grid_edges SET is_closed = prev\<close> takes booleans only.\<close>

fun restore_all :: "(string \<times> pyval) list \<Rightarrow> unit run" where
  "restore_all [] = ret ()"
| "restore_all ((e, PBool b) # rest) = bindS (modify (write_edge e b)) (\<lambda>_. restore_all rest)"
| "restore_all ((e, _) # rest) = fail (DbError (Fmt ''column is_closed is of type boolean'' []))"

definition dict_items :: "pyval \<Rightarrow> (string \<times> pyval) list" where
  "dict_items v = (case v of PDict d \<Rightarrow> d | _ \<Rightarrow> [])"

text \<open>The entries of the moved switches that have a recorded position.\<close>

definition reverts :: "(string \<times> pyval) list \<Rightarrow> string list \<Rightarrow> (string \<times> pyval) list" where
  "reverts before applied = concat (map (\<lambda>e. case map_of before e of
       None \<Rightarrow> [] | Some v \<Rightarrow> if v = PNone then [] else [(e, v)]) applied)"

definition flisr_event_row :: "flisr_plan \<Rightarrow> db \<Rightarrow> flisr_event" where
  "flisr_event_row p s = \<lparr>fe_id = next_uuid s, fe_fault_node = fp_fault_node p, fe_fault_edge = fp_fault_edge p,
     fe_isolated = [fp_isolated_edge p], fe_restored = fp_restored_edges p,
     fe_customers_lost = fp_customers_lost p, fe_customers_restored = fp_customers_restored p,
     fe_customers_still_out = fp_customers_still_out p, fe_executed = True,
     fe_steps = fp_steps p @ [Fmt ''executed via governed /controls flisr action'' []],
     fe_version = current_model_version s\<rparr>"

definition flisr_finish :: "flisr_plan \<Rightarrow> pyval run" where
  "flisr_finish p s = (Inr (PDict
       [(''flisr_event_id'', PInt (int (next_uuid s))), (''isolated_edges'', str_list [fp_isolated_edge p]),
        (''restored_edges'', str_list (fp_restored_edges p)),
        (''customers_restored'', PInt (int (fp_customers_restored p))),
        (''customers_still_out'', PInt (int (fp_customers_still_out p))),
        (''switches_moved'', str_list (map fst (plan_moves p)))]),
     s\<lparr>next_uuid := Suc (next_uuid s), flisr_events := flisr_events s @ [flisr_event_row p s]\<rparr>)"

definition flisr_execute :: "field_env \<Rightarrow> control_action \<Rightarrow> pyval run" where
  "flisr_execute env a = bindS (lift (flisr_replan (action_target a) (action_params a))) (\<lambda>p s.
     let recorded = dict_items (dict_lookup (before_state a) ''switches'');
         before = (if recorded \<noteq> [] then recorded else dict_items (switches_json (fp_before_switch_state p)));
         moves = plan_moves p
     in case env_write_fault env of
          Some k \<Rightarrow>
            if k < length moves
            then bindS (restore_all (reverts before (map fst (take k moves))))
                   (\<lambda>_. fail (DbError (Fmt ''switch write failed'' []))) (write_moves (take k moves) s)
            else flisr_finish p (write_moves moves s)
        | None \<Rightarrow> flisr_finish p (write_moves moves s))"

definition flisr_rollback :: "field_env \<Rightarrow> control_action \<Rightarrow> pyval run" where
  "flisr_rollback env a =
     (let before = dict_items (dict_lookup (before_state a) ''switches'') in
      if before = [] then http 409 ''no before_state to roll back to'' []
      else bindS (restore_all before) (\<lambda>_. ret (PDict [(''restored_switches'', PDict before)])))"

definition flisr_handler :: handler where
  "flisr_handler = \<lparr>h_plan = flisr_handler_plan, h_risk_for = (\<lambda>_ _ _. Inr High),
     h_execute = flisr_execute, h_rollback = flisr_rollback\<rparr>"

subsection \<open>Sequences of switch writes\<close>

abbreviation set_moves :: "(string \<times> bool) list \<Rightarrow> grid_edge list \<Rightarrow> grid_edge list" where
  "set_moves ms es \<equiv> fold (\<lambda>(e, v). set_edge_closed e v) ms es"

definition moved_row :: "(string \<times> bool) list \<Rightarrow> grid_edge \<Rightarrow> grid_edge" where
  "moved_row ms x = (case map_of (rev ms) (edge_id x) of None \<Rightarrow> x | Some v \<Rightarrow> x\<lparr>is_closed := v\<rparr>)"

text \<open>The last write to an edge decides.\<close>

lemma set_moves_map: "set_moves ms es = map (moved_row ms) es"
proof (induction ms rule: rev_induct)
  case Nil
  then show ?case by (simp add: moved_row_def)
next
  case (snoc m ms)
  obtain e v where m: "m = (e, v)" by fastforce
  have id: "edge_id (moved_row ms x) = edge_id x" for x by (simp add: moved_row_def split: option.splits)
  have "(if edge_id (moved_row ms x) = e then (moved_row ms x)\<lparr>is_closed := v\<rparr> else moved_row ms x)
      = moved_row (ms @ [m]) x" for x
    unfolding id by (simp add: m moved_row_def split: option.splits)
  with snoc show ?case by (simp add: m set_edge_closed_def update_where_def)
qed

lemma grid_edges_write_moves [simp]: "grid_edges (write_moves ms s) = set_moves ms (grid_edges s)"
  unfolding write_moves_def by (induction ms arbitrary: s) (auto simp: case_prod_beta)

lemma write_moves_governance [simp]: "governance_frame s (write_moves ms s') = governance_frame s s'"
  unfolding write_moves_def by (induction ms arbitrary: s') (auto simp: case_prod_beta)

lemma write_moves_frame [simp, frame_simps]:
  "next_uuid (write_moves ms s) = next_uuid s" "model_versions (write_moves ms s) = model_versions s" "flisr_events (write_moves ms s) = flisr_events s"
  unfolding write_moves_def by (induction ms arbitrary: s) (auto simp: case_prod_beta)

text \<open>Undoing: when every moved edge is written back to the position it had, nothing has changed.\<close>

lemma set_moves_undo:
  assumes agree: "\<And>x v. x \<in> set es \<Longrightarrow> (edge_id x, v) \<in> set undo \<Longrightarrow> is_closed x = v"
    and cover: "fst ` set ms \<subseteq> fst ` set undo"
  shows "set_moves undo (set_moves ms es) = es"
proof -
  have "set_moves undo (set_moves ms es) = set_moves (ms @ undo) es" by simp
  also have "\<dots> = map (moved_row (ms @ undo)) es" by (rule set_moves_map)
  also have "\<dots> = map (\<lambda>x. x) es"
  proof (rule map_cong [OF refl])
    fix x assume x: "x \<in> set es"
    show "moved_row (ms @ undo) x = x"
    proof (cases "map_of (rev undo) (edge_id x)")
      case None
      then have "edge_id x \<notin> fst ` set undo" by (simp add: map_of_eq_None_iff)
      then have "edge_id x \<notin> fst ` set ms" using cover by blast
      then have "map_of (rev ms) (edge_id x) = None" by (simp add: map_of_eq_None_iff)
      with None show ?thesis by (simp add: moved_row_def map_add_def)
    next
      case (Some v)
      then have "(edge_id x, v) \<in> set undo" by (auto dest: map_of_SomeD)
      then have "is_closed x = v" by (rule agree [OF x])
      with Some show ?thesis by (simp add: moved_row_def)
    qed
  qed
  finally show ?thesis by simp
qed

lemma restore_all_bools: "restore_all (map (\<lambda>(e, v). (e, PBool v)) sw) s = (Inr (), write_moves sw s)"
  unfolding write_moves_def by (induction sw arbitrary: s) (auto simp: case_prod_beta)

lemma restore_all_governance: "governance_frame s (snd (restore_all ms s))"
proof (induction ms arbitrary: s rule: restore_all.induct)
  case (2 e b rest)
  have "governance_frame (write_edge e b s) (snd (restore_all rest (write_edge e b s)))" by (rule "2.IH")
  moreover have "governance_frame s (write_edge e b s)" by simp
  ultimately show ?case by (simp add: bindS_def governance_frame_def)
qed simp_all

subsection \<open>The isolating switch is not closed again\<close>

lemma set_moves_arcs:
  assumes "\<And>e v. map_of (rev ms) e = Some v \<Longrightarrow> v"
  shows "set (closed_arcs es) \<subseteq> set (closed_arcs (set_moves ms es))"
proof
  fix ab assume "ab \<in> set (closed_arcs es)"
  then obtain x where x: "x \<in> set es" "is_closed x" "ab = (from_node x, to_node x)"
    by (auto simp: set_closed_arcs)
  have "is_closed (moved_row ms x) \<and> from_node (moved_row ms x) = from_node x \<and> to_node (moved_row ms x) = to_node x"
    using x(2) assms [of "edge_id x"] by (cases "map_of (rev ms) (edge_id x)") (auto simp: moved_row_def)
  with x show "ab \<in> set (closed_arcs (set_moves ms es))"
    unfolding set_moves_map set_closed_arcs by (auto intro!: exI [of _ "moved_row ms x"])
qed

abbreviation closings :: "string list \<Rightarrow> (string \<times> bool) list" where
  "closings rs \<equiv> map (\<lambda>e. (e, True)) rs"

lemma fold_close_moves: "fold (\<lambda>e. set_edge_closed e True) rs es = set_moves (closings rs) es"
  by (induction rs arbitrary: es) simp_all

lemma restore_loop_excludes:
  assumes "\<And>rs. fault \<in> energized_set (set_edge_closed k True (set_moves (closings rs) es)) sources"
    and "restore_loop sources fault lost ts (set_moves (closings rs) es) restored = (cur', restored')"
    and "k \<notin> set restored"
  shows "k \<notin> set restored'"
  using assms(2,3)
proof (induction ts arbitrary: rs restored)
  case (Cons t ts)
  let ?cur = "set_moves (closings rs) es"
  let ?trial = "set_edge_closed (edge_id t) True ?cur"
  have trial: "?trial = set_moves (closings (rs @ [edge_id t])) es" by simp
  show ?case
  proof (cases "(to_node t \<in> lost \<or> from_node t \<in> lost) \<and> fault \<notin> energized_set ?trial sources
      \<and> energized_set ?trial sources \<inter> lost \<noteq> {}")
    case True
    then have "edge_id t \<noteq> k" using assms(1) [of rs] by auto
    moreover have "restore_loop sources fault lost ts (set_moves (closings (rs @ [edge_id t])) es)
        (restored @ [edge_id t]) = (cur', restored')"
      using True Cons.prems(1) by (simp add: Let_def)
    ultimately show ?thesis using Cons.IH [of "rs @ [edge_id t]" "restored @ [edge_id t]"] Cons.prems(2) by auto
  next
    case False
    with Cons.prems(1) have "restore_loop sources fault lost ts ?cur restored = (cur', restored')"
      by (auto simp: Let_def split: if_splits)
    with Cons.IH Cons.prems(2) show ?thesis by blast
  qed
qed simp

lemma restore_loop_no_loss: "restore_loop sources fault {} ts cur restored = (cur, restored)"
  by (induction ts) auto

text \<open>
  If opening the switch cost anything, the switch fed the fault; closing it again would too.
\<close>

lemma plan_excludes_isolated:
  assumes "plan_flisr s fnode fedge = Inr p" "distinct (edge_ids s)"
  shows "fp_isolated_edge p \<notin> set (fp_restored_edges p)"
  using assms(1)
proof (cases rule: plan_flisr_cases)
  case (1 fault sw edges_iso lost cur)
  let ?es = "grid_edges s" and ?ss = "substations s" and ?k = "edge_id sw"
  show ?thesis
  proof (cases "lost = {}")
    case True
    with 1(8) have "fp_restored_edges p = []" using restore_loop_no_loss by simp
    then show ?thesis by simp
  next
    case False
    have sw: "sw \<in> set ?es" "is_closed sw" and bf: "fault \<in> energized_set ?es [to_node sw]"
      using 1(4) by (auto simp: isolation_candidates_def)
    have same: "x = sw" if "x \<in> set ?es" "edge_id x = ?k" for x
      using that sw assms(2) by (auto simp: edge_ids_def distinct_map inj_on_def)
    have up: "set (closed_arcs ?es) \<subseteq> insert (from_node sw, to_node sw) (set (closed_arcs edges_iso))"
      using same by (force simp: 1(6) set_closed_arcs set_edge_closed_def in_set_update_where)
    have "from_node sw \<in> energized_set ?es ?ss"
    proof (rule ccontr)
      assume "from_node sw \<notin> energized_set ?es ?ss"
      then have "from_node sw \<notin> energized_set edges_iso ?ss"
        using energized_set_mono [OF closed_arcs_open] 1(6) by blast
      then have "energized_set ?es ?ss = energized_set edges_iso ?ss"
        using energized.live_dead_arc [OF up] closed_arcs_open by (simp add: energized_set_def 1(6))
      with False 1(7) show False by simp
    qed
    moreover have "(from_node sw, to_node sw) \<in> set (closed_arcs ?es)" using sw by (auto simp: set_closed_arcs)
    ultimately have "to_node sw \<in> energized_set ?es ?ss"
      using energized.live_closed by (auto simp: energized_set_def)
    with bf have live: "fault \<in> energized_set ?es ?ss"
      by (auto simp: energized_set_eq intro: rtrancl_trans)
    have "fault \<in> energized_set (set_edge_closed ?k True (set_moves (closings rs) edges_iso)) ?ss" for rs
    proof -
      have eq: "set_edge_closed ?k True (set_moves (closings rs) edges_iso)
          = set_moves ((?k, False) # closings rs @ [(?k, True)]) ?es"
        by (simp add: 1(6))
      have "set (closed_arcs ?es) \<subseteq> set (closed_arcs (set_moves ((?k, False) # closings rs @ [(?k, True)]) ?es))"
        by (rule set_moves_arcs) (auto simp: rev_map dest!: map_of_SomeD split: if_splits)
      then show ?thesis using live energized_set_mono unfolding eq by blast
    qed
    from restore_loop_excludes [where rs = "[]", OF this, of lost "tie_candidates edges_iso" "[]"] 1(8)
    show ?thesis by (simp add: 1(3))
  qed
qed

subsection \<open>The recorded positions are the true ones\<close>

lemma set_dict_put_subset: "set (dict_put k v d) \<subseteq> insert (k, v) (set d)"
  by (induction k v d rule: dict_put.induct) auto

lemma before_entries:
  "set (fold (\<lambda>e d. dict_put e False d) rs d) \<subseteq> set d \<union> (\<lambda>r. (r, False)) ` set rs"
proof (induction rs arbitrary: d)
  case (Cons r rs)
  then show ?case using Cons.IH [of "dict_put r False d"] set_dict_put_subset [of r False d] by auto
qed simp

lemma before_keys: "fst ` set (fold (\<lambda>e d. dict_put e False d) rs d) = fst ` set d \<union> set rs"
  by (induction rs arbitrary: d) (auto simp: dom_dict_put)

lemma before_covers:
  assumes "plan_flisr s fnode fedge = Inr p"
  shows "fst ` set (plan_moves p) \<subseteq> fst ` set (fp_before_switch_state p)"
  using assms
proof (cases rule: plan_flisr_cases)
  case (1 fault sw edges_iso lost cur)
  show ?thesis unfolding 1(13) before_keys by (auto simp: plan_moves_def 1(3))
qed

lemma before_nonempty: "plan_flisr s fnode fedge = Inr p \<Longrightarrow> fp_before_switch_state p \<noteq> []"
  using before_covers [of s fnode fedge p] by (auto simp: plan_moves_def)

lemma before_true:
  assumes "plan_flisr s fnode fedge = Inr p" "distinct (edge_ids s)"
    and x: "x \<in> set (grid_edges s)" "(edge_id x, v) \<in> set (fp_before_switch_state p)"
  shows "is_closed x = v"
  using assms(1)
proof (cases rule: plan_flisr_cases)
  case (1 fault sw edges_iso lost cur)
  have uniq: "y = x" if "y \<in> set (grid_edges s)" "edge_id y = edge_id x" for y
    using that x(1) assms(2) by (auto simp: edge_ids_def distinct_map inj_on_def)
  have "(edge_id x, v) = (edge_id sw, True) \<or> (edge_id x \<in> set (fp_restored_edges p) \<and> \<not> v)"
    using x(2) before_entries [of "fp_restored_edges p" "[(edge_id sw, True)]"] by (auto simp: 1(13))
  then show ?thesis
  proof
    assume "(edge_id x, v) = (edge_id sw, True)"
    with uniq [of sw] 1(4) show ?thesis by (auto simp: isolation_candidates_def)
  next
    assume r: "edge_id x \<in> set (fp_restored_edges p) \<and> \<not> v"
    then have ne: "edge_id x \<noteq> edge_id sw" using plan_excludes_isolated [OF assms(1,2)] 1(3) by auto
    from r restore_loop_edges [OF 1(8)] obtain t where "t \<in> set (tie_candidates edges_iso)" "edge_id t = edge_id x"
      by auto
    then have t: "t \<in> set edges_iso" "\<not> is_closed t" "edge_id t = edge_id x" by (auto simp: tie_candidates_def)
    then obtain y where y: "y \<in> set (grid_edges s)" "t = (if edge_id y = edge_id sw then y\<lparr>is_closed := False\<rparr> else y)"
      by (auto simp: 1(6) set_edge_closed_def in_set_update_where)
    with t ne have "t = y" by (auto split: if_splits)
    with t y uniq r show ?thesis by auto
  qed
qed

lemma write_back_restores:
  assumes "plan_flisr s fnode fedge = Inr p" "distinct (edge_ids s)" "fst ` set ms \<subseteq> fst ` set undo"
    and "set undo \<subseteq> set (fp_before_switch_state p)"
  shows "set_moves undo (set_moves ms (grid_edges s)) = grid_edges s"
  using assms before_true [OF assms(1,2)] by (intro set_moves_undo) auto

lemma distinct_before:
  assumes "plan_flisr s fnode fedge = Inr p"
  shows "distinct (map fst (fp_before_switch_state p))"
  using assms
proof (cases rule: plan_flisr_cases)
  case (1 fault sw edges_iso lost cur)
  have "distinct (map fst d) \<Longrightarrow> distinct (map fst (fold (\<lambda>e d. dict_put e False d) rs d))" for rs and d :: "(string \<times> bool) list"
    by (induction rs arbitrary: d) (simp_all add: distinct_dict_put)
  from this [of "[(edge_id sw, True)]"] show ?thesis by (simp add: 1(13))
qed

subsection \<open>Abort and rollback\<close>

lemma switches_items [simp]: "dict_items (switches_json sw) = map (\<lambda>(e, v). (e, PBool v)) sw"
  by (simp add: dict_items_def switches_json_def)

lemma recorded_items:
  "before_state a = PDict [(''switches'', switches_json sw)] \<Longrightarrow>
     dict_items (dict_lookup (before_state a) ''switches'') = map (\<lambda>(e, v). (e, PBool v)) sw"
  by (simp add: dict_lookup_def dict_get_def)

lemma reverts_bools:
  assumes "distinct (map fst sw)" "set applied \<subseteq> fst ` set sw"
  shows "\<exists>undo. reverts (map (\<lambda>(e, v). (e, PBool v)) sw) applied = map (\<lambda>(e, v). (e, PBool v)) undo \<and>
    map fst undo = applied \<and> set undo \<subseteq> set sw"
  using assms(2)
proof (induction applied)
  case (Cons e applied)
  then obtain undo where u: "reverts (map (\<lambda>(e, v). (e, PBool v)) sw) applied = map (\<lambda>(e, v). (e, PBool v)) undo"
    "map fst undo = applied" "set undo \<subseteq> set sw" by auto
  from Cons.prems obtain v where ev: "(e, v) \<in> set sw" by auto
  have "map_of (map (\<lambda>(e, v). (e, PBool v)) sw) e = Some (PBool v)"
    using ev assms(1) by (intro map_of_is_SomeI) (auto simp: comp_def case_prod_beta intro: rev_image_eqI)
  with u ev show ?case by (intro exI [of _ "(e, v) # undo"]) (auto simp: reverts_def)
qed (simp add: reverts_def)

text \<open>
  The abort needs no more than this: every switch the plan moves has a recorded position, and
  the recorded positions are those the switches have when the execution starts.
\<close>

lemma flisr_abort_from_record:
  assumes "flisr_replan (action_target a) (action_params a) s = Inr p"
    and "before_state a = PDict [(''switches'', switches_json sw)]" "distinct (map fst sw)"
    and "fst ` set (plan_moves p) \<subseteq> fst ` set sw"
    and "\<And>x v. x \<in> set (grid_edges s) \<Longrightarrow> (edge_id x, v) \<in> set sw \<Longrightarrow> is_closed x = v"
    and "env_write_fault env = Some k" "k < length (plan_moves p)"
  shows "\<exists>m s'. flisr_execute env a s = (Inl (DbError m), s') \<and> grid_edges s' = grid_edges s"
proof -
  let ?applied = "map fst (take k (plan_moves p))"
  let ?s1 = "write_moves (take k (plan_moves p)) s"
  have "set ?applied \<subseteq> fst ` set sw"
    using assms(4) image_mono [OF set_take_subset, of fst k "plan_moves p"] by auto
  then obtain undo where u: "reverts (map (\<lambda>(e, v). (e, PBool v)) sw) ?applied
      = map (\<lambda>(e, v). (e, PBool v)) undo" "map fst undo = ?applied" "set undo \<subseteq> set sw"
    using reverts_bools [OF assms(3)] by blast
  have "fst ` set (take k (plan_moves p)) \<subseteq> fst ` set undo"
    by (metis list.set_map order_refl u(2))
  then have "set_moves undo (set_moves (take k (plan_moves p)) (grid_edges s)) = grid_edges s"
    using assms(5) u(3) by (intro set_moves_undo) auto
  then have "grid_edges (write_moves undo ?s1) = grid_edges s" by simp
  moreover have "sw \<noteq> []" using assms(4) by (auto simp: plan_moves_def)
  then have "flisr_execute env a s = (Inl (DbError (Fmt ''switch write failed'' [])), write_moves undo ?s1)"
    using assms(1,6,7) restore_all_bools [of undo ?s1] u(1)
    by (simp add: flisr_execute_def recorded_items [OF assms(2)] Let_def)
  ultimately show ?thesis by blast
qed

lemma flisr_abort_restores_core:
  assumes "flisr_replan (action_target a) (action_params a) s = Inr p"
    and "before_state a = PDict [(''switches'', switches_json (fp_before_switch_state p))]"
    and "env_write_fault env = Some k" "k < length (plan_moves p)" "distinct (edge_ids s)"
  shows "\<exists>m s'. flisr_execute env a s = (Inl (DbError m), s') \<and> grid_edges s' = grid_edges s"
proof -
  from assms(1) obtain fn fe where p: "plan_flisr s fn fe = Inr p"
    by (auto simp: flisr_replan_def bindR_eq_Inr)
  show ?thesis
    by (rule flisr_abort_from_record [OF assms(1,2) distinct_before [OF p] before_covers [OF p] _ assms(3,4)])
      (rule before_true [OF p assms(5)])
qed

text \<open>
  C6: when the database refuses one of the switch writes of a FLISR execution, and takes those
  that write the switches back, every edge ends where it was before the execution started --
  provided that the positions captured when the action was requested cover the switches that
  the plan computed now moves, and are still their positions. (They are when nothing changed
  since the request; \<open>flisr_stale_rollback\<close> below shows what an outdated record does.)
\<close>

theorem flisr_abort_restores:
  assumes "flisr_replan (action_target a) (action_params a) s = Inr p"
    and "before_state a = PDict [(''switches'', switches_json sw)]" "distinct (map fst sw)"
    and "fst ` set (plan_moves p) \<subseteq> fst ` set sw"
    and "\<And>x v. x \<in> set (grid_edges s) \<Longrightarrow> (edge_id x, v) \<in> set sw \<Longrightarrow> is_closed x = v"
    and "env_write_fault env = Some k" "k < length (plan_moves p)"
  shows "\<exists>m s'. flisr_execute env a s = (Inl (DbError m), s') \<and> grid_edges s' = grid_edges s"
  using flisr_abort_from_record [OF assms] .

definition fault_at_b :: control_action where
  "fault_at_b = new_action ''flisr'' (Some ''B'') (PDict []) Live High None ''op1''
     (PDict [(''switches'', switches_json [(''E2'', True), (''T1'', False)])]) ''default'' demo_db"

lemma fault_at_b_plan:
  obtains p where "flisr_replan (action_target fault_at_b) (action_params fault_at_b) demo_db = Inr p"
    "before_state fault_at_b = PDict [(''switches'', switches_json (fp_before_switch_state p))]"
    "length (plan_moves p) = 2" "distinct (edge_ids demo_db)"
proof -
  have "map_sum id (\<lambda>p. (fp_before_switch_state p, length (plan_moves p)))
      (flisr_replan (action_target fault_at_b) (action_params fault_at_b) demo_db)
      = Inr ([(''E2'', True), (''T1'', False)], 2)" "distinct (edge_ids demo_db)"
    by code_simp+
  then show ?thesis
    by (cases "flisr_replan (action_target fault_at_b) (action_params fault_at_b) demo_db")
      (auto intro!: that simp: fault_at_b_def new_action_def)
qed

theorem flisr_abort_restores_witness:
  "\<exists>m s'. flisr_execute (quiet_env\<lparr>env_write_fault := Some 1\<rparr>) fault_at_b demo_db = (Inl (DbError m), s') \<and>
     grid_edges s' = grid_edges demo_db"
proof -
  obtain p where p: "flisr_replan (action_target fault_at_b) (action_params fault_at_b) demo_db = Inr p"
    "before_state fault_at_b = PDict [(''switches'', switches_json (fp_before_switch_state p))]"
    "length (plan_moves p) = 2" "distinct (edge_ids demo_db)" by (rule fault_at_b_plan)
  from p(1) obtain fn fe where q: "plan_flisr demo_db fn fe = Inr p"
    by (auto simp: flisr_replan_def bindR_eq_Inr)
  show ?thesis
    by (rule flisr_abort_restores [OF p(1,2) distinct_before [OF q] before_covers [OF q], of _ 1])
      (use before_true [OF q p(4)] p(3) in \<open>auto simp: quiet_env_def\<close>)
qed

text \<open>
  rolling back an executed FLISR action restores every switch, if nothing else moved a
  switch and the plan executed was the one requested.
\<close>

theorem flisr_rollback_restores:
  assumes "flisr_replan (action_target a) (action_params a) s = Inr p"
    and "before_state a = PDict [(''switches'', switches_json (fp_before_switch_state p))]"
    and "flisr_execute env a s = (Inr after, s1)" "distinct (edge_ids s)" "grid_edges s2 = grid_edges s1"
  shows "\<exists>v s3. flisr_rollback env' a s2 = (Inr v, s3) \<and> grid_edges s3 = grid_edges s \<and>
    flisr_events s1 = flisr_events s @ [flisr_event_row p s]"
proof -
  from assms(1) obtain fn fe where p: "plan_flisr s fn fe = Inr p"
    by (auto simp: flisr_replan_def bindR_eq_Inr)
  have fin: "flisr_finish p (write_moves (plan_moves p) s) = (Inr after, s1)"
  proof (cases "env_write_fault env")
    case None
    with assms(1,3) show ?thesis by (simp add: flisr_execute_def Let_def)
  next
    case (Some k)
    show ?thesis
    proof (cases "k < length (plan_moves p)")
      case True
      from flisr_abort_restores_core [OF assms(1,2) Some True assms(4)] assms(3) show ?thesis by auto
    next
      case False
      with Some assms(1,3) show ?thesis by (simp add: flisr_execute_def Let_def)
    qed
  qed
  have edges: "grid_edges s1 = set_moves (plan_moves p) (grid_edges s)"
    and ev: "flisr_events s1 = flisr_events s @ [flisr_event_row p s]"
    using fin by (auto simp: flisr_finish_def flisr_event_row_def current_model_version_def)
  note ne = before_nonempty [OF p]
  have r: "flisr_rollback env' a s2 = (Inr (PDict [(''restored_switches'', PDict (map (\<lambda>(e, v). (e, PBool v)) (fp_before_switch_state p)))]),
      write_moves (fp_before_switch_state p) s2)"
    using ne by (simp add: flisr_rollback_def recorded_items [OF assms(2)] Let_def restore_all_bools)
  have "grid_edges (write_moves (fp_before_switch_state p) s2) = grid_edges s"
    using write_back_restores [OF p assms(4) before_covers [OF p] order_refl] by (simp add: assms(5) edges)
  with r ev show ?thesis by blast
qed

theorem flisr_rollback_restores_witness:
  "\<exists>after s1 v s3. flisr_execute quiet_env fault_at_b demo_db = (Inr after, s1) \<and>
     map is_closed (grid_edges s1) = [True, False, True, True] \<and>
     flisr_rollback quiet_env fault_at_b s1 = (Inr v, s3) \<and> grid_edges s3 = grid_edges demo_db"
proof -
  obtain p where p: "flisr_replan (action_target fault_at_b) (action_params fault_at_b) demo_db = Inr p"
    "before_state fault_at_b = PDict [(''switches'', switches_json (fp_before_switch_state p))]"
    "length (plan_moves p) = 2" "distinct (edge_ids demo_db)" by (rule fault_at_b_plan)
  have "\<not> isl (fst (flisr_execute quiet_env fault_at_b demo_db))"
    "map is_closed (grid_edges (snd (flisr_execute quiet_env fault_at_b demo_db))) = [True, False, True, True]"
    by code_simp+
  then obtain after s1 where x: "flisr_execute quiet_env fault_at_b demo_db = (Inr after, s1)"
    and m: "map is_closed (grid_edges s1) = [True, False, True, True]"
    by (cases "flisr_execute quiet_env fault_at_b demo_db"; cases "fst (flisr_execute quiet_env fault_at_b demo_db)") auto
  from flisr_rollback_restores [OF p(1,2) x p(4) refl, of quiet_env]
  obtain v s3 where r: "flisr_rollback quiet_env fault_at_b s1 = (Inr v, s3)" "grid_edges s3 = grid_edges demo_db" by auto
  show ?thesis by (intro exI conjI) (fact x m r)+
qed

text \<open>
  If the network changed between the request and the execution, the plan executed is a new one,
  but the abort and the rollback still write back the positions of the old one: here \<open>E2\<close> is
  no longer switchable when the action runs, so it opens \<open>E1\<close>, which the rollback leaves open.
\<close>

lemma flisr_stale_rollback:
  "(let s = demo_db\<lparr>grid_edges := update_where (\<lambda>e. edge_id e = ''E2'') (is_switchable_update (\<lambda>_. False)) (grid_edges demo_db)\<rparr>;
        s1 = snd (flisr_execute quiet_env fault_at_b s); s2 = snd (flisr_rollback quiet_env fault_at_b s1)
    in (map is_closed (grid_edges s), map is_closed (grid_edges s1), map is_closed (grid_edges s2)))
   = ([True, True, True, False], [False, True, True, True], [False, True, True, False])"
  by code_simp

subsection \<open>The laws of a handler\<close>

lemma flisr_execute_governance: "governance_frame s (snd (flisr_execute env a s))"
proof -
  have fin: "governance_frame s (snd (flisr_finish p (write_moves ms s)))" for p ms
    by (simp add: flisr_finish_def governance_frame_def)
      (metis governance_frame_def governance_refl write_moves_governance)
  have ab: "governance_frame s (snd (bindS (restore_all r) (\<lambda>_. fail e) (write_moves ms s)))" for r e ms
    using restore_all_governance [of "write_moves ms s" r]
    by (auto simp: bindS_def governance_frame_def split: prod.splits sum.splits)
      (metis governance_frame_def governance_refl write_moves_governance)+
  show ?thesis
    using fin ab by (auto simp: flisr_execute_def bindS_def Let_def split: sum.splits option.splits)
qed

lemma flisr_rollback_governance: "governance_frame s (snd (flisr_rollback env a s))"
  using restore_all_governance [of s "dict_items (dict_lookup (before_state a) ''switches'')"]
  by (auto simp: flisr_rollback_def Let_def bindS_def split: prod.splits sum.splits)

end
