(* ===== verification/Volt_Var.thy ===== *)
theory Volt_Var
  imports Switch_Ops
begin

text \<open>
  Governed Volt/VAR dispatch, \<^verbatim>\<open>src/fastapi/routers/oc_voltvar.py\<close>, with the curtailment map of
  \<^verbatim>\<open>routers/der.py\<close>: a setpoint inside the rated band, classified by the size of the step from
  the present output, sent as a device command and softly verified.
\<close>

definition curtail_map :: "(string \<times> (string \<times> string)) list" where
  "curtail_map = [(''solar'', (''set_limit'', ''max_power_kw'')), (''ev_charger'', (''set_limit'', ''max_power_kw'')),
     (''battery'', (''set_power_limit'', ''power_kw'')), (''microgrid'', (''set_setpoint'', ''setpoint_kw''))]"

definition max_step_kw :: pyfloat where
  "max_step_kw = Fin 10"

definition fresh_s :: rat where
  "fresh_s = 600"

definition find_der :: "db \<Rightarrow> string \<Rightarrow> der_asset option" where
  "find_der s d = find (\<lambda>x. der_id x = d) (der_assets s)"

definition voltvar_resolve :: "string option \<Rightarrow> pyval \<Rightarrow> db \<Rightarrow> (der_asset \<times> pyfloat) result" where
  "voltvar_resolve target params s =
     (if no_target target then Inl (HTTPException 422 (Fmt ''voltvar_dispatch requires target (der_id)'' []))
      else case find_der s (the target) of
        None \<Rightarrow> unknown ''der'' (the target)
      | Some d \<Rightarrow>
          if \<not> controllable d then Inl (HTTPException 409 (Fmt ''der {} is not controllable'' [the target]))
          else if map_of curtail_map (der_type d) = None
          then Inl (HTTPException 422 (Fmt ''no Volt/VAR command mapping for der_type {}'' [der_type d]))
          else if \<not> has_key params ''setpoint_kw''
          then Inl (HTTPException 422 (Fmt ''params.setpoint_kw (kW) required'' []))
          else bindR (py_float (dict_lookup params ''setpoint_kw'')) (\<lambda>x. Inr (d, x)))"

text \<open>A stale or missing reading counts as no output.\<close>

definition current_kw :: "db \<Rightarrow> string \<Rightarrow> rat" where
  "current_kw s d = (case latest_telemetry s d of
       None \<Rightarrow> 0
     | Some t \<Rightarrow> (case t_power_kw t of
         None \<Rightarrow> 0
       | Some p \<Rightarrow> if fresh_s < now s - t_time t then 0 else p))"

definition voltvar_step :: "db \<Rightarrow> string \<Rightarrow> pyfloat \<Rightarrow> pyfloat" where
  "voltvar_step s d sp = fl_abs (fl_sub sp (Fin (current_kw s d)))"

definition voltvar_risk :: "string option \<Rightarrow> pyval \<Rightarrow> db \<Rightarrow> risk_class result" where
  "voltvar_risk target params s =
     (case voltvar_resolve target params s of
        Inl e \<Rightarrow> if is_http e then Inr High else Inl e
      | Inr (d, sp) \<Rightarrow> Inr (if fl_less max_step_kw (voltvar_step s (the target) sp) then High else Low))"

definition voltvar_blocks :: "rat \<Rightarrow> pyfloat \<Rightarrow> msg list" where
  "voltvar_blocks rated sp =
     (if fl_less sp (Fin 0) then [Fmt ''setpoint below 0 kW'' []] else []) @
     (if rated \<noteq> 0 \<and> fl_less (Fin rated) sp then [Fmt ''setpoint exceeds rated'' []] else [])"

definition rated_of :: "der_asset \<Rightarrow> rat" where
  "rated_of d = (case rated_kw d of None \<Rightarrow> 0 | Some r \<Rightarrow> r)"

definition voltvar_plan :: "string option \<Rightarrow> pyval \<Rightarrow> db \<Rightarrow> (pyval \<times> pyval) result" where
  "voltvar_plan target params s = bindR (voltvar_resolve target params s) (\<lambda>(d, sp).
     let rated = rated_of d; cur = current_kw s (der_id d); blocks = voltvar_blocks rated sp in
     if blocks \<noteq> [] \<and> \<not> truthy (dict_lookup params ''override'')
     then Inl (HTTPException 409 (Blocked blocks))
     else let (ctype, pkey) = the (map_of curtail_map (der_type d)) in
       Inr (PDict [(''der_id'', PStr (der_id d)), (''der_type'', PStr (der_type d)),
                   (''node_id'', opt_str (der_node d)), (''prev_setpoint_kw'', PFloat (Fin cur))],
            PDict [(''der_id'', PStr (der_id d)), (''setpoint_kw'', PFloat sp),
                   (''current_output_kw'', PFloat (Fin cur)),
                   (''delta_kw'', PFloat (fl_round 2 (fl_sub sp (Fin cur)))),
                   (''rated_kw'', PFloat (Fin rated)),
                   (''rate_limited_high_risk'', PBool (fl_less max_step_kw (voltvar_step s (der_id d) sp))),
                   (''command'', PDict [(''command_type'', PStr ctype), (pkey, PFloat sp)])]))"

definition voltvar_execute :: "field_env \<Rightarrow> control_action \<Rightarrow> pyval run" where
  "voltvar_execute env a = bindS (lift (voltvar_resolve (action_target a) (action_params a))) (\<lambda>(d, sp).
     let (ctype, pkey) = the (map_of curtail_map (der_type d)) in
     bindS (dispatch_command env (der_id d) ctype (PDict [(pkey, PFloat sp)]) ''oc-voltvar'') (\<lambda>c.
       let out = [(''der_id'', PStr (der_id d)), (''command_type'', PStr ctype), (''setpoint_kw'', PFloat sp),
                  (''command_id'', PInt (int (command_id c)))] in
       if \<not> echo_enabled env then ret (PDict out)
       else bindS (lift (verify_echo env (der_id d) (ExpectSetpoint sp))) (\<lambda>ec.
         if confirmed ec = Some False
         then fail (RuntimeError (Fmt ''device {} did not converge to setpoint (echo divergence)'' [der_id d]))
         else ret (PDict (out @ [(''echo'', echo_json ec)])))))"

definition voltvar_rollback :: "field_env \<Rightarrow> control_action \<Rightarrow> pyval run" where
  "voltvar_rollback env a =
     (let b = before_state a; d = dict_lookup b ''der_id''; prev = dict_lookup b ''prev_setpoint_kw'';
          ty = dict_lookup b ''der_type'';
          (ctype, pkey) = (case (case ty of PStr x \<Rightarrow> map_of curtail_map x | _ \<Rightarrow> None) of
             None \<Rightarrow> (''set_limit'', ''max_power_kw'') | Some m \<Rightarrow> m)
      in if d = PNone \<or> prev = PNone then http 409 ''no before_state to roll back to'' []
         else bindS (lift (\<lambda>_. as_str d)) (\<lambda>dn.
              bindS (dispatch_command env dn ctype (PDict [(pkey, prev)]) ''oc-voltvar'') (\<lambda>c.
                ret (PDict [(''der_id'', d), (''restored_setpoint_kw'', prev),
                            (''command_id'', PInt (int (command_id c)))]))))"

definition voltvar_handler :: handler where
  "voltvar_handler = \<lparr>h_plan = voltvar_plan, h_risk_for = voltvar_risk,
     h_execute = voltvar_execute, h_rollback = voltvar_rollback\<rparr>"

subsection \<open>The laws of a handler\<close>

lemma dispatch_governance: "keeps governance_frame (dispatch_command env dev cty params by)"
  unfolding keeps_def
proof
  fix s
  obtain r s' where d: "dispatch_command env dev cty params by s = (r, s')" by fastforce
  show "governance_frame s (snd (dispatch_command env dev cty params by s))"
    using dispatch_frame [OF d] by (simp add: d governance_frame_def)
qed

lemmas governance_intros =
  keeps_bindS [where R = governance_frame, OF _ _ governance_trans]
  keeps_prims [where R = governance_frame, OF governance_refl]

lemma voltvar_execute_governance: "governance_frame s (snd (voltvar_execute env a s))"
proof -
  have "keeps governance_frame (voltvar_execute env a)"
    unfolding voltvar_execute_def Let_def
    by (auto split: prod.splits intro!: governance_intros dispatch_governance)
  then show ?thesis by (simp add: keeps_def)
qed

lemma voltvar_rollback_governance: "governance_frame s (snd (voltvar_rollback env a s))"
proof -
  have "keeps governance_frame (voltvar_rollback env a)"
    unfolding voltvar_rollback_def Let_def
    by (auto split: prod.splits intro!: governance_intros dispatch_governance)
  then show ?thesis by (simp add: keeps_def)
qed

subsection \<open>Band and step\<close>

lemma finite_band:
  assumes "voltvar_blocks rated (Fin x) = []"
  shows "0 \<le> x" "rated \<noteq> 0 \<Longrightarrow> x \<le> rated"
  using assms by (auto simp: voltvar_blocks_def not_less split: if_splits)

text \<open>
  C22: a finite setpoint that is planned without an override lies between zero and the rated
  power of the device (when that is known); and if it is classed as low risk, so that one
  operator may execute it alone, it is within 10 kW of the present output.
\<close>

theorem voltvar_bounded:
  assumes "voltvar_plan target params s = Inr bp" "\<not> truthy (dict_lookup params ''override'')"
    and "voltvar_resolve target params s = Inr (d, Fin x)"
  shows "0 \<le> x \<and> (rated_of d \<noteq> 0 \<longrightarrow> x \<le> rated_of d) \<and>
    (voltvar_risk target params s = Inr Low \<longrightarrow> \<bar>x - current_kw s (the target)\<bar> \<le> 10)"
proof -
  have "voltvar_blocks (rated_of d) (Fin x) = []"
    using assms by (auto simp: voltvar_plan_def Let_def split: if_splits)
  moreover have "\<bar>x - current_kw s (the target)\<bar> \<le> 10" if "voltvar_risk target params s = Inr Low"
    using that assms(3) by (auto simp: voltvar_risk_def voltvar_step_def max_step_kw_def split: if_splits)
  ultimately show ?thesis using finite_band by blast
qed

theorem voltvar_bounded_witness:
  "\<exists>bp d. voltvar_plan (Some ''EV1'') (PDict [(''setpoint_kw'', PInt 12)]) demo_db = Inr bp \<and>
     voltvar_resolve (Some ''EV1'') (PDict [(''setpoint_kw'', PInt 12)]) demo_db = Inr (d, Fin 12) \<and>
     (12::rat) \<le> rated_of d \<and> \<bar>12 - current_kw demo_db ''EV1''\<bar> \<le> 10"
proof -
  let ?p = "PDict [(''setpoint_kw'', PInt 12)]"
  have "\<not> isl (voltvar_plan (Some ''EV1'') ?p demo_db)" "\<not> truthy (dict_lookup ?p ''override'')"
    "map_sum id (\<lambda>(d, x). (rated_of d, x)) (voltvar_resolve (Some ''EV1'') ?p demo_db) = Inr (22, Fin 12)"
    "voltvar_risk (Some ''EV1'') ?p demo_db = Inr Low"
    by code_simp+
  then obtain bp d where p: "voltvar_plan (Some ''EV1'') ?p demo_db = Inr bp" "\<not> truthy (dict_lookup ?p ''override'')"
    "voltvar_resolve (Some ''EV1'') ?p demo_db = Inr (d, Fin 12)" "rated_of d = 22"
    "voltvar_risk (Some ''EV1'') ?p demo_db = Inr Low"
    by (cases "voltvar_plan (Some ''EV1'') ?p demo_db"; cases "voltvar_resolve (Some ''EV1'') ?p demo_db") auto
  with voltvar_bounded [OF p(1-3)] show ?thesis by (intro exI [of _ bp] exI [of _ d]) simp
qed

text \<open>
  The band and the risk class are no obstacle to \<^verbatim>\<open>"nan"\<close>: every comparison with it is false,
  so the request is unblocked and of low risk. The action is stored, and then its audit row is
  refused by the database, because the preview holds the \<^verbatim>\<open>NaN\<close>.
\<close>

lemma voltvar_nan_unaudited:
  "(let (r, s') = submit_action [(''voltvar_dispatch'', voltvar_handler)] ''voltvar_dispatch'' (Some ''EV1'')
          (PDict [(''setpoint_kw'', PStr ''nan'')]) Live None ''op1'' ''default'' demo_db
    in (r = Inl bad_json, map action_risk (control_actions s'), map action_status (control_actions s'), length (control_audit s')))
   = (True, [Low], [PENDING], 0)"
  by code_simp

end
