(* ===== verification/Control_Registry.thy ===== *)
theory Control_Registry
  imports Flisr_Exec Volt_Var
begin

text \<open>
  The registry as the application fills it (the \<^verbatim>\<open>register_handler\<close> calls of \<^verbatim>\<open>controls.py\<close>,
  \<^verbatim>\<open>oc_switch.py\<close>, \<^verbatim>\<open>oc_flisr.py\<close> and \<^verbatim>\<open>oc_voltvar.py\<close>). The four handlers satisfy the interface
  \<open>control_handlers\<close>, so that everything proved there holds of the running control plane.
\<close>

definition registry :: registry where
  "registry = [(''noop'', noop_handler), (''switch_op'', switch_handler), (''flisr'', flisr_handler),
     (''voltvar_dispatch'', voltvar_handler)]"

lemma registry_handler:
  assumes "map_of registry ty = Some h"
  obtains "h = noop_handler" | "h = switch_handler" | "h = flisr_handler" | "h = voltvar_handler"
  using assms by (auto simp: registry_def split: if_splits)

interpretation ctrl: control_handlers registry
proof
  fix ty h env a s
  assume h: "map_of registry ty = Some h"
  show "governance_frame s (snd (h_execute h env a s))"
    using h by (rule registry_handler)
      (simp_all add: noop_handler_def switch_handler_def flisr_handler_def voltvar_handler_def
         switch_execute_governance flisr_execute_governance voltvar_execute_governance)
  show "governance_frame s (snd (h_rollback h env a s))"
    using h by (rule registry_handler)
      (simp_all add: noop_handler_def switch_handler_def flisr_handler_def voltvar_handler_def
         switch_rollback_governance flisr_rollback_governance voltvar_rollback_governance)
qed

abbreviation control_history :: "db \<Rightarrow> db \<Rightarrow> bool" where
  "control_history \<equiv> (control_step registry)\<^sup>*\<^sup>*"

lemma fresh_inv: "control_actions s = [] \<Longrightarrow> control_inv s"
  by (simp add: control_inv_def controls_wf_def)

subsection \<open>A governed operation from request to execution\<close>

text \<open>\<open>op1\<close> asks to close \<open>E2\<close>, \<open>eng1\<close> approves, \<open>op1\<close> executes.\<close>

definition asked_db :: db where
  "asked_db = snd (submit_action registry ''switch_op'' (Some ''E2'') (PDict [(''close'', PBool True)]) Live
     (Some ''restore'') ''op1'' ''default'' split_db)"

definition approved_db :: db where
  "approved_db = snd (approve (Some engineer1) 0 None asked_db)"

definition executed_db :: db where
  "executed_db = snd (execute_action registry quiet_env (Some operator1) 0 approved_db)"

lemma demo_history: "control_history split_db executed_db"
proof -
  have "control_step registry split_db asked_db" unfolding asked_db_def by (rule submit_step)
  moreover have "control_step registry asked_db approved_db" unfolding approved_db_def by (rule approve_step)
  moreover have "control_step registry approved_db executed_db" unfolding executed_db_def by (rule execute_step)
  ultimately show ?thesis by (meson converse_rtranclp_into_rtranclp rtranclp.rtrancl_refl)
qed

lemma demo_statuses:
  "map action_status (control_actions asked_db) = [PENDING]"
  "map action_status (control_actions approved_db) = [APPROVED]"
  "map action_status (control_actions executed_db) = [EXECUTED]"
  "map action_risk (control_actions executed_db) = [High]"
  "map action_mode (control_actions executed_db) = [Live]"
  "map audit_event (control_audit executed_db) = [REQUESTED_EV, APPROVED_EV, EXECUTED_EV]"
  "map is_closed (grid_edges executed_db) = [True, True, True, False]"
  "control_actions split_db = []"
  by code_simp+

text \<open>
  C1: separation of duties. However requests, approvals, executions and rollbacks interleave,
  and whatever the other components do in between, a live high-risk action that was executed,
  failed or rolled back had been approved by someone other than its requester.
\<close>

theorem high_risk_two_person:
  assumes "control_history s s'" "control_actions s = []" "a \<in> set (control_actions s')"
    and "action_risk a = High" "action_mode a = Live" "action_status a \<in> {EXECUTED, FAILED, ROLLED_BACK}"
  shows "\<exists>who. approved_by a = Some who \<and> who \<noteq> requested_by a"
proof -
  have "control_inv s'" using ctrl.history_inv [OF assms(1)] fresh_inv assms(2) by blast
  with assms(3) have "two_person a" by (simp add: control_inv_def)
  with assms(4-6) show ?thesis by (auto simp: two_person_def second_person_def)
qed

theorem high_risk_two_person_witness:
  "\<exists>a\<in>set (control_actions executed_db). action_status a = EXECUTED \<and>
     (\<exists>who. approved_by a = Some who \<and> who \<noteq> requested_by a)"
proof -
  obtain a where a: "control_actions executed_db = [a]" using demo_statuses(3) by auto
  with demo_statuses have "action_risk a = High" "action_mode a = Live" "action_status a = EXECUTED" by auto
  with high_risk_two_person [OF demo_history demo_statuses(8), of a] a show ?thesis by auto
qed

text \<open>
  C3: the life of an action. Over any history its request (type, target, parameters, mode, risk,
  requester, tenant, recorded positions) never changes, its status moves only along the edges
  of the lifecycle, and a rejected, failed or rolled back action stays as it is.
\<close>

theorem action_lifecycle:
  assumes "control_history s s'" "control_inv s" "a \<in> set (control_actions s)"
  shows "\<exists>b\<in>set (control_actions s'). same_request a b \<and> (action_status a, action_status b) \<in> lifecycle\<^sup>* \<and>
    (action_status a \<in> {REJECTED, FAILED, ROLLED_BACK} \<longrightarrow> action_status b = action_status a)"
  using ctrl.history_lifecycle [OF assms] lifecycle_terminal by blast

theorem action_lifecycle_witness:
  "\<exists>a\<in>set (control_actions asked_db). action_status a = PENDING \<and>
     (\<exists>b\<in>set (control_actions executed_db). same_request a b \<and> (PENDING, action_status b) \<in> lifecycle\<^sup>*)"
proof -
  obtain a where a: "control_actions asked_db = [a]" "action_status a = PENDING" using demo_statuses(1) by auto
  have 1: "control_history split_db asked_db"
    unfolding asked_db_def by (rule r_into_rtranclp) (rule submit_step)
  have 2: "control_history asked_db executed_db"
    unfolding executed_db_def approved_db_def
    by (meson approve_step converse_rtranclp_into_rtranclp execute_step rtranclp.rtrancl_refl)
  have inv: "control_inv asked_db" by (rule ctrl.history_inv [OF 1 fresh_inv [OF demo_statuses(8)]])
  have "a \<in> set (control_actions asked_db)" using a by simp
  from action_lifecycle [OF 2 inv this] a show ?thesis by auto
qed



text \<open>
  Rolling back is not gated: it needs neither the master flag nor a live action. The rollback of
  a dry run, which moved nothing, sends a command to the device.
\<close>

lemma rollback_actuates_dry_run:
  "(let env = quiet_env\<lparr>env_flag := None\<rparr>;
        s1 = snd (submit_action registry ''switch_op'' (Some ''E2'') (PDict [(''close'', PBool True)]) DryRun None
               ''op1'' ''default'' split_db);
        s2 = snd (execute_action registry env (Some operator1) 0 s1);
        s3 = snd (rollback_action registry env (Some engineer1) 0 s2)
    in (controls_enabled env, length (commands s2), map command_type (commands s3), map action_status (control_actions s3)))
   = (False, 0, [''island''], [ROLLED_BACK])"
  by code_simp

text \<open>
  \<^verbatim>\<open>GET /controls/audit?action_id=\<close> is not scoped: a principal of another tenant reads the trail
  of an action that \<^verbatim>\<open>GET /controls/actions/{id}\<close> refuses to show.
\<close>

lemma audit_by_action_unscoped:
  "(let p = Some \<lparr>p_name = ''spy'', p_role = Viewer, p_tenant = Some ''other''\<rparr>
    in (isl (get_action p 0 executed_db), map_sum id length (audit_trail p (Some 0) 100 executed_db),
        map_sum id length (audit_trail p None 100 executed_db))) = (True, Inr 3, Inr 0)"
  by code_simp

subsection \<open>Gates\<close>

text \<open>
  C2: without the master flag, and for a dry run or a high-risk action nobody approved, executing
  an action changes nothing but the control tables; it may fail, whatever the registry.
\<close>

theorem execute_gated:
  assumes "execute_action H env po aid s = (r, s')" "\<not> same_field s s'"
  shows "controls_enabled env \<and> (\<exists>p a. po = Some p \<and> role_allowed (p_role p) [Operator, Engineer, Admin] \<and>
    find_action s aid = Some a \<and> visible p a \<and> action_mode a = Live \<and>
    (if action_risk a = High then action_status a = APPROVED else action_status a \<in> {PENDING, APPROVED}))"
proof (cases rule: execute_effect [of H env po aid s])
  case (live p a h)
  then show ?thesis by (auto simp: may_run_live_def)
qed (use assms in auto)

theorem execute_gated_witness:
  "\<exists>r. execute_action registry quiet_env (Some operator1) 0 approved_db = (r, executed_db) \<and>
     controls_enabled quiet_env \<and>
     (\<exists>a. find_action approved_db 0 = Some a \<and> action_risk a = High \<and> action_status a = APPROVED)"
proof -
  obtain r where r: "execute_action registry quiet_env (Some operator1) 0 approved_db = (r, executed_db)"
    by (cases "execute_action registry quiet_env (Some operator1) 0 approved_db") (simp add: executed_db_def)
  have "map is_closed (grid_edges approved_db) = [True, False, True, False]" by code_simp
  with demo_statuses(7) have "\<not> same_field approved_db executed_db" by (auto simp: same_field_def)
  moreover have "map_option action_risk (find_action approved_db 0) = Some High" by code_simp
  ultimately show ?thesis using execute_gated [OF r] r by (auto split: if_splits)
qed

text \<open>
  C16: a principal bound to a tenant can neither approve, reject, execute nor roll back an action
  of another tenant -- the store stays as it was -- and sees it neither under its key, nor in the
  list of actions, nor in the audit listing. (The audit trail asked for by the key of an action is
  the one exception: it is not scoped, \<open>audit_by_action_unscoped\<close>.)
\<close>

theorem tenant_isolation:
  assumes "find_action s aid = Some a" "p_tenant p = Some t" "action_tenant a \<noteq> t"
  shows "snd (approve (Some p) aid reason s) = s \<and> snd (reject (Some p) aid reason s) = s \<and>
    snd (execute_action H env (Some p) aid s) = s \<and> snd (rollback_action H env (Some p) aid s) = s \<and>
    isl (get_action (Some p) aid s) \<and> (\<forall>as. list_actions (Some p) st limit s = Inr as \<longrightarrow> a \<notin> set as) \<and>
    (\<forall>rows. audit_trail (Some p) None limit s = Inr rows \<longrightarrow> aid \<notin> audit_action ` set rows)"
proof -
  have l: "\<exists>e. load_action roles (Some p) aid s = (Inl e, s)" for roles
  proof (cases rule: load_action_cases [of roles "Some p" aid s])
    case (loaded q b)
    with assms show ?thesis by (simp add: visible_def)
  qed blast
  have "isl (get_action (Some p) aid s)"
    using assms by (auto simp: get_action_def require_role_def assert_tenant_def)
  moreover have "a \<notin> set as" if "list_actions (Some p) st limit s = Inr as" for as
    using that assms by (auto simp: list_actions_def bindR_eq_Inr require_role_Inr visible_def dest!: in_set_takeD)
  moreover have "aid \<notin> audit_action ` set rows" if "audit_trail (Some p) None limit s = Inr rows" for rows
    using that assms by (auto simp: audit_trail_def bindR_eq_Inr require_role_Inr dest!: in_set_takeD)
  moreover have "snd (approve (Some p) aid reason s) = s" using l [of APPROVE_ROLES] by (auto simp: approve_def)
  moreover have "snd (reject (Some p) aid reason s) = s" using l [of APPROVE_ROLES] by (auto simp: reject_def)
  moreover have "snd (execute_action H env (Some p) aid s) = s"
    using l [of REQUEST_ROLES] by (auto simp: execute_action_def)
  moreover have "snd (rollback_action H env (Some p) aid s) = s"
    using l [of APPROVE_ROLES] by (auto simp: rollback_action_def)
  ultimately show ?thesis by blast
qed

theorem tenant_isolation_witness:
  "\<exists>a. find_action executed_db 0 = Some a \<and>
     snd (rollback_action registry quiet_env (Some \<lparr>p_name = ''spy'', p_role = Admin, p_tenant = Some ''other''\<rparr>) 0 executed_db)
       = executed_db"
proof -
  let ?p = "\<lparr>p_name = ''spy'', p_role = Admin, p_tenant = Some ''other''\<rparr>"
  have "map_option action_tenant (find_action executed_db 0) = Some ''default''" by code_simp
  then obtain a where a: "find_action executed_db 0 = Some a" "action_tenant a \<noteq> ''other''" by auto
  with tenant_isolation [OF a(1), of ?p "''other''"] show ?thesis by auto
qed

end
