(* ===== verification/Iso_Time.thy ===== *)
theory Iso_Time
  imports Py_Numbers
begin

text \<open>
  The part of Python's \<^verbatim>\<open>datetime\<close> the telemetry code uses: \<^verbatim>\<open>datetime.fromisoformat\<close> on the
  extended calendar format (\<^verbatim>\<open>YYYY-MM-DD\<close>, any separator, \<^verbatim>\<open>HH[:MM[:SS[.f+]]]\<close>, an offset), after
  the code has replaced \<^verbatim>\<open>Z\<close> by \<^verbatim>\<open>+00:00\<close>; \<^verbatim>\<open>isoformat\<close> of an UTC value; and the seconds
  between two instants. The basic (undelimited) and week-date formats are not modelled.
\<close>

record datetime =
  dt_year :: nat
  dt_month :: nat
  dt_day :: nat
  dt_hour :: nat
  dt_minute :: nat
  dt_second :: nat
  dt_micro :: nat

subsection \<open>Validity and distance\<close>

definition leap :: "nat \<Rightarrow> bool" where
  "leap y \<longleftrightarrow> 4 dvd y \<and> (\<not> 100 dvd y \<or> 400 dvd y)"

definition days_in_month :: "nat \<Rightarrow> nat \<Rightarrow> nat" where
  "days_in_month y m = (if m = 2 then (if leap y then 29 else 28)
     else if m \<in> {4, 6, 9, 11} then 30 else 31)"

definition date_ok :: "nat \<Rightarrow> nat \<Rightarrow> nat \<Rightarrow> bool" where
  "date_ok y m d \<longleftrightarrow> 1 \<le> y \<and> y \<le> 9999 \<and> 1 \<le> m \<and> m \<le> 12 \<and> 1 \<le> d \<and> d \<le> days_in_month y m"

definition time_ok :: "nat \<Rightarrow> nat \<Rightarrow> nat \<Rightarrow> nat \<Rightarrow> bool" where
  "time_ok h mi s us \<longleftrightarrow> h < 24 \<and> mi < 60 \<and> s < 60 \<and> us < 1000000"

definition datetime_ok :: "datetime \<Rightarrow> bool" where
  "datetime_ok t \<longleftrightarrow> date_ok (dt_year t) (dt_month t) (dt_day t) \<and>
     time_ok (dt_hour t) (dt_minute t) (dt_second t) (dt_micro t)"

definition days_before_year :: "nat \<Rightarrow> nat" where
  "days_before_year y = (let z = y - 1 in z * 365 + z div 4 - z div 100 + z div 400)"

definition day_number :: "datetime \<Rightarrow> nat" where
  "day_number t = days_before_year (dt_year t) +
     sum_list (map (days_in_month (dt_year t)) [1..<dt_month t]) + dt_day t"

text \<open>Seconds since the first of January of year 1; differences are \<^verbatim>\<open>(a - b).total_seconds()\<close>.\<close>

definition seconds_of :: "datetime \<Rightarrow> rat" where
  "seconds_of t = of_nat (day_number t * 86400 + dt_hour t * 3600 + dt_minute t * 60 + dt_second t)
     + of_nat (dt_micro t) / 1000000"

subsection \<open>Digits\<close>

fun digits_from :: "nat \<Rightarrow> string \<Rightarrow> nat option" where
  "digits_from acc [] = Some acc"
| "digits_from acc (c # cs) = (case digit_val c of None \<Rightarrow> None | Some d \<Rightarrow> digits_from (10 * acc + d) cs)"

definition digits_val :: "string \<Rightarrow> nat option" where
  "digits_val s = (if s = [] then None else digits_from 0 s)"

primrec pad :: "nat \<Rightarrow> nat \<Rightarrow> string" where
  "pad 0 k = []"
| "pad (Suc n) k = pad n (k div 10) @ [char_of (48 + k mod 10)]"

lemma length_pad [simp]: "length (pad n k) = n"
  by (induction n arbitrary: k) auto

lemma digits_from_append:
  "digits_from a (xs @ ys) = (case digits_from a xs of None \<Rightarrow> None | Some b \<Rightarrow> digits_from b ys)"
  by (induction a xs rule: digits_from.induct) (auto split: option.splits)

lemma digits_from_pad: "k < 10 ^ n \<Longrightarrow> digits_from a (pad n k) = Some (a * 10 ^ n + k)"
proof (induction n arbitrary: k)
  case (Suc n)
  have "k div 10 < 10 ^ n" using Suc.prems by (simp add: less_mult_imp_div_less mult.commute)
  then have "digits_from a (pad n (k div 10)) = Some (a * 10 ^ n + k div 10)" by (rule Suc.IH)
  then show ?case by (simp add: digits_from_append algebra_simps)
qed simp

lemma digits_val_pad: "k < 10 ^ n \<Longrightarrow> 0 < n \<Longrightarrow> digits_val (pad n k) = Some k"
  using digits_from_pad [of k n 0] by (cases n) (simp_all add: digits_val_def)

lemma pad_digit: "c \<in> set (pad n k) \<Longrightarrow> digit_val c \<noteq> None"
proof (induction n arbitrary: k)
  case (Suc n)
  then show ?case using digit_val_char [of "k mod 10"] by fastforce
qed simp

subsection \<open>\<^verbatim>\<open>fromisoformat\<close>\<close>

definition opt_bind :: "'a option \<Rightarrow> ('a \<Rightarrow> 'b option) \<Rightarrow> 'b option" where
  "opt_bind x f = (case x of None \<Rightarrow> None | Some y \<Rightarrow> f y)"

lemma opt_bind_simps [simp]: "opt_bind None f = None" "opt_bind (Some y) f = f y"
  by (simp_all add: opt_bind_def)

definition parse_date :: "string \<Rightarrow> (nat \<times> nat \<times> nat) option" where
  "parse_date s =
     (if length s = 10 \<and> s ! 4 = CHR ''-'' \<and> s ! 7 = CHR ''-'' then
        opt_bind (digits_val (take 4 s)) (\<lambda>y. opt_bind (digits_val (take 2 (drop 5 s))) (\<lambda>m.
        opt_bind (digits_val (drop 8 s)) (\<lambda>d. if date_ok y m d then Some (y, m, d) else None)))
      else None)"

text \<open>The fraction: six digits count, further ones must be digits and are cut off.\<close>

definition parse_micros :: "string \<Rightarrow> nat option" where
  "parse_micros s = opt_bind (digits_val s) (\<lambda>_. opt_bind (digits_val (take 6 s)) (\<lambda>v.
     Some (v * 10 ^ (6 - length s))))"

definition parse_clock :: "string \<Rightarrow> (nat \<times> nat \<times> nat \<times> nat) option" where
  "parse_clock s =
     opt_bind (digits_val (take 2 s)) (\<lambda>h.
     if length s = 2 then Some (h, 0, 0, 0)
     else if length s < 5 \<or> s ! 2 \<noteq> CHR '':'' then None
     else opt_bind (digits_val (take 2 (drop 3 s))) (\<lambda>mi.
       if length s = 5 then Some (h, mi, 0, 0)
       else if length s < 8 \<or> s ! 5 \<noteq> CHR '':'' then None
       else opt_bind (digits_val (take 2 (drop 6 s))) (\<lambda>se.
         if length s = 8 then Some (h, mi, se, 0)
         else if s ! 8 = CHR ''.'' \<or> s ! 8 = CHR '','' then
           opt_bind (parse_micros (drop 9 s)) (\<lambda>us. Some (h, mi, se, us))
         else None)))"

definition is_sign :: "char \<Rightarrow> bool" where
  "is_sign c \<longleftrightarrow> c = CHR ''+'' \<or> c = CHR ''-''"

text \<open>A time with its offset in microseconds, if it has one.\<close>

definition parse_time :: "string \<Rightarrow> ((nat \<times> nat \<times> nat \<times> nat) \<times> int option) option" where
  "parse_time s =
     (let clock = takeWhile (\<lambda>c. \<not> is_sign c) s; zone = dropWhile (\<lambda>c. \<not> is_sign c) s in
      opt_bind (parse_clock clock) (\<lambda>(h, mi, se, us).
        if \<not> time_ok h mi se us then None
        else case zone of
          [] \<Rightarrow> Some ((h, mi, se, us), None)
        | c # z \<Rightarrow> opt_bind (parse_clock z) (\<lambda>(zh, zm, zs, zu).
            let off = ((int zh * 60 + int zm) * 60 + int zs) * 1000000 + int zu in
            if off < 24 * 3600 * 1000000 \<and> zm < 60 \<and> zs < 60
            then Some ((h, mi, se, us), Some (if c = CHR ''-'' then - off else off)) else None)))"

definition fromisoformat :: "string \<Rightarrow> (datetime \<times> int option) option" where
  "fromisoformat s =
     opt_bind (parse_date (take 10 s)) (\<lambda>(y, m, d).
       let mk = (\<lambda>(h, mi, se, us). \<lparr>dt_year = y, dt_month = m, dt_day = d, dt_hour = h, dt_minute = mi,
                   dt_second = se, dt_micro = us\<rparr>) in
       if length s = 10 then Some (mk (0, 0, 0, 0), None)
       else opt_bind (parse_time (drop 11 s)) (\<lambda>(t, off). Some (mk t, off)))"

text \<open>\<^verbatim>\<open>ts.replace("Z", "+00:00")\<close>\<close>

definition expand_z :: "string \<Rightarrow> string" where
  "expand_z s = concat (map (\<lambda>c. if c = CHR ''Z'' then ''+00:00'' else [c]) s)"

subsection \<open>\<^verbatim>\<open>isoformat\<close>\<close>

definition isoformat :: "datetime \<Rightarrow> string" where
  "isoformat t = pad 4 (dt_year t) @ ''-'' @ pad 2 (dt_month t) @ ''-'' @ pad 2 (dt_day t) @ ''T'' @
     pad 2 (dt_hour t) @ '':'' @ pad 2 (dt_minute t) @ '':'' @ pad 2 (dt_second t) @
     (if dt_micro t = 0 then [] else ''.'' @ pad 6 (dt_micro t)) @ ''+00:00''"

lemma two_digits: "k < 100 \<Longrightarrow> digits_val (pad 2 k) = Some k"
  using digits_val_pad [of k 2] by simp

lemma parse_date_iso:
  assumes "date_ok y m d"
  shows "parse_date (pad 4 y @ ''-'' @ pad 2 m @ ''-'' @ pad 2 d) = Some (y, m, d)"
proof -
  have b: "y < 10 ^ 4" "m < 100" "d < 100"
    using assms by (auto simp: date_ok_def days_in_month_def split: if_splits)
  then have "digits_val (pad 4 y) = Some y" using digits_val_pad [of y 4] by simp
  with b assms show ?thesis by (simp add: parse_date_def two_digits nth_append)
qed

lemma parse_clock_iso:
  assumes "time_ok h mi s us"
  shows "parse_clock (pad 2 h @ '':'' @ pad 2 mi @ '':'' @ pad 2 s @ (if us = 0 then [] else ''.'' @ pad 6 us)) = Some (h, mi, s, us)"
proof -
  have b: "h < 100" "mi < 100" "s < 100" using assms by (auto simp: time_ok_def)
  have "digits_val (pad 6 us) = Some us" using assms digits_val_pad [of us 6] by (simp add: time_ok_def)
  then have "parse_micros (pad 6 us) = Some us" by (simp add: parse_micros_def)
  with b show ?thesis by (simp add: parse_clock_def two_digits nth_append)
qed

lemma pad_no_mark [simp]: "CHR ''+'' \<notin> set (pad n k)" "CHR ''-'' \<notin> set (pad n k)" "CHR ''Z'' \<notin> set (pad n k)"
  using pad_digit [of "CHR ''+''" n k] pad_digit [of "CHR ''-''" n k] pad_digit [of "CHR ''Z''" n k]
  by (auto simp: digit_val_def)

text \<open>Printing a valid UTC instant and reading it back gives the instant, with offset zero.\<close>

lemma fromisoformat_isoformat:
  assumes "datetime_ok t"
  shows "fromisoformat (isoformat t) = Some (t, Some 0)" "expand_z (isoformat t) = isoformat t"
proof -
  let ?d = "pad 4 (dt_year t) @ ''-'' @ pad 2 (dt_month t) @ ''-'' @ pad 2 (dt_day t)"
  let ?c = "pad 2 (dt_hour t) @ '':'' @ pad 2 (dt_minute t) @ '':'' @ pad 2 (dt_second t) @
     (if dt_micro t = 0 then [] else ''.'' @ pad 6 (dt_micro t))"
  have iso: "isoformat t = ?d @ ''T'' @ ?c @ ''+00:00''" by (simp add: isoformat_def)
  have ok: "date_ok (dt_year t) (dt_month t) (dt_day t)" "time_ok (dt_hour t) (dt_minute t) (dt_second t) (dt_micro t)"
    using assms by (simp_all add: datetime_ok_def)
  have c: "\<forall>x\<in>set ?c. \<not> is_sign x" by (auto simp: is_sign_def)
  have zone: "parse_clock ''00:00'' = Some (0, 0, 0, 0)" by (simp add: parse_clock_def digits_val_def digit_val_def)
  have "takeWhile (\<lambda>x. \<not> is_sign x) (?c @ ''+00:00'') = ?c" "dropWhile (\<lambda>x. \<not> is_sign x) (?c @ ''+00:00'') = ''+00:00''"
    using c takeWhile_append2 [of ?c "\<lambda>x. \<not> is_sign x" "''+00:00''"] dropWhile_append2 [of ?c "\<lambda>x. \<not> is_sign x" "''+00:00''"]
    by (simp_all add: is_sign_def)
  then have tm: "parse_time (?c @ ''+00:00'') = Some ((dt_hour t, dt_minute t, dt_second t, dt_micro t), Some 0)"
    unfolding parse_time_def Let_def using parse_clock_iso [OF ok(2)] ok(2) zone by simp
  have parts: "take 10 (isoformat t) = ?d" "drop 11 (isoformat t) = ?c @ ''+00:00''" "length (isoformat t) \<noteq> 10"
    unfolding iso by (simp_all add: nth_append)
  show "fromisoformat (isoformat t) = Some (t, Some 0)"
    unfolding fromisoformat_def parts parse_date_iso [OF ok(1)] tm using parts(3) by simp
  have "\<forall>x\<in>set (isoformat t). x \<noteq> CHR ''Z''"
    unfolding iso by auto
  then have "map (\<lambda>c. if c = CHR ''Z'' then ''+00:00'' else [c]) (isoformat t) = map (\<lambda>c. [c]) (isoformat t)"
    by (intro map_cong) auto
  moreover have "concat (map (\<lambda>c. [c]) s) = s" for s :: string by (induction s) auto
  ultimately show "expand_z (isoformat t) = isoformat t" by (simp only: expand_z_def)
qed

text \<open>Evaluation of a concrete time stamp.\<close>

lemmas iso_run = fromisoformat_def parse_date_def parse_time_def parse_clock_def parse_micros_def digits_val_def
  digit_val_def is_sign_def time_ok_def date_ok_def days_in_month_def leap_def expand_z_def

lemma fromisoformat_examples:
  "fromisoformat ''2026-07-18T10:00:00.5+00:00'' = Some (\<lparr>dt_year = 2026, dt_month = 7, dt_day = 18, dt_hour = 10,
     dt_minute = 0, dt_second = 0, dt_micro = 500000\<rparr>, Some 0)"
  "fromisoformat ''2026-02-29'' = None"
  "map_option snd (fromisoformat ''2026-02-28T10:00'') = Some None"
  by (simp_all add: iso_run)

end
