(* ===== verification/Voltage_Advice.thy ===== *)
theory Voltage_Advice
  imports Flisr_Planner Demo_Network Iso_Time
begin

text \<open>
  The voltage estimate and the rule-based Volt/VAR advice of \<^verbatim>\<open>src/fastapi/routers/dms.py\<close>: fresh
  telemetry per device, the load aggregated down the closed edges, the drop along the parents, and
  the nodes outside their band.
\<close>

definition drop_pu_per_kw :: rat where "drop_pu_per_kw = 8 / 100000"
definition vv_pu_low :: rat where "vv_pu_low = 95 / 100"
definition vv_pu_high :: rat where "vv_pu_high = 105 / 100"
definition vv_lv_low :: rat where "vv_lv_low = 216"
definition vv_lv_high :: rat where "vv_lv_high = 253"
definition telemetry_fresh_s :: rat where "telemetry_fresh_s = 600"

subsection \<open>Measurements and loads\<close>

definition fresh_reading :: "db \<Rightarrow> string option \<Rightarrow> telemetry option" where
  "fresh_reading s dev = opt_bind (given dev) (\<lambda>d. opt_bind (latest_telemetry s d) (\<lambda>t.
     if now s - t_time t \<le> telemetry_fresh_s then Some t else None))"

text \<open>\<^verbatim>\<open>float(m.get("grid_import_kw") or m.get("power_kw") or 0.0)\<close>, not below zero.\<close>

definition nonzero :: "rat option \<Rightarrow> rat option" where
  "nonzero x = (case x of Some v \<Rightarrow> if v = 0 then None else Some v | None \<Rightarrow> None)"

definition reading_load :: "telemetry option \<Rightarrow> rat" where
  "reading_load m = (case m of None \<Rightarrow> 0 | Some t \<Rightarrow>
     max (case nonzero (t_grid_import_kw t) of Some v \<Rightarrow> v
        | None \<Rightarrow> (case nonzero (t_power_kw t) of Some v \<Rightarrow> v | None \<Rightarrow> 0)) 0)"

definition node_load :: "db \<Rightarrow> (string \<times> rat) list" where
  "node_load s = map (\<lambda>n. (node_id n, reading_load (fresh_reading s (node_device n)))) (grid_nodes s)"

subsection \<open>The load below a node\<close>

text \<open>
  The memoised search: \<open>agg\<close> is the memo, \<open>seen\<close> the nodes entered in this search. The first argument
  bounds the depth; \<open>None\<close> would be a search that is cut off, which \<open>subtree_list_total\<close> excludes.
\<close>

type_synonym memo = "(string \<times> rat) list \<times> string list"

fun subtree_list :: "nat \<Rightarrow> (string \<Rightarrow> string list) \<Rightarrow> (string \<Rightarrow> rat) \<Rightarrow> string list \<Rightarrow> memo \<Rightarrow> (rat \<times> memo) option" where
  "subtree_list d ch ld [] m = Some (0, m)"
| "subtree_list 0 ch ld (n # ns) m = None"
| "subtree_list (Suc d) ch ld (n # ns) (agg, seen) =
     opt_bind
       (case map_of agg n of
          Some v \<Rightarrow> Some (v, (agg, seen))
        | None \<Rightarrow>
            if n \<in> set seen then Some (0, (agg, seen))
            else opt_bind (subtree_list d ch ld (ch n) (agg, n # seen)) (\<lambda>(below, (agg', seen')).
                   Some (ld n + below, ((n, ld n + below) # agg', seen'))))
       (\<lambda>(v, m'). opt_bind (subtree_list (Suc d) ch ld ns m') (\<lambda>(rest, m''). Some (v + rest, m'')))"

lemma subtree_list_seen: "subtree_list d ch ld ns m = Some (v, m') \<Longrightarrow> set (snd m) \<subseteq> set (snd m')"
proof (induction d ch ld ns m arbitrary: v m' rule: subtree_list.induct)
  case (3 d ch ld n ns agg seen)
  then show ?case
    by (fastforce simp: opt_bind_def split: option.splits prod.splits if_splits)
qed simp_all

lemma subtree_list_total:
  assumes "finite U"
  shows "(\<And>n. n \<in> U \<Longrightarrow> set (ch n) \<subseteq> U) \<Longrightarrow> set ns \<subseteq> U \<Longrightarrow> card (U - set (snd m)) < d
    \<Longrightarrow> \<exists>r. subtree_list d ch ld ns m = Some r"
proof (induction d ch ld ns m rule: subtree_list.induct)
  case (3 d ch ld n ns agg seen)
  note cl = 3(3)
  have n: "n \<in> U" and ns: "set ns \<subseteq> U" using 3(4) by auto
  have first: "\<exists>v m'. (case map_of agg n of
          Some v \<Rightarrow> Some (v, (agg, seen))
        | None \<Rightarrow>
            if n \<in> set seen then Some (0, (agg, seen))
            else opt_bind (subtree_list d ch ld (ch n) (agg, n # seen)) (\<lambda>(below, (agg', seen')).
                   Some (ld n + below, ((n, ld n + below) # agg', seen')))) = Some (v, m')
       \<and> set seen \<subseteq> set (snd m')"
  proof (cases "map_of agg n")
    case None
    show ?thesis
    proof (cases "n \<in> set seen")
      case False
      have "U - set (n # seen) \<subset> U - set seen" using n False by auto
      then have "card (U - set (n # seen)) < card (U - set seen)"
        by (rule psubset_card_mono [rotated]) (use assms(1) in simp)
      then have "card (U - set (snd (agg, n # seen))) < d" using 3(5) by simp
      then obtain b a' s' where r: "subtree_list d ch ld (ch n) (agg, n # seen) = Some (b, a', s')"
        using 3(1) [OF None False cl cl [OF n]] by (metis prod_cases3)
      then have "set (n # seen) \<subseteq> set s'" using subtree_list_seen [OF r] by simp
      with None False r show ?thesis by simp
    qed (use None in simp)
  qed simp
  then obtain v m' where v: "(case map_of agg n of
          Some v \<Rightarrow> Some (v, (agg, seen))
        | None \<Rightarrow>
            if n \<in> set seen then Some (0, (agg, seen))
            else opt_bind (subtree_list d ch ld (ch n) (agg, n # seen)) (\<lambda>(below, (agg', seen')).
                   Some (ld n + below, ((n, ld n + below) # agg', seen')))) = Some (v, m')"
       and s: "set seen \<subseteq> set (snd m')" by blast
  have "card (U - set (snd m')) \<le> card (U - set seen)"
    using s assms by (intro card_mono) auto
  then have "card (U - set (snd m')) < Suc d" using 3(5) by simp
  then obtain r where "subtree_list (Suc d) ch ld ns m' = Some r" using 3(2) [OF cl ns, of m'] by blast
  then show ?case unfolding subtree_list.simps v by (cases r) simp
qed auto

definition children :: "grid_edge list \<Rightarrow> string \<Rightarrow> string list" where
  "children es n = map to_node (filter (\<lambda>e. is_closed e \<and> from_node e = n) es)"

definition load_of :: "db \<Rightarrow> string \<Rightarrow> rat" where
  "load_of s n = dict_get (node_load s) n 0"

text \<open>Every node and every end of an edge.\<close>

definition known_ids :: "db \<Rightarrow> string list" where
  "known_ids s = remdups (map node_id (grid_nodes s) @ map to_node (grid_edges s))"

text \<open>\<^verbatim>\<open>for n in nodes: subtree_load(n, set())\<close>: one memo, a fresh \<^verbatim>\<open>seen\<close> per node.\<close>

fun aggregate :: "db \<Rightarrow> string list \<Rightarrow> (string \<times> rat) list \<Rightarrow> (string \<times> rat) list option" where
  "aggregate s [] agg = Some agg"
| "aggregate s (n # ns) agg =
     opt_bind (subtree_list (Suc (length (known_ids s))) (children (grid_edges s)) (load_of s) [n] (agg, []))
       (\<lambda>(_, (agg', _)). aggregate s ns agg')"

lemma aggregate_total: "set ns \<subseteq> set (known_ids s) \<Longrightarrow> \<exists>agg'. aggregate s ns agg = Some agg'"
proof (induction ns arbitrary: agg)
  case (Cons n ns)
  have "card (set (known_ids s) - set (snd (agg, []))) < Suc (length (known_ids s))"
    using card_length [of "known_ids s"] by simp
  moreover have "set (children (grid_edges s) m) \<subseteq> set (known_ids s)" for m
    by (auto simp: children_def known_ids_def)
  ultimately have "\<exists>r. subtree_list (Suc (length (known_ids s))) (children (grid_edges s)) (load_of s) [n] (agg, []) = Some r"
    using Cons.prems by (intro subtree_list_total [of "set (known_ids s)"]) auto
  then obtain v agg' seen' where
    "subtree_list (Suc (length (known_ids s))) (children (grid_edges s)) (load_of s) [n] (agg, []) = Some (v, agg', seen')"
    by (metis prod_cases3)
  moreover obtain a where "aggregate s ns agg' = Some a" using Cons by fastforce
  ultimately show ?case by simp
qed simp

definition downstream_load :: "db \<Rightarrow> (string \<times> rat) list" where
  "downstream_load s = (case aggregate s (map node_id (grid_nodes s)) [] of Some agg \<Rightarrow> agg | None \<Rightarrow> [])"

subsection \<open>The estimate\<close>

text \<open>The way up to a substation, at most 100 nodes.\<close>

fun chain_up :: "nat \<Rightarrow> grid_node list \<Rightarrow> string option \<Rightarrow> string list" where
  "chain_up 0 ns c = []"
| "chain_up (Suc g) ns None = []"
| "chain_up (Suc g) ns (Some c) = c # (case find (\<lambda>n. node_id n = c) ns of
       None \<Rightarrow> []
     | Some n \<Rightarrow> if node_type n = ''substation'' then [] else chain_up g ns (parent_id n))"

definition pu_of :: "grid_node list \<Rightarrow> (string \<times> rat) list \<Rightarrow> string \<Rightarrow> rat" where
  "pu_of ns agg n = py_round 4 (fold (\<lambda>k v. v - drop_pu_per_kw * dict_get agg k 0) (rev (chain_up 100 ns (Some n))) 1)"

record node_state =
  ns_node :: grid_node
  ns_energized :: bool
  ns_monitored :: bool
  ns_voltage :: "rat option"
  ns_power :: "rat option"
  ns_downstream :: rat
  ns_pu :: rat

definition estimate_state :: "db \<Rightarrow> node_state list" where
  "estimate_state s =
     (let agg = downstream_load s; live = energized_set (grid_edges s) (substations s) in
      map (\<lambda>n. let m = fresh_reading s (node_device n) in
        \<lparr>ns_node = n, ns_energized = (node_id n \<in> live), ns_monitored = (m \<noteq> None),
         ns_voltage = map_option (py_round 2) (opt_bind m t_voltage),
         ns_power = map_option (py_round 2) (opt_bind m t_power_kw),
         ns_downstream = py_round 2 (dict_get agg (node_id n) 0),
         ns_pu = pu_of (grid_nodes s) agg (node_id n)\<rparr>) (grid_nodes s))"

subsection \<open>Volt/VAR advice\<close>

text \<open>\<^verbatim>\<open>str\<close> of a float with at most four decimals, between a ten-thousandth and 10 to the 16.\<close>

definition float_text :: "rat \<Rightarrow> string" where
  "float_text x =
     (let a = \<bar>x\<bar>; i = nat \<lfloor>a\<rfloor>; f = nat \<lfloor>(a - of_nat i) * 10000\<rfloor>;
          ds = rev (dropWhile (\<lambda>c. c = CHR ''0'') (rev (pad 4 f)))
      in (if x < 0 then ''-'' else []) @ num_text i @ ''.'' @ (if ds = [] then ''0'' else ds))"

record advice =
  ad_node :: string
  ad_name :: "string option"
  ad_issue :: msg
  ad_raise :: bool
  ad_action :: string

definition advise :: "node_state \<Rightarrow> advice option" where
  "advise e =
     (let mk = (\<lambda>fmt args up act. Some \<lparr>ad_node = node_id (ns_node e), ad_name = node_name (ns_node e),
                  ad_issue = Fmt fmt args, ad_raise = up, ad_action = act\<rparr>)
      in if \<not> ns_energized e then None
         else case ns_voltage e of
           Some v \<Rightarrow>
             if v < vv_lv_low then mk ''measured {} V < {} V'' [float_text v, float_text vv_lv_low] True
               ''tap up / cap bank in or DER VAR support''
             else if vv_lv_high < v then mk ''measured {} V > {} V'' [float_text v, float_text vv_lv_high] False
               ''tap down / curtail DER export''
             else None
         | None \<Rightarrow>
             if ns_pu e < vv_pu_low then mk ''estimated {} pu < {} pu'' [float_text (ns_pu e), float_text vv_pu_low] True
               ''tap up / cap bank in''
             else if vv_pu_high < ns_pu e then mk ''estimated {} pu > {} pu'' [float_text (ns_pu e), float_text vv_pu_high] False
               ''tap down / curtail DER export''
             else None)"

definition voltvar_recommendations :: "db \<Rightarrow> advice list" where
  "voltvar_recommendations s = concat (map (\<lambda>e. case advise e of None \<Rightarrow> [] | Some a \<Rightarrow> [a]) (estimate_state s))"

text \<open>Loads are never negative, so the estimate never exceeds one per unit: only a measured voltage is too high.\<close>

lemma reading_load_nonneg: "0 \<le> reading_load m"
  by (simp add: reading_load_def split: option.splits)

lemma load_of_nonneg: "0 \<le> load_of s n"
proof -
  have "map_of (node_load s) n = Some v \<Longrightarrow> 0 \<le> v" for v
    using reading_load_nonneg by (auto simp: node_load_def dest!: map_of_SomeD)
  then show ?thesis by (auto simp: load_of_def dict_get_def split: option.splits)
qed

lemma subtree_list_nonneg:
  "(\<And>n. 0 \<le> ld n) \<Longrightarrow> (\<And>k v. (k, v) \<in> set (fst m) \<Longrightarrow> 0 \<le> v) \<Longrightarrow> subtree_list d ch ld ns m = Some (v, m')
     \<Longrightarrow> 0 \<le> v \<and> (\<forall>k v. (k, v) \<in> set (fst m') \<longrightarrow> 0 \<le> v)"
proof (induction d ch ld ns m arbitrary: v m' rule: subtree_list.induct)
  case (3 d ch ld n ns agg seen)
  note prem = 3(3,4,5)
  obtain v1 m1 v2 where first: "(case map_of agg n of
          Some v \<Rightarrow> Some (v, (agg, seen))
        | None \<Rightarrow>
            if n \<in> set seen then Some (0, (agg, seen))
            else opt_bind (subtree_list d ch ld (ch n) (agg, n # seen)) (\<lambda>(below, (agg', seen')).
                   Some (ld n + below, ((n, ld n + below) # agg', seen')))) = Some (v1, m1)"
      and rest: "subtree_list (Suc d) ch ld ns m1 = Some (v2, m')" and v: "v = v1 + v2"
    using prem(3) unfolding subtree_list.simps(3) by (auto simp: opt_bind_def split: option.splits prod.splits if_splits)
  have one: "0 \<le> v1 \<and> (\<forall>k v. (k, v) \<in> set (fst m1) \<longrightarrow> 0 \<le> v)"
  proof (cases "map_of agg n")
    case None
    show ?thesis
    proof (cases "n \<in> set seen")
      case False
      obtain b a' s' where r: "subtree_list d ch ld (ch n) (agg, n # seen) = Some (b, a', s')"
        using first None False by (auto simp: opt_bind_def split: option.splits)
      have ih: "0 \<le> b \<and> (\<forall>k v. (k, v) \<in> set (fst (a', s')) \<longrightarrow> 0 \<le> v)"
        by (rule 3(1) [OF None False prem(1) _ r]) (use prem(2) in auto)
      then show ?thesis using first None False r prem(1) [of n] by auto
    qed (use first None prem(2) in auto)
  next
    case (Some w)
    then have "0 \<le> w" using prem(2) by (auto dest!: map_of_SomeD)
    with first Some prem(2) show ?thesis by auto
  qed
  have "0 \<le> v2 \<and> (\<forall>k v. (k, v) \<in> set (fst m') \<longrightarrow> 0 \<le> v)"
    by (rule 3(2) [OF prem(1) _ rest]) (use one in auto)
  with one v show ?case by simp
qed auto

lemma aggregate_nonneg:
  "aggregate s ns agg = Some agg' \<Longrightarrow> (\<And>k v. (k, v) \<in> set agg \<Longrightarrow> 0 \<le> v) \<Longrightarrow> (k, v) \<in> set agg' \<Longrightarrow> 0 \<le> v"
proof (induction ns arbitrary: agg)
  case (Cons n ns)
  obtain w a1 seen where 1: "subtree_list (Suc (length (known_ids s))) (children (grid_edges s)) (load_of s) [n] (agg, []) = Some (w, a1, seen)"
    and 2: "aggregate s ns a1 = Some agg'"
    using Cons.prems(1) by (auto simp: opt_bind_def split: option.splits)
  have "0 \<le> w \<and> (\<forall>k v. (k, v) \<in> set (fst (a1, seen)) \<longrightarrow> 0 \<le> v)"
    by (rule subtree_list_nonneg [OF load_of_nonneg _ 1]) (use Cons.prems(2) in auto)
  then show ?case using Cons.IH [OF 2 _ Cons.prems(3)] by auto
qed simp

lemma downstream_nonneg: "0 \<le> dict_get (downstream_load s) n 0"
proof -
  obtain agg where a: "aggregate s (map node_id (grid_nodes s)) [] = Some agg"
    using aggregate_total [of "map node_id (grid_nodes s)" s "[]"] by (auto simp: known_ids_def)
  have "0 \<le> v" if "map_of agg n = Some v" for v
    using aggregate_nonneg [OF a] map_of_SomeD [OF that] by auto
  with a show ?thesis by (auto simp: downstream_load_def dict_get_def split: option.splits)
qed

lemma fold_drop_le: "(\<And>k. 0 \<le> f k) \<Longrightarrow> fold (\<lambda>k v. v - f k) xs (x::rat) \<le> x"
proof (induction xs arbitrary: x)
  case (Cons k xs)
  have "fold (\<lambda>k v. v - f k) xs (x - f k) \<le> x - f k" by (rule Cons.IH) (rule Cons.prems)
  with Cons.prems [of k] show ?case by simp
qed simp

lemma pu_at_most_one: "pu_of ns (downstream_load s) n \<le> 1"
proof -
  have "fold (\<lambda>k v. v - drop_pu_per_kw * dict_get (downstream_load s) k 0) (rev (chain_up 100 ns (Some n))) 1 \<le> 1"
    by (rule fold_drop_le) (simp add: drop_pu_per_kw_def downstream_nonneg)
  then have "pu_of ns (downstream_load s) n \<le> py_round 4 1" unfolding pu_of_def by (rule py_round_mono)
  also have "py_round 4 1 = 1" using round_even_of_int [of 10000] by (simp add: py_round_def)
  finally show ?thesis .
qed

text \<open>
  the estimator gives every node of the model, in order, a voltage of at most one per unit,
  whatever loops the network has; so the advice asks to lower a voltage only where it was measured, and
  is given for exactly the energized nodes out of their band.
\<close>

theorem voltage_advice_sound:
  "map (node_id \<circ> ns_node) (estimate_state s) = node_ids s \<and>
   list_all (\<lambda>e. ns_pu e \<le> 1 \<and>
     (advise e \<noteq> None \<longleftrightarrow> ns_energized e \<and> (case ns_voltage e of
        Some v \<Rightarrow> v < vv_lv_low \<or> vv_lv_high < v | None \<Rightarrow> ns_pu e < vv_pu_low)) \<and>
     (case advise e of Some a \<Rightarrow> ad_raise a \<or> ns_voltage e \<noteq> None | None \<Rightarrow> True)) (estimate_state s)"
proof
  show "map (node_id \<circ> ns_node) (estimate_state s) = node_ids s"
    by (simp add: estimate_state_def Let_def node_ids_def)
  have pu: "ns_pu e \<le> 1" if "e \<in> set (estimate_state s)" for e
    using that pu_at_most_one by (auto simp: estimate_state_def Let_def)
  have band: "(1::rat) < vv_pu_high" "vv_lv_low < vv_lv_high" by (simp_all add: vv_pu_high_def vv_lv_low_def vv_lv_high_def)
  show "list_all (\<lambda>e. ns_pu e \<le> 1 \<and>
     (advise e \<noteq> None \<longleftrightarrow> ns_energized e \<and> (case ns_voltage e of
        Some v \<Rightarrow> v < vv_lv_low \<or> vv_lv_high < v | None \<Rightarrow> ns_pu e < vv_pu_low)) \<and>
     (case advise e of Some a \<Rightarrow> ad_raise a \<or> ns_voltage e \<noteq> None | None \<Rightarrow> True)) (estimate_state s)"
    unfolding list_all_iff
  proof
    fix e assume "e \<in> set (estimate_state s)"
    then have "\<not> vv_pu_high < ns_pu e" "ns_pu e \<le> 1" using pu band(1) by fastforce+
    then show "ns_pu e \<le> 1 \<and>
     (advise e \<noteq> None \<longleftrightarrow> ns_energized e \<and> (case ns_voltage e of
        Some v \<Rightarrow> v < vv_lv_low \<or> vv_lv_high < v | None \<Rightarrow> ns_pu e < vv_pu_low)) \<and>
     (case advise e of Some a \<Rightarrow> ad_raise a \<or> ns_voltage e \<noteq> None | None \<Rightarrow> True)"
      by (auto simp: advise_def Let_def split: option.splits)
  qed
qed

theorem voltage_advice_sound_witness:
  "map (node_id \<circ> ns_node) (estimate_state parallel_db) = [''S1'', ''S2'', ''A'', ''B'', ''C'']"
  using conjunct1 [OF voltage_advice_sound [of parallel_db]]
  by (simp add: parallel_db_def demo_db_def node_ids_def mk_node_def)

end
