(* ===== verification/Automation.thy ===== *)
theory Automation
  imports Control_Registry Voltage_Advice
begin

text \<open>
  The closed-loop automation engine, \<^verbatim>\<open>src/fastapi/routers/automation.py\<close>, with its three policies
  (the demonstrator, \<^verbatim>\<open>auto_flisr.py\<close>, \<^verbatim>\<open>auto_voltvar.py\<close>). A tick evaluates the enabled policies;
  each proposal becomes a governed control action through the same operations operators use.
\<close>

subsection \<open>Policies and proposals\<close>

record proposal =
  pr_type :: string
  pr_target :: "string option"
  pr_params :: pyval
  pr_mode :: action_mode
  pr_trigger :: pyval
  pr_reason :: string

record auto_policy =
  ap_kind :: string
  ap_evaluate :: "automation_policy \<Rightarrow> db \<Rightarrow> proposal list result"
  ap_within :: "pyval \<Rightarrow> pyval \<Rightarrow> (bool \<times> string) result"

type_synonym policies = "(string \<times> auto_policy) list"

definition automation_enabled :: "string option \<Rightarrow> bool" where
  "automation_enabled v = flag_on v ''false''"

definition requester :: "string \<Rightarrow> string" where
  "requester pid = ''automation:'' @ pid"

definition sys_actor :: "string \<Rightarrow> principal" where
  "sys_actor suffix = \<lparr>p_name = ''automation:'' @ suffix, p_role = Admin, p_tenant = None\<rparr>"

text \<open>\<^verbatim>\<open>(policy.get("bounds") or {}).get(k, default)\<close>\<close>

definition bound_get :: "pyval \<Rightarrow> string \<Rightarrow> pyval \<Rightarrow> pyval result" where
  "bound_get b k dflt = (if \<not> truthy b then Inr dflt
     else case b of PDict d \<Rightarrow> Inr (dict_get d k dflt) | _ \<Rightarrow> Inl (AttrErr (Fmt ''object has no attribute get'' [])))"

text \<open>\<^verbatim>\<open>xs[:k]\<close>\<close>

definition slice_to :: "int \<Rightarrow> 'a list \<Rightarrow> 'a list" where
  "slice_to k xs = take (if 0 \<le> k then nat k else length xs - nat (- k)) xs"

subsection \<open>Events, cooldown and the circuit breaker\<close>

definition add_event :: "string \<Rightarrow> string \<Rightarrow> string \<Rightarrow> pyval \<Rightarrow> uuid option \<Rightarrow> pyval \<Rightarrow> string \<Rightarrow> unit run" where
  "add_event pid kind decision trigger aid detail tenant s =
     (if jsonb_ok trigger \<and> jsonb_ok detail
      then (Inr (), s\<lparr>automation_events := automation_events s @
        [\<lparr>ev_policy = pid, ev_kind = kind, ev_decision = decision, ev_trigger = trigger, ev_action = aid,
          ev_detail = detail, ev_tenant = tenant, ev_version = current_model_version s, ev_at = now s\<rparr>]\<rparr>)
      else (Inl bad_json, s))"

definition put_policy :: "string \<Rightarrow> (automation_policy \<Rightarrow> automation_policy) \<Rightarrow> db \<Rightarrow> db" where
  "put_policy pid f s = s\<lparr>automation_policies := update_where (\<lambda>p. policy_id p = pid) f (automation_policies s)\<rparr>"

definition find_policy :: "db \<Rightarrow> string \<Rightarrow> automation_policy option" where
  "find_policy s pid = find (\<lambda>p. policy_id p = pid) (automation_policies s)"

definition cooldown_active :: "automation_policy \<Rightarrow> db \<Rightarrow> bool result" where
  "cooldown_active p s = bindR (bound_get (policy_bounds p) ''cooldown_s'' (PInt 0)) (\<lambda>v.
     bindR (py_float (if truthy v then v else PInt 0)) (\<lambda>cd. Inr (
       if fl_le cd (Fin 0) then False
       else case last_run_at p of None \<Rightarrow> False | Some t \<Rightarrow> fl_less (Fin (now s - t)) cd)))"

definition trip_threshold :: nat where
  "trip_threshold = 3"

definition trip :: "string \<Rightarrow> bool \<Rightarrow> unit run" where
  "trip pid v = modify (put_policy pid (policy_tripped_update (\<lambda>_. v)))"

definition bump_failures :: "string \<Rightarrow> bool \<Rightarrow> nat run" where
  "bump_failures pid reset s =
     (if reset then (Inr 0, put_policy pid (consecutive_failures_update (\<lambda>_. 0)) s)
      else let s' = put_policy pid (consecutive_failures_update Suc) s in
        (Inr (case find_policy s' pid of Some p \<Rightarrow> consecutive_failures p | None \<Rightarrow> 0), s'))"

subsection \<open>One proposal\<close>

definition bounds_or_empty :: "automation_policy \<Rightarrow> pyval" where
  "bounds_or_empty p = (if truthy (policy_bounds p) then policy_bounds p else PDict [])"

text \<open>The governed execution: approval by a second system identity when high risk, then execution.\<close>

definition auto_execute :: "registry \<Rightarrow> field_env \<Rightarrow> string \<Rightarrow> uuid \<Rightarrow> risk_class \<Rightarrow> control_action run" where
  "auto_execute H env pid aid risk =
     bindS (if risk = High
            then bindS (approve (Some (sys_actor ''supervisor'')) aid (Some (requester pid))) (\<lambda>_. ret ())
            else ret ()) (\<lambda>_.
     bindS (execute_action H env (Some (sys_actor pid)) aid) (\<lambda>a.
       if action_status a = EXECUTED then ret a
       else fail (RuntimeError (Fmt ''unexpected post-execute status {}'' [status_name (action_status a)]))))"

text \<open>\<^verbatim>\<open>str(exc)[:200]\<close>; an \<^verbatim>\<open>HTTPException\<close> prints its status first.\<close>

definition short_text :: "exn \<Rightarrow> pyval" where
  "short_text e = PStr (take 200 ((case e of HTTPException c _ \<Rightarrow> num_text c @ '': '' | _ \<Rightarrow> []) @ msg_text (exn_msg e)))"

definition opt_json_val :: "pyval option \<Rightarrow> pyval" where
  "opt_json_val x = (case x of None \<Rightarrow> PNone | Some v \<Rightarrow> v)"

definition auto_run :: "registry \<Rightarrow> field_env \<Rightarrow> automation_policy \<Rightarrow> auto_policy \<Rightarrow> proposal \<Rightarrow> uuid \<Rightarrow> risk_class
    \<Rightarrow> (string \<times> uuid option) run" where
  "auto_run H env p P prop aid risk s =
     (let pid = policy_id p; event = (\<lambda>decision detail. add_event pid (ap_kind P) decision (pr_trigger prop) (Some aid) detail (policy_tenant p)) in
      case (case auto_execute H env pid aid risk s of
              (Inl e, s1) \<Rightarrow> (Inl e, s1)
            | (Inr a, s1) \<Rightarrow> bindS (bump_failures pid True) (\<lambda>_. event ''executed''
                 (PDict [(''risk'', PStr (risk_name risk)), (''after_state'', opt_json_val (after_state a))])) s1) of
        (Inr _, s2) \<Rightarrow> (Inr (''executed'', Some aid), s2)
      | (Inl e, s2) \<Rightarrow>
          bindS (bump_failures pid False) (\<lambda>fails.
            let tripped = trip_threshold \<le> fails; decision = (if tripped then ''tripped'' else ''failed'') in
            bindS (if tripped then trip pid True else ret ()) (\<lambda>_.
            bindS (event decision (PDict [(''error'', short_text e), (''consecutive_failures'', PInt (int fails))])) (\<lambda>_.
              ret (decision, Some aid)))) s2)"

definition run_proposal :: "registry \<Rightarrow> field_env \<Rightarrow> automation_policy \<Rightarrow> auto_policy \<Rightarrow> proposal
    \<Rightarrow> (string \<times> uuid option) run" where
  "run_proposal H env p P prop s =
     (let pid = policy_id p; event = (\<lambda>decision aid detail. add_event pid (ap_kind P) decision (pr_trigger prop) aid detail (policy_tenant p)) in
      case submit_action H (pr_type prop) (pr_target prop) (pr_params prop) (pr_mode prop) (Some (pr_reason prop))
             (requester pid) (policy_tenant p) s of
        (Inl e, s1) \<Rightarrow>
          if is_http e then bindS (event ''blocked'' None (PDict [(''error'', PStr (msg_text (exn_msg e)))]))
                              (\<lambda>_. ret (''blocked'', None)) s1
          else (Inl e, s1)
      | (Inr (a, risk, preview), s1) \<Rightarrow>
          if policy_mode p = ''recommend''
          then bindS (event ''proposed'' (Some (action_id a))
                 (PDict [(''risk'', PStr (risk_name risk)), (''preview'', preview), (''mode'', PStr (mode_name (action_mode a)))]))
               (\<lambda>_. ret (''proposed'', Some (action_id a))) s1
          else bindS (lift (\<lambda>_. ap_within P preview (bounds_or_empty p))) (\<lambda>(ok, why).
            if \<not> ok
            then bindS (event ''blocked'' (Some (action_id a)) (PDict [(''out_of_bounds'', PStr why), (''preview'', preview)]))
                   (\<lambda>_. ret (''blocked'', Some (action_id a)))
            else if \<not> controls_enabled env
            then bindS (event ''blocked'' (Some (action_id a)) (PDict [(''reason'', PStr ''OC_CONTROLS_ENABLED=false'')]))
                   (\<lambda>_. ret (''blocked'', Some (action_id a)))
            else auto_run H env p P prop (action_id a) risk) s1)"

subsection \<open>The tick\<close>

type_synonym tick_result = "(string \<times> string \<times> uuid option) list"

fun run_proposals :: "registry \<Rightarrow> field_env \<Rightarrow> automation_policy \<Rightarrow> auto_policy \<Rightarrow> proposal list \<Rightarrow> tick_result run" where
  "run_proposals H env p P [] = ret []"
| "run_proposals H env p P (x # xs) = bindS (run_proposal H env p P x) (\<lambda>(d, aid).
     bindS (run_proposals H env p P xs) (\<lambda>rs. ret ((policy_id p, d, aid) # rs)))"

definition run_policy :: "registry \<Rightarrow> policies \<Rightarrow> field_env \<Rightarrow> automation_policy \<Rightarrow> tick_result run" where
  "run_policy H Ps env p s =
     (case map_of Ps (policy_kind p) of
        None \<Rightarrow> bindS (add_event (policy_id p) (policy_kind p) ''skipped'' (PDict []) None
                        (PDict [(''reason'', PStr ''no policy handler registered'')]) (policy_tenant p)) (\<lambda>_. ret []) s
      | Some P \<Rightarrow>
          bindS (lift (cooldown_active p)) (\<lambda>cool.
            if cool then ret [(policy_id p, ''skipped'', None)]
            else bindS (lift (ap_evaluate P p)) (\<lambda>props.
                 bindS (lift (\<lambda>_. bindR (bound_get (policy_bounds p) ''max_per_tick'' (PInt 1)) py_int)) (\<lambda>k.
                   if slice_to k props = [] then ret []
                   else bindS (\<lambda>s. modify (put_policy (policy_id p) (last_run_at_update (\<lambda>_. Some (now s)))) s) (\<lambda>_.
                        run_proposals H env p P (slice_to k props))))) s)"

fun run_policies :: "registry \<Rightarrow> policies \<Rightarrow> field_env \<Rightarrow> automation_policy list \<Rightarrow> tick_result run" where
  "run_policies H Ps env [] = ret []"
| "run_policies H Ps env (p # ps) = bindS (run_policy H Ps env p) (\<lambda>r.
     bindS (run_policies H Ps env ps) (\<lambda>rs. ret (r @ rs)))"

definition enabled_policies :: "db \<Rightarrow> automation_policy list" where
  "enabled_policies s = sort_key policy_id (filter (\<lambda>p. policy_enabled p \<and> \<not> policy_tripped p) (automation_policies s))"

definition run_tick :: "registry \<Rightarrow> policies \<Rightarrow> field_env \<Rightarrow> tick_result run" where
  "run_tick H Ps env s = run_policies H Ps env (enabled_policies s) s"

text \<open>The endpoint; \<open>None\<close> is a tick that did not run.\<close>

definition tick :: "registry \<Rightarrow> policies \<Rightarrow> string option \<Rightarrow> field_env \<Rightarrow> principal option \<Rightarrow> tick_result option run" where
  "tick H Ps flag env po = bindS (lift (\<lambda>_. require_role [Admin, Service] po)) (\<lambda>_.
     if \<not> automation_enabled flag then ret None
     else bindS (run_tick H Ps env) (\<lambda>r. ret (Some r)))"

subsection \<open>Configuration\<close>

definition patched :: "bool option \<Rightarrow> string option \<Rightarrow> bool \<Rightarrow> automation_policy \<Rightarrow> automation_policy" where
  "patched en mode reset p =
     (let p1 = (case en of None \<Rightarrow> p | Some b \<Rightarrow> p\<lparr>policy_enabled := b\<rparr>);
          p2 = (case mode of None \<Rightarrow> p1 | Some m \<Rightarrow> p1\<lparr>policy_mode := m\<rparr>)
      in if reset then p2\<lparr>policy_tripped := False, consecutive_failures := 0\<rparr> else p2)"

definition opt_entry :: "string \<Rightarrow> pyval option \<Rightarrow> (string \<times> pyval) list" where
  "opt_entry k v = (case v of None \<Rightarrow> [] | Some x \<Rightarrow> [(k, x)])"

definition patch_policy :: "principal option \<Rightarrow> string \<Rightarrow> bool option \<Rightarrow> string option \<Rightarrow> bool option \<Rightarrow> automation_policy option run" where
  "patch_policy po pid en mode reset = bindS (lift (\<lambda>_. require_role [Engineer, Admin] po)) (\<lambda>pr s.
     case find_policy s pid of
       None \<Rightarrow> http 404 ''policy not found'' [] s
     | Some pol \<Rightarrow>
         if mode \<notin> {None, Some ''recommend'', Some ''auto''} then http 422 ''mode must be recommend or auto'' [] s
         else if en = None \<and> mode = None \<and> reset \<noteq> Some True then http 422 ''nothing to update'' [] s
         else bindS (modify (put_policy pid (patched en mode (reset = Some True)))) (\<lambda>_.
              bindS (add_event pid (policy_kind pol) ''config'' (PDict []) None
                (PDict [(''change'', PDict (opt_entry ''enabled'' (map_option PBool en) @ opt_entry ''mode'' (map_option PStr mode) @
                    opt_entry ''reset_trip'' (map_option PBool reset))), (''by'', PStr (p_name pr))]) (policy_tenant pol)) (\<lambda>_ s.
              (Inr (find_policy s pid), s))) s)"

subsection \<open>Reading\<close>

record automation_status =
  as_automation :: bool
  as_controls :: bool
  as_kinds :: "string list"
  as_policies :: nat
  as_enabled :: nat
  as_tripped :: "string list"

definition all_policies :: "db \<Rightarrow> automation_policy list" where
  "all_policies s = sort_key policy_id (automation_policies s)"

definition automation_status_of :: "policies \<Rightarrow> string option \<Rightarrow> field_env \<Rightarrow> principal option \<Rightarrow> db \<Rightarrow> automation_status result" where
  "automation_status_of Ps flag env po s = bindR (require_role READ_ROLES po) (\<lambda>_.
     Inr \<lparr>as_automation = automation_enabled flag, as_controls = controls_enabled env, as_kinds = sort (map fst Ps),
          as_policies = length (all_policies s),
          as_enabled = length (filter (\<lambda>p. policy_enabled p \<and> \<not> policy_tripped p) (all_policies s)),
          as_tripped = map policy_id (filter policy_tripped (all_policies s))\<rparr>)"

definition list_policies :: "principal option \<Rightarrow> db \<Rightarrow> automation_policy list result" where
  "list_policies po s = bindR (require_role READ_ROLES po) (\<lambda>_. Inr (all_policies s))"

definition list_events :: "principal option \<Rightarrow> string option \<Rightarrow> int \<Rightarrow> db \<Rightarrow> automation_event list result" where
  "list_events po pid limit s = bindR (require_role READ_ROLES po) (\<lambda>_.
     Inr (take (nat (clamp 1 500 limit)) (sort_desc ev_at
       (case given pid of None \<Rightarrow> automation_events s | Some k \<Rightarrow> filter (\<lambda>e. ev_policy e = k) (automation_events s)))))"

subsection \<open>The three policies\<close>

definition always_within :: "pyval \<Rightarrow> pyval \<Rightarrow> (bool \<times> string) result" where
  "always_within preview bounds = Inr (True, [])"

definition noop_policy :: auto_policy where
  "noop_policy = \<lparr>ap_kind = ''noop'',
     ap_evaluate = (\<lambda>p _. Inr [\<lparr>pr_type = ''noop'', pr_target = None,
        pr_params = PDict [(''automation'', PStr (policy_id p))], pr_mode = DryRun,
        pr_trigger = PDict [(''reason'', PStr ''demonstrator tick'')],
        pr_reason = requester (policy_id p) @ '' demonstrator''\<rparr>]),
     ap_within = always_within\<rparr>"

text \<open>An automation action of the type on the target that is open, or was executed in the last ten minutes.\<close>

definition recent_action :: "db \<Rightarrow> string \<Rightarrow> string \<Rightarrow> string \<Rightarrow> bool" where
  "recent_action s ty target pid \<longleftrightarrow> list_ex (\<lambda>a. action_type a = ty \<and> action_target a = Some target \<and>
     requested_by a = requester pid \<and>
     (action_status a = PENDING \<or> action_status a = APPROVED \<or>
      action_status a = EXECUTED \<and> (case executed_at a of Some t \<Rightarrow> now s - 600 < t | None \<Rightarrow> False))) (control_actions s)"

definition flisr_proposal :: "outage_case \<Rightarrow> string \<Rightarrow> flisr_plan \<Rightarrow> proposal" where
  "flisr_proposal c fn pl = \<lparr>pr_type = ''flisr'', pr_target = Some fn, pr_params = PDict [(''fault_node'', PStr fn)],
     pr_mode = Live,
     pr_trigger = PDict [(''case_id'', PInt (int (case_id c))), (''fault_node'', PStr fn),
       (''customers_affected'', PInt (int (customers_affected c))), (''restores_all'', PBool (fp_customers_still_out pl = 0))],
     pr_reason = ''auto-FLISR for outage at '' @ fn\<rparr>"

definition flisr_candidate :: "automation_policy \<Rightarrow> db \<Rightarrow> outage_case \<Rightarrow> proposal list result" where
  "flisr_candidate p s c = (case affected_node_id c of
       None \<Rightarrow> Inr []
     | Some fn \<Rightarrow>
         if recent_action s ''flisr'' fn (policy_id p) then Inr []
         else (case plan_flisr s (Some fn) None of
             Inl e \<Rightarrow> if is_http e then Inr [] else Inl e
           | Inr pl \<Rightarrow> Inr (if fp_restored_edges pl = [] then [] else [flisr_proposal c fn pl])))"

definition flisr_auto_evaluate :: "automation_policy \<Rightarrow> db \<Rightarrow> proposal list result" where
  "flisr_auto_evaluate p s =
     bindR (mapR (flisr_candidate p s) (sort_key detected_at
       (filter (\<lambda>c. case_status c = DETECTED \<or> case_status c = CONFIRMED) (outage_cases s)))) (\<lambda>xs. Inr (concat xs))"

fun number_of :: "pyval \<Rightarrow> pyfloat result" where
  "number_of (PInt i) = Inr (Fin (of_int i))"
| "number_of (PBool b) = Inr (Fin (if b then 1 else 0))"
| "number_of (PFloat x) = Inr x"
| "number_of _ = Inl (TypeErr (Fmt ''comparison not supported'' []))"

definition flisr_auto_within :: "pyval \<Rightarrow> pyval \<Rightarrow> (bool \<times> string) result" where
  "flisr_auto_within preview bounds = bindR (bound_get bounds ''require_restores_all'' (PBool True)) (\<lambda>req.
     if truthy req \<and> \<not> truthy (dict_lookup preview ''restores_all'')
     then Inr (False, ''plan does not restore all affected customers'')
     else bindR (bound_get bounds ''max_customers'' PNone) (\<lambda>maxc.
       if maxc = PNone then Inr (True, [])
       else let r = dict_lookup preview ''customers_restored'' in
         bindR (number_of (if truthy r then r else PInt 0)) (\<lambda>x. bindR (number_of maxc) (\<lambda>y.
           Inr (if fl_less y x then (False, ''customers_restored exceeds max_customers'') else (True, []))))))"

definition flisr_policy :: auto_policy where
  "flisr_policy = \<lparr>ap_kind = ''flisr'', ap_evaluate = flisr_auto_evaluate, ap_within = flisr_auto_within\<rparr>"

text \<open>The feeder above a node, at most fifty steps up.\<close>

fun node_feeder :: "nat \<Rightarrow> grid_node list \<Rightarrow> string option \<Rightarrow> string option" where
  "node_feeder 0 ns c = None"
| "node_feeder (Suc g) ns c = (case given c of
       None \<Rightarrow> None
     | Some k \<Rightarrow> (case find (\<lambda>n. node_id n = k) ns of
         None \<Rightarrow> None
       | Some n \<Rightarrow> if node_type n = ''feeder'' then Some k else node_feeder g ns (parent_id n)))"

text \<open>\<^verbatim>\<open>ORDER BY rated_kw DESC NULLS LAST\<close>\<close>

definition by_rating :: "der_asset list \<Rightarrow> der_asset list" where
  "by_rating ds = sort_desc (\<lambda>d. case rated_kw d of Some r \<Rightarrow> r | None \<Rightarrow> 0) (filter (\<lambda>d. rated_kw d \<noteq> None) ds)
     @ filter (\<lambda>d. rated_kw d = None) ds"

definition der_for_node :: "db \<Rightarrow> string \<Rightarrow> der_asset option" where
  "der_for_node s n = (case node_feeder 50 (grid_nodes s) (Some n) of
       None \<Rightarrow> None
     | Some f \<Rightarrow> find (\<lambda>d. node_feeder 50 (grid_nodes s) (der_node d) = Some f) (by_rating (filter controllable (der_assets s))))"

text \<open>One recommendation: the DERs used so far, and a proposal if there is headroom.\<close>

definition voltvar_target :: "pyfloat \<Rightarrow> rat \<Rightarrow> rat \<Rightarrow> bool \<Rightarrow> rat" where
  "voltvar_target step cur rated up =
     (let x = (if up then fl_add (Fin cur) step else fl_sub (Fin cur) step);
          y = (if fl_less (Fin rated) x then Fin rated else x)
      in case y of Fin v \<Rightarrow> max 0 v | _ \<Rightarrow> 0)"

lemma voltvar_target_banded: "0 \<le> voltvar_target step cur rated up \<and> (0 \<le> rated \<longrightarrow> voltvar_target step cur rated up \<le> rated)"
  by (cases "if up then fl_add (Fin cur) step else fl_sub (Fin cur) step")
    (auto simp: voltvar_target_def Let_def)

definition voltvar_proposal :: "advice \<Rightarrow> der_asset \<Rightarrow> rat \<Rightarrow> rat \<Rightarrow> proposal" where
  "voltvar_proposal r d cur target =
     (let dir = if ad_raise r then ''raise'' else ''lower'' in
      \<lparr>pr_type = ''voltvar_dispatch'', pr_target = Some (der_id d),
       pr_params = PDict [(''setpoint_kw'', PFloat (Fin (py_round 2 target)))], pr_mode = Live,
       pr_trigger = PDict [(''node_id'', PStr (ad_node r)), (''direction'', PStr dir), (''issue'', PStr (msg_text (ad_issue r))),
         (''der_id'', PStr (der_id d)), (''from_kw'', PFloat (Fin (py_round 2 cur))), (''to_kw'', PFloat (Fin (py_round 2 target)))],
       pr_reason = ''auto Volt/VAR '' @ dir @ '' via '' @ der_id d @ '' for '' @ ad_node r\<rparr>)"

fun voltvar_walk :: "db \<Rightarrow> string \<Rightarrow> pyfloat \<Rightarrow> string list \<Rightarrow> advice list \<Rightarrow> proposal list" where
  "voltvar_walk s pid step used [] = []"
| "voltvar_walk s pid step used (r # rs) = (case der_for_node s (ad_node r) of
       None \<Rightarrow> voltvar_walk s pid step used rs
     | Some d \<Rightarrow>
         if der_id d \<in> set used then voltvar_walk s pid step used rs
         else let cur = current_kw s (der_id d); target = voltvar_target step cur (rated_of d) (ad_raise r);
                  tail = voltvar_walk s pid step (der_id d # used) rs
              in if recent_action s ''voltvar_dispatch'' (der_id d) pid \<or> \<bar>target - cur\<bar> < 1 / 100 then tail
                 else voltvar_proposal r d cur target # tail)"

definition voltvar_auto_evaluate :: "automation_policy \<Rightarrow> db \<Rightarrow> proposal list result" where
  "voltvar_auto_evaluate p s = bindR (bound_get (policy_bounds p) ''max_step_kw'' (PInt 10)) (\<lambda>v.
     bindR (py_float v) (\<lambda>step. Inr (voltvar_walk s (policy_id p) step [] (voltvar_recommendations s))))"

definition voltvar_auto_within :: "pyval \<Rightarrow> pyval \<Rightarrow> (bool \<times> string) result" where
  "voltvar_auto_within preview bounds = Inr (
     if truthy (dict_lookup preview ''rate_limited_high_risk'')
     then (False, ''swing exceeds OC-4 rate limit (high-risk) - needs a human'') else (True, []))"

definition voltvar_policy :: auto_policy where
  "voltvar_policy = \<lparr>ap_kind = ''voltvar'', ap_evaluate = voltvar_auto_evaluate, ap_within = voltvar_auto_within\<rparr>"

definition auto_registry :: policies where
  "auto_registry = [(''noop'', noop_policy), (''flisr'', flisr_policy), (''voltvar'', voltvar_policy)]"

end
