(* ===== verification/Automation_Correct.thy ===== *)
theory Automation_Correct
  imports Automation
begin

text \<open>
  What the automation engine promises: it moves actions only through the governed operations, it
  touches the field only when both flags are on and an unattended policy is enabled, and a policy
  that keeps failing is cut off. The engine's loops are traversed once, in the locale
  \<open>tick_relation\<close>, for any relation between stores that its primitive steps respect.
\<close>

lemma add_event_frame [frame_simps]:
  "control_actions (snd (add_event pid k d t a x n s)) = control_actions s"
  "control_audit (snd (add_event pid k d t a x n s)) = control_audit s"
  "next_uuid (snd (add_event pid k d t a x n s)) = next_uuid s"
  "automation_policies (snd (add_event pid k d t a x n s)) = automation_policies s"
  "same_field s (snd (add_event pid k d t a x n s))"
  by (simp_all add: add_event_def same_field_def)

lemma put_policy_frame [frame_simps]:
  "control_actions (put_policy pid f s) = control_actions s" "control_audit (put_policy pid f s) = control_audit s"
  "next_uuid (put_policy pid f s) = next_uuid s" "same_field s (put_policy pid f s)"
  by (simp_all add: put_policy_def same_field_def)

lemma same_field_trans: "same_field s s' \<Longrightarrow> same_field s' s'' \<Longrightarrow> same_field s s''"
  by (simp add: same_field_def)

subsection \<open>The engine's loops\<close>

locale tick_relation =
  fixes H :: registry
    and env :: field_env
    and R :: "db \<Rightarrow> db \<Rightarrow> bool"
    and covered :: "automation_policy \<Rightarrow> bool"
  assumes R_refl: "R s s"
    and R_trans: "R s s' \<Longrightarrow> R s' s'' \<Longrightarrow> R s s''"
    and R_submit: "R s (snd (submit_action H ty target params mode reason (requester pid) tenant s))"
    and R_event: "R s (snd (add_event pid k d t a x n s))"
    and R_policy: "R s (put_policy pid f s)"
    and R_run: "covered p \<Longrightarrow> policy_mode p \<noteq> ''recommend'' \<Longrightarrow> controls_enabled env \<Longrightarrow>
      R s (snd (auto_run H env p P prop aid risk s))"
begin

lemma steps:
  "keeps R (ret x)" "keeps R (lift f)" "keeps R (add_event pid k d t a v n)"
  "keeps R (submit_action H ty target params mode reason (requester pid) tenant)"
  "keeps R (\<lambda>s. (Inr (), put_policy pid (g s) s))"
  "covered p \<Longrightarrow> policy_mode p \<noteq> ''recommend'' \<Longrightarrow> controls_enabled env \<Longrightarrow>
     keeps R (auto_run H env p P prop aid risk)"
  by (simp_all add: keeps_def R_refl R_event R_submit R_policy R_run)

lemmas tick_intros = keeps_bindS [where R = R, OF _ _ R_trans] steps

lemma keeps_split: "(\<And>x y. keeps R (f x y)) \<Longrightarrow> keeps R (case p of (x, y) \<Rightarrow> f x y)"
  by (cases p) simp

lemma run_proposal_keeps:
  assumes "covered p"
  shows "keeps R (run_proposal H env p P prop)"
  unfolding keeps_def
proof
  fix s
  let ?m = "submit_action H (pr_type prop) (pr_target prop) (pr_params prop) (pr_mode prop) (Some (pr_reason prop))
    (requester (policy_id p)) (policy_tenant p)"
  obtain r s1 where m: "?m s = (r, s1)" by fastforce
  have 1: "R s s1" using R_submit [of s "pr_type prop" "pr_target prop" "pr_params prop" "pr_mode prop"
      "Some (pr_reason prop)" "policy_id p" "policy_tenant p"] by (simp add: m)
  have ev: "keeps R (bindS (add_event pid k d t a v n) (\<lambda>_. ret x))" for pid k d t a v n and x :: "string \<times> uuid option"
    by (intro tick_intros)
  have 2: "R s1 (snd (run_proposal H env p P prop s))"
  proof (cases r)
    case (Inl e)
    with m ev [THEN keepsD] R_refl show ?thesis
      by (auto simp: run_proposal_def Let_def intro: ev [unfolded keeps_def, rule_format])
  next
    case (Inr x)
    obtain a risk preview where x: "x = (a, risk, preview)" by (cases x) auto
    have rest: "keeps R (bindS (lift (\<lambda>_. ap_within P preview (bounds_or_empty p))) (\<lambda>(ok, why).
       if \<not> ok then bindS (add_event (policy_id p) (ap_kind P) ''blocked'' (pr_trigger prop) (Some (action_id a))
            (PDict [(''out_of_bounds'', PStr why), (''preview'', preview)]) (policy_tenant p)) (\<lambda>_. ret (''blocked'', Some (action_id a)))
       else if \<not> controls_enabled env
       then bindS (add_event (policy_id p) (ap_kind P) ''blocked'' (pr_trigger prop) (Some (action_id a))
            (PDict [(''reason'', PStr ''OC_CONTROLS_ENABLED=false'')]) (policy_tenant p)) (\<lambda>_. ret (''blocked'', Some (action_id a)))
       else auto_run H env p P prop (action_id a) risk))" if "policy_mode p \<noteq> ''recommend''"
      using assms that by (auto intro!: tick_intros keeps_split)
    show ?thesis
      using m Inr x ev [unfolded keeps_def, rule_format] rest [unfolded keeps_def, rule_format]
      by (auto simp: run_proposal_def Let_def)
  qed
  show "R s (snd (run_proposal H env p P prop s))" by (rule R_trans [OF 1 2])
qed

lemma run_proposals_keeps: "covered p \<Longrightarrow> keeps R (run_proposals H env p P xs)"
  by (induction xs) (auto intro!: tick_intros keeps_split run_proposal_keeps)

lemma run_policy_keeps: "covered p \<Longrightarrow> keeps R (run_policy H Ps env p)"
proof -
  assume p: "covered p"
  show ?thesis
  proof (cases "map_of Ps (policy_kind p)")
    case None
    then have "run_policy H Ps env p = bindS (add_event (policy_id p) (policy_kind p) ''skipped'' (PDict []) None
        (PDict [(''reason'', PStr ''no policy handler registered'')]) (policy_tenant p)) (\<lambda>_. ret [])"
      by (simp add: run_policy_def fun_eq_iff)
    then show ?thesis by (auto intro!: tick_intros)
  next
    case (Some P)
    then have "run_policy H Ps env p = bindS (lift (cooldown_active p)) (\<lambda>cool.
            if cool then ret [(policy_id p, ''skipped'', None)]
            else bindS (lift (ap_evaluate P p)) (\<lambda>props.
                 bindS (lift (\<lambda>_. bindR (bound_get (policy_bounds p) ''max_per_tick'' (PInt 1)) py_int)) (\<lambda>k.
                   if slice_to k props = [] then ret []
                   else bindS (\<lambda>s. modify (put_policy (policy_id p) (last_run_at_update (\<lambda>_. Some (now s)))) s) (\<lambda>_.
                        run_proposals H env p P (slice_to k props)))))"
      by (simp add: run_policy_def fun_eq_iff)
    then show ?thesis using p by (auto intro!: tick_intros run_proposals_keeps)
  qed
qed

lemma run_policies_keeps: "(\<And>p. p \<in> set ps \<Longrightarrow> covered p) \<Longrightarrow> keeps R (run_policies H Ps env ps)"
  by (induction ps) (auto intro!: tick_intros run_policy_keeps)

lemma tick_keeps:
  assumes "\<And>p. p \<in> set (enabled_policies s) \<Longrightarrow> covered p"
  shows "R s (snd (tick H Ps flag env po s))"
proof -
  have "R s (snd (run_tick H Ps env s))"
    using run_policies_keeps [OF assms] by (simp add: run_tick_def keeps_def)
  then show ?thesis
    by (auto simp: tick_def bindS_def R_refl split: sum.splits prod.splits if_splits)
qed

end

subsection \<open>Governance\<close>

text \<open>
  What the engine may do, one step at a time: request an action in the name of a policy, have the
  supervisor identity approve one, execute one as the policy's identity while the control plane is
  enabled -- by the operations people use -- and keep its own two tables. A step of the last kind
  changes nothing else: no switch, no command, no device and no control action.
\<close>

inductive automation_step :: "registry \<Rightarrow> field_env \<Rightarrow> db \<Rightarrow> db \<Rightarrow> bool" for H env where
  request_step: "automation_step H env s (snd (submit_action H ty target params mode reason (requester pid) tenant s))"
| supervise_step: "automation_step H env s (snd (approve (Some (sys_actor ''supervisor'')) aid reason s))"
| run_step: "controls_enabled env \<Longrightarrow> automation_step H env s (snd (execute_action H env (Some (sys_actor pid)) aid s))"
| note_step: "automation_step H env s (s\<lparr>automation_policies := ps, automation_events := es\<rparr>)"

definition governed :: "registry \<Rightarrow> field_env \<Rightarrow> db \<Rightarrow> db \<Rightarrow> bool" where
  "governed H env = (automation_step H env)\<^sup>*\<^sup>*"

lemma governed_refl: "governed H env s s"
  by (simp add: governed_def)

lemma governed_trans: "governed H env s s' \<Longrightarrow> governed H env s' s'' \<Longrightarrow> governed H env s s''"
  by (simp add: governed_def)

lemma governed_step: "automation_step H env s s' \<Longrightarrow> governed H env s s'"
  by (simp add: governed_def)

lemma governed_event: "governed H env s (snd (add_event pid k d t a x n s))"
proof -
  have "snd (add_event pid k d t a x n s) =
      s\<lparr>automation_policies := automation_policies s, automation_events := automation_events (snd (add_event pid k d t a x n s))\<rparr>"
    by (simp add: add_event_def)
  then show ?thesis using note_step [of H env s] by (metis governed_step)
qed

lemma governed_policy: "governed H env s (put_policy pid f s)"
proof -
  have "put_policy pid f s =
      s\<lparr>automation_policies := automation_policies (put_policy pid f s), automation_events := automation_events s\<rparr>"
    by (simp add: put_policy_def)
  then show ?thesis using note_step [of H env s] by (metis governed_step)
qed

lemma governed_keeps:
  "keeps (governed H env) (ret x)" "keeps (governed H env) (fail e)" "keeps (governed H env) (add_event pid k d t a v n)"
  "keeps (governed H env) (approve (Some (sys_actor ''supervisor'')) aid reason)"
  "controls_enabled env \<Longrightarrow> keeps (governed H env) (execute_action H env (Some (sys_actor pid)) aid)"
  by (auto simp: keeps_def governed_refl governed_event intro: governed_step supervise_step run_step)

lemmas governed_intros = keeps_bindS [where R = "governed H env" for H env, OF _ _ governed_trans] governed_keeps

lemma auto_execute_governed: "controls_enabled env \<Longrightarrow> keeps (governed H env) (auto_execute H env pid aid risk)"
  unfolding auto_execute_def by (auto intro!: governed_intros)

lemma bump_failures_governed: "keeps (governed H env) (bump_failures pid reset)"
  by (auto simp: keeps_def bump_failures_def Let_def governed_policy)

lemma trip_governed: "keeps (governed H env) (trip pid v)"
  by (auto simp: keeps_def trip_def governed_policy)

lemma auto_run_governed: "controls_enabled env \<Longrightarrow> governed H env s (snd (auto_run H env p P prop aid risk s))"
proof -
  assume en: "controls_enabled env"
  obtain r s1 where x: "auto_execute H env (policy_id p) aid risk s = (r, s1)" by fastforce
  have 1: "governed H env s s1" by (rule keepsD [OF auto_execute_governed [OF en] x])
  let ?ok = "\<lambda>a. bindS (bump_failures (policy_id p) True) (\<lambda>_. add_event (policy_id p) (ap_kind P) ''executed''
     (pr_trigger prop) (Some aid) (PDict [(''risk'', PStr (risk_name risk)), (''after_state'', opt_json_val (after_state a))]) (policy_tenant p))"
  let ?bad = "\<lambda>e. bindS (bump_failures (policy_id p) False) (\<lambda>fails.
            let tripped = trip_threshold \<le> fails; decision = (if tripped then ''tripped'' else ''failed'') in
            bindS (if tripped then trip (policy_id p) True else ret ()) (\<lambda>_.
            bindS (add_event (policy_id p) (ap_kind P) decision (pr_trigger prop) (Some aid)
              (PDict [(''error'', short_text e), (''consecutive_failures'', PInt (int fails))]) (policy_tenant p)) (\<lambda>_.
              ret (decision, Some aid))))"
  have ok: "keeps (governed H env) (?ok a)" for a
    by (intro governed_intros bump_failures_governed)
  have bad: "keeps (governed H env) (?bad e)" for e
    by (auto simp: Let_def intro!: governed_intros bump_failures_governed trip_governed)
  obtain r2 s2 where y: "(case r of Inl e \<Rightarrow> (Inl e, s1) | Inr a \<Rightarrow> ?ok a s1) = (r2, s2)" by fastforce
  have 2: "governed H env s1 s2"
    using y ok [THEN keepsD] by (auto simp: governed_refl split: sum.splits)
  have "snd (auto_run H env p P prop aid risk s) = (case r2 of Inr _ \<Rightarrow> s2 | Inl e \<Rightarrow> snd (?bad e s2))"
    using x y by (cases r; cases r2) (auto simp: auto_run_def Let_def)
  moreover have "governed H env s2 (snd (?bad e s2))" for e using bad [of e] by (simp add: keeps_def)
  ultimately have 3: "governed H env s2 (snd (auto_run H env p P prop aid risk s))"
    by (cases r2) (simp_all add: governed_refl)
  show ?thesis by (blast intro: governed_trans 1 2 3)
qed

interpretation gov: tick_relation H env "governed H env" "\<lambda>_. True" for H env
  by unfold_locales (auto simp: governed_refl governed_event governed_policy auto_run_governed
      intro: governed_trans governed_step request_step)

subsection \<open>The field\<close>

lemma approve_same_field: "same_field s (snd (approve po aid reason s))"
  by (cases rule: approve_effect [of po aid reason s]) simp_all

lemma submit_same_field: "same_field s (snd (submit_action H ty target params mode reason by tenant s))"
proof (cases "map_of H ty")
  case None
  then show ?thesis by (simp add: submit_action_def)
next
  case (Some h)
  then show ?thesis
    by (cases "h_plan h target params s"; cases "h_risk_for h target params s")
      (auto simp: submit_action_def bindS_def Let_def add_audit_def logged_def same_field_def split: prod.splits)
qed

text \<open>
  A tick is a history of the control plane, so the invariants of those histories hold of
  automation too; a step that reaches the field is the execution of an action that may run.
\<close>

lemma automation_step_control: "automation_step H env s s' \<Longrightarrow> control_step H s s'"
proof (induction rule: automation_step.induct)
  case (note_step s ps es)
  show ?case by (rule other_step) (simp add: governance_frame_def)
qed (rule submit_step approve_step execute_step)+

lemma tick_control_history: "(control_step H)\<^sup>*\<^sup>* s (snd (tick H Ps flag env po s))"
  using gov.tick_keeps [of s] mono_rtranclp [of "automation_step H env" "control_step H"]
  by (auto simp: governed_def automation_step_control)

lemma automation_step_field:
  assumes "automation_step H env s s'" "\<not> same_field s s'"
  shows "controls_enabled env \<and> (\<exists>a\<in>set (control_actions s). may_run_live env a)"
  using assms(1)
proof (cases rule: automation_step.cases)
  case (request_step ty target params mode reason pid tenant)
  with assms(2) submit_same_field show ?thesis by blast
next
  case (supervise_step aid reason)
  with assms(2) approve_same_field show ?thesis by blast
next
  case (run_step pid aid)
  show ?thesis
  proof (cases rule: execute_effect [of H env "Some (sys_actor pid)" aid s])
    case (live p a h)
    with run_step show ?thesis by (auto simp: find_action_def find_Some_iff)
  qed (use run_step assms(2) in auto)
next
  case (note_step ps es)
  with assms(2) show ?thesis by (simp add: same_field_def)
qed

interpretation idle: tick_relation H env same_field
  "\<lambda>p. policy_mode p = ''recommend'' \<or> \<not> controls_enabled env" for H env
  by unfold_locales (auto simp: frame_simps submit_same_field intro: same_field_trans)

subsection \<open>The breaker\<close>

lemma policies_put [simp]:
  "automation_policies (put_policy pid f s) = update_where (\<lambda>p. policy_id p = pid) f (automation_policies s)"
  by (simp add: put_policy_def)

lemma find_put_failures:
  "find_policy (put_policy pid (consecutive_failures_update f) s) pid =
     map_option (consecutive_failures_update f) (find_policy s pid)"
  unfolding find_policy_def
  by (auto simp: find_update_where find_Some_iff intro!: option.map_cong)

lemma tripped_rows:
  "r \<in> set (update_where (\<lambda>p. policy_id p = pid) (policy_tripped_update (\<lambda>_. True)) ps) \<Longrightarrow> \<not> policy_tripped r \<Longrightarrow>
     policy_id r \<noteq> pid"
  by (induction ps) (auto split: if_splits)

text \<open>The policy row after a failed run.\<close>

definition after_failure :: "automation_policy \<Rightarrow> automation_policy" where
  "after_failure q = q\<lparr>consecutive_failures := Suc (consecutive_failures q),
     policy_tripped := policy_tripped q \<or> trip_threshold \<le> Suc (consecutive_failures q)\<rparr>"

lemma auto_run_failed:
  assumes x: "auto_execute H env (policy_id p) aid risk s = (Inl e, s1)"
    and q: "find_policy s1 (policy_id p) = Some q"
  shows "automation_policies (snd (auto_run H env p P prop aid risk s)) =
    automation_policies (let s2 = put_policy (policy_id p) (consecutive_failures_update Suc) s1 in
       if trip_threshold \<le> Suc (consecutive_failures q)
       then put_policy (policy_id p) (policy_tripped_update (\<lambda>_. True)) s2 else s2)"
proof -
  have f: "find_policy (put_policy (policy_id p) (consecutive_failures_update Suc) s1) (policy_id p) =
      Some (consecutive_failures_update Suc q)"
    by (simp add: find_put_failures q)
  have ev: "snd (bindS (add_event pid k d t a v n) (\<lambda>_. ret z) s) = snd (add_event pid k d t a v n s)"
    for pid k d t a v n s and z :: "string \<times> uuid option"
    by (simp add: bindS_def split: prod.splits sum.splits)
  show ?thesis
    by (simp add: auto_run_def x Let_def bump_failures_def f trip_def ev add_event_frame)
qed

subsection \<open>Properties\<close>

text \<open>
  C23: the engine has no way around governance. Whatever policies are registered and whatever they
  propose, a tick takes the store only through requests in the name of a policy, approvals by the
  supervisor identity and, with the control plane enabled, executions by the operations people
  use; between them it touches nothing but its own policy and event tables. In particular it sends
  no command and moves no switch except by executing an action.
\<close>

theorem automation_governed: "(automation_step H env)\<^sup>*\<^sup>* s (snd (tick H Ps flag env po s))"
  using gov.tick_keeps [of s] by (simp add: governed_def)

text \<open>
  C38: a tick that changes anything in the field (switches, commands, devices) ran with the
  automation flag and the control flag both on, for an administrator or service, and some enabled
  policy that is not tripped is set to act rather than to recommend.
\<close>

theorem automation_gated:
  assumes "\<not> same_field s (snd (tick H Ps flag env po s))"
  shows "automation_enabled flag \<and> controls_enabled env \<and>
    (\<exists>p. po = Some p \<and> role_allowed (p_role p) [Admin, Service]) \<and>
    (\<exists>q\<in>set (automation_policies s). policy_enabled q \<and> \<not> policy_tripped q \<and> policy_mode q \<noteq> ''recommend'')"
proof -
  have "\<exists>q\<in>set (enabled_policies s). \<not> (policy_mode q = ''recommend'' \<or> \<not> controls_enabled env)"
    using idle.tick_keeps [of s env H Ps flag po] assms by blast
  moreover have "automation_enabled flag \<and> (\<exists>p. po = Some p \<and> role_allowed (p_role p) [Admin, Service])"
    using assms by (auto simp: tick_def bindS_def require_role_def split: option.splits if_splits)
  ultimately show ?thesis by (auto simp: enabled_policies_def)
qed

lemma edges_moved: "map is_closed (grid_edges s') \<noteq> map is_closed (grid_edges s) \<Longrightarrow> \<not> same_field s s'"
  by (auto simp: same_field_def)

text \<open>An unattended FLISR policy that has failed twice, and an outage reported at \<open>B\<close>.\<close>

definition auto_db :: db where
  "auto_db = demo_db\<lparr>
     automation_policies := [\<lparr>policy_id = ''af'', policy_kind = ''flisr'', policy_enabled = True, policy_mode = ''auto'',
       policy_bounds = PDict [(''require_restores_all'', PBool False)], consecutive_failures = 2,
       policy_tripped = False, last_run_at = None, policy_tenant = ''default''\<rparr>],
     outage_cases := [\<lparr>case_id = 7, case_status = DETECTED, case_cause = ''network'', affected_node_id = Some ''B'',
       customers_affected = 2, detected_at = 90, confirmed_at = None, restored_at = None, closed_at = None,
       case_notes = None, case_version = None\<rparr>]\<rparr>"

theorem automation_gated_witness:
  "\<exists>s'. s' = snd (tick registry auto_registry (Some ''true'') quiet_env (Some admin1) auto_db) \<and>
     map is_closed (grid_edges s') = [True, False, True, True] \<and> controls_enabled quiet_env"
proof -
  have m: "map is_closed (grid_edges (snd (tick registry auto_registry (Some ''true'') quiet_env (Some admin1) auto_db)))
      = [True, False, True, True]" by code_simp
  have m0: "map is_closed (grid_edges auto_db) = [True, True, True, False]" by code_simp
  have "\<not> same_field auto_db (snd (tick registry auto_registry (Some ''true'') quiet_env (Some admin1) auto_db))"
    by (rule edges_moved, unfold m m0) simp
  from automation_gated [OF this, THEN conjunct2, THEN conjunct1] m show ?thesis by (intro exI conjI) (rule refl)
qed

theorem automation_governed_witness:
  "\<exists>s'. (automation_step registry quiet_env)\<^sup>*\<^sup>* auto_db s' \<and> map is_closed (grid_edges s') = [True, False, True, True] \<and>
     map action_status (control_actions s') = [EXECUTED] \<and>
     map approved_by (control_actions s') = [Some ''automation:supervisor'']"
proof (intro exI conjI)
  show "(automation_step registry quiet_env)\<^sup>*\<^sup>* auto_db
      (snd (tick registry auto_registry (Some ''true'') quiet_env (Some admin1) auto_db))"
    by (rule automation_governed)
  show "map is_closed (grid_edges (snd (tick registry auto_registry (Some ''true'') quiet_env (Some admin1) auto_db)))
      = [True, False, True, True]" by code_simp
  show "map action_status (control_actions (snd (tick registry auto_registry (Some ''true'') quiet_env (Some admin1) auto_db)))
      = [EXECUTED]" by code_simp
  show "map approved_by (control_actions (snd (tick registry auto_registry (Some ''true'') quiet_env (Some admin1) auto_db)))
      = [Some ''automation:supervisor'']" by code_simp
qed

text \<open>
  the circuit breaker. When the governed execution of a policy's action fails, the failure
  is counted, and at the third in a row the policy is tripped: no enabled policy has its name, so
  the next tick does not run it.
\<close>

theorem automation_breaker:
  assumes "auto_execute H env (policy_id p) aid risk s = (Inl e, s1)" "find_policy s1 (policy_id p) = Some q"
  shows "\<exists>s'. s' = snd (auto_run H env p P prop aid risk s) \<and>
    find_policy s' (policy_id p) = Some (after_failure q) \<and>
    (2 \<le> consecutive_failures q \<longrightarrow> (\<forall>r\<in>set (enabled_policies s'). policy_id r \<noteq> policy_id p))"
proof -
  let ?s = "snd (auto_run H env p P prop aid risk s)"
  have f: "find_policy s1 (policy_id p) = find (\<lambda>r. policy_id r = policy_id p) (automation_policies s1)"
    by (simp add: find_policy_def)
  have "policy_id q = policy_id p" using assms(2) by (auto simp: find_policy_def find_Some_iff)
  then have "find_policy ?s (policy_id p) = Some (after_failure q)"
    using assms(2) auto_run_failed [OF assms, of P "prop"]
    by (auto simp: find_policy_def Let_def find_update_where after_failure_def)
  moreover have "\<forall>r\<in>set (enabled_policies ?s). policy_id r \<noteq> policy_id p" if "2 \<le> consecutive_failures q"
    using that auto_run_failed [OF assms, of P "prop"]
    by (auto simp: Let_def trip_threshold_def enabled_policies_def dest!: tripped_rows split: if_splits)
  ultimately show ?thesis by blast
qed

text \<open>The third failure in a row: the database refuses the second switch write of the plan.\<close>

definition refused_env :: field_env where
  "refused_env = quiet_env\<lparr>env_write_fault := Some 1\<rparr>"

definition asked_auto_db :: db where
  "asked_auto_db = snd (submit_action registry ''flisr'' (Some ''B'') (PDict [(''fault_node'', PStr ''B'')]) Live None
     (requester ''af'') ''default'' auto_db)"

theorem automation_breaker_witness:
  "\<exists>p. automation_policies auto_db = [p] \<and>
     (\<forall>x. \<exists>s'. s' = snd (auto_run registry refused_env p flisr_policy x 0 High asked_auto_db) \<and>
       map_option policy_tripped (find_policy s' ''af'') = Some True \<and>
       (\<forall>r\<in>set (enabled_policies s'). policy_id r \<noteq> ''af''))"
proof -
  obtain p where p: "automation_policies auto_db = [p]" "policy_id p = ''af''" by (auto simp: auto_db_def)
  have x: "isl (fst (auto_execute registry refused_env ''af'' 0 High asked_auto_db))"
    "map_option consecutive_failures (find_policy (snd (auto_execute registry refused_env ''af'' 0 High asked_auto_db)) ''af'')
      = Some 2"
    by code_simp+
  then obtain e s1 where e: "auto_execute registry refused_env (policy_id p) 0 High asked_auto_db = (Inl e, s1)"
    by (cases "auto_execute registry refused_env ''af'' 0 High asked_auto_db";
        cases "fst (auto_execute registry refused_env ''af'' 0 High asked_auto_db)") (auto simp: p)
  with x(2) p obtain q where q: "find_policy s1 (policy_id p) = Some q" "consecutive_failures q = 2" by auto
  have "\<exists>s'. s' = snd (auto_run registry refused_env p flisr_policy x 0 High asked_auto_db) \<and>
      map_option policy_tripped (find_policy s' ''af'') = Some True \<and>
      (\<forall>r\<in>set (enabled_policies s'). policy_id r \<noteq> ''af'')" for x
    using automation_breaker [OF e q(1), of flisr_policy x] q p
    by (auto simp: after_failure_def trip_threshold_def)
  with p show ?thesis by blast
qed

subsection \<open>A load taken for a generator\<close>

text \<open>
  The loop counts on injection, but \<open>der_for_node\<close> takes any controllable device. A charger is a
  load: for a node whose voltage is too low the policy asks it to draw more.
\<close>

definition sagging_db :: db where
  "sagging_db = demo_db\<lparr>
     grid_nodes := [mk_node ''S1'' ''substation'' None, mk_node ''A'' ''feeder'' (Some ''S1''), mk_node ''B'' ''bus'' (Some ''A''),
       (mk_node ''C'' ''meter'' (Some ''B''))\<lparr>node_device := Some ''M1''\<rparr>],
     telemetry_rows := (mk_telemetry ''M1'' 95 (PDict []))\<lparr>t_voltage := Some 200\<rparr> # telemetry_rows demo_db\<rparr>"

lemma voltvar_raises_charger_load:
  "(\<forall>d\<in>set (der_assets sagging_db). der_type d = ''ev_charger'') \<and>
   map ad_raise (voltvar_recommendations sagging_db) = [True] \<and>
   map (\<lambda>p. (pr_target p, pr_params p)) (voltvar_walk sagging_db ''vv'' (Fin 10) [] (voltvar_recommendations sagging_db))
     = [(Some ''EV1'', PDict [(''setpoint_kw'', PFloat (Fin 14))])]"
  by code_simp

end
