(* ===== verification/Oms.thy ===== *)
theory Oms
  imports Topology_Analysis
begin

text \<open>
  The outage management system, \<^verbatim>\<open>src/fastapi/routers/oms.py\<close>: outage signals of meters and
  customer calls, the section an outage is attributed to, and the detection sweep that opens,
  extends, confirms and restores cases.
\<close>

subsection \<open>Locating a signal in the network\<close>

definition heartbeat_timeout_s :: rat where
  "heartbeat_timeout_s = 180"

definition meter_node :: "db \<Rightarrow> string \<Rightarrow> string option" where
  "meter_node s dev = (case find (\<lambda>n. node_device n = Some dev \<and> node_type n = ''meter'') (grid_nodes s) of
       Some n \<Rightarrow> Some (node_id n)
     | None \<Rightarrow> (case find (\<lambda>p. sp_meter p = Some dev) (service_points s) of
         Some p \<Rightarrow> sp_node p | None \<Rightarrow> None))"

text \<open>
  The walk up the parents: it stops at a node fed by a switchable edge, at the top, or when it
  comes back to a node it has seen.
\<close>

definition parent_of :: "(string \<times> string option) list \<Rightarrow> string \<Rightarrow> string option" where
  "parent_of pm c = (case map_of pm c of Some (Some p) \<Rightarrow> Some p | _ \<Rightarrow> None)"

definition parents_in :: "(string \<times> string option) list \<Rightarrow> string set" where
  "parents_in pm = {p. Some p \<in> snd ` set pm}"

lemma finite_parents_in: "finite (parents_in pm)"
proof -
  have "parents_in pm \<subseteq> the ` snd ` set pm" by (force simp: parents_in_def)
  then show ?thesis by (rule finite_subset) simp
qed

lemma parent_of_in: "parent_of pm c = Some p \<Longrightarrow> p \<in> parents_in pm"
  by (force simp: parent_of_def parents_in_def dest: map_of_SomeD split: option.splits)

function section_walk :: "(string \<times> string option) list \<Rightarrow> string list \<Rightarrow> string option \<Rightarrow> string list \<Rightarrow> string option" where
  "section_walk pm fed None seen = None"
| "section_walk pm fed (Some c) seen =
     (if c \<in> set seen then None
      else if c \<in> set fed then Some c
      else section_walk pm fed (parent_of pm c) (c # seen))"
  by pat_completeness auto
termination
proof (relation "measure (\<lambda>(pm, fed, cur, seen). case cur of None \<Rightarrow> 0
    | Some c \<Rightarrow> Suc (card (insert c (parents_in pm) - set seen)))", goal_cases)
  case (2 pm fed c seen)
  show ?case
  proof (cases "parent_of pm c")
    case (Some p)
    then have "insert p (parents_in pm) = parents_in pm" using parent_of_in by blast
    moreover have "parents_in pm - set (c # seen) \<subset> insert c (parents_in pm) - set seen"
      using 2(1) by auto
    ultimately show ?thesis using Some by (simp add: psubset_card_mono finite_parents_in)
  qed simp
qed simp

definition switch_fed :: "db \<Rightarrow> string list" where
  "switch_fed s = map to_node (filter is_switchable (grid_edges s))"

definition section_root :: "db \<Rightarrow> string \<Rightarrow> string" where
  "section_root s n = (case section_walk (map (\<lambda>x. (node_id x, parent_id x)) (grid_nodes s)) (switch_fed s) (Some n) [] of
       Some r \<Rightarrow> r | None \<Rightarrow> n)"

definition section_service_points :: "db \<Rightarrow> string \<Rightarrow> service_point list" where
  "section_service_points s n = service_points_at s (set (downstream_node_ids s n False))"

subsection \<open>Signals\<close>

definition shows_last_gasp :: "telemetry \<Rightarrow> bool" where
  "shows_last_gasp t \<longleftrightarrow> to_upper (case t_state t of None \<Rightarrow> [] | Some x \<Rightarrow> x) = ''LAST_GASP''"

definition meter_signal :: "db \<Rightarrow> string \<Rightarrow> string option" where
  "meter_signal s dev = (case latest_telemetry s dev of
       None \<Rightarrow> None
     | Some t \<Rightarrow> if shows_last_gasp t then Some ''last_gasp''
                else if heartbeat_timeout_s < now s - t_time t then Some ''heartbeat'' else None)"

definition meters_out :: "db \<Rightarrow> (string \<times> string) list" where
  "meters_out s = concat (map (\<lambda>d. case meter_signal s (device_id d) of None \<Rightarrow> [] | Some c \<Rightarrow> [(device_id d, c)])
     (filter (\<lambda>d. device_type d = ''smartmeter'') (devices s)))"

definition meter_is_back :: "db \<Rightarrow> string \<Rightarrow> bool" where
  "meter_is_back s dev = (case latest_telemetry s dev of
       None \<Rightarrow> False
     | Some t \<Rightarrow> \<not> shows_last_gasp t \<and> now s - t_time t \<le> heartbeat_timeout_s)"

subsection \<open>Cases\<close>

definition open_case :: "outage_case \<Rightarrow> bool" where
  "open_case c \<longleftrightarrow> case_status c = DETECTED \<or> case_status c = CONFIRMED"

definition open_case_for :: "db \<Rightarrow> string \<Rightarrow> outage_case option" where
  "open_case_for s n = (case filter (\<lambda>c. affected_node_id c = Some n \<and> open_case c) (outage_cases s) of
       [] \<Rightarrow> None | c # cs \<Rightarrow> Some (max_by detected_at c cs))"

definition put_case :: "uuid \<Rightarrow> (outage_case \<Rightarrow> outage_case) \<Rightarrow> unit run" where
  "put_case k f = modify (\<lambda>s. s\<lparr>outage_cases := update_where (\<lambda>c. case_id c = k) f (outage_cases s)\<rparr>)"

definition fk_error :: exn where
  "fk_error = DbError (Fmt ''violates foreign key constraint'' [])"

text \<open>\<^verbatim>\<open>INSERT INTO outage_cases\<close>: the node must exist.\<close>

definition insert_case :: "case_status \<Rightarrow> string \<Rightarrow> string \<Rightarrow> nat \<Rightarrow> string option \<Rightarrow> uuid run" where
  "insert_case st cause n cust notes s =
     (if n \<notin> set (node_ids s) then (Inl fk_error, s\<lparr>next_uuid := Suc (next_uuid s)\<rparr>)
      else (Inr (next_uuid s), s\<lparr>next_uuid := Suc (next_uuid s), outage_cases := outage_cases s @
        [\<lparr>case_id = next_uuid s, case_status = st, case_cause = cause, affected_node_id = Some n,
          customers_affected = cust, detected_at = now s, confirmed_at = None, restored_at = None,
          closed_at = None, case_notes = notes, case_version = current_model_version s\<rparr>]\<rparr>))"

definition add_case_meter :: "uuid \<Rightarrow> string \<times> string option \<Rightarrow> unit run" where
  "add_case_meter k dm s = (let (dev, mnode) = dm in
     if list_ex (\<lambda>m. cm_case m = k \<and> cm_meter m = dev) (case_meters s) then (Inr (), s)
     else if dev \<notin> set (map device_id (devices s)) \<or> \<not> ref_ok mnode (node_ids s) then (Inl fk_error, s)
     else (Inr (), s\<lparr>case_meters := case_meters s @ [\<lparr>cm_case = k, cm_meter = dev, cm_node = mnode\<rparr>]\<rparr>))"

fun each :: "('a \<Rightarrow> unit run) \<Rightarrow> 'a list \<Rightarrow> unit run" where
  "each f [] = ret ()"
| "each f (x # xs) = bindS (f x) (\<lambda>_. each f xs)"

definition joint_cause :: "string list \<Rightarrow> string" where
  "joint_cause causes = (case causes of [] \<Rightarrow> ''unknown'' | [c] \<Rightarrow> c | _ \<Rightarrow> ''mixed'')"

definition upsert_case :: "string \<Rightarrow> (string \<times> string option) list \<Rightarrow> string list \<Rightarrow> (uuid \<times> bool) run" where
  "upsert_case n meters causes s =
     (let cust = length (section_service_points s n) in
      bindS (case open_case_for s n of
               Some c \<Rightarrow> bindS (put_case (case_id c) (\<lambda>c. c\<lparr>customers_affected := cust, case_cause := joint_cause causes\<rparr>))
                              (\<lambda>_. ret (case_id c, False))
             | None \<Rightarrow> bindS (insert_case DETECTED (joint_cause causes) n cust None) (\<lambda>k. ret (k, True)))
        (\<lambda>(k, created). bindS (each (add_case_meter k) meters) (\<lambda>_. ret (k, created))) s)"

subsection \<open>The sweep\<close>

type_synonym signal_group = "(string \<times> string option) list \<times> string list"

definition add_signal :: "string \<Rightarrow> string option \<Rightarrow> string option \<Rightarrow> string \<Rightarrow> (string \<times> signal_group) list
    \<Rightarrow> (string \<times> signal_group) list" where
  "add_signal n dev mnode cause gs =
     (let (ms, cs) = dict_get gs n ([], []) in
      dict_put n (case dev of Some d \<Rightarrow> if d = [] then ms else dict_put d mnode ms | None \<Rightarrow> ms,
                  if cause \<in> set cs then cs else cs @ [cause]) gs)"

definition opt_given :: "string option \<Rightarrow> string option" where
  "opt_given x = (case x of Some [] \<Rightarrow> None | y \<Rightarrow> y)"

definition report_mnode :: "db \<Rightarrow> outage_report \<Rightarrow> string option" where
  "report_mnode s r =
     (case opt_given (report_node r) of
        Some n \<Rightarrow> Some n
      | None \<Rightarrow>
          (case (case opt_given (report_meter r) of Some d \<Rightarrow> meter_node s d | None \<Rightarrow> None) of
             Some n \<Rightarrow> Some n
           | None \<Rightarrow> (case opt_given (report_customer r) of
               None \<Rightarrow> None
             | Some k \<Rightarrow> (case find (\<lambda>p. sp_customer p = Some k) (service_points s) of
                 Some p \<Rightarrow> sp_node p | None \<Rightarrow> None))))"

definition root_or :: "db \<Rightarrow> string option \<Rightarrow> string \<Rightarrow> string" where
  "root_or s mn dflt = (case opt_given mn of Some n \<Rightarrow> section_root s n | None \<Rightarrow> dflt)"

definition add_meter_signal :: "db \<Rightarrow> string \<times> string \<Rightarrow> (string \<times> signal_group) list \<Rightarrow> (string \<times> signal_group) list" where
  "add_meter_signal s dc gs = (let mn = meter_node s (fst dc) in
     add_signal (root_or s mn (fst dc)) (Some (fst dc)) mn (snd dc) gs)"

definition add_report_signal :: "db \<Rightarrow> outage_report \<Rightarrow> (string \<times> signal_group) list \<Rightarrow> (string \<times> signal_group) list" where
  "add_report_signal s r gs = (let mn = report_mnode s r in
     add_signal (root_or s mn ''UNKNOWN'') (report_meter r) mn ''manual'' gs)"

definition meter_groups :: "db \<Rightarrow> (string \<times> signal_group) list" where
  "meter_groups s = fold (add_meter_signal s) (meters_out s) []"

definition report_groups :: "db \<Rightarrow> outage_report list \<Rightarrow> (string \<times> signal_group) list \<Rightarrow> (string \<times> signal_group) list" where
  "report_groups s = fold (add_report_signal s)"

definition new_reports :: "db \<Rightarrow> outage_report list" where
  "new_reports s = filter (\<lambda>r. report_status r = R_NEW) (outage_reports s)"

fun upsert_groups :: "(string \<times> signal_group) list \<Rightarrow> (uuid \<times> bool) list run" where
  "upsert_groups [] = ret []"
| "upsert_groups ((n, (ms, cs)) # gs) =
     (if n = ''UNKNOWN'' then upsert_groups gs
      else bindS (upsert_case n ms cs) (\<lambda>r. bindS (upsert_groups gs) (\<lambda>rs. ret (r # rs))))"

definition mark_confirmed :: "rat \<Rightarrow> outage_case \<Rightarrow> outage_case" where
  "mark_confirmed t c = c\<lparr>case_status := CONFIRMED, confirmed_at := Some t,
     case_cause := (if case_cause c = ''manual'' then ''manual'' else ''mixed'')\<rparr>"

definition covering_case :: "db \<Rightarrow> outage_report \<Rightarrow> outage_case option" where
  "covering_case s r = (let root = root_or s (report_mnode s r) [] in
     if root = [] then None else open_case_for s root)"

definition link_report :: "outage_report \<Rightarrow> unit run" where
  "link_report r s =
     (case covering_case s r of
        None \<Rightarrow> (Inr (), s)
      | Some c \<Rightarrow>
          (Inr (), s\<lparr>outage_reports := update_where (\<lambda>x. report_id x = report_id r)
                       (\<lambda>x. x\<lparr>report_status := R_LINKED, report_case := Some (case_id c)\<rparr>) (outage_reports s),
                     outage_cases := (if case_status c = DETECTED
                       then update_where (\<lambda>x. case_id x = case_id c) (mark_confirmed (now s)) (outage_cases s)
                       else outage_cases s)\<rparr>))"

definition meters_of_case :: "db \<Rightarrow> uuid \<Rightarrow> string list" where
  "meters_of_case s k = map cm_meter (filter (\<lambda>m. cm_case m = k) (case_meters s))"

definition restorable :: "db \<Rightarrow> outage_case \<Rightarrow> bool" where
  "restorable s c \<longleftrightarrow> open_case c \<and> meters_of_case s (case_id c) \<noteq> [] \<and>
     list_all (meter_is_back s) (meters_of_case s (case_id c))"

definition restore_cases :: "uuid list run" where
  "restore_cases s =
     (let ks = map case_id (filter (restorable s) (outage_cases s)) in
      (Inr ks, s\<lparr>outage_cases := update_where (\<lambda>c. case_id c \<in> set ks)
         (\<lambda>c. c\<lparr>case_status := RESTORED, restored_at := Some (now s)\<rparr>) (outage_cases s)\<rparr>))"

record sweep_report =
  sw_created :: "uuid list"
  sw_updated :: "uuid list"
  sw_restored :: "uuid list"
  sw_meters_out :: "string list"
  sw_new_reports :: nat

definition run_detection :: "sweep_report run" where
  "run_detection s =
     (let reports = new_reports s; groups = report_groups s reports (meter_groups s) in
      bindS (upsert_groups groups) (\<lambda>rs.
      bindS (each link_report reports) (\<lambda>_.
      bindS restore_cases (\<lambda>restored s'.
        (Inr \<lparr>sw_created = map fst (filter snd rs), sw_updated = map fst (filter (\<lambda>r. \<not> snd r) rs),
              sw_restored = restored, sw_meters_out = map fst (meters_out s'), sw_new_reports = length reports\<rparr>, s')))) s)"

subsection \<open>Endpoints\<close>

definition detect :: "principal option \<Rightarrow> sweep_report run" where
  "detect po = bindS (lift (\<lambda>_. require_role [Operator, Engineer, Admin, Service] po)) (\<lambda>_. run_detection)"

definition call_handler :: "principal option \<Rightarrow> outage_report \<Rightarrow> (outage_report \<times> sweep_report) run" where
  "call_handler po r = bindS (lift (\<lambda>_. require_role [Operator, Engineer, Admin] po)) (\<lambda>_ s.
     let k = next_uuid s;
         row = r\<lparr>report_id := k, report_status := R_NEW, report_case := None, report_created := now s\<rparr> in
     if ref_ok (report_customer r) (map customer_id (customers s)) \<and> ref_ok (report_meter r) (map device_id (devices s))
        \<and> ref_ok (report_node r) (node_ids s)
     then bindS run_detection (\<lambda>d s'. case find (\<lambda>x. report_id x = k) (outage_reports s') of
            Some x \<Rightarrow> (Inr (x, d), s') | None \<Rightarrow> (Inr (row, d), s'))
          (s\<lparr>next_uuid := Suc k, outage_reports := outage_reports s @ [row]\<rparr>)
     else (Inl fk_error, s\<lparr>next_uuid := Suc k\<rparr>))"

definition find_case :: "db \<Rightarrow> uuid \<Rightarrow> outage_case option" where
  "find_case s k = find (\<lambda>c. case_id c = k) (outage_cases s)"

definition causes_allowed :: "string list" where
  "causes_allowed = [''last_gasp'', ''heartbeat'', ''manual'', ''mixed'', ''unknown'']"

definition create_case :: "principal option \<Rightarrow> string \<Rightarrow> string \<Rightarrow> string option \<Rightarrow> outage_case option run" where
  "create_case po n cause notes = bindS (lift (\<lambda>_. require_role [Operator, Engineer, Admin] po)) (\<lambda>_ s.
     if n \<notin> set (node_ids s) then (unknown ''node'' n, s)
     else if cause \<notin> set causes_allowed
     then (Inl (DbError (Fmt ''violates check constraint'' [])), s\<lparr>next_uuid := Suc (next_uuid s)\<rparr>)
     else bindS (insert_case CONFIRMED cause n (length (section_service_points s n)) notes) (\<lambda>k.
          bindS (\<lambda>s. put_case k (\<lambda>c. c\<lparr>confirmed_at := Some (now s)\<rparr>) s) (\<lambda>_ s. (Inr (find_case s k), s))) s)"

definition case_status_of :: "string \<Rightarrow> case_status option" where
  "case_status_of st = (let u = to_upper st in
     if u = ''DETECTED'' then Some DETECTED else if u = ''CONFIRMED'' then Some CONFIRMED
     else if u = ''RESTORED'' then Some RESTORED else if u = ''CLOSED'' then Some CLOSED else None)"

definition stamp_case :: "rat \<Rightarrow> case_status \<Rightarrow> outage_case \<Rightarrow> outage_case" where
  "stamp_case t st c = (case st of
       DETECTED \<Rightarrow> c\<lparr>case_status := st\<rparr>
     | CONFIRMED \<Rightarrow> c\<lparr>case_status := st, confirmed_at := Some t\<rparr>
     | RESTORED \<Rightarrow> c\<lparr>case_status := st, restored_at := Some t\<rparr>
     | CLOSED \<Rightarrow> c\<lparr>case_status := st, closed_at := Some t\<rparr>)"

definition update_case :: "principal option \<Rightarrow> uuid \<Rightarrow> string option \<Rightarrow> string option \<Rightarrow> outage_case option run" where
  "update_case po k st notes = bindS (lift (\<lambda>_. require_role [Operator, Engineer, Admin] po)) (\<lambda>_ s.
     if find_case s k = None then http 404 ''unknown case'' [] s
     else
       let note = (\<lambda>c. case notes of None \<Rightarrow> c | Some x \<Rightarrow> c\<lparr>case_notes := Some x\<rparr>) in
       case opt_given st of
         None \<Rightarrow> bindS (put_case k note) (\<lambda>_ s. (Inr (find_case s k), s)) s
       | Some x \<Rightarrow> (case case_status_of x of
           None \<Rightarrow> http 422 ''invalid status {}'' [x] s
         | Some v \<Rightarrow> bindS (put_case k (note \<circ> stamp_case (now s) v)) (\<lambda>_ s. (Inr (find_case s k), s)) s))"

end
