(* ===== verification/Oms_Sweep.thy ===== *)
theory Oms_Sweep
  imports Oms Demo_Network
begin

text \<open>
  The detection sweep of the outage management system as a whole: what it leaves alone, what it
  only adds to, that it attaches every located outage to an open case, restores only what is back,
  and is idempotent on open cases; and three situations in which it falls short.
\<close>

subsection \<open>Growth of the case tables\<close>

text \<open>What a sweep leaves alone, and what it only adds to before its restoration step.\<close>

definition same_signals :: "db \<Rightarrow> db \<Rightarrow> bool" where
  "same_signals s s' \<longleftrightarrow> grid_nodes s' = grid_nodes s \<and> grid_edges s' = grid_edges s \<and> devices s' = devices s \<and>
     service_points s' = service_points s \<and> telemetry_rows s' = telemetry_rows s \<and> now s' = now s"

definition open_at :: "db \<Rightarrow> string \<Rightarrow> bool" where
  "open_at s n \<longleftrightarrow> (\<exists>c\<in>set (outage_cases s). affected_node_id c = Some n \<and> open_case c)"

definition attached :: "db \<Rightarrow> string \<Rightarrow> string \<Rightarrow> bool" where
  "attached s n dev \<longleftrightarrow> (\<exists>c\<in>set (outage_cases s). affected_node_id c = Some n \<and> open_case c \<and>
     dev \<in> set (meters_of_case s (case_id c)))"

definition keeps_open :: "outage_case list \<Rightarrow> outage_case list \<Rightarrow> bool" where
  "keeps_open cs cs' \<longleftrightarrow> (\<forall>c\<in>set cs. open_case c \<longrightarrow> (\<exists>c'\<in>set cs'. case_id c' = case_id c \<and>
       affected_node_id c' = affected_node_id c \<and> open_case c'))"

definition grows :: "db \<Rightarrow> db \<Rightarrow> bool" where
  "grows s s' \<longleftrightarrow> same_signals s s' \<and> keeps_open (outage_cases s) (outage_cases s') \<and>
     set (case_meters s) \<subseteq> set (case_meters s')"

lemma same_signals_simps:
  assumes "same_signals s s'"
  shows "meter_node s' = meter_node s" "section_root s' = section_root s" "meters_out s' = meters_out s"
    "meter_is_back s' = meter_is_back s" "report_mnode s' = report_mnode s" "root_or s' = root_or s"
    "node_ids s' = node_ids s" "meter_groups s' = meter_groups s" "report_groups s' = report_groups s"
proof -
  have eqs: "grid_nodes s' = grid_nodes s" "grid_edges s' = grid_edges s" "devices s' = devices s"
     "service_points s' = service_points s" "telemetry_rows s' = telemetry_rows s" "now s' = now s"
    using assms by (simp_all add: same_signals_def)
  show 1: "meter_node s' = meter_node s" by (simp add: fun_eq_iff meter_node_def eqs cong: option.case_cong)
  show 2: "section_root s' = section_root s" by (simp add: fun_eq_iff section_root_def switch_fed_def eqs cong: option.case_cong)
  have lt: "latest_telemetry s' = latest_telemetry s" by (simp add: fun_eq_iff latest_telemetry_def eqs)
  have "meter_signal s' = meter_signal s" by (simp add: fun_eq_iff meter_signal_def lt eqs split: option.split)
  then show 3: "meters_out s' = meters_out s" by (simp add: meters_out_def eqs)
  show "meter_is_back s' = meter_is_back s"
    by (simp add: fun_eq_iff meter_is_back_def lt eqs split: option.split)
  show 4: "report_mnode s' = report_mnode s" by (simp add: fun_eq_iff report_mnode_def 1 eqs cong: option.case_cong)
  show 5: "root_or s' = root_or s" by (simp add: fun_eq_iff root_or_def 2 cong: option.case_cong)
  show "node_ids s' = node_ids s" by (simp add: node_ids_def eqs)
  have "add_meter_signal s' = add_meter_signal s" by (simp add: fun_eq_iff add_meter_signal_def 1 5)
  then show "meter_groups s' = meter_groups s" by (simp add: meter_groups_def 3)
  have "add_report_signal s' = add_report_signal s" by (simp add: fun_eq_iff add_report_signal_def 4 5)
  then show "report_groups s' = report_groups s" by (intro ext) (simp add: report_groups_def)
qed

lemma keeps_open_refl: "keeps_open cs cs"
  by (auto simp: keeps_open_def)

lemma keeps_open_trans: "keeps_open a b \<Longrightarrow> keeps_open b c \<Longrightarrow> keeps_open a c"
  unfolding keeps_open_def by metis

lemma keeps_open_append: "keeps_open cs (cs @ xs)"
  by (auto simp: keeps_open_def)

lemma keeps_open_update:
  assumes "\<And>c. case_id (f c) = case_id c" "\<And>c. affected_node_id (f c) = affected_node_id c"
    "\<And>c. open_case c \<Longrightarrow> open_case (f c)"
  shows "keeps_open cs (update_where p f cs)"
  unfolding keeps_open_def
proof (intro ballI impI)
  fix c assume c: "c \<in> set cs" "open_case c"
  let ?c = "if p c then f c else c"
  have "?c \<in> set (update_where p f cs)" using c(1) in_set_update_where by metis
  moreover have "case_id ?c = case_id c \<and> affected_node_id ?c = affected_node_id c \<and> open_case ?c"
    using assms c(2) by simp
  ultimately show "\<exists>c'\<in>set (update_where p f cs). case_id c' = case_id c \<and>
      affected_node_id c' = affected_node_id c \<and> open_case c'" by blast
qed

lemma same_signals_trans: "same_signals s s' \<Longrightarrow> same_signals s' s'' \<Longrightarrow> same_signals s s''"
  by (simp add: same_signals_def)

lemma grows_same: "grows s s' \<Longrightarrow> same_signals s s'"
  by (simp add: grows_def)

lemma grows_refl: "grows s s"
  by (simp add: grows_def same_signals_def keeps_open_refl)

lemma grows_trans: "grows s s' \<Longrightarrow> grows s' s'' \<Longrightarrow> grows s s''"
  unfolding grows_def using same_signals_trans keeps_open_trans by blast

lemma grows_open_at: "grows s s' \<Longrightarrow> open_at s n \<Longrightarrow> open_at s' n"
  unfolding grows_def keeps_open_def open_at_def by metis

lemma meters_of_case_mono:
  "set (case_meters s) \<subseteq> set (case_meters s') \<Longrightarrow> set (meters_of_case s k) \<subseteq> set (meters_of_case s' k)"
  by (auto simp: meters_of_case_def)

lemma grows_attached: "grows s s' \<Longrightarrow> attached s n dev \<Longrightarrow> attached s' n dev"
proof -
  assume g: "grows s s'" and a: "attached s n dev"
  then obtain c where c: "c \<in> set (outage_cases s)" "affected_node_id c = Some n" "open_case c"
      "dev \<in> set (meters_of_case s (case_id c))" by (auto simp: attached_def)
  then obtain c' where c': "c' \<in> set (outage_cases s')" "case_id c' = case_id c"
      "affected_node_id c' = affected_node_id c" "open_case c'"
    using g by (auto simp: grows_def keeps_open_def)
  have "dev \<in> set (meters_of_case s' (case_id c'))"
    using c(4) c'(2) meters_of_case_mono [of s s'] g by (auto simp: grows_def)
  with c c' show ?thesis by (auto simp: attached_def)
qed

lemma open_case_for_iff: "open_case_for s n \<noteq> None \<longleftrightarrow> open_at s n"
proof -
  have "open_case_for s n = None \<longleftrightarrow> filter (\<lambda>c. affected_node_id c = Some n \<and> open_case c) (outage_cases s) = []"
    by (simp add: open_case_for_def split: list.splits)
  then show ?thesis by (auto simp: open_at_def filter_empty_conv)
qed

lemma open_case_for_in:
  assumes "open_case_for s n = Some c"
  shows "c \<in> set (outage_cases s)" "affected_node_id c = Some n" "open_case c"
proof -
  obtain x xs where f: "filter (\<lambda>c. affected_node_id c = Some n \<and> open_case c) (outage_cases s) = x # xs"
      and c: "c = max_by detected_at x xs"
    using assms by (auto simp: open_case_for_def split: list.splits)
  have "c \<in> set (x # xs)" using max_by_in [of detected_at x xs] c by simp
  also have "set (x # xs) = {c \<in> set (outage_cases s). affected_node_id c = Some n \<and> open_case c}"
    by (simp flip: f)
  finally show "c \<in> set (outage_cases s)" "affected_node_id c = Some n" "open_case c" by auto
qed

lemma add_case_meter_ok:
  assumes "add_case_meter k (dev, mnode) s = (Inr u, s')"
  shows "grows s s'" "dev \<in> set (meters_of_case s' k)" "outage_reports s' = outage_reports s"
    "outage_cases s' = outage_cases s"
  using assms
  by (auto simp: add_case_meter_def grows_def same_signals_def keeps_open_refl meters_of_case_def list_ex_iff
      image_iff Bex_def split: if_splits)

lemma each_case_meters_ok:
  "each (add_case_meter k) ms s = (Inr u, s') \<Longrightarrow>
     grows s s' \<and> fst ` set ms \<subseteq> set (meters_of_case s' k) \<and> outage_reports s' = outage_reports s \<and>
     outage_cases s' = outage_cases s"
proof (induction ms arbitrary: s)
  case Nil
  then show ?case by (simp add: grows_refl)
next
  case (Cons m ms)
  obtain dev mnode where m: "m = (dev, mnode)" by fastforce
  obtain u1 s1 where 1: "add_case_meter k (dev, mnode) s = (Inr u1, s1)"
      and 2: "each (add_case_meter k) ms s1 = (Inr u, s')"
    using Cons.prems m by (auto simp: bindS_def split: prod.splits sum.splits)
  note a = add_case_meter_ok [OF 1] and b = Cons.IH [OF 2]
  have "dev \<in> set (meters_of_case s' k)"
    using a(2) b meters_of_case_mono [of s1 s'] by (auto simp: grows_def)
  with a b m grows_trans show ?case by auto
qed

lemma put_case_run: "put_case k f s = (Inr (), s\<lparr>outage_cases := update_where (\<lambda>c. case_id c = k) f (outage_cases s)\<rparr>)"
  by (simp add: put_case_def)

lemma insert_case_ok:
  assumes "insert_case st cause n cust notes s = (Inr k, s')"
  shows "grows s s'" "st = DETECTED \<Longrightarrow> \<exists>c\<in>set (outage_cases s'). case_id c = k \<and> affected_node_id c = Some n \<and> open_case c"
    "outage_reports s' = outage_reports s" "n \<in> set (node_ids s)"
  using assms
  by (auto simp: insert_case_def grows_def same_signals_def keeps_open_append open_case_def split: if_splits)

text \<open>One group: its case is open afterwards and carries all its meters.\<close>

lemma upsert_case_ok:
  assumes "upsert_case n ms cs s = (Inr (k, b), s')"
  shows "grows s s'" "\<exists>c\<in>set (outage_cases s'). case_id c = k \<and> affected_node_id c = Some n \<and> open_case c"
    "fst ` set ms \<subseteq> set (meters_of_case s' k)" "outage_reports s' = outage_reports s"
    "b \<Longrightarrow> \<not> open_at s n \<and> n \<in> set (node_ids s)"
proof -
  obtain s1 where 1: "each (add_case_meter k) ms s1 = (Inr (), s')" and g: "grows s s1"
      and o: "\<exists>c\<in>set (outage_cases s1). case_id c = k \<and> affected_node_id c = Some n \<and> open_case c"
      and r: "outage_reports s1 = outage_reports s" and b: "b \<Longrightarrow> \<not> open_at s n \<and> n \<in> set (node_ids s)"
  proof (cases "open_case_for s n")
    case None
    obtain k1 s1 where 1: "insert_case DETECTED (joint_cause cs) n (length (section_service_points s n)) None s = (Inr k1, s1)"
        and 2: "each (add_case_meter k) ms s1 = (Inr (), s')" and k: "k = k1" "b = True"
      using assms None by (auto simp: upsert_case_def bindS_def split: prod.splits sum.splits)
    note ins = insert_case_ok [OF 1]
    have "\<not> open_at s n" using None open_case_for_iff [of s n] by simp
    then show thesis using that [of s1] 2 ins k by simp
  next
    case (Some c)
    define f where "f = (\<lambda>c::outage_case. c\<lparr>customers_affected := length (section_service_points s n), case_cause := joint_cause cs\<rparr>)"
    let ?s1 = "s\<lparr>outage_cases := update_where (\<lambda>x. case_id x = case_id c) f (outage_cases s)\<rparr>"
    have 2: "each (add_case_meter k) ms ?s1 = (Inr (), s')" and k: "k = case_id c" "b = False"
      using assms Some by (auto simp: upsert_case_def bindS_def put_case_run f_def split: prod.splits sum.splits)
    have ko: "keeps_open (outage_cases s) (outage_cases ?s1)"
      by (simp, rule keeps_open_update) (simp_all add: f_def open_case_def)
    have "\<exists>x\<in>set (outage_cases ?s1). case_id x = k \<and> affected_node_id x = Some n \<and> open_case x"
      using ko open_case_for_in [OF Some] k unfolding keeps_open_def by metis
    then show thesis using that [of ?s1] 2 k ko by (simp add: grows_def same_signals_def)
  qed
  note e = each_case_meters_ok [OF 1]
  show "grows s s'" using g e grows_trans by blast
  show "\<exists>c\<in>set (outage_cases s'). case_id c = k \<and> affected_node_id c = Some n \<and> open_case c" using o e by simp
  show "fst ` set ms \<subseteq> set (meters_of_case s' k)" "outage_reports s' = outage_reports s" using e r by simp_all
  show "b \<Longrightarrow> \<not> open_at s n \<and> n \<in> set (node_ids s)" by (rule b)
qed

lemma bindS_Inr: "bindS m f s = (Inr y, s') \<Longrightarrow> \<exists>x s1. m s = (Inr x, s1) \<and> f x s1 = (Inr y, s')"
  by (auto simp: bindS_def split: prod.splits sum.splits)

lemma ret_Inr: "ret x s = (Inr y, s') \<Longrightarrow> y = x \<and> s' = s"
  by simp

lemma upsert_groups_ok:
  "upsert_groups gs s = (Inr rs, s') \<Longrightarrow>
     grows s s' \<and> outage_reports s' = outage_reports s \<and>
     (\<forall>n ms cs. (n, ms, cs) \<in> set gs \<longrightarrow> n \<noteq> ''UNKNOWN'' \<longrightarrow> open_at s' n \<and> (\<forall>d\<in>fst ` set ms. attached s' n d)) \<and>
     (\<forall>r\<in>set rs. snd r \<longrightarrow> (\<exists>n\<in>fst ` set gs. n \<noteq> ''UNKNOWN'' \<and> \<not> open_at s n \<and> n \<in> set (node_ids s)))"
proof (induction gs arbitrary: s rs)
  case Nil
  then show ?case by (simp add: grows_refl)
next
  case (Cons g gs)
  obtain n ms cs where g: "g = (n, ms, cs)" by (cases g) auto
  show ?case
  proof (cases "n = ''UNKNOWN''")
    case True
    then have "upsert_groups gs s = (Inr rs, s')" using Cons.prems g by simp
    from Cons.IH [OF this] g True show ?thesis by auto
  next
    case False
    have run: "bindS (upsert_case n ms cs) (\<lambda>r. bindS (upsert_groups gs) (\<lambda>rs. ret (r # rs))) s = (Inr rs, s')"
      using Cons.prems g False by simp
    obtain r0 s1 where 1: "upsert_case n ms cs s = (Inr r0, s1)"
        and run1: "bindS (upsert_groups gs) (\<lambda>rs. ret (r0 # rs)) s1 = (Inr rs, s')"
      using bindS_Inr [OF run] by blast
    obtain rs1 s2 where 2: "upsert_groups gs s1 = (Inr rs1, s2)" and 3: "ret (r0 # rs1) s2 = (Inr rs, s')"
      using bindS_Inr [OF run1] by blast
    have s2: "s2 = s'" and rs: "rs = r0 # rs1" using ret_Inr [OF 3] by auto
    note 2 = 2 [unfolded s2]
    obtain k b where r0: "r0 = (k, b)" by (cases r0)
    note 1 = 1 [unfolded r0]
    note u = upsert_case_ok [OF 1] and ih = Cons.IH [OF 2]
    note ih2 = conjunct1 [OF conjunct2 [OF ih]]
    note ih3 = conjunct1 [OF conjunct2 [OF conjunct2 [OF ih]]]
    note ih4 = conjunct2 [OF conjunct2 [OF conjunct2 [OF ih]]]
    have gr1: "grows s1 s'" by (rule conjunct1 [OF ih])
    have gr: "grows s s'" by (rule grows_trans [OF u(1) gr1])
    have o1: "open_at s1 n" "\<forall>d\<in>fst ` set ms. attached s1 n d"
      using u(2,3) by (auto simp: open_at_def attached_def)
    have oo: "open_at s' n" "\<forall>d\<in>fst ` set ms. attached s' n d"
      using o1 grows_open_at [OF gr1] grows_attached [OF gr1] by blast+
    have ni: "node_ids s1 = node_ids s" by (rule same_signals_simps(7) [OF grows_same [OF u(1)]])
    have "\<exists>n\<in>fst ` set (g # gs). n \<noteq> ''UNKNOWN'' \<and> \<not> open_at s n \<and> n \<in> set (node_ids s)"
      if rr: "r \<in> set rs" "snd r" for r
    proof (cases "r = r0")
      case True
      then have "\<not> open_at s n \<and> n \<in> set (node_ids s)" using u(5) rr(2) r0 by simp
      then show ?thesis using False g by simp
    next
      case r: False
      then have "r \<in> set rs1" using rr(1) rs by auto
      then obtain m where "m \<in> fst ` set gs" "m \<noteq> ''UNKNOWN''" "\<not> open_at s1 m" "m \<in> set (node_ids s1)"
        using ih4 rr(2) by blast
      moreover from this have "\<not> open_at s m" using grows_open_at [OF u(1)] by blast
      ultimately show ?thesis using ni by (auto simp: g)
    qed
    moreover have "outage_reports s' = outage_reports s" using ih2 u(4) by simp
    moreover have "\<forall>n' ms' cs'. (n', ms', cs') \<in> set (g # gs) \<longrightarrow> n' \<noteq> ''UNKNOWN'' \<longrightarrow>
        open_at s' n' \<and> (\<forall>d\<in>fst ` set ms'. attached s' n' d)"
    proof (intro allI impI)
      fix n' ms' cs' assume a: "(n', ms', cs') \<in> set (g # gs)" "n' \<noteq> ''UNKNOWN''"
      show "open_at s' n' \<and> (\<forall>d\<in>fst ` set ms'. attached s' n' d)"
      proof (cases "(n', ms', cs') = g")
        case True
        with oo g show ?thesis by simp
      next
        case False
        with a have "(n', ms', cs') \<in> set gs" by simp
        with ih3 a(2) show ?thesis by blast
      qed
    qed
    ultimately show ?thesis using gr by blast
  qed
qed

lemma covering_open: "covering_case s r = Some c \<Longrightarrow> c \<in> set (outage_cases s) \<and> open_case c"
  using open_case_for_in by (auto simp: covering_case_def Let_def split: if_splits)

lemma covering_grows:
  assumes "grows s s'" "covering_case s r \<noteq> None"
  shows "covering_case s' r \<noteq> None"
proof -
  let ?n = "root_or s (report_mnode s r) []"
  have "?n \<noteq> []" "open_case_for s ?n \<noteq> None" using assms(2) by (auto simp: covering_case_def Let_def split: if_splits)
  moreover have "root_or s' (report_mnode s' r) [] = ?n"
    by (simp add: same_signals_simps [OF grows_same [OF assms(1)]])
  ultimately show ?thesis
    using assms(1) grows_open_at open_case_for_iff by (simp add: covering_case_def)
qed

lemma link_report_ok:
  obtains s' where "link_report r s = (Inr (), s')" "grows s s'"
    "\<And>x. x \<in> set (outage_reports s') \<Longrightarrow> report_status x = R_NEW \<Longrightarrow>
       x \<in> set (outage_reports s) \<and> (report_id x = report_id r \<longrightarrow> covering_case s r = None)"
proof (cases "covering_case s r")
  case None
  then show ?thesis using that [of s] by (simp add: link_report_def grows_refl)
next
  case (Some c)
  let ?f = "\<lambda>x. x\<lparr>report_status := R_LINKED, report_case := Some (case_id c)\<rparr>"
  let ?cs = "if case_status c = DETECTED then update_where (\<lambda>x. case_id x = case_id c) (mark_confirmed (now s)) (outage_cases s)
      else outage_cases s"
  let ?s = "s\<lparr>outage_reports := update_where (\<lambda>x. report_id x = report_id r) ?f (outage_reports s), outage_cases := ?cs\<rparr>"
  have "keeps_open (outage_cases s) ?cs"
    using keeps_open_update [of "mark_confirmed (now s)"] keeps_open_refl
    by (simp add: mark_confirmed_def open_case_def)
  then have g: "grows s ?s" by (simp add: grows_def same_signals_def)
  have "x \<in> set (outage_reports s) \<and> report_id x \<noteq> report_id r"
    if x: "x \<in> set (outage_reports ?s)" "report_status x = R_NEW" for x
  proof -
    from x(1) obtain y where y: "y \<in> set (outage_reports s)" "x = (if report_id y = report_id r then ?f y else y)"
      by (auto simp: in_set_update_where)
    then show ?thesis using x(2) by (cases "report_id y = report_id r") auto
  qed
  then show ?thesis using that [of ?s] Some g by (simp add: link_report_def)
qed

lemma each_link_ok:
  "\<exists>s'. each link_report rs s = (Inr (), s') \<and> grows s s' \<and>
     (\<forall>x\<in>set (outage_reports s'). report_status x = R_NEW \<longrightarrow> x \<in> set (outage_reports s) \<and>
        (\<forall>r\<in>set rs. report_id r = report_id x \<longrightarrow> covering_case s r = None))"
proof (induction rs arbitrary: s)
  case Nil
  then show ?case by (simp add: grows_refl)
next
  case (Cons r rs)
  obtain s1 where 1: "link_report r s = (Inr (), s1)" "grows s s1"
    and n1: "\<And>x. x \<in> set (outage_reports s1) \<Longrightarrow> report_status x = R_NEW \<Longrightarrow>
       x \<in> set (outage_reports s) \<and> (report_id x = report_id r \<longrightarrow> covering_case s r = None)"
    by (metis link_report_ok)
  obtain s2 where 2: "each link_report rs s1 = (Inr (), s2)" "grows s1 s2"
    and n2: "\<forall>x\<in>set (outage_reports s2). report_status x = R_NEW \<longrightarrow> x \<in> set (outage_reports s1) \<and>
        (\<forall>r\<in>set rs. report_id r = report_id x \<longrightarrow> covering_case s1 r = None)"
    using Cons.IH by blast
  have "covering_case s q = None" if "covering_case s1 q = None" for q
    using that covering_grows [OF 1(2)] by blast
  with n1 n2 have "\<forall>x\<in>set (outage_reports s2). report_status x = R_NEW \<longrightarrow> x \<in> set (outage_reports s) \<and>
        (\<forall>q\<in>set (r # rs). report_id q = report_id x \<longrightarrow> covering_case s q = None)" by fastforce
  moreover have "each link_report (r # rs) s = (Inr (), s2)" using 1 2 by (simp add: bindS_def)
  moreover have "grows s s2" using 1(2) 2(2) grows_trans by blast
  ultimately show ?case by blast
qed

subsection \<open>Groups\<close>

definition has_meter :: "(string \<times> signal_group) list \<Rightarrow> string \<Rightarrow> string \<Rightarrow> bool" where
  "has_meter gs n dev \<longleftrightarrow> dev \<in> fst ` set (fst (dict_get gs n ([], [])))"

lemma has_meter_group:
  assumes "has_meter gs n dev"
  shows "\<exists>ms cs. (n, ms, cs) \<in> set gs \<and> dev \<in> fst ` set ms"
proof (cases "map_of gs n")
  case (Some g)
  then show ?thesis using assms map_of_SomeD [OF Some]
    by (cases g) (auto simp: has_meter_def dict_get_def)
qed (use assms in \<open>simp add: has_meter_def dict_get_def\<close>)

lemma add_signal_keys: "fst ` set (add_signal n dev mnode cause gs) = insert n (fst ` set gs)"
  by (cases "dict_get gs n ([], [])") (simp add: add_signal_def dom_dict_put)

lemma add_signal_mono: "has_meter gs m d \<Longrightarrow> has_meter (add_signal n dev mnode cause gs) m d"
  by (cases "dict_get gs n ([], [])")
    (auto simp: add_signal_def has_meter_def dict_get_put dom_dict_put split: option.splits)

lemma add_signal_has: "dev \<noteq> [] \<Longrightarrow> has_meter (add_signal n (Some dev) mnode cause gs) n dev"
  by (cases "dict_get gs n ([], [])") (auto simp: add_signal_def has_meter_def dict_get_put dom_dict_put)

lemma fold_has_meter:
  "(\<And>x gs. has_meter gs m d \<Longrightarrow> has_meter (f x gs) m d) \<Longrightarrow> has_meter gs m d \<Longrightarrow> has_meter (fold f xs gs) m d"
  by (induction xs arbitrary: gs) auto

lemma fold_keys:
  "(\<And>x gs. fst ` set (f x gs) = insert (k x) (fst ` set gs)) \<Longrightarrow> fst ` set (fold f xs gs) = fst ` set gs \<union> k ` set xs"
  by (induction xs arbitrary: gs) auto

lemma report_groups_mono: "has_meter gs m d \<Longrightarrow> has_meter (report_groups s rs gs) m d"
  unfolding report_groups_def by (rule fold_has_meter) (simp_all add: add_report_signal_def Let_def add_signal_mono)

lemma report_groups_keys:
  "fst ` set (report_groups s rs gs) =
     fst ` set gs \<union> (\<lambda>r. root_or s (report_mnode s r) ''UNKNOWN'') ` set rs"
  unfolding report_groups_def by (rule fold_keys) (simp add: add_report_signal_def Let_def add_signal_keys)

lemma meter_groups_keys:
  "fst ` set (meter_groups s) = (\<lambda>dc. root_or s (meter_node s (fst dc)) (fst dc)) ` set (meters_out s)"
proof -
  have "fst ` set (meter_groups s) = fst ` set ([] :: (string \<times> signal_group) list) \<union>
      (\<lambda>dc. root_or s (meter_node s (fst dc)) (fst dc)) ` set (meters_out s)"
    unfolding meter_groups_def by (rule fold_keys) (simp add: add_meter_signal_def Let_def add_signal_keys)
  then show ?thesis by simp
qed

lemma meter_fold_has:
  "(d, c) \<in> set xs \<Longrightarrow> d \<noteq> [] \<Longrightarrow> has_meter (fold (add_meter_signal s) xs gs) (root_or s (meter_node s d) d) d"
proof (induction xs arbitrary: gs)
  case (Cons x xs)
  show ?case
  proof (cases "x = (d, c)")
    case True
    have "has_meter (add_meter_signal s x gs) (root_or s (meter_node s d) d) d"
      using Cons.prems True by (simp add: add_signal_has add_meter_signal_def Let_def)
    then have "has_meter (fold (add_meter_signal s) xs (add_meter_signal s x gs)) (root_or s (meter_node s d) d) d"
      by (rule fold_has_meter [rotated]) (simp add: add_meter_signal_def Let_def add_signal_mono)
    then show ?thesis by simp
  next
    case False
    with Cons show ?thesis by simp
  qed
qed simp

lemma meter_groups_has:
  "(d, c) \<in> set (meters_out s) \<Longrightarrow> d \<noteq> [] \<Longrightarrow> has_meter (meter_groups s) (root_or s (meter_node s d) d) d"
  unfolding meter_groups_def by (rule meter_fold_has)

lemma meters_out_iff: "(d, c) \<in> set (meters_out s) \<Longrightarrow> meter_signal s d = Some c"
  by (force simp: meters_out_def split: option.splits)

lemma out_not_back: "(d, c) \<in> set (meters_out s) \<Longrightarrow> \<not> meter_is_back s d"
proof -
  assume "(d, c) \<in> set (meters_out s)"
  then have sig: "meter_signal s d \<noteq> None" by (auto dest: meters_out_iff)
  then show ?thesis
    by (cases "latest_telemetry s d") (simp_all add: meter_signal_def meter_is_back_def not_le split: if_splits)
qed

subsection \<open>The sweep as a whole\<close>

lemma run_detection_steps:
  assumes "run_detection s = (Inr d, s')"
  obtains rs s1 s2 where
    "upsert_groups (report_groups s (new_reports s) (meter_groups s)) s = (Inr rs, s1)"
    "each link_report (new_reports s) s1 = (Inr (), s2)"
    "restore_cases s2 = (Inr (sw_restored d), s')" "sw_created d = map fst (filter snd rs)"
    "grows s s1" "grows s1 s2"
proof -
  let ?g = "report_groups s (new_reports s) (meter_groups s)"
  have run: "bindS (upsert_groups ?g) (\<lambda>rs. bindS (each link_report (new_reports s)) (\<lambda>_.
      bindS restore_cases (\<lambda>restored s'.
        (Inr \<lparr>sw_created = map fst (filter snd rs), sw_updated = map fst (filter (\<lambda>r. \<not> snd r) rs),
              sw_restored = restored, sw_meters_out = map fst (meters_out s'),
              sw_new_reports = length (new_reports s)\<rparr>, s')))) s = (Inr d, s')"
    using assms by (simp add: run_detection_def Let_def)
  obtain rs s1 where 1: "upsert_groups ?g s = (Inr rs, s1)" using bindS_Inr [OF run] by blast
  obtain s2 where 2: "each link_report (new_reports s) s1 = (Inr (), s2)" "grows s1 s2"
    using each_link_ok by blast
  obtain ks s3 where 3: "restore_cases s2 = (Inr ks, s3)" by (simp add: restore_cases_def Let_def)
  note step = run [unfolded bindS_def, simplified 1 prod.case sum.case 2(1) 3]
  have "sw_restored d = ks \<and> s' = s3 \<and> sw_created d = map fst (filter snd rs)"
    using step by auto
  then have "restore_cases s2 = (Inr (sw_restored d), s')" "sw_created d = map fst (filter snd rs)" using 3 by simp_all
  then show thesis by (rule that [OF 1 2(1) _ _ conjunct1 [OF upsert_groups_ok [OF 1]] 2(2)])
qed

lemma restore_cases_frame:
  assumes "restore_cases s = (Inr ks, s')"
  shows "same_signals s s'" "case_meters s' = case_meters s" "outage_reports s' = outage_reports s"
    "ks = map case_id (filter (restorable s) (outage_cases s))"
    "outage_cases s' = update_where (\<lambda>c. case_id c \<in> set ks) (\<lambda>c. c\<lparr>case_status := RESTORED, restored_at := Some (now s)\<rparr>) (outage_cases s)"
  using assms by (auto simp: restore_cases_def Let_def same_signals_def)

text \<open>Restoring leaves a case with a meter that is out as it is.\<close>

lemma restore_keeps_attached:
  assumes r: "restore_cases s = (Inr ks, s')" and a: "attached s n d" and b: "\<not> meter_is_back s d"
  shows "attached s' n d"
proof -
  obtain c where c: "c \<in> set (outage_cases s)" "affected_node_id c = Some n" "open_case c"
      "d \<in> set (meters_of_case s (case_id c))" using a by (auto simp: attached_def)
  note fr = restore_cases_frame [OF r]
  have "\<not> restorable s x" if "case_id x = case_id c" for x
    using c(4) b that by (auto simp: restorable_def list_all_iff)
  then have "case_id c \<notin> set ks" using fr(4) by auto
  then have "c \<in> set (outage_cases s')" using c(1) fr(5) by (force simp: in_set_update_where)
  moreover have "meters_of_case s' = meters_of_case s" by (simp add: fun_eq_iff meters_of_case_def fr(2))
  ultimately show ?thesis using c by (auto simp: attached_def)
qed

lemma sweep_attaches:
  assumes "run_detection s = (Inr d, s')" "(dev, cause) \<in> set (meters_out s)" "dev \<noteq> []"
    "root_or s (meter_node s dev) dev \<noteq> ''UNKNOWN''"
  shows "attached s' (root_or s (meter_node s dev) dev) dev"
proof -
  let ?n = "root_or s (meter_node s dev) dev"
  obtain rs s1 s2 where st: "upsert_groups (report_groups s (new_reports s) (meter_groups s)) s = (Inr rs, s1)"
    "restore_cases s2 = (Inr (sw_restored d), s')" "grows s s1" "grows s1 s2"
    using run_detection_steps [OF assms(1)] by metis
  have "has_meter (report_groups s (new_reports s) (meter_groups s)) ?n dev"
    by (rule report_groups_mono [OF meter_groups_has [OF assms(2,3)]])
  then obtain ms cs where "(?n, ms, cs) \<in> set (report_groups s (new_reports s) (meter_groups s))" "dev \<in> fst ` set ms"
    using has_meter_group by blast
  then have "attached s1 ?n dev"
    using conjunct1 [OF conjunct2 [OF conjunct2 [OF upsert_groups_ok [OF st(1)]]]] assms(4) by blast
  then have 2: "attached s2 ?n dev" by (rule grows_attached [OF st(4)])
  have "meter_is_back s2 = meter_is_back s"
    by (rule same_signals_simps(4) [OF grows_same [OF grows_trans [OF st(3,4)]]])
  then have "\<not> meter_is_back s2 dev" using out_not_back [OF assms(2)] by simp
  then show ?thesis by (rule restore_keeps_attached [OF st(2) 2])
qed

lemma sweep_reports:
  assumes "run_detection s = (Inr d, s')" "r \<in> set (new_reports s')"
  shows "r \<in> set (new_reports s)" and "root_or s (report_mnode s r) ''UNKNOWN'' \<noteq> ''UNKNOWN'' \<Longrightarrow>
    root_or s (report_mnode s r) ''UNKNOWN'' = []"
proof -
  let ?gs = "report_groups s (new_reports s) (meter_groups s)"
  obtain rs s1 s2 where st: "upsert_groups ?gs s = (Inr rs, s1)" "each link_report (new_reports s) s1 = (Inr (), s2)"
    "restore_cases s2 = (Inr (sw_restored d), s')" "grows s s1"
    using run_detection_steps [OF assms(1)] by metis
  note u = upsert_groups_ok [OF st(1)]
  have "r \<in> set (outage_reports s2)" and new: "report_status r = R_NEW"
    using assms(2) restore_cases_frame(3) [OF st(3)] by (auto simp: new_reports_def)
  then have r1: "r \<in> set (outage_reports s1)"
      and cov: "\<forall>q\<in>set (new_reports s). report_id q = report_id r \<longrightarrow> covering_case s1 q = None"
    using each_link_ok [of "new_reports s" s1] st(2) by auto
  have "outage_reports s1 = outage_reports s" by (rule conjunct1 [OF conjunct2 [OF u]])
  with r1 new show rs: "r \<in> set (new_reports s)" by (simp add: new_reports_def)
  assume n: "root_or s (report_mnode s r) ''UNKNOWN'' \<noteq> ''UNKNOWN''"
  let ?n = "root_or s (report_mnode s r) ''UNKNOWN''"
  have same: "root_or s1 (report_mnode s1 r) [] = ?n"
    using n by (simp add: same_signals_simps [OF grows_same [OF st(4)]] root_or_def split: option.splits)
  have "?n \<in> fst ` set ?gs" using rs by (simp add: report_groups_keys)
  then obtain ms cs where "(?n, ms, cs) \<in> set ?gs" by force
  then have "open_at s1 ?n" using conjunct1 [OF conjunct2 [OF conjunct2 [OF u]]] n by blast
  then have "open_case_for s1 ?n \<noteq> None" using open_case_for_iff by blast
  moreover have "covering_case s1 r = None" using cov rs by blast
  ultimately show "?n = []" using same by (auto simp: covering_case_def Let_def split: if_splits)
qed

text \<open>
  after a successful sweep every meter that shows an outage signal and is located in the
  network is attached to an open case of its section.
\<close>

theorem sweep_covers_outages:
  assumes "run_detection s = (Inr d, s')" "(dev, cause) \<in> set (meters_out s)" "dev \<noteq> []"
    "opt_given (meter_node s dev) = Some n" "section_root s n \<noteq> ''UNKNOWN''"
  shows "\<exists>c\<in>set (outage_cases s'). affected_node_id c = Some (section_root s n) \<and> open_case c \<and>
    dev \<in> set (meters_of_case s' (case_id c))"
proof -
  have "root_or s (meter_node s dev) dev = section_root s n" using assms(4) by (simp add: root_or_def)
  with sweep_attaches [OF assms(1-3)] assms(5) show ?thesis by (simp add: attached_def)
qed

text \<open>
  C17: a sweep restores only cases with at least one meter, all of whose meters are heard again:
  none of them shows an outage signal.
\<close>

theorem sweep_restores_only_back:
  assumes "run_detection s = (Inr d, s')" "k \<in> set (sw_restored d)"
  shows "meters_of_case s' k \<noteq> [] \<and> (\<forall>m\<in>set (meters_of_case s' k). meter_is_back s m \<and> m \<notin> fst ` set (meters_out s))
    \<and> (\<exists>c\<in>set (outage_cases s'). case_id c = k \<and> case_status c = RESTORED)"
proof -
  obtain rs s1 s2 where st: "restore_cases s2 = (Inr (sw_restored d), s')" "grows s s1" "grows s1 s2"
    using run_detection_steps [OF assms(1)] by metis
  note fr = restore_cases_frame [OF st(1)]
  obtain c where c: "c \<in> set (outage_cases s2)" "case_id c = k" "restorable s2 c"
    using assms(2) fr(4) by auto
  have same_back: "meter_is_back s2 = meter_is_back s"
    by (rule same_signals_simps(4) [OF grows_same [OF grows_trans [OF st(2,3)]]])
  have mm: "meters_of_case s' k = meters_of_case s2 k" by (simp add: meters_of_case_def fr(2))
  have m: "meters_of_case s' k \<noteq> []" "\<forall>m\<in>set (meters_of_case s' k). meter_is_back s m"
    using c same_back mm by (auto simp: restorable_def list_all_iff)
  have "c\<lparr>case_status := RESTORED, restored_at := Some (now s2)\<rparr> \<in> set (outage_cases s')"
    using c assms(2) fr(5) by (force simp: in_set_update_where)
  then have "\<exists>c\<in>set (outage_cases s'). case_id c = k \<and> case_status c = RESTORED"
    by (rule bexI [rotated]) (simp add: c(2))
  moreover have "m \<notin> fst ` set (meters_out s)" if "m \<in> set (meters_of_case s' k)" for m
    using m(2) that out_not_back [of m _ s] by auto
  ultimately show ?thesis using m by blast
qed

text \<open>
  a second sweep on the same signals opens no case, as the endpoint's contract promises:
  detection is idempotent on open cases (no device has an empty id, no node the empty id).
\<close>

theorem sweep_idempotent:
  assumes "run_detection s = (Inr d, s')" "run_detection s' = (Inr d', s'')"
    "[] \<notin> set (map device_id (devices s))" "[] \<notin> set (node_ids s)"
  shows "sw_created d' = []"
proof -
  let ?gs = "report_groups s' (new_reports s') (meter_groups s')"
  obtain rs s1 s2 where a: "restore_cases s2 = (Inr (sw_restored d), s')" "grows s s1" "grows s1 s2"
    using run_detection_steps [OF assms(1)] by metis
  have same: "same_signals s s'"
    using same_signals_trans [OF grows_same [OF grows_trans [OF a(2,3)]] restore_cases_frame(1) [OF a(1)]] .
  note eqs = same_signals_simps [OF same]
  obtain rs' t1 where b: "upsert_groups ?gs s' = (Inr rs', t1)" "sw_created d' = map fst (filter snd rs')"
    using run_detection_steps [OF assms(2)] by metis
  have "open_at s' n" if n: "n \<in> fst ` set ?gs" "n \<noteq> ''UNKNOWN''" "n \<in> set (node_ids s')" for n
  proof -
    have nn: "n \<noteq> []" using n(3) assms(4) eqs(7) by auto
    consider (meter) dev cause where "(dev, cause) \<in> set (meters_out s)" "n = root_or s (meter_node s dev) dev"
      | (report) r where "r \<in> set (new_reports s')" "n = root_or s (report_mnode s r) ''UNKNOWN''"
      using n(1) by (auto simp: report_groups_keys meter_groups_keys eqs)
    then show ?thesis
    proof cases
      case meter
      have "dev \<noteq> []" using meter(1) assms(3) by (force simp: meters_out_def split: option.splits)
      then have "attached s' n dev" using sweep_attaches [OF assms(1) meter(1)] meter(2) n(2) by simp
      then show ?thesis by (auto simp: attached_def open_at_def)
    next
      case report
      then show ?thesis using sweep_reports(2) [OF assms(1) report(1)] n(2) nn by simp
    qed
  qed
  then have "\<not> snd r" if "r \<in> set rs'" for r
    using conjunct2 [OF conjunct2 [OF conjunct2 [OF upsert_groups_ok [OF b(1)]]]] that by blast
  then have "filter snd rs' = []" by (simp add: filter_empty_conv)
  then show ?thesis using b(2) by simp
qed

definition mk_meter :: "string \<Rightarrow> device" where
  "mk_meter d = mk_device d ''smartmeter'' ''default''"

definition mk_reading :: "string \<Rightarrow> rat \<Rightarrow> string \<Rightarrow> telemetry" where
  "mk_reading d t st = (mk_telemetry d t (PDict []))\<lparr>t_state := Some st\<rparr>"

definition mk_case :: "uuid \<Rightarrow> string \<Rightarrow> outage_case" where
  "mk_case k n = \<lparr>case_id = k, case_status = DETECTED, case_cause = ''heartbeat'', affected_node_id = Some n,
     customers_affected = 1, detected_at = 50, confirmed_at = None, restored_at = None, closed_at = None,
     case_notes = None, case_version = None\<rparr>"

text \<open>Meter \<open>M1\<close> of node \<open>C\<close> has gasped; \<open>M2\<close> of node \<open>A\<close> is heard again after an outage.\<close>

definition oms_db :: db where
  "oms_db = demo_db\<lparr>devices := [mk_meter ''M1'', mk_meter ''M2''],
     service_points := [(mk_sp ''P3'' ''C'')\<lparr>sp_meter := Some ''M1''\<rparr>, (mk_sp ''P1'' ''A'')\<lparr>sp_meter := Some ''M2''\<rparr>],
     telemetry_rows := [mk_reading ''M1'' 95 ''LAST_GASP'', mk_reading ''M2'' 90 ''ONLINE''],
     outage_cases := [mk_case 7 ''A''], next_uuid := 8,
     case_meters := [\<lparr>cm_case = 7, cm_meter = ''M2'', cm_node = Some ''A''\<rparr>]\<rparr>"

definition swept_db :: db where
  "swept_db = snd (run_detection oms_db)"

lemma oms_db_facts:
  "map_sum id (\<lambda>d. (sw_created d, sw_restored d)) (fst (run_detection oms_db)) = Inr ([8], [7])"
  "meters_out oms_db = [(''M1'', ''last_gasp'')]" "opt_given (meter_node oms_db ''M1'') = Some ''C''"
  "section_root oms_db ''C'' = ''C''" "meters_of_case swept_db 7 = [''M2'']"
  "map_sum id sw_updated (fst (run_detection swept_db)) = Inr [8]"
  "map device_id (devices oms_db) = [''M1'', ''M2'']" "node_ids oms_db = [''S1'', ''S2'', ''A'', ''B'', ''C'']"
  by code_simp+

lemma oms_db_sweep: "\<exists>d. run_detection oms_db = (Inr d, swept_db) \<and> sw_created d = [8] \<and> sw_restored d = [7]"
proof (cases "fst (run_detection oms_db)")
  case (Inr d)
  then have "run_detection oms_db = (Inr d, swept_db)" by (simp add: swept_db_def prod_eq_iff)
  with oms_db_facts(1) Inr show ?thesis by auto
qed (use oms_db_facts(1) in simp)

theorem sweep_covers_outages_witness:
  "\<exists>d s'. run_detection oms_db = (Inr d, s') \<and> (\<exists>c\<in>set (outage_cases s'). affected_node_id c = Some ''C'' \<and>
     open_case c \<and> ''M1'' \<in> set (meters_of_case s' (case_id c)))"
proof -
  obtain d where d: "run_detection oms_db = (Inr d, swept_db)" using oms_db_sweep by blast
  have "\<exists>c\<in>set (outage_cases swept_db). affected_node_id c = Some (section_root oms_db ''C'') \<and> open_case c \<and>
      ''M1'' \<in> set (meters_of_case swept_db (case_id c))"
    by (rule sweep_covers_outages [OF d, where cause = "''last_gasp''"]) (simp_all add: oms_db_facts)
  with d show ?thesis by (auto simp: oms_db_facts(4))
qed

theorem sweep_restores_only_back_witness:
  "\<exists>d s'. run_detection oms_db = (Inr d, s') \<and> sw_restored d = [7] \<and> meters_of_case s' 7 = [''M2''] \<and>
     meter_is_back oms_db ''M2'' \<and> (\<exists>c\<in>set (outage_cases s'). case_id c = 7 \<and> case_status c = RESTORED)"
proof -
  obtain d where d: "run_detection oms_db = (Inr d, swept_db)" "sw_restored d = [7]" using oms_db_sweep by blast
  have "7 \<in> set (sw_restored d)" using d(2) by simp
  from sweep_restores_only_back [OF d(1) this] d show ?thesis by (auto simp: oms_db_facts(5))
qed

theorem sweep_idempotent_witness:
  "\<exists>d d' s''. run_detection oms_db = (Inr d, swept_db) \<and> sw_created d = [8] \<and>
     run_detection swept_db = (Inr d', s'') \<and> sw_updated d' = [8] \<and> sw_created d' = []"
proof -
  obtain d where d: "run_detection oms_db = (Inr d, swept_db)" "sw_created d = [8]" using oms_db_sweep by blast
  obtain d' s'' where d': "run_detection swept_db = (Inr d', s'')" "sw_updated d' = [8]"
    using oms_db_facts(6) by (cases "run_detection swept_db"; cases "fst (run_detection swept_db)") auto
  have "sw_created d' = []" by (rule sweep_idempotent [OF d(1) d'(1)]) (simp_all add: oms_db_facts)
  with d d' show ?thesis by blast
qed

subsection \<open>Where the sweep falls short\<close>

text \<open>
  A smart meter that is neither a node of the model nor of a service point is taken as its own
  section; the insert then violates the foreign key, and no later signal of the sweep is handled.
\<close>

definition unlocated_db :: db where
  "unlocated_db = oms_db\<lparr>devices := mk_meter ''M9'' # devices oms_db,
     telemetry_rows := mk_reading ''M9'' 95 ''LAST_GASP'' # telemetry_rows oms_db\<rparr>"

lemma sweep_stuck_on_unlocated_meter:
  "fst (run_detection unlocated_db) = Inl fk_error"
  "map case_id (outage_cases (snd (run_detection unlocated_db))) = [7]"
  by code_simp+

text \<open>
  The case of a customer's call is confirmed and then restored in the very sweep the call starts,
  when the customer's meter has been heard within the timeout.
\<close>

definition customer_call :: outage_report where
  "customer_call = \<lparr>report_id = 0, report_customer = Some ''CUST'', report_meter = Some ''M2'', report_node = None,
     report_caller = None, report_phone = None, report_text = None, report_created = 0,
     report_status = R_NEW, report_case = None\<rparr>"

lemma call_restored_at_once:
  "(let s = snd (call_handler (Some operator1) customer_call (oms_db\<lparr>outage_cases := [], case_meters := []\<rparr>)) in
     (map report_status (outage_reports s), map (\<lambda>c. (affected_node_id c, case_status c)) (outage_cases s)))
   = ([R_LINKED], [(Some ''C'', DETECTED), (Some ''A'', RESTORED)])"
  by code_simp

text \<open>A free-text cause passes the request schema and fails on the column's check.\<close>

lemma create_case_free_text_cause:
  "map_sum http_status id (fst (create_case (Some operator1) ''A'' ''storm'' None oms_db)) = Inl 500"
  by code_simp

end
