(* ===== verification/Oms_Views.thy ===== *)
theory Oms_Views
  imports Oms_Sweep
begin

text \<open>
  What the outage management system reports (\<^verbatim>\<open>src/fastapi/routers/oms.py\<close>): the case and report
  listings, the detail of a case, the operators' map, the public status page and the KPIs.
\<close>

subsection \<open>Listings\<close>

definition read_guard :: "principal option \<Rightarrow> (principal \<Rightarrow> 'a result) \<Rightarrow> 'a result" where
  "read_guard po f = bindR (require_role READ_ROLES po) f"

definition node_name_of :: "db \<Rightarrow> string option \<Rightarrow> string option" where
  "node_name_of s k = (case opt_given k of
       None \<Rightarrow> None
     | Some n \<Rightarrow> (case find_node s n of
         None \<Rightarrow> Some n
       | Some r \<Rightarrow> (case opt_given (node_name r) of Some x \<Rightarrow> Some x
           | None \<Rightarrow> (case opt_given (node_site r) of Some x \<Rightarrow> Some x | None \<Rightarrow> Some n))))"

definition status_name :: "case_status \<Rightarrow> string" where
  "status_name st = (case st of DETECTED \<Rightarrow> ''DETECTED'' | CONFIRMED \<Rightarrow> ''CONFIRMED''
     | RESTORED \<Rightarrow> ''RESTORED'' | CLOSED \<Rightarrow> ''CLOSED'')"

definition report_status_name :: "report_status \<Rightarrow> string" where
  "report_status_name st = (case st of R_NEW \<Rightarrow> ''NEW'' | R_LINKED \<Rightarrow> ''LINKED'' | R_CLOSED \<Rightarrow> ''CLOSED'')"

text \<open>An absent or empty filter lists everything; the filter is compared in upper case.\<close>

definition status_filter :: "string option \<Rightarrow> ('a \<Rightarrow> string) \<Rightarrow> 'a list \<Rightarrow> 'a list" where
  "status_filter flt name = (case opt_given flt of None \<Rightarrow> (\<lambda>xs. xs) | Some f \<Rightarrow> filter (\<lambda>x. name x = to_upper f))"

definition list_cases :: "principal option \<Rightarrow> string option \<Rightarrow> db \<Rightarrow> (outage_case \<times> string option) list result" where
  "list_cases po flt s = read_guard po (\<lambda>_.
     Inr (map (\<lambda>c. (c, node_name_of s (affected_node_id c)))
       (sort_desc detected_at (status_filter flt (status_name \<circ> case_status) (outage_cases s)))))"

definition list_reports :: "principal option \<Rightarrow> string option \<Rightarrow> db \<Rightarrow> outage_report list result" where
  "list_reports po flt s = read_guard po (\<lambda>_.
     Inr (sort_desc report_created (status_filter flt (report_status_name \<circ> report_status) (outage_reports s))))"

record case_detail =
  cd_case :: outage_case
  cd_node_name :: "string option"
  cd_meters :: "(string \<times> string option) list"
  cd_reports :: "outage_report list"

definition case_detail_of :: "db \<Rightarrow> outage_case \<Rightarrow> case_detail" where
  "case_detail_of s c = \<lparr>cd_case = c, cd_node_name = node_name_of s (affected_node_id c),
     cd_meters = map (\<lambda>m. (cm_meter m, cm_node m)) (filter (\<lambda>m. cm_case m = case_id c) (case_meters s)),
     cd_reports = sort_key report_created (filter (\<lambda>r. report_case r = Some (case_id c)) (outage_reports s))\<rparr>"

definition get_case :: "principal option \<Rightarrow> uuid \<Rightarrow> db \<Rightarrow> case_detail result" where
  "get_case po k s = read_guard po (\<lambda>_.
     case find_case s k of
       None \<Rightarrow> Inl (HTTPException 404 (Fmt ''unknown case'' []))
     | Some c \<Rightarrow> Inr (case_detail_of s c))"

subsection \<open>The map, the public page, the indicators\<close>

definition open_cases :: "db \<Rightarrow> outage_case list" where
  "open_cases s = sort_desc detected_at (filter open_case (outage_cases s))"

record outage_map =
  om_active :: "(outage_case \<times> grid_node option) list"
  om_count :: nat
  om_customers :: nat

definition active_outages :: "principal option \<Rightarrow> db \<Rightarrow> outage_map result" where
  "active_outages po s = read_guard po (\<lambda>_.
     let rows = map (\<lambda>c. (c, Option.bind (affected_node_id c) (find_node s))) (open_cases s) in
     Inr \<lparr>om_active = rows, om_count = length rows,
          om_customers = sum_list (map (\<lambda>r. customers_affected (fst r)) rows)\<rparr>)"

text \<open>The public row: status, customers, time and area, the area being a name and never a person.\<close>

record public_row =
  pr_status :: case_status
  pr_customers :: nat
  pr_detected :: rat
  pr_area :: "string option"

definition area_of :: "db \<Rightarrow> outage_case \<Rightarrow> string option" where
  "area_of s c = (case Option.bind (affected_node_id c) (find_node s) of
       None \<Rightarrow> affected_node_id c
     | Some n \<Rightarrow> (case node_name n of Some x \<Rightarrow> Some x
         | None \<Rightarrow> (case node_site n of Some x \<Rightarrow> Some x | None \<Rightarrow> affected_node_id c)))"

record public_page =
  pp_outages :: "public_row list"
  pp_active :: nat
  pp_customers :: nat

definition public_outages :: "db \<Rightarrow> public_page" where
  "public_outages s =
     (let rows = map (\<lambda>c. \<lparr>pr_status = case_status c, pr_customers = customers_affected c,
            pr_detected = detected_at c, pr_area = area_of s c\<rparr>) (open_cases s) in
      \<lparr>pp_outages = rows, pp_active = length rows, pp_customers = sum_list (map pr_customers rows)\<rparr>)"

record oms_kpis =
  k_window :: int
  k_service_points :: nat
  k_calls :: nat
  k_active :: nat
  k_customers :: nat
  k_avg_restoration :: rat
  k_restored :: nat
  k_saifi :: rat
  k_saidi :: rat

definition interrupted_for :: "db \<Rightarrow> outage_case \<Rightarrow> rat" where
  "interrupted_for s c = (case restored_at c of Some t \<Rightarrow> t | None \<Rightarrow> now s) - detected_at c"

definition rat_sum :: "rat list \<Rightarrow> rat" where
  "rat_sum xs = fold (+) xs 0"

definition average :: "rat list \<Rightarrow> rat" where
  "average xs = (if xs = [] then 0 else rat_sum xs / of_nat (length xs))"

definition kpis :: "principal option \<Rightarrow> int \<Rightarrow> db \<Rightarrow> oms_kpis result" where
  "kpis po hours s = read_guard po (\<lambda>_.
     let w = min (max hours 1) (24 * 30); since = now s - of_int (w * 3600);
         total = length (service_points s);
         opened = filter (\<lambda>c. since < detected_at c) (outage_cases s);
         restored = filter (\<lambda>c. case restored_at c of Some t \<Rightarrow> since < t | None \<Rightarrow> False) (outage_cases s);
         interruptions = sum_list (map customers_affected opened);
         minutes = rat_sum (map (\<lambda>c. of_nat (customers_affected c) * interrupted_for s c / 60) opened);
         active = filter open_case (outage_cases s)
     in Inr \<lparr>k_window = w, k_service_points = total,
          k_calls = length (filter (\<lambda>r. since < report_created r) (outage_reports s)),
          k_active = length active, k_customers = sum_list (map customers_affected active),
          k_avg_restoration = py_round 1 (average (map (\<lambda>c. interrupted_for s c / 60) restored)),
          k_restored = length restored,
          k_saifi = py_round 4 (if total = 0 then 0 else of_nat interruptions / of_nat total),
          k_saidi = py_round 2 (if total = 0 then 0 else minutes / of_nat total)\<rparr>)"

subsection \<open>The three views agree\<close>

lemma sum_list_map_mset: "mset xs = mset ys \<Longrightarrow> sum_list (map f xs) = (sum_list (map f ys) :: nat)"
  by (metis mset_map sum_mset_sum_list)

lemma mset_open_cases: "mset (open_cases s) = mset (filter open_case (outage_cases s))"
  by (simp add: open_cases_def sort_desc_def)

text \<open>
  the operators' map, the public page and the indicators report the same number of active
  outages and the same number of customers without power, whatever the window.
\<close>

theorem oms_views_agree:
  assumes "active_outages po s = Inr m" "kpis po hours s = Inr k"
  shows "om_count m = k_active k \<and> om_customers m = k_customers k \<and>
    pp_active (public_outages s) = k_active k \<and> pp_customers (public_outages s) = k_customers k \<and>
    1 \<le> k_window k \<and> k_window k \<le> 720"
proof -
  obtain p where p: "require_role READ_ROLES po = Inr p"
    using assms(1) by (auto simp: active_outages_def read_guard_def bindR_eq_Inr)
  have m: "om_count m = length (open_cases s)" "om_customers m = sum_list (map customers_affected (open_cases s))"
    using assms(1) p by (auto simp: active_outages_def read_guard_def Let_def comp_def)
  have q: "pp_active (public_outages s) = length (open_cases s)"
    "pp_customers (public_outages s) = sum_list (map customers_affected (open_cases s))"
    by (simp_all add: public_outages_def Let_def comp_def)
  have k: "k_active k = length (filter open_case (outage_cases s))"
    "k_customers k = sum_list (map customers_affected (filter open_case (outage_cases s)))"
    "k_window k = min (max hours 1) 720"
    using assms(2) p by (auto simp: kpis_def read_guard_def Let_def)
  have "length (open_cases s) = length (filter open_case (outage_cases s))"
    using mset_open_cases by (rule mset_eq_length)
  with m q k sum_list_map_mset [OF mset_open_cases] show ?thesis by simp
qed

theorem oms_views_agree_witness:
  "\<exists>m k. active_outages (Some operator1) swept_db = Inr m \<and> kpis (Some operator1) 24 swept_db = Inr k \<and>
     om_count m = 1 \<and> k_active k = 1"
proof -
  have "map_sum id om_count (active_outages (Some operator1) swept_db) = Inr 1" by code_simp
  then obtain m where m: "active_outages (Some operator1) swept_db = Inr m" "om_count m = 1"
    by (cases "active_outages (Some operator1) swept_db") auto
  have "map_sum id k_window (kpis (Some operator1) 24 swept_db) = Inr 24" by code_simp
  then obtain k where k: "kpis (Some operator1) 24 swept_db = Inr k"
    by (cases "kpis (Some operator1) 24 swept_db") auto
  from oms_views_agree [OF m(1) k] m k show ?thesis by auto
qed

end
