(* ===== verification/Telemetry_Contract.thy ===== *)
theory Telemetry_Contract
  imports Iso_Time
begin

text \<open>
  The telemetry contract, \<^verbatim>\<open>src/contracts\<close>: the quality vocabulary, the envelope with every check
  its constructors make, its wire form, and the topic and key builders. Fields the code checks only
  for truth keep the Python value they arrived as. Two identifiers are the same when they are equal as
  values of the model, which distinguishes \<^verbatim>\<open>1\<close>, \<^verbatim>\<open>1.0\<close> and \<^verbatim>\<open>True\<close>.
\<close>

subsection \<open>Quality\<close>

datatype quality = Q_GOOD | Q_ESTIMATED | Q_SUBSTITUTED | Q_INVALID | Q_MISSING | Q_COMM_FAILURE
  | Q_OUT_OF_RANGE | Q_DUPLICATE

fun quality_text :: "quality \<Rightarrow> string" where
  "quality_text Q_GOOD = ''GOOD''"
| "quality_text Q_ESTIMATED = ''ESTIMATED''"
| "quality_text Q_SUBSTITUTED = ''SUBSTITUTED''"
| "quality_text Q_INVALID = ''INVALID''"
| "quality_text Q_MISSING = ''MISSING''"
| "quality_text Q_COMM_FAILURE = ''COMMUNICATION_FAILURE''"
| "quality_text Q_OUT_OF_RANGE = ''OUT_OF_RANGE''"
| "quality_text Q_DUPLICATE = ''DUPLICATE''"

definition all_qualities :: "quality list" where
  "all_qualities = [Q_GOOD, Q_ESTIMATED, Q_SUBSTITUTED, Q_INVALID, Q_MISSING, Q_COMM_FAILURE, Q_OUT_OF_RANGE, Q_DUPLICATE]"

definition quality_of :: "pyval \<Rightarrow> quality option" where
  "quality_of v = find (\<lambda>q. v = PStr (quality_text q)) all_qualities"

lemma quality_of_text [simp]: "quality_of (PStr (quality_text q)) = Some q"
  by (cases q) (simp_all add: quality_of_def all_qualities_def)

definition is_measured :: "quality \<Rightarrow> bool" where
  "is_measured q \<longleftrightarrow> q = Q_GOOD"

definition is_usable_for_billing :: "quality \<Rightarrow> bool" where
  "is_usable_for_billing q \<longleftrightarrow> q = Q_GOOD \<or> q = Q_SUBSTITUTED"

subsection \<open>Measurements\<close>

record measurement =
  m_type :: pyval
  m_unit :: pyval
  m_value :: pyval
  m_quality :: quality
  m_estimated :: pyval

definition contract_error :: "string \<Rightarrow> exn" where
  "contract_error t = ContractError (Fmt t [])"

fun numeric :: "pyval \<Rightarrow> bool" where
  "numeric (PInt _) = True"
| "numeric (PFloat _) = True"
| "numeric _ = False"

text \<open>\<^verbatim>\<open>Measurement.__post_init__\<close>\<close>

definition mk_measurement :: "pyval \<Rightarrow> pyval \<Rightarrow> pyval \<Rightarrow> pyval \<Rightarrow> pyval \<Rightarrow> measurement result" where
  "mk_measurement ty un va qu es =
     bindR (guardR (truthy ty) (contract_error ''measurement_type is required'')) (\<lambda>_.
     bindR (guardR (truthy un) (contract_error ''unit is required'')) (\<lambda>_.
     bindR (guardR (numeric va) (contract_error ''value must be numeric'')) (\<lambda>_.
     case quality_of qu of
       None \<Rightarrow> Inl (contract_error ''invalid quality'')
     | Some q \<Rightarrow> Inr \<lparr>m_type = ty, m_unit = un, m_value = va, m_quality = q,
         m_estimated = (if q = Q_ESTIMATED \<and> \<not> truthy es then PBool True else es)\<rparr>)))"

definition measurement_ok :: "measurement \<Rightarrow> bool" where
  "measurement_ok m \<longleftrightarrow> truthy (m_type m) \<and> truthy (m_unit m) \<and> numeric (m_value m) \<and>
     (m_quality m = Q_ESTIMATED \<longrightarrow> truthy (m_estimated m))"

text \<open>A call with the entries of a dictionary as keyword arguments.\<close>

definition call_kwargs :: "string list \<Rightarrow> string list \<Rightarrow> (string \<times> pyval) list \<Rightarrow> unit result" where
  "call_kwargs required optional d =
     (if \<not> list_all (\<lambda>k. k \<in> set required \<or> k \<in> set optional) (map fst d)
      then Inl (TypeErr (Fmt ''unexpected keyword argument'' []))
      else if \<not> list_all (\<lambda>k. k \<in> set (map fst d)) required
      then Inl (TypeErr (Fmt ''missing required argument'' []))
      else Inr ())"

definition measurement_of :: "pyval \<Rightarrow> measurement result" where
  "measurement_of v = (case v of
       PDict d \<Rightarrow> bindR (call_kwargs [''measurement_type'', ''unit'', ''value''] [''quality'', ''estimated''] d) (\<lambda>_.
         mk_measurement (dict_get d ''measurement_type'' PNone) (dict_get d ''unit'' PNone) (dict_get d ''value'' PNone)
           (dict_get d ''quality'' (PStr ''GOOD'')) (dict_get d ''estimated'' (PBool False)))
     | _ \<Rightarrow> Inl (TypeErr (Fmt ''argument after ** must be a mapping'' [])))"

definition measurement_dict :: "measurement \<Rightarrow> pyval" where
  "measurement_dict m = PDict [(''measurement_type'', m_type m), (''unit'', m_unit m), (''value'', m_value m),
     (''quality'', PStr (quality_text (m_quality m))), (''estimated'', m_estimated m)]"

lemma mk_measurement_ok: "mk_measurement ty un va qu es = Inr m \<Longrightarrow> measurement_ok m"
  by (auto simp: mk_measurement_def measurement_ok_def bindR_eq_Inr split: option.splits if_splits)

lemma measurement_of_ok: "measurement_of v = Inr m \<Longrightarrow> measurement_ok m"
  by (auto simp: measurement_of_def bindR_eq_Inr mk_measurement_ok split: pyval.splits)

lemma measurement_roundtrip: "measurement_ok m \<Longrightarrow> measurement_of (measurement_dict m) = Inr m"
  by (auto simp: measurement_of_def measurement_dict_def call_kwargs_def mk_measurement_def dict_get_def
      measurement_ok_def)

subsection \<open>The envelope\<close>

record envelope =
  e_tenant :: pyval
  e_site :: pyval
  e_device :: pyval
  e_meter :: pyval
  e_timestamp :: string
  e_measurements :: "measurement list"
  e_source :: string
  e_protocol :: pyval
  e_system :: pyval
  e_sequence :: nat
  e_schema :: string
  e_ingested :: "string option"
  e_correlation :: pyval

text \<open>\<^verbatim>\<open>_parse_utc\<close>: a non-empty string, ISO 8601, aware, offset zero.\<close>

definition parse_utc :: "pyval \<Rightarrow> datetime result" where
  "parse_utc v = (case v of
       PStr ts \<Rightarrow>
         if ts = [] then Inl (contract_error ''must be a non-empty ISO8601 string'')
         else (case fromisoformat (expand_z ts) of
             None \<Rightarrow> Inl (contract_error ''is not valid ISO8601'')
           | Some (t, None) \<Rightarrow> Inl (contract_error ''must be timezone-aware UTC'')
           | Some (t, Some off) \<Rightarrow> if off = 0 then Inr t else Inl (contract_error ''must be UTC''))
     | _ \<Rightarrow> Inl (contract_error ''must be a non-empty ISO8601 string''))"

definition version_compatible :: "pyval \<Rightarrow> bool" where
  "version_compatible v = (case v of PStr s \<Rightarrow> hd (split_on (CHR ''.'') s) = ''1'' | _ \<Rightarrow> False)"

definition timestamp_sources :: "string list" where
  "timestamp_sources = [''DEVICE'', ''GATEWAY'', ''INGEST'']"

text \<open>Lists and dictionaries cannot be looked up in a set or used as a key.\<close>

fun hashable :: "pyval \<Rightarrow> bool" where
  "hashable (PList _) = False"
| "hashable (PDict _) = False"
| "hashable _ = True"

definition unhashable :: exn where
  "unhashable = TypeErr (Fmt ''unhashable type'' [])"

fun check_types :: "pyval list \<Rightarrow> measurement list \<Rightarrow> unit result" where
  "check_types seen [] = Inr ()"
| "check_types seen (m # ms) =
     (if \<not> hashable (m_type m) then Inl unhashable
      else if m_type m \<in> set seen then Inl (contract_error ''duplicate measurement_type within one envelope'')
      else check_types (m_type m # seen) ms)"

definition ts_source_of :: "pyval \<Rightarrow> string result" where
  "ts_source_of v = (if \<not> hashable v then Inl unhashable
     else case v of PStr s \<Rightarrow> if s \<in> set timestamp_sources then Inr s
            else Inl (contract_error ''timestamp_source must be one of DEVICE, GATEWAY, INGEST'')
          | _ \<Rightarrow> Inl (contract_error ''timestamp_source must be one of DEVICE, GATEWAY, INGEST''))"

definition sequence_of :: "pyval \<Rightarrow> nat result" where
  "sequence_of v = (case v of PInt i \<Rightarrow> if i < 0 then Inl (contract_error ''sequence_number'') else Inr (nat i)
     | _ \<Rightarrow> Inl (contract_error ''sequence_number''))"

definition ingested_of :: "pyval \<Rightarrow> string option result" where
  "ingested_of v = (case v of PNone \<Rightarrow> Inr None
     | _ \<Rightarrow> bindR (parse_utc v) (\<lambda>_. case v of PStr s \<Rightarrow> Inr (Some s) | _ \<Rightarrow> Inr None))"

text \<open>\<^verbatim>\<open>TelemetryEnvelope.__post_init__\<close>, check by check in its order.\<close>

definition required_fields :: "string list" where
  "required_fields = [''tenant_id'', ''site_id'', ''device_id'', ''meter_id'']"

definition mk_envelope :: "string \<Rightarrow> (string \<times> pyval) list \<Rightarrow> measurement list \<Rightarrow> envelope result" where
  "mk_envelope fresh d ms =
     (let get = (\<lambda>k. dict_get d k PNone) in
      bindR (mapR (\<lambda>k. guardR (truthy (get k)) (contract_error (k @ '' is required''))) required_fields) (\<lambda>_.
      bindR (parse_utc (get ''timestamp_utc'')) (\<lambda>_.
      bindR (ingested_of (get ''ingestion_timestamp'')) (\<lambda>ing.
      bindR (ts_source_of (dict_get d ''timestamp_source'' (PStr ''GATEWAY''))) (\<lambda>src.
      bindR (sequence_of (dict_get d ''sequence_number'' (PInt 0))) (\<lambda>seq.
      bindR (guardR (version_compatible (dict_get d ''schema_version'' (PStr ''1.0'')))
               (contract_error ''schema_version is not compatible'')) (\<lambda>_.
      bindR (guardR (ms \<noteq> []) (contract_error ''measurements must contain at least one entry'')) (\<lambda>_.
      bindR (check_types [] ms) (\<lambda>_.
      Inr \<lparr>e_tenant = get ''tenant_id'', e_site = get ''site_id'', e_device = get ''device_id'',
           e_meter = get ''meter_id'',
           e_timestamp = (case get ''timestamp_utc'' of PStr s \<Rightarrow> s | _ \<Rightarrow> []), e_measurements = ms,
           e_source = src, e_protocol = dict_get d ''source_protocol'' (PStr ''dlms''),
           e_system = dict_get d ''source_system'' (PStr ''ami-ingest''), e_sequence = seq,
           e_schema = (case dict_get d ''schema_version'' (PStr ''1.0'') of PStr s \<Rightarrow> s | _ \<Rightarrow> []),
           e_ingested = ing, e_correlation = dict_get d ''correlation_id'' (PStr fresh)\<rparr>)))))))))"

text \<open>
  \<^verbatim>\<open>from_dict\<close>. \<open>fresh\<close> is the correlation id \<^verbatim>\<open>uuid4()\<close> would draw; the measurements are built
  first, by iterating over whatever the entry holds.
\<close>

fun iterate :: "pyval \<Rightarrow> pyval list result" where
  "iterate (PList xs) = Inr xs"
| "iterate (PStr s) = Inr (map (\<lambda>c. PStr [c]) s)"
| "iterate (PDict d) = Inr (map (PStr \<circ> fst) d)"
| "iterate _ = Inl (TypeErr (Fmt ''object is not iterable'' []))"

definition envelope_from_dict :: "string \<Rightarrow> (string \<times> pyval) list \<Rightarrow> envelope result" where
  "envelope_from_dict fresh d =
     (let rest = filter (\<lambda>kv. fst kv \<noteq> ''measurements'') d in
      bindR (iterate (dict_get d ''measurements'' (PList []))) (\<lambda>xs.
      bindR (mapR measurement_of xs) (\<lambda>ms.
      bindR (call_kwargs [''tenant_id'', ''site_id'', ''device_id'', ''meter_id'', ''timestamp_utc'']
        [''timestamp_source'', ''source_protocol'', ''source_system'', ''sequence_number'', ''schema_version'',
         ''ingestion_timestamp'', ''correlation_id''] rest) (\<lambda>_.
      mk_envelope fresh rest ms))))"

definition opt_json :: "string option \<Rightarrow> pyval" where
  "opt_json x = (case x of None \<Rightarrow> PNone | Some s \<Rightarrow> PStr s)"

definition envelope_to_dict :: "envelope \<Rightarrow> (string \<times> pyval) list" where
  "envelope_to_dict e = [(''tenant_id'', e_tenant e), (''site_id'', e_site e), (''device_id'', e_device e),
     (''meter_id'', e_meter e), (''timestamp_utc'', PStr (e_timestamp e)),
     (''measurements'', PList (map measurement_dict (e_measurements e))),
     (''timestamp_source'', PStr (e_source e)), (''source_protocol'', e_protocol e),
     (''source_system'', e_system e), (''sequence_number'', PInt (int (e_sequence e))),
     (''schema_version'', PStr (e_schema e)), (''ingestion_timestamp'', opt_json (e_ingested e)),
     (''correlation_id'', e_correlation e)]"

definition dedup_key :: "envelope \<Rightarrow> pyval \<times> pyval \<times> string \<times> nat" where
  "dedup_key e = (e_tenant e, e_device e, e_timestamp e, e_sequence e)"

text \<open>\<^verbatim>\<open>stamp_ingestion_time\<close>: the receiver writes the receipt time into the envelope.\<close>

definition stamp_ingestion_time :: "datetime \<Rightarrow> envelope \<Rightarrow> envelope" where
  "stamp_ingestion_time t e = e\<lparr>e_ingested := Some (isoformat t)\<rparr>"

subsection \<open>What an accepted envelope satisfies\<close>

definition utc_text :: "string \<Rightarrow> bool" where
  "utc_text ts \<longleftrightarrow> ts \<noteq> [] \<and> (case fromisoformat (expand_z ts) of Some (_, Some off) \<Rightarrow> off = 0 | _ \<Rightarrow> False)"

definition envelope_ok :: "envelope \<Rightarrow> bool" where
  "envelope_ok e \<longleftrightarrow> truthy (e_tenant e) \<and> truthy (e_site e) \<and> truthy (e_device e) \<and> truthy (e_meter e) \<and>
     utc_text (e_timestamp e) \<and> (case e_ingested e of None \<Rightarrow> True | Some ts \<Rightarrow> utc_text ts) \<and>
     e_source e \<in> set timestamp_sources \<and> hd (split_on (CHR ''.'') (e_schema e)) = ''1'' \<and>
     e_measurements e \<noteq> [] \<and> list_all measurement_ok (e_measurements e) \<and>
     list_all (\<lambda>m. hashable (m_type m)) (e_measurements e) \<and> distinct (map m_type (e_measurements e))"

lemma parse_utc_iff: "(\<exists>t. parse_utc v = Inr t) \<longleftrightarrow> (\<exists>ts. v = PStr ts \<and> utc_text ts)"
  by (cases v) (auto simp: parse_utc_def utc_text_def split: option.splits prod.splits)

lemma parse_utc_Inr: "parse_utc v = Inr t \<Longrightarrow> \<exists>ts. v = PStr ts \<and> utc_text ts"
  using parse_utc_iff by blast

lemma check_types_iff:
  "check_types seen ms = Inr () \<longleftrightarrow> list_all (\<lambda>m. hashable (m_type m)) ms \<and> distinct (map m_type ms) \<and>
     set (map m_type ms) \<inter> set seen = {}"
  by (induction seen ms rule: check_types.induct) auto

lemma ingested_of_ok: "ingested_of v = Inr x \<Longrightarrow> (case x of None \<Rightarrow> True | Some ts \<Rightarrow> utc_text ts)"
  by (cases v) (auto simp: ingested_of_def bindR_eq_Inr dest: parse_utc_Inr)

lemma mk_envelope_ok:
  assumes "mk_envelope fresh d ms = Inr e" "list_all measurement_ok ms"
  shows "envelope_ok e"
proof -
  let ?get = "\<lambda>k. dict_get d k PNone"
  obtain us t ing src sq where req: "mapR (\<lambda>k. guardR (truthy (?get k)) (contract_error (k @ '' is required''))) required_fields = Inr us"
    and ts: "parse_utc (?get ''timestamp_utc'') = Inr t" and ing: "ingested_of (?get ''ingestion_timestamp'') = Inr ing"
    and src: "ts_source_of (dict_get d ''timestamp_source'' (PStr ''GATEWAY'')) = Inr src"
    and ver: "version_compatible (dict_get d ''schema_version'' (PStr ''1.0''))" and ne: "ms \<noteq> []"
    and ty: "check_types [] ms = Inr ()"
    and e: "e = \<lparr>e_tenant = ?get ''tenant_id'', e_site = ?get ''site_id'', e_device = ?get ''device_id'',
           e_meter = ?get ''meter_id'',
           e_timestamp = (case ?get ''timestamp_utc'' of PStr s \<Rightarrow> s | _ \<Rightarrow> []), e_measurements = ms,
           e_source = src, e_protocol = dict_get d ''source_protocol'' (PStr ''dlms''),
           e_system = dict_get d ''source_system'' (PStr ''ami-ingest''), e_sequence = sq,
           e_schema = (case dict_get d ''schema_version'' (PStr ''1.0'') of PStr s \<Rightarrow> s | _ \<Rightarrow> []),
           e_ingested = ing, e_correlation = dict_get d ''correlation_id'' (PStr fresh)\<rparr>"
    using assms(1) by (simp only: mk_envelope_def Let_def bindR_eq_Inr guardR_Inr) (elim exE conjE; auto)
  have "truthy (?get ''tenant_id'') \<and> truthy (?get ''site_id'') \<and> truthy (?get ''device_id'') \<and> truthy (?get ''meter_id'')"
    using req by (simp add: required_fields_def mapR_Inr list_all2_Cons1 bindR_eq_Inr)
  moreover obtain s where "?get ''timestamp_utc'' = PStr s" "utc_text s" using parse_utc_Inr [OF ts] by blast
  moreover have "src \<in> set timestamp_sources"
    using src by (auto simp: ts_source_of_def split: if_splits pyval.splits)
  moreover obtain v where "dict_get d ''schema_version'' (PStr ''1.0'') = PStr v" "hd (split_on (CHR ''.'') v) = ''1''"
    using ver by (auto simp: version_compatible_def split: pyval.splits)
  ultimately show ?thesis
    using ingested_of_ok [OF ing] ne ty assms(2) by (simp add: envelope_ok_def e check_types_iff)
qed

lemma from_dict_ok:
  assumes "envelope_from_dict fresh d = Inr e"
  shows "envelope_ok e"
proof -
  obtain xs ms where ms: "mapR measurement_of xs = Inr ms"
    and e: "mk_envelope fresh (filter (\<lambda>kv. fst kv \<noteq> ''measurements'') d) ms = Inr e"
    using assms by (auto simp: envelope_from_dict_def Let_def bindR_eq_Inr)
  have "list_all measurement_ok ms"
    using ms measurement_of_ok by (auto simp: mapR_Inr list_all2_conv_all_nth list_all_length)
  with e show ?thesis by (rule mk_envelope_ok)
qed

text \<open>
  C21: every payload the contract accepts is a well-formed envelope: the identifying fields are
  present, both time stamps are UTC, the source and the major version are known, and there is at
  least one measurement, each numeric, flagged, and of a type that occurs once.
\<close>

theorem contract_type_sound: "envelope_from_dict fresh d = Inr e \<Longrightarrow> envelope_ok e"
  by (rule from_dict_ok)

lemma mapR_measurement_dict:
  "list_all measurement_ok ms \<Longrightarrow> mapR measurement_of (map measurement_dict ms) = Inr ms"
  by (induction ms) (simp_all add: measurement_roundtrip)

lemma parse_utc_ok: "utc_text ts \<Longrightarrow> \<exists>t. parse_utc (PStr ts) = Inr t"
  using parse_utc_iff by blast

lemma ingested_of_json: "(case x of None \<Rightarrow> True | Some ts \<Rightarrow> utc_text ts) \<Longrightarrow> ingested_of (opt_json x) = Inr x"
  using parse_utc_ok by (cases x) (fastforce simp: ingested_of_def opt_json_def)+

lemma envelope_dict_roundtrip:
  assumes "envelope_ok e"
  shows "envelope_from_dict fresh (envelope_to_dict e) = Inr e"
proof -
  note ok = assms [unfolded envelope_ok_def]
  let ?d = "envelope_to_dict e" let ?r = "filter (\<lambda>kv. fst kv \<noteq> ''measurements'') ?d"
  have r: "?r = [(''tenant_id'', e_tenant e), (''site_id'', e_site e), (''device_id'', e_device e),
     (''meter_id'', e_meter e), (''timestamp_utc'', PStr (e_timestamp e)),
     (''timestamp_source'', PStr (e_source e)), (''source_protocol'', e_protocol e),
     (''source_system'', e_system e), (''sequence_number'', PInt (int (e_sequence e))),
     (''schema_version'', PStr (e_schema e)), (''ingestion_timestamp'', opt_json (e_ingested e)),
     (''correlation_id'', e_correlation e)]"
    by (simp add: envelope_to_dict_def)
  have ms: "iterate (dict_get ?d ''measurements'' (PList [])) = Inr (map measurement_dict (e_measurements e))"
    by (simp add: envelope_to_dict_def dict_get_def)
  obtain t where "parse_utc (PStr (e_timestamp e)) = Inr t" using ok parse_utc_ok by blast
  moreover have "ts_source_of (PStr (e_source e)) = Inr (e_source e)" using ok by (simp add: ts_source_of_def)
  moreover have "check_types [] (e_measurements e) = Inr ()" using ok by (simp add: check_types_iff)
  moreover have "version_compatible (PStr (e_schema e))" using ok by (simp add: version_compatible_def)
  moreover have "ingested_of (opt_json (e_ingested e)) = Inr (e_ingested e)" using ok ingested_of_json by blast
  ultimately have "mk_envelope fresh ?r (e_measurements e) = Inr e"
    using ok unfolding r by (simp add: mk_envelope_def Let_def dict_get_def required_fields_def sequence_of_def)
  moreover have "call_kwargs [''tenant_id'', ''site_id'', ''device_id'', ''meter_id'', ''timestamp_utc'']
        [''timestamp_source'', ''source_protocol'', ''source_system'', ''sequence_number'', ''schema_version'',
         ''ingestion_timestamp'', ''correlation_id''] ?r = Inr ()"
    unfolding r by (simp add: call_kwargs_def)
  moreover have "mapR measurement_of (map measurement_dict (e_measurements e)) = Inr (e_measurements e)"
    using ok mapR_measurement_dict by blast
  ultimately show ?thesis using ms by (simp add: envelope_from_dict_def Let_def)
qed

text \<open>
  An accepted envelope survives its wire form: serialising it and reading it back yields the
  same envelope, whatever defaults the first payload left to the contract.
\<close>

theorem contract_roundtrip:
  assumes "envelope_from_dict fresh d = Inr e"
  shows "envelope_from_dict fresh' (envelope_to_dict e) = Inr e"
  by (rule envelope_dict_roundtrip [OF from_dict_ok [OF assms]])

lemma stamp_ok:
  assumes "envelope_ok e" "datetime_ok t"
  shows "envelope_ok (stamp_ingestion_time t e)"
proof -
  have "isoformat t \<noteq> []" by (simp add: isoformat_def)
  then have "utc_text (isoformat t)" using fromisoformat_isoformat [OF assms(2)] by (simp add: utc_text_def)
  with assms(1) show ?thesis by (simp add: envelope_ok_def stamp_ingestion_time_def)
qed

subsection \<open>Topics and keys\<close>

definition build_telemetry_topic :: "string \<Rightarrow> string \<Rightarrow> string" where
  "build_telemetry_topic domain dev = ''diep/'' @ domain @ ''/'' @ dev"

definition build_cmd_topic :: "string \<Rightarrow> string \<Rightarrow> string" where
  "build_cmd_topic domain dev = build_telemetry_topic domain dev @ ''/cmd''"

definition build_ack_topic :: "string \<Rightarrow> string \<Rightarrow> string" where
  "build_ack_topic domain dev = build_telemetry_topic domain dev @ ''/ack''"

definition build_alarm_topic :: "string \<Rightarrow> string \<Rightarrow> string" where
  "build_alarm_topic domain dev = build_telemetry_topic domain dev @ ''/alarm''"

definition build_status_topic :: "string \<Rightarrow> string \<Rightarrow> string" where
  "build_status_topic domain dev = build_telemetry_topic domain dev @ ''/status''"

definition build_heartbeat_topic :: "string \<Rightarrow> string \<Rightarrow> string" where
  "build_heartbeat_topic domain dev = build_telemetry_topic domain dev @ ''/heartbeat''"

definition build_telemetry_topic_v2 :: "string \<Rightarrow> string \<Rightarrow> string \<Rightarrow> string" where
  "build_telemetry_topic_v2 tenant domain dev = ''diep/'' @ tenant @ ''/'' @ domain @ ''/'' @ dev"

definition partition_key :: "string \<Rightarrow> string \<Rightarrow> string result" where
  "partition_key tenant dev = (if tenant = [] \<or> dev = []
     then Inl (ValueError (Fmt ''partition_key requires both tenant_id and device_id'' []))
     else Inr (tenant @ '':'' @ dev))"

definition domain_from_topic :: "string \<Rightarrow> string" where
  "domain_from_topic topic = (case split_on (CHR ''/'') topic of _ # d # _ # _ \<Rightarrow> d | _ \<Rightarrow> ''device'')"

definition build_trusted_topic :: "string \<Rightarrow> string \<Rightarrow> string" where
  "build_trusted_topic domain dev = ''diep/'' @ domain @ ''/'' @ dev @ ''/trusted''"

lemma split_telemetry_topic:
  assumes "CHR ''/'' \<notin> set domain" "CHR ''/'' \<notin> set dev"
  shows "split_on (CHR ''/'') (build_telemetry_topic domain dev) = [''diep'', domain, dev]"
    "split_on (CHR ''/'') (build_trusted_topic domain dev) = [''diep'', domain, dev, ''trusted'']"
    "split_on (CHR ''/'') (build_cmd_topic domain dev) = [''diep'', domain, dev, ''cmd'']"
    "split_on (CHR ''/'') (build_ack_topic domain dev) = [''diep'', domain, dev, ''ack'']"
  using assms
  by (simp_all add: build_telemetry_topic_def build_trusted_topic_def build_cmd_topic_def build_ack_topic_def
      split_on_append split_on_none)

text \<open>
  The telemetry subscription \<^verbatim>\<open>diep/+/+\<close> takes topics of three levels: MDM reads the domain back from
  the topic a driver built, and never sees its own trusted output or a command again.
\<close>

lemma trusted_topic_not_reread:
  assumes "CHR ''/'' \<notin> set domain" "CHR ''/'' \<notin> set dev"
  shows "domain_from_topic (build_telemetry_topic domain dev) = domain"
    "length (split_on (CHR ''/'') (build_telemetry_topic domain dev)) = 3"
    "length (split_on (CHR ''/'') (build_trusted_topic domain dev)) = 4"
  using split_telemetry_topic [OF assms] by (simp_all add: domain_from_topic_def)

lemma partition_key_ambiguous: "partition_key ''a:b'' ''c'' = partition_key ''a'' ''b:c''"
  by (simp add: partition_key_def)

subsection \<open>A reading as a meter driver sends it\<close>

definition reading :: "string \<Rightarrow> int \<Rightarrow> pyval list \<Rightarrow> (string \<times> pyval) list" where
  "reading dev seq ms = [(''tenant_id'', PStr ''default''), (''site_id'', PStr ''S''), (''device_id'', PStr dev),
     (''meter_id'', PStr ''M''), (''timestamp_utc'', PStr ''2026-07-18T10:00:00Z''),
     (''measurements'', PList ms), (''sequence_number'', PInt seq), (''schema_version'', PStr ''1.0''),
     (''correlation_id'', PStr ''00000000-0000-4000-8000-00000000000a'')]"

definition point :: "string \<Rightarrow> string \<Rightarrow> pyval \<Rightarrow> pyval" where
  "point ty un va = PDict [(''measurement_type'', PStr ty), (''unit'', PStr un), (''value'', va)]"

lemmas contract_run = envelope_from_dict_def mk_envelope_def Let_def dict_get_def call_kwargs_def required_fields_def
  measurement_of_def mk_measurement_def quality_of_def all_qualities_def parse_utc_def ingested_of_def
  ts_source_of_def timestamp_sources_def sequence_of_def version_compatible_def iso_run reading_def point_def

definition demo_reading :: "(string \<times> pyval) list" where
  "demo_reading = reading ''M1'' 3 [point ''voltage'' ''kV'' (PFloat (Fin (23/100))), point ''power_kw'' ''W'' (PInt 1200)]"

lemma demo_reading_accepted: "\<exists>e. envelope_from_dict ''fresh'' demo_reading = Inr e"
  by (simp add: demo_reading_def contract_run)

theorem contract_type_sound_witness:
  "\<exists>e. envelope_from_dict ''fresh'' demo_reading = Inr e \<and> envelope_ok e"
proof -
  obtain e where "envelope_from_dict ''fresh'' demo_reading = Inr e" using demo_reading_accepted by blast
  with contract_type_sound [OF this] show ?thesis by blast
qed

theorem contract_roundtrip_witness:
  "\<exists>e. envelope_from_dict ''fresh'' demo_reading = Inr e \<and> envelope_from_dict [] (envelope_to_dict e) = Inr e"
proof -
  obtain e where "envelope_from_dict ''fresh'' demo_reading = Inr e" using demo_reading_accepted by blast
  with contract_roundtrip [OF this] show ?thesis by blast
qed

end
