(* ===== verification/Mdm_Engines.thy ===== *)
theory Mdm_Engines
  imports Telemetry_Contract
begin

text \<open>
  The engines of the meter data management service, \<^verbatim>\<open>src/services/mdm\<close>: validation, duplicate
  detection, time stamps, gaps, quality, units and metadata enrichment, each with the state it
  keeps. Multiplying and subtracting floats is exact here; converting an integer too large for a
  float raises \<^verbatim>\<open>OverflowError\<close> as in Python.
\<close>

subsection \<open>Settings\<close>

record mdm_settings =
  dedup_policy :: string
  dedup_cache :: int
  default_interval :: pyfloat
  gap_tolerance :: rat
  drift_threshold :: rat
  expected_intervals :: "(string \<times> pyfloat) list"

text \<open>\<^verbatim>\<open>MDM_EXPECTED_INTERVALS="voltage=5,power_kw=5"\<close>; malformed pairs are skipped.\<close>

definition parse_interval :: "string \<Rightarrow> (string \<times> pyfloat) option" where
  "parse_interval p =
     (let s = strip p in
      if s = [] \<or> CHR ''='' \<notin> set s then None
      else let k = takeWhile (\<lambda>c. c \<noteq> CHR ''='') s; v = tl (dropWhile (\<lambda>c. c \<noteq> CHR ''='') s)
           in map_option (\<lambda>x. (strip k, x)) (float_of_string (strip v)))"

definition parse_intervals :: "string \<Rightarrow> (string \<times> pyfloat) list" where
  "parse_intervals raw = fold (\<lambda>p d. case parse_interval p of None \<Rightarrow> d | Some (k, x) \<Rightarrow> dict_put k x d)
     (split_on (CHR '','') raw) []"

definition default_settings :: mdm_settings where
  "default_settings = \<lparr>dedup_policy = ''timestamp_sequence_correlation'', dedup_cache = 50000,
     default_interval = Fin 5, gap_tolerance = 2, drift_threshold = 30, expected_intervals = parse_intervals []\<rparr>"

subsection \<open>Validation (validation.py)\<close>

definition known_units :: "(string \<times> string list) list" where
  "known_units = [(''voltage'', [''V'', ''kV'']), (''current'', [''A'', ''mA'']), (''power_kw'', [''kW'', ''W'', ''MW'']),
     (''frequency'', [''Hz'']), (''active_power'', [''kW'', ''W'', ''MW'']), (''energy_import_kwh'', [''kWh'', ''Wh'', ''MWh'']),
     (''energy_export_kwh'', [''kWh'', ''Wh'', ''MWh'']), (''power_factor'', ['''', ''ratio'']), (''temperature'', [''C'', ''F'', ''K''])]"

fun text_of :: "pyval \<Rightarrow> string option" where
  "text_of (PStr s) = Some s"
| "text_of _ = None"

text \<open>\<^verbatim>\<open>d.get(k)\<close> and \<^verbatim>\<open>v in set\<close> where the keys of the code's table are strings.\<close>

definition table_get :: "(string \<times> 'v) list \<Rightarrow> pyval \<Rightarrow> 'v option" where
  "table_get d k = opt_bind (text_of k) (map_of d)"

definition unit_check :: "measurement \<Rightarrow> bool result" where
  "unit_check m = (case table_get known_units (m_type m) of
       None \<Rightarrow> Inr True
     | Some us \<Rightarrow> if hashable (m_unit m) then Inr (\<exists>u\<in>set us. m_unit m = PStr u) else Inl unhashable)"

text \<open>\<^verbatim>\<open>int(hex, 16)\<close>: spaces around, a sign, a prefix, hexadecimal digits with single underscores.\<close>

definition hex_digit :: "char \<Rightarrow> bool" where
  "hex_digit c \<longleftrightarrow> (let n = (of_char c :: nat) in 48 \<le> n \<and> n \<le> 57 \<or> 65 \<le> n \<and> n \<le> 70 \<or> 97 \<le> n \<and> n \<le> 102)"

fun hex_digits :: "string \<Rightarrow> bool" where
  "hex_digits [] = False"
| "hex_digits [c] = hex_digit c"
| "hex_digits (c # d # cs) = (hex_digit c \<and> (if d = CHR ''_'' then hex_digits cs else hex_digits (d # cs)))"

definition hex_int_ok :: "string \<Rightarrow> bool" where
  "hex_int_ok s = (let (_, r) = split_sign (strip s); p = to_lower (take 2 r) in
     if p = ''0x'' then hex_digits (let q = drop 2 r in if q \<noteq> [] \<and> hd q = CHR ''_'' then tl q else q)
     else hex_digits r)"

fun remove_sub :: "string \<Rightarrow> string \<Rightarrow> string" where
  "remove_sub p [] = []"
| "remove_sub p (c # cs) = (if p \<noteq> [] \<and> take (length p) (c # cs) = p
     then remove_sub p (drop (length p - 1) cs) else c # remove_sub p cs)"

definition is_uuid :: "pyval \<Rightarrow> bool" where
  "is_uuid v = (case v of
       PStr s \<Rightarrow>
         (let brace = (\<lambda>c. c = CHR ''{'' \<or> c = CHR ''}'');
              t = remove_sub ''uuid:'' (remove_sub ''urn:'' s);
              u = rev (dropWhile brace (rev (dropWhile brace t)));
              h = filter (\<lambda>c. c \<noteq> CHR ''-'') u
          in length h = 32 \<and> hex_int_ok h)
     | _ \<Rightarrow> False)"

datatype validation = Accepted envelope | Rejected string

text \<open>\<open>Inl\<close> is an exception \<^verbatim>\<open>validate\<close> does not catch.\<close>

definition validate :: "string \<Rightarrow> (string \<times> pyval) list \<Rightarrow> validation result" where
  "validate fresh raw =
     (case envelope_from_dict fresh raw of
        Inl (ContractError _) \<Rightarrow> Inr (Rejected ''contract_violation'')
      | Inl (TypeErr _) \<Rightarrow> Inr (Rejected ''contract_violation'')
      | Inl e \<Rightarrow> Inl e
      | Inr e \<Rightarrow>
          if \<not> is_uuid (e_correlation e) then Inr (Rejected ''malformed_correlation_id'')
          else bindR (mapR unit_check (e_measurements e)) (\<lambda>oks.
            Inr (if list_all (\<lambda>b. b) oks then Accepted e else Rejected ''invalid_unit'')))"

subsection \<open>Duplicates (duplicates.py)\<close>

definition bounded_add :: "int \<Rightarrow> 'a \<Rightarrow> 'a list \<Rightarrow> 'a list" where
  "bounded_add n k xs = (let ys = (if k \<in> set xs then xs else xs @ [k]) in
     if n < int (length ys) then tl ys else ys)"

record dedup_state =
  seen_keys :: "(pyval \<times> pyval \<times> string \<times> nat) list"
  seen_correlations :: "pyval list"

definition duplicate :: "string \<Rightarrow> bool \<Rightarrow> bool \<Rightarrow> bool" where
  "duplicate policy key_dup corr_dup =
     (if policy = ''key_only'' then key_dup else if policy = ''correlation_only'' then corr_dup else key_dup \<or> corr_dup)"

definition check_and_record :: "mdm_settings \<Rightarrow> envelope \<Rightarrow> dedup_state \<Rightarrow> bool result \<times> dedup_state" where
  "check_and_record cfg e st =
     (if \<not> (hashable (e_tenant e) \<and> hashable (e_device e)) then (Inl unhashable, st)
      else let key = dedup_key e in
        (Inr (duplicate (dedup_policy cfg) (key \<in> set (seen_keys st)) (e_correlation e \<in> set (seen_correlations st))),
         \<lparr>seen_keys = bounded_add (dedup_cache cfg) key (seen_keys st),
          seen_correlations = bounded_add (dedup_cache cfg) (e_correlation e) (seen_correlations st)\<rparr>))"

subsection \<open>Time stamps (timestamps.py)\<close>

record ts_assessment =
  drift_seconds :: rat
  is_drifted :: bool
  is_out_of_order :: bool

definition captured_at :: "envelope \<Rightarrow> datetime" where
  "captured_at e = (case fromisoformat (expand_z (e_timestamp e)) of Some (t, _) \<Rightarrow> t
     | None \<Rightarrow> \<lparr>dt_year = 1, dt_month = 1, dt_day = 1, dt_hour = 0, dt_minute = 0, dt_second = 0, dt_micro = 0\<rparr>)"

type_synonym seq_state = "((pyval \<times> pyval) \<times> nat) list"

definition assess_time :: "mdm_settings \<Rightarrow> datetime \<Rightarrow> envelope \<Rightarrow> seq_state \<Rightarrow> (ts_assessment \<times> envelope) \<times> seq_state" where
  "assess_time cfg received e st =
     (let drift = seconds_of received - seconds_of (captured_at e); key = (e_tenant e, e_device e) in
      ((\<lparr>drift_seconds = drift, is_drifted = drift_threshold cfg < \<bar>drift\<bar>,
         is_out_of_order = (case map_of st key of None \<Rightarrow> False | Some l \<Rightarrow> e_sequence e < l)\<rparr>,
        e\<lparr>e_ingested := Some (isoformat received)\<rparr>),
       dict_put key (max (dict_get st key 0) (e_sequence e)) st))"

subsection \<open>Gaps (gaps.py)\<close>

record gap_event =
  gap_type :: pyval
  gap_last_seen :: datetime
  gap_current :: datetime
  gap_seconds :: rat
  gap_expected :: pyfloat
  gap_missed :: int

type_synonym gap_state = "((pyval \<times> pyval \<times> pyval) \<times> datetime) list"

definition expected_interval :: "mdm_settings \<Rightarrow> pyval \<Rightarrow> pyfloat" where
  "expected_interval cfg ty = (case table_get (expected_intervals cfg) ty of Some x \<Rightarrow> x | None \<Rightarrow> default_interval cfg)"

text \<open>\<^verbatim>\<open>max(0, round(gap / expected) - 1)\<close>\<close>

definition missed_samples :: "rat \<Rightarrow> pyfloat \<Rightarrow> int result" where
  "missed_samples gap x = (case x of
       Fin e \<Rightarrow> if e = 0 then Inl (ZeroDivision (Fmt ''float division by zero'' [])) else Inr (max 0 (round_even (gap / e) - 1))
     | _ \<Rightarrow> Inr 0)"

definition gap_of :: "mdm_settings \<Rightarrow> datetime \<Rightarrow> pyval \<Rightarrow> datetime option \<Rightarrow> gap_event list result" where
  "gap_of cfg current ty last_seen = (case last_seen of
       None \<Rightarrow> Inr []
     | Some t \<Rightarrow>
         (let g = seconds_of current - seconds_of t; x = expected_interval cfg ty in
          if fl_less (fl_scale (gap_tolerance cfg) x) (Fin g)
          then bindR (missed_samples g x) (\<lambda>n. Inr [\<lparr>gap_type = ty, gap_last_seen = t, gap_current = current,
                 gap_seconds = g, gap_expected = x, gap_missed = n\<rparr>])
          else Inr []))"

fun check_gaps :: "mdm_settings \<Rightarrow> envelope \<Rightarrow> measurement list \<Rightarrow> gap_state \<Rightarrow> gap_event list result \<times> gap_state" where
  "check_gaps cfg e [] st = (Inr [], st)"
| "check_gaps cfg e (m # ms) st =
     (let key = (e_tenant e, e_device e, m_type m); current = captured_at e in
      case gap_of cfg current (m_type m) (map_of st key) of
        Inl x \<Rightarrow> (Inl x, st)
      | Inr g \<Rightarrow> (case check_gaps cfg e ms (dict_put key current st) of
          (Inl x, st') \<Rightarrow> (Inl x, st')
        | (Inr gs, st') \<Rightarrow> (Inr (g @ gs), st')))"

subsection \<open>Units (units.py)\<close>

definition canonical_units :: "(string \<times> string) list" where
  "canonical_units = [(''voltage'', ''V''), (''current'', ''A''), (''power_kw'', ''kW''), (''frequency'', ''Hz''),
     (''active_power'', ''kW''), (''energy_import_kwh'', ''kWh''), (''energy_export_kwh'', ''kWh''), (''temperature'', ''C'')]"

definition conversions :: "((string \<times> string) \<times> rat) list" where
  "conversions = [((''voltage'', ''kV''), 1000), ((''current'', ''mA''), 1/1000), ((''power_kw'', ''W''), 1/1000),
     ((''power_kw'', ''MW''), 1000), ((''active_power'', ''W''), 1/1000), ((''active_power'', ''MW''), 1000),
     ((''energy_import_kwh'', ''Wh''), 1/1000), ((''energy_import_kwh'', ''MWh''), 1000),
     ((''energy_export_kwh'', ''Wh''), 1/1000), ((''energy_export_kwh'', ''MWh''), 1000)]"

definition float_max :: int where
  "float_max = 2 ^ 1024 - 2 ^ 970"

text \<open>An operand of a float operation.\<close>

fun operand :: "pyval \<Rightarrow> pyfloat result" where
  "operand (PFloat x) = Inr x"
| "operand (PInt i) = (if \<bar>i\<bar> < float_max then Inr (Fin (of_int i))
     else Inl (OverflowErr (Fmt ''int too large to convert to float'' [])))"
| "operand _ = Inl (TypeErr (Fmt ''unsupported operand'' []))"

record conversion =
  cv_type :: pyval
  cv_from :: pyval
  cv_value :: pyval
  cv_to :: string
  cv_result :: pyval

definition convert :: "string \<Rightarrow> string \<Rightarrow> (pyfloat \<Rightarrow> pyfloat) option" where
  "convert ty un =
     (if ty = ''temperature'' \<and> un = ''F'' then Some (\<lambda>x. fl_scale (5 / 9) (fl_sub x (Fin 32)))
      else if ty = ''temperature'' \<and> un = ''K'' then Some (\<lambda>x. fl_sub x (Fin (27315 / 100)))
      else map_option fl_scale (map_of conversions (ty, un)))"

definition normalize_unit :: "measurement \<Rightarrow> (measurement \<times> conversion option) result" where
  "normalize_unit m = (case table_get canonical_units (m_type m) of
       None \<Rightarrow> Inr (m, None)
     | Some cu \<Rightarrow>
         if m_unit m = PStr cu then Inr (m, None)
         else if \<not> hashable (m_unit m) then Inl unhashable
         else case opt_bind (text_of (m_type m)) (\<lambda>ty. opt_bind (text_of (m_unit m)) (convert ty)) of
             None \<Rightarrow> Inr (m, None)
           | Some f \<Rightarrow> bindR (operand (m_value m)) (\<lambda>x.
               Inr (m\<lparr>m_unit := PStr cu, m_value := PFloat (f x)\<rparr>,
                    Some \<lparr>cv_type = m_type m, cv_from = m_unit m, cv_value = m_value m, cv_to = cu,
                          cv_result = PFloat (f x)\<rparr>)))"

subsection \<open>Quality (quality.py)\<close>

definition range_limits :: "(string \<times> rat \<times> rat) list" where
  "range_limits = [(''voltage'', 0, 500), (''current'', 0, 200), (''power_kw'', -1000, 1000), (''frequency'', 45, 65)]"

record transition =
  tr_type :: pyval
  tr_from :: quality
  tr_to :: quality
  tr_reason :: string

fun in_range :: "rat \<times> rat \<Rightarrow> pyval \<Rightarrow> bool" where
  "in_range (lo, hi) (PInt i) = (lo \<le> of_int i \<and> of_int i \<le> hi)"
| "in_range (lo, hi) (PFloat x) = (fl_le (Fin lo) x \<and> fl_le x (Fin hi))"
| "in_range _ _ = False"

definition escalate :: "measurement \<Rightarrow> quality \<Rightarrow> string \<Rightarrow> measurement \<times> transition option" where
  "escalate m q r = (m\<lparr>m_quality := q\<rparr>, Some \<lparr>tr_type = m_type m, tr_from = Q_GOOD, tr_to = q, tr_reason = r\<rparr>)"

definition assess_quality :: "measurement \<Rightarrow> (measurement \<times> transition option) result" where
  "assess_quality m =
     (if m_quality m \<noteq> Q_GOOD then Inr (m, None)
      else bindR (operand (m_value m)) (\<lambda>x. Inr (
        if \<not> is_finite x then escalate m Q_INVALID ''non_finite_value''
        else case table_get range_limits (m_type m) of
            Some b \<Rightarrow> if in_range b (m_value m) then (m, None) else escalate m Q_OUT_OF_RANGE ''out_of_range''
          | None \<Rightarrow> (m, None))))"

subsection \<open>Enrichment (enrichment.py)\<close>

record metadata =
  md_device :: pyval
  md_tenant :: "string option"
  md_site :: "string option"
  md_type :: "string option"
  md_class :: "string option"
  md_feeder :: "string option"
  md_transformer :: "string option"

text \<open>
  What the two queries answer: a device's tenant, site and type; a node's id, type and parent; or
  the exception they raise (the database is down, or the id is of a type the column cannot be
  compared with).
\<close>

type_synonym node_row = "string \<times> string \<times> string option"

record fetchers =
  fetch_device :: "pyval \<Rightarrow> (string option \<times> string option \<times> string option) option result"
  fetch_node :: "pyval \<Rightarrow> node_row option result"

fun walk_to_type :: "fetchers \<Rightarrow> string \<Rightarrow> nat \<Rightarrow> node_row option \<Rightarrow> string option result" where
  "walk_to_type f target 0 row = Inr None"
| "walk_to_type f target (Suc hops) None = Inr None"
| "walk_to_type f target (Suc hops) (Some (nid, ty, par)) =
     (if ty = target then Inr (Some nid)
      else case par of None \<Rightarrow> Inr None | Some p \<Rightarrow> if p = [] then Inr None
           else bindR (fetch_node f (PStr p)) (walk_to_type f target hops))"

lemma walk_to_type_None [simp]: "walk_to_type f target hops None = Inr None"
  by (cases hops) simp_all

definition max_hops :: nat where
  "max_hops = 10"

definition enrich_ttl :: rat where
  "enrich_ttl = 300"

type_synonym enrich_cache = "(pyval \<times> metadata \<times> rat) list"

definition walk_from :: "fetchers \<Rightarrow> pyval \<Rightarrow> string \<Rightarrow> string option result" where
  "walk_from f dev target = bindR (fetch_node f dev) (walk_to_type f target max_hops)"

definition look_up :: "fetchers \<Rightarrow> pyval \<Rightarrow> metadata result" where
  "look_up f dev = bindR (fetch_device f dev) (\<lambda>row.
     bindR (walk_from f dev ''feeder'') (\<lambda>feeder. bindR (walk_from f dev ''transformer'') (\<lambda>transformer.
       let ty = opt_bind row (\<lambda>r. snd (snd r)) in
       Inr \<lparr>md_device = dev, md_tenant = opt_bind row fst, md_site = opt_bind row (\<lambda>r. fst (snd r)),
            md_type = ty, md_class = ty, md_feeder = feeder, md_transformer = transformer\<rparr>)))"

definition fresh_entry :: "rat \<Rightarrow> (metadata \<times> rat) option \<Rightarrow> metadata option" where
  "fresh_entry clock x = opt_bind x (\<lambda>(md, t). if clock - t < enrich_ttl then Some md else None)"

text \<open>An exception leaves the cache as it was.\<close>

definition enrich :: "fetchers \<Rightarrow> rat \<Rightarrow> pyval \<Rightarrow> enrich_cache \<Rightarrow> metadata result \<times> enrich_cache" where
  "enrich f clock dev cache =
     (case fresh_entry clock (map_of cache dev) of
        Some md \<Rightarrow> (Inr md, cache)
      | None \<Rightarrow> (case look_up f dev of
            Inl x \<Rightarrow> (Inl x, cache)
          | Inr md \<Rightarrow> (Inr md, dict_put dev (md, clock) cache)))"

text \<open>What the enrichment raises, a query has raised.\<close>

definition query_error :: "fetchers \<Rightarrow> exn \<Rightarrow> bool" where
  "query_error f x \<longleftrightarrow> (\<exists>k. fetch_device f k = Inl x \<or> fetch_node f k = Inl x)"

lemma walk_to_type_error: "walk_to_type f target hops row = Inl x \<Longrightarrow> query_error f x"
  by (induction f target hops row rule: walk_to_type.induct)
    (auto simp: query_error_def bindR_def split: if_splits option.splits sum.splits)

lemma walk_from_error: "walk_from f dev target = Inl x \<Longrightarrow> query_error f x"
  by (auto simp: walk_from_def bindR_def query_error_def dest: walk_to_type_error [unfolded query_error_def] split: sum.splits)

lemma enrich_error:
  assumes "enrich f clock dev cache = (Inl x, cache')"
  shows "query_error f x"
proof -
  have "look_up f dev = Inl x"
    using assms by (auto simp: enrich_def split: option.splits sum.splits)
  then show ?thesis
    by (auto simp: look_up_def bindR_def Let_def query_error_def
        dest!: walk_from_error [unfolded query_error_def] split: sum.splits)
qed

end
