(* ===== verification/Mdm_Pipeline.thy ===== *)
theory Mdm_Pipeline
  imports Mdm_Engines
begin

text \<open>
  The pipeline of the meter data management service, \<^verbatim>\<open>src/services/mdm/pipeline.py\<close>, and the
  message handler in front of it (\<^verbatim>\<open>mqtt_io.py\<close>): one pass of validate, deduplicate, time stamp,
  gaps, units, quality and enrichment per envelope. An exception keeps the state the engines had
  reached. Metrics and logs are left out.
\<close>

subsection \<open>One message\<close>

record mdm_state =
  ms_dedup :: dedup_state
  ms_seq :: seq_state
  ms_gaps :: gap_state
  ms_cache :: enrich_cache

definition fresh_state :: mdm_state where
  "fresh_state = \<lparr>ms_dedup = \<lparr>seen_keys = [], seen_correlations = []\<rparr>, ms_seq = [], ms_gaps = [], ms_cache = []\<rparr>"

text \<open>
  What surrounds one call: the receipt and completion instants, the monotonic clock, the
  correlation id a default would draw, the fetchers, and the text of a float in an f-string.
\<close>

record mdm_env =
  received_at :: datetime
  processed_at :: datetime
  monotonic :: rat
  fresh_id :: string
  rows :: fetchers
  float_repr :: "pyfloat \<Rightarrow> string"

record trusted =
  tp_topic :: string
  tp_envelope :: envelope
  tp_meta :: metadata
  tp_transitions :: "transition list"
  tp_conversions :: "conversion list"
  tp_gaps :: "gap_event list"
  tp_time :: ts_assessment
  tp_processed :: string

datatype outcome = Dropped string | Published trusted

definition int_text :: "int \<Rightarrow> string" where
  "int_text i = (if i < 0 then CHR ''-'' # num_text (nat (- i)) else num_text (nat i))"

fun fstring :: "(pyfloat \<Rightarrow> string) \<Rightarrow> pyval \<Rightarrow> string" where
  "fstring fr (PStr s) = s"
| "fstring fr (PInt i) = int_text i"
| "fstring fr (PBool b) = (if b then ''True'' else ''False'')"
| "fstring fr (PFloat x) = fr x"
| "fstring fr _ = ''None''"

definition process_measurement :: "measurement \<Rightarrow> (measurement \<times> conversion option \<times> transition option) result" where
  "process_measurement m = bindR (normalize_unit m) (\<lambda>(m1, c). bindR (assess_quality m1) (\<lambda>(m2, t). Inr (m2, c, t)))"

definition options :: "'a option list \<Rightarrow> 'a list" where
  "options xs = concat (map (\<lambda>x. case x of None \<Rightarrow> [] | Some y \<Rightarrow> [y]) xs)"

definition trust :: "mdm_env \<Rightarrow> string \<Rightarrow> envelope \<Rightarrow> ts_assessment \<Rightarrow> gap_event list
    \<Rightarrow> (measurement \<times> conversion option \<times> transition option) list \<Rightarrow> metadata \<Rightarrow> trusted" where
  "trust env domain e ta gaps xs md =
     \<lparr>tp_topic = build_trusted_topic domain (fstring (float_repr env) (e_device e)),
      tp_envelope = e\<lparr>e_measurements := map fst xs\<rparr>, tp_meta = md,
      tp_transitions = options (map (\<lambda>x. snd (snd x)) xs), tp_conversions = options (map (\<lambda>x. fst (snd x)) xs),
      tp_gaps = gaps, tp_time = ta, tp_processed = isoformat (processed_at env)\<rparr>"

definition process :: "mdm_settings \<Rightarrow> mdm_env \<Rightarrow> string \<Rightarrow> (string \<times> pyval) list \<Rightarrow> mdm_state \<Rightarrow> outcome result \<times> mdm_state" where
  "process cfg env domain raw st =
     (case validate (fresh_id env) raw of
        Inl x \<Rightarrow> (Inl x, st)
      | Inr (Rejected r) \<Rightarrow> (Inr (Dropped r), st)
      | Inr (Accepted e) \<Rightarrow>
        (case check_and_record cfg e (ms_dedup st) of
           (Inl x, dd) \<Rightarrow> (Inl x, st\<lparr>ms_dedup := dd\<rparr>)
         | (Inr True, dd) \<Rightarrow> (Inr (Dropped ''duplicate''), st\<lparr>ms_dedup := dd\<rparr>)
         | (Inr False, dd) \<Rightarrow>
           (let ((ta, e1), sq) = assess_time cfg (received_at env) e (ms_seq st);
                (gr, gp) = check_gaps cfg e1 (e_measurements e1) (ms_gaps st);
                st1 = st\<lparr>ms_dedup := dd, ms_seq := sq, ms_gaps := gp\<rparr> in
            case gr of
              Inl x \<Rightarrow> (Inl x, st1)
            | Inr gaps \<Rightarrow>
              (case mapR process_measurement (e_measurements e1) of
                 Inl x \<Rightarrow> (Inl x, st1)
               | Inr xs \<Rightarrow>
                 (case enrich (rows env) (monotonic env) (e_device e1) (ms_cache st) of
                    (Inl x, _) \<Rightarrow> (Inl x, st1)
                  | (Inr md, cache) \<Rightarrow>
                      (Inr (Published (trust env domain e1 ta gaps xs md)), st1\<lparr>ms_cache := cache\<rparr>))))))"

subsection \<open>The payload and the message handler\<close>

definition transition_json :: "transition \<Rightarrow> pyval" where
  "transition_json t = PDict [(''measurement_type'', tr_type t), (''original_quality'', PStr (quality_text (tr_from t))),
     (''new_quality'', PStr (quality_text (tr_to t))), (''reason'', PStr (tr_reason t))]"

definition conversion_json :: "conversion \<Rightarrow> pyval" where
  "conversion_json c = PDict [(''measurement_type'', cv_type c), (''original_unit'', cv_from c),
     (''original_value'', cv_value c), (''canonical_unit'', PStr (cv_to c)), (''canonical_value'', cv_result c)]"

definition gap_json :: "gap_event \<Rightarrow> pyval" where
  "gap_json g = PDict [(''measurement_type'', gap_type g), (''gap_seconds'', PFloat (Fin (gap_seconds g))),
     (''estimated_missed_samples'', PInt (gap_missed g))]"

definition mdm_json :: "trusted \<Rightarrow> pyval" where
  "mdm_json p = PDict [(''processed_at'', PStr (tp_processed p)),
     (''device_metadata'', PDict [(''tenant_id'', opt_json (md_tenant (tp_meta p))), (''site_id'', opt_json (md_site (tp_meta p))),
        (''device_type'', opt_json (md_type (tp_meta p))), (''asset_class'', opt_json (md_class (tp_meta p))),
        (''feeder_id'', opt_json (md_feeder (tp_meta p))), (''transformer_id'', opt_json (md_transformer (tp_meta p)))]),
     (''quality_transitions'', PList (map transition_json (tp_transitions p))),
     (''unit_conversions'', PList (map conversion_json (tp_conversions p))),
     (''gap_events'', PList (map gap_json (tp_gaps p))),
     (''timestamp_assessment'', PDict [(''drift_seconds'', PFloat (Fin (drift_seconds (tp_time p)))),
        (''is_drifted'', PBool (is_drifted (tp_time p))), (''is_out_of_order'', PBool (is_out_of_order (tp_time p)))])]"

definition trusted_payload :: "trusted \<Rightarrow> (string \<times> pyval) list" where
  "trusted_payload p = envelope_to_dict (tp_envelope p) @ [(''mdm'', mdm_json p)]"

definition is_envelope_payload :: "(string \<times> pyval) list \<Rightarrow> bool" where
  "is_envelope_payload d \<longleftrightarrow> ''schema_version'' \<in> fst ` set d \<and> ''measurements'' \<in> fst ` set d"

text \<open>
  \<^verbatim>\<open>_on_message\<close>: \<open>None\<close> is a payload that is not JSON; the result is what is published, if anything.
  Nothing catches what \<^verbatim>\<open>process\<close> raises.
\<close>

definition on_message :: "mdm_settings \<Rightarrow> mdm_env \<Rightarrow> string \<Rightarrow> pyval option \<Rightarrow> mdm_state
    \<Rightarrow> (string \<times> (string \<times> pyval) list) option result \<times> mdm_state" where
  "on_message cfg env topic payload st =
     (case payload of
        Some (PDict d) \<Rightarrow>
          if \<not> is_envelope_payload d then (Inr None, st)
          else (case process cfg env (domain_from_topic topic) d st of
              (Inl x, st') \<Rightarrow> (Inl x, st')
            | (Inr (Dropped _), st') \<Rightarrow> (Inr None, st')
            | (Inr (Published p), st') \<Rightarrow> (Inr (Some (tp_topic p, trusted_payload p)), st'))
      | _ \<Rightarrow> (Inr None, st))"

text \<open>A run of the service over a sequence of messages, and the envelopes it trusts.\<close>

fun serve :: "mdm_settings \<Rightarrow> (mdm_env \<times> string \<times> (string \<times> pyval) list) list \<Rightarrow> mdm_state \<Rightarrow> outcome result list" where
  "serve cfg [] st = []"
| "serve cfg ((env, domain, raw) # ms) st = (let (r, st') = process cfg env domain raw st in r # serve cfg ms st')"

fun published_of :: "outcome result \<Rightarrow> trusted list" where
  "published_of (Inr (Published p)) = [p]"
| "published_of _ = []"

definition published :: "outcome result list \<Rightarrow> trusted list" where
  "published rs = concat (map published_of rs)"

end
