(* ===== verification/Mdm_Correct.thy ===== *)
theory Mdm_Correct
  imports Mdm_Pipeline
begin

text \<open>
  What the meter data management service guarantees about the stream it publishes: no reading
  twice, canonical units, quality flags that are only ever escalated from GOOD and mean what they say,
  envelopes the contract accepts, gap events; and the inputs on which it raises instead.
\<close>

subsection \<open>What a published envelope went through\<close>

lemma validate_Accepted:
  assumes "validate fresh raw = Inr (Accepted e)"
  shows "envelope_from_dict fresh raw = Inr e" "is_uuid (e_correlation e)"
    "\<And>m. m \<in> set (e_measurements e) \<Longrightarrow> unit_check m = Inr True"
proof -
  show 1: "envelope_from_dict fresh raw = Inr e" "is_uuid (e_correlation e)"
    using assms by (auto simp: validate_def bindR_eq_Inr split: sum.splits exn.splits if_splits)
  obtain oks where o: "mapR unit_check (e_measurements e) = Inr oks" "list_all (\<lambda>b. b) oks"
    using assms 1 by (auto simp: validate_def bindR_eq_Inr split: if_splits)
  fix m assume "m \<in> set (e_measurements e)"
  with o show "unit_check m = Inr True"
    by (auto simp: mapR_Inr list_all2_conv_all_nth list_all_length in_set_conv_nth)
qed

lemma process_Published:
  assumes "process cfg env domain raw st = (Inr (Published p), st')"
  obtains e ta sq gaps gp xs md cache dd where "validate (fresh_id env) raw = Inr (Accepted e)"
    "check_and_record cfg e (ms_dedup st) = (Inr False, dd)"
    "assess_time cfg (received_at env) e (ms_seq st) = ((ta, e\<lparr>e_ingested := Some (isoformat (received_at env))\<rparr>), sq)"
    "check_gaps cfg (e\<lparr>e_ingested := Some (isoformat (received_at env))\<rparr>) (e_measurements e) (ms_gaps st) = (Inr gaps, gp)"
    "mapR process_measurement (e_measurements e) = Inr xs"
    "enrich (rows env) (monotonic env) (e_device e) (ms_cache st) = (Inr md, cache)"
    "p = trust env domain (e\<lparr>e_ingested := Some (isoformat (received_at env))\<rparr>) ta gaps xs md" "ms_dedup st' = dd"
proof -
  let ?run = "process cfg env domain raw st"
  obtain e where v: "validate (fresh_id env) raw = Inr (Accepted e)"
    using assms by (auto simp: process_def split: sum.splits validation.splits)
  obtain dd where d: "check_and_record cfg e (ms_dedup st) = (Inr False, dd)"
    using assms v by (auto simp: process_def split: sum.splits prod.splits bool.splits)
  let ?e = "e\<lparr>e_ingested := Some (isoformat (received_at env))\<rparr>"
  obtain ta sq where t: "assess_time cfg (received_at env) e (ms_seq st) = ((ta, ?e), sq)"
    by (simp add: assess_time_def Let_def)
  obtain gr gp where g: "check_gaps cfg ?e (e_measurements e) (ms_gaps st) = (gr, gp)" by fastforce
  obtain mr cache where m0: "enrich (rows env) (monotonic env) (e_device e) (ms_cache st) = (mr, cache)" by fastforce
  obtain gaps where gaps: "gr = Inr gaps" using assms v d t g by (cases gr) (auto simp: process_def Let_def)
  obtain xs where xs: "mapR process_measurement (e_measurements e) = Inr xs"
    using assms v d t g gaps by (cases "mapR process_measurement (e_measurements e)") (auto simp: process_def Let_def)
  obtain md where md: "mr = Inr md" using assms v d t g gaps xs m0 by (cases mr) (auto simp: process_def Let_def)
  note m = m0 [unfolded md]
  have "p = trust env domain ?e ta gaps xs md \<and> ms_dedup st' = dd"
    using assms v d t g gaps xs m by (auto simp: process_def Let_def)
  then show thesis using that v d t g gaps xs m by blast
qed

subsection \<open>No reading twice\<close>

lemma bounded_add_room:
  "int (length xs) < n \<Longrightarrow> set (bounded_add n k xs) = insert k (set xs) \<and> length (bounded_add n k xs) \<le> Suc (length xs)"
  by (auto simp: bounded_add_def Let_def)

lemma process_dedup:
  assumes "process cfg env domain raw st = (r, st')" "int (length (seen_keys (ms_dedup st))) < dedup_cache cfg"
    "dedup_policy cfg \<noteq> ''correlation_only''"
  shows "set (seen_keys (ms_dedup st)) \<subseteq> set (seen_keys (ms_dedup st')) \<and>
    length (seen_keys (ms_dedup st')) \<le> Suc (length (seen_keys (ms_dedup st)))"
    "r = Inr (Published p) \<Longrightarrow> dedup_key (tp_envelope p) \<notin> set (seen_keys (ms_dedup st)) \<and>
       dedup_key (tp_envelope p) \<in> set (seen_keys (ms_dedup st'))"
proof -
  show "set (seen_keys (ms_dedup st)) \<subseteq> set (seen_keys (ms_dedup st')) \<and>
    length (seen_keys (ms_dedup st')) \<le> Suc (length (seen_keys (ms_dedup st)))"
  proof (cases "validate (fresh_id env) raw")
    case (Inr v)
    show ?thesis
    proof (cases v)
      case (Accepted e)
      obtain b dd where c: "check_and_record cfg e (ms_dedup st) = (b, dd)" by fastforce
      have "ms_dedup st' = dd"
        using assms(1) Inr Accepted c
        by (auto simp: process_def Let_def split: sum.splits prod.splits bool.splits)
      moreover have "set (seen_keys (ms_dedup st)) \<subseteq> set (seen_keys dd) \<and>
          length (seen_keys dd) \<le> Suc (length (seen_keys (ms_dedup st)))"
        using c bounded_add_room [OF assms(2), of "dedup_key e"] by (auto simp: check_and_record_def Let_def split: if_splits)
      ultimately show ?thesis by simp
    qed (use assms(1) Inr in \<open>auto simp: process_def\<close>)
  qed (use assms(1) in \<open>auto simp: process_def\<close>)
  assume "r = Inr (Published p)"
  then obtain e dd where e: "check_and_record cfg e (ms_dedup st) = (Inr False, dd)" "ms_dedup st' = dd"
    "dedup_key (tp_envelope p) = dedup_key e"
    using assms(1) by (auto elim!: process_Published simp: trust_def dedup_key_def)
  have "dedup_key e \<notin> set (seen_keys (ms_dedup st))"
    using e(1) assms(3) by (auto simp: check_and_record_def Let_def duplicate_def split: if_splits)
  moreover have "dedup_key e \<in> set (seen_keys dd)"
    using e(1) bounded_add_room [OF assms(2), of "dedup_key e"] by (auto simp: check_and_record_def Let_def split: if_splits)
  ultimately show "dedup_key (tp_envelope p) \<notin> set (seen_keys (ms_dedup st)) \<and>
       dedup_key (tp_envelope p) \<in> set (seen_keys (ms_dedup st'))" using e by simp
qed

lemma published_Cons: "published (r # rs) = published_of r @ published rs"
  by (simp add: published_def)

lemma serve_dedup:
  "dedup_policy cfg \<noteq> ''correlation_only'' \<Longrightarrow>
     int (length (seen_keys (ms_dedup st)) + length ms) \<le> dedup_cache cfg \<Longrightarrow>
     distinct (map (dedup_key \<circ> tp_envelope) (published (serve cfg ms st))) \<and>
     set (map (dedup_key \<circ> tp_envelope) (published (serve cfg ms st))) \<inter> set (seen_keys (ms_dedup st)) = {}"
proof (induction ms arbitrary: st)
  case (Cons m ms)
  obtain env domain raw where m: "m = (env, domain, raw)" by (cases m)
  obtain r st' where p: "process cfg env domain raw st = (r, st')" by fastforce
  have room: "int (length (seen_keys (ms_dedup st))) < dedup_cache cfg" using Cons.prems(2) by simp
  note d = process_dedup [OF p room Cons.prems(1)]
  have "int (length (seen_keys (ms_dedup st')) + length ms) \<le> dedup_cache cfg" using d(1) Cons.prems(2) by simp
  note ih = Cons.IH [OF Cons.prems(1) this]
  have eq: "published (serve cfg (m # ms) st) = published_of r @ published (serve cfg ms st')"
    using p m by (simp add: published_Cons)
  show ?case
  proof (cases r)
    case (Inr o')
    then show ?thesis
    proof (cases o')
      case (Published q)
      with Inr d(2) ih d(1) eq show ?thesis by auto
    qed (use ih d(1) eq Inr in auto)
  qed (use ih d(1) eq in auto)
qed (simp add: published_def)

text \<open>
  C18: over any sequence of messages no longer than the duplicate cache (50000 entries by default),
  and with a policy other than \<^verbatim>\<open>correlation_only\<close>, no two trusted readings share tenant, device,
  time stamp and sequence number. A longer run can evict the key of a reading and trust it again.
\<close>

theorem mdm_no_reading_twice:
  assumes "dedup_policy cfg \<noteq> ''correlation_only''" "int (length ms) \<le> dedup_cache cfg"
  shows "distinct (map (dedup_key \<circ> tp_envelope) (published (serve cfg ms fresh_state)))"
  using serve_dedup [of cfg fresh_state ms] assms by (simp add: fresh_state_def)

subsection \<open>Units and quality\<close>

text \<open>Every unit the registry admits for a type with a canonical unit is that unit or convertible to it.\<close>

lemma units_covered:
  "list_all (\<lambda>(ty, cu). case map_of known_units ty of None \<Rightarrow> False
     | Some us \<Rightarrow> list_all (\<lambda>u. u = cu \<or> \<not> Option.is_none (convert ty u)) us) canonical_units"
  by code_simp

lemma unit_known:
  assumes "unit_check m = Inr True" "table_get canonical_units (m_type m) = Some cu"
  shows "\<exists>ty un. m_type m = PStr ty \<and> m_unit m = PStr un \<and> (un = cu \<or> convert ty un \<noteq> None)"
proof -
  obtain ty where ty: "m_type m = PStr ty" "map_of canonical_units ty = Some cu"
    using assms(2) by (cases "m_type m") (auto simp: table_get_def)
  then have "(ty, cu) \<in> set canonical_units" by (simp add: map_of_SomeD)
  then obtain us where us: "map_of known_units ty = Some us" "\<forall>u\<in>set us. u = cu \<or> convert ty u \<noteq> None"
    using units_covered by (fastforce simp: list_all_iff Option.is_none_def split: option.splits)
  then show ?thesis
    using assms(1) ty(1) by (auto simp: unit_check_def table_get_def split: if_splits)
qed

lemma normalized_unit:
  assumes "normalize_unit m = Inr (m', c)" "unit_check m = Inr True"
  shows "m_type m' = m_type m" "m_quality m' = m_quality m"
    "table_get canonical_units (m_type m) = Some cu \<Longrightarrow> m_unit m' = PStr cu"
proof -
  show "m_type m' = m_type m" "m_quality m' = m_quality m"
    using assms(1) by (auto simp: normalize_unit_def bindR_eq_Inr split: option.splits if_splits)
  show "m_unit m' = PStr cu" if "table_get canonical_units (m_type m) = Some cu"
    using assms(1) unit_known [OF assms(2) that] that
    by (auto simp: normalize_unit_def bindR_eq_Inr split: option.splits if_splits)
qed

lemma assessed_quality:
  assumes "assess_quality m = Inr (m', t)"
  shows "m' = m\<lparr>m_quality := m_quality m'\<rparr>" "m_quality m \<noteq> Q_GOOD \<Longrightarrow> m' = m"
    "m_quality m' = Q_GOOD \<Longrightarrow> m_quality m = Q_GOOD \<and> (\<exists>x. operand (m_value m) = Inr x \<and> is_finite x) \<and>
       (\<forall>b. table_get range_limits (m_type m) = Some b \<longrightarrow> in_range b (m_value m))"
    "m_quality m' \<noteq> m_quality m \<Longrightarrow> (\<exists>r. t = Some \<lparr>tr_type = m_type m, tr_from = Q_GOOD, tr_to = m_quality m', tr_reason = r\<rparr>)"
proof -
  have cases: "m' = m \<and> t = None \<and> m_quality m \<noteq> Q_GOOD \<or>
      m' = m \<and> t = None \<and> m_quality m = Q_GOOD \<and> (\<exists>x. operand (m_value m) = Inr x \<and> is_finite x) \<and>
        (\<forall>b. table_get range_limits (m_type m) = Some b \<longrightarrow> in_range b (m_value m)) \<or>
      m_quality m = Q_GOOD \<and> (\<exists>q r. q \<noteq> Q_GOOD \<and> (m', t) = escalate m q r)"
  proof (cases "m_quality m = Q_GOOD")
    case True
    then obtain x where x: "operand (m_value m) = Inr x" "(m', t) = (if \<not> is_finite x then escalate m Q_INVALID ''non_finite_value''
        else case table_get range_limits (m_type m) of
            Some b \<Rightarrow> if in_range b (m_value m) then (m, None) else escalate m Q_OUT_OF_RANGE ''out_of_range''
          | None \<Rightarrow> (m, None))"
      using assms by (auto simp: assess_quality_def bindR_eq_Inr)
    have "Q_INVALID \<noteq> Q_GOOD" "Q_OUT_OF_RANGE \<noteq> Q_GOOD" by simp_all
    with x True show ?thesis by (cases "is_finite x"; cases "table_get range_limits (m_type m)") (simp_all split: if_splits, blast+)
  qed (use assms in \<open>simp add: assess_quality_def\<close>)
  then show "m' = m\<lparr>m_quality := m_quality m'\<rparr>" "m_quality m \<noteq> Q_GOOD \<Longrightarrow> m' = m"
    "m_quality m' = Q_GOOD \<Longrightarrow> m_quality m = Q_GOOD \<and> (\<exists>x. operand (m_value m) = Inr x \<and> is_finite x) \<and>
       (\<forall>b. table_get range_limits (m_type m) = Some b \<longrightarrow> in_range b (m_value m))"
    "m_quality m' \<noteq> m_quality m \<Longrightarrow> (\<exists>r. t = Some \<lparr>tr_type = m_type m, tr_from = Q_GOOD, tr_to = m_quality m', tr_reason = r\<rparr>)"
    by (auto simp: escalate_def)
qed

lemma processed_measurement:
  assumes "process_measurement m = Inr (m', c, t)" "unit_check m = Inr True"
  shows "m_type m' = m_type m" "table_get canonical_units (m_type m) = Some cu \<Longrightarrow> m_unit m' = PStr cu"
    "m_quality m \<noteq> Q_GOOD \<Longrightarrow> m_quality m' = m_quality m"
    "m_quality m' = Q_GOOD \<Longrightarrow> (\<exists>x. operand (m_value m') = Inr x \<and> is_finite x) \<and>
       (\<forall>b. table_get range_limits (m_type m') = Some b \<longrightarrow> in_range b (m_value m'))"
    "m_quality m' \<noteq> m_quality m \<Longrightarrow> (\<exists>r. t = Some \<lparr>tr_type = m_type m, tr_from = Q_GOOD, tr_to = m_quality m', tr_reason = r\<rparr>)"
proof -
  obtain m1 where n: "normalize_unit m = Inr (m1, c)" and a: "assess_quality m1 = Inr (m', t)"
    using assms(1) by (auto simp: process_measurement_def bindR_eq_Inr)
  note n' = normalized_unit [OF n assms(2)] and a' = assessed_quality [OF a]
  have ty: "m_type m' = m_type m1" "m_unit m' = m_unit m1" "m_value m' = m_value m1"
    by (subst a'(1), simp)+
  with n' a' show "m_type m' = m_type m" "table_get canonical_units (m_type m) = Some cu \<Longrightarrow> m_unit m' = PStr cu"
    "m_quality m \<noteq> Q_GOOD \<Longrightarrow> m_quality m' = m_quality m"
    "m_quality m' = Q_GOOD \<Longrightarrow> (\<exists>x. operand (m_value m') = Inr x \<and> is_finite x) \<and>
       (\<forall>b. table_get range_limits (m_type m') = Some b \<longrightarrow> in_range b (m_value m'))"
    "m_quality m' \<noteq> m_quality m \<Longrightarrow> (\<exists>r. t = Some \<lparr>tr_type = m_type m, tr_from = Q_GOOD, tr_to = m_quality m', tr_reason = r\<rparr>)"
    by simp_all
qed

lemma process_measurements:
  assumes "process cfg env domain raw st = (Inr (Published p), st')"
    "\<And>m m' c t. process_measurement m = Inr (m', c, t) \<Longrightarrow> unit_check m = Inr True \<Longrightarrow> t \<in> insert None (Some ` set (tp_transitions p)) \<Longrightarrow> R m m'"
  shows "\<exists>e. envelope_from_dict (fresh_id env) raw = Inr e \<and> list_all2 R (e_measurements e) (e_measurements (tp_envelope p))"
proof -
  obtain e ta gaps xs md where v: "validate (fresh_id env) raw = Inr (Accepted e)"
    and xs: "mapR process_measurement (e_measurements e) = Inr xs"
    and p: "p = trust env domain (e\<lparr>e_ingested := Some (isoformat (received_at env))\<rparr>) ta gaps xs md"
    using process_Published [OF assms(1)] by metis
  have "list_all2 (\<lambda>m x. process_measurement m = Inr x) (e_measurements e) xs" using xs by (simp add: mapR_Inr)
  moreover have "R m (fst x)" if "process_measurement m = Inr x" "m \<in> set (e_measurements e)" "x \<in> set xs" for m x
  proof -
    obtain m' c t where x: "x = (m', c, t)" by (cases x)
    have "t \<in> insert None (Some ` set (tp_transitions p))"
      using that(3) x by (cases t) (force simp: p trust_def options_def)+
    then show ?thesis using assms(2) that validate_Accepted(3) [OF v] x by simp
  qed
  ultimately have "list_all2 (\<lambda>m x. R m (fst x)) (e_measurements e) xs"
    by (auto simp: list_all2_conv_all_nth)
  then have "list_all2 R (e_measurements e) (e_measurements (tp_envelope p))"
    by (simp add: p trust_def list_all2_map2)
  with validate_Accepted(1) [OF v] show ?thesis by blast
qed

text \<open>
  a trusted reading keeps the types of its measurements in order, and each measurement whose type
  has a canonical unit is in that unit.
\<close>

theorem mdm_units_canonical:
  assumes "process cfg env domain raw st = (Inr (Published p), st')"
  shows "\<exists>e. envelope_from_dict (fresh_id env) raw = Inr e \<and>
    list_all2 (\<lambda>m m'. m_type m' = m_type m \<and> (\<forall>cu. table_get canonical_units (m_type m) = Some cu \<longrightarrow> m_unit m' = PStr cu))
      (e_measurements e) (e_measurements (tp_envelope p))"
  by (rule process_measurements [OF assms]) (simp add: processed_measurement)

text \<open>
  the service never overwrites a flag the driver set; a flag still GOOD in the trusted reading
  stands on a finite value within the limits of its type; and every flag it does change is recorded
  in the reading's transitions.
\<close>

theorem mdm_quality_escalates:
  assumes "process cfg env domain raw st = (Inr (Published p), st')"
  shows "\<exists>e. envelope_from_dict (fresh_id env) raw = Inr e \<and>
    list_all2 (\<lambda>m m'. (m_quality m \<noteq> Q_GOOD \<longrightarrow> m_quality m' = m_quality m) \<and>
        (m_quality m' = Q_GOOD \<longrightarrow> (\<exists>x. operand (m_value m') = Inr x \<and> is_finite x) \<and>
           (\<forall>b. table_get range_limits (m_type m') = Some b \<longrightarrow> in_range b (m_value m'))) \<and>
        (m_quality m' \<noteq> m_quality m \<longrightarrow> (\<exists>t\<in>set (tp_transitions p). tr_type t = m_type m \<and> tr_to t = m_quality m')))
      (e_measurements e) (e_measurements (tp_envelope p))"
proof (rule process_measurements [OF assms])
  fix m m' c t
  assume p: "process_measurement m = Inr (m', c, t)" "unit_check m = Inr True"
    and t: "t \<in> insert None (Some ` set (tp_transitions p))"
  note q = processed_measurement [OF p]
  have "\<exists>t\<in>set (tp_transitions p). tr_type t = m_type m \<and> tr_to t = m_quality m'" if ne: "m_quality m' \<noteq> m_quality m"
  proof -
    obtain r where "t = Some \<lparr>tr_type = m_type m, tr_from = Q_GOOD, tr_to = m_quality m', tr_reason = r\<rparr>" using q(5) [OF ne] by blast
    with t have "\<lparr>tr_type = m_type m, tr_from = Q_GOOD, tr_to = m_quality m', tr_reason = r\<rparr> \<in> set (tp_transitions p)" by auto
    then show ?thesis by (rule bexI [rotated]) simp
  qed
  with q show "(m_quality m \<noteq> Q_GOOD \<longrightarrow> m_quality m' = m_quality m) \<and>
        (m_quality m' = Q_GOOD \<longrightarrow> (\<exists>x. operand (m_value m') = Inr x \<and> is_finite x) \<and>
           (\<forall>b. table_get range_limits (m_type m') = Some b \<longrightarrow> in_range b (m_value m'))) \<and>
        (m_quality m' \<noteq> m_quality m \<longrightarrow> (\<exists>t\<in>set (tp_transitions p). tr_type t = m_type m \<and> tr_to t = m_quality m'))"
    by blast
qed

subsection \<open>The trusted envelope conforms to the contract\<close>

lemma table_get_in: "table_get d k = Some v \<Longrightarrow> \<exists>s. k = PStr s \<and> (s, v) \<in> set d"
  by (cases k) (auto simp: table_get_def dest: map_of_SomeD)

lemma process_measurement_steps:
  assumes "process_measurement m = Inr (m', c, t)"
  obtains m1 where "normalize_unit m = Inr (m1, c)" "assess_quality m1 = Inr (m', t)"
  using assms that by (auto simp: process_measurement_def bindR_eq_Inr)

lemma normalize_unit_type: "normalize_unit m = Inr (m1, c) \<Longrightarrow> m_type m1 = m_type m"
  by (auto simp: normalize_unit_def bindR_eq_Inr split: option.splits if_splits)

lemma processed_type:
  assumes "process_measurement m = Inr (m', c, t)"
  shows "m_type m' = m_type m"
proof -
  obtain m1 where n: "normalize_unit m = Inr (m1, c)" and a: "assess_quality m1 = Inr (m', t)"
    by (rule process_measurement_steps [OF assms])
  have "m_type m' = m_type m1" by (subst assessed_quality(1) [OF a]) simp
  then show ?thesis using normalize_unit_type [OF n] by simp
qed

lemma processed_measurement_ok:
  assumes "process_measurement m = Inr (m', c, t)" "measurement_ok m"
  shows "measurement_ok m'"
proof -
  obtain m1 where n: "normalize_unit m = Inr (m1, c)" and a: "assess_quality m1 = Inr (m', t)"
    using assms(1) by (auto simp: process_measurement_def bindR_eq_Inr)
  have can: "cu \<noteq> []" if "table_get canonical_units ty = Some cu" for ty cu
  proof -
    have "list_all (\<lambda>x. snd x \<noteq> []) canonical_units" by (simp add: canonical_units_def)
    moreover have "cu \<in> snd ` set canonical_units" using table_get_in [OF that] by force
    ultimately show ?thesis by (force simp: list_all_iff)
  qed
  have m1: "measurement_ok m1"
    using n assms(2) can
    by (auto simp: normalize_unit_def bindR_eq_Inr measurement_ok_def split: option.splits if_splits)
  have est: "m_quality m' = Q_ESTIMATED \<Longrightarrow> m_quality m1 = Q_ESTIMATED"
    using a by (cases "m_quality m1 = Q_GOOD")
      (auto simp: assess_quality_def bindR_eq_Inr escalate_def split: if_splits option.splits)
  have "m_type m' = m_type m1" "m_unit m' = m_unit m1" "m_value m' = m_value m1" "m_estimated m' = m_estimated m1"
    by (subst assessed_quality(1) [OF a], simp)+
  then show ?thesis using m1 est by (simp add: measurement_ok_def)
qed

text \<open>
  C19: the trusted payload is the canonical envelope followed by one additive \<^verbatim>\<open>mdm\<close> entry: without that
  entry the contract reads it back as the very envelope, and its ingestion time is the receipt time.
\<close>

theorem mdm_trusted_conforms:
  assumes "process cfg env domain raw st = (Inr (Published p), st')" "datetime_ok (received_at env)"
  shows "envelope_from_dict fresh (butlast (trusted_payload p)) = Inr (tp_envelope p) \<and>
    fst (last (trusted_payload p)) = ''mdm'' \<and> e_ingested (tp_envelope p) = Some (isoformat (received_at env))"
proof -
  obtain e ta gaps xs md where v: "validate (fresh_id env) raw = Inr (Accepted e)"
    and xs: "mapR process_measurement (e_measurements e) = Inr xs"
    and p: "p = trust env domain (e\<lparr>e_ingested := Some (isoformat (received_at env))\<rparr>) ta gaps xs md"
    using process_Published [OF assms(1)] by metis
  have e: "envelope_ok e" by (rule from_dict_ok [OF validate_Accepted(1) [OF v]])
  have s: "envelope_ok (e\<lparr>e_ingested := Some (isoformat (received_at env))\<rparr>)"
    using stamp_ok [OF e assms(2)] by (simp add: stamp_ingestion_time_def)
  have all: "list_all2 (\<lambda>m x. process_measurement m = Inr x) (e_measurements e) xs" using xs by (simp add: mapR_Inr)
  have "list_all2 (\<lambda>m x. measurement_ok m \<longrightarrow> measurement_ok (fst x) \<and> m_type (fst x) = m_type m) (e_measurements e) xs"
  proof (rule list_all2_mono [OF all])
    fix m x assume x: "process_measurement m = Inr x"
    obtain m' c t where "x = (m', c, t)" by (cases x)
    then show "measurement_ok m \<longrightarrow> measurement_ok (fst x) \<and> m_type (fst x) = m_type m"
      using x processed_measurement_ok [of m m' c t] processed_type [of m m' c t] by simp
  qed
  then have ms: "list_all measurement_ok (map fst xs)" "map m_type (map fst xs) = map m_type (e_measurements e)"
    using e by (auto simp: envelope_ok_def list_all2_conv_all_nth list_all_length intro!: nth_equalityI)
  have "e_measurements e \<noteq> []" using e by (simp add: envelope_ok_def)
  then have "map fst xs \<noteq> []" using list_all2_lengthD [OF all] by auto
  moreover have "list_all (\<lambda>m. hashable (m_type m)) (map fst xs)"
  proof -
    have "list_all hashable (map m_type (e_measurements e))" using e by (simp add: envelope_ok_def list_all_iff)
    then have "list_all hashable (map m_type (map fst xs))" using ms(2) by simp
    then show ?thesis by (simp add: list_all_iff)
  qed
  ultimately have "envelope_ok (tp_envelope p)"
    using s ms by (simp add: p trust_def envelope_ok_def)
  then show ?thesis by (simp add: trusted_payload_def envelope_dict_roundtrip) (simp add: p trust_def)
qed

subsection \<open>Gaps\<close>

lemma gap_of_Inr:
  "gap_of cfg t ty l = Inr g \<Longrightarrow> (g \<noteq> [] \<longleftrightarrow> (\<exists>t0. l = Some t0 \<and>
     fl_less (fl_scale (gap_tolerance cfg) (expected_interval cfg ty)) (Fin (seconds_of t - seconds_of t0)))) \<and>
   (\<forall>x\<in>set g. gap_type x = ty)"
  by (auto simp: gap_of_def Let_def bindR_eq_Inr split: option.splits if_splits)

lemma check_gaps_ok:
  "check_gaps cfg e ms st = (Inr gs, st') \<Longrightarrow> distinct (map m_type ms) \<Longrightarrow>
     (\<forall>m\<in>set ms. ((\<exists>g\<in>set gs. gap_type g = m_type m) \<longleftrightarrow>
        (\<exists>t. map_of st (e_tenant e, e_device e, m_type m) = Some t \<and>
           fl_less (fl_scale (gap_tolerance cfg) (expected_interval cfg (m_type m)))
             (Fin (seconds_of (captured_at e) - seconds_of t)))) \<and>
        map_of st' (e_tenant e, e_device e, m_type m) = Some (captured_at e)) \<and>
     (\<forall>g\<in>set gs. gap_type g \<in> m_type ` set ms) \<and>
     (\<forall>k. k \<notin> (\<lambda>m. (e_tenant e, e_device e, m_type m)) ` set ms \<longrightarrow> map_of st' k = map_of st k)"
proof (induction ms arbitrary: st gs)
  case (Cons m ms)
  let ?key = "\<lambda>ty. (e_tenant e, e_device e, ty)" let ?t = "captured_at e"
  obtain g gs1 where g: "gap_of cfg ?t (m_type m) (map_of st (?key (m_type m))) = Inr g"
    and r: "check_gaps cfg e ms (dict_put (?key (m_type m)) ?t st) = (Inr gs1, st')" and gs: "gs = g @ gs1"
    using Cons.prems(1) by (auto simp: Let_def split: sum.splits prod.splits)
  have d: "distinct (map m_type ms)" "m_type m \<notin> m_type ` set ms" using Cons.prems(2) by auto
  note ih = Cons.IH [OF r d(1)] and g' = gap_of_Inr [OF g]
  have other: "map_of (dict_put (?key (m_type m)) ?t st) (?key (m_type x)) = map_of st (?key (m_type x))"
    if "x \<in> set ms" for x
  proof -
    have "m_type x \<noteq> m_type m" using that d(2) by (metis imageI)
    then show ?thesis by simp
  qed
  have no: "gap_type x \<noteq> m_type m" if "x \<in> set gs1" for x
  proof -
    have "gap_type x \<in> m_type ` set ms" by (rule bspec [OF conjunct1 [OF conjunct2 [OF ih]] that])
    with d(2) show ?thesis by metis
  qed
  have noo: "gap_type x \<noteq> m_type y" if "x \<in> set g" "y \<in> set ms" for x y
    using bspec [OF conjunct2 [OF g'] that(1)] that(2) d(2) by (metis imageI)
  have head: "(\<exists>x\<in>set gs. gap_type x = m_type m) \<longleftrightarrow> g \<noteq> []"
    using conjunct2 [OF g'] no gs by (cases g) auto
  have "?key (m_type m) \<notin> (\<lambda>x. ?key (m_type x)) ` set ms" using d(2) by auto
  then have st': "map_of st' (?key (m_type m)) = Some ?t"
    using conjunct2 [OF conjunct2 [OF ih]] by simp
  have tail: "(\<exists>x\<in>set gs. gap_type x = m_type y) \<longleftrightarrow> (\<exists>x\<in>set gs1. gap_type x = m_type y)" if "y \<in> set ms" for y
    using noo [OF _ that] gs by auto
  let ?gap = "\<lambda>ty. \<exists>t0. map_of st (?key ty) = Some t0 \<and>
     fl_less (fl_scale (gap_tolerance cfg) (expected_interval cfg ty)) (Fin (seconds_of ?t - seconds_of t0))"
  have 1: "((\<exists>x\<in>set gs. gap_type x = m_type y) \<longleftrightarrow> ?gap (m_type y)) \<and> map_of st' (?key (m_type y)) = Some ?t"
    if "y \<in> set (m # ms)" for y
  proof (cases "y = m")
    case True
    then show ?thesis using conjunct1 [OF g'] head st' by simp
  next
    case False
    with that have y: "y \<in> set ms" by simp
    show ?thesis using bspec [OF conjunct1 [OF ih] y] tail [OF y] unfolding other [OF y] by simp
  qed
  have 2: "\<forall>x\<in>set gs. gap_type x \<in> m_type ` set (m # ms)"
    using conjunct1 [OF conjunct2 [OF ih]] conjunct2 [OF g'] gs by auto
  have 3: "\<forall>k. k \<notin> (\<lambda>x. ?key (m_type x)) ` set (m # ms) \<longrightarrow> map_of st' k = map_of st k"
    using conjunct2 [OF conjunct2 [OF ih]] by simp
  show ?case using 1 2 3 by blast
qed simp

text \<open>
  Gap detection reports a type of a reading exactly when that type of that device was seen before
  and longer ago than the tolerance times its expected interval, and afterwards remembers the reading's
  own time for every type in it.
\<close>

theorem mdm_gap_events:
  assumes "envelope_from_dict fresh raw = Inr e" "check_gaps cfg e (e_measurements e) st = (Inr gs, st')"
    "m \<in> set (e_measurements e)"
  shows "((\<exists>g\<in>set gs. gap_type g = m_type m) \<longleftrightarrow>
      (\<exists>t. map_of st (e_tenant e, e_device e, m_type m) = Some t \<and>
         fl_less (fl_scale (gap_tolerance cfg) (expected_interval cfg (m_type m)))
           (Fin (seconds_of (captured_at e) - seconds_of t)))) \<and>
    map_of st' (e_tenant e, e_device e, m_type m) = Some (captured_at e)"
  using check_gaps_ok [OF assms(2)] assms(3) from_dict_ok [OF assms(1)] by (simp add: envelope_ok_def)

subsection \<open>What it raises\<close>

definition contractual :: "exn \<Rightarrow> bool" where
  "contractual x \<longleftrightarrow> (case x of ContractError _ \<Rightarrow> True | TypeErr _ \<Rightarrow> True | _ \<Rightarrow> False)"

lemma bindR_eq_Inl: "bindR m f = Inl e \<longleftrightarrow> m = Inl e \<or> (\<exists>x. m = Inr x \<and> f x = Inl e)"
  by (cases m) simp_all

lemma guardR_Inl: "guardR b e = Inl x \<longleftrightarrow> \<not> b \<and> x = e"
  by (auto simp: guardR_def)

lemma mapR_Inl: "mapR f xs = Inl e \<Longrightarrow> \<exists>x\<in>set xs. f x = Inl e"
  by (induction xs) (auto simp: bindR_eq_Inl)

lemma contractual_simps [simp]: "contractual (contract_error t)" "contractual unhashable" "contractual (TypeErr m)"
  by (simp_all add: contractual_def contract_error_def unhashable_def)

lemma piece_errors:
  "parse_utc v = Inl x \<Longrightarrow> contractual x" "ingested_of v = Inl x \<Longrightarrow> contractual x"
  "ts_source_of v = Inl x \<Longrightarrow> contractual x" "sequence_of v = Inl x \<Longrightarrow> contractual x"
  "check_types seen ms = Inl x \<Longrightarrow> contractual x" "measurement_of v = Inl x \<Longrightarrow> contractual x"
  "iterate v = Inl x \<Longrightarrow> contractual x" "call_kwargs rq op d = Inl x \<Longrightarrow> contractual x"
proof -
  show utc: "parse_utc v = Inl x \<Longrightarrow> contractual x" for v x
    by (auto simp: parse_utc_def split: pyval.splits if_splits option.splits prod.splits)
  show "ingested_of v = Inl x \<Longrightarrow> contractual x"
    using utc by (auto simp: ingested_of_def bindR_eq_Inl split: pyval.splits)
  show "ts_source_of v = Inl x \<Longrightarrow> contractual x"
    by (auto simp: ts_source_of_def split: pyval.splits if_splits)
  show "sequence_of v = Inl x \<Longrightarrow> contractual x"
    by (auto simp: sequence_of_def split: pyval.splits if_splits)
  show "check_types seen ms = Inl x \<Longrightarrow> contractual x"
    by (induction seen ms rule: check_types.induct) (auto split: if_splits)
  show "call_kwargs rq op d = Inl x \<Longrightarrow> contractual x" for rq op d
    by (auto simp: call_kwargs_def split: if_splits)
  then show "measurement_of v = Inl x \<Longrightarrow> contractual x"
    by (auto simp: measurement_of_def mk_measurement_def bindR_eq_Inl guardR_Inl split: pyval.splits option.splits)
  show "iterate v = Inl x \<Longrightarrow> contractual x" by (cases v) auto
qed

lemma mk_envelope_errors: "mk_envelope fresh d ms = Inl x \<Longrightarrow> contractual x"
  by (auto simp: mk_envelope_def Let_def bindR_eq_Inl guardR_Inl dest!: mapR_Inl intro: piece_errors)

lemma from_dict_errors: "envelope_from_dict fresh d = Inl x \<Longrightarrow> contractual x"
  by (auto simp: envelope_from_dict_def Let_def bindR_eq_Inl dest!: mapR_Inl intro: piece_errors mk_envelope_errors)

lemma validate_total:
  assumes "\<And>e m. envelope_from_dict fresh raw = Inr e \<Longrightarrow> m \<in> set (e_measurements e) \<Longrightarrow> hashable (m_unit m)"
  shows "\<exists>v. validate fresh raw = Inr v"
proof (cases "envelope_from_dict fresh raw")
  case (Inl x)
  with from_dict_errors [OF Inl] show ?thesis by (auto simp: validate_def contractual_def split: exn.splits)
next
  case (Inr e)
  have "\<exists>oks. mapR unit_check ms = Inr oks" if "set ms \<subseteq> set (e_measurements e)" for ms
    using that assms [OF Inr] by (induction ms) (auto simp: unit_check_def split: option.splits)
  with Inr show ?thesis by (fastforce simp: validate_def)
qed

lemma check_gaps_total:
  assumes "\<And>ty. expected_interval cfg ty \<noteq> Fin 0"
  shows "\<exists>gs st'. check_gaps cfg e ms st = (Inr gs, st')"
proof (induction ms arbitrary: st)
  case (Cons m ms)
  have "\<exists>g. gap_of cfg t ty l = Inr g" for t ty l
    using assms [of ty] by (auto simp: gap_of_def Let_def missed_samples_def split: option.splits pyfloat.splits)
  then obtain g where "gap_of cfg (captured_at e) (m_type m) (map_of st (e_tenant e, e_device e, m_type m)) = Inr g" by blast
  with Cons [of "dict_put (e_tenant e, e_device e, m_type m) (captured_at e) st"] show ?case by (auto simp: Let_def)
qed simp

lemma process_measurement_total:
  assumes "hashable (m_unit m)" "operand (m_value m) = Inr x"
  shows "\<exists>y. process_measurement m = Inr y"
proof -
  have "\<exists>y. normalize_unit m = Inr y"
    using assms by (auto simp: normalize_unit_def split: option.splits)
  then obtain m1 c where n: "normalize_unit m = Inr (m1, c)" by force
  have "\<exists>x. operand (m_value m1) = Inr x"
    using n assms(2) by (auto simp: normalize_unit_def bindR_eq_Inr split: option.splits if_splits)
  then have "\<exists>y. assess_quality m1 = Inr y" by (auto simp: assess_quality_def)
  then obtain y where "assess_quality m1 = Inr y" by blast
  with n show ?thesis by (cases y) (simp add: process_measurement_def)
qed

text \<open>
  C20: on every payload whose accepted envelope has hashable identifiers and units and values that
  fit a float, and as long as no expected interval is zero, the pipeline either returns, publishing
  or dropping, or passes on the exception of a database query of the enrichment: nothing else raises.
\<close>

theorem mdm_total:
  assumes "\<And>e. envelope_from_dict (fresh_id env) raw = Inr e \<Longrightarrow> hashable (e_tenant e) \<and> hashable (e_device e) \<and>
      (\<forall>m\<in>set (e_measurements e). hashable (m_unit m) \<and> (\<exists>x. operand (m_value m) = Inr x))"
    "\<And>ty. expected_interval cfg ty \<noteq> Fin 0"
  shows "case fst (process cfg env domain raw st) of Inr r \<Rightarrow> True
    | Inl x \<Rightarrow> (\<exists>k. fetch_device (rows env) k = Inl x \<or> fetch_node (rows env) k = Inl x)"
proof -
  obtain v where v: "validate (fresh_id env) raw = Inr v" using validate_total assms(1) by blast
  show ?thesis
  proof (cases v)
    case (Accepted e)
    note e = validate_Accepted(1) [OF v [unfolded Accepted]]
    note h = assms(1) [OF e]
    obtain b dd where d: "check_and_record cfg e (ms_dedup st) = (Inr b, dd)"
      using h by (simp add: check_and_record_def Let_def)
    let ?e = "e\<lparr>e_ingested := Some (isoformat (received_at env))\<rparr>"
    obtain ta sq where t: "assess_time cfg (received_at env) e (ms_seq st) = ((ta, ?e), sq)"
      by (simp add: assess_time_def Let_def)
    obtain gs gp where g: "check_gaps cfg ?e (e_measurements e) (ms_gaps st) = (Inr gs, gp)"
      using check_gaps_total [OF assms(2)] by blast
    have "\<exists>xs. mapR process_measurement ms = Inr xs" if "set ms \<subseteq> set (e_measurements e)" for ms
      using that h by (induction ms) (auto dest!: process_measurement_total)
    then obtain xs where xs: "mapR process_measurement (e_measurements e) = Inr xs" by blast
    obtain mr cache where m: "enrich (rows env) (monotonic env) (e_device e) (ms_cache st) = (mr, cache)" by fastforce
    show ?thesis
    proof (cases mr)
      case (Inl x)
      with enrich_error m have "query_error (rows env) x" by blast
      with Inl show ?thesis using v Accepted d t g xs m by (cases b) (simp_all add: process_def Let_def query_error_def)
    next
      case (Inr md)
      then show ?thesis using v Accepted d t g xs m by (cases b) (simp_all add: process_def Let_def)
    qed
  qed (use v in \<open>simp add: process_def\<close>)
qed

subsection \<open>One reading through the pipeline\<close>

definition noon :: datetime where
  "noon = \<lparr>dt_year = 2026, dt_month = 7, dt_day = 18, dt_hour = 10, dt_minute = 0, dt_second = 2, dt_micro = 250000\<rparr>"

definition no_rows :: fetchers where
  "no_rows = \<lparr>fetch_device = (\<lambda>_. Inr None), fetch_node = (\<lambda>_. Inr None)\<rparr>"

definition demo_env :: mdm_env where
  "demo_env = \<lparr>received_at = noon, processed_at = noon, monotonic = 0, fresh_id = ''fresh'', rows = no_rows, float_repr = (\<lambda>_. [])\<rparr>"

lemmas mdm_run = process_def validate_def check_and_record_def assess_time_def trust_def enrich_def look_up_def walk_from_def
  fresh_entry_def unit_check_def table_get_def known_units_def is_uuid_def hex_int_ok_def split_sign_def strip_def is_space_def
  to_lower_def hex_digit_def bounded_add_def dedup_key_def duplicate_def captured_at_def gap_of_def
  process_measurement_def normalize_unit_def canonical_units_def convert_def conversions_def assess_quality_def
  range_limits_def is_finite_def fresh_state_def default_settings_def demo_env_def noon_def no_rows_def max_hops_def
  escalate_def float_max_def contract_run

fun outcome_kind :: "outcome result \<Rightarrow> string" where
  "outcome_kind (Inl _) = ''raised''"
| "outcome_kind (Inr (Dropped r)) = r"
| "outcome_kind (Inr (Published _)) = ''published''"

lemma demo_published:
  obtains p st' where "process default_settings demo_env ''d'' demo_reading fresh_state = (Inr (Published p), st')"
proof -
  have "outcome_kind (fst (process default_settings demo_env ''d'' demo_reading fresh_state)) = ''published''"
    by (simp add: mdm_run demo_reading_def)
  moreover have "outcome_kind r = ''published'' \<Longrightarrow> r \<noteq> Inr (Dropped ''published'') \<Longrightarrow> \<exists>p. r = Inr (Published p)" for r
    by (cases r rule: outcome_kind.cases) auto
  moreover have "fst (process default_settings demo_env ''d'' demo_reading fresh_state) \<noteq> Inr (Dropped ''published'')"
    by (simp add: mdm_run demo_reading_def)
  ultimately show thesis using that by (metis prod.collapse)
qed

lemma demo_twice:
  "map outcome_kind (serve default_settings [(demo_env, ''d'', demo_reading), (demo_env, ''d'', demo_reading)] fresh_state)
     = [''published'', ''duplicate'']"
  by (simp add: mdm_run demo_reading_def)

theorem mdm_no_reading_twice_witness:
  "map outcome_kind (serve default_settings [(demo_env, ''d'', demo_reading), (demo_env, ''d'', demo_reading)] fresh_state)
     = [''published'', ''duplicate''] \<and>
   distinct (map (dedup_key \<circ> tp_envelope) (published (serve default_settings
     [(demo_env, ''d'', demo_reading), (demo_env, ''d'', demo_reading)] fresh_state)))"
  by (intro conjI demo_twice mdm_no_reading_twice) (simp_all add: default_settings_def)

theorem mdm_units_canonical_witness:
  "\<exists>p st' e. process default_settings demo_env ''d'' demo_reading fresh_state = (Inr (Published p), st') \<and>
     envelope_from_dict ''fresh'' demo_reading = Inr e \<and> map m_unit (e_measurements e) = [PStr ''kV'', PStr ''W''] \<and>
     map m_unit (e_measurements (tp_envelope p)) = [PStr ''V'', PStr ''kW'']"
proof -
  obtain p st' where p: "process default_settings demo_env ''d'' demo_reading fresh_state = (Inr (Published p), st')"
    by (rule demo_published)
  obtain e where e: "envelope_from_dict ''fresh'' demo_reading = Inr e"
    and u: "list_all2 (\<lambda>m m'. m_type m' = m_type m \<and> (\<forall>cu. table_get canonical_units (m_type m) = Some cu \<longrightarrow> m_unit m' = PStr cu))
      (e_measurements e) (e_measurements (tp_envelope p))"
    using mdm_units_canonical [OF p] by (auto simp: demo_env_def)
  have ms: "map m_type (e_measurements e) = [PStr ''voltage'', PStr ''power_kw'']" "map m_unit (e_measurements e) = [PStr ''kV'', PStr ''W'']"
    using e by (auto simp: demo_reading_def contract_run)
  then have "map m_unit (e_measurements (tp_envelope p)) = [PStr ''V'', PStr ''kW'']"
    using u by (auto simp: list_all2_Cons1 table_get_def canonical_units_def Cons_eq_map_conv map_eq_Cons_conv)
  with p e ms(2) show ?thesis by (intro exI conjI)
qed

theorem mdm_quality_escalates_witness:
  "\<exists>p st' e. process default_settings demo_env ''d'' demo_reading fresh_state = (Inr (Published p), st') \<and>
     envelope_from_dict ''fresh'' demo_reading = Inr e \<and>
     list_all2 (\<lambda>m m'. m_quality m = Q_GOOD \<and> (m_quality m' \<noteq> Q_GOOD \<or> (\<exists>x. operand (m_value m') = Inr x \<and> is_finite x)))
       (e_measurements e) (e_measurements (tp_envelope p))"
proof -
  obtain p st' where p: "process default_settings demo_env ''d'' demo_reading fresh_state = (Inr (Published p), st')"
    by (rule demo_published)
  obtain e where e: "envelope_from_dict ''fresh'' demo_reading = Inr e"
    and q: "list_all2 (\<lambda>m m'. (m_quality m \<noteq> Q_GOOD \<longrightarrow> m_quality m' = m_quality m) \<and>
        (m_quality m' = Q_GOOD \<longrightarrow> (\<exists>x. operand (m_value m') = Inr x \<and> is_finite x) \<and>
           (\<forall>b. table_get range_limits (m_type m') = Some b \<longrightarrow> in_range b (m_value m'))) \<and>
        (m_quality m' \<noteq> m_quality m \<longrightarrow> (\<exists>t\<in>set (tp_transitions p). tr_type t = m_type m \<and> tr_to t = m_quality m')))
      (e_measurements e) (e_measurements (tp_envelope p))"
    using mdm_quality_escalates [OF p] by (auto simp: demo_env_def)
  have "list_all (\<lambda>m. m_quality m = Q_GOOD) (e_measurements e)"
    using e by (auto simp: demo_reading_def contract_run)
  with q have "list_all2 (\<lambda>m m'. m_quality m = Q_GOOD \<and> (m_quality m' \<noteq> Q_GOOD \<or> (\<exists>x. operand (m_value m') = Inr x \<and> is_finite x)))
       (e_measurements e) (e_measurements (tp_envelope p))"
    by (auto simp: list_all2_conv_all_nth list_all_length)
  with p e show ?thesis by blast
qed

theorem mdm_trusted_conforms_witness:
  "\<exists>p st'. process default_settings demo_env ''d'' demo_reading fresh_state = (Inr (Published p), st') \<and>
     envelope_from_dict [] (butlast (trusted_payload p)) = Inr (tp_envelope p) \<and>
     e_ingested (tp_envelope p) = Some (isoformat noon)"
proof -
  obtain p st' where p: "process default_settings demo_env ''d'' demo_reading fresh_state = (Inr (Published p), st')"
    by (rule demo_published)
  have "datetime_ok (received_at demo_env)"
    by (simp add: demo_env_def noon_def datetime_ok_def date_ok_def time_ok_def days_in_month_def)
  from mdm_trusted_conforms [OF p this, of "[]"] p show ?thesis by (auto simp: demo_env_def)
qed

lemma default_expected: "expected_interval default_settings ty = Fin 5"
proof -
  have "expected_intervals default_settings = []"
    by (simp add: default_settings_def parse_intervals_def parse_interval_def strip_def)
  then have "table_get (expected_intervals default_settings) ty = None" by (cases ty) (simp_all add: table_get_def)
  then show ?thesis by (simp add: expected_interval_def default_settings_def)
qed

theorem mdm_total_witness:
  "\<not> isl (fst (process default_settings demo_env ''d'' demo_reading fresh_state))"
proof -
  have "case fst (process default_settings demo_env ''d'' demo_reading fresh_state) of Inr r \<Rightarrow> True
    | Inl x \<Rightarrow> (\<exists>k. fetch_device (rows demo_env) k = Inl x \<or> fetch_node (rows demo_env) k = Inl x)"
  proof (rule mdm_total)
    fix e assume "envelope_from_dict (fresh_id demo_env) demo_reading = Inr e"
    then show "hashable (e_tenant e) \<and> hashable (e_device e) \<and>
        (\<forall>m\<in>set (e_measurements e). hashable (m_unit m) \<and> (\<exists>x. operand (m_value m) = Inr x))"
      by (auto simp: demo_reading_def contract_run demo_env_def float_max_def)
  qed (simp add: default_expected)
  then show ?thesis by (cases "fst (process default_settings demo_env ''d'' demo_reading fresh_state)") (auto simp: demo_env_def no_rows_def)
qed

text \<open>A reading one minute after the last one of its device: five seconds were expected.\<close>

theorem mdm_gap_events_witness:
  "\<exists>e gs st'. envelope_from_dict ''fresh'' demo_reading = Inr e \<and>
     check_gaps default_settings e (e_measurements e) [((PStr ''default'', PStr ''M1'', PStr ''voltage''), noon\<lparr>dt_hour := 9\<rparr>)] = (Inr gs, st') \<and>
     (\<exists>g\<in>set gs. gap_type g = PStr ''voltage'')"
proof -
  let ?st = "[((PStr ''default'', PStr ''M1'', PStr ''voltage''), noon\<lparr>dt_hour := 9\<rparr>)]"
  obtain e where e: "envelope_from_dict ''fresh'' demo_reading = Inr e" using demo_reading_accepted by blast
  obtain gs st' where g: "check_gaps default_settings e (e_measurements e) ?st = (Inr gs, st')"
    using check_gaps_total [of default_settings e "e_measurements e" ?st] by (auto simp: default_expected)
  obtain m where m: "m \<in> set (e_measurements e)" "m_type m = PStr ''voltage''" "e_tenant e = PStr ''default''" "e_device e = PStr ''M1''"
    "e_timestamp e = ''2026-07-18T10:00:00Z''"
    using e by (force simp: demo_reading_def contract_run)
  have "fl_less (fl_scale (gap_tolerance default_settings) (Fin 5)) (Fin (seconds_of (captured_at e) - seconds_of (noon\<lparr>dt_hour := 9\<rparr>)))"
    by (simp add: default_settings_def captured_at_def m(5) iso_run noon_def seconds_of_def day_number_def days_before_year_def)
  then have "\<exists>g\<in>set gs. gap_type g = PStr ''voltage''"
    using mdm_gap_events [OF e g m(1)] by (simp add: m default_expected)
  with e g show ?thesis by blast
qed

subsection \<open>Payloads that raise out of the pipeline\<close>

text \<open>
  The handler has no \<^verbatim>\<open>except\<close>: a device id that is a list, an integer too large for a float, and a
  unit that is a list each raise out of \<^verbatim>\<open>process\<close>; the second after the reading was recorded as seen,
  so that its redelivery is dropped as a duplicate.
\<close>

definition poison_id :: "(string \<times> pyval) list" where
  "poison_id = dict_put ''device_id'' (PList [PInt 1]) demo_reading"

definition poison_value :: "(string \<times> pyval) list" where
  "poison_value = reading ''M1'' 3 [point ''voltage'' ''V'' (PInt (10 ^ 400))]"

definition poison_unit :: "(string \<times> pyval) list" where
  "poison_unit = reading ''M1'' 3 [PDict [(''measurement_type'', PStr ''voltage''), (''unit'', PList [PInt 1]), (''value'', PInt 1)]]"

lemma mdm_poison_raises:
  "map outcome_kind (serve default_settings [(demo_env, ''d'', poison_id)] fresh_state) = [''raised'']"
  "map outcome_kind (serve default_settings [(demo_env, ''d'', poison_unit)] fresh_state) = [''raised'']"
  by (simp_all add: mdm_run poison_id_def poison_unit_def demo_reading_def unhashable_def)

lemma mdm_poison_recorded:
  "map outcome_kind (serve default_settings [(demo_env, ''d'', poison_value), (demo_env, ''d'', poison_value)] fresh_state)
     = [''raised'', ''duplicate'']"
  by (simp add: mdm_run poison_value_def)

text \<open>
  The same happens while the database is down: the query of the enrichment raises, the reading is
  not published, and its redelivery is dropped as a duplicate.
\<close>

definition outage_env :: mdm_env where
  "outage_env = demo_env\<lparr>rows := \<lparr>fetch_device = (\<lambda>_. Inl (DbError (Fmt ''connection refused'' []))), fetch_node = (\<lambda>_. Inr None)\<rparr>\<rparr>"

lemma mdm_outage_loses_reading:
  "map outcome_kind (serve default_settings [(outage_env, ''d'', demo_reading), (demo_env, ''d'', demo_reading)] fresh_state)
     = [''raised'', ''duplicate'']"
  by (simp add: mdm_run outage_env_def demo_reading_def)

text \<open>A dimensionless power factor can never be sent: the registry allows the empty unit, the contract does not.\<close>

lemma empty_unit_unreachable: "measurement_of (point ''power_factor'' [] (PInt 1)) = Inl (contract_error ''unit is required'')"
  by (simp add: contract_run guardR_def)

end
