(* ===== verification/Radial_Tree.thy ===== *)
theory Radial_Tree
  imports Demo_Network
begin

text \<open>
  The radial tree every engine of \<^verbatim>\<open>src/fastapi/dms\<close> works on: \<^verbatim>\<open>build_radial\<close> of
  \<^verbatim>\<open>state_estimation.py\<close>. A walk over the closed edges records the edge each node was first
  reached by; paths, subtrees and per-unit impedances are read off these parents. The walk
  terminates, and what it records is a tree (\<open>rooted\<close>) that spans the nodes reachable from the source.
\<close>

subsection \<open>The walk\<close>

text \<open>The parents found so far, in the order of discovery: node, parent and the edge between them.\<close>

type_synonym parents = "(string \<times> string \<times> grid_edge) list"

definition seen_of :: "string \<Rightarrow> parents \<Rightarrow> string list" where
  "seen_of rt par = rt # map fst par"

definition labelled_arcs :: "grid_edge list \<Rightarrow> (string \<times> string \<times> grid_edge) list" where
  "labelled_arcs es = concat (map (\<lambda>e. [(from_node e, to_node e, e), (to_node e, from_node e, e)]) es)"

definition neighbours :: "(string \<times> string \<times> grid_edge) list \<Rightarrow> string \<Rightarrow> (string \<times> grid_edge) list" where
  "neighbours arcs c = map snd (filter (\<lambda>a. fst a = c) arcs)"

fun grow :: "string \<Rightarrow> string \<Rightarrow> (string \<times> grid_edge) list \<Rightarrow> parents \<Rightarrow> string list \<Rightarrow> parents \<times> string list" where
  "grow rt c [] par stack = (par, stack)"
| "grow rt c ((n, e) # ns) par stack =
     (if n \<in> set (seen_of rt par) then grow rt c ns par stack
      else grow rt c ns (par @ [(n, c, e)]) (n # stack))"

lemma set_neighbours: "set (neighbours arcs c) = {x. (c, x) \<in> set arcs}"
  by (auto simp: neighbours_def image_iff)

lemma set_seen_of: "set (seen_of rt par) = insert rt (fst ` set par)"
  by (simp add: seen_of_def)

lemma grow_seen:
  "grow rt c ns par stack = (par', stack') \<Longrightarrow>
     set (seen_of rt par') = set (seen_of rt par) \<union> fst ` set ns"
  by (induction rt c ns par stack rule: grow.induct) (auto simp: set_seen_of split: if_splits)

lemma grow_stack:
  "grow rt c ns par stack = (par', stack') \<Longrightarrow>
     set stack' = set stack \<union> (fst ` set ns - set (seen_of rt par)) \<and>
     (fst ` set ns \<subseteq> set (seen_of rt par) \<longrightarrow> stack' = stack)"
  by (induction rt c ns par stack rule: grow.induct) (auto simp: set_seen_of split: if_splits)

lemma grow_measure:
  assumes "grow rt c (neighbours arcs c) par stack = (par', stack')"
  shows "card ((fst \<circ> snd) ` set arcs - set (seen_of rt par')) < card ((fst \<circ> snd) ` set arcs - set (seen_of rt par)) \<or>
    card ((fst \<circ> snd) ` set arcs - set (seen_of rt par')) = card ((fst \<circ> snd) ` set arcs - set (seen_of rt par)) \<and>
    length stack' < Suc (length stack)"
proof (cases "fst ` set (neighbours arcs c) \<subseteq> set (seen_of rt par)")
  case True
  with grow_seen [OF assms] have "set (seen_of rt par') = set (seen_of rt par)" by blast
  with True grow_stack [OF assms] show ?thesis by simp
next
  case False
  then obtain n where n: "n \<in> fst ` set (neighbours arcs c)" "n \<notin> set (seen_of rt par)" by blast
  then have "n \<in> (fst \<circ> snd) ` set arcs" by (force simp: set_neighbours)
  with n grow_seen [OF assms]
  have "(fst \<circ> snd) ` set arcs - set (seen_of rt par') \<subset> (fst \<circ> snd) ` set arcs - set (seen_of rt par)"
    by blast
  then show ?thesis by (simp add: psubset_card_mono)
qed

function tree_walk :: "(string \<times> string \<times> grid_edge) list \<Rightarrow> string \<Rightarrow> parents \<Rightarrow> string list \<Rightarrow> string list
    \<Rightarrow> parents \<times> string list" where
  "tree_walk arcs rt par order [] = (par, order)"
| "tree_walk arcs rt par order (c # stack) =
     (let (par', stack') = grow rt c (neighbours arcs c) par stack
      in tree_walk arcs rt par' (order @ [c]) stack')"
  by pat_completeness auto

termination
proof (relation "measures [\<lambda>(arcs, rt, par, order, stack). card ((fst \<circ> snd) ` set arcs - set (seen_of rt par)),
    \<lambda>(arcs, rt, par, order, stack). length stack]", goal_cases)
  case 1
  then show ?case by simp
next
  case (2 arcs rt par order c stack x par' stack')
  then have "grow rt c (neighbours arcs c) par stack = (par', stack')" by simp
  from grow_measure [OF this] show ?case by auto
qed

declare tree_walk.simps [simp del]

subsection \<open>What the walk records\<close>

text \<open>Every node was new when it was recorded, and its parent had been recorded before it.\<close>

inductive rooted :: "string \<Rightarrow> parents \<Rightarrow> bool" for rt where
  rooted_Nil: "rooted rt []"
| rooted_snoc: "rooted rt par \<Longrightarrow> p \<in> set (seen_of rt par) \<Longrightarrow> n \<notin> set (seen_of rt par) \<Longrightarrow>
    rooted rt (par @ [(n, p, e)])"

lemma rooted_distinct: "rooted rt par \<Longrightarrow> distinct (seen_of rt par)"
  by (induction rule: rooted.induct) (auto simp: seen_of_def)

lemma grow_rooted:
  "grow rt c ns par stack = (par', stack') \<Longrightarrow> rooted rt par \<Longrightarrow> c \<in> set (seen_of rt par) \<Longrightarrow> rooted rt par'"
proof (induction rt c ns par stack rule: grow.induct)
  case (2 rt c n e ns par stack)
  show ?case
  proof (cases "n \<in> set (seen_of rt par)")
    case False
    have "rooted rt (par @ [(n, c, e)])" by (rule rooted_snoc [OF "2.prems"(2,3) False])
    moreover have "c \<in> set (seen_of rt (par @ [(n, c, e)]))" using "2.prems"(3) by (auto simp: set_seen_of)
    ultimately show ?thesis using "2.IH"(2) [OF False] "2.prems"(1) False by simp
  qed (use 2 in simp)
qed simp

lemma grow_arcs:
  "grow rt c ns par stack = (par', stack') \<Longrightarrow>
     set par' \<subseteq> set par \<union> {(n, c, e) |n e. (n, e) \<in> set ns}"
  by (induction rt c ns par stack rule: grow.induct) (auto split: if_splits)

lemma grow_distinct:
  "grow rt c ns par stack = (par', stack') \<Longrightarrow> distinct (order @ stack) \<Longrightarrow>
     set (order @ stack) = set (seen_of rt par) \<Longrightarrow>
     distinct (order @ stack') \<and> set (order @ stack') = set (seen_of rt par')"
proof (induction rt c ns par stack rule: grow.induct)
  case (2 rt c n e ns par stack)
  show ?case
  proof (cases "n \<in> set (seen_of rt par)")
    case True
    with 2 show ?thesis by simp
  next
    case False
    with "2.prems" have "distinct (order @ n # stack)" "set (order @ n # stack) = set (seen_of rt (par @ [(n, c, e)]))"
      by (auto simp: set_seen_of)
    with "2.IH"(2) [OF False] "2.prems"(1) False show ?thesis by simp
  qed
qed simp

text \<open>The loop invariant, and what it gives when the stack is empty.\<close>

definition tree_inv :: "(string \<times> string \<times> grid_edge) list \<Rightarrow> string \<Rightarrow> parents \<Rightarrow> string list \<Rightarrow> string list \<Rightarrow> bool" where
  "tree_inv arcs rt par order stack \<longleftrightarrow> rooted rt par \<and> (\<forall>(n, p, e)\<in>set par. (p, n, e) \<in> set arcs) \<and>
     distinct (order @ stack) \<and> set (order @ stack) = set (seen_of rt par) \<and>
     (\<forall>c\<in>set order. \<forall>n e. (c, n, e) \<in> set arcs \<longrightarrow> n \<in> set (seen_of rt par))"

lemma tree_inv_step:
  assumes "tree_inv arcs rt par order (c # stack)" "grow rt c (neighbours arcs c) par stack = (par', stack')"
  shows "tree_inv arcs rt par' (order @ [c]) stack'"
proof -
  have c: "c \<in> set (seen_of rt par)" using assms(1) by (auto simp: tree_inv_def)
  have d: "distinct ((order @ [c]) @ stack) \<and> set ((order @ [c]) @ stack) = set (seen_of rt par)"
    using assms(1) by (auto simp: tree_inv_def)
  have "rooted rt par'" using grow_rooted [OF assms(2)] c assms(1) by (simp add: tree_inv_def)
  moreover have "\<forall>(n, p, e)\<in>set par'. (p, n, e) \<in> set arcs"
  proof
    fix x assume "x \<in> set par'"
    then have "x \<in> set par \<or> (\<exists>n e. x = (n, c, e) \<and> (c, n, e) \<in> set arcs)"
      using grow_arcs [OF assms(2)] by (auto simp: set_neighbours)
    then show "case x of (n, p, e) \<Rightarrow> (p, n, e) \<in> set arcs" using assms(1) by (auto simp: tree_inv_def)
  qed
  moreover have "distinct ((order @ [c]) @ stack') \<and> set ((order @ [c]) @ stack') = set (seen_of rt par')"
    using grow_distinct [OF assms(2)] d by blast
  moreover have "\<forall>x\<in>set (order @ [c]). \<forall>n e. (x, n, e) \<in> set arcs \<longrightarrow> n \<in> set (seen_of rt par')"
  proof (intro ballI allI impI)
    fix x n e assume x: "x \<in> set (order @ [c])" "(x, n, e) \<in> set arcs"
    then have "n \<in> set (seen_of rt par) \<or> n \<in> fst ` set (neighbours arcs c)"
      using assms(1) by (force simp: tree_inv_def set_neighbours)
    then show "n \<in> set (seen_of rt par')" using grow_seen [OF assms(2)] by blast
  qed
  ultimately show ?thesis by (simp add: tree_inv_def)
qed

lemma tree_walk_inv:
  "tree_inv arcs rt par order stack \<Longrightarrow> tree_walk arcs rt par order stack = (par', order') \<Longrightarrow>
     tree_inv arcs rt par' order' []"
proof (induction arcs rt par order stack rule: tree_walk.induct)
  case (1 arcs rt par order)
  then show ?case by (simp add: tree_walk.simps)
next
  case (2 arcs rt par order c stack)
  obtain par1 stack1 where g: "grow rt c (neighbours arcs c) par stack = (par1, stack1)" by fastforce
  with "2.prems"(2) have "tree_walk arcs rt par1 (order @ [c]) stack1 = (par', order')"
    by (simp add: tree_walk.simps)
  with "2.IH" [OF g [symmetric] refl tree_inv_step [OF "2.prems"(1) g]] show ?case by simp
qed

lemma tree_inv_start: "tree_inv arcs rt [] [] [rt]"
  by (simp add: tree_inv_def seen_of_def rooted_Nil)

subsection \<open>The tree order\<close>

definition kid_rel :: "parents \<Rightarrow> (string \<times> string) set" where
  "kid_rel par = (\<lambda>(n, p, e). (p, n)) ` set par"

lemma kid_rel_iff: "(p, n) \<in> kid_rel par \<longleftrightarrow> (\<exists>e. (n, p, e) \<in> set par)"
  by (force simp: kid_rel_def)

lemma kid_rel_seen: "rooted rt par \<Longrightarrow> kid_rel par \<subseteq> set (seen_of rt par) \<times> fst ` set par"
  by (induction rule: rooted.induct) (auto simp: kid_rel_def set_seen_of)

lemma rooted_acyclic: "rooted rt par \<Longrightarrow> acyclic (kid_rel par)"
proof (induction rule: rooted.induct)
  case rooted_Nil
  then show ?case by (simp add: kid_rel_def acyclic_def)
next
  case (rooted_snoc par p n e)
  have "kid_rel (par @ [(n, p, e)]) = insert (p, n) (kid_rel par)" by (auto simp: kid_rel_def)
  moreover have "(n, p) \<notin> (kid_rel par)\<^sup>*"
  proof
    assume "(n, p) \<in> (kid_rel par)\<^sup>*"
    then have "n = p \<or> n \<in> set (seen_of rt par)"
      using kid_rel_seen [OF rooted_snoc.hyps(1)] by (auto elim: converse_rtranclE)
    with rooted_snoc.hyps show False by auto
  qed
  ultimately show ?case using rooted_snoc.IH by (simp add: acyclic_insert)
qed

lemma rooted_unique:
  assumes "rooted rt par" "(n, p, e) \<in> set par" "(n, p', e') \<in> set par"
  shows "p' = p" "e' = e"
proof -
  have "distinct (map fst par)" using rooted_distinct [OF assms(1)] by (simp add: seen_of_def)
  then have "map_of par n = Some (p, e)" "map_of par n = Some (p', e')"
    using assms by (metis map_of_is_SomeI)+
  then show "p' = p" "e' = e" by auto
qed

lemma rooted_top: "rooted rt par \<Longrightarrow> (p, rt) \<notin> kid_rel par"
  using rooted_distinct [of rt par] by (force simp: kid_rel_iff seen_of_def)

lemma rooted_connected: "rooted rt par \<Longrightarrow> n \<in> set (seen_of rt par) \<Longrightarrow> (rt, n) \<in> (kid_rel par)\<^sup>*"
proof (induction arbitrary: n rule: rooted.induct)
  case rooted_Nil
  then show ?case by (simp add: seen_of_def)
next
  case (rooted_snoc par p m e)
  have "kid_rel (par @ [(m, p, e)]) = insert (p, m) (kid_rel par)" by (auto simp: kid_rel_def)
  then have sub: "(kid_rel par)\<^sup>* \<subseteq> (kid_rel (par @ [(m, p, e)]))\<^sup>*" by (intro rtrancl_mono) blast
  show ?case
  proof (cases "n = m")
    case True
    have "(rt, p) \<in> (kid_rel (par @ [(m, p, e)]))\<^sup>*" using rooted_snoc sub by blast
    moreover have "(p, m) \<in> kid_rel (par @ [(m, p, e)])" by (simp add: kid_rel_def)
    ultimately show ?thesis using True by (auto intro: rtrancl_into_rtrancl)
  next
    case False
    with rooted_snoc.prems have "n \<in> set (seen_of rt par)" by (auto simp: set_seen_of)
    with rooted_snoc.IH sub show ?thesis by blast
  qed
qed

subsection \<open>Subtrees\<close>

text \<open>
  \<^verbatim>\<open>descendants(start)\<close>: a stack without a set of seen nodes, which ends because the
  children form a tree. \<open>descend\<close> carries a bound on the pops; \<open>descend_tree\<close> shows that the number of
  nodes is enough.
\<close>

fun descend :: "nat \<Rightarrow> (string \<times> string) list \<Rightarrow> string list \<Rightarrow> string list \<Rightarrow> string list option" where
  "descend k kids out [] = Some out"
| "descend 0 kids out (c # st) = None"
| "descend (Suc k) kids out (c # st) = descend k kids (out @ [c]) (rev (successors kids c) @ st)"

definition below :: "('a \<times> 'a) set \<Rightarrow> 'a \<Rightarrow> 'a set" where
  "below K a = {b. (a, b) \<in> K\<^sup>*}"

lemma descend_tree:
  assumes "acyclic (set kids)" "distinct kids" "\<And>a b c. (a, c) \<in> set kids \<Longrightarrow> (b, c) \<in> set kids \<Longrightarrow> a = b"
    and "distinct (out @ stack)" "set (out @ stack) \<subseteq> below (set kids) a" "a \<in> set (out @ stack)"
    and "\<And>x y. x \<in> set out \<Longrightarrow> (x, y) \<in> set kids \<Longrightarrow> y \<in> set (out @ stack)"
    and "\<And>x. x \<in> set (out @ stack) \<Longrightarrow> x \<noteq> a \<Longrightarrow> \<exists>p\<in>set out. (p, x) \<in> set kids"
    and "finite (below (set kids) a)" "card (below (set kids) a) - length out \<le> k"
  shows "\<exists>r. descend k kids out stack = Some r \<and> set r = below (set kids) a"
  using assms
proof (induction k kids out stack rule: descend.induct)
  case (1 k kids out)
  have "below (set kids) a \<subseteq> set out"
  proof
    fix b assume "b \<in> below (set kids) a"
    then have "(a, b) \<in> (set kids)\<^sup>*" by (simp add: below_def)
    then show "b \<in> set out" by induction (use 1 in auto)
  qed
  with 1 show ?case by auto
next
  case (2 kids out c st)
  have "length (out @ c # st) \<le> card (below (set kids) a)"
    using 2 by (metis card_mono distinct_card)
  with 2 show ?case by simp
next
  case (3 k kids out c st)
  let ?new = "rev (successors kids c)"
  have new: "set ?new = {y. (c, y) \<in> set kids}" by (simp add: set_successors)
  have c: "c \<in> below (set kids) a" using "3.prems"(5) by simp
  have fresh: "y \<notin> set (out @ c # st)" if y: "(c, y) \<in> set kids" for y
  proof
    assume i: "y \<in> set (out @ c # st)"
    show False
    proof (cases "y = a")
      case True
      with y c have "(a, a) \<in> (set kids)\<^sup>+" by (auto simp: below_def intro: rtrancl_into_trancl1)
      with "3.prems"(1) show False by (auto simp: acyclic_def)
    next
      case False
      with "3.prems"(8) i obtain p where "p \<in> set out" "(p, y) \<in> set kids" by blast
      with "3.prems"(3) y have "c \<in> set out" by blast
      with "3.prems"(4) show False by simp
    qed
  qed
  have d: "distinct ?new" using "3.prems"(2) by (auto simp: successors_def distinct_map inj_on_def)
  show ?case
    unfolding descend.simps
  proof (rule "3.IH" [OF "3.prems"(1-3)])
    show "distinct ((out @ [c]) @ ?new @ st)" using "3.prems"(4) d fresh new by auto
    show "set ((out @ [c]) @ ?new @ st) \<subseteq> below (set kids) a"
      using "3.prems"(5) c new by (auto simp: below_def intro: rtrancl_into_rtrancl)
    show "a \<in> set ((out @ [c]) @ ?new @ st)" using "3.prems"(6) by auto
    show "y \<in> set ((out @ [c]) @ ?new @ st)" if "x \<in> set (out @ [c])" "(x, y) \<in> set kids" for x y
      using that "3.prems"(7) [of x y] new by auto
    show "\<exists>p\<in>set (out @ [c]). (p, x) \<in> set kids" if "x \<in> set ((out @ [c]) @ ?new @ st)" "x \<noteq> a" for x
      using that "3.prems"(8) [of x] new by auto
    show "card (below (set kids) a) - length (out @ [c]) \<le> k" using "3.prems"(10) by simp
    show "finite (below (set kids) a)" by (rule "3.prems"(9))
  qed (use "3.prems"(3) in blast)
qed

subsection \<open>The result\<close>

record radial =
  rt_root :: string
  rt_nodes :: "grid_node list"
  rt_order :: "string list"
  rt_parents :: parents
  rt_paths :: "(string \<times> grid_edge list) list"
  rt_subtrees :: "(string \<times> string list) list"
  rt_pu :: "(string \<times> rat \<times> rat) list"

text \<open>The children of the nodes, in the order of the walk.\<close>

definition kids_of :: "string \<Rightarrow> parents \<Rightarrow> string list \<Rightarrow> (string \<times> string) list" where
  "kids_of rt par order = concat (map (\<lambda>n. if n = rt then [] else
     case map_of par n of None \<Rightarrow> [] | Some (p, e) \<Rightarrow> [(p, n)]) order)"

definition descendants :: "string \<Rightarrow> parents \<Rightarrow> string list \<Rightarrow> string \<Rightarrow> string list" where
  "descendants rt par order n = (case descend (length order) (kids_of rt par order) [] [n] of
     Some r \<Rightarrow> r | None \<Rightarrow> [])"

text \<open>\<^verbatim>\<open>path_edges[n] = path_edges[parent_node[n]] + [parent_edge[n]]\<close>\<close>

fun paths_in :: "string \<Rightarrow> parents \<Rightarrow> string list \<Rightarrow> (string \<times> grid_edge list) list
    \<Rightarrow> (string \<times> grid_edge list) list result" where
  "paths_in rt par [] ps = Inr ps"
| "paths_in rt par (n # ns) ps =
     (if n = rt then paths_in rt par ns ps
      else case map_of par n of
        None \<Rightarrow> Inl (KeyErr n)
      | Some (p, e) \<Rightarrow> (case map_of ps p of
          None \<Rightarrow> Inl (KeyErr p)
        | Some xs \<Rightarrow> paths_in rt par ns (dict_put n (xs @ [e]) ps)))"

text \<open>\<^verbatim>\<open>x or d\<close> of a number that may be missing, and the per-unit impedance on a 1 MVA base.\<close>

definition or_else :: "rat option \<Rightarrow> rat \<Rightarrow> rat" where
  "or_else x d = (case x of None \<Rightarrow> d | Some v \<Rightarrow> if v = 0 then d else v)"

definition nominal_of :: "grid_node list \<Rightarrow> string \<Rightarrow> rat option" where
  "nominal_of ns n = (case find (\<lambda>x. node_id x = n) ns of None \<Rightarrow> None | Some x \<Rightarrow> nominal_kv x)"

definition impedance_pu :: "grid_node list \<Rightarrow> string \<Rightarrow> grid_edge \<Rightarrow> rat \<times> rat" where
  "impedance_pu ns n e = (let v = or_else (nominal_of ns n) (415 / 1000); z = v * v in
     if z = 0 then (0, 0) else (or_else (resistance_r_ohm e) 0 / z, or_else (reactance_x_ohm e) 0 / z))"

text \<open>One entry per edge of the tree, in the order of the walk; a repeated key overwrites.\<close>

definition per_edge :: "string \<Rightarrow> parents \<Rightarrow> string list \<Rightarrow> (string \<Rightarrow> grid_edge \<Rightarrow> 'v) \<Rightarrow> (string \<times> 'v) list" where
  "per_edge rt par order f = fold (\<lambda>n d. if n = rt then d else
     case map_of par n of None \<Rightarrow> d | Some (p, e) \<Rightarrow> dict_put (edge_id e) (f n e) d) order []"

definition dangling :: "grid_node list \<Rightarrow> grid_edge list \<Rightarrow> string list" where
  "dangling ns es = concat (map (\<lambda>e. filter (\<lambda>x. x \<notin> set (map node_id ns)) [from_node e, to_node e]) es)"

definition build_radial :: "grid_node list \<Rightarrow> grid_edge list \<Rightarrow> radial result" where
  "build_radial ns es = (case filter (\<lambda>n. node_type n = ''substation'') ns of
       [] \<Rightarrow> Inl (ValueError (Fmt ''no substation/source node'' []))
     | r # _ \<Rightarrow>
         let rt = node_id r; live = filter is_closed es in
         case dangling ns live of
           x # _ \<Rightarrow> Inl (KeyErr x)
         | [] \<Rightarrow>
             let (par, order) = tree_walk (labelled_arcs live) rt [] [] [rt] in
             bindR (paths_in rt par order [(rt, [])]) (\<lambda>ps. Inr
               \<lparr>rt_root = rt, rt_nodes = ns, rt_order = order, rt_parents = par, rt_paths = ps,
                rt_subtrees = per_edge rt par order (\<lambda>n _. descendants rt par order n),
                rt_pu = per_edge rt par order (impedance_pu ns)\<rparr>))"

definition rt_energized :: "radial \<Rightarrow> string list" where
  "rt_energized t = seen_of (rt_root t) (rt_parents t)"

definition rt_parent_edge :: "radial \<Rightarrow> string \<Rightarrow> grid_edge option" where
  "rt_parent_edge t n = map_option snd (map_of (rt_parents t) n)"

lemma labelled_arcs_iff:
  "(a, b, e) \<in> set (labelled_arcs es) \<longleftrightarrow>
     e \<in> set es \<and> (a = from_node e \<and> b = to_node e \<or> a = to_node e \<and> b = from_node e)"
  by (auto simp: labelled_arcs_def)

lemma build_radial_walk:
  assumes "build_radial ns es = Inr t"
  shows "tree_inv (labelled_arcs (filter is_closed es)) (rt_root t) (rt_parents t) (rt_order t) []"
    and "rt_nodes t = ns"
    and "rt_subtrees t = per_edge (rt_root t) (rt_parents t) (rt_order t)
           (\<lambda>n _. descendants (rt_root t) (rt_parents t) (rt_order t) n)"
    and "rt_root t \<in> set (map node_id (filter (\<lambda>n. node_type n = ''substation'') ns))"
proof -
  obtain r rs par order ps where r: "filter (\<lambda>n. node_type n = ''substation'') ns = r # rs"
    and w: "tree_walk (labelled_arcs (filter is_closed es)) (node_id r) [] [] [node_id r] = (par, order)"
    and t: "t = \<lparr>rt_root = node_id r, rt_nodes = ns, rt_order = order, rt_parents = par, rt_paths = ps,
      rt_subtrees = per_edge (node_id r) par order (\<lambda>n _. descendants (node_id r) par order n),
      rt_pu = per_edge (node_id r) par order (impedance_pu ns)\<rparr>"
    using assms by (auto simp: build_radial_def Let_def bindR_eq_Inr split: list.splits prod.splits)
  show "tree_inv (labelled_arcs (filter is_closed es)) (rt_root t) (rt_parents t) (rt_order t) []"
    using tree_walk_inv [OF tree_inv_start w] by (simp add: t)
  show "rt_nodes t = ns"
    "rt_subtrees t = per_edge (rt_root t) (rt_parents t) (rt_order t)
       (\<lambda>n _. descendants (rt_root t) (rt_parents t) (rt_order t) n)"
    "rt_root t \<in> set (map node_id (filter (\<lambda>n. node_type n = ''substation'') ns))"
    by (simp_all add: t r)
qed

lemma build_radial_rooted: "build_radial ns es = Inr t \<Longrightarrow> rooted (rt_root t) (rt_parents t)"
  using build_radial_walk(1) by (simp add: tree_inv_def)

text \<open>The tree spans exactly what the closed edges connect to its root.\<close>

definition closed_links :: "grid_edge list \<Rightarrow> (string \<times> string) set" where
  "closed_links es = {(a, b). \<exists>e\<in>set es. is_closed e \<and> (a = from_node e \<and> b = to_node e \<or> a = to_node e \<and> b = from_node e)}"

lemma build_radial_energized:
  assumes "build_radial ns es = Inr t"
  shows "set (rt_energized t) = (closed_links es)\<^sup>* `` {rt_root t}"
proof -
  let ?A = "labelled_arcs (filter is_closed es)"
  have inv: "tree_inv ?A (rt_root t) (rt_parents t) (rt_order t) []" by (rule build_radial_walk(1) [OF assms])
  have link: "(a, b) \<in> closed_links es \<longleftrightarrow> (\<exists>e. (a, b, e) \<in> set ?A)" for a b
    by (auto simp: closed_links_def labelled_arcs_iff)
  have "kid_rel (rt_parents t) \<subseteq> closed_links es"
  proof (rule subrelI)
    fix a b assume "(a, b) \<in> kid_rel (rt_parents t)"
    then obtain e where "(b, a, e) \<in> set (rt_parents t)" by (auto simp: kid_rel_iff)
    then have "(a, b, e) \<in> set ?A" using inv by (auto simp: tree_inv_def)
    then show "(a, b) \<in> closed_links es" using link by blast
  qed
  then have "(kid_rel (rt_parents t))\<^sup>* \<subseteq> (closed_links es)\<^sup>*" by (rule rtrancl_mono)
  then have 1: "set (rt_energized t) \<subseteq> (closed_links es)\<^sup>* `` {rt_root t}"
    using rooted_connected [OF build_radial_rooted [OF assms]] by (auto simp: rt_energized_def)
  have "closed_links es `` set (rt_energized t) \<subseteq> set (rt_energized t)"
    using inv by (auto simp: link tree_inv_def rt_energized_def)
  then have "(closed_links es)\<^sup>* `` set (rt_energized t) = set (rt_energized t)" by (rule Image_closed_trancl)
  moreover have "rt_root t \<in> set (rt_energized t)" by (simp add: rt_energized_def seen_of_def)
  ultimately show ?thesis using 1 by blast
qed

text \<open>An edge is the parent edge of one node at most, so the subtrees do not overwrite each other.\<close>

lemma parent_edge_once:
  assumes "tree_inv (labelled_arcs es) rt par order []" "distinct (map edge_id es)"
    and "(n, p, e) \<in> set par" "(n', p', e') \<in> set par" "edge_id e = edge_id e'"
  shows "n = n'"
proof (rule ccontr)
  assume ne: "n \<noteq> n'"
  have "(p, n, e) \<in> set (labelled_arcs es)" "(p', n', e') \<in> set (labelled_arcs es)"
    using assms by (auto simp: tree_inv_def)
  moreover from this have "e = e'"
    using assms(2,5) by (auto simp: labelled_arcs_iff distinct_map inj_on_def)
  ultimately have "p = n' \<and> p' = n" using ne by (auto simp: labelled_arcs_iff)
  then have "(n, n) \<in> (kid_rel par)\<^sup>+" using assms(3,4)
    by (metis kid_rel_iff r_into_trancl trancl_into_trancl)
  moreover have "acyclic (kid_rel par)" using assms(1) by (auto simp: tree_inv_def intro: rooted_acyclic)
  ultimately show False by (simp add: acyclic_def)
qed

lemma per_edge_get:
  assumes uniq: "\<And>n p e n' p' e'. (n, p, e) \<in> set par \<Longrightarrow> (n', p', e') \<in> set par \<Longrightarrow> edge_id e = edge_id e' \<Longrightarrow> n = n'"
    and "map_of par n = Some (p, e)" "n \<in> set order" "n \<noteq> rt"
  shows "map_of (per_edge rt par order f) (edge_id e) = Some (f n e)"
proof -
  have "map_of (fold (\<lambda>n d. if n = rt then d else case map_of par n of None \<Rightarrow> d
      | Some (p, e) \<Rightarrow> dict_put (edge_id e) (f n e) d) xs d0) (edge_id e) =
      (if n \<in> set xs then Some (f n e) else map_of d0 (edge_id e))" for xs d0
  proof (induction xs arbitrary: d0)
    case (Cons x xs)
    have other: "edge_id e' \<noteq> edge_id e" if "map_of par x = Some (p', e')" "x \<noteq> n" for p' e'
      using uniq [of x p' e' n p e] that assms(2) by (auto dest!: map_of_SomeD)
    show ?case
      by (cases "map_of par x") (use assms(2,4) Cons other in \<open>auto split: prod.splits\<close>)
  qed simp
  with assms(3) show ?thesis by (simp add: per_edge_def)
qed

lemma kids_of_set:
  assumes "rooted rt par" "set order = set (seen_of rt par)"
  shows "set (kids_of rt par order) = kid_rel par"
proof -
  have "map_of par n = Some (p, e) \<longleftrightarrow> (n, p, e) \<in> set par" for n p e
    using rooted_distinct [OF assms(1)] by (simp add: seen_of_def map_of_eq_Some_iff)
  moreover have "(rt, p, e) \<notin> set par" for p e using rooted_top [OF assms(1)] by (auto simp: kid_rel_iff)
  moreover have "n \<in> set order" if "(n, p, e) \<in> set par" for n p e using assms(2) that by (force simp: set_seen_of)
  moreover have "(a, b) \<in> set (kids_of rt par order) \<longleftrightarrow> b \<in> set order \<and> b \<noteq> rt \<and> (\<exists>e. map_of par b = Some (a, e))" for a b
    by (auto simp: kids_of_def split: option.splits if_splits dest: sym)
  ultimately have "(a, b) \<in> set (kids_of rt par order) \<longleftrightarrow> (a, b) \<in> kid_rel par" for a b
    unfolding kid_rel_iff by blast
  then show ?thesis by auto
qed

lemma kids_of_distinct: "distinct order \<Longrightarrow> distinct (kids_of rt par order)"
proof (induction order)
  case (Cons n ns)
  have "snd ` set (kids_of rt par ns) \<subseteq> set ns"
    by (auto simp: kids_of_def split: if_splits option.splits)
  with Cons show ?case by (force simp: kids_of_def split: option.splits)
qed (simp add: kids_of_def)

lemma descendants_set:
  assumes "tree_inv arcs rt par order []" "n \<in> set order"
  shows "set (descendants rt par order n) = below (kid_rel par) n"
proof -
  have r: "rooted rt par" "distinct order" "set order = set (seen_of rt par)"
    using assms(1) by (auto simp: tree_inv_def)
  have k: "set (kids_of rt par order) = kid_rel par" by (rule kids_of_set [OF r(1,3)])
  have sub: "below (kid_rel par) n \<subseteq> set order"
  proof
    fix m assume "m \<in> below (kid_rel par) n"
    then have "(n, m) \<in> (kid_rel par)\<^sup>*" by (simp add: below_def)
    then show "m \<in> set order"
      using assms(2) kid_rel_seen [OF r(1)] by cases (auto simp: r(3) set_seen_of)
  qed
  then have fin: "finite (below (kid_rel par) n)" "card (below (kid_rel par) n) \<le> length order"
    using finite_subset [OF sub] card_mono [OF _ sub] distinct_card [OF r(2)] by simp_all
  have "\<exists>x. descend (length order) (kids_of rt par order) [] [n] = Some x \<and>
      set x = below (set (kids_of rt par order)) n"
  proof (rule descend_tree)
    show "acyclic (set (kids_of rt par order))" using rooted_acyclic [OF r(1)] by (simp add: k)
    show "distinct (kids_of rt par order)" by (rule kids_of_distinct [OF r(2)])
    show "a = b" if "(a, c) \<in> set (kids_of rt par order)" "(b, c) \<in> set (kids_of rt par order)" for a b c
      using that rooted_unique(1) [OF r(1)] by (auto simp: k kid_rel_iff)
    show "finite (below (set (kids_of rt par order)) n)" by (simp add: k fin)
    show "card (below (set (kids_of rt par order)) n) - length [] \<le> length order" using fin(2) by (simp add: k)
  qed (simp_all add: below_def)
  then obtain x where x: "descend (length order) (kids_of rt par order) [] [n] = Some x"
    "set x = below (set (kids_of rt par order)) n" by (elim exE conjE)
  show ?thesis by (simp only: descendants_def x option.case k)
qed

lemma subtree_set:
  assumes "build_radial ns es = Inr t" "distinct (map edge_id es)" "map_of (rt_parents t) n = Some (p, e)"
  shows "\<exists>sub. map_of (rt_subtrees t) (edge_id e) = Some sub \<and> set sub = below (kid_rel (rt_parents t)) n"
proof -
  let ?A = "labelled_arcs (filter is_closed es)"
  have inv: "tree_inv ?A (rt_root t) (rt_parents t) (rt_order t) []" by (rule build_radial_walk(1) [OF assms(1)])
  have "distinct (map edge_id (filter is_closed es))" using assms(2) by (simp add: distinct_map_filter)
  note uniq = parent_edge_once [OF inv this]
  have n: "(n, p, e) \<in> set (rt_parents t)" using assms(3) by (rule map_of_SomeD)
  then have order: "n \<in> set (rt_order t)" using inv by (force simp: tree_inv_def set_seen_of)
  moreover have "n \<noteq> rt_root t"
    using n rooted_top [OF build_radial_rooted [OF assms(1)]] by (auto simp: kid_rel_iff)
  ultimately have "map_of (per_edge (rt_root t) (rt_parents t) (rt_order t)
      (\<lambda>n _. descendants (rt_root t) (rt_parents t) (rt_order t) n)) (edge_id e) =
      Some (descendants (rt_root t) (rt_parents t) (rt_order t) n)"
    using assms(3) by (intro per_edge_get) (auto dest: uniq)
  moreover have "set (descendants (rt_root t) (rt_parents t) (rt_order t) n) = below (kid_rel (rt_parents t)) n"
    by (rule descendants_set [OF inv order])
  ultimately show ?thesis by (simp add: build_radial_walk(3) [OF assms(1)])
qed

subsection \<open>The builder returns\<close>

text \<open>In the order of the walk every node comes after its parent, so no path lookup fails.\<close>

definition parents_first :: "string \<Rightarrow> parents \<Rightarrow> string list \<Rightarrow> bool" where
  "parents_first rt par order \<longleftrightarrow> (\<forall>(n, p, e)\<in>set par. p \<in> set order) \<and>
     (\<forall>ys c zs. order = ys @ c # zs \<longrightarrow> c = rt \<or> (\<exists>p e. (c, p, e) \<in> set par \<and> p \<in> set ys))"

lemma parents_firstE:
  assumes "parents_first rt par (ys @ c # zs)" "c \<noteq> rt"
  obtains p e where "(c, p, e) \<in> set par" "p \<in> set ys"
  using assms unfolding parents_first_def by blast

lemma grow_extends: "grow rt c ns par stack = (par', stack') \<Longrightarrow> set par \<subseteq> set par'"
  by (induction rt c ns par stack rule: grow.induct) (auto split: if_splits)

lemma parents_first_step:
  assumes "parents_first rt par order" "tree_inv arcs rt par order (c # stack)"
    and g: "grow rt c (neighbours arcs c) par stack = (par', stack')"
  shows "parents_first rt par' (order @ [c])"
proof -
  have "p \<in> set (order @ [c])" if "(n, p, e) \<in> set par'" for n p e
    using that grow_arcs [OF g] assms(1) by (auto simp: parents_first_def)
  moreover have "x = rt \<or> (\<exists>p e. (x, p, e) \<in> set par' \<and> p \<in> set ys)" if o: "order @ [c] = ys @ x # zs" for ys x zs
  proof (cases zs rule: rev_cases)
    case Nil
    with o have x: "x = c" "ys = order" by auto
    have "c \<in> set (seen_of rt par)" using assms(2) by (auto simp: tree_inv_def)
    then have "c = rt \<or> (\<exists>p e. (c, p, e) \<in> set par)" by (auto simp: set_seen_of)
    moreover have "p \<in> set order" if "(n, p, e) \<in> set par" for n p e
      using that assms(1) by (auto simp: parents_first_def)
    ultimately show ?thesis using x grow_extends [OF g] by blast
  next
    case (snoc zs' z)
    with o have order: "order = ys @ x # zs'" by simp
    show ?thesis
    proof (cases "x = rt")
      case False
      from parents_firstE [OF assms(1) [unfolded order] False] grow_extends [OF g] show ?thesis by blast
    qed simp
  qed
  ultimately show ?thesis by (auto simp: parents_first_def)
qed

lemma tree_walk_parents_first:
  "tree_inv arcs rt par order stack \<Longrightarrow> parents_first rt par order \<Longrightarrow>
     tree_walk arcs rt par order stack = (par', order') \<Longrightarrow> parents_first rt par' order'"
proof (induction arcs rt par order stack rule: tree_walk.induct)
  case (1 arcs rt par order)
  then show ?case by (simp add: tree_walk.simps)
next
  case (2 arcs rt par order c stack)
  obtain par1 stack1 where g: "grow rt c (neighbours arcs c) par stack = (par1, stack1)" by fastforce
  with "2.prems"(3) have "tree_walk arcs rt par1 (order @ [c]) stack1 = (par', order')"
    by (simp add: tree_walk.simps)
  with "2.IH" [OF g [symmetric] refl tree_inv_step [OF "2.prems"(1) g] parents_first_step [OF "2.prems"(2,1) g]]
  show ?case by simp
qed

lemma paths_in_total:
  assumes "parents_first rt par (before_ns @ ns)" "distinct (map fst par)"
    and "insert rt (set before_ns) \<subseteq> dom (map_of ps)"
  shows "\<exists>ps'. paths_in rt par ns ps = Inr ps'"
  using assms
proof (induction ns arbitrary: before_ns ps)
  case (Cons n ns)
  have step: "parents_first rt par ((before_ns @ [n]) @ ns)" using Cons.prems(1) by simp
  show ?case
  proof (cases "n = rt")
    case True
    with Cons.IH [OF step Cons.prems(2)] Cons.prems(3) show ?thesis by auto
  next
    case False
    from parents_firstE [OF Cons.prems(1) False]
    obtain p e where p: "(n, p, e) \<in> set par" "p \<in> set before_ns" .
    moreover from p Cons.prems(3) obtain xs where "map_of ps p = Some xs" by blast
    moreover have "\<exists>ps'. paths_in rt par ns (dict_put n (xs @ [e]) ps) = Inr ps'"
      by (rule Cons.IH [OF step Cons.prems(2)]) (use Cons.prems(3) in auto)
    ultimately show ?thesis using False Cons.prems(2) by (simp add: map_of_is_SomeI)
  qed
qed simp

lemma build_radial_returns:
  "(\<exists>t. build_radial ns es = Inr t) \<longleftrightarrow>
     (\<exists>n\<in>set ns. node_type n = ''substation'') \<and> dangling ns (filter is_closed es) = []"
proof (cases "filter (\<lambda>n. node_type n = ''substation'') ns")
  case Nil
  then show ?thesis by (auto simp: build_radial_def filter_empty_conv)
next
  case (Cons r rs)
  then have "r \<in> set (filter (\<lambda>n. node_type n = ''substation'') ns)" by simp
  then have r: "r \<in> set ns" "node_type r = ''substation''" by simp_all
  let ?A = "labelled_arcs (filter is_closed es)" and ?rt = "node_id r"
  obtain par order where w: "tree_walk ?A ?rt [] [] [?rt] = (par, order)" by fastforce
  have pf: "parents_first ?rt par order"
    by (rule tree_walk_parents_first [OF tree_inv_start _ w]) (simp add: parents_first_def)
  have "rooted ?rt par" using tree_walk_inv [OF tree_inv_start w] by (simp add: tree_inv_def)
  then have "distinct (map fst par)" using rooted_distinct by (fastforce simp: seen_of_def)
  then have "\<exists>ps. paths_in ?rt par order [(?rt, [])] = Inr ps"
    using paths_in_total [of ?rt par "[]" order "[(?rt, [])]"] pf by simp
  then show ?thesis
    using Cons w r by (auto simp: build_radial_def Let_def split: list.splits)
qed

end
