(* ===== verification/Outage_Inference.thy ===== *)
theory Outage_Inference
  imports Radial_Tree Oms Field_Devices
begin

text \<open>
  Which device failed, and for whom: \<^verbatim>\<open>src/fastapi/dms/outage_inference.py\<close> with the signals
  \<^verbatim>\<open>oms.py\<close> feeds it, the cross-check of \<^verbatim>\<open>outage_validation.py\<close> and the crew ranking of
  \<^verbatim>\<open>crew_dispatch.py\<close>. Dark meters are clustered by transformer; the section of a cluster hangs
  under the deepest node above all its meters. A Python set is a list whose order does not matter.
\<close>

subsection \<open>The way up\<close>

definition parent_node :: "radial \<Rightarrow> string \<Rightarrow> string option" where
  "parent_node t n = (case rt_parent_edge t n of None \<Rightarrow> None
     | Some e \<Rightarrow> Some (if to_node e = n then from_node e else to_node e))"

fun ancestors :: "nat \<Rightarrow> (string \<Rightarrow> string option) \<Rightarrow> string \<Rightarrow> string option \<Rightarrow> string list" where
  "ancestors 0 pn rt cur = []"
| "ancestors (Suc g) pn rt None = []"
| "ancestors (Suc g) pn rt (Some c) = c # (if c = rt then [] else ancestors g pn rt (pn c))"

text \<open>\<^verbatim>\<open>_ancestors\<close> stops after a thousand nodes.\<close>

definition chain_bound :: nat where
  "chain_bound = 1000"

definition chain :: "radial \<Rightarrow> string \<Rightarrow> string list" where
  "chain t n = ancestors chain_bound (parent_node t) (rt_root t) (Some n)"

definition lca :: "radial \<Rightarrow> string list \<Rightarrow> string result" where
  "lca t ds = (case ds of
       [] \<Rightarrow> Inr (rt_root t)
     | d # rest \<Rightarrow> (case filter (\<lambda>a. list_all (\<lambda>x. a \<in> set (chain t x)) rest) (chain t d) of
         [] \<Rightarrow> Inl (ValueError (Fmt ''max() arg is an empty sequence'' []))
       | c # cs \<Rightarrow> Inr (max_by (\<lambda>n. length (chain t n)) c cs)))"

definition node_row :: "grid_node list \<Rightarrow> string \<Rightarrow> grid_node option" where
  "node_row ns n = find (\<lambda>x. node_id x = n) ns"

definition is_transformer :: "radial \<Rightarrow> string \<Rightarrow> bool" where
  "is_transformer t n = (case node_row (rt_nodes t) n of None \<Rightarrow> False | Some x \<Rightarrow> node_type x = ''transformer'')"

definition nearest_transformer :: "radial \<Rightarrow> string \<Rightarrow> string option" where
  "nearest_transformer t n = find (is_transformer t) (chain t n)"

text \<open>
  The structural path up to the root, \<^verbatim>\<open>while cur is not None and cur != root\<close>; a tree path has at
  most as many nodes as there are parents, plus the root.
\<close>

fun first_open :: "radial \<Rightarrow> string list \<Rightarrow> string list \<Rightarrow> grid_edge option" where
  "first_open t opens [] = None"
| "first_open t opens (c # cs) =
     (if c = rt_root t then None
      else case rt_parent_edge t c of
        None \<Rightarrow> None
      | Some e \<Rightarrow> if edge_id e \<in> set opens then Some e else first_open t opens cs)"

definition isolating_open_edge :: "radial \<Rightarrow> string list \<Rightarrow> string \<Rightarrow> grid_edge option" where
  "isolating_open_edge t opens n =
     first_open t opens (ancestors (Suc (length (rt_parents t))) (parent_node t) (rt_root t) (Some n))"

subsection \<open>One pass\<close>

type_synonym counts = "(string \<times> nat) list"

definition customers_in :: "counts \<Rightarrow> string list \<Rightarrow> nat" where
  "customers_in cust xs = sum_list (map (\<lambda>n. dict_get cust n 0) (remdups xs))"

record inferred =
  in_device :: "grid_edge option"
  in_device_id :: pyval
  in_section :: string
  in_name :: "string option"
  in_tx :: "string option"
  in_customers :: nat
  in_reported :: nat
  in_dark :: "string list"
  in_meters :: nat
  in_confidence :: rat
  in_source :: string
  in_se :: bool

text \<open>The section a cluster is attributed to: the device feeding it, and the nodes below it.\<close>

definition cluster_device :: "radial \<Rightarrow> string list option \<Rightarrow> string \<Rightarrow> grid_edge option result" where
  "cluster_device t opens l =
     (case (case opens of None \<Rightarrow> None | Some os \<Rightarrow> if os = [] then None else isolating_open_edge t os l) of
        Some e \<Rightarrow> Inr (Some e)
      | None \<Rightarrow> if l = rt_root t then Inr None
                else (case rt_parent_edge t l of Some e \<Rightarrow> Inr (Some e) | None \<Rightarrow> Inl (KeyErr l)))"

definition section_of_device :: "radial \<Rightarrow> grid_edge option \<Rightarrow> (string list \<times> string) result" where
  "section_of_device t dev = (case dev of
       None \<Rightarrow> Inr (rt_energized t, rt_root t)
     | Some e \<Rightarrow> (case map_of (rt_subtrees t) (edge_id e) of
         Some sub \<Rightarrow> Inr (sub, to_node e) | None \<Rightarrow> Inl (KeyErr (edge_id e))))"

definition device_id_of :: "grid_edge option \<Rightarrow> pyval" where
  "device_id_of dev = (case dev of None \<Rightarrow> PNone | Some e \<Rightarrow> dict_lookup (edge_attrs e) ''device_id'')"

definition infer_cluster :: "radial \<Rightarrow> string list \<Rightarrow> counts \<Rightarrow> string list \<Rightarrow> string list option
    \<Rightarrow> string \<times> string list \<Rightarrow> inferred result" where
  "infer_cluster t meters cust dead opens cl = (let (tx, members) = cl in
     bindR (lca t members) (\<lambda>l.
     bindR (cluster_device t opens l) (\<lambda>dev.
     bindR (section_of_device t dev) (\<lambda>(sub, sect).
       let ms = remdups (filter (\<lambda>n. n \<in> set meters) sub);
           hit = filter (\<lambda>n. n \<in> set members) ms;
           conf = (if ms = [] then 1 / 2 else of_nat (length hit) / of_nat (length ms)) in
       Inr \<lparr>in_device = dev, in_device_id = device_id_of dev, in_section = sect,
         in_name = (case node_row (rt_nodes t) sect of None \<Rightarrow> None | Some x \<Rightarrow> node_name x),
         in_tx = (if tx = ''ROOT'' then None else Some tx),
         in_customers = customers_in cust sub, in_reported = customers_in cust members,
         in_dark = sort members, in_meters = length ms, in_confidence = py_round 3 conf,
         in_source = (case opens of None \<Rightarrow> ''energized'' | Some _ \<Rightarrow> ''structural''),
         in_se = (\<exists>m\<in>set members. m \<in> set dead)\<rparr>))))"

definition cluster_key :: "radial \<Rightarrow> string \<Rightarrow> string" where
  "cluster_key t d = (case nearest_transformer t d of None \<Rightarrow> ''ROOT'' | Some k \<Rightarrow> if k = [] then ''ROOT'' else k)"

definition clusters :: "radial \<Rightarrow> string list \<Rightarrow> (string \<times> string list) list" where
  "clusters t dark = fold (\<lambda>d. dict_append (cluster_key t d) d) dark []"

definition infer_pass :: "radial \<Rightarrow> string list \<Rightarrow> counts \<Rightarrow> string list \<Rightarrow> string list option
    \<Rightarrow> string list \<Rightarrow> inferred list result" where
  "infer_pass t meters cust dead opens dark = mapR (infer_cluster t meters cust dead opens) (clusters t dark)"

subsection \<open>The two passes\<close>

record inference =
  inf_count :: nat
  inf_outages :: "inferred list"
  inf_silent :: "string list"

definition meter_ids :: "grid_node list \<Rightarrow> string list" where
  "meter_ids ns = map node_id (filter (\<lambda>n. node_type n = ''meter'') ns)"

text \<open>The normally closed network, as if nothing had tripped.\<close>

definition structural_edges :: "grid_edge list \<Rightarrow> grid_edge list" where
  "structural_edges es = map (is_closed_update (\<lambda>_. True)) (filter normally_closed es)"

definition tripped_ids :: "grid_edge list \<Rightarrow> string list" where
  "tripped_ids es = map edge_id (filter (\<lambda>e. \<not> is_closed e \<and> normally_closed e) es)"

definition infer :: "grid_node list \<Rightarrow> grid_edge list \<Rightarrow> string list \<Rightarrow> counts \<Rightarrow> string list \<Rightarrow> inference result" where
  "infer ns es dark cust dead =
     bindR (build_radial ns es) (\<lambda>et.
     bindR (build_radial ns (structural_edges es)) (\<lambda>st.
       let meters = meter_ids ns;
           primary = filter (\<lambda>d. d \<in> set (rt_energized et)) dark;
           fallback = filter (\<lambda>d. d \<notin> set (rt_energized et) \<and> d \<in> set (rt_energized st)) dark in
       bindR (infer_pass et meters cust dead None primary) (\<lambda>xs.
       bindR (infer_pass st meters cust dead (Some (tripped_ids es)) fallback) (\<lambda>ys.
         Inr \<lparr>inf_count = length (remdups (primary @ fallback)),
              inf_outages = sort_desc in_customers (xs @ ys),
              inf_silent = sort (remdups (filter (\<lambda>n. n \<in> set meters \<and> n \<notin> set (primary @ fallback)) dead))\<rparr>))))"

text \<open>The inputs the endpoints collect from the store.\<close>

definition dark_meter_nodes :: "db \<Rightarrow> string list" where
  "dark_meter_nodes s = concat (map (\<lambda>m. case meter_node s (fst m) of None \<Rightarrow> [] | Some n \<Rightarrow> if n = [] then [] else [n])
     (meters_out s))"

definition customers_by_node :: "db \<Rightarrow> counts" where
  "customers_by_node s = fold (\<lambda>p d. case sp_node p of None \<Rightarrow> d | Some n \<Rightarrow> dict_put n (Suc (dict_get d n 0)) d)
     (service_points s) []"

subsection \<open>The chain of ancestors is the way up the tree\<close>

definition ups :: "radial \<Rightarrow> (string \<times> string) set" where
  "ups t = kid_rel (rt_parents t)"

text \<open>What the builder guarantees, and what the cut-off at a thousand nodes needs.\<close>

definition good_tree :: "radial \<Rightarrow> bool" where
  "good_tree t \<longleftrightarrow> rooted (rt_root t) (rt_parents t) \<and> length (rt_parents t) < chain_bound - 1 \<and>
     (\<forall>n p e. map_of (rt_parents t) n = Some (p, e) \<longrightarrow>
        (n = to_node e \<and> p = from_node e \<or> n = from_node e \<and> p = to_node e) \<and>
        (\<exists>sub. map_of (rt_subtrees t) (edge_id e) = Some sub \<and> set sub = below (ups t) n))"

lemma good_treeD:
  assumes "good_tree t"
  shows "rooted (rt_root t) (rt_parents t)" "acyclic (ups t)" "(p, rt_root t) \<notin> ups t"
    and "(p, n) \<in> ups t \<Longrightarrow> (q, n) \<in> ups t \<Longrightarrow> p = q"
    and "(p, n) \<in> ups t \<longleftrightarrow> (\<exists>e. map_of (rt_parents t) n = Some (p, e))"
    and "n \<in> set (rt_energized t) \<Longrightarrow> (rt_root t, n) \<in> (ups t)\<^sup>*"
    and "map_of (rt_parents t) n = Some (p, e) \<Longrightarrow> parent_node t n = Some p"
proof -
  show r: "rooted (rt_root t) (rt_parents t)" using assms by (simp add: good_tree_def)
  show "acyclic (ups t)" "(p, rt_root t) \<notin> ups t"
    using rooted_acyclic [OF r] rooted_top [OF r] by (simp_all add: ups_def)
  show "(p, n) \<in> ups t \<Longrightarrow> (q, n) \<in> ups t \<Longrightarrow> p = q"
    using rooted_unique(1) [OF r] by (auto simp: ups_def kid_rel_iff)
  have "distinct (map fst (rt_parents t))" using rooted_distinct [OF r] by (simp add: seen_of_def)
  then show "(p, n) \<in> ups t \<longleftrightarrow> (\<exists>e. map_of (rt_parents t) n = Some (p, e))"
    by (auto simp: ups_def kid_rel_iff)
  show "n \<in> set (rt_energized t) \<Longrightarrow> (rt_root t, n) \<in> (ups t)\<^sup>*"
    using rooted_connected [OF r] by (simp add: rt_energized_def ups_def)
  assume m: "map_of (rt_parents t) n = Some (p, e)"
  then have "n = to_node e \<and> p = from_node e \<or> n = from_node e \<and> p = to_node e"
    using assms by (auto simp: good_tree_def)
  then show "parent_node t n = Some p" using m by (auto simp: parent_node_def rt_parent_edge_def)
qed

lemma ups_step: "good_tree t \<Longrightarrow> (p, n) \<in> ups t \<Longrightarrow> (a, n) \<in> (ups t)\<^sup>* \<longleftrightarrow> a = n \<or> (a, p) \<in> (ups t)\<^sup>*"
  by (auto elim: rtranclE dest: good_treeD(4) [of t p n] intro: rtrancl_into_rtrancl)

lemma ups_root: "good_tree t \<Longrightarrow> (a, rt_root t) \<in> (ups t)\<^sup>* \<longleftrightarrow> a = rt_root t"
  by (auto elim: rtranclE dest: good_treeD(3))

text \<open>With a bound above the number of parents, the chain is complete and does not depend on the bound.\<close>

lemma ancestors_root: "0 < g \<Longrightarrow> ancestors g pn rt (Some rt) = [rt]"
  by (cases g) simp_all

lemma ancestors_up: "n \<noteq> rt \<Longrightarrow> pn n = Some p \<Longrightarrow> ancestors (Suc g) pn rt (Some n) = n # ancestors g pn rt (Some p)"
  by simp

lemma new_parent:
  assumes "good_tree t" "set (par @ [(m, p, e)]) \<subseteq> set (rt_parents t)" "m \<notin> set (seen_of (rt_root t) par)"
  shows "(p, m) \<in> ups t" "parent_node t m = Some p" "m \<noteq> rt_root t"
proof -
  show up: "(p, m) \<in> ups t" using assms(2) by (auto simp: ups_def kid_rel_iff)
  then obtain e' where "map_of (rt_parents t) m = Some (p, e')" using good_treeD(5) [OF assms(1)] by blast
  then show "parent_node t m = Some p" by (rule good_treeD(7) [OF assms(1)])
  show "m \<noteq> rt_root t" using assms(3) by (auto simp: set_seen_of)
qed

lemma ancestors_set:
  assumes t: "good_tree t"
  shows "rooted (rt_root t) par \<Longrightarrow> set par \<subseteq> set (rt_parents t) \<Longrightarrow> n \<in> set (seen_of (rt_root t) par) \<Longrightarrow>
    length par < g \<Longrightarrow> set (ancestors g (parent_node t) (rt_root t) (Some n)) = {a. (a, n) \<in> (ups t)\<^sup>*}"
proof (induction arbitrary: n g rule: rooted.induct)
  case rooted_Nil
  then have "n = rt_root t" by (simp add: seen_of_def)
  then show ?case using rooted_Nil ups_root [OF t] by (simp add: ancestors_root)
next
  case (rooted_snoc par p m e)
  have sub: "set par \<subseteq> set (rt_parents t)" using rooted_snoc.prems(1) by simp
  show ?case
  proof (cases "n = m")
    case False
    then have "n \<in> set (seen_of (rt_root t) par)" using rooted_snoc.prems(2) by (auto simp: set_seen_of)
    then show ?thesis by (rule rooted_snoc.IH [OF sub]) (use rooted_snoc.prems(3) in simp)
  next
    case True
    note new = new_parent [OF t rooted_snoc.prems(1) rooted_snoc.hyps(3)]
    obtain k where k: "g = Suc k" "length par < k" using rooted_snoc.prems(3) by (cases g) auto
    show ?thesis
      unfolding True k(1) ancestors_up [of m "rt_root t" "parent_node t", OF new(3,2)]
      using rooted_snoc.IH [OF sub rooted_snoc.hyps(2) k(2)] by (auto simp: ups_step [OF t new(1)])
  qed
qed

lemma ancestors_bound:
  assumes t: "good_tree t"
  shows "rooted (rt_root t) par \<Longrightarrow> set par \<subseteq> set (rt_parents t) \<Longrightarrow> n \<in> set (seen_of (rt_root t) par) \<Longrightarrow>
    length par < g \<Longrightarrow> length par < g' \<Longrightarrow>
    ancestors g (parent_node t) (rt_root t) (Some n) = ancestors g' (parent_node t) (rt_root t) (Some n)"
proof (induction arbitrary: n g g' rule: rooted.induct)
  case rooted_Nil
  then have "n = rt_root t" by (simp add: seen_of_def)
  then show ?case using rooted_Nil by (simp add: ancestors_root)
next
  case (rooted_snoc par p m e)
  have sub: "set par \<subseteq> set (rt_parents t)" using rooted_snoc.prems(1) by simp
  show ?case
  proof (cases "n = m")
    case False
    then have "n \<in> set (seen_of (rt_root t) par)" using rooted_snoc.prems(2) by (auto simp: set_seen_of)
    then show ?thesis by (rule rooted_snoc.IH [OF sub]) (use rooted_snoc.prems(3,4) in simp_all)
  next
    case True
    note new = new_parent [OF t rooted_snoc.prems(1) rooted_snoc.hyps(3)]
    obtain k k' where k: "g = Suc k" "length par < k" "g' = Suc k'" "length par < k'"
      using rooted_snoc.prems(3,4) by (cases g; cases g') auto
    show ?thesis
      unfolding True k(1,3) ancestors_up [of m "rt_root t" "parent_node t", OF new(3,2)]
      using rooted_snoc.IH [OF sub rooted_snoc.hyps(2) k(2,4)] by simp
  qed
qed

lemma good_tree_bound: "good_tree t \<Longrightarrow> length (rt_parents t) < chain_bound - 1 \<and> length (rt_parents t) < chain_bound"
  by (auto simp: good_tree_def)

lemma chain_set:
  assumes "good_tree t" "n \<in> set (rt_energized t)"
  shows "set (chain t n) = {a. (a, n) \<in> (ups t)\<^sup>*}"
  unfolding chain_def
  by (rule ancestors_set [OF assms(1) good_treeD(1) [OF assms(1)] subset_refl])
    (use assms good_tree_bound in \<open>simp_all add: rt_energized_def\<close>)

lemma chain_step:
  assumes "good_tree t" "(p, n) \<in> ups t"
  shows "chain t n = n # chain t p"
proof -
  from assms obtain e where e: "map_of (rt_parents t) n = Some (p, e)" using good_treeD(5) by blast
  have ne: "n \<noteq> rt_root t" using assms good_treeD(3) by blast
  have "p \<in> set (rt_energized t)"
    using kid_rel_seen [OF good_treeD(1) [OF assms(1)]] assms(2) by (auto simp: ups_def rt_energized_def)
  then have "ancestors chain_bound (parent_node t) (rt_root t) (Some p) =
      ancestors (chain_bound - 1) (parent_node t) (rt_root t) (Some p)"
    by (intro ancestors_bound [OF assms(1) good_treeD(1) [OF assms(1)] subset_refl])
      (use good_tree_bound [OF assms(1)] in \<open>simp_all add: rt_energized_def\<close>)
  moreover have "chain_bound = Suc (chain_bound - 1)" by (simp add: chain_bound_def)
  ultimately show ?thesis
    using ancestors_up [of n "rt_root t" "parent_node t" p "chain_bound - 1", OF ne good_treeD(7) [OF assms(1) e]]
    by (simp add: chain_def)
qed

subsection \<open>The deepest common ancestor\<close>

lemma chain_shorter:
  assumes "good_tree t"
  shows "(b, a) \<in> (ups t)\<^sup>+ \<Longrightarrow> length (chain t b) < length (chain t a)"
  by (induction rule: trancl_induct) (auto simp: chain_step [OF assms])

lemma ups_comparable:
  assumes "good_tree t" "(a, n) \<in> (ups t)\<^sup>*" "(b, n) \<in> (ups t)\<^sup>*"
  shows "(a, b) \<in> (ups t)\<^sup>* \<or> (b, a) \<in> (ups t)\<^sup>*"
  using assms(2,3)
proof (induction rule: rtrancl_induct)
  case (step x n)
  then show ?case using ups_step [OF assms(1) step.hyps(2), of b]
    by (auto intro: rtrancl_into_rtrancl)
qed simp

definition covers_all :: "radial \<Rightarrow> string \<Rightarrow> string list \<Rightarrow> bool" where
  "covers_all t a ds \<longleftrightarrow> (\<forall>d\<in>set ds. (a, d) \<in> (ups t)\<^sup>*)"

lemma lca_deepest:
  assumes t: "good_tree t" and ds: "ds \<noteq> []" "set ds \<subseteq> set (rt_energized t)"
  obtains l where "lca t ds = Inr l" "covers_all t l ds" "\<And>c. covers_all t c ds \<Longrightarrow> (c, l) \<in> (ups t)\<^sup>*"
proof -
  obtain d rest where d: "ds = d # rest" using ds(1) by (cases ds) auto
  let ?common = "filter (\<lambda>a. list_all (\<lambda>x. a \<in> set (chain t x)) rest) (chain t d)"
  have common: "a \<in> set ?common \<longleftrightarrow> covers_all t a ds" for a
  proof -
    have "x \<in> set ds \<Longrightarrow> a \<in> set (chain t x) \<longleftrightarrow> (a, x) \<in> (ups t)\<^sup>*" for x
      using chain_set [OF t] ds(2) by auto
    then show ?thesis by (auto simp: d covers_all_def list_all_iff)
  qed
  have "covers_all t (rt_root t) ds" using ds(2) good_treeD(6) [OF t] by (auto simp: covers_all_def)
  with common have "?common \<noteq> []" by fastforce
  then obtain c cs where c: "?common = c # cs" by (cases ?common) auto
  define l where "l = max_by (\<lambda>n. length (chain t n)) c cs"
  have "lca t ds = Inr l" by (simp add: lca_def d c l_def)
  moreover have l: "covers_all t l ds"
    using max_by_in [of "\<lambda>n. length (chain t n)" c cs] common [of l] by (simp add: c l_def)
  moreover have "(b, l) \<in> (ups t)\<^sup>*" if b: "covers_all t b ds" for b
  proof (rule ccontr)
    assume no: "(b, l) \<notin> (ups t)\<^sup>*"
    have "(b, d) \<in> (ups t)\<^sup>*" "(l, d) \<in> (ups t)\<^sup>*" using b l by (simp_all add: covers_all_def d)
    with no have "(l, b) \<in> (ups t)\<^sup>*" using ups_comparable [OF t] by blast
    moreover have "b \<noteq> l" using no by auto
    ultimately have "length (chain t l) < length (chain t b)"
      using chain_shorter [OF t] by (metis rtranclD)
    moreover have "b \<in> set (c # cs)" using b common c by metis
    then have "length (chain t b) \<le> length (chain t l)"
      using max_by_ge [of b cs "\<lambda>n. length (chain t n)" c] max_by_ge_start [of "\<lambda>n. length (chain t n)" c cs]
      by (auto simp: l_def)
    ultimately show False by simp
  qed
  ultimately show ?thesis by (rule that)
qed

subsection \<open>One cluster\<close>

lemma customers_mono: "set xs \<subseteq> set ys \<Longrightarrow> customers_in cust xs \<le> customers_in cust ys"
proof -
  have "customers_in cust zs = sum (\<lambda>n. dict_get cust n 0) (set zs)" for zs
    unfolding customers_in_def by (metis distinct_remdups set_remdups sum_list_distinct_conv_sum_set)
  then show "set xs \<subseteq> set ys \<Longrightarrow> ?thesis" by (simp add: sum_mono2)
qed

lemma first_open_on_chain:
  "first_open t opens cs = Some e \<Longrightarrow> \<exists>c\<in>set cs. c \<noteq> rt_root t \<and> rt_parent_edge t c = Some e \<and> edge_id e \<in> set opens"
  by (induction cs) (auto split: if_splits option.splits)

lemma isolating_above:
  assumes "good_tree t" "l \<in> set (rt_energized t)" "isolating_open_edge t opens l = Some e"
  obtains c where "(c, l) \<in> (ups t)\<^sup>*" "rt_parent_edge t c = Some e" "edge_id e \<in> set opens"
proof -
  have "set (ancestors (Suc (length (rt_parents t))) (parent_node t) (rt_root t) (Some l)) = {a. (a, l) \<in> (ups t)\<^sup>*}"
    by (rule ancestors_set [OF assms(1) good_treeD(1) [OF assms(1)] subset_refl])
      (use assms(2) in \<open>simp_all add: rt_energized_def\<close>)
  with first_open_on_chain [of t opens _ e] assms(3) show ?thesis
    unfolding isolating_open_edge_def by (blast intro: that)
qed

text \<open>The device of a cluster feeds a section that holds every meter of the cluster.\<close>

lemma device_covers:
  assumes t: "good_tree t" and ds: "ds \<noteq> []" "set ds \<subseteq> set (rt_energized t)"
  obtains l dev sub sect where "lca t ds = Inr l" "cluster_device t opens l = Inr dev"
    "section_of_device t dev = Inr (sub, sect)" "set ds \<subseteq> set sub"
proof -
  from lca_deepest [OF t ds] obtain l where l: "lca t ds = Inr l" "covers_all t l ds" by metis
  obtain d where "d \<in> set ds" "(l, d) \<in> (ups t)\<^sup>*" using ds(1) l(2) by (cases ds) (auto simp: covers_all_def)
  then have le: "l \<in> set (rt_energized t)"
    using ds(2) kid_rel_seen [OF good_treeD(1) [OF t]]
    by (auto simp: ups_def rt_energized_def elim: converse_rtranclE)
  have sub: "\<exists>sub. section_of_device t (Some e) = Inr (sub, to_node e) \<and> set ds \<subseteq> set sub"
    if c: "(c, l) \<in> (ups t)\<^sup>*" "rt_parent_edge t c = Some e" for c e
  proof -
    obtain p where "map_of (rt_parents t) c = Some (p, e)" using c(2) by (auto simp: rt_parent_edge_def)
    then obtain sub where s: "map_of (rt_subtrees t) (edge_id e) = Some sub" "set sub = below (ups t) c"
      using t unfolding good_tree_def by blast
    have "set ds \<subseteq> below (ups t) c"
      using l(2) c(1) by (auto simp: covers_all_def below_def intro: rtrancl_trans)
    with s show ?thesis by (simp add: section_of_device_def)
  qed
  define found where "found = (case opens of None \<Rightarrow> None | Some os \<Rightarrow> if os = [] then None else isolating_open_edge t os l)"
  show ?thesis
  proof (cases found)
    case (Some e)
    then obtain os where "isolating_open_edge t os l = Some e"
      by (auto simp: found_def split: option.splits if_splits)
    from isolating_above [OF t le this] obtain c where "(c, l) \<in> (ups t)\<^sup>*" "rt_parent_edge t c = Some e" .
    from sub [OF this] obtain s where "section_of_device t (Some e) = Inr (s, to_node e)" "set ds \<subseteq> set s" by blast
    moreover have "cluster_device t opens l = Inr (Some e)" using Some unfolding cluster_device_def found_def by simp
    ultimately show ?thesis using l(1) that by blast
  next
    case None
    show ?thesis
    proof (cases "l = rt_root t")
      case True
      then have "cluster_device t opens l = Inr None" using None unfolding cluster_device_def found_def by simp
      moreover have "section_of_device t None = Inr (rt_energized t, rt_root t)" by (simp add: section_of_device_def)
      ultimately show ?thesis using l(1) ds(2) that by blast
    next
      case False
      then obtain e where e: "rt_parent_edge t l = Some e"
        using le rooted_distinct [OF good_treeD(1) [OF t]]
        by (force simp: rt_energized_def set_seen_of rt_parent_edge_def seen_of_def)
      then have "cluster_device t opens l = Inr (Some e)" using None False unfolding cluster_device_def found_def by simp
      moreover from sub [OF _ e] obtain s where "section_of_device t (Some e) = Inr (s, to_node e)" "set ds \<subseteq> set s" by blast
      ultimately show ?thesis using l(1) that by blast
    qed
  qed
qed

text \<open>
  What an inferred outage says: its section holds all its dark meters, the estimate counts at
  least the customers that reported, and the confidence is a proportion.
\<close>

definition sound_outage :: "radial \<Rightarrow> counts \<Rightarrow> inferred \<Rightarrow> bool" where
  "sound_outage t cust o' \<longleftrightarrow> (\<exists>sub sect. section_of_device t (in_device o') = Inr (sub, sect) \<and>
     in_section o' = sect \<and> set (in_dark o') \<subseteq> set sub \<and> in_customers o' = customers_in cust sub \<and>
     in_reported o' \<le> in_customers o' \<and> 0 \<le> in_confidence o' \<and> in_confidence o' \<le> 1)"

lemma py_round_unit: "0 \<le> x \<Longrightarrow> x \<le> 1 \<Longrightarrow> 0 \<le> py_round 3 x \<and> py_round 3 x \<le> 1"
  using py_round_mono [of 0 x 3] py_round_mono [of x 1 3] round_even_of_int [of 0] round_even_of_int [of 1000]
  by (simp add: py_round_def)

lemma infer_cluster_sound:
  assumes "good_tree t" "members \<noteq> []" "set members \<subseteq> set (rt_energized t)"
  obtains x where "infer_cluster t meters cust dead opens (tx, members) = Inr x"
    "in_dark x = sort members" "sound_outage t cust x"
proof -
  from device_covers [OF assms, of opens] obtain l dev sub sect where d: "lca t members = Inr l"
    "cluster_device t opens l = Inr dev" "section_of_device t dev = Inr (sub, sect)" "set members \<subseteq> set sub" .
  let ?ms = "remdups (filter (\<lambda>n. n \<in> set meters) sub)"
  let ?conf = "if ?ms = [] then 1 / 2 else of_nat (length (filter (\<lambda>n. n \<in> set members) ?ms)) / of_nat (length ?ms) :: rat"
  have "0 \<le> ?conf" by simp
  moreover have "?conf \<le> 1"
    using length_filter_le [of "\<lambda>n. n \<in> set members" ?ms] by (simp add: divide_le_eq_1)
  ultimately have conf: "0 \<le> py_round 3 ?conf" "py_round 3 ?conf \<le> 1" using py_round_unit by blast+
  obtain x where x: "infer_cluster t meters cust dead opens (tx, members) = Inr x" "in_device x = dev"
    "in_section x = sect" "in_customers x = customers_in cust sub" "in_reported x = customers_in cust members"
    "in_dark x = sort members" "in_confidence x = py_round 3 ?conf"
    by (simp add: infer_cluster_def Let_def d)
  with d customers_mono [OF d(4), of cust] conf show ?thesis
    by (intro that [of x]) (simp_all add: sound_outage_def)
qed

subsection \<open>Clusters partition the dark meters\<close>

lemma cluster_get:
  "dict_get (fold (\<lambda>d. dict_append (cluster_key t d) d) dark cl) k [] =
     dict_get cl k [] @ filter (\<lambda>d. cluster_key t d = k) dark"
  by (induction dark arbitrary: cl) (simp_all add: dict_get_append)

lemma cluster_keys:
  "fst ` set (fold (\<lambda>d. dict_append (cluster_key t d) d) dark cl) = fst ` set cl \<union> cluster_key t ` set dark \<and>
   (distinct (map fst cl) \<longrightarrow> distinct (map fst (fold (\<lambda>d. dict_append (cluster_key t d) d) dark cl)))"
  by (induction dark arbitrary: cl) (auto simp: dom_dict_append distinct_dict_append)

lemma clusters_entry:
  "(k, ms) \<in> set (clusters t dark) \<longleftrightarrow> k \<in> cluster_key t ` set dark \<and> ms = filter (\<lambda>d. cluster_key t d = k) dark"
proof -
  have d: "distinct (map fst (clusters t dark))" and f: "fst ` set (clusters t dark) = cluster_key t ` set dark"
    and g: "dict_get (clusters t dark) k [] = filter (\<lambda>d. cluster_key t d = k) dark"
    using cluster_keys [of t dark "[]"] cluster_get [of t dark "[]" k] by (simp_all add: clusters_def dict_get_def)
  have "(k, ms) \<in> set (clusters t dark) \<longleftrightarrow> map_of (clusters t dark) k = Some ms"
    using d by simp
  also have "\<dots> \<longleftrightarrow> k \<in> fst ` set (clusters t dark) \<and> dict_get (clusters t dark) k [] = ms"
    by (cases "map_of (clusters t dark) k") (auto simp: dict_get_def map_of_eq_None_iff dest: map_of_SomeD intro: rev_image_eqI)
  finally show ?thesis by (auto simp: f g)
qed

definition dark_in :: "inferred list \<Rightarrow> string set" where
  "dark_in xs = \<Union> (set ` in_dark ` set xs)"

lemma infer_pass_sound:
  assumes t: "good_tree t" and dark: "set dark \<subseteq> set (rt_energized t)"
  shows "\<exists>xs. infer_pass t meters cust dead opens dark = Inr xs \<and> (\<forall>x\<in>set xs. sound_outage t cust x) \<and>
    dark_in xs = set dark \<and> length xs = length (clusters t dark)"
proof -
  have one: "\<exists>x. infer_cluster t meters cust dead opens cl = Inr x \<and> in_dark x = sort (snd cl) \<and> sound_outage t cust x"
    if "cl \<in> set (clusters t dark)" for cl
  proof -
    obtain k ms where cl: "cl = (k, ms)" by fastforce
    with that have "k \<in> cluster_key t ` set dark" "ms = filter (\<lambda>d. cluster_key t d = k) dark"
      by (simp_all add: clusters_entry)
    then have "ms \<noteq> []" "set ms \<subseteq> set (rt_energized t)" using dark by (auto simp: filter_empty_conv)
    from infer_cluster_sound [OF t this] show ?thesis unfolding cl by (metis snd_conv)
  qed
  have "\<exists>xs. mapR (infer_cluster t meters cust dead opens) cls = Inr xs \<and> length xs = length cls \<and>
      (\<forall>x\<in>set xs. sound_outage t cust x) \<and> dark_in xs = \<Union> (set ` snd ` set cls)"
    if "set cls \<subseteq> set (clusters t dark)" for cls
    using that
  proof (induction cls)
    case (Cons cl cls)
    from Cons obtain xs where xs: "mapR (infer_cluster t meters cust dead opens) cls = Inr xs" "length xs = length cls"
      "\<forall>x\<in>set xs. sound_outage t cust x" "dark_in xs = \<Union> (set ` snd ` set cls)" by auto
    from one [of cl] Cons.prems obtain x where "infer_cluster t meters cust dead opens cl = Inr x"
      "in_dark x = sort (snd cl)" "sound_outage t cust x" by auto
    with xs show ?case by (intro exI [of _ "x # xs"]) (simp add: dark_in_def)
  qed (simp add: dark_in_def)
  from this [of "clusters t dark"] obtain xs where xs: "infer_pass t meters cust dead opens dark = Inr xs"
    "length xs = length (clusters t dark)" "\<forall>x\<in>set xs. sound_outage t cust x" "dark_in xs = \<Union> (set ` snd ` set (clusters t dark))"
    by (auto simp: infer_pass_def)
  have "\<Union> (set ` snd ` set (clusters t dark)) = set dark"
  proof (intro equalityI subsetI)
    fix d assume "d \<in> \<Union> (set ` snd ` set (clusters t dark))"
    then show "d \<in> set dark" by (auto simp: clusters_entry)
  next
    fix d assume "d \<in> set dark"
    then have "(cluster_key t d, filter (\<lambda>x. cluster_key t x = cluster_key t d) dark) \<in> set (clusters t dark)"
      by (simp add: clusters_entry)
    with \<open>d \<in> set dark\<close> show "d \<in> \<Union> (set ` snd ` set (clusters t dark))" by force
  qed
  with xs show ?thesis by (intro exI [of _ xs]) simp
qed

subsection \<open>The whole inference\<close>

definition network_ok :: "grid_node list \<Rightarrow> grid_edge list \<Rightarrow> bool" where
  "network_ok ns es \<longleftrightarrow> (\<exists>n\<in>set ns. node_type n = ''substation'') \<and> length ns < chain_bound \<and>
     distinct (map edge_id es) \<and> list_all (\<lambda>e. from_node e \<in> set (map node_id ns) \<and> to_node e \<in> set (map node_id ns)) es"

lemma not_dangling: "network_ok ns es \<Longrightarrow> set es' \<subseteq> set es \<Longrightarrow> dangling ns es' = []"
  by (auto simp: dangling_def network_ok_def list_all_iff filter_empty_conv)

lemma network_ok_structural: "network_ok ns es \<Longrightarrow> network_ok ns (structural_edges es)"
  by (auto simp: network_ok_def structural_edges_def list_all_iff comp_def distinct_map_filter)

lemma build_radial_good:
  assumes "network_ok ns es"
  obtains t where "build_radial ns es = Inr t" "good_tree t" "rt_nodes t = ns"
proof -
  have ok: "dangling ns (filter is_closed es) = []" by (rule not_dangling [OF assms]) auto
  then obtain t where t: "build_radial ns es = Inr t"
    using assms build_radial_returns by (auto simp: network_ok_def)
  let ?A = "labelled_arcs (filter is_closed es)"
  note inv = build_radial_walk(1) [OF t]
  have r: "rooted (rt_root t) (rt_parents t)" by (rule build_radial_rooted [OF t])
  have arc: "(p, n, e) \<in> set ?A" if "map_of (rt_parents t) n = Some (p, e)" for n p e
    using inv map_of_SomeD [OF that] by (auto simp: tree_inv_def)
  have "n \<in> set (map node_id ns)" if "n \<in> set (seen_of (rt_root t) (rt_parents t))" for n
  proof (cases "n = rt_root t")
    case True
    then show ?thesis using build_radial_walk(4) [OF t] by auto
  next
    case False
    with that obtain p e where "map_of (rt_parents t) n = Some (p, e)"
      by (fastforce simp: set_seen_of map_of_eq_None_iff dest: weak_map_of_SomeI)
    from arc [OF this] assms show ?thesis by (auto simp: labelled_arcs_iff network_ok_def list_all_iff)
  qed
  then have "set (seen_of (rt_root t) (rt_parents t)) \<subseteq> set (map node_id ns)" by blast
  then have "card (set (seen_of (rt_root t) (rt_parents t))) \<le> card (set (map node_id ns))" by (rule card_mono [rotated]) simp
  also have "\<dots> \<le> length ns" using card_length [of "map node_id ns"] by simp
  finally have "length (seen_of (rt_root t) (rt_parents t)) \<le> length ns"
    by (simp only: distinct_card [OF rooted_distinct [OF r]])
  then have "length (rt_parents t) < chain_bound - 1"
    using assms by (auto simp: seen_of_def network_ok_def)
  then have "good_tree t"
    using r arc subtree_set [OF t] assms unfolding good_tree_def network_ok_def ups_def labelled_arcs_iff
    by (intro conjI allI impI) blast+
  with that [OF t] build_radial_walk(2) [OF t] show ?thesis by simp
qed

text \<open>
  C24: on a network of fewer than a thousand nodes with at least one substation the inference
  always returns. Every dark meter that the tree, or the structural tree, reaches is in an
  inferred outage and no other node is; the section blamed for an outage holds all its dark
  meters, at least as many customers are estimated as reported, and the confidence is between zero
  and one. The silent failures are the meters the estimator reads dead that are in no outage.
\<close>

theorem outage_inference_covers:
  assumes "network_ok ns es"
  shows "\<exists>et st r. build_radial ns es = Inr et \<and> build_radial ns (structural_edges es) = Inr st \<and>
    infer ns es dark cust dead = Inr r \<and>
    dark_in (inf_outages r) = {d \<in> set dark. d \<in> set (rt_energized et) \<or> d \<in> set (rt_energized st)} \<and>
    (\<forall>x\<in>set (inf_outages r). sound_outage et cust x \<or> sound_outage st cust x) \<and>
    inf_count r = card (dark_in (inf_outages r)) \<and>
    set (inf_silent r) = set dead \<inter> set (meter_ids ns) - dark_in (inf_outages r)"
proof -
  from build_radial_good [OF assms] obtain et where et: "build_radial ns es = Inr et" "good_tree et" .
  from build_radial_good [OF network_ok_structural [OF assms]]
  obtain st where st: "build_radial ns (structural_edges es) = Inr st" "good_tree st" .
  let ?m = "meter_ids ns"
  let ?p = "filter (\<lambda>d. d \<in> set (rt_energized et)) dark"
  let ?f = "filter (\<lambda>d. d \<notin> set (rt_energized et) \<and> d \<in> set (rt_energized st)) dark"
  have sub: "set ?p \<subseteq> set (rt_energized et)" "set ?f \<subseteq> set (rt_energized st)" by auto
  from infer_pass_sound [OF et(2) sub(1), of ?m cust dead None]
  obtain xs where xs: "infer_pass et ?m cust dead None ?p = Inr xs" "\<forall>x\<in>set xs. sound_outage et cust x"
    "dark_in xs = set ?p" by blast
  from infer_pass_sound [OF st(2) sub(2), of ?m cust dead "Some (tripped_ids es)"]
  obtain ys where ys: "infer_pass st ?m cust dead (Some (tripped_ids es)) ?f = Inr ys"
    "\<forall>x\<in>set ys. sound_outage st cust x" "dark_in ys = set ?f" by blast
  define r where "r = \<lparr>inf_count = length (remdups (?p @ ?f)), inf_outages = sort_desc in_customers (xs @ ys),
    inf_silent = sort (remdups (filter (\<lambda>n. n \<in> set ?m \<and> n \<notin> set (?p @ ?f)) dead))\<rparr>"
  have "infer ns es dark cust dead = Inr r"
    by (simp add: infer_def et(1) st(1) Let_def xs(1) ys(1) r_def)
  moreover have all: "dark_in (inf_outages r) = set (?p @ ?f)"
    using xs(3) ys(3) by (simp add: r_def dark_in_def)
  moreover have "\<forall>x\<in>set (inf_outages r). sound_outage et cust x \<or> sound_outage st cust x"
    using xs(2) ys(2) by (auto simp: r_def)
  moreover have "inf_count r = card (dark_in (inf_outages r))"
    unfolding all by (simp add: r_def length_remdups_card_conv)
  moreover have "set (inf_silent r) = set dead \<inter> set ?m - dark_in (inf_outages r)"
    unfolding all by (auto simp: r_def)
  ultimately show ?thesis using et(1) st(1) by (intro exI conjI) auto
qed

text \<open>The switch \<open>E2\<close> has tripped: the dark meter is found by the structural pass.\<close>

definition tripped_edges :: "grid_edge list" where
  "tripped_edges = set_edge_closed ''E2'' False (grid_edges demo_db)"

theorem outage_inference_covers_witness:
  "\<exists>r. infer (grid_nodes demo_db) tripped_edges [''C''] [(''B'', 1), (''C'', 1)] [] = Inr r \<and>
     dark_in (inf_outages r) = {''C''} \<and> inf_count r = 1"
proof -
  let ?ns = "grid_nodes demo_db"
  have "network_ok ?ns tripped_edges" by code_simp
  from outage_inference_covers [OF this, of "[''C'']" "[(''B'', 1), (''C'', 1)]" "[]"]
  obtain et st r where r: "build_radial ?ns tripped_edges = Inr et" "build_radial ?ns (structural_edges tripped_edges) = Inr st"
    "infer ?ns tripped_edges [''C''] [(''B'', 1), (''C'', 1)] [] = Inr r"
    "dark_in (inf_outages r) = {d \<in> set [''C'']. d \<in> set (rt_energized et) \<or> d \<in> set (rt_energized st)}"
    "inf_count r = card (dark_in (inf_outages r))" by blast
  have "map_sum id (\<lambda>t. ''C'' \<in> set (rt_energized t)) (build_radial ?ns (structural_edges tripped_edges)) = Inr True"
    by code_simp
  then have "''C'' \<in> set (rt_energized st)" using r(2) by simp
  then have "dark_in (inf_outages r) = {''C''}" using r(4) by auto
  with r(3,5) show ?thesis by simp
qed

subsection \<open>Two limits of the inference\<close>

text \<open>The device is \<open>E2\<close>, with the right section below it.\<close>

lemma inferred_device_demo:
  "map_sum id (\<lambda>r. map (\<lambda>x. (map_option edge_id (in_device x), in_section x, in_customers x, in_source x)) (inf_outages r))
     (infer (grid_nodes demo_db) tripped_edges [''C''] [(''B'', 1), (''C'', 1)] [])
   = Inr [(Some ''E2'', ''B'', 2, ''structural'')]"
  by code_simp

text \<open>
  \<^verbatim>\<open>section_node = device_edge["to_node"]\<close> is the wrong end when the feed runs against the
  direction in which the edge is drawn: the section named is \<open>A\<close>, which is alive.
\<close>

lemma inferred_section_upstream:
  "map_sum id (\<lambda>r. map (\<lambda>x. (in_section x, in_customers x)) (inf_outages r))
     (infer (grid_nodes demo_db) [mk_edge ''E1'' ''S1'' ''A'' ''switch'' True, mk_edge ''E2'' ''B'' ''A'' ''switch'' True]
        [''B''] [(''A'', 5), (''B'', 1)] [])
   = Inr [(''A'', 1)]"
  by code_simp

text \<open>
  The tree grows from the first substation only: a dark meter fed from the second one is in no
  outage and is not even counted.
\<close>

lemma second_source_dropped:
  "map_sum id (\<lambda>r. (inf_count r, inf_outages r))
     (infer (grid_nodes demo_db) [mk_edge ''E1'' ''S1'' ''A'' ''switch'' True, mk_edge ''T1'' ''S2'' ''C'' ''switch'' True]
        [''C''] [(''C'', 1)] [])
   = Inr (0, [])"
  by code_simp

end
