(* ===== verification/Crew_Dispatch.thy ===== *)
theory Crew_Dispatch
  imports Outage_Inference "HOL-Library.Product_Lexorder"
begin

text \<open>
  What is made of an inference: the cross-check against the N-1 model,
  \<^verbatim>\<open>src/fastapi/dms/outage_validation.py\<close>, and the ranking of crews,
  \<^verbatim>\<open>src/fastapi/dms/crew_dispatch.py\<close>. A contingency is a row of the N-1 result; only the
  fields these two read are kept.
\<close>

record contingency =
  ct_element :: string
  ct_lost_customers :: nat
  ct_restored_by :: "string list"
  ct_class :: string
  ct_violations :: nat

text \<open>\<^verbatim>\<open>{c["element"]: c for c in contingencies}\<close>: the last row of an element.\<close>

definition by_element :: "contingency list \<Rightarrow> string \<Rightarrow> contingency option" where
  "by_element cs k = find (\<lambda>c. ct_element c = k) (rev cs)"

definition device_edge_id :: "inferred \<Rightarrow> string option" where
  "device_edge_id x = map_option edge_id (in_device x)"

subsection \<open>Cross-check\<close>

record cross =
  cx_section :: string
  cx_device :: "string option"
  cx_customers :: nat
  cx_confidence :: rat
  cx_n1 :: "contingency option"
  cx_flags :: "string list"
  cx_mismatch :: bool

definition cross_flags :: "int \<Rightarrow> inferred \<Rightarrow> contingency option \<Rightarrow> string list" where
  "cross_flags tol x n1 = (case device_edge_id x of
       None \<Rightarrow> [''whole_feeder_outage_no_single_element'']
     | Some _ \<Rightarrow> (case n1 of
         None \<Rightarrow> [''inferred_device_not_in_n1_model'']
       | Some c \<Rightarrow>
           (if tol < \<bar>int (in_customers x) - int (ct_lost_customers c)\<bar> then [''customer_count_mismatch''] else []) @
           (if ct_restored_by c \<noteq> [] then [''restorable_via_tie''] else []) @
           (if ct_class c = ''unserved'' \<or> ct_class c = ''partial'' then [''n1_confirms_unserved''] else []) @
           (if 0 < ct_violations c then [''post_contingency_violation''] else [])))"

definition n1_of :: "contingency list \<Rightarrow> inferred \<Rightarrow> contingency option" where
  "n1_of cs x = (case device_edge_id x of None \<Rightarrow> None | Some k \<Rightarrow> by_element cs k)"

definition cross_one :: "int \<Rightarrow> contingency list \<Rightarrow> inferred \<Rightarrow> cross" where
  "cross_one tol cs x = (let n1 = n1_of cs x; flags = cross_flags tol x n1 in
     \<lparr>cx_section = in_section x, cx_device = device_edge_id x, cx_customers = in_customers x,
      cx_confidence = in_confidence x, cx_n1 = n1, cx_flags = flags,
      cx_mismatch = list_ex (\<lambda>f. f = ''customer_count_mismatch'' \<or> f = ''inferred_device_not_in_n1_model'') flags\<rparr>)"

record cross_report =
  cr_checks :: "cross list"
  cr_consistent :: bool
  cr_mismatches :: "cross list"

definition cross_check :: "int \<Rightarrow> inferred list \<Rightarrow> contingency list \<Rightarrow> cross_report" where
  "cross_check tol xs cs = (let checks = map (cross_one tol cs) xs; bad = filter cx_mismatch checks in
     \<lparr>cr_checks = checks, cr_consistent = (bad = []), cr_mismatches = bad\<rparr>)"

text \<open>Consistent means: every device the N-1 model knows loses the number of customers inferred, up to the tolerance.\<close>

lemma cross_check_consistent:
  "cr_consistent (cross_check tol xs cs) \<longleftrightarrow>
     (\<forall>x\<in>set xs. \<forall>k. device_edge_id x = Some k \<longrightarrow>
        (\<exists>c. by_element cs k = Some c \<and> \<bar>int (in_customers x) - int (ct_lost_customers c)\<bar> \<le> tol))"
proof -
  have "cx_mismatch (cross_one tol cs x) \<longleftrightarrow> (\<exists>k. device_edge_id x = Some k \<and>
      (\<forall>c. by_element cs k = Some c \<longrightarrow> tol < \<bar>int (in_customers x) - int (ct_lost_customers c)\<bar>))" for x
    by (cases "device_edge_id x"; cases "n1_of cs x")
      (auto simp: cross_one_def Let_def cross_flags_def n1_of_def)
  then show ?thesis
    by (fastforce simp: cross_check_def Let_def filter_empty_conv not_less)
qed

subsection \<open>Crews\<close>

record candidate =
  cd_section :: string
  cd_name :: "string option"
  cd_device :: "string option"
  cd_tx :: "string option"
  cd_customers :: nat
  cd_confidence :: rat
  cd_path :: "string list"
  cd_crew :: bool
  cd_rank :: nat

definition candidate_of :: "contingency list \<Rightarrow> inferred \<Rightarrow> candidate" where
  "candidate_of cs x = (let n1 = (case device_edge_id x of None \<Rightarrow> None | Some k \<Rightarrow> if k = [] then None else by_element cs k);
       path = (case n1 of None \<Rightarrow> [] | Some c \<Rightarrow> ct_restored_by c) in
     \<lparr>cd_section = in_section x, cd_name = in_name x, cd_device = device_edge_id x, cd_tx = in_tx x,
      cd_customers = in_customers x, cd_confidence = in_confidence x, cd_path = path, cd_crew = (path = []), cd_rank = 0\<rparr>)"

record crew_plan =
  cp_candidates :: "candidate list"
  cp_crews :: nat
  cp_remote :: nat

definition ranked :: "candidate list \<Rightarrow> candidate list" where
  "ranked xs = map (\<lambda>(i, c). c\<lparr>cd_rank := i\<rparr>) (zip [1..<Suc (length xs)] xs)"

definition recommend :: "inferred list \<Rightarrow> contingency list \<Rightarrow> crew_plan" where
  "recommend xs cs = (let items = ranked (sort_desc (\<lambda>c. (cd_crew c, cd_customers c)) (map (candidate_of cs) xs)) in
     \<lparr>cp_candidates = items, cp_crews = length (filter cd_crew items), cp_remote = length (filter (\<lambda>c. \<not> cd_crew c) items)\<rparr>)"

text \<open>Every outage is ranked once; crews come first, and within a class the larger outage comes first.\<close>

lemma ranked_map: "map (cd_rank_update (\<lambda>_. 0)) (ranked xs) = map (cd_rank_update (\<lambda>_. 0)) xs"
  by (rule nth_equalityI) (simp_all add: ranked_def del: upt_Suc)

lemma recommend_permutes:
  "mset (map (cd_rank_update (\<lambda>_. 0)) (cp_candidates (recommend xs cs))) =
     mset (map (candidate_of cs) xs)"
proof -
  have z: "cd_rank_update (\<lambda>_. 0) (candidate_of cs x) = candidate_of cs x" for x
    by (simp add: candidate_of_def Let_def)
  let ?l = "map (candidate_of cs) xs" and ?key = "\<lambda>c. (cd_crew c, cd_customers c)"
  have "mset (map (cd_rank_update (\<lambda>_. 0)) (cp_candidates (recommend xs cs))) =
      image_mset (cd_rank_update (\<lambda>_. 0)) (mset (sort_desc ?key ?l))"
    by (simp only: recommend_def Let_def crew_plan.select_convs ranked_map mset_map)
  also have "mset (sort_desc ?key ?l) = mset ?l" by (simp add: sort_desc_def)
  finally show ?thesis by (simp add: z image_mset.compositionality comp_def)
qed

lemma recommend_ordered:
  assumes "i < j" "j < length xs"
  shows "let c = cp_candidates (recommend xs cs) ! i; d = cp_candidates (recommend xs cs) ! j in
    cd_rank c = Suc i \<and> (cd_crew d \<longrightarrow> cd_crew c) \<and> (cd_crew c = cd_crew d \<longrightarrow> cd_customers d \<le> cd_customers c)"
proof -
  let ?key = "\<lambda>c. (cd_crew c, cd_customers c)"
  let ?s = "sort_desc ?key (map (candidate_of cs) xs)"
  have len: "length ?s = length xs" by simp
  have at: "cp_candidates (recommend xs cs) ! k = (?s ! k)\<lparr>cd_rank := Suc k\<rparr>" if "k < length xs" for k
    using that by (simp add: recommend_def Let_def ranked_def del: upt_Suc)
  have "?key (?s ! j) \<le> ?key (?s ! i)"
    using sort_desc_sorted [of ?key "map (candidate_of cs) xs"] assms len by (simp add: sorted_wrt_iff_nth_less)
  then show ?thesis using assms by (auto simp: at less_eq_prod_def)
qed

end
