(* ===== verification/Contingency.thy ===== *)
theory Contingency
  imports Radial_Tree
begin

text \<open>
  The tie restoration of the N-1 analysis, \<^verbatim>\<open>_energized\<close>, \<^verbatim>\<open>_is_radial\<close> and \<^verbatim>\<open>_restore\<close> of
  \<^verbatim>\<open>src/fastapi/dms/contingency.py\<close>, and the switch selection and radiality test of
  \<^verbatim>\<open>reconfiguration.py\<close>. \<open>Network_Studies\<close> grades the states with the power flow.
\<close>

subsection \<open>The energized network\<close>

definition live_links :: "grid_edge list \<Rightarrow> (string \<times> string) list" where
  "live_links es = concat (map (\<lambda>e. [(from_node e, to_node e), (to_node e, from_node e)]) (filter is_closed es))"

definition source_ids :: "grid_node list \<Rightarrow> string list" where
  "source_ids ns = map node_id (filter (\<lambda>n. node_type n = ''substation'') ns)"

definition live_set :: "grid_node list \<Rightarrow> grid_edge list \<Rightarrow> string list" where
  "live_set ns es = reach (live_links es) (source_ids ns)"

text \<open>A closed edge whose end is no node raises \<^verbatim>\<open>KeyError\<close>.\<close>

definition ct_energized :: "grid_node list \<Rightarrow> grid_edge list \<Rightarrow> string list result" where
  "ct_energized ns es = (case dangling ns (filter is_closed es) of
       x # _ \<Rightarrow> Inl (KeyErr x) | [] \<Rightarrow> Inr (live_set ns es))"

definition inner_edges :: "grid_edge list \<Rightarrow> string list \<Rightarrow> grid_edge list" where
  "inner_edges es energ = filter (\<lambda>e. is_closed e \<and> from_node e \<in> set energ \<and> to_node e \<in> set energ) es"

definition ct_radial :: "grid_node list \<Rightarrow> grid_edge list \<Rightarrow> string list \<Rightarrow> bool" where
  "ct_radial ns es energ \<longleftrightarrow>
     int (length (inner_edges es energ)) \<le> int (length energ) - int (length (source_ids ns))"

interpretation undirected: reachability "\<lambda>es. set (live_links es)" "\<lambda>es ss. set (reach (live_links es) ss)"
  by (rule reachability_of_reach) (rule refl)+

subsection \<open>The restoration\<close>

record restoration =
  rs_edges :: "grid_edge list"
  rs_closed :: "string list"
  rs_lost :: "string list"
  rs_progress :: bool

definition openable :: "grid_edge list \<Rightarrow> string \<Rightarrow> grid_edge list" where
  "openable es failed = filter (\<lambda>e. \<not> is_closed e \<and> is_switchable e \<and> edge_id e \<noteq> failed) es"

text \<open>One tie: kept closed if it brings back a lost node and the network stays radial.\<close>

definition try_tie :: "grid_node list \<Rightarrow> grid_edge \<Rightarrow> restoration \<Rightarrow> restoration result" where
  "try_tie ns e r = (if edge_id e \<in> set (rs_closed r) then Inr r else
     let trial = set_edge_closed (edge_id e) True (rs_edges r) in
     bindR (ct_energized ns trial) (\<lambda>energ.
       if (\<exists>n\<in>set (rs_lost r). n \<in> set energ) \<and> ct_radial ns trial energ
       then Inr \<lparr>rs_edges = trial, rs_closed = rs_closed r @ [edge_id e],
                 rs_lost = filter (\<lambda>n. n \<notin> set energ) (rs_lost r), rs_progress = True\<rparr>
       else Inr (r\<lparr>rs_edges := set_edge_closed (edge_id e) False trial\<rparr>)))"

fun tie_pass :: "grid_node list \<Rightarrow> grid_edge list \<Rightarrow> restoration \<Rightarrow> restoration result" where
  "tie_pass ns [] r = Inr r"
| "tie_pass ns (e # es) r = bindR (try_tie ns e r) (tie_pass ns es)"

lemma try_tie_lost:
  "try_tie ns e r = Inr r' \<Longrightarrow> length (rs_lost r') \<le> length (rs_lost r) \<and>
     (rs_progress r' \<longrightarrow> rs_progress r \<or> length (rs_lost r') < length (rs_lost r))"
  by (auto simp: try_tie_def Let_def bindR_eq_Inr intro: length_filter_less split: if_splits)

lemma tie_pass_lost:
  "tie_pass ns es r = Inr r' \<Longrightarrow> length (rs_lost r') \<le> length (rs_lost r) \<and>
     (rs_progress r' \<longrightarrow> rs_progress r \<or> length (rs_lost r') < length (rs_lost r))"
proof (induction es arbitrary: r)
  case (Cons e es)
  then obtain r1 where "try_tie ns e r = Inr r1" "tie_pass ns es r1 = Inr r'" by (auto simp: bindR_eq_Inr)
  with try_tie_lost [of ns e r r1] Cons.IH [of r1] show ?case by auto
qed simp

text \<open>\<^verbatim>\<open>while progress and lost\<close>: every further pass has lost fewer nodes.\<close>

function restore_passes :: "grid_node list \<Rightarrow> grid_edge list \<Rightarrow> restoration \<Rightarrow> restoration result" where
  "restore_passes ns ties r = (if rs_lost r = [] then Inr r else
     (case tie_pass ns ties (r\<lparr>rs_progress := False\<rparr>) of
        Inl e \<Rightarrow> Inl e
      | Inr r' \<Rightarrow> if rs_progress r' then restore_passes ns ties r' else Inr r'))"
  by pat_completeness auto

termination
  by (relation "measure (\<lambda>(ns, ties, r). length (rs_lost r))") (auto dest!: tie_pass_lost)

declare restore_passes.simps [simp del]

definition restore :: "grid_node list \<Rightarrow> grid_edge list \<Rightarrow> string \<Rightarrow> string list \<Rightarrow> restoration result" where
  "restore ns es failed lost = restore_passes ns (openable es failed)
     \<lparr>rs_edges = es, rs_closed = [], rs_lost = lost, rs_progress = True\<rparr>"

subsection \<open>What a restoration leaves behind\<close>

lemma set_closed_back:
  "distinct (map edge_id es) \<Longrightarrow> e \<in> set es \<Longrightarrow> \<not> is_closed e \<Longrightarrow>
     set_edge_closed (edge_id e) False (set_edge_closed (edge_id e) True es) = es"
  by (simp add: set_edge_closed_twice)
    (rule set_edge_closed_same, metis distinct_map inj_onD)

definition ties_closed :: "string list \<Rightarrow> grid_edge list \<Rightarrow> grid_edge list" where
  "ties_closed ks es = map (\<lambda>e. if edge_id e \<in> set ks then e\<lparr>is_closed := True\<rparr> else e) es"

lemma ties_closed_Nil [simp]: "ties_closed [] es = es"
  by (simp add: ties_closed_def)

lemma ties_closed_snoc: "set_edge_closed k True (ties_closed ks es) = ties_closed (ks @ [k]) es"
  by (auto simp: set_edge_closed_def update_where_def ties_closed_def)

lemma ties_closed_id: "map edge_id (ties_closed ks es) = map edge_id es"
  by (simp add: ties_closed_def comp_def if_distrib cong: if_cong)

text \<open>The invariant of the passes.\<close>

definition restoring :: "grid_node list \<Rightarrow> grid_edge list \<Rightarrow> string \<Rightarrow> string list \<Rightarrow> restoration \<Rightarrow> bool" where
  "restoring ns es failed lost r \<longleftrightarrow> rs_edges r = ties_closed (rs_closed r) es \<and>
     set (rs_closed r) \<subseteq> edge_id ` set (openable es failed) \<and> distinct (rs_closed r) \<and>
     (if rs_closed r = [] then rs_lost r = lost
      else ct_radial ns (rs_edges r) (live_set ns (rs_edges r)) \<and>
           rs_lost r = filter (\<lambda>n. n \<notin> set (live_set ns (rs_edges r))) lost)"

lemma closing_keeps_alive: "set (live_set ns es) \<subseteq> set (live_set ns (set_edge_closed k True es))"
proof -
  have "set (live_links es) \<subseteq> set (live_links (set_edge_closed k True es))"
    by (force simp: live_links_def set_edge_closed_def in_set_update_where)
  from undirected.live_mono [OF this] show ?thesis by (simp add: live_set_def)
qed

lemma try_tie_inv:
  assumes inv: "restoring ns es failed lost r" and e: "e \<in> set (openable es failed)"
    and d: "distinct (map edge_id es)" and t: "try_tie ns e r = Inr r'"
  shows "restoring ns es failed lost r'"
proof -
  let ?trial = "set_edge_closed (edge_id e) True (rs_edges r)"
  have tr: "?trial = ties_closed (rs_closed r @ [edge_id e]) es"
    using inv by (simp add: restoring_def ties_closed_snoc)
  consider (kept) "r' = r"
    | (undone) "edge_id e \<notin> set (rs_closed r)" "r' = r\<lparr>rs_edges := set_edge_closed (edge_id e) False ?trial\<rparr>"
    | (closing) energ where "edge_id e \<notin> set (rs_closed r)" "ct_energized ns ?trial = Inr energ"
        "ct_radial ns ?trial energ" "r' = \<lparr>rs_edges = ?trial, rs_closed = rs_closed r @ [edge_id e],
          rs_lost = filter (\<lambda>n. n \<notin> set energ) (rs_lost r), rs_progress = True\<rparr>"
    using t by (auto simp: try_tie_def Let_def bindR_eq_Inr split: if_splits)
  then show ?thesis
  proof cases
    case kept
    with inv show ?thesis by simp
  next
    case undone
    have "e \<in> set es" "\<not> is_closed e" using e by (auto simp: openable_def)
    then have "e \<in> set (ties_closed (rs_closed r) es)" using undone(1) by (force simp: ties_closed_def)
    then have "set_edge_closed (edge_id e) False ?trial = rs_edges r"
      using inv d \<open>\<not> is_closed e\<close> by (simp add: restoring_def set_closed_back ties_closed_id)
    with undone have "r' = r" by simp
    with inv show ?thesis by simp
  next
    case closing
    have energ: "energ = live_set ns ?trial" using closing(2) by (auto simp: ct_energized_def split: list.splits)
    have "filter (\<lambda>n. n \<notin> set energ) (rs_lost r) = filter (\<lambda>n. n \<notin> set energ) lost"
      using inv closing_keeps_alive [of ns "rs_edges r" "edge_id e"]
      by (auto simp: restoring_def energ filter_filter intro!: filter_cong split: if_splits)
    with closing inv e energ tr show ?thesis by (simp add: restoring_def)
  qed
qed

lemma tie_pass_inv:
  "restoring ns es failed lost r \<Longrightarrow> set ties \<subseteq> set (openable es failed) \<Longrightarrow> distinct (map edge_id es) \<Longrightarrow>
     tie_pass ns ties r = Inr r' \<Longrightarrow> restoring ns es failed lost r'"
  by (induction ties arbitrary: r) (auto simp: bindR_eq_Inr dest: try_tie_inv)

text \<open>A tie the restoration turned down: closing it would bring nobody back, or close a loop.\<close>

definition turned_down :: "grid_node list \<Rightarrow> restoration \<Rightarrow> grid_edge \<Rightarrow> bool" where
  "turned_down ns r e \<longleftrightarrow> edge_id e \<in> set (rs_closed r) \<or>
     (let trial = set_edge_closed (edge_id e) True (rs_edges r) in
      (\<forall>n\<in>set (rs_lost r). n \<notin> set (live_set ns trial)) \<or> \<not> ct_radial ns trial (live_set ns trial))"

lemma dangling_iff:
  "dangling ns es = [] \<longleftrightarrow> (\<forall>e\<in>set es. from_node e \<in> set (map node_id ns) \<and> to_node e \<in> set (map node_id ns))"
  by (induction es) (auto simp: dangling_def)

lemma restoring_progress [simp]: "restoring ns es failed lost (r\<lparr>rs_progress := b\<rparr>) = restoring ns es failed lost r"
  by (simp add: restoring_def)

lemma dangling_ends:
  assumes "dangling ns es = []"
  shows "ct_energized ns (ties_closed ks es) = Inr (live_set ns (ties_closed ks es))"
proof -
  have "dangling ns (filter is_closed (ties_closed ks es)) = []"
    using assms by (auto simp: dangling_iff ties_closed_def)
  then show ?thesis by (simp add: ct_energized_def)
qed

lemma try_tie_total:
  assumes "restoring ns es failed lost r" "dangling ns es = []" "distinct (map edge_id es)" "e \<in> set (openable es failed)"
  obtains r' where "try_tie ns e r = Inr r'" "restoring ns es failed lost r'"
    "rs_progress r \<Longrightarrow> rs_progress r'" "\<not> rs_progress r' \<Longrightarrow> rs_edges r' = rs_edges r \<and> rs_closed r' = rs_closed r \<and> rs_lost r' = rs_lost r"
    "\<not> rs_progress r' \<Longrightarrow> turned_down ns r e"
proof -
  let ?trial = "set_edge_closed (edge_id e) True (rs_edges r)"
  have tr: "?trial = ties_closed (rs_closed r @ [edge_id e]) es"
    using assms(1) by (simp add: restoring_def ties_closed_snoc)
  have en: "ct_energized ns ?trial = Inr (live_set ns ?trial)" unfolding tr by (rule dangling_ends [OF assms(2)])
  obtain r' where r': "try_tie ns e r = Inr r'"
    by (cases "try_tie ns e r") (auto simp: try_tie_def Let_def en split: if_splits)
  note inv = try_tie_inv [OF assms(1,4,3) r']
  have "rs_progress r \<Longrightarrow> rs_progress r'" "\<not> rs_progress r' \<Longrightarrow> rs_closed r' = rs_closed r \<and> rs_lost r' = rs_lost r"
    "\<not> rs_progress r' \<Longrightarrow> turned_down ns r e"
    using r' by (auto simp: try_tie_def Let_def en turned_down_def split: if_splits)
  moreover from this have "\<not> rs_progress r' \<Longrightarrow> rs_edges r' = rs_edges r"
    using inv assms(1) by (simp add: restoring_def)
  ultimately show ?thesis using that [OF r' inv] by blast
qed

lemma turned_down_cong:
  "rs_edges r' = rs_edges r \<Longrightarrow> rs_closed r' = rs_closed r \<Longrightarrow> rs_lost r' = rs_lost r \<Longrightarrow>
     turned_down ns r' e = turned_down ns r e"
  by (simp add: turned_down_def)

lemma tie_pass_total:
  assumes "dangling ns es = []" "distinct (map edge_id es)"
  shows "restoring ns es failed lost r \<Longrightarrow> set ties \<subseteq> set (openable es failed) \<Longrightarrow>
    \<exists>r'. tie_pass ns ties r = Inr r' \<and> restoring ns es failed lost r' \<and> (rs_progress r \<longrightarrow> rs_progress r') \<and>
      (\<not> rs_progress r' \<longrightarrow> rs_edges r' = rs_edges r \<and> rs_closed r' = rs_closed r \<and> rs_lost r' = rs_lost r \<and>
         (\<forall>e\<in>set ties. turned_down ns r' e))"
proof (induction ties arbitrary: r)
  case (Cons e ties)
  have e: "e \<in> set (openable es failed)" using Cons.prems(2) by simp
  from try_tie_total [OF Cons.prems(1) assms e] obtain r1 where r1: "try_tie ns e r = Inr r1"
    "restoring ns es failed lost r1" "rs_progress r \<Longrightarrow> rs_progress r1"
    "\<not> rs_progress r1 \<Longrightarrow> rs_edges r1 = rs_edges r \<and> rs_closed r1 = rs_closed r \<and> rs_lost r1 = rs_lost r"
    "\<not> rs_progress r1 \<Longrightarrow> turned_down ns r e" by metis
  from Cons.IH [OF r1(2)] Cons.prems(2) obtain r' where r': "tie_pass ns ties r1 = Inr r'"
    "restoring ns es failed lost r'" "rs_progress r1 \<longrightarrow> rs_progress r'"
    "\<not> rs_progress r' \<longrightarrow> rs_edges r' = rs_edges r1 \<and> rs_closed r' = rs_closed r1 \<and> rs_lost r' = rs_lost r1 \<and>
       (\<forall>e\<in>set ties. turned_down ns r' e)" by auto
  have "turned_down ns r' e" if "\<not> rs_progress r'"
    using that r'(3,4) r1(4,5) turned_down_cong [of r' r] by metis
  with r1 r' show ?case by (intro exI [of _ r']) auto
qed simp

lemma restore_passes_total:
  "dangling ns es = [] \<Longrightarrow> distinct (map edge_id es) \<Longrightarrow> ties = openable es failed \<Longrightarrow> restoring ns es failed lost r \<Longrightarrow>
    \<exists>r'. restore_passes ns ties r = Inr r' \<and> restoring ns es failed lost r' \<and>
      (rs_lost r' \<noteq> [] \<longrightarrow> (\<forall>e\<in>set ties. turned_down ns r' e))"
proof (induction ns ties r rule: restore_passes.induct)
  case (1 ns ties r)
  show ?case
  proof (cases "rs_lost r = []")
    case True
    with 1 show ?thesis by (simp add: restore_passes.simps)
  next
    case False
    from tie_pass_total [OF "1.prems"(1,2), of failed lost "r\<lparr>rs_progress := False\<rparr>" ties] "1.prems"(3,4)
    obtain r' where r': "tie_pass ns ties (r\<lparr>rs_progress := False\<rparr>) = Inr r'" "restoring ns es failed lost r'"
      "\<not> rs_progress r' \<longrightarrow> (\<forall>e\<in>set ties. turned_down ns r' e)" by auto
    show ?thesis
    proof (cases "rs_progress r'")
      case True
      with "1.IH" [OF False r'(1) True "1.prems"(1-3) r'(2)] False r'(1) show ?thesis
        by (simp add: restore_passes.simps)
    next
      case np: False
      with False r' show ?thesis by (simp add: restore_passes.simps)
    qed
  qed
qed

text \<open>
  C30: the restoration of the contingency analysis always returns, and does only what it may. The
  switches it closes are open switchable elements other than the failed one, no other element moves,
  and if it closed any the energized network is radial. It is not cut short: a node stays lost
  only if every further switch would bring no lost node back or would close a loop.
\<close>

theorem contingency_restore_sound:
  assumes "dangling ns es = []" "distinct (map edge_id es)"
  shows "\<exists>r. restore ns es failed lost = Inr r \<and> rs_edges r = ties_closed (rs_closed r) es \<and>
    set (rs_closed r) \<subseteq> edge_id ` set (openable es failed) \<and> distinct (rs_closed r) \<and>
    (rs_closed r \<noteq> [] \<longrightarrow> ct_radial ns (rs_edges r) (live_set ns (rs_edges r)) \<and>
       rs_lost r = filter (\<lambda>n. n \<notin> set (live_set ns (rs_edges r))) lost) \<and>
    (rs_lost r \<noteq> [] \<longrightarrow> (\<forall>e\<in>set (openable es failed). turned_down ns r e))"
proof -
  let ?r0 = "\<lparr>rs_edges = es, rs_closed = [], rs_lost = lost, rs_progress = True\<rparr>"
  have "restoring ns es failed lost ?r0" by (simp add: restoring_def)
  from restore_passes_total [OF assms refl this] obtain r where "restore ns es failed lost = Inr r"
    "restoring ns es failed lost r" "rs_lost r \<noteq> [] \<longrightarrow> (\<forall>e\<in>set (openable es failed). turned_down ns r e)"
    by (auto simp: restore_def)
  then show ?thesis by (intro exI [of _ r]) (auto simp: restoring_def)
qed

text \<open>\<open>E1\<close> fails: the tie from \<open>S2\<close> brings everything back.\<close>

definition failed_edges :: "grid_edge list" where
  "failed_edges = set_edge_closed ''E1'' False (grid_edges demo_db)"

theorem contingency_restore_sound_witness:
  "\<exists>r. restore (grid_nodes demo_db) failed_edges ''E1'' [''A'', ''B'', ''C''] = Inr r \<and> rs_closed r = [''T1''] \<and>
     ct_radial (grid_nodes demo_db) (rs_edges r) (live_set (grid_nodes demo_db) (rs_edges r))"
proof -
  have "dangling (grid_nodes demo_db) failed_edges = []" "distinct (map edge_id failed_edges)" by code_simp+
  from contingency_restore_sound [OF this, of "''E1''" "[''A'', ''B'', ''C'']"] obtain r
    where r: "restore (grid_nodes demo_db) failed_edges ''E1'' [''A'', ''B'', ''C''] = Inr r"
      "rs_closed r \<noteq> [] \<longrightarrow> ct_radial (grid_nodes demo_db) (rs_edges r) (live_set (grid_nodes demo_db) (rs_edges r))"
    by blast
  have "map_sum id rs_closed (restore (grid_nodes demo_db) failed_edges ''E1'' [''A'', ''B'', ''C'']) = Inr [''T1'']"
    by code_simp
  with r show ?thesis by simp
qed

subsection \<open>Reconfiguration\<close>

text \<open>\<^verbatim>\<open>_reconfigurable\<close> and \<^verbatim>\<open>_radial_feasible\<close>\<close>

definition islanding_breaker :: "grid_edge \<Rightarrow> bool" where
  "islanding_breaker e = (case edge_attrs e of PDict d \<Rightarrow> dict_get d ''role'' PNone = PStr ''islanding_breaker'' | _ \<Rightarrow> False)"

definition reconfigurable :: "grid_edge list \<Rightarrow> grid_edge list" where
  "reconfigurable es = filter (\<lambda>e. is_switchable e \<and> (edge_type e = ''switch'' \<or> edge_type e = ''tie'') \<and> \<not> islanding_breaker e) es"

definition radial_feasible :: "grid_node list \<Rightarrow> grid_edge list \<Rightarrow> (bool \<times> string list) result" where
  "radial_feasible ns es = (if source_ids ns = [] then Inr (False, [])
     else bindR (ct_energized ns es) (\<lambda>energ.
       if \<not> ct_radial ns es energ then Inr (False, energ)
       else Inr (list_all (\<lambda>n. (node_type n = ''load'' \<or> node_type n = ''meter'') \<longrightarrow> node_id n \<in> set energ) ns, energ)))"

end
