(* ===== verification/Linalg.thy ===== *)
theory Linalg
  imports Prelude
begin

text \<open>
  The linear algebra of the analytics engines, \<^verbatim>\<open>src/fastapi/dms/linalg.py\<close>: matrices as lists of rows,
  products, and Gaussian elimination with partial pivoting. Numbers are exact rationals. The callers
  pass square matrices; on others the indexing of the code is not modelled.
\<close>

subsection \<open>Matrices\<close>

type_synonym mat = "rat list list"

definition zeros :: "nat \<Rightarrow> nat \<Rightarrow> mat" where
  "zeros rows cols = replicate rows (replicate cols 0)"

definition identity :: "nat \<Rightarrow> mat" where
  "identity n = map (\<lambda>i. (replicate n 0)[i := 1]) [0..<n]"

text \<open>\<^verbatim>\<open>zip\<close> stops at the shortest row.\<close>

definition mat_transpose :: "mat \<Rightarrow> mat" where
  "mat_transpose a = (case a of [] \<Rightarrow> [] | r # rs \<Rightarrow> map (\<lambda>j. map (\<lambda>row. row ! j) a) [0..<fold min (map length rs) (length r)])"

definition dot :: "rat list \<Rightarrow> rat list \<Rightarrow> rat" where
  "dot x y = sum_list (map (\<lambda>(a, b). a * b) (zip x y))"

definition matmul :: "mat \<Rightarrow> mat \<Rightarrow> mat" where
  "matmul a b = (let bt = mat_transpose b in map (\<lambda>row. map (dot row) bt) a)"

definition matvec :: "mat \<Rightarrow> rat list \<Rightarrow> rat list" where
  "matvec a x = map (\<lambda>row. dot row x) a"

subsection \<open>Elimination\<close>

definition tiny :: rat where "tiny = 1 / 10 ^ 12"

definition singular :: exn where
  "singular = ValueError (Fmt ''singular matrix in solve()'' [])"

definition pivot_row :: "nat \<Rightarrow> mat \<Rightarrow> nat" where
  "pivot_row col m = max_by (\<lambda>r. \<bar>m ! r ! col\<bar>) col [Suc col..<length m]"

definition swap_rows :: "nat \<Rightarrow> nat \<Rightarrow> mat \<Rightarrow> mat" where
  "swap_rows i j m = m[i := m ! j, j := m ! i]"

text \<open>The row loop: the pivot row stays, from every other row its multiple is taken away, from \<open>col\<close> on.\<close>

definition eliminate :: "nat \<Rightarrow> mat \<Rightarrow> mat" where
  "eliminate col m = map (\<lambda>r. if r = col then m ! r
     else (let f = m ! r ! col / (m ! col ! col) in
       if f = 0 then m ! r else map (\<lambda>c. if c < col then m ! r ! c else m ! r ! c - f * m ! col ! c) [0..<length (m ! r)])) [0..<length m]"

definition gauss_step :: "nat \<Rightarrow> mat \<Rightarrow> mat result" where
  "gauss_step col m = (let piv = pivot_row col m in
     if \<bar>m ! piv ! col\<bar> < tiny then Inl singular else Inr (eliminate col (swap_rows col piv m)))"

fun gauss :: "nat list \<Rightarrow> mat \<Rightarrow> mat result" where
  "gauss [] m = Inr m"
| "gauss (c # cs) m = bindR (gauss_step c m) (gauss cs)"

definition solve :: "mat \<Rightarrow> rat list \<Rightarrow> rat list result" where
  "solve a b = (let n = length a in bindR (gauss [0..<n] (map (\<lambda>i. a ! i @ [b ! i]) [0..<n])) (\<lambda>m.
     Inr (map (\<lambda>i. m ! i ! n / (m ! i ! i)) [0..<n])))"

text \<open>\<^verbatim>\<open>inverse\<close>: the same loop over \<open>A | I\<close>; the pivot row is scaled to one and whole rows are subtracted.\<close>

definition scale_row :: "nat \<Rightarrow> mat \<Rightarrow> mat" where
  "scale_row col m = m[col := map (\<lambda>v. v / (m ! col ! col)) (m ! col)]"

definition clear_rows :: "nat \<Rightarrow> mat \<Rightarrow> mat" where
  "clear_rows col m = map (\<lambda>r. if r = col then m ! r
     else (let f = m ! r ! col in if f = 0 then m ! r else map (\<lambda>(vr, vc). vr - f * vc) (zip (m ! r) (m ! col)))) [0..<length m]"

definition jordan_step :: "nat \<Rightarrow> mat \<Rightarrow> mat result" where
  "jordan_step col m = (let piv = pivot_row col m in
     if \<bar>m ! piv ! col\<bar> < tiny then Inl (ValueError (Fmt ''singular matrix in inverse()'' []))
     else Inr (clear_rows col (scale_row col (swap_rows col piv m))))"

fun jordan :: "nat list \<Rightarrow> mat \<Rightarrow> mat result" where
  "jordan [] m = Inr m"
| "jordan (c # cs) m = bindR (jordan_step c m) (jordan cs)"

definition mat_inverse :: "mat \<Rightarrow> mat result" where
  "mat_inverse a = (let n = length a in bindR (jordan [0..<n] (map (\<lambda>i. a ! i @ identity n ! i) [0..<n])) (\<lambda>m.
     Inr (map (drop n) m)))"

subsection \<open>What elimination keeps\<close>

text \<open>\<open>n\<close> rows of \<open>w\<close> columns; \<open>x\<close> solves the system whose right-hand side is column \<open>k\<close>.\<close>

definition shape :: "nat \<Rightarrow> nat \<Rightarrow> mat \<Rightarrow> bool" where
  "shape n w m \<longleftrightarrow> length m = n \<and> (\<forall>i<n. length (m ! i) = w)"

definition solves :: "nat \<Rightarrow> nat \<Rightarrow> mat \<Rightarrow> (nat \<Rightarrow> rat) \<Rightarrow> bool" where
  "solves n k m x \<longleftrightarrow> (\<forall>i<n. (\<Sum>j<n. m ! i ! j * x j) = m ! i ! k)"

text \<open>The columns before \<open>c\<close> are done.\<close>

definition cleared :: "nat \<Rightarrow> nat \<Rightarrow> mat \<Rightarrow> bool" where
  "cleared n c m \<longleftrightarrow> (\<forall>j<c. m ! j ! j \<noteq> 0) \<and> (\<forall>i<n. \<forall>j<c. i \<noteq> j \<longrightarrow> m ! i ! j = 0)"

text \<open>A row step: from every row but the pivot's, that row's multiple of the pivot row is taken.\<close>

definition row_step :: "nat \<Rightarrow> nat \<Rightarrow> nat \<Rightarrow> mat \<Rightarrow> mat \<Rightarrow> bool" where
  "row_step n w col m m' \<longleftrightarrow> shape n w m' \<and> (\<forall>r<n. \<forall>c<w. m' ! r ! c =
     (if r = col then m ! r ! c else m ! r ! c - m ! r ! col / (m ! col ! col) * m ! col ! c))"

lemma tiny_pos: "0 < tiny"
  by (simp add: tiny_def)

lemma pivot_range: "col < length m \<Longrightarrow> pivot_row col m \<in> {col..<length m}"
  using max_by_in [of "\<lambda>r. \<bar>m ! r ! col\<bar>" col "[Suc col..<length m]"] by (auto simp: pivot_row_def)

lemma swap_nth:
  "i < length m \<Longrightarrow> j < length m \<Longrightarrow> k < length m \<Longrightarrow> swap_rows i j m ! k = (if k = j then m ! i else if k = i then m ! j else m ! k)"
  by (auto simp: swap_rows_def nth_list_update)

lemma swap_length [simp]: "length (swap_rows i j m) = length m"
  by (simp add: swap_rows_def)

lemma swap_solves:
  assumes "length m = n" "i < n" "j < n" "solves n k (swap_rows i j m) x"
  shows "solves n k m x"
  unfolding solves_def
proof (intro allI impI)
  fix r assume r: "r < n"
  let ?r = "if r = j then i else if r = i then j else r"
  have "?r < n" using assms r by simp
  moreover have "swap_rows i j m ! ?r = m ! r" using assms r by (auto simp: swap_nth)
  ultimately show "(\<Sum>l<n. m ! r ! l * x l) = m ! r ! k" using assms(4) unfolding solves_def by metis
qed

lemma swap_twice: "i < length m \<Longrightarrow> j < length m \<Longrightarrow> swap_rows i j (swap_rows i j m) = m"
  by (rule nth_equalityI) (auto simp: swap_nth)

lemma swap_solves_iff:
  assumes "length m = n" "i < n" "j < n"
  shows "solves n k (swap_rows i j m) x = solves n k m x"
  using swap_solves [OF assms] swap_solves [of "swap_rows i j m" n i j k x] assms swap_twice [of i m j] by auto

lemma swap_shape: "shape n w m \<Longrightarrow> i < n \<Longrightarrow> j < n \<Longrightarrow> shape n w (swap_rows i j m)"
  by (auto simp: shape_def swap_nth)

lemma swap_cleared:
  assumes "shape n w m" "cleared n c m" "c \<le> i" "i < n" "c \<le> j" "j < n"
  shows "cleared n c (swap_rows i j m)"
  using assms by (auto simp: cleared_def shape_def swap_nth)

lemma row_step_solves:
  assumes e: "row_step n w col m m'" and "col < n" "n \<le> k" "k < w"
  shows "solves n k m' x = solves n k m x"
proof -
  let ?f = "\<lambda>r. m ! r ! col / (m ! col ! col)"
  let ?L = "\<lambda>r. \<Sum>j<n. m ! r ! j * x j"
  have entry: "m' ! r ! c = (if r = col then m ! r ! c else m ! r ! c - ?f r * m ! col ! c)" if "r < n" "c < w" for r c
    using e that by (simp add: row_step_def)
  have row: "(\<Sum>j<n. m' ! r ! j * x j) = (if r = col then ?L r else ?L r - ?f r * ?L col)" if "r < n" for r
  proof -
    have "(\<Sum>j<n. m' ! r ! j * x j) = (\<Sum>j<n. (if r = col then m ! r ! j else m ! r ! j - ?f r * m ! col ! j) * x j)"
      using that assms by (intro sum.cong refl) (simp add: entry)
    then show ?thesis by (simp add: algebra_simps sum_subtractf sum_distrib_left)
  qed
  have kk: "m' ! r ! k = (if r = col then m ! r ! k else m ! r ! k - ?f r * m ! col ! k)" if "r < n" for r
    using entry that assms by simp
  show ?thesis
  proof
    assume s: "solves n k m' x"
    then have eq: "(\<Sum>j<n. m' ! r ! j * x j) = m' ! r ! k" if "r < n" for r using that by (simp add: solves_def)
    have c: "?L col = m ! col ! k" using eq [OF assms(2)] by (simp add: row kk assms(2))
    show "solves n k m x" unfolding solves_def
    proof (intro allI impI)
      fix r assume r: "r < n"
      show "?L r = m ! r ! k" using c eq [OF r] row [OF r] kk [OF r] by (cases "r = col") auto
    qed
  next
    assume s: "solves n k m x"
    then have eq: "?L r = m ! r ! k" if "r < n" for r using that by (simp add: solves_def)
    show "solves n k m' x" unfolding solves_def using row kk eq assms(2) by auto
  qed
qed

lemma row_step_cleared:
  assumes "row_step n w col m m'" "cleared n col m" "col < n" "n \<le> w" "m ! col ! col \<noteq> 0"
  shows "cleared n (Suc col) m'"
  using assms by (auto simp: cleared_def row_step_def less_Suc_eq)

lemma eliminate_row_step:
  assumes "shape n w m" "col < n" "cleared n col m"
  shows "row_step n w col m (eliminate col m)"
  using assms by (auto simp: row_step_def eliminate_def shape_def Let_def cleared_def simp del: upt_Suc)

lemma gauss_step_keeps:
  assumes "gauss_step col m = Inr m'" "shape n w m" "cleared n col m" "col < n" "n \<le> w"
  shows "shape n w m' \<and> cleared n (Suc col) m' \<and> (\<forall>k\<in>{n..<w}. \<forall>x. solves n k m' x = solves n k m x)"
proof -
  let ?p = "pivot_row col m"
  let ?s = "swap_rows col ?p m"
  have p: "col \<le> ?p" "?p < n" using pivot_range [of col m] assms by (auto simp: shape_def)
  have m': "m' = eliminate col ?s" "m ! ?p ! col \<noteq> 0"
    using assms(1) tiny_pos by (auto simp: gauss_step_def Let_def split: if_splits)
  have s: "shape n w ?s" "cleared n col ?s" using p assms by (auto intro: swap_shape swap_cleared)
  have e: "row_step n w col ?s m'" using eliminate_row_step [OF s(1) assms(4) s(2)] m' by simp
  have "?s ! col ! col \<noteq> 0" using m' p assms by (auto simp: swap_nth shape_def)
  then have "cleared n (Suc col) m'" using row_step_cleared [OF e s(2) assms(4,5)] by simp
  moreover have "solves n k m' x = solves n k m x" if "k \<in> {n..<w}" for k x
    using row_step_solves [OF e assms(4)] swap_solves_iff [of m n col ?p k x] that p assms by (auto simp: shape_def)
  ultimately show ?thesis using e by (auto simp: row_step_def)
qed


lemma jordan_row_step:
  assumes "shape n w m" "col < n" "cleared n col m" "m ! col ! col \<noteq> 0" "n \<le> w"
  shows "row_step n w col (scale_row col m) (clear_rows col (scale_row col m))" "shape n w (scale_row col m)"
    "cleared n col (scale_row col m)" "scale_row col m ! col ! col = 1"
  using assms by (auto simp: row_step_def clear_rows_def scale_row_def shape_def Let_def cleared_def nth_list_update)

lemma scale_solves:
  assumes "shape n w m" "col < n" "m ! col ! col \<noteq> 0" "n \<le> k" "k < w"
  shows "solves n k (scale_row col m) x = solves n k m x"
proof -
  have "(\<Sum>j<n. scale_row col m ! i ! j * x j) = (if i = col then (\<Sum>j<n. m ! i ! j * x j) / (m ! col ! col) else (\<Sum>j<n. m ! i ! j * x j))"
    if "i < n" for i
  proof (cases "i = col")
    case True
    have "(\<Sum>j<n. scale_row col m ! i ! j * x j) = (\<Sum>j<n. m ! i ! j * x j / (m ! col ! col))"
      using assms True by (intro sum.cong refl) (auto simp: scale_row_def shape_def)
    then show ?thesis using True by (simp add: sum_divide_distrib)
  qed (simp add: scale_row_def)
  moreover have "scale_row col m ! i ! k = (if i = col then m ! i ! k / (m ! col ! col) else m ! i ! k)" if "i < n" for i
    using that assms by (auto simp: scale_row_def shape_def)
  ultimately show ?thesis using assms(3) by (auto simp: solves_def)
qed

lemma jordan_step_keeps:
  assumes "jordan_step col m = Inr m'" "shape n w m" "cleared n col m" "col < n" "n \<le> w"
    "\<forall>j<col. m ! j ! j = 1"
  shows "shape n w m' \<and> cleared n (Suc col) m' \<and> (\<forall>j<Suc col. m' ! j ! j = 1) \<and>
    (\<forall>k\<in>{n..<w}. \<forall>x. solves n k m' x = solves n k m x)"
proof -
  let ?p = "pivot_row col m"
  let ?s = "swap_rows col ?p m"
  let ?t = "scale_row col ?s"
  have p: "col \<le> ?p" "?p < n" using pivot_range [of col m] assms by (auto simp: shape_def)
  have m': "m' = clear_rows col ?t" "m ! ?p ! col \<noteq> 0"
    using assms(1) tiny_pos by (auto simp: jordan_step_def Let_def split: if_splits)
  have s: "shape n w ?s" "cleared n col ?s" using p assms by (auto intro: swap_shape swap_cleared)
  have nz: "?s ! col ! col \<noteq> 0" using m' p assms by (auto simp: swap_nth shape_def)
  note t = jordan_row_step [OF s(1) assms(4) s(2) nz assms(5)]
  have e: "row_step n w col ?t m'" using t m' by simp
  have "cleared n (Suc col) m'" using row_step_cleared [OF e t(3) assms(4,5)] t(4) by simp
  moreover have "solves n k m' x = solves n k m x" if "k \<in> {n..<w}" for k x
    using row_step_solves [OF e assms(4)] scale_solves [OF s(1) assms(4) nz] swap_solves_iff [of m n col ?p k x] that p assms
    by (auto simp: shape_def)
  moreover have "m' ! j ! j = 1" if "j < Suc col" for j
  proof -
    have "?t ! j ! j = 1" using that assms p t(4) by (cases "j = col") (auto simp: scale_row_def swap_nth shape_def)
    moreover have "j = col \<or> ?t ! col ! j = 0" using t(3) that assms(4) by (auto simp: cleared_def less_Suc_eq)
    ultimately show ?thesis using e that assms by (auto simp: row_step_def)
  qed
  ultimately show ?thesis using e by (auto simp: row_step_def)
qed

lemma gauss_keeps:
  assumes "gauss [c..<n] m = Inr m'" "shape n w m" "cleared n c m" "c \<le> n" "n \<le> w"
  shows "shape n w m' \<and> cleared n n m' \<and> (\<forall>k\<in>{n..<w}. \<forall>x. solves n k m' x = solves n k m x)"
  using assms
proof (induction "n - c" arbitrary: c m)
  case (Suc d)
  then have up: "[c..<n] = c # [Suc c..<n]" "c < n" using upt_conv_Cons by auto
  with Suc.prems(1) obtain q where q: "gauss_step c m = Inr q" "gauss [Suc c..<n] q = Inr m'" by (auto simp: bindR_eq_Inr)
  have k: "shape n w q \<and> cleared n (Suc c) q \<and> (\<forall>k\<in>{n..<w}. \<forall>x. solves n k q x = solves n k m x)"
    using gauss_step_keeps [OF q(1) Suc.prems(2,3) up(2) Suc.prems(5)] .
  have "d = n - Suc c" using Suc.hyps(2) by simp
  from Suc.hyps(1) [OF this q(2)] k up(2) Suc.prems(5) show ?case by simp
qed auto

lemma jordan_keeps:
  assumes "jordan [c..<n] m = Inr m'" "shape n w m" "cleared n c m" "c \<le> n" "n \<le> w" "\<forall>j<c. m ! j ! j = 1"
  shows "shape n w m' \<and> cleared n n m' \<and> (\<forall>j<n. m' ! j ! j = 1) \<and> (\<forall>k\<in>{n..<w}. \<forall>x. solves n k m' x = solves n k m x)"
  using assms
proof (induction "n - c" arbitrary: c m)
  case (Suc d)
  then have up: "[c..<n] = c # [Suc c..<n]" "c < n" using upt_conv_Cons by auto
  with Suc.prems(1) obtain q where q: "jordan_step c m = Inr q" "jordan [Suc c..<n] q = Inr m'" by (auto simp: bindR_eq_Inr)
  have k: "shape n w q \<and> cleared n (Suc c) q \<and> (\<forall>j<Suc c. q ! j ! j = 1) \<and> (\<forall>k\<in>{n..<w}. \<forall>x. solves n k q x = solves n k m x)"
    using jordan_step_keeps [OF q(1) Suc.prems(2,3) up(2) Suc.prems(5,6)] .
  have "d = n - Suc c" using Suc.hyps(2) by simp
  from Suc.hyps(1) [OF this q(2)] k up(2) Suc.prems(5) show ?case by simp
qed auto

text \<open>A cleared system is diagonal, so it has one solution.\<close>

lemma cleared_solves:
  assumes "cleared n n m"
  shows "solves n k m x \<longleftrightarrow> (\<forall>i<n. x i = m ! i ! k / (m ! i ! i))"
proof -
  have "(\<Sum>j<n. m ! i ! j * x j) = m ! i ! i * x i" if "i < n" for i
  proof -
    have "(\<Sum>j<n. m ! i ! j * x j) = (\<Sum>j<n. if j = i then m ! i ! i * x i else 0)"
      using assms that by (intro sum.cong refl) (auto simp: cleared_def)
    then show ?thesis using that by simp
  qed
  moreover have "m ! i ! i \<noteq> 0" if "i < n" for i using assms that by (simp add: cleared_def)
  ultimately show ?thesis by (auto simp: solves_def field_simps)
qed

lemma dot_sum: "length r = n \<Longrightarrow> length x = n \<Longrightarrow> dot r x = (\<Sum>j<n. r ! j * x ! j)"
  by (simp add: dot_def sum_list_sum_nth atLeast0LessThan)

lemma matvec_solves:
  assumes "shape n n a" "length b = n" "length x = n"
  shows "matvec a x = b \<longleftrightarrow> solves n n (map (\<lambda>i. a ! i @ [b ! i]) [0..<n]) (nth x)"
proof -
  have "matvec a x = b \<longleftrightarrow> (\<forall>i<n. dot (a ! i) x = b ! i)"
    using assms by (auto simp: matvec_def list_eq_iff_nth_eq shape_def)
  moreover have "dot (a ! i) x = (\<Sum>j<n. (a ! i @ [b ! i]) ! j * x ! j)" if "i < n" for i
    using assms that by (auto simp: dot_sum [of _ n] shape_def nth_append intro!: sum.cong)
  ultimately show ?thesis using assms by (auto simp: solves_def shape_def nth_append)
qed

lemma solve_spec:
  assumes "shape n n a" "length b = n" "solve a b = Inr x"
  shows "length x = n" "matvec a y = b \<and> length y = n \<longleftrightarrow> y = x"
proof -
  let ?m = "map (\<lambda>i. a ! i @ [b ! i]) [0..<n]"
  have n: "length a = n" using assms by (simp add: shape_def)
  from assms(3) obtain m where m: "gauss [0..<n] ?m = Inr m" "x = map (\<lambda>i. m ! i ! n / (m ! i ! i)) [0..<n]"
    by (auto simp: solve_def Let_def n bindR_eq_Inr)
  show l: "length x = n" using m by simp
  have "shape n (Suc n) ?m" "cleared n 0 ?m" using assms by (auto simp: shape_def cleared_def)
  from gauss_keeps [OF m(1) this] have k: "cleared n n m" "\<And>x. solves n n m x = solves n n ?m x" by auto
  show "matvec a y = b \<and> length y = n \<longleftrightarrow> y = x"
  proof (cases "length y = n")
    case True
    have "matvec a y = b \<longleftrightarrow> (\<forall>i<n. y ! i = m ! i ! n / (m ! i ! i))"
      using matvec_solves [OF assms(1,2) True] k cleared_solves [OF k(1), of n "nth y"] by simp
    also have "\<dots> \<longleftrightarrow> y = x" using True m by (auto simp: list_eq_iff_nth_eq)
    finally show ?thesis using True by simp
  qed (use l in auto)
qed

lemma mat_inverse_spec:
  assumes "shape n n a" "mat_inverse a = Inr g" "i < n" "k < n"
  shows "shape n n g" "(\<Sum>j<n. a ! i ! j * g ! j ! k) = (if i = k then 1 else 0)"
proof -
  let ?m = "map (\<lambda>i. a ! i @ identity n ! i) [0..<n]"
  have n: "length a = n" using assms by (simp add: shape_def)
  from assms(2) obtain m where m: "jordan [0..<n] ?m = Inr m" "g = map (drop n) m"
    by (auto simp: mat_inverse_def Let_def n bindR_eq_Inr)
  have "shape n (n + n) ?m" "cleared n 0 ?m" using assms by (auto simp: shape_def cleared_def identity_def)
  from jordan_keeps [OF m(1) this] have s: "shape n (n + n) m" "cleared n n m" "\<forall>j<n. m ! j ! j = 1"
    and k: "solves n (n + k) m x = solves n (n + k) ?m x" for x using assms(4) by auto
  show "shape n n g" using s m by (auto simp: shape_def)
  have g: "g ! j ! k = m ! j ! (n + k)" if "j < n" for j using m s that assms(4) by (auto simp: shape_def)
  have "solves n (n + k) m (\<lambda>j. g ! j ! k)" unfolding cleared_solves [OF s(2)] using s(3) g by simp
  then have "solves n (n + k) ?m (\<lambda>j. g ! j ! k)" by (simp only: k)
  then have "(\<Sum>j<n. ?m ! i ! j * g ! j ! k) = ?m ! i ! (n + k)" using assms(3) by (simp only: solves_def)
  moreover have "(\<Sum>j<n. ?m ! i ! j * g ! j ! k) = (\<Sum>j<n. a ! i ! j * g ! j ! k)"
    using assms by (intro sum.cong refl) (auto simp: shape_def nth_append)
  moreover have "?m ! i ! (n + k) = (if i = k then 1 else 0)"
    using assms by (auto simp: shape_def nth_append identity_def nth_list_update)
  ultimately show "(\<Sum>j<n. a ! i ! j * g ! j ! k) = (if i = k then 1 else 0)" by simp
qed


subsection \<open>When elimination succeeds\<close>

text \<open>
  A matrix is regular if no vector with an entry 1 is mapped to entries all below the threshold. Then no
  column runs out of pivots: if the candidates of a column were all below it, the vector that the
  finished columns combine to zero would be mapped so, because a row step whose pivot row gives zero
  changes no other row's value.
\<close>

definition row_value :: "nat \<Rightarrow> mat \<Rightarrow> (nat \<Rightarrow> rat) \<Rightarrow> nat \<Rightarrow> rat" where
  "row_value n m y r = (\<Sum>j<n. m ! r ! j * y j)"

definition regular :: "nat \<Rightarrow> mat \<Rightarrow> bool" where
  "regular n a \<longleftrightarrow> (\<forall>y. (\<exists>c<n. y c = 1) \<longrightarrow> (\<exists>r<n. tiny \<le> \<bar>row_value n a y r\<bar>))"

definition small_from :: "nat \<Rightarrow> nat \<Rightarrow> mat \<Rightarrow> (nat \<Rightarrow> rat) \<Rightarrow> bool" where
  "small_from n c m y \<longleftrightarrow> (\<forall>r<c. row_value n m y r = 0) \<and> (\<forall>r\<in>{c..<n}. \<bar>row_value n m y r\<bar> < tiny)"

definition traces :: "nat \<Rightarrow> mat \<Rightarrow> nat \<Rightarrow> mat \<Rightarrow> bool" where
  "traces n a c m \<longleftrightarrow> (\<forall>y. small_from n c m y \<longrightarrow> small_from n 0 a y)"

lemma row_step_value:
  assumes "row_step n w col m m'" "col < n" "n \<le> w" "r < n"
  shows "row_value n m' y r = (if r = col then row_value n m y r else row_value n m y r - m ! r ! col / (m ! col ! col) * row_value n m y col)"
proof -
  have "row_value n m' y r = (\<Sum>j<n. (if r = col then m ! r ! j else m ! r ! j - m ! r ! col / (m ! col ! col) * m ! col ! j) * y j)"
    unfolding row_value_def using assms by (intro sum.cong refl) (simp add: row_step_def)
  then show ?thesis by (simp add: row_value_def algebra_simps sum_subtractf sum_distrib_left)
qed

lemma row_step_small:
  assumes "row_step n w col m m'" "col < n" "n \<le> w" "small_from n (Suc col) m' y"
  shows "small_from n (Suc col) m y"
proof -
  have "row_value n m' y col = 0" using assms(4) by (simp add: small_from_def)
  then have "row_value n m y col = 0" using row_step_value [OF assms(1-3) assms(2), of y] by simp
  then have "row_value n m y r = row_value n m' y r" if "r < n" for r
    using row_step_value [OF assms(1-3) that] by simp
  then show ?thesis using assms(2,4) by (auto simp: small_from_def)
qed

lemma swap_small:
  assumes "shape n w m" "c \<le> i" "i < n" "small_from n (Suc c) (swap_rows c i m) y"
  shows "small_from n c m y"
proof -
  let ?s = "swap_rows c i m"
  have v: "row_value n m y k = row_value n ?s y (if k = i then c else if k = c then i else k)" if "k < n" for k
    using assms that by (auto simp: row_value_def swap_nth shape_def)
  show ?thesis
    using assms(2,3,4) tiny_pos unfolding small_from_def by (auto simp: v less_Suc_eq)
qed

lemma pivot_max: "r \<in> {col..<length m} \<Longrightarrow> \<bar>m ! r ! col\<bar> \<le> \<bar>m ! pivot_row col m ! col\<bar>"
  unfolding pivot_row_def
  by (cases "r = col") (auto intro: max_by_ge_start [of "\<lambda>r. \<bar>m ! r ! col\<bar>"] max_by_ge [of _ _ "\<lambda>r. \<bar>m ! r ! col\<bar>"])

lemma pivot_found:
  assumes "regular n a" "traces n a col m" "shape n w m" "cleared n col m" "col < n"
  shows "tiny \<le> \<bar>m ! pivot_row col m ! col\<bar>"
proof (rule ccontr)
  assume "\<not> ?thesis"
  then have low: "\<bar>m ! r ! col\<bar> < tiny" if "r \<in> {col..<n}" for r
    using pivot_max [of r col m] that assms(3) by (auto simp: shape_def)
  define y where "y = (\<lambda>j. if j < col then - m ! j ! col / (m ! j ! j) else if j = col then 1 else (0 :: rat))"
  have v: "row_value n m y r = (if r < col then 0 else m ! r ! col)" if r: "r < n" for r
  proof -
    have "row_value n m y r = (\<Sum>j<n. (if j = col then m ! r ! col else 0) + (if j = r then (if r < col then m ! r ! r * y r else 0) else 0))"
      unfolding row_value_def using assms(4) r by (intro sum.cong refl) (auto simp: y_def cleared_def)
    also have "\<dots> = m ! r ! col + (if r < col then m ! r ! r * y r else 0)"
      using assms(5) r by (simp add: sum.distrib)
    finally show ?thesis using assms(4) by (auto simp: y_def cleared_def)
  qed
  have "small_from n col m y" using low v assms(5) by (auto simp: small_from_def)
  then have "small_from n 0 a y" using assms(2) by (simp add: traces_def)
  moreover have "y col = 1" by (simp add: y_def)
  then have "\<exists>r<n. tiny \<le> \<bar>row_value n a y r\<bar>" using assms(1,5) unfolding regular_def by blast
  ultimately show False by (force simp: small_from_def)
qed

lemma gauss_step_total:
  assumes "regular n a" "traces n a col m" "shape n w m" "cleared n col m" "col < n" "n \<le> w"
  shows "\<exists>m'. gauss_step col m = Inr m' \<and> traces n a (Suc col) m'"
proof -
  let ?p = "pivot_row col m"
  let ?s = "swap_rows col ?p m"
  have p: "col \<le> ?p" "?p < n" using pivot_range [of col m] assms by (auto simp: shape_def)
  have s: "shape n w ?s" "cleared n col ?s" using p assms by (auto intro: swap_shape swap_cleared)
  note e = eliminate_row_step [OF s(1) assms(5) s(2)]
  have "traces n a (Suc col) (eliminate col ?s)" unfolding traces_def
    using row_step_small [OF e assms(5,6)] swap_small [OF assms(3) p] assms(2) by (auto simp: traces_def)
  then show ?thesis using pivot_found [OF assms(1-5)] by (simp add: gauss_step_def Let_def)
qed

lemma gauss_total:
  assumes "regular n a" "traces n a c m" "shape n w m" "cleared n c m" "c \<le> n" "n \<le> w"
  shows "\<exists>m'. gauss [c..<n] m = Inr m'"
  using assms
proof (induction "n - c" arbitrary: c m)
  case (Suc d)
  then have up: "[c..<n] = c # [Suc c..<n]" "c < n" using upt_conv_Cons by auto
  obtain q where q: "gauss_step c m = Inr q" "traces n a (Suc c) q"
    using gauss_step_total [OF Suc.prems(1-4) up(2) Suc.prems(6)] by blast
  have "shape n w q" "cleared n (Suc c) q"
    using gauss_step_keeps [OF q(1) Suc.prems(3,4) up(2) Suc.prems(6)] by auto
  moreover have "d = n - Suc c" using Suc.hyps(2) by simp
  ultimately show ?case using Suc.hyps(1) [of "Suc c" q] Suc.prems q up by simp
qed auto

lemma solve_total:
  assumes "regular n a" "shape n n a" "length b = n"
  shows "\<exists>x. solve a b = Inr x"
proof -
  let ?m = "map (\<lambda>i. a ! i @ [b ! i]) [0..<n]"
  have "row_value n ?m y r = row_value n a y r" if "r < n" for y r
    using that assms by (auto simp: row_value_def shape_def nth_append intro!: sum.cong)
  then have "traces n a 0 ?m" by (auto simp: traces_def small_from_def)
  moreover have "shape n (Suc n) ?m" "cleared n 0 ?m" using assms by (auto simp: shape_def cleared_def)
  ultimately have "\<exists>m'. gauss [0..<n] ?m = Inr m'" using gauss_total [OF assms(1)] by simp
  then show ?thesis using assms(2) by (auto simp: solve_def Let_def shape_def)
qed

lemma jordan_step_total:
  assumes "regular n a" "traces n a col m" "shape n w m" "cleared n col m" "col < n" "n \<le> w"
  shows "\<exists>m'. jordan_step col m = Inr m' \<and> traces n a (Suc col) m'"
proof -
  let ?p = "pivot_row col m"
  let ?s = "swap_rows col ?p m"
  let ?t = "scale_row col ?s"
  have p: "col \<le> ?p" "?p < n" using pivot_range [of col m] assms by (auto simp: shape_def)
  have s: "shape n w ?s" "cleared n col ?s" using p assms by (auto intro: swap_shape swap_cleared)
  have f: "tiny \<le> \<bar>m ! ?p ! col\<bar>" using pivot_found [OF assms(1-5)] .
  then have nz: "?s ! col ! col \<noteq> 0" using tiny_pos p assms by (auto simp: swap_nth shape_def)
  note t = jordan_row_step [OF s(1) assms(5) s(2) nz assms(6)]
  have v: "row_value n ?t y r = (if r = col then row_value n ?s y r / (?s ! col ! col) else row_value n ?s y r)" if "r < n" for y r
    using that s(1) assms(5,6)
    by (auto simp: row_value_def scale_row_def shape_def sum_divide_distrib intro!: sum.cong)
  have "small_from n (Suc col) ?s y" if "small_from n (Suc col) ?t y" for y
    using that nz v assms(5) by (auto simp: small_from_def less_Suc_eq)
  then have "traces n a (Suc col) (clear_rows col ?t)" unfolding traces_def
    using row_step_small [OF t(1) assms(5,6)] swap_small [OF assms(3) p] assms(2) by (auto simp: traces_def)
  then show ?thesis using f by (simp add: jordan_step_def Let_def)
qed

lemma jordan_total:
  assumes "regular n a" "traces n a c m" "shape n w m" "cleared n c m" "c \<le> n" "n \<le> w" "\<forall>j<c. m ! j ! j = 1"
  shows "\<exists>m'. jordan [c..<n] m = Inr m'"
  using assms
proof (induction "n - c" arbitrary: c m)
  case (Suc d)
  then have up: "[c..<n] = c # [Suc c..<n]" "c < n" using upt_conv_Cons by auto
  obtain q where q: "jordan_step c m = Inr q" "traces n a (Suc c) q"
    using jordan_step_total [OF Suc.prems(1-4) up(2) Suc.prems(6)] by blast
  have "shape n w q" "cleared n (Suc c) q" "\<forall>j<Suc c. q ! j ! j = 1"
    using jordan_step_keeps [OF q(1) Suc.prems(3,4) up(2) Suc.prems(6,7)] by auto
  moreover have "d = n - Suc c" using Suc.hyps(2) by simp
  ultimately show ?case using Suc.hyps(1) [of "Suc c" q] Suc.prems q up by simp
qed auto

lemma mat_inverse_total:
  assumes "regular n a" "shape n n a"
  shows "\<exists>g. mat_inverse a = Inr g"
proof -
  let ?m = "map (\<lambda>i. a ! i @ identity n ! i) [0..<n]"
  have "row_value n ?m y r = row_value n a y r" if "r < n" for y r
    using that assms by (auto simp: row_value_def shape_def nth_append intro!: sum.cong)
  then have "traces n a 0 ?m" by (auto simp: traces_def small_from_def)
  moreover have "shape n (n + n) ?m" "cleared n 0 ?m" using assms by (auto simp: shape_def cleared_def identity_def)
  ultimately have "\<exists>m'. jordan [0..<n] ?m = Inr m'" using jordan_total [OF assms(1)] by simp
  then show ?thesis using assms(2) by (auto simp: mat_inverse_def Let_def shape_def)
qed

end
