(* ===== verification/State_Estimation.thy ===== *)
theory State_Estimation
  imports Linalg Radial_Tree
begin

text \<open>
  The weighted-least-squares estimator, \<^verbatim>\<open>estimate\<close> of \<^verbatim>\<open>src/fastapi/dms/state_estimation.py\<close>.
  The state is the pair of net injections of every energized node but the source; injections and
  voltages are linear in it, so the estimate is one solution of the normal equations. Numbers are
  exact rationals. Square roots are only ever compared or rounded, which their squares decide, so no
  irrational number is needed. The options keep their defaults: no caller passes any.
\<close>

subsection \<open>Rounded square roots\<close>

fun int_sqrt :: "int \<Rightarrow> int" where
  "int_sqrt n = (if n \<le> 0 then 0 else (let m = 2 * int_sqrt (n div 4) in if (m + 1) * (m + 1) \<le> n then m + 1 else m))"

declare int_sqrt.simps [simp del]

text \<open>\<^verbatim>\<open>round(math.sqrt(q), n)\<close>\<close>

definition sqrt_even :: "rat \<Rightarrow> int" where
  "sqrt_even q = (let f = int_sqrt \<lfloor>q\<rfloor>; h = (of_int f + 1 / 2) * (of_int f + 1 / 2) in
     if q < h then f else if h < q then f + 1 else if even f then f else f + 1)"

definition round_sqrt :: "nat \<Rightarrow> rat \<Rightarrow> rat" where
  "round_sqrt n q = of_int (sqrt_even (q * 10 ^ (2 * n))) / 10 ^ n"

lemma int_sqrt_bounds: "0 \<le> n \<Longrightarrow> 0 \<le> int_sqrt n \<and> int_sqrt n * int_sqrt n \<le> n \<and> n < (int_sqrt n + 1) * (int_sqrt n + 1)"
proof (induction n rule: int_sqrt.induct)
  case (1 n)
  show ?case
  proof (cases "n = 0")
    case True
    then show ?thesis by (simp add: int_sqrt.simps)
  next
    case False
    define s where "s = int_sqrt (n div 4)"
    have s: "0 \<le> s" "s * s \<le> n div 4" "n div 4 < (s + 1) * (s + 1)" using 1 False by (auto simp: s_def)
    then have "4 * (s * s) \<le> n" "n < 4 * ((s + 1) * (s + 1))" by linarith+
    moreover have "int_sqrt n = (if (2 * s + 1) * (2 * s + 1) \<le> n then 2 * s + 1 else 2 * s)"
      using False 1(2) by (simp add: int_sqrt.simps [of n] s_def [symmetric])
    ultimately show ?thesis using s(1) by (auto simp: algebra_simps)
  qed
qed

text \<open>The result is the nearest whole number: the root lies within one half of it.\<close>

lemma sqrt_even_nearest:
  assumes "0 \<le> q"
  shows "q \<le> (of_int (sqrt_even q) + 1 / 2) ^ 2" "sqrt_even q = 0 \<or> (of_int (sqrt_even q) - 1 / 2) ^ 2 \<le> q"
proof -
  define f where "f = int_sqrt \<lfloor>q\<rfloor>"
  have "0 \<le> \<lfloor>q\<rfloor>" using assms by simp
  then have i: "0 \<le> f" "f * f \<le> \<lfloor>q\<rfloor>" "\<lfloor>q\<rfloor> < (f + 1) * (f + 1)" using int_sqrt_bounds [of "\<lfloor>q\<rfloor>"] by (auto simp: f_def)
  then have b: "of_int f * of_int f \<le> q" "q < (of_int f + 1) * (of_int f + 1)"
    using le_floor_iff [of "f * f" q] floor_less_iff [of q "(f + 1) * (f + 1)"] by simp_all
  have f0: "(0::rat) \<le> of_int f" using i(1) by simp
  let ?h = "(of_int f + 1 / 2 :: rat) * (of_int f + 1 / 2)"
  have e: "sqrt_even q = (if q < ?h then f else if ?h < q then f + 1 else if even f then f else f + 1)"
    by (simp add: sqrt_even_def Let_def f_def)
  show "q \<le> (of_int (sqrt_even q) + 1 / 2) ^ 2"
    using b f0 unfolding e by (auto simp: power2_eq_square algebra_simps)
  show "sqrt_even q = 0 \<or> (of_int (sqrt_even q) - 1 / 2) ^ 2 \<le> q"
    using b f0 unfolding e by (auto simp: power2_eq_square algebra_simps)
qed

subsection \<open>Measurements\<close>

record meas_values =
  meas_p_kw :: "rat option"
  meas_q_kvar :: "rat option"
  meas_voltage_pu :: "rat option"

definition no_measurement :: meas_values where
  "no_measurement = \<lparr>meas_p_kw = None, meas_q_kvar = None, meas_voltage_pu = None\<rparr>"

text \<open>\<^verbatim>\<open>DEFAULTS\<close>\<close>

definition sigma_p_meter_kw :: rat where "sigma_p_meter_kw = 2"
definition sigma_q_meter_kvar :: rat where "sigma_q_meter_kvar = 2"
definition sigma_v_meter_pu :: rat where "sigma_v_meter_pu = 4 / 1000"
definition sigma_p_pseudo_kw :: rat where "sigma_p_pseudo_kw = 30"
definition sigma_q_pseudo_kvar :: rat where "sigma_q_pseudo_kvar = 20"
definition bad_data_threshold :: rat where "bad_data_threshold = 3"
definition confidence_ref_pu :: rat where "confidence_ref_pu = 4 / 100"
definition sbase_kw :: rat where "sbase_kw = 1000"

datatype meas_kind = Pseudo_P | Pseudo_Q | Meter_P | Meter_Q | Meter_V

record meas_row =
  row_h :: "rat list"
  row_z :: rat
  row_w :: rat
  row_kind :: meas_kind
  row_node :: string

text \<open>The state variables: entry \<open>2 i\<close> is the real, \<open>2 i + 1\<close> the reactive injection of the \<open>i\<close>th node.\<close>

definition state_nodes :: "radial \<Rightarrow> string list" where
  "state_nodes t = filter (\<lambda>n. n \<noteq> rt_root t) (rt_order t)"

definition state_pos :: "radial \<Rightarrow> string \<Rightarrow> nat option" where
  "state_pos t k = map_of (zip (state_nodes t) [0..<length (state_nodes t)]) k"

definition n_states :: "radial \<Rightarrow> nat" where
  "n_states t = 2 * length (state_nodes t)"

definition path_of :: "radial \<Rightarrow> string \<Rightarrow> grid_edge list" where
  "path_of t n = (case map_of (rt_paths t) n of None \<Rightarrow> [] | Some p \<Rightarrow> p)"

text \<open>The subtree and the impedance of an edge; every edge of a path has both.\<close>

definition subtree_of :: "radial \<Rightarrow> string \<Rightarrow> string list" where
  "subtree_of t e = (case map_of (rt_subtrees t) e of None \<Rightarrow> [] | Some s \<Rightarrow> remdups s)"

definition edge_pu :: "radial \<Rightarrow> string \<Rightarrow> rat \<times> rat" where
  "edge_pu t e = (case map_of (rt_pu t) e of None \<Rightarrow> (0, 0) | Some p \<Rightarrow> p)"

text \<open>\<^verbatim>\<open>v_sensitivity_row\<close>\<close>

definition bump :: "nat \<Rightarrow> rat \<Rightarrow> rat list \<Rightarrow> rat list" where
  "bump i d row = row[i := row ! i + d]"

definition v_sensitivity_row :: "radial \<Rightarrow> string \<Rightarrow> rat list" where
  "v_sensitivity_row t n = fold (\<lambda>e row. let (r, x) = edge_pu t (edge_id e) in
       fold (\<lambda>k row. case state_pos t k of None \<Rightarrow> row
         | Some i \<Rightarrow> bump (2 * i + 1) (x / sbase_kw) (bump (2 * i) (r / sbase_kw) row)) (subtree_of t (edge_id e)) row)
     (path_of t n) (replicate (n_states t) 0)"

definition unit_row :: "nat \<Rightarrow> nat \<Rightarrow> rat list" where
  "unit_row n i = (replicate n 0)[i := 1]"

definition mk_row :: "meas_kind \<Rightarrow> string \<Rightarrow> rat list \<Rightarrow> rat \<Rightarrow> rat \<Rightarrow> meas_row" where
  "mk_row k n h z s = \<lparr>row_h = h, row_z = z, row_w = 1 / s ^ 2, row_kind = k, row_node = n\<rparr>"

definition base_loads :: "radial \<Rightarrow> string \<Rightarrow> rat \<times> rat" where
  "base_loads t n = (case find (\<lambda>x. node_id x = n) (rt_nodes t) of None \<Rightarrow> (0, 0)
     | Some x \<Rightarrow> (base_load_kw x, base_load_kvar x))"

definition node_meas :: "(string \<times> meas_values) list \<Rightarrow> string \<Rightarrow> meas_values" where
  "node_meas ms n = (case map_of ms n of None \<Rightarrow> no_measurement | Some m \<Rightarrow> m)"

text \<open>The rows of one node: its base load as weak pseudo measurements, then what was metered.\<close>

definition node_rows :: "radial \<Rightarrow> (string \<times> meas_values) list \<Rightarrow> nat \<Rightarrow> string \<Rightarrow> meas_row list" where
  "node_rows t ms i n = (let m = node_meas ms n; p = unit_row (n_states t) (2 * i); q = unit_row (n_states t) (2 * i + 1) in
     [mk_row Pseudo_P n p (fst (base_loads t n)) sigma_p_pseudo_kw,
      mk_row Pseudo_Q n q (snd (base_loads t n)) sigma_q_pseudo_kvar]
     @ (case meas_p_kw m of None \<Rightarrow> [] | Some v \<Rightarrow> [mk_row Meter_P n p v sigma_p_meter_kw])
     @ (case meas_q_kvar m of None \<Rightarrow> [] | Some v \<Rightarrow> [mk_row Meter_Q n q v sigma_q_meter_kvar])
     @ (case meas_voltage_pu m of None \<Rightarrow> [] | Some v \<Rightarrow> [mk_row Meter_V n (v_sensitivity_row t n) (1 - v) sigma_v_meter_pu]))"

definition meas_rows :: "radial \<Rightarrow> (string \<times> meas_values) list \<Rightarrow> meas_row list" where
  "meas_rows t ms = concat (map (\<lambda>(i, n). node_rows t ms i n) (zip [0..<length (state_nodes t)] (state_nodes t)))"

subsection \<open>The normal equations\<close>

definition weighted_t :: "meas_row list \<Rightarrow> mat" where
  "weighted_t rows = map (\<lambda>r. map (\<lambda>(h, w). h * w) (zip r (map row_w rows))) (mat_transpose (map row_h rows))"

definition gain :: "meas_row list \<Rightarrow> mat" where
  "gain rows = matmul (weighted_t rows) (map row_h rows)"

text \<open>\<open>x\<close> and the inverse of the gain matrix\<close>

definition wls :: "meas_row list \<Rightarrow> (rat list \<times> mat) result" where
  "wls rows = bindR (solve (gain rows) (matvec (weighted_t rows) (map row_z rows))) (\<lambda>x.
     bindR (mat_inverse (gain rows)) (\<lambda>gi. Inr (x, gi)))"

definition residuals :: "meas_row list \<Rightarrow> rat list \<Rightarrow> rat list" where
  "residuals rows x = map (\<lambda>(z, p). z - p) (zip (map row_z rows) (matvec (map row_h rows) x))"

definition objective :: "meas_row list \<Rightarrow> rat list \<Rightarrow> rat" where
  "objective rows x = sum_list (map (\<lambda>(r, e). row_w r * e ^ 2) (zip rows (residuals rows x)))"


subsection \<open>Why the estimate exists and is optimal\<close>

text \<open>Every state variable has a measurement of its own whose weight is not below that of the weakest pseudo measurement.\<close>

definition design :: "nat \<Rightarrow> meas_row list \<Rightarrow> bool" where
  "design n rows \<longleftrightarrow> rows \<noteq> [] \<and> (\<forall>r\<in>set rows. length (row_h r) = n \<and> 0 \<le> row_w r) \<and>
     (\<forall>i<n. \<exists>k<length rows. row_h (rows ! k) = unit_row n i \<and> 1 / 900 \<le> row_w (rows ! k))"

definition predicted :: "nat \<Rightarrow> meas_row list \<Rightarrow> (nat \<Rightarrow> rat) \<Rightarrow> nat \<Rightarrow> rat" where
  "predicted n rows x k = (\<Sum>j<n. row_h (rows ! k) ! j * x j)"

lemma fold_min_same: "\<forall>x\<in>set xs. x = n \<Longrightarrow> fold min xs n = (n :: nat)"
  by (induction xs) auto

lemma transpose_entries:
  assumes "a \<noteq> []" "\<forall>r\<in>set a. length r = n"
  shows "mat_transpose a = map (\<lambda>j. map (\<lambda>r. r ! j) a) [0..<n]"
proof -
  obtain r rs where a: "a = r # rs" using assms(1) by (cases a) auto
  have "fold min (map length rs) (length r) = n" using assms(2) a by (auto intro: fold_min_same)
  then show ?thesis by (simp add: mat_transpose_def a)
qed

lemma weighted_entries:
  assumes "design n rows"
  shows "weighted_t rows = map (\<lambda>i. map (\<lambda>r. row_h r ! i * row_w r) rows) [0..<n]"
proof -
  have "mat_transpose (map row_h rows) = map (\<lambda>j. map (\<lambda>r. r ! j) (map row_h rows)) [0..<n]"
    using assms by (intro transpose_entries) (auto simp: design_def)
  then show ?thesis by (simp add: weighted_t_def zip_map_map zip_same_conv_map)
qed

lemma dot_map: "dot (map f xs) (map g xs) = (\<Sum>k<length xs. f (xs ! k) * g (xs ! k))"
  by (simp add: dot_sum [of _ "length xs"])

lemma gain_entries:
  assumes "design n rows"
  shows "shape n n (gain rows)"
    "i < n \<Longrightarrow> j < n \<Longrightarrow> gain rows ! i ! j = (\<Sum>k<length rows. row_w (rows ! k) * row_h (rows ! k) ! i * row_h (rows ! k) ! j)"
proof -
  have "mat_transpose (map row_h rows) = map (\<lambda>j. map (\<lambda>r. r ! j) (map row_h rows)) [0..<n]"
    using assms by (intro transpose_entries) (auto simp: design_def)
  then have g: "gain rows = map (\<lambda>i. map (\<lambda>j. dot (map (\<lambda>r. row_h r ! i * row_w r) rows) (map (\<lambda>r. row_h r ! j) rows)) [0..<n]) [0..<n]"
    using weighted_entries [OF assms] by (simp add: gain_def matmul_def Let_def comp_def)
  then show "shape n n (gain rows)" by (simp add: shape_def)
  show "i < n \<Longrightarrow> j < n \<Longrightarrow> gain rows ! i ! j = (\<Sum>k<length rows. row_w (rows ! k) * row_h (rows ! k) ! i * row_h (rows ! k) ! j)"
    by (simp add: g dot_map mult.commute mult.left_commute)
qed

lemma gain_value:
  assumes "design n rows" "i < n"
  shows "row_value n (gain rows) y i = (\<Sum>k<length rows. row_w (rows ! k) * row_h (rows ! k) ! i * predicted n rows y k)"
proof -
  have "row_value n (gain rows) y i = (\<Sum>j<n. \<Sum>k<length rows. row_w (rows ! k) * row_h (rows ! k) ! i * (row_h (rows ! k) ! j * y j))"
    unfolding row_value_def using gain_entries(2) [OF assms]
    by (intro sum.cong refl) (simp add: sum_distrib_right mult.assoc)
  also have "\<dots> = (\<Sum>k<length rows. \<Sum>j<n. row_w (rows ! k) * row_h (rows ! k) ! i * (row_h (rows ! k) ! j * y j))"
    by (rule sum.swap)
  finally show ?thesis by (simp add: predicted_def sum_distrib_left)
qed

lemma gain_quadratic:
  assumes "design n rows"
  shows "(\<Sum>i<n. y i * row_value n (gain rows) y i) = (\<Sum>k<length rows. row_w (rows ! k) * predicted n rows y k ^ 2)"
proof -
  have "(\<Sum>i<n. y i * row_value n (gain rows) y i) =
      (\<Sum>i<n. \<Sum>k<length rows. row_w (rows ! k) * predicted n rows y k * (row_h (rows ! k) ! i * y i))"
    using gain_value [OF assms] by (intro sum.cong refl) (simp add: sum_distrib_left mult.commute mult.left_commute)
  also have "\<dots> = (\<Sum>k<length rows. \<Sum>i<n. row_w (rows ! k) * predicted n rows y k * (row_h (rows ! k) ! i * y i))"
    by (rule sum.swap)
  also have "\<dots> = (\<Sum>k<length rows. row_w (rows ! k) * predicted n rows y k * predicted n rows y k)"
    by (simp add: predicted_def sum_distrib_left)
  finally show ?thesis by (simp add: power2_eq_square mult.assoc)
qed

lemma predicted_unit:
  assumes "row_h (rows ! k) = unit_row n i" "i < n"
  shows "predicted n rows y k = y i"
proof -
  have "predicted n rows y k = (\<Sum>j<n. if j = i then y i else 0)"
    unfolding predicted_def using assms by (intro sum.cong refl) (auto simp: unit_row_def nth_list_update)
  then show ?thesis using assms(2) by simp
qed

lemma gain_above:
  assumes "design n rows" "i < n"
  shows "y i ^ 2 / 900 \<le> (\<Sum>k<length rows. row_w (rows ! k) * predicted n rows y k ^ 2)"
proof -
  obtain k where k: "k < length rows" "row_h (rows ! k) = unit_row n i" "1 / 900 \<le> row_w (rows ! k)"
    using assms by (auto simp: design_def)
  have "y i ^ 2 / 900 \<le> row_w (rows ! k) * predicted n rows y k ^ 2"
    using mult_right_mono [OF k(3), of "y i ^ 2"] by (simp add: predicted_unit [OF k(2) assms(2)])
  also have "\<dots> \<le> (\<Sum>k<length rows. row_w (rows ! k) * predicted n rows y k ^ 2)"
    using assms(1) k(1) by (intro member_le_sum) (auto simp: design_def)
  finally show ?thesis .
qed

text \<open>With at most \<open>10 ^ 9\<close> state variables the gain matrix is regular.\<close>

lemma gain_regular:
  assumes d: "design n rows" and n: "n \<le> 10 ^ 9"
  shows "regular n (gain rows)"
  unfolding regular_def
proof (intro allI impI, rule ccontr)
  fix y assume "\<exists>c<n. y c = (1::rat)" and "\<not> (\<exists>r<n. tiny \<le> \<bar>row_value n (gain rows) y r\<bar>)"
  then obtain c where c: "c < n" "y c = 1" and low: "\<And>r. r < n \<Longrightarrow> \<bar>row_value n (gain rows) y r\<bar> < tiny" by (auto simp: not_le)
  have "Max ((\<lambda>j. \<bar>y j\<bar>) ` {..<n}) \<in> (\<lambda>j. \<bar>y j\<bar>) ` {..<n}" using c(1) by (intro Max_in) auto
  then obtain i where i': "i < n" "\<bar>y i\<bar> = Max ((\<lambda>j. \<bar>y j\<bar>) ` {..<n})" by auto
  then have i: "i < n" "\<And>j. j < n \<Longrightarrow> \<bar>y j\<bar> \<le> \<bar>y i\<bar>" by simp_all
  let ?m = "\<bar>y i\<bar>"
  have m: "1 \<le> ?m" using i(2) [OF c(1)] c(2) by simp
  have "?m ^ 2 / 900 \<le> (\<Sum>j<n. y j * row_value n (gain rows) y j)"
    using gain_above [OF d i(1), of y] gain_quadratic [OF d, of y] by simp
  also have "\<dots> \<le> (\<Sum>j<n. ?m * tiny)"
  proof (rule sum_mono)
    fix j assume "j \<in> {..<n}"
    then have "\<bar>y j\<bar> * \<bar>row_value n (gain rows) y j\<bar> \<le> ?m * tiny"
      using i(2) [of j] low [of j] by (intro mult_mono) auto
    then show "y j * row_value n (gain rows) y j \<le> ?m * tiny" by (simp add: abs_mult [symmetric])
  qed
  also have "\<dots> \<le> 10 ^ 9 * (?m * tiny)" using n m tiny_pos by (simp add: mult_right_mono)
  finally have "?m ^ 2 \<le> ?m * (9 / 10)" by (simp add: tiny_def)
  moreover have "?m * 1 \<le> ?m ^ 2" unfolding power2_eq_square using m by (intro mult_left_mono) auto
  ultimately have "?m * 1 \<le> ?m * (9 / 10)" by (rule order_trans [rotated])
  then show False using m by linarith
qed


lemma objective_sum:
  assumes "design n rows" "length x = n"
  shows "objective rows x = (\<Sum>k<length rows. row_w (rows ! k) * (row_z (rows ! k) - predicted n rows (nth x) k) ^ 2)"
proof -
  have "residuals rows x = map (\<lambda>r. row_z r - dot (row_h r) x) rows"
    by (simp add: residuals_def matvec_def zip_map_map zip_same_conv_map comp_def)
  then have "objective rows x = (\<Sum>k<length rows. row_w (rows ! k) * (row_z (rows ! k) - dot (row_h (rows ! k)) x) ^ 2)"
    by (simp add: objective_def zip_map2 zip_same_conv_map comp_def sum_list_sum_nth atLeast0LessThan)
  moreover have "dot (row_h (rows ! k)) x = predicted n rows (nth x) k" if "k < length rows" for k
    using assms that by (simp add: predicted_def dot_sum [of _ n] design_def)
  ultimately show ?thesis by simp
qed

lemma normal_equations:
  assumes d: "design n rows" and x: "solve (gain rows) (matvec (weighted_t rows) (map row_z rows)) = Inr x"
  shows "length x = n" "i < n \<Longrightarrow> row_value n (gain rows) (nth x) i = (\<Sum>k<length rows. row_w (rows ! k) * row_h (rows ! k) ! i * row_z (rows ! k))"
proof -
  have b: "matvec (weighted_t rows) (map row_z rows) = map (\<lambda>i. \<Sum>k<length rows. row_h (rows ! k) ! i * row_w (rows ! k) * row_z (rows ! k)) [0..<n]"
    by (simp add: weighted_entries [OF d] matvec_def dot_map comp_def)
  have s: "shape n n (gain rows)" using gain_entries [OF d] by simp
  note sol = solve_spec [OF s _ x]
  show l: "length x = n" using sol(1) b by simp
  have m: "matvec (gain rows) x = matvec (weighted_t rows) (map row_z rows)" using sol(2) [of x] b by simp
  show "row_value n (gain rows) (nth x) i = (\<Sum>k<length rows. row_w (rows ! k) * row_h (rows ! k) ! i * row_z (rows ! k))" if i: "i < n"
  proof -
    have "matvec (gain rows) x ! i = row_value n (gain rows) (nth x) i"
      using s i l by (simp add: matvec_def shape_def dot_sum [of _ n] row_value_def)
    then show ?thesis using m b i by (simp add: mult.commute mult.left_commute)
  qed
qed

text \<open>Moving away from the solution adds the weighted square of what the move predicts.\<close>

lemma objective_gap:
  assumes d: "design n rows" and x: "solve (gain rows) (matvec (weighted_t rows) (map row_z rows)) = Inr x"
    and y: "length y = n"
  shows "objective rows y = objective rows x + (\<Sum>k<length rows. row_w (rows ! k) * predicted n rows (\<lambda>j. y ! j - x ! j) k ^ 2)"
proof -
  let ?p = "predicted n rows"
  let ?v = "\<lambda>j. y ! j - x ! j"
  let ?w = "\<lambda>k. row_w (rows ! k)"
  let ?e = "\<lambda>k. row_z (rows ! k) - ?p (nth x) k"
  have lx: "length x = n" using normal_equations(1) [OF d x] .
  have p: "?p (nth y) k = ?p (nth x) k + ?p ?v k" for k
    by (simp add: predicted_def algebra_simps sum_subtractf)
  have "(\<Sum>k<length rows. ?w k * ?e k * ?p ?v k) = (\<Sum>k<length rows. \<Sum>i<n. ?w k * ?e k * (row_h (rows ! k) ! i * ?v i))"
    by (simp add: predicted_def sum_distrib_left)
  also have "\<dots> = (\<Sum>i<n. \<Sum>k<length rows. ?w k * ?e k * (row_h (rows ! k) ! i * ?v i))" by (rule sum.swap)
  also have "\<dots> = (\<Sum>i<n. ?v i * (\<Sum>k<length rows. ?w k * row_h (rows ! k) ! i * ?e k))"
    by (simp add: sum_distrib_left mult.commute mult.left_commute)
  also have "\<dots> = 0"
  proof (rule sum.neutral, rule ballI)
    fix i assume "i \<in> {..<n}"
    then have "(\<Sum>k<length rows. ?w k * row_h (rows ! k) ! i * ?e k) = 0"
      using normal_equations(2) [OF d x, of i] gain_value [OF d, of i "nth x"]
      by (simp add: right_diff_distrib sum_subtractf)
    then show "?v i * (\<Sum>k<length rows. ?w k * row_h (rows ! k) ! i * ?e k) = 0" by simp
  qed
  finally have cross: "(\<Sum>k<length rows. ?w k * ?e k * ?p ?v k) = 0" .
  have "objective rows y = (\<Sum>k<length rows. ?w k * ?e k ^ 2 - 2 * (?w k * ?e k * ?p ?v k) + ?w k * ?p ?v k ^ 2)"
    unfolding objective_sum [OF d y] p by (intro sum.cong refl) (simp add: power2_eq_square algebra_simps)
  also have "\<dots> = objective rows x - 2 * (\<Sum>k<length rows. ?w k * ?e k * ?p ?v k) + (\<Sum>k<length rows. ?w k * ?p ?v k ^ 2)"
    by (simp add: objective_sum [OF d lx] sum.distrib sum_subtractf sum_distrib_left)
  finally show ?thesis using cross by simp
qed

lemma wls_best:
  assumes d: "design n rows" and n: "n \<le> 10 ^ 9"
  shows "\<exists>x gi. wls rows = Inr (x, gi) \<and> length x = n \<and> shape n n gi \<and>
    (\<forall>y. length y = n \<longrightarrow> objective rows x \<le> objective rows y \<and> (objective rows y = objective rows x \<longrightarrow> y = x))"
proof -
  note g = gain_entries(1) [OF d]
  have "length (matvec (weighted_t rows) (map row_z rows)) = n" by (simp add: weighted_entries [OF d] matvec_def)
  then obtain x where x: "solve (gain rows) (matvec (weighted_t rows) (map row_z rows)) = Inr x"
    using solve_total [OF gain_regular [OF d n] g] by blast
  obtain gi where gi: "mat_inverse (gain rows) = Inr gi" using mat_inverse_total [OF gain_regular [OF d n] g] by blast
  have lx: "length x = n" using normal_equations(1) [OF d x] .
  have sg: "shape n n gi"
  proof (cases n)
    case 0
    then show ?thesis using gi g by (simp add: mat_inverse_def shape_def)
  qed (use mat_inverse_spec(1) [OF g gi, of 0 0] in simp)
  have best: "objective rows x \<le> objective rows y \<and> (objective rows y = objective rows x \<longrightarrow> y = x)" if y: "length y = n" for y
  proof -
    let ?v = "\<lambda>j. y ! j - x ! j"
    let ?q = "\<Sum>k<length rows. row_w (rows ! k) * predicted n rows ?v k ^ 2"
    have gap: "objective rows y = objective rows x + ?q" by (rule objective_gap [OF d x y])
    have "0 \<le> ?q" using d by (intro sum_nonneg mult_nonneg_nonneg) (auto simp: design_def)
    moreover have "y = x" if "?q = 0"
    proof (rule nth_equalityI)
      fix i assume "i < length y"
      then have "?v i ^ 2 / 900 \<le> 0" using gain_above [OF d, of i ?v] that y by simp
      then show "y ! i = x ! i" by simp
    qed (use lx y in simp)
    ultimately show ?thesis using gap by auto
  qed
  show ?thesis using x gi lx sg best by (auto simp: wls_def)
qed


subsection \<open>The report\<close>

record se_node =
  se_id :: string
  se_name :: "string option"
  se_type :: "string option"
  se_energized :: bool
  se_monitored :: bool
  se_voltage_pu :: "rat option"
  se_voltage_kv :: "rat option"
  se_p_kw :: "rat option"
  se_q_kvar :: "rat option"
  se_confidence :: rat

record se_branch =
  sb_edge :: string
  sb_from :: string
  sb_to :: string
  sb_p_kw :: rat
  sb_q_kvar :: rat
  sb_s_kva :: rat
  sb_current_a :: rat
  sb_loading_pct :: "rat option"

record se_result =
  se_measurements :: nat
  se_states :: nat
  se_redundancy :: rat
  se_objective :: rat
  se_dof :: nat
  se_chi2_ok :: bool
  se_bad_data :: "(meas_kind \<times> string \<times> rat \<times> rat) option"
  se_max_residual :: rat
  se_nodes :: "se_node list"
  se_branches :: "se_branch list"

text \<open>
  The bad-data test works on the squares of the normalized residuals: \<open>r\<^sup>2 / \<Omega>\<close>, or 0 where \<open>\<Omega>\<close> is not
  above the threshold.
\<close>

definition omega :: "meas_row list \<Rightarrow> mat \<Rightarrow> nat \<Rightarrow> rat" where
  "omega rows gi i = 1 / row_w (rows ! i)
     - dot (row_h (rows ! i)) (map (\<lambda>g. g ! i) (matmul gi (mat_transpose (map row_h rows))))"

definition norm_resid_sq :: "meas_row list \<Rightarrow> rat list \<Rightarrow> mat \<Rightarrow> rat list" where
  "norm_resid_sq rows x gi = map (\<lambda>i. let o' = omega rows gi i in
     if tiny < o' then (residuals rows x ! i) ^ 2 / o' else 0) [0..<length rows]"

definition bad_data :: "meas_row list \<Rightarrow> rat list \<Rightarrow> mat \<Rightarrow> (meas_kind \<times> string \<times> rat \<times> rat) option" where
  "bad_data rows x gi = (let nr = norm_resid_sq rows x gi in
     case [0..<length rows] of [] \<Rightarrow> None
     | i # is \<Rightarrow> let b = max_by (nth nr) i is in
         if bad_data_threshold ^ 2 < nr ! b
         then Some (row_kind (rows ! b), row_node (rows ! b), round_sqrt 2 (nr ! b), py_round 3 (residuals rows x ! b)) else None)"

text \<open>
  \<^verbatim>\<open>J <= _chi2_threshold(dof)\<close>: the table, and for other degrees of freedom the cube
  \<open>dof (a + z s) ^ 3\<close> with \<open>s\<^sup>2 = 2 / (9 dof)\<close>, whose root is again compared by its square.
\<close>

definition chi2_table :: "nat \<Rightarrow> rat option" where
  "chi2_table = map_of [(1, 663 / 100), (2, 921 / 100), (3, 1134 / 100), (4, 1328 / 100), (5, 1509 / 100),
     (6, 1681 / 100), (7, 1848 / 100), (8, 2009 / 100), (9, 2167 / 100), (10, 2321 / 100), (12, 2622 / 100),
     (15, 3058 / 100), (20, 3757 / 100)]"

definition chi2_ok :: "nat \<Rightarrow> rat \<Rightarrow> bool" where
  "chi2_ok dof j = (case chi2_table dof of Some v \<Rightarrow> j \<le> v
   | None \<Rightarrow> let s2 = 2 / (9 * of_nat dof); a = 1 - s2; z = 2326 / 1000;
       d = j / of_nat dof - (a ^ 3 + 3 * a * z ^ 2 * s2); b = 3 * a ^ 2 * z + z ^ 3 * s2
     in d \<le> 0 \<or> d ^ 2 \<le> b ^ 2 * s2)"

definition injection :: "radial \<Rightarrow> rat list \<Rightarrow> nat \<Rightarrow> string \<Rightarrow> rat" where
  "injection t x q k = (case state_pos t k of None \<Rightarrow> 0 | Some i \<Rightarrow> x ! (2 * i + q))"

definition flow :: "radial \<Rightarrow> rat list \<Rightarrow> nat \<Rightarrow> string \<Rightarrow> rat" where
  "flow t x q e = sum_list (map (injection t x q) (subtree_of t e))"

definition present :: "rat option \<Rightarrow> rat option" where
  "present v = (case v of Some a \<Rightarrow> if a = 0 then None else v | None \<Rightarrow> None)"

definition se_branch_of :: "radial \<Rightarrow> rat list \<Rightarrow> string \<Rightarrow> grid_edge \<Rightarrow> se_branch" where
  "se_branch_of t x n e = (let p = flow t x 0 (edge_id e); q = flow t x 1 (edge_id e); s2 = p ^ 2 + q ^ 2;
     vll = or_else (nominal_of (rt_nodes t) n) (415 / 1000) * 1000;
     cur2 = s2 * 1000 ^ 2 / (3 * vll ^ 2) in
   \<lparr>sb_edge = edge_id e, sb_from = from_node e, sb_to = to_node e, sb_p_kw = py_round 2 p, sb_q_kvar = py_round 2 q,
    sb_s_kva = round_sqrt 2 s2, sb_current_a = round_sqrt 1 cur2,
    sb_loading_pct = (case (if edge_type e = ''transformer'' then present (rating_kw e) else None) of
        Some r \<Rightarrow> Some (if r < 0 then - round_sqrt 1 (100 ^ 2 * s2 / r ^ 2) else round_sqrt 1 (100 ^ 2 * s2 / r ^ 2))
      | None \<Rightarrow> (case present (ampacity_a e) of
          Some a \<Rightarrow> Some (if a < 0 then - round_sqrt 1 (100 ^ 2 * cur2 / a ^ 2) else round_sqrt 1 (100 ^ 2 * cur2 / a ^ 2))
        | None \<Rightarrow> None))\<rparr>)"

definition se_branches_of :: "radial \<Rightarrow> rat list \<Rightarrow> se_branch list" where
  "se_branches_of t x = fold (\<lambda>n bs. case rt_parent_edge t n of None \<Rightarrow> bs
     | Some e \<Rightarrow> if edge_id e \<in> sb_edge ` set bs then bs else bs @ [se_branch_of t x n e]) (state_nodes t) []"

definition voltage_pu :: "radial \<Rightarrow> rat list \<Rightarrow> string \<Rightarrow> rat" where
  "voltage_pu t x n = foldl (\<lambda>v e. v - (fst (edge_pu t (edge_id e)) * flow t x 0 (edge_id e)
     + snd (edge_pu t (edge_id e)) * flow t x 1 (edge_id e)) / sbase_kw) 1 (path_of t n)"

text \<open>\<open>1 - std / ref\<close> within 0 and 1, at least 0.85 for a measured node, rounded to three digits.\<close>

definition confidence :: "radial \<Rightarrow> mat \<Rightarrow> string \<Rightarrow> bool \<Rightarrow> rat" where
  "confidence t gi n mon = (let h = v_sensitivity_row t n; var = max (dot h (matvec gi h)) 0;
     c = max 0 (min 1 (1 - round_sqrt 3 (var / confidence_ref_pu ^ 2))) in if mon then max c (85 / 100) else c)"

definition monitored :: "(string \<times> meas_values) list \<Rightarrow> string \<Rightarrow> bool" where
  "monitored ms n \<longleftrightarrow> node_meas ms n \<noteq> no_measurement"

definition se_node_of :: "radial \<Rightarrow> (string \<times> meas_values) list \<Rightarrow> rat list \<Rightarrow> mat \<Rightarrow> grid_node \<Rightarrow> se_node" where
  "se_node_of t ms x gi nd = (let n = node_id nd; mon = monitored ms n in
     if n \<notin> set (rt_energized t) then
       \<lparr>se_id = n, se_name = node_name nd, se_type = None, se_energized = False, se_monitored = False,
        se_voltage_pu = None, se_voltage_kv = None, se_p_kw = None, se_q_kvar = None, se_confidence = 0\<rparr>
     else let rt = (n = rt_root t); v = (if rt then 1 else voltage_pu t x n) in
       \<lparr>se_id = n, se_name = node_name nd, se_type = Some (node_type nd), se_energized = True, se_monitored = mon,
        se_voltage_pu = Some (py_round 4 v), se_voltage_kv = Some (py_round 4 (v * or_else (nominal_kv nd) 0)),
        se_p_kw = Some (if rt then 0 else py_round 2 (injection t x 0 n)),
        se_q_kvar = Some (if rt then 0 else py_round 2 (injection t x 1 n)),
        se_confidence = (if rt then 1 else confidence t gi n mon)\<rparr>)"

text \<open>Nothing energized beyond the source.\<close>

definition trivial_node :: "radial \<Rightarrow> grid_node \<Rightarrow> se_node" where
  "trivial_node t nd = (let rt = (node_id nd = rt_root t) in
     \<lparr>se_id = node_id nd, se_name = node_name nd, se_type = Some (node_type nd),
      se_energized = (node_id nd \<in> set (rt_energized t)), se_monitored = False,
      se_voltage_pu = (if rt then Some 1 else None), se_voltage_kv = None, se_p_kw = None, se_q_kvar = None,
      se_confidence = (if rt then 1 else 0)\<rparr>)"

definition estimate :: "grid_node list \<Rightarrow> grid_edge list \<Rightarrow> (string \<times> meas_values) list \<Rightarrow> se_result result" where
  "estimate ns es ms = bindR (build_radial ns es) (\<lambda>t.
     if n_states t = 0 then Inr \<lparr>se_measurements = 0, se_states = 0, se_redundancy = 0, se_objective = 0, se_dof = 0,
       se_chi2_ok = True, se_bad_data = None, se_max_residual = 0, se_nodes = map (trivial_node t) ns, se_branches = []\<rparr>
     else let rows = meas_rows t ms; n = n_states t in
       bindR (wls rows) (\<lambda>(x, gi).
         let j = objective rows x; dof = max (length rows - n) 1; nr = norm_resid_sq rows x gi in
         Inr \<lparr>se_measurements = length rows, se_states = n, se_redundancy = py_round 2 (of_nat (length rows) / of_nat n),
           se_objective = py_round 3 j, se_dof = dof, se_chi2_ok = chi2_ok dof j, se_bad_data = bad_data rows x gi,
           se_max_residual = round_sqrt 2 (foldl max 0 nr),
           se_nodes = map (se_node_of t ms x gi) ns, se_branches = se_branches_of t x\<rparr>))"


subsection \<open>The measurement rows\<close>

lemma bump_length [simp]: "length (bump i d row) = length row"
  by (simp add: bump_def)

text \<open>One edge adds to a row its impedance at the entries of its subtree.\<close>

definition add_edge :: "radial \<Rightarrow> grid_edge \<Rightarrow> rat list \<Rightarrow> rat list" where
  "add_edge t e row = (let (r, x) = edge_pu t (edge_id e) in
     fold (\<lambda>k row. case state_pos t k of None \<Rightarrow> row
       | Some i \<Rightarrow> bump (2 * i + 1) (x / sbase_kw) (bump (2 * i) (r / sbase_kw) row)) (subtree_of t (edge_id e)) row)"

lemma v_sensitivity_fold: "v_sensitivity_row t n = fold (add_edge t) (path_of t n) (replicate (n_states t) 0)"
  by (simp add: v_sensitivity_row_def add_edge_def [abs_def])

lemma add_edge_length [simp]: "length (add_edge t e row) = length row"
proof -
  have "length (fold (\<lambda>k row. case state_pos t k of None \<Rightarrow> row
      | Some i \<Rightarrow> bump (2 * i + 1) x (bump (2 * i) r row)) ks row) = length row" for ks r x
    by (induction ks arbitrary: row) (auto split: option.split)
  then show ?thesis by (simp add: add_edge_def split: prod.split)
qed

lemma v_sensitivity_length [simp]: "length (v_sensitivity_row t n) = n_states t"
proof -
  have "length (fold (add_edge t) es row) = length row" for es row
    by (induction es arbitrary: row) auto
  then show ?thesis by (simp add: v_sensitivity_fold)
qed

lemma mk_row_simps [simp]:
  "row_h (mk_row k n h z s) = h" "row_z (mk_row k n h z s) = z" "row_w (mk_row k n h z s) = 1 / s ^ 2"
  by (simp_all add: mk_row_def)

lemma meas_rows_design:
  assumes "n_states t \<noteq> 0"
  shows "design (n_states t) (meas_rows t ms)"
proof -
  let ?N = "state_nodes t"
  have mem: "set (node_rows t ms i (?N ! i)) \<subseteq> set (meas_rows t ms)" if "i < length ?N" for i
  proof -
    have "(i, ?N ! i) \<in> set (zip [0..<length ?N] ?N)" using that by (auto simp: in_set_zip intro!: exI [of _ i])
    then show ?thesis by (force simp: meas_rows_def)
  qed
  have own: "\<exists>r\<in>set (meas_rows t ms). row_h r = unit_row (n_states t) c \<and> 1 / 900 \<le> row_w r" if c: "c < n_states t" for c
  proof -
    let ?i = "c div 2"
    have i: "?i < length ?N" using c by (simp add: n_states_def)
    have c2: "c = 2 * ?i \<or> c = 2 * ?i + 1" by presburger
    let ?p = "mk_row Pseudo_P (?N ! ?i) (unit_row (n_states t) (2 * ?i)) (fst (base_loads t (?N ! ?i))) sigma_p_pseudo_kw"
    let ?q = "mk_row Pseudo_Q (?N ! ?i) (unit_row (n_states t) (2 * ?i + 1)) (snd (base_loads t (?N ! ?i))) sigma_q_pseudo_kvar"
    have "{?p, ?q} \<subseteq> set (node_rows t ms ?i (?N ! ?i))" by (simp add: node_rows_def Let_def)
    then have pq: "?p \<in> set (meas_rows t ms)" "?q \<in> set (meas_rows t ms)" using mem [OF i] by blast+
    have "1 / 900 \<le> row_w ?p" "1 / 900 \<le> row_w ?q" by (simp_all add: sigma_p_pseudo_kw_def sigma_q_pseudo_kvar_def)
    moreover have "row_h ?p = unit_row (n_states t) c \<or> row_h ?q = unit_row (n_states t) c" using c2 by (auto simp del: div_mult_self1_is_m)
    ultimately show ?thesis using pq by blast
  qed
  have "0 < n_states t" using assms by simp
  then have "meas_rows t ms \<noteq> []" using own by fastforce
  moreover have "\<forall>r\<in>set (meas_rows t ms). length (row_h r) = n_states t \<and> 0 \<le> row_w r"
    by (auto simp: meas_rows_def node_rows_def Let_def unit_row_def split: option.splits)
  moreover have "\<exists>k<length (meas_rows t ms). row_h (meas_rows t ms ! k) = unit_row (n_states t) i \<and> 1 / 900 \<le> row_w (meas_rows t ms ! k)"
    if "i < n_states t" for i using own [OF that] by (auto simp: in_set_conv_nth)
  ultimately show ?thesis by (auto simp: design_def)
qed

text \<open>The row of a voltage measurement and the voltage of the report are the same linear model.\<close>

lemma dot_bump:
  assumes "i < length row" "length x = length row"
  shows "dot (bump i d row) x = dot row x + d * x ! i"
proof -
  have "dot (bump i d row) x = (\<Sum>j<length row. row ! j * x ! j + (if j = i then d * x ! i else 0))"
    using assms by (auto simp: dot_sum [of _ "length row"] bump_def nth_list_update algebra_simps intro!: sum.cong)
  then show ?thesis using assms by (simp add: sum.distrib dot_sum [of _ "length row"])
qed

lemma state_pos_range: "state_pos t k = Some i \<Longrightarrow> 2 * i + 1 < n_states t"
proof -
  assume "state_pos t k = Some i"
  then have "(k, i) \<in> set (zip (state_nodes t) [0..<length (state_nodes t)])" by (simp add: state_pos_def map_of_SomeD)
  then show ?thesis by (auto simp: n_states_def dest!: set_zip_rightD)
qed

lemma dot_add_edge:
  assumes "length row = n_states t" "length x = n_states t"
  shows "dot (add_edge t e row) x = dot row x
    + (fst (edge_pu t (edge_id e)) * flow t x 0 (edge_id e) + snd (edge_pu t (edge_id e)) * flow t x 1 (edge_id e)) / sbase_kw"
proof -
  obtain r z where rz: "edge_pu t (edge_id e) = (r, z)" by fastforce
  have "dot (fold (\<lambda>k row. case state_pos t k of None \<Rightarrow> row
      | Some i \<Rightarrow> bump (2 * i + 1) (z / sbase_kw) (bump (2 * i) (r / sbase_kw) row)) ks row) x = dot row x
    + (r * sum_list (map (injection t x 0) ks) + z * sum_list (map (injection t x 1) ks)) / sbase_kw" for ks
    using assms(1)
  proof (induction ks arbitrary: row)
    case (Cons k ks)
    show ?case
    proof (cases "state_pos t k")
      case None
      then show ?thesis using Cons by (simp add: injection_def)
    next
      case (Some i)
      have i: "2 * i + 1 < n_states t" using state_pos_range [OF Some] .
      have "dot (bump (2 * i + 1) (z / sbase_kw) (bump (2 * i) (r / sbase_kw) row)) x
          = dot row x + r / sbase_kw * x ! (2 * i) + z / sbase_kw * x ! (2 * i + 1)"
        using i Cons.prems assms(2) by (simp add: dot_bump)
      then show ?thesis using Cons Some by (simp add: injection_def algebra_simps add_divide_distrib)
    qed
  qed simp
  then show ?thesis by (simp add: add_edge_def rz flow_def)
qed

lemma dot_zeros [simp]: "dot (replicate n 0) x = 0"
proof -
  have "sum_list (map (\<lambda>(a, b). a * b) (zip (replicate n 0) x)) = (0 :: rat)"
    by (induction x arbitrary: n) (simp, case_tac n, auto)
  then show ?thesis by (simp add: dot_def)
qed


text \<open>
  C25: the estimator always returns an estimate, whatever was metered, and it is the optimal one. On a
  network with a source and no dangling closed edge, the pseudo measurements keep the normal equations
  above the pivot threshold, so neither elimination raises. The injections behind the report are the
  only ones with the least weighted squared residual.
\<close>

theorem estimate_optimal:
  assumes "build_radial ns es = Inr t" "n_states t \<le> 10 ^ 9"
  shows "\<exists>r. estimate ns es ms = Inr r \<and> length (se_nodes r) = length ns \<and>
    (0 < n_states t \<longrightarrow> (\<exists>x gi. length x = n_states t \<and> se_nodes r = map (se_node_of t ms x gi) ns \<and>
       se_branches r = se_branches_of t x \<and> se_objective r = py_round 3 (objective (meas_rows t ms) x) \<and>
       (\<forall>y. length y = n_states t \<longrightarrow> objective (meas_rows t ms) x \<le> objective (meas_rows t ms) y \<and>
          (objective (meas_rows t ms) y = objective (meas_rows t ms) x \<longrightarrow> y = x))))"
proof (cases "n_states t = 0")
  case True
  then show ?thesis by (simp add: estimate_def assms(1))
next
  case False
  obtain x gi where "wls (meas_rows t ms) = Inr (x, gi)" "length x = n_states t"
    "\<And>y. length y = n_states t \<Longrightarrow> objective (meas_rows t ms) x \<le> objective (meas_rows t ms) y \<and>
       (objective (meas_rows t ms) y = objective (meas_rows t ms) x \<longrightarrow> y = x)"
    using wls_best [OF meas_rows_design [OF False] assms(2)] by blast
  then show ?thesis using False by (auto simp: estimate_def assms(1) Let_def)
qed

text \<open>
  The voltages of the report are those the measurements were fitted to: for every injection vector
  the reported voltage of a node is one minus the product of the row its voltage measurement
  contributes, so the residual of that measurement is the reported voltage less the measured one.
\<close>

theorem estimate_voltage_model:
  assumes "length x = n_states t"
  shows "voltage_pu t x n = 1 - dot (v_sensitivity_row t n) x"
proof -
  have "foldl (\<lambda>v e. v - (fst (edge_pu t (edge_id e)) * flow t x 0 (edge_id e)
      + snd (edge_pu t (edge_id e)) * flow t x 1 (edge_id e)) / sbase_kw) (1 - dot row x) es
      = 1 - dot (fold (add_edge t) es row) x" if "length row = n_states t" for row es
    using that
  proof (induction es arbitrary: row)
    case (Cons e es)
    then show ?case using Cons.IH [of "add_edge t e row"] dot_add_edge [OF Cons.prems assms, of e] by (simp add: diff_diff_eq)
  qed simp
  from this [of "replicate (n_states t) 0" "path_of t n"] show ?thesis
    by (simp add: voltage_pu_def v_sensitivity_fold)
qed

text \<open>A feeder of one line and one meter that reads a low voltage.\<close>

definition line_nodes :: "grid_node list" where
  "line_nodes = [(mk_node ''S'' ''substation'' None)\<lparr>nominal_kv := Some 1\<rparr>,
     (mk_node ''M'' ''meter'' (Some ''S''))\<lparr>nominal_kv := Some 1, base_load_kw := 90, base_load_kvar := 40\<rparr>]"

definition line_edges :: "grid_edge list" where
  "line_edges = [(mk_edge ''L'' ''S'' ''M'' ''line'' True)\<lparr>resistance_r_ohm := Some (1 / 2), reactance_x_ohm := Some (1 / 4)\<rparr>]"

definition line_meas :: "(string \<times> meas_values) list" where
  "line_meas = [(''M'', no_measurement\<lparr>meas_voltage_pu := Some (94 / 100)\<rparr>)]"


theorem estimate_optimal_witness:
  "\<exists>r. estimate line_nodes line_edges line_meas = Inr r \<and> length (se_nodes r) = 2 \<and>
     (\<exists>x. length x = 2 \<and> (\<exists>t. se_branches r = se_branches_of t x))"
proof -
  have "map_sum id n_states (build_radial line_nodes line_edges) = Inr 2" by code_simp
  then obtain t where t: "build_radial line_nodes line_edges = Inr t" "n_states t = 2"
    by (cases "build_radial line_nodes line_edges") auto
  have "length line_nodes = 2" by (simp add: line_nodes_def)
  with estimate_optimal [OF t(1), of line_meas] t(2) show ?thesis by force
qed

theorem estimate_voltage_model_witness:
  "\<exists>t. build_radial line_nodes line_edges = Inr t \<and> voltage_pu t [90, 40] ''M'' = 1 - dot (v_sensitivity_row t ''M'') [90, 40]"
proof -
  have "map_sum id n_states (build_radial line_nodes line_edges) = Inr 2" by code_simp
  then obtain t where t: "build_radial line_nodes line_edges = Inr t" "n_states t = 2"
    by (cases "build_radial line_nodes line_edges") auto
  then show ?thesis using estimate_voltage_model [of "[90, 40]" t "''M''"] by auto
qed

end
