(* ===== verification/Power_Flow.thy ===== *)
theory Power_Flow
  imports State_Estimation
begin

text \<open>
  The three-phase backward/forward sweep, \<^verbatim>\<open>solve\<close> of \<^verbatim>\<open>src/fastapi/dms/powerflow.py\<close>. Complex
  numbers are pairs of exact rationals; a magnitude is the root of the square, rounded to fifteen
  decimals. The phase angles of the report, which no other code reads, are left out.
\<close>

subsection \<open>Complex numbers\<close>

type_synonym cx = "rat \<times> rat"

definition cx_add :: "cx \<Rightarrow> cx \<Rightarrow> cx" where "cx_add a b = (fst a + fst b, snd a + snd b)"
definition cx_sub :: "cx \<Rightarrow> cx \<Rightarrow> cx" where "cx_sub a b = (fst a - fst b, snd a - snd b)"
definition cx_mul :: "cx \<Rightarrow> cx \<Rightarrow> cx" where "cx_mul a b = (fst a * fst b - snd a * snd b, fst a * snd b + snd a * fst b)"
definition cx_cnj :: "cx \<Rightarrow> cx" where "cx_cnj a = (fst a, - snd a)"
definition cx_sq :: "cx \<Rightarrow> rat" where "cx_sq a = fst a ^ 2 + snd a ^ 2"
definition cx_scale :: "rat \<Rightarrow> cx \<Rightarrow> cx" where "cx_scale k a = (k * fst a, k * snd a)"

text \<open>Division by a number other than zero.\<close>

definition cx_div :: "cx \<Rightarrow> cx \<Rightarrow> cx" where "cx_div a b = cx_scale (1 / cx_sq b) (cx_mul a (cx_cnj b))"

definition root15 :: "rat \<Rightarrow> rat" where "root15 q = round_sqrt 15 q"
definition cx_abs :: "cx \<Rightarrow> rat" where "cx_abs a = root15 (cx_sq a)"

subsection \<open>Phases and loads\<close>

definition slack :: "char \<Rightarrow> cx" where
  "slack p = (if p = CHR ''a'' then (1, 0) else if p = CHR ''b'' then (- 1 / 2, - root15 (3 / 4)) else (- 1 / 2, root15 (3 / 4)))"

definition phase_set :: "string \<Rightarrow> char list" where
  "phase_set s = filter (\<lambda>p. p \<in> set (to_lower (if s = [] then ''ABC'' else s))) ''abc''"

definition node_phase_set :: "grid_node list \<Rightarrow> string \<Rightarrow> char list" where
  "node_phase_set ns n = (case find (\<lambda>x. node_id x = n) ns of None \<Rightarrow> [] | Some x \<Rightarrow> phase_set (node_phases x))"

text \<open>\<open>loads[node][phase]\<close>, kW and kvar\<close>

type_synonym pf_loads = "(string \<times> (char \<times> cx) list) list"
type_synonym volts = "((string \<times> char) \<times> cx) list"

definition pf_tol :: rat where "pf_tol = 1 / 10 ^ 6"
definition pf_max_iter :: nat where "pf_max_iter = 100"
definition v_min_pu :: rat where "v_min_pu = 95 / 100"
definition v_max_pu :: rat where "v_max_pu = 105 / 100"

subsection \<open>One iteration\<close>

definition load_at :: "pf_loads \<Rightarrow> string \<Rightarrow> char \<Rightarrow> cx option" where
  "load_at loads n p = map_of (dict_get loads n []) p"

text \<open>\<open>conj (S / V)\<close>; a voltage of zero falls back to the slack's.\<close>

definition load_current :: "pf_loads \<Rightarrow> volts \<Rightarrow> string \<Rightarrow> char \<Rightarrow> cx" where
  "load_current loads V n p = (case load_at loads n p of None \<Rightarrow> (0, 0)
     | Some s \<Rightarrow> let v = dict_get V (n, p) (slack p); vp = (if v = (0, 0) then slack p else v)
         in cx_cnj (cx_div (cx_scale (3 / sbase_kw) s) vp))"

definition branch_phases :: "grid_node list \<Rightarrow> string \<Rightarrow> grid_edge \<Rightarrow> char list" where
  "branch_phases ns n e = filter (\<lambda>p. p \<in> set (phase_set (edge_phases e))) (node_phase_set ns n)"

text \<open>The current of the edge that feeds \<open>n\<close>: the load currents of its subtree.\<close>

definition branch_current :: "radial \<Rightarrow> pf_loads \<Rightarrow> volts \<Rightarrow> string \<Rightarrow> grid_edge \<Rightarrow> char \<Rightarrow> cx" where
  "branch_current t loads V n e p = (if p \<notin> set (branch_phases (rt_nodes t) n e) then (0, 0) else
     foldl (\<lambda>a k. if p \<in> set (node_phase_set (rt_nodes t) k) then cx_add a (load_current loads V k p) else a)
       (0, 0) (subtree_of t (edge_id e)))"

definition far_end :: "grid_edge \<Rightarrow> string \<Rightarrow> string" where
  "far_end e n = (if to_node e = n then from_node e else to_node e)"

text \<open>The voltage a node gets in the forward sweep, from its parent's.\<close>

definition dropped :: "radial \<Rightarrow> pf_loads \<Rightarrow> volts \<Rightarrow> volts \<Rightarrow> string \<Rightarrow> grid_edge \<Rightarrow> char \<Rightarrow> cx" where
  "dropped t loads W V n e p = cx_sub (dict_get V (far_end e n, p) (slack p))
     (cx_mul (edge_pu t (edge_id e)) (branch_current t loads W n e p))"

definition sweep_phase :: "radial \<Rightarrow> pf_loads \<Rightarrow> volts \<Rightarrow> string \<Rightarrow> grid_edge \<Rightarrow> char \<Rightarrow> volts \<times> rat \<Rightarrow> volts \<times> rat" where
  "sweep_phase t loads W n e p S = (let (V, mm) = S; v = dropped t loads W V n e p in
     (dict_put (n, p) v V, max mm (cx_abs (cx_sub v (dict_get V (n, p) (slack p))))))"

definition sweep_node :: "radial \<Rightarrow> pf_loads \<Rightarrow> volts \<Rightarrow> string \<Rightarrow> volts \<times> rat \<Rightarrow> volts \<times> rat" where
  "sweep_node t loads W n S = (if n = rt_root t then S else case rt_parent_edge t n of None \<Rightarrow> S
     | Some e \<Rightarrow> fold (sweep_phase t loads W n e) (node_phase_set (rt_nodes t) n) S)"

text \<open>The currents are those at the voltages the iteration starts from.\<close>

definition sweep :: "radial \<Rightarrow> pf_loads \<Rightarrow> volts \<Rightarrow> volts \<times> rat" where
  "sweep t loads W = fold (sweep_node t loads W) (rt_order t) (W, 0)"

record pf_state =
  pf_converged :: bool
  pf_iterations :: nat
  pf_volts :: volts
  pf_before :: volts
  pf_mismatch :: rat

fun pf_loop :: "radial \<Rightarrow> pf_loads \<Rightarrow> nat \<Rightarrow> pf_state \<Rightarrow> pf_state" where
  "pf_loop t loads 0 s = s"
| "pf_loop t loads (Suc k) s = (let (V, mm) = sweep t loads (pf_volts s);
     s' = \<lparr>pf_converged = (mm < pf_tol), pf_iterations = Suc (pf_iterations s), pf_volts = V,
           pf_before = pf_volts s, pf_mismatch = mm\<rparr>
     in if mm < pf_tol then s' else pf_loop t loads k s')"

definition flat_start :: "radial \<Rightarrow> volts" where
  "flat_start t = concat (map (\<lambda>n. map (\<lambda>p. ((n, p), slack p)) (node_phase_set (rt_nodes t) n)) (rt_energized t))"

definition pf_run :: "radial \<Rightarrow> pf_loads \<Rightarrow> pf_state" where
  "pf_run t loads = pf_loop t loads pf_max_iter
     \<lparr>pf_converged = False, pf_iterations = 0, pf_volts = flat_start t, pf_before = flat_start t, pf_mismatch = 0\<rparr>"

subsection \<open>The report\<close>

datatype violation = Voltage_violation string char rat | Thermal_violation string rat

record pf_node =
  pn_id :: string
  pn_name :: "string option"
  pn_type :: "string option"
  pn_energized :: bool
  pn_phases :: "(char \<times> rat \<times> rat) list"
  pn_min_pu :: "rat option"
  pn_avg_pu :: "rat option"
  pn_unbalance :: "rat option"

record pf_branch =
  pb_edge :: string
  pb_from :: string
  pb_to :: string
  pb_type :: string
  pb_phases :: "(char \<times> rat \<times> rat) list"
  pb_s_kva :: rat
  pb_loss_kw :: rat
  pb_loading :: "rat option"
  pb_basis :: "string option"

record pf_result =
  pr_converged :: bool
  pr_iterations :: nat
  pr_mismatch :: rat
  pr_loss_kw :: rat
  pr_violations :: "violation list"
  pr_nodes :: "pf_node list"
  pr_branches :: "pf_branch list"

definition sqrt3 :: rat where "sqrt3 = root15 3"

definition kv_of :: "grid_node list \<Rightarrow> string \<Rightarrow> rat" where
  "kv_of ns n = or_else (nominal_of ns n) (415 / 1000)"

definition mags_of :: "radial \<Rightarrow> volts \<Rightarrow> string \<Rightarrow> (char \<times> rat) list" where
  "mags_of t V n = map (\<lambda>p. (p, cx_abs (dict_get V (n, p) (slack p)))) (node_phase_set (rt_nodes t) n)"

definition node_violations :: "string \<Rightarrow> (char \<times> rat) list \<Rightarrow> violation list" where
  "node_violations n ms = map (\<lambda>(p, m). Voltage_violation n p (py_round 4 m)) (filter (\<lambda>(p, m). m < v_min_pu \<or> v_max_pu < m) ms)"

definition rats_sum :: "rat list \<Rightarrow> rat" where "rats_sum xs = sum_list xs"

definition pf_node_of :: "radial \<Rightarrow> volts \<Rightarrow> grid_node \<Rightarrow> pf_node" where
  "pf_node_of t V nd = (let n = node_id nd in
     if n \<notin> set (rt_energized t) then
       \<lparr>pn_id = n, pn_name = node_name nd, pn_type = None, pn_energized = False, pn_phases = [],
        pn_min_pu = None, pn_avg_pu = None, pn_unbalance = None\<rparr>
     else let ms = mags_of t V n; base = or_else (nominal_kv nd) (415 / 1000) * 1000 / sqrt3; mags = map snd ms;
          avg = rats_sum mags / of_nat (length mags) in
       \<lparr>pn_id = n, pn_name = node_name nd, pn_type = Some (node_type nd), pn_energized = True,
        pn_phases = map (\<lambda>(p, m). (p, py_round 4 m, py_round 1 (m * base))) ms,
        pn_min_pu = (case mags of [] \<Rightarrow> None | m # r \<Rightarrow> Some (py_round 4 (foldl min m r))),
        pn_avg_pu = (if mags = [] then None else Some (py_round 4 avg)),
        pn_unbalance = (if length mags = 3 \<and> avg \<noteq> 0
          then Some (py_round 2 (100 * foldl max 0 (map (\<lambda>m. \<bar>m - avg\<bar>) mags) / avg)) else None)\<rparr>)"

definition node_all_violations :: "radial \<Rightarrow> volts \<Rightarrow> grid_node \<Rightarrow> violation list" where
  "node_all_violations t V nd = (if node_id nd \<notin> set (rt_energized t) then []
     else node_violations (node_id nd) (mags_of t V (node_id nd)))"

text \<open>The flow of one branch; its loss is \<open>I\<^sup>2 R\<close> over its phases, before rounding.\<close>

definition branch_flow :: "radial \<Rightarrow> pf_loads \<Rightarrow> pf_state \<Rightarrow> string \<Rightarrow> grid_edge \<Rightarrow> pf_branch \<times> rat" where
  "branch_flow t loads s n e = (let kv = kv_of (rt_nodes t) n; r_ohm = or_else (resistance_r_ohm e) 0;
     ps = branch_phases (rt_nodes t) n e;
     amps = map (\<lambda>p. cx_abs (branch_current t loads (pf_before s) n e p) * sbase_kw / (sqrt3 * kv)) ps;
     kvas = map (\<lambda>p. cx_abs (cx_mul (dict_get (pf_volts s) (n, p) (slack p))
                (cx_cnj (branch_current t loads (pf_before s) n e p))) * (sbase_kw / 3)) ps;
     s_total = rats_sum kvas; loss = rats_sum (map (\<lambda>i. i ^ 2 * r_ohm / 1000) amps);
     ld = (case (if edge_type e = ''transformer'' then present (rating_kw e) else None) of
         Some r \<Rightarrow> Some (py_round 1 (100 * s_total / r), ''rating_kva'')
       | None \<Rightarrow> (case present (ampacity_a e) of
           Some a \<Rightarrow> Some (py_round 1 (100 * foldl max 0 amps / a), ''ampacity'') | None \<Rightarrow> None)) in
   (\<lparr>pb_edge = edge_id e, pb_from = from_node e, pb_to = to_node e, pb_type = edge_type e,
     pb_phases = zip ps (zip (map (py_round 1) amps) (map (py_round 2) kvas)),
     pb_s_kva = py_round 2 s_total, pb_loss_kw = py_round 3 loss,
     pb_loading = map_option fst ld, pb_basis = map_option snd ld\<rparr>, loss))"

definition thermal_violations :: "pf_branch \<Rightarrow> violation list" where
  "thermal_violations b = (case pb_loading b of Some l \<Rightarrow> if 100 < l then [Thermal_violation (pb_edge b) l] else [] | None \<Rightarrow> [])"

definition pf_flows :: "radial \<Rightarrow> pf_loads \<Rightarrow> pf_state \<Rightarrow> (pf_branch \<times> rat) list" where
  "pf_flows t loads s = concat (map (\<lambda>n. if n = rt_root t then [] else
     case rt_parent_edge t n of None \<Rightarrow> [] | Some e \<Rightarrow> [branch_flow t loads s n e]) (rt_order t))"

definition pf_solve :: "grid_node list \<Rightarrow> grid_edge list \<Rightarrow> pf_loads \<Rightarrow> pf_result result" where
  "pf_solve ns es loads = bindR (build_radial ns es) (\<lambda>t. let s = pf_run t loads; fl = pf_flows t loads s in
     Inr \<lparr>pr_converged = pf_converged s, pr_iterations = pf_iterations s, pr_mismatch = py_round 9 (pf_mismatch s),
          pr_loss_kw = py_round 3 (rats_sum (map snd fl)),
          pr_violations = concat (map (node_all_violations t (pf_volts s)) ns) @ concat (map (thermal_violations \<circ> fst) fl),
          pr_nodes = map (pf_node_of t (pf_volts s)) ns, pr_branches = map fst fl\<rparr>)"


subsection \<open>What a converged solution satisfies\<close>

text \<open>Parents come before their children in the order of the walk.\<close>

fun parent_before :: "string \<Rightarrow> parents \<Rightarrow> string set \<Rightarrow> string list \<Rightarrow> bool" where
  "parent_before rt par K [] \<longleftrightarrow> True"
| "parent_before rt par K (n # ns) \<longleftrightarrow> (n = rt \<or> (\<exists>p e. map_of par n = Some (p, e) \<and> p \<in> K)) \<and> parent_before rt par (insert n K) ns"

lemma paths_in_parent_before:
  "paths_in rt par ns ps = Inr qs \<Longrightarrow> fst ` set ps \<subseteq> K \<Longrightarrow> rt \<in> K \<Longrightarrow> parent_before rt par K ns"
proof (induction rt par ns ps arbitrary: K rule: paths_in.induct)
  case (2 rt par n ns ps)
  show ?case
  proof (cases "n = rt")
    case True
    then have "insert n K = K" using 2(5) by auto
    then show ?thesis using 2 True by simp
  next
    case False
    with "2.prems"(1) obtain p e xs where m: "map_of par n = Some (p, e)" "map_of ps p = Some xs"
      "paths_in rt par ns (dict_put n (xs @ [e]) ps) = Inr qs"
      by (auto split: option.splits prod.splits)
    then have "p \<in> K" using 2(4) by (force dest: map_of_SomeD)
    moreover have "parent_before rt par (insert n K) ns"
      using "2.IH"(2) [OF False m(1) refl m(2,3), of "insert n K"] 2(4,5) by (auto simp: dom_dict_put)
    ultimately show ?thesis using m(1) by simp
  qed
qed simp

lemma build_radial_parent_before:
  assumes "build_radial ns es = Inr t"
  shows "parent_before (rt_root t) (rt_parents t) {rt_root t} (rt_order t)"
  using assms by (auto simp: build_radial_def Let_def bindR_eq_Inr split: list.splits prod.splits intro: paths_in_parent_before)

lemma far_end_parent:
  assumes "build_radial ns es = Inr t" "map_of (rt_parents t) n = Some (p, e)"
  shows "far_end e n = p"
proof -
  have "(n, p, e) \<in> set (rt_parents t)" using assms(2) by (rule map_of_SomeD)
  then have "(p, n, e) \<in> set (labelled_arcs (filter is_closed es))"
    using build_radial_walk(1) [OF assms(1)] by (auto simp: tree_inv_def)
  then show ?thesis by (auto simp: labelled_arcs_iff far_end_def)
qed

lemma phase_set_distinct: "distinct (node_phase_set ns n)"
  by (auto simp: node_phase_set_def phase_set_def split: option.split)

text \<open>The sweep of one node writes its own phases only.\<close>

lemma sweep_phases_other:
  "m \<noteq> n \<Longrightarrow> map_of (fst (fold (sweep_phase t loads W n e) ps S)) (m, q) = map_of (fst S) (m, q)"
  by (induction ps arbitrary: S) (auto simp: sweep_phase_def Let_def split: prod.split)

lemma sweep_phases_own:
  "q \<notin> set ps \<Longrightarrow> map_of (fst (fold (sweep_phase t loads W n e) ps S)) (n, q) = map_of (fst S) (n, q)"
  by (induction ps arbitrary: S) (auto simp: sweep_phase_def Let_def split: prod.split)

lemma sweep_phases_grow: "snd S \<le> snd (fold (sweep_phase t loads W n e) ps S)"
proof (induction ps arbitrary: S)
  case (Cons p ps)
  have "snd S \<le> snd (sweep_phase t loads W n e p S)" by (simp add: sweep_phase_def Let_def split: prod.split)
  then show ?case using Cons [of "sweep_phase t loads W n e p S"] by simp
qed simp

lemma dict_get_cong: "map_of V k = map_of V' k \<Longrightarrow> dict_get V k d = dict_get V' k d"
  by (simp add: dict_get_def)

lemma sweep_phases_set:
  assumes "distinct ps" "q \<in> set ps" "far_end e n \<noteq> n"
  shows "map_of (fst (fold (sweep_phase t loads W n e) ps S)) (n, q) = Some (dropped t loads W (fst S) n e q) \<and>
    cx_abs (cx_sub (dropped t loads W (fst S) n e q) (dict_get (fst S) (n, q) (slack q))) \<le> snd (fold (sweep_phase t loads W n e) ps S)"
  using assms(1,2)
proof (induction ps arbitrary: S)
  case (Cons p ps)
  let ?S = "sweep_phase t loads W n e p S"
  have same: "dropped t loads W (fst ?S) n e q = dropped t loads W (fst S) n e q"
    using assms(3) by (auto simp: dropped_def sweep_phase_def Let_def dict_get_def split: prod.split)
  show ?case
  proof (cases "q = p")
    case True
    have "map_of (fst (fold (sweep_phase t loads W n e) ps ?S)) (n, q) = map_of (fst ?S) (n, q)"
      using Cons.prems True by (intro sweep_phases_own) simp
    moreover have "map_of (fst ?S) (n, q) = Some (dropped t loads W (fst S) n e q)"
      by (simp add: sweep_phase_def Let_def True split: prod.split)
    moreover have "cx_abs (cx_sub (dropped t loads W (fst S) n e q) (dict_get (fst S) (n, q) (slack q))) \<le> snd ?S"
      by (simp add: sweep_phase_def Let_def True split: prod.split)
    ultimately show ?thesis using sweep_phases_grow [of ?S t loads W n e ps] by simp
  next
    case False
    have "dict_get (fst ?S) (n, q) (slack q) = dict_get (fst S) (n, q) (slack q)"
      using False by (auto simp: sweep_phase_def Let_def dict_get_def split: prod.split)
    then show ?thesis using Cons.IH [of ?S] Cons.prems False same by simp
  qed
qed simp


text \<open>The voltage of every phase of a node is its parent's less the drop, and moved by at most the mismatch.\<close>

definition balanced :: "radial \<Rightarrow> pf_loads \<Rightarrow> volts \<Rightarrow> volts \<Rightarrow> rat \<Rightarrow> string \<Rightarrow> bool" where
  "balanced t loads W V mm n \<longleftrightarrow> (\<forall>p e. map_of (rt_parents t) n = Some (p, e) \<longrightarrow>
     (\<forall>q\<in>set (node_phase_set (rt_nodes t) n). map_of V (n, q) = Some (dropped t loads W V n e q) \<and>
        cx_abs (cx_sub (dropped t loads W V n e q) (dict_get W (n, q) (slack q))) \<le> mm))"

lemma dropped_cong:
  "map_of V (far_end e n, q) = map_of V' (far_end e n, q) \<Longrightarrow> dropped t loads W V n e q = dropped t loads W V' n e q"
  by (simp add: dropped_def dict_get_def)

lemma balanced_kept:
  assumes "balanced t loads W V mm m" "mm \<le> mm'" "build_radial ns es = Inr t"
    "\<And>q. map_of V' (m, q) = map_of V (m, q)"
    "\<And>p e q. map_of (rt_parents t) m = Some (p, e) \<Longrightarrow> map_of V' (p, q) = map_of V (p, q)"
  shows "balanced t loads W V' mm' m"
proof -
  have d: "dropped t loads W V' m e q = dropped t loads W V m e q" if e: "map_of (rt_parents t) m = Some (p, e)" for p e q
    using dropped_cong [of V' e m q V] assms(5) [OF e] far_end_parent [OF assms(3) e] by simp
  show ?thesis unfolding balanced_def
    using assms(1,2) by (auto simp: balanced_def assms(4) d intro: order_trans)
qed

lemma sweep_node_balanced:
  assumes "build_radial ns es = Inr t" "map_of (rt_parents t) n = Some (p, e)" "n \<noteq> rt_root t" "p \<noteq> n"
    "\<And>q. map_of V (n, q) = map_of W (n, q)"
  shows "balanced t loads W (fst (sweep_node t loads W n (V, mm))) (snd (sweep_node t loads W n (V, mm))) n"
proof -
  let ?ps = "node_phase_set (rt_nodes t) n"
  let ?S = "fold (sweep_phase t loads W n e) ?ps (V, mm)"
  have S: "sweep_node t loads W n (V, mm) = ?S" using assms(2,3) by (simp add: sweep_node_def rt_parent_edge_def)
  have f: "far_end e n \<noteq> n" using far_end_parent [OF assms(1,2)] assms(4) by simp
  have d: "dropped t loads W (fst ?S) n e q = dropped t loads W V n e q" for q
    using f sweep_phases_other [of "far_end e n" n t loads W e ?ps "(V, mm)" q] by (intro dropped_cong) simp
  have w: "dict_get V (n, q) (slack q) = dict_get W (n, q) (slack q)" for q using assms(5) by (simp add: dict_get_def)
  show ?thesis unfolding balanced_def S
    using sweep_phases_set [OF phase_set_distinct _ f, of _ "rt_nodes t" n t loads W "(V, mm)"] assms(2) d w by auto
qed

lemma sweep_node_other: "m \<noteq> n \<Longrightarrow> map_of (fst (sweep_node t loads W n S)) (m, q) = map_of (fst S) (m, q)"
  by (auto simp: sweep_node_def sweep_phases_other split: option.split)

lemma sweep_node_grow: "snd S \<le> snd (sweep_node t loads W n S)"
  by (auto simp: sweep_node_def sweep_phases_grow split: option.split)

lemma sweep_nodes_balanced:
  assumes b: "build_radial ns es = Inr t"
  shows "parent_before (rt_root t) (rt_parents t) K xs \<Longrightarrow> distinct xs \<Longrightarrow> (\<forall>n\<in>set xs. n \<noteq> rt_root t \<longrightarrow> n \<notin> K) \<Longrightarrow> rt_root t \<in> K \<Longrightarrow>
    (\<forall>m\<in>K - {rt_root t}. balanced t loads W (fst S) (snd S) m \<and> (\<forall>p e. map_of (rt_parents t) m = Some (p, e) \<longrightarrow> p \<in> K)) \<Longrightarrow>
    (\<forall>m q. m \<notin> K \<longrightarrow> map_of (fst S) (m, q) = map_of W (m, q)) \<Longrightarrow>
    \<forall>m\<in>(K \<union> set xs) - {rt_root t}. balanced t loads W (fst (fold (sweep_node t loads W) xs S)) (snd (fold (sweep_node t loads W) xs S)) m"
proof (induction xs arbitrary: K S)
  case Nil
  then show ?case by (simp only: fold_simps id_apply list.set Un_empty_right) blast
next
  case (Cons n xs)
  let ?S = "sweep_node t loads W n S"
  let ?r = "rt_root t"
  show ?case
  proof (cases "n = ?r")
    case True
    then have S: "?S = S" and K: "insert n K = K" using Cons.prems(4) by (auto simp: sweep_node_def)
    have "parent_before ?r (rt_parents t) K xs" using Cons.prems(1) K by simp
    moreover have "distinct xs" "\<forall>n\<in>set xs. n \<noteq> ?r \<longrightarrow> n \<notin> K" using Cons.prems(2,3) by simp_all
    ultimately have "\<forall>m\<in>(K \<union> set xs) - {?r}. balanced t loads W (fst (fold (sweep_node t loads W) xs S)) (snd (fold (sweep_node t loads W) xs S)) m"
      using Cons.prems(4,5,6) by (rule Cons.IH)
    then show ?thesis using S True by simp
  next
    case False
    obtain p e where pe: "map_of (rt_parents t) n = Some (p, e)" "p \<in> K" using Cons.prems(1) False by auto
    have nK: "n \<notin> K" using Cons.prems(3) False by simp
    have own: "balanced t loads W (fst ?S) (snd ?S) n"
    proof -
      have "p \<noteq> n" using pe(2) nK by auto
      moreover have "map_of (fst S) (n, q) = map_of W (n, q)" for q using Cons.prems(6) nK by simp
      ultimately show ?thesis using sweep_node_balanced [OF b pe(1) False, of "fst S" W loads "snd S"] by simp
    qed
    have kept: "balanced t loads W (fst ?S) (snd ?S) m" if m: "m \<in> K - {?r}" for m
    proof (rule balanced_kept [OF _ sweep_node_grow b])
      show "balanced t loads W (fst S) (snd S) m" using Cons.prems(5) m by blast
      show "map_of (fst ?S) (m, q) = map_of (fst S) (m, q)" for q using m nK by (intro sweep_node_other) auto
      show "map_of (fst ?S) (p, q) = map_of (fst S) (p, q)" if "map_of (rt_parents t) m = Some (p, e)" for p e q
        
      proof -
        have "p \<in> K" using that Cons.prems(5) m by blast
        then show ?thesis using nK by (intro sweep_node_other) auto
      qed
    qed
    have "\<forall>m\<in>(insert n K \<union> set xs) - {?r}. balanced t loads W (fst (fold (sweep_node t loads W) xs ?S)) (snd (fold (sweep_node t loads W) xs ?S)) m"
    proof (rule Cons.IH)
      show "\<forall>m\<in>insert n K - {?r}. balanced t loads W (fst ?S) (snd ?S) m \<and> (\<forall>p e. map_of (rt_parents t) m = Some (p, e) \<longrightarrow> p \<in> insert n K)"
      proof (intro ballI conjI allI impI)
        fix m assume "m \<in> insert n K - {?r}"
        then show "balanced t loads W (fst ?S) (snd ?S) m" using own kept by blast
      next
        fix m p' e' assume m: "m \<in> insert n K - {?r}" "map_of (rt_parents t) m = Some (p', e')"
        show "p' \<in> insert n K"
        proof (cases "m = n")
          case True
          then show ?thesis using m(2) pe by simp
        next
          case False
          then have "m \<in> K - {?r}" using m(1) by blast
          with Cons.prems(5) m(2) show ?thesis by blast
        qed
      qed
      show "\<forall>m q. m \<notin> insert n K \<longrightarrow> map_of (fst ?S) (m, q) = map_of W (m, q)"
        using Cons.prems(6) sweep_node_other by simp
      show "parent_before ?r (rt_parents t) (insert n K) xs" using Cons.prems(1) by simp
      show "distinct xs" "\<forall>m\<in>set xs. m \<noteq> ?r \<longrightarrow> m \<notin> insert n K" "?r \<in> insert n K" using Cons.prems(2,3,4) by auto
    qed
    then show ?thesis by simp
  qed
qed

lemma sweep_balanced:
  assumes b: "build_radial ns es = Inr t" and n: "n \<in> set (rt_order t)" "n \<noteq> rt_root t"
  shows "balanced t loads W (fst (sweep t loads W)) (snd (sweep t loads W)) n"
proof -
  have "distinct (rt_order t)" using build_radial_walk(1) [OF b] by (simp add: tree_inv_def)
  then have "\<forall>m\<in>({rt_root t} \<union> set (rt_order t)) - {rt_root t}. balanced t loads W (fst (sweep t loads W)) (snd (sweep t loads W)) m"
    unfolding sweep_def by (intro sweep_nodes_balanced [OF b build_radial_parent_before [OF b]]) auto
  then show ?thesis using n by blast
qed

lemma sweep_root: "map_of (fst (sweep t loads W)) (rt_root t, q) = map_of W (rt_root t, q)"
proof -
  have "map_of (fst (fold (sweep_node t loads W) xs S)) (rt_root t, q) = map_of (fst S) (rt_root t, q)" for xs S
  proof (induction xs arbitrary: S)
    case (Cons n xs)
    have "map_of (fst (sweep_node t loads W n S)) (rt_root t, q) = map_of (fst S) (rt_root t, q)"
      by (cases "n = rt_root t") (simp_all add: sweep_node_other, simp add: sweep_node_def)
    then show ?case using Cons by simp
  qed simp
  then show ?thesis by (simp add: sweep_def)
qed

text \<open>The loop ends after a convergent sweep or after all iterations.\<close>

lemma pf_loop_last:
  assumes "pf_loop t loads k s = s'" "k \<noteq> 0"
  shows "pf_iterations s' \<le> pf_iterations s + k \<and> sweep t loads (pf_before s') = (pf_volts s', pf_mismatch s') \<and>
    (pf_converged s' \<longleftrightarrow> pf_mismatch s' < pf_tol) \<and> (\<not> pf_converged s' \<longrightarrow> pf_iterations s' = pf_iterations s + k)"
  using assms
proof (induction t loads k s rule: pf_loop.induct)
  case (2 t loads k s)
  obtain V mm where sw: "sweep t loads (pf_volts s) = (V, mm)" by fastforce
  let ?s = "\<lparr>pf_converged = (mm < pf_tol), pf_iterations = Suc (pf_iterations s), pf_volts = V, pf_before = pf_volts s, pf_mismatch = mm\<rparr>"
  show ?case
  proof (cases "mm < pf_tol \<or> k = 0")
    case True
    then have "s' = ?s" using 2(2) by (auto simp: sw Let_def)
    then show ?thesis using True sw by auto
  next
    case False
    then have l: "pf_loop t loads k ?s = s'" using 2(2) by (simp add: sw)
    from "2.IH" [OF sw [symmetric] refl refl, of] False l show ?thesis by auto
  qed
qed simp

lemma pf_loop_root: "(\<forall>q. map_of (pf_volts s) (rt_root t, q) = f q) \<Longrightarrow> map_of (pf_volts (pf_loop t loads k s)) (rt_root t, q) = f q"
proof (induction t loads k s rule: pf_loop.induct)
  case (2 t loads k s)
  obtain V mm where sw: "sweep t loads (pf_volts s) = (V, mm)" by fastforce
  have "map_of V (rt_root t, q) = f q" for q using sweep_root [of t loads "pf_volts s" q] 2(2) sw by simp
  then show ?case using "2.IH" [OF sw [symmetric] refl refl] by (auto simp: sw Let_def)
qed simp

text \<open>
  C27: what a power flow that reports convergence satisfies. It took at most a hundred iterations, and
  on every phase of every energized node but the source the reported voltage is the parent's voltage
  less the branch impedance times the sum of the load currents of the subtree, where those currents
  are taken at voltages that differ from the reported ones by less than the tolerance. The source
  stays at the slack voltage. Without convergence all iterations were used.
\<close>

theorem pf_converged_balanced:
  assumes "build_radial ns es = Inr t" "n \<in> set (rt_order t)" "map_of (rt_parents t) n = Some (p, e)"
    "q \<in> set (node_phase_set ns n)"
  shows "pf_iterations (pf_run t loads) \<le> 100 \<and>
    (\<not> pf_converged (pf_run t loads) \<longrightarrow> pf_iterations (pf_run t loads) = 100) \<and>
    (pf_converged (pf_run t loads) \<longrightarrow> (let V = pf_volts (pf_run t loads); W = pf_before (pf_run t loads) in
      map_of V (n, q) = Some (cx_sub (dict_get V (p, q) (slack q)) (cx_mul (edge_pu t (edge_id e)) (branch_current t loads W n e q))) \<and>
      cx_abs (cx_sub (dict_get V (n, q) (slack q)) (dict_get W (n, q) (slack q))) < 1 / 10 ^ 6 \<and>
      dict_get V (rt_root t, q) (slack q) = slack q))"
proof -
  let ?s = "pf_run t loads"
  have "n \<noteq> rt_root t"
    using build_radial_walk(1) [OF assms(1)] rooted_top [of "rt_root t" "rt_parents t" p] map_of_SomeD [OF assms(3)]
    by (auto simp: tree_inv_def kid_rel_iff)
  note bal = sweep_balanced [OF assms(1,2) this, of loads "pf_before ?s"]
  have nodes: "rt_nodes t = ns" using build_radial_walk(2) [OF assms(1)] .
  have l: "pf_iterations ?s \<le> 100" "sweep t loads (pf_before ?s) = (pf_volts ?s, pf_mismatch ?s)"
    "pf_converged ?s \<longleftrightarrow> pf_mismatch ?s < pf_tol" "\<not> pf_converged ?s \<longrightarrow> pf_iterations ?s = 100"
    using pf_loop_last [OF pf_run_def [of t loads, symmetric]] by (simp_all add: pf_max_iter_def)
  have r: "dict_get (pf_volts ?s) (rt_root t, q) (slack q) = slack q"
  proof -
    have "v = slack q" if "map_of (flat_start t) (m, q) = Some v" for m v
      using map_of_SomeD [OF that] by (auto simp: flat_start_def)
    then have flat: "dict_get (flat_start t) (rt_root t, q) (slack q) = slack q"
      by (cases "map_of (flat_start t) (rt_root t, q)") (auto simp: dict_get_def)
    show ?thesis
      using flat pf_loop_root [of "\<lparr>pf_converged = False, pf_iterations = 0, pf_volts = flat_start t, pf_before = flat_start t, pf_mismatch = 0\<rparr>"
          t "\<lambda>q. map_of (flat_start t) (rt_root t, q)" loads pf_max_iter q]
      by (auto simp: pf_run_def dict_get_def)
  qed
  have "far_end e n = p" by (rule far_end_parent [OF assms(1,3)])
  with bal assms(3,4) nodes l r show ?thesis
    by (auto simp: balanced_def dropped_def Let_def pf_tol_def dict_get_def)
qed


text \<open>A load of 30 kW on phase \<open>a\<close> behind a closed switch.\<close>

definition switch_nodes :: "grid_node list" where
  "switch_nodes = map (node_phases_update (\<lambda>_. ''A'')) line_nodes"

definition switch_edges :: "grid_edge list" where
  "switch_edges = [mk_edge ''L'' ''S'' ''M'' ''switch'' True]"

definition switch_loads :: pf_loads where
  "switch_loads = [(''M'', [(CHR ''a'', (30, 0))])]"

theorem pf_converged_balanced_witness:
  "\<exists>t. build_radial switch_nodes switch_edges = Inr t \<and> pf_converged (pf_run t switch_loads) \<and>
     (\<exists>p e. map_of (pf_volts (pf_run t switch_loads)) (''M'', CHR ''a'') =
       Some (cx_sub (dict_get (pf_volts (pf_run t switch_loads)) (p, CHR ''a'') (slack CHR ''a''))
         (cx_mul (edge_pu t (edge_id e)) (branch_current t switch_loads (pf_before (pf_run t switch_loads)) ''M'' e CHR ''a''))))"
proof -
  have "map_sum id (\<lambda>t. (''M'' \<in> set (rt_order t), map_of (rt_parents t) ''M'' \<noteq> None, pf_converged (pf_run t switch_loads)))
      (build_radial switch_nodes switch_edges) = Inr (True, True, True)" by code_simp
  then obtain t where t: "build_radial switch_nodes switch_edges = Inr t" "''M'' \<in> set (rt_order t)"
    "map_of (rt_parents t) ''M'' \<noteq> None" "pf_converged (pf_run t switch_loads)"
    by (cases "build_radial switch_nodes switch_edges") auto
  obtain p e where pe: "map_of (rt_parents t) ''M'' = Some (p, e)" using t(3) by auto
  have "CHR ''a'' \<in> set (node_phase_set switch_nodes ''M'')" by code_simp
  from pf_converged_balanced [OF t(1,2) pe this, of switch_loads] t(1,4) show ?thesis
    by (intro exI [of _ t] conjI exI [of _ p] exI [of _ e]) (simp_all add: Let_def)
qed

end
