(* ===== verification/Estimation_Service.thy ===== *)
theory Estimation_Service
  imports State_Estimation Voltage_Advice Outage_Inference Oms_Views
begin

text \<open>
  The endpoints over the estimator: \<^verbatim>\<open>_se_measurements\<close> and \<^verbatim>\<open>GET /dms/se/estimate\<close> of
  \<^verbatim>\<open>src/fastapi/routers/dms.py\<close>, and \<^verbatim>\<open>_se_dead_nodes\<close> and \<^verbatim>\<open>GET /outage/infer\<close> of \<^verbatim>\<open>routers/oms.py\<close>,
  where the estimate corroborates the outage inference.
\<close>

subsection \<open>Measurements from telemetry\<close>

text \<open>
  The voltage over its phase base \<open>kv * 1000 / sqrt 3\<close>, rounded to four digits: the rounded root of
  \<open>3 v\<^sup>2 / (kv * 1000)\<^sup>2\<close> with the sign of the voltage.
\<close>

definition phase_pu :: "rat \<Rightarrow> rat \<Rightarrow> rat" where
  "phase_pu v kv = (let u = round_sqrt 4 (3 * v ^ 2 / (kv * 1000) ^ 2) in if v < 0 then - u else u)"

definition se_voltage :: "grid_node \<Rightarrow> telemetry \<Rightarrow> rat option" where
  "se_voltage n t = (case (t_voltage t, nominal_kv n) of
     (Some v, Some kv) \<Rightarrow> if 0 < kv then Some (phase_pu v kv) else None | _ \<Rightarrow> None)"

definition se_power :: "telemetry \<Rightarrow> rat option" where
  "se_power t = (case t_grid_import_kw t of Some p \<Rightarrow> Some p | None \<Rightarrow> t_power_kw t)"

definition se_measurement :: "db \<Rightarrow> grid_node \<Rightarrow> meas_values option" where
  "se_measurement s n = (case fresh_reading s (node_device n) of
     None \<Rightarrow> None
   | Some t \<Rightarrow> if se_power t = None \<and> se_voltage n t = None then None
       else Some \<lparr>meas_p_kw = se_power t, meas_q_kvar = None, meas_voltage_pu = se_voltage n t\<rparr>)"

definition se_measurements :: "db \<Rightarrow> (string \<times> meas_values) list" where
  "se_measurements s = concat (map (\<lambda>n. case se_measurement s n of None \<Rightarrow> [] | Some m \<Rightarrow> [(node_id n, m)]) (grid_nodes s))"

subsection \<open>Endpoints\<close>

record se_report =
  sr_result :: se_result
  sr_monitored :: nat
  sr_inputs :: nat

text \<open>A \<^verbatim>\<open>ValueError\<close> of the engine becomes a conflict; other errors pass.\<close>

definition as_conflict :: "string \<Rightarrow> 'a result \<Rightarrow> 'a result" where
  "as_conflict what r = (case r of Inl (ValueError m) \<Rightarrow> Inl (HTTPException 409 (Fmt what [msg_text m])) | _ \<Rightarrow> r)"

definition se_estimate :: "principal option \<Rightarrow> db \<Rightarrow> se_report result" where
  "se_estimate po s = read_guard po (\<lambda>_.
     bindR (as_conflict ''state estimation failed: {}'' (estimate (grid_nodes s) (grid_edges s) (se_measurements s))) (\<lambda>r.
       Inr \<lparr>sr_result = r, sr_monitored = length (filter se_monitored (se_nodes r)),
            sr_inputs = length (se_measurements s)\<rparr>))"

definition se_dead_pu :: rat where "se_dead_pu = 1 / 2"

definition reads_dead :: "se_node \<Rightarrow> bool" where
  "reads_dead n \<longleftrightarrow> \<not> se_energized n \<or> (case State_Estimation.se_voltage_pu n of None \<Rightarrow> False | Some v \<Rightarrow> v < se_dead_pu)"

definition se_dead_nodes :: "db \<Rightarrow> string list option" where
  "se_dead_nodes s = (case estimate (grid_nodes s) (grid_edges s) (se_measurements s) of
     Inl _ \<Rightarrow> None | Inr r \<Rightarrow> Some (map se_id (filter reads_dead (se_nodes r))))"

record outage_view =
  ov_inference :: inference
  ov_dark :: "string list"
  ov_se_available :: bool

definition outage_infer :: "principal option \<Rightarrow> db \<Rightarrow> outage_view result" where
  "outage_infer po s = read_guard po (\<lambda>_. let dark = dark_meter_nodes s; dead = se_dead_nodes s in
     bindR (as_conflict ''outage inference failed: {}''
         (infer (grid_nodes s) (grid_edges s) dark (customers_by_node s) (case dead of None \<Rightarrow> [] | Some d \<Rightarrow> d))) (\<lambda>r.
       Inr \<lparr>ov_inference = r, ov_dark = sort dark, ov_se_available = (dead \<noteq> None)\<rparr>))"

subsection \<open>Corroboration only\<close>

text \<open>An inference without what the estimator added: its agreement flags and the silent failures.\<close>

definition uncorroborated :: "inference \<Rightarrow> inference" where
  "uncorroborated r = r\<lparr>inf_outages := map (in_se_update (\<lambda>_. False)) (inf_outages r), inf_silent := []\<rparr>"

abbreviation no_se :: "inferred \<Rightarrow> inferred" where
  "no_se \<equiv> in_se_update (\<lambda>_. False)"

lemma infer_cluster_dead:
  "map_sum id no_se (infer_cluster t meters cust dead opens cl) = map_sum id no_se (infer_cluster t meters cust [] opens cl)"
  by (auto simp: infer_cluster_def Let_def bindR_def split: prod.splits sum.splits)

lemma mapR_map_sum:
  assumes "\<And>x. map_sum id h (f x) = map_sum id h (g x)"
  shows "map_sum id (map h) (mapR f xs) = map_sum id (map h) (mapR g xs)"
proof (induction xs)
  case (Cons x xs)
  then show ?case using assms [of x]
    by (cases "f x"; cases "g x"; cases "mapR f xs"; cases "mapR g xs") auto
qed simp

lemma infer_pass_dead:
  "map_sum id (map no_se) (infer_pass t meters cust dead opens dark) = map_sum id (map no_se) (infer_pass t meters cust [] opens dark)"
  unfolding infer_pass_def by (intro mapR_map_sum infer_cluster_dead)


lemma map_sort_desc:
  assumes "\<And>x. f (g x) = f x"
  shows "map g (sort_desc f xs) = sort_desc f (map g xs)"
proof -
  have "map g (insort_key f x ys) = insort_key f (g x) (map g ys)" for x ys
    by (induction ys) (simp_all add: assms)
  then have "map g (sort_key f ys) = sort_key f (map g ys)" for ys by (induction ys) simp_all
  then show ?thesis by (simp add: sort_desc_def flip: rev_map)
qed

lemma uncorroborated_outcome:
  "uncorroborated \<lparr>inf_count = n, inf_outages = sort_desc in_customers xs, inf_silent = ss\<rparr>
   = \<lparr>inf_count = n, inf_outages = sort_desc in_customers (map no_se xs), inf_silent = []\<rparr>"
  by (simp add: uncorroborated_def map_sort_desc)

lemma map_sum_eq_cases:
  assumes "map_sum id h a = map_sum id h (b :: 'a result)"
  obtains e where "a = Inl e" "b = Inl e" | x y where "a = Inr x" "b = Inr y" "h x = h y"
  using assms by (cases a; cases b) auto

lemma infer_dead:
  "map_sum id uncorroborated (infer ns es dark cust dead) = map_sum id uncorroborated (infer ns es dark cust [])"
proof -
  have "map_sum id uncorroborated (bindR (infer_pass et ms cust dead None pr) (\<lambda>xs.
        bindR (infer_pass st ms cust dead op fb) (\<lambda>ys.
          Inr \<lparr>inf_count = k, inf_outages = sort_desc in_customers (xs @ ys), inf_silent = ss\<rparr>))) =
      map_sum id uncorroborated (bindR (infer_pass et ms cust [] None pr) (\<lambda>xs.
        bindR (infer_pass st ms cust [] op fb) (\<lambda>ys.
          Inr \<lparr>inf_count = k, inf_outages = sort_desc in_customers (xs @ ys), inf_silent = ss'\<rparr>)))"
    for et st ms op pr fb k ss ss'
    using infer_pass_dead [of et ms cust dead None pr] infer_pass_dead [of st ms cust dead op fb]
    by (elim map_sum_eq_cases) (auto simp: uncorroborated_outcome)
  then show ?thesis
    by (cases "build_radial ns es"; cases "build_radial ns (structural_edges es)") (simp_all add: infer_def Let_def)
qed

text \<open>
  C26: the estimator only corroborates. Whatever it returns, and also when it fails, the endpoint
  infers the same outages, devices, sections and counts as without it, and fails exactly when the
  inference alone fails; only the agreement flags and the list of silent failures depend on it.
\<close>

theorem estimator_only_corroborates:
  "map_sum id (\<lambda>v. (uncorroborated (ov_inference v), ov_dark v)) (outage_infer po s) =
   read_guard po (\<lambda>_. map_sum id (\<lambda>r. (uncorroborated r, sort (dark_meter_nodes s)))
     (as_conflict ''outage inference failed: {}''
       (infer (grid_nodes s) (grid_edges s) (dark_meter_nodes s) (customers_by_node s) [])))"
proof (cases "require_role READ_ROLES po")
  case (Inr p)
  from infer_dead [of "grid_nodes s" "grid_edges s" "dark_meter_nodes s" "customers_by_node s"
      "case se_dead_nodes s of None \<Rightarrow> [] | Some d \<Rightarrow> d"]
  show ?thesis
    by (elim map_sum_eq_cases) (auto simp: outage_infer_def read_guard_def Inr Let_def as_conflict_def split: exn.splits)
qed (simp add: outage_infer_def read_guard_def)

subsection \<open>A limit of the measurements\<close>

text \<open>
  \<^verbatim>\<open>_se_measurements\<close> takes the power of every device as consumption. A generator reports generation, which
  \<^verbatim>\<open>_pf_loads\<close> negates; here 40 kW of sun are measured as 40 kW of load.
\<close>

definition solar_db :: db where
  "solar_db = demo_db\<lparr>grid_nodes := [mk_node ''S1'' ''substation'' None, (mk_node ''PV'' ''der'' (Some ''S1''))\<lparr>node_device := Some ''INV1''\<rparr>],
     telemetry_rows := [(mk_telemetry ''INV1'' 90 (PDict []))\<lparr>t_power_kw := Some 40\<rparr>]\<rparr>"

lemma generation_measured_as_load: "se_measurements solar_db = [(''PV'', no_measurement\<lparr>meas_p_kw := Some 40\<rparr>)]"
  by code_simp

end
