(* ===== verification/Network_Studies.thy ===== *)
theory Network_Studies
  imports Contingency Power_Flow Estimation_Service Crew_Dispatch
begin

text \<open>
  The studies over the power flow: the N-1 analysis (\<^verbatim>\<open>analyze\<close> of \<^verbatim>\<open>src/fastapi/dms/contingency.py\<close>), the
  search for the best switch configuration (\<^verbatim>\<open>recommend\<close> of \<^verbatim>\<open>reconfiguration.py\<close>), the inputs
  \<^verbatim>\<open>routers/dms.py\<close> collects for them, and the endpoints over them in \<^verbatim>\<open>routers/dms.py\<close> and \<^verbatim>\<open>routers/oms.py\<close>.
\<close>

subsection \<open>Inputs\<close>

text \<open>\<^verbatim>\<open>_pf_loads\<close>: the live or base load of a node, split evenly over its phases; generation is negative.\<close>

definition live_kw :: "db \<Rightarrow> grid_node \<Rightarrow> rat" where
  "live_kw s n = (case fresh_reading s (node_device n) of
     None \<Rightarrow> base_load_kw n
   | Some t \<Rightarrow> if node_type n = ''der'' then - or_else (t_power_kw t) 0
       else (case t_grid_import_kw t of Some g \<Rightarrow> g | None \<Rightarrow> or_else (t_power_kw t) 0))"

definition node_loads :: "db \<Rightarrow> grid_node \<Rightarrow> (char \<times> cx) list" where
  "node_loads s n = (let ps = phase_set (node_phases n); k = of_nat (length ps) in
     map (\<lambda>p. (p, (live_kw s n / k, base_load_kvar n / k))) ps)"

definition pf_loads_of :: "db \<Rightarrow> pf_loads" where
  "pf_loads_of s = concat (map (\<lambda>n. if phase_set (node_phases n) = [] then [] else [(node_id n, node_loads s n)]) (grid_nodes s))"

text \<open>\<^verbatim>\<open>_lastgasp_load_floor\<close>\<close>

definition lastgasp_load_floor :: "db \<Rightarrow> (string \<times> rat) list" where
  "lastgasp_load_floor s = concat (map (\<lambda>n. case node_device n of None \<Rightarrow> []
     | Some d \<Rightarrow> (case latest_telemetry s d of None \<Rightarrow> []
       | Some t \<Rightarrow> if to_upper (case t_state t of None \<Rightarrow> [] | Some x \<Rightarrow> x) = ''LAST_GASP'' \<and> 0 < base_load_kw n
           then [(node_id n, base_load_kw n)] else [])) (grid_nodes s))"

subsection \<open>N-1 analysis\<close>

definition real_load_kw :: "pf_loads \<Rightarrow> string \<Rightarrow> rat" where
  "real_load_kw loads n = rats_sum (map (fst \<circ> snd) (dict_get loads n []))"

definition load_kw :: "pf_loads \<Rightarrow> string \<Rightarrow> rat" where "load_kw loads n = max (real_load_kw loads n) 0"
definition gen_kw :: "pf_loads \<Rightarrow> string \<Rightarrow> rat" where "gen_kw loads n = max (- real_load_kw loads n) 0"

record n1_row = contingency +
  nr_type :: string
  nr_lost_load :: rat
  nr_lost_gen :: rat
  nr_unserved_load :: rat
  nr_unserved_customers :: nat
  nr_unserved_nodes :: "string list"
  nr_converged :: bool
  nr_severity :: rat

record n1_report =
  n1_base_converged :: bool
  n1_base_loss :: rat
  n1_base_violations :: nat
  n1_secure :: bool
  n1_rows :: "n1_row list"

definition classif_load :: "pf_loads \<Rightarrow> (string \<times> rat) list \<Rightarrow> string \<Rightarrow> rat" where
  "classif_load loads floor' n = max (load_kw loads n) (dict_get floor' n 0)"

definition customers_at :: "counts \<Rightarrow> string list \<Rightarrow> nat" where
  "customers_at cust xs = sum_list (map (\<lambda>n. dict_get cust n 0) xs)"

definition total_load :: "pf_loads \<Rightarrow> (string \<times> rat) list \<Rightarrow> string list \<Rightarrow> rat" where
  "total_load loads floor' xs = py_round 2 (rats_sum (map (classif_load loads floor') xs))"

definition n1_class :: "rat \<Rightarrow> string list \<Rightarrow> nat \<Rightarrow> string" where
  "n1_class unserved restored violations =
     (if 0 < unserved then (if restored = [] then ''unserved'' else ''partial'')
      else if 0 < violations then ''violation''
      else if restored = [] then ''secure'' else ''restorable'')"

text \<open>One element out: what is lost, what the ties bring back, and the power flow of what is left.\<close>

definition n1_outage :: "grid_node list \<Rightarrow> grid_edge list \<Rightarrow> pf_loads \<Rightarrow> counts \<Rightarrow> (string \<times> rat) list \<Rightarrow> string list
    \<Rightarrow> grid_edge \<Rightarrow> n1_row result" where
  "n1_outage ns es loads cust floor' base ce = (let ed = set_edge_closed (edge_id ce) False es in
     bindR (ct_energized ns ed) (\<lambda>after. let lost = filter (\<lambda>n. n \<notin> set after) base in
     bindR (restore ns ed (edge_id ce) lost) (\<lambda>r.
     bindR (ct_energized ns (rs_edges r)) (\<lambda>back. let out = filter (\<lambda>n. n \<notin> set back) base in
     bindR (pf_solve ns (rs_edges r) loads) (\<lambda>p.
       let lost_load = total_load loads floor' lost; unserved = total_load loads floor' out;
           v = length (pr_violations p); ties = rs_closed r in
       Inr \<lparr>ct_element = edge_id ce, ct_lost_customers = customers_at cust lost, ct_restored_by = ties,
            ct_class = n1_class unserved ties v, ct_violations = v,
            nr_type = edge_type ce, nr_lost_load = lost_load,
            nr_lost_gen = py_round 2 (rats_sum (map (gen_kw loads) lost)),
            nr_unserved_load = unserved, nr_unserved_customers = customers_at cust out,
            nr_unserved_nodes = sort (filter (\<lambda>n. 0 < classif_load loads floor' n \<or> 0 < dict_get cust n 0) out),
            nr_converged = pr_converged p,
            nr_severity = py_round 2 (unserved * 1000 + of_nat v * 100 + (if ties = [] then 0 else lost_load))\<rparr>)))))"

definition n1_candidates :: "grid_edge list \<Rightarrow> grid_edge list" where
  "n1_candidates es = filter (\<lambda>e. is_closed e \<and> edge_type e \<in> {''line'', ''transformer'', ''switch'', ''tie''}) es"

definition analyze :: "grid_node list \<Rightarrow> grid_edge list \<Rightarrow> pf_loads \<Rightarrow> counts \<Rightarrow> (string \<times> rat) list \<Rightarrow> n1_report result" where
  "analyze ns es loads cust floor' =
     bindR (ct_energized ns es) (\<lambda>base. bindR (pf_solve ns es loads) (\<lambda>p.
     bindR (mapR (n1_outage ns es loads cust floor' base) (n1_candidates es)) (\<lambda>rows.
       Inr \<lparr>n1_base_converged = pr_converged p, n1_base_loss = pr_loss_kw p, n1_base_violations = length (pr_violations p),
            n1_secure = list_all (\<lambda>r. nr_unserved_load r = 0 \<and> ct_violations r = 0) rows,
            n1_rows = sort_desc nr_severity rows\<rparr>)))"

subsection \<open>Reconfiguration\<close>

record config_metrics =
  cm_loss :: rat
  cm_violations :: nat
  cm_max_loading :: rat
  cm_state :: "(string \<times> bool) list"

definition metrics_of :: "grid_edge list \<Rightarrow> pf_result \<Rightarrow> config_metrics" where
  "metrics_of es p = \<lparr>cm_loss = pr_loss_kw p, cm_violations = length (pr_violations p),
     cm_max_loading = (case map (\<lambda>b. or_else (pb_loading b) 0) (pr_branches p) of [] \<Rightarrow> 0 | l # ls \<Rightarrow> py_round 1 (foldl max l ls)),
     cm_state = map (\<lambda>e. (edge_id e, is_closed e)) (reconfigurable es)\<rparr>"

definition evaluate :: "grid_node list \<Rightarrow> grid_edge list \<Rightarrow> pf_loads \<Rightarrow> config_metrics option result" where
  "evaluate ns es loads = bindR (radial_feasible ns es) (\<lambda>(ok, _). if \<not> ok then Inr None
     else bindR (pf_solve ns es loads) (\<lambda>p. Inr (if pr_converged p then Some (metrics_of es p) else None)))"

text \<open>\<^verbatim>\<open>itertools.product([False, True], repeat=n)\<close>\<close>

fun combos :: "nat \<Rightarrow> bool list list" where
  "combos 0 = [[]]"
| "combos (Suc n) = map ((#) False) (combos n) @ map ((#) True) (combos n)"

definition configure :: "(string \<times> bool) list \<Rightarrow> grid_edge list \<Rightarrow> grid_edge list" where
  "configure cs es = fold (\<lambda>(k, b). set_edge_closed k b) cs es"

definition n_changes :: "(string \<times> bool) list \<Rightarrow> bool list \<Rightarrow> nat" where
  "n_changes current combo = length (filter (\<lambda>((k, b), c). b \<noteq> c) (zip current combo))"

definition rc_eps :: rat where "rc_eps = 1 / 10 ^ 6"

type_synonym choice = "config_metrics \<times> bool list \<times> nat"

definition better :: "config_metrics \<Rightarrow> nat \<Rightarrow> choice option \<Rightarrow> bool" where
  "better m k best = (case best of None \<Rightarrow> True | Some (b, _, kb) \<Rightarrow>
     cm_loss m < cm_loss b - rc_eps \<or> \<bar>cm_loss m - cm_loss b\<bar> \<le> rc_eps \<and> k < kb)"

fun search :: "(bool list \<Rightarrow> config_metrics option result) \<Rightarrow> (bool list \<Rightarrow> nat) \<Rightarrow> bool list list \<Rightarrow> nat \<Rightarrow> choice option
    \<Rightarrow> (nat \<times> choice option) result" where
  "search ev ch [] f best = Inr (f, best)"
| "search ev ch (c # cs) f best = bindR (ev c) (\<lambda>m. case m of None \<Rightarrow> search ev ch cs f best
     | Some m \<Rightarrow> search ev ch cs (Suc f) (if better m (ch c) best then Some (m, c, ch c) else best))"

record rc_report =
  rc_switches :: "string list"
  rc_evaluated :: nat
  rc_feasible :: nat
  rc_current :: "config_metrics option"
  rc_recommended :: "config_metrics option"
  rc_plan :: "(string \<times> string) list"
  rc_loss_reduction :: "rat option"
  rc_loss_reduction_pct :: "rat option"

definition current_state :: "grid_edge list \<Rightarrow> (string \<times> bool) list" where
  "current_state es = map (\<lambda>e. (edge_id e, is_closed e)) (reconfigurable es)"

definition change_plan :: "(string \<times> bool) list \<Rightarrow> bool list \<Rightarrow> (string \<times> string) list" where
  "change_plan cur combo = map (\<lambda>((k, _), b). (k, if b then ''close'' else ''open'')) (filter (\<lambda>((k, b), c). c \<noteq> b) (zip cur combo))"

definition try_config :: "grid_node list \<Rightarrow> grid_edge list \<Rightarrow> pf_loads \<Rightarrow> bool list \<Rightarrow> config_metrics option result" where
  "try_config ns es loads c = evaluate ns (configure (zip (map fst (current_state es)) c) es) loads"

definition recommend_config :: "grid_node list \<Rightarrow> grid_edge list \<Rightarrow> pf_loads \<Rightarrow> rc_report result" where
  "recommend_config ns es loads = (let cur = current_state es; ids = map fst cur; cs = combos (length ids) in
     bindR (evaluate ns es loads) (\<lambda>current.
     bindR (search (try_config ns es loads) (n_changes cur) cs 0 None) (\<lambda>(f, best).
       let gain = (case (current, best) of (Some m, Some (b, _)) \<Rightarrow> Some (py_round 3 (cm_loss m - cm_loss b)) | _ \<Rightarrow> None) in
       Inr \<lparr>rc_switches = ids, rc_evaluated = length cs, rc_feasible = f, rc_current = current,
            rc_recommended = map_option fst best,
            rc_plan = (case best of None \<Rightarrow> [] | Some (_, c, _) \<Rightarrow> change_plan cur c),
            rc_loss_reduction = gain,
            rc_loss_reduction_pct = (case (gain, opt_bind current (\<lambda>m. present (Some (cm_loss m)))) of
               (Some g, Some l) \<Rightarrow> Some (py_round 1 (100 * g / l)) | _ \<Rightarrow> None)\<rparr>)))"

subsection \<open>Endpoints\<close>

definition powerflow_solve :: "principal option \<Rightarrow> db \<Rightarrow> pf_result result" where
  "powerflow_solve po s = read_guard po (\<lambda>_. as_conflict ''power flow failed: {}'' (pf_solve (grid_nodes s) (grid_edges s) (pf_loads_of s)))"

definition reconfiguration_recommend :: "principal option \<Rightarrow> db \<Rightarrow> rc_report result" where
  "reconfiguration_recommend po s = read_guard po (\<lambda>_. as_conflict ''reconfiguration failed: {}'' (recommend_config (grid_nodes s) (grid_edges s) (pf_loads_of s)))"

definition n1_of_db :: "db \<Rightarrow> n1_report result" where
  "n1_of_db s = analyze (grid_nodes s) (grid_edges s) (pf_loads_of s) (customers_by_node s) (lastgasp_load_floor s)"

definition contingency_n1 :: "principal option \<Rightarrow> db \<Rightarrow> n1_report result" where
  "contingency_n1 po s = read_guard po (\<lambda>_. as_conflict ''contingency analysis failed: {}'' (n1_of_db s))"

text \<open>\<^verbatim>\<open>_infer_and_n1\<close>\<close>

definition infer_and_n1 :: "db \<Rightarrow> (inferred list \<times> contingency list) result" where
  "infer_and_n1 s = bindR (infer (grid_nodes s) (grid_edges s) (dark_meter_nodes s) (customers_by_node s) []) (\<lambda>i.
     bindR (n1_of_db s) (\<lambda>r. Inr (inf_outages i, map contingency.truncate (n1_rows r))))"

definition outage_validate :: "principal option \<Rightarrow> int \<Rightarrow> db \<Rightarrow> cross_report result" where
  "outage_validate po tol s = read_guard po (\<lambda>_. as_conflict ''outage validation failed: {}''
     (bindR (infer_and_n1 s) (\<lambda>(xs, cs). Inr (cross_check tol xs cs))))"

definition crew_recommend :: "principal option \<Rightarrow> db \<Rightarrow> crew_plan result" where
  "crew_recommend po s = read_guard po (\<lambda>_. as_conflict ''crew recommendation failed: {}''
     (bindR (infer_and_n1 s) (\<lambda>(xs, cs). Inr (Crew_Dispatch.recommend xs cs))))"


subsection \<open>The N-1 analysis\<close>

text \<open>A network the studies accept: a source, and edges with distinct names between nodes it has.\<close>

definition study_ok :: "grid_node list \<Rightarrow> grid_edge list \<Rightarrow> bool" where
  "study_ok ns es \<longleftrightarrow> dangling ns es = [] \<and> distinct (map edge_id es) \<and> source_ids ns \<noteq> []"

lemma dangling_closed: "dangling ns es = [] \<Longrightarrow> dangling ns (filter P es) = []"
  by (auto simp: dangling_iff)

lemma study_pf:
  assumes "source_ids ns \<noteq> []" "dangling ns es = []"
  shows "\<exists>p. pf_solve ns es loads = Inr p"
proof -
  have "\<exists>t. build_radial ns es = Inr t"
    unfolding build_radial_returns using assms dangling_closed [OF assms(2)] by (auto simp: source_ids_def filter_empty_conv)
  then show ?thesis by (auto simp: pf_solve_def Let_def)
qed

lemma study_energized: "dangling ns es = [] \<Longrightarrow> ct_energized ns es = Inr (live_set ns es)"
  by (simp add: ct_energized_def dangling_closed)

lemma dangling_set_closed: "dangling ns es = [] \<Longrightarrow> dangling ns (set_edge_closed k b es) = []"
  by (auto simp: dangling_iff set_edge_closed_def in_set_update_where)

lemma dangling_ties: "dangling ns es = [] \<Longrightarrow> dangling ns (ties_closed ks es) = []"
  by (auto simp: dangling_iff ties_closed_def)

lemma ties_keep_alive: "set (live_set ns es) \<subseteq> set (live_set ns (ties_closed ks es))"
proof -
  have "set (live_links es) \<subseteq> set (live_links (ties_closed ks es))"
    by (force simp: live_links_def ties_closed_def)
  from undirected.live_mono [OF this] show ?thesis by (simp add: live_set_def)
qed

lemma sum_filter_mono:
  assumes "\<And>x. x \<in> set xs \<Longrightarrow> P x \<Longrightarrow> Q x" "\<And>x. 0 \<le> f x"
  shows "sum_list (map f (filter P xs)) \<le> sum_list (map f (filter Q xs) :: 'a :: ordered_comm_monoid_add list)"
  using assms by (induction xs) (auto simp: add_increasing intro: add_left_mono)

lemma classif_nonneg: "0 \<le> classif_load loads fl n"
  by (simp add: classif_load_def load_kw_def le_max_iff_disj)

lemma total_load_nonneg: "0 \<le> total_load loads fl xs"
  unfolding total_load_def rats_sum_def by (intro py_round_nonneg sum_list_nonneg) (auto simp: classif_nonneg)

text \<open>What a row says of one outage.\<close>

definition sound_row :: "grid_edge list \<Rightarrow> n1_row \<Rightarrow> bool" where
  "sound_row es r \<longleftrightarrow> 0 \<le> nr_unserved_load r \<and> nr_unserved_load r \<le> nr_lost_load r \<and>
     nr_unserved_customers r \<le> ct_lost_customers r \<and>
     set (ct_restored_by r) \<subseteq> edge_id ` set (openable (set_edge_closed (ct_element r) False es) (ct_element r)) \<and>
     ct_class r = n1_class (nr_unserved_load r) (ct_restored_by r) (ct_violations r)"

lemma n1_outage_total:
  assumes ok: "study_ok ns es"
  shows "\<exists>r. n1_outage ns es loads cust fl base ce = Inr r \<and> ct_element r = edge_id ce \<and> sound_row es r"
proof -
  let ?k = "edge_id ce"
  let ?ed = "set_edge_closed ?k False es"
  have d: "dangling ns ?ed = []" "distinct (map edge_id ?ed)" "source_ids ns \<noteq> []"
    using ok dangling_set_closed by (auto simp: study_ok_def set_edge_closed_id)
  let ?lost = "filter (\<lambda>n. n \<notin> set (live_set ns ?ed)) base"
  have "restoring ns ?ed ?k ?lost \<lparr>rs_edges = ?ed, rs_closed = [], rs_lost = ?lost, rs_progress = True\<rparr>"
    by (simp add: restoring_def)
  from restore_passes_total [OF d(1,2) refl this] obtain r where r: "restore ns ?ed ?k ?lost = Inr r"
    "restoring ns ?ed ?k ?lost r" by (auto simp: restore_def)
  then have e: "rs_edges r = ties_closed (rs_closed r) ?ed" "set (rs_closed r) \<subseteq> edge_id ` set (openable ?ed ?k)"
    by (auto simp: restoring_def)
  have d2: "dangling ns (rs_edges r) = []" using e(1) dangling_ties [OF d(1)] by simp
  obtain p where p: "pf_solve ns (rs_edges r) loads = Inr p" using study_pf [OF d(3) d2] by blast
  let ?out = "filter (\<lambda>n. n \<notin> set (live_set ns (rs_edges r))) base"
  have sub: "set (live_set ns ?ed) \<subseteq> set (live_set ns (rs_edges r))" using ties_keep_alive e(1) by simp
  have "total_load loads fl ?out \<le> total_load loads fl ?lost"
    unfolding total_load_def rats_sum_def using sub
    by (intro py_round_mono sum_filter_mono) (auto simp: classif_nonneg)
  moreover have "customers_at cust ?out \<le> customers_at cust ?lost"
    unfolding customers_at_def using sub by (intro sum_filter_mono) auto
  ultimately show ?thesis
    using e(2) by (simp add: n1_outage_def Let_def study_energized [OF d(1)] study_energized [OF d2] r(1) p
        sound_row_def total_load_nonneg)
qed

lemma mapR_total:
  assumes "\<And>x. x \<in> set xs \<Longrightarrow> \<exists>y. f x = Inr y \<and> P x y"
  shows "\<exists>ys. mapR f xs = Inr ys \<and> list_all2 P xs ys"
  using assms
proof (induction xs)
  case (Cons x xs)
  then obtain y ys where "f x = Inr y" "P x y" "mapR f xs = Inr ys" "list_all2 P xs ys" by fastforce
  then show ?case by simp
qed simp

lemma list_all2_map_eq: "list_all2 (\<lambda>x y. g y = h x \<and> Q y) xs ys \<Longrightarrow> map g ys = map h xs \<and> (\<forall>y\<in>set ys. Q y)"
  by (induction rule: list_all2_induct) auto

text \<open>
  C28: the N-1 analysis is complete and consistent. It returns one row for every closed line,
  transformer, switch and tie, the most severe first. In each the load and the customers without
  service after the restoration are at most those lost before it, only open switchable elements other
  than the failed one were closed, and the class follows from the figures. The network is called
  secure exactly if every row is secure or restorable.
\<close>

theorem n1_analysis_sound:
  assumes "study_ok ns es"
  shows "\<exists>r. analyze ns es loads cust fl = Inr r \<and>
    mset (map ct_element (n1_rows r)) = mset (map edge_id (n1_candidates es)) \<and>
    sorted_wrt (\<lambda>a b. nr_severity b \<le> nr_severity a) (n1_rows r) \<and>
    (\<forall>row\<in>set (n1_rows r). sound_row es row) \<and>
    (n1_secure r \<longleftrightarrow> (\<forall>row\<in>set (n1_rows r). ct_class row \<in> {''secure'', ''restorable''}))"
proof -
  have d: "dangling ns es = []" "source_ids ns \<noteq> []" using assms by (auto simp: study_ok_def)
  obtain p where p: "pf_solve ns es loads = Inr p" using study_pf [OF d(2,1)] by blast
  let ?f = "n1_outage ns es loads cust fl (live_set ns es)"
  have "\<exists>rows. mapR ?f (n1_candidates es) = Inr rows \<and> list_all2 (\<lambda>x y. ct_element y = edge_id x \<and> sound_row es y) (n1_candidates es) rows"
    using n1_outage_total [OF assms] by (intro mapR_total) blast
  then obtain rows where rows: "mapR ?f (n1_candidates es) = Inr rows"
    "map ct_element rows = map edge_id (n1_candidates es)" "\<forall>y\<in>set rows. sound_row es y"
    using list_all2_map_eq by blast
  have c: "nr_unserved_load row = 0 \<and> ct_violations row = 0 \<longleftrightarrow> ct_class row \<in> {''secure'', ''restorable''}" if "row \<in> set rows" for row
    using rows(3) that by (auto simp: sound_row_def n1_class_def)
  define r where "r = \<lparr>n1_base_converged = pr_converged p, n1_base_loss = pr_loss_kw p, n1_base_violations = length (pr_violations p),
    n1_secure = list_all (\<lambda>r. nr_unserved_load r = 0 \<and> ct_violations r = 0) rows, n1_rows = sort_desc nr_severity rows\<rparr>"
  have "analyze ns es loads cust fl = Inr r"
    by (simp add: analyze_def study_energized [OF d(1)] p rows(1) r_def)
  moreover have "mset (map ct_element (n1_rows r)) = mset (map edge_id (n1_candidates es))"
    by (simp add: r_def sort_desc_def mset_map [symmetric] rows(2) del: mset_map) (simp add: rows(2) [symmetric])
  moreover have "n1_secure r \<longleftrightarrow> (\<forall>row\<in>set (n1_rows r). ct_class row \<in> {''secure'', ''restorable''})"
    using c by (auto simp: r_def list_all_iff)
  moreover have "\<forall>row\<in>set (n1_rows r). sound_row es row" using rows(3) by (simp add: r_def)
  moreover have "sorted_wrt (\<lambda>a b. nr_severity b \<le> nr_severity a) (n1_rows r)"
    using sort_desc_sorted [of nr_severity rows] by (simp add: r_def)
  ultimately show ?thesis by blast
qed


subsection \<open>The best configuration\<close>

text \<open>Losses are rounded to thousandths, so two losses within the tolerance are equal.\<close>

definition on_grid :: "rat \<Rightarrow> bool" where
  "on_grid x \<longleftrightarrow> (\<exists>i. x = of_int i / 1000)"

lemma on_grid_round: "on_grid (py_round 3 x)"
  by (auto simp: on_grid_def py_round_def)

lemma on_grid_less:
  assumes "on_grid a" "on_grid b"
  shows "a < b - rc_eps \<longleftrightarrow> a < b" "\<bar>a - b\<bar> \<le> rc_eps \<longleftrightarrow> a = b"
proof -
  obtain i j where ij: "a = of_int i / 1000" "b = of_int j / 1000" using assms by (auto simp: on_grid_def)
  have e: "a - b = of_int (i - j) / 1000" by (simp add: ij diff_divide_distrib)
  have "i < j \<or> i = j \<or> j < i" by linarith
  then consider "of_int (i - j) \<le> (- 1 :: rat)" "a < b" | "a = b" | "(1 :: rat) \<le> of_int (i - j)" "b < a"
    by (elim disjE) (auto simp: ij simp flip: of_int_minus)
  then show "a < b - rc_eps \<longleftrightarrow> a < b" "\<bar>a - b\<bar> \<le> rc_eps \<longleftrightarrow> a = b"
    using e by (cases; simp add: rc_eps_def)+
qed

lemma evaluate_grid: "evaluate ns es loads = Inr (Some m) \<Longrightarrow> on_grid (cm_loss m)"
  by (auto simp: evaluate_def bindR_eq_Inr metrics_of_def pf_solve_def Let_def on_grid_round split: prod.splits if_splits)

text \<open>The search keeps the least loss, and among equal losses the fewest changes.\<close>

definition not_worse :: "(bool list \<Rightarrow> nat) \<Rightarrow> choice \<Rightarrow> bool list \<Rightarrow> config_metrics \<Rightarrow> bool" where
  "not_worse ch b c m \<longleftrightarrow> (case b of (mb, _, kb) \<Rightarrow> cm_loss mb < cm_loss m \<or> cm_loss mb = cm_loss m \<and> kb \<le> ch c)"

definition best_of :: "(bool list \<Rightarrow> config_metrics option result) \<Rightarrow> (bool list \<Rightarrow> nat) \<Rightarrow> bool list set \<Rightarrow> choice option \<Rightarrow> bool" where
  "best_of ev ch C best \<longleftrightarrow> (case best of None \<Rightarrow> \<forall>c\<in>C. ev c = Inr None
     | Some (m, c, k) \<Rightarrow> c \<in> C \<and> ev c = Inr (Some m) \<and> k = ch c \<and>
         (\<forall>c'\<in>C. \<forall>m'. ev c' = Inr (Some m') \<longrightarrow> not_worse ch (m, c, k) c' m'))"

lemma best_of_step:
  assumes "best_of ev ch C best" "ev c = Inr (Some m)" "\<And>c m. ev c = Inr (Some m) \<Longrightarrow> on_grid (cm_loss m)"
  shows "best_of ev ch (insert c C) (if better m (ch c) best then Some (m, c, ch c) else best)"
proof (cases best)
  case None
  then show ?thesis using assms(1,2) by (auto simp: best_of_def better_def not_worse_def)
next
  case (Some b)
  obtain mb cb kb where b: "b = (mb, cb, kb)" by (cases b)
  have inv: "cb \<in> C" "ev cb = Inr (Some mb)" "kb = ch cb"
    "\<And>c' m'. c' \<in> C \<Longrightarrow> ev c' = Inr (Some m') \<Longrightarrow> not_worse ch b c' m'"
    using assms(1) by (auto simp: best_of_def Some b)
  have bet: "better m (ch c) best \<longleftrightarrow> cm_loss m < cm_loss mb \<or> cm_loss m = cm_loss mb \<and> ch c < kb"
    using on_grid_less [OF assms(3) [OF assms(2)] assms(3) [OF inv(2)]] by (simp add: better_def Some b)
  show ?thesis
  proof (cases "better m (ch c) best")
    case True
    have "not_worse ch (m, c, ch c) c' m'" if c': "c' \<in> insert c C" "ev c' = Inr (Some m')" for c' m'
    proof (cases "c' = c")
      case False
      then have "not_worse ch b c' m'" using inv(4) c' by blast
      then show ?thesis using bet True by (auto simp: not_worse_def b)
    qed (use c' assms(2) in \<open>simp add: not_worse_def\<close>)
    then show ?thesis using True assms(2) by (simp add: best_of_def)
  next
    case False
    have "not_worse ch (mb, cb, kb) c' m'" if c': "c' \<in> insert c C" "ev c' = Inr (Some m')" for c' m'
    proof (cases "c' \<in> C")
      case True
      then show ?thesis using inv(4) c'(2) by (simp add: b)
    next
      case nc: False
      then have "m' = m" "c' = c" using c' assms(2) by auto
      then show ?thesis using bet False by (auto simp: not_worse_def)
    qed
    then show ?thesis using False inv(1-3) by (simp add: best_of_def Some b)
  qed
qed

lemma search_best:
  assumes "\<And>c m. ev c = Inr (Some m) \<Longrightarrow> on_grid (cm_loss m)" "\<And>c. c \<in> set cs \<Longrightarrow> \<exists>m. ev c = Inr m"
  shows "best_of ev ch C best \<Longrightarrow> \<exists>f' best'. search ev ch cs f best = Inr (f', best') \<and> best_of ev ch (C \<union> set cs) best'"
  using assms(2)
proof (induction cs arbitrary: C f best)
  case (Cons c cs)
  obtain m where m: "ev c = Inr m" using Cons.prems(2) [of c] by auto
  show ?case
  proof (cases m)
    case None
    then have "best_of ev ch (insert c C) best" using Cons.prems(1) m by (auto simp: best_of_def split: option.splits)
    from Cons.IH [OF this, of f] Cons.prems(2) show ?thesis by (simp add: m None)
  next
    case (Some x)
    have "best_of ev ch (insert c C) (if better x (ch c) best then Some (x, c, ch c) else best)"
      using best_of_step [OF Cons.prems(1) _ assms(1)] m Some by simp
    from Cons.IH [OF this, of "Suc f"] Cons.prems(2) show ?thesis by (simp add: m Some)
  qed
qed simp

lemma set_combos: "set (combos n) = {c. length c = n}"
proof (induction n)
  case (Suc n)
  have "c \<in> set (combos (Suc n)) \<longleftrightarrow> length c = Suc n" for c
    by (cases c) (auto simp: Suc image_iff)
  then show ?case by blast
qed simp

lemma length_combos: "length (combos n) = 2 ^ n"
  by (induction n) simp_all

lemma dangling_configure: "dangling ns es = [] \<Longrightarrow> dangling ns (configure cs es) = []"
  unfolding configure_def by (induction cs arbitrary: es) (auto simp: dangling_set_closed)

lemma evaluate_total:
  assumes "source_ids ns \<noteq> []" "dangling ns es = []"
  shows "\<exists>m. evaluate ns es loads = Inr m"
proof -
  obtain p where "pf_solve ns es loads = Inr p" using study_pf [OF assms] by blast
  then show ?thesis by (auto simp: evaluate_def radial_feasible_def study_energized [OF assms(2)])
qed

theorem n1_analysis_sound_witness:
  "\<exists>r. analyze (grid_nodes demo_db) (grid_edges demo_db) [(''C'', [(CHR ''a'', (20, 0))])] [(''C'', 3)] [] = Inr r \<and>
     mset (map ct_element (n1_rows r)) = {#''E1'', ''E2'', ''E3''#}"
proof -
  have "study_ok (grid_nodes demo_db) (grid_edges demo_db)" by code_simp
  moreover have "map edge_id (n1_candidates (grid_edges demo_db)) = [''E1'', ''E2'', ''E3'']" by code_simp
  ultimately show ?thesis
    using n1_analysis_sound [of "grid_nodes demo_db" "grid_edges demo_db" "[(''C'', [(CHR ''a'', (20, 0))])]" "[(''C'', 3)]" "[]"] by auto
qed

text \<open>
  The exhaustive search minimises loss. It always returns, has evaluated every combination of
  the reconfigurable switches, and recommends a feasible configuration of the least loss, of those the
  one with the fewest changes; the plan lists these changes. It recommends nothing only if no
  combination is feasible. Feasible means radial and supplied: unlike what its documentation says,
  the search does not compare violations (\<open>violations_not_considered\<close>).
\<close>

theorem reconfiguration_optimal:
  assumes "study_ok ns es"
  shows "\<exists>r. recommend_config ns es loads = Inr r \<and> rc_evaluated r = 2 ^ length (current_state es) \<and>
    (case rc_recommended r of
       None \<Rightarrow> \<forall>c. length c = length (current_state es) \<longrightarrow> try_config ns es loads c = Inr None
     | Some m \<Rightarrow> \<exists>c. length c = length (current_state es) \<and> try_config ns es loads c = Inr (Some m) \<and> rc_plan r = change_plan (current_state es) c \<and>
         (\<forall>c' m'. length c' = length (current_state es) \<and> try_config ns es loads c' = Inr (Some m') \<longrightarrow>
            cm_loss m < cm_loss m' \<or> cm_loss m = cm_loss m' \<and> n_changes (current_state es) c \<le> n_changes (current_state es) c'))"
proof -
  let ?ev = "try_config ns es loads"
  let ?cur = "current_state es"
  have d: "dangling ns es = []" "source_ids ns \<noteq> []" using assms(1) by (auto simp: study_ok_def)
  obtain m0 where m0: "evaluate ns es loads = Inr m0" using evaluate_total [OF d(2,1)] by blast
  have tot: "\<exists>m. ?ev c = Inr m" for c
    unfolding try_config_def by (rule evaluate_total [OF d(2) dangling_configure [OF d(1)]])
  have grid: "on_grid (cm_loss m)" if "?ev c = Inr (Some m)" for c m
    using that unfolding try_config_def by (rule evaluate_grid)
  have "best_of ?ev (n_changes ?cur) {} None" by (simp add: best_of_def)
  with search_best [of ?ev "combos (length ?cur)" "n_changes ?cur" "{}" None 0] grid tot
  obtain f best where s: "search ?ev (n_changes ?cur) (combos (length ?cur)) 0 None = Inr (f, best)"
    "best_of ?ev (n_changes ?cur) {c. length c = length ?cur} best" by (auto simp: set_combos)
  obtain r where "recommend_config ns es loads = Inr r \<and> rc_evaluated r = 2 ^ length ?cur \<and> rc_recommended r = map_option fst best \<and>
      rc_plan r = (case best of None \<Rightarrow> [] | Some (_, c, _) \<Rightarrow> change_plan ?cur c)"
    using s(1) by (simp add: recommend_config_def Let_def m0 length_combos)
  note r = this
  show ?thesis
  proof (cases best)
    case None
    then show ?thesis using r s(2) by (intro exI [of _ r]) (simp add: best_of_def)
  next
    case (Some b)
    obtain m c k where "b = (m, c, k)" by (cases b)
    then show ?thesis using r s(2) Some
      by (intro exI [of _ r]) (auto simp: best_of_def not_worse_def intro!: exI [of _ c])
  qed
qed


theorem reconfiguration_optimal_witness:
  "\<exists>r. recommend_config (grid_nodes demo_db) (grid_edges demo_db) [(''C'', [(CHR ''a'', (20, 0))])] = Inr r \<and> rc_evaluated r = 16"
proof -
  have "study_ok (grid_nodes demo_db) (grid_edges demo_db)" by code_simp
  moreover have "length (current_state (grid_edges demo_db)) = 4" by code_simp
  ultimately show ?thesis
    using reconfiguration_optimal [of "grid_nodes demo_db" "grid_edges demo_db" "[(''C'', [(CHR ''a'', (20, 0))])]"] by auto
qed

subsection \<open>Limits of the studies\<close>

text \<open>
  \<^verbatim>\<open>method\<close> says the search is subject to \<open>no voltage/thermal violation\<close>, but the number of violations of
  a configuration has no influence on the choice.
\<close>

lemma violations_not_considered:
  "better (m\<lparr>cm_violations := v\<rparr>) k best = better m k best"
  "evaluate ns es loads = Inr (Some m) \<longleftrightarrow> (\<exists>energ p. radial_feasible ns es = Inr (True, energ) \<and> pf_solve ns es loads = Inr p \<and>
     pr_converged p \<and> m = metrics_of es p)"
  by (auto simp: better_def evaluate_def bindR_eq_Inr split: option.splits prod.splits if_splits)

text \<open>
  Customers at nodes without load do not count: whoever stays without service, an outage that loses no
  load and violates no limit is secure or restorable.
\<close>

lemma unserved_customers_secure:
  assumes "n1_outage ns es loads cust fl base ce = Inr r" "\<forall>n\<in>set base. classif_load loads fl n = 0" "ct_violations r = 0"
  shows "ct_class r \<in> {''secure'', ''restorable''}"
proof -
  have "rats_sum (map (classif_load loads fl) (filter P base)) = 0" for P
    unfolding rats_sum_def using assms(2) by (induction base) auto
  then have "total_load loads fl (filter P base) = 0" for P by (simp add: total_load_def)
  then show ?thesis using assms(1,3)
    by (auto simp: n1_outage_def Let_def bindR_eq_Inr n1_class_def split: if_splits)
qed

end
