(* ===== verification/Fault_Location.thy ===== *)
theory Fault_Location
  imports Power_Flow Estimation_Service
begin

text \<open>
  Where a fault is: \<^verbatim>\<open>locate\<close> of \<^verbatim>\<open>src/fastapi/dms/fault_location.py\<close>, from the fault current by the
  impedance of the path and from the nodes that report an outage by the subtree that matches them
  best, and the endpoint over it in \<^verbatim>\<open>routers/dms.py\<close>.
\<close>

subsection \<open>From the fault current\<close>

record z_candidate =
  zc_section :: string
  zc_node :: string
  zc_distance :: rat
  zc_z_pu :: rat
  zc_current :: rat
  zc_error :: rat

definition path_impedance :: "radial \<Rightarrow> string \<Rightarrow> cx" where
  "path_impedance t n = foldl (\<lambda>z e. cx_add z (edge_pu t (edge_id e))) (0, 0) (path_of t n)"

definition path_length_km :: "grid_edge list \<Rightarrow> rat" where
  "path_length_km es = rats_sum (map (\<lambda>e. or_else (length_km e) 0) es)"

definition z_candidate_of :: "radial \<Rightarrow> rat \<Rightarrow> string \<Rightarrow> z_candidate list" where
  "z_candidate_of t amps n = (case rt_parent_edge t n of None \<Rightarrow> [] | Some e \<Rightarrow>
     let z = cx_abs (path_impedance t n) in
     if z \<le> 1 / 10 ^ 9 then [] else
       let i_est = (1 / z) * (sbase_kw / (sqrt3 * kv_of (rt_nodes t) n)) in
       [\<lparr>zc_section = edge_id e, zc_node = n, zc_distance = py_round 3 (path_length_km (path_of t n)),
         zc_z_pu = py_round 4 z, zc_current = py_round 1 i_est,
         zc_error = py_round 1 (100 * (\<bar>i_est - amps\<bar> / amps))\<rparr>])"

definition z_candidates :: "radial \<Rightarrow> rat option \<Rightarrow> z_candidate list" where
  "z_candidates t current = (case current of None \<Rightarrow> []
     | Some a \<Rightarrow> if 0 < a then sort_key zc_error (concat (map (z_candidate_of t a) (state_nodes t))) else [])"

subsection \<open>From the reports\<close>

record section_match =
  sm_section :: string
  sm_subtree :: "string list"
  sm_score :: rat
  sm_matches :: bool

definition jaccard :: "string list \<Rightarrow> string list \<Rightarrow> rat" where
  "jaccard sub reps = (let i = length (filter (\<lambda>n. n \<in> set reps) (remdups sub)); u = length (remdups (sub @ reps))
     in if u = 0 then 0 else of_nat i / of_nat u)"

text \<open>The next section replaces the best one if its exact score is above the rounded score of the best.\<close>

definition match_step :: "radial \<Rightarrow> string list \<Rightarrow> string \<Rightarrow> section_match option \<Rightarrow> section_match option" where
  "match_step t reps n best = (case rt_parent_edge t n of None \<Rightarrow> best | Some e \<Rightarrow>
     let sub = subtree_of t (edge_id e); j = jaccard sub reps in
     if (case best of None \<Rightarrow> True | Some b \<Rightarrow> sm_score b < j)
     then Some \<lparr>sm_section = edge_id e, sm_subtree = sort sub, sm_score = py_round 3 j, sm_matches = (set sub = set reps)\<rparr>
     else best)"

definition topological :: "radial \<Rightarrow> string list \<Rightarrow> section_match option" where
  "topological t reps = (if reps = [] then None else fold (match_step t reps) (state_nodes t) None)"

subsection \<open>The estimate\<close>

record fault_estimate =
  fe_method :: string
  fe_section :: string
  fe_distance :: "rat option"

record fault_report =
  fr_nodes :: "string list"
  fr_candidates :: "z_candidate list"
  fr_topological :: "section_match option"
  fr_best :: "fault_estimate option"

definition best_estimate :: "z_candidate list \<Rightarrow> section_match option \<Rightarrow> fault_estimate option" where
  "best_estimate zs topo = (case topo of
     Some m \<Rightarrow> if sm_matches m then Some \<lparr>fe_method = ''topological+impedance'', fe_section = sm_section m,
           fe_distance = (case filter (\<lambda>c. zc_node c \<in> set (sm_subtree m)) zs of [] \<Rightarrow> None | c # _ \<Rightarrow> Some (zc_distance c))\<rparr>
       else (case zs of c # _ \<Rightarrow> Some \<lparr>fe_method = ''impedance'', fe_section = zc_section c, fe_distance = Some (zc_distance c)\<rparr>
         | [] \<Rightarrow> Some \<lparr>fe_method = ''topological'', fe_section = sm_section m, fe_distance = None\<rparr>)
   | None \<Rightarrow> (case zs of c # _ \<Rightarrow> Some \<lparr>fe_method = ''impedance'', fe_section = zc_section c, fe_distance = Some (zc_distance c)\<rparr>
         | [] \<Rightarrow> None))"

definition locate :: "grid_node list \<Rightarrow> grid_edge list \<Rightarrow> rat option \<Rightarrow> string list \<Rightarrow> fault_report result" where
  "locate ns es current reps = bindR (build_radial ns es) (\<lambda>t. let zs = z_candidates t current; topo = topological t reps in
     Inr \<lparr>fr_nodes = sort reps, fr_candidates = take 5 zs, fr_topological = topo, fr_best = best_estimate zs topo\<rparr>)"

definition fault_location_locate :: "principal option \<Rightarrow> rat option \<Rightarrow> string list \<Rightarrow> db \<Rightarrow> fault_report result" where
  "fault_location_locate po current reps s = read_guard po (\<lambda>_.
     if present current = None \<and> reps = [] then Inl (HTTPException 422 (Fmt ''provide fault_current_a and/or outage_nodes'' []))
     else as_conflict ''fault location failed: {}'' (locate (grid_nodes s) (grid_edges s) current reps))"

subsection \<open>Exact reports\<close>

lemma jaccard_one: "set sub = set reps \<Longrightarrow> reps \<noteq> [] \<Longrightarrow> jaccard sub reps = 1"
proof -
  assume s: "set sub = set reps" "reps \<noteq> []"
  have "filter (\<lambda>n. n \<in> set reps) (remdups sub) = remdups sub" using s(1) by (simp add: filter_id_conv)
  moreover have "length (remdups sub) = card (set reps)" "length (remdups (sub @ reps)) = card (set reps)"
    by (simp_all only: length_remdups_card_conv set_append s(1) Un_absorb)
  moreover have "card (set reps) \<noteq> 0" using s(2) by simp
  ultimately show ?thesis by (simp add: jaccard_def Let_def)
qed

text \<open>Otherwise at least one node is on one side only, which costs more than the rounding hides below 2000 nodes.\<close>

lemma jaccard_less:
  assumes "set sub \<noteq> set reps" "card (set sub \<union> set reps) < 2000"
  shows "jaccard sub reps < 1 - 1 / 2000"
proof -
  let ?u = "card (set sub \<union> set reps)"
  let ?i = "card (set sub \<inter> set reps)"
  have "length (filter (\<lambda>n. n \<in> set reps) (remdups sub)) = ?i"
    by (simp add: distinct_card [symmetric] Int_def conj_commute)
  moreover have "length (remdups (sub @ reps)) = ?u" by (simp only: length_remdups_card_conv set_append)
  ultimately have j: "jaccard sub reps = (if ?u = 0 then 0 else of_nat ?i / of_nat ?u)" by (simp add: jaccard_def Let_def)
  have "set sub \<inter> set reps \<subset> set sub \<union> set reps" using assms(1) by blast
  then have "?i < ?u" by (intro psubset_card_mono) auto
  then have "of_nat ?i \<le> (of_nat ?u - 1 :: rat)" "(0 :: rat) < of_nat ?u" by simp_all
  moreover have "(of_nat ?u :: rat) < 2000" using assms(2) by simp
  ultimately show ?thesis by (simp add: j field_simps)
qed


lemma rounded_below_one: "j < 1 - 1 / 2000 \<Longrightarrow> py_round 3 j < 1"
proof -
  assume "j < 1 - 1 / 2000"
  then have "j * 1000 < 999 + 1 / 2" by simp
  then have "of_int (round_even (j * 1000)) < (1000 :: rat)" using round_even_error [of "j * 1000"] by linarith
  then show ?thesis by (simp add: py_round_def)
qed

text \<open>The nodes below a section, and which section they tell.\<close>

lemma section_subtree:
  assumes "build_radial ns es = Inr t" "distinct (map edge_id es)" "map_of (rt_parents t) n = Some (p, e)"
  shows "set (subtree_of t (edge_id e)) = below (kid_rel (rt_parents t)) n"
  using subtree_set [OF assms] by (auto simp: subtree_of_def)

lemma below_inj:
  assumes "acyclic r" "below r n = below r n'"
  shows "n = n'"
proof (rule ccontr)
  assume ne: "n \<noteq> n'"
  have "(n, n') \<in> r\<^sup>*" "(n', n) \<in> r\<^sup>*" using assms(2) by (auto simp: below_def)
  with ne have "(n, n) \<in> r\<^sup>+" by (auto simp: rtrancl_eq_or_trancl)
  with assms(1) show False by (simp add: acyclic_def)
qed

lemma section_told:
  assumes "build_radial ns es = Inr t" "distinct (map edge_id es)" "map_of (rt_parents t) n = Some (p, e)"
    "map_of (rt_parents t) n' = Some (p', e')"
    "set (subtree_of t (edge_id e)) = set (subtree_of t (edge_id e'))"
  shows "e' = e"
proof -
  have "n = n'"
    using below_inj [OF rooted_acyclic [OF build_radial_rooted [OF assms(1)]]] assms(5)
      section_subtree [OF assms(1,2)] assms(3,4) by metis
  with assms(3,4) show ?thesis by simp
qed

lemma dangling_set:
  "set (dangling ns es) = {x. x \<notin> set (map node_id ns) \<and> (\<exists>e\<in>set es. x = from_node e \<or> x = to_node e)}"
  unfolding dangling_def set_concat set_map image_image set_filter by auto

lemma tree_nodes:
  assumes "build_radial ns es = Inr t"
  shows "set (seen_of (rt_root t) (rt_parents t)) \<subseteq> set (map node_id ns)"
proof
  let ?A = "labelled_arcs (filter is_closed es)"
  have ok: "dangling ns (filter is_closed es) = []"
    using assms by (auto simp: build_radial_def Let_def split: list.splits prod.splits)
  fix n assume n: "n \<in> set (seen_of (rt_root t) (rt_parents t))"
  show "n \<in> set (map node_id ns)"
  proof (cases "n = rt_root t")
    case True
    then show ?thesis using build_radial_walk(4) [OF assms] by auto
  next
    case False
    with n obtain p e where "(n, p, e) \<in> set (rt_parents t)" by (auto simp: set_seen_of)
    then have "(p, n, e) \<in> set ?A" using build_radial_walk(1) [OF assms] by (auto simp: tree_inv_def)
    moreover have "from_node e \<in> set (map node_id ns) \<and> to_node e \<in> set (map node_id ns)"
      if "e \<in> set es" "is_closed e" for e
    proof -
      have "set (dangling ns (filter is_closed es)) = {}" using ok by simp
      with that show ?thesis unfolding dangling_set by auto
    qed
    ultimately show ?thesis by (auto simp: labelled_arcs_iff)
  qed
qed

lemma below_tree:
  assumes "rooted rt par" "map_of par n = Some (p, e)"
  shows "below (kid_rel par) n \<subseteq> set (seen_of rt par)"
proof
  fix m assume "m \<in> below (kid_rel par) n"
  then have "(n, m) \<in> (kid_rel par)\<^sup>*" by (simp add: below_def)
  moreover have "n \<in> set (seen_of rt par)" using map_of_SomeD [OF assms(2)] by (force simp: set_seen_of)
  ultimately show "m \<in> set (seen_of rt par)"
    using kid_rel_seen [OF assms(1)] by cases (auto simp: set_seen_of)
qed

text \<open>
  The best section so far: a section of the tree with its nodes, exact with the full score, or
  with a rounded score below it.
\<close>

definition fits :: "radial \<Rightarrow> string list \<Rightarrow> section_match \<Rightarrow> bool" where
  "fits t reps b \<longleftrightarrow>
     (\<exists>n p e. map_of (rt_parents t) n = Some (p, e) \<and> sm_section b = edge_id e \<and>
        set (sm_subtree b) = set (subtree_of t (edge_id e))) \<and>
     (if sm_matches b then sm_score b = 1 \<and> set (sm_subtree b) = set reps else sm_score b < 1)"

text \<open>A score is told from the full one, for the sections of the tree.\<close>

definition few_nodes :: "radial \<Rightarrow> string list \<Rightarrow> bool" where
  "few_nodes t reps \<longleftrightarrow> (\<forall>n p e. map_of (rt_parents t) n = Some (p, e) \<longrightarrow>
     card (set (subtree_of t (edge_id e)) \<union> set reps) < 2000)"

lemma match_step_fits:
  assumes "reps \<noteq> []" "few_nodes t reps" "\<forall>b. best = Some b \<longrightarrow> fits t reps b"
  shows "\<forall>b. match_step t reps n best = Some b \<longrightarrow> fits t reps b"
    "\<exists>b. best = Some b \<and> sm_matches b \<Longrightarrow> \<exists>b. match_step t reps n best = Some b \<and> sm_matches b"
    "map_of (rt_parents t) n = Some (p, e) \<Longrightarrow> set (subtree_of t (edge_id e)) = set reps \<Longrightarrow>
       \<exists>b. match_step t reps n best = Some b \<and> sm_matches b"
proof -
  have j: "if set (subtree_of t (edge_id e)) = set reps then jaccard (subtree_of t (edge_id e)) reps = 1
      else py_round 3 (jaccard (subtree_of t (edge_id e)) reps) < 1 \<and> jaccard (subtree_of t (edge_id e)) reps < 1"
    if "map_of (rt_parents t) n = Some (p, e)" for n p e
    using that jaccard_one [OF _ assms(1)] jaccard_less [of "subtree_of t (edge_id e)" reps] rounded_below_one assms(2)
    by (force simp: few_nodes_def)
  have one: "py_round 3 1 = 1" by code_simp
  show "\<forall>b. match_step t reps n best = Some b \<longrightarrow> fits t reps b"
  proof (cases "map_of (rt_parents t) n")
    case None
    with assms(3) show ?thesis by (simp add: match_step_def rt_parent_edge_def)
  next
    case (Some q)
    then obtain p e where pe: "map_of (rt_parents t) n = Some (p, e)" by (cases q) auto
    let ?m = "\<lparr>sm_section = edge_id e, sm_subtree = sort (subtree_of t (edge_id e)),
      sm_score = py_round 3 (jaccard (subtree_of t (edge_id e)) reps), sm_matches = (set (subtree_of t (edge_id e)) = set reps)\<rparr>"
    have "fits t reps ?m" using j [OF pe] pe one by (auto simp: fits_def)
    moreover have "match_step t reps n best = Some ?m \<or> match_step t reps n best = best"
      by (simp add: match_step_def rt_parent_edge_def pe Let_def)
    ultimately show ?thesis using assms(3) by auto
  qed
  show "\<exists>b. match_step t reps n best = Some b \<and> sm_matches b" if "\<exists>b. best = Some b \<and> sm_matches b"
  proof -
    from that obtain b where b: "best = Some b" "sm_matches b" "sm_score b = 1" using assms(3) by (auto simp: fits_def)
    show ?thesis
    proof (cases "map_of (rt_parents t) n")
      case None
      with b show ?thesis by (simp add: match_step_def rt_parent_edge_def)
    next
      case (Some q)
      then obtain p e where pe: "map_of (rt_parents t) n = Some (p, e)" by (cases q) auto
      have "\<not> 1 < jaccard (subtree_of t (edge_id e)) reps" using j [OF pe] by (auto split: if_splits)
      with b pe show ?thesis by (simp add: match_step_def rt_parent_edge_def Let_def)
    qed
  qed
  show "\<exists>b. match_step t reps n best = Some b \<and> sm_matches b"
    if "map_of (rt_parents t) n = Some (p, e)" "set (subtree_of t (edge_id e)) = set reps"
    using that j [OF that(1)] assms(3)
    by (auto simp: match_step_def rt_parent_edge_def Let_def fits_def split: option.splits if_splits)
qed

lemma topological_exact:
  assumes "reps \<noteq> []" "few_nodes t reps"
  shows "\<forall>b. best = Some b \<longrightarrow> fits t reps b \<Longrightarrow>
    (\<exists>b. best = Some b \<and> sm_matches b) \<or>
    (\<exists>n\<in>set xs. \<exists>p e. map_of (rt_parents t) n = Some (p, e) \<and> set (subtree_of t (edge_id e)) = set reps) \<Longrightarrow>
    \<exists>b. fold (match_step t reps) xs best = Some b \<and> sm_matches b \<and> fits t reps b"
proof (induction xs arbitrary: best)
  case (Cons n xs)
  note st = match_step_fits [OF assms Cons.prems(1), of n]
  have "(\<exists>b. match_step t reps n best = Some b \<and> sm_matches b) \<or>
      (\<exists>n\<in>set xs. \<exists>p e. map_of (rt_parents t) n = Some (p, e) \<and> set (subtree_of t (edge_id e)) = set reps)"
    using Cons.prems(2) st(2,3) by auto
  from Cons.IH [OF st(1) this] show ?case by simp
qed auto

text \<open>
  C29: a report that is exactly what lies below a section is located in that section. On a network
  of fewer than 2000 nodes with distinct edge ids, when the reporting nodes are a node and all nodes
  that are fed through it, the section found is the edge that feeds this node, and no other, with the
  full score and exactly the reporting nodes below it; and the combined estimate names this edge,
  whatever the fault current.
\<close>

theorem exact_report_located:
  assumes "build_radial ns es = Inr t" "distinct (map edge_id es)" "length ns < 2000"
    "map_of (rt_parents t) n = Some (p, e)" "set reps = {m. (n, m) \<in> (kid_rel (rt_parents t))\<^sup>*}"
  shows "\<exists>r m d. locate ns es current reps = Inr r \<and> fr_topological r = Some m \<and>
    sm_section m = edge_id e \<and> sm_matches m \<and> set (sm_subtree m) = set reps \<and> sm_score m = 1 \<and>
    fr_best r = Some \<lparr>fe_method = ''topological+impedance'', fe_section = edge_id e, fe_distance = d\<rparr>"
proof -
  let ?par = "rt_parents t"
  note sub = section_subtree [OF assms(1,2)]
  have r: "rooted (rt_root t) ?par" by (rule build_radial_rooted [OF assms(1)])
  have reps: "set reps = below (kid_rel ?par) n" using assms(5) by (simp add: below_def)
  then have ne: "reps \<noteq> []" by (auto simp: below_def)
  have "card (set (subtree_of t (edge_id e')) \<union> set reps) < 2000" if e': "map_of ?par n' = Some (p', e')" for n' p' e'
  proof -
    have "set (subtree_of t (edge_id e')) \<union> set reps \<subseteq> set (map node_id ns)"
      using sub [OF e'] reps below_tree [OF r e'] below_tree [OF r assms(4)] tree_nodes [OF assms(1)] by blast
    then have "card (set (subtree_of t (edge_id e')) \<union> set reps) \<le> length (map node_id ns)"
      using card_length le_trans card_mono [of "set (map node_id ns)"] by blast
    with assms(3) show ?thesis by simp
  qed
  then have few: "few_nodes t reps" by (auto simp: few_nodes_def)
  have "n \<in> set (rt_order t)"
    using map_of_SomeD [OF assms(4)] build_radial_walk(1) [OF assms(1)] by (force simp: tree_inv_def set_seen_of)
  moreover have "n \<noteq> rt_root t" using map_of_SomeD [OF assms(4)] rooted_top [OF r] by (auto simp: kid_rel_iff)
  ultimately have "n \<in> set (state_nodes t)" by (simp add: state_nodes_def)
  with topological_exact [OF ne few, of None "state_nodes t"] assms(4) sub [OF assms(4)] reps ne
  obtain m where m: "topological t reps = Some m" "sm_matches m" "fits t reps m"
    by (auto simp: topological_def)
  then obtain n' p' e' where e': "map_of ?par n' = Some (p', e')" "sm_section m = edge_id e'"
    "set (subtree_of t (edge_id e')) = set reps" by (auto simp: fits_def)
  have "e' = e" by (rule section_told [OF assms(1,2,4) e'(1)]) (use e'(3) sub [OF assms(4)] reps in simp)
  with m e' show ?thesis by (simp add: locate_def assms(1) Let_def best_estimate_def fits_def)
qed

lemma rtrancl_step: "(x, m) \<in> r\<^sup>* \<longleftrightarrow> m = x \<or> (\<exists>y. (x, y) \<in> r \<and> (y, m) \<in> r\<^sup>*)"
  by (auto elim: converse_rtranclE intro: converse_rtrancl_into_rtrancl)

theorem exact_report_located_witness:
  "\<exists>r m. locate (grid_nodes demo_db) (grid_edges demo_db) (Some 800) [''C'', ''B''] = Inr r \<and> fr_topological r = Some m \<and>
     sm_section m = ''E2'' \<and> map_option fe_section (fr_best r) = Some ''E2''"
proof -
  have "map_sum id (\<lambda>t. (map (\<lambda>(n, p, e). (n, p, edge_id e)) (rt_parents t),
      map_option (\<lambda>(p, e). (p, edge_id e)) (map_of (rt_parents t) ''B'')))
      (build_radial (grid_nodes demo_db) (grid_edges demo_db))
    = Inr ([(''A'', ''S1'', ''E1''), (''B'', ''A'', ''E2''), (''C'', ''B'', ''E3'')], Some (''A'', ''E2''))"
    and ids: "distinct (map edge_id (grid_edges demo_db))" "length (grid_nodes demo_db) < 2000" by code_simp+
  then obtain t e where t: "build_radial (grid_nodes demo_db) (grid_edges demo_db) = Inr t"
    "map (\<lambda>(n, p, e). (n, p, edge_id e)) (rt_parents t) = [(''A'', ''S1'', ''E1''), (''B'', ''A'', ''E2''), (''C'', ''B'', ''E3'')]"
    "map_of (rt_parents t) ''B'' = Some (''A'', e)" "edge_id e = ''E2''"
    by (cases "build_radial (grid_nodes demo_db) (grid_edges demo_db)") auto
  have k: "kid_rel (rt_parents t) = (\<lambda>(n, p, i). (p, n)) ` set (map (\<lambda>(n, p, e). (n, p, edge_id e)) (rt_parents t))"
    by (force simp: kid_rel_def)
  have kid: "kid_rel (rt_parents t) = {(''S1'', ''A''), (''A'', ''B''), (''B'', ''C'')}"
    unfolding k t(2) by auto
  let ?R = "{(''S1'', ''A''), (''A'', ''B''), (''B'', ''C'')}"
  have c: "(''C'', m) \<in> ?R\<^sup>* \<longleftrightarrow> m = ''C''" for m
    unfolding rtrancl_step [of "''C''"] by simp
  have "(''B'', m) \<in> (kid_rel (rt_parents t))\<^sup>* \<longleftrightarrow> m = ''B'' \<or> m = ''C''" for m
    unfolding kid rtrancl_step [of "''B''"] using c [of m] by auto
  then have reps: "set [''C'', ''B''] = {m. (''B'', m) \<in> (kid_rel (rt_parents t))\<^sup>*}" by (simp add: set_eq_iff) blast
  obtain r m d where "locate (grid_nodes demo_db) (grid_edges demo_db) (Some 800) [''C'', ''B''] = Inr r"
    "fr_topological r = Some m" "sm_section m = edge_id e"
    "fr_best r = Some \<lparr>fe_method = ''topological+impedance'', fe_section = edge_id e, fe_distance = d\<rparr>"
    using exact_report_located [OF t(1) ids t(3) reps, of "Some 800"] by blast
  with t(4) show ?thesis by (intro exI [of _ r] exI [of _ m]) simp
qed


text \<open>
  The exact score of a section is compared with the rounded score of the best one before it. Two
  laterals match a report equally well, one third each; the second takes the place of the first,
  because one third is more than 0.333.
\<close>

definition fork_nodes :: "grid_node list" where
  "fork_nodes = [mk_node ''S'' ''substation'' None, mk_node ''A'' ''meter'' None, mk_node ''B'' ''meter'' None]"

definition fork_edges :: "grid_edge list" where
  "fork_edges = [mk_edge ''E1'' ''S'' ''A'' ''line'' True, mk_edge ''E2'' ''S'' ''B'' ''line'' True]"

lemma equal_match_replaces:
  "map_sum id (\<lambda>t. (state_nodes t, map (\<lambda>k. jaccard (subtree_of t k) [''A'', ''B'', ''C'']) [''E1'', ''E2''],
     map_option sm_section (topological t [''A'', ''B'', ''C'']))) (build_radial fork_nodes fork_edges)
   = Inr ([''B'', ''A''], [1 / 3, 1 / 3], Some ''E1'')"
  by code_simp

end
