(* ===== verification/Wire_Numbers.thy ===== *)
theory Wire_Numbers
  imports Py_Numbers "HOL-Library.Word" "HOL-Library.Log_Nat"
begin

text \<open>
  Bytes and the parts of Python's \<^verbatim>\<open>struct\<close> module the field protocols use: big-endian unsigned
  integers (\<^verbatim>\<open>">H"\<close>, \<^verbatim>\<open>">I"\<close>) and IEEE doubles (\<^verbatim>\<open>">d"\<close>), with the round trips. A double is the
  rational its sign, exponent and fraction stand for; the sign of a zero and the payload of a
  \<^verbatim>\<open>nan\<close> are not kept.
\<close>

type_synonym byte = "8 word"

subsection \<open>Indexing\<close>

text \<open>\<^verbatim>\<open>xs[i]\<close>\<close>

definition nth_item :: "'a list \<Rightarrow> nat \<Rightarrow> 'a result" where
  "nth_item xs i = (if i < length xs then Inr (xs ! i) else Inl (IndexErr (Fmt ''list index out of range'' [])))"

subsection \<open>Big-endian integers\<close>

primrec be_bytes :: "nat \<Rightarrow> nat \<Rightarrow> byte list" where
  "be_bytes 0 n = []"
| "be_bytes (Suc k) n = be_bytes k (n div 256) @ [word_of_nat n]"

definition be_value :: "byte list \<Rightarrow> nat" where
  "be_value bs = foldl (\<lambda>n b. n * 256 + unat b) 0 bs"

lemma length_be_bytes [simp]: "length (be_bytes k n) = k"
  by (induction k arbitrary: n) auto

lemma byte_less: "unat (b :: byte) < 256"
  using unsigned_less [of b, where 'a = nat] by simp

lemma be_bytes_2: "be_bytes 2 n = [word_of_nat (n div 256), word_of_nat n]"
  by (simp add: numeral_2_eq_2)

lemma unat_byte: "unat (word_of_nat n :: byte) = n mod 256"
  by (simp add: unat_of_nat)

lemma be_value_bytes: "be_value (be_bytes k n) = n mod 256 ^ k"
proof (induction k arbitrary: n)
  case (Suc k)
  have "be_value (be_bytes (Suc k) n) = be_value (be_bytes k (n div 256)) * 256 + n mod 256"
    by (simp add: be_value_def unat_byte)
  also have "\<dots> = 256 * (n div 256 mod 256 ^ k) + n mod 256" by (simp add: Suc.IH)
  also have "\<dots> = n mod 256 ^ Suc k" by (simp add: mod_mult2_eq)
  finally show ?case .
qed (simp add: be_value_def)

definition pack_be :: "nat \<Rightarrow> nat \<Rightarrow> byte list result" where
  "pack_be k n = (if n < 256 ^ k then Inr (be_bytes k n)
     else Inl (StructErr (Fmt ''argument out of range'' [])))"

definition pack_int :: "nat \<Rightarrow> int \<Rightarrow> byte list result" where
  "pack_int k i = (if i < 0 then Inl (StructErr (Fmt ''argument out of range'' [])) else pack_be k (nat i))"

lemma pack_int_nat [simp]: "pack_int k (int n) = pack_be k n"
  by (simp add: pack_int_def)

definition unpack_be :: "nat \<Rightarrow> byte list \<Rightarrow> nat result" where
  "unpack_be k bs = (if length bs = k then Inr (be_value bs)
     else Inl (StructErr (Fmt ''unpack requires a buffer of {} bytes'' [num_text k])))"

lemma unpack_be_bytes [simp]: "unpack_be k (be_bytes k n) = Inr (n mod 256 ^ k)"
  by (simp add: unpack_be_def be_value_bytes)

text \<open>Fields of two octets, one after the other: \<^verbatim>\<open>">nH"\<close>.\<close>

definition halfwords :: "nat list \<Rightarrow> byte list" where
  "halfwords ns = concat (map (be_bytes 2) ns)"

fun pair_values :: "byte list \<Rightarrow> nat list" where
  "pair_values (hi # lo # bs) = be_value [hi, lo] # pair_values bs"
| "pair_values bs = []"

definition unpack_halfwords :: "nat \<Rightarrow> byte list \<Rightarrow> nat list result" where
  "unpack_halfwords n bs = (if length bs = 2 * n then Inr (pair_values bs)
     else Inl (StructErr (Fmt ''unpack requires a buffer of {} bytes'' [num_text (2 * n)])))"

lemma be_value_two: "be_value [word_of_nat (n div 256), word_of_nat n] = n mod 65536"
  using be_value_bytes [of 2 n] by (simp add: be_bytes_2)

lemma length_halfwords [simp]: "length (halfwords ns) = 2 * length ns"
  by (induction ns) (simp_all add: halfwords_def)

lemma pair_values_halfwords: "pair_values (halfwords ns) = map (\<lambda>n. n mod 65536) ns"
  by (induction ns) (simp_all add: halfwords_def be_bytes_2 be_value_two)

lemma unpack_halfwords_packed [simp]:
  "length ns = n \<Longrightarrow> unpack_halfwords n (halfwords ns) = Inr (map (\<lambda>n. n mod 65536) ns)"
  by (simp add: unpack_halfwords_def pair_values_halfwords)

subsection \<open>Doubles\<close>

text \<open>The value of a sign, a biased exponent and a fraction.\<close>

definition double_of_fields :: "bool \<Rightarrow> nat \<Rightarrow> nat \<Rightarrow> pyfloat" where
  "double_of_fields neg e f =
     (if e = 2047 then if f \<noteq> 0 then NaN else if neg then NegInf else PosInf
      else let m = (if e = 0 then f else 2 ^ 52 + f); x = of_nat m * 2 powi (int (max e 1) - 1075)
           in Fin (if neg then - x else x))"

definition double_value :: "nat \<Rightarrow> pyfloat" where
  "double_value n = double_of_fields (n div 2 ^ 63 mod 2 = 1) (n div 2 ^ 52 mod 2048) (n mod 2 ^ 52)"

text \<open>The largest \<open>k\<close> with \<open>2 ^ k \<le> x\<close>, for a positive \<open>x\<close>.\<close>

definition ilog2 :: "rat \<Rightarrow> int" where
  "ilog2 x = (let (p, q) = quotient_of x; k = bitlen p - bitlen q in if 2 powi k \<le> x then k else k - 1)"

definition magnitude_bits :: "rat \<Rightarrow> nat" where
  "magnitude_bits x = (if x = 0 then 0 else let e = max (ilog2 x) (- 1022) in
     nat (e + 1022) * 2 ^ 52 + nat (round_even (x / 2 powi (e - 52))))"

fun double_bits :: "pyfloat \<Rightarrow> nat" where
  "double_bits (Fin x) = (if x < 0 then 2 ^ 63 else 0) + magnitude_bits \<bar>x\<bar>"
| "double_bits PosInf = 0x7FF0000000000000"
| "double_bits NegInf = 0xFFF0000000000000"
| "double_bits NaN = 0x7FF8000000000000"

text \<open>The values a Python float can take are those its sixty-four bits give back.\<close>

definition is_double :: "pyfloat \<Rightarrow> bool" where
  "is_double v \<longleftrightarrow> double_value (double_bits v) = v"

lemma ilog2_bounds:
  assumes "0 < x"
  shows "2 powi ilog2 x \<le> x" "x < 2 powi (ilog2 x + 1)"
proof -
  obtain p q where pq: "quotient_of x = (p, q)" by fastforce
  have q: "0 < q" using quotient_of_denom_pos [OF pq] .
  have x: "x = of_int p / of_int q" using quotient_of_div [OF pq] .
  with assms q have p: "0 < p" by (simp add: zero_less_divide_iff)
  have bounds: "2 powi (bitlen n - 1) \<le> (of_int n :: rat)" "(of_int n :: rat) < 2 powi bitlen n"
    if "0 < n" for n :: int
  proof -
    have b: "2 ^ nat (bitlen n - 1) \<le> n" "n < 2 ^ nat (bitlen n)" using bitlen_bounds [OF that] by auto
    have "bitlen n \<noteq> 0" using that bitlen_eq_zero_iff [of n] by simp
    with bitlen_nonneg [of n] have pos: "0 < bitlen n" by linarith
    have "(2::rat) powi (bitlen n - 1) = of_int (2 ^ nat (bitlen n - 1))"
      using pos by (simp add: power_int_def)
    then show "2 powi (bitlen n - 1) \<le> (of_int n :: rat)" using b(1) by (simp only: of_int_le_iff)
    have "(2::rat) powi bitlen n = of_int (2 ^ nat (bitlen n))"
      using pos by (simp add: power_int_def)
    then show "(of_int n :: rat) < 2 powi bitlen n" using b(2) by (simp only: of_int_less_iff)
  qed
  let ?k = "bitlen p - bitlen q"
  have up: "x < 2 powi (?k + 1)"
  proof -
    have "x < 2 powi bitlen p / 2 powi (bitlen q - 1)"
      unfolding x using bounds [OF p] bounds [OF q] p q by (intro frac_less) auto
    also have "\<dots> = 2 powi (?k + 1)" by (simp flip: power_int_diff add: algebra_simps)
    finally show ?thesis .
  qed
  have lo: "2 powi (?k - 1) \<le> x"
  proof -
    have "2 powi (bitlen p - 1) / 2 powi bitlen q \<le> x"
      unfolding x using bounds [OF p] bounds [OF q] p q by (intro frac_le) auto
    moreover have "2 powi (bitlen p - 1) / 2 powi bitlen q = (2::rat) powi (?k - 1)"
      by (simp flip: power_int_diff add: algebra_simps)
    ultimately show ?thesis by simp
  qed
  show "2 powi ilog2 x \<le> x" using lo by (simp add: ilog2_def pq Let_def)
  show "x < 2 powi (ilog2 x + 1)" using up by (simp add: ilog2_def pq Let_def)
qed

lemma ilog2_unique:
  assumes "0 < x" "2 powi k \<le> x" "x < 2 powi (k + 1)"
  shows "ilog2 x = k"
proof -
  have "(2::rat) powi k < 2 powi (ilog2 x + 1)" "(2::rat) powi ilog2 x < 2 powi (k + 1)"
    using ilog2_bounds [OF assms(1)] assms(2,3) by linarith+
  then have "k < ilog2 x + 1" "ilog2 x < k + 1"
    by (meson one_less_numeral_iff power_int_increasing not_less numeral_One one_le_numeral semiring_norm(76))+
  then show ?thesis by linarith
qed

lemma powi_nat: "of_nat (2 ^ k) * (2::rat) powi j = 2 powi (int k + j)"
  by (simp add: power_int_add)

text \<open>A mantissa of at most fifty-three bits on its exponent is read off exactly.\<close>

lemma magnitude_bits_mantissa:
  assumes m: "0 < m" "m < 2 ^ 53" and e: "1 \<le> e" and norm: "e = 1 \<or> 2 ^ 52 \<le> m"
  shows "magnitude_bits (of_nat m * 2 powi (int e - 1075)) = (e - 1) * 2 ^ 52 + m"
proof -
  define x where "x = (of_nat m :: rat) * 2 powi (int e - 1075)"
  have pos: "0 < x" using m by (simp add: x_def)
  have below: "x < 2 powi (int e - 1022)"
  proof -
    have "(of_nat m :: rat) < of_nat (2 ^ 53)" using m(2) by (simp only: of_nat_less_iff)
    then have "x < of_nat (2 ^ 53) * 2 powi (int e - 1075)" by (simp add: x_def)
    also have "\<dots> = 2 powi (int e - 1022)" by (simp only: powi_nat) simp
    finally show ?thesis .
  qed
  have exponent: "max (ilog2 x) (- 1022) = int e - 1023"
  proof (cases "2 ^ 52 \<le> m")
    case True
    then have "of_nat (2 ^ 52) \<le> (of_nat m :: rat)" by (simp only: of_nat_le_iff)
    then have "of_nat (2 ^ 52) * 2 powi (int e - 1075) \<le> x" by (simp add: x_def)
    then have "2 powi (int e - 1023) \<le> x" by (simp only: powi_nat) simp
    with below pos have "ilog2 x = int e - 1023" by (intro ilog2_unique) simp_all
    with e show ?thesis by simp
  next
    case False
    with norm have e1: "e = 1" by simp
    have "(of_nat m :: rat) < of_nat (2 ^ 52)" using False by (simp only: of_nat_less_iff not_le)
    then have "x < of_nat (2 ^ 52) * 2 powi (int e - 1075)" by (simp add: x_def)
    also have "\<dots> = 2 powi (- 1022)" by (simp only: powi_nat e1) simp
    finally have "2 powi ilog2 x < (2::rat) powi (- 1022)" using ilog2_bounds(1) [OF pos] by linarith
    then have "ilog2 x < - 1022" by (meson one_le_numeral power_int_increasing not_less)
    with e1 show ?thesis by simp
  qed
  have "x / 2 powi (int e - 1023 - 52) = of_int (int m)" by (simp add: x_def)
  then have "round_even (x / 2 powi (int e - 1023 - 52)) = int m" by (simp only: round_even_of_int)
  then have "magnitude_bits x = nat (int e - 1) * 2 ^ 52 + m"
    using pos unfolding magnitude_bits_def Let_def exponent by simp
  with e show ?thesis by (simp add: x_def nat_diff_distrib)
qed

lemma double_bits_fields:
  assumes "e < 2047" "f < 2 ^ 52"
  shows "magnitude_bits (of_nat (if e = 0 then f else 2 ^ 52 + f) * 2 powi (int (max e 1) - 1075)) = e * 2 ^ 52 + f"
proof (cases "e = 0")
  case True
  then show ?thesis using magnitude_bits_mantissa [of f 1] assms
    by (cases "f = 0") (simp_all add: magnitude_bits_def)
next
  case False
  then have "max e 1 = e" by simp
  then show ?thesis using magnitude_bits_mantissa [of "2 ^ 52 + f" e] assms False
    by (cases e) simp_all
qed

lemma double_value_mod: "double_value (n mod 2 ^ 64) = double_value n"
proof -
  have d: "n mod (b * c) div b = n div b mod c" if "0 < b" for b c
    using that by (simp add: mod_mult2_eq)
  have "n mod 2 ^ 64 div 2 ^ 63 mod 2 = n div 2 ^ 63 mod 2" using d [of "2 ^ 63" 2] by simp
  moreover have "n mod 2 ^ 64 div 2 ^ 52 mod 2048 = n div 2 ^ 52 mod 2048"
    using d [of "2 ^ 52" 4096] by (simp add: mod_mod_cancel)
  moreover have "n mod 2 ^ 64 mod 2 ^ 52 = n mod 2 ^ 52" by (simp add: mod_mod_cancel)
  ultimately show ?thesis by (simp only: double_value_def)
qed

text \<open>Every bit pattern's value survives packing.\<close>

lemma double_fields_split:
  assumes "e < 2048" "f < 2 ^ 52"
  shows "double_value (s * 2 ^ 63 + (e * 2 ^ 52 + f)) = double_of_fields (s mod 2 = 1) e f"
proof -
  let ?n = "s * 2 ^ 63 + (e * 2 ^ 52 + f)"
  have n: "?n = (s * 2048 + e) * 2 ^ 52 + f" by simp
  have lo: "?n mod 2 ^ 52 = f" unfolding n using assms by (simp only: mod_mult_self3) simp
  have mid: "?n div 2 ^ 52 = s * 2048 + e" unfolding n using assms by (simp only: div_mult_self3 simp_thms) simp
  have "?n div 2 ^ 63 = ?n div 2 ^ 52 div 2048" by (simp flip: div_mult2_eq)
  then have hi: "?n div 2 ^ 63 = s" unfolding mid using assms by simp
  show ?thesis unfolding double_value_def hi mid lo using assms by simp
qed

lemma double_of_fields_bits:
  assumes "e < 2048" "f < 2 ^ 52"
  shows "double_value (double_bits (double_of_fields neg e f)) = double_of_fields neg e f"
proof (cases "e = 2047")
  case True
  have special: "double_value (double_bits v) = v" if "v \<in> {NaN, PosInf, NegInf}" for v
    using that by (auto simp: double_value_def double_of_fields_def)
  show ?thesis using True by (intro special) (simp add: double_of_fields_def)
next
  case False
  define x :: rat where "x = of_nat (if e = 0 then f else 2 ^ 52 + f) * 2 powi (int (max e 1) - 1075)"
  have nonneg: "0 \<le> x" by (simp add: x_def)
  have v: "double_of_fields neg' e f = Fin (if neg' then - x else x)" for neg'
    using False by (simp add: double_of_fields_def x_def)
  have bits: "magnitude_bits x = e * 2 ^ 52 + f"
    unfolding x_def using False assms by (intro double_bits_fields) simp_all
  have "double_bits (Fin (if neg then - x else x)) = (if neg \<and> x \<noteq> 0 then 1 else 0) * 2 ^ 63 + (e * 2 ^ 52 + f)"
    using nonneg bits by (cases "x = 0") simp_all
  then have "double_value (double_bits (Fin (if neg then - x else x)))
      = double_of_fields (neg \<and> x \<noteq> 0) e f"
    using double_fields_split [OF assms, of "if neg \<and> x \<noteq> 0 then 1 else 0"] by (simp only: ) auto
  then show ?thesis by (simp add: v)
qed

lemma double_value_is_double: "is_double (double_value n)"
  unfolding is_double_def using double_of_fields_bits [of "n div 2 ^ 52 mod 2048" "n mod 2 ^ 52" "n div 2 ^ 63 mod 2 = 1"]
  unfolding double_value_def [of n, symmetric] by simp


text \<open>One is a leading bit with a zero fraction and the bias as its exponent.\<close>

lemma double_examples:
  "double_bits (Fin 1) = 0x3FF0000000000000"
  "double_value 0x406CE00000000000 = Fin 231"
  "double_value 0xC004000000000000 = Fin (- 5 / 2)"
proof -
  show "double_bits (Fin 1) = 0x3FF0000000000000"
    using magnitude_bits_mantissa [of "2 ^ 52" 1023] by (simp add: power_int_def power_one_over)
qed (simp_all add: double_value_def double_of_fields_def power_int_def power_one_over)

end
