(* ===== verification/Sunspec.thy ===== *)
theory Sunspec
  imports Wire_Numbers
begin

text \<open>
  The SunSpec register decoder and the inverter driver: \<^verbatim>\<open>src/drivers/sunspec/models.py\<close>,
  \<^verbatim>\<open>src/drivers/sunspec/driver.py\<close> and \<^verbatim>\<open>src/drivers/diep_driver/normalize.py\<close>. A register is the
  integer the transport delivers; the decoder masks it to sixteen bits. The Modbus exchange is a
  parameter: a function that reads registers and one that writes them.
\<close>

unbundle bit_operations_syntax

subsection \<open>Registers\<close>

abbreviation mask16 :: "int \<Rightarrow> int" where
  "mask16 v \<equiv> v AND 0xFFFF"

definition to_signed16 :: "int \<Rightarrow> int" where
  "to_signed16 v = (if v AND 0x8000 \<noteq> 0 then v - 0x10000 else v)"

lemma mask16_mod: "mask16 v = v mod 65536"
  using take_bit_eq_mask [of 16 v] by (simp add: take_bit_eq_mod mask_eq_exp_minus_1 and.commute)

lemma mask16_range: "0 \<le> mask16 v \<and> mask16 v < 65536"
  by (simp add: mask16_mod)

lemma test_bit15: "v AND 0x8000 \<noteq> 0 \<longleftrightarrow> bit (v::int) 15"
  using and_exp_eq_0_iff_not_bit [of v 15] by simp

text \<open>On a sixteen-bit register this is two's complement.\<close>

lemma to_signed16_sint:
  assumes "0 \<le> v" "v < 65536"
  shows "to_signed16 v = sint (word_of_int v :: 16 word)"
proof -
  have "sint (word_of_int v :: 16 word) = signed_take_bit 15 v" by (simp add: sint_sbintrunc')
  also have "\<dots> = take_bit 16 v - (if bit v 15 then 65536 else 0)"
    by (simp add: signed_take_bit_eq_take_bit_minus)
  also have "take_bit 16 v = v" using assms by (simp add: take_bit_int_eq_self)
  finally show ?thesis by (simp add: to_signed16_def test_bit15)
qed

text \<open>Writing a signed value and reading it back.\<close>

lemma to_signed16_mask:
  assumes "-32768 \<le> v" "v < 32768"
  shows "to_signed16 (mask16 v) = v"
proof -
  have "word_of_int (mask16 v) = (word_of_int v :: 16 word)"
    by (simp add: mask16_mod) (simp add: word_of_int_eq_iff take_bit_eq_mod)
  then have "to_signed16 (mask16 v) = sint (word_of_int v :: 16 word)"
    using to_signed16_sint [of "mask16 v"] mask16_range by simp
  also have "\<dots> = v" using assms by (simp add: sint_sbintrunc' signed_take_bit_int_eq_self)
  finally show ?thesis .
qed

subsection \<open>Models and decoding\<close>

text \<open>A point: its offset in the data block, its type, and the point that holds its scale exponent.\<close>

type_synonym point = "nat \<times> string \<times> string option"

record sun_model =
  sm_id :: int
  sm_length :: nat
  sm_points :: "(string \<times> point) list"

definition common_model :: sun_model where
  "common_model = \<lparr>sm_id = 1, sm_length = 66, sm_points = []\<rparr>"

definition inverter_model_103 :: sun_model where
  "inverter_model_103 = \<lparr>sm_id = 103, sm_length = 50, sm_points =
     [(''A'', 0, ''uint16'', Some ''A_SF''), (''A_SF'', 4, ''sunssf'', None),
      (''PhVphA'', 8, ''uint16'', Some ''V_SF''), (''V_SF'', 11, ''sunssf'', None),
      (''W'', 12, ''int16'', Some ''W_SF''), (''W_SF'', 13, ''sunssf'', None),
      (''Hz'', 14, ''uint16'', Some ''Hz_SF''), (''Hz_SF'', 15, ''sunssf'', None),
      (''WH'', 22, ''acc32'', Some ''WH_SF''), (''WH_SF'', 24, ''sunssf'', None),
      (''DCW'', 29, ''int16'', Some ''DCW_SF''), (''DCW_SF'', 30, ''sunssf'', None),
      (''St'', 36, ''enum16'', None)]\<rparr>"

definition controls_model_123 :: sun_model where
  "controls_model_123 = \<lparr>sm_id = 123, sm_length = 24, sm_points =
     [(''WMaxLimPct'', 5, ''uint16'', Some ''WMaxLimPct_SF''), (''WMaxLim_Ena'', 9, ''enum16'', None),
      (''WMaxLimPct_SF'', 22, ''sunssf'', None)]\<rparr>"

definition read_point :: "int list \<Rightarrow> point \<Rightarrow> int result" where
  "read_point data spec = (let (offset, ptype, sf) = spec in
     if ptype = ''uint16'' \<or> ptype = ''enum16'' then bindR (nth_item data offset) (\<lambda>v. Inr (mask16 v))
     else if ptype = ''int16'' \<or> ptype = ''sunssf'' then bindR (nth_item data offset) (\<lambda>v. Inr (to_signed16 v))
     else if ptype = ''acc32''
     then bindR (nth_item data offset) (\<lambda>hi. bindR (nth_item data (Suc offset)) (\<lambda>lo.
            Inr (push_bit 16 (mask16 hi) OR mask16 lo)))
     else Inl (ValueError (Fmt ''unknown point type {}'' [ptype])))"

text \<open>\<^verbatim>\<open>10.0 ** sf\<close>: too large raises, too small is zero.\<close>

definition float_pow10 :: "int \<Rightarrow> rat result" where
  "float_pow10 sf = (if 308 < sf then Inl (OverflowErr (Fmt ''Numerical result out of range'' []))
     else if sf < - 323 then Inr 0 else Inr (pow10 sf))"

definition decode_point :: "sun_model \<Rightarrow> int list \<Rightarrow> string \<times> point \<Rightarrow> (string \<times> pyval) result" where
  "decode_point m data np = (let (name, offset, ptype, sf_point) = np in
     bindR (read_point data (offset, ptype, sf_point)) (\<lambda>raw.
     bindR (case sf_point of
              None \<Rightarrow> Inr 0
            | Some q \<Rightarrow> (case map_of (sm_points m) q of None \<Rightarrow> Inr 0 | Some spec \<Rightarrow> read_point data spec)) (\<lambda>sf.
       if ptype = ''enum16'' then Inr (name, PInt raw)
       else bindR (float_pow10 sf) (\<lambda>k. Inr (name, PFloat (Fin (of_int raw * k)))))))"

definition decode_model :: "sun_model \<Rightarrow> int list \<Rightarrow> (string \<times> pyval) list result" where
  "decode_model m data =
     mapR (decode_point m data) (filter (\<lambda>(name, offset, ptype, sf). ptype \<noteq> ''sunssf'') (sm_points m))"

subsection \<open>Discovery\<close>

text \<open>Reading \<^verbatim>\<open>count\<close> registers from an address, and writing a block: what happens to the device.\<close>

type_synonym 'd reader = "int \<Rightarrow> int \<Rightarrow> ('d, int list) action"
type_synonym 'd writer = "int \<Rightarrow> int list \<Rightarrow> ('d, unit) action"

record location =
  loc_id :: int
  loc_addr :: int
  loc_length :: int

fun discover_from :: "nat \<Rightarrow> 'd reader \<Rightarrow> int \<Rightarrow> (int \<times> location) list \<Rightarrow> ('d, (int \<times> location) list) action" where
  "discover_from 0 rd addr found = ret found"
| "discover_from (Suc k) rd addr found =
     bindS (rd addr 2) (\<lambda>header.
     bindS (lift (\<lambda>_. bindR (nth_item header 0) (\<lambda>h0. bindR (nth_item header 1) (\<lambda>h1. Inr (mask16 h0, mask16 h1)))))
       (\<lambda>(mid, len).
       if mid = 0xFFFF then ret found
       else discover_from k rd (addr + 2 + len)
              (dict_put mid \<lparr>loc_id = mid, loc_addr = addr + 2, loc_length = len\<rparr> found)))"

definition discover :: "'d reader \<Rightarrow> int \<Rightarrow> nat \<Rightarrow> ('d, (int \<times> location) list) action" where
  "discover rd base max_models = bindS (rd base 2) (\<lambda>marker.
     if take 2 marker \<noteq> [0x5375, 0x6E53] then fail (ValueError (Fmt ''SunSpec marker not found; not a SunSpec device'' []))
     else discover_from max_models rd (base + 2) [])"

subsection \<open>The register image\<close>

definition pad_model :: "sun_model \<Rightarrow> (nat \<times> int) list \<Rightarrow> int list" where
  "pad_model m vals = fold (\<lambda>(i, v) block. block[i := mask16 v]) vals (replicate (sm_length m) 0)"

record plant =
  pl_ac_w :: int
  pl_dc_w :: int
  pl_voltage :: rat
  pl_current :: rat
  pl_hz :: rat
  pl_state :: int
  pl_limpct :: rat
  pl_lim_ena :: int

definition model_block :: "sun_model \<Rightarrow> int list \<Rightarrow> int list" where
  "model_block m block = [mask16 (sm_id m), mask16 (int (sm_length m))] @ block"

definition common_block :: "int list" where
  "common_block = (pad_model common_model [])[0 := 0x4449, 1 := 0x4550]"

definition inverter_block :: "plant \<Rightarrow> int list" where
  "inverter_block p = pad_model inverter_model_103
     [(0, round_even (pl_current p * 100)), (4, - 2), (8, round_even (pl_voltage p * 10)), (11, - 1),
      (12, pl_ac_w p), (13, 0), (14, round_even (pl_hz p * 100)), (15, - 2), (24, 0),
      (29, pl_dc_w p), (30, 0), (36, pl_state p)]"

definition controls_block :: "plant \<Rightarrow> int list" where
  "controls_block p = pad_model controls_model_123
     [(5, round_even (pl_limpct p)), (9, pl_lim_ena p), (22, 0)]"

definition build_image :: "plant \<Rightarrow> int list" where
  "build_image p = [0x5375, 0x6E53] @ model_block common_model common_block
     @ model_block inverter_model_103 (inverter_block p) @ model_block controls_model_123 (controls_block p) @ [0xFFFF, 0]"

subsection \<open>The driver\<close>

definition canonical_fields :: "string list" where
  "canonical_fields = [''voltage'', ''current'', ''power_kw'', ''frequency'', ''solar_kw'', ''battery_soc'',
     ''grid_import_kw'', ''grid_export_kw'']"

definition num_of :: "pyval option \<Rightarrow> pyfloat option" where
  "num_of v = (case v of Some (PInt i) \<Rightarrow> Some (Fin (of_int i)) | Some (PFloat x) \<Rightarrow> Some x | _ \<Rightarrow> None)"

definition pass_through :: "(string \<times> pyval) list \<Rightarrow> string \<Rightarrow> string \<Rightarrow> (string \<times> pyfloat) list \<Rightarrow> (string \<times> pyfloat) list" where
  "pass_through native from_key to_key out = (case num_of (map_of native from_key) of
     Some v \<Rightarrow> if to_key \<in> fst ` set out then dict_put to_key v out else out | None \<Rightarrow> out)"

definition normalize_canonical :: "(string \<times> pyval) list \<Rightarrow> (string \<times> string) list \<Rightarrow> (string \<times> pyfloat) list" where
  "normalize_canonical native aliases =
     fold (\<lambda>(nk, ck). pass_through native nk ck) aliases
       (fold (\<lambda>f. pass_through native f f) canonical_fields (map (\<lambda>f. (f, Fin 0)) canonical_fields))"

definition sunspec_aliases :: "(string \<times> string) list" where
  "sunspec_aliases = [(''W_kw'', ''power_kw''), (''Hz'', ''frequency''), (''DCW_kw'', ''solar_kw''), (''ChaState'', ''battery_soc'')]"

text \<open>\<^verbatim>\<open>max(a, b)\<close> and \<^verbatim>\<open>min(a, b)\<close> keep the first argument unless the second is strictly beyond it.\<close>

definition fl_max :: "pyfloat \<Rightarrow> pyfloat \<Rightarrow> pyfloat" where
  "fl_max a b = (if fl_less a b then b else a)"

definition fl_min :: "pyfloat \<Rightarrow> pyfloat \<Rightarrow> pyfloat" where
  "fl_min a b = (if fl_less b a then b else a)"

definition sunspec_normalize :: "(string \<times> pyval) list \<Rightarrow> (string \<times> pyfloat) list" where
  "sunspec_normalize native = (let c = normalize_canonical native sunspec_aliases in
     dict_put ''grid_export_kw'' (fl_max (Fin 0) (dict_get c ''power_kw'' (Fin 0))) c)"

definition connect :: "'d reader \<Rightarrow> int \<Rightarrow> ('d, (int \<times> location) list) action" where
  "connect rd base = bindS (discover rd base 32) (\<lambda>ms.
     if 103 \<notin> fst ` set ms then fail (RuntimeError (Fmt ''device exposes no inverter model 103'' [])) else ret ms)"

definition in_kw :: "pyval \<Rightarrow> pyval" where
  "in_kw v = (case v of PFloat x \<Rightarrow> PFloat (fl_scale (1 / 1000) x) | PInt i \<Rightarrow> PFloat (Fin (of_int i / 1000)) | w \<Rightarrow> w)"

definition read_at :: "'d reader \<Rightarrow> (int \<times> location) list \<Rightarrow> int \<Rightarrow> ('d, int list) action" where
  "read_at rd ms mid = (case map_of ms mid of
     None \<Rightarrow> fail (KeyErr (num_text (nat mid))) | Some l \<Rightarrow> rd (loc_addr l) (loc_length l))"

definition native_reading :: "(string \<times> pyval) list \<Rightarrow> (string \<times> pyval) list" where
  "native_reading d = (let zero = PFloat (Fin 0) in
     [(''voltage'', dict_get d ''PhVphA'' zero), (''current'', dict_get d ''A'' zero),
      (''W_kw'', in_kw (dict_get d ''W'' zero)), (''Hz'', dict_get d ''Hz'' zero),
      (''DCW_kw'', in_kw (dict_get d ''DCW'' zero)), (''operating_state'', dict_get d ''St'' (PInt 0))])"

definition read_telemetry :: "'d reader \<Rightarrow> (int \<times> location) list \<Rightarrow> ('d, (string \<times> pyval) list) action" where
  "read_telemetry rd ms = bindS (read_at rd ms 103) (\<lambda>data.
     bindS (lift (\<lambda>_. decode_model inverter_model_103 data)) (\<lambda>d.
     bindS (if 802 \<in> fst ` set ms then bindS (read_at rd ms 802) (\<lambda>_. ret ()) else ret ()) (\<lambda>_.
       ret (native_reading d))))"

record command_result =
  cres_status :: string
  cres_error :: "msg option"

definition refused :: "string \<Rightarrow> string list \<Rightarrow> command_result" where
  "refused fmt args = \<lparr>cres_status = ''FAILED'', cres_error = Some (Fmt fmt args)\<rparr>"

definition kw_to_pct :: "rat \<Rightarrow> pyfloat \<Rightarrow> pyfloat" where
  "kw_to_pct cap kw = (if cap \<le> 0 then Fin 100
     else fl_max (Fin 0) (fl_min (Fin 100) (fl_scale 100 (fl_scale (1 / cap) kw))))"

definition set_limit_pct :: "'d writer \<Rightarrow> (int \<times> location) list \<Rightarrow> rat \<Rightarrow> bool \<Rightarrow> ('d, command_result) action" where
  "set_limit_pct wr ms pct enable dev = (case map_of ms 123 of
       None \<Rightarrow> (Inl (KeyErr ''123''), dev)
     | Some l \<Rightarrow>
         (case bindS (wr (loc_addr l + 5) [round_even pct]) (\<lambda>_. wr (loc_addr l + 9) [if enable then 1 else 0]) dev of
            (Inl e, dev1) \<Rightarrow> (Inr (refused ''register write failed: {}'' [msg_text (exn_msg e)]), dev1)
          | (Inr _, dev1) \<Rightarrow> (Inr \<lparr>cres_status = ''ACKED'', cres_error = None\<rparr>, dev1)))"

text \<open>A percentage is finite by construction.\<close>

definition limit_to :: "'d writer \<Rightarrow> (int \<times> location) list \<Rightarrow> rat \<Rightarrow> pyval \<Rightarrow> ('d, command_result) action" where
  "limit_to wr ms cap v = bindS (lift (\<lambda>_. py_float v)) (\<lambda>kw. case kw_to_pct cap kw of
       Fin pct \<Rightarrow> set_limit_pct wr ms pct True
     | _ \<Rightarrow> fail (ValueError (Fmt ''cannot convert float NaN to integer'' [])))"

definition sunspec_command :: "'d writer \<Rightarrow> (int \<times> location) list \<Rightarrow> rat \<Rightarrow> string \<Rightarrow> (string \<times> pyval) list
    \<Rightarrow> ('d, command_result) action" where
  "sunspec_command wr ms cap ty params =
     (if ty \<notin> {''curtail'', ''set_limit'', ''resume''} then ret (refused ''unsupported command {}'' [ty])
      else if 123 \<notin> fst ` set ms then ret (refused ''device exposes no controls model 123'' [])
      else if ty = ''resume'' then set_limit_pct wr ms 100 False
      else if ty = ''set_limit''
      then (case map_of params ''max_power_kw'' of
              None \<Rightarrow> ret (refused ''set_limit requires params.max_power_kw'' [])
            | Some v \<Rightarrow> limit_to wr ms cap v)
      else limit_to wr ms cap (dict_get params ''limit_kw'' (PFloat (Fin (cap / 2)))))"

subsection \<open>Facts\<close>

lemma kw_to_pct_range: "\<exists>p. kw_to_pct cap kw = Fin p \<and> 0 \<le> p \<and> p \<le> 100"
proof -
  have min: "\<exists>p. fl_min (Fin 100) x = Fin p \<and> p \<le> 100 \<or> fl_min (Fin 100) x = NegInf" for x
    by (cases x) (auto simp: fl_min_def)
  show ?thesis
  proof (cases "cap \<le> 0")
    case False
    then show ?thesis
      using min [of "fl_scale 100 (fl_scale (1 / cap) kw)"] by (auto simp: kw_to_pct_def fl_max_def)
  qed (simp add: kw_to_pct_def)
qed

text \<open>A limit that is not a number passes both clamps as 100 percent: no curtailment at all.\<close>

lemma nan_limit_is_no_limit: "0 < cap \<Longrightarrow> kw_to_pct cap NaN = Fin 100"
  by (simp add: kw_to_pct_def fl_min_def fl_max_def)

text \<open>What the registers of an inverter block decode to.\<close>

definition register_value :: "rat \<Rightarrow> int \<Rightarrow> pyval" where
  "register_value quantum raw = PFloat (Fin (of_int raw * quantum))"

lemma block_registers:
  "inverter_block p ! 0 = mask16 (round_even (pl_current p * 100))" "inverter_block p ! 4 = mask16 (- 2)"
  "inverter_block p ! 8 = mask16 (round_even (pl_voltage p * 10))" "inverter_block p ! 11 = mask16 (- 1)"
  "inverter_block p ! 12 = mask16 (pl_ac_w p)" "inverter_block p ! 13 = mask16 0"
  "inverter_block p ! 14 = mask16 (round_even (pl_hz p * 100))" "inverter_block p ! 15 = mask16 (- 2)"
  "inverter_block p ! 22 = 0" "inverter_block p ! 23 = 0" "inverter_block p ! 24 = mask16 0"
  "inverter_block p ! 29 = mask16 (pl_dc_w p)" "inverter_block p ! 30 = mask16 0"
  "inverter_block p ! 36 = mask16 (pl_state p)"
  by (simp_all add: inverter_block_def pad_model_def inverter_model_103_def)

lemma block_length: "length (inverter_block p) = 50"
  by (simp add: inverter_block_def pad_model_def inverter_model_103_def)

definition int16 :: "int \<Rightarrow> bool" where
  "int16 v \<longleftrightarrow> - 32768 \<le> v \<and> v < 32768"

lemma sf_registers [simp]: "to_signed16 65534 = - 2" "to_signed16 65535 = - 1" "to_signed16 0 = 0"
  by (simp_all add: to_signed16_def)

lemma quanta [simp]: "float_pow10 (- 2) = Inr (1 / 100)" "float_pow10 (- 1) = Inr (1 / 10)" "float_pow10 0 = Inr 1"
  by (simp_all add: float_pow10_def pow10_def)

lemma mask16_mask [simp]: "mask16 (mask16 v) = mask16 v"
  by (simp only: mask16_mod mod_mod_trivial)

lemma decode_inverter_block:
  assumes "int16 (pl_ac_w p)" "int16 (pl_dc_w p)"
  shows "decode_model inverter_model_103 (inverter_block p) = Inr
    [(''A'', register_value (1 / 100) (mask16 (round_even (pl_current p * 100)))),
     (''PhVphA'', register_value (1 / 10) (mask16 (round_even (pl_voltage p * 10)))),
     (''W'', register_value 1 (pl_ac_w p)), (''Hz'', register_value (1 / 100) (mask16 (round_even (pl_hz p * 100)))),
     (''WH'', register_value 1 0), (''DCW'', register_value 1 (pl_dc_w p)), (''St'', PInt (mask16 (pl_state p)))]"
proof -
  have w: "to_signed16 (mask16 (pl_ac_w p)) = pl_ac_w p" "to_signed16 (mask16 (pl_dc_w p)) = pl_dc_w p"
    using assms by (simp_all add: int16_def to_signed16_mask)
  define d where "d = inverter_block p"
  have len: "length d = 50" by (simp add: d_def block_length)
  note regs = block_registers [of p, folded d_def]
  have item: "nth_item d i = Inr (d ! i)" if "i < 50" for i using that by (simp add: nth_item_def len)
  have points: "decode_point inverter_model_103 d (''A'', 0, ''uint16'', Some ''A_SF'')
      = Inr (''A'', register_value (1 / 100) (mask16 (round_even (pl_current p * 100))))"
    "decode_point inverter_model_103 d (''PhVphA'', 8, ''uint16'', Some ''V_SF'')
      = Inr (''PhVphA'', register_value (1 / 10) (mask16 (round_even (pl_voltage p * 10))))"
    "decode_point inverter_model_103 d (''W'', 12, ''int16'', Some ''W_SF'') = Inr (''W'', register_value 1 (pl_ac_w p))"
    "decode_point inverter_model_103 d (''Hz'', 14, ''uint16'', Some ''Hz_SF'')
      = Inr (''Hz'', register_value (1 / 100) (mask16 (round_even (pl_hz p * 100))))"
    "decode_point inverter_model_103 d (''WH'', 22, ''acc32'', Some ''WH_SF'') = Inr (''WH'', register_value 1 0)"
    "decode_point inverter_model_103 d (''DCW'', 29, ''int16'', Some ''DCW_SF'') = Inr (''DCW'', register_value 1 (pl_dc_w p))"
    "decode_point inverter_model_103 d (''St'', 36, ''enum16'', None) = Inr (''St'', PInt (mask16 (pl_state p)))"
    using w by (simp_all add: decode_point_def read_point_def item regs inverter_model_103_def register_value_def
      del: of_int_minus)
  show ?thesis
    unfolding decode_model_def d_def [symmetric] by (simp add: inverter_model_103_def points [unfolded inverter_model_103_def])
qed

end
