(* ===== verification/Modbus_Tcp.thy ===== *)
theory Modbus_Tcp
  imports Wire_Numbers
begin

text \<open>
  Modbus TCP as \<^verbatim>\<open>src/drivers/sunspec/transport.py\<close> has it: the built-in client (transactions,
  reads and writes in blocks the protocol allows) and the server behind the inverter simulator.
  A connection delivers bytes in order; a read of \<open>n\<close> bytes takes them from what has arrived,
  however it was cut.
\<close>

unbundle bit_operations_syntax

subsection \<open>The server\<close>

type_synonym registers = "nat \<rightharpoonup> nat"

definition reg_get :: "registers \<Rightarrow> nat \<Rightarrow> nat \<Rightarrow> nat" where
  "reg_get regs a dflt = (case regs a of None \<Rightarrow> dflt | Some v \<Rightarrow> v)"

fun set_registers :: "nat \<Rightarrow> nat list \<Rightarrow> registers \<Rightarrow> registers" where
  "set_registers base [] regs = regs"
| "set_registers base (v # vs) regs = set_registers (Suc base) vs (regs(base \<mapsto> v mod 65536))"

text \<open>The read hook is called before a read is served; it may refresh the registers.\<close>

definition dispatch :: "('s \<Rightarrow> 's) \<Rightarrow> ('s \<Rightarrow> registers) \<Rightarrow> ((registers \<Rightarrow> registers) \<Rightarrow> 's \<Rightarrow> 's) \<Rightarrow> byte list
    \<Rightarrow> ('s, byte list) action" where
  "dispatch on_read regs_of upd pdu = bindS (lift (\<lambda>_. nth_item pdu 0)) (\<lambda>fc.
     if fc = 0x03 then
       bindS (lift (\<lambda>_. unpack_halfwords 2 (take 4 (drop 1 pdu)))) (\<lambda>hdr.
       bindS (modify on_read) (\<lambda>_.
       bindS (lift (\<lambda>s. pack_be 1 (hdr ! 1 * 2))) (\<lambda>bc. lift (\<lambda>s.
         Inr ([0x03] @ bc @ halfwords (map (\<lambda>i. reg_get (regs_of s) (hdr ! 0 + i) 0) [0..<hdr ! 1]))))))
     else if fc = 0x10 then
       bindS (lift (\<lambda>_. unpack_halfwords 2 (take 4 (drop 1 pdu)))) (\<lambda>hdr.
       bindS (lift (\<lambda>_. unpack_halfwords (hdr ! 1) (take (hdr ! 1 * 2) (drop 6 pdu)))) (\<lambda>vs.
       bindS (modify (upd (set_registers (hdr ! 0) vs))) (\<lambda>_.
         ret ([0x10] @ be_bytes 2 (hdr ! 0) @ be_bytes 2 (hdr ! 1)))))
     else ret [fc OR 0x80, 1])"

text \<open>\<^verbatim>\<open>_recv_exact\<close>: the next bytes, unless the peer has closed before they are there.\<close>

definition recv_exact :: "nat \<Rightarrow> byte list \<Rightarrow> (byte list \<times> byte list) option" where
  "recv_exact n stream = (if length stream < n then None else Some (take n stream, drop n stream))"

definition mbap_header :: "nat \<Rightarrow> byte \<Rightarrow> nat \<Rightarrow> byte list" where
  "mbap_header tx unit n = be_bytes 2 tx @ be_bytes 2 0 @ be_bytes 2 (n + 1) @ [unit]"

definition mbap :: "nat \<Rightarrow> byte \<Rightarrow> byte list \<Rightarrow> byte list" where
  "mbap tx unit pdu = mbap_header tx unit (length pdu) @ pdu"

text \<open>One turn of the connection loop on the bytes that have arrived: the frame sent back.\<close>

definition modbus_turn :: "(byte list \<Rightarrow> ('s, byte list) action) \<Rightarrow> byte list \<Rightarrow> ('s, byte list) action" where
  "modbus_turn disp stream = (case recv_exact 7 stream of
       None \<Rightarrow> ret []
     | Some (header, rest) \<Rightarrow>
         (case recv_exact (be_value (take 2 (drop 4 header)) - 1) rest of
            None \<Rightarrow> ret []
          | Some (pdu, _) \<Rightarrow> bindS (disp pdu) (\<lambda>resp.
              if 65536 \<le> length resp + 1 then fail (StructErr (Fmt ''argument out of range'' []))
              else ret (mbap (be_value (take 2 header)) (header ! 6) resp))))"

subsection \<open>The client\<close>

text \<open>
  The client's transaction counter with the other end, which answers what is sent with the bytes
  that then wait in the socket.
\<close>

record 's modbus_client =
  mb_tx :: nat
  mb_peer :: 's

type_synonym 's modbus_peer = "byte list \<Rightarrow> ('s, byte list) action"

definition closed_mid_frame :: exn where
  "closed_mid_frame = ConnectionErr (Fmt ''Modbus socket closed mid-frame'' [])"

definition check_body :: "nat \<Rightarrow> nat \<Rightarrow> byte list \<Rightarrow> byte list result" where
  "check_body tx rx_tx body =
     (if rx_tx \<noteq> tx then Inl (OsErr (Fmt ''Modbus transaction id mismatch (sent {}, got {})'' [num_text tx, num_text rx_tx]))
      else if body \<noteq> [] \<and> body ! 0 AND 0x80 \<noteq> 0
      then Inl (OsErr (Fmt ''Modbus exception function={} code={}''
             [num_text (unat (body ! 0)), num_text (if 1 < length body then unat (body ! 1) else 0)]))
      else Inr body)"

definition txn :: "'s modbus_peer \<Rightarrow> byte \<Rightarrow> byte list \<Rightarrow> ('s modbus_client, byte list) action" where
  "txn peer unit pdu c = (let tx = (mb_tx c + 1) mod 65536; c1 = c\<lparr>mb_tx := tx\<rparr> in
     if 65536 \<le> length pdu + 1 then (Inl (StructErr (Fmt ''argument out of range'' [])), c1)
     else case peer (mbap tx unit pdu) (mb_peer c) of
       (Inl e, s) \<Rightarrow> (Inl e, c1\<lparr>mb_peer := s\<rparr>)
     | (Inr stream, s) \<Rightarrow>
         (case recv_exact 7 stream of
            None \<Rightarrow> Inl closed_mid_frame
          | Some (header, rest) \<Rightarrow>
              (case recv_exact (be_value (take 2 (drop 4 header)) - 1) rest of
                 None \<Rightarrow> Inl closed_mid_frame
               | Some (body, _) \<Rightarrow> check_body tx (be_value (take 2 header)) body),
          c1\<lparr>mb_peer := s\<rparr>))"

text \<open>Blocks of at most 125 registers.\<close>

function read_blocks :: "(byte list \<Rightarrow> ('c, byte list) action) \<Rightarrow> int \<Rightarrow> nat \<Rightarrow> int list \<Rightarrow> ('c, int list) action" where
  "read_blocks tr start remaining out = (if remaining = 0 then ret out else
     let n = min remaining 125 in
     bindS (lift (\<lambda>_. bindR (pack_int 2 start) (\<lambda>a. bindR (pack_be 2 n) (\<lambda>q. Inr ([0x03] @ a @ q))))) (\<lambda>pdu.
     bindS (tr pdu) (\<lambda>body.
     bindS (lift (\<lambda>_. nth_item body 1)) (\<lambda>bc.
     bindS (lift (\<lambda>_. unpack_halfwords (unat bc div 2) (take (unat bc) (drop 2 body)))) (\<lambda>regs.
       read_blocks tr (start + int n) (remaining - n) (out @ map int regs))))))"
  by pat_completeness auto
termination by (relation "measure (\<lambda>(tr, start, remaining, out). remaining)") auto

declare read_blocks.simps [simp del]

definition read_holding :: "(byte list \<Rightarrow> ('c, byte list) action) \<Rightarrow> int \<Rightarrow> int \<Rightarrow> ('c, int list) action" where
  "read_holding tr addr qty = read_blocks tr addr (nat qty) []"

text \<open>Blocks of at most 123 registers, each value cut to sixteen bits.\<close>

function write_blocks :: "(byte list \<Rightarrow> ('c, byte list) action) \<Rightarrow> int \<Rightarrow> int list \<Rightarrow> ('c, unit) action" where
  "write_blocks tr start vals = (if vals = [] then ret () else
     let chunk = take 123 vals; n = length chunk; data = halfwords (map (\<lambda>v. nat (v AND 0xFFFF)) chunk) in
     bindS (lift (\<lambda>_. bindR (pack_int 2 start) (\<lambda>a. bindR (pack_be 2 n) (\<lambda>q. bindR (pack_be 1 (n * 2)) (\<lambda>b.
              Inr ([0x10] @ a @ q @ b @ data)))))) (\<lambda>pdu.
     bindS (tr pdu) (\<lambda>_. write_blocks tr (start + int n) (drop n vals))))"
  by pat_completeness auto
termination by (relation "measure (\<lambda>(tr, start, vals). length vals)") auto

declare write_blocks.simps [simp del]

definition write_registers :: "(byte list \<Rightarrow> ('c, byte list) action) \<Rightarrow> int \<Rightarrow> int list \<Rightarrow> ('c, unit) action" where
  "write_registers tr addr vals = write_blocks tr addr vals"

subsection \<open>A transaction with the server\<close>

lemma txn_served:
  assumes "disp pdu (mb_peer c) = (Inr resp, s)" "length pdu < 65535" "length resp < 65535"
    "resp = [] \<or> resp ! 0 AND 0x80 = 0"
  shows "txn (modbus_turn disp) unit pdu c = (Inr resp, c\<lparr>mb_tx := (mb_tx c + 1) mod 65536, mb_peer := s\<rparr>)"
proof -
  let ?tx = "(mb_tx c + 1) mod 65536"
  have hlen: "length (mbap_header tx u n) = 7" for tx u n by (simp add: mbap_header_def)
  have head: "recv_exact 7 (mbap tx u p) = Some (mbap_header tx u (length p), p)" for tx u p
    by (simp add: recv_exact_def mbap_def hlen)
  have len: "be_value (take 2 (drop 4 (mbap_header tx u n))) - 1 = n" if "n < 65535" for tx u n
    using that be_value_bytes [of 2 "n + 1"] by (simp add: mbap_header_def)
  have tx: "be_value (take 2 (mbap_header (?tx) u n)) = ?tx" for u n
    using be_value_bytes [of 2 ?tx] by (simp add: mbap_header_def)
  have unit: "mbap_header tx u n ! 6 = u" for tx u n
    by (simp add: nth_append mbap_header_def)
  have all: "recv_exact (length p) p = Some (p, [])" for p by (simp add: recv_exact_def)
  have "modbus_turn disp (mbap ?tx unit pdu) (mb_peer c) = (Inr (mbap ?tx unit resp), s)"
    using assms tx by (simp add: modbus_turn_def head len [unfolded One_nat_def] all unit bindS_def)
  then show ?thesis using assms
    using tx by (cases "resp = []") (simp_all add: txn_def Let_def head len [unfolded One_nat_def] all
          all [of "[]", simplified] check_body_def)
qed

text \<open>What the server's registers hold after the read hook is what the client gets.\<close>

lemma read_served:
  assumes "peer_state = mb_peer c" "0 \<le> start" "start < 65536" "0 < qty" "qty \<le> 125"
  shows "read_holding (txn (modbus_turn (dispatch on_read regs_of upd)) unit) start (int qty) c
    = (Inr (map (\<lambda>i. int (reg_get (regs_of (on_read peer_state)) (nat start + i) 0 mod 65536)) [0..<qty]),
       c\<lparr>mb_tx := (mb_tx c + 1) mod 65536, mb_peer := on_read peer_state\<rparr>)"
proof -
  let ?s = "on_read peer_state" and ?disp = "dispatch on_read regs_of upd"
  let ?vs = "map (\<lambda>i. reg_get (regs_of ?s) (nat start + i) 0) [0..<qty]"
  define pdu :: "byte list" where "pdu = [0x03] @ be_bytes 2 (nat start) @ be_bytes 2 qty"
  define resp :: "byte list" where "resp = [0x03] @ be_bytes 1 (qty * 2) @ halfwords ?vs"
  have hdr: "unpack_halfwords 2 (take 4 (drop 1 pdu)) = Inr [nat start, qty]"
    using assms be_value_two [of "nat start"] be_value_two [of qty]
    by (simp add: pdu_def be_bytes_2 unpack_halfwords_def)
  have "?disp pdu (mb_peer c) = (Inr resp, ?s)"
    using assms hdr by (simp add: dispatch_def bindS_def nth_item_def pack_be_def resp_def) (simp add: pdu_def)
  then have t: "txn (modbus_turn ?disp) unit pdu c = (Inr resp, c\<lparr>mb_tx := (mb_tx c + 1) mod 65536, mb_peer := ?s\<rparr>)"
    using assms by (intro txn_served) (simp_all add: pdu_def resp_def)
  define bc :: byte where "bc = word_of_nat (qty * 2)"
  have item: "nth_item resp (Suc 0) = Inr bc" by (simp add: nth_item_def resp_def bc_def)
  have "unat bc = qty * 2" using assms by (simp add: bc_def unat_byte del: of_nat_mult)
  moreover have "take (qty * 2) (drop 2 resp) = halfwords ?vs" by (simp add: resp_def)
  ultimately have regs: "unpack_halfwords (unat bc div 2) (take (unat bc) (drop 2 resp)) = Inr (map (\<lambda>n. n mod 65536) ?vs)"
    by simp
  have built: "bindR (pack_int 2 start) (\<lambda>a. bindR (pack_be 2 qty) (\<lambda>q. Inr (0x03 # a @ q))) = Inr pdu"
    using assms by (simp add: pack_int_def pack_be_def pdu_def)
  have stop: "read_blocks tr a 0 out s = (Inr out, s)" for tr :: "byte list \<Rightarrow> ('c, byte list) action" and a out s
    by (simp add: read_blocks.simps)
  have "min qty 125 = qty" using assms by simp
  with assms(4) show ?thesis unfolding read_holding_def nat_int
    by (subst read_blocks.simps) (simp add: Let_def bindS_def built t item regs stop)
qed

text \<open>A single register written through the client.\<close>

lemma write_served:
  assumes "peer_state = mb_peer c" "0 \<le> start" "start < 65536"
  shows "write_registers (txn (modbus_turn (dispatch on_read regs_of upd)) unit) start [v] c
    = (Inr (), c\<lparr>mb_tx := (mb_tx c + 1) mod 65536,
         mb_peer := upd (set_registers (nat start) [nat (v AND 0xFFFF)]) peer_state\<rparr>)"
proof -
  let ?disp = "dispatch on_read regs_of upd"
  define u where "u = nat (v AND 0xFFFF)"
  let ?s = "upd (set_registers (nat start) [u]) peer_state"
  define pdu :: "byte list" where "pdu = [0x10] @ be_bytes 2 (nat start) @ be_bytes 2 1 @ be_bytes 1 2 @ halfwords [u]"
  define resp :: "byte list" where "resp = [0x10] @ be_bytes 2 (nat start) @ be_bytes 2 1"
  have v: "u mod 65536 = u"
    using take_bit_eq_mask [of 16 v] by (simp add: u_def take_bit_eq_mod mask_eq_exp_minus_1 nat_less_iff)
  have hdr: "unpack_halfwords 2 (take 4 (drop 1 pdu)) = Inr [nat start, 1]"
    using assms be_value_two [of "nat start"] be_value_two [of 1]
    by (simp add: pdu_def be_bytes_2 unpack_halfwords_def)
  have "unpack_halfwords 1 (take (1 * 2) (drop 6 pdu)) = Inr [u]"
    using v by (simp add: pdu_def be_bytes_2 halfwords_def unpack_halfwords_def be_value_two)
  with hdr have "?disp pdu (mb_peer c) = (Inr resp, ?s)"
    using assms by (simp add: dispatch_def bindS_def nth_item_def resp_def) (simp add: pdu_def)
  then have t: "txn (modbus_turn ?disp) unit pdu c = (Inr resp, c\<lparr>mb_tx := (mb_tx c + 1) mod 65536, mb_peer := ?s\<rparr>)"
    using assms by (intro txn_served) (simp_all add: pdu_def resp_def)
  have built: "bindR (pack_int 2 start) (\<lambda>a. bindR (pack_be 2 (Suc 0)) (\<lambda>q. bindR (pack_be 1 2) (\<lambda>b.
      Inr (0x10 # a @ q @ b @ halfwords [u])))) = Inr pdu"
    using assms by (simp add: pack_int_def pack_be_def pdu_def)
  have stop: "write_blocks tr a [] s = (Inr (), s)" for tr :: "byte list \<Rightarrow> ('c, byte list) action" and a s
    by (simp add: write_blocks.simps)
  show ?thesis unfolding write_registers_def
    by (subst write_blocks.simps) (use built in \<open>simp add: Let_def bindS_def t stop u_def\<close>)
qed

end
