(* ===== verification/Sunspec_Sim.thy ===== *)
theory Sunspec_Sim
  imports Sunspec Modbus_Tcp
begin

text \<open>
  The inverter simulator of \<^verbatim>\<open>src/drivers/sunspec/sim.py\<close>, served over Modbus, and the driver
  composed with it: discovery, the telemetry it decodes, and what a curtailment does to every
  later reading. The power the array could produce, a sine of the wall clock, is a parameter: one
  value for each time the image is written.
\<close>

unbundle bit_operations_syntax

subsection \<open>The simulator\<close>

record inverter =
  iv_capacity :: rat
  iv_base :: nat
  iv_regs :: registers
  iv_pct_addr :: nat
  iv_ena_addr :: nat
  iv_time :: nat

definition nominal_voltage :: rat where "nominal_voltage = 230"
definition nominal_hz :: rat where "nominal_hz = 50"
definition dc_efficiency :: rat where "dc_efficiency = 97 / 100"

text \<open>The plant's state for an available power and the control registers.\<close>

definition plant_of :: "rat \<Rightarrow> rat \<Rightarrow> rat \<Rightarrow> int \<Rightarrow> plant" where
  "plant_of cap available pct ena =
     (let limited = (if ena \<noteq> 0 then min available (cap * (pct / 100)) else available);
          ac_w = round_even (limited * 1000);
          dc_w = (if 0 < ac_w then round_even (of_int ac_w / dc_efficiency) else 0)
      in \<lparr>pl_ac_w = ac_w, pl_dc_w = dc_w, pl_voltage = nominal_voltage, pl_current = of_int ac_w / nominal_voltage,
          pl_hz = nominal_hz, pl_state = (if ac_w \<le> 0 then 2 else if ena \<noteq> 0 \<and> pct < 100 then 5 else 4),
          pl_limpct = pct, pl_lim_ena = ena\<rparr>)"

definition write_image :: "(nat \<Rightarrow> rat) \<Rightarrow> rat \<Rightarrow> int \<Rightarrow> inverter \<Rightarrow> inverter" where
  "write_image avail pct ena s =
     s\<lparr>iv_regs := set_registers (iv_base s) (map nat (build_image (plant_of (iv_capacity s) (avail (iv_time s)) pct ena))) (iv_regs s),
       iv_time := iv_time s + 1\<rparr>"

definition refresh :: "(nat \<Rightarrow> rat) \<Rightarrow> inverter \<Rightarrow> inverter" where
  "refresh avail s = (let pct = reg_get (iv_regs s) (iv_pct_addr s) 100; ena = reg_get (iv_regs s) (iv_ena_addr s) 0
     in write_image avail (of_nat pct) (int ena) s)"

definition read_local :: "inverter reader" where
  "read_local addr qty s = (Inr (map (\<lambda>i. int (reg_get (iv_regs s) (nat addr + i) 0)) [0..<nat qty]), s)"

definition start_inverter :: "(nat \<Rightarrow> rat) \<Rightarrow> rat \<Rightarrow> nat \<Rightarrow> inverter result" where
  "start_inverter avail cap base =
     (let s = write_image avail 100 0 \<lparr>iv_capacity = cap, iv_base = base, iv_regs = Map.empty, iv_pct_addr = 0, iv_ena_addr = 0, iv_time = 0\<rparr>
      in bindR (fst (discover read_local (int base) 32 s)) (\<lambda>locs. case map_of locs 123 of
           None \<Rightarrow> Inl (KeyErr ''123'')
         | Some l \<Rightarrow> Inr (s\<lparr>iv_pct_addr := nat (loc_addr l + 5), iv_ena_addr := nat (loc_addr l + 9)\<rparr>)))"

text \<open>The driver's Modbus client connected to the simulator's server.\<close>

definition inverter_server :: "(nat \<Rightarrow> rat) \<Rightarrow> inverter modbus_peer" where
  "inverter_server avail = modbus_turn (dispatch (refresh avail) iv_regs (\<lambda>f s. s\<lparr>iv_regs := f (iv_regs s)\<rparr>))"

definition inverter_read :: "(nat \<Rightarrow> rat) \<Rightarrow> byte \<Rightarrow> inverter modbus_client reader" where
  "inverter_read avail unit = read_holding (txn (inverter_server avail) unit)"

definition inverter_write :: "(nat \<Rightarrow> rat) \<Rightarrow> byte \<Rightarrow> inverter modbus_client writer" where
  "inverter_write avail unit = write_registers (txn (inverter_server avail) unit)"

subsection \<open>The register window\<close>

lemma image_parts:
  "length common_block = 66" "length (inverter_block p) = 50" "length (controls_block p) = 24"
  "common_block ! 0 = 0x4449" "length (build_image p) = 150"
  by (simp_all add: common_block_def block_length controls_block_def pad_model_def common_model_def
      controls_model_123_def build_image_def model_block_def)

lemma image_layout:
  "build_image p = [0x5375, 0x6E53] @ [1, 66] @ common_block @ [103, 50] @ inverter_block p @ [123, 24] @ controls_block p @ [0xFFFF, 0]"
  by (simp add: build_image_def model_block_def common_model_def inverter_model_103_def controls_model_123_def)

lemma image_slices:
  "take 2 (drop 0 (build_image p)) = [0x5375, 0x6E53]" "take 2 (drop 2 (build_image p)) = [1, 66]"
  "take 2 (drop 70 (build_image p)) = [103, 50]" "take 2 (drop 122 (build_image p)) = [123, 24]"
  "take 2 (drop 148 (build_image p)) = [0xFFFF, 0]" "take 50 (drop 72 (build_image p)) = inverter_block p"
  by (simp_all add: image_layout image_parts)

lemma image_controls:
  "build_image p ! 129 = mask16 (round_even (pl_limpct p))" "build_image p ! 133 = mask16 (pl_lim_ena p)"
  by (simp_all add: image_layout image_parts nth_append nth_Cons' controls_block_def pad_model_def controls_model_123_def)

definition registers_ok :: "int list \<Rightarrow> bool" where
  "registers_ok block \<longleftrightarrow> set block \<subseteq> {0..<65536}"

lemma registers_ok_update: "registers_ok block \<Longrightarrow> registers_ok (block[i := mask16 v])"
proof -
  assume "registers_ok block"
  moreover have "mask16 v \<in> {0..<65536}" using mask16_range [of v] by (simp only: atLeastLessThan_iff)
  ultimately show ?thesis using set_update_subset_insert [of block i "mask16 v"]
    unfolding registers_ok_def by blast
qed

lemma registers_ok_fold: "registers_ok block \<Longrightarrow> registers_ok (fold (\<lambda>(i, v) block. block[i := mask16 v]) vals block)"
proof (induction vals arbitrary: block)
  case (Cons x vals)
  obtain i v where x: "x = (i, v)" by fastforce
  show ?case using Cons.IH [OF registers_ok_update [OF Cons.prems]] by (simp only: x fold.simps o_apply prod.case)
qed simp

lemma pad_model_range: "v \<in> set (pad_model m vals) \<Longrightarrow> 0 \<le> v \<and> v < 65536"
proof -
  have "registers_ok (replicate (sm_length m) 0)" by (auto simp: registers_ok_def)
  then have "registers_ok (pad_model m vals)" unfolding pad_model_def by (rule registers_ok_fold)
  then show "v \<in> set (pad_model m vals) \<Longrightarrow> 0 \<le> v \<and> v < 65536" unfolding registers_ok_def by auto
qed

lemma image_range: "v \<in> set (build_image p) \<Longrightarrow> 0 \<le> v \<and> v < 65536"
proof -
  have "set common_block \<subseteq> insert 0x4550 (set ((pad_model common_model [])[0 := 0x4449]))"
    unfolding common_block_def by (rule set_update_subset_insert)
  also have "\<dots> \<subseteq> insert 0x4550 (insert 0x4449 (set (pad_model common_model [])))"
    by (intro insert_mono set_update_subset_insert)
  finally have sub: "set common_block \<subseteq> insert 0x4550 (insert 0x4449 (set (pad_model common_model [])))" .
  have c: "0 \<le> v \<and> v < 65536" if "v \<in> set common_block" for v
  proof -
    from that sub consider "v = 0x4550" | "v = 0x4449" | "v \<in> set (pad_model common_model [])" by blast
    then show ?thesis
    proof cases
      case 3
      with pad_model_range show ?thesis by blast
    qed simp_all
  qed
  have i: "0 \<le> v \<and> v < 65536" if "v \<in> set (inverter_block p)" for v
    using that pad_model_range unfolding inverter_block_def by blast
  have k: "0 \<le> v \<and> v < 65536" if "v \<in> set (controls_block p)" for v
    using that pad_model_range unfolding controls_block_def by blast
  assume "v \<in> set (build_image p)"
  then consider "v \<in> {0x5375, 0x6E53, 1, 66, 103, 50, 123, 24, 0xFFFF, 0}" | "v \<in> set common_block"
    | "v \<in> set (inverter_block p)" | "v \<in> set (controls_block p)"
    unfolding image_layout set_append list.set by blast
  then show ?thesis
  proof cases
    case 1
    then show ?thesis unfolding insert_iff empty_iff by (elim disjE) simp_all
  next
    case 2
    then show ?thesis by (rule c)
  next
    case 3
    then show ?thesis by (rule i)
  next
    case 4
    then show ?thesis by (rule k)
  qed
qed

lemma set_registers_at:
  "set_registers base vs regs (base + i) = (if i < length vs then Some (vs ! i mod 65536) else regs (base + i))"
proof (induction vs arbitrary: base regs i)
  case (Cons v vs)
  show ?case
  proof (cases i)
    case 0
    have "set_registers (Suc b) ws r b = r b" for b ws and r :: registers
    proof (induction ws arbitrary: r)
      have low: "set_registers k ws r b = r b" if "b < k" for k ws and r :: registers
        using that by (induction ws arbitrary: k r) auto
      { case Nil show ?case by simp next case (Cons w ws) show ?case by (simp add: low) }
    qed
    with 0 show ?thesis by simp
  next
    case (Suc j)
    then show ?thesis using Cons.IH [of "Suc base" _ j] by simp
  qed
qed simp

text \<open>The control registers where the driver writes them, with what they hold.\<close>

definition controls_hold :: "rat \<Rightarrow> nat \<Rightarrow> nat \<Rightarrow> nat \<Rightarrow> inverter \<Rightarrow> bool" where
  "controls_hold cap base pct ena s \<longleftrightarrow> iv_capacity s = cap \<and> iv_base s = base \<and> base + 150 \<le> 65536
     \<and> pct < 65536 \<and> ena < 65536 \<and> iv_pct_addr s = base + 129 \<and> iv_ena_addr s = base + 133
     \<and> iv_regs s (base + 129) = Some pct \<and> iv_regs s (base + 133) = Some ena"

lemma nat_mask16: "n < 65536 \<Longrightarrow> nat (mask16 (int n)) = n"
  by (simp add: mask16_mod)

lemma image_written:
  "i < 150 \<Longrightarrow> iv_regs (write_image avail pct ena s) (iv_base s + i)
     = Some (nat (build_image (plant_of (iv_capacity s) (avail (iv_time s)) pct ena) ! i))"
proof -
  assume i: "i < 150"
  let ?img = "build_image (plant_of (iv_capacity s) (avail (iv_time s)) pct ena)"
  have "?img ! i \<in> set ?img" using i by (simp add: image_parts)
  then have "nat (?img ! i) < 65536" using image_range by fastforce
  with i show ?thesis by (simp add: write_image_def set_registers_at image_parts)
qed

lemma write_image_simps [simp]:
  "iv_base (write_image avail pct ena s) = iv_base s" "iv_capacity (write_image avail pct ena s) = iv_capacity s"
  "iv_pct_addr (write_image avail pct ena s) = iv_pct_addr s" "iv_ena_addr (write_image avail pct ena s) = iv_ena_addr s"
  by (simp_all add: write_image_def)

lemma refresh_image:
  assumes "controls_hold cap base pct ena s"
  shows "controls_hold cap base pct ena (refresh avail s)"
    and "i < 150 \<Longrightarrow> iv_regs (refresh avail s) (base + i)
      = Some (nat (build_image (plant_of cap (avail (iv_time s)) (of_nat pct) (int ena)) ! i))"
proof -
  have r: "refresh avail s = write_image avail (of_nat pct) (int ena) s"
    using assms by (simp add: refresh_def controls_hold_def reg_get_def)
  show at: "iv_regs (refresh avail s) (base + i)
      = Some (nat (build_image (plant_of cap (avail (iv_time s)) (of_nat pct) (int ena)) ! i))" if "i < 150" for i
    using image_written [OF that, of avail "of_nat pct" "int ena" s] assms by (simp add: r controls_hold_def)
  have "round_even (of_nat pct) = int pct" using round_even_of_int [of "int pct"] by simp
  then show "controls_hold cap base pct ena (refresh avail s)"
    using assms at [of 129] at [of 133] by (simp add: controls_hold_def image_controls plant_of_def Let_def nat_mask16) (simp add: r)
qed

lemma register_int: "0 \<le> x \<and> x < 65536 \<Longrightarrow> int (nat x mod 65536) = x"
  by (simp add: nat_less_iff)

lemma bus_read:
  assumes "controls_hold cap base pct ena (mb_peer c)" "off + qty \<le> 150" "0 < qty" "qty \<le> 125"
  shows "inverter_read avail unit (int base + int off) (int qty) c
    = (Inr (take qty (drop off (build_image (plant_of cap (avail (iv_time (mb_peer c))) (of_nat pct) (int ena))))),
       c\<lparr>mb_tx := (mb_tx c + 1) mod 65536, mb_peer := refresh avail (mb_peer c)\<rparr>)"
proof -
  let ?img = "build_image (plant_of cap (avail (iv_time (mb_peer c))) (of_nat pct) (int ena))"
  let ?s = "refresh avail (mb_peer c)"
  have "int (reg_get (iv_regs ?s) (nat (int base + int off) + i) 0 mod 65536) = ?img ! (off + i)" if "i < qty" for i
  proof -
    have "off + i < 150" using that assms(2) by simp
    moreover from this have "?img ! (off + i) \<in> set ?img" by (intro nth_mem) (simp add: image_parts)
    then have "0 \<le> ?img ! (off + i) \<and> ?img ! (off + i) < 65536" by (rule image_range)
    moreover have "nat (int base + int off) + i = base + (off + i)" by simp
    ultimately show ?thesis using refresh_image(2) [OF assms(1), of "off + i" avail]
      by (simp add: reg_get_def add.assoc register_int)
  qed
  then have "map (\<lambda>i. int (reg_get (iv_regs ?s) (nat (int base + int off) + i) 0 mod 65536)) [0..<qty] = take qty (drop off ?img)"
    using assms(2) by (intro nth_equalityI) (simp_all add: image_parts)
  moreover have "int base + int off < 65536" using assms by (auto simp: controls_hold_def)
  ultimately show ?thesis
    unfolding inverter_read_def inverter_server_def using assms(3,4) by (subst read_served [OF refl]) simp_all
qed

subsection \<open>Discovery on the image\<close>

definition image_headers :: "(nat \<times> int list) list" where
  "image_headers = [(0, [0x5375, 0x6E53]), (2, [1, 66]), (70, [103, 50]), (122, [123, 24]), (148, [0xFFFF, 0])]"

definition image_locations :: "int \<Rightarrow> (int \<times> location) list" where
  "image_locations base = [(1, \<lparr>loc_id = 1, loc_addr = base + 4, loc_length = 66\<rparr>),
     (103, \<lparr>loc_id = 103, loc_addr = base + 72, loc_length = 50\<rparr>), (123, \<lparr>loc_id = 123, loc_addr = base + 124, loc_length = 24\<rparr>)]"

text \<open>Any way of reading the image finds the models where they are.\<close>

locale register_map =
  fixes rd :: "'d reader" and base :: int and holds :: "'d \<Rightarrow> bool"
  assumes reads: "holds d \<Longrightarrow> (off, hdr) \<in> set image_headers \<Longrightarrow> \<exists>d'. rd (base + int off) 2 d = (Inr hdr, d') \<and> holds d'"

context register_map
begin

lemma step:
  assumes "holds d" "(off, [mid, len]) \<in> set image_headers" "a = base + int off"
  shows "\<exists>d'. holds d' \<and> discover_from (Suc k) rd a found d
    = discover_from k rd (a + 2 + len) (dict_put mid \<lparr>loc_id = mid, loc_addr = a + 2, loc_length = len\<rparr> found) d'
    \<or> mid = 0xFFFF \<or> off = 0"
proof -
  obtain d' where d': "rd a 2 d = (Inr [mid, len], d')" "holds d'" using reads [OF assms(1,2)] assms(3) by blast
  have "mask16 mid = mid" "mask16 len = len" using assms(2) by (auto simp: image_headers_def)
  then show ?thesis using d' by (auto simp: bindS_def nth_item_def)
qed

lemma stop:
  assumes "holds d" "a = base + 148"
  shows "\<exists>d'. holds d' \<and> discover_from (Suc k) rd a found d = (Inr found, d')"
  using reads [OF assms(1), of 148 "[0xFFFF, 0]"] assms(2) by (auto simp: image_headers_def bindS_def nth_item_def)

lemma discovers:
  assumes "holds d"
  shows "\<exists>d'. holds d' \<and> discover rd base 32 d = (Inr (image_locations base), d')"
proof -
  obtain d0 where d0: "rd base 2 d = (Inr [0x5375, 0x6E53], d0)" "holds d0"
    using reads [OF assms, of 0 "[0x5375, 0x6E53]"] by (auto simp: image_headers_def)
  have h: "(2, [1, 66]) \<in> set image_headers" "(70, [103, 50]) \<in> set image_headers" "(122, [123, 24]) \<in> set image_headers"
    by (simp_all add: image_headers_def)
  let ?a = "base + 2" let ?b = "?a + 2 + 66" let ?c = "?b + 2 + 50" let ?d = "?c + 2 + 24"
  let ?f1 = "dict_put 1 \<lparr>loc_id = 1, loc_addr = ?a + 2, loc_length = 66\<rparr> []"
  let ?f2 = "dict_put 103 \<lparr>loc_id = 103, loc_addr = ?b + 2, loc_length = 50\<rparr> ?f1"
  let ?f3 = "dict_put 123 \<lparr>loc_id = 123, loc_addr = ?c + 2, loc_length = 24\<rparr> ?f2"
  obtain d1 where d1: "holds d1" "discover_from (Suc 31) rd ?a [] d0 = discover_from 31 rd ?b ?f1 d1"
    using step [OF d0(2) h(1), of ?a 31 "[]"] by fastforce
  obtain d2 where d2: "holds d2" "discover_from (Suc 30) rd ?b ?f1 d1 = discover_from 30 rd ?c ?f2 d2"
    using step [OF d1(1) h(2), of ?b 30 ?f1] by fastforce
  obtain d3 where d3: "holds d3" "discover_from (Suc 29) rd ?c ?f2 d2 = discover_from 29 rd ?d ?f3 d3"
    using step [OF d2(1) h(3), of ?c 29 ?f2] by fastforce
  obtain d4 where d4: "holds d4" "discover_from (Suc 28) rd ?d ?f3 d3 = (Inr ?f3, d4)"
    using stop [OF d3(1), of ?d 28 ?f3] by fastforce
  have n: "Suc 31 = 32" "Suc 30 = 31" "Suc 29 = 30" "Suc 28 = 29" by simp_all
  have "discover_from 32 rd ?a [] d0 = (Inr ?f3, d4)"
    using d1(2) d2(2) d3(2) d4(2) unfolding n by (simp only:)
  moreover have "?f3 = image_locations base" by (simp add: image_locations_def)
  ultimately have "discover rd base 32 d = (Inr (image_locations base), d4)"
    by (simp add: discover_def bindS_def d0(1))
  with d4(1) show ?thesis by blast
qed

lemma connects:
  assumes "holds d"
  shows "\<exists>d'. holds d' \<and> connect rd base d = (Inr (image_locations base), d')"
  using discovers [OF assms] by (auto simp: connect_def bindS_def image_locations_def)

end

interpretation bus: register_map "inverter_read avail unit" "int base" "\<lambda>c. controls_hold cap base pct ena (mb_peer c)"
  for avail unit cap base pct ena
proof unfold_locales
  fix c :: "inverter modbus_client" and off hdr
  assume c: "controls_hold cap base pct ena (mb_peer c)" and h: "(off, hdr) \<in> set image_headers"
  let ?img = "build_image (plant_of cap (avail (iv_time (mb_peer c))) (of_nat pct) (int ena))"
  have "hdr = take 2 (drop off ?img)" "off + 2 \<le> 150"
    using h image_slices [of "plant_of cap (avail (iv_time (mb_peer c))) (of_nat pct) (int ena)"] by (auto simp: image_headers_def)
  then show "\<exists>d'. inverter_read avail unit (int base + int off) 2 c = (Inr hdr, d') \<and> controls_hold cap base pct ena (mb_peer d')"
    using bus_read [OF c, of off 2 avail unit] refresh_image(1) [OF c] by simp
qed

subsection \<open>Starting, curtailing, reading\<close>

lemma local_reads:
  assumes "\<forall>i<150. iv_regs s (base + i) = Some (nat (build_image p ! i))" "(off, hdr) \<in> set image_headers"
  shows "read_local (int base + int off) 2 s = (Inr hdr, s)"
proof -
  have hdr: "hdr = take 2 (drop off (build_image p))" and off: "off + 2 \<le> 150"
    using assms(2) image_slices [of p] by (auto simp: image_headers_def)
  have pos: "nat (int base + int off) = base + off" by simp
  have rng: "0 \<le> build_image p ! (off + i)" if "i < 2" for i
    using that off image_range [of "build_image p ! (off + i)" p] by (simp add: image_parts)
  have "map (\<lambda>i. int (reg_get (iv_regs s) (nat (int base + int off) + i) 0)) [0..<2] = take 2 (drop off (build_image p))"
    using off rng assms(1) by (intro nth_equalityI) (simp_all add: image_parts pos reg_get_def add.assoc)
  then show ?thesis by (simp add: read_local_def hdr)
qed

text \<open>The simulator's own discovery, on the registers as they stand.\<close>

definition holds_image :: "inverter \<Rightarrow> nat \<Rightarrow> inverter \<Rightarrow> bool" where
  "holds_image s0 base s \<longleftrightarrow> s = s0 \<and> (\<exists>p. \<forall>i<150. iv_regs s (base + i) = Some (nat (build_image p ! i)))"

interpretation own: register_map read_local "int base" "holds_image s0 base" for base s0
  by unfold_locales (use local_reads in \<open>auto simp: holds_image_def\<close>)

lemma started:
  assumes "base + 150 \<le> 65536"
  shows "\<exists>s. start_inverter avail cap base = Inr s \<and> controls_hold cap base 100 0 s"
proof -
  let ?s0 = "\<lparr>iv_capacity = cap, iv_base = base, iv_regs = Map.empty, iv_pct_addr = 0, iv_ena_addr = 0, iv_time = 0\<rparr>"
  define s where "s = write_image avail 100 0 ?s0"
  let ?p = "plant_of cap (avail 0) 100 0"
  have img: "iv_regs s (base + i) = Some (nat (build_image ?p ! i))" if "i < 150" for i
    using image_written [OF that, of avail 100 0 ?s0] by (simp add: s_def)
  then have "holds_image s base s" by (auto simp: holds_image_def)
  from own.discovers [OF this] have disc: "discover read_local (int base) 32 s = (Inr (image_locations (int base)), s)"
    by (auto simp: holds_image_def)
  let ?s = "s\<lparr>iv_pct_addr := base + 129, iv_ena_addr := base + 133\<rparr>"
  have "nat (int base + 124 + 5) = base + 129" "nat (int base + 124 + 9) = base + 133" by simp_all
  then have "start_inverter avail cap base = Inr ?s"
    unfolding start_inverter_def Let_def s_def [symmetric] by (simp add: disc image_locations_def)
  moreover have "round_even 100 = 100" using round_even_of_int [of 100] by simp
  then have "controls_hold cap base 100 0 ?s"
    using assms img [of 129] img [of 133]
    by (simp add: controls_hold_def image_controls plant_of_def Let_def) (simp add: s_def)
  ultimately show ?thesis by blast
qed

text \<open>The driver's two register writes.\<close>

lemma bus_write:
  assumes "controls_hold cap base pct ena (mb_peer c)" "off < 150"
  shows "\<exists>tx. inverter_write avail unit (int base + int off) [v] c
    = (Inr (), c\<lparr>mb_tx := tx, mb_peer := (mb_peer c)\<lparr>iv_regs := (iv_regs (mb_peer c))(base + off \<mapsto> nat (v AND 0xFFFF))\<rparr>\<rparr>)"
proof -
  have "int base + int off < 65536" "nat (int base + int off) = base + off" using assms by (auto simp: controls_hold_def)
  moreover have "nat (v AND 0xFFFF) mod 65536 = nat (v AND 0xFFFF)"
    using mask16_range [of v] by (simp add: nat_less_iff)
  ultimately show ?thesis
    unfolding inverter_write_def inverter_server_def by (subst write_served [OF refl]) auto
qed

lemma limit_written:
  assumes "controls_hold cap base pct ena (mb_peer c)" "0 \<le> p" "p \<le> 100"
  shows "\<exists>c'. set_limit_pct (inverter_write avail unit) (image_locations (int base)) p enable c
      = (Inr \<lparr>cres_status = ''ACKED'', cres_error = None\<rparr>, c')
    \<and> controls_hold cap base (nat (round_even p)) (if enable then 1 else 0) (mb_peer c')"
proof -
  let ?v = "round_even p" and ?e = "if enable then 1 else (0::int)"
  have v: "0 \<le> ?v" "?v \<le> 100"
    using round_even_mono [OF assms(2)] round_even_mono [OF assms(3)] round_even_of_int [of 0] round_even_of_int [of 100]
    by simp_all
  have mv: "nat (?v AND 0xFFFF) = nat ?v" using v by (simp add: mask16_mod)
  have me: "nat (?e AND 0xFFFF) = nat ?e" by simp
  obtain tx where w1: "inverter_write avail unit (int base + 129) [?v] c
      = (Inr (), c\<lparr>mb_tx := tx, mb_peer := (mb_peer c)\<lparr>iv_regs := (iv_regs (mb_peer c))(base + 129 \<mapsto> nat ?v)\<rparr>\<rparr>)"
    using bus_write [OF assms(1), of 129 avail unit ?v] by (auto simp: mv)
  let ?c1 = "c\<lparr>mb_tx := tx, mb_peer := (mb_peer c)\<lparr>iv_regs := (iv_regs (mb_peer c))(base + 129 \<mapsto> nat ?v)\<rparr>\<rparr>"
  have h1: "controls_hold cap base (nat ?v) ena (mb_peer ?c1)" using assms(1) v by (auto simp: controls_hold_def)
  obtain tx2 where w2: "inverter_write avail unit (int base + 133) [?e] ?c1
      = (Inr (), ?c1\<lparr>mb_tx := tx2, mb_peer := (mb_peer ?c1)\<lparr>iv_regs := (iv_regs (mb_peer ?c1))(base + 133 \<mapsto> nat ?e)\<rparr>\<rparr>)"
    using bus_write [OF h1, of 133 avail unit ?e] by (auto simp: me)
  let ?c2 = "?c1\<lparr>mb_tx := tx2, mb_peer := (mb_peer ?c1)\<lparr>iv_regs := (iv_regs (mb_peer ?c1))(base + 133 \<mapsto> nat ?e)\<rparr>\<rparr>"
  have "controls_hold cap base (nat ?v) (nat ?e) (mb_peer ?c2)" using h1 by (auto simp: controls_hold_def)
  moreover have "set_limit_pct (inverter_write avail unit) (image_locations (int base)) p enable c
      = (Inr \<lparr>cres_status = ''ACKED'', cres_error = None\<rparr>, ?c2)"
    using w1 w2 by (cases enable) (simp_all add: set_limit_pct_def image_locations_def bindS_def add.commute)
  ultimately show ?thesis by (intro exI [of _ ?c2]) (cases enable; simp)
qed

subsection \<open>What a reading shows\<close>

lemma reading:
  assumes "controls_hold cap base pct ena (mb_peer c)" "p = plant_of cap (avail (iv_time (mb_peer c))) (of_nat pct) (int ena)"
    "int16 (pl_ac_w p)" "int16 (pl_dc_w p)"
  shows "\<exists>native c'. read_telemetry (inverter_read avail unit) (image_locations (int base)) c = (Inr native, c')
    \<and> map_of native ''W_kw'' = Some (PFloat (Fin (of_int (pl_ac_w p) / 1000)))
    \<and> controls_hold cap base pct ena (mb_peer c')"
proof -
  let ?c' = "c\<lparr>mb_tx := (mb_tx c + 1) mod 65536, mb_peer := refresh avail (mb_peer c)\<rparr>"
  have "int base + 72 = int base + int 72" "(50::int) = int 50" by simp_all
  then have "inverter_read avail unit (int base + 72) 50 c = (Inr (take 50 (drop 72 (build_image p))), ?c')"
    using bus_read [OF assms(1), of 72 50 avail unit] by (simp add: assms(2))
  then have rd: "inverter_read avail unit (int base + 72) 50 c = (Inr (inverter_block p), ?c')"
    by (simp only: image_slices)
  have "\<exists>d. decode_model inverter_model_103 (inverter_block p) = Inr d
      \<and> map_of (native_reading d) ''W_kw'' = Some (PFloat (Fin (of_int (pl_ac_w p) / 1000)))"
    by (simp add: decode_inverter_block [OF assms(3,4)] native_reading_def dict_get_def register_value_def in_kw_def)
  then obtain d where d: "decode_model inverter_model_103 (inverter_block p) = Inr d"
    "map_of (native_reading d) ''W_kw'' = Some (PFloat (Fin (of_int (pl_ac_w p) / 1000)))" by blast
  have "read_telemetry (inverter_read avail unit) (image_locations (int base)) c = (Inr (native_reading d), ?c')"
    by (simp add: read_telemetry_def read_at_def image_locations_def bindS_def rd d(1))
  with d(2) show ?thesis using refresh_image(1) [OF assms(1)] by auto
qed

lemma round_even_upper: "of_int (round_even x) \<le> x + 1 / 2"
  using round_even_error [of x] by linarith

text \<open>Sizes: an inverter of at most 31.7 kW keeps both powers within a signed register.\<close>

lemma plant_bounds:
  assumes "0 < cap" "cap \<le> 317 / 10" "0 \<le> a" "a \<le> cap" "0 \<le> pct" "pct \<le> 100" "p = plant_of cap a pct ena"
  shows "int16 (pl_ac_w p)" "int16 (pl_dc_w p)" "0 \<le> pl_ac_w p"
    "ena \<noteq> 0 \<Longrightarrow> of_int (pl_ac_w p) / 1000 \<le> cap * (pct / 100) + 1 / 2000"
proof -
  let ?lim = "if ena \<noteq> 0 then min a (cap * (pct / 100)) else a"
  have lim: "0 \<le> ?lim" "?lim \<le> 317 / 10" using assms by (auto simp: min_le_iff_disj)
  have ac: "pl_ac_w p = round_even (?lim * 1000)" by (simp add: assms(7) plant_of_def Let_def)
  have r0: "0 \<le> pl_ac_w p" using round_even_mono [of 0 "?lim * 1000"] round_even_of_int [of 0] lim(1) by (simp add: ac)
  have r1: "pl_ac_w p \<le> 31700" using round_even_mono [of "?lim * 1000" 31700] round_even_of_int [of 31700] lim(2) by (simp add: ac)
  show "0 \<le> pl_ac_w p" "int16 (pl_ac_w p)" using r0 r1 by (simp_all add: int16_def)
  have dc: "pl_dc_w p = (if 0 < pl_ac_w p then round_even (of_int (pl_ac_w p) / dc_efficiency) else 0)"
    by (simp add: assms(7) plant_of_def Let_def)
  have q: "of_int (pl_ac_w p) / dc_efficiency \<le> 32700" "0 \<le> of_int (pl_ac_w p) / dc_efficiency"
  proof -
    have "of_int (pl_ac_w p) \<le> (31700 :: rat)" using r1 by (metis of_int_le_iff of_int_numeral)
    then show "of_int (pl_ac_w p) / dc_efficiency \<le> 32700" by (simp add: dc_efficiency_def)
    show "0 \<le> of_int (pl_ac_w p) / dc_efficiency" using r0 by (simp add: dc_efficiency_def)
  qed
  have "round_even (of_int (pl_ac_w p) / dc_efficiency) \<le> 32700" "0 \<le> round_even (of_int (pl_ac_w p) / dc_efficiency)"
    using round_even_mono [OF q(1)] round_even_mono [OF q(2)] round_even_of_int [of 32700] round_even_of_int [of 0] by simp_all
  then show "int16 (pl_dc_w p)" by (simp add: dc int16_def)
  assume e: "ena \<noteq> 0"
  have "of_int (pl_ac_w p) \<le> ?lim * 1000 + 1 / 2" unfolding ac by (rule round_even_upper)
  moreover have "?lim \<le> cap * (pct / 100)" using e by simp
  ultimately show "of_int (pl_ac_w p) / 1000 \<le> cap * (pct / 100) + 1 / 2000" by (simp add: field_simps)
qed

text \<open>A limit of \<open>l\<close> kW as the whole percentage that is written.\<close>

lemma percentage_of_limit:
  assumes "0 < cap" "0 \<le> l" "kw_to_pct cap (Fin l) = Fin p"
  shows "cap * (of_int (round_even p) / 100) \<le> l + cap / 200" "0 \<le> p" "p \<le> 100"
proof -
  have p: "p = max 0 (min 100 (l / cap * 100))"
    using assms by (auto simp: kw_to_pct_def fl_min_def fl_max_def max_def min_def zero_less_divide_iff split: if_splits)
  then show "0 \<le> p" "p \<le> 100" by simp_all
  have "0 \<le> l / cap * 100" using assms(1,2) by simp
  then have "p \<le> l / cap * 100" using p by simp
  moreover have "of_int (round_even p) \<le> p + 1 / 2" by (rule round_even_upper)
  ultimately have "of_int (round_even p) \<le> l / cap * 100 + 1 / 2" by linarith
  then have "cap * of_int (round_even p) \<le> cap * (l / cap * 100 + 1 / 2)" using assms(1) by (simp add: mult_left_mono)
  also have "\<dots> = l * 100 + cap / 2" using assms(1) by (simp add: field_simps)
  finally show "cap * (of_int (round_even p) / 100) \<le> l + cap / 200" by (simp add: field_simps)
qed

text \<open>The last of \<open>n + 1\<close> readings in a row.\<close>

primrec later_reading :: "'d reader \<Rightarrow> (int \<times> location) list \<Rightarrow> nat \<Rightarrow> ('d, (string \<times> pyval) list) action" where
  "later_reading rd ms 0 = read_telemetry rd ms"
| "later_reading rd ms (Suc n) = bindS (read_telemetry rd ms) (\<lambda>_. later_reading rd ms n)"

lemma later_reading_limited:
  assumes "0 < cap" "cap \<le> 317 / 10" "\<forall>t. 0 \<le> avail t \<and> avail t \<le> cap" "pct \<le> 100"
    "controls_hold cap base pct 1 (mb_peer c)"
  shows "\<exists>native c' w. later_reading (inverter_read avail unit) (image_locations (int base)) n c = (Inr native, c')
    \<and> map_of native ''W_kw'' = Some (PFloat (Fin w)) \<and> 0 \<le> w \<and> w \<le> cap * (of_nat pct / 100) + 1 / 2000"
  using assms(5)
proof (induction n arbitrary: c)
  case (0 c)
  let ?p = "plant_of cap (avail (iv_time (mb_peer c))) (of_nat pct) (int 1)"
  have b: "int16 (pl_ac_w ?p)" "int16 (pl_dc_w ?p)" "0 \<le> pl_ac_w ?p"
    "of_int (pl_ac_w ?p) / 1000 \<le> cap * (of_nat pct / 100) + 1 / 2000"
    using plant_bounds [OF assms(1,2) _ _ _ _ refl, of "avail (iv_time (mb_peer c))" "of_nat pct" "int 1"] assms(3,4)
    by simp_all
  show ?case using reading [where p = ?p and avail = avail, OF 0 refl b(1,2), of unit] b(3,4) by fastforce
next
  case (Suc n c)
  let ?p = "plant_of cap (avail (iv_time (mb_peer c))) (of_nat pct) (int 1)"
  have b: "int16 (pl_ac_w ?p)" "int16 (pl_dc_w ?p)"
    using plant_bounds [OF assms(1,2) _ _ _ _ refl, of "avail (iv_time (mb_peer c))" "of_nat pct" "int 1"] assms(3,4)
    by simp_all
  obtain native c' where r: "read_telemetry (inverter_read avail unit) (image_locations (int base)) c = (Inr native, c')"
    "controls_hold cap base pct 1 (mb_peer c')" using reading [where p = ?p and avail = avail, OF Suc.prems refl b] by blast
  show ?case using Suc.IH [OF r(2)] by (simp add: bindS_def r(1))
qed

lemma curtailment:
  assumes "start_inverter avail cap base = Inr s" "0 < cap" "cap \<le> 317 / 10"
    "\<forall>t. 0 \<le> avail t \<and> avail t \<le> cap" "base + 150 \<le> 65536" "0 \<le> l"
  shows "\<exists>ms c1 c2. connect (inverter_read avail unit) (int base) \<lparr>mb_tx = 0, mb_peer = s\<rparr> = (Inr ms, c1)
    \<and> sunspec_command (inverter_write avail unit) ms cap ''curtail'' [(''limit_kw'', PFloat (Fin l))] c1
        = (Inr \<lparr>cres_status = ''ACKED'', cres_error = None\<rparr>, c2)
    \<and> (\<forall>n. \<exists>native c3 w. later_reading (inverter_read avail unit) ms n c2 = (Inr native, c3)
         \<and> map_of native ''W_kw'' = Some (PFloat (Fin w)) \<and> 0 \<le> w \<and> w \<le> l + cap / 200 + 1 / 2000)"
proof -
  let ?c = "\<lparr>mb_tx = 0, mb_peer = s\<rparr>" and ?ms = "image_locations (int base)"
  have "controls_hold cap base 100 0 (mb_peer ?c)" using started [OF assms(5), of avail cap] assms(1) by simp
  then obtain c1 where c1: "connect (inverter_read avail unit) (int base) ?c = (Inr ?ms, c1)"
    "controls_hold cap base 100 0 (mb_peer c1)" using bus.connects [of cap base 100 0 ?c avail unit] by blast
  obtain p where kw: "kw_to_pct cap (Fin l) = Fin p" using kw_to_pct_range by blast
  note p = percentage_of_limit [OF assms(2,6) kw]
  obtain c2 where c2: "set_limit_pct (inverter_write avail unit) ?ms p True c1
      = (Inr \<lparr>cres_status = ''ACKED'', cres_error = None\<rparr>, c2)"
    "controls_hold cap base (nat (round_even p)) 1 (mb_peer c2)"
    using limit_written [OF c1(2) p(2,3), of avail unit True] by auto
  have v: "0 \<le> round_even p" "round_even p \<le> 100"
    using round_even_mono [OF p(2)] round_even_mono [OF p(3)] round_even_of_int [of 0] round_even_of_int [of 100] by simp_all
  have "sunspec_command (inverter_write avail unit) ?ms cap ''curtail'' [(''limit_kw'', PFloat (Fin l))] c1
      = (Inr \<lparr>cres_status = ''ACKED'', cres_error = None\<rparr>, c2)"
    using c2(1) by (simp add: sunspec_command_def image_locations_def limit_to_def bindS_def dict_get_def kw)
  moreover have "\<exists>native c3 w. later_reading (inverter_read avail unit) ?ms n c2 = (Inr native, c3)
      \<and> map_of native ''W_kw'' = Some (PFloat (Fin w)) \<and> 0 \<le> w \<and> w \<le> l + cap / 200 + 1 / 2000" for n
  proof -
    have v100: "nat (round_even p) \<le> 100" using v by simp
    obtain native c3 w where r: "later_reading (inverter_read avail unit) ?ms n c2 = (Inr native, c3)"
      "map_of native ''W_kw'' = Some (PFloat (Fin w))" "0 \<le> w" "w \<le> cap * (of_nat (nat (round_even p)) / 100) + 1 / 2000"
      using later_reading_limited [OF assms(2,3,4) v100 c2(2), of unit n] by blast
    have eq: "(of_nat (nat (round_even p)) :: rat) = of_int (round_even p)" using v by simp
    have "w \<le> l + cap / 200 + 1 / 2000" using r(4) p(1) unfolding eq by linarith
    with r(1-3) show ?thesis by blast
  qed
  ultimately show ?thesis using c1(1) by blast
qed

text \<open>
  The driver finds the models of a simulated inverter over Modbus, its \<^verbatim>\<open>curtail\<close> to \<open>l\<close> kW is
  acknowledged, and every later telemetry reading, whatever the sun does, shows a power of at
  most \<open>l\<close> plus half a percent of the capacity and half a watt, and never a negative one.
\<close>
theorem sunspec_curtailment_holds:
  assumes "start_inverter avail cap base = Inr s" "0 < cap" "cap \<le> 317 / 10"
    "\<forall>t. 0 \<le> avail t \<and> avail t \<le> cap" "base + 150 \<le> 65536" "0 \<le> l"
  shows "\<exists>ms c1 c2. connect (inverter_read avail unit) (int base) \<lparr>mb_tx = 0, mb_peer = s\<rparr> = (Inr ms, c1)
    \<and> sunspec_command (inverter_write avail unit) ms cap ''curtail'' [(''limit_kw'', PFloat (Fin l))] c1
        = (Inr \<lparr>cres_status = ''ACKED'', cres_error = None\<rparr>, c2)
    \<and> (\<forall>n. \<exists>native c3 w. later_reading (inverter_read avail unit) ms n c2 = (Inr native, c3)
         \<and> map_of native ''W_kw'' = Some (PFloat (Fin w)) \<and> 0 \<le> w \<and> w \<le> l + cap / 200 + 1 / 2000)"
  by (rule curtailment [OF assms])

definition demo_sun :: "nat \<Rightarrow> rat" where
  "demo_sun t = (if even t then 8 else 3)"

theorem sunspec_curtailment_holds_witness:
  "\<exists>s ms c1 c2 native c3 w. start_inverter demo_sun 10 40000 = Inr s
    \<and> connect (inverter_read demo_sun 1) 40000 \<lparr>mb_tx = 0, mb_peer = s\<rparr> = (Inr ms, c1)
    \<and> sunspec_command (inverter_write demo_sun 1) ms 10 ''curtail'' [(''limit_kw'', PFloat (Fin 4))] c1
        = (Inr \<lparr>cres_status = ''ACKED'', cres_error = None\<rparr>, c2)
    \<and> later_reading (inverter_read demo_sun 1) ms 7 c2 = (Inr native, c3)
    \<and> map_of native ''W_kw'' = Some (PFloat (Fin w)) \<and> 0 \<le> w \<and> w \<le> 8101 / 2000"
proof -
  obtain s where s: "start_inverter demo_sun 10 40000 = Inr s" using started [of 40000 demo_sun 10] by auto
  have sun: "\<forall>t. 0 \<le> demo_sun t \<and> demo_sun t \<le> 10" by (simp add: demo_sun_def)
  show ?thesis using sunspec_curtailment_holds [OF s _ _ sun, of 4 1] s by fastforce
qed

end
