(* ===== verification/Dlms_Codec.thy ===== *)
theory Dlms_Codec
  imports Wire_Numbers
begin

text \<open>
  The DLMS/COSEM wire profile of the smart-meter driver: \<^verbatim>\<open>src/drivers/dlms/protocol.py\<close>. OBIS
  names and their six octets, the tagged scalar values, the length-prefixed frames of a TCP
  stream, and the association and GET PDUs, each with its parser.
\<close>

unbundle bit_operations_syntax

definition AARQ :: byte where "AARQ = 0x60"
definition AARE :: byte where "AARE = 0x61"
definition RLRQ :: byte where "RLRQ = 0x62"
definition RLRE :: byte where "RLRE = 0x63"
definition GET_REQUEST_NORMAL :: byte where "GET_REQUEST_NORMAL = 0xC0"
definition GET_RESPONSE_NORMAL :: byte where "GET_RESPONSE_NORMAL = 0xC4"
definition ACCEPTED :: byte where "ACCEPTED = 0"
definition REJECTED :: byte where "REJECTED = 1"
definition OBJECT_UNDEFINED :: byte where "OBJECT_UNDEFINED = 2"
definition FRAME_VER :: byte where "FRAME_VER = 1"
definition TYPE_UINT32 :: byte where "TYPE_UINT32 = 0x06"
definition TYPE_FLOAT64 :: byte where "TYPE_FLOAT64 = 0x0F"

lemmas tags = AARQ_def AARE_def RLRQ_def RLRE_def GET_REQUEST_NORMAL_def GET_RESPONSE_NORMAL_def
  ACCEPTED_def REJECTED_def OBJECT_UNDEFINED_def FRAME_VER_def TYPE_UINT32_def TYPE_FLOAT64_def

definition value_err :: "string \<Rightarrow> 'a result" where
  "value_err s = Inl (ValueError (Fmt s []))"

subsection \<open>OBIS names\<close>

definition obis_to_bytes :: "string \<Rightarrow> byte list result" where
  "obis_to_bytes obis = bindR (mapR int_of_string (split_on CHR ''.'' obis)) (\<lambda>parts.
     if length parts \<noteq> 6 \<or> \<not> list_all (\<lambda>p. 0 \<le> p \<and> p \<le> 255) parts
     then value_err ''OBIS must be 6 octets A.B.C.D.E.F''
     else Inr (map word_of_int parts))"

text \<open>\<^verbatim>\<open>".".join(parts)\<close>\<close>

fun join_dots :: "string list \<Rightarrow> string" where
  "join_dots [] = []"
| "join_dots [s] = s"
| "join_dots (s # ss) = s @ CHR ''.'' # join_dots ss"

definition bytes_to_obis :: "byte list \<Rightarrow> string result" where
  "bytes_to_obis b = (if length b < 6 then value_err ''OBIS needs 6 octets''
     else Inr (join_dots (map (\<lambda>x. num_text (unat x)) (take 6 b))))"

lemma split_join_dots:
  "ss \<noteq> [] \<Longrightarrow> \<forall>s\<in>set ss. CHR ''.'' \<notin> set s \<Longrightarrow> split_on CHR ''.'' (join_dots ss) = ss"
  by (induction ss rule: join_dots.induct) (simp_all add: split_on_none split_on_append)

text \<open>An OBIS name printed from its octets reads back as the same octets.\<close>

lemma obis_roundtrip:
  assumes "length b = 6"
  shows "bindR (bytes_to_obis b) obis_to_bytes = Inr b"
proof -
  let ?ss = "map (\<lambda>x. num_text (unat x)) b"
  have split: "split_on CHR ''.'' (join_dots ?ss) = ?ss"
    using assms num_text_char by (intro split_join_dots) auto
  have parts: "mapR int_of_string ?ss = Inr (map (\<lambda>x. int (unat x)) b)"
    by (induction b) simp_all
  have "int (unat x) \<le> 255" for x :: byte using byte_less [of x] by linarith
  then have ok: "list_all (\<lambda>p. 0 \<le> p \<and> p \<le> 255) (map (\<lambda>x. int (unat x)) b)"
    by (simp add: list_all_iff)
  have "obis_to_bytes (join_dots ?ss) = Inr b"
    using assms ok by (simp add: obis_to_bytes_def split parts map_idI)
  with assms show ?thesis by (simp add: bytes_to_obis_def)
qed

subsection \<open>Scalar values\<close>

definition encode_value :: "pyval \<Rightarrow> byte list result" where
  "encode_value v = (case v of
       PBool _ \<Rightarrow> Inl (TypeErr (Fmt ''bool is not a DLMS scalar here'' []))
     | PInt i \<Rightarrow> bindR (pack_be 4 (nat (i AND 0xFFFFFFFF))) (\<lambda>bs. Inr (TYPE_UINT32 # bs))
     | _ \<Rightarrow> bindR (py_float v) (\<lambda>x. Inr (TYPE_FLOAT64 # be_bytes 8 (double_bits x))))"

definition decode_value :: "byte list \<Rightarrow> pyval result" where
  "decode_value buf = bindR (nth_item buf 0) (\<lambda>t. let rest = drop 1 buf in
     if t = TYPE_UINT32 then bindR (unpack_be 4 (take 4 rest)) (\<lambda>n. Inr (PInt (int n)))
     else if t = TYPE_FLOAT64 then bindR (unpack_be 8 (take 8 rest)) (\<lambda>n. Inr (PFloat (double_value n)))
     else Inl (ValueError (Fmt ''unsupported DLMS data type tag {}'' [num_text (unat t)])))"

text \<open>What a reading becomes on the wire: integers keep their low thirty-two bits, unsigned.\<close>

definition wire_value :: "pyval \<Rightarrow> pyval result" where
  "wire_value v = (case v of
       PBool _ \<Rightarrow> Inl (TypeErr (Fmt ''bool is not a DLMS scalar here'' []))
     | PInt i \<Rightarrow> Inr (PInt (i mod 2 ^ 32))
     | _ \<Rightarrow> bindR (py_float v) (\<lambda>x. Inr (PFloat (double_value (double_bits x mod 2 ^ 64)))))"

lemma low32: "i AND 0xFFFFFFFF = i mod 4294967296" for i :: int
  using take_bit_eq_mask [of 32 i] by (simp add: take_bit_eq_mod mask_eq_exp_minus_1 and.commute)

lemma decode_encode: "bindR (encode_value v) decode_value = wire_value v"
proof -
  have i: "bindR (encode_value (PInt i)) decode_value = Inr (PInt (i mod 2 ^ 32))" for i
    by (simp add: encode_value_def pack_be_def decode_value_def nth_item_def low32 nat_less_iff)
  have f: "bindR (bindR r (\<lambda>x. Inr (TYPE_FLOAT64 # be_bytes 8 (double_bits x)))) decode_value
      = bindR r (\<lambda>x. Inr (PFloat (double_value (double_bits x mod 2 ^ 64))))" for r :: "pyfloat result"
    by (cases r) (simp_all add: decode_value_def nth_item_def tags)
  show ?thesis using i f [of "py_float v"] by (cases v) (simp_all add: encode_value_def wire_value_def)
qed

lemma encode_value_length: "encode_value v = Inr bs \<Longrightarrow> length bs \<le> 9"
  by (cases v) (auto simp: encode_value_def pack_be_def bindR_eq_Inr split: if_splits)

text \<open>A reading that its encoding can hold.\<close>

definition wire_scalar :: "pyval \<Rightarrow> bool" where
  "wire_scalar v \<longleftrightarrow> (case v of PInt i \<Rightarrow> 0 \<le> i \<and> i < 2 ^ 32
     | PFloat x \<Rightarrow> is_double x | _ \<Rightarrow> False)"

lemma decode_encode_scalar: "wire_scalar v \<Longrightarrow> bindR (encode_value v) decode_value = Inr v"
  by (simp add: decode_encode)
     (auto simp: wire_scalar_def wire_value_def is_double_def double_value_mod [simplified] split: pyval.splits)

text \<open>A negative integer reading, which the profile allows for exported power, comes back positive.\<close>

lemma negative_int_wraps: "bindR (encode_value (PInt (- 3))) decode_value = Inr (PInt 4294967293)"
  by (simp add: decode_encode wire_value_def)

subsection \<open>Frames\<close>

definition frame :: "byte list \<Rightarrow> byte list result" where
  "frame pdu = (if 0xFFFF < length pdu then value_err ''PDU exceeds 16-bit length''
     else bindR (pack_be 2 (length pdu)) (\<lambda>ln. Inr ([FRAME_VER] @ ln @ pdu)))"

text \<open>The complete PDUs at the front of a buffer, and how many bytes they take.\<close>

fun unframe :: "byte list \<Rightarrow> (byte list list \<times> nat) result" where
  "unframe (v # hi # lo # rest) =
     (if v \<noteq> FRAME_VER then Inl (ValueError (Fmt ''bad frame version {}'' [num_text (unat v)]))
      else let ln = be_value [hi, lo] in
        if length rest < ln then Inr ([], 0)
        else bindR (unframe (drop ln rest)) (\<lambda>(out, used). Inr (take ln rest # out, 3 + ln + used)))"
| "unframe buf = Inr ([], 0)"

subsection \<open>Association and GET\<close>

definition build_aarq :: "int \<Rightarrow> int \<Rightarrow> byte list" where
  "build_aarq client_address server_address =
     [AARQ, word_of_int (client_address AND 0xFF), word_of_int (server_address AND 0xFF), 6]"

definition build_aare :: "byte \<Rightarrow> byte list" where
  "build_aare res = [AARE, res, 6]"

definition parse_aare :: "byte list \<Rightarrow> (byte \<times> byte) result" where
  "parse_aare pdu = (if length pdu < 3 \<or> pdu ! 0 \<noteq> AARE then value_err ''not an AARE'' else Inr (pdu ! 1, pdu ! 2))"

definition parse_aarq :: "byte list \<Rightarrow> (byte \<times> byte \<times> byte) result" where
  "parse_aarq pdu = (if length pdu < 4 \<or> pdu ! 0 \<noteq> AARQ then value_err ''not an AARQ''
     else Inr (pdu ! 1, pdu ! 2, pdu ! 3))"

definition build_release_request :: "byte list" where "build_release_request = [RLRQ]"
definition build_release_response :: "byte list" where "build_release_response = [RLRE]"

definition build_get_request :: "nat \<Rightarrow> nat \<Rightarrow> byte list \<Rightarrow> byte list result" where
  "build_get_request invoke_id class_id obis =
     (if length obis \<noteq> 6 then value_err ''OBIS must be exactly 6 octets''
      else Inr ([GET_REQUEST_NORMAL, word_of_nat (invoke_id AND 0xFF)] @ be_bytes 2 (class_id AND 0xFFFF) @ obis @ [2, 0]))"

definition parse_get_request :: "byte list \<Rightarrow> (byte \<times> nat \<times> byte list \<times> byte) result" where
  "parse_get_request pdu =
     (if length pdu < 12 \<or> pdu ! 0 \<noteq> GET_REQUEST_NORMAL then value_err ''not a GetRequest-Normal''
      else bindR (unpack_be 2 (take 2 (drop 2 pdu))) (\<lambda>class_id. Inr (pdu ! 1, class_id, take 6 (drop 4 pdu), pdu ! 10)))"

definition build_get_response :: "byte \<Rightarrow> byte list \<Rightarrow> byte \<Rightarrow> byte list" where
  "build_get_response invoke_id value_bytes res = [GET_RESPONSE_NORMAL, invoke_id, res] @ value_bytes"

definition parse_get_response :: "byte list \<Rightarrow> (byte \<times> byte \<times> byte list) result" where
  "parse_get_response pdu = (if length pdu < 3 \<or> pdu ! 0 \<noteq> GET_RESPONSE_NORMAL
     then value_err ''not a GetResponse-Normal'' else Inr (pdu ! 1, pdu ! 2, drop 3 pdu))"

lemma aare_roundtrip [simp]: "parse_aare (build_aare r) = Inr (r, 6)"
  by (simp add: parse_aare_def build_aare_def)

lemma get_response_roundtrip [simp]: "parse_get_response (build_get_response i bs r) = Inr (i, r, bs)"
  by (simp add: parse_get_response_def build_get_response_def)

lemma get_request_roundtrip:
  assumes "build_get_request i c obis = Inr pdu"
  shows "parse_get_request pdu = Inr (word_of_nat (i AND 0xFF), c AND 0xFFFF, obis, 2)"
proof -
  have len: "length obis = 6" and pdu: "pdu = [GET_REQUEST_NORMAL, word_of_nat (i AND 0xFF)] @ be_bytes 2 (c AND 0xFFFF) @ obis @ [2, 0]"
    using assms by (auto simp: build_get_request_def value_err_def split: if_splits)
  have "take 6 (obis @ [2, 0]) = obis" "(obis @ [2, 0]) ! 6 = 2"
    using len by (simp_all add: nth_append)
  moreover have "c AND 0xFFFF = c mod 65536"
    using take_bit_eq_mask [of 16 c] by (simp add: take_bit_eq_mod mask_eq_exp_minus_1)
  then have "unpack_be 2 (be_bytes 2 (c AND 0xFFFF)) = Inr (c AND 0xFFFF)" by simp
  ultimately show ?thesis using len
    by (simp add: pdu parse_get_request_def be_bytes_2 numeral_2_eq_2 del: unpack_be_bytes)
qed

end
