(* ===== verification/Dlms_Hdlc.thy ===== *)
theory Dlms_Hdlc
  imports Dlms_Codec
begin

text \<open>
  The HDLC frames of \<^verbatim>\<open>src/drivers/dlms/transport.py\<close>: the frame check sequence, building and
  parsing a frame, and reading one off a byte stream. The check sequence catches every change of
  one byte. A frame is delimited by flags alone, without stuffing or a length, so a data byte
  that equals the flag cuts it short.
\<close>

unbundle bit_operations_syntax

definition HDLC_FLAG :: byte where "HDLC_FLAG = 0x7E"
definition HDLC_SNRM :: byte where "HDLC_SNRM = 0x93"
definition HDLC_UA :: byte where "HDLC_UA = 0x73"
definition HDLC_DISC :: byte where "HDLC_DISC = 0x53"

subsection \<open>The frame check sequence\<close>

definition fcs_step :: "16 word \<Rightarrow> 16 word" where
  "fcs_step crc = (if crc AND 1 \<noteq> 0 then drop_bit 1 crc XOR 0x8408 else drop_bit 1 crc)"

definition fcs_byte :: "16 word \<Rightarrow> byte \<Rightarrow> 16 word" where
  "fcs_byte crc b = (fcs_step ^^ 8) (crc XOR ucast b)"

definition fcs16 :: "byte list \<Rightarrow> 16 word" where
  "fcs16 data = foldl fcs_byte 0xFFFF data XOR 0xFFFF"

lemma xor_left_cancel: "(a XOR c :: 16 word) = a XOR d \<longleftrightarrow> c = d"
  by (metis xor.assoc xor_self_eq xor.left_neutral)

lemma xor_right_cancel: "(c XOR a :: 16 word) = d XOR a \<longleftrightarrow> c = d"
  by (metis xor_left_cancel xor.commute)

text \<open>
  One step loses nothing: the top bit of the outcome tells which branch was taken, since only the
  polynomial sets it.
\<close>

lemma fcs_step_inj: "inj fcs_step"
proof (rule injI)
  fix a b :: "16 word"
  assume eq: "fcs_step a = fcs_step b"
  have low: "x AND 1 \<noteq> 0 \<longleftrightarrow> bit x 0" for x :: "16 word"
    by (simp add: and_one_eq bit_0 odd_iff_mod_2_eq_one)
  have top: "bit (fcs_step x) 15 \<longleftrightarrow> bit x 0" for x
    using bit_imp_le_length [of x 16]
    by (auto simp: fcs_step_def low bit_xor_iff bit_drop_bit_eq bit_iff_odd_drop_bit [of 0x8408])
  from eq have same: "bit a 0 = bit b 0" using top by metis
  with eq have "drop_bit 1 a = drop_bit 1 b"
    by (auto simp: fcs_step_def low xor_right_cancel split: if_splits)
  then have "bit a (Suc n) = bit b (Suc n)" for n
    by (metis bit_drop_bit_eq comp_apply plus_1_eq_Suc)
  with same have "bit a n = bit b n" for n by (cases n) simp_all
  then show "a = b" by (rule bit_eqI)
qed

lemma fcs_steps_inj: "(fcs_step ^^ k) a = (fcs_step ^^ k) b \<longleftrightarrow> a = b"
  using inj_fn [OF fcs_step_inj, of k] by (auto dest: injD)

lemma fcs_byte_inj:
  "fcs_byte c b = fcs_byte c b' \<longleftrightarrow> b = b'" "fcs_byte c b = fcs_byte c' b \<longleftrightarrow> c = c'"
proof -
  have "unat (ucast x :: 16 word) = unat x" for x :: byte
    using byte_less [of x] by (simp add: unsigned_ucast_eq take_bit_nat_eq_self)
  then have "(ucast b :: 16 word) = ucast b' \<longleftrightarrow> b = b'" by (metis word_unat_eq_iff)
  then show "fcs_byte c b = fcs_byte c b' \<longleftrightarrow> b = b'"
    by (simp add: fcs_byte_def fcs_steps_inj xor_left_cancel)
  show "fcs_byte c b = fcs_byte c' b \<longleftrightarrow> c = c'"
    by (simp add: fcs_byte_def fcs_steps_inj xor_right_cancel)
qed

lemma fcs_fold_inj: "foldl fcs_byte c bs = foldl fcs_byte c' bs \<longleftrightarrow> c = c'"
  by (induction bs arbitrary: c c') (simp_all add: fcs_byte_inj)

text \<open>Changing any one byte changes the check sequence.\<close>

lemma fcs16_one_byte: "fcs16 (xs @ b # ys) = fcs16 (xs @ b' # ys) \<longleftrightarrow> b = b'"
  by (simp add: fcs16_def fcs_fold_inj fcs_byte_inj xor_right_cancel)

subsection \<open>Frames\<close>

text \<open>The address and control octets, the information field, and the two check octets.\<close>

definition check_octets :: "byte list \<Rightarrow> byte list" where
  "check_octets body = (let fcs = fcs16 body in [ucast fcs, ucast (drop_bit 8 fcs)])"

definition build_hdlc_frame :: "int \<Rightarrow> byte \<Rightarrow> byte list \<Rightarrow> byte list result" where
  "build_hdlc_frame address control info = (let a = push_bit 1 address OR 1 in
     if a < 0 \<or> 255 < a then value_err ''bytes must be in range(0, 256)''
     else let body = [word_of_int a, control] @ info in
       Inr ([HDLC_FLAG] @ body @ check_octets body @ [HDLC_FLAG]))"

definition parse_hdlc_frame :: "byte list \<Rightarrow> (nat \<times> byte \<times> byte list) result" where
  "parse_hdlc_frame fr = (let n = length fr in
     if n < 5 \<or> fr ! 0 \<noteq> HDLC_FLAG \<or> fr ! (n - 1) \<noteq> HDLC_FLAG
     then value_err ''not an HDLC frame (bad flag delimiters)''
     else let body = take (n - 4) (drop 1 fr); fcs = ucast (fr ! (n - 3)) OR push_bit 8 (ucast (fr ! (n - 2))) in
       if fcs16 body \<noteq> fcs then value_err ''HDLC FCS mismatch''
       else if length body < 2 then value_err ''HDLC frame body too short''
       else Inr (unat (drop_bit 1 (body ! 0)), body ! 1, drop 2 body))"

definition is_i_frame :: "byte \<Rightarrow> bool" where
  "is_i_frame control \<longleftrightarrow> control AND 1 = 0"

definition is_u_frame :: "byte \<Rightarrow> bool" where
  "is_u_frame control \<longleftrightarrow> control AND 3 = 3"

definition build_snrm :: "int \<Rightarrow> byte list result" where
  "build_snrm server_address = build_hdlc_frame server_address HDLC_SNRM []"

definition build_ua :: "int \<Rightarrow> byte list result" where
  "build_ua server_address = build_hdlc_frame server_address HDLC_UA []"

definition build_iframe :: "int \<Rightarrow> nat \<Rightarrow> nat \<Rightarrow> byte list \<Rightarrow> byte list result" where
  "build_iframe server_address send_seq recv_seq info = build_hdlc_frame server_address
     (word_of_nat (push_bit 5 (recv_seq AND 7) OR push_bit 1 (send_seq AND 7))) info"

definition iframe_seq :: "byte \<Rightarrow> byte \<times> byte" where
  "iframe_seq control = (drop_bit 1 control AND 7, drop_bit 5 control AND 7)"

text \<open>The shape every parsed frame has.\<close>

definition frame_of :: "byte list \<Rightarrow> byte list \<Rightarrow> byte list" where
  "frame_of body chk = [HDLC_FLAG] @ body @ chk @ [HDLC_FLAG]"

definition fcs_of :: "byte list \<Rightarrow> 16 word" where
  "fcs_of chk = ucast (chk ! 0) OR push_bit 8 (ucast (chk ! 1))"

lemma parse_frame_of:
  assumes "length chk = 2" "2 \<le> length body"
  shows "parse_hdlc_frame (frame_of body chk) = (if fcs16 body \<noteq> fcs_of chk then value_err ''HDLC FCS mismatch''
     else Inr (unat (drop_bit 1 (body ! 0)), body ! 1, drop 2 body))"
proof -
  let ?f = "frame_of body chk"
  have n: "length ?f = length body + 4" using assms by (simp add: frame_of_def)
  have idx: "?f ! (length body + 1) = chk ! 0" "?f ! (length body + 2) = chk ! 1"
    "?f ! (length body + 3) = HDLC_FLAG" "?f ! 0 = HDLC_FLAG"
    using assms by (simp_all add: frame_of_def nth_append nth_Cons split: nat.splits)
  have body: "take (length body) (drop 1 ?f) = body" by (simp add: frame_of_def)
  have e: "length body + 4 - 1 = length body + 3" "length body + 4 - 2 = length body + 2"
    "length body + 4 - 3 = length body + 1" "length body + 4 - 4 = length body" by simp_all
  have "\<not> length body + 4 < 5" "\<not> length body < 2" using assms by auto
  then show ?thesis
    unfolding parse_hdlc_frame_def Let_def n e idx body fcs_of_def [symmetric] by (cases body) auto
qed

lemma fcs_of_octets: "fcs_of (check_octets body) = fcs16 body"
proof -
  have "(ucast (ucast f :: byte) OR push_bit 8 (ucast (ucast (drop_bit 8 f) :: byte)) :: 16 word) = f" for f :: "16 word"
    by (rule bit_eqI) (auto simp: bit_or_iff bit_push_bit_iff bit_unsigned_iff bit_drop_bit_eq dest: bit_imp_le_length)
  then show ?thesis by (simp add: fcs_of_def check_octets_def Let_def)
qed

lemma build_frame_of:
  assumes "build_hdlc_frame address control info = Inr fr"
  shows "\<exists>body. fr = frame_of body (check_octets body) \<and> 0 \<le> address \<and> address < 128
     \<and> body = [word_of_int (push_bit 1 address OR 1), control] @ info"
proof -
  have a: "push_bit 1 address OR 1 = 2 * address + 1"
    by (simp add: push_bit_eq_mult or_one_eq mult.commute)
  show ?thesis using assms unfolding build_hdlc_frame_def Let_def a
    by (auto simp: frame_of_def value_err_def split: if_splits)
qed

text \<open>Parsing a built frame gives back the address, the control octet and the information field.\<close>

lemma hdlc_roundtrip:
  assumes "build_hdlc_frame address control info = Inr fr"
  shows "parse_hdlc_frame fr = Inr (nat address, control, info)"
proof -
  obtain body where fr: "fr = frame_of body (check_octets body)" and a: "0 \<le> address" "address < 128"
    and body: "body = [word_of_int (push_bit 1 address OR 1), control] @ info"
    using build_frame_of [OF assms] by blast
  have "length (check_octets body) = 2" by (simp add: check_octets_def Let_def)
  then have "parse_hdlc_frame fr = Inr (unat (drop_bit 1 (body ! 0)), body ! 1, drop 2 body)"
    using parse_frame_of [of "check_octets body" body] by (simp add: fr body fcs_of_octets)
  moreover have "unat (drop_bit 1 (body ! 0)) = nat address"
  proof -
    have "push_bit 1 address OR 1 = 2 * address + 1" by (simp add: push_bit_eq_mult or_one_eq mult.commute)
    moreover have "unat (word_of_int (2 * address + 1) :: byte) = nat (2 * address + 1)"
      using a by (simp only: unsigned_of_int) (simp add: take_bit_int_eq_self)
    moreover have "unat (drop_bit 1 x) = unat x div 2" for x :: byte
      using unat_drop_bit_eq [of 1 x] by (simp add: drop_bit_eq_div)
    ultimately show ?thesis using a by (simp add: body nat_div_distrib)
  qed
  ultimately show ?thesis by (simp add: body)
qed

lemma fcs16_update:
  assumes "j < length body" "b \<noteq> body ! j"
  shows "fcs16 (body[j := b]) \<noteq> fcs16 body"
proof -
  have "body[j := b] = take j body @ b # drop (Suc j) body"
    using assms(1) by (simp add: upd_conv_take_nth_drop)
  moreover have "body = take j body @ body ! j # drop (Suc j) body"
    using assms(1) by (simp add: id_take_nth_drop)
  ultimately show ?thesis using assms(2) fcs16_one_byte by metis
qed

lemma fcs_of_inj:
  assumes "length c = 2" "length d = 2" "fcs_of c = fcs_of d"
  shows "c = d"
proof -
  obtain c0 c1 d0 d1 where l: "c = [c0, c1]" "d = [d0, d1]"
    using assms by (auto simp: numeral_2_eq_2 length_Suc_conv)
  have low: "bit (fcs_of [x, y]) n \<longleftrightarrow> bit x n" if "n < 8" for x y n
    using that by (auto simp: fcs_of_def bit_or_iff bit_push_bit_iff bit_unsigned_iff)
  have high: "bit (fcs_of [x, y]) (n + 8) \<longleftrightarrow> bit y n" if "n < 8" for x y n
    using that bit_imp_le_length [of x "n + 8"]
    by (auto simp: fcs_of_def bit_or_iff bit_push_bit_iff bit_unsigned_iff)
  have "bit c0 n = bit d0 n" "bit c1 n = bit d1 n" if "n < 8" for n
    using low [OF that] high [OF that] assms(3) l by metis+
  then have "c0 = d0" "c1 = d1" by (auto intro!: bit_word_eqI)
  then show ?thesis by (simp add: l)
qed

lemma hdlc_detects_byte:
  assumes built: "build_hdlc_frame address control info = Inr fr" and i: "i < length fr" and b: "b \<noteq> fr ! i"
  shows "\<exists>m. parse_hdlc_frame (fr[i := b]) = Inl (ValueError m)"
proof -
  obtain body where fr: "fr = frame_of body (check_octets body)" and len: "2 \<le> length body"
    using build_frame_of [OF built] by auto
  let ?chk = "check_octets body"
  have chk: "length ?chk = 2" by (simp add: check_octets_def Let_def)
  have n: "length fr = length body + 4" by (simp add: fr frame_of_def chk)
  consider "i = 0 \<or> i = length body + 3" | j where "i = Suc j" "j < length body"
    | j where "i = length body + Suc j" "j < 2"
  proof -
    have "i = 0 \<or> i = length body + 3 \<or> (\<exists>j. i = Suc j \<and> j < length body) \<or> (\<exists>j. i = length body + Suc j \<and> j < 2)"
      using i n by presburger
    then show ?thesis using that by blast
  qed
  then show ?thesis
  proof cases
    case 1
    have "fr ! 0 = HDLC_FLAG" "fr ! (length body + 3) = HDLC_FLAG"
      using chk by (simp_all add: fr frame_of_def nth_append nth_Cons split: nat.splits)
    with 1 b have "b \<noteq> HDLC_FLAG" by auto
    moreover have "length fr - 1 = length body + 3" using n by simp
    ultimately have "fr[i := b] ! 0 \<noteq> HDLC_FLAG \<or> fr[i := b] ! (length fr - 1) \<noteq> HDLC_FLAG"
      using 1 i by (auto simp: nth_list_update_eq)
    then show ?thesis using n by (simp add: parse_hdlc_frame_def Let_def value_err_def)
  next
    case (2 j)
    then have "fr[i := b] = frame_of (body[j := b]) ?chk" and "b \<noteq> body ! j"
      using b by (simp_all add: fr frame_of_def list_update_append nth_append)
    then show ?thesis using 2 len chk parse_frame_of [of ?chk "body[j := b]"] fcs16_update [of j body b]
      by (simp add: fcs_of_octets value_err_def)
  next
    case (3 j)
    then have upd: "fr[i := b] = frame_of body (?chk[j := b])" and "b \<noteq> ?chk ! j"
      using b chk by (simp_all add: fr frame_of_def list_update_append nth_append)
    then have "?chk[j := b] \<noteq> ?chk" using 3 chk by (metis nth_list_update_eq)
    then have "fcs_of (?chk[j := b]) \<noteq> fcs16 body"
      using fcs_of_inj [of "?chk[j := b]" ?chk] chk by (auto simp: fcs_of_octets)
    then show ?thesis using len chk parse_frame_of [of "?chk[j := b]" body] by (simp add: upd value_err_def)
  qed
qed

subsection \<open>Reading a frame off the stream\<close>

text \<open>The bytes that arrive until the peer closes or the timeout; what is left stays in the socket.\<close>

fun hdlc_scan :: "bool \<Rightarrow> byte list \<Rightarrow> byte list \<Rightarrow> byte list result \<times> byte list" where
  "hdlc_scan started buf [] =
     (if started \<and> 2 < length buf then Inr ([HDLC_FLAG] @ buf @ [HDLC_FLAG])
      else Inl (OsErr (Fmt ''no complete HDLC frame received'' [])), [])"
| "hdlc_scan started buf (b # bs) =
     (if b = HDLC_FLAG
      then (if started \<and> 2 < length buf then (Inr ([HDLC_FLAG] @ buf @ [HDLC_FLAG]), bs)
            else hdlc_scan True [] bs)
      else hdlc_scan started (if started then buf @ [b] else buf) bs)"

definition recv_hdlc_frame :: "byte list \<Rightarrow> byte list result \<times> byte list" where
  "recv_hdlc_frame stream = hdlc_scan False [] stream"

lemma scan_data:
  "HDLC_FLAG \<notin> set xs \<Longrightarrow> hdlc_scan True buf (xs @ s) = hdlc_scan True (buf @ xs) s"
  by (induction xs arbitrary: buf) auto

text \<open>A frame without a flag among its octets is delivered whole.\<close>

lemma recv_clean_frame:
  assumes "HDLC_FLAG \<notin> set (body @ chk)" "2 < length (body @ chk)"
  shows "recv_hdlc_frame (frame_of body chk @ s) = (Inr (frame_of body chk), s)"
proof -
  have "recv_hdlc_frame (frame_of body chk @ s) = hdlc_scan True [] ((body @ chk) @ HDLC_FLAG # s)"
    by (simp add: recv_hdlc_frame_def frame_of_def)
  also have "\<dots> = hdlc_scan True (body @ chk) (HDLC_FLAG # s)"
    using scan_data [OF assms(1)] by simp
  finally show ?thesis using assms(2) by (simp add: frame_of_def)
qed

text \<open>
  A reading of 126 carries the flag in its data: the frame is cut at that octet and its check
  fails, so the reading cannot be made over this link.
\<close>

definition reading_126 :: "byte list" where
  "reading_126 = build_get_response 1 [TYPE_UINT32, 0, 0, 0, 0x7E] ACCEPTED"

lemma fcs_byte_steps:
  "fcs_byte c b = fcs_step (fcs_step (fcs_step (fcs_step (fcs_step (fcs_step (fcs_step (fcs_step (c XOR ucast b))))))))"
  by (simp add: fcs_byte_def eval_nat_numeral)

lemma fcs_of_cut: "fcs16 [3, 0, 0xC4, 1, 0, 6, 0] \<noteq> 0"
  by (simp add: fcs16_def fcs_byte_steps fcs_step_def)

lemma flag_in_data_cuts_frame:
  "bindR (build_iframe 1 0 0 reading_126) (\<lambda>fr. bindR (fst (recv_hdlc_frame fr)) parse_hdlc_frame)
     = value_err ''HDLC FCS mismatch''"
proof -
  have "build_iframe 1 0 0 reading_126
      = Inr ([HDLC_FLAG, 3, 0, 0xC4, 1, 0, 6, 0, 0, 0, HDLC_FLAG] @ check_octets [3, 0, 0xC4, 1, 0, 6, 0, 0, 0, HDLC_FLAG] @ [HDLC_FLAG])"
    by (simp add: build_iframe_def build_hdlc_frame_def reading_126_def build_get_response_def tags HDLC_FLAG_def)
  moreover have "fst (recv_hdlc_frame ([HDLC_FLAG, 3, 0, 0xC4, 1, 0, 6, 0, 0, 0, HDLC_FLAG] @ s))
      = Inr (frame_of [3, 0, 0xC4, 1, 0, 6, 0] [0, 0])" for s
    by (simp add: recv_hdlc_frame_def frame_of_def HDLC_FLAG_def)
  moreover have "parse_hdlc_frame (frame_of [3, 0, 0xC4, 1, 0, 6, 0] [0, 0]) = value_err ''HDLC FCS mismatch''"
    using fcs_of_cut by (subst parse_frame_of) (simp_all add: fcs_of_def)
  ultimately show ?thesis by simp
qed

text \<open>
  C33: A built HDLC frame parses back to its address, control octet and information field, and
  whatever single octet of it arrives changed, the parser raises: no corrupted octet is read as
  data.
\<close>
theorem hdlc_frame_checked:
  assumes "build_hdlc_frame address control info = Inr fr"
  shows "parse_hdlc_frame fr = Inr (nat address, control, info)
    \<and> (\<forall>i b. i < length fr \<longrightarrow> b \<noteq> fr ! i \<longrightarrow> (\<exists>m. parse_hdlc_frame (fr[i := b]) = Inl (ValueError m)))"
  using hdlc_roundtrip [OF assms] hdlc_detects_byte [OF assms] by blast

theorem hdlc_frame_checked_witness:
  "\<exists>fr. build_snrm 1 = Inr fr \<and> length fr = 6 \<and> parse_hdlc_frame fr = Inr (1, HDLC_SNRM, [])
     \<and> (\<exists>m. parse_hdlc_frame (fr[2 := HDLC_UA]) = Inl (ValueError m))"
proof -
  obtain fr where fr: "build_snrm 1 = Inr fr" "length fr = 6" "fr ! 2 = HDLC_SNRM"
    by (simp add: build_snrm_def build_hdlc_frame_def check_octets_def Let_def)
  from fr(1) have built: "build_hdlc_frame 1 HDLC_SNRM [] = Inr fr" by (simp add: build_snrm_def)
  have "HDLC_UA \<noteq> fr ! 2" using fr(3) by (simp add: HDLC_UA_def HDLC_SNRM_def)
  with fr hdlc_frame_checked [OF built] show ?thesis by auto
qed

end
