(* ===== verification/Dlms_Link.thy ===== *)
theory Dlms_Link
  imports Dlms_Hdlc
begin

text \<open>
  The TCP side of the meter: the connection loop of the server in
  \<^verbatim>\<open>src/drivers/dlms/transport.py\<close>, the client's read loop, and the meter simulator's handler of
  \<^verbatim>\<open>src/drivers/dlms/sim.py\<close>. A stream arrives as the chunks \<^verbatim>\<open>recv\<close> hands out, of any size; what
  is served does not depend on where it was cut.
\<close>

subsection \<open>Streams of frames\<close>

definition frame_bytes :: "byte list \<Rightarrow> byte list" where
  "frame_bytes p = [FRAME_VER] @ be_bytes 2 (length p) @ p"

definition frame_stream :: "byte list list \<Rightarrow> byte list" where
  "frame_stream ps = concat (map frame_bytes ps)"

definition short_pdu :: "byte list \<Rightarrow> bool" where
  "short_pdu p \<longleftrightarrow> length p \<le> 0xFFFF"

text \<open>The front of a frame that has not arrived yet.\<close>

definition incomplete :: "byte list \<Rightarrow> bool" where
  "incomplete b \<longleftrightarrow> unframe b = Inr ([], 0)"

lemma frame_short: "short_pdu p \<Longrightarrow> frame p = Inr (frame_bytes p)"
  by (simp add: frame_def frame_bytes_def pack_be_def short_pdu_def)

lemma be_value_pair: "short_pdu p \<Longrightarrow> be_value [word_of_nat (length p div 256), word_of_nat (length p)] = length p"
  using be_value_bytes [of 2 "length p"] by (simp add: be_bytes_2 short_pdu_def)

lemma unframe_frame:
  assumes "short_pdu p"
  shows "unframe (frame_bytes p @ s) = bindR (unframe s) (\<lambda>(out, used). Inr (p # out, length (frame_bytes p) + used))"
  using be_value_pair [OF assms]
  by (cases "unframe s") (auto simp: frame_bytes_def be_bytes_2 Let_def)

lemma unframe_stream:
  "\<forall>p\<in>set ps. short_pdu p \<Longrightarrow> unframe (frame_stream ps @ s)
     = bindR (unframe s) (\<lambda>(out, used). Inr (ps @ out, length (frame_stream ps) + used))"
proof (induction ps)
  case Nil
  then show ?case by (cases "unframe s") (auto simp: frame_stream_def)
next
  case (Cons p ps)
  then have "unframe (frame_stream (p # ps) @ s)
      = bindR (unframe (frame_stream ps @ s)) (\<lambda>(out, used). Inr (p # out, length (frame_bytes p) + used))"
    using unframe_frame [of p "frame_stream ps @ s"] by (simp add: frame_stream_def)
  with Cons show ?case by (cases "unframe s") (auto simp: frame_stream_def)
qed

lemma incomplete_prefix: "incomplete (x @ y) \<Longrightarrow> incomplete x"
  by (cases x rule: unframe.cases)
     (auto simp: incomplete_def Let_def bindR_eq_Inr split: if_splits prod.splits)

lemma incomplete_front: "short_pdu p \<Longrightarrow> frame_bytes p = x @ y \<Longrightarrow> y \<noteq> [] \<Longrightarrow> incomplete x"
proof (cases x rule: unframe.cases)
  case (1 v hi lo rest)
  assume p: "short_pdu p" "frame_bytes p = x @ y" "y \<noteq> []"
  with 1 have "[v, hi, lo] = [FRAME_VER, word_of_nat (length p div 256), word_of_nat (length p)]" "p = rest @ y"
    by (auto simp: frame_bytes_def be_bytes_2)
  with p 1 be_value_pair [OF p(1)] show ?thesis by (simp add: incomplete_def Let_def)
qed (simp_all add: incomplete_def)

text \<open>Whatever front of a stream has arrived, it holds whole frames and an incomplete rest.\<close>

lemma stream_front:
  assumes "x @ y = frame_stream ps @ t" "\<forall>p\<in>set ps. short_pdu p" "incomplete t"
  shows "\<exists>k r. k \<le> length ps \<and> x = frame_stream (take k ps) @ r \<and> incomplete r
    \<and> r @ y = frame_stream (drop k ps) @ t"
  using assms
proof (induction ps arbitrary: x)
  case Nil
  then show ?case using incomplete_prefix [of x y] by (auto simp: frame_stream_def)
next
  case (Cons p ps)
  let ?f = "frame_bytes p"
  from Cons.prems(1) have "x @ y = ?f @ frame_stream ps @ t" by (simp add: frame_stream_def)
  then obtain us where "x = ?f @ us \<and> us @ y = frame_stream ps @ t \<or> x @ us = ?f \<and> y = us @ frame_stream ps @ t"
    using append_eq_append_conv2 [of x y ?f "frame_stream ps @ t"] by blast
  then consider z where "x = ?f @ z" "z @ y = frame_stream ps @ t" | z where "?f = x @ z" "z \<noteq> []" "y = z @ frame_stream ps @ t"
    by (metis append_Nil append_Nil2)
  then show ?case
  proof cases
    case (1 z)
    then obtain k r where "k \<le> length ps" "z = frame_stream (take k ps) @ r" "incomplete r"
      "r @ y = frame_stream (drop k ps) @ t" using Cons by (metis list.set_intros(2))
    with 1 show ?thesis by (intro exI [of _ "Suc k"] exI [of _ r]) (simp add: frame_stream_def)
  next
    case (2 z)
    then have "incomplete x" using Cons.prems(2) incomplete_front [of p x z] by simp
    with 2 show ?thesis by (intro exI [of _ 0] exI [of _ x]) (simp add: frame_stream_def)
  qed
qed

lemma incomplete_stream: "incomplete (frame_stream ps @ t) \<Longrightarrow> \<forall>p\<in>set ps. short_pdu p \<Longrightarrow> incomplete t \<Longrightarrow> ps = []"
  by (auto simp: incomplete_def unframe_stream)

subsection \<open>Serving a connection\<close>

text \<open>A handler answers a PDU, leaves it unanswered, or raises.\<close>

type_synonym pdu_handler = "byte list \<Rightarrow> byte list option result"

fun handle_pdus :: "pdu_handler \<Rightarrow> byte list list \<Rightarrow> byte list \<Rightarrow> byte list \<times> unit result" where
  "handle_pdus h [] sent = (sent, Inr ())"
| "handle_pdus h (p # ps) sent = (case h p of
       Inl e \<Rightarrow> (sent, Inl e)
     | Inr None \<Rightarrow> handle_pdus h ps sent
     | Inr (Some reply) \<Rightarrow> (case frame reply of
           Inl e \<Rightarrow> (sent, Inl e) | Inr fr \<Rightarrow> handle_pdus h ps (sent @ fr)))"

text \<open>
  The connection loop on the chunks that arrive until the peer closes or the timeout: what has been
  sent, with the bytes still buffered, or the exception that ended the thread.
\<close>

fun serve :: "pdu_handler \<Rightarrow> byte list list \<Rightarrow> byte list \<Rightarrow> byte list \<Rightarrow> byte list \<times> byte list result" where
  "serve h [] buf sent = (sent, Inr buf)"
| "serve h (data # chunks) buf sent = (if data = [] then (sent, Inr buf) else case unframe (buf @ data) of
       Inl e \<Rightarrow> (sent, Inl e)
     | Inr (pdus, used) \<Rightarrow> (case handle_pdus h pdus sent of
           (sent', Inl e) \<Rightarrow> (sent', Inl e)
         | (sent', Inr _) \<Rightarrow> serve h chunks (drop used (buf @ data)) sent'))"

lemma handle_pdus_append:
  "handle_pdus h (ps @ qs) sent = (case handle_pdus h ps sent of
     (s, Inl e) \<Rightarrow> (s, Inl e) | (s, Inr _) \<Rightarrow> handle_pdus h qs s)"
  by (induction ps arbitrary: sent) (auto split: sum.splits option.splits)

text \<open>The reference: the PDUs of the whole stream, handled in order.\<close>

definition serve_whole :: "pdu_handler \<Rightarrow> byte list list \<Rightarrow> byte list \<Rightarrow> byte list \<Rightarrow> byte list \<times> byte list result" where
  "serve_whole h ps t sent = (case handle_pdus h ps sent of (s, Inl e) \<Rightarrow> (s, Inl e) | (s, Inr _) \<Rightarrow> (s, Inr t))"

lemma serve_stream:
  assumes "[] \<notin> set chunks" "incomplete buf" "buf @ concat chunks = frame_stream ps @ t"
    "\<forall>p\<in>set ps. short_pdu p" "incomplete t"
  shows "serve h chunks buf sent = serve_whole h ps t sent"
  using assms
proof (induction chunks arbitrary: buf ps sent)
  case Nil
  then have "ps = []" using incomplete_stream [of ps t] by simp
  with Nil show ?case by (simp add: serve_whole_def frame_stream_def)
next
  case (Cons data chunks)
  then have split: "(buf @ data) @ concat chunks = frame_stream ps @ t" by simp
  from stream_front [OF split Cons.prems(4,5)] obtain k r where k: "k \<le> length ps"
    "buf @ data = frame_stream (take k ps) @ r" "incomplete r" "r @ concat chunks = frame_stream (drop k ps) @ t"
    by blast
  have short: "\<forall>p\<in>set (take k ps). short_pdu p" "\<forall>p\<in>set (drop k ps). short_pdu p"
    using Cons.prems(4) by (auto dest: in_set_takeD in_set_dropD)
  have un: "unframe (buf @ data) = Inr (take k ps, length (frame_stream (take k ps)))"
    using unframe_stream [OF short(1), of r] k(3) by (simp add: k(2) incomplete_def)
  have rest: "drop (length (frame_stream (take k ps))) (buf @ data) = r" by (simp add: k(2))
  have IH: "serve h chunks r s = serve_whole h (drop k ps) t s" for s
    using Cons.prems k short(2) by (intro Cons.IH) auto
  have "data \<noteq> []" using Cons.prems(1) by auto
  then have "serve h (data # chunks) buf sent = (case handle_pdus h (take k ps) sent of
      (s, Inl e) \<Rightarrow> (s, Inl e) | (s, Inr _) \<Rightarrow> serve_whole h (drop k ps) t s)"
    by (simp add: un rest IH del: drop_append)
  moreover have "serve_whole h ps t sent = serve_whole h (take k ps @ drop k ps) t sent" by simp
  ultimately show ?case
    unfolding serve_whole_def handle_pdus_append by (simp split: prod.splits sum.splits)
qed

text \<open>
  C37: However the network cuts a stream of frames into pieces, the server sends the replies it
  would send to the frames one by one, stops at the same exception, and keeps exactly the
  unfinished rest in its buffer.
\<close>
theorem dlms_segmentation_free:
  assumes "concat chunks = frame_stream ps @ t" "[] \<notin> set chunks" "\<forall>p\<in>set ps. short_pdu p" "incomplete t"
  shows "serve h chunks [] [] = serve_whole h ps t []"
  using assms by (intro serve_stream) (simp_all add: incomplete_def)

theorem dlms_segmentation_free_witness:
  "serve (\<lambda>p. Inr (if p = [7] then None else Some [9])) [[1], [0, 2, 5], [6, 1, 0, 1, 7, 1], [0]] [] []
    = (frame_bytes [9], Inr [1, 0])"
proof -
  have "concat [[1], [0, 2, 5], [6, 1, 0, 1, 7, 1], [0]] = frame_stream [[5, 6], [7]] @ [1, 0]"
    by (simp add: frame_stream_def frame_bytes_def FRAME_VER_def be_bytes_2)
  from dlms_segmentation_free [OF this, of "\<lambda>p. Inr (if p = [7] then None else Some [9])"] show ?thesis
    by (simp add: short_pdu_def incomplete_def serve_whole_def frame_short)
qed

subsection \<open>Reading one reply\<close>

text \<open>
  \<^verbatim>\<open>recv_pdus\<close>: the chunks waiting in the socket are read until a PDU is complete; an empty chunk is
  the peer's close, and the end of the list the timeout. What was read past the first read that
  completes a PDU stays in the socket.
\<close>

fun recv_pdus :: "byte list list \<Rightarrow> byte list \<Rightarrow> byte list list result \<times> byte list list" where
  "recv_pdus [] buf = (bindR (unframe buf) (\<lambda>(pdus, _). Inr pdus), [])"
| "recv_pdus (data # chunks) buf =
     (if data = [] then (bindR (unframe buf) (\<lambda>(pdus, _). Inr pdus), data # chunks)
      else case unframe (buf @ data) of
        Inl e \<Rightarrow> (Inl e, chunks)
      | Inr (pdus, _) \<Rightarrow> if pdus \<noteq> [] then (Inr pdus, chunks) else recv_pdus chunks (buf @ data))"

lemma recv_one:
  assumes "[] \<notin> set chunks" "incomplete buf" "buf @ concat chunks = frame_bytes p" "short_pdu p"
  shows "recv_pdus chunks buf = (Inr [p], [])"
  using assms
proof (induction chunks arbitrary: buf)
  case Nil
  then show ?case using unframe_frame [of p "[]"] by (simp add: incomplete_def)
next
  case (Cons data chunks)
  then have data: "data \<noteq> []" and split: "(buf @ data) @ concat chunks = frame_bytes p" by auto
  show ?case
  proof (cases "concat chunks = []")
    case True
    then have "chunks = []" using Cons.prems(1) by (cases chunks) auto
    moreover have "unframe (buf @ data) = Inr ([p], length (frame_bytes p))"
      using split True unframe_frame [OF Cons.prems(4), of "[]"] by simp
    ultimately show ?thesis using data by simp
  next
    case False
    then have "incomplete (buf @ data)" using incomplete_front [OF Cons.prems(4) split [symmetric]] by simp
    then show ?thesis using Cons data by (simp add: incomplete_def)
  qed
qed

end
