(* ===== verification/Dlms_Meter.thy ===== *)
theory Dlms_Meter
  imports Dlms_Link
begin

text \<open>
  The meter simulator (\<^verbatim>\<open>src/drivers/dlms/sim.py\<close>), the client (\<^verbatim>\<open>src/drivers/dlms/client.py\<close>)
  and the driver on top of it (\<^verbatim>\<open>src/drivers/dlms/driver.py\<close>). The other end of the socket is a
  parameter: what a \<^verbatim>\<open>sendall\<close> does to it and the pieces that arrive in answer. Composed with the
  server loop it is the meter, and the driver then reads exactly what the meter holds.
\<close>

subsection \<open>The meter\<close>

definition dlms_obis :: "(string \<times> string) list" where
  "dlms_obis = [(''voltage'', ''1.0.32.7.0.255''), (''current'', ''1.0.31.7.0.255''),
     (''power_kw'', ''1.0.1.7.0.255''), (''frequency'', ''1.0.14.7.0.255'')]"

definition field_by_obis :: "(string \<times> string) list" where
  "field_by_obis = map (\<lambda>(k, v). (v, k)) dlms_obis"

definition sim_defaults :: "(string \<times> pyval) list" where
  "sim_defaults = [(''voltage'', PFloat (Fin 230)), (''current'', PFloat (Fin 5)),
     (''power_kw'', PFloat (Fin 1)), (''frequency'', PFloat (Fin 50))]"

text \<open>The values of a simulator: the defaults with those that were given.\<close>

definition sim_values :: "(string \<times> pyval) list \<Rightarrow> (string \<times> pyval) list" where
  "sim_values given = fold (\<lambda>f vs. case map_of given f of None \<Rightarrow> vs | Some PNone \<Rightarrow> vs | Some v \<Rightarrow> dict_put f v vs)
     [''voltage'', ''current'', ''power_kw'', ''frequency''] sim_defaults"

definition dict_item :: "(string \<times> 'v) list \<Rightarrow> string \<Rightarrow> 'v result" where
  "dict_item d k = (case map_of d k of None \<Rightarrow> Inl (KeyErr k) | Some v \<Rightarrow> Inr v)"

definition sim_handle :: "bool \<Rightarrow> (string \<times> pyval) list \<Rightarrow> pdu_handler" where
  "sim_handle rejecting values pdu = bindR (nth_item pdu 0) (\<lambda>tag.
     if tag = AARQ then Inr (Some (build_aare (if rejecting then REJECTED else ACCEPTED)))
     else if tag = RLRQ then Inr (Some build_release_response)
     else if tag = GET_REQUEST_NORMAL then
       bindR (parse_get_request pdu) (\<lambda>(invoke_id, class_id, obis, attr).
       bindR (bytes_to_obis obis) (\<lambda>name. case map_of field_by_obis name of
           None \<Rightarrow> Inr (Some (build_get_response invoke_id [] OBJECT_UNDEFINED))
         | Some field \<Rightarrow> bindR (dict_item values field) (\<lambda>v. bindR (encode_value v) (\<lambda>bs.
             Inr (Some (build_get_response invoke_id bs ACCEPTED))))))
     else Inr None)"

subsection \<open>The client\<close>

text \<open>
  What a send does to the other end, and the pieces of its answer (an empty piece is its close);
  the pieces not yet read wait in the socket.
\<close>

type_synonym 'p peer = "byte list \<Rightarrow> 'p \<Rightarrow> byte list list result \<times> 'p"

record 'p client =
  dc_hdlc :: bool
  dc_client_address :: int
  dc_server_address :: int
  dc_sock :: "(byte list list \<times> 'p) option"
  dc_invoke :: nat
  dc_ns :: nat

type_synonym ('p, 'a) client_run = "('p client, 'a) action"

definition no_socket :: exn where
  "no_socket = AttrErr (Fmt ''NoneType object has no attribute sendall'' [])"

definition sock_send :: "'p peer \<Rightarrow> byte list \<Rightarrow> ('p, unit) client_run" where
  "sock_send peer bs c = (case dc_sock c of
       None \<Rightarrow> (Inl no_socket, c)
     | Some (waiting, p) \<Rightarrow> (case peer bs p of
         (Inl e, p') \<Rightarrow> (Inl e, c\<lparr>dc_sock := Some (waiting, p')\<rparr>)
       | (Inr pieces, p') \<Rightarrow> (Inr (), c\<lparr>dc_sock := Some (waiting @ pieces, p')\<rparr>)))"

definition tcp_send :: "'p peer \<Rightarrow> byte list \<Rightarrow> ('p, unit) client_run" where
  "tcp_send peer pdu = bindS (lift (\<lambda>_. frame pdu)) (sock_send peer)"

definition sock_pdus :: "('p, byte list list) client_run" where
  "sock_pdus c = (case dc_sock c of
       None \<Rightarrow> (Inl no_socket, c)
     | Some (waiting, p) \<Rightarrow> (let (r, rest) = recv_pdus waiting [] in (r, c\<lparr>dc_sock := Some (rest, p)\<rparr>)))"

definition sock_frame :: "('p, byte list) client_run" where
  "sock_frame c = (case dc_sock c of
       None \<Rightarrow> (Inl no_socket, c)
     | Some (waiting, p) \<Rightarrow> (let (r, rest) = recv_hdlc_frame (concat waiting)
         in (r, c\<lparr>dc_sock := Some (if rest = [] then [] else [rest], p)\<rparr>)))"

definition connection_err :: "string \<Rightarrow> byte list \<Rightarrow> exn" where
  "connection_err fmt args = ConnectionErr (Fmt fmt (map (\<lambda>b. num_text (unat b)) args))"

definition check_aare :: "byte list \<Rightarrow> ('p, unit) client_run" where
  "check_aare pdu = bindS (lift (\<lambda>_. parse_aare pdu)) (\<lambda>(res, ver).
     if res \<noteq> ACCEPTED then fail (connection_err ''DLMS association rejected (result={})'' [res]) else ret ())"

definition tcp_expect_aare :: "('p, unit) client_run" where
  "tcp_expect_aare = bindS sock_pdus (\<lambda>pdus.
     if pdus = [] then fail (connection_err ''no AARE received during association'' []) else check_aare (hd pdus))"

definition hdlc_link_setup :: "'p peer \<Rightarrow> ('p, unit) client_run" where
  "hdlc_link_setup peer = bindS (lift (\<lambda>c. build_snrm (dc_server_address c))) (\<lambda>fr.
     bindS (sock_send peer fr) (\<lambda>_. bindS sock_frame (\<lambda>ua.
     bindS (lift (\<lambda>_. parse_hdlc_frame ua)) (\<lambda>(addr, ctrl, info).
       if ctrl \<noteq> HDLC_UA then fail (connection_err ''expected UA after SNRM, got control {}'' [ctrl]) else ret ()))))"

definition bump_ns :: "('p, unit) client_run" where
  "bump_ns = modify (\<lambda>c. c\<lparr>dc_ns := (dc_ns c + 1) mod 8\<rparr>)"

definition hdlc_aarq :: "'p peer \<Rightarrow> ('p, unit) client_run" where
  "hdlc_aarq peer =
     bindS (lift (\<lambda>c. build_iframe (dc_server_address c) (dc_ns c) 0
                (build_aarq (dc_client_address c) (dc_server_address c)))) (\<lambda>fr.
     bindS (sock_send peer fr) (\<lambda>_. bindS sock_frame (\<lambda>reply.
     bindS (lift (\<lambda>_. parse_hdlc_frame reply)) (\<lambda>(addr, ctrl, info).
       if \<not> is_i_frame ctrl then fail (connection_err ''AARE not received in an I-frame'' [])
       else bindS (check_aare info) (\<lambda>_. bump_ns)))))"

text \<open>The connection is dialled by the environment; a failed association leaves the socket in place.\<close>

definition dlms_connect :: "'p result \<Rightarrow> 'p peer \<Rightarrow> ('p, unit) client_run" where
  "dlms_connect dialled peer = bindS (lift (\<lambda>_. dialled)) (\<lambda>p.
     bindS (modify (\<lambda>c. c\<lparr>dc_sock := Some ([], p)\<rparr>)) (\<lambda>_ c.
       if dc_hdlc c then bindS (hdlc_link_setup peer) (\<lambda>_. hdlc_aarq peer) c
       else bindS (tcp_send peer (build_aarq (dc_client_address c) (dc_server_address c))) (\<lambda>_. tcp_expect_aare) c))"

definition os_error :: "string \<Rightarrow> string list \<Rightarrow> exn" where
  "os_error fmt args = OsErr (Fmt fmt args)"

text \<open>The reply to a GET, over either link.\<close>

definition get_reply :: "'p peer \<Rightarrow> byte list \<Rightarrow> ('p, byte list) client_run" where
  "get_reply peer req c = (if dc_hdlc c
     then bindS (lift (\<lambda>c. build_iframe (dc_server_address c) (dc_ns c) 0 req)) (\<lambda>fr.
          bindS (sock_send peer fr) (\<lambda>_. bindS sock_frame (\<lambda>reply.
          bindS (lift (\<lambda>_. parse_hdlc_frame reply)) (\<lambda>(addr, ctrl, info).
            if \<not> is_i_frame ctrl then fail (os_error ''GET response not received in an I-frame'' [])
            else bindS bump_ns (\<lambda>_. ret info))))) c
     else bindS (tcp_send peer req) (\<lambda>_. bindS sock_pdus (\<lambda>pdus.
            if pdus = [] then fail (os_error ''no GET response'' []) else ret (hd pdus))) c)"

definition read_meter :: "'p peer \<Rightarrow> string \<Rightarrow> ('p, pyval) client_run" where
  "read_meter peer obis c = (if dc_sock c = None then (Inl (connection_err ''not associated'' []), c)
     else bindS (modify (\<lambda>c. c\<lparr>dc_invoke := (dc_invoke c + 1) mod 256\<rparr>)) (\<lambda>_.
          bindS (lift (\<lambda>c. bindR (obis_to_bytes obis) (build_get_request (dc_invoke c) 1))) (\<lambda>req.
          bindS (get_reply peer req) (\<lambda>pdu.
          bindS (lift (\<lambda>_. parse_get_response pdu)) (\<lambda>(iid, res, value_bytes).
            if res \<noteq> ACCEPTED then fail (os_error ''GET for {} failed (result={})'' [obis, num_text (unat res)])
            else lift (\<lambda>_. decode_value value_bytes))))) c)"

text \<open>\<^verbatim>\<open>except OSError: pass\<close>, then the socket is closed whatever happened.\<close>

fun is_os_error :: "exn \<Rightarrow> bool" where
  "is_os_error (OsErr _) = True"
| "is_os_error (ConnectionErr _) = True"
| "is_os_error _ = False"

definition dlms_disconnect :: "'p peer \<Rightarrow> ('p, unit) client_run" where
  "dlms_disconnect peer c = (if dc_sock c = None then (Inr (), c) else
     (case (if dc_hdlc c
            then bindS (lift (\<lambda>c. build_hdlc_frame (dc_server_address c) HDLC_DISC [])) (sock_send peer) c
            else bindS (tcp_send peer build_release_request) (\<lambda>_. bindS sock_pdus (\<lambda>_. ret ())) c) of
        (r, c') \<Rightarrow> ((case r of Inl e \<Rightarrow> if is_os_error e then Inr () else Inl e | Inr _ \<Rightarrow> Inr ()),
                    c'\<lparr>dc_sock := None\<rparr>)))"

subsection \<open>The driver\<close>

primrec mapS :: "('a \<Rightarrow> ('s, 'b) action) \<Rightarrow> 'a list \<Rightarrow> ('s, 'b list) action" where
  "mapS f [] = ret []"
| "mapS f (x # xs) = bindS (f x) (\<lambda>y. bindS (mapS f xs) (\<lambda>ys. ret (y # ys)))"

lemma mapS_Cons_run:
  "g x s = (Inr y, s1) \<Longrightarrow> mapS g xs s1 = (Inr ys, s2) \<Longrightarrow> mapS g (x # xs) s = (Inr (y # ys), s2)"
  by (simp add: bindS_def)

definition dlms_read_telemetry :: "'p peer \<Rightarrow> ('p, (string \<times> pyval) list) client_run" where
  "dlms_read_telemetry peer =
     mapS (\<lambda>(field, ln). bindS (read_meter peer ln) (\<lambda>v. ret (field, v))) dlms_obis"

subsection \<open>A peer that answers requests\<close>

text \<open>
  The contract the client relies on: an idle peer answers a framed request with one framed reply,
  in any pieces, and is idle again. \<open>reply_to\<close> tells which requests it answers and how.
\<close>

locale request_reply =
  fixes peer :: "'p peer" and idle :: "'p \<Rightarrow> bool" and reply_to :: "byte list \<Rightarrow> byte list option"
  assumes answers: "idle p \<Longrightarrow> short_pdu pdu \<Longrightarrow> reply_to pdu = Some r \<Longrightarrow> short_pdu r \<and>
    (\<exists>pieces p'. peer (frame_bytes pdu) p = (Inr pieces, p') \<and> idle p' \<and> [] \<notin> set pieces \<and> concat pieces = frame_bytes r)"

definition ready :: "('p \<Rightarrow> bool) \<Rightarrow> 'p client \<Rightarrow> bool" where
  "ready idle c \<longleftrightarrow> \<not> dc_hdlc c \<and> (\<exists>p. dc_sock c = Some ([], p) \<and> idle p)"

text \<open>The GET request for six octets under an invoke id.\<close>

definition get_pdu :: "nat \<Rightarrow> byte list \<Rightarrow> byte list" where
  "get_pdu i obis = [GET_REQUEST_NORMAL, word_of_nat (i AND 0xFF)] @ be_bytes 2 1 @ obis @ [2, 0]"

lemma get_pdu_built: "length obis = 6 \<Longrightarrow> build_get_request i 1 obis = Inr (get_pdu i obis)"
  by (simp add: build_get_request_def get_pdu_def)

lemma ready_update [simp]: "ready idle (c\<lparr>dc_invoke := n\<rparr>) = ready idle c"
  by (simp add: ready_def)

lemma bindS_result:
  "m s = (Inr x, s') \<Longrightarrow> bindS m f s = f x s'" "m s = (Inl e, s') \<Longrightarrow> bindS m f s = (Inl e, s')"
  by (simp_all add: bindS_def)

context request_reply
begin

lemma exchange:
  assumes "ready idle c" "short_pdu pdu" "reply_to pdu = Some r"
  shows "\<exists>c1 c2. tcp_send peer pdu c = (Inr (), c1) \<and> sock_pdus c1 = (Inr [r], c2) \<and> ready idle c2"
proof -
  obtain p where p: "dc_sock c = Some ([], p)" "idle p" and tcp: "\<not> dc_hdlc c"
    using assms(1) by (auto simp: ready_def)
  obtain pieces p' where a: "peer (frame_bytes pdu) p = (Inr pieces, p')" "idle p'" "[] \<notin> set pieces"
    "concat pieces = frame_bytes r" and r: "short_pdu r"
    using answers [OF p(2) assms(2,3)] by blast
  let ?c1 = "c\<lparr>dc_sock := Some (pieces, p')\<rparr>" and ?c2 = "c\<lparr>dc_sock := Some ([], p')\<rparr>"
  have "tcp_send peer pdu c = (Inr (), ?c1)"
    by (simp add: tcp_send_def bindS_def frame_short [OF assms(2)] sock_send_def p(1) a(1))
  moreover have "recv_pdus pieces [] = (Inr [r], [])"
    using recv_one [of pieces "[]" r] a r by (simp add: incomplete_def)
  then have "sock_pdus ?c1 = (Inr [r], ?c2)" by (simp add: sock_pdus_def)
  ultimately show ?thesis using tcp a(2) by (auto simp: ready_def)
qed

lemma read_meter_answered:
  assumes "ready idle c" "obis_to_bytes name = Inr obis" "length obis = 6"
    "\<And>i. reply_to (get_pdu i obis) = Some (build_get_response (word_of_nat (i AND 0xFF)) bs res)"
  shows "\<exists>c'. ready idle c' \<and> read_meter peer name c =
    ((if res \<noteq> ACCEPTED then Inl (os_error ''GET for {} failed (result={})'' [name, num_text (unat res)])
      else decode_value bs), c')"
proof -
  let ?c = "c\<lparr>dc_invoke := (dc_invoke c + 1) mod 256\<rparr>"
  let ?pdu = "get_pdu (dc_invoke ?c) obis"
  have short: "short_pdu ?pdu" using assms(3) by (simp add: short_pdu_def get_pdu_def)
  have rdy: "ready idle ?c" using assms(1) by simp
  obtain c1 c2 where x: "tcp_send peer ?pdu ?c = (Inr (), c1)"
    "sock_pdus c1 = (Inr [build_get_response (word_of_nat (dc_invoke ?c AND 0xFF)) bs res], c2)" "ready idle c2"
    using exchange [OF rdy short assms(4)] by blast
  have sock: "dc_sock c \<noteq> None" "\<not> dc_hdlc ?c" using assms(1) by (auto simp: ready_def)
  have "get_reply peer ?pdu ?c = (Inr (build_get_response (word_of_nat (dc_invoke ?c AND 0xFF)) bs res), c2)"
    using sock(2) x by (simp add: get_reply_def bindS_def)
  then show ?thesis using sock(1) x(3) assms(2) get_pdu_built [OF assms(3)]
    by (auto simp: read_meter_def bindS_def)
qed

lemma connects:
  assumes "idle p" "\<not> dc_hdlc c" "\<And>a b. reply_to (build_aarq a b) = Some (build_aare res)"
  shows "\<exists>c'. ready idle c' \<and> dlms_connect (Inr p) peer c =
    ((if res \<noteq> ACCEPTED then Inl (connection_err ''DLMS association rejected (result={})'' [res]) else Inr ()), c')"
proof -
  let ?c = "c\<lparr>dc_sock := Some ([], p)\<rparr>"
  have "ready idle ?c" using assms by (simp add: ready_def)
  moreover have "short_pdu (build_aarq a b)" for a b by (simp add: short_pdu_def build_aarq_def)
  ultimately obtain c1 c2 where x: "tcp_send peer (build_aarq (dc_client_address ?c) (dc_server_address ?c)) ?c = (Inr (), c1)"
    "sock_pdus c1 = (Inr [build_aare res], c2)" "ready idle c2"
    using exchange [OF _ _ assms(3)] by blast
  then show ?thesis using assms(2)
    by (auto simp: dlms_connect_def tcp_expect_aare_def check_aare_def bindS_def)
qed

end

subsection \<open>The simulator behind a network\<close>

text \<open>
  How the network cuts what is sent: the sizes of the pieces, each at least one byte, with the
  rest in one last piece. Every segmentation is one of these.
\<close>

fun cut :: "nat list \<Rightarrow> byte list \<Rightarrow> byte list list" where
  "cut [] bs = (if bs = [] then [] else [bs])"
| "cut (n # ns) bs = (if bs = [] then [] else take (Suc n) bs # cut ns (drop (Suc n) bs))"

lemma concat_cut [simp]: "concat (cut ns bs) = bs"
  by (induction ns bs rule: cut.induct) simp_all

lemma cut_nonempty [simp]: "[] \<notin> set (cut ns bs)"
  by (induction ns bs rule: cut.induct) auto

lemma every_segmentation_is_a_cut: "[] \<notin> set pieces \<Longrightarrow> \<exists>ns. cut ns (concat pieces) = pieces"
proof (induction pieces)
  case Nil
  then show ?case by (intro exI [of _ "[]"]) simp
next
  case (Cons x pieces)
  then obtain ns where "cut ns (concat pieces) = pieces" by auto
  then have "cut ((length x - 1) # ns) (concat (x # pieces)) = x # pieces"
    using Cons.prems by (cases x) auto
  then show ?case by blast
qed

text \<open>
  The connection as the client sees it: the server's buffer while its thread lives, and how the
  network will cut the requests and the replies to come (whole when nothing is prescribed).
\<close>

record connection =
  cn_buffer :: "byte list option"
  cn_cuts :: "(nat list \<times> nat list) list"

definition next_cuts :: "connection \<Rightarrow> nat list \<times> nat list" where
  "next_cuts k = (case cn_cuts k of [] \<Rightarrow> ([], []) | x # _ \<Rightarrow> x)"

definition meter_peer :: "bool \<Rightarrow> (string \<times> pyval) list \<Rightarrow> connection peer" where
  "meter_peer rejecting values bs k = (let (there, hither) = next_cuts k; cuts = tl (cn_cuts k) in
     case cn_buffer k of
       None \<Rightarrow> (Inr [[]], k\<lparr>cn_cuts := cuts\<rparr>)
     | Some buf \<Rightarrow> (case serve (sim_handle rejecting values) (cut there bs) buf [] of
         (sent, Inr buf') \<Rightarrow> (Inr (cut hither sent), k\<lparr>cn_buffer := Some buf', cn_cuts := cuts\<rparr>)
       | (sent, Inl e) \<Rightarrow> (Inr (cut hither sent @ [[]]), k\<lparr>cn_buffer := None, cn_cuts := cuts\<rparr>)))"

definition meter_idle :: "connection \<Rightarrow> bool" where
  "meter_idle k \<longleftrightarrow> cn_buffer k = Some []"

definition meter_reply :: "bool \<Rightarrow> (string \<times> pyval) list \<Rightarrow> byte list \<Rightarrow> byte list option" where
  "meter_reply rejecting values pdu = (case sim_handle rejecting values pdu of
     Inr (Some r) \<Rightarrow> if short_pdu r then Some r else None | _ \<Rightarrow> None)"

interpretation meter: request_reply "meter_peer rejecting vals" meter_idle "meter_reply rejecting vals"
  for rejecting vals
proof unfold_locales
  fix k pdu r
  assume k: "meter_idle k" and p: "short_pdu pdu" and r: "meter_reply rejecting vals pdu = Some r"
  then have h: "sim_handle rejecting vals pdu = Inr (Some r)" "short_pdu r"
    by (auto simp: meter_reply_def split: sum.splits option.splits if_splits)
  obtain there hither where cuts: "next_cuts k = (there, hither)" by fastforce
  have "serve (sim_handle rejecting vals) (cut there (frame_bytes pdu)) [] [] = serve_whole (sim_handle rejecting vals) [pdu] [] []"
    using p by (intro serve_stream) (simp_all add: frame_stream_def incomplete_def)
  also have "\<dots> = (frame_bytes r, Inr [])" by (simp add: serve_whole_def h frame_short)
  finally have "meter_peer rejecting vals (frame_bytes pdu) k
      = (Inr (cut hither (frame_bytes r)), k\<lparr>cn_buffer := Some [], cn_cuts := tl (cn_cuts k)\<rparr>)"
    using k by (simp add: meter_peer_def cuts meter_idle_def)
  then show "short_pdu r \<and> (\<exists>pieces p'. meter_peer rejecting vals (frame_bytes pdu) k = (Inr pieces, p') \<and> meter_idle p'
      \<and> [] \<notin> set pieces \<and> concat pieces = frame_bytes r)"
    using h(2) by (auto simp: meter_idle_def)
qed

subsection \<open>What the driver reads is what the meter holds\<close>

lemma meter_aare: "meter_reply rejecting values (build_aarq a b) = Some (build_aare (if rejecting then REJECTED else ACCEPTED))"
  by (simp add: meter_reply_def sim_handle_def build_aarq_def nth_item_def short_pdu_def build_aare_def)

lemma meter_get:
  assumes "length obis = 6" "bytes_to_obis obis = Inr name"
  shows "sim_handle rejecting values (get_pdu i obis) = (case map_of field_by_obis name of
      None \<Rightarrow> Inr (Some (build_get_response (word_of_nat (i AND 0xFF)) [] OBJECT_UNDEFINED))
    | Some field \<Rightarrow> bindR (dict_item values field) (\<lambda>v. bindR (encode_value v) (\<lambda>bs.
        Inr (Some (build_get_response (word_of_nat (i AND 0xFF)) bs ACCEPTED)))))"
proof -
  have "parse_get_request (get_pdu i obis) = Inr (word_of_nat (i AND 0xFF), 1 AND 0xFFFF, obis, 2)"
    using get_pdu_built [OF assms(1)] by (rule get_request_roundtrip)
  moreover have "nth_item (get_pdu i obis) 0 = Inr GET_REQUEST_NORMAL" by (simp add: nth_item_def get_pdu_def)
  ultimately show ?thesis by (simp add: sim_handle_def assms(2)) (simp add: tags)
qed

lemma meter_value:
  assumes "length obis = 6" "bytes_to_obis obis = Inr name" "map_of field_by_obis name = Some field"
    "map_of values field = Some v" "wire_scalar v"
  shows "\<exists>bs. decode_value bs = Inr v \<and>
    (\<forall>i. meter_reply rejecting values (get_pdu i obis) = Some (build_get_response (word_of_nat (i AND 0xFF)) bs ACCEPTED))"
proof -
  obtain bs where bs: "encode_value v = Inr bs" "decode_value bs = Inr v" "length bs \<le> 9"
    using decode_encode_scalar [OF assms(5)] encode_value_length [of v] by (auto simp: bindR_eq_Inr)
  have "meter_reply rejecting values (get_pdu i obis) = Some (build_get_response (word_of_nat (i AND 0xFF)) bs ACCEPTED)" for i
    using bs assms(3,4) by (simp add: meter_reply_def meter_get [OF assms(1,2)] dict_item_def short_pdu_def build_get_response_def)
  with bs(2) show ?thesis by blast
qed

lemma obis_names:
  "\<forall>(field, ln)\<in>set dlms_obis. \<exists>obis. obis_to_bytes ln = Inr obis \<and> length obis = 6 \<and> bytes_to_obis obis = Inr ln
     \<and> map_of field_by_obis ln = Some field"
proof -
  have b: "obis_to_bytes ''1.0.32.7.0.255'' = Inr [1, 0, 32, 7, 0, 255]" "obis_to_bytes ''1.0.31.7.0.255'' = Inr [1, 0, 31, 7, 0, 255]"
    "obis_to_bytes ''1.0.1.7.0.255'' = Inr [1, 0, 1, 7, 0, 255]" "obis_to_bytes ''1.0.14.7.0.255'' = Inr [1, 0, 14, 7, 0, 255]"
    by (simp_all add: obis_to_bytes_def int_of_string_def strip_def is_space_def split_sign_def digit_val_def)
  have t: "bytes_to_obis [1, 0, 32, 7, 0, 255] = Inr ''1.0.32.7.0.255''" "bytes_to_obis [1, 0, 31, 7, 0, 255] = Inr ''1.0.31.7.0.255''"
    "bytes_to_obis [1, 0, 1, 7, 0, 255] = Inr ''1.0.1.7.0.255''" "bytes_to_obis [1, 0, 14, 7, 0, 255] = Inr ''1.0.14.7.0.255''"
    by (simp_all add: bytes_to_obis_def num_text.simps char_of_def bit_0)
  show ?thesis by (simp add: dlms_obis_def field_by_obis_def b t)
qed

definition holds_readings :: "(string \<times> pyval) list \<Rightarrow> bool" where
  "holds_readings vs \<longleftrightarrow> (\<forall>(field, ln)\<in>set dlms_obis. case map_of vs field of None \<Rightarrow> False | Some v \<Rightarrow> wire_scalar v)"

text \<open>The four fields in the driver's order with the values the meter holds.\<close>

definition meter_fields :: "(string \<times> pyval) list \<Rightarrow> (string \<times> pyval) list" where
  "meter_fields vs = map (\<lambda>(field, ln). (field, the (map_of vs field))) dlms_obis"

lemma reads_one:
  assumes "holds_readings vs" "(field, name) \<in> set dlms_obis" "ready meter_idle c"
  shows "\<exists>c'. ready meter_idle c' \<and> read_meter (meter_peer rejecting vs) name c = (Inr (the (map_of vs field)), c')"
proof -
  obtain obis where o: "obis_to_bytes name = Inr obis" "length obis = 6" "bytes_to_obis obis = Inr name"
    "map_of field_by_obis name = Some field" using obis_names assms(2) by fastforce
  obtain v where v: "map_of vs field = Some v" "wire_scalar v"
    using assms(1,2) by (fastforce simp: holds_readings_def split: option.splits)
  obtain bs where bs: "decode_value bs = Inr v"
    "\<And>i. meter_reply rejecting vs (get_pdu i obis) = Some (build_get_response (word_of_nat (i AND 0xFF)) bs ACCEPTED)"
    using meter_value [OF o(2,3,4) v] by blast
  show ?thesis
    using meter.read_meter_answered [OF assms(3) o(1,2) bs(2)] bs(1) v(1) by simp
qed

lemma reads_all:
  assumes "holds_readings vs" "set todo \<subseteq> set dlms_obis" "ready meter_idle c"
  shows "\<exists>c'. ready meter_idle c' \<and>
    mapS (\<lambda>(field, name). bindS (read_meter (meter_peer rejecting vs) name) (\<lambda>v. ret (field, v))) todo c
      = (Inr (map (\<lambda>(field, name). (field, the (map_of vs field))) todo), c')"
  using assms(2,3)
proof (induction todo arbitrary: c)
  case (Cons x todo)
  obtain field name where x: "x = (field, name)" by fastforce
  with Cons.prems obtain c1 where c1: "ready meter_idle c1"
    "read_meter (meter_peer rejecting vs) name c = (Inr (the (map_of vs field)), c1)"
    using reads_one [OF assms(1), of field name c rejecting] by auto
  have sub: "set todo \<subseteq> set dlms_obis" using Cons.prems(1) by simp
  obtain c2 where c2: "ready meter_idle c2"
    "mapS (\<lambda>(field, name). bindS (read_meter (meter_peer rejecting vs) name) (\<lambda>v. ret (field, v))) todo c1
      = (Inr (map (\<lambda>(field, name). (field, the (map_of vs field))) todo), c2)"
    using Cons.IH [OF sub c1(1)] by blast
  have first: "bindS (read_meter (meter_peer rejecting vs) name) (\<lambda>v. ret (field, v)) c
      = (Inr (field, the (map_of vs field)), c1)" using c1(2) by (simp add: bindS_result(1))
  let ?read = "\<lambda>(field, name). bindS (read_meter (meter_peer rejecting vs) name) (\<lambda>v. ret (field, v))"
  have "?read x c = (Inr (field, the (map_of vs field)), c1)" using first by (simp only: x prod.case)
  then have "mapS ?read (x # todo) c = (Inr ((field, the (map_of vs field)) # map (\<lambda>(field, name). (field, the (map_of vs field))) todo), c2)"
    using c2(2) by (rule mapS_Cons_run)
  with c2(1) show ?case by (simp only: x list.map prod.case) blast
qed simp

text \<open>
  Over any network, however it cuts the requests and the replies into pieces, the driver
  associates with a meter that accepts it and reads exactly the four values the meter holds, in
  the profile's order; a meter that rejects the association makes \<^verbatim>\<open>connect\<close> raise.
\<close>
theorem dlms_reads_meter:
  assumes "holds_readings vs" "\<not> dc_hdlc c" "cn_buffer k = Some []"
  shows "(\<exists>c1 c2. dlms_connect (Inr k) (meter_peer False vs) c = (Inr (), c1)
      \<and> dlms_read_telemetry (meter_peer False vs) c1 = (Inr (meter_fields vs), c2))
    \<and> (\<exists>c1 m. dlms_connect (Inr k) (meter_peer True vs) c = (Inl (ConnectionErr m), c1))"
proof (intro conjI)
  have k: "meter_idle k" using assms(3) by (simp add: meter_idle_def)
  obtain c1 where c1: "ready meter_idle c1" "dlms_connect (Inr k) (meter_peer False vs) c = (Inr (), c1)"
    using meter.connects [OF k assms(2), of False vs ACCEPTED] meter_aare [of False vs] by auto
  then obtain c2 where "dlms_read_telemetry (meter_peer False vs) c1 = (Inr (meter_fields vs), c2)"
    using reads_all [OF assms(1) subset_refl c1(1), of False]
    by (auto simp: dlms_read_telemetry_def meter_fields_def)
  with c1(2) show "\<exists>c1 c2. dlms_connect (Inr k) (meter_peer False vs) c = (Inr (), c1)
      \<and> dlms_read_telemetry (meter_peer False vs) c1 = (Inr (meter_fields vs), c2)" by blast
  have "REJECTED \<noteq> ACCEPTED" by (simp add: tags)
  then show "\<exists>c1 m. dlms_connect (Inr k) (meter_peer True vs) c = (Inl (ConnectionErr m), c1)"
    using meter.connects [OF k assms(2), of True vs REJECTED] meter_aare [of True vs]
    by (auto simp: connection_err_def)
qed

definition demo_client :: "connection client" where
  "demo_client = \<lparr>dc_hdlc = False, dc_client_address = 16, dc_server_address = 1, dc_sock = None, dc_invoke = 0, dc_ns = 0\<rparr>"

lemma doubles_of_defaults: "is_double (Fin 230)" "is_double (Fin 5)" "is_double (Fin 1)" "is_double (Fin 50)"
  using double_value_is_double [of "0x406CC00000000000"] double_value_is_double [of "0x4014000000000000"]
    double_value_is_double [of "0x3FF0000000000000"] double_value_is_double [of "0x4049000000000000"]
  by (simp_all add: double_value_def double_of_fields_def power_int_def power_one_over)

lemma defaults_held: "holds_readings sim_defaults"
  by (simp add: holds_readings_def dlms_obis_def sim_defaults_def wire_scalar_def doubles_of_defaults)

theorem dlms_reads_meter_witness:
  "\<exists>c1 c2. dlms_connect (Inr \<lparr>cn_buffer = Some [], cn_cuts = [([0, 1], [3]), ([], [0, 0])]\<rparr>) (meter_peer False sim_defaults)
        demo_client = (Inr (), c1)
    \<and> dlms_read_telemetry (meter_peer False sim_defaults) c1 = (Inr [(''voltage'', PFloat (Fin 230)),
        (''current'', PFloat (Fin 5)), (''power_kw'', PFloat (Fin 1)), (''frequency'', PFloat (Fin 50))], c2)"
  using dlms_reads_meter [OF defaults_held, of demo_client "\<lparr>cn_buffer = Some [], cn_cuts = [([0, 1], [3]), ([], [0, 0])]\<rparr>"]
  by (simp add: demo_client_def meter_fields_def dlms_obis_def sim_defaults_def)

end
