(* ===== verification/Edge_Runner.thy ===== *)
theory Edge_Runner
  imports Sunspec_Sim Dlms_Meter Telemetry_Contract "HOL-Library.Sublist"
begin

text \<open>
  The edge loop that drives a protocol adapter: \<^verbatim>\<open>src/drivers/diep_driver/runner.py\<close> with
  \<^verbatim>\<open>base.py\<close> and \<^verbatim>\<open>mqtt_client.py\<close>. Telemetry is read, normalized and published, or buffered while
  the broker is unreachable and replayed on reconnect; a command is executed and answered by an
  acknowledgement. A message is the dictionary its JSON text stands for. Whether the client
  library takes a publish or raises is a parameter, attempt by attempt.
\<close>

subsection \<open>The adapter interface\<close>

record 'd driver =
  dv_domain :: string
  dv_protocol :: string
  dv_device_id :: string
  dv_tenant :: pyval
  dv_site :: pyval
  dv_meter :: pyval
  dv_envelope :: bool
  dv_units :: "(string \<times> string) list"
  dv_read :: "('d, (string \<times> pyval) list) action"
  dv_normalize :: "(string \<times> pyval) list \<Rightarrow> (string \<times> pyfloat) list"
  dv_execute :: "pyval \<Rightarrow> pyval \<Rightarrow> ('d, command_result) action"

definition base_topic :: "'d driver \<Rightarrow> string" where
  "base_topic drv = build_telemetry_topic (dv_domain drv) (dv_device_id drv)"

definition cmd_topic :: "'d driver \<Rightarrow> string" where
  "cmd_topic drv = base_topic drv @ ''/cmd''"

definition ack_topic :: "'d driver \<Rightarrow> string" where
  "ack_topic drv = base_topic drv @ ''/ack''"

subsection \<open>The loop's state\<close>

type_synonym message = "string \<times> pyval \<times> nat"

record 'd runner =
  rn_dev :: 'd
  rn_connected :: bool
  rn_broker :: "message list"
  rn_attempts :: nat
  rn_buffer :: "pyval list"
  rn_seq :: nat

text \<open>What the client library does with each publish attempt.\<close>

type_synonym publish_env = "nat \<Rightarrow> exn option"

definition publish :: "publish_env \<Rightarrow> string \<Rightarrow> pyval \<Rightarrow> nat \<Rightarrow> ('d runner, unit) action" where
  "publish env topic m qos r = (let r1 = r\<lparr>rn_attempts := rn_attempts r + 1\<rparr> in
     case env (rn_attempts r) of
       Some e \<Rightarrow> (Inl e, r1) | None \<Rightarrow> (Inr (), r1\<lparr>rn_broker := rn_broker r @ [(topic, m, qos)]\<rparr>))"

text \<open>\<^verbatim>\<open>deque(maxlen=n).append\<close>: the oldest entry gives way.\<close>

definition push_bounded :: "nat \<Rightarrow> 'a \<Rightarrow> 'a list \<Rightarrow> 'a list" where
  "push_bounded n x q = (let q' = q @ [x] in drop (length q' - n) q')"

text \<open>The buffered entry is taken out before it is published.\<close>

primrec replay :: "publish_env \<Rightarrow> string \<Rightarrow> pyval list \<Rightarrow> ('d runner, unit) action" where
  "replay env topic [] = ret ()"
| "replay env topic (m # ms) = bindS (modify (\<lambda>r. r\<lparr>rn_buffer := ms\<rparr>)) (\<lambda>_.
     bindS (publish env topic m 0) (\<lambda>_. replay env topic ms))"

definition publish_telemetry :: "publish_env \<Rightarrow> nat \<Rightarrow> 'd driver \<Rightarrow> pyval \<Rightarrow> ('d runner, unit) action" where
  "publish_telemetry env n drv m r = (if rn_connected r
     then bindS (replay env (base_topic drv) (rn_buffer r)) (\<lambda>_. publish env (base_topic drv) m 0) r
     else (Inr (), r\<lparr>rn_buffer := push_bounded n m (rn_buffer r)\<rparr>))"

subsection \<open>One reading\<close>

definition on_device :: "('d, 'a) action \<Rightarrow> ('d runner, 'a) action" where
  "on_device a r = (let (x, d) = a (rn_dev r) in (x, r\<lparr>rn_dev := d\<rparr>))"

definition driver_measurements :: "'d driver \<Rightarrow> (string \<times> pyfloat) list \<Rightarrow> measurement list result" where
  "driver_measurements drv payload =
     mapR (\<lambda>(field, unit). mk_measurement (PStr field) (PStr unit) (PFloat (dict_get payload field (Fin 0))) (PStr ''GOOD'') (PBool False))
       (filter (\<lambda>(field, unit). field \<in> fst ` set payload) (dv_units drv))"

definition build_envelope :: "'d driver \<Rightarrow> string \<Rightarrow> datetime \<Rightarrow> (string \<times> pyfloat) list \<Rightarrow> ('d runner, pyval) action" where
  "build_envelope drv fresh now payload r = (let seq = rn_seq r in
     (bindR (driver_measurements drv payload) (\<lambda>ms.
      bindR (mk_envelope fresh [(''tenant_id'', dv_tenant drv), (''site_id'', dv_site drv), (''device_id'', PStr (dv_device_id drv)),
         (''meter_id'', dv_meter drv), (''timestamp_utc'', PStr (isoformat now)), (''timestamp_source'', PStr ''GATEWAY''),
         (''source_protocol'', PStr (dv_protocol drv)), (''source_system'', PStr ''ami-ingest''), (''sequence_number'', PInt (int seq))] ms)
        (\<lambda>e. Inr (PDict (envelope_to_dict e)))),
      r\<lparr>rn_seq := seq + 1\<rparr>))"

definition flat_payload :: "'d driver \<Rightarrow> datetime \<Rightarrow> (string \<times> pyfloat) list \<Rightarrow> pyval" where
  "flat_payload drv now payload = PDict (dict_put ''time'' (PStr (isoformat now))
     (dict_put ''device_id'' (PStr (dv_device_id drv)) (map (\<lambda>(k, v). (k, PFloat v)) payload)))"

definition read_message :: "'d driver \<Rightarrow> string \<Rightarrow> datetime \<Rightarrow> ('d runner, pyval) action" where
  "read_message drv fresh now = bindS (on_device (dv_read drv)) (\<lambda>native.
     let payload = dv_normalize drv native in
     if dv_envelope drv then build_envelope drv fresh now payload else ret (flat_payload drv now payload))"

text \<open>A turn of the loop: whatever is raised is logged and the loop goes on.\<close>

definition reading_turn :: "publish_env \<Rightarrow> nat \<Rightarrow> 'd driver \<Rightarrow> string \<Rightarrow> datetime \<Rightarrow> 'd runner \<Rightarrow> 'd runner" where
  "reading_turn env n drv fresh now r = snd (bindS (read_message drv fresh now) (publish_telemetry env n drv) r)"

subsection \<open>One command\<close>

definition failed_with :: "msg \<Rightarrow> command_result" where
  "failed_with m = \<lparr>cres_status = ''FAILED'', cres_error = Some m\<rparr>"

definition command_outcome :: "command_result result \<Rightarrow> command_result" where
  "command_outcome res = (case res of
       Inl (NotImplemented _) \<Rightarrow> failed_with (Fmt ''driver not yet implemented'' [])
     | Inl e \<Rightarrow> failed_with (exn_msg e)
     | Inr x \<Rightarrow> x)"

definition ack_payload :: "'d driver \<Rightarrow> pyval \<Rightarrow> command_result \<Rightarrow> string \<Rightarrow> pyval" where
  "ack_payload drv cid res stamp = PDict [(''command_id'', cid), (''device_id'', PStr (dv_device_id drv)),
     (''status'', PStr (cres_status res)), (''error'', case cres_error res of None \<Rightarrow> PNone | Some m \<Rightarrow> PStr (msg_text m)),
     (''acked_at'', PStr stamp)]"

definition params_of_command :: "(string \<times> pyval) list \<Rightarrow> pyval" where
  "params_of_command cmd = (let p = dict_get cmd ''params'' PNone in if truthy p then p else PDict [])"

text \<open>
  The callback: a payload that is not JSON is dropped; JSON that is not an object makes the callback
  itself raise; anything else is executed and answered.
\<close>

definition on_command :: "publish_env \<Rightarrow> 'd driver \<Rightarrow> pyval option \<Rightarrow> string \<Rightarrow> ('d runner, unit) action" where
  "on_command env drv incoming stamp r = (case incoming of
       None \<Rightarrow> (Inr (), r)
     | Some (PDict cmd) \<Rightarrow>
         (let (res, d) = dv_execute drv (dict_get cmd ''command_type'' PNone) (params_of_command cmd) (rn_dev r)
          in publish env (ack_topic drv) (ack_payload drv (dict_get cmd ''command_id'' PNone) (command_outcome res) stamp) 1
               (r\<lparr>rn_dev := d\<rparr>))
     | Some _ \<Rightarrow> (Inl (AttrErr (Fmt ''object has no attribute get'' [])), r))"

subsection \<open>Runs\<close>

text \<open>A turn of the loop, a command arriving, the link to the broker going up or down.\<close>

datatype event = Turn string datetime | Arrives "pyval option" string | Link bool

definition step :: "publish_env \<Rightarrow> nat \<Rightarrow> 'd driver \<Rightarrow> event \<Rightarrow> 'd runner \<Rightarrow> 'd runner" where
  "step env n drv ev r = (case ev of
       Turn fresh now \<Rightarrow> reading_turn env n drv fresh now r
     | Arrives incoming stamp \<Rightarrow> snd (on_command env drv incoming stamp r)
     | Link up \<Rightarrow> r\<lparr>rn_connected := up\<rparr>)"

fun run :: "publish_env \<Rightarrow> nat \<Rightarrow> 'd driver \<Rightarrow> event list \<Rightarrow> 'd runner \<Rightarrow> 'd runner" where
  "run env n drv [] r = r"
| "run env n drv (ev # evs) r = run env n drv evs (step env n drv ev r)"

definition fresh_runner :: "'d \<Rightarrow> 'd runner" where
  "fresh_runner d = \<lparr>rn_dev = d, rn_connected = False, rn_broker = [], rn_attempts = 0, rn_buffer = [], rn_seq = 0\<rparr>"

text \<open>The reading an event makes, if any, and those of a run, in order.\<close>

definition made :: "'d driver \<Rightarrow> event \<Rightarrow> 'd runner \<Rightarrow> pyval list" where
  "made drv ev r = (case ev of
       Turn fresh now \<Rightarrow> (case fst (read_message drv fresh now r) of Inl _ \<Rightarrow> [] | Inr m \<Rightarrow> [m]) | _ \<Rightarrow> [])"

fun made_in :: "publish_env \<Rightarrow> nat \<Rightarrow> 'd driver \<Rightarrow> event list \<Rightarrow> 'd runner \<Rightarrow> pyval list" where
  "made_in env n drv [] r = []"
| "made_in env n drv (ev # evs) r = made drv ev r @ made_in env n drv evs (step env n drv ev r)"

text \<open>The most readings made in one stretch without a link, a stretch of \<open>k\<close> already behind.\<close>

fun longest_outage :: "publish_env \<Rightarrow> nat \<Rightarrow> 'd driver \<Rightarrow> nat \<Rightarrow> event list \<Rightarrow> 'd runner \<Rightarrow> nat" where
  "longest_outage env n drv k [] r = k"
| "longest_outage env n drv k (ev # evs) r =
     (if made drv ev r = [] then longest_outage env n drv k evs (step env n drv ev r)
      else if rn_connected r then max k (longest_outage env n drv 0 evs (step env n drv ev r))
      else longest_outage env n drv (Suc k) evs (step env n drv ev r))"

definition telemetry_sent :: "'d driver \<Rightarrow> 'd runner \<Rightarrow> pyval list" where
  "telemetry_sent drv r = map (\<lambda>(t, m, q). m) (filter (\<lambda>(t, m, q). t = base_topic drv) (rn_broker r))"

definition acks_sent :: "'d driver \<Rightarrow> 'd runner \<Rightarrow> pyval list" where
  "acks_sent drv r = map (\<lambda>(t, m, q). m) (filter (\<lambda>(t, m, q). t = ack_topic drv) (rn_broker r))"

subsection \<open>What a step does to the telemetry\<close>

lemma topics_differ [simp]: "ack_topic drv \<noteq> base_topic drv" "base_topic drv \<noteq> ack_topic drv"
  by (simp_all add: ack_topic_def)

lemma read_message_frame:
  "read_message drv fresh now r = (x, r') \<Longrightarrow> rn_connected r' = rn_connected r \<and> rn_broker r' = rn_broker r
     \<and> rn_buffer r' = rn_buffer r \<and> rn_attempts r' = rn_attempts r"
  by (auto simp: read_message_def bindS_def on_device_def build_envelope_def Let_def split: prod.splits sum.splits if_splits)

lemma replay_all:
  assumes "\<forall>k. env k = None"
  shows "\<exists>a. replay env topic ms r = (Inr (), r\<lparr>rn_buffer := if ms = [] then rn_buffer r else [], rn_attempts := a,
     rn_broker := rn_broker r @ map (\<lambda>m. (topic, m, 0)) ms\<rparr>)"
proof (induction ms arbitrary: r)
  case (Cons m ms)
  let ?r = "r\<lparr>rn_buffer := ms, rn_attempts := rn_attempts r + 1, rn_broker := rn_broker r @ [(topic, m, 0)]\<rparr>"
  have "replay env topic (m # ms) r = replay env topic ms ?r"
    using assms by (simp add: bindS_def publish_def Let_def)
  then show ?case using Cons [of ?r] by (cases ms) auto
next
  case Nil
  show ?case by (rule exI [of _ "rn_attempts r"]) simp
qed

lemma step_unmade:
  assumes "made drv ev r = []"
  shows "telemetry_sent drv (step env n drv ev r) = telemetry_sent drv r \<and> rn_buffer (step env n drv ev r) = rn_buffer r"
proof (cases ev)
  case (Turn fresh now)
  then obtain e r' where "read_message drv fresh now r = (Inl e, r')"
    using assms by (cases "read_message drv fresh now r") (auto simp: made_def split: sum.splits)
  with read_message_frame [OF this] show ?thesis
    by (simp add: Turn step_def reading_turn_def bindS_def telemetry_sent_def)
next
  case (Arrives incoming stamp)
  then show ?thesis
    by (auto simp: step_def on_command_def publish_def telemetry_sent_def Let_def split: option.splits pyval.splits prod.splits)
qed (simp add: step_def telemetry_sent_def)

lemma step_made:
  assumes "\<forall>k. env k = None" "made drv ev r = m # ms"
  shows "ms = [] \<and> (if rn_connected r
    then telemetry_sent drv (step env n drv ev r) = telemetry_sent drv r @ rn_buffer r @ [m] \<and> rn_buffer (step env n drv ev r) = []
    else telemetry_sent drv (step env n drv ev r) = telemetry_sent drv r
       \<and> rn_buffer (step env n drv ev r) = push_bounded n m (rn_buffer r))"
proof -
  obtain fresh now where ev: "ev = Turn fresh now" using assms(2) by (cases ev) (auto simp: made_def)
  obtain x r' where rx: "read_message drv fresh now r = (x, r')" by fastforce
  with assms(2) ev have rd: "read_message drv fresh now r = (Inr m, r')" and ms: "ms = []"
    by (auto simp: made_def split: sum.splits)
  note frame = read_message_frame [OF rd]
  have st: "step env n drv ev r = snd (publish_telemetry env n drv m r')"
    by (simp add: ev step_def reading_turn_def bindS_def rd)
  have on: "telemetry_sent drv (step env n drv ev r) = telemetry_sent drv r @ rn_buffer r @ [m]
      \<and> rn_buffer (step env n drv ev r) = []" if "rn_connected r"
  proof -
    obtain a where "replay env (base_topic drv) (rn_buffer r') r' = (Inr (), r'\<lparr>rn_buffer := if rn_buffer r' = [] then rn_buffer r' else [],
        rn_attempts := a, rn_broker := rn_broker r' @ map (\<lambda>m. (base_topic drv, m, 0)) (rn_buffer r')\<rparr>)"
      using replay_all [OF assms(1)] by blast
    then show ?thesis using that frame assms(1)
      by (simp add: st publish_telemetry_def bindS_def publish_def Let_def telemetry_sent_def comp_def)
  qed
  have off: "telemetry_sent drv (step env n drv ev r) = telemetry_sent drv r
      \<and> rn_buffer (step env n drv ev r) = push_bounded n m (rn_buffer r)" if "\<not> rn_connected r"
    using that frame by (simp add: st publish_telemetry_def telemetry_sent_def)
  show ?thesis using ms on off by simp
qed

subsection \<open>Store and forward\<close>

lemma outage_at_least: "k \<le> longest_outage env n drv k evs r"
proof (induction evs arbitrary: k r)
  case (Cons ev evs)
  show ?case using Cons [of k "step env n drv ev r"] Cons [of "Suc k" "step env n drv ev r"] by auto
qed simp

lemma push_room: "length q < n \<Longrightarrow> push_bounded n x q = q @ [x]"
  by (simp add: push_bounded_def)

lemma length_push: "length (push_bounded n x q) \<le> n"
  by (simp add: push_bounded_def Let_def)

lemma run_keeps_all:
  assumes "\<forall>k. env k = None" "length (rn_buffer r) \<le> k" "longest_outage env n drv k evs r \<le> n"
  shows "telemetry_sent drv (run env n drv evs r) @ rn_buffer (run env n drv evs r)
    = telemetry_sent drv r @ rn_buffer r @ made_in env n drv evs r"
  using assms(2,3)
proof (induction evs arbitrary: k r)
  case (Cons ev evs)
  let ?r = "step env n drv ev r"
  show ?case
  proof (cases "made drv ev r")
    case Nil
    then show ?thesis using Cons.IH [of ?r k] Cons.prems step_unmade [OF Nil, of env n] by simp
  next
    case (Cons m ms)
    note made = step_made [OF assms(1) Cons, of n]
    show ?thesis
    proof (cases "rn_connected r")
      case True
      then show ?thesis using Cons.IH [of ?r 0] Cons.prems made Cons by simp
    next
      case False
      have "Suc k \<le> n" using Cons.prems(2) outage_at_least [of "Suc k" env n drv evs ?r] Cons False by simp
      then have "rn_buffer ?r = rn_buffer r @ [m]" using made False Cons.prems(1) by (simp add: push_room)
      then show ?thesis using Cons.IH [of ?r "Suc k"] Cons.prems made Cons False by simp
    qed
  qed
qed simp

lemma subseq_push: "subseq (xs @ push_bounded n m q) ((xs @ q) @ [m])"
proof -
  have "suffix (push_bounded n m q) (q @ [m])" by (simp only: push_bounded_def Let_def suffix_drop)
  then have "subseq (push_bounded n m q) (q @ [m])" by (rule suffix_imp_subseq)
  from list_emb_append_mono [OF subseq_order.order_refl [of xs] this] show ?thesis by simp
qed

text \<open>
  Whatever the client library does: a replay sends, and leaves in the buffer, a part of what it was
  given, in its order; and so does a step with what it had and what it made.
\<close>

lemma replay_in_order:
  assumes "replay env (base_topic drv) ms r = (x, r')" "rn_buffer r = ms"
  shows "\<exists>sent. telemetry_sent drv r' = telemetry_sent drv r @ sent \<and> subseq (sent @ rn_buffer r') ms \<and>
    (x = Inr () \<longrightarrow> rn_buffer r' = [])"
  using assms
proof (induction ms arbitrary: r)
  case Nil
  then show ?case by simp
next
  case (Cons m ms)
  let ?q = "r\<lparr>rn_buffer := ms, rn_attempts := rn_attempts r + 1\<rparr>"
  show ?case
  proof (cases "env (rn_attempts r)")
    case None
    let ?p = "?q\<lparr>rn_broker := rn_broker r @ [(base_topic drv, m, 0)]\<rparr>"
    have "replay env (base_topic drv) ms ?p = (x, r')"
      using Cons.prems(1) None by (simp add: bindS_def publish_def Let_def)
    from Cons.IH [OF this] obtain sent where "telemetry_sent drv r' = telemetry_sent drv ?p @ sent"
      "subseq (sent @ rn_buffer r') ms" "x = Inr () \<longrightarrow> rn_buffer r' = []" by auto
    then show ?thesis by (intro exI [of _ "m # sent"]) (simp add: telemetry_sent_def)
  next
    case (Some e)
    then have "x = Inl e" "r' = ?q" using Cons.prems(1) by (simp_all add: bindS_def publish_def Let_def)
    then show ?thesis by (intro exI [of _ "[]"]) (auto simp: telemetry_sent_def intro: list_emb_Cons)
  qed
qed

lemma publish_telemetry_in_order:
  assumes "publish_telemetry env n drv m r = (x, r')"
  shows "subseq (telemetry_sent drv r' @ rn_buffer r') ((telemetry_sent drv r @ rn_buffer r) @ [m]) \<and>
    (length (rn_buffer r) \<le> n \<longrightarrow> length (rn_buffer r') \<le> n)"
proof (cases "rn_connected r")
  case False
  then show ?thesis
    using assms subseq_push [of "telemetry_sent drv r" n m "rn_buffer r"] length_push [of n m "rn_buffer r"]
    by (auto simp: publish_telemetry_def telemetry_sent_def)
next
  case True
  obtain y q where y: "replay env (base_topic drv) (rn_buffer r) r = (y, q)" by fastforce
  obtain sent where s: "telemetry_sent drv q = telemetry_sent drv r @ sent" "subseq (sent @ rn_buffer q) (rn_buffer r)"
    "y = Inr () \<longrightarrow> rn_buffer q = []" using replay_in_order [OF y refl] by blast
  have len: "length (rn_buffer q) \<le> length (rn_buffer r)"
    using list_emb_length [OF s(2)] by simp
  have old: "subseq (telemetry_sent drv q @ rn_buffer q) (telemetry_sent drv r @ rn_buffer r)"
    using list_emb_append_mono [OF subseq_order.order_refl [of "telemetry_sent drv r"] s(2)] s(1) by simp
  show ?thesis
  proof (cases y)
    case (Inl e)
    then have "r' = q" using assms True y by (simp add: publish_telemetry_def bindS_def)
    moreover have "subseq (telemetry_sent drv q @ rn_buffer q) ((telemetry_sent drv r @ rn_buffer r) @ [m])"
      using old by (rule subseq_order.order_trans) (rule prefix_imp_subseq, simp only: prefix_def, blast)
    ultimately show ?thesis using len by simp
  next
    case (Inr u)
    then have r': "publish env (base_topic drv) m 0 q = (x, r')" "rn_buffer q = []"
      using assms True y s(3) by (simp_all add: publish_telemetry_def bindS_def)
    then have "rn_buffer r' = []" "telemetry_sent drv r' = telemetry_sent drv q \<or> telemetry_sent drv r' = telemetry_sent drv q @ [m]"
      by (auto simp: publish_def telemetry_sent_def Let_def split: option.splits)
    moreover have "subseq (telemetry_sent drv q @ [m]) ((telemetry_sent drv r @ rn_buffer r) @ [m])"
      using old r'(2) by (simp add: list_emb_append_mono del: append_assoc)
    moreover have "subseq (telemetry_sent drv q) (telemetry_sent drv q @ [m])" by (rule prefix_imp_subseq) simp
    ultimately show ?thesis by (metis append_Nil2 list.size(3) subseq_order.order_trans zero_le)
  qed
qed

lemma step_in_order:
  "subseq (telemetry_sent drv (step env n drv ev r) @ rn_buffer (step env n drv ev r))
     ((telemetry_sent drv r @ rn_buffer r) @ made drv ev r) \<and>
   (length (rn_buffer r) \<le> n \<longrightarrow> length (rn_buffer (step env n drv ev r)) \<le> n)"
proof (cases "made drv ev r")
  case Nil
  then show ?thesis using step_unmade [OF Nil, of env n] by simp
next
  case (Cons m ms)
  then obtain fresh now where ev: "ev = Turn fresh now" by (cases ev) (auto simp: made_def)
  obtain x q where rx: "read_message drv fresh now r = (x, q)" by fastforce
  with Cons ev have rd: "read_message drv fresh now r = (Inr m, q)" and ms: "ms = []"
    by (auto simp: made_def split: sum.splits)
  note frame = read_message_frame [OF rd]
  obtain y r' where p: "publish_telemetry env n drv m q = (y, r')" by fastforce
  have "step env n drv ev r = r'" by (simp add: ev step_def reading_turn_def bindS_def rd p)
  moreover have "telemetry_sent drv q = telemetry_sent drv r" "rn_buffer q = rn_buffer r"
    using frame by (simp_all add: telemetry_sent_def)
  ultimately show ?thesis using publish_telemetry_in_order [OF p] Cons ms by simp
qed

lemma run_in_order:
  "subseq (telemetry_sent drv (run env n drv evs r) @ rn_buffer (run env n drv evs r))
     (telemetry_sent drv r @ rn_buffer r @ made_in env n drv evs r)"
proof (induction evs arbitrary: r)
  case (Cons ev evs)
  let ?r = "step env n drv ev r"
  have "subseq (telemetry_sent drv ?r @ rn_buffer ?r) ((telemetry_sent drv r @ rn_buffer r) @ made drv ev r)"
    using step_in_order by blast
  from list_emb_append_mono [OF this subseq_order.order_refl [of "made_in env n drv evs ?r"]]
  have "subseq (telemetry_sent drv ?r @ rn_buffer ?r @ made_in env n drv evs ?r)
      (telemetry_sent drv r @ rn_buffer r @ made_in env n drv (ev # evs) r)" by (simp only: append_assoc made_in.simps)
  with Cons.IH [of ?r] show ?case unfolding run.simps by (rule subseq_order.order_trans)
qed simp

lemma run_buffer_bounded: "length (rn_buffer r) \<le> n \<Longrightarrow> length (rn_buffer (run env n drv evs r)) \<le> n"
proof (induction evs arbitrary: r)
  case (Cons ev evs)
  then have "length (rn_buffer (step env n drv ev r)) \<le> n" using step_in_order by blast
  from Cons.IH [OF this] show ?case by (simp only: run.simps)
qed simp

text \<open>
  C31: The edge loop invents, duplicates and reorders nothing, whatever the client library raises:
  what it has published and what it still buffers are readings it made, in the order it made them,
  and the buffer never outgrows its limit. It loses nothing either, provided that no publish raises
  and that no outage lasts more readings than the buffer holds: then they are all of them. (A publish
  that raises does lose the reading, \<open>raising_publish_loses_reading\<close>.)
\<close>
theorem edge_store_and_forward:
  "let r = run env n drv evs (fresh_runner d); kept = telemetry_sent drv r @ rn_buffer r;
      ms = made_in env n drv evs (fresh_runner d) in
    length (rn_buffer r) \<le> n \<and> subseq kept ms \<and>
    ((\<forall>k. env k = None) \<and> longest_outage env n drv 0 evs (fresh_runner d) \<le> n \<longrightarrow> kept = ms)"
proof -
  have start: "telemetry_sent drv (fresh_runner d) = []" "rn_buffer (fresh_runner d) = []"
    by (simp_all add: fresh_runner_def telemetry_sent_def)
  have "length (rn_buffer (run env n drv evs (fresh_runner d))) \<le> n"
    using run_buffer_bounded [of "fresh_runner d" n env drv evs] start by simp
  then show ?thesis
    using run_in_order [of drv env n evs "fresh_runner d"] start
      run_keeps_all [of env "fresh_runner d" 0 n drv evs] by (simp add: Let_def)
qed

definition feb29 :: datetime where
  "feb29 = \<lparr>dt_year = 2024, dt_month = 2, dt_day = 29, dt_hour = 23, dt_minute = 59, dt_second = 59, dt_micro = 0\<rparr>"

text \<open>A device that counts its reads, read twice offline and once after the link came up.\<close>

definition counting_driver :: "nat driver" where
  "counting_driver = \<lparr>dv_domain = ''meter'', dv_protocol = ''test'', dv_device_id = ''d1'', dv_tenant = PNone, dv_site = PNone,
     dv_meter = PNone, dv_envelope = False, dv_units = [], dv_read = (\<lambda>k. (Inr [(''n'', PInt (int k))], k + 1)),
     dv_normalize = map (\<lambda>(f, v). (f, case v of PInt i \<Rightarrow> Fin (of_int i) | _ \<Rightarrow> NaN)),
     dv_execute = (\<lambda>ty ps. ret (failed_with (Fmt ''read-only'' [])))\<rparr>"

definition counting_run :: "event list" where
  "counting_run = [Turn ''a'' feb29, Turn ''b'' feb29, Link True, Turn ''c'' feb29]"

theorem edge_store_and_forward_witness:
  "telemetry_sent counting_driver (run (\<lambda>_. None) 2 counting_driver counting_run (fresh_runner 0))
     = map (\<lambda>k. flat_payload counting_driver feb29 [(''n'', Fin k)]) [0, 1, 2]"
proof -
  have eval: "made_in (\<lambda>_. None) 2 counting_driver counting_run (fresh_runner 0)
      = map (\<lambda>k. flat_payload counting_driver feb29 [(''n'', Fin k)]) [0, 1, 2]"
    "longest_outage (\<lambda>_. None) 2 counting_driver 0 counting_run (fresh_runner 0) = 2"
    "rn_buffer (run (\<lambda>_. None) 2 counting_driver counting_run (fresh_runner 0)) = []"
    by (simp_all add: counting_run_def made_def read_message_def on_device_def counting_driver_def step_def reading_turn_def
        publish_telemetry_def publish_def push_bounded_def fresh_runner_def bindS_def ret_def modify_def Let_def)
  then show ?thesis
    using edge_store_and_forward [of "\<lambda>_. None" 2 counting_driver counting_run 0] by (simp add: Let_def)
qed

text \<open>A publish that raises during the replay takes the reading it was publishing with it.\<close>

lemma raising_publish_loses_reading:
  assumes "env (rn_attempts r) = Some e" "rn_connected r" "rn_buffer r = m # ms"
  shows "publish_telemetry env n drv x r = (Inl e, r\<lparr>rn_buffer := ms, rn_attempts := rn_attempts r + 1\<rparr>)"
  using assms by (simp add: publish_telemetry_def bindS_def publish_def Let_def)

subsection \<open>Every command is answered\<close>

definition commands_in :: "event list \<Rightarrow> pyval list" where
  "commands_in evs = concat (map (\<lambda>ev. case ev of
     Arrives (Some (PDict cmd)) _ \<Rightarrow> [dict_get cmd ''command_id'' PNone] | _ \<Rightarrow> []) evs)"

definition ack_field :: "string \<Rightarrow> pyval \<Rightarrow> pyval" where
  "ack_field k m = (case m of PDict d \<Rightarrow> dict_get d k PNone | _ \<Rightarrow> PNone)"

lemma ack_fields:
  "ack_field ''command_id'' (ack_payload drv cid res stamp) = cid"
  "ack_field ''device_id'' (ack_payload drv cid res stamp) = PStr (dv_device_id drv)"
  "ack_field ''status'' (ack_payload drv cid res stamp) = PStr (cres_status res)"
  by (simp_all add: ack_field_def ack_payload_def dict_get_def)

text \<open>An adapter reports one of the two outcomes, whenever it reports at all.\<close>

locale adapter =
  fixes drv :: "'d driver"
  assumes outcomes: "fst (dv_execute drv ty ps d) = Inr res \<Longrightarrow> cres_status res \<in> {''ACKED'', ''FAILED''}"

definition answered :: "'d driver \<Rightarrow> pyval \<Rightarrow> bool" where
  "answered drv m \<longleftrightarrow> ack_field ''device_id'' m = PStr (dv_device_id drv)
     \<and> ack_field ''status'' m \<in> {PStr ''ACKED'', PStr ''FAILED''}"

lemma reading_turn_acks:
  assumes "\<forall>k. env k = None"
  shows "acks_sent drv (reading_turn env n drv fresh now r) = acks_sent drv r"
proof -
  obtain x r' where rx: "read_message drv fresh now r = (x, r')" by fastforce
  have r': "acks_sent drv r' = acks_sent drv r" using read_message_frame [OF rx] by (simp add: acks_sent_def)
  obtain a where rp: "replay env (base_topic drv) (rn_buffer r') r' = (Inr (), r'\<lparr>rn_buffer := if rn_buffer r' = [] then rn_buffer r' else [],
      rn_attempts := a, rn_broker := rn_broker r' @ map (\<lambda>m. (base_topic drv, m, 0)) (rn_buffer r')\<rparr>)"
    using replay_all [OF assms] by blast
  have "acks_sent drv (snd (publish_telemetry env n drv m r')) = acks_sent drv r'" for m
    using rp assms by (simp add: publish_telemetry_def bindS_def publish_def Let_def acks_sent_def filter_map o_def)
  then show ?thesis using rx r' by (cases x) (simp_all add: reading_turn_def bindS_def)
qed

context adapter
begin

lemma outcome_status: "cres_status (command_outcome (fst (dv_execute drv ty ps d))) \<in> {''ACKED'', ''FAILED''}"
  using outcomes [of ty ps d] by (auto simp: command_outcome_def failed_with_def split: sum.splits exn.splits)

lemma step_acks:
  assumes "\<forall>k. env k = None"
  shows "\<exists>as. acks_sent drv (step env n drv ev r) = acks_sent drv r @ as
    \<and> map (ack_field ''command_id'') as = commands_in [ev] \<and> list_all (answered drv) as"
proof (cases ev)
  case (Turn fresh now)
  then show ?thesis using reading_turn_acks [OF assms] by (simp add: step_def commands_in_def)
next
  case (Arrives incoming stamp)
  show ?thesis
  proof (cases "\<exists>cmd. incoming = Some (PDict cmd)")
    case True
    then obtain cmd where cmd: "incoming = Some (PDict cmd)" by blast
    let ?x = "dv_execute drv (dict_get cmd ''command_type'' PNone) (params_of_command cmd) (rn_dev r)"
    let ?a = "ack_payload drv (dict_get cmd ''command_id'' PNone) (command_outcome (fst ?x)) stamp"
    have "acks_sent drv (step env n drv ev r) = acks_sent drv r @ [?a]"
      using assms by (simp add: Arrives cmd step_def on_command_def publish_def Let_def acks_sent_def case_prod_beta)
    moreover have "answered drv ?a" using outcome_status by (simp add: answered_def ack_fields)
    ultimately show ?thesis by (intro exI [of _ "[?a]"]) (simp add: Arrives cmd commands_in_def ack_fields)
  next
    case False
    then have "acks_sent drv (step env n drv ev r) = acks_sent drv r" "commands_in [ev] = []"
      by (auto simp: Arrives step_def on_command_def commands_in_def split: option.splits pyval.splits)
    then show ?thesis by simp
  qed
next
  case (Link up)
  then show ?thesis by (simp add: step_def acks_sent_def commands_in_def)
qed

lemma run_acks:
  assumes "\<forall>k. env k = None"
  shows "\<exists>as. acks_sent drv (run env n drv evs r) = acks_sent drv r @ as
    \<and> map (ack_field ''command_id'') as = commands_in evs \<and> list_all (answered drv) as"
proof (induction evs arbitrary: r)
  case Nil
  then show ?case by (simp add: commands_in_def)
next
  case (Cons ev evs)
  obtain as where as: "acks_sent drv (step env n drv ev r) = acks_sent drv r @ as"
    "map (ack_field ''command_id'') as = commands_in [ev]" "list_all (answered drv) as" using step_acks [OF assms] by blast
  obtain bs where bs: "acks_sent drv (run env n drv evs (step env n drv ev r)) = acks_sent drv (step env n drv ev r) @ bs"
    "map (ack_field ''command_id'') bs = commands_in evs" "list_all (answered drv) bs" using Cons by blast
  have "commands_in (ev # evs) = commands_in [ev] @ commands_in evs" by (simp add: commands_in_def)
  with as bs show ?case by (intro exI [of _ "as @ bs"]) simp
qed

end

end
