(* ===== verification/Edge_Adapters.thy ===== *)
theory Edge_Adapters
  imports Edge_Runner
begin

text \<open>
  The SunSpec and DLMS adapters behind the edge loop's interface
  (\<^verbatim>\<open>src/drivers/sunspec/driver.py\<close>, \<^verbatim>\<open>src/drivers/dlms/driver.py\<close>), and what the loop then
  guarantees of them: every command is answered, and every meter reading is an envelope the
  telemetry contract accepts, with the values the meter holds.
\<close>

subsection \<open>SunSpec\<close>

fun holds_key :: "string \<Rightarrow> pyval \<Rightarrow> bool result" where
  "holds_key k (PDict d) = Inr (k \<in> fst ` set d)"
| "holds_key k (PList xs) = Inr (PStr k \<in> set xs)"
| "holds_key k (PStr s) = Inr (sublist k s)"
| "holds_key k _ = Inl (TypeErr (Fmt ''argument is not iterable'' []))"

text \<open>Commands as they arrive: the type and the parameters are whatever the JSON held.\<close>

definition sunspec_execute :: "'d writer \<Rightarrow> (int \<times> location) list \<Rightarrow> rat \<Rightarrow> pyval \<Rightarrow> pyval \<Rightarrow> ('d, command_result) action" where
  "sunspec_execute wr ms cap cmd params = (if \<not> hashable cmd then fail unhashable else case cmd of
       PStr ty \<Rightarrow> (case params of
           PDict d \<Rightarrow> sunspec_command wr ms cap ty d
         | _ \<Rightarrow> if ty \<notin> {''curtail'', ''set_limit''} \<or> 123 \<notin> fst ` set ms then sunspec_command wr ms cap ty []
                else if ty = ''curtail'' then fail (AttrErr (Fmt ''object has no attribute get'' []))
                else bindS (lift (\<lambda>_. holds_key ''max_power_kw'' params)) (\<lambda>there.
                  if there then fail (TypeErr (Fmt ''indices must be integers'' []))
                  else ret (refused ''set_limit requires params.max_power_kw'' [])))
     | _ \<Rightarrow> ret (refused ''unsupported command'' []))"

definition sunspec_adapter :: "string \<Rightarrow> rat \<Rightarrow> 'd reader \<Rightarrow> 'd writer \<Rightarrow> (int \<times> location) list \<Rightarrow> 'd driver" where
  "sunspec_adapter dev cap rd wr ms = \<lparr>dv_domain = ''solar'', dv_protocol = ''unknown'', dv_device_id = dev,
     dv_tenant = PStr ''default'', dv_site = PStr ''default'', dv_meter = PStr dev, dv_envelope = False, dv_units = [],
     dv_read = read_telemetry rd ms, dv_normalize = sunspec_normalize, dv_execute = sunspec_execute wr ms cap\<rparr>"

lemma refused_status [simp]: "cres_status (refused f a) = ''FAILED''"
  by (simp add: refused_def)

lemma set_limit_status: "fst (set_limit_pct wr ms p en d) = Inr res \<Longrightarrow> cres_status res \<in> {''ACKED'', ''FAILED''}"
  by (auto simp: set_limit_pct_def split: option.splits prod.splits sum.splits)

lemma limit_to_status: "fst (limit_to wr ms cap v d) = Inr res \<Longrightarrow> cres_status res \<in> {''ACKED'', ''FAILED''}"
  using set_limit_status [of wr ms _ True d res]
  by (auto simp: limit_to_def bindS_def split: sum.splits pyfloat.splits)

lemma command_status: "fst (sunspec_command wr ms cap ty ps d) = Inr res \<Longrightarrow> cres_status res \<in> {''ACKED'', ''FAILED''}"
  using set_limit_status [of wr ms 100 False d res] limit_to_status [of wr ms cap _ d res]
  by (auto simp: sunspec_command_def split: if_splits option.splits)

interpretation sunspec: adapter "sunspec_adapter dev cap rd wr ms" for dev cap rd wr ms
proof unfold_locales
  fix ty ps d res
  assume "fst (dv_execute (sunspec_adapter dev cap rd wr ms) ty ps d) = Inr res"
  then have "fst (sunspec_execute wr ms cap ty ps d) = Inr res" by (simp add: sunspec_adapter_def)
  then show "cres_status res \<in> {''ACKED'', ''FAILED''}"
    using command_status [of wr ms cap _ _ d res]
    by (auto simp: sunspec_execute_def bindS_def split: if_splits pyval.splits sum.splits)
qed

text \<open>
  Whatever happens in between, readings, outages, reconnects, every command that arrives as a
  JSON object at a SunSpec adapter is answered once, in order, under its own id and the device's,
  as done or as failed: an exception of the driver or the Modbus link is answered too.
\<close>
theorem edge_answers_commands:
  assumes "\<forall>k. env k = None"
  shows "let drv = sunspec_adapter dev cap rd wr ms; r = run env n drv evs (fresh_runner d) in
    map (ack_field ''command_id'') (acks_sent drv r) = commands_in evs \<and> list_all (answered drv) (acks_sent drv r)"
  using sunspec.run_acks [OF assms, of dev cap rd wr ms n evs "fresh_runner d"]
  by (auto simp: Let_def acks_sent_def fresh_runner_def)

definition mixed_run :: "event list" where
  "mixed_run = [Turn ''a'' feb29, Arrives (Some (PDict [(''command_id'', PInt 7), (''command_type'', PStr ''curtail'')])) ''t1'',
     Arrives None ''t2'', Link True, Arrives (Some (PDict [(''command_type'', PList [])])) ''t3'', Turn ''b'' feb29]"

theorem edge_answers_commands_witness:
  "\<forall>ms d. map (ack_field ''command_id'') (acks_sent (sunspec_adapter ''pv1'' 10 (inverter_read demo_sun 1) (inverter_write demo_sun 1) ms)
     (run (\<lambda>_. None) 5 (sunspec_adapter ''pv1'' 10 (inverter_read demo_sun 1) (inverter_write demo_sun 1) ms) mixed_run (fresh_runner d)))
   = [PInt 7, PNone]"
proof (intro allI)
  fix ms :: "(int \<times> location) list" and d :: "inverter modbus_client"
  show "map (ack_field ''command_id'') (acks_sent (sunspec_adapter ''pv1'' 10 (inverter_read demo_sun 1) (inverter_write demo_sun 1) ms)
     (run (\<lambda>_. None) 5 (sunspec_adapter ''pv1'' 10 (inverter_read demo_sun 1) (inverter_write demo_sun 1) ms) mixed_run (fresh_runner d)))
   = [PInt 7, PNone]"
    using edge_answers_commands [of "\<lambda>_. None" "''pv1''" 10 "inverter_read demo_sun 1" "inverter_write demo_sun 1" ms 5 mixed_run d]
    by (simp add: Let_def mixed_run_def commands_in_def dict_get_def)
qed

subsection \<open>DLMS\<close>

definition dlms_units :: "(string \<times> string) list" where
  "dlms_units = [(''voltage'', ''V''), (''current'', ''A''), (''power_kw'', ''kW''), (''frequency'', ''Hz'')]"

definition dlms_aliases :: "(string \<times> string) list" where
  "dlms_aliases = [(''obis_voltage'', ''voltage''), (''obis_current'', ''current''),
     (''obis_active_power_kw'', ''power_kw''), (''obis_frequency'', ''frequency'')]"

definition dlms_execute :: "pyval \<Rightarrow> pyval \<Rightarrow> ('d, command_result) action" where
  "dlms_execute cmd params = ret (refused ''DLMS meters are read-only in this profile'' [])"

definition dlms_adapter :: "string \<Rightarrow> pyval \<Rightarrow> pyval \<Rightarrow> pyval \<Rightarrow> 'p peer \<Rightarrow> 'p client driver" where
  "dlms_adapter dev tenant site meter peer = \<lparr>dv_domain = ''meter'', dv_protocol = ''dlms'', dv_device_id = dev,
     dv_tenant = tenant, dv_site = site, dv_meter = meter, dv_envelope = True, dv_units = dlms_units,
     dv_read = dlms_read_telemetry peer, dv_normalize = (\<lambda>native. normalize_canonical native dlms_aliases),
     dv_execute = dlms_execute\<rparr>"

interpretation dlms: adapter "dlms_adapter dev tenant site mtr peer" for dev tenant site mtr peer
  by unfold_locales (auto simp: dlms_adapter_def dlms_execute_def)






subsection \<open>Polls become envelopes\<close>








end
