(* ===== verification/Ingestor.thy ===== *)
theory Ingestor
  imports Edge_Adapters Mdm_Pipeline
begin

text \<open>
  The bridge from MQTT to the platform, \<^verbatim>\<open>src/ingestor/telemetry_ingestor.py\<close>: the bounded receive
  queue, the workers, the flattening of an envelope and the normalization of a legacy payload, both
  with the rejection of values that are not finite numbers, and the cache that drops a redelivered
  envelope. \<open>text\<close> is what \<^verbatim>\<open>str\<close> prints of a value that is no string. Logs and metrics are left out.
\<close>

subsection \<open>Numbers\<close>

text \<open>\<^verbatim>\<open>_finite\<close> and \<^verbatim>\<open>_num\<close>: an integer beyond the float range raises in both.\<close>

definition finite_value :: "pyval \<Rightarrow> bool result" where
  "finite_value v = (case v of PInt i \<Rightarrow> bindR (operand v) (\<lambda>_. Inr True) | PFloat x \<Rightarrow> Inr (is_finite x) | _ \<Rightarrow> Inr False)"

definition float_or_none :: "pyval option \<Rightarrow> pyfloat option result" where
  "float_or_none v = (case v of
       Some (PInt i) \<Rightarrow> bindR (operand (PInt i)) (\<lambda>x. Inr (Some x))
     | Some (PFloat x) \<Rightarrow> Inr (Some x)
     | _ \<Rightarrow> Inr None)"

definition extended_numeric :: "string list" where
  "extended_numeric = [''power_factor'', ''energy_import_kwh'', ''energy_export_kwh'', ''temperature'', ''soh'']"

definition extra_fields :: "string list" where
  "extra_fields = [''vehicle_soc'', ''connector_status'', ''session_energy_kwh'', ''load_kw'', ''setpoint_kw'',
     ''grid_connected'', ''mode'']"

definition numeric_columns :: "string list" where
  "numeric_columns = canonical_fields @ extended_numeric"

definition zero_fields :: "(string \<times> pyval) list" where
  "zero_fields = map (\<lambda>f. (f, PFloat (Fin 0))) canonical_fields"

subsection \<open>Legacy payloads\<close>

text \<open>The two dictionaries the normalization fills: the body and the rejected fields.\<close>

type_synonym filling = "(string \<times> pyval) list \<times> (string \<times> pyval) list"

definition rejection :: pyval where
  "rejection = PDict [(''quality'', PStr ''INVALID''), (''rejected_reason'', PStr ''non_finite_value'')]"

definition reject_non_finite :: "string list \<Rightarrow> filling \<Rightarrow> filling" where
  "reject_non_finite names = (\<lambda>(out, rej). (out, fold (\<lambda>f. dict_put f rejection) names rej))"

definition accept_or_reject :: "string \<Rightarrow> pyfloat option \<Rightarrow> filling \<Rightarrow> filling" where
  "accept_or_reject field v = (case v of
       None \<Rightarrow> id
     | Some x \<Rightarrow> if is_finite x then (\<lambda>(out, rej). (dict_put field (PFloat x) out, rej)) else reject_non_finite [field])"

text \<open>One aliased quantity of the device feeds several columns, or rejects all of them.\<close>

definition accept_all :: "(string \<times> pyfloat) list \<Rightarrow> pyfloat option \<Rightarrow> filling \<Rightarrow> filling" where
  "accept_all cols v = (case v of
       None \<Rightarrow> id
     | Some x \<Rightarrow> if is_finite x then (\<lambda>(out, rej). (fold (\<lambda>(c, y). dict_put c (PFloat y)) cols out, rej))
                else reject_non_finite (map fst cols))"

primrec accept_fields :: "(string \<times> pyval) list \<Rightarrow> string list \<Rightarrow> filling \<Rightarrow> filling result" where
  "accept_fields payload [] st = Inr st"
| "accept_fields payload (f # fs) st = bindR (float_or_none (map_of payload f)) (\<lambda>v.
     accept_fields payload fs (accept_or_reject f v st))"

definition solar_columns :: "pyfloat option \<Rightarrow> (string \<times> pyfloat) list" where
  "solar_columns v = (let x = (case v of Some x \<Rightarrow> x | None \<Rightarrow> Fin 0) in
     [(''solar_kw'', x), (''power_kw'', x), (''grid_export_kw'', fl_max (Fin 0) x)])"

definition pcc_columns :: "pyfloat option \<Rightarrow> (string \<times> pyfloat) list" where
  "pcc_columns v = (let x = (case v of Some x \<Rightarrow> x | None \<Rightarrow> Fin 0) in
     [(''power_kw'', x), (''grid_import_kw'', fl_max (Fin 0) x), (''grid_export_kw'', fl_max (Fin 0) (fl_neg x))])"

definition text_value :: "(pyval \<Rightarrow> string) \<Rightarrow> pyval \<Rightarrow> string" where
  "text_value text v = (case v of PStr s \<Rightarrow> s | _ \<Rightarrow> text v)"

definition normalize :: "(pyval \<Rightarrow> string) \<Rightarrow> (string \<times> pyval) list \<Rightarrow> (string \<times> pyval) list result" where
  "normalize text payload =
     bindR (accept_fields payload canonical_fields (zero_fields, [])) (\<lambda>st1.
     bindR (float_or_none (map_of payload ''soc'')) (\<lambda>soc.
     bindR (float_or_none (map_of payload ''output_kw'')) (\<lambda>output.
     bindR (float_or_none (map_of payload ''pcc_kw'')) (\<lambda>pcc.
     let st2 = accept_all (pcc_columns pcc) pcc (accept_all (solar_columns output) output (accept_or_reject ''battery_soc'' soc st1)) in
     bindR (accept_fields payload extended_numeric st2) (\<lambda>(out, rej).
     let out1 = (case dict_get payload ''state'' PNone of PNone \<Rightarrow> out | v \<Rightarrow> dict_put ''state'' (PStr (text_value text v)) out);
         extra = map (\<lambda>k. (k, dict_get payload k PNone)) (filter (\<lambda>k. k \<in> fst ` set payload) extra_fields);
         extra1 = (if rej = [] then extra else dict_put ''quality'' (PDict rej) extra) in
     Inr (if extra1 = [] then out1 else dict_put ''extra'' (PDict extra1) out1))))))"

definition topic_id_overrides :: "(string \<times> string) list" where
  "topic_id_overrides = [(''meter1'', ''METER001'')]"

definition resolve_device_id :: "string \<Rightarrow> (string \<times> pyval) list \<Rightarrow> string" where
  "resolve_device_id topic payload = (case map_of payload ''device_id'' of
       Some (PStr (c # cs)) \<Rightarrow> c # cs
     | _ \<Rightarrow> (let seg = last (split_on (CHR ''/'') topic) in dict_get topic_id_overrides seg seg))"

subsection \<open>Envelopes\<close>

definition quality_entry :: "measurement \<Rightarrow> pyval" where
  "quality_entry m = PDict [(''quality'', PStr (quality_text (m_quality m))), (''estimated'', m_estimated m)]"

definition rejected_entry :: "measurement \<Rightarrow> pyval" where
  "rejected_entry m = PDict [(''quality'', PStr ''INVALID''), (''estimated'', m_estimated m),
     (''rejected_reason'', PStr ''non_finite_value''), (''original_quality'', PStr (quality_text (m_quality m)))]"

text \<open>The body and the quality of each measurement, under the type it arrived with.\<close>

fun flatten :: "measurement list \<Rightarrow> (string \<times> pyval) list \<Rightarrow> (pyval \<times> pyval) list
    \<Rightarrow> ((string \<times> pyval) list \<times> (pyval \<times> pyval) list) result" where
  "flatten [] body qual = Inr (body, qual)"
| "flatten (m # ms) body qual =
     (case find (\<lambda>f. m_type m = PStr f) numeric_columns of
        None \<Rightarrow> flatten ms body (dict_put (m_type m) (quality_entry m) qual)
      | Some f \<Rightarrow> bindR (finite_value (m_value m)) (\<lambda>ok.
          if ok then flatten ms (dict_put f (m_value m) body) (dict_put (m_type m) (quality_entry m) qual)
          else flatten ms body (dict_put (m_type m) (rejected_entry m) qual)))"

definition envelope_to_legacy_body :: "(pyval \<Rightarrow> string) \<Rightarrow> envelope \<Rightarrow> (string \<times> pyval) list result" where
  "envelope_to_legacy_body text e = bindR (flatten (e_measurements e) zero_fields []) (\<lambda>(body, qual).
     Inr (body @ [(''device_id'', e_device e), (''time'', PStr (e_timestamp e)),
       (''extra'', PDict [(''tenant_id'', e_tenant e), (''site_id'', e_site e), (''meter_id'', e_meter e),
          (''schema_version'', PStr (e_schema e)), (''correlation_id'', e_correlation e),
          (''sequence_number'', PInt (int (e_sequence e))), (''source_protocol'', e_protocol e),
          (''timestamp_source'', PStr (e_source e)),
          (''quality'', PDict (map (\<lambda>(k, v). (text_value text k, v)) qual))])]))"

subsection \<open>A message\<close>

type_synonym seen = "(pyval \<times> pyval \<times> string \<times> nat) list"

definition SEEN_MAX :: int where "SEEN_MAX = 10000"

definition is_duplicate_envelope :: "envelope \<Rightarrow> seen \<Rightarrow> bool result \<times> seen" where
  "is_duplicate_envelope e sn =
     (if \<not> (hashable (e_tenant e) \<and> hashable (e_device e)) then (Inl unhashable, sn)
      else if dedup_key e \<in> set sn then (Inr True, sn)
      else (Inr False, bounded_add SEEN_MAX (dedup_key e) sn))"

text \<open>
  \<^verbatim>\<open>_handle_message\<close>: the body handed to \<^verbatim>\<open>_persist\<close>, if any. \<open>None\<close> is a payload that is not JSON.
  An envelope the contract refuses is dropped; what else is raised leaves the handler.
\<close>

definition envelope_body :: "(pyval \<Rightarrow> string) \<Rightarrow> string \<Rightarrow> (string \<times> pyval) list
    \<Rightarrow> seen \<Rightarrow> (string \<times> pyval) list option result \<times> seen" where
  "envelope_body text fresh payload sn =
     (case envelope_from_dict fresh (filter (\<lambda>kv. fst kv \<noteq> ''mdm'') payload) of
        Inl (ContractError _) \<Rightarrow> (Inr None, sn)
      | Inl (TypeErr _) \<Rightarrow> (Inr None, sn)
      | Inl x \<Rightarrow> (Inl x, sn)
      | Inr e \<Rightarrow> (case is_duplicate_envelope e sn of
            (Inl x, sn') \<Rightarrow> (Inl x, sn')
          | (Inr True, sn') \<Rightarrow> (Inr None, sn')
          | (Inr False, sn') \<Rightarrow> (bindR (envelope_to_legacy_body text e) (\<lambda>b. Inr (Some b)), sn')))"

definition legacy_body :: "(pyval \<Rightarrow> string) \<Rightarrow> string \<Rightarrow> (string \<times> pyval) list \<Rightarrow> (string \<times> pyval) list result" where
  "legacy_body text topic payload = bindR (normalize text payload) (\<lambda>out.
     let b = dict_put ''device_id'' (PStr (resolve_device_id topic payload)) out; t = dict_get payload ''time'' PNone in
     Inr (if truthy t then dict_put ''time'' t b else b))"

definition handle_message :: "(pyval \<Rightarrow> string) \<Rightarrow> string \<Rightarrow> string \<Rightarrow> pyval option \<Rightarrow> seen
    \<Rightarrow> (string \<times> pyval) list option result \<times> seen" where
  "handle_message text fresh topic payload sn = (case payload of
       Some (PDict d) \<Rightarrow> if is_envelope_payload d then envelope_body text fresh d sn
         else (bindR (legacy_body text topic d) (\<lambda>b. Inr (Some b)), sn)
     | _ \<Rightarrow> (Inr None, sn))"

subsection \<open>The queue and the workers\<close>

record ingestor =
  ig_queue :: "(string \<times> pyval option) list"
  ig_seen :: seen
  ig_posted :: "(string \<times> pyval) list list"

datatype ingest_event =
    Received string "pyval option"
  | Worker_Turn string

text \<open>
  A full queue sheds the message. A worker takes the oldest one; whatever its handling raises ends
  that message only. The answer to the POST changes nothing.
\<close>

fun ingest_step :: "(pyval \<Rightarrow> string) \<Rightarrow> nat \<Rightarrow> ingest_event \<Rightarrow> ingestor \<Rightarrow> ingestor" where
  "ingest_step text n (Received topic payload) g =
     (if length (ig_queue g) < n then g\<lparr>ig_queue := ig_queue g @ [(topic, payload)]\<rparr> else g)"
| "ingest_step text n (Worker_Turn fresh) g =
     (case ig_queue g of
        [] \<Rightarrow> g
      | (topic, payload) # q \<Rightarrow>
          (let (r, sn) = handle_message text fresh topic payload (ig_seen g) in
           g\<lparr>ig_queue := q, ig_seen := sn,
             ig_posted := ig_posted g @ (case r of Inr (Some b) \<Rightarrow> [b] | _ \<Rightarrow> [])\<rparr>))"

definition ingest_run :: "(pyval \<Rightarrow> string) \<Rightarrow> nat \<Rightarrow> ingest_event list \<Rightarrow> ingestor \<Rightarrow> ingestor" where
  "ingest_run text n evs = fold (ingest_step text n) evs"

definition idle_ingestor :: ingestor where
  "idle_ingestor = \<lparr>ig_queue = [], ig_seen = [], ig_posted = []\<rparr>"

end
