(* ===== verification/Ingestor_Correct.thy ===== *)
theory Ingestor_Correct
  imports Ingestor
begin

text \<open>
  What the bridge guarantees: whatever arrives, the numeric columns it posts are finite numbers, and
  a meter's reading is posted as the meter holds it.
\<close>

subsection \<open>Only finite numbers are posted\<close>

definition columns_clean :: "(string \<times> pyval) list \<Rightarrow> bool" where
  "columns_clean b \<longleftrightarrow> (\<forall>(k, v)\<in>set b. k \<in> set numeric_columns \<longrightarrow> finite_value v = Inr True)"

definition well_posted :: "(string \<times> pyval) list \<Rightarrow> bool" where
  "well_posted b \<longleftrightarrow> columns_clean b \<and> set canonical_fields \<subseteq> fst ` set b \<and> {''device_id''} \<subseteq> fst ` set b \<and> distinct (map fst b)"

lemma finite_float [simp]: "finite_value (PFloat x) = Inr (is_finite x)"
  by (simp add: finite_value_def)

lemma set_dict_put: "set (dict_put k v d) \<subseteq> insert (k, v) (set d)"
  by (induction k v d rule: dict_put.induct) auto

lemma clean_put: "columns_clean b \<Longrightarrow> (k \<in> set numeric_columns \<Longrightarrow> finite_value v = Inr True) \<Longrightarrow> columns_clean (dict_put k v b)"
  using set_dict_put [of k v b] by (fastforce simp: columns_clean_def)

text \<open>What holds of the dictionary under construction.\<close>

definition filled :: "(string \<times> pyval) list \<Rightarrow> bool" where
  "filled b \<longleftrightarrow> columns_clean b \<and> set canonical_fields \<subseteq> fst ` set b \<and> distinct (map fst b)"

lemma filled_put: "filled b \<Longrightarrow> (k \<in> set numeric_columns \<Longrightarrow> finite_value v = Inr True) \<Longrightarrow> filled (dict_put k v b)"
  using clean_put [of b k v] by (auto simp: filled_def dom_dict_put distinct_dict_put)

lemma filled_put_other: "filled b \<Longrightarrow> k \<notin> set numeric_columns \<Longrightarrow> filled (dict_put k v b)"
  by (rule filled_put) simp_all

lemma other_columns: "{''device_id'', ''time'', ''extra'', ''state''} \<inter> set numeric_columns = {}"
  by (simp add: numeric_columns_def canonical_fields_def extended_numeric_def)

lemma filled_zero: "filled zero_fields"
  by (auto simp: filled_def columns_clean_def zero_fields_def is_finite_def canonical_fields_def)

lemma accept_filled: "filled (fst st) \<Longrightarrow> filled (fst (accept_or_reject f v st))"
  by (cases st) (auto simp: accept_or_reject_def reject_non_finite_def filled_put split: option.splits)

lemma fold_put_filled:
  "filled out \<Longrightarrow> list_all (\<lambda>(c, y). is_finite y) cols \<Longrightarrow> filled (fold (\<lambda>(c, y). dict_put c (PFloat y)) cols out)"
  by (induction cols arbitrary: out) (auto simp: filled_put)

lemma accept_all_filled:
  assumes "filled (fst st)" "\<And>x. v = Some x \<Longrightarrow> is_finite x \<Longrightarrow> list_all (\<lambda>(c, y). is_finite y) cols"
  shows "filled (fst (accept_all cols v st))"
  using assms by (cases st) (auto simp: accept_all_def reject_non_finite_def fold_put_filled split: option.splits)

lemma columns_finite:
  "v = Some x \<Longrightarrow> is_finite x \<Longrightarrow> list_all (\<lambda>(c, y). is_finite y) (solar_columns v)"
  "v = Some x \<Longrightarrow> is_finite x \<Longrightarrow> list_all (\<lambda>(c, y). is_finite y) (pcc_columns v)"
  by (auto simp: solar_columns_def pcc_columns_def fl_max_def is_finite_def split: pyfloat.splits)

lemma accept_fields_filled: "accept_fields p fs st = Inr st' \<Longrightarrow> filled (fst st) \<Longrightarrow> filled (fst st')"
proof (induction fs arbitrary: st)
  case (Cons f fs)
  then obtain v where "accept_fields p fs (accept_or_reject f v st) = Inr st'" by (auto simp: bindR_eq_Inr)
  with Cons.IH [of "accept_or_reject f v st"] Cons.prems(2) show ?case by (simp add: accept_filled)
qed simp

lemma normalize_filled:
  assumes "normalize text p = Inr b"
  shows "filled b"
proof -
  obtain st1 soc gen pcc out rej where s: "accept_fields p canonical_fields (zero_fields, []) = Inr st1"
    "accept_fields p extended_numeric (accept_all (pcc_columns pcc) pcc (accept_all (solar_columns gen) gen
        (accept_or_reject ''battery_soc'' soc st1))) = Inr (out, rej)"
    and b: "b = (let out1 = (case dict_get p ''state'' PNone of PNone \<Rightarrow> out | v \<Rightarrow> dict_put ''state'' (PStr (text_value text v)) out);
         extra = map (\<lambda>k. (k, dict_get p k PNone)) (filter (\<lambda>k. k \<in> fst ` set p) extra_fields);
         extra1 = (if rej = [] then extra else dict_put ''quality'' (PDict rej) extra) in
       if extra1 = [] then out1 else dict_put ''extra'' (PDict extra1) out1)"
    using assms by (auto simp: normalize_def Let_def bindR_eq_Inr)
  have "filled (fst st1)" using accept_fields_filled [OF s(1)] filled_zero by simp
  then have "filled out"
    using accept_fields_filled [OF s(2)] by (simp add: accept_all_filled accept_filled columns_finite)
  moreover have "''state'' \<notin> set numeric_columns" "''extra'' \<notin> set numeric_columns" using other_columns by blast+
  ultimately show ?thesis by (simp add: b Let_def filled_put_other split: pyval.split)
qed

lemma flatten_filled: "flatten ms body qual = Inr (b, q) \<Longrightarrow> filled body \<Longrightarrow> filled b"
proof (induction ms body qual rule: flatten.induct)
  case (2 m ms body qual)
  show ?case
  proof (cases "find (\<lambda>f. m_type m = PStr f) numeric_columns")
    case None
    with 2 show ?thesis by simp
  next
    case (Some f)
    with 2 show ?thesis by (auto simp: bindR_eq_Inr filled_put split: if_splits)
  qed
qed simp

lemma flatten_dom:
  "flatten ms body qual = Inr (b, q) \<Longrightarrow> fst ` set b \<subseteq> fst ` set body \<union> set numeric_columns"
proof (induction ms body qual rule: flatten.induct)
  case (2 m ms body qual)
  show ?case
  proof (cases "find (\<lambda>f. m_type m = PStr f) numeric_columns")
    case None
    with 2 show ?thesis by simp
  next
    case (Some f)
    then have "f \<in> set numeric_columns" by (auto simp: find_Some_iff)
    moreover obtain ok where ok: "finite_value (m_value m) = Inr ok" using 2(4) Some by (auto simp: bindR_eq_Inr)
    ultimately show ?thesis using 2(2,3) [OF Some] 2(4) Some ok by (cases ok) (auto simp: dom_dict_put)
  qed
qed simp

lemma legacy_well_posted: "legacy_body text topic p = Inr b \<Longrightarrow> well_posted b"
proof -
  assume "legacy_body text topic p = Inr b"
  then obtain out where out: "normalize text p = Inr out"
    and b: "b = (let b = dict_put ''device_id'' (PStr (resolve_device_id topic p)) out; t = dict_get p ''time'' PNone in
       if truthy t then dict_put ''time'' t b else b)"
    by (auto simp: legacy_body_def bindR_eq_Inr Let_def)
  have n: "''device_id'' \<notin> set numeric_columns" "''time'' \<notin> set numeric_columns" using other_columns by blast+
  let ?b = "dict_put ''device_id'' (PStr (resolve_device_id topic p)) out"
  have "filled ?b" using normalize_filled [OF out] n by (simp add: filled_put_other)
  then have "filled b" using n by (simp add: b Let_def filled_put_other)
  moreover have "''device_id'' \<in> fst ` set b" by (simp add: b Let_def dom_dict_put)
  ultimately show ?thesis by (simp add: well_posted_def filled_def)
qed

lemma envelope_well_posted:
  assumes "envelope_to_legacy_body text e = Inr b"
  shows "well_posted b"
proof -
  obtain body q where fl: "flatten (e_measurements e) zero_fields [] = Inr (body, q)"
    and b: "\<exists>ex. b = body @ [(''device_id'', e_device e), (''time'', PStr (e_timestamp e)), (''extra'', ex)]"
    using assms by (auto simp: envelope_to_legacy_body_def bindR_eq_Inr)
  have "filled body" using flatten_filled [OF fl] filled_zero by simp
  moreover have "fst ` set body \<subseteq> set numeric_columns"
    using flatten_dom [OF fl] by (auto simp: zero_fields_def numeric_columns_def)
  ultimately have k: "''device_id'' \<notin> fst ` set body" "''time'' \<notin> fst ` set body" "''extra'' \<notin> fst ` set body"
    using other_columns by blast+
  have "columns_clean b"
    using \<open>filled body\<close> b other_columns by (auto simp: filled_def columns_clean_def)
  moreover have "distinct (map fst b)"
    using \<open>filled body\<close> b k by (auto simp: filled_def)
  ultimately show ?thesis using \<open>filled body\<close> b by (auto simp: well_posted_def filled_def)
qed

lemma handled_well_posted: "handle_message text fresh topic payload sn = (Inr (Some b), sn') \<Longrightarrow> well_posted b"
  by (auto simp: handle_message_def envelope_body_def bindR_eq_Inr legacy_well_posted envelope_well_posted
      split: option.splits pyval.splits if_splits sum.splits exn.splits prod.splits bool.splits)

lemma step_posts:
  "list_all well_posted (ig_posted g) \<and> length (ig_queue g) \<le> n \<Longrightarrow>
   list_all well_posted (ig_posted (ingest_step text n ev g)) \<and> length (ig_queue (ingest_step text n ev g)) \<le> n"
  by (cases ev) (auto simp: handled_well_posted split: list.splits prod.splits sum.splits option.splits)

text \<open>
  Whatever messages arrive, in whatever order the workers get to them, every body the bridge posts
  names a device, has all the columns the API requires, each once, and none of its numeric columns
  holds anything but a finite number; and the queue never outgrows its bound.
\<close>
theorem ingestor_posts_finite:
  "list_all well_posted (ig_posted (ingest_run text n evs idle_ingestor)) \<and> length (ig_queue (ingest_run text n evs idle_ingestor)) \<le> n"
proof -
  have "list_all well_posted (ig_posted g) \<and> length (ig_queue g) \<le> n \<Longrightarrow>
    list_all well_posted (ig_posted (ingest_run text n evs g)) \<and> length (ig_queue (ingest_run text n evs g)) \<le> n" for g
    by (induction evs arbitrary: g) (simp_all add: ingest_run_def step_posts)
  then show ?thesis by (simp add: idle_ingestor_def)
qed

subsection \<open>What still gets through\<close>

text \<open>The device-specific fields are copied unchecked: a value that is no number to JSON reaches the body.\<close>

lemma extra_nan_forwarded:
  "legacy_body (\<lambda>_. []) ''diep/microgrid/mg1'' [(''pcc_kw'', PInt 3), (''load_kw'', PFloat NaN)] = Inr b
    \<Longrightarrow> map_of b ''extra'' = Some (PDict [(''load_kw'', PFloat NaN)])"
proof -
  have "map_sum id (\<lambda>b. map_of b ''extra'') (legacy_body (\<lambda>_. []) ''diep/microgrid/mg1'' [(''pcc_kw'', PInt 3), (''load_kw'', PFloat NaN)])
    = Inr (Some (PDict [(''load_kw'', PFloat NaN)]))" by code_simp
  moreover assume "legacy_body (\<lambda>_. []) ''diep/microgrid/mg1'' [(''pcc_kw'', PInt 3), (''load_kw'', PFloat NaN)] = Inr b"
  ultimately show ?thesis by simp
qed

end
