(* ===== verification/Platform.thy ===== *)
theory Platform
  imports Field_Devices Iso_Time Wire_Numbers
begin

text \<open>
  The data plane of \<^verbatim>\<open>src/fastapi/app.py\<close>: telemetry ingestion, the state mirror in Redis with its
  reading back, device state, assets and their health. \<open>text\<close>, \<open>dumps\<close> and \<open>loads\<close> are \<^verbatim>\<open>str\<close> of a number
  or truth value, \<^verbatim>\<open>json.dumps\<close> and \<^verbatim>\<open>json.loads\<close>; \<open>clock\<close> is the instant as a date. Times are UTC.
  Audit rows, metrics and logs are left out.
\<close>

subsection \<open>The tables beside the core store\<close>

record alarm =
  al_device :: string
  al_severity :: "string option"
  al_message :: "string option"
  al_raised :: rat

record onboarding =
  ob_device :: string
  ob_site :: "string option"
  ob_protocol :: "string option"
  ob_vendor :: "string option"
  ob_notes :: "string option"
  ob_status :: string
  ob_validation :: pyval
  ob_registered :: rat
  ob_validated :: "rat option"
  ob_certified :: "rat option"
  ob_approved :: "rat option"

record certification =
  ct_device :: string
  ct_test :: string
  ct_result :: string
  ct_details :: pyval
  ct_run :: rat

record derms_request =
  dr_id :: uuid
  dr_type :: string
  dr_site :: "string option"
  dr_device :: string
  dr_params :: pyval
  dr_status :: string
  dr_created :: rat
  dr_executed :: "rat option"
  dr_error :: "msg option"

record platform =
  pf_db :: db
  pf_redis_up :: bool
  pf_mirror :: "string \<Rightarrow> ((string \<times> string) list \<times> rat) option"
  pf_alarms :: "alarm list"
  pf_onboarding :: "onboarding list"
  pf_certs :: "certification list"
  pf_derms :: "derms_request list"

record twin_env =
  te_text :: "pyval \<Rightarrow> string"
  te_dumps :: "pyval \<Rightarrow> string"
  te_loads :: "string \<Rightarrow> pyval option"
  te_clock :: "rat \<Rightarrow> datetime"

type_synonym 'a platform_run = "(platform, 'a) action"

definition on_db :: "'a run \<Rightarrow> 'a platform_run" where
  "on_db a p = (let (x, s) = a (pf_db p) in (x, p\<lparr>pf_db := s\<rparr>))"

subsection \<open>The state mirror\<close>

definition state_key :: "string \<Rightarrow> string" where
  "state_key dev = ''state:'' @ dev"

definition mirror_at :: "string \<Rightarrow> platform \<Rightarrow> (string \<times> string) list" where
  "mirror_at dev p = (case pf_mirror p (state_key dev) of
       Some (d, till) \<Rightarrow> if now (pf_db p) < till then d else []
     | None \<Rightarrow> [])"

text \<open>The texts written for the fields that are not \<^verbatim>\<open>None\<close>.\<close>

definition mirror_text :: "twin_env \<Rightarrow> pyval \<Rightarrow> string" where
  "mirror_text env v = (case v of PStr s \<Rightarrow> s | PDict _ \<Rightarrow> te_dumps env v | PList _ \<Rightarrow> te_dumps env v | _ \<Rightarrow> te_text env v)"

definition mirror_texts :: "twin_env \<Rightarrow> (string \<times> pyval) list \<Rightarrow> (string \<times> string) list" where
  "mirror_texts env fs = map (\<lambda>(k, v). (k, mirror_text env v)) (filter (\<lambda>kv. snd kv \<noteq> PNone) fs)"

definition put_all :: "('k \<times> 'v) list \<Rightarrow> ('k \<times> 'v) list \<Rightarrow> ('k \<times> 'v) list" where
  "put_all new d = fold (\<lambda>(k, v). dict_put k v) new d"

lemma map_of_put_all: "distinct (map fst new) \<Longrightarrow> map_of (put_all new d) = map_of d ++ map_of new"
proof (induction new arbitrary: d)
  case (Cons kv new)
  obtain k v where kv: "kv = (k, v)" by (cases kv)
  have "map_of new k = None" using Cons.prems kv by (auto simp: map_of_eq_None_iff)
  then show ?case using Cons.IH [of "dict_put k v d"] Cons.prems kv
    by (auto simp: put_all_def map_add_def fun_eq_iff split: option.splits)
qed (simp add: put_all_def)

lemma dict_put_not_Nil [simp]: "dict_put k v d \<noteq> []"
proof (cases d)
  case (Cons kv d')
  then show ?thesis by (cases kv) simp
qed simp

lemma put_all_not_Nil: "new \<noteq> [] \<or> d \<noteq> [] \<Longrightarrow> put_all new d \<noteq> []"
proof (induction new arbitrary: d)
  case (Cons kv new)
  then show ?case by (cases kv) (simp add: put_all_def)
qed (simp add: put_all_def)

lemma distinct_put_all: "distinct (map fst d) \<Longrightarrow> distinct (map fst (put_all new d))"
  by (induction new arbitrary: d) (auto simp: put_all_def distinct_dict_put)

lemma map_of_mirror_texts:
  "map_of (mirror_texts env fs) k = (case map_of (filter (\<lambda>kv. snd kv \<noteq> PNone) fs) k of None \<Rightarrow> None | Some v \<Rightarrow> Some (mirror_text env v))"
  by (induction fs) (auto simp: mirror_texts_def)

lemma map_of_present:
  "distinct (map fst fs) \<Longrightarrow> map_of fs k = Some v \<Longrightarrow> v \<noteq> PNone \<Longrightarrow> map_of (mirror_texts env fs) k = Some (mirror_text env v)"
  by (simp add: map_of_mirror_texts) (metis (mono_tags, lifting) distinct_map_filter map_of_SomeD map_of_is_SomeI mem_Collect_eq
      option.simps(5) set_filter snd_conv)

lemma distinct_mirror_texts: "distinct (map fst fs) \<Longrightarrow> distinct (map fst (mirror_texts env fs))"
proof -
  assume "distinct (map fst fs)"
  then have "distinct (map fst (filter (\<lambda>kv. snd kv \<noteq> PNone) fs))" by (rule distinct_map_filter)
  moreover have "map fst (mirror_texts env fs) = map fst (filter (\<lambda>kv. snd kv \<noteq> PNone) fs)"
    by (simp add: mirror_texts_def split_def)
  ultimately show ?thesis by simp
qed

definition persist_state :: "twin_env \<Rightarrow> string \<Rightarrow> (string \<times> pyval) list \<Rightarrow> unit platform_run" where
  "persist_state env dev fs p =
     (let t = now (pf_db p);
          new = dict_put ''updated_at'' (isoformat (te_clock env t)) (mirror_texts env fs) in
      (Inr (), if pf_redis_up p then p\<lparr>pf_mirror := (pf_mirror p)(state_key dev \<mapsto> (put_all new (mirror_at dev p), t + 86400))\<rparr> else p))"

definition decode_number :: "string \<Rightarrow> pyval" where
  "decode_number s = (case int_of_string s of
       Inr i \<Rightarrow> PInt i
     | Inl _ \<Rightarrow> (case float_of_string s of Some x \<Rightarrow> PFloat x | None \<Rightarrow> PStr s))"

definition decode_redis_value :: "twin_env \<Rightarrow> string \<Rightarrow> pyval" where
  "decode_redis_value env s =
     (if s \<noteq> [] \<and> hd s \<in> {CHR ''{'', CHR ''[''}
      then (case te_loads env s of Some v \<Rightarrow> v | None \<Rightarrow> decode_number s) else decode_number s)"

definition get_cached_state :: "twin_env \<Rightarrow> string \<Rightarrow> platform \<Rightarrow> (string \<times> pyval) list" where
  "get_cached_state env dev p = (if pf_redis_up p then map (\<lambda>(k, v). (k, decode_redis_value env v)) (mirror_at dev p) else [])"

text \<open>What was just mirrored is read back, field by field.\<close>

lemma mirrored:
  assumes "pf_redis_up p" "distinct (map fst fs)" "map_of fs k = Some v" "v \<noteq> PNone" "k \<noteq> ''updated_at''"
  shows "map_of (get_cached_state env dev (snd (persist_state env dev fs p))) k = Some (decode_redis_value env (mirror_text env v))"
proof -
  let ?new = "dict_put ''updated_at'' (isoformat (te_clock env (now (pf_db p)))) (mirror_texts env fs)"
  have d: "distinct (map fst ?new)" by (simp add: distinct_dict_put distinct_mirror_texts assms(2))
  have "map_of (put_all ?new (mirror_at dev p)) k = Some (mirror_text env v)"
    using map_of_present [OF assms(2-4), of env] assms(5) by (simp add: map_of_put_all [OF d])
  then show ?thesis using assms(1)
    by (simp add: persist_state_def Let_def get_cached_state_def mirror_at_def map_of_map)
qed

subsection \<open>Telemetry\<close>

text \<open>The request body once the API has read it; \<open>None\<close> is a field that was not sent.\<close>

record telemetry_payload =
  tp_device :: string
  tp_time :: "datetime option"
  tp_row :: telemetry
  tp_extra :: "(string \<times> pyval) list"

text \<open>
  A single-precision column keeps the nearest number with twenty-four binary digits, and refuses what
  overflows or vanishes. (A number halfway between two of them goes to the even one; the decimal text
  the database is sent may decide that case otherwise.)
\<close>

definition real_ok :: "rat \<Rightarrow> bool" where
  "real_ok x \<longleftrightarrow> x = 0 \<or> (1 / 2 ^ 150 < \<bar>x\<bar> \<and> \<bar>x\<bar> < 2 ^ 128 - 2 ^ 103)"

definition real4 :: "rat \<Rightarrow> rat" where
  "real4 x = (if x = 0 then 0
     else let ulp = 2 powi (max (ilog2 \<bar>x\<bar>) (- 126) - 23) in of_int (round_even (x / ulp)) * ulp)"

lemma real4_0 [simp]: "real4 0 = 0"
  by (simp add: real4_def)

lemma real4_error: "\<bar>real4 x - x\<bar> \<le> max (\<bar>x\<bar> / 2 ^ 24) (1 / 2 ^ 150)"
proof (cases "x = 0")
  case False
  let ?e = "ilog2 \<bar>x\<bar>"
  define ulp :: rat where "ulp = 2 powi (max ?e (- 126) - 23)"
  have ulp: "0 < ulp" by (simp add: ulp_def)
  have "real4 x - x = (of_int (round_even (x / ulp)) - x / ulp) * ulp"
    using False ulp by (simp add: real4_def ulp_def [symmetric] Let_def algebra_simps)
  then have "\<bar>real4 x - x\<bar> = \<bar>of_int (round_even (x / ulp)) - x / ulp\<bar> * ulp" using ulp by (simp add: abs_mult)
  also have "\<dots> \<le> 1 / 2 * ulp" using round_even_error ulp by (intro mult_right_mono) auto
  also have "1 / 2 * ulp = 2 powi (max ?e (- 126) - 24)"
    unfolding ulp_def using power_int_add [of "2 :: rat" "- 1" "max ?e (- 126) - 23"] by (simp add: power_int_minus)
  also have "\<dots> \<le> max (\<bar>x\<bar> / 2 ^ 24) (1 / 2 ^ 150)"
  proof (cases "- 126 \<le> ?e")
    case True
    have "(2 :: rat) powi (max ?e (- 126) - 24) = 2 powi ?e / 2 ^ 24"
      using True power_int_diff [of "2 :: rat" ?e 24] by simp
    moreover have "(2 :: rat) powi ?e \<le> \<bar>x\<bar>" using ilog2_bounds(1) [of "\<bar>x\<bar>"] False by simp
    ultimately show ?thesis by (simp add: le_max_iff_disj divide_right_mono)
  next
    case False
    then have "(2 :: rat) powi (max ?e (- 126) - 24) = 1 / 2 ^ 150"
      by (simp add: power_int_def field_simps)
    then show ?thesis by simp
  qed
  finally show ?thesis .
qed simp

text \<open>The columns of \<^verbatim>\<open>sql/000_schema.sql\<close> are single-precision, those of \<^verbatim>\<open>009_schema_extension.sql\<close> double.\<close>

definition real_cells :: "telemetry \<Rightarrow> (string \<times> rat option) list" where
  "real_cells r = [(''voltage'', t_voltage r), (''current'', t_current r), (''power_kw'', t_power_kw r),
     (''frequency'', t_frequency r), (''solar_kw'', t_solar_kw r), (''battery_soc'', t_battery_soc r),
     (''grid_import_kw'', t_grid_import_kw r), (''grid_export_kw'', t_grid_export_kw r)]"

definition double_cells :: "telemetry \<Rightarrow> (string \<times> rat option) list" where
  "double_cells r = [(''power_factor'', t_power_factor r), (''energy_import_kwh'', t_energy_import_kwh r),
     (''energy_export_kwh'', t_energy_export_kwh r), (''temperature'', t_temperature r), (''soh'', t_soh r)]"

definition numeric_cells :: "telemetry \<Rightarrow> (string \<times> rat option) list" where
  "numeric_cells r = real_cells r @ double_cells r"

definition row_ok :: "telemetry \<Rightarrow> bool" where
  "row_ok r \<longleftrightarrow> list_all (\<lambda>(_, v). case v of None \<Rightarrow> True | Some x \<Rightarrow> real_ok x) (real_cells r) \<and> jsonb_ok (t_metadata r)"

definition stored_row :: "telemetry \<Rightarrow> telemetry" where
  "stored_row r = r\<lparr>t_voltage := map_option real4 (t_voltage r), t_current := map_option real4 (t_current r),
     t_power_kw := map_option real4 (t_power_kw r), t_frequency := map_option real4 (t_frequency r),
     t_solar_kw := map_option real4 (t_solar_kw r), t_battery_soc := map_option real4 (t_battery_soc r),
     t_grid_import_kw := map_option real4 (t_grid_import_kw r), t_grid_export_kw := map_option real4 (t_grid_export_kw r)\<rparr>"

lemma stored_cells:
  "real_cells (stored_row r) = map (\<lambda>(k, v). (k, map_option real4 v)) (real_cells r)"
  "double_cells (stored_row r) = double_cells r"
  by (simp_all add: stored_row_def real_cells_def double_cells_def)

definition opt_float :: "rat option \<Rightarrow> pyval" where
  "opt_float v = (case v of None \<Rightarrow> PNone | Some x \<Rightarrow> PFloat (Fin x))"

definition opt_text :: "string option \<Rightarrow> pyval" where
  "opt_text v = (case v of None \<Rightarrow> PNone | Some s \<Rightarrow> PStr s)"

definition twin_state :: "device \<Rightarrow> datetime \<Rightarrow> telemetry \<Rightarrow> (string \<times> pyval) list" where
  "twin_state d t r = [(''device_type'', PStr (device_type d)), (''site_name'', opt_text (device_site d)),
     (''location'', opt_text (device_location d)), (''status'', PStr (device_status d)), (''last_seen'', PStr (isoformat t))]
     @ map (\<lambda>(k, v). (k, opt_float v)) (numeric_cells r) @ [(''state'', opt_text (t_state r))]"

text \<open>The table gets the row as its columns keep it, the mirror the numbers as they were sent.\<close>

definition ingest_telemetry :: "twin_env \<Rightarrow> principal option \<Rightarrow> telemetry_payload \<Rightarrow> string platform_run" where
  "ingest_telemetry env po b = bindS (lift (\<lambda>_. require_role [Service] po)) (\<lambda>_ p.
     let t = (case tp_time b of Some t \<Rightarrow> t | None \<Rightarrow> te_clock env (now (pf_db p))) in
     case find_device (pf_db p) (tp_device b) of
       None \<Rightarrow> (Inl (HTTPException 404 (Fmt ''Unknown device_id {}'' [tp_device b])), p)
     | Some d \<Rightarrow>
         (let r = (tp_row b)\<lparr>t_device := tp_device b, t_time := seconds_of t, t_metadata := PDict (tp_extra b)\<rparr> in
          if \<not> row_ok r then (Inl (HTTPException 422 (Fmt ''the database refuses the row'' [])), p)
          else bindS (on_db (modify (\<lambda>s. s\<lparr>telemetry_rows := telemetry_rows s @ [stored_row r]\<rparr>))) (\<lambda>_.
               bindS (persist_state env (tp_device b) (put_all (tp_extra b) (twin_state d t r))) (\<lambda>_.
               ret (isoformat t))) p))"

subsection \<open>Reading the state of a device\<close>

definition latest_command :: "db \<Rightarrow> string \<Rightarrow> command option" where
  "latest_command s dev = (case filter (\<lambda>c. command_device c = dev) (commands s) of
       [] \<Rightarrow> None | c # cs \<Rightarrow> Some (max_by command_created c cs))"

text \<open>Times as the answer's JSON shows them.\<close>

definition time_json :: "twin_env \<Rightarrow> rat option \<Rightarrow> pyval" where
  "time_json env t = opt_text (map_option (\<lambda>x. isoformat (te_clock env x)) t)"

definition telemetry_json :: "twin_env \<Rightarrow> telemetry \<Rightarrow> pyval" where
  "telemetry_json env r = PDict ([(''time'', time_json env (Some (t_time r))), (''device_id'', PStr (t_device r))]
     @ map (\<lambda>(k, v). (k, opt_float v)) (numeric_cells r) @ [(''state'', opt_text (t_state r)), (''metadata'', t_metadata r)])"

definition command_json :: "twin_env \<Rightarrow> command \<Rightarrow> pyval" where
  "command_json env c = PDict [(''command_id'', PStr (num_text (command_id c))), (''command_type'', PStr (command_type c)),
     (''status'', PStr (command_status_name (command_status c))),
     (''error_message'', opt_text (map_option msg_text (command_error c))), (''created_at'', time_json env (Some (command_created c))),
     (''dispatched_at'', time_json env (dispatched_at c)), (''acked_at'', time_json env (acked_at c))]"

definition state_from_db :: "twin_env \<Rightarrow> string \<Rightarrow> platform \<Rightarrow> (string \<times> pyval) list option" where
  "state_from_db env dev p = (case find_device (pf_db p) dev of
       None \<Rightarrow> None
     | Some d \<Rightarrow> Some [(''device_id'', PStr dev), (''device_type'', PStr (device_type d)), (''status'', PStr (device_status d)),
         (''site_name'', opt_text (device_site d)), (''location'', opt_text (device_location d)),
         (''last_telemetry'', case latest_telemetry (pf_db p) dev of None \<Rightarrow> PNone | Some r \<Rightarrow> telemetry_json env r),
         (''last_command'', case latest_command (pf_db p) dev of None \<Rightarrow> PNone | Some c \<Rightarrow> command_json env c)])"

definition get_device_state :: "twin_env \<Rightarrow> string \<Rightarrow> (string \<times> pyval) list platform_run" where
  "get_device_state env dev p = (let st = get_cached_state env dev p in
     if st \<noteq> [] then (Inr st, p)
     else (case state_from_db env dev p of
         Some d \<Rightarrow> (Inr d, p)
       | None \<Rightarrow> (Inl (HTTPException 404 (Fmt ''Unknown device_id {}'' [dev])), p)))"

subsection \<open>Health\<close>

datatype health = H_OK string | H_DEGRADED string | H_OFFLINE | H_UNKNOWN | H_ALARM string "string option"

definition last_alarm :: "string \<Rightarrow> platform \<Rightarrow> alarm option" where
  "last_alarm dev p = (case filter (\<lambda>a. al_device a = dev) (pf_alarms p) of
       [] \<Rightarrow> None | a # as \<Rightarrow> Some (max_by al_raised a as))"

text \<open>
  A time that does not parse, or carries no offset, leaves the age unchecked. An alarm without severity
  raises when its severity is put into upper case.
\<close>

definition stale :: "pyval \<Rightarrow> rat \<Rightarrow> bool" where
  "stale v t = (case v of
       PStr s \<Rightarrow> (case fromisoformat s of Some (u, Some off) \<Rightarrow> 300 < t - (seconds_of u - of_int off / 1000000) | _ \<Rightarrow> False)
     | _ \<Rightarrow> False)"

definition evaluate_health :: "device \<Rightarrow> (string \<times> pyval) list \<Rightarrow> platform \<Rightarrow> health result" where
  "evaluate_health d st p =
     (let seen = dict_get st ''last_seen'' PNone in
      if to_upper (device_status d) \<noteq> ''ONLINE'' then Inr H_OFFLINE
      else if \<not> truthy seen then Inr H_UNKNOWN
      else if stale seen (now (pf_db p)) then Inr (H_DEGRADED ''No recent telemetry or command update in the last 5 minutes'')
      else (case last_alarm (device_id d) p of
          None \<Rightarrow> Inr (H_OK ''Device is online and state is current'')
        | Some a \<Rightarrow> (case al_severity a of
            None \<Rightarrow> Inl (AttrErr (Fmt ''object has no attribute upper'' []))
          | Some sev \<Rightarrow> Inr (H_ALARM (if to_upper sev = ''OK'' then ''OK'' else ''DEGRADED'') (al_message a)))))"

definition get_asset_health :: "twin_env \<Rightarrow> string \<Rightarrow> health platform_run" where
  "get_asset_health env dev p = (case find_device (pf_db p) dev of
       None \<Rightarrow> (Inl (HTTPException 404 (Fmt ''Unknown asset {}'' [dev])), p)
     | Some d \<Rightarrow> (evaluate_health d (get_cached_state env dev p) p, p))"

definition assets_health :: "twin_env \<Rightarrow> (string \<times> health) list platform_run" where
  "assets_health env p = (mapR (\<lambda>d. bindR (evaluate_health d (get_cached_state env (device_id d) p) p) (\<lambda>h. Inr (device_id d, h)))
     (sort_key (\<lambda>d. device_id d) (devices (pf_db p))), p)"

subsection \<open>Assets\<close>

text \<open>The row an asset registration carries; the tenant of the request, else of the caller.\<close>

definition register_asset :: "principal option \<Rightarrow> device \<Rightarrow> string option \<Rightarrow> device platform_run" where
  "register_asset po d tenant = bindS (lift (\<lambda>_. require_role [Admin, Engineer] po)) (\<lambda>pr p.
     let tn = (case tenant of Some (c # cs) \<Rightarrow> c # cs
               | _ \<Rightarrow> (case p_tenant pr of Some (c # cs) \<Rightarrow> c # cs | _ \<Rightarrow> ''default''));
         row = d\<lparr>device_tenant := tn, device_created := now (pf_db p)\<rparr>;
         s = pf_db p;
         s1 = (case device_site d of
             Some (c # cs) \<Rightarrow> if c # cs \<in> set (sites s) then s else s\<lparr>sites := sites s @ [c # cs]\<rparr> | _ \<Rightarrow> s) in
     if find_device s (device_id d) \<noteq> None \<or> (\<exists>n. device_site d = Some n \<and> n \<notin> set (sites s1))
     then (Inl (HTTPException 409 (Fmt ''the database refuses the row'' [])), p)
     else (Inr row, p\<lparr>pf_db := s1\<lparr>devices := devices s1 @ [row]\<rparr>\<rparr>))"

definition list_assets :: "principal option \<Rightarrow> device list platform_run" where
  "list_assets po = bindS (lift (\<lambda>_. require_role [Viewer, Operator, Admin, Service] po)) (\<lambda>pr p.
     (Inr (sort_key (\<lambda>d. device_id d) (filter (\<lambda>d. case p_tenant pr of None \<Rightarrow> True | Some t \<Rightarrow> device_tenant d = t)
        (devices (pf_db p)))), p))"

end
