(* ===== verification/Command_Chain.thy ===== *)
theory Command_Chain
  imports Edge_Adapters Field_Devices
begin

text \<open>
  The command dispatcher (\<^verbatim>\<open>src/dispatcher/command_dispatcher.py\<close>) and the whole way of a command:
  the Kafka message \<^verbatim>\<open>_dispatch_command\<close> sends, its MQTT topic, the edge loop that executes it, the
  acknowledgement posted back to \<^verbatim>\<open>/commands/{id}/ack\<close>. How Python prints a value that is no
  string into a topic is the parameter \<open>text\<close>.
\<close>

subsection \<open>The dispatcher\<close>

definition domain_map :: "(string \<times> string) list" where
  "domain_map = [(''ev_charger'', ''charger''), (''battery'', ''battery''), (''solar_inverter'', ''solar''),
     (''microgrid'', ''microgrid'')]"

definition get_mqtt_domain :: "string \<Rightarrow> string" where
  "get_mqtt_domain ty = dict_get domain_map ty ty"

definition text_of :: "(pyval \<Rightarrow> string) \<Rightarrow> pyval \<Rightarrow> string" where
  "text_of text v = (case v of PStr s \<Rightarrow> s | w \<Rightarrow> text w)"

definition get_command_topic :: "(pyval \<Rightarrow> string) \<Rightarrow> pyval \<Rightarrow> pyval \<Rightarrow> string result" where
  "get_command_topic text ty dev = (if \<not> hashable ty then Inl unhashable
     else Inr (''diep/'' @ (case ty of PStr s \<Rightarrow> get_mqtt_domain s | v \<Rightarrow> text v) @ ''/'' @ text_of text dev @ ''/cmd''))"

record dispatcher =
  ds_mqtt :: "message list"
  ds_attempts :: nat
  ds_running :: bool

definition mqtt_publish :: "publish_env \<Rightarrow> string \<Rightarrow> pyval \<Rightarrow> nat \<Rightarrow> (dispatcher, bool) action" where
  "mqtt_publish env topic m qos d = (let d1 = d\<lparr>ds_attempts := ds_attempts d + 1\<rparr> in
     case env (ds_attempts d) of Some e \<Rightarrow> (Inr False, d1) | None \<Rightarrow> (Inr True, d1\<lparr>ds_mqtt := ds_mqtt d @ [(topic, m, qos)]\<rparr>))"

definition dispatch_command_to_mqtt :: "(pyval \<Rightarrow> string) \<Rightarrow> publish_env \<Rightarrow> (string \<times> pyval) list \<Rightarrow> (dispatcher, bool) action" where
  "dispatch_command_to_mqtt text env cmd =
     (let cid = dict_get cmd ''command_id'' PNone; dev = dict_get cmd ''device_id'' PNone; ty = dict_get cmd ''device_type'' PNone in
      if \<not> (truthy cid \<and> truthy dev \<and> truthy ty) then ret False
      else bindS (lift (\<lambda>_. get_command_topic text ty dev)) (\<lambda>topic. mqtt_publish env topic (PDict cmd) 1))"

text \<open>The main loop over the messages Kafka hands out; an exception ends it, and what is left stays in Kafka.\<close>

fun consume :: "(pyval \<Rightarrow> string) \<Rightarrow> publish_env \<Rightarrow> pyval list \<Rightarrow> dispatcher \<Rightarrow> dispatcher \<times> pyval list" where
  "consume text env [] d = (d, [])"
| "consume text env (v # vs) d = (case v of
       PDict cmd \<Rightarrow> (case dispatch_command_to_mqtt text env cmd d of
           (Inl _, d1) \<Rightarrow> (d1\<lparr>ds_running := False\<rparr>, vs) | (Inr _, d1) \<Rightarrow> consume text env vs d1)
     | _ \<Rightarrow> (d\<lparr>ds_running := False\<rparr>, vs))"

subsection \<open>Acknowledgements\<close>

definition uuid_of :: "string \<Rightarrow> uuid option" where
  "uuid_of s = (case int_of_string s of
     Inr i \<Rightarrow> if 0 \<le> i \<and> num_text (nat i) = s then Some (nat i) else None | Inl _ \<Rightarrow> None)"

lemma uuid_of_text [simp]: "uuid_of (num_text u) = Some u"
  by (simp add: uuid_of_def)

definition service_token :: principal where
  "service_token = \<lparr>p_name = ''svc-machine'', p_role = Service, p_tenant = None\<rparr>"

text \<open>The POST of an acknowledgement: whatever is not answered by 200 is only logged.\<close>

definition post_ack_to_fastapi :: "(pyval \<Rightarrow> string) \<Rightarrow> pyval \<Rightarrow> pyval \<Rightarrow> pyval \<Rightarrow> db \<Rightarrow> db" where
  "post_ack_to_fastapi text cid status err s = (case (uuid_of (text_of text cid), status) of
       (Some u, PStr st) \<Rightarrow> (case err of
           PNone \<Rightarrow> snd (ack_command (Some service_token) u st None s)
         | PStr e \<Rightarrow> snd (ack_command (Some service_token) u st (Some (Fmt ''{}'' [e])) s)
         | _ \<Rightarrow> s)
     | _ \<Rightarrow> s)"

definition on_mqtt_message :: "(pyval \<Rightarrow> string) \<Rightarrow> pyval option \<Rightarrow> db \<Rightarrow> unit result \<times> db" where
  "on_mqtt_message text incoming s = (case incoming of
       None \<Rightarrow> (Inr (), s)
     | Some (PDict a) \<Rightarrow> (Inr (), post_ack_to_fastapi text (dict_get a ''command_id'' PNone) (dict_get a ''status'' PNone)
         (dict_get a ''error'' PNone) s)
     | Some _ \<Rightarrow> (Inl (AttrErr (Fmt ''object has no attribute get'' [])), s))"

text \<open>The subscription \<^verbatim>\<open>diep/+/+/ack\<close>.\<close>

definition is_ack_topic :: "string \<Rightarrow> bool" where
  "is_ack_topic t = (case split_on (CHR ''/'') t of [a, b, c, d] \<Rightarrow> a = ''diep'' \<and> d = ''ack'' | _ \<Rightarrow> False)"

subsection \<open>The round of a command\<close>



definition deliver_ack :: "(pyval \<Rightarrow> string) \<Rightarrow> message \<Rightarrow> db \<Rightarrow> db" where
  "deliver_ack text msg s = (case msg of (t, m, q) \<Rightarrow> if is_ack_topic t then snd (on_mqtt_message text (Some m) s) else s)"














subsection \<open>Where the way ends\<close>

text \<open>One Kafka value that is no object stops the dispatcher; the commands behind it stay undelivered.\<close>

lemma poison_stops_dispatcher:
  "consume text kenv (PList xs # vs) d = (d\<lparr>ds_running := False\<rparr>, vs)"
  by simp

text \<open>An acknowledgement is believed from any device: only the command's id counts.\<close>

lemma any_device_acknowledges:
  "deliver_ack text (ack_topic drv, ack_payload drv cid res stamp, q) s = deliver_ack text (ack_topic drv', ack_payload drv' cid res stamp, q) s"
  if "is_ack_topic (ack_topic drv)" "is_ack_topic (ack_topic drv')"
  using that by (simp add: deliver_ack_def on_mqtt_message_def ack_payload_def dict_get_def)

end
