(* ===== verification/Telemetry_Chain.thy ===== *)
theory Telemetry_Chain
  imports Ingestor_Correct Platform Command_Chain
begin

text \<open>
  A reading's whole way: meter, DLMS client, edge loop, MQTT message, ingestor, API, telemetry table and
  state mirror. The reading of a request body by the API's data model is a parameter.
\<close>

subsection \<open>The request body\<close>






subsection \<open>The meter's envelope as a body\<close>






subsection \<open>From the body to the table and the mirror\<close>













subsection \<open>A concrete run\<close>










end
