(* ===== verification/Derms.thy ===== *)
theory Derms
  imports Platform
begin

text \<open>
  The DERMS endpoints of \<^verbatim>\<open>src/fastapi/app.py\<close>: a request picks a device, reads its state of charge,
  chooses a command, and is kept as a row whose status tells what became of the command. Bodies are
  given with the bounds the data models enforce. The rate limiter, audit rows and metrics are left out.
\<close>

subsection \<open>Requests\<close>

definition insert_derms_request :: "string \<Rightarrow> pyval \<Rightarrow> string option \<Rightarrow> string \<Rightarrow> uuid platform_run" where
  "insert_derms_request ty params site dev p =
     (let i = next_uuid (pf_db p) in
      if \<not> jsonb_ok params then (Inl (DbError (Fmt ''invalid input syntax for type json'' [])), p\<lparr>pf_db := pf_db p\<lparr>next_uuid := Suc i\<rparr>\<rparr>)
      else (Inr i, p\<lparr>pf_db := pf_db p\<lparr>next_uuid := Suc i\<rparr>, pf_derms := pf_derms p @ [\<lparr>dr_id = i, dr_type = ty, dr_site = site,
         dr_device = dev, dr_params = params, dr_status = ''CREATED'', dr_created = now (pf_db p), dr_executed = None, dr_error = None\<rparr>]\<rparr>))"

definition update_derms_request_status :: "uuid \<Rightarrow> string \<Rightarrow> rat option \<Rightarrow> msg option \<Rightarrow> unit platform_run" where
  "update_derms_request_status i st executed err = modify (\<lambda>p. p\<lparr>pf_derms := update_where (\<lambda>r. dr_id r = i)
     (\<lambda>r. r\<lparr>dr_status := st, dr_executed := (case executed of None \<Rightarrow> dr_executed r | Some t \<Rightarrow> Some t),
            dr_error := (case err of None \<Rightarrow> dr_error r | Some m \<Rightarrow> Some m)\<rparr>) (pf_derms p)\<rparr>)"

definition select_device :: "string \<Rightarrow> string option \<Rightarrow> platform \<Rightarrow> device option" where
  "select_device ty site p =
     (case filter (\<lambda>d. device_type d = ty \<and> device_status d = ''ONLINE'' \<and>
         (case site of Some (c # cs) \<Rightarrow> device_site d = Some (c # cs) | _ \<Rightarrow> True)) (devices (pf_db p)) of
        [] \<Rightarrow> None | d # ds \<Rightarrow> Some (max_by device_created d ds))"

text \<open>A refusal of the dispatch is noted on the request and passed on; anything else raised leaves it as created.\<close>

definition execute_derms_command :: "field_env \<Rightarrow> uuid \<Rightarrow> string \<Rightarrow> string \<Rightarrow> pyval \<Rightarrow> (uuid \<times> command) platform_run" where
  "execute_derms_command fenv i dev cmd params p =
     (case on_db (dispatch_command fenv dev cmd params ''derms'') p of
        (Inr c, p1) \<Rightarrow> bindS (update_derms_request_status i ''EXECUTED'' (Some (now (pf_db p1))) None) (\<lambda>_. ret (i, c)) p1
      | (Inl (HTTPException code m), p1) \<Rightarrow>
          bindS (update_derms_request_status i ''FAILED'' (Some (now (pf_db p1))) (Some m)) (\<lambda>_. fail (HTTPException code m)) p1
      | (Inl e, p1) \<Rightarrow> (Inl e, p1))"

definition submit_derms :: "field_env \<Rightarrow> string \<Rightarrow> pyval \<Rightarrow> device \<Rightarrow> string \<Rightarrow> pyval \<Rightarrow> (uuid \<times> command) platform_run" where
  "submit_derms fenv ty record d cmd params = bindS (insert_derms_request ty record (device_site d) (device_id d)) (\<lambda>i.
     execute_derms_command fenv i (device_id d) cmd params)"

subsection \<open>The state of charge\<close>

text \<open>Python numbers: comparison, a shift by a whole number, \<^verbatim>\<open>min\<close> and \<^verbatim>\<open>max\<close>.\<close>

fun as_number :: "pyval \<Rightarrow> pyfloat result" where
  "as_number (PBool b) = Inr (Fin (if b then 1 else 0))"
| "as_number (PInt i) = Inr (Fin (of_int i))"
| "as_number (PFloat x) = Inr x"
| "as_number _ = Inl (TypeErr (Fmt ''not supported between instances'' []))"

definition below :: "pyval \<Rightarrow> pyval \<Rightarrow> bool result" where
  "below a b = bindR (as_number a) (\<lambda>x. bindR (as_number b) (\<lambda>y. Inr (fl_less x y)))"

fun shift :: "int \<Rightarrow> pyval \<Rightarrow> pyval result" where
  "shift k (PBool b) = Inr (PInt ((if b then 1 else 0) + k))"
| "shift k (PInt i) = Inr (PInt (i + k))"
| "shift k (PFloat x) = Inr (PFloat (fl_add x (Fin (of_int k))))"
| "shift k _ = Inl (TypeErr (Fmt ''unsupported operand'' []))"

definition py_max :: "pyval \<Rightarrow> pyval \<Rightarrow> pyval result" where
  "py_max a b = bindR (below a b) (\<lambda>l. Inr (if l then b else a))"

definition py_min :: "pyval \<Rightarrow> pyval \<Rightarrow> pyval result" where
  "py_min a b = bindR (below b a) (\<lambda>l. Inr (if l then b else a))"

text \<open>The cached state, else the one from the tables, else nothing; and the default of a missing charge.\<close>

definition known_state :: "twin_env \<Rightarrow> string \<Rightarrow> platform \<Rightarrow> (string \<times> pyval) list" where
  "known_state env dev p = (let st = get_cached_state env dev p in
     if st \<noteq> [] then st else (case state_from_db env dev p of Some d \<Rightarrow> d | None \<Rightarrow> []))"

definition half_full :: pyval where "half_full = PFloat (Fin 50)"

definition soc_or_default :: "twin_env \<Rightarrow> string \<Rightarrow> platform \<Rightarrow> pyval" where
  "soc_or_default env dev p = (case dict_get (known_state env dev p) ''battery_soc'' PNone of PNone \<Rightarrow> half_full | v \<Rightarrow> v)"

definition soc_or_truthy :: "twin_env \<Rightarrow> string \<Rightarrow> platform \<Rightarrow> pyval" where
  "soc_or_truthy env dev p = (let v = dict_get (known_state env dev p) ''battery_soc'' PNone in if truthy v then v else half_full)"

definition opt_number :: "pyfloat option \<Rightarrow> pyval" where
  "opt_number v = (case v of None \<Rightarrow> PNone | Some x \<Rightarrow> PFloat x)"

definition invalid_body :: "'a platform_run" where
  "invalid_body = fail (HTTPException 422 (Fmt ''unprocessable body'' []))"

subsection \<open>The four endpoints\<close>

definition battery_choice :: "string option \<Rightarrow> string option \<Rightarrow> platform \<Rightarrow> device result" where
  "battery_choice dev site p = (case dev of
       Some (c # cs) \<Rightarrow> (case find_device (pf_db p) (c # cs) of
           None \<Rightarrow> Inl (HTTPException 404 (Fmt ''Unknown device_id {}'' [c # cs]))
         | Some d \<Rightarrow> if device_type d \<noteq> ''battery'' then Inl (HTTPException 422 (Fmt ''device_id must be a battery asset'' [])) else Inr d)
     | _ \<Rightarrow> (case select_device ''battery'' site p of
           None \<Rightarrow> Inl (HTTPException 404 (Fmt ''No online battery found for the requested site'' []))
         | Some d \<Rightarrow> Inr d))"

definition charge_direction :: "pyval \<Rightarrow> pyfloat \<Rightarrow> string result" where
  "charge_direction soc target = bindR (below soc (PFloat target)) (\<lambda>l. bindR (below (PFloat target) soc) (\<lambda>g.
     Inr (if l then ''charge'' else if g then ''discharge'' else ''idle'')))"

definition battery_dispatch :: "twin_env \<Rightarrow> field_env \<Rightarrow> principal option \<Rightarrow> string option \<Rightarrow> string option \<Rightarrow> pyfloat \<Rightarrow> pyfloat option
    \<Rightarrow> (uuid \<times> command) platform_run" where
  "battery_dispatch env fenv po dev site target cap = bindS (lift (\<lambda>_. require_role [Operator] po)) (\<lambda>_.
     if \<not> (fl_le (Fin 0) target \<and> fl_le target (Fin 100)) then invalid_body
     else bindS (lift (battery_choice dev site)) (\<lambda>d.
       bindS (lift (\<lambda>p. charge_direction (soc_or_default env (device_id d) p) target)) (\<lambda>cmd.
         submit_derms fenv ''battery_dispatch'' (PDict [(''target_soc'', PFloat target), (''max_power_kw'', opt_number cap)]) d cmd
           (PDict ((''target_soc'', PFloat target) # (case cap of None \<Rightarrow> [] | Some x \<Rightarrow> [(''max_power_kw'', PFloat x)]))))))"

definition shaving_power :: "pyfloat \<Rightarrow> pyfloat option \<Rightarrow> pyfloat" where
  "shaving_power reduction cap =
     (let most = (case cap of Some x \<Rightarrow> if x \<noteq> Fin 0 then x else if reduction \<noteq> Fin 0 then reduction else Fin 5
                  | None \<Rightarrow> if reduction \<noteq> Fin 0 then reduction else Fin 5);
          other = (if fl_less (Fin 0) reduction then reduction else most)
      in if fl_less other most then other else most)"

definition refuse :: "nat \<Rightarrow> string \<Rightarrow> 'a platform_run" where
  "refuse code t = fail (HTTPException code (Fmt t []))"

definition peak_shaving :: "twin_env \<Rightarrow> field_env \<Rightarrow> principal option \<Rightarrow> string option \<Rightarrow> pyfloat \<Rightarrow> pyfloat option
    \<Rightarrow> (uuid \<times> command) platform_run" where
  "peak_shaving env fenv po site reduction cap = bindS (lift (\<lambda>_. require_role [Operator] po)) (\<lambda>_ p.
     if \<not> fl_le (Fin 0) reduction then invalid_body p
     else case select_device ''battery'' site p of
       None \<Rightarrow> refuse 404 ''No online battery available to support peak shaving'' p
     | Some d \<Rightarrow> (let soc = soc_or_default env (device_id d) p in
         bindS (lift (\<lambda>_. below soc (PInt 25))) (\<lambda>low.
         if low then refuse 409 ''Battery state of charge too low for safe peak shaving''
         else bindS (lift (\<lambda>_. bindR (shift (- 10) soc) (\<lambda>s. py_max s (PInt 20)))) (\<lambda>target.
           submit_derms fenv ''peak_shaving'' (PDict [(''reduction_kw'', PFloat reduction), (''max_power_kw'', opt_number cap)]) d
             ''discharge'' (PDict [(''max_power_kw'', PFloat (shaving_power reduction cap)), (''target_soc'', target)]))) p))"

definition demand_response :: "twin_env \<Rightarrow> field_env \<Rightarrow> principal option \<Rightarrow> string option \<Rightarrow> int \<Rightarrow> pyfloat
    \<Rightarrow> (uuid \<times> command) platform_run" where
  "demand_response env fenv po site minutes reduction = bindS (lift (\<lambda>_. require_role [Operator] po)) (\<lambda>_ p.
     let rec = PDict [(''target_reduction_kw'', PFloat reduction), (''event_duration_minutes'', PInt minutes)] in
     if minutes < 5 \<or> \<not> fl_le (Fin 0) reduction then invalid_body p
     else case select_device ''battery'' site p of
       Some d \<Rightarrow> bindS (lift (\<lambda>_. below (soc_or_truthy env (device_id d) p) (PInt 25))) (\<lambda>low.
           if low then refuse 409 ''Battery SOC too low for demand response discharge''
           else submit_derms fenv ''demand_response'' rec d ''discharge''
             (PDict [(''max_power_kw'', PFloat reduction), (''event_duration_minutes'', PInt minutes)])) p
     | None \<Rightarrow> (case select_device ''ev_charger'' site p of
           Some d \<Rightarrow> submit_derms fenv ''demand_response'' rec d ''stop_charging'' (PDict [(''duration_minutes'', PInt minutes)]) p
         | None \<Rightarrow> refuse 404 ''No DERMS-capable asset available for demand response'' p))"

definition optimum :: "string \<Rightarrow> pyval \<Rightarrow> (string \<times> pyval) result" where
  "optimum objective soc =
     (if to_lower objective = ''maximize_solar''
      then bindR (shift 20 soc) (\<lambda>s. bindR (py_min s (PInt 90)) (\<lambda>t. Inr (''charge'', t)))
      else (let half = (if to_lower objective = ''min_cost'' then 50 else 60) in
        bindR (below soc (PInt half)) (\<lambda>l.
          if l then Inr (''charge'', PInt half)
          else bindR (shift (- 20) soc) (\<lambda>s. bindR (py_max s (PInt 20)) (\<lambda>t. Inr (''discharge'', t))))))"

definition load_optimization :: "twin_env \<Rightarrow> field_env \<Rightarrow> principal option \<Rightarrow> string option \<Rightarrow> string \<Rightarrow> int
    \<Rightarrow> (uuid \<times> command) platform_run" where
  "load_optimization env fenv po site objective horizon = bindS (lift (\<lambda>_. require_role [Operator] po)) (\<lambda>_ p.
     if horizon < 1 then invalid_body p
     else case select_device ''battery'' site p of
       None \<Rightarrow> refuse 404 ''No battery asset available for load optimization'' p
     | Some d \<Rightarrow> bindS (lift (\<lambda>_. optimum objective (soc_or_truthy env (device_id d) p))) (\<lambda>(cmd, target).
         submit_derms fenv ''load_optimization'' (PDict [(''objective'', PStr objective), (''optimization_horizon_hours'', PInt horizon)]) d cmd
           (PDict [(''target_soc'', target), (''max_power_kw'', PInt 10), (''optimization_horizon_hours'', PInt horizon)])) p)"

subsection \<open>Reading the requests\<close>

definition list_derms_requests :: "nat \<Rightarrow> string option \<Rightarrow> platform \<Rightarrow> derms_request list" where
  "list_derms_requests limit ty p = take limit (sort_desc dr_created (filter (\<lambda>r. case ty of Some (c # cs) \<Rightarrow> dr_type r = c # cs | _ \<Rightarrow> True) (pf_derms p)))"

definition get_derms_request :: "uuid \<Rightarrow> derms_request platform_run" where
  "get_derms_request i p = (case find (\<lambda>r. dr_id r = i) (pf_derms p) of
       None \<Rightarrow> (Inl (HTTPException 404 (Fmt ''Unknown DERMS request'' [])), p) | Some r \<Rightarrow> (Inr r, p))"

end
