(* ===== verification/Onboarding.thy ===== *)
theory Onboarding
  imports Platform
begin

text \<open>
  The onboarding workflow of \<^verbatim>\<open>src/fastapi/app.py\<close>: enrolment, validation, the six certification tests,
  approval, and the listings. What a test asks of the outside, the replicas Redis reports, the plaintext
  broker port and the enforcement flag, is the environment of the run. Audit rows are left out.
\<close>

subsection \<open>Rows\<close>

definition ONBOARDING_STATES :: "string list" where
  "ONBOARDING_STATES = [''REGISTERED'', ''VALIDATED'', ''CERTIFIED'', ''PRODUCTION_READY'']"

definition CERTIFICATION_TESTS :: "string list" where
  "CERTIFICATION_TESTS = [''connectivity'', ''telemetry'', ''command'', ''ack'', ''failover'', ''security'']"

definition fresh_seconds :: rat where "fresh_seconds = 300"

definition onboarding_row :: "string \<Rightarrow> platform \<Rightarrow> onboarding option" where
  "onboarding_row dev p = find (\<lambda>r. ob_device r = dev) (pf_onboarding p)"

text \<open>\<^verbatim>\<open>DISTINCT ON (test_name)\<close>, newest first: the last result of each test, by name.\<close>

definition latest_certs :: "string \<Rightarrow> platform \<Rightarrow> certification list" where
  "latest_certs dev p = (let cs = filter (\<lambda>c. ct_device c = dev) (pf_certs p) in
     map (\<lambda>n. let xs = filter (\<lambda>c. ct_test c = n) cs in max_by ct_run (hd xs) (tl xs)) (sort (remdups (map ct_test cs))))"

definition onboarding_record :: "onboarding \<Rightarrow> platform \<Rightarrow> onboarding \<times> certification list" where
  "onboarding_record r p = (r, latest_certs (ob_device r) p)"

definition not_enrolled :: "string \<Rightarrow> exn" where
  "not_enrolled dev = HTTPException 404 (Fmt ''Device {} is not enrolled in onboarding'' [dev])"

definition reread :: "string \<Rightarrow> (onboarding \<times> certification list) platform_run" where
  "reread dev p = (case onboarding_row dev p of
       Some r \<Rightarrow> (Inr (onboarding_record r p), p)
     | None \<Rightarrow> (Inl (TypeErr (Fmt ''NoneType object is not iterable'' [])), p))"

definition rewrite_onboarding :: "string \<Rightarrow> (onboarding \<Rightarrow> onboarding) \<Rightarrow> unit platform_run" where
  "rewrite_onboarding dev f = modify (\<lambda>p. p\<lparr>pf_onboarding := update_where (\<lambda>r. ob_device r = dev) f (pf_onboarding p)\<rparr>)"

subsection \<open>Enrolment and the listings\<close>

definition enroll_device :: "principal option \<Rightarrow> string \<Rightarrow> string option \<Rightarrow> string option \<Rightarrow> string option \<Rightarrow> string option
    \<Rightarrow> (onboarding \<times> certification list) platform_run" where
  "enroll_device po dev site protocol vendor note = bindS (lift (\<lambda>_. require_role [Admin, Engineer] po)) (\<lambda>_ p.
     if find_device (pf_db p) dev = None then (Inl (HTTPException 404 (Fmt ''Unknown device {}'' [dev])), p)
     else if onboarding_row dev p \<noteq> None then (Inl (HTTPException 409 (Fmt ''Device {} is already enrolled'' [dev])), p)
     else bindS (modify (\<lambda>p. p\<lparr>pf_onboarding := pf_onboarding p @ [\<lparr>ob_device = dev, ob_site = site, ob_protocol = protocol,
            ob_vendor = vendor, ob_notes = note, ob_status = ''REGISTERED'', ob_validation = PDict [], ob_registered = now (pf_db p),
            ob_validated = None, ob_certified = None, ob_approved = None\<rparr>]\<rparr>)) (\<lambda>_. reread dev) p)"

definition list_onboarding :: "string option \<Rightarrow> onboarding list platform_run" where
  "list_onboarding status p = (Inr (sort_desc ob_registered (filter (\<lambda>r. case status of
       Some (c # cs) \<Rightarrow> ob_status r = to_upper (c # cs) | _ \<Rightarrow> True) (pf_onboarding p))), p)"

definition get_onboarding :: "string \<Rightarrow> (onboarding \<times> certification list) platform_run" where
  "get_onboarding dev p = (case onboarding_row dev p of
       None \<Rightarrow> (Inl (not_enrolled dev), p) | Some r \<Rightarrow> (Inr (onboarding_record r p), p))"

subsection \<open>Validation\<close>

definition filled_in :: "string option \<Rightarrow> bool" where
  "filled_in v \<longleftrightarrow> v \<noteq> None \<and> v \<noteq> Some []"

definition validation_json :: "bool \<Rightarrow> bool \<Rightarrow> bool \<Rightarrow> bool \<Rightarrow> pyval" where
  "validation_json registered declared assigned seen = PDict [(''checks'', PDict [(''device_registered'', PBool registered),
     (''protocol_declared'', PBool declared), (''site_assigned'', PBool assigned), (''telemetry_seen'', PBool seen)]),
     (''passed'', PBool (registered \<and> declared \<and> seen))]"

text \<open>What the checks write into the row found; the site is advisory.\<close>

definition validation_update :: "onboarding \<Rightarrow> platform \<Rightarrow> onboarding \<Rightarrow> onboarding" where
  "validation_update r p =
     (let registered = (find_device (pf_db p) (ob_device r) \<noteq> None); declared = filled_in (ob_protocol r);
          seen = (latest_telemetry (pf_db p) (ob_device r) \<noteq> None);
          v = validation_json registered declared (filled_in (ob_site r)) seen in
      if registered \<and> declared \<and> seen
      then (\<lambda>x. x\<lparr>ob_status := ''VALIDATED'', ob_validated := Some (now (pf_db p)), ob_validation := v\<rparr>)
      else (\<lambda>x. x\<lparr>ob_validation := v\<rparr>))"

definition validate_onboarding :: "principal option \<Rightarrow> string \<Rightarrow> (onboarding \<times> certification list) platform_run" where
  "validate_onboarding po dev = bindS (lift (\<lambda>_. require_role [Admin, Engineer] po)) (\<lambda>_ p.
     case onboarding_row dev p of
       None \<Rightarrow> (Inl (not_enrolled dev), p)
     | Some r \<Rightarrow>
         if ob_status r \<notin> {''REGISTERED'', ''VALIDATED''}
         then (Inl (HTTPException 409 (Fmt ''Cannot validate from status {} (expected REGISTERED)'' [ob_status r])), p)
         else bindS (rewrite_onboarding dev (validation_update r p)) (\<lambda>_. reread dev) p)"

subsection \<open>Certification\<close>

record cert_env =
  ce_replicas :: int
  ce_mqtt_open :: bool
  ce_enforced :: bool

definition verdict :: "bool \<Rightarrow> string" where
  "verdict b = (if b then ''PASS'' else ''FAIL'')"

definition command_tests :: "command option \<Rightarrow> (string \<times> string \<times> pyval) list" where
  "command_tests newest = (case newest of
       None \<Rightarrow> map (\<lambda>n. (n, ''PENDING'', PDict [(''reason'', PStr ''no command issued yet'')])) [''command'', ''ack'']
     | Some c \<Rightarrow> (let d = PDict [(''command_id'', PStr (num_text (command_id c))), (''status'', PStr (command_status_name (command_status c)))] in
         [(''command'', verdict (dispatched_at c \<noteq> None), d), (''ack'', verdict (command_status c \<in> {C_ACKED, C_COMPLETED}), d)]))"

definition certification_tests :: "cert_env \<Rightarrow> string \<Rightarrow> db \<Rightarrow> (string \<times> string \<times> pyval) list" where
  "certification_tests env dev s =
     (let d = find_device s dev;
          connected = (case d of Some x \<Rightarrow> to_upper (device_status x) \<notin> {''OFFLINE'', ''UNKNOWN''} | None \<Rightarrow> False);
          age = map_option (\<lambda>r. now s - t_time r) (latest_telemetry s dev);
          samples = length (filter (\<lambda>r. t_device r = dev \<and> now s - 180 < t_time r) (telemetry_rows s));
          continuous = (10 \<le> samples); redundant = (1 \<le> ce_replicas env) in
      [(''connectivity'', verdict connected, PDict [(''status'', opt_text (map_option device_status d))]),
       (''telemetry'', verdict (case age of Some a \<Rightarrow> a \<le> fresh_seconds | None \<Rightarrow> False),
          PDict [(''age_seconds'', opt_float age), (''window_seconds'', PInt 300)])]
      @ command_tests (latest_command s dev) @
      [(''failover'', verdict (continuous \<and> redundant), PDict [(''telemetry_samples_3m'', PInt (int samples)),
          (''continuous'', PBool continuous), (''redis_connected_replicas'', PInt (ce_replicas env)), (''redundancy'', PBool redundant)]),
       (''security'', verdict (ce_enforced env \<and> \<not> ce_mqtt_open env), PDict [(''api_auth_enforced'', PBool (ce_enforced env)),
          (''mqtt_plaintext_1883_open'', PBool (ce_mqtt_open env)), (''mqtt_mtls_only'', PBool (\<not> ce_mqtt_open env))])])"

definition run_certification_tests :: "cert_env \<Rightarrow> string \<Rightarrow> (string \<times> string \<times> pyval) list platform_run" where
  "run_certification_tests env dev p =
     (let rs = certification_tests env dev (pf_db p) in
      if find_device (pf_db p) dev = None then (Inl (DbError (Fmt ''violates foreign key constraint'' [])), p)
      else (Inr rs, p\<lparr>pf_certs := pf_certs p @ map (\<lambda>(n, v, d). \<lparr>ct_device = dev, ct_test = n, ct_result = v, ct_details = d,
         ct_run = now (pf_db p)\<rparr>) rs\<rparr>))"

definition with_result :: "string \<Rightarrow> (string \<times> string \<times> pyval) list \<Rightarrow> string list" where
  "with_result v rs = map fst (filter (\<lambda>(n, w, d). w = v) rs)"

text \<open>
  The tests and the certification are separate transactions in the code, each with its own clock; here a
  request has one instant, so the run and the certification carry the same time.
\<close>

definition certify_onboarding :: "cert_env \<Rightarrow> principal option \<Rightarrow> string
    \<Rightarrow> (bool \<times> string list \<times> string list \<times> onboarding \<times> certification list) platform_run" where
  "certify_onboarding env po dev = bindS (lift (\<lambda>_. require_role [Admin] po)) (\<lambda>_ p.
     case onboarding_row dev p of
       None \<Rightarrow> (Inl (not_enrolled dev), p)
     | Some r \<Rightarrow>
         if ob_status r \<notin> {''VALIDATED'', ''CERTIFIED'', ''PRODUCTION_READY''}
         then (Inl (HTTPException 409 (Fmt ''Cannot certify from status {} (run /validate first)'' [ob_status r])), p)
         else bindS (run_certification_tests env dev) (\<lambda>rs.
           let failed = with_result ''FAIL'' rs; pending = with_result ''PENDING'' rs; certified = (failed = [] \<and> pending = []) in
           bindS (if certified \<and> ob_status r = ''VALIDATED''
               then rewrite_onboarding dev (\<lambda>r. r\<lparr>ob_status := ''CERTIFIED'', ob_certified := Some (now (pf_db p))\<rparr>)
               else ret ()) (\<lambda>_.
           bindS (reread dev) (\<lambda>(row, certs). ret (certified, failed, pending, row, certs)))) p)"

definition approve_onboarding :: "principal option \<Rightarrow> string \<Rightarrow> string \<Rightarrow> string option
    \<Rightarrow> (onboarding \<times> certification list) platform_run" where
  "approve_onboarding po dev by note = bindS (lift (\<lambda>_. require_role [Admin] po)) (\<lambda>_ p.
     case onboarding_row dev p of
       None \<Rightarrow> (Inl (not_enrolled dev), p)
     | Some r \<Rightarrow>
         if ob_status r \<noteq> ''CERTIFIED''
         then (Inl (HTTPException 409 (Fmt ''Cannot approve from status {} (must be CERTIFIED)'' [ob_status r])), p)
         else bindS (rewrite_onboarding dev (\<lambda>r. r\<lparr>ob_status := ''PRODUCTION_READY'', ob_approved := Some (now (pf_db p)),
                ob_notes := Some (''approved by '' @ by @ (if filled_in note then '': '' @ the note else []))\<rparr>)) (\<lambda>_. reread dev) p)"

end
