(* ===== verification/Onboarding_Correct.thy ===== *)
theory Onboarding_Correct
  imports Onboarding
begin

text \<open>
  What the onboarding workflow guarantees over any history of requests: the stages are passed in order,
  every stage rests on its evidence, and no device falls back.
\<close>

subsection \<open>Stages and their evidence\<close>

definition stage :: "string \<Rightarrow> nat" where
  "stage s = (if s = ''PRODUCTION_READY'' then 3 else if s = ''CERTIFIED'' then 2 else if s = ''VALIDATED'' then 1 else 0)"

definition passed_tests :: "string \<Rightarrow> rat \<Rightarrow> platform \<Rightarrow> bool" where
  "passed_tests dev t p \<longleftrightarrow> list_all (\<lambda>n. \<exists>c\<in>set (pf_certs p). ct_device c = dev \<and> ct_test c = n \<and> ct_result c = ''PASS'' \<and> ct_run c = t)
     CERTIFICATION_TESTS"

definition evidence :: "onboarding \<Rightarrow> platform \<Rightarrow> bool" where
  "evidence r p \<longleftrightarrow> ob_status r \<in> set ONBOARDING_STATES
     \<and> (1 \<le> stage (ob_status r) \<longrightarrow> ob_validated r \<noteq> None \<and> filled_in (ob_protocol r))
     \<and> (2 \<le> stage (ob_status r) \<longrightarrow> (\<exists>t. ob_certified r = Some t \<and> passed_tests (ob_device r) t p))
     \<and> (3 \<le> stage (ob_status r) \<longrightarrow> ob_approved r \<noteq> None)"

definition onboarding_wf :: "platform \<Rightarrow> bool" where
  "onboarding_wf p \<longleftrightarrow> distinct (map ob_device (pf_onboarding p)) \<and> list_all (\<lambda>r. evidence r p) (pf_onboarding p)"

definition no_fallback :: "platform \<Rightarrow> platform \<Rightarrow> bool" where
  "no_fallback p p' \<longleftrightarrow> (\<forall>r\<in>set (pf_onboarding p). \<exists>r'\<in>set (pf_onboarding p'). ob_device r' = ob_device r
     \<and> stage (ob_status r) \<le> stage (ob_status r'))"

definition onboards :: "platform \<Rightarrow> platform \<Rightarrow> bool" where
  "onboards p p' \<longleftrightarrow> onboarding_wf p \<longrightarrow> onboarding_wf p' \<and> no_fallback p p'"

lemma no_fallback_trans: "no_fallback p p' \<Longrightarrow> no_fallback p' p'' \<Longrightarrow> no_fallback p p''"
  unfolding no_fallback_def by (metis order_trans)

lemma onboards_trans: "onboards p p' \<Longrightarrow> onboards p' p'' \<Longrightarrow> onboards p p''"
  unfolding onboards_def using no_fallback_trans by blast

lemma passed_tests_mono: "passed_tests dev t p \<Longrightarrow> set (pf_certs p) \<subseteq> set (pf_certs p') \<Longrightarrow> passed_tests dev t p'"
  unfolding passed_tests_def list_all_iff by blast

lemma evidence_mono: "evidence r p \<Longrightarrow> set (pf_certs p) \<subseteq> set (pf_certs p') \<Longrightarrow> evidence r p'"
  unfolding evidence_def using passed_tests_mono by blast

text \<open>More certificates do no harm, and nothing but the two tables matters.\<close>

lemma onboards_more:
  assumes "pf_onboarding p' = pf_onboarding p" "set (pf_certs p) \<subseteq> set (pf_certs p')"
  shows "onboards p p'"
  using assms evidence_mono [of _ p p'] by (auto simp: onboards_def onboarding_wf_def no_fallback_def list_all_iff)

text \<open>A row is rewritten in place: its device stays, its stage does not fall, its evidence holds.\<close>

lemma onboards_rewrite:
  assumes "pf_certs p' = pf_certs p" "pf_onboarding p' = update_where (\<lambda>r. ob_device r = dev) f (pf_onboarding p)"
    "onboarding_row dev p = Some r" "\<And>x. ob_device (f x) = ob_device x"
    "stage (ob_status r) \<le> stage (ob_status (f r))" "evidence r p \<Longrightarrow> evidence (f r) p'"
  shows "onboards p p'"
  unfolding onboards_def
proof
  assume wf: "onboarding_wf p"
  have r: "r \<in> set (pf_onboarding p)" "ob_device r = dev" using assms(3) by (auto simp: onboarding_row_def find_Some_iff)
  have only: "x = r" if "x \<in> set (pf_onboarding p)" "ob_device x = dev" for x
    using wf that r by (auto simp: onboarding_wf_def distinct_map inj_on_def)
  have set': "set (pf_onboarding p') = (\<lambda>x. if ob_device x = dev then f x else x) ` set (pf_onboarding p)"
    by (simp add: assms(2) update_where_def)
  have "evidence x p'" if "x \<in> set (pf_onboarding p)" "ob_device x \<noteq> dev" for x
    using wf that evidence_mono [of x p p'] assms(1) by (auto simp: onboarding_wf_def list_all_iff)
  moreover have "evidence (f r) p'" using assms(6) wf r(1) by (auto simp: onboarding_wf_def list_all_iff)
  moreover have "map ob_device (pf_onboarding p') = map ob_device (pf_onboarding p)"
    using assms(4) by (simp add: assms(2) update_where_def)
  ultimately have "onboarding_wf p'" using wf only by (auto simp: onboarding_wf_def list_all_iff set')
  moreover have "no_fallback p p'"
    unfolding no_fallback_def
  proof
    fix x assume x: "x \<in> set (pf_onboarding p)"
    then have "(if ob_device x = dev then f x else x) \<in> set (pf_onboarding p')" by (simp add: set')
    moreover have "stage (ob_status x) \<le> stage (ob_status (if ob_device x = dev then f x else x))"
      using only [OF x] assms(5) by auto
    ultimately show "\<exists>r'\<in>set (pf_onboarding p'). ob_device r' = ob_device x \<and> stage (ob_status x) \<le> stage (ob_status r')"
      using assms(4) by (metis (full_types))
  qed
  ultimately show "onboarding_wf p' \<and> no_fallback p p'" by blast
qed

lemmas onboarding_rules = keeps_bindS [where R = onboards, OF _ _ onboards_trans]

lemma onboards_same: "pf_onboarding p' = pf_onboarding p \<Longrightarrow> pf_certs p' = pf_certs p \<Longrightarrow> onboards p p'"
  by (rule onboards_more) simp_all

lemma keeps_reading:
  "keeps onboards (lift f)" "keeps onboards (ret x)" "keeps onboards (reread dev)" "keeps onboards (get_onboarding dev)"
  "keeps onboards (list_onboarding st)" "keeps onboards (on_db a)"
  by (auto simp: keeps_def reread_def get_onboarding_def list_onboarding_def on_db_def intro!: onboards_same
      split: option.splits prod.splits)

subsection \<open>Each request\<close>

lemma onboards_bind: "onboards p (snd (m p)) \<Longrightarrow> (\<And>x. keeps onboards (f x)) \<Longrightarrow> onboards p (snd (bindS m f p))"
proof -
  assume a: "onboards p (snd (m p))" "\<And>x. keeps onboards (f x)"
  obtain r p' where m: "m p = (r, p')" by fastforce
  show ?thesis
  proof (cases r)
    case (Inl e)
    with a(1) m show ?thesis by (simp add: bindS_def)
  next
    case (Inr x)
    have "onboards p' (snd (f x p'))" using a(2) [of x] by (simp add: keeps_def)
    with a(1) m Inr show ?thesis by (auto simp: bindS_def intro: onboards_trans)
  qed
qed

lemma guarded: "bindS (lift (\<lambda>_. x)) f p = (case x of Inl e \<Rightarrow> (Inl e, p) | Inr a \<Rightarrow> f a p)"
  by (cases x) (simp_all add: bindS_def)

lemma rewrite_run: "snd (rewrite_onboarding dev f p) = p\<lparr>pf_onboarding := update_where (\<lambda>r. ob_device r = dev) f (pf_onboarding p)\<rparr>"
  by (simp add: rewrite_onboarding_def)

lemma evidence_frame [simp]: "evidence r (p\<lparr>pf_onboarding := xs\<rparr>) = evidence r p"
  by (simp add: evidence_def passed_tests_def)

lemma onboards_refl [simp]: "onboards p p"
  by (rule onboards_same) simp_all

text \<open>A request that rewrites the row it has found.\<close>

lemma onboards_update:
  assumes "onboarding_row dev p = Some r" "\<And>x. ob_device (f x) = ob_device x"
    "stage (ob_status r) \<le> stage (ob_status (f r))" "evidence r p \<Longrightarrow> evidence (f r) p"
  shows "onboards p (snd (rewrite_onboarding dev f p))"
  using assms by (intro onboards_rewrite [OF _ _ assms(1)]) (simp_all add: rewrite_run)

lemma onboards_enrolled:
  assumes "onboarding_row dev p = None" "ob_device row = dev" "ob_status row = ''REGISTERED''"
  shows "onboards p (p\<lparr>pf_onboarding := pf_onboarding p @ [row]\<rparr>)"
proof -
  have "dev \<notin> ob_device ` set (pf_onboarding p)" using assms(1) by (auto simp: onboarding_row_def find_None_iff)
  moreover have "evidence row p" using assms(3) by (simp add: evidence_def stage_def ONBOARDING_STATES_def)
  ultimately show ?thesis using assms(2) by (auto simp: onboards_def onboarding_wf_def no_fallback_def list_all_iff)
qed

lemma keeps_enroll: "keeps onboards (enroll_device po dev site protocol vendor note)"
  unfolding keeps_def
proof
  fix p
  show "onboards p (snd (enroll_device po dev site protocol vendor note p))"
  proof (cases "find_device (pf_db p) dev = None \<or> onboarding_row dev p \<noteq> None")
    case True
    then show ?thesis by (auto simp: enroll_device_def guarded split: sum.split)
  next
    case False
    then show ?thesis using onboards_enrolled keeps_reading(3)
      by (auto simp: enroll_device_def guarded intro!: onboards_bind split: sum.split)
  qed
qed

lemma validated_row:
  assumes "ob_status r \<in> {''REGISTERED'', ''VALIDATED''}"
  shows "ob_device (validation_update r p x) = ob_device x" "stage (ob_status r) \<le> stage (ob_status (validation_update r p r))"
    "evidence r q \<Longrightarrow> evidence (validation_update r p r) q"
  using assms by (auto simp: validation_update_def Let_def evidence_def stage_def ONBOARDING_STATES_def)

lemma keeps_validate: "keeps onboards (validate_onboarding po dev)"
  unfolding keeps_def
proof
  fix p
  show "onboards p (snd (validate_onboarding po dev p))"
  proof (cases "\<exists>r. onboarding_row dev p = Some r \<and> ob_status r \<in> {''REGISTERED'', ''VALIDATED''}")
    case False
    then show ?thesis by (auto simp: validate_onboarding_def guarded split: sum.split option.split)
  next
    case True
    then obtain r where r: "onboarding_row dev p = Some r" "ob_status r \<in> {''REGISTERED'', ''VALIDATED''}" by blast
    then have "onboards p (snd (rewrite_onboarding dev (validation_update r p) p))"
      by (intro onboards_update [OF r(1)] validated_row [OF r(2)])
    then have "onboards p (snd (bindS (rewrite_onboarding dev (validation_update r p)) (\<lambda>_. reread dev) p))"
      by (rule onboards_bind) (rule keeps_reading(3))
    with r show ?thesis by (auto simp: validate_onboarding_def guarded split: sum.split)
  qed
qed

text \<open>The run of the tests, and the certificate it may lead to.\<close>

lemma tests_named: "map fst (certification_tests env dev s) = CERTIFICATION_TESTS"
  by (auto simp: certification_tests_def Let_def command_tests_def CERTIFICATION_TESTS_def split: option.split)

lemma tests_results: "(n, v, d) \<in> set (certification_tests env dev s) \<Longrightarrow> v \<in> {''PASS'', ''FAIL'', ''PENDING''}"
proof -
  have v: "verdict b \<in> {''PASS'', ''FAIL'', ''PENDING''}" for b by (simp add: verdict_def)
  assume "(n, v, d) \<in> set (certification_tests env dev s)"
  with v show ?thesis by (auto simp: certification_tests_def Let_def command_tests_def simp del: insert_iff split: option.splits)
qed

lemma clean_run_passes:
  assumes "run_certification_tests env dev p = (Inr rs, p')" "with_result ''FAIL'' rs = []" "with_result ''PENDING'' rs = []"
  shows "passed_tests dev (now (pf_db p)) p'"
proof -
  have rs: "rs = certification_tests env dev (pf_db p)"
    and p': "set (pf_certs p') = set (pf_certs p) \<union> (\<lambda>(n, v, d). \<lparr>ct_device = dev, ct_test = n, ct_result = v, ct_details = d,
         ct_run = now (pf_db p)\<rparr>) ` set rs"
    using assms(1) by (simp_all add: run_certification_tests_def Let_def split: if_splits) (elim conjE, hypsubst, simp)
  have "\<exists>c\<in>set (pf_certs p'). ct_device c = dev \<and> ct_test c = n \<and> ct_result c = ''PASS'' \<and> ct_run c = now (pf_db p)"
    if "n \<in> set CERTIFICATION_TESTS" for n
  proof -
    have "n \<in> fst ` set rs" using that tests_named [of env dev "pf_db p"] rs by (metis set_map)
    then obtain v d where m: "(n, v, d) \<in> set rs" by auto
    have "v \<noteq> ''FAIL''" "v \<noteq> ''PENDING''" using assms(2,3) m by (auto simp: with_result_def filter_empty_conv)
    then have "v = ''PASS''" using tests_results [of n v d env dev "pf_db p"] m rs by auto
    then show ?thesis using m by (force simp: p')
  qed
  then show ?thesis by (simp add: passed_tests_def list_all_iff)
qed

lemma run_tests_keeps: "run_certification_tests env dev p = (x, p') \<Longrightarrow> pf_onboarding p' = pf_onboarding p \<and> set (pf_certs p) \<subseteq> set (pf_certs p') \<and> pf_db p' = pf_db p"
  by (auto simp: run_certification_tests_def Let_def split: if_splits)

lemma keeps_certify: "keeps onboards (certify_onboarding env po dev)"
  unfolding keeps_def
proof
  fix p
  show "onboards p (snd (certify_onboarding env po dev p))"
  proof (cases "onboarding_row dev p")
    case None
    then show ?thesis by (auto simp: certify_onboarding_def guarded split: sum.split)
  next
    case (Some r)
    obtain x p1 where run: "run_certification_tests env dev p = (x, p1)" by fastforce
    have p1: "pf_onboarding p1 = pf_onboarding p" "onboards p p1" "onboarding_row dev p1 = Some r" "pf_db p1 = pf_db p"
      using run_tests_keeps [OF run] Some by (auto simp: onboarding_row_def intro: onboards_more)
    show ?thesis
    proof (cases x)
      case (Inl e)
      then show ?thesis using p1(2) by (auto simp: certify_onboarding_def guarded Some bindS_def run split: sum.split)
    next
      case (Inr rs)
      let ?ok = "with_result ''FAIL'' rs = [] \<and> with_result ''PENDING'' rs = [] \<and> ob_status r = ''VALIDATED''"
      let ?a = "if ?ok then rewrite_onboarding dev (\<lambda>r. r\<lparr>ob_status := ''CERTIFIED'', ob_certified := Some (now (pf_db p))\<rparr>) else ret ()"
      let ?rest = "\<lambda>_. bindS (reread dev) (\<lambda>(row, certs). ret (with_result ''FAIL'' rs = [] \<and> with_result ''PENDING'' rs = [],
             with_result ''FAIL'' rs, with_result ''PENDING'' rs, row, certs))"
      have "onboards p1 (snd (?a p1))"
      proof (cases ?ok)
        case True
        then have "passed_tests dev (now (pf_db p)) p1" using clean_run_passes run Inr by blast
        moreover have "ob_device r = dev" using Some by (auto simp: onboarding_row_def find_Some_iff)
        ultimately have "onboards p1 (snd (rewrite_onboarding dev (\<lambda>r. r\<lparr>ob_status := ''CERTIFIED'', ob_certified := Some (now (pf_db p))\<rparr>) p1))"
          using True by (intro onboards_update [OF p1(3)]) (auto simp: stage_def evidence_def ONBOARDING_STATES_def)
        with True show ?thesis by simp
      next
        case False
        then have "?a = ret ()" by (rule if_not_P)
        then show ?thesis by (simp only: run_simps snd_conv onboards_refl)
      qed
      moreover have "keeps onboards (?rest u)" for u
        by (rule onboarding_rules [OF keeps_reading(3)]) (auto simp: keeps_def)
      ultimately have "onboards p1 (snd (bindS ?a ?rest p1))" by (intro onboards_bind)
      with p1(2) have "onboards p (snd (bindS ?a ?rest p1))" by (rule onboards_trans)
      then show ?thesis using p1(2)
        by (auto simp: certify_onboarding_def guarded Some bindS_def [of "run_certification_tests env dev"] run Inr Let_def conj_assoc
            split: sum.split)
    qed
  qed
qed

lemma keeps_approve: "keeps onboards (approve_onboarding po dev by note)"
  unfolding keeps_def
proof
  fix p
  show "onboards p (snd (approve_onboarding po dev by note p))"
  proof (cases "\<exists>r. onboarding_row dev p = Some r \<and> ob_status r = ''CERTIFIED''")
    case False
    then show ?thesis by (auto simp: approve_onboarding_def guarded split: sum.split option.split)
  next
    case True
    then obtain r where r: "onboarding_row dev p = Some r" "ob_status r = ''CERTIFIED''" by blast
    have "onboards p (snd (rewrite_onboarding dev (\<lambda>r. r\<lparr>ob_status := ''PRODUCTION_READY'', ob_approved := Some (now (pf_db p)), ob_notes := nt\<rparr>) p))" for nt
      using r by (intro onboards_update [OF r(1)]) (auto simp: stage_def evidence_def ONBOARDING_STATES_def)
    then show ?thesis using keeps_reading(3)
      by (auto simp: approve_onboarding_def guarded r intro!: onboards_bind split: sum.split)
  qed
qed

subsection \<open>Histories\<close>

text \<open>The requests, with whatever else happens to the other tables, the mirror and the clock in between.\<close>

datatype onboarding_event =
    Enroll "principal option" string "string option" "string option" "string option" "string option"
  | Validate "principal option" string
  | Certify cert_env "principal option" string
  | Approve "principal option" string string "string option"
  | Elsewhere db bool

fun onboarding_step :: "onboarding_event \<Rightarrow> platform \<Rightarrow> platform" where
  "onboarding_step (Enroll po dev site protocol vendor note) p = snd (enroll_device po dev site protocol vendor note p)"
| "onboarding_step (Validate po dev) p = snd (validate_onboarding po dev p)"
| "onboarding_step (Certify env po dev) p = snd (certify_onboarding env po dev p)"
| "onboarding_step (Approve po dev by note) p = snd (approve_onboarding po dev by note p)"
| "onboarding_step (Elsewhere s up) p = p\<lparr>pf_db := s, pf_redis_up := up\<rparr>"

definition onboarding_history :: "onboarding_event list \<Rightarrow> platform \<Rightarrow> platform" where
  "onboarding_history evs = fold onboarding_step evs"

lemma step_onboards: "onboards p (onboarding_step ev p)"
  using keeps_enroll keeps_validate keeps_certify keeps_approve by (cases ev) (auto simp: keeps_def intro!: onboards_same)

lemma history_onboards: "onboards p (onboarding_history evs p)"
proof (induction evs arbitrary: p)
  case (Cons ev evs)
  show ?case using onboards_trans [OF step_onboards [of p ev] Cons.IH] by (simp add: onboarding_history_def)
qed (simp add: onboarding_history_def)

text \<open>
  C11: Starting from no enrolment, over any history of requests by whomever and any change of the other
  tables: a device has one onboarding row; a certified device has, at the time its row says, a recorded
  pass of each of the six tests, after a validation with a declared protocol; a production device was
  approved; and no device ever falls back to an earlier stage or loses its row.
\<close>
theorem onboarding_gated:
  assumes "pf_onboarding p = []"
  shows "onboarding_wf (onboarding_history evs p)
    \<and> no_fallback (onboarding_history evs p) (onboarding_history evs' (onboarding_history evs p))"
proof -
  have "onboarding_wf p" using assms by (simp add: onboarding_wf_def)
  then have "onboarding_wf (onboarding_history evs p)" using history_onboards [of p evs] by (simp add: onboards_def)
  then show ?thesis using history_onboards [of "onboarding_history evs p" evs'] by (simp add: onboards_def)
qed

subsection \<open>A device on its way\<close>

definition ready_db :: db where
  "ready_db = empty_db\<lparr>now := 1000, devices := [mk_device ''BAT1'' ''battery'' ''default''],
     telemetry_rows := map (\<lambda>k. mk_telemetry ''BAT1'' (1000 - 5 * of_nat k) (PDict [])) [0..<12],
     commands := [\<lparr>command_id = 3, command_device = ''BAT1'', command_device_type = ''battery'', command_type = ''charge'',
       command_params = PDict [], command_status = C_ACKED, issued_by = ''op'', command_error = None, command_created = 900,
       dispatched_at = Some 900, acked_at = Some 901\<rparr>]\<rparr>"

definition fresh_platform :: "db \<Rightarrow> platform" where
  "fresh_platform s = \<lparr>pf_db = s, pf_redis_up = True, pf_mirror = (\<lambda>_. None), pf_alarms = [], pf_onboarding = [], pf_certs = [], pf_derms = []\<rparr>"

definition an_admin :: "principal option" where
  "an_admin = Some \<lparr>p_name = ''admin'', p_role = Admin, p_tenant = None\<rparr>"

definition whole_way :: "onboarding_event list" where
  "whole_way = [Enroll an_admin ''BAT1'' None (Some ''sunspec'') None None, Validate an_admin ''BAT1'',
     Certify \<lparr>ce_replicas = 1, ce_mqtt_open = False, ce_enforced = True\<rparr> an_admin ''BAT1'', Approve an_admin ''BAT1'' ''jane'' None]"

theorem onboarding_gated_witness:
  "map ob_status (pf_onboarding (onboarding_history whole_way (fresh_platform ready_db))) = [''PRODUCTION_READY'']
    \<and> onboarding_wf (onboarding_history whole_way (fresh_platform ready_db))
    \<and> no_fallback (onboarding_history whole_way (fresh_platform ready_db))
        (onboarding_history [Validate an_admin ''BAT1''] (onboarding_history whole_way (fresh_platform ready_db)))"
proof -
  have "map ob_status (pf_onboarding (onboarding_history whole_way (fresh_platform ready_db))) = [''PRODUCTION_READY'']" by code_simp
  moreover have "pf_onboarding (fresh_platform ready_db) = []" by (simp add: fresh_platform_def)
  ultimately show ?thesis
    using onboarding_gated [of "fresh_platform ready_db" whole_way "[Validate an_admin ''BAT1'']"] by blast
qed

subsection \<open>Where a gate stands open\<close>

text \<open>
  A failed re-certification changes nothing: the device stays certified and the approval goes through,
  although the last run of the tests failed.
\<close>

definition recertified_and_approved :: "onboarding_event list" where
  "recertified_and_approved = take 3 whole_way @
     [Certify \<lparr>ce_replicas = 0, ce_mqtt_open = True, ce_enforced = True\<rparr> an_admin ''BAT1'', Approve an_admin ''BAT1'' ''jane'' None]"

lemma failed_recertification_approved:
  "map ob_status (pf_onboarding (onboarding_history recertified_and_approved (fresh_platform ready_db))) = [''PRODUCTION_READY'']"
  "map ct_result (drop 6 (pf_certs (onboarding_history recertified_and_approved (fresh_platform ready_db))))
     = [''PASS'', ''PASS'', ''PASS'', ''PASS'', ''FAIL'', ''FAIL'']"
  by code_simp+

text \<open>A reading dated into the future counts as fresh, however far ahead it lies.\<close>

lemma future_reading_fresh:
  assumes "latest_telemetry s dev = Some r" "now s \<le> t_time r"
  shows "\<exists>d. (''telemetry'', ''PASS'', d) \<in> set (certification_tests env dev s)"
  using assms by (auto simp: certification_tests_def Let_def verdict_def fresh_seconds_def)

end
