(* ===== verification/Derms_Correct.thy ===== *)
theory Derms_Correct
  imports Derms Onboarding_Correct
begin

text \<open>
  What a DERMS request amounts to: at most one row and one command, in agreement with each other and with
  the answer, and a command that the state of charge justifies.
\<close>

subsection \<open>The books\<close>

definition derms_wf :: "platform \<Rightarrow> bool" where
  "derms_wf p \<longleftrightarrow> commands_wf (pf_db p) \<and> list_all (\<lambda>r. dr_id r < next_uuid (pf_db p)) (pf_derms p)"

text \<open>Refused before anything was written, executed, refused by the dispatch, or stopped by the database.\<close>

definition untouched :: "platform \<Rightarrow> (uuid \<times> command) result \<Rightarrow> platform \<Rightarrow> bool" where
  "untouched p x p' \<longleftrightarrow> isl x \<and> pf_derms p' = pf_derms p \<and> commands (pf_db p') = commands (pf_db p)"

definition executed :: "platform \<Rightarrow> (uuid \<times> command) result \<Rightarrow> platform \<Rightarrow> derms_request \<Rightarrow> bool" where
  "executed p x p' row \<longleftrightarrow> dr_status row = ''EXECUTED'' \<and> (\<exists>c. x = Inr (dr_id row, c) \<and> commands (pf_db p') = commands (pf_db p) @ [c]
     \<and> command_device c = dr_device row)"

definition refused_by_dispatch :: "(uuid \<times> command) result \<Rightarrow> derms_request \<Rightarrow> bool" where
  "refused_by_dispatch x row \<longleftrightarrow> dr_status row = ''FAILED'' \<and> (\<exists>code m. x = Inl (HTTPException code m) \<and> dr_error row = Some m)"

definition accounted :: "platform \<Rightarrow> (uuid \<times> command) result \<Rightarrow> platform \<Rightarrow> bool" where
  "accounted p x p' \<longleftrightarrow> untouched p x p' \<or>
     (\<exists>row. pf_derms p' = pf_derms p @ [row] \<and> (executed p x p' row \<or> refused_by_dispatch x row
        \<or> dr_status row = ''CREATED'' \<and> commands (pf_db p') = commands (pf_db p) \<and> (\<exists>e. x = Inl e \<and> \<not> is_http e)))"

definition command_is :: "(uuid \<times> command) result \<Rightarrow> device \<Rightarrow> string \<Rightarrow> pyval \<Rightarrow> bool" where
  "command_is x d cmd params \<longleftrightarrow> (case x of Inl _ \<Rightarrow> True
     | Inr (i, c) \<Rightarrow> command_device c = device_id d \<and> command_type c = cmd \<and> command_params c = params)"

text \<open>An acknowledgement that overtakes the API's own update reports success or failure, as the endpoint demands.\<close>

definition acks_final :: "field_env \<Rightarrow> bool" where
  "acks_final fenv \<longleftrightarrow> (\<forall>st err. env_early_ack fenv = Some (st, err) \<longrightarrow> st = C_ACKED \<or> st = C_FAILED)"

lemma status_written:
  "\<forall>r\<in>set rs. dr_id r < dr_id row \<Longrightarrow> update_where (\<lambda>r. dr_id r = dr_id row) f (rs @ [row]) = rs @ [f row]"
  by (subst update_where_fresh) auto

lemma submit_accounted:
  assumes "derms_wf p" "submit_derms fenv ty record d cmd params p = (x, p')" "acks_final fenv"
  shows "accounted p x p' \<and> command_is x d cmd params"
proof (cases "jsonb_ok record")
  case False
  with assms(2) show ?thesis
    by (auto simp: submit_derms_def insert_derms_request_def bindS_def Let_def accounted_def untouched_def command_is_def)
next
  case True
  define row where "row = \<lparr>dr_id = next_uuid (pf_db p), dr_type = ty, dr_site = device_site d,
         dr_device = device_id d, dr_params = record, dr_status = ''CREATED'', dr_created = now (pf_db p), dr_executed = None, dr_error = None\<rparr>"
  define s1 where "s1 = pf_db p\<lparr>next_uuid := Suc (next_uuid (pf_db p))\<rparr>"
  define p1 where "p1 = p\<lparr>pf_db := s1, pf_derms := pf_derms p @ [row]\<rparr>"
  obtain y s2 where dis: "dispatch_command fenv (device_id d) cmd params ''derms'' s1 = (y, s2)" by fastforce
  have "commands_wf s1" using assms(1) by (auto simp: derms_wf_def commands_wf_def s1_def)
  then have app: "(commands s2 = commands s1 \<and> isl y) \<or> (\<exists>c. commands s2 = commands s1 @ [c] \<and>
      command_device c = device_id d \<and> command_type c = cmd \<and> command_params c = params \<and>
      (y = Inr c \<or> (\<exists>m. y = Inl (HTTPException 502 m))))"
    using dispatch_appends [OF _ dis] assms(3) by (fastforce simp: acks_final_def split: if_splits)
  have old: "\<forall>r\<in>set (pf_derms p). dr_id r < dr_id row" using assms(1) by (auto simp: derms_wf_def row_def list_all_iff)
  note upd = status_written [OF old]
  have run: "(x, p') = execute_derms_command fenv (dr_id row) (device_id d) cmd params p1"
    using assms(2) True by (simp add: submit_derms_def insert_derms_request_def bindS_def Let_def p1_def s1_def row_def)
  have db: "on_db (dispatch_command fenv (device_id d) cmd params ''derms'') p1 = (y, p1\<lparr>pf_db := s2\<rparr>)"
    by (simp add: on_db_def p1_def dis)
  have pd: "pf_derms p1 = pf_derms p @ [row]" by (simp add: p1_def)
  have same: "commands s1 = commands (pf_db p)" by (simp add: s1_def)
  show ?thesis
  proof (cases y)
    case (Inr c)
    then have c: "commands s2 = commands s1 @ [c] \<and> command_device c = device_id d \<and> command_type c = cmd \<and> command_params c = params"
      using app by (auto split: if_splits)
    have "x = Inr (dr_id row, c)" "pf_db p' = s2"
      "pf_derms p' = pf_derms p @ [row\<lparr>dr_status := ''EXECUTED'', dr_executed := Some (now s2)\<rparr>]"
      using run upd by (simp_all add: execute_derms_command_def db Inr bindS_def update_derms_request_status_def pd)
    with c same show ?thesis by (auto simp: accounted_def executed_def command_is_def row_def)
  next
    case (Inl e)
    show ?thesis
    proof (cases "is_http e")
      case True
      then obtain code m where e: "e = HTTPException code m" by (cases e) auto
      have "x = Inl e" "pf_derms p' = pf_derms p @ [row\<lparr>dr_status := ''FAILED'', dr_executed := Some (now s2), dr_error := Some m\<rparr>]"
        using run upd by (simp_all add: execute_derms_command_def db Inl e bindS_def update_derms_request_status_def pd)
      then show ?thesis by (auto simp: accounted_def refused_by_dispatch_def command_is_def e)
    next
      case False
      then have r: "x = Inl e" "p' = p1\<lparr>pf_db := s2\<rparr>"
        using run by (auto simp: execute_derms_command_def db Inl split: exn.splits)
      have "commands s2 = commands s1" using app Inl False by (auto split: if_splits)
      with r same False show ?thesis by (auto simp: accounted_def command_is_def pd row_def)
    qed
  qed
qed

subsection \<open>The four endpoints\<close>

datatype derms_call =
    Battery_Dispatch "string option" "string option" pyfloat "pyfloat option"
  | Peak_Shaving "string option" pyfloat "pyfloat option"
  | Demand_Response "string option" int pyfloat
  | Load_Optimization "string option" string int

fun call_derms :: "twin_env \<Rightarrow> field_env \<Rightarrow> principal option \<Rightarrow> derms_call \<Rightarrow> (uuid \<times> command) platform_run" where
  "call_derms env fenv po (Battery_Dispatch dev site target cap) = battery_dispatch env fenv po dev site target cap"
| "call_derms env fenv po (Peak_Shaving site reduction cap) = peak_shaving env fenv po site reduction cap"
| "call_derms env fenv po (Demand_Response site minutes reduction) = demand_response env fenv po site minutes reduction"
| "call_derms env fenv po (Load_Optimization site objective horizon) = load_optimization env fenv po site objective horizon"

text \<open>What justifies the command that was sent.\<close>

definition param :: "command \<Rightarrow> string \<Rightarrow> pyval" where
  "param c k = (case command_params c of PDict d \<Rightarrow> dict_get d k PNone | _ \<Rightarrow> PNone)"

definition chosen :: "platform \<Rightarrow> string \<Rightarrow> string option \<Rightarrow> command \<Rightarrow> bool" where
  "chosen p ty site c \<longleftrightarrow> (\<exists>d. select_device ty site p = Some d \<and> command_device c = device_id d)"

text \<open>
  The charge a decision rests on: what the cached state of the device says, and half where it says
  nothing; with \<open>z\<close> a charge of zero counts as nothing said.
\<close>

definition charge_read :: "bool \<Rightarrow> twin_env \<Rightarrow> string \<Rightarrow> platform \<Rightarrow> pyfloat \<Rightarrow> bool" where
  "charge_read z env dev p x \<longleftrightarrow> (case dict_get (get_cached_state env dev p) ''battery_soc'' PNone of
       PNone \<Rightarrow> x = Fin 50
     | PBool b \<Rightarrow> x = (if b then Fin 1 else if z then Fin 50 else Fin 0)
     | PInt i \<Rightarrow> x = (if z \<and> i = 0 then Fin 50 else Fin (of_int i))
     | PFloat y \<Rightarrow> x = (if z \<and> y = Fin 0 then Fin 50 else y)
     | v \<Rightarrow> z \<and> \<not> truthy v \<and> x = Fin 50)"

text \<open>A target parameter as a number, said of the charges that are finite.\<close>

definition target_is :: "command \<Rightarrow> pyfloat \<Rightarrow> (rat \<Rightarrow> rat) \<Rightarrow> bool" where
  "target_is c x f \<longleftrightarrow> (\<forall>q. x = Fin q \<longrightarrow> as_number (param c ''target_soc'') = Inr (Fin (f q)))"

fun justified :: "twin_env \<Rightarrow> platform \<Rightarrow> derms_call \<Rightarrow> command \<Rightarrow> bool" where
  "justified env p (Battery_Dispatch dev site target cap) c \<longleftrightarrow>
     (\<exists>x. charge_read False env (command_device c) p x \<and>
        (command_type c = ''charge'' \<longleftrightarrow> fl_less x target) \<and>
        (command_type c = ''discharge'' \<longleftrightarrow> fl_less target x) \<and>
        (command_type c = ''idle'' \<longleftrightarrow> \<not> fl_less x target \<and> \<not> fl_less target x)) \<and>
     param c ''target_soc'' = PFloat target"
| "justified env p (Peak_Shaving site reduction cap) c \<longleftrightarrow> chosen p ''battery'' site c \<and> command_type c = ''discharge'' \<and>
     (\<exists>x. charge_read False env (command_device c) p x \<and> \<not> fl_less x (Fin 25) \<and> target_is c x (\<lambda>q. max (q - 10) 20))"
| "justified env p (Demand_Response site minutes reduction) c \<longleftrightarrow>
     (case select_device ''battery'' site p of
        Some d \<Rightarrow> command_device c = device_id d \<and> command_type c = ''discharge'' \<and> param c ''max_power_kw'' = PFloat reduction \<and>
          (\<exists>x. charge_read True env (command_device c) p x \<and> \<not> fl_less x (Fin 25))
      | None \<Rightarrow> chosen p ''ev_charger'' site c \<and> command_type c = ''stop_charging'')"
| "justified env p (Load_Optimization site objective horizon) c \<longleftrightarrow> chosen p ''battery'' site c \<and>
     (\<exists>x. charge_read True env (command_device c) p x \<and>
        (if to_lower objective = ''maximize_solar'' then command_type c = ''charge'' \<and> target_is c x (\<lambda>q. min (q + 20) 90)
         else let half = (if to_lower objective = ''min_cost'' then 50 else 60) in
           if fl_less x (Fin half) then command_type c = ''charge'' \<and> target_is c x (\<lambda>_. half)
           else command_type c = ''discharge'' \<and> target_is c x (\<lambda>q. max (q - 20) 20)))"

lemma state_from_db_no_charge: "state_from_db env dev p = Some d \<Longrightarrow> dict_get d ''battery_soc'' PNone = PNone"
  by (auto simp: state_from_db_def dict_get_def split: option.splits)

lemma known_charge:
  "dict_get (known_state env dev p) ''battery_soc'' PNone = dict_get (get_cached_state env dev p) ''battery_soc'' PNone"
  using state_from_db_no_charge [of env dev p]
  by (cases "get_cached_state env dev p") (auto simp: known_state_def Let_def dict_get_def split: option.split)

lemma soc_or_default_read:
  assumes "as_number (soc_or_default env dev p) = Inr x"
  shows "charge_read False env dev p x"
  using assms by (auto simp: soc_or_default_def known_charge charge_read_def half_full_def split: pyval.splits)

lemma soc_or_truthy_read:
  assumes "as_number (soc_or_truthy env dev p) = Inr x"
  shows "charge_read True env dev p x"
  using assms by (auto simp: soc_or_truthy_def known_charge charge_read_def half_full_def Let_def split: pyval.splits if_splits)

lemma below_Inr: "below a b = Inr l \<longleftrightarrow> (\<exists>x y. as_number a = Inr x \<and> as_number b = Inr y \<and> l = fl_less x y)"
  by (auto simp: below_def bindR_eq_Inr)

lemma shift_number: "shift k v = Inr w \<Longrightarrow> as_number v = Inr x \<Longrightarrow> as_number w = Inr (fl_add x (Fin (of_int k)))"
  by (cases v) auto

lemma shift_numeric: "shift k v = Inr w \<Longrightarrow> \<exists>x. as_number v = Inr x"
  by (cases v) auto

lemma py_max_number:
  "py_max a b = Inr v \<Longrightarrow> as_number a = Inr (Fin q) \<Longrightarrow> as_number b = Inr (Fin r) \<Longrightarrow> as_number v = Inr (Fin (max q r))"
  by (auto simp: py_max_def bindR_eq_Inr below_Inr max_def split: if_splits)

lemma py_min_number:
  "py_min a b = Inr v \<Longrightarrow> as_number a = Inr (Fin q) \<Longrightarrow> as_number b = Inr (Fin r) \<Longrightarrow> as_number v = Inr (Fin (min q r))"
  by (auto simp: py_min_def bindR_eq_Inr below_Inr min_def split: if_splits)

lemma fl_less_asym: "fl_less x y \<Longrightarrow> \<not> fl_less y x"
  by (cases x; cases y) auto

lemma charge_direction_spec:
  assumes "charge_direction soc target = Inr cmd"
  obtains x where "as_number soc = Inr x" "cmd = ''charge'' \<longleftrightarrow> fl_less x target" "cmd = ''discharge'' \<longleftrightarrow> fl_less target x"
    "cmd = ''idle'' \<longleftrightarrow> \<not> fl_less x target \<and> \<not> fl_less target x"
  using assms fl_less_asym
  by (auto simp: charge_direction_def bindR_eq_Inr below_Inr intro!: that split: if_splits)

lemma shaving_target:
  assumes "bindR (shift (- 10) soc) (\<lambda>s. py_max s (PInt 20)) = Inr t" "as_number soc = Inr (Fin q)"
  shows "as_number t = Inr (Fin (max (q - 10) 20))"
  using assms by (auto simp: bindR_eq_Inr dest!: shift_number py_max_number)

lemma optimum_spec:
  assumes "optimum objective soc = Inr (cmd, t)"
  obtains x where "as_number soc = Inr x"
    "if to_lower objective = ''maximize_solar'' then cmd = ''charge'' \<and> (\<forall>q. x = Fin q \<longrightarrow> as_number t = Inr (Fin (min (q + 20) 90)))
     else let half = (if to_lower objective = ''min_cost'' then 50 else 60) in
       if fl_less x (Fin half) then cmd = ''charge'' \<and> as_number t = Inr (Fin half)
       else cmd = ''discharge'' \<and> (\<forall>q. x = Fin q \<longrightarrow> as_number t = Inr (Fin (max (q - 20) 20)))"
proof -
  have "\<exists>x. as_number soc = Inr x"
    using assms by (auto simp: optimum_def bindR_eq_Inr below_Inr Let_def split: if_splits dest: shift_numeric)
  then obtain x where x: "as_number soc = Inr x" ..
  show ?thesis
  proof (rule that [OF x])
    show "if to_lower objective = ''maximize_solar'' then cmd = ''charge'' \<and> (\<forall>q. x = Fin q \<longrightarrow> as_number t = Inr (Fin (min (q + 20) 90)))
     else let half = (if to_lower objective = ''min_cost'' then 50 else 60) in
       if fl_less x (Fin half) then cmd = ''charge'' \<and> as_number t = Inr (Fin half)
       else cmd = ''discharge'' \<and> (\<forall>q. x = Fin q \<longrightarrow> as_number t = Inr (Fin (max (q - 20) 20)))"
      using assms x
      by (auto simp: optimum_def bindR_eq_Inr below_Inr Let_def dest!: shift_number [OF _ x] py_max_number py_min_number split: if_splits)
  qed
qed

text \<open>The choices of the endpoints, as the specification states them.\<close>

lemma dispatch_justified:
  assumes "charge_direction (soc_or_default env dv p) target = Inr cmd"
  shows "\<exists>x. charge_read False env dv p x \<and> (cmd = ''charge'' \<longleftrightarrow> fl_less x target) \<and>
    (cmd = ''discharge'' \<longleftrightarrow> fl_less target x) \<and> (cmd = ''idle'' \<longleftrightarrow> \<not> fl_less x target \<and> \<not> fl_less target x)"
  by (rule charge_direction_spec [OF assms]) (blast intro: soc_or_default_read)

lemma shaving_justified:
  assumes "below (soc_or_default env dv p) (PInt 25) = Inr False"
    and "bindR (shift (- 10) (soc_or_default env dv p)) (\<lambda>s. py_max s (PInt 20)) = Inr (param c ''target_soc'')"
  shows "\<exists>x. charge_read False env dv p x \<and> \<not> fl_less x (Fin 25) \<and> target_is c x (\<lambda>q. max (q - 10) 20)"
proof -
  obtain x where x: "as_number (soc_or_default env dv p) = Inr x" "\<not> fl_less x (Fin 25)"
    using assms(1) by (auto simp: below_Inr)
  have "target_is c x (\<lambda>q. max (q - 10) 20)"
    using shaving_target [OF assms(2)] x(1) by (simp add: target_is_def)
  with x soc_or_default_read show ?thesis by blast
qed

lemma response_justified:
  assumes "below (soc_or_truthy env dv p) (PInt 25) = Inr False"
  shows "\<exists>x. charge_read True env dv p x \<and> \<not> fl_less x (Fin 25)"
proof -
  obtain x where x: "as_number (soc_or_truthy env dv p) = Inr x" "\<not> fl_less x (Fin 25)"
    using assms by (auto simp: below_Inr)
  with soc_or_truthy_read show ?thesis by blast
qed

lemma optimization_justified:
  assumes "optimum objective (soc_or_truthy env dv p) = Inr (command_type c, param c ''target_soc'')"
  shows "\<exists>x. charge_read True env dv p x \<and>
        (if to_lower objective = ''maximize_solar'' then command_type c = ''charge'' \<and> target_is c x (\<lambda>q. min (q + 20) 90)
         else let half = (if to_lower objective = ''min_cost'' then 50 else 60) in
           if fl_less x (Fin half) then command_type c = ''charge'' \<and> target_is c x (\<lambda>_. half)
           else command_type c = ''discharge'' \<and> target_is c x (\<lambda>q. max (q - 20) 20))"
proof (rule optimum_spec [OF assms], rule exI, rule conjI)
  fix x assume "as_number (soc_or_truthy env dv p) = Inr x"
  then show "charge_read True env dv p x" by (rule soc_or_truthy_read)
qed (auto simp: target_is_def Let_def split: if_splits)

lemma untouched_fail: "untouched p (Inl e) p"
  by (simp add: untouched_def)

lemma accounted_fail [simp]: "accounted p (Inl e) p"
  by (simp add: accounted_def untouched_fail)

lemma fl_less_irrefl [simp]: "\<not> fl_less x x"
  by (cases x) simp_all

lemma py_max_floor: "py_max a b = Inr v \<Longrightarrow> below v b = Inr False"
  by (auto simp: py_max_def below_def bindR_eq_Inr split: if_splits)

lemma run_step:
  "bindS (lift f) g p = (x, p') \<longleftrightarrow> (\<exists>e. f p = Inl e \<and> x = Inl e \<and> p' = p) \<or> (\<exists>a. f p = Inr a \<and> g a p = (x, p'))"
  by (cases "f p") (auto simp: bindS_def)

lemma submit_answer:
  assumes "submit_derms fenv ty record d cmd params p = (x, p')" "derms_wf p" "acks_final fenv"
  shows "accounted p x p'"
    "x = Inr (i, c) \<Longrightarrow> command_device c = device_id d \<and> command_type c = cmd \<and> command_params c = params"
  using submit_accounted [OF assms(2,1,3)] by (auto simp: command_is_def)

lemma call_accounted:
  assumes "derms_wf p" "call_derms env fenv po c p = (x, p')" "acks_final fenv"
  shows "accounted p x p' \<and> (\<forall>i cmd. x = Inr (i, cmd) \<longrightarrow> justified env p c cmd)"
proof (cases c)
  case (Battery_Dispatch dev site target cap)
  with assms(2) show ?thesis
    using submit_answer [OF _ assms(1,3), of _ _ _ _ _ x p']
    by (auto simp: battery_dispatch_def run_step invalid_body_def param_def dict_get_def intro: dispatch_justified
        split: if_splits sum.splits)
next
  case (Peak_Shaving site reduction cap)
  have "accounted p x p' \<and> (\<forall>i cmd. x = Inr (i, cmd) \<longrightarrow> (\<exists>d t. select_device ''battery'' site p = Some d \<and>
      command_device cmd = device_id d \<and> command_type cmd = ''discharge'' \<and>
      below (soc_or_default env (device_id d) p) (PInt 25) = Inr False \<and>
      bindR (shift (- 10) (soc_or_default env (device_id d) p)) (\<lambda>s. py_max s (PInt 20)) = Inr (param cmd ''target_soc'')))"
    using assms(2) Peak_Shaving submit_answer [OF _ assms(1,3), of _ _ _ _ _ x p']
    by (auto simp: peak_shaving_def run_step invalid_body_def refuse_def Let_def param_def dict_get_def
        split: if_splits sum.splits option.splits)
  with shaving_justified [of env _ p] show ?thesis unfolding Peak_Shaving justified.simps chosen_def by metis
next
  case (Demand_Response site minutes reduction)
  with assms(2) show ?thesis
    using submit_answer [OF _ assms(1,3), of _ _ _ _ _ x p']
    by (auto simp: demand_response_def run_step invalid_body_def refuse_def Let_def chosen_def param_def dict_get_def
        dest: response_justified split: if_splits sum.splits option.splits)
next
  case (Load_Optimization site objective horizon)
  have 1: "accounted p x p' \<and> (\<forall>i cmd. x = Inr (i, cmd) \<longrightarrow> (\<exists>d. select_device ''battery'' site p = Some d \<and>
      command_device cmd = device_id d \<and>
      optimum objective (soc_or_truthy env (device_id d) p) = Inr (command_type cmd, param cmd ''target_soc'')))"
    using assms(2) Load_Optimization submit_answer [OF _ assms(1,3), of _ _ _ _ _ x p']
    by (auto simp: load_optimization_def run_step invalid_body_def refuse_def Let_def param_def dict_get_def
        split: if_splits sum.splits option.splits prod.splits)
  have "justified env p c cmd" if xi: "x = Inr (i, cmd)" for i cmd
  proof -
    obtain d where d: "select_device ''battery'' site p = Some d" "command_device cmd = device_id d"
      "optimum objective (soc_or_truthy env (device_id d) p) = Inr (command_type cmd, param cmd ''target_soc'')"
      using 1 xi by blast
    from optimization_justified [OF d(3)] show ?thesis
      unfolding Load_Optimization justified.simps chosen_def d(1,2) by blast
  qed
  with 1 show ?thesis by blast
qed

text \<open>
  C12: Each of the four DERMS requests keeps the books straight: it is refused and writes nothing, or it adds
  exactly one request row that says what became of it: executed, with exactly one command for the device of
  the row and the answer naming both; failed, with the refusal as its error and as the answer; or left as
  created when the database stops it. And an executed command follows from the charge the code reads, which
  is the cached one, or half where none is cached (and, for demand response and load optimization, where the
  cached one is zero): a dispatched battery charges exactly when the charge is below the target and
  discharges exactly when above; peak shaving discharges only from a quarter on, by ten points but not below
  a fifth; demand response discharges only from a quarter on; load optimization charges towards the charge
  plus twenty but at most ninety for solar, and otherwise up to the half the objective names when below it
  and else discharges by twenty points but not below a fifth. (That the charge read is the true one is not
  claimed, see \<open>empty_battery_discharged\<close>.)
\<close>
theorem derms_accounted:
  assumes "derms_wf p" "call_derms env fenv po c p = (x, p')" "acks_final fenv"
  shows "accounted p x p' \<and> (\<forall>i cmd. x = Inr (i, cmd) \<longrightarrow> justified env p c cmd)"
  by (rule call_accounted [OF assms])

definition derms_platform :: "string \<Rightarrow> platform" where
  "derms_platform soc = (fresh_platform (empty_db\<lparr>now := 100, devices := [mk_device ''BAT1'' ''battery'' ''default'']\<rparr>))
     \<lparr>pf_mirror := (\<lambda>_. None)(''state:BAT1'' \<mapsto> ([(''battery_soc'', soc)], 1000))\<rparr>"

definition plain_twin :: twin_env where
  "plain_twin = \<lparr>te_text = (\<lambda>_. []), te_dumps = (\<lambda>_. []), te_loads = (\<lambda>_. None),
     te_clock = (\<lambda>_. \<lparr>dt_year = 2024, dt_month = 2, dt_day = 29, dt_hour = 0, dt_minute = 0, dt_second = 0, dt_micro = 0\<rparr>)\<rparr>"

definition an_operator :: "principal option" where
  "an_operator = Some \<lparr>p_name = ''op'', p_role = Operator, p_tenant = Some ''acme''\<rparr>"

definition answer_type :: "(uuid \<times> command) result \<Rightarrow> string" where
  "answer_type x = (case x of Inl _ \<Rightarrow> [] | Inr (i, c) \<Rightarrow> command_type c)"

definition answer_target :: "(uuid \<times> command) result \<Rightarrow> pyval" where
  "answer_target x = (case x of Inl _ \<Rightarrow> PNone | Inr (i, c) \<Rightarrow> param c ''target_soc'')"

theorem derms_accounted_witness:
  "\<exists>x p'. call_derms plain_twin quiet_env an_operator (Peak_Shaving None (Fin 5) None) (derms_platform ''80.0'') = (x, p')
    \<and> answer_type x = ''discharge'' \<and> answer_target x = PFloat (Fin 70) \<and> accounted (derms_platform ''80.0'') x p'
    \<and> \<not> untouched (derms_platform ''80.0'') x p'
    \<and> (\<exists>i c. x = Inr (i, c) \<and> justified plain_twin (derms_platform ''80.0'') (Peak_Shaving None (Fin 5) None) c)"
proof -
  let ?p = "derms_platform ''80.0''" and ?c = "Peak_Shaving None (Fin 5) None"
  obtain x p' where run: "call_derms plain_twin quiet_env an_operator ?c ?p = (x, p')" by fastforce
  have "answer_type (fst (call_derms plain_twin quiet_env an_operator ?c ?p)) = ''discharge''"
    "answer_target (fst (call_derms plain_twin quiet_env an_operator ?c ?p)) = PFloat (Fin 70)" by code_simp+
  then have t: "answer_type x = ''discharge''" "answer_target x = PFloat (Fin 70)" by (simp_all only: run fst_conv)
  have "derms_wf ?p" by (simp add: derms_wf_def derms_platform_def fresh_platform_def commands_wf_def empty_db_def)
  moreover have "acks_final quiet_env" by (simp add: acks_final_def quiet_env_def)
  ultimately have a: "accounted ?p x p' \<and> (\<forall>i cmd. x = Inr (i, cmd) \<longrightarrow> justified plain_twin ?p ?c cmd)"
    using derms_accounted [OF _ run] by blast
  obtain i c where x: "x = Inr (i, c)" using t by (cases x) (auto simp: answer_type_def)
  then show ?thesis using run t a by (intro exI [of _ x] exI [of _ p']) (auto simp: untouched_def)
qed

subsection \<open>Where the charge is guessed\<close>

text \<open>
  Demand response reads a charge of zero as missing, and a missing one as half: the empty battery that
  peak shaving spares is discharged.
\<close>

lemma empty_battery_discharged:
  "answer_type (fst (call_derms plain_twin quiet_env an_operator (Demand_Response None 30 (Fin 5)) (derms_platform ''0.0''))) = ''discharge''"
  "answer_type (fst (call_derms plain_twin quiet_env an_operator (Peak_Shaving None (Fin 5) None) (derms_platform ''0.0''))) = []"
  by code_simp+

text \<open>Without a cached state the charge is taken to be half, whatever the telemetry table holds.\<close>

lemma uncached_charge_guessed:
  assumes "get_cached_state env dev p = []"
  shows "soc_or_default env dev p = half_full" "soc_or_truthy env dev p = half_full"
  using assms by (auto simp: soc_or_default_def soc_or_truthy_def known_state_def state_from_db_def dict_get_def Let_def split: option.split)

text \<open>The tenant of the device is not looked at: an operator of one tenant commands the battery of another.\<close>

lemma derms_crosses_tenants:
  "answer_type (fst (call_derms plain_twin quiet_env an_operator (Battery_Dispatch (Some ''BAT1'') None (Fin 90) None) (derms_platform ''80.0''))) = ''charge''"
  "assert_device_tenant (the an_operator) ''BAT1'' (pf_db (derms_platform ''80.0'')) \<noteq> Inr ()"
  by code_simp+

end
