(* ===== verification/Analytics.thy ===== *)
theory Analytics
  imports Derms Power_Flow
begin

text \<open>
  The analytics of \<^verbatim>\<open>src/fastapi/app.py\<close>: trends and forecasts, anomalies, maintenance insights,
  recommendations, and the fleet, site and operations overviews. Rows of equal time keep their order,
  where the database may give any. The standard deviation is used through its square; where it is printed it is the
  root to fifteen decimals. Counters of \<^verbatim>\<open>/metrics\<close> are left out.
\<close>

subsection \<open>State\<close>

record analytics_event =
  ae_type :: string
  ae_device :: "string option"
  ae_site :: "string option"
  ae_severity :: string
  ae_details :: pyval

record bench =
  bn_platform :: platform
  bn_events :: "analytics_event list"

type_synonym 'a bench_run = "(bench, 'a) action"

definition bn_db :: "bench \<Rightarrow> db" where "bn_db b = pf_db (bn_platform b)"

definition record_analytics_event :: "analytics_event \<Rightarrow> unit bench_run" where
  "record_analytics_event e b =
     (if (case ae_device e of None \<Rightarrow> False | Some d \<Rightarrow> find_device (bn_db b) d = None)
      then (Inl (DbError (Fmt ''violates foreign key constraint'' [])), b)
      else (Inr (), b\<lparr>bn_events := bn_events b @ [e]\<rparr>))"

text \<open>\<^verbatim>\<open>ORDER BY time DESC LIMIT n\<close>, and \<^verbatim>\<open>reversed\<close>.\<close>

definition limited :: "int \<Rightarrow> 'a list \<Rightarrow> 'a list result" where
  "limited n xs = (if n < 0 then Inl (DbError (Fmt ''LIMIT must not be negative'' [])) else Inr (take (nat n) xs))"

definition telemetry_series :: "db \<Rightarrow> string \<Rightarrow> int \<Rightarrow> telemetry list result" where
  "telemetry_series s dev n = bindR (limited n (sort_desc t_time (filter (\<lambda>t. t_device t = dev) (telemetry_rows s)))) (\<lambda>xs. Inr (rev xs))"

subsection \<open>Trend and forecast\<close>

definition mean :: "rat list \<Rightarrow> rat" where
  "mean xs = sum_list xs / of_nat (length xs)"

fun points_from :: "nat \<Rightarrow> rat option list \<Rightarrow> (rat \<times> rat) list" where
  "points_from i [] = []"
| "points_from i (None # ys) = points_from (Suc i) ys"
| "points_from i (Some y # ys) = (of_nat i, y) # points_from (Suc i) ys"

definition trend_of :: "(rat \<times> rat) list \<Rightarrow> rat \<times> rat" where
  "trend_of ps = (let xm = mean (map fst ps); ym = mean (map snd ps);
     num = sum_list (map (\<lambda>(x, y). (x - xm) * (y - ym)) ps);
     den = sum_list (map (\<lambda>(x, y). (x - xm) ^ 2) ps);
     slope = (if den = 0 then 0 else num / den) in (slope, ym - slope * xm))"

definition compute_trend :: "rat option list \<Rightarrow> (rat \<times> rat) option" where
  "compute_trend ys = (let ps = points_from 0 ys in if length ps < 2 then None else Some (trend_of ps))"

definition series_values :: "rat option list \<Rightarrow> rat list" where
  "series_values ys = concat (map (\<lambda>y. case y of None \<Rightarrow> [] | Some v \<Rightarrow> [v]) ys)"

definition forecast_metric :: "telemetry list \<Rightarrow> string \<times> (telemetry \<Rightarrow> rat option) \<Rightarrow> (string \<times> rat \<times> rat) list" where
  "forecast_metric series kf = (let ys = map (snd kf) series; vs = series_values ys in
     if vs = [] then [] else [(fst kf, List.last vs, case compute_trend ys of None \<Rightarrow> 0 | Some (sl, _) \<Rightarrow> sl)])"

definition forecast_keys :: "(string \<times> (telemetry \<Rightarrow> rat option)) list" where
  "forecast_keys = [(''power_kw'', t_power_kw), (''solar_kw'', t_solar_kw), (''battery_soc'', t_battery_soc)]"

definition forecast_metrics :: "telemetry list \<Rightarrow> (string \<times> rat \<times> rat) list" where
  "forecast_metrics series = concat (map (forecast_metric series) forecast_keys)"

definition forecast_series :: "twin_env \<Rightarrow> db \<Rightarrow> string \<Rightarrow> int \<Rightarrow> (string \<times> (string \<times> rat) list) list result" where
  "forecast_series env s dev horizon = bindR (telemetry_series s dev 48) (\<lambda>series.
     Inr (if series = [] then [] else
       map (\<lambda>h. (isoformat (te_clock env (t_time (List.last series) + 3600 * of_int h)),
             map (\<lambda>(k, base, slope). (k, max 0 (base + slope * of_int h))) (forecast_metrics series))) [1..horizon]))"

definition forecast_target :: "db \<Rightarrow> string option \<Rightarrow> device option" where
  "forecast_target s site = (case site of
     Some (c # cs) \<Rightarrow> (case sort_desc device_created (filter (\<lambda>d. device_site d = Some (c # cs)) (devices s)) of
         [] \<Rightarrow> None | d # _ \<Rightarrow> Some d)
   | _ \<Rightarrow> None)"

definition select_forecast_device :: "db \<Rightarrow> string option \<Rightarrow> string option \<Rightarrow> device option result" where
  "select_forecast_device s dev site = (case dev of
     Some (c # cs) \<Rightarrow> (case find_device s (c # cs) of
         None \<Rightarrow> Inl (HTTPException 404 (Fmt ''Unknown device_id {}'' [c # cs])) | Some d \<Rightarrow> Inr (Some d))
   | _ \<Rightarrow> (case site of Some (_ # _) \<Rightarrow> Inr (forecast_target s site)
       | _ \<Rightarrow> Inl (HTTPException 422 (Fmt ''device_id or site_name is required for analytics'' []))))"

definition analytics_forecast :: "twin_env \<Rightarrow> string option \<Rightarrow> string option \<Rightarrow> int
    \<Rightarrow> (device \<times> (string \<times> (string \<times> rat) list) list) bench_run" where
  "analytics_forecast env dev site horizon b = (bindR (select_forecast_device (bn_db b) dev site) (\<lambda>t. case t of
       None \<Rightarrow> Inl (HTTPException 404 (Fmt ''No forecast target found'' []))
     | Some d \<Rightarrow> bindR (forecast_series env (bn_db b) (device_id d) horizon) (\<lambda>f. Inr (d, f))), b)"

subsection \<open>Anomalies\<close>

definition variance :: "rat list \<Rightarrow> rat" where
  "variance xs = sum_list (map (\<lambda>x. (x - mean xs) ^ 2) xs) / (of_nat (length xs) - 1)"

datatype anomaly =
    Power_anomaly rat rat rat rat
  | Frequency_anomaly rat rat

definition far_out :: "rat list \<Rightarrow> rat \<Rightarrow> bool" where
  "far_out vs p \<longleftrightarrow> 0 < variance vs \<and> 4 * variance vs < (p - mean vs) ^ 2"

definition row_anomalies :: "rat list \<Rightarrow> telemetry \<Rightarrow> anomaly list" where
  "row_anomalies vs t =
     (case t_power_kw t of Some p \<Rightarrow> if far_out vs p
        then [Power_anomaly (t_time t) p (mean vs + 2 * root15 (variance vs)) (mean vs - 2 * root15 (variance vs))] else []
      | None \<Rightarrow> []) @
     (case t_frequency t of Some f \<Rightarrow> if 49 \<le> f \<and> f \<le> 51 then [] else [Frequency_anomaly (t_time t) f] | None \<Rightarrow> [])"

definition anomalies_in :: "telemetry list \<Rightarrow> anomaly list" where
  "anomalies_in series = (let vs = series_values (map t_power_kw series) in
     if length vs < 2 then [] else concat (map (row_anomalies vs) series))"

definition detect_anomalies :: "db \<Rightarrow> string \<Rightarrow> int \<Rightarrow> anomaly list result" where
  "detect_anomalies s dev window = bindR (telemetry_series s dev (window * 6)) (\<lambda>series. Inr (anomalies_in series))"

definition analytics_anomalies :: "string option \<Rightarrow> string option \<Rightarrow> int \<Rightarrow> (string \<times> anomaly list) bench_run" where
  "analytics_anomalies dev site window = bindS (lift (\<lambda>b. case dev of
       Some d \<Rightarrow> Inr d
     | None \<Rightarrow> (case site of
         None \<Rightarrow> Inl (HTTPException 422 (Fmt ''device_id or site_name required for anomaly detection'' []))
       | Some _ \<Rightarrow> (case forecast_target (bn_db b) site of
           None \<Rightarrow> Inl (HTTPException 404 (Fmt ''No device found for site'' [])) | Some d \<Rightarrow> Inr (device_id d))))) (\<lambda>d.
     bindS (lift (\<lambda>b. detect_anomalies (bn_db b) d window)) (\<lambda>as.
       bindS (record_analytics_event \<lparr>ae_type = ''anomaly_detection'', ae_device = Some d, ae_site = site, ae_severity = ''INFO'',
          ae_details = PDict [(''anomaly_count'', PInt (int (length as)))]\<rparr>) (\<lambda>_. ret (d, as))))"


subsection \<open>Maintenance\<close>

record insight =
  ig_device :: device
  ig_severity :: string
  ig_score :: nat
  ig_reasons :: "string list"

definition recent_failures :: "db \<Rightarrow> string \<Rightarrow> nat" where
  "recent_failures s dev = length (filter (\<lambda>c. command_device c = dev \<and> command_status c = C_FAILED \<and>
     now s - 7 * 86400 < command_created c) (commands s))"

definition recent_alarms :: "platform \<Rightarrow> string \<Rightarrow> nat" where
  "recent_alarms p dev = length (filter (\<lambda>a. al_device a = dev \<and> now (pf_db p) - 14 * 86400 < al_raised a) (pf_alarms p))"

definition insight_severity :: "nat \<Rightarrow> string" where
  "insight_severity n = (if 6 \<le> n then ''HIGH'' else if 3 \<le> n then ''MEDIUM'' else if 0 < n then ''LOW'' else ''OK'')"

definition low_charge :: "twin_env \<Rightarrow> device \<Rightarrow> platform \<Rightarrow> bool result" where
  "low_charge env d p = (case dict_get (known_state env (device_id d) p) ''battery_soc'' PNone of
     PNone \<Rightarrow> Inr False | v \<Rightarrow> bindR (Derms.below v (PInt 30)) (\<lambda>l. Inr (l \<and> device_type d = ''battery'')))"

definition insight_of :: "twin_env \<Rightarrow> device \<Rightarrow> platform \<Rightarrow> insight result" where
  "insight_of env d p = bindR (low_charge env d p) (\<lambda>low.
     let f = recent_failures (pf_db p) (device_id d); a = recent_alarms p (device_id d);
         score = 2 * f + 2 * a + (if low then 2 else 0) in
     Inr \<lparr>ig_device = d, ig_severity = insight_severity score, ig_score = score,
          ig_reasons = (if 0 < f then [num_text f @ '' failed command(s) in last 7 days''] else [])
            @ (if 0 < a then [num_text a @ '' alarm(s) in last 14 days''] else [])
            @ (if low then [''Low battery state of charge''] else [])\<rparr>)"

definition insight_json :: "insight \<Rightarrow> pyval" where
  "insight_json i = PDict [(''device_id'', PStr (device_id (ig_device i))), (''device_type'', PStr (device_type (ig_device i))),
     (''status'', PStr (device_status (ig_device i))), (''severity'', PStr (ig_severity i)), (''score'', PInt (int (ig_score i))),
     (''reasons'', PList (map PStr (ig_reasons i)))]"

definition predictive_maintenance_insight :: "twin_env \<Rightarrow> string \<Rightarrow> insight option bench_run" where
  "predictive_maintenance_insight env dev b = (case find_device (bn_db b) dev of
       None \<Rightarrow> (Inr None, b)
     | Some d \<Rightarrow> bindS (lift (\<lambda>_. insight_of env d (bn_platform b))) (\<lambda>i.
         bindS (record_analytics_event \<lparr>ae_type = ''predictive_maintenance'', ae_device = Some dev, ae_site = device_site d,
           ae_severity = ig_severity i, ae_details = insight_json i\<rparr>) (\<lambda>_. ret (Some i))) b)"

definition analytics_predictive_maintenance :: "twin_env \<Rightarrow> string option \<Rightarrow> string option \<Rightarrow> insight bench_run" where
  "analytics_predictive_maintenance env dev site = bindS (lift (\<lambda>b. case dev of
       Some d \<Rightarrow> Inr d
     | None \<Rightarrow> (case site of
         None \<Rightarrow> Inl (HTTPException 422 (Fmt ''device_id or site_name required'' []))
       | Some _ \<Rightarrow> (case forecast_target (bn_db b) site of
           None \<Rightarrow> Inl (HTTPException 404 (Fmt ''No device found for site'' [])) | Some d \<Rightarrow> Inr (device_id d))))) (\<lambda>d.
     bindS (predictive_maintenance_insight env d) (\<lambda>i. case i of
       None \<Rightarrow> fail (HTTPException 404 (Fmt ''Unknown device_id {}'' [d])) | Some x \<Rightarrow> ret x))"

subsection \<open>Recommendations\<close>

record recommendation =
  rc_device :: string
  rc_type :: string
  rc_severity :: string
  rc_message :: msg
  rc_endpoint :: msg

definition join :: "string \<Rightarrow> string list \<Rightarrow> string" where
  "join sep xs = (case xs of [] \<Rightarrow> [] | y # ys \<Rightarrow> y @ concat (map (\<lambda>z. sep @ z) ys))"

definition soc_advice :: "twin_env \<Rightarrow> device \<Rightarrow> platform \<Rightarrow> recommendation list result" where
  "soc_advice env d p = (case dict_get (known_state env (device_id d) p) ''battery_soc'' PNone of
     PNone \<Rightarrow> Inr []
   | v \<Rightarrow> if device_type d \<noteq> ''battery'' then Inr [] else bindR (Derms.below v (PInt 30)) (\<lambda>low.
       Inr (if low then [\<lparr>rc_device = device_id d, rc_type = ''soc_low'', rc_severity = ''MEDIUM'',
          rc_message = Fmt ''{} battery SOC low ({}%)'' [device_id d, te_text env v], rc_endpoint = Fmt ''POST /derms/battery_dispatch'' []\<rparr>] else [])))"

definition maintenance_advice :: "string \<Rightarrow> insight option \<Rightarrow> recommendation list" where
  "maintenance_advice dev i = (case i of None \<Rightarrow> [] | Some x \<Rightarrow> if ig_severity x \<in> {''MEDIUM'', ''HIGH''}
     then [\<lparr>rc_device = dev, rc_type = ''predictive_maintenance'', rc_severity = ig_severity x,
       rc_message = Fmt ''Maintenance risk {}: {}'' [ig_severity x, if ig_reasons x = [] then ''elevated risk score'' else join ''; '' (ig_reasons x)],
       rc_endpoint = Fmt ''GET /analytics/predictive_maintenance?device_id={}'' [dev]\<rparr>] else [])"

definition metric_name :: "anomaly \<Rightarrow> string" where
  "metric_name a = (case a of Power_anomaly _ _ _ _ \<Rightarrow> ''power_kw'' | Frequency_anomaly _ _ \<Rightarrow> ''frequency'')"

definition anomaly_advice :: "string \<Rightarrow> anomaly list \<Rightarrow> recommendation list" where
  "anomaly_advice dev as = (case as of [] \<Rightarrow> [] | a # _ \<Rightarrow>
     [\<lparr>rc_device = dev, rc_type = ''anomaly'', rc_severity = ''LOW'',
       rc_message = Fmt ''{} anomaly point(s) detected ({})'' [num_text (length as), metric_name a],
       rc_endpoint = Fmt ''GET /analytics/anomalies?device_id={}'' [dev]\<rparr>])"

definition advise_device :: "twin_env \<Rightarrow> string \<Rightarrow> recommendation list bench_run" where
  "advise_device env dev b = (case find_device (bn_db b) dev of
       None \<Rightarrow> (Inr [], b)
     | Some d \<Rightarrow> bindS (lift (\<lambda>b. soc_advice env d (bn_platform b))) (\<lambda>r1.
         bindS (predictive_maintenance_insight env dev) (\<lambda>i.
         bindS (lift (\<lambda>b. detect_anomalies (bn_db b) dev 24)) (\<lambda>as.
           ret (r1 @ maintenance_advice dev i @ anomaly_advice dev as)))) b)"

fun advise_all :: "twin_env \<Rightarrow> string list \<Rightarrow> recommendation list bench_run" where
  "advise_all env [] = ret []"
| "advise_all env (d # ds) = bindS (advise_device env d) (\<lambda>xs. bindS (advise_all env ds) (\<lambda>ys. ret (xs @ ys)))"

definition recommendations :: "twin_env \<Rightarrow> string option \<Rightarrow> string option \<Rightarrow> recommendation list bench_run" where
  "recommendations env site dev b = advise_all env (case dev of
       Some (c # cs) \<Rightarrow> [c # cs]
     | _ \<Rightarrow> sort (map device_id (filter (\<lambda>d. case site of Some (c # cs) \<Rightarrow> device_site d = Some (c # cs) | _ \<Rightarrow> True) (devices (bn_db b))))) b"

subsection \<open>Overviews\<close>

text \<open>\<^verbatim>\<open>GROUP BY\<close> with \<^verbatim>\<open>COUNT\<close>; the groups in the order of their first row.\<close>

definition tally :: "'a list \<Rightarrow> ('a \<times> nat) list" where
  "tally xs = fold (\<lambda>x d. dict_put x (Suc (dict_get d x 0)) d) xs []"

definition at_site :: "string option \<Rightarrow> device \<Rightarrow> bool" where
  "at_site site d \<longleftrightarrow> (case site of Some (c # cs) \<Rightarrow> device_site d = Some (c # cs) | _ \<Rightarrow> True)"

record fleet =
  fo_total :: nat
  fo_by_type :: "(string \<times> (string \<times> nat) list) list"
  fo_by_site :: "(string \<times> nat) list"

text \<open>\<^verbatim>\<open>counts.setdefault(device_type, {})[status] = count\<close>\<close>

definition fleet_overview :: "db \<Rightarrow> fleet" where
  "fleet_overview s = (let groups = tally (map (\<lambda>d. (device_type d, device_status d)) (devices s)) in
     \<lparr>fo_total = sum_list (map snd groups),
      fo_by_type = fold (\<lambda>((ty, st), n) d. dict_put ty (dict_put st n (dict_get d ty [])) d) groups [],
      fo_by_site = concat (map (\<lambda>(site, n). case site of Some (c # cs) \<Rightarrow> [(c # cs, n)] | _ \<Rightarrow> []) (tally (map device_site (devices s))))\<rparr>)"

definition latest_at_site :: "db \<Rightarrow> string \<Rightarrow> rat option" where
  "latest_at_site s site = (case map t_time (filter (\<lambda>t. \<exists>d\<in>set (devices s). device_id d = t_device t \<and> device_site d = Some site) (telemetry_rows s)) of
     [] \<Rightarrow> None | x # xs \<Rightarrow> Some (foldl max x xs))"

record site_line =
  sl_name :: string
  sl_assets :: nat
  sl_online :: "nat option"
  sl_latest :: "rat option"

text \<open>\<^verbatim>\<open>SUM\<close> over no rows is NULL.\<close>

definition sites_overview :: "db \<Rightarrow> site_line list" where
  "sites_overview s = map (\<lambda>n. let ds = filter (\<lambda>d. device_site d = Some n) (devices s) in
     \<lparr>sl_name = n, sl_assets = length ds,
      sl_online = (if ds = [] then None else Some (length (filter (\<lambda>d. device_status d = ''ONLINE'') ds))),
      sl_latest = latest_at_site s n\<rparr>) (sort (sites s))"

definition site_overview :: "db \<Rightarrow> string \<Rightarrow> ((string \<times> string \<times> string) list \<times> rat option) result" where
  "site_overview s n = (if n \<notin> set (sites s) then Inl (HTTPException 404 (Fmt ''Unknown site {}'' [n]))
     else Inr (map (\<lambda>d. (device_id d, device_type d, device_status d)) (sort_key device_id (filter (\<lambda>d. device_site d = Some n) (devices s))),
               latest_at_site s n))"

record summary =
  su_devices :: "((string \<times> string) \<times> nat) list"
  su_events :: nat

definition analytics_summary :: "bench \<Rightarrow> string option \<Rightarrow> summary" where
  "analytics_summary b site = \<lparr>su_devices = tally (map (\<lambda>d. (device_type d, device_status d)) (filter (at_site site) (devices (bn_db b)))),
     su_events = length (filter (\<lambda>e. case site of Some (c # cs) \<Rightarrow> ae_site e = Some (c # cs) | _ \<Rightarrow> True) (bn_events b))\<rparr>"

record ops_report =
  or_summary :: summary
  or_commands :: "(string \<times> nat) list"
  or_derms :: "(string \<times> nat) list"
  or_alarms :: "(string option \<times> nat) list"
  or_latest :: "(string \<times> rat option) list"

text \<open>The inner join with the devices keeps a row for its device at the site.\<close>

definition joined :: "db \<Rightarrow> string option \<Rightarrow> string \<Rightarrow> bool" where
  "joined s site dev \<longleftrightarrow> (\<exists>d\<in>set (devices s). device_id d = dev \<and> at_site site d)"

definition reports_summary :: "bench \<Rightarrow> string option \<Rightarrow> ops_report" where
  "reports_summary b site = (let s = bn_db b; p = bn_platform b in
     \<lparr>or_summary = analytics_summary b site,
      or_commands = tally (map (\<lambda>c. command_status_name (command_status c)) (filter (\<lambda>c. joined s site (command_device c)) (commands s))),
      or_derms = tally (map dr_status (filter (\<lambda>r. case site of Some (c # cs) \<Rightarrow> dr_site r = Some (c # cs) | _ \<Rightarrow> True) (pf_derms p))),
      or_alarms = tally (map al_severity (filter (\<lambda>a. joined s site (al_device a)) (pf_alarms p))),
      or_latest = map (\<lambda>d. (device_id d, map_option t_time (latest_telemetry s (device_id d)))) (filter (at_site site) (devices s))\<rparr>)"

definition list_alarms :: "platform \<Rightarrow> string option \<Rightarrow> int \<Rightarrow> alarm list result" where
  "list_alarms p dev n = limited n (sort_desc al_raised (filter (\<lambda>a. case dev of Some (c # cs) \<Rightarrow> al_device a = c # cs | _ \<Rightarrow> True) (pf_alarms p)))"

definition list_commands :: "db \<Rightarrow> string option \<Rightarrow> int \<Rightarrow> command list result" where
  "list_commands s dev n = limited n (sort_desc command_created (filter (\<lambda>c. case dev of Some (x # xs) \<Rightarrow> command_device c = x # xs | _ \<Rightarrow> True) (commands s)))"

text \<open>\<^verbatim>\<open>GET /telemetry/latest\<close>: the newest row of the caller's tenant.\<close>

definition view_latest :: "principal option \<Rightarrow> db \<Rightarrow> telemetry option result" where
  "view_latest po s = bindR (require_role [Viewer, Operator, Engineer, Admin, Service] po) (\<lambda>pr.
     Inr (case filter (\<lambda>t. case p_tenant pr of None \<Rightarrow> True
            | Some tn \<Rightarrow> \<exists>d\<in>set (devices s). device_id d = t_device t \<and> device_tenant d = tn) (telemetry_rows s) of
        [] \<Rightarrow> None | t # ts \<Rightarrow> Some (max_by t_time t ts)))"


subsection \<open>The trend is the best line\<close>

lemma sum_centred: "xs \<noteq> [] \<Longrightarrow> sum_list (map (\<lambda>x. x - mean xs) xs) = 0"
  by (simp add: sum_list_subtractf sum_list_triv mean_def)

definition line_error :: "(rat \<times> rat) list \<Rightarrow> rat \<Rightarrow> rat \<Rightarrow> rat" where
  "line_error ps a b = sum_list (map (\<lambda>(x, y). (y - (b + a * x)) ^ 2) ps)"

lemma sum_zero_sq:
  assumes "sum_list (map (\<lambda>p. f p ^ 2) ps) = (0 :: rat)" "p \<in> set ps"
  shows "f p = 0"
proof -
  have "sum_list (map (\<lambda>p. f p ^ 2) ps) = 0 \<longleftrightarrow> (\<forall>x\<in>set (map (\<lambda>p. f p ^ 2) ps). x = 0)"
    by (rule sum_list_nonneg_eq_0_iff) auto
  then show ?thesis using assms by auto
qed

lemma trend_best:
  assumes ne: "ps \<noteq> []" and t: "trend_of ps = (m, c)"
  shows "line_error ps m c \<le> line_error ps a b"
proof -
  let ?S = "\<lambda>f. sum_list (map f ps) :: rat"
  define xm where "xm = mean (map fst ps)"
  define ym where "ym = mean (map snd ps)"
  define num where "num = ?S (\<lambda>p. (fst p - xm) * (snd p - ym))"
  define den where "den = ?S (\<lambda>p. (fst p - xm) ^ 2)"
  have mc: "m = (if den = 0 then 0 else num / den)" "c = ym - m * xm"
    using t by (auto simp: trend_of_def Let_def xm_def ym_def num_def den_def split_def)
  have num0: "num = m * den"
  proof (cases "den = 0")
    case True
    then have z: "fst p - xm = 0" if "p \<in> set ps" for p
      using sum_zero_sq [of "\<lambda>p. fst p - xm" ps p] that by (simp add: den_def)
    have "num = ?S (\<lambda>p. 0)" unfolding num_def by (rule arg_cong [where f = sum_list], rule map_cong) (use z in auto)
    then show ?thesis using True by simp
  qed (simp add: mc)
  have sx: "?S (\<lambda>p. fst p - xm) = 0" "?S (\<lambda>p. snd p - ym) = 0"
    using sum_centred [of "map fst ps"] sum_centred [of "map snd ps"] ne by (simp_all add: xm_def ym_def comp_def)
  define e where "e = (\<lambda>p. (snd p - ym) - m * (fst p - xm))"
  define k where "k = ym - b - a * xm"
  have e0: "?S e = 0"
  proof -
    have "?S e = ?S (\<lambda>p. snd p - ym) - m * ?S (\<lambda>p. fst p - xm)"
      unfolding e_def by (simp only: sum_list_subtractf sum_list_const_mult)
    then show ?thesis by (simp only: sx)
  qed
  have e1: "?S (\<lambda>p. e p * (fst p - xm)) = 0"
  proof -
    have "?S (\<lambda>p. e p * (fst p - xm)) = ?S (\<lambda>p. (fst p - xm) * (snd p - ym) - m * (fst p - xm) ^ 2)"
      by (rule arg_cong [where f = sum_list], rule map_cong) (auto simp: e_def algebra_simps power2_eq_square)
    also have "\<dots> = num - m * den" by (simp only: sum_list_subtractf sum_list_const_mult num_def den_def)
    finally show ?thesis by (simp add: num0)
  qed
  have le: "line_error ps m c = ?S (\<lambda>p. e p ^ 2)"
    unfolding line_error_def split_def mc(2) e_def by (rule arg_cong [where f = sum_list], rule map_cong) (auto simp: algebra_simps)
  have "line_error ps a b = ?S (\<lambda>p. e p ^ 2 + (2 * k) * e p + (2 * (m - a)) * (e p * (fst p - xm)) + (k + (m - a) * (fst p - xm)) ^ 2)"
    unfolding line_error_def split_def e_def k_def
    by (rule arg_cong [where f = sum_list], rule map_cong) (auto simp: algebra_simps power2_eq_square)
  also have "\<dots> = ?S (\<lambda>p. e p ^ 2) + (2 * k) * ?S e + (2 * (m - a)) * ?S (\<lambda>p. e p * (fst p - xm)) + ?S (\<lambda>p. (k + (m - a) * (fst p - xm)) ^ 2)"
    by (simp only: sum_list_addf sum_list_const_mult)
  finally have "line_error ps a b = line_error ps m c + ?S (\<lambda>p. (k + (m - a) * (fst p - xm)) ^ 2)" by (simp add: e0 e1 le)
  moreover have "0 \<le> ?S (\<lambda>p. (k + (m - a) * (fst p - xm)) ^ 2)" by (rule sum_list_nonneg) auto
  ultimately show ?thesis by simp
qed

text \<open>
  The trend is the least-squares line. Where a column has at least two values, no other line has a
  smaller sum of squared distances from the values at their positions in the series.
\<close>

theorem trend_least_squares:
  assumes "compute_trend ys = Some (slope, icept)"
  shows "line_error (points_from 0 ys) slope icept \<le> line_error (points_from 0 ys) a b"
proof -
  have "points_from 0 ys \<noteq> []" "trend_of (points_from 0 ys) = (slope, icept)"
    using assms by (auto simp: compute_trend_def Let_def split: if_splits)
  then show ?thesis by (rule trend_best)
qed

theorem trend_least_squares_witness:
  "compute_trend [Some 1, None, Some 5, Some 6] = Some (12 / 7, 8 / 7) \<and>
     line_error (points_from 0 [Some 1, None, Some 5, Some 6]) (12 / 7) (8 / 7) \<le> line_error (points_from 0 [Some 1, None, Some 5, Some 6]) 2 1"
proof -
  have "compute_trend [Some 1, None, Some 5, Some 6] = Some (12 / 7, 8 / 7)" by code_simp
  with trend_least_squares [OF this, of 2 1] show ?thesis by simp
qed

subsection \<open>Anomalies are rare\<close>

lemma sum_filter_part:
  assumes "\<And>x. 0 \<le> f x"
  shows "sum_list (map f (filter P xs)) \<le> (sum_list (map f xs) :: rat)"
  using assms by (induction xs) (auto simp: add_increasing)

lemma far_out_few:
  assumes "2 \<le> length vs"
  shows "filter (far_out vs) vs = [] \<or> 4 * length (filter (far_out vs) vs) + 1 < length vs"
proof (cases "filter (far_out vs) vs = []")
  case False
  let ?F = "filter (far_out vs) vs"
  let ?d = "\<lambda>x. (x - mean vs) ^ 2"
  have v: "0 < variance vs" using False by (auto simp: filter_empty_conv far_out_def)
  have "of_nat (length ?F) * (4 * variance vs) < sum_list (map ?d ?F)"
    using False
  proof -
    have "sum_list (map (\<lambda>_. 4 * variance vs) ?F) < sum_list (map ?d ?F)"
      using False by (intro sum_list_strict_mono) (auto simp: far_out_def)
    then show ?thesis by (simp add: sum_list_triv)
  qed
  also have "\<dots> \<le> sum_list (map ?d vs)" by (rule sum_filter_part) simp
  also have "\<dots> = (of_nat (length vs) - 1) * variance vs" using assms by (simp add: variance_def)
  finally have "of_nat (length ?F) * 4 * variance vs < (of_nat (length vs) - 1) * variance vs" by (simp add: mult.assoc)
  then have "of_nat (length ?F) * 4 < (of_nat (length vs) - 1 :: rat)" using v by (simp add: mult_less_cancel_right)
  then have "of_nat (4 * length ?F + 1) < (of_nat (length vs) :: rat)" by simp
  then have "4 * length ?F + 1 < length vs" by (simp only: of_nat_less_iff)
  then show ?thesis by simp
qed simp

definition power_anomalies :: "anomaly list \<Rightarrow> nat" where
  "power_anomalies as = length (filter (\<lambda>a. metric_name a = ''power_kw'') as)"

lemma power_anomalies_count:
  "power_anomalies (concat (map (row_anomalies vs) series)) = length (filter (far_out vs) (series_values (map t_power_kw series)))"
  by (induction series) (auto simp: power_anomalies_def series_values_def row_anomalies_def metric_name_def split: option.split)

lemma series_values_length: "length (series_values ys) \<le> length ys"
  by (induction ys) (auto simp: series_values_def split: option.split)

text \<open>
  Power anomalies are rare by construction. However the readings look, fewer than a quarter of
  them are reported as more than two standard deviations from the mean, and a series of fewer than six
  readings has no power anomaly at all.
\<close>

theorem anomalies_rare:
  "power_anomalies (anomalies_in series) = 0 \<or> 4 * power_anomalies (anomalies_in series) + 1 < length series"
proof (cases "length (series_values (map t_power_kw series)) < 2")
  case True
  then show ?thesis by (simp add: anomalies_in_def Let_def power_anomalies_def)
next
  case False
  then show ?thesis
    using far_out_few [of "series_values (map t_power_kw series)"] series_values_length [of "map t_power_kw series"]
    by (auto simp: anomalies_in_def Let_def power_anomalies_count)
qed


subsection \<open>Overviews count every row once\<close>

lemma tally_count: "dict_get (fold (\<lambda>x d. dict_put x (Suc (dict_get d x 0)) d) xs d) x 0 = count_list xs x + dict_get d x 0"
  by (induction xs arbitrary: d) (auto simp: dict_get_put)

lemma tally_get: "dict_get (tally xs) x 0 = count_list xs x"
  using tally_count [of xs "[]" x] by (simp add: tally_def dict_get_def)

lemma dict_bump_sum: "sum_list (map snd (dict_put x (Suc (dict_get d x 0)) d)) = Suc (sum_list (map snd d))"
  by (induction d) (auto simp: dict_get_def)

lemma tally_total: "sum_list (map snd (tally xs)) = length xs"
proof -
  have "sum_list (map snd (fold (\<lambda>x d. dict_put x (Suc (dict_get d x 0)) d) xs d)) = length xs + sum_list (map snd d)" for d
    by (induction xs arbitrary: d) (simp_all add: dict_bump_sum)
  from this [of "[]"] show ?thesis by (simp add: tally_def)
qed

lemma fleet_total: "fo_total (fleet_overview s) = length (devices s)"
  by (simp add: fleet_overview_def Let_def tally_total)

text \<open>The newest telemetry row a tenant sees is one of its own devices.\<close>

lemma latest_own_tenant:
  assumes "view_latest (Some pr) s = Inr (Some t)" "p_tenant pr = Some tn"
  shows "\<exists>d\<in>set (devices s). device_id d = t_device t \<and> device_tenant d = tn"
proof -
  obtain r rs where f: "filter (\<lambda>t. \<exists>d\<in>set (devices s). device_id d = t_device t \<and> device_tenant d = tn) (telemetry_rows s) = r # rs"
    "t = max_by t_time r rs"
    using assms by (auto simp: view_latest_def bindR_eq_Inr require_role_Inr split: list.splits)
  then have "t \<in> set (r # rs)" using max_by_in [of t_time r rs] by simp
  then show ?thesis unfolding f(1) [symmetric] by simp
qed

subsection \<open>Limits of the analytics\<close>

text \<open>
  The slope is per reading, but the forecast multiplies it by hours: the spacing of the readings has no
  influence on the forecast values.
\<close>

lemma forecast_ignores_spacing:
  "forecast_metrics (map (\<lambda>r. r\<lparr>t_time := f (t_time r)\<rparr>) series) = forecast_metrics series"
  by (simp add: forecast_metrics_def forecast_metric_def forecast_keys_def comp_def)

text \<open>\<^verbatim>\<open>window_hours\<close> readings are \<open>6 * window\<close> rows, whatever time they span.\<close>

lemma window_counts_rows:
  "0 \<le> n \<Longrightarrow> telemetry_series s dev n = Inr xs \<Longrightarrow> length xs = min (nat n) (length (filter (\<lambda>t. t_device t = dev) (telemetry_rows s)))"
  by (auto simp: telemetry_series_def limited_def)

text \<open>Anomalies of an unknown device are not refused: the event of the empty result violates the foreign key.\<close>

lemma unknown_device_anomalies:
  assumes "find_device (bn_db b) d = None" "0 \<le> w" "\<forall>t\<in>set (telemetry_rows (bn_db b)). t_device t \<noteq> d"
  shows "analytics_anomalies (Some d) site w b = (Inl (DbError (Fmt ''violates foreign key constraint'' [])), b)"
proof -
  have "filter (\<lambda>t. t_device t = d) (telemetry_rows (bn_db b)) = []" using assms(3) by (simp add: filter_empty_conv)
  then have "detect_anomalies (bn_db b) d w = Inr []"
    using assms(2) by (simp add: detect_anomalies_def telemetry_series_def limited_def sort_desc_def anomalies_in_def series_values_def)
  then show ?thesis using assms(1)
    by (simp add: analytics_anomalies_def bindS_def lift_def record_analytics_event_def)
qed

text \<open>A state from the tables carries no charge, so without a cached state a low battery is never advised on.\<close>

lemma uncached_charge_ignored:
  "get_cached_state env (device_id d) p = [] \<Longrightarrow> soc_advice env d p = Inr [] \<and> low_charge env d p = Inr False"
  by (auto simp: soc_advice_def low_charge_def known_state_def Let_def state_from_db_def dict_get_def split: option.split)

end
