(* ===== verification/Base64.thy ===== *)
theory Base64
  imports Py_Numbers
begin

text \<open>
  The unpadded URL-safe base 64 of \<^verbatim>\<open>_b64u\<close> and \<^verbatim>\<open>_b64u_dec\<close> in \<^verbatim>\<open>src/fastapi/auth.py\<close>, with
  the lenient decoder of Python's \<^verbatim>\<open>base64\<close> module: characters outside the alphabet are
  skipped, and a missing digit raises. A byte string is a list of characters.
\<close>

subsection \<open>Digits\<close>

definition b64_digit :: "nat \<Rightarrow> char" where
  "b64_digit n = char_of (if n < 26 then 65 + n else if n < 52 then 71 + n else if n < 62 then n - 4
     else if n = 62 then 45 else (95 :: nat))"

definition b64_val :: "char \<Rightarrow> nat option" where
  "b64_val ch = (let n = of_char ch :: nat in
     if 65 \<le> n \<and> n \<le> 90 then Some (n - 65) else if 97 \<le> n \<and> n \<le> 122 then Some (n - 71)
     else if 48 \<le> n \<and> n \<le> 57 then Some (n + 4) else if n = 43 \<or> n = 45 then Some 62
     else if n = 47 \<or> n = 95 then Some 63 else None)"

lemma b64_val_digit [simp]: "n < 64 \<Longrightarrow> b64_val (b64_digit n) = Some n"
  by (auto simp: b64_val_def b64_digit_def Let_def)

lemma b64_digit_is_digit: "b64_val (b64_digit n) \<noteq> None"
  by (cases "n < 64") (auto simp: b64_val_def b64_digit_def Let_def)

lemma b64_digit_char: "b64_digit n \<noteq> CHR ''.''" "b64_digit n \<noteq> CHR ''$''" "b64_digit n \<noteq> CHR ''=''"
proof -
  have "b64_val (CHR ''.'') = None" "b64_val (CHR ''$'') = None" "b64_val (CHR ''='') = None"
    by (simp_all add: b64_val_def)
  then show "b64_digit n \<noteq> CHR ''.''" "b64_digit n \<noteq> CHR ''$''" "b64_digit n \<noteq> CHR ''=''"
    using b64_digit_is_digit [of n] by metis+
qed

lemma b64_digit_ascii [simp]: "(of_char (b64_digit n) :: nat) < 128"
  by (cases "n < 62") (auto simp: b64_digit_def)

lemmas b64_digit_apart [simp] = b64_digit_char b64_digit_char [THEN not_sym]

subsection \<open>Encoding\<close>

fun b64u :: "string \<Rightarrow> string" where
  "b64u [] = []"
| "b64u [a] = (let x = of_char a :: nat in [b64_digit (x div 4), b64_digit (x mod 4 * 16)])"
| "b64u [a, b] = (let x = of_char a :: nat; y = of_char b in
     [b64_digit (x div 4), b64_digit (x mod 4 * 16 + y div 16), b64_digit (y mod 16 * 4)])"
| "b64u (a # b # c # s) = (let x = of_char a :: nat; y = of_char b; z = of_char c in
     [b64_digit (x div 4), b64_digit (x mod 4 * 16 + y div 16), b64_digit (y mod 16 * 4 + z div 64), b64_digit (z mod 64)]
     @ b64u s)"

subsection \<open>Decoding\<close>

text \<open>
  The scan keeps the position within the group of four digits, the bits left over, and the
  number of padding characters seen since the last digit.
\<close>

fun b64_scan :: "nat \<Rightarrow> nat \<Rightarrow> nat \<Rightarrow> string \<Rightarrow> string option" where
  "b64_scan q l p [] = (if q = 0 then Some [] else None)"
| "b64_scan q l p (ch # s) =
     (if ch = CHR ''='' then
        (if 2 \<le> q then if 4 \<le> q + p + 1 then Some [] else b64_scan q l (p + 1) s else b64_scan q l p s)
      else case b64_val ch of
        None \<Rightarrow> b64_scan q l p s
      | Some v \<Rightarrow>
          if q = 0 then b64_scan 1 v 0 s
          else if q = 1 then map_option ((#) (char_of (l * 4 + v div 16))) (b64_scan 2 (v mod 16) 0 s)
          else if q = 2 then map_option ((#) (char_of (l * 16 + v div 4))) (b64_scan 3 (v mod 4) 0 s)
          else map_option ((#) (char_of (l * 64 + v))) (b64_scan 0 0 0 s))"

definition b64u_dec :: "string \<Rightarrow> string option" where
  "b64u_dec s = (if list_ex (\<lambda>ch. 128 \<le> (of_char ch :: nat)) s then None
     else b64_scan 0 0 0 (s @ replicate ((4 - length s mod 4) mod 4) (CHR ''='')))"

subsection \<open>Round trip\<close>

lemma b64u_chars:
  "CHR ''.'' \<notin> set (b64u s)" "CHR ''$'' \<notin> set (b64u s)" "\<not> list_ex (\<lambda>ch. 128 \<le> (of_char ch :: nat)) (b64u s)"
  by (induction s rule: b64u.induct) (auto simp: Let_def not_le)

lemma scan_digits:
  assumes "a < 64" "b < 64" "c < 64" "d < 64"
  shows "b64_scan 0 l p (b64_digit a # b64_digit b # b64_digit c # b64_digit d # s)
    = map_option (\<lambda>r. char_of (a * 4 + b div 16) # char_of (b mod 16 * 16 + c div 4) # char_of (c mod 4 * 64 + d) # r)
        (b64_scan 0 0 0 s)"
  using assms b64_digit_char by (cases "b64_scan 0 0 0 s") simp_all

lemma b64u_length: "length (b64u s) mod 4 = (if length s mod 3 = 0 then 0 else length s mod 3 + 1)"
proof (induction s rule: b64u.induct)
  case (4 a b c s)
  have "length (b64u (a # b # c # s)) mod 4 = length (b64u s) mod 4" by (simp add: Let_def)
  moreover have "length (a # b # c # s) mod 3 = length s mod 3" by simp
  ultimately show ?case using 4 by simp
qed (simp_all add: Let_def)

lemma regroup:
  fixes x y z :: nat
  assumes "x < 256" "y < 256" "z < 256"
  shows "x div 4 * 4 + (x mod 4 * 16 + y div 16) div 16 = x"
    "(x mod 4 * 16 + y div 16) mod 16 * 16 + (y mod 16 * 4 + z div 64) div 4 = y"
    "(y mod 16 * 4 + z div 64) mod 4 * 64 + z mod 64 = z"
    "x div 4 < 64" "x mod 4 * 16 + y div 16 < 64" "y mod 16 * 4 + z div 64 < 64" "z mod 64 < 64"
proof -
  have small: "y div 16 < 16" "z div 64 < 4" "x mod 4 < 4" "y mod 16 < 16" "x div 4 < 64" "z mod 64 < 64"
    using assms by (auto simp: less_mult_imp_div_less)
  have hi: "(x mod 4 * 16 + y div 16) div 16 = x mod 4" "(y mod 16 * 4 + z div 64) div 4 = y mod 16"
    using small(1,2) by simp_all
  have lo: "(x mod 4 * 16 + y div 16) mod 16 = y div 16" "(y mod 16 * 4 + z div 64) mod 4 = z div 64"
    using small(1,2) by simp_all
  show "x div 4 * 4 + (x mod 4 * 16 + y div 16) div 16 = x"
    "(x mod 4 * 16 + y div 16) mod 16 * 16 + (y mod 16 * 4 + z div 64) div 4 = y"
    "(y mod 16 * 4 + z div 64) mod 4 * 64 + z mod 64 = z"
    unfolding hi lo by simp_all
  show "x div 4 < 64" "x mod 4 * 16 + y div 16 < 64" "y mod 16 * 4 + z div 64 < 64" "z mod 64 < 64"
    using small by linarith+
qed

lemma of_char_nat: "(of_char c :: nat) < 256"
  by (metis of_char_mod_256 mod_less_divisor zero_less_numeral)

lemma b64_scan_encode:
  "b64_scan 0 0 0 (b64u s @ replicate ((4 - length (b64u s) mod 4) mod 4) (CHR ''='')) = Some s"
proof (induction s rule: b64u.induct)
  case 1
  show ?case by simp
next
  case (2 a)
  have v: "(of_char a :: nat) div 4 < 64" "(of_char a :: nat) mod 4 * 16 < 64" using of_char_nat [of a] by presburger+
  have "char_of ((of_char a :: nat) div 4 * 4 + (of_char a mod 4 * 16) div 16) = a"
    using regroup(1) [of "of_char a" 0 0] of_char_nat [of a] by simp
  with v b64_digit_char show ?case by (simp add: Let_def numeral_2_eq_2)
next
  case (3 a b)
  let ?x = "of_char a :: nat" and ?y = "of_char b :: nat"
  note r = regroup [of ?x ?y 0, OF of_char_nat of_char_nat]
  have e: "char_of (?x div 4 * 4 + (?x mod 4 * 16 + ?y div 16) div 16) = a"
    "char_of ((?x mod 4 * 16 + ?y div 16) mod 16 * 16 + (?y mod 16 * 4) div 4) = b" using r(1,2) by simp_all
  have v: "?x div 4 < 64" "?x mod 4 * 16 + ?y div 16 < 64" "?y mod 16 * 4 < 64" using r(4-6) by simp_all
  from e v b64_digit_char show ?case by (simp add: Let_def)
next
  case (4 a b c s)
  let ?x = "of_char a :: nat" and ?y = "of_char b :: nat" and ?z = "of_char c :: nat"
  note r = regroup [of ?x ?y ?z, OF of_char_nat of_char_nat of_char_nat]
  have "length (b64u (a # b # c # s)) mod 4 = length (b64u s) mod 4" by (simp add: Let_def)
  then show ?case using 4 scan_digits [OF r(4-7)] r(1-3) by (simp add: Let_def)
qed

lemma b64u_roundtrip [simp]: "b64u_dec (b64u s) = Some s"
  using b64u_chars(3) [of s] b64_scan_encode [of s] by (simp add: b64u_dec_def)

lemma b64u_inj: "b64u s = b64u t \<Longrightarrow> s = t"
  by (metis b64u_roundtrip option.inject)

end
