(* ===== verification/Tokens.thy ===== *)
theory Tokens
  imports Auth Base64
begin

text \<open>
  Authentication (\<^verbatim>\<open>src/fastapi/auth.py\<close> and the \<^verbatim>\<open>/auth\<close> endpoints of
  \<^verbatim>\<open>src/fastapi/app.py\<close>): password hashes, signed tokens, their revocation in Redis, the user
  table, the principal a request carries, rate limits. The keyed hash, the key derivation, the
  JSON text codec and the random bytes are parameters; what the code does with them is not.
\<close>

subsection \<open>Environment and state\<close>

record auth_env =
  ae_mac :: "string \<Rightarrow> string"
  ae_kdf :: "string \<Rightarrow> string \<Rightarrow> int \<Rightarrow> string"
  ae_dumps :: "pyval \<Rightarrow> string"
  ae_loads :: "string \<Rightarrow> pyval option"
  ae_salt :: "nat \<Rightarrow> string"
  ae_jti :: "nat \<Rightarrow> string"
  ae_repr :: "pyval \<Rightarrow> string"
  ae_api_keys :: "(string \<times> string \<times> string) list"
  ae_bootstrap :: "(string \<times> string \<times> string \<times> string option) list"
  ae_enforced :: bool

record portal_user =
  pu_name :: string
  pu_hash :: string
  pu_role :: string
  pu_tenant :: "string option"
  pu_version :: nat
  pu_must_change :: bool

text \<open>
  The user table, the Redis keys with their expiry, whether Redis answers, the clock, and a counter
  that numbers the draws of random values. \<open>as_audit\<close> is the audit table: who, action, resource, result.
\<close>

record auth_state =
  as_time :: rat
  as_fresh :: nat
  as_users :: "portal_user list"
  as_redis_up :: bool
  as_redis :: "string \<Rightarrow> (string \<times> rat option) option"
  as_audit :: "(string \<times> string \<times> string \<times> string) list"

type_synonym 'a auth_run = "(auth_state, 'a) action"

definition JWT_TTL :: int where "JWT_TTL = 3600"
definition REFRESH_TTL :: int where "REFRESH_TTL = 30 * 24 * 3600"
definition RESET_TTL :: int where "RESET_TTL = 900"

lemmas ttl_defs = JWT_TTL_def REFRESH_TTL_def RESET_TTL_def

subsection \<open>Redis\<close>

definition redis_get :: "string \<Rightarrow> auth_state \<Rightarrow> string option" where
  "redis_get k s = (case as_redis s k of
       Some (v, None) \<Rightarrow> Some v
     | Some (v, Some t) \<Rightarrow> if as_time s < t then Some v else None
     | None \<Rightarrow> None)"

definition redis_put :: "string \<Rightarrow> string \<Rightarrow> rat option \<Rightarrow> auth_state \<Rightarrow> auth_state" where
  "redis_put k v t s = (if as_redis_up s then s\<lparr>as_redis := (as_redis s)(k \<mapsto> (v, t))\<rparr> else s)"

text \<open>\<^verbatim>\<open>str(v)\<close> inside a key.\<close>

definition py_str :: "auth_env \<Rightarrow> pyval \<Rightarrow> string" where
  "py_str env v = (case v of PStr s \<Rightarrow> s | PNone \<Rightarrow> ''None'' | PBool b \<Rightarrow> (if b then ''True'' else ''False'')
     | PInt i \<Rightarrow> (if i < 0 then ''-'' else []) @ num_text (nat \<bar>i\<bar>) | w \<Rightarrow> ae_repr env w)"

definition version_key :: "string \<Rightarrow> string" where
  "version_key u = ''tokenversion:'' @ u"

definition revoked_key :: "string \<Rightarrow> string" where
  "revoked_key j = ''revoked:'' @ j"

subsection \<open>Password hashes\<close>

definition PBKDF2_ITERATIONS :: int where "PBKDF2_ITERATIONS = 200000"

definition hash_password :: "auth_env \<Rightarrow> string \<Rightarrow> string auth_run" where
  "hash_password env pw s = (let salt = ae_salt env (as_fresh s) in
     (Inr (''pbkdf2_sha256$200000$'' @ b64u salt @ ''$'' @ b64u (ae_kdf env pw salt PBKDF2_ITERATIONS)),
      s\<lparr>as_fresh := as_fresh s + 1\<rparr>))"

definition verify_password :: "auth_env \<Rightarrow> string \<Rightarrow> string \<Rightarrow> bool" where
  "verify_password env pw stored = (case split_on (CHR ''$'') stored of
       [scheme, iterations, salt_b64, digest_b64] \<Rightarrow> scheme = ''pbkdf2_sha256'' \<and>
         (case (b64u_dec salt_b64, b64u_dec digest_b64, int_of_string iterations) of
            (Some salt, Some expected, Inr n) \<Rightarrow> 1 \<le> n \<and> ae_kdf env pw salt n = expected | _ \<Rightarrow> False)
     | _ \<Rightarrow> False)"

subsection \<open>Tokens\<close>

definition claims :: "pyval \<Rightarrow> pyval \<Rightarrow> string \<Rightarrow> pyval \<Rightarrow> pyval \<Rightarrow> string \<Rightarrow> int \<Rightarrow> int \<Rightarrow> (string \<times> pyval) list" where
  "claims sub role use tenant tv jti iat ttl = [(''sub'', sub), (''role'', role), (''tenant'', tenant), (''use'', PStr use),
     (''tv'', tv), (''jti'', PStr jti), (''iat'', PInt iat), (''exp'', PInt (iat + ttl))]"

definition signed :: "auth_env \<Rightarrow> (string \<times> pyval) list \<Rightarrow> string" where
  "signed env cl = (let header = b64u (ae_dumps env (PDict [(''alg'', PStr ''HS256''), (''typ'', PStr ''JWT'')]));
     input = header @ ''.'' @ b64u (ae_dumps env (PDict cl)) in input @ ''.'' @ b64u (ae_mac env input))"

definition issue_jwt :: "auth_env \<Rightarrow> pyval \<Rightarrow> pyval \<Rightarrow> int \<Rightarrow> string \<Rightarrow> pyval \<Rightarrow> pyval \<Rightarrow> string auth_run" where
  "issue_jwt env sub role ttl use tenant tv s =
     (Inr (signed env (claims sub role use tenant tv (ae_jti env (as_fresh s)) \<lfloor>as_time s\<rfloor> ttl)), s\<lparr>as_fresh := as_fresh s + 1\<rparr>)"

definition issue_refresh :: "auth_env \<Rightarrow> pyval \<Rightarrow> pyval \<Rightarrow> pyval \<Rightarrow> pyval \<Rightarrow> string auth_run" where
  "issue_refresh env sub role tenant tv = issue_jwt env sub role REFRESH_TTL ''refresh'' tenant tv"

text \<open>A claim as a number, for the comparison with the clock.\<close>

definition number :: "pyval \<Rightarrow> pyfloat option" where
  "number v = (case v of PInt i \<Rightarrow> Some (Fin (of_int i)) | PFloat x \<Rightarrow> Some x | PBool b \<Rightarrow> Some (Fin (of_bool b)) | _ \<Rightarrow> None)"

text \<open>What is left of a token whose signature holds: the claims, or nothing if anything raises.\<close>

definition token_claims :: "auth_env \<Rightarrow> string \<Rightarrow> (string \<times> pyval) list option" where
  "token_claims env token = (case split_on (CHR ''.'') token of
       [header, payload, sig] \<Rightarrow>
         if b64u (ae_mac env (header @ ''.'' @ payload)) \<noteq> sig then None
         else (case b64u_dec payload of None \<Rightarrow> None | Some text \<Rightarrow>
           (case ae_loads env text of Some (PDict cl) \<Rightarrow> Some cl | _ \<Rightarrow> None))
     | _ \<Rightarrow> None)"

text \<open>The checks against Redis; an unreachable Redis passes them.\<close>

definition not_revoked :: "auth_env \<Rightarrow> (string \<times> pyval) list \<Rightarrow> auth_state \<Rightarrow> bool" where
  "not_revoked env cl s = (let jti = dict_get cl ''jti'' PNone in
     as_redis_up s \<and> truthy jti \<longrightarrow> redis_get (revoked_key (py_str env jti)) s = None)"

definition version_current :: "auth_env \<Rightarrow> (string \<times> pyval) list \<Rightarrow> auth_state \<Rightarrow> bool" where
  "version_current env cl s = (as_redis_up s \<longrightarrow>
     (case redis_get (version_key (py_str env (dict_get cl ''sub'' PNone))) s of
        None \<Rightarrow> True
      | Some txt \<Rightarrow> (case int_of_string txt of
            Inr current \<Rightarrow> number (dict_get cl ''tv'' (PInt 0)) = Some (Fin (of_int current)) | Inl _ \<Rightarrow> False)))"

definition verify_jwt :: "auth_env \<Rightarrow> string \<Rightarrow> string option \<Rightarrow> auth_state \<Rightarrow> (string \<times> pyval) list option" where
  "verify_jwt env token expected s = (case token_claims env token of None \<Rightarrow> None | Some cl \<Rightarrow>
     (case number (dict_get cl ''exp'' (PInt 0)) of None \<Rightarrow> None | Some till \<Rightarrow>
        if fl_less till (Fin (as_time s)) then None
        else if (case expected of None \<Rightarrow> False | Some use \<Rightarrow> dict_get cl ''use'' PNone \<noteq> PStr use) then None
        else if \<not> not_revoked env cl s \<or> \<not> version_current env cl s then None else Some cl))"

definition revoke_token :: "auth_env \<Rightarrow> string \<Rightarrow> bool auth_run" where
  "revoke_token env token s = (case verify_jwt env token None s of
       None \<Rightarrow> (Inr False, s)
     | Some cl \<Rightarrow> (case number (dict_get cl ''exp'' (PInt 0)) of
           Some (Fin till) \<Rightarrow>
             (let remaining = max (trunc (till - as_time s)) 1
              in (Inr (as_redis_up s), redis_put (revoked_key (py_str env (dict_get cl ''jti'' PNone))) ''1''
                    (Some (as_time s + of_int remaining)) s))
         | Some PosInf \<Rightarrow> (Inl (OverflowErr (Fmt ''cannot convert float infinity to integer'' [])), s)
         | _ \<Rightarrow> (Inl (ValueError (Fmt ''cannot convert float NaN to integer'' [])), s)))"

subsection \<open>The user table\<close>

definition user_row :: "string \<Rightarrow> auth_state \<Rightarrow> portal_user option" where
  "user_row u s = find (\<lambda>r. pu_name r = u) (as_users s)"

definition insert_user :: "auth_env \<Rightarrow> string \<Rightarrow> string \<Rightarrow> string \<Rightarrow> string option \<Rightarrow> unit auth_run" where
  "insert_user env u pw role tenant = bindS (hash_password env pw) (\<lambda>h. modify (\<lambda>s. s\<lparr>as_users := as_users s @
     [\<lparr>pu_name = u, pu_hash = h, pu_role = role, pu_tenant = tenant, pu_version = 0, pu_must_change = False\<rparr>]\<rparr>))"

text \<open>\<^verbatim>\<open>_ensure_users_seeded\<close>: an empty table gets the bootstrap users.\<close>

primrec seed_users :: "auth_env \<Rightarrow> (string \<times> string \<times> string \<times> string option) list \<Rightarrow> unit auth_run" where
  "seed_users env [] = ret ()"
| "seed_users env (x # xs) = (case x of (u, pw, role, tenant) \<Rightarrow>
     bindS (\<lambda>s. if user_row u s = None then insert_user env u pw role tenant s else (Inr (), snd (hash_password env pw s)))
       (\<lambda>_. seed_users env xs))"

definition ensure_users_seeded :: "auth_env \<Rightarrow> unit auth_run" where
  "ensure_users_seeded env s = (if as_users s = [] then seed_users env (ae_bootstrap env) s else (Inr (), s))"

definition authenticate_user :: "auth_env \<Rightarrow> string \<Rightarrow> string \<Rightarrow> portal_user option auth_run" where
  "authenticate_user env u pw = bindS (ensure_users_seeded env) (\<lambda>_ s. (Inr (case user_row u s of
       Some r \<Rightarrow> if verify_password env pw (pu_hash r) then Some r else None | None \<Rightarrow> None), s))"

definition portal_roles :: "string list" where
  "portal_roles = [''viewer'', ''operator'', ''engineer'', ''admin'']"

definition new_user :: "auth_env \<Rightarrow> string \<Rightarrow> string \<Rightarrow> string \<Rightarrow> string option \<Rightarrow> unit auth_run" where
  "new_user env u pw role tenant = (if role \<notin> set portal_roles then fail (ValueError (Fmt ''invalid role {}'' [role]))
     else if (case tenant of Some t \<Rightarrow> 100 < length t | None \<Rightarrow> False) then fail (OverflowErr (Fmt ''value too long'' []))
     else bindS (ensure_users_seeded env) (\<lambda>_ s.
       if user_row u s \<noteq> None then (Inl (DbError (Fmt ''duplicate key'' [])), snd (hash_password env pw s))
       else insert_user env u pw role tenant s))"

definition delete_user :: "string \<Rightarrow> unit auth_run" where
  "delete_user u s = (case user_row u s of
       None \<Rightarrow> (Inl (HTTPException 404 (Fmt ''unknown user {}'' [u])), s)
     | Some r \<Rightarrow>
         if pu_role r = ''admin'' \<and> length (filter (\<lambda>x. pu_role x = ''admin'') (as_users s)) \<le> 1
         then (Inl (HTTPException 409 (Fmt ''cannot remove the last remaining admin'' [])), s)
         else (Inr (), s\<lparr>as_users := filter (\<lambda>x. pu_name x \<noteq> u) (as_users s)\<rparr>))"

subsection \<open>Password reset\<close>

definition opt_str :: "string option \<Rightarrow> pyval" where
  "opt_str x = (case x of None \<Rightarrow> PNone | Some s \<Rightarrow> PStr s)"

definition request_password_reset :: "auth_env \<Rightarrow> string \<Rightarrow> string option auth_run" where
  "request_password_reset env u = bindS (ensure_users_seeded env) (\<lambda>_ s. case user_row u s of
       None \<Rightarrow> (Inr None, s)
     | Some r \<Rightarrow> bindS (issue_jwt env (PStr u) (PStr (pu_role r)) RESET_TTL ''pwreset'' (opt_str (pu_tenant r)) (PInt (int (pu_version r))))
         (\<lambda>t. ret (Some t)) s)"

definition set_password :: "string \<Rightarrow> string \<Rightarrow> portal_user \<Rightarrow> portal_user" where
  "set_password u h r = (if pu_name r = u
     then r\<lparr>pu_hash := h, pu_version := pu_version r + 1, pu_must_change := False\<rparr> else r)"

definition bump_token_version :: "string \<Rightarrow> nat \<Rightarrow> unit auth_run" where
  "bump_token_version u v = modify (redis_put (version_key u) (num_text v) None)"

definition confirm_password_reset :: "auth_env \<Rightarrow> string \<Rightarrow> string \<Rightarrow> bool auth_run" where
  "confirm_password_reset env token pw s = (case verify_jwt env token (Some ''pwreset'') s of
       None \<Rightarrow> (Inr False, s)
     | Some cl \<Rightarrow> (case map_of cl ''sub'' of
           None \<Rightarrow> (Inl (KeyErr ''sub''), s)
         | Some (PStr u) \<Rightarrow> bindS (hash_password env pw) (\<lambda>h s.
             let s1 = s\<lparr>as_users := map (set_password u h) (as_users s)\<rparr> in
             case user_row u s1 of
               None \<Rightarrow> (Inr False, s1)
             | Some r \<Rightarrow> bindS (bump_token_version u (pu_version r)) (\<lambda>_. ret True) s1) s
         | Some PNone \<Rightarrow> (Inr False, snd (hash_password env pw s))
         | Some _ \<Rightarrow> (Inl (DbError (Fmt ''operator does not exist'' [])), snd (hash_password env pw s))))"

subsection \<open>The principal of a request\<close>

record request =
  rq_authorization :: string
  rq_api_key :: "string option"
  rq_host :: "string option"

record login_principal = principal +
  lp_kind :: string
  lp_token :: "string option"

definition role_of :: "pyval \<Rightarrow> role" where
  "role_of v = (case v of PStr s \<Rightarrow>
       if s = ''viewer'' then Viewer else if s = ''operator'' then Operator else if s = ''engineer'' then Engineer
       else if s = ''admin'' then Admin else if s = ''service'' then Service else OtherRole s
     | _ \<Rightarrow> OtherRole [])"

definition bearer_token :: "request \<Rightarrow> string option" where
  "bearer_token rq = (if take 7 (to_lower (rq_authorization rq)) = ''bearer ''
     then Some (strip (drop 7 (rq_authorization rq))) else None)"

definition tenant_of :: "pyval \<Rightarrow> string option" where
  "tenant_of v = (case v of PStr s \<Rightarrow> Some s | _ \<Rightarrow> None)"

definition principal_from_request :: "auth_env \<Rightarrow> request \<Rightarrow> auth_state \<Rightarrow> login_principal option result" where
  "principal_from_request env rq s =
     (let keys = ae_api_keys env; token = bearer_token rq;
          api_key = (if rq_api_key rq \<noteq> None \<and> rq_api_key rq \<noteq> Some [] then rq_api_key rq
            else (case token of Some t \<Rightarrow> if t \<in> fst ` set keys then Some t else None | None \<Rightarrow> None)) in
      case (case api_key of Some k \<Rightarrow> map_of keys k | None \<Rightarrow> None) of
        Some (name, role) \<Rightarrow> Inr (Some \<lparr>p_name = name, p_role = role_of (PStr role), p_tenant = None,
            lp_kind = ''apikey'', lp_token = None\<rparr>)
      | None \<Rightarrow> (case token of None \<Rightarrow> Inr None | Some t \<Rightarrow>
          if t = [] then Inr None else
          (case verify_jwt env t None s of None \<Rightarrow> Inr None | Some cl \<Rightarrow>
             if cl = [] \<or> dict_get cl ''use'' (PStr ''access'') \<noteq> PStr ''access'' then Inr None
             else (case (map_of cl ''sub'', map_of cl ''role'') of
                 (Some sub, Some role) \<Rightarrow> Inr (Some \<lparr>p_name = py_str env sub, p_role = role_of role,
                    p_tenant = tenant_of (dict_get cl ''tenant'' PNone), lp_kind = ''jwt'', lp_token = Some t\<rparr>)
               | (None, _) \<Rightarrow> Inl (KeyErr ''sub'')
               | (_, None) \<Rightarrow> Inl (KeyErr ''role'')))))"

definition auth_disabled :: login_principal where
  "auth_disabled = \<lparr>p_name = ''auth-disabled'', p_role = Admin, p_tenant = None, lp_kind = ''disabled'', lp_token = None\<rparr>"

text \<open>The dependency \<^verbatim>\<open>require_role\<close> on a request: it agrees with the guard on the principal.\<close>

definition authorize :: "auth_env \<Rightarrow> role list \<Rightarrow> request \<Rightarrow> login_principal auth_run" where
  "authorize env allowed rq s = (if \<not> ae_enforced env then (Inr auth_disabled, s)
     else (bindR (principal_from_request env rq s) (\<lambda>po. case po of
         None \<Rightarrow> Inl (HTTPException 401 (Fmt ''authentication required'' []))
       | Some p \<Rightarrow> if role_allowed (p_role p) allowed then Inr p
                  else Inl (HTTPException 403 (Fmt ''role not permitted'' []))), s))"

definition rate_key :: "string \<Rightarrow> string \<Rightarrow> int \<Rightarrow> string" where
  "rate_key bucket ident slot = ''ratelimit:'' @ bucket @ '':'' @ ident @ '':'' @ num_text (nat slot)"

definition rate_limit :: "auth_env \<Rightarrow> string \<Rightarrow> int \<Rightarrow> int \<Rightarrow> request \<Rightarrow> unit auth_run" where
  "rate_limit env bucket limit window rq s = bindS (lift (principal_from_request env rq)) (\<lambda>po s.
     let ident = (case po of Some p \<Rightarrow> p_name p | None \<Rightarrow> (case rq_host rq of Some h \<Rightarrow> h | None \<Rightarrow> ''anon''));
         key = rate_key bucket ident \<lfloor>as_time s / of_int window\<rfloor> in
     if \<not> as_redis_up s then (Inr (), s)
     else let n = (case redis_get key s of Some v \<Rightarrow> (case int_of_string v of Inr i \<Rightarrow> i | Inl _ \<Rightarrow> 0) | None \<Rightarrow> 0) + 1;
              till = (if n = 1 then Some (as_time s + of_int window) else (case as_redis s key of Some (_, t) \<Rightarrow> t | None \<Rightarrow> None));
              s1 = redis_put key (num_text (nat n)) till s
          in if limit < n then (Inl (HTTPException 429 (Fmt ''rate limit exceeded'' [])), s1) else (Inr (), s1)) s"

subsection \<open>Endpoints\<close>

definition note_audit :: "string \<Rightarrow> string \<Rightarrow> string \<Rightarrow> string \<Rightarrow> unit auth_run" where
  "note_audit who action resource res = modify (\<lambda>s. s\<lparr>as_audit := as_audit s @ [(who, action, resource, res)]\<rparr>)"

record session =
  se_access :: string
  se_refresh :: string
  se_role :: string
  se_tenant :: "string option"

definition login :: "auth_env \<Rightarrow> string \<Rightarrow> string \<Rightarrow> session auth_run" where
  "login env u pw = bindS (authenticate_user env u pw) (\<lambda>res. case res of
       None \<Rightarrow> bindS (note_audit ''anonymous'' ''login'' u ''denied'') (\<lambda>_. fail (HTTPException 401 (Fmt ''invalid credentials'' [])))
     | Some r \<Rightarrow> bindS (note_audit u ''login'' u ''ok'') (\<lambda>_.
         let role = PStr (pu_role r); tenant = opt_str (pu_tenant r); tv = PInt (int (pu_version r)) in
         bindS (issue_jwt env (PStr u) role JWT_TTL ''access'' tenant tv) (\<lambda>a.
         bindS (issue_refresh env (PStr u) role tenant tv) (\<lambda>rt.
           ret \<lparr>se_access = a, se_refresh = rt, se_role = pu_role r, se_tenant = pu_tenant r\<rparr>))))"

definition refresh_token :: "auth_env \<Rightarrow> string \<Rightarrow> string auth_run" where
  "refresh_token env token s = (case verify_jwt env token (Some ''refresh'') s of
       None \<Rightarrow> (Inl (HTTPException 401 (Fmt ''invalid or expired refresh token'' [])), s)
     | Some cl \<Rightarrow> if cl = [] then (Inl (HTTPException 401 (Fmt ''invalid or expired refresh token'' [])), s) else
         (case (map_of cl ''sub'', map_of cl ''role'') of
            (Some sub, Some role) \<Rightarrow> issue_jwt env sub role JWT_TTL ''access'' (dict_get cl ''tenant'' PNone) (dict_get cl ''tv'' (PInt 0)) s
          | (None, _) \<Rightarrow> (Inl (KeyErr ''sub''), s)
          | (_, None) \<Rightarrow> (Inl (KeyErr ''role''), s)))"

definition every_role :: "role list" where
  "every_role = [Viewer, Operator, Engineer, Admin, Service]"

definition whoami :: "auth_env \<Rightarrow> request \<Rightarrow> (string \<times> role \<times> string) auth_run" where
  "whoami env rq = bindS (authorize env every_role rq) (\<lambda>p. ret (p_name p, p_role p, lp_kind p))"

definition logout :: "auth_env \<Rightarrow> request \<Rightarrow> bool auth_run" where
  "logout env rq = bindS (authorize env every_role rq) (\<lambda>p.
     bindS (case (lp_kind p = ''jwt'', lp_token p) of
         (True, Some t) \<Rightarrow> if t \<noteq> [] then revoke_token env t else ret False | _ \<Rightarrow> ret False) (\<lambda>revoked.
     bindS (note_audit (p_name p) ''logout'' (p_name p) (if revoked then ''ok'' else ''noop'')) (\<lambda>_. ret revoked)))"

definition password_reset_request :: "auth_env \<Rightarrow> string \<Rightarrow> request \<Rightarrow> string option auth_run" where
  "password_reset_request env u rq = bindS (rate_limit env ''password-reset'' 5 300 rq) (\<lambda>_.
     bindS (request_password_reset env u) (\<lambda>t.
     bindS (note_audit ''anonymous'' ''password_reset_requested'' u (if t = None then ''unknown_user'' else ''ok'')) (\<lambda>_. ret t)))"

definition unprocessable :: "'a auth_run" where
  "unprocessable = fail (HTTPException 422 (Fmt ''validation error'' []))"

definition password_reset_confirm :: "auth_env \<Rightarrow> string \<Rightarrow> string \<Rightarrow> unit auth_run" where
  "password_reset_confirm env token pw = (if length pw < 12 then unprocessable else
     bindS (confirm_password_reset env token pw) (\<lambda>ok.
     bindS (note_audit ''anonymous'' ''password_reset_completed'' ''(token)'' (if ok then ''ok'' else ''invalid_token'')) (\<lambda>_.
       if ok then ret () else fail (HTTPException 400 (Fmt ''invalid or expired reset token'' [])))))"

definition create_user :: "auth_env \<Rightarrow> string \<Rightarrow> string \<Rightarrow> string \<Rightarrow> string option \<Rightarrow> request \<Rightarrow> unit auth_run" where
  "create_user env u pw role tenant rq = bindS (authorize env [Admin] rq) (\<lambda>p.
     if length u < 3 \<or> 100 < length u \<or> length pw < 12 then unprocessable
     else bindS (\<lambda>s. case new_user env u pw role tenant s of
         (Inl (ValueError m), s') \<Rightarrow> (Inl (HTTPException 422 m), s')
       | (Inl (DbError _), s') \<Rightarrow> (Inl (HTTPException 409 (Fmt ''user {} already exists'' [u])), s')
       | x \<Rightarrow> x) (\<lambda>_. note_audit (p_name p) ''create_user'' u ''ok''))"

definition get_users :: "auth_env \<Rightarrow> request \<Rightarrow> portal_user list auth_run" where
  "get_users env rq = bindS (authorize env [Admin] rq) (\<lambda>_. bindS (ensure_users_seeded env) (\<lambda>_ s.
     (Inr (sort_key pu_name (as_users s)), s)))"

definition remove_user :: "auth_env \<Rightarrow> string \<Rightarrow> request \<Rightarrow> unit auth_run" where
  "remove_user env u rq = bindS (authorize env [Admin] rq) (\<lambda>p. bindS (delete_user u) (\<lambda>_.
     note_audit (p_name p) ''delete_user'' u ''ok''))"

end
