(* ===== verification/Auth_Requests.thy ===== *)
theory Auth_Requests
  imports Tokens
begin

text \<open>
  Runs of the authentication: every request with any credentials and any presented token, the
  passing of time, Redis failing and recovering. A relation between states that the primitive
  writes respect is respected by every request; this is proved once, for any such relation.
\<close>

subsection \<open>Requests in any order\<close>

text \<open>
  Everything that can happen: a request with any credentials and any presented token, time that
  passes, Redis going down and coming back.
\<close>

datatype auth_event =
    Login string string
  | Refresh string
  | WhoAmI request
  | Logout request
  | ResetRequest string request
  | ResetConfirm string string
  | CreateUser string string string "string option" request
  | ListUsers request
  | RemoveUser string request
  | Passes nat
  | Redis bool

definition auth_step :: "auth_env \<Rightarrow> auth_event \<Rightarrow> auth_state \<Rightarrow> auth_state" where
  "auth_step env ev s = (case ev of
       Login u pw \<Rightarrow> snd (login env u pw s)
     | Refresh tok \<Rightarrow> snd (refresh_token env tok s)
     | WhoAmI rq \<Rightarrow> snd (whoami env rq s)
     | Logout rq \<Rightarrow> snd (logout env rq s)
     | ResetRequest u rq \<Rightarrow> snd (password_reset_request env u rq s)
     | ResetConfirm tok pw \<Rightarrow> snd (password_reset_confirm env tok pw s)
     | CreateUser u pw role tenant rq \<Rightarrow> snd (create_user env u pw role tenant rq s)
     | ListUsers rq \<Rightarrow> snd (get_users env rq s)
     | RemoveUser u rq \<Rightarrow> snd (remove_user env u rq s)
     | Passes n \<Rightarrow> s\<lparr>as_time := as_time s + of_nat n\<rparr>
     | Redis up \<Rightarrow> s\<lparr>as_redis_up := up\<rparr>)"

definition auth_steps :: "auth_env \<Rightarrow> auth_event list \<Rightarrow> auth_state \<Rightarrow> auth_state" where
  "auth_steps env evs s = fold (auth_step env) evs s"

fun removes :: "string \<Rightarrow> auth_event \<Rightarrow> bool" where
  "removes u (RemoveUser u' rq) = (u = u')"
| "removes u _ = False"

subsection \<open>Relations every request respects\<close>

text \<open>
  The primitive writes: nothing but clock, counters and audit; a Redis key that is no version
  key; a row added under a free name; the bootstrap; a password set; its version cached; a row deleted.
\<close>

locale auth_relation =
  fixes R :: "auth_state \<Rightarrow> auth_state \<Rightarrow> bool" and removable :: "string \<Rightarrow> bool"
  assumes trans: "R s s' \<Longrightarrow> R s' s'' \<Longrightarrow> R s s''"
    and quiet: "as_users s' = as_users s \<Longrightarrow> as_redis s' = as_redis s \<Longrightarrow> R s s'"
    and other_key: "k \<notin> range version_key \<Longrightarrow> R s (redis_put k x t s)"
    and inserted: "user_row u s = None \<Longrightarrow> R s (snd (insert_user env u pw role tenant s))"
    and seeded: "R s (snd (ensure_users_seeded env s))"
    and passwords: "R s (s\<lparr>as_users := map (set_password u h) (as_users s)\<rparr>)"
    and bumped: "user_row u s = Some r \<Longrightarrow> R s (snd (bump_token_version u (pu_version r) s))"
    and deleted: "removable u \<Longrightarrow> R s (snd (delete_user u s))"

lemma keys_apart [simp]: "revoked_key j \<noteq> version_key u" "version_key u = version_key u' \<longleftrightarrow> u = u'"
  "rate_key b i n \<noteq> version_key u" "version_key u \<noteq> rate_key b i n"
  by (simp_all add: revoked_key_def version_key_def rate_key_def)

context auth_relation
begin

lemma bind: "keeps R m \<Longrightarrow> (\<And>x. keeps R (f x)) \<Longrightarrow> keeps R (bindS m f)"
  by (rule keeps_bindS) (auto intro: trans)

lemma basic:
  "keeps R (ret x)" "keeps R (fail e)" "keeps R (lift g)" "keeps R (note_audit a b c d)" "keeps R (hash_password env pw)"
  "keeps R (issue_jwt env sub role ttl use tenant tv)" "keeps R (unprocessable :: 'b auth_run)" "keeps R (authorize env allowed rq)"
  "keeps R (ensure_users_seeded env)"
  using seeded by (auto simp: keeps_def note_audit_def hash_password_def issue_jwt_def unprocessable_def authorize_def Let_def
      intro!: quiet)

lemma limited: "keeps R (rate_limit env bucket limit window rq)"
proof -
  have "rate_key b i n \<notin> range version_key" for b i n by auto
  then show ?thesis unfolding rate_limit_def
    by (intro bind basic) (auto simp: keeps_def Let_def intro!: quiet other_key)
qed

lemma revoking: "keeps R (revoke_token env token)"
proof -
  have "revoked_key j \<notin> range version_key" for j by auto
  then show ?thesis
    by (auto simp: keeps_def revoke_token_def Let_def split: option.splits pyfloat.splits intro!: quiet other_key)
qed

lemmas rules = bind basic limited revoking

lemma authenticating: "keeps R (authenticate_user env u pw)"
  unfolding authenticate_user_def by (intro rules) (simp add: keeps_def quiet)

lemma logging_in: "keeps R (login env u pw)"
  unfolding login_def issue_refresh_def
  by (intro rules authenticating) (auto simp: Let_def intro!: rules split: option.split)

lemma refreshing: "keeps R (refresh_token env tok)"
  using basic(6) by (auto simp: keeps_def refresh_token_def quiet split: option.splits)

lemma requesting_reset: "keeps R (request_password_reset env u)"
proof -
  have "keeps R (bindS (issue_jwt env (PStr u) (PStr (pu_role r)) RESET_TTL ''pwreset'' (opt_str (pu_tenant r))
      (PInt (int (pu_version r)))) (\<lambda>t. ret (Some t)))" for r by (intro rules)
  then have "keeps R (\<lambda>s. case user_row u s of None \<Rightarrow> (Inr None, s)
     | Some r \<Rightarrow> bindS (issue_jwt env (PStr u) (PStr (pu_role r)) RESET_TTL ''pwreset'' (opt_str (pu_tenant r)) (PInt (int (pu_version r))))
         (\<lambda>t. ret (Some t)) s)"
    by (auto simp: keeps_def quiet split: option.split)
  then show ?thesis unfolding request_password_reset_def by (intro rules)
qed

lemma setting_password: "keeps R (\<lambda>s. let s1 = s\<lparr>as_users := map (set_password u h) (as_users s)\<rparr> in
    case user_row u s1 of None \<Rightarrow> (Inr False, s1)
    | Some r \<Rightarrow> bindS (bump_token_version u (pu_version r)) (\<lambda>_. ret True) s1)"
  unfolding keeps_def
proof
  fix s :: auth_state
  let ?s1 = "s\<lparr>as_users := map (set_password u h) (as_users s)\<rparr>"
  have "snd (bindS (bump_token_version u n) (\<lambda>_. ret True) ?s1) = snd (bump_token_version u n ?s1)" for n
    by (simp add: bindS_def bump_token_version_def)
  then show "R s (snd (let s1 = ?s1 in case user_row u s1 of None \<Rightarrow> (Inr False, s1)
    | Some r \<Rightarrow> bindS (bump_token_version u (pu_version r)) (\<lambda>_. ret True) s1))"
    using passwords [of s u h] bumped [of u ?s1] by (auto simp: Let_def split: option.splits intro: trans)
qed

lemma confirming: "keeps R (confirm_password_reset env token pw)"
  unfolding keeps_def
proof
  fix s :: auth_state
  have hash: "R s (snd (hash_password env pw s))" using basic(5) by (simp add: keeps_def)
  have set: "R s (snd (bindS (hash_password env pw) (\<lambda>h s. let s1 = s\<lparr>as_users := map (set_password u h) (as_users s)\<rparr> in
    case user_row u s1 of None \<Rightarrow> (Inr False, s1)
    | Some r \<Rightarrow> bindS (bump_token_version u (pu_version r)) (\<lambda>_. ret True) s1) s))" for u
    using bind [OF basic(5) setting_password] by (simp add: keeps_def)
  show "R s (snd (confirm_password_reset env token pw s))"
  proof (cases "verify_jwt env token (Some ''pwreset'') s")
    case (Some cl)
    show ?thesis
    proof (cases "map_of cl ''sub''")
      case sub: (Some v)
      show ?thesis using Some sub set hash quiet by (cases v) (simp_all add: confirm_password_reset_def)
    qed (use Some quiet in \<open>simp add: confirm_password_reset_def\<close>)
  qed (simp add: confirm_password_reset_def quiet)
qed

lemma creating: "keeps R (create_user env u pw role tenant rq)"
proof -
  have "keeps R (\<lambda>s. if user_row u s \<noteq> None then (Inl (DbError (Fmt ''duplicate key'' [])), snd (hash_password env pw s))
       else insert_user env u pw role tenant s)"
    using inserted basic(5) by (simp add: keeps_def)
  then have "keeps R (new_user env u pw role tenant)"
    unfolding new_user_def by (auto intro!: rules split: option.splits)
  then have "keeps R (\<lambda>s. case new_user env u pw role tenant s of
         (Inl (ValueError m), s') \<Rightarrow> (Inl (HTTPException 422 m), s')
       | (Inl (DbError _), s') \<Rightarrow> (Inl (HTTPException 409 (Fmt ''user {} already exists'' [u])), s') | x \<Rightarrow> x)"
    by (auto simp: keeps_def split: prod.splits sum.splits exn.splits) (metis snd_conv)+
  then show ?thesis unfolding create_user_def by (auto intro!: rules)
qed

lemma each_step: "(\<And>u. removes u ev \<Longrightarrow> removable u) \<Longrightarrow> R s (auth_step env ev s)"
proof (cases ev)
  case (Login u pw) then show ?thesis using logging_in by (simp add: auth_step_def keeps_def)
next
  case (Refresh tok) then show ?thesis using refreshing by (simp add: auth_step_def keeps_def)
next
  case (WhoAmI rq)
  have "keeps R (whoami env rq)" unfolding whoami_def by (intro rules)
  then show ?thesis by (simp add: WhoAmI auth_step_def keeps_def)
next
  case (Logout rq)
  have "keeps R (logout env rq)" unfolding logout_def by (auto intro!: rules split: option.splits bool.splits)
  then show ?thesis by (simp add: Logout auth_step_def keeps_def)
next
  case (ResetRequest u rq)
  have "keeps R (password_reset_request env u rq)" unfolding password_reset_request_def by (intro rules requesting_reset)
  then show ?thesis by (simp add: ResetRequest auth_step_def keeps_def)
next
  case (ResetConfirm tok pw)
  have "keeps R (password_reset_confirm env tok pw)" unfolding password_reset_confirm_def by (auto intro!: rules confirming)
  then show ?thesis by (simp add: ResetConfirm auth_step_def keeps_def)
next
  case (CreateUser u pw role tenant rq) then show ?thesis using creating by (simp add: auth_step_def keeps_def)
next
  case (ListUsers rq)
  have "keeps R (\<lambda>s. (Inr (sort_key pu_name (as_users s)), s))" by (simp add: keeps_def quiet)
  then have "keeps R (get_users env rq)" unfolding get_users_def by (intro rules)
  then show ?thesis by (simp add: ListUsers auth_step_def keeps_def)
next
  case (RemoveUser u rq)
  moreover assume "\<And>u. removes u ev \<Longrightarrow> removable u"
  ultimately have "keeps R (delete_user u)" using deleted by (simp add: keeps_def)
  then have "keeps R (remove_user env u rq)" unfolding remove_user_def by (intro rules)
  then show ?thesis by (simp add: RemoveUser auth_step_def keeps_def)
qed (auto simp: auth_step_def intro!: quiet)

lemma steps: "(\<And>u. list_ex (removes u) evs \<Longrightarrow> removable u) \<Longrightarrow> R s (auth_steps env evs s)"
proof (induction evs arbitrary: s)
  case (Cons ev evs)
  then have "R s (auth_step env ev s)" "R (auth_step env ev s) (auth_steps env evs (auth_step env ev s))"
    using each_step by simp_all
  then show ?case unfolding auth_steps_def by (auto intro: trans)
qed (simp add: auth_steps_def quiet)

end

end
