(* ===== verification/Tokens_Correct.thy ===== *)
theory Tokens_Correct
  imports Auth_Requests "HOL-Library.Countable"
begin

text \<open>
  What the authentication guarantees: a token says what it was issued with, a password reset ends
  every session opened before it, the last administrator cannot be removed.
\<close>

subsection \<open>A token carries its claims\<close>

text \<open>The JSON codec of the standard library reads back the claims it writes.\<close>

definition codec_ok :: "auth_env \<Rightarrow> bool" where
  "codec_ok env \<longleftrightarrow> (\<forall>sub role use tenant tv jti iat ttl.
     let cl = claims (PStr sub) (PStr role) use (opt_str tenant) (PInt (int tv)) jti iat ttl in
     ae_loads env (ae_dumps env (PDict cl)) = Some (PDict cl))"

lemma split_three:
  assumes "c \<notin> set x" "c \<notin> set y" "c \<notin> set z"
  shows "split_on c (x @ c # y @ c # z) = [x, y, z]"
  using assms by (simp add: split_on_append split_on_none)

lemma token_claims_signed:
  assumes "ae_loads env (ae_dumps env (PDict cl)) = Some (PDict cl)"
  shows "token_claims env (signed env cl) = Some cl"
proof -
  let ?h = "b64u (ae_dumps env (PDict [(''alg'', PStr ''HS256''), (''typ'', PStr ''JWT'')]))"
  have "split_on (CHR ''.'') (signed env cl) = [?h, b64u (ae_dumps env (PDict cl)),
      b64u (ae_mac env (?h @ ''.'' @ b64u (ae_dumps env (PDict cl))))]"
    using split_three [OF b64u_chars(1) b64u_chars(1) b64u_chars(1), of "ae_dumps env (PDict [(''alg'', PStr ''HS256''), (''typ'', PStr ''JWT'')])"
        "ae_dumps env (PDict cl)"] by (simp add: signed_def Let_def)
  with assms show ?thesis by (simp add: token_claims_def)
qed

lemma claims_get [simp]:
  "dict_get (claims sub role use tenant tv jti iat ttl) ''use'' d = PStr use"
  "dict_get (claims sub role use tenant tv jti iat ttl) ''exp'' d = PInt (iat + ttl)"
  "dict_get (claims sub role use tenant tv jti iat ttl) ''jti'' d = PStr jti"
  "dict_get (claims sub role use tenant tv jti iat ttl) ''sub'' d = sub"
  "dict_get (claims sub role use tenant tv jti iat ttl) ''tv'' d = tv"
  "dict_get (claims sub role use tenant tv jti iat ttl) ''tenant'' d = tenant"
  "map_of (claims sub role use tenant tv jti iat ttl) ''sub'' = Some sub"
  "map_of (claims sub role use tenant tv jti iat ttl) ''role'' = Some role"
  by (simp_all add: claims_def dict_get_def)

text \<open>A token issued for a user, at a version, for a use.\<close>

definition issued :: "auth_env \<Rightarrow> string \<Rightarrow> string \<Rightarrow> nat \<Rightarrow> string \<Rightarrow> bool" where
  "issued env u use v tok \<longleftrightarrow> (\<exists>role tenant jti iat ttl.
     tok = signed env (claims (PStr u) (PStr role) use (opt_str tenant) (PInt (int v)) jti iat ttl))"

lemma issued_signed [simp]:
  "issued env u use v (signed env (claims (PStr u) (PStr role) use (opt_str tenant) (PInt (int v)) jti iat ttl))"
  unfolding issued_def by blast

lemma issued_claims:
  assumes "codec_ok env" "issued env u use v tok"
  obtains cl where "token_claims env tok = Some cl" "dict_get cl ''sub'' PNone = PStr u" "map_of cl ''sub'' = Some (PStr u)"
    "dict_get cl ''use'' d = PStr use" "dict_get cl ''tv'' (PInt 0) = PInt (int v)"
proof -
  obtain role tenant jti iat ttl where tok:
    "tok = signed env (claims (PStr u) (PStr role) use (opt_str tenant) (PInt (int v)) jti iat ttl)"
    using assms(2) by (auto simp: issued_def)
  then have "token_claims env tok = Some (claims (PStr u) (PStr role) use (opt_str tenant) (PInt (int v)) jti iat ttl)"
    using assms(1) by (auto simp: codec_ok_def Let_def intro!: token_claims_signed)
  then show thesis by (rule that) simp_all
qed

lemma issue_jwt_issued:
  "issue_jwt env (PStr u) (PStr role) ttl use (opt_str tenant) (PInt (int v)) s = (Inr tok, s') \<Longrightarrow>
     issued env u use v tok \<and> s' = s\<lparr>as_fresh := as_fresh s + 1\<rparr>"
  by (auto simp: issue_jwt_def)

subsection \<open>Versions only go up\<close>

definition version_at_least :: "string \<Rightarrow> nat \<Rightarrow> auth_state \<Rightarrow> bool" where
  "version_at_least u v s \<longleftrightarrow> (\<exists>r. user_row u s = Some r \<and> v \<le> pu_version r)"

text \<open>Redis knows a version from \<open>v\<close> on, and the table is not behind it.\<close>

definition cached_from :: "string \<Rightarrow> nat \<Rightarrow> auth_state \<Rightarrow> bool" where
  "cached_from u v s \<longleftrightarrow> (\<exists>c. as_redis s (version_key u) = Some (num_text c, None) \<and> v \<le> c \<and> version_at_least u c s)"

lemma old_version_refused:
  assumes "codec_ok env" "issued env u use w tok" "w < v" "cached_from u v s" "as_redis_up s"
  shows "verify_jwt env tok expected s = None"
proof -
  obtain cl where cl: "token_claims env tok = Some cl" "dict_get cl ''sub'' PNone = PStr u"
    "dict_get cl ''tv'' (PInt 0) = PInt (int w)" using issued_claims [OF assms(1,2)] by metis
  obtain c where c: "as_redis s (version_key u) = Some (num_text c, None)" "v \<le> c"
    using assms(4) by (auto simp: cached_from_def)
  have "\<not> version_current env cl s"
    using c cl assms(3,5) by (simp add: version_current_def redis_get_def py_str_def number_def)
  with cl(1) show ?thesis by (simp add: verify_jwt_def split: option.splits)
qed

definition keeps_version :: "string \<Rightarrow> auth_state \<Rightarrow> auth_state \<Rightarrow> bool" where
  "keeps_version u s s' \<longleftrightarrow> (\<forall>v. version_at_least u v s \<longrightarrow> version_at_least u v s') \<and> (\<forall>v. cached_from u v s \<longrightarrow> cached_from u v s')"

lemma keeps_version_trans: "keeps_version u s s' \<Longrightarrow> keeps_version u s' s'' \<Longrightarrow> keeps_version u s s''"
  by (simp add: keeps_version_def)

lemma keeps_version_refl [simp]: "keeps_version u s s"
  by (simp add: keeps_version_def)

lemma keeps_version_frame:
  assumes "as_users s' = as_users s" "as_redis s' (version_key u) = as_redis s (version_key u)"
  shows "keeps_version u s s'"
  using assms by (simp add: keeps_version_def version_at_least_def cached_from_def user_row_def)

lemma keeps_version_users:
  assumes "as_redis s' = as_redis s" "\<And>r. user_row u s = Some r \<Longrightarrow> \<exists>r'. user_row u s' = Some r' \<and> pu_version r \<le> pu_version r'"
  shows "keeps_version u s s'"
proof -
  have "version_at_least u v s'" if "version_at_least u v s" for v
    using assms(2) that by (fastforce simp: version_at_least_def)
  then show ?thesis using assms(1) by (auto simp: keeps_version_def cached_from_def)
qed

lemma keeps_version_same:
  assumes "as_redis s' = as_redis s" "\<And>r. user_row u s = Some r \<Longrightarrow> user_row u s' = Some r"
  shows "keeps_version u s s'"
  using assms by (intro keeps_version_users) auto

lemma redis_put_other: "k \<noteq> version_key u \<Longrightarrow> keeps_version u s (redis_put k v t s)"
  by (rule keeps_version_frame) (auto simp: redis_put_def)

lemma redis_put_version:
  assumes "user_row u' s = Some r"
  shows "keeps_version u s (redis_put (version_key u') (num_text (pu_version r)) None s)"
proof (cases "u = u' \<and> as_redis_up s")
  case True
  have users: "user_row u (redis_put (version_key u') x None s) = user_row u s" for x
    by (simp add: redis_put_def user_row_def)
  have cached: "as_redis (redis_put (version_key u') x None s) (version_key u) = Some (x, None)" for x
    using True by (simp add: redis_put_def)
  show ?thesis
    unfolding keeps_version_def
  proof (intro conjI allI impI)
    fix v assume "version_at_least u v s"
    then show "version_at_least u v (redis_put (version_key u') (num_text (pu_version r)) None s)"
      by (simp add: version_at_least_def users)
  next
    fix v assume "cached_from u v s"
    then have "v \<le> pu_version r" using True assms by (auto simp: cached_from_def version_at_least_def)
    then show "cached_from u v (redis_put (version_key u') (num_text (pu_version r)) None s)"
      using True assms users [of "num_text (pu_version r)"] cached [of "num_text (pu_version r)"]
      by (auto simp: cached_from_def version_at_least_def)
  qed
next
  case False
  then show ?thesis using redis_put_other [of "version_key u'" u] by (cases "u = u'") (auto simp: redis_put_def)
qed

lemma find_append_some: "find P xs = Some x \<Longrightarrow> find P (xs @ ys) = Some x"
  by (induction xs) (auto split: if_splits)

lemma user_row_set_password:
  assumes "user_row u s = Some r"
  shows "user_row u (s\<lparr>as_users := map (set_password u' h) (as_users s)\<rparr>) = Some (set_password u' h r)"
proof -
  have "pu_name (set_password u' h x) = pu_name x" for x by (simp add: set_password_def)
  then have "find (\<lambda>x. pu_name x = u) (map (set_password u' h) xs) = map_option (set_password u' h) (find (\<lambda>x. pu_name x = u) xs)" for xs
    by (induction xs) simp_all
  with assms show ?thesis by (simp add: user_row_def)
qed

interpretation version: auth_relation "keeps_version u" "\<lambda>u'. u' \<noteq> u" for u
proof
  fix s s' s'' :: auth_state assume "keeps_version u s s'" "keeps_version u s' s''"
  then show "keeps_version u s s''" by (rule keeps_version_trans)
next
  fix s s' :: auth_state assume "as_users s' = as_users s" "as_redis s' = as_redis s"
  then show "keeps_version u s s'" by (intro keeps_version_frame) simp_all
next
  fix k x t and s :: auth_state assume "k \<notin> range version_key"
  then show "keeps_version u s (redis_put k x t s)" by (intro redis_put_other) auto
next
  fix u' env pw role tenant and s :: auth_state
  show "keeps_version u s (snd (insert_user env u' pw role tenant s))"
    by (rule keeps_version_same)
       (simp_all add: insert_user_def bindS_def hash_password_def Let_def user_row_def find_append_some)
next
  fix env and s :: auth_state
  have "keeps_version u s s'" if "as_users s = []" for s'
    using that by (simp add: keeps_version_def version_at_least_def cached_from_def user_row_def)
  then show "keeps_version u s (snd (ensure_users_seeded env s))" by (simp add: ensure_users_seeded_def)
next
  fix u' h and s :: auth_state
  show "keeps_version u s (s\<lparr>as_users := map (set_password u' h) (as_users s)\<rparr>)"
    using user_row_set_password by (intro keeps_version_users) (auto simp: set_password_def)
next
  fix u' r and s :: auth_state assume "user_row u' s = Some r"
  then show "keeps_version u s (snd (bump_token_version u' (pu_version r) s))"
    using redis_put_version by (simp add: bump_token_version_def)
next
  fix u' and s :: auth_state assume ne: "u' \<noteq> u"
  then have "find (\<lambda>x. pu_name x = u) (filter (\<lambda>x. pu_name x \<noteq> u') xs) = find (\<lambda>x. pu_name x = u) xs" for xs :: "portal_user list"
    by (induction xs) auto
  then have "keeps_version u s (s\<lparr>as_users := filter (\<lambda>x. pu_name x \<noteq> u') (as_users s)\<rparr>)"
    by (intro keeps_version_same) (simp_all add: user_row_def)
  then show "keeps_version u s (snd (delete_user u' s))" by (simp add: delete_user_def split: option.splits)
qed

subsection \<open>A password reset ends the sessions before it\<close>

lemma seeded_time: "as_time (snd (ensure_users_seeded env s)) = as_time s"
proof -
  have ins: "keeps (\<lambda>s s'. as_time s' = as_time s) (insert_user env u pw role tenant)" for u pw role tenant
    by (simp add: keeps_def insert_user_def bindS_def hash_password_def Let_def)
  have "keeps (\<lambda>s s'. as_time s' = as_time s) (seed_users env xs)" for xs
  proof (induction xs)
    case (Cons x xs)
    obtain u pw role tenant where x: "x = (u, pw, role, tenant)" by (cases x)
    show ?case unfolding seed_users.simps x prod.case
      by (rule keeps_bindS) (use ins Cons in \<open>auto simp: keeps_def hash_password_def Let_def\<close>)
  qed (simp add: keeps_def)
  then show ?thesis by (simp add: ensure_users_seeded_def keeps_def)
qed

lemma login_run:
  assumes "login env u pw s = (Inr sess, s')"
  obtains s1 r where "ensure_users_seeded env s = (Inr (), s1)" "user_row u s1 = Some r" "verify_password env pw (pu_hash r)"
    "se_role sess = pu_role r" "se_tenant sess = pu_tenant r" "as_users s' = as_users s1"
    "se_access sess = signed env (claims (PStr u) (PStr (pu_role r)) ''access'' (opt_str (pu_tenant r)) (PInt (int (pu_version r)))
        (ae_jti env (as_fresh s1)) \<lfloor>as_time s1\<rfloor> JWT_TTL)"
    "se_refresh sess = signed env (claims (PStr u) (PStr (pu_role r)) ''refresh'' (opt_str (pu_tenant r)) (PInt (int (pu_version r)))
        (ae_jti env (as_fresh s1 + 1)) \<lfloor>as_time s1\<rfloor> REFRESH_TTL)"
proof -
  obtain s1 where s1: "ensure_users_seeded env s = (Inr (), s1)"
    using assms by (cases "ensure_users_seeded env s") (auto simp: login_def authenticate_user_def bindS_def split: sum.splits)
  obtain r where r: "user_row u s1 = Some r" "verify_password env pw (pu_hash r)"
    using assms s1 by (auto simp: login_def authenticate_user_def bindS_def note_audit_def split: option.splits if_splits)
  let ?s2 = "s1\<lparr>as_audit := as_audit s1 @ [(u, ''login'', u, ''ok'')]\<rparr>"
  have rest: "bindS (issue_jwt env (PStr u) (PStr (pu_role r)) JWT_TTL ''access'' (opt_str (pu_tenant r)) (PInt (int (pu_version r)))) (\<lambda>a.
         bindS (issue_refresh env (PStr u) (PStr (pu_role r)) (opt_str (pu_tenant r)) (PInt (int (pu_version r)))) (\<lambda>rt.
           ret \<lparr>se_access = a, se_refresh = rt, se_role = pu_role r, se_tenant = pu_tenant r\<rparr>)) ?s2 = (Inr sess, s')"
    using assms s1 r by (auto simp: login_def authenticate_user_def bindS_def note_audit_def Let_def)
  then show thesis
    by (intro that [OF s1 r]) (auto simp: issue_refresh_def bindS_def issue_jwt_def)
qed

lemma login_issues:
  assumes "login env u pw s = (Inr sess, s')"
  obtains v where "issued env u ''access'' v (se_access sess)" "issued env u ''refresh'' v (se_refresh sess)"
    "version_at_least u v s'"
proof (rule login_run [OF assms])
  fix s1 r
  assume r: "user_row u s1 = Some r" "as_users s' = as_users s1"
    and t: "se_access sess = signed env (claims (PStr u) (PStr (pu_role r)) ''access'' (opt_str (pu_tenant r)) (PInt (int (pu_version r)))
        (ae_jti env (as_fresh s1)) \<lfloor>as_time s1\<rfloor> JWT_TTL)"
      "se_refresh sess = signed env (claims (PStr u) (PStr (pu_role r)) ''refresh'' (opt_str (pu_tenant r)) (PInt (int (pu_version r)))
        (ae_jti env (as_fresh s1 + 1)) \<lfloor>as_time s1\<rfloor> REFRESH_TTL)"
  show thesis by (rule that [of "pu_version r"]) (use r in \<open>simp_all add: t version_at_least_def user_row_def\<close>)
qed

lemma reset_issues:
  assumes "request_password_reset env u s = (Inr (Some tok), s')"
  obtains v where "issued env u ''pwreset'' v tok" "version_at_least u v s'"
proof -
  obtain s1 where s1: "ensure_users_seeded env s = (Inr (), s1)"
    using assms by (cases "ensure_users_seeded env s") (auto simp: request_password_reset_def bindS_def split: sum.splits)
  obtain r where r: "user_row u s1 = Some r"
    using assms s1 by (auto simp: request_password_reset_def bindS_def split: option.splits)
  then have "issued env u ''pwreset'' (pu_version r) tok" "as_users s' = as_users s1"
    using assms s1 by (auto simp: request_password_reset_def bindS_def issue_jwt_def)
  moreover from this r have "version_at_least u (pu_version r) s'" by (simp add: version_at_least_def user_row_def)
  ultimately show thesis using that by blast
qed

lemma confirmed_caches:
  assumes "codec_ok env" "issued env u ''pwreset'' w tok" "confirm_password_reset env tok pw s = (Inr True, s')"
    "as_redis_up s" "version_at_least u v s"
  shows "cached_from u (v + 1) s'"
proof -
  obtain cl where cl: "token_claims env tok = Some cl" "map_of cl ''sub'' = Some (PStr u)"
    using issued_claims [OF assms(1,2)] by metis
  have "verify_jwt env tok (Some ''pwreset'') s = Some cl"
    using assms(3) cl(1) by (auto simp: confirm_password_reset_def verify_jwt_def split: option.splits if_splits)
  then obtain h s1 r where h: "hash_password env pw s = (Inr h, s1)"
    and r: "user_row u (s1\<lparr>as_users := map (set_password u h) (as_users s1)\<rparr>) = Some r"
    and s': "s' = redis_put (version_key u) (num_text (pu_version r)) None (s1\<lparr>as_users := map (set_password u h) (as_users s1)\<rparr>)"
    using assms(3) cl(2)
    by (auto simp: confirm_password_reset_def bindS_def hash_password_def bump_token_version_def Let_def split: option.splits)
  have s1: "as_users s1 = as_users s" "as_redis_up s1" using h assms(4) by (auto simp: hash_password_def Let_def)
  obtain r0 where r0: "user_row u s = Some r0" "v \<le> pu_version r0" using assms(5) by (auto simp: version_at_least_def)
  then have "user_row u s1 = Some r0" using s1(1) by (simp add: user_row_def)
  from user_row_set_password [OF this, of u h] r have "r = set_password u h r0" by simp
  moreover have "pu_name r0 = u" using r0(1) by (auto simp: user_row_def find_Some_iff)
  ultimately have "v + 1 \<le> pu_version r" using r0(2) by (simp add: set_password_def)
  then show ?thesis using r s1(2)
    by (auto simp: cached_from_def s' redis_put_def version_at_least_def user_row_def)
qed

lemma removed_other: "\<not> list_ex (removes u) evs \<Longrightarrow> list_ex (removes u') evs \<Longrightarrow> u' \<noteq> u"
  by auto

lemma kept_later:
  "version_at_least u v s \<Longrightarrow> \<not> list_ex (removes u) evs \<Longrightarrow> version_at_least u v (auth_steps env evs s)"
  "cached_from u v s \<Longrightarrow> \<not> list_ex (removes u) evs \<Longrightarrow> cached_from u v (auth_steps env evs s)"
  using version.steps [of evs u s env] by (auto simp: keeps_version_def)

text \<open>
  C8: Once a user's password reset is confirmed, every token of a session opened before it, access
  or refresh, and the reset token itself are refused for good, whatever requests with whatever
  tokens and whatever Redis outages lie in between, as long as the user is not removed and Redis
  answers at the confirmation and at the check.
\<close>
theorem reset_ends_sessions:
  assumes "codec_ok env" "login env u pw s0 = (Inr sess, s1)" "\<not> list_ex (removes u) (evs1 @ evs2 @ evs3)"
    and "request_password_reset env u (auth_steps env evs1 s1) = (Inr (Some tok), s2)"
    and "confirm_password_reset env tok pw' (auth_steps env evs2 s2) = (Inr True, s3)" "as_redis_up (auth_steps env evs2 s2)"
    and "s4 = auth_steps env evs3 s3" "as_redis_up s4"
  shows "verify_jwt env (se_access sess) use s4 = None \<and> verify_jwt env (se_refresh sess) use s4 = None
    \<and> verify_jwt env tok use s4 = None"
proof -
  have none: "\<not> list_ex (removes u) evs1" "\<not> list_ex (removes u) evs2" "\<not> list_ex (removes u) evs3"
    using assms(3) by simp_all
  obtain v where v: "issued env u ''access'' v (se_access sess)" "issued env u ''refresh'' v (se_refresh sess)"
    "version_at_least u v s1" using login_issues [OF assms(2)] by blast
  obtain w where w: "issued env u ''pwreset'' w tok" "version_at_least u w s2" using reset_issues [OF assms(4)] by blast
  have "keeps_version u (auth_steps env evs1 s1) s2"
    using version.requesting_reset assms(4) by (metis keepsD)
  then have "version_at_least u v s2" using kept_later(1) [OF v(3) none(1)] by (auto simp: keeps_version_def)
  then have "cached_from u (v + 1) s4" "cached_from u (w + 1) s4"
    using confirmed_caches [OF assms(1) w(1) assms(5,6)] kept_later none(2,3) w(2) by (auto simp: assms(7))
  then show ?thesis using old_version_refused [OF assms(1)] v(1,2) w(1) assms(8) by (metis less_add_one)
qed

subsection \<open>A session admits its user\<close>

lemma hash_verifies: "hash_password env pw s = (Inr h, s') \<Longrightarrow> verify_password env pw h"
proof -
  assume h: "hash_password env pw s = (Inr h, s')"
  let ?salt = "ae_salt env (as_fresh s)"
  have "split_on (CHR ''$'') (''pbkdf2_sha256'' @ CHR ''$'' # ''200000'' @ CHR ''$'' # b64u ?salt @ CHR ''$'' # b64u (ae_kdf env pw ?salt 200000))
      = [''pbkdf2_sha256'', ''200000'', b64u ?salt, b64u (ae_kdf env pw ?salt 200000)]"
    using b64u_chars(2) by (simp add: split_on_append split_on_none)
  moreover have "int_of_string ''200000'' = Inr 200000"
    by (simp add: int_of_string_def strip_def is_space_def split_sign_def digit_val_def)
  ultimately show ?thesis using h by (auto simp: hash_password_def Let_def verify_password_def PBKDF2_ITERATIONS_def)
qed

lemma verify_signed:
  assumes "codec_ok env" "cl = claims (PStr u) (PStr role) use (opt_str tenant) (PInt (int v)) jti iat ttl"
  shows "verify_jwt env (signed env cl) expected s = (if of_int (iat + ttl) < as_time s \<or> expected \<notin> {None, Some use}
    \<or> \<not> not_revoked env cl s \<or> \<not> version_current env cl s then None else Some cl)"
proof -
  have "token_claims env (signed env cl) = Some cl"
    using assms(1) unfolding assms(2) by (intro token_claims_signed) (simp add: codec_ok_def Let_def)
  then show ?thesis by (auto simp: verify_jwt_def assms(2) number_def split: option.splits)
qed

lemma signed_chars: "c \<in> set (signed env cl) \<Longrightarrow> \<not> is_space c"
proof -
  have "\<not> is_space (b64_digit n)" for n by (auto simp: is_space_def b64_digit_def)
  then have "c \<in> set (b64u x) \<Longrightarrow> \<not> is_space c" for x by (induction x rule: b64u.induct) (auto simp: Let_def)
  moreover have "\<not> is_space (CHR ''.'')" by (simp add: is_space_def)
  ultimately show "c \<in> set (signed env cl) \<Longrightarrow> \<not> is_space c" by (auto simp: signed_def Let_def)
qed

lemma strip_signed: "strip (signed env cl) = signed env cl"
proof -
  have id: "dropWhile is_space xs = xs" if "\<forall>c\<in>set xs. \<not> is_space c" for xs using that by (cases xs) simp_all
  have "\<forall>c\<in>set (signed env cl). \<not> is_space c" using signed_chars by blast
  then show ?thesis by (simp add: strip_def id)
qed

lemma signed_nonempty: "signed env cl \<noteq> []"
  by (simp add: signed_def Let_def)

definition bearing :: "string \<Rightarrow> request" where
  "bearing tok = \<lparr>rq_authorization = ''Bearer '' @ tok, rq_api_key = None, rq_host = None\<rparr>"

lemma lower_bearer: "take 7 (to_lower (''Bearer '' @ t)) = ''bearer ''"
proof -
  have "to_lower ''Bearer '' = ''bearer ''" by code_simp
  then show ?thesis by (simp add: to_lower_def)
qed

lemma bearer_signed: "bearer_token (bearing (signed env cl)) = Some (signed env cl)"
  using lower_bearer [of "signed env cl"] by (simp add: bearer_token_def bearing_def strip_signed)

lemma principal_bearing:
  assumes "codec_ok env" "cl = claims (PStr u) (PStr role) use (opt_str tenant) (PInt (int v)) jti iat ttl"
    "signed env cl \<notin> fst ` set (ae_api_keys env)"
  shows "principal_from_request env (bearing (signed env cl)) s = Inr (if use = ''access'' \<and> as_time s \<le> of_int (iat + ttl)
      \<and> not_revoked env cl s \<and> version_current env cl s
    then Some \<lparr>p_name = u, p_role = role_of (PStr role), p_tenant = tenant, lp_kind = ''jwt'', lp_token = Some (signed env cl)\<rparr>
    else None)"
proof -
  have "tenant_of (opt_str tenant) = tenant" by (cases tenant) (simp_all add: tenant_of_def opt_str_def)
  moreover have "cl \<noteq> []" by (simp add: assms(2) claims_def)
  ultimately show ?thesis
    using assms(3) by (simp add: principal_from_request_def Let_def bearer_signed signed_nonempty verify_signed [OF assms(1,2)])
      (auto simp: bearing_def assms(2) py_str_def)
qed

text \<open>
  C9: The access token of a login lets its user through exactly the role checks of the user's role,
  with the user's name and tenant, from the login until it expires an hour later, unless it is
  revoked or superseded; the refresh token of the same login never does.
\<close>
theorem session_admits:
  assumes "codec_ok env" "ae_enforced env" "login env u pw s = (Inr sess, s1)" "token_claims env (se_access sess) = Some cl"
    "as_time s2 \<le> of_int \<lfloor>as_time s\<rfloor> + 3600" "not_revoked env cl s2" "version_current env cl s2"
    "{se_access sess, se_refresh sess} \<inter> fst ` set (ae_api_keys env) = {}"
  shows "authorize env allowed (bearing (se_access sess)) s2 = (if role_allowed (role_of (PStr (se_role sess))) allowed
      then Inr \<lparr>p_name = u, p_role = role_of (PStr (se_role sess)), p_tenant = se_tenant sess, lp_kind = ''jwt'',
                lp_token = Some (se_access sess)\<rparr>
      else Inl (HTTPException 403 (Fmt ''role not permitted'' [])), s2)
    \<and> authorize env allowed (bearing (se_refresh sess)) s2 = (Inl (HTTPException 401 (Fmt ''authentication required'' [])), s2)"
proof -
  obtain v jti jti' where t:
    "se_access sess = signed env (claims (PStr u) (PStr (se_role sess)) ''access'' (opt_str (se_tenant sess)) (PInt (int v)) jti \<lfloor>as_time s\<rfloor> JWT_TTL)"
    "se_refresh sess = signed env (claims (PStr u) (PStr (se_role sess)) ''refresh'' (opt_str (se_tenant sess)) (PInt (int v)) jti' \<lfloor>as_time s\<rfloor> REFRESH_TTL)"
    by (rule login_run [OF assms(3)]) (use seeded_time [of env s] in auto)
  have cl: "cl = claims (PStr u) (PStr (se_role sess)) ''access'' (opt_str (se_tenant sess)) (PInt (int v)) jti \<lfloor>as_time s\<rfloor> JWT_TTL"
    using assms(1,4) token_claims_signed [of env "claims (PStr u) (PStr (se_role sess)) ''access'' (opt_str (se_tenant sess)) (PInt (int v)) jti \<lfloor>as_time s\<rfloor> JWT_TTL"]
    by (simp add: t(1) codec_ok_def Let_def)
  have "principal_from_request env (bearing (se_access sess)) s2 = Inr (Some \<lparr>p_name = u, p_role = role_of (PStr (se_role sess)),
      p_tenant = se_tenant sess, lp_kind = ''jwt'', lp_token = Some (se_access sess)\<rparr>)"
    using principal_bearing [OF assms(1) cl, of s2] assms(5-8) t(1) cl by (simp add: JWT_TTL_def)
  moreover have "principal_from_request env (bearing (se_refresh sess)) s2 = Inr None"
    using principal_bearing [OF assms(1) refl, of u "se_role sess" "''refresh''" "se_tenant sess" v jti' "\<lfloor>as_time s\<rfloor>" REFRESH_TTL s2]
      assms(8) t(2) by simp
  ultimately show ?thesis using assms(2) by (simp add: authorize_def)
qed

subsection \<open>The last administrator\<close>

text \<open>User names are keys, and some user is an administrator.\<close>

definition administered :: "auth_state \<Rightarrow> bool" where
  "administered s \<longleftrightarrow> distinct (map pu_name (as_users s)) \<and> (\<exists>r\<in>set (as_users s). pu_role r = ''admin'')"

definition keeps_admin :: "auth_state \<Rightarrow> auth_state \<Rightarrow> bool" where
  "keeps_admin s s' \<longleftrightarrow> (administered s \<longrightarrow> administered s')"

lemma keeps_admin_users: "as_users s' = as_users s \<Longrightarrow> keeps_admin s s'"
  by (simp add: keeps_admin_def administered_def)

lemma user_row_none: "user_row u s = None \<Longrightarrow> u \<notin> pu_name ` set (as_users s)"
  by (auto simp: user_row_def find_None_iff)

lemma administered_insert:
  assumes "user_row u s = None"
  shows "keeps_admin s (snd (insert_user env u pw role tenant s))"
  using user_row_none [OF assms]
  by (auto simp: keeps_admin_def administered_def insert_user_def bindS_def hash_password_def Let_def)

lemma administered_passwords:
  "keeps_admin s (s\<lparr>as_users := map (set_password u h) (as_users s)\<rparr>)"
proof -
  have same: "pu_name (set_password u h r) = pu_name r" "pu_role (set_password u h r) = pu_role r" for r
    by (simp_all add: set_password_def)
  then have "map pu_name (map (set_password u h) rs) = map pu_name rs" for rs by (simp add: comp_def)
  then show ?thesis using same by (auto simp: keeps_admin_def administered_def simp del: map_map)
qed

lemma administered_delete: "keeps_admin s (snd (delete_user u s))"
proof -
  have "administered (snd (delete_user u s))" if adm: "administered s" for s
  proof (cases "user_row u s")
    case (Some r)
    let ?adm = "filter (\<lambda>x. pu_role x = ''admin'') (as_users s)"
    have r: "r \<in> set (as_users s)" "pu_name r = u" using Some by (auto simp: user_row_def find_Some_iff)
    have d: "distinct (map pu_name (as_users s))" using adm by (simp add: administered_def)
    have other: "\<exists>x\<in>set (as_users s). pu_role x = ''admin'' \<and> pu_name x \<noteq> u"
      if "pu_role r \<noteq> ''admin'' \<or> 1 < length ?adm"
    proof (cases "pu_role r = ''admin''")
      case False
      obtain a where a: "a \<in> set (as_users s)" "pu_role a = ''admin''" using adm by (auto simp: administered_def)
      with False r d have "pu_name a \<noteq> u" by (metis distinct_map inj_onD)
      with a show ?thesis by blast
    next
      case True
      then have "1 < length ?adm" using that by simp
      moreover have "distinct ?adm" using d distinct_map by (blast intro: distinct_filter)
      ultimately obtain a where "a \<in> set ?adm" "a \<noteq> r"
        by (metis One_nat_def card_insert_le card_le_Suc0_iff_eq distinct_card finite_set less_le_not_le list.set_finite)
      then show ?thesis using r d by (auto simp: distinct_map dest: inj_onD)
    qed
    have "distinct (map pu_name (filter (\<lambda>x. pu_name x \<noteq> u) (as_users s)))" using d by (simp add: distinct_map_filter)
    then show ?thesis using Some adm other by (auto simp: delete_user_def administered_def not_le)
  qed (use adm in \<open>simp add: delete_user_def\<close>)
  then show ?thesis by (simp add: keeps_admin_def)
qed

interpretation admin: auth_relation keeps_admin "\<lambda>u. True"
proof
  fix s s' s'' assume "keeps_admin s s'" "keeps_admin s' s''"
  then show "keeps_admin s s''" by (simp add: keeps_admin_def)
next
  fix env and s :: auth_state show "keeps_admin s (snd (ensure_users_seeded env s))"
    by (auto simp: ensure_users_seeded_def keeps_admin_def administered_def)
qed (simp_all add: keeps_admin_users administered_insert administered_passwords administered_delete redis_put_def bump_token_version_def)

text \<open>
  C40: No sequence of requests, by whomever and with whatever credentials, leaves the user table
  without an administrator or with two rows for one name.
\<close>
theorem admin_remains:
  assumes "distinct (map pu_name (as_users s))" "\<exists>r\<in>set (as_users s). pu_role r = ''admin''"
  shows "let s' = auth_steps env evs s in
    distinct (map pu_name (as_users s')) \<and> (\<exists>r\<in>set (as_users s'). pu_role r = ''admin'')"
proof -
  have "keeps_admin s (auth_steps env evs s)" by (rule admin.steps) simp
  with assms show ?thesis by (simp add: keeps_admin_def administered_def Let_def)
qed

subsection \<open>What outlives an account\<close>

text \<open>Removing a user touches no token: every session of the removed user goes on, and renews itself.\<close>

lemma removed_user_keeps_session:
  "verify_jwt env tok use (snd (delete_user u s)) = verify_jwt env tok use s"
  by (auto simp: verify_jwt_def not_revoked_def version_current_def redis_get_def delete_user_def Let_def split: option.splits)

text \<open>
  The version cached for a name outlives the row: a user created again under the name of a removed one
  starts at version zero, and none of the tokens issued to it is ever accepted.
\<close>

lemma recreated_user_locked_out:
  assumes "codec_ok env" "as_redis s (version_key u) = Some (num_text c, None)" "0 < c" "as_redis_up s"
    "issued env u use' 0 tok"
  shows "verify_jwt env tok use s = None"
proof -
  obtain cl where cl: "token_claims env tok = Some cl" "dict_get cl ''sub'' PNone = PStr u" "dict_get cl ''tv'' (PInt 0) = PInt (int 0)"
    using issued_claims [OF assms(1,5)] by metis
  then have "\<not> version_current env cl s" using assms(2-4)
    by (simp add: version_current_def redis_get_def py_str_def number_def)
  with cl(1) show ?thesis by (simp add: verify_jwt_def split: option.splits)
qed

text \<open>A reset confirmed while Redis is down leaves the cached version, and with it the old sessions, as they are.\<close>

lemma reset_without_redis:
  assumes "\<not> as_redis_up s" "confirm_password_reset env tok pw s = (Inr b, s')"
  shows "as_redis s' = as_redis s"
  using assms by (auto simp: confirm_password_reset_def hash_password_def bindS_def bump_token_version_def redis_put_def Let_def
      split: option.splits pyval.splits)

subsection \<open>A concrete installation\<close>

instance pyfloat :: countable
  by countable_datatype

instance pyval :: countable
  by countable_datatype

definition demo_auth :: auth_env where
  "demo_auth = \<lparr>ae_mac = take 8, ae_kdf = (\<lambda>pw salt n. pw @ salt), ae_dumps = (\<lambda>v. num_text (to_nat v)),
     ae_loads = (\<lambda>t. case int_of_string t of Inr i \<Rightarrow> Some (from_nat (nat i)) | Inl _ \<Rightarrow> None),
     ae_salt = (\<lambda>_. ''salt''), ae_jti = num_text, ae_repr = (\<lambda>_. []), ae_api_keys = [(''svc-key'', ''svc'', ''service'')],
     ae_bootstrap = [(''admin'', ''diep-admin'', ''admin'', None)], ae_enforced = True\<rparr>"

definition demo_user :: portal_user where
  "demo_user = \<lparr>pu_name = ''ann'', pu_hash = ''pbkdf2_sha256$200000$'' @ b64u ''salt'' @ ''$'' @ b64u (''first-password'' @ ''salt''),
     pu_role = ''operator'', pu_tenant = Some ''acme'', pu_version = 0, pu_must_change = False\<rparr>"

definition demo_admin :: portal_user where
  "demo_admin = demo_user\<lparr>pu_name := ''root'', pu_role := ''admin'', pu_tenant := None\<rparr>"

definition demo_install :: auth_state where
  "demo_install = \<lparr>as_time = 1000, as_fresh = 0, as_users = [demo_user, demo_admin], as_redis_up = True, as_redis = Map.empty, as_audit = []\<rparr>"

lemma demo_codec: "codec_ok demo_auth"
  by (simp add: codec_ok_def demo_auth_def Let_def)

lemma demo_password: "verify_password demo_auth ''first-password'' (pu_hash demo_user)"
  by (rule hash_verifies [of demo_auth "''first-password''" demo_install _ "demo_install\<lparr>as_fresh := 1\<rparr>"])
     (simp add: hash_password_def demo_user_def demo_auth_def demo_install_def PBKDF2_ITERATIONS_def)

lemma login_succeeds:
  assumes "user_row u s = Some r" "verify_password env pw (pu_hash r)"
  shows "\<exists>sess s'. login env u pw s = (Inr sess, s') \<and> se_role sess = pu_role r \<and> as_users s' = as_users s
    \<and> as_redis s' = as_redis s \<and> as_redis_up s' = as_redis_up s \<and> as_time s' = as_time s"
proof -
  have "ensure_users_seeded env s = (Inr (), s)" using assms(1) by (auto simp: ensure_users_seeded_def user_row_def)
  with assms show ?thesis
    by (simp add: login_def authenticate_user_def bindS_def note_audit_def issue_jwt_def issue_refresh_def Let_def)
qed

lemma reset_succeeds:
  assumes "user_row u s = Some r"
  shows "request_password_reset env u s = (Inr (Some (signed env (claims (PStr u) (PStr (pu_role r)) ''pwreset'' (opt_str (pu_tenant r))
    (PInt (int (pu_version r))) (ae_jti env (as_fresh s)) \<lfloor>as_time s\<rfloor> RESET_TTL))), s\<lparr>as_fresh := as_fresh s + 1\<rparr>)"
proof -
  have "ensure_users_seeded env s = (Inr (), s)" using assms by (auto simp: ensure_users_seeded_def user_row_def)
  with assms show ?thesis by (simp add: request_password_reset_def bindS_def issue_jwt_def)
qed

lemma confirm_succeeds:
  assumes "verify_jwt env tok (Some ''pwreset'') s = Some cl" "map_of cl ''sub'' = Some (PStr u)" "user_row u s = Some r"
  shows "\<exists>s'. confirm_password_reset env tok pw s = (Inr True, s') \<and> as_redis_up s' = as_redis_up s"
proof -
  have "user_row u (s\<lparr>as_fresh := n, as_users := map (set_password u h) (as_users s)\<rparr>) = Some (set_password u h r)" for n h
    using user_row_set_password [OF assms(3)] by (simp add: user_row_def)
  then show ?thesis using assms(1,2)
    by (simp add: confirm_password_reset_def bindS_def hash_password_def bump_token_version_def redis_put_def Let_def)
qed

theorem reset_ends_sessions_witness:
  "\<exists>sess s1 tok s2 s3. login demo_auth ''ann'' ''first-password'' demo_install = (Inr sess, s1)
    \<and> request_password_reset demo_auth ''ann'' (auth_steps demo_auth [Redis False] s1) = (Inr (Some tok), s2)
    \<and> confirm_password_reset demo_auth tok ''second-password'' (auth_steps demo_auth [Redis True] s2) = (Inr True, s3)
    \<and> verify_jwt demo_auth (se_access sess) None (auth_steps demo_auth [Passes 60] s3) = None
    \<and> verify_jwt demo_auth (se_refresh sess) None (auth_steps demo_auth [Passes 60] s3) = None
    \<and> verify_jwt demo_auth tok None (auth_steps demo_auth [Passes 60] s3) = None"
proof -
  have ann: "user_row ''ann'' demo_install = Some demo_user" by (simp add: user_row_def demo_install_def demo_user_def)
  obtain sess s1 where l: "login demo_auth ''ann'' ''first-password'' demo_install = (Inr sess, s1)" "as_users s1 = as_users demo_install"
    "as_redis s1 = Map.empty" "as_redis_up s1" "as_time s1 = 1000"
    using login_succeeds [OF ann demo_password] by (auto simp: demo_install_def)
  let ?t1 = "auth_steps demo_auth [Redis False] s1"
  let ?cl = "claims (PStr ''ann'') (PStr (pu_role demo_user)) ''pwreset'' (opt_str (pu_tenant demo_user)) (PInt (int (pu_version demo_user)))
      (ae_jti demo_auth (as_fresh ?t1)) \<lfloor>as_time ?t1\<rfloor> RESET_TTL"
  have t1: "?t1 = s1\<lparr>as_redis_up := False\<rparr>" by (simp add: auth_steps_def auth_step_def)
  have "user_row ''ann'' ?t1 = Some demo_user" using ann l(2) by (simp add: t1 user_row_def)
  note req = reset_succeeds [OF this, of demo_auth]
  let ?s2 = "?t1\<lparr>as_fresh := as_fresh ?t1 + 1\<rparr>" and ?tok = "signed demo_auth ?cl"
  let ?t2 = "auth_steps demo_auth [Redis True] ?s2"
  have t2: "?t2 = s1\<lparr>as_fresh := as_fresh s1 + 1, as_redis_up := True\<rparr>" by (simp add: auth_steps_def auth_step_def)
  have "verify_jwt demo_auth ?tok (Some ''pwreset'') ?t2 = Some ?cl"
    using l(3,5) unfolding verify_signed [OF demo_codec refl] t2
    by (simp add: t1 RESET_TTL_def not_revoked_def version_current_def redis_get_def)
  moreover have "user_row ''ann'' ?t2 = Some demo_user" using ann l(2) unfolding t2 by (simp add: user_row_def)
  ultimately obtain s3 where c: "confirm_password_reset demo_auth ?tok ''second-password'' ?t2 = (Inr True, s3)" "as_redis_up s3"
    using confirm_succeeds [of demo_auth ?tok ?t2 ?cl "''ann''" demo_user] unfolding t2 by auto
  have up: "as_redis_up ?t2" "as_redis_up (auth_steps demo_auth [Passes 60] s3)"
    using c(2) unfolding t2 by (simp_all add: auth_steps_def auth_step_def)
  have "\<not> list_ex (removes ''ann'') ([Redis False] @ [Redis True] @ [Passes 60])" by simp
  from reset_ends_sessions [OF demo_codec l(1) this req c(1) up(1) refl up(2)] l(1) req c(1) show ?thesis by blast
qed

theorem session_admits_witness:
  "\<exists>sess s1. login demo_auth ''ann'' ''first-password'' demo_install = (Inr sess, s1)
    \<and> fst (authorize demo_auth [Admin] (bearing (se_access sess)) s1) = Inl (HTTPException 403 (Fmt ''role not permitted'' []))
    \<and> (\<exists>p. fst (authorize demo_auth [Viewer] (bearing (se_access sess)) s1) = Inr p \<and> p_name p = ''ann'')
    \<and> fst (authorize demo_auth [Viewer] (bearing (se_refresh sess)) s1) = Inl (HTTPException 401 (Fmt ''authentication required'' []))"
proof -
  have ann: "user_row ''ann'' demo_install = Some demo_user" by (simp add: user_row_def demo_install_def demo_user_def)
  obtain sess s1 where l: "login demo_auth ''ann'' ''first-password'' demo_install = (Inr sess, s1)" "se_role sess = ''operator''"
    "as_redis s1 = Map.empty" "as_time s1 = 1000"
    using login_succeeds [OF ann demo_password] by (auto simp: demo_install_def demo_user_def)
  obtain v where v: "issued demo_auth ''ann'' ''access'' v (se_access sess)" "issued demo_auth ''ann'' ''refresh'' v (se_refresh sess)"
    using login_issues [OF l(1)] by blast
  obtain cl where cl: "token_claims demo_auth (se_access sess) = Some cl" using issued_claims [OF demo_codec v(1)] by metis
  have fine: "not_revoked demo_auth cl s1" "version_current demo_auth cl s1"
    using l(3) by (simp_all add: not_revoked_def version_current_def redis_get_def)
  have "CHR ''.'' \<in> set (signed env c)" for env c by (simp add: signed_def Let_def)
  then have "CHR ''.'' \<in> set (se_access sess)" "CHR ''.'' \<in> set (se_refresh sess)" using v by (auto simp: issued_def)
  then have "se_access sess \<noteq> ''svc-key''" "se_refresh sess \<noteq> ''svc-key''" by auto
  then have keys: "{se_access sess, se_refresh sess} \<inter> fst ` set (ae_api_keys demo_auth) = {}" by (simp add: demo_auth_def)
  have "ae_enforced demo_auth" "as_time s1 \<le> of_int \<lfloor>as_time demo_install\<rfloor> + 3600" using l(4) by (simp_all add: demo_auth_def demo_install_def)
  from session_admits [OF demo_codec this(1) l(1) cl this(2) fine keys] l(1,2) show ?thesis
    by (simp add: role_of_def)
qed

theorem admin_remains_witness:
  "\<exists>r\<in>set (as_users (auth_steps demo_auth [RemoveUser ''root'' (bearing ''svc-key''), Login ''ann'' ''x''] demo_install)). pu_role r = ''admin''"
  using admin_remains [of demo_install demo_auth "[RemoveUser ''root'' (bearing ''svc-key''), Login ''ann'' ''x'']"]
  by (simp add: demo_install_def demo_admin_def demo_user_def Let_def)

end
