(* ===== verification/Websocket.thy ===== *)
theory Websocket
  imports Modbus_Tcp "HOL-Library.Sublist"
begin

text \<open>
  The WebSocket transport of \<^verbatim>\<open>src/drivers/ocpp_csms/transport.py\<close>: the frames, the opening
  handshake of both ends, and the loop that serves a connection. A text is the list of its UTF-8
  octets; what the other end sends is the octets that arrive before it closes. SHA-1 with the
  base 64 of it is a parameter, and the request line and headers are taken to be ASCII.
\<close>

unbundle bit_operations_syntax

definition OP_TEXT :: byte where "OP_TEXT = 0x1"
definition OP_CLOSE :: byte where "OP_CLOSE = 0x8"
definition OP_PING :: byte where "OP_PING = 0x9"
definition OP_PONG :: byte where "OP_PONG = 0xA"

subsection \<open>UTF-8\<close>

definition continues :: "byte \<Rightarrow> bool" where
  "continues b \<longleftrightarrow> 0x80 \<le> b \<and> b \<le> 0xBF"

text \<open>How many octets the well-formed character at the front takes, 0 when there is none.\<close>

definition utf8_len :: "byte list \<Rightarrow> nat" where
  "utf8_len bs = (case bs of [] \<Rightarrow> 0 | b # cs \<Rightarrow>
     if b < 0x80 then 1
     else if 0xC2 \<le> b \<and> b \<le> 0xDF then if cs \<noteq> [] \<and> continues (cs ! 0) then 2 else 0
     else if 0xE0 \<le> b \<and> b \<le> 0xEF then
       if 2 \<le> length cs \<and> continues (cs ! 0) \<and> continues (cs ! 1)
          \<and> (b = 0xE0 \<longrightarrow> 0xA0 \<le> cs ! 0) \<and> (b = 0xED \<longrightarrow> cs ! 0 \<le> 0x9F) then 3 else 0
     else if 0xF0 \<le> b \<and> b \<le> 0xF4 then
       if 3 \<le> length cs \<and> continues (cs ! 0) \<and> continues (cs ! 1) \<and> continues (cs ! 2)
          \<and> (b = 0xF0 \<longrightarrow> 0x90 \<le> cs ! 0) \<and> (b = 0xF4 \<longrightarrow> cs ! 0 \<le> 0x8F) then 4 else 0
     else 0)"

text \<open>\<^verbatim>\<open>decode("utf-8")\<close> succeeds; \<^verbatim>\<open>decode("utf-8", "ignore")\<close> leaves the octets of the characters there are.\<close>

function utf8_ok :: "byte list \<Rightarrow> bool" where
  "utf8_ok bs = (if bs = [] then True else if utf8_len bs = 0 then False else utf8_ok (drop (utf8_len bs) bs))"
  by pat_completeness auto
termination by (relation "measure length") auto

function utf8_ignore :: "byte list \<Rightarrow> byte list" where
  "utf8_ignore bs = (if bs = [] then [] else if utf8_len bs = 0 then utf8_ignore (tl bs)
     else take (utf8_len bs) bs @ utf8_ignore (drop (utf8_len bs) bs))"
  by pat_completeness auto
termination by (relation "measure length") auto

declare utf8_ok.simps [simp del] utf8_ignore.simps [simp del]

lemma utf8_ignore_ok: "utf8_ok bs \<Longrightarrow> utf8_ignore bs = bs"
proof (induction bs rule: utf8_ok.induct)
  case (1 bs)
  show ?case
  proof (cases "bs = []")
    case False
    with 1 show ?thesis by (simp add: utf8_ok.simps [of bs] utf8_ignore.simps [of bs] split: if_splits)
  qed (simp add: utf8_ignore.simps)
qed

lemma utf8_ascii: "list_all (\<lambda>b. b < 0x80) bs \<Longrightarrow> utf8_ok bs"
proof (induction bs)
  case (Cons b bs)
  then show ?case by (simp add: utf8_ok.simps [of "b # bs"] utf8_len_def)
qed (simp add: utf8_ok.simps)

subsection \<open>Frames\<close>

definition masked_with :: "byte list \<Rightarrow> byte list \<Rightarrow> byte list" where
  "masked_with key data = map (\<lambda>i. data ! i XOR key ! (i mod 4)) [0..<length data]"

text \<open>The key of a masked frame is the four random octets the sender drew.\<close>

definition encode_frame :: "byte list \<Rightarrow> byte list option \<Rightarrow> byte \<Rightarrow> byte list result" where
  "encode_frame data key opcode = (let mb = (case key of None \<Rightarrow> 0 | Some _ \<Rightarrow> 0x80); n = length data in
     bindR (if n < 126 then Inr [mb OR word_of_nat n]
            else if n < 65536 then bindR (pack_be 2 n) (\<lambda>l. Inr ((mb OR 126) # l))
            else bindR (pack_be 8 n) (\<lambda>l. Inr ((mb OR 127) # l))) (\<lambda>header.
     Inr ([0x80 OR opcode] @ header @ (case key of None \<Rightarrow> data | Some k \<Rightarrow> k @ masked_with k data))))"

text \<open>The opcode and payload of the next frame and what follows it; \<open>None\<close> when the other end closed first.\<close>

definition read_length :: "byte \<Rightarrow> byte list \<Rightarrow> (nat \<times> byte list) option" where
  "read_length b stream = (let n = unat (b AND 0x7F) in
     if n = 126 then map_option (\<lambda>(ext, rest). (be_value ext, rest)) (recv_exact 2 stream)
     else if n = 127 then map_option (\<lambda>(ext, rest). (be_value ext, rest)) (recv_exact 8 stream)
     else Some (n, stream))"

definition read_frame :: "byte list \<Rightarrow> ((byte \<times> byte list) \<times> byte list) option" where
  "read_frame stream = (case recv_exact 2 stream of None \<Rightarrow> None | Some (hdr, s1) \<Rightarrow>
     let opcode = hdr ! 0 AND 0x0F; is_masked = (hdr ! 1 AND 0x80 \<noteq> 0) in
     case read_length (hdr ! 1) s1 of None \<Rightarrow> None | Some (n, s2) \<Rightarrow>
     case (if is_masked then recv_exact 4 s2 else Some ([], s2)) of None \<Rightarrow> None | Some (key, s3) \<Rightarrow>
     case recv_exact n s3 of None \<Rightarrow> None | Some (payload, rest) \<Rightarrow>
       Some ((opcode, if is_masked then masked_with key payload else payload), rest))"

lemma recv_exact_append [simp]: "length xs = n \<Longrightarrow> recv_exact n (xs @ ys) = Some (xs, ys)"
  by (simp add: recv_exact_def)

lemma recv_exact_shorter: "recv_exact n s = Some (a, b) \<Longrightarrow> length b = length s - n \<and> n \<le> length s"
  by (auto simp: recv_exact_def split: if_splits)

lemma read_frame_shorter:
  assumes "read_frame stream = Some (f, rest)"
  shows "length rest < length stream"
proof -
  obtain hdr s1 n s2 key s3 payload where
    "recv_exact 2 stream = Some (hdr, s1)" "read_length (hdr ! 1) s1 = Some (n, s2)"
    "(if hdr ! 1 AND 0x80 \<noteq> 0 then recv_exact 4 s2 else Some ([], s2)) = Some (key, s3)"
    "recv_exact n s3 = Some (payload, rest)"
    using assms by (auto simp: read_frame_def Let_def split: option.splits)
  then show ?thesis
    by (auto simp: read_length_def Let_def dest!: recv_exact_shorter split: if_splits)
qed

subsection \<open>What one end writes the other reads\<close>

lemma masked_twice [simp]: "masked_with key (masked_with key data) = data"
  by (rule nth_equalityI) (simp_all add: masked_with_def xor.assoc)

lemma length_masked [simp]: "length (masked_with key data) = length data"
  by (simp add: masked_with_def)

lemma small_length:
  "n < 128 \<Longrightarrow> unat ((word_of_nat n :: byte) AND 0x7F) = n \<and> unat ((0x80 OR word_of_nat n :: byte) AND 0x7F) = n
     \<and> (word_of_nat n :: byte) AND 0x80 = 0 \<and> (0x80 OR word_of_nat n :: byte) AND 0x80 \<noteq> 0"
proof -
  have "list_all (\<lambda>n. unat ((word_of_nat n :: byte) AND 0x7F) = n \<and> unat ((0x80 OR word_of_nat n :: byte) AND 0x7F) = n
     \<and> (word_of_nat n :: byte) AND 0x80 = 0 \<and> (0x80 OR word_of_nat n :: byte) AND 0x80 \<noteq> 0) [0..<128]"
    by code_simp
  then show "n < 128 \<Longrightarrow> ?thesis" by (simp add: list_all_iff)
qed

lemma opcode_kept:
  assumes "op < 0x10"
  shows "(0x80 OR op :: byte) AND 0x0F = op"
proof -
  have all: "list_all (\<lambda>n. (0x80 OR word_of_nat n :: byte) AND 0x0F = word_of_nat n) [0..<16]" by code_simp
  have "unat op < 16" using unat_mono [OF assms] by simp
  then have "(0x80 OR word_of_nat (unat op) :: byte) AND 0x0F = word_of_nat (unat op)"
    using all unfolding list_all_iff by (intro bspec [of _ _ "unat op"]) auto
  then show ?thesis by simp
qed

lemma recv_two [simp]: "recv_exact 2 (x # y # zs) = Some ([x, y], zs)"
  by (simp add: recv_exact_def numeral_2_eq_2)

definition sendable :: "byte list option \<Rightarrow> byte list \<Rightarrow> bool" where
  "sendable key data \<longleftrightarrow> (\<forall>k. key = Some k \<longrightarrow> length k = 4) \<and> length data < 2 ^ 64"

lemma read_encoded:
  assumes "sendable key data" "op < 0x10"
  shows "\<exists>bs. encode_frame data key op = Inr bs \<and> read_frame (bs @ rest) = Some ((op, data), rest)"
proof -
  define mb :: byte where "mb = (case key of None \<Rightarrow> 0 | Some _ \<Rightarrow> 0x80)"
  define body where "body = (case key of None \<Rightarrow> data | Some k \<Rightarrow> k @ masked_with k data)"
  let ?n = "length data"
  define c where "c = (if ?n < 126 then ?n else if ?n < 65536 then 126 else 127)"
  define ext where "ext = (if ?n < 126 then [] else if ?n < 65536 then be_bytes 2 ?n else be_bytes 8 ?n)"
  have n: "?n < 18446744073709551616" using assms(1) by (simp add: sendable_def)
  have c: "c < 128" by (simp add: c_def)
  have enc: "encode_frame data key op = Inr ([0x80 OR op, mb OR word_of_nat c] @ ext @ body)"
    using n by (simp add: encode_frame_def pack_be_def mb_def body_def c_def ext_def Let_def split: option.split)
  have len: "read_length (mb OR word_of_nat c) (ext @ xs) = Some (?n, xs)" for xs
  proof -
    have "unat ((mb OR word_of_nat c) AND 0x7F) = c"
      using small_length [OF c] by (auto simp: mb_def split: option.split)
    then show ?thesis using n by (auto simp: read_length_def c_def ext_def be_value_bytes Let_def)
  qed
  have bit: "(mb OR word_of_nat c) AND 0x80 \<noteq> 0 \<longleftrightarrow> key \<noteq> None"
    using small_length [OF c] by (auto simp: mb_def split: option.split)
  have "read_frame (([0x80 OR op, mb OR word_of_nat c] @ ext @ body) @ rest) = Some ((op, data), rest)"
    using assms bit by (cases key) (simp_all add: read_frame_def len body_def opcode_kept
        sendable_def Let_def)
  with enc show ?thesis by blast
qed

subsection \<open>Serving a connection\<close>

text \<open>
  The loop over the frames of a connection: it ends when the other end closes, by a frame or by
  the stream, when the server stops (\<open>go\<close>), and on whatever a callback raises.
\<close>

function ws_serve :: "('s \<Rightarrow> bool) \<Rightarrow> (byte list \<Rightarrow> ('s, unit) action) \<Rightarrow> (byte list \<Rightarrow> ('s, unit) action) \<Rightarrow> byte list
    \<Rightarrow> ('s, unit) action" where
  "ws_serve go on_text send stream s = (if \<not> go s then (Inr (), s) else case read_frame stream of
       None \<Rightarrow> (Inr (), s)
     | Some ((opcode, payload), rest) \<Rightarrow>
         if opcode = OP_CLOSE then (Inr (), s)
         else if opcode = OP_PING then
           bindS (bindS (lift (\<lambda>_. encode_frame (utf8_ignore payload) None OP_PONG)) send) (\<lambda>_. ws_serve go on_text send rest) s
         else if opcode = OP_TEXT then
           if utf8_ok payload then bindS (on_text payload) (\<lambda>_. ws_serve go on_text send rest) s
           else (Inl (ValueError (Fmt ''codec can't decode'' [])), s)
         else ws_serve go on_text send rest s)"
  by pat_completeness auto
termination by (relation "measure (\<lambda>(go, on_text, send, stream, s). length stream)") (auto dest: read_frame_shorter)

declare ws_serve.simps [simp del]

text \<open>\<^verbatim>\<open>_handle\<close> after the handshake: the connection is announced, served, and its end announced in any case.\<close>

definition handle_connection :: "('s \<Rightarrow> bool) \<Rightarrow> ('s, unit) action \<Rightarrow> (byte list \<Rightarrow> ('s, unit) action)
    \<Rightarrow> (byte list \<Rightarrow> ('s, unit) action) \<Rightarrow> ('s, unit) action \<Rightarrow> byte list \<Rightarrow> ('s, unit) action" where
  "handle_connection go on_connect on_text send on_close stream = bindS on_connect (\<lambda>_ s.
     let (r, s1) = ws_serve go on_text send stream s; (r2, s2) = on_close s1 in
     (bindR r2 (\<lambda>_. r), s2))"

text \<open>The messages of a connection, one callback after the other.\<close>

primrec deliver :: "('s \<Rightarrow> bool) \<Rightarrow> (byte list \<Rightarrow> ('s, unit) action) \<Rightarrow> byte list list \<Rightarrow> ('s, unit) action" where
  "deliver go on_text [] = ret ()"
| "deliver go on_text (m # ms) = (\<lambda>s. if go s then bindS (on_text m) (\<lambda>_. deliver go on_text ms) s else (Inr (), s))"

definition framed :: "byte list option \<times> byte list \<Rightarrow> byte list" where
  "framed km = (case encode_frame (snd km) (fst km) OP_TEXT of Inl _ \<Rightarrow> [] | Inr bs \<Rightarrow> bs)"

lemma framed_read: "sendable k m \<Longrightarrow> read_frame (framed (k, m) @ rest) = Some ((OP_TEXT, m), rest)"
  using read_encoded [of k m OP_TEXT rest] by (auto simp: framed_def OP_TEXT_def)

lemma ws_serve_framed:
  assumes "list_all (\<lambda>(k, m). sendable k m \<and> utf8_ok m) kms"
  shows "ws_serve go on_text send (concat (map framed kms)) s = deliver go on_text (map snd kms) s"
  using assms
proof (induction kms arbitrary: s)
  case (Cons km kms)
  obtain k m where km: "km = (k, m)" by fastforce
  have "ws_serve go on_text send (framed (k, m) @ concat (map framed kms)) s
      = (if go s then bindS (on_text m) (\<lambda>_. ws_serve go on_text send (concat (map framed kms))) s else (Inr (), s))"
    using Cons.prems km framed_read [of k m "concat (map framed kms)"]
    by (subst ws_serve.simps) (simp add: OP_TEXT_def OP_CLOSE_def OP_PING_def)
  also have "\<dots> = deliver go on_text (map snd (km # kms)) s"
    using Cons km by (simp add: bindS_def split: prod.split sum.split)
  finally show ?case by (simp add: km)
next
  case Nil
  show ?case by (subst ws_serve.simps) (simp add: read_frame_def recv_exact_def)
qed

text \<open>
  C36: What one end of a connection sends as texts, masked or not and of whatever length, the
  other end's callback gets, each once, whole and in order; then the end of the connection is
  announced.
\<close>
theorem websocket_delivers:
  assumes "list_all (\<lambda>(k, m). sendable k m \<and> utf8_ok m) kms" "opened s = (Inr (), s0)"
    "deliver go on_text (map snd kms) s0 = (r, s1)" "on_close s1 = (Inr (), s2)"
  shows "handle_connection go opened on_text send on_close (concat (map framed kms)) s = (r, s2)"
  using assms(2-) ws_serve_framed [OF assms(1), of go on_text send s0] by (simp add: handle_connection_def bindS_def)

theorem websocket_delivers_witness:
  "handle_connection (\<lambda>_. True) (modify (\<lambda>ms. ms @ [[]])) (\<lambda>m. modify (\<lambda>ms. ms @ [m])) (\<lambda>_. ret ()) (modify (\<lambda>ms. ms @ [[1, 1]]))
     (concat (map framed [(Some [7, 8, 9, 10], [72, 105]), (None, replicate 200 65)])) []
   = (Inr (), [[], [72, 105], replicate 200 65, [1, 1]])"
proof (rule websocket_delivers)
  show "list_all (\<lambda>(k, m). sendable k m \<and> utf8_ok m) [(Some [7, 8, 9, 10], [72, 105]), (None, replicate 200 65)]"
    by (auto simp: sendable_def list_all_iff intro!: utf8_ascii)
qed (simp_all add: bindS_def)

text \<open>
  The final bit of a frame is not looked at: the first fragment of a message is handed on as if it
  were the whole, and the fragments that continue it are dropped.
\<close>

lemma fragments_cut:
  "ws_serve (\<lambda>_. True) (\<lambda>m. modify (\<lambda>ms. ms @ [m])) (\<lambda>_. ret ()) ([0x01, 2, 72, 101] @ [0x80, 1, 121]) [] = (Inr (), [[72, 101]])"
  by code_simp

end
