(* ===== verification/Ws_Handshake.thy ===== *)
theory Ws_Handshake
  imports Websocket
begin

text \<open>
  The opening handshake of \<^verbatim>\<open>src/drivers/ocpp_csms/transport.py\<close>: the request a charge point sends,
  how the server reads it and takes the charger's identity from the path, and what the client
  makes of the answer. What arrives is a list of the pieces \<^verbatim>\<open>recv\<close> gave, an empty one or the end
  of the list meaning that the other end closed.
\<close>

definition crlf :: string where "crlf = [CHR 0x0D, CHR 0x0A]"

text \<open>\<^verbatim>\<open>s.split("\r\n")\<close>\<close>

fun split_lines :: "string \<Rightarrow> string list" where
  "split_lines (a # b # cs) = (if [a, b] = crlf then [] # split_lines cs
     else (case split_lines (b # cs) of [] \<Rightarrow> [[a]] | p # ps \<Rightarrow> (a # p) # ps))"
| "split_lines cs = [cs]"










subsection \<open>Lines\<close>

definition plain :: "string \<Rightarrow> bool" where
  "plain s \<longleftrightarrow> CHR 0x0D \<notin> set s"


lemma split_lines_plain: "plain a \<Longrightarrow> split_lines a = [a]"
proof (induction a rule: split_lines.induct)
  case (1 a b cs)
  then show ?case by (auto simp: plain_def crlf_def)
qed simp_all





subsection \<open>A charge point dials in\<close>











end
