(* ===== verification/Ocpp.thy ===== *)
theory Ocpp
  imports Edge_Adapters
begin

text \<open>
  The OCPP 1.6 central system and its bridge to MQTT: \<^verbatim>\<open>src/drivers/ocpp_csms/models.py\<close> and
  \<^verbatim>\<open>driver.py\<close>. A message on a connection or a topic is the value its JSON text stands for.
  A connection is its number and the charger it is for. The wire and the broker may refuse what
  is sent (\<open>csms_env\<close>). The broker's callbacks run one at a time, so at most one command waits for
  an answer; the connections' callbacks run in between.
\<close>

subsection \<open>Frames\<close>

datatype ocpp_frame = OCall pyval pyval pyval | OResult pyval pyval | OError pyval pyval pyval

definition encode_call :: "string \<Rightarrow> string \<Rightarrow> pyval \<Rightarrow> pyval" where
  "encode_call uid act payload = PList [PInt 2, PStr uid, PStr act, payload]"

definition encode_result :: "pyval \<Rightarrow> pyval \<Rightarrow> pyval" where
  "encode_result uid payload = PList [PInt 3, uid, payload]"

definition encode_error :: "pyval \<Rightarrow> string \<Rightarrow> string \<Rightarrow> pyval" where
  "encode_error uid code descr = PList [PInt 4, uid, PStr code, PStr descr, PDict []]"

definition equals_int :: "pyval \<Rightarrow> int \<Rightarrow> bool" where
  "equals_int v n = (case v of PInt i \<Rightarrow> i = n | PFloat x \<Rightarrow> x = Fin (of_int n) | PBool b \<Rightarrow> n = (if b then 1 else 0) | _ \<Rightarrow> False)"

definition unknown_type :: exn where
  "unknown_type = ValueError (Fmt ''unknown OCPP message type'' [])"

definition decode_items :: "pyval list \<Rightarrow> ocpp_frame result" where
  "decode_items xs = bindR (nth_item xs 0) (\<lambda>t.
     if equals_int t 2 then bindR (nth_item xs 1) (\<lambda>u. bindR (nth_item xs 2) (\<lambda>a. bindR (nth_item xs 3) (\<lambda>p. Inr (OCall u a p))))
     else if equals_int t 3 then bindR (nth_item xs 1) (\<lambda>u. bindR (nth_item xs 2) (\<lambda>p. Inr (OResult u p)))
     else if equals_int t 4 then bindR (nth_item xs 1) (\<lambda>u. bindR (nth_item xs 2) (\<lambda>c.
       Inr (OError u c (if 3 < length xs then xs ! 3 else PStr ''''))))
     else Inl unknown_type)"

definition decode_frame :: "pyval \<Rightarrow> ocpp_frame result" where
  "decode_frame v = (case v of
       PList xs \<Rightarrow> decode_items xs
     | PStr s \<Rightarrow> if s = [] then Inl (IndexErr (Fmt ''string index out of range'' [])) else Inl unknown_type
     | PDict _ \<Rightarrow> Inl (KeyErr ''0'')
     | _ \<Rightarrow> Inl (TypeErr (Fmt ''object is not subscriptable'' [])))"

subsection \<open>Meter values\<close>

text \<open>\<^verbatim>\<open>v.get(k, dflt)\<close> and the items a \<^verbatim>\<open>for\<close> goes through.\<close>

definition attr_get :: "pyval \<Rightarrow> string \<Rightarrow> pyval \<Rightarrow> pyval result" where
  "attr_get v k dflt = (case v of PDict d \<Rightarrow> Inr (dict_get d k dflt)
     | _ \<Rightarrow> Inl (AttrErr (Fmt ''object has no attribute get'' [])))"

definition items_of :: "pyval \<Rightarrow> pyval list result" where
  "items_of v = (case v of PList xs \<Rightarrow> Inr xs | PDict d \<Rightarrow> Inr (map (PStr \<circ> fst) d) | PStr s \<Rightarrow> Inr (map (\<lambda>c. PStr [c]) s)
     | _ \<Rightarrow> Inl (TypeErr (Fmt ''object is not iterable'' [])))"

primrec foldR :: "('a \<Rightarrow> 'b \<Rightarrow> 'b result) \<Rightarrow> 'a list \<Rightarrow> 'b \<Rightarrow> 'b result" where
  "foldR f [] b = Inr b"
| "foldR f (x # xs) b = bindR (f x b) (foldR f xs)"

definition measurand_keys :: "(string \<times> string) list" where
  "measurand_keys = [(''Power.Active.Import'', ''_power_w''), (''Voltage'', ''voltage''), (''Current.Import'', ''current''),
     (''Energy.Active.Import.Register'', ''_energy_wh''), (''SoC'', ''vehicle_soc'')]"

definition measurand_key :: "pyval \<Rightarrow> string option result" where
  "measurand_key m = (if \<not> hashable m then Inl unhashable else Inr (case m of PStr s \<Rightarrow> map_of measurand_keys s | _ \<Rightarrow> None))"

text \<open>\<^verbatim>\<open>float\<close> of what the charger sent: an integer from \<^verbatim>\<open>2 ** 1024 - 2 ** 970\<close> on overflows.\<close>

definition float_of_sample :: "pyval \<Rightarrow> pyfloat result" where
  "float_of_sample v = (case v of
       PInt i \<Rightarrow> if 2 ^ 1024 - 2 ^ 970 \<le> \<bar>i\<bar> then Inl (OverflowErr (Fmt ''int too large to convert to float'' [])) else py_float v
     | _ \<Rightarrow> py_float v)"

text \<open>A \<^verbatim>\<open>TypeError\<close> or \<^verbatim>\<open>ValueError\<close> of the conversion skips the sample, anything else is raised.\<close>

definition take_sample :: "pyval \<Rightarrow> (string \<times> pyfloat) list \<Rightarrow> (string \<times> pyfloat) list result" where
  "take_sample sv native = bindR (attr_get sv ''measurand'' (PStr ''Energy.Active.Import.Register'')) (\<lambda>m.
     bindR (measurand_key m) (\<lambda>key. case key of None \<Rightarrow> Inr native | Some k \<Rightarrow>
     bindR (attr_get sv ''value'' PNone) (\<lambda>v. case float_of_sample v of
         Inr x \<Rightarrow> Inr (dict_put k x native)
       | Inl (TypeErr _) \<Rightarrow> Inr native
       | Inl (ValueError _) \<Rightarrow> Inr native
       | Inl e \<Rightarrow> Inl e)))"

definition take_meter_value :: "pyval \<Rightarrow> (string \<times> pyfloat) list \<Rightarrow> (string \<times> pyfloat) list result" where
  "take_meter_value mv native = bindR (attr_get mv ''sampledValue'' (PList [])) (\<lambda>svs. bindR (items_of svs) (\<lambda>xs. foldR take_sample xs native))"

definition scaled :: "(string \<times> pyfloat) list \<Rightarrow> string \<Rightarrow> string \<Rightarrow> rat \<Rightarrow> (string \<times> pyval) list" where
  "scaled native k out_key factor = (case map_of native k of None \<Rightarrow> [] | Some x \<Rightarrow> [(out_key, PFloat (fl_scale factor x))])"

definition meter_values_to_native :: "pyval \<Rightarrow> (string \<times> pyval) list result" where
  "meter_values_to_native mvs = bindR (items_of mvs) (\<lambda>xs. bindR (foldR take_meter_value xs []) (\<lambda>native. Inr (
     scaled native ''voltage'' ''voltage'' 1 @ scaled native ''current'' ''current'' 1
     @ scaled native ''_power_w'' ''power_kw'' (1 / 1000) @ scaled native ''_energy_wh'' ''session_energy_kwh'' (1 / 1000)
     @ scaled native ''vehicle_soc'' ''vehicle_soc'' 1)))"

definition sampled_value :: "string \<Rightarrow> string \<Rightarrow> string \<Rightarrow> pyval" where
  "sampled_value v m u = PDict [(''value'', PStr v), (''measurand'', PStr m), (''unit'', PStr u)]"

subsection \<open>State\<close>

type_synonym ws = "nat \<times> string"

record charge_point =
  cp_ws :: ws
  cp_status :: pyval
  cp_txn :: int
  cp_vendor :: pyval
  cp_model :: pyval

definition new_charge_point :: "ws \<Rightarrow> charge_point" where
  "new_charge_point w = \<lparr>cp_ws = w, cp_status = PStr ''Unavailable'', cp_txn = 0, cp_vendor = PStr '''', cp_model = PStr ''''\<rparr>"

text \<open>A call waiting for its answer: whether the event is set, and what set it.\<close>

record pending =
  pd_set :: bool
  pd_ok :: bool
  pd_payload :: pyval

text \<open>The command the broker's callback is in, between sending its call and acknowledging it.\<close>

record waiting =
  wt_charger :: string
  wt_command :: pyval
  wt_uid :: string
  wt_action :: string

record csms =
  cs_cps :: "(string \<times> charge_point) list"
  cs_txn :: int
  cs_pending :: "(string \<times> pending) list"
  cs_open :: "nat \<Rightarrow> bool"
  cs_wire :: "(ws \<times> pyval) list"
  cs_sends :: nat
  cs_mqtt :: "message list"
  cs_pubs :: nat
  cs_wait :: "waiting option"

definition fresh_csms :: csms where
  "fresh_csms = \<lparr>cs_cps = [], cs_txn = 1000, cs_pending = [], cs_open = (\<lambda>_. False), cs_wire = [], cs_sends = 0,
     cs_mqtt = [], cs_pubs = 0, cs_wait = None\<rparr>"

record csms_env =
  wire_fault :: "nat \<Rightarrow> exn option"
  mqtt_fault :: "nat \<Rightarrow> exn option"
  csms_now :: string
  shown :: "pyval \<Rightarrow> string"

definition ws_send :: "csms_env \<Rightarrow> ws \<Rightarrow> pyval \<Rightarrow> (csms, unit) action" where
  "ws_send env w v c = (if \<not> cs_open c (fst w) then (Inl (ConnectionErr (Fmt ''ws closed'' [])), c)
     else let c1 = c\<lparr>cs_sends := cs_sends c + 1\<rparr> in
       case wire_fault env (cs_sends c) of
         Some e \<Rightarrow> (Inl e, c1) | None \<Rightarrow> (Inr (), c1\<lparr>cs_wire := cs_wire c @ [(w, v)]\<rparr>))"

definition csms_publish :: "csms_env \<Rightarrow> string \<Rightarrow> pyval \<Rightarrow> nat \<Rightarrow> (csms, unit) action" where
  "csms_publish env topic m qos c = (let c1 = c\<lparr>cs_pubs := cs_pubs c + 1\<rparr> in
     case mqtt_fault env (cs_pubs c) of
       Some e \<Rightarrow> (Inl e, c1) | None \<Rightarrow> (Inr (), c1\<lparr>cs_mqtt := cs_mqtt c @ [(topic, m, qos)]\<rparr>))"

definition connected :: "csms \<Rightarrow> string list" where
  "connected c = map fst (cs_cps c)"

definition dict_drop :: "'k \<Rightarrow> ('k \<times> 'v) list \<Rightarrow> ('k \<times> 'v) list" where
  "dict_drop k d = filter (\<lambda>(k', v). k' \<noteq> k) d"

lemma map_of_dict_drop [simp]: "map_of (dict_drop k d) = (map_of d)(k := None)"
  by (induction d) (auto simp: dict_drop_def fun_eq_iff)

subsection \<open>What charge points say\<close>

definition on_connect :: "ws \<Rightarrow> (csms, unit) action" where
  "on_connect w = modify (\<lambda>c. c\<lparr>cs_cps := dict_put (snd w) (new_charge_point w) (cs_cps c), cs_open := (cs_open c)(fst w := True)\<rparr>)"

definition on_close :: "ws \<Rightarrow> (csms, unit) action" where
  "on_close w = modify (\<lambda>c. c\<lparr>cs_cps := dict_drop (snd w) (cs_cps c), cs_open := (cs_open c)(fst w := False)\<rparr>)"

text \<open>The charge point's entry, when there is one.\<close>

definition set_cp :: "string \<Rightarrow> (charge_point \<Rightarrow> charge_point) \<Rightarrow> csms \<Rightarrow> csms" where
  "set_cp cid f c = (case map_of (cs_cps c) cid of None \<Rightarrow> c | Some cp \<Rightarrow> c\<lparr>cs_cps := dict_put cid (f cp) (cs_cps c)\<rparr>)"

definition telemetry_message :: "string \<Rightarrow> (string \<times> pyval) list \<Rightarrow> pyval" where
  "telemetry_message cid native = (let canon = normalize_canonical native [];
     canon1 = dict_put ''grid_import_kw'' (fl_max (Fin 0) (dict_get canon ''power_kw'' (Fin 0))) canon;
     canon2 = fold (\<lambda>k d. case map_of native k of None \<Rightarrow> d | Some v \<Rightarrow> dict_put k v d)
       [''session_energy_kwh'', ''vehicle_soc'', ''connector_status''] (map (\<lambda>(k, v). (k, PFloat v)) canon1)
     in PDict (dict_put ''device_id'' (PStr cid) canon2))"

definition charger_topic :: "string \<Rightarrow> string" where
  "charger_topic cid = ''diep/charger/'' @ cid"

definition ocpp_telemetry :: "csms_env \<Rightarrow> string \<Rightarrow> (string \<times> pyval) list \<Rightarrow> (csms, unit) action" where
  "ocpp_telemetry env cid native = csms_publish env (charger_topic cid) (telemetry_message cid native) 0"

definition with_status :: "charge_point option \<Rightarrow> (string \<times> pyval) list \<Rightarrow> (string \<times> pyval) list" where
  "with_status cp native = (case cp of None \<Rightarrow> native
     | Some p \<Rightarrow> if ''connector_status'' \<in> fst ` set native then native else native @ [(''connector_status'', cp_status p)])"

definition accepted_tag :: "string \<times> pyval" where
  "accepted_tag = (''idTagInfo'', PDict [(''status'', PStr ''Accepted'')])"

definition boot_notification :: "csms_env \<Rightarrow> string \<Rightarrow> pyval \<Rightarrow> (csms, pyval) action" where
  "boot_notification env cid payload = bindS (\<lambda>c. (case map_of (cs_cps c) cid of
       None \<Rightarrow> ret ()
     | Some _ \<Rightarrow> bindS (lift (\<lambda>_. attr_get payload ''chargePointVendor'' (PStr ''''))) (\<lambda>v.
         bindS (modify (set_cp cid (\<lambda>cp. cp\<lparr>cp_vendor := v\<rparr>))) (\<lambda>_.
         bindS (lift (\<lambda>_. attr_get payload ''chargePointModel'' (PStr ''''))) (\<lambda>m.
         modify (set_cp cid (\<lambda>cp. cp\<lparr>cp_model := m\<rparr>)))))) c)
     (\<lambda>_. ret (PDict [(''currentTime'', PStr (csms_now env)), (''interval'', PInt 30), (''status'', PStr ''Accepted'')]))"

definition take_meter_values :: "csms_env \<Rightarrow> string \<Rightarrow> pyval \<Rightarrow> (csms, pyval) action" where
  "take_meter_values env cid payload = bindS (lift (\<lambda>_. bindR (attr_get payload ''meterValue'' (PList [])) meter_values_to_native)) (\<lambda>native c.
     let native1 = with_status (map_of (cs_cps c) cid) native in
     bindS (if native1 = [] then ret () else ocpp_telemetry env cid native1) (\<lambda>_. ret (PDict [])) c)"

definition start_transaction :: "string \<Rightarrow> (csms, pyval) action" where
  "start_transaction cid c = (let txn = cs_txn c + 1 in
     (Inr (PDict [(''transactionId'', PInt txn), accepted_tag]), set_cp cid (\<lambda>cp. cp\<lparr>cp_txn := txn\<rparr>) (c\<lparr>cs_txn := txn\<rparr>)))"

definition call_result :: "csms_env \<Rightarrow> string \<Rightarrow> pyval \<Rightarrow> pyval \<Rightarrow> (csms, pyval) action" where
  "call_result env cid act payload = (case act of PStr a \<Rightarrow>
       if a = ''BootNotification'' then boot_notification env cid payload
       else if a = ''Heartbeat'' then ret (PDict [(''currentTime'', PStr (csms_now env))])
       else if a = ''StatusNotification'' then bindS (lift (\<lambda>_. attr_get payload ''status'' (PStr ''Available''))) (\<lambda>st.
         bindS (modify (set_cp cid (\<lambda>cp. cp\<lparr>cp_status := st\<rparr>))) (\<lambda>_. ret (PDict [])))
       else if a = ''StartTransaction'' then start_transaction cid
       else if a = ''StopTransaction'' then bindS (modify (set_cp cid (\<lambda>cp. cp\<lparr>cp_txn := 0\<rparr>))) (\<lambda>_. ret (PDict [accepted_tag]))
       else if a = ''MeterValues'' then take_meter_values env cid payload
       else ret (PDict [])
     | _ \<Rightarrow> ret (PDict []))"

text \<open>\<^verbatim>\<open>except ConnectionError: pass\<close>\<close>

definition quiet_send :: "csms_env \<Rightarrow> ws \<Rightarrow> pyval \<Rightarrow> (csms, unit) action" where
  "quiet_send env w v c = (case ws_send env w v c of (Inl (ConnectionErr _), c1) \<Rightarrow> (Inr (), c1) | x \<Rightarrow> x)"

definition handle_call :: "csms_env \<Rightarrow> ws \<Rightarrow> pyval \<Rightarrow> pyval \<Rightarrow> pyval \<Rightarrow> (csms, unit) action" where
  "handle_call env w uid act payload = bindS (call_result env (snd w) act payload) (\<lambda>res. quiet_send env w (encode_result uid res))"

definition resolve_pending :: "pyval \<Rightarrow> bool \<Rightarrow> pyval \<Rightarrow> (csms, unit) action" where
  "resolve_pending uid ok payload c = (if \<not> hashable uid then (Inl unhashable, c) else case uid of
       PStr u \<Rightarrow> (case map_of (cs_pending c) u of None \<Rightarrow> (Inr (), c)
         | Some _ \<Rightarrow> (Inr (), c\<lparr>cs_pending := dict_put u \<lparr>pd_set = True, pd_ok = ok, pd_payload = payload\<rparr> (cs_pending c)\<rparr>))
     | _ \<Rightarrow> (Inr (), c))"

text \<open>A message, \<open>None\<close> for a text that is not JSON. Only a \<^verbatim>\<open>ValueError\<close> of the decoder is caught.\<close>

definition ws_message :: "csms_env \<Rightarrow> ws \<Rightarrow> pyval option \<Rightarrow> (csms, unit) action" where
  "ws_message env w text = (case text of None \<Rightarrow> ret () | Some v \<Rightarrow> (case decode_frame v of
       Inl (ValueError _) \<Rightarrow> ret ()
     | Inl e \<Rightarrow> fail e
     | Inr (OCall uid act payload) \<Rightarrow> handle_call env w uid act payload
     | Inr (OResult uid payload) \<Rightarrow> resolve_pending uid True payload
     | Inr (OError uid code _) \<Rightarrow> resolve_pending uid False (PDict [(''error'', code)])))"

text \<open>What escapes the callback ends the connection.\<close>

definition says :: "csms_env \<Rightarrow> ws \<Rightarrow> pyval option \<Rightarrow> csms \<Rightarrow> csms" where
  "says env w text c = (case ws_message env w text c of (Inr _, c1) \<Rightarrow> c1 | (Inl _, c1) \<Rightarrow> snd (on_close w c1))"

subsection \<open>Commands\<close>

definition charging_profile :: "pyfloat \<Rightarrow> pyval" where
  "charging_profile limit_kw = PDict [(''chargingProfileId'', PInt 1), (''stackLevel'', PInt 0),
     (''chargingProfilePurpose'', PStr ''TxDefaultProfile''), (''chargingProfileKind'', PStr ''Absolute''),
     (''chargingSchedule'', PDict [(''chargingRateUnit'', PStr ''W''),
       (''chargingSchedulePeriod'', PList [PDict [(''startPeriod'', PInt 0), (''limit'', PFloat (fl_scale 1000 limit_kw))]])])]"

text \<open>A value inside a message, where \<open>shown\<close> is Python's \<^verbatim>\<open>str\<close> of what is not a string.\<close>

definition shown_text :: "csms_env \<Rightarrow> pyval \<Rightarrow> string" where
  "shown_text env v = (case v of PStr s \<Rightarrow> s | _ \<Rightarrow> shown env v)"

type_synonym ack_verdict = "string \<times> pyval"

definition ack_from :: "csms_env \<Rightarrow> bool \<Rightarrow> pyval \<Rightarrow> ack_verdict result" where
  "ack_from env ok resp = (if \<not> ok then bindR (attr_get resp ''error'' (PStr ''call error'')) (\<lambda>e. Inr (''FAILED'', e))
     else bindR (attr_get (if truthy resp then resp else PDict []) ''status'' (PStr ''Accepted'')) (\<lambda>st.
       Inr (if st \<in> {PStr ''Accepted'', PStr ''Scheduled''} then (''ACKED'', PNone)
            else (''FAILED'', PStr (''charge point returned status '' @ [CHR 0x27] @ shown_text env st @ [CHR 0x27])))))"

text \<open>A refusal, or the call a command is to make: \<^verbatim>\<open>send_command\<close> up to its \<^verbatim>\<open>_call\<close>.\<close>

definition subscript :: "pyval \<Rightarrow> string \<Rightarrow> pyval result" where
  "subscript v k = (case v of PDict d \<Rightarrow> (case map_of d k of None \<Rightarrow> Inl (KeyErr k) | Some x \<Rightarrow> Inr x)
     | _ \<Rightarrow> Inl (TypeErr (Fmt ''indices must be integers'' [])))"

definition limit_profile :: "pyval \<Rightarrow> pyval result" where
  "limit_profile v = bindR (py_float v) (\<lambda>x. Inr (charging_profile x))"

definition command_call :: "csms_env \<Rightarrow> charge_point \<Rightarrow> pyval \<Rightarrow> pyval \<Rightarrow> (ack_verdict + string \<times> pyval) result" where
  "command_call env cp ty params =
     (if ty = PStr ''start_charging'' then
        bindR (attr_get params ''max_power_kw'' PNone) (\<lambda>limit.
        bindR (if limit = PNone then Inr [] else bindR (limit_profile limit) (\<lambda>pr. Inr [(''chargingProfile'', pr)])) (\<lambda>extra.
        Inr (Inr (''RemoteStartTransaction'', PDict ([(''idTag'', PStr ''DIEP''), (''connectorId'', PInt 1)] @ extra)))))
      else if ty = PStr ''stop_charging'' then
        Inr (Inr (''RemoteStopTransaction'', PDict [(''transactionId'', PInt (cp_txn cp))]))
      else if ty = PStr ''set_limit'' then
        bindR (holds_key ''max_power_kw'' params) (\<lambda>there.
        if \<not> there then Inr (Inl (''FAILED'', PStr ''set_limit requires params.max_power_kw''))
        else bindR (subscript params ''max_power_kw'') (\<lambda>limit. bindR (limit_profile limit) (\<lambda>pr.
          Inr (Inr (''SetChargingProfile'', PDict [(''connectorId'', PInt 1), (''csChargingProfiles'', pr)])))))
      else Inr (Inl (''FAILED'', PStr (''unsupported command '' @ [CHR 0x27] @ shown_text env ty @ [CHR 0x27]))))"

text \<open>\<^verbatim>\<open>_call\<close> up to the wait: the pending entry and the frame; \<open>Some\<close> ack_verdict when it could not be sent.\<close>

definition place_call :: "csms_env \<Rightarrow> charge_point \<Rightarrow> string \<Rightarrow> string \<Rightarrow> pyval \<Rightarrow> (csms, (bool \<times> pyval) option) action" where
  "place_call env cp uid act payload c = (
     let c1 = c\<lparr>cs_pending := dict_put uid \<lparr>pd_set = False, pd_ok = False, pd_payload = PDict []\<rparr> (cs_pending c)\<rparr> in
     case ws_send env (cp_ws cp) (encode_call uid act payload) c1 of
       (Inr _, c2) \<Rightarrow> (Inr None, c2)
     | (Inl (ConnectionErr m), c2) \<Rightarrow>
         (Inr (Some (False, PDict [(''error'', PStr (msg_text m))])), c2\<lparr>cs_pending := dict_drop uid (cs_pending c2)\<rparr>)
     | (Inl e, c2) \<Rightarrow> (Inl e, c2))"

definition charger_ack :: "pyval \<Rightarrow> string \<Rightarrow> ack_verdict \<Rightarrow> string \<Rightarrow> pyval" where
  "charger_ack command_id cid v stamp = PDict [(''command_id'', command_id), (''device_id'', PStr cid), (''status'', PStr (fst v)),
     (''error'', snd v), (''acked_at'', PStr stamp)]"

definition publish_ack :: "csms_env \<Rightarrow> pyval \<Rightarrow> string \<Rightarrow> string \<Rightarrow> ack_verdict \<Rightarrow> (csms, unit) action" where
  "publish_ack env command_id cid stamp v = csms_publish env (charger_topic cid @ ''/ack'') (charger_ack command_id cid v stamp) 1"

text \<open>The charger a command is for: its \<^verbatim>\<open>device_id\<close>, or else the third part of the topic.\<close>

definition addressed :: "(string \<times> pyval) list \<Rightarrow> string \<Rightarrow> pyval result" where
  "addressed cmd topic = (let d = dict_get cmd ''device_id'' PNone in
     if truthy d then Inr d else bindR (nth_item (split_on (CHR ''/'') topic) 2) (\<lambda>s. Inr (PStr s)))"

text \<open>The callback up to the wait for the charge point's answer, or through to the acknowledgement of a refusal.\<close>

definition charger_command :: "csms_env \<Rightarrow> string \<Rightarrow> string \<Rightarrow> string \<Rightarrow> pyval option \<Rightarrow> (csms, unit) action" where
  "charger_command env uid topic stamp incoming = (case incoming of
       None \<Rightarrow> ret ()
     | Some (PDict cmd) \<Rightarrow> bindS (lift (\<lambda>_. addressed cmd topic)) (\<lambda>dev c.
         case (case dev of PStr cid \<Rightarrow> map_option (Pair cid) (map_of (cs_cps c) cid) | _ \<Rightarrow> None) of
           None \<Rightarrow> (Inr (), c)
         | Some (cid, cp) \<Rightarrow>
             (let command_id = dict_get cmd ''command_id'' PNone in
              bindS (lift (\<lambda>_. command_call env cp (dict_get cmd ''command_type'' PNone) (params_of_command cmd))) (\<lambda>what.
              case what of
                Inl v \<Rightarrow> publish_ack env command_id cid stamp v
              | Inr (act, payload) \<Rightarrow> bindS (place_call env cp uid act payload) (\<lambda>out.
                  case out of
                    Some (ok, resp) \<Rightarrow> bindS (lift (\<lambda>_. ack_from env ok resp)) (publish_ack env command_id cid stamp)
                  | None \<Rightarrow> modify (\<lambda>c. c\<lparr>cs_wait := Some \<lparr>wt_charger = cid, wt_command = command_id, wt_uid = uid,
                      wt_action = act\<rparr>\<rparr>))) c))
     | Some _ \<Rightarrow> fail (AttrErr (Fmt ''object has no attribute get'' [])))"

text \<open>The end of the wait: the event was set, or the five seconds passed first.\<close>

definition outcome_of :: "waiting \<Rightarrow> csms \<Rightarrow> bool \<times> pyval" where
  "outcome_of w c = (case map_of (cs_pending c) (wt_uid w) of
       None \<Rightarrow> (False, PDict [])
     | Some p \<Rightarrow> if pd_set p then (pd_ok p, pd_payload p)
                 else (False, PDict [(''error'', PStr (''timeout awaiting '' @ wt_action w @ '' result''))]))"

definition end_wait :: "csms_env \<Rightarrow> string \<Rightarrow> (csms, unit) action" where
  "end_wait env stamp c = (case cs_wait c of None \<Rightarrow> (Inr (), c) | Some w \<Rightarrow>
     let (ok, resp) = outcome_of w c in
     bindS (lift (\<lambda>_. ack_from env ok resp)) (publish_ack env (wt_command w) (wt_charger w) stamp)
       (c\<lparr>cs_wait := None, cs_pending := dict_drop (wt_uid w) (cs_pending c)\<rparr>))"

subsection \<open>The central system as a whole\<close>

datatype csms_event =
    Connects ws
  | Says ws "pyval option"
  | Closes ws
  | Commanded string string string "pyval option"
  | Wait_over string

text \<open>
  A connection speaks while it is open; a command is taken up when none is waiting, with a fresh
  identifier for its call.
\<close>

inductive csms_step :: "csms_env \<Rightarrow> csms \<Rightarrow> csms_event \<Rightarrow> csms \<Rightarrow> bool" for env where
  connects: "csms_step env c (Connects w) (snd (on_connect w c))"
| speaks: "cs_open c (fst w) \<Longrightarrow> csms_step env c (Says w text) (says env w text c)"
| closes: "cs_open c (fst w) \<Longrightarrow> csms_step env c (Closes w) (snd (on_close w c))"
| commanded: "cs_wait c = None \<Longrightarrow> uid \<notin> fst ` set (cs_pending c) \<Longrightarrow>
    csms_step env c (Commanded uid topic stamp incoming) (snd (charger_command env uid topic stamp incoming c))"
| wait_over: "cs_wait c = Some w \<Longrightarrow> csms_step env c (Wait_over stamp) (snd (end_wait env stamp c))"

inductive csms_run :: "csms_env \<Rightarrow> csms_event list \<Rightarrow> csms \<Rightarrow> bool" for env where
  start: "csms_run env [] fresh_csms"
| step: "csms_run env evs c \<Longrightarrow> csms_step env c ev c' \<Longrightarrow> csms_run env (evs @ [ev]) c'"

inductive_cases csms_stepE: "csms_step env c ev c'"

end
