(* ===== verification/Ocpp_Correct.thy ===== *)
theory Ocpp_Correct
  imports Ocpp
begin

text \<open>
  What the central system guarantees in every run of connections, messages and commands: a command
  is acknowledged as carried out only when a charge point accepted the very call made for it.
\<close>

subsection \<open>What the connections' callbacks leave alone\<close>

definition acks :: "csms \<Rightarrow> message list" where
  "acks c = filter (\<lambda>(t, m, q). q = 1) (cs_mqtt c)"

definition cps_keyed :: "csms \<Rightarrow> bool" where
  "cps_keyed c \<longleftrightarrow> (\<forall>cid cp. map_of (cs_cps c) cid = Some cp \<longrightarrow> snd (cp_ws cp) = cid)"

definition quiet :: "csms \<Rightarrow> csms \<Rightarrow> bool" where
  "quiet c c' \<longleftrightarrow> cs_wait c' = cs_wait c \<and> cs_pending c' = cs_pending c \<and> acks c' = acks c
     \<and> (\<exists>fs. cs_wire c' = cs_wire c @ fs) \<and> (cps_keyed c \<longrightarrow> cps_keyed c')"

lemma quiet_refl [simp]: "quiet c c"
  by (simp add: quiet_def)

lemma quiet_trans: "quiet c c1 \<Longrightarrow> quiet c1 c2 \<Longrightarrow> quiet c c2"
  by (auto simp: quiet_def)

lemma quiet_bindS: "keeps quiet m \<Longrightarrow> (\<And>x. keeps quiet (f x)) \<Longrightarrow> keeps quiet (bindS m f)"
  by (rule keeps_bindS [OF _ _ quiet_trans])

lemma quiet_basic: "keeps quiet (ret x)" "keeps quiet (lift r)" "keeps quiet (fail e)"
  by (simp_all add: keeps_def)

lemma set_cp_frame [simp]:
  "cs_wait (set_cp cid f c) = cs_wait c" "cs_pending (set_cp cid f c) = cs_pending c" "cs_mqtt (set_cp cid f c) = cs_mqtt c"
  "cs_wire (set_cp cid f c) = cs_wire c" "cs_txn (set_cp cid f c) = cs_txn c" "cs_open (set_cp cid f c) = cs_open c"
  by (simp_all add: set_cp_def split: option.split)

lemma quiet_set_cp: "(\<And>cp. cp_ws (f cp) = cp_ws cp) \<Longrightarrow> quiet c (set_cp cid f c)"
  by (auto simp: quiet_def acks_def cps_keyed_def) (auto simp: set_cp_def split: option.splits if_splits)

lemma quiet_sends: "keeps quiet (ws_send env w v)" "keeps quiet (quiet_send env w v)"
  by (auto simp: keeps_def ws_send_def quiet_send_def quiet_def acks_def cps_keyed_def Let_def split: option.split exn.split)

lemma quiet_telemetry: "keeps quiet (ocpp_telemetry env cid native)"
  by (auto simp: keeps_def ocpp_telemetry_def csms_publish_def quiet_def acks_def cps_keyed_def Let_def split: option.split)

lemma quiet_ends: "quiet c (snd (on_connect w c))" "quiet c (snd (on_close w c))"
  by (auto simp: quiet_def on_connect_def on_close_def acks_def cps_keyed_def new_charge_point_def split: if_splits)

lemma quiet_call: "keeps quiet (call_result env cid act payload)"
proof -
  have cp: "keeps quiet (modify (set_cp cid f))" if "\<And>cp. cp_ws (f cp) = cp_ws cp" for f
    using quiet_set_cp [OF that] by (simp add: keeps_def)
  have boot: "keeps quiet (boot_notification env cid payload)"
    unfolding boot_notification_def
  proof (rule quiet_bindS)
    show "keeps quiet (\<lambda>c. (case map_of (cs_cps c) cid of None \<Rightarrow> ret () | Some _ \<Rightarrow>
       bindS (lift (\<lambda>_. attr_get payload ''chargePointVendor'' (PStr ''''))) (\<lambda>v.
         bindS (modify (set_cp cid (\<lambda>cp. cp\<lparr>cp_vendor := v\<rparr>))) (\<lambda>_.
         bindS (lift (\<lambda>_. attr_get payload ''chargePointModel'' (PStr ''''))) (\<lambda>m.
         modify (set_cp cid (\<lambda>cp. cp\<lparr>cp_model := m\<rparr>)))))) c)" (is "keeps quiet (\<lambda>c. (case _ of None \<Rightarrow> _ | Some _ \<Rightarrow> ?m) c)")
    proof -
      have "keeps quiet ?m" by (intro quiet_bindS quiet_basic cp) simp_all
      then show ?thesis by (auto simp: keeps_def split: option.split)
    qed
  qed (rule quiet_basic)
  have mv: "keeps quiet (take_meter_values env cid payload)"
    unfolding take_meter_values_def
  proof (intro quiet_bindS quiet_basic)
    fix native
    have "keeps quiet (bindS (if n = [] then ret () else ocpp_telemetry env cid n) (\<lambda>_. ret (PDict [])))" for n
      by (intro quiet_bindS quiet_basic) (simp add: quiet_basic quiet_telemetry)
    then show "keeps quiet (\<lambda>c. let native1 = with_status (map_of (cs_cps c) cid) native in
        bindS (if native1 = [] then ret () else ocpp_telemetry env cid native1) (\<lambda>_. ret (PDict [])) c)"
      by (simp add: keeps_def Let_def)
  qed
  have start: "keeps quiet (start_transaction cid)"
    unfolding keeps_def start_transaction_def Let_def
  proof (intro allI)
    fix c :: csms
    have "quiet c (c\<lparr>cs_txn := cs_txn c + 1\<rparr>)" by (simp add: quiet_def acks_def cps_keyed_def)
    then show "quiet c (snd (Inr (PDict [(''transactionId'', PInt (cs_txn c + 1)), accepted_tag]),
        set_cp cid (\<lambda>cp. cp\<lparr>cp_txn := cs_txn c + 1\<rparr>) (c\<lparr>cs_txn := cs_txn c + 1\<rparr>)))"
      by (simp, rule quiet_trans) (rule quiet_set_cp, simp)
  qed
  have st: "keeps quiet (bindS (lift (\<lambda>_. attr_get payload ''status'' (PStr ''Available''))) (\<lambda>st.
      bindS (modify (set_cp cid (\<lambda>cp. cp\<lparr>cp_status := st\<rparr>))) (\<lambda>_. ret (PDict []))))"
    by (intro quiet_bindS quiet_basic cp) simp
  have stop: "keeps quiet (bindS (modify (set_cp cid (\<lambda>cp. cp\<lparr>cp_txn := 0\<rparr>))) (\<lambda>_. ret (PDict [accepted_tag])))"
    by (intro quiet_bindS quiet_basic cp) simp
  show ?thesis
    unfolding call_result_def by (simp add: quiet_basic boot mv start st stop split: pyval.split)
qed

lemma quiet_handle: "keeps quiet (handle_call env w uid act payload)"
  unfolding handle_call_def by (intro quiet_bindS quiet_call quiet_sends)

subsection \<open>Messages, commands and the end of a wait\<close>

definition answer_to :: "string \<Rightarrow> bool \<Rightarrow> pyval \<Rightarrow> pyval \<Rightarrow> bool" where
  "answer_to uid ok payload v \<longleftrightarrow> (if ok then decode_frame v = Inr (OResult (PStr uid) payload)
     else \<exists>code d. decode_frame v = Inr (OError (PStr uid) code d))"

definition answered_call :: "string \<Rightarrow> bool \<Rightarrow> pyval \<Rightarrow> csms \<Rightarrow> csms" where
  "answered_call uid ok payload c = c\<lparr>cs_pending := dict_put uid \<lparr>pd_set = True, pd_ok = ok, pd_payload = payload\<rparr> (cs_pending c)\<rparr>"

lemma resolve_cases:
  "resolve_pending uid ok payload c = (r, c') \<Longrightarrow>
     c' = c \<or> (r = Inr () \<and> (\<exists>u. uid = PStr u \<and> u \<in> fst ` set (cs_pending c) \<and> c' = answered_call u ok payload c))"
  by (auto simp: resolve_pending_def answered_call_def split: if_splits pyval.splits option.splits
      dest!: map_of_SomeD intro: rev_image_eqI)

lemma quiet_closed: "quiet c c1 \<Longrightarrow> quiet c (snd (on_close w c1))"
  using quiet_ends(2) quiet_trans by blast

lemma says_cases:
  "quiet c (says env w heard c)
   \<or> (\<exists>v u ok payload. heard = Some v \<and> answer_to u ok payload v \<and> says env w heard c = answered_call u ok payload c)"
proof -
  obtain r c1 where m: "ws_message env w heard c = (r, c1)" by fastforce
  have "quiet c c1 \<or> r = Inr () \<and> (\<exists>v u ok payload. heard = Some v \<and> answer_to u ok payload v \<and> c1 = answered_call u ok payload c)"
  proof (cases heard)
    case None
    with m show ?thesis by (simp add: ws_message_def)
  next
    case (Some v)
    show ?thesis
    proof (cases "decode_frame v")
      case (Inl e)
      with m Some show ?thesis by (cases e) (simp_all add: ws_message_def)
    next
      case (Inr f)
      have res: ?thesis if rp: "resolve_pending uid ok payload c = (r, c1)" and an: "\<And>u. uid = PStr u \<Longrightarrow> answer_to u ok payload v"
        for uid ok payload
        using resolve_cases [OF rp]
      proof
        assume "c1 = c"
        then show ?thesis by simp
      next
        assume "r = Inr () \<and> (\<exists>u. uid = PStr u \<and> u \<in> fst ` set (cs_pending c) \<and> c1 = answered_call u ok payload c)"
        then show ?thesis using an Some by blast
      qed
      show ?thesis
      proof (cases f)
        case (OCall uid act payload)
        then have "handle_call env w uid act payload c = (r, c1)" using m Some Inr by (simp add: ws_message_def)
        from keepsD [OF quiet_handle this] show ?thesis ..
      next
        case (OResult uid payload)
        then have "resolve_pending uid True payload c = (r, c1)" using m Some Inr by (simp add: ws_message_def)
        then show ?thesis by (rule res) (use Inr OResult in \<open>simp add: answer_to_def\<close>)
      next
        case (OError uid code d)
        then have "resolve_pending uid False (PDict [(''error'', code)]) c = (r, c1)" using m Some Inr by (simp add: ws_message_def)
        then show ?thesis by (rule res) (use Inr OError in \<open>simp add: answer_to_def\<close>)
      qed
    qed
  qed
  then show ?thesis
  proof (cases r)
    case (Inl e)
    then have "says env w heard c = snd (on_close w c1)" using m by (simp add: says_def)
    moreover assume "quiet c c1 \<or> r = Inr () \<and>
      (\<exists>v u ok payload. heard = Some v \<and> answer_to u ok payload v \<and> c1 = answered_call u ok payload c)"
    then have "quiet c c1" using Inl by blast
    ultimately show ?thesis using quiet_closed [of c c1 w] by simp
  next
    case (Inr x)
    then have same: "says env w heard c = c1" using m by (simp add: says_def)
    assume "quiet c c1 \<or> r = Inr () \<and>
      (\<exists>v u ok payload. heard = Some v \<and> answer_to u ok payload v \<and> c1 = answered_call u ok payload c)"
    then show ?thesis unfolding same by blast
  qed
qed

text \<open>An acknowledgement that does not claim success.\<close>

definition failed_ack :: "message \<Rightarrow> bool" where
  "failed_ack m \<longleftrightarrow> (\<exists>t cmd cid e stamp. m = (t, charger_ack cmd cid (''FAILED'', e) stamp, 1))"

lemma publish_ack_acks:
  "publish_ack env cmd cid stamp v c = (r, c') \<Longrightarrow>
     (acks c' = acks c \<or> acks c' = acks c @ [(charger_topic cid @ ''/ack'', charger_ack cmd cid v stamp, 1)])
     \<and> cs_wait c' = cs_wait c \<and> cs_wire c' = cs_wire c \<and> cs_cps c' = cs_cps c"
  by (auto simp: publish_ack_def csms_publish_def acks_def Let_def split: option.splits)

lemma publish_failed:
  assumes "fst v = ''FAILED''" "c' = snd (publish_ack env cmd cid stamp v c)"
  shows "cs_cps c' = cs_cps c \<and> cs_wire c' = cs_wire c \<and> cs_wait c' = cs_wait c
    \<and> (acks c' = acks c \<or> (\<exists>m. acks c' = acks c @ [m] \<and> failed_ack m))"
proof -
  obtain r where "publish_ack env cmd cid stamp v c = (r, c')"
    using assms(2) by (cases "publish_ack env cmd cid stamp v c") simp
  note p = publish_ack_acks [OF this]
  have "failed_ack (charger_topic cid @ ''/ack'', charger_ack cmd cid v stamp, 1)"
    using assms(1) by (cases v) (auto simp: failed_ack_def)
  with p show ?thesis by blast
qed

lemma ack_from_not_ok: "ack_from env False resp = Inr v \<Longrightarrow> fst v = ''FAILED''"
  by (auto simp: ack_from_def bindR_eq_Inr)

lemma command_call_refusal: "command_call env cp ty params = Inr (Inl v) \<Longrightarrow> fst v = ''FAILED''"
  by (auto simp: command_call_def bindR_eq_Inr split: if_splits)

definition is_waiting_for :: "string \<Rightarrow> pyval option \<Rightarrow> csms \<Rightarrow> waiting \<Rightarrow> bool" where
  "is_waiting_for uid incoming c wt \<longleftrightarrow> wt_uid wt = uid
     \<and> (\<exists>d. incoming = Some (PDict d) \<and> dict_get d ''command_id'' PNone = wt_command wt)
     \<and> map_of (cs_pending c) uid = Some \<lparr>pd_set = False, pd_ok = False, pd_payload = PDict []\<rparr>
     \<and> (\<exists>cn payload. ((cn, wt_charger wt), encode_call uid (wt_action wt) payload) \<in> set (cs_wire c))"

lemma place_call_cases:
  assumes "place_call env cp uid act payload c = (r, c')"
  shows "acks c' = acks c \<and> cs_wait c' = cs_wait c \<and> cs_cps c' = cs_cps c \<and> (\<exists>fs. cs_wire c' = cs_wire c @ fs)
    \<and> (r = Inr None \<longrightarrow> map_of (cs_pending c') uid = Some \<lparr>pd_set = False, pd_ok = False, pd_payload = PDict []\<rparr>
        \<and> (cp_ws cp, encode_call uid act payload) \<in> set (cs_wire c'))
    \<and> (\<forall>ok resp. r = Inr (Some (ok, resp)) \<longrightarrow> \<not> ok)"
  using assms by (auto simp: place_call_def ws_send_def acks_def Let_def split: if_splits option.splits exn.splits)

lemma command_cases:
  assumes "cs_wait c = None" "cps_keyed c" "c' = snd (charger_command env uid topic stamp incoming c)"
  shows "cs_cps c' = cs_cps c \<and> (\<exists>fs. cs_wire c' = cs_wire c @ fs)
    \<and> (cs_wait c' = None \<and> (acks c' = acks c \<or> (\<exists>m. acks c' = acks c @ [m] \<and> failed_ack m))
       \<or> acks c' = acks c \<and> (\<exists>wt. cs_wait c' = Some wt \<and> is_waiting_for uid incoming c' wt))"
proof (cases "\<exists>d cid cp. incoming = Some (PDict d) \<and> addressed d topic = Inr (PStr cid) \<and> map_of (cs_cps c) cid = Some cp")
  case False
  then have "c' = c"
    using assms(3) by (auto simp: charger_command_def bindS_def split: option.splits pyval.splits sum.splits)
  with assms(1) show ?thesis by simp
next
  case True
  then obtain d cid cp where inc: "incoming = Some (PDict d)" "addressed d topic = Inr (PStr cid)" "map_of (cs_cps c) cid = Some cp"
    by blast
  have key: "snd (cp_ws cp) = cid" using assms(2) inc(3) by (auto simp: cps_keyed_def)
  let ?id = "dict_get d ''command_id'' PNone"
  show ?thesis
  proof (cases "command_call env cp (dict_get d ''command_type'' PNone) (params_of_command d)")
    case (Inl e)
    then have "c' = c" using assms(3) inc by (simp add: charger_command_def bindS_def Let_def)
    with assms(1) show ?thesis by simp
  next
    case (Inr what)
    show ?thesis
    proof (cases what)
      case (Inl v)
      then have "c' = snd (publish_ack env ?id cid stamp v c)"
        using assms(3) inc Inr by (simp add: charger_command_def bindS_def Let_def)
      moreover have "fst v = ''FAILED''" using command_call_refusal Inr Inl by simp
      ultimately have "cs_cps c' = cs_cps c \<and> cs_wire c' = cs_wire c \<and> cs_wait c' = cs_wait c
        \<and> (acks c' = acks c \<or> (\<exists>m. acks c' = acks c @ [m] \<and> failed_ack m))" by (rule publish_failed [rotated])
      then show ?thesis using assms(1) by simp
    next
      case what: (Inr call)
      obtain act payload where call: "call = (act, payload)" by fastforce
      obtain r c1 where pl: "place_call env cp uid act payload c = (r, c1)" by fastforce
      note placed = place_call_cases [OF pl]
      have c': "c' = snd (bindS (place_call env cp uid act payload) (\<lambda>out. case out of
            Some (ok, resp) \<Rightarrow> bindS (lift (\<lambda>_. ack_from env ok resp)) (publish_ack env ?id cid stamp)
          | None \<Rightarrow> modify (\<lambda>c. c\<lparr>cs_wait := Some \<lparr>wt_charger = cid, wt_command = ?id, wt_uid = uid, wt_action = act\<rparr>\<rparr>)) c)"
        using assms(3) inc Inr what call by (simp add: charger_command_def bindS_def Let_def)
      show ?thesis
      proof (cases "\<exists>ok resp. r = Inr (Some (ok, resp))")
        case True
        then obtain ok resp where r: "r = Inr (Some (ok, resp))" by blast
        show ?thesis
        proof (cases "ack_from env ok resp")
          case (Inl e)
          then have "c' = c1" by (simp add: c' bindS_def pl r)
          with placed assms(1) show ?thesis by auto
        next
          case ack: (Inr v)
          then have "fst v = ''FAILED''" using placed r ack_from_not_ok by simp
          moreover have "c' = snd (publish_ack env ?id cid stamp v c1)" by (simp add: c' bindS_def pl r ack)
          ultimately have "cs_cps c' = cs_cps c1 \<and> cs_wire c' = cs_wire c1 \<and> cs_wait c' = cs_wait c1
            \<and> (acks c' = acks c1 \<or> (\<exists>m. acks c' = acks c1 @ [m] \<and> failed_ack m))" by (rule publish_failed)
          then show ?thesis using placed assms(1) by simp
        qed
      next
        case False
        show ?thesis
        proof (cases r)
          case (Inl e)
          then have "c' = c1" by (simp add: c' bindS_def pl)
          with placed assms(1) show ?thesis by auto
        next
          case (Inr out)
          with False have out: "out = None" by (cases out) auto
          have "c' = c1\<lparr>cs_wait := Some \<lparr>wt_charger = cid, wt_command = ?id, wt_uid = uid, wt_action = act\<rparr>\<rparr>"
            by (simp add: c' bindS_def pl Inr out)
          moreover obtain cn where "cp_ws cp = (cn, cid)" using key by (cases "cp_ws cp") simp
          ultimately show ?thesis using placed Inr out inc by (auto simp: is_waiting_for_def acks_def)
        qed
      qed
    qed
  qed
qed

lemma end_wait_cases:
  assumes "cs_wait c = Some wt" "c' = snd (end_wait env stamp c)"
  shows "cs_cps c' = cs_cps c \<and> cs_wire c' = cs_wire c \<and> cs_wait c' = None
    \<and> (acks c' = acks c \<or> (\<exists>v. acks c' = acks c @ [(charger_topic (wt_charger wt) @ ''/ack'', charger_ack (wt_command wt) (wt_charger wt) v stamp, 1)]
          \<and> (let (ok, resp) = outcome_of wt c in ack_from env ok resp = Inr v)))"
proof -
  obtain ok resp where out: "outcome_of wt c = (ok, resp)" by fastforce
  let ?c = "c\<lparr>cs_wait := None, cs_pending := dict_drop (wt_uid wt) (cs_pending c)\<rparr>"
  have c': "c' = snd (bindS (lift (\<lambda>_. ack_from env ok resp)) (publish_ack env (wt_command wt) (wt_charger wt) stamp) ?c)"
    using assms by (simp add: end_wait_def out)
  show ?thesis
  proof (cases "ack_from env ok resp")
    case (Inl e)
    then show ?thesis by (simp add: c' bindS_def acks_def)
  next
    case (Inr v)
    then have "publish_ack env (wt_command wt) (wt_charger wt) stamp v ?c = (fst (publish_ack env (wt_command wt) (wt_charger wt) stamp v ?c), c')"
      by (simp add: c' bindS_def)
    from publish_ack_acks [OF this] show ?thesis using Inr by (cases v) (auto simp: acks_def out)
  qed
qed

subsection \<open>A command acknowledged as done was accepted\<close>

definition accepting :: "pyval \<Rightarrow> bool" where
  "accepting payload \<longleftrightarrow> (case (if truthy payload then payload else PDict []) of
     PDict d \<Rightarrow> dict_get d ''status'' (PStr ''Accepted'') \<in> {PStr ''Accepted'', PStr ''Scheduled''} | _ \<Rightarrow> False)"

text \<open>
  The command was taken up, a call was put on a connection of the charger it named, and after that
  a charge point answered this very call without refusing it.
\<close>

definition carried_out :: "csms_event list \<Rightarrow> (ws \<times> pyval) list \<Rightarrow> string \<Rightarrow> pyval \<Rightarrow> bool" where
  "carried_out evs wire cid cmd \<longleftrightarrow> (\<exists>e1 uid topic st d e2 w v payload e3 cn act args.
     evs = e1 @ [Commanded uid topic st (Some (PDict d))] @ e2 @ [Says w (Some v)] @ e3 \<and> dict_get d ''command_id'' PNone = cmd
     \<and> ((cn, cid), encode_call uid act args) \<in> set wire
     \<and> decode_frame v = Inr (OResult (PStr uid) payload) \<and> accepting payload)"

lemma carried_out_mono: "carried_out evs wire cid cmd \<Longrightarrow> carried_out (evs @ more_evs) (wire @ fs) cid cmd"
  unfolding carried_out_def by (elim exE conjE, rule exI, rule exI, rule exI, rule exI, rule exI, rule exI, rule exI, rule exI, rule exI)
    (rule exI [of _ "_ @ more_evs"], auto)

definition acks_truthful :: "csms_event list \<Rightarrow> csms \<Rightarrow> bool" where
  "acks_truthful evs c \<longleftrightarrow> (\<forall>t cmd cid err stamp. (t, charger_ack cmd cid (''ACKED'', err) stamp, 1) \<in> set (acks c)
     \<longrightarrow> carried_out evs (cs_wire c) cid cmd)"

text \<open>The events since the command hold the answer its pending entry records.\<close>

definition answer_seen :: "csms_event list \<Rightarrow> string \<Rightarrow> pending \<Rightarrow> bool" where
  "answer_seen es uid p \<longleftrightarrow> (pd_set p \<and> pd_ok p \<longrightarrow>
     (\<exists>f1 w v f2. es = f1 @ [Says w (Some v)] @ f2 \<and> decode_frame v = Inr (OResult (PStr uid) (pd_payload p))))"

lemma answer_seen_append: "answer_seen es uid p \<Longrightarrow> answer_seen (es @ fs) uid p"
  unfolding answer_seen_def by (metis append_assoc)

lemma answer_seen_new: "(pd_ok p \<Longrightarrow> decode_frame v = Inr (OResult (PStr uid) (pd_payload p))) \<Longrightarrow> answer_seen (es @ [Says w (Some v)]) uid p"
  unfolding answer_seen_def by (metis append_Nil2)

definition wait_founded :: "csms_event list \<Rightarrow> csms \<Rightarrow> bool" where
  "wait_founded evs c \<longleftrightarrow> (\<forall>wt. cs_wait c = Some wt \<longrightarrow> (\<exists>e1 topic st d e2 p cn args.
     evs = e1 @ [Commanded (wt_uid wt) topic st (Some (PDict d))] @ e2 \<and> dict_get d ''command_id'' PNone = wt_command wt
     \<and> ((cn, wt_charger wt), encode_call (wt_uid wt) (wt_action wt) args) \<in> set (cs_wire c)
     \<and> map_of (cs_pending c) (wt_uid wt) = Some p \<and> answer_seen e2 (wt_uid wt) p))"

lemma wait_foundedE:
  assumes "wait_founded evs c" "cs_wait c = Some wt"
  obtains e1 topic st d e2 p cn args where "evs = e1 @ [Commanded (wt_uid wt) topic st (Some (PDict d))] @ e2"
    "dict_get d ''command_id'' PNone = wt_command wt"
    "((cn, wt_charger wt), encode_call (wt_uid wt) (wt_action wt) args) \<in> set (cs_wire c)"
    "map_of (cs_pending c) (wt_uid wt) = Some p" "answer_seen e2 (wt_uid wt) p"
  using assms unfolding wait_founded_def by blast

lemma ack_from_done: "ack_from env True resp = Inr (''ACKED'', err) \<Longrightarrow> accepting resp"
  by (auto simp: ack_from_def accepting_def attr_get_def bindR_eq_Inr split: pyval.splits if_splits)

lemma charger_ack_inj: "charger_ack cmd cid v stamp = charger_ack cmd' cid' v' stamp' \<longleftrightarrow> cmd = cmd' \<and> cid = cid' \<and> v = v' \<and> stamp = stamp'"
  by (auto simp: charger_ack_def prod_eq_iff)

lemma truthful_ext:
  assumes "acks_truthful evs c" "cs_wire c' = cs_wire c @ fs" "acks c' = acks c \<or> (\<exists>m. acks c' = acks c @ [m] \<and> failed_ack m)"
  shows "acks_truthful (evs @ [ev]) c'"
  unfolding acks_truthful_def
proof (intro allI impI)
  fix t cmd cid err stamp
  assume "(t, charger_ack cmd cid (''ACKED'', err) stamp, 1) \<in> set (acks c')"
  then have "(t, charger_ack cmd cid (''ACKED'', err) stamp, 1) \<in> set (acks c)"
    using assms(3) by (auto simp: failed_ack_def charger_ack_inj)
  then have "carried_out evs (cs_wire c) cid cmd" using assms(1) unfolding acks_truthful_def by blast
  then show "carried_out (evs @ [ev]) (cs_wire c') cid cmd" unfolding assms(2) by (rule carried_out_mono)
qed

lemma wait_ext:
  assumes "wait_founded evs c" "cs_wait c' = cs_wait c" "cs_wire c' = cs_wire c @ fs"
    "\<And>wt p e2. cs_wait c = Some wt \<Longrightarrow> map_of (cs_pending c) (wt_uid wt) = Some p \<Longrightarrow> answer_seen e2 (wt_uid wt) p \<Longrightarrow>
       \<exists>p'. map_of (cs_pending c') (wt_uid wt) = Some p' \<and> answer_seen (e2 @ [ev]) (wt_uid wt) p'"
  shows "wait_founded (evs @ [ev]) c'"
  unfolding wait_founded_def
proof (intro allI impI)
  fix wt assume "cs_wait c' = Some wt"
  then have wt: "cs_wait c = Some wt" using assms(2) by simp
  from assms(1) wt obtain e1 topic st d e2 p cn args where w: "evs = e1 @ [Commanded (wt_uid wt) topic st (Some (PDict d))] @ e2"
    "dict_get d ''command_id'' PNone = wt_command wt"
    "((cn, wt_charger wt), encode_call (wt_uid wt) (wt_action wt) args) \<in> set (cs_wire c)"
    "map_of (cs_pending c) (wt_uid wt) = Some p" "answer_seen e2 (wt_uid wt) p" by (rule wait_foundedE)
  have "((cn, wt_charger wt), encode_call (wt_uid wt) (wt_action wt) args) \<in> set (cs_wire c')" using w(3) assms(3) by simp
  moreover have "evs @ [ev] = e1 @ [Commanded (wt_uid wt) topic st (Some (PDict d))] @ (e2 @ [ev])" using w(1) by simp
  ultimately show "\<exists>e1 topic st d e2 p cn args.
     evs @ [ev] = e1 @ [Commanded (wt_uid wt) topic st (Some (PDict d))] @ e2 \<and> dict_get d ''command_id'' PNone = wt_command wt
     \<and> ((cn, wt_charger wt), encode_call (wt_uid wt) (wt_action wt) args) \<in> set (cs_wire c')
     \<and> map_of (cs_pending c') (wt_uid wt) = Some p \<and> answer_seen e2 (wt_uid wt) p"
    using w(2) assms(4) [OF wt w(4,5)] by blast
qed

definition csms_inv :: "csms_event list \<Rightarrow> csms \<Rightarrow> bool" where
  "csms_inv evs c \<longleftrightarrow> acks_truthful evs c \<and> wait_founded evs c \<and> cps_keyed c"

lemma inv_quiet: "csms_inv evs c \<Longrightarrow> quiet c c' \<Longrightarrow> csms_inv (evs @ [ev]) c'"
  unfolding csms_inv_def quiet_def
  by (elim conjE exE, intro conjI) (erule truthful_ext, assumption, simp,
      erule wait_ext, assumption, assumption, use answer_seen_append in auto)

lemma inv_answered:
  assumes "csms_inv evs c" "answer_to u ok payload v"
  shows "csms_inv (evs @ [Says w (Some v)]) (answered_call u ok payload c)"
proof -
  have "wait_founded (evs @ [Says w (Some v)]) (answered_call u ok payload c)"
  proof (rule wait_ext [of evs c _ "[]"])
    fix wt p e2 assume p: "map_of (cs_pending c) (wt_uid wt) = Some p" "answer_seen e2 (wt_uid wt) p"
    show "\<exists>p'. map_of (cs_pending (answered_call u ok payload c)) (wt_uid wt) = Some p'
        \<and> answer_seen (e2 @ [Says w (Some v)]) (wt_uid wt) p'"
    proof (cases "wt_uid wt = u")
      case True
      then show ?thesis using assms(2) by (auto simp: answered_call_def answer_to_def split: if_splits intro!: answer_seen_new)
    next
      case False
      then show ?thesis using p answer_seen_append by (auto simp: answered_call_def)
    qed
  qed (use assms(1) in \<open>simp_all add: csms_inv_def answered_call_def\<close>)
  moreover have "acks_truthful (evs @ [Says w (Some v)]) (answered_call u ok payload c)"
    by (rule truthful_ext [of evs c _ "[]"]) (use assms(1) in \<open>simp_all add: csms_inv_def answered_call_def acks_def\<close>)
  ultimately show ?thesis using assms(1) by (simp add: csms_inv_def answered_call_def cps_keyed_def)
qed

lemma inv_commanded:
  assumes "csms_inv evs c" "cs_wait c = None"
  shows "csms_inv (evs @ [Commanded uid topic st incoming]) (snd (charger_command env uid topic st incoming c))" (is "csms_inv ?evs ?c")
proof -
  have keyed: "cps_keyed c" using assms(1) by (simp add: csms_inv_def)
  note cases = command_cases [OF assms(2) keyed refl, of env uid topic st incoming]
  obtain fs where fs: "cs_wire ?c = cs_wire c @ fs" using cases by blast
  have "acks_truthful ?evs ?c"
    using assms(1) cases by (intro truthful_ext [OF _ fs]) (auto simp: csms_inv_def)
  moreover have "wait_founded ?evs ?c"
    unfolding wait_founded_def
  proof (intro allI impI)
    fix wt assume "cs_wait ?c = Some wt"
    then have "is_waiting_for uid incoming ?c wt" using cases by auto
    then obtain d cn args where w: "wt_uid wt = uid" "incoming = Some (PDict d)" "dict_get d ''command_id'' PNone = wt_command wt"
      "map_of (cs_pending ?c) uid = Some \<lparr>pd_set = False, pd_ok = False, pd_payload = PDict []\<rparr>"
      "((cn, wt_charger wt), encode_call uid (wt_action wt) args) \<in> set (cs_wire ?c)" by (auto simp: is_waiting_for_def)
    moreover have "?evs = evs @ [Commanded (wt_uid wt) topic st (Some (PDict d))] @ []" using w(1,2) by simp
    moreover have "answer_seen [] (wt_uid wt) \<lparr>pd_set = False, pd_ok = False, pd_payload = PDict []\<rparr>" by (simp add: answer_seen_def)
    ultimately show "\<exists>e1 topic' st' d e2 p cn args.
       ?evs = e1 @ [Commanded (wt_uid wt) topic' st' (Some (PDict d))] @ e2 \<and> dict_get d ''command_id'' PNone = wt_command wt
       \<and> ((cn, wt_charger wt), encode_call (wt_uid wt) (wt_action wt) args) \<in> set (cs_wire ?c)
       \<and> map_of (cs_pending ?c) (wt_uid wt) = Some p \<and> answer_seen e2 (wt_uid wt) p"
      by metis
  qed
  moreover have "cps_keyed ?c" using cases keyed by (auto simp: cps_keyed_def)
  ultimately show ?thesis by (simp add: csms_inv_def)
qed

lemma inv_wait_over:
  assumes "csms_inv evs c" "cs_wait c = Some wt"
  shows "csms_inv (evs @ [Wait_over stamp]) (snd (end_wait env stamp c))" (is "csms_inv ?evs ?c")
proof -
  note cases = end_wait_cases [OF assms(2) refl, of env stamp]
  have parts: "acks_truthful evs c" "wait_founded evs c" "cps_keyed c" using assms(1) by (simp_all add: csms_inv_def)
  have old: "carried_out ?evs (cs_wire ?c) cid cmd"
    if "(t, charger_ack cmd cid (''ACKED'', err) st, 1) \<in> set (acks c)" for t cmd cid err st
  proof -
    have "carried_out evs (cs_wire c) cid cmd" using that parts(1) unfolding acks_truthful_def by blast
    from carried_out_mono [OF this, of "[Wait_over stamp]" "[]"] show ?thesis using cases by simp
  qed
  obtain ok resp where out: "outcome_of wt c = (ok, resp)" by fastforce
  have new: "carried_out ?evs (cs_wire ?c) (wt_charger wt) (wt_command wt)" if ack: "ack_from env ok resp = Inr (''ACKED'', err)" for err
  proof -
    have ok: "ok" using ack ack_from_not_ok by (cases ok) force+
    from parts(2) assms(2) obtain e1 topic st d e2 p cn args where w: "evs = e1 @ [Commanded (wt_uid wt) topic st (Some (PDict d))] @ e2"
      "dict_get d ''command_id'' PNone = wt_command wt"
      "((cn, wt_charger wt), encode_call (wt_uid wt) (wt_action wt) args) \<in> set (cs_wire c)"
      "map_of (cs_pending c) (wt_uid wt) = Some p" "answer_seen e2 (wt_uid wt) p" by (rule wait_foundedE)
    have p: "pd_set p" "pd_ok p" "resp = pd_payload p" using out ok w(4) by (auto simp: outcome_of_def split: if_splits)
    then obtain f1 w v f2 where f: "e2 = f1 @ [Says w (Some v)] @ f2" "decode_frame v = Inr (OResult (PStr (wt_uid wt)) resp)"
      using w(5) by (auto simp: answer_seen_def)
    have "accepting resp" using ack ok ack_from_done by simp
    then show ?thesis using w(1-3) f cases unfolding carried_out_def by (metis append_assoc)
  qed
  have "acks_truthful ?evs ?c"
    unfolding acks_truthful_def
  proof (intro allI impI)
    fix t cmd cid err st
    assume "(t, charger_ack cmd cid (''ACKED'', err) st, 1) \<in> set (acks ?c)"
    then show "carried_out ?evs (cs_wire ?c) cid cmd"
      using cases old new by (auto simp: out charger_ack_inj)
  qed
  moreover have "wait_founded ?evs ?c" "cps_keyed ?c"
    using cases parts(3) by (simp_all add: wait_founded_def cps_keyed_def)
  ultimately show ?thesis by (simp add: csms_inv_def)
qed

lemma run_inv: "csms_run env evs c \<Longrightarrow> csms_inv evs c"
proof (induction rule: csms_run.induct)
  case start
  show ?case by (simp add: csms_inv_def acks_truthful_def wait_founded_def cps_keyed_def acks_def fresh_csms_def)
next
  case (step evs c ev c')
  from step.hyps(2) show ?case
  proof (cases rule: csms_step.cases)
    case (speaks w heard)
    from says_cases [of c env w heard] show ?thesis
    proof
      assume "quiet c (says env w heard c)"
      then show ?thesis unfolding speaks(2) by (rule inv_quiet [OF step.IH])
    next
      assume "\<exists>v u ok payload. heard = Some v \<and> answer_to u ok payload v \<and> says env w heard c = answered_call u ok payload c"
      then obtain v u ok payload where a: "heard = Some v" "answer_to u ok payload v"
        "says env w heard c = answered_call u ok payload c" by blast
      show ?thesis unfolding speaks a(1) a(3) [unfolded a(1)] by (rule inv_answered [OF step.IH a(2)])
    qed
  qed (use inv_quiet [OF step.IH] quiet_ends inv_commanded [OF step.IH] inv_wait_over [OF step.IH] in auto)
qed

text \<open>
  C34: A command is acknowledged as carried out only when it was: it was taken up, the call for it
  went out on a connection of the very charger it names, and after that a charge point answered
  this call and did not refuse it. That holds whatever connections come, go and say in between,
  and whichever sends and publishes fail.
\<close>
theorem ocpp_ack_truthful:
  assumes "csms_run env evs c" "(t, charger_ack cmd cid (''ACKED'', err) stamp, 1) \<in> set (cs_mqtt c)"
  shows "carried_out evs (cs_wire c) cid cmd"
proof -
  have "(t, charger_ack cmd cid (''ACKED'', err) stamp, 1) \<in> set (acks c)" using assms(2) by (simp add: acks_def)
  then show ?thesis using run_inv [OF assms(1)] unfolding csms_inv_def acks_truthful_def by blast
qed

definition demo_csms_env :: csms_env where
  "demo_csms_env = \<lparr>wire_fault = (\<lambda>_. None), mqtt_fault = (\<lambda>_. None), csms_now = ''now'', shown = (\<lambda>_. ''?'')\<rparr>"

definition demo_stop :: pyval where
  "demo_stop = PDict [(''command_id'', PStr ''c1''), (''device_id'', PStr ''EVSE1''), (''command_type'', PStr ''stop_charging'')]"

definition demo_accept :: pyval where
  "demo_accept = encode_result (PStr ''u1'') (PDict [(''status'', PStr ''Accepted'')])"

definition demo_csms :: csms where
  "demo_csms = snd (end_wait demo_csms_env ''later'' (says demo_csms_env (1, ''EVSE1'') (Some demo_accept)
     (snd (charger_command demo_csms_env ''u1'' ''diep/charger/EVSE1/cmd'' ''now'' (Some demo_stop) (snd (on_connect (1, ''EVSE1'') fresh_csms))))))"

definition demo_csms_events :: "csms_event list" where
  "demo_csms_events = [Connects (1, ''EVSE1''), Commanded ''u1'' ''diep/charger/EVSE1/cmd'' ''now'' (Some demo_stop),
     Says (1, ''EVSE1'') (Some demo_accept), Wait_over ''later'']"

lemmas csms_run_defs = demo_csms_env_def demo_stop_def demo_accept_def fresh_csms_def on_connect_def charger_command_def addressed_def
  command_call_def place_call_def ws_send_def says_def ws_message_def decode_frame_def decode_items_def encode_result_def
  nth_item_def equals_int_def resolve_pending_def hashable.simps end_wait_def outcome_of_def ack_from_def attr_get_def
  publish_ack_def csms_publish_def bindS_def Let_def dict_get_def new_charge_point_def

lemma demo_after_command:
  "snd (charger_command demo_csms_env ''u1'' ''diep/charger/EVSE1/cmd'' ''now'' (Some demo_stop) (snd (on_connect (1, ''EVSE1'') fresh_csms)))
   = (snd (on_connect (1, ''EVSE1'') fresh_csms))\<lparr>cs_pending := [(''u1'', \<lparr>pd_set = False, pd_ok = False, pd_payload = PDict []\<rparr>)],
       cs_sends := 1, cs_wire := [((1, ''EVSE1''), encode_call ''u1'' ''RemoteStopTransaction'' (PDict [(''transactionId'', PInt 0)]))],
       cs_wait := Some \<lparr>wt_charger = ''EVSE1'', wt_command = PStr ''c1'', wt_uid = ''u1'', wt_action = ''RemoteStopTransaction''\<rparr>\<rparr>"
  by (simp add: csms_run_defs)

theorem ocpp_ack_truthful_witness:
  "carried_out demo_csms_events (cs_wire demo_csms) ''EVSE1'' (PStr ''c1'')"
proof (rule ocpp_ack_truthful)
  let ?c1 = "snd (on_connect (1, ''EVSE1'') fresh_csms)"
  let ?c2 = "snd (charger_command demo_csms_env ''u1'' ''diep/charger/EVSE1/cmd'' ''now'' (Some demo_stop) ?c1)"
  let ?c3 = "says demo_csms_env (1, ''EVSE1'') (Some demo_accept) ?c2"
  have c3: "?c3 = ?c2\<lparr>cs_pending := [(''u1'', \<lparr>pd_set = True, pd_ok = True, pd_payload = PDict [(''status'', PStr ''Accepted'')]\<rparr>)]\<rparr>"
    unfolding demo_after_command by (simp add: csms_run_defs)
  have "csms_run demo_csms_env [Connects (1, ''EVSE1'')] ?c1"
    using csms_run.step [OF csms_run.start csms_step.connects, of demo_csms_env "(1, ''EVSE1'')"] by simp
  from csms_run.step [OF this csms_step.commanded [of _ "''u1''" _ "''diep/charger/EVSE1/cmd''" "''now''" "Some demo_stop"]]
  have "csms_run demo_csms_env [Connects (1, ''EVSE1''), Commanded ''u1'' ''diep/charger/EVSE1/cmd'' ''now'' (Some demo_stop)] ?c2"
    by (simp add: on_connect_def fresh_csms_def)
  from csms_run.step [OF this csms_step.speaks [of _ "(1, ''EVSE1'')" _ "Some demo_accept"]]
  have "csms_run demo_csms_env [Connects (1, ''EVSE1''), Commanded ''u1'' ''diep/charger/EVSE1/cmd'' ''now'' (Some demo_stop),
      Says (1, ''EVSE1'') (Some demo_accept)] ?c3"
    unfolding demo_after_command by (simp add: on_connect_def)
  from csms_run.step [OF this csms_step.wait_over [of _ "\<lparr>wt_charger = ''EVSE1'', wt_command = PStr ''c1'', wt_uid = ''u1'',
      wt_action = ''RemoteStopTransaction''\<rparr>" _ "''later''"]]
  show "csms_run demo_csms_env demo_csms_events demo_csms"
    unfolding demo_csms_def demo_csms_events_def c3 unfolding demo_after_command by simp
  show "(charger_topic ''EVSE1'' @ ''/ack'', charger_ack (PStr ''c1'') ''EVSE1'' (''ACKED'', PNone) ''later'', 1) \<in> set (cs_mqtt demo_csms)"
    unfolding demo_csms_def c3 unfolding demo_after_command by (simp add: csms_run_defs)
qed

end
