(* ===== verification/Ocpp_Transactions.thy ===== *)
theory Ocpp_Transactions
  imports Ocpp_Correct
begin

text \<open>
  The transaction identifiers of \<^verbatim>\<open>src/drivers/ocpp_csms/driver.py\<close> are new in every run, and the
  situations in which the central system does not do what it should: a connection that ends late,
  a frame that is too short, an answer without a status.
\<close>

subsection \<open>Transactions\<close>

definition txn_of :: "pyval \<Rightarrow> int option" where
  "txn_of v = (case v of PDict d \<Rightarrow> (case map_of d ''transactionId'' of Some (PInt n) \<Rightarrow> Some n | _ \<Rightarrow> None) | _ \<Rightarrow> None)"

text \<open>The identifiers in the answers that went out, in order.\<close>

definition issued_txns :: "csms \<Rightarrow> int list" where
  "issued_txns c = List.map_filter (\<lambda>(w, f). case f of PList [PInt k, uid, res] \<Rightarrow> if k = 3 then txn_of res else None | _ \<Rightarrow> None) (cs_wire c)"

definition same_txn :: "csms \<Rightarrow> csms \<Rightarrow> bool" where
  "same_txn c c' \<longleftrightarrow> cs_wire c' = cs_wire c \<and> cs_txn c' = cs_txn c"

lemma same_txn_bindS: "keeps same_txn m \<Longrightarrow> (\<And>x. keeps same_txn (f x)) \<Longrightarrow> keeps same_txn (bindS m f)"
  by (rule keeps_bindS) (auto simp: same_txn_def)

lemma same_txn_basic: "keeps same_txn (ret x)" "keeps same_txn (lift r)" "keeps same_txn (fail e)"
  "keeps same_txn (modify (set_cp cid f))" "keeps same_txn (csms_publish env t m q)"
  by (auto simp: keeps_def same_txn_def csms_publish_def Let_def split: option.split)

definition txn_step :: "(csms, pyval) action \<Rightarrow> bool" where
  "txn_step m \<longleftrightarrow> (\<forall>c r c1. m c = (r, c1) \<longrightarrow> cs_wire c1 = cs_wire c \<and> cs_txn c \<le> cs_txn c1
     \<and> (\<forall>v n. r = Inr v \<and> txn_of v = Some n \<longrightarrow> n = cs_txn c1 \<and> cs_txn c < n))"

lemma txn_step_ret:
  assumes "keeps same_txn m" "txn_of v = None"
  shows "txn_step (bindS m (\<lambda>_. ret v))"
  unfolding txn_step_def
proof (intro allI impI)
  fix c r c1 assume r: "bindS m (\<lambda>_. ret v) c = (r, c1)"
  obtain x s where m: "m c = (x, s)" by fastforce
  have "same_txn c s" using keepsD [OF assms(1) m] .
  then have "same_txn c c1" using r m by (cases x) (simp_all add: bindS_def)
  moreover have "\<forall>y. r = Inr y \<longrightarrow> txn_of y = None" using r m assms(2) by (cases x) (auto simp: bindS_def)
  ultimately show "cs_wire c1 = cs_wire c \<and> cs_txn c \<le> cs_txn c1 \<and> (\<forall>v n. r = Inr v \<and> txn_of v = Some n \<longrightarrow> n = cs_txn c1 \<and> cs_txn c < n)"
    by (auto simp: same_txn_def)
qed

lemma same_txn_when:
  assumes "keeps same_txn m"
  shows "keeps same_txn (\<lambda>c. (case f c of None \<Rightarrow> ret () | Some (x :: charge_point) \<Rightarrow> m) c)"
  using assms by (auto simp: keeps_def same_txn_def split: option.split)

lemma bind_lift: "r = Inr x \<Longrightarrow> bindS (lift (\<lambda>_. r)) g c = g x c"
  by (simp add: bindS_def)

lemma txn_step_call: "txn_step (call_result env cid act payload)"
proof -
  have none: "txn_of (PDict []) = None" "txn_of (PDict [accepted_tag]) = None"
    "txn_of (PDict [(''currentTime'', PStr (csms_now env))]) = None"
    "txn_of (PDict [(''currentTime'', PStr (csms_now env)), (''interval'', PInt 30), (''status'', PStr ''Accepted'')]) = None"
    by (simp_all add: txn_of_def accepted_tag_def)
  have pure: "txn_step (ret v)" if "txn_of v = None" for v using that by (simp add: txn_step_def)
  have boot: "txn_step (boot_notification env cid payload)"
    unfolding boot_notification_def
    by (intro txn_step_ret [OF _ none(4)] same_txn_when same_txn_bindS same_txn_basic)
  have st: "txn_step (bindS (lift (\<lambda>_. attr_get payload ''status'' (PStr ''Available''))) (\<lambda>st.
      bindS (modify (set_cp cid (\<lambda>cp. cp\<lparr>cp_status := st\<rparr>))) (\<lambda>_. ret (PDict []))))"
    by (auto simp: txn_step_def bindS_def none split: sum.splits)
  have stop: "txn_step (bindS (modify (set_cp cid (\<lambda>cp. cp\<lparr>cp_txn := 0\<rparr>))) (\<lambda>_. ret (PDict [accepted_tag])))"
    by (rule txn_step_ret) (simp_all add: same_txn_basic none)
  have start: "txn_step (start_transaction cid)"
    by (auto simp: txn_step_def start_transaction_def Let_def txn_of_def)
  have mv: "txn_step (take_meter_values env cid payload)"
    unfolding txn_step_def
  proof (intro allI impI)
    fix c r c1 assume m: "take_meter_values env cid payload c = (r, c1)"
    show "cs_wire c1 = cs_wire c \<and> cs_txn c \<le> cs_txn c1 \<and> (\<forall>v n. r = Inr v \<and> txn_of v = Some n \<longrightarrow> n = cs_txn c1 \<and> cs_txn c < n)"
    proof (cases "bindR (attr_get payload ''meterValue'' (PList [])) meter_values_to_native")
      case (Inl e)
      then show ?thesis using m by (auto simp: take_meter_values_def bindS_def)
    next
      case (Inr native)
      define n1 where "n1 = with_status (map_of (cs_cps c) cid) native"
      have "txn_step (bindS (if n1 = [] then ret () else ocpp_telemetry env cid n1) (\<lambda>_. ret (PDict [])))"
        by (rule txn_step_ret) (simp_all add: same_txn_basic ocpp_telemetry_def none)
      moreover have "bindS (if n1 = [] then ret () else ocpp_telemetry env cid n1) (\<lambda>_. ret (PDict [])) c = (r, c1)"
        using m by (simp only: take_meter_values_def n1_def bind_lift [OF Inr] Let_def)
      ultimately show ?thesis unfolding txn_step_def by blast
    qed
  qed
  show ?thesis
    unfolding call_result_def by (simp add: pure none boot mv start st stop split: pyval.split)
qed

definition txns_new :: "csms \<Rightarrow> bool" where
  "txns_new c \<longleftrightarrow> sorted_wrt (<) (1000 # issued_txns c) \<and> (\<forall>n \<in> set (1000 # issued_txns c). n \<le> cs_txn c)"

lemma issued_app: "cs_wire c' = cs_wire c @ fs \<Longrightarrow>
  issued_txns c' = issued_txns c @ List.map_filter (\<lambda>(w, f). case f of PList [PInt k, uid, res] \<Rightarrow> if k = 3 then txn_of res else None | _ \<Rightarrow> None) fs"
  by (simp add: issued_txns_def map_filter_def)

lemma txns_same: "txns_new c \<Longrightarrow> issued_txns c' = issued_txns c \<Longrightarrow> cs_txn c \<le> cs_txn c' \<Longrightarrow> txns_new c'"
  by (force simp: txns_new_def)

lemma issued_same: "cs_wire c' = cs_wire c \<Longrightarrow> issued_txns c' = issued_txns c"
  by (simp add: issued_txns_def)

lemma txns_handle:
  assumes "txns_new c" "handle_call env w uid act payload c = (r, c')"
  shows "txns_new c'"
proof -
  obtain r1 c1 where cr: "call_result env (snd w) act payload c = (r1, c1)" by fastforce
  have t: "cs_wire c1 = cs_wire c" "cs_txn c \<le> cs_txn c1" "\<And>v n. r1 = Inr v \<Longrightarrow> txn_of v = Some n \<Longrightarrow> n = cs_txn c1 \<and> cs_txn c < n"
    using txn_step_call cr unfolding txn_step_def by blast+
  have c1: "txns_new c1" using txns_same [OF assms(1) issued_same t(2)] t(1) by blast
  show ?thesis
  proof (cases r1)
    case (Inl e)
    then show ?thesis using assms(2) cr c1 by (simp add: handle_call_def bindS_def)
  next
    case (Inr v)
    then have "quiet_send env w (encode_result uid v) c1 = (r, c')" using assms(2) cr by (simp add: handle_call_def bindS_def)
    then have s: "cs_txn c' = cs_txn c1 \<and> (cs_wire c' = cs_wire c1 \<or> cs_wire c' = cs_wire c1 @ [(w, encode_result uid v)])"
      by (auto simp: quiet_send_def ws_send_def Let_def split: if_splits option.splits exn.splits)
    then have "issued_txns c' = issued_txns c1 \<or> issued_txns c' = issued_txns c1 @ (case txn_of v of None \<Rightarrow> [] | Some n \<Rightarrow> [n])"
      using issued_app [of c' c1 "[(w, encode_result uid v)]"] issued_same [of c' c1]
      by (auto simp: encode_result_def map_filter_def split: option.splits)
    then show ?thesis
    proof (elim disjE)
      assume "issued_txns c' = issued_txns c1"
      then show ?thesis using c1 s txns_same by simp
    next
      assume i: "issued_txns c' = issued_txns c1 @ (case txn_of v of None \<Rightarrow> [] | Some n \<Rightarrow> [n])"
      show ?thesis
      proof (cases "txn_of v")
        case None
        then show ?thesis using i c1 s txns_same by simp
      next
        case (Some n)
        have n: "n = cs_txn c1" "cs_txn c < n" using t(3) [OF Inr Some] by simp_all
        have "\<forall>m \<in> set (1000 # issued_txns c). m \<le> cs_txn c" using assms(1) by (simp add: txns_new_def)
        then have "\<forall>m \<in> set (1000 # issued_txns c). m < n" using n(2) by fastforce
        moreover have "issued_txns c' = issued_txns c @ [n]" using i Some issued_same [OF t(1)] by simp
        moreover have "cs_txn c' = n" using s n(1) by simp
        moreover have "sorted_wrt (<) (1000 # issued_txns c)" using assms(1) by (simp add: txns_new_def)
        ultimately show ?thesis by (auto simp: txns_new_def sorted_wrt_append)
      qed
    qed
  qed
qed

lemma txns_says: "txns_new c \<Longrightarrow> txns_new (says env w heard c)"
proof -
  assume new: "txns_new c"
  obtain r c1 where m: "ws_message env w heard c = (r, c1)" by fastforce
  have "txns_new c1"
  proof (cases "\<exists>v uid act payload. heard = Some v \<and> decode_frame v = Inr (OCall uid act payload)")
    case True
    then obtain uid act payload where "handle_call env w uid act payload c = (r, c1)" using m by (auto simp: ws_message_def)
    with new show ?thesis by (rule txns_handle)
  next
    case False
    have res: "cs_wire c1 = cs_wire c \<and> cs_txn c1 = cs_txn c" if "resolve_pending uid ok payload c = (r, c1)" for uid ok payload
      using resolve_cases [OF that] by (auto simp: answered_call_def)
    have "cs_wire c1 = cs_wire c \<and> cs_txn c1 = cs_txn c"
    proof (cases heard)
      case None
      then show ?thesis using m by (simp add: ws_message_def)
    next
      case (Some v)
      show ?thesis
      proof (cases "decode_frame v")
        case (Inl e)
        then show ?thesis using m Some by (cases e) (simp_all add: ws_message_def)
      next
        case (Inr f)
        show ?thesis
        proof (cases f)
          case (OCall uid act payload)
          then show ?thesis using Some Inr False by blast
        next
          case (OResult uid payload)
          show ?thesis by (rule res [of uid True payload]) (use m Some Inr OResult in \<open>simp add: ws_message_def\<close>)
        next
          case (OError uid code d)
          show ?thesis by (rule res [of uid False]) (use m Some Inr OError in \<open>simp add: ws_message_def\<close>)
        qed
      qed
    qed
    then have same: "cs_wire c1 = cs_wire c" "cs_txn c \<le> cs_txn c1" by simp_all
    show ?thesis by (rule txns_same [OF new issued_same [OF same(1)] same(2)])
  qed
  moreover have "txns_new (snd (on_close w c1))" if "txns_new c1"
    using that by (rule txns_same) (simp_all add: on_close_def issued_txns_def)
  ultimately show ?thesis using m by (cases r) (simp_all add: says_def)
qed

definition same_issued :: "csms \<Rightarrow> csms \<Rightarrow> bool" where
  "same_issued c c' \<longleftrightarrow> issued_txns c' = issued_txns c \<and> cs_txn c' = cs_txn c"

lemma same_issued_bindS: "keeps same_issued m \<Longrightarrow> (\<And>x. keeps same_issued (f x)) \<Longrightarrow> keeps same_issued (bindS m f)"
  by (rule keeps_bindS) (auto simp: same_issued_def)

lemma same_issued_basic: "keeps same_issued (ret x)" "keeps same_issued (lift r)" "keeps same_issued (fail e)"
  "keeps same_issued (publish_ack env cmd cid stamp v)"
  by (auto simp: keeps_def same_issued_def publish_ack_def csms_publish_def issued_txns_def Let_def split: option.split)

lemma same_issued_place: "keeps same_issued (place_call env cp uid act payload)"
  by (auto simp: keeps_def same_issued_def place_call_def ws_send_def issued_txns_def map_filter_def encode_call_def Let_def
      split: option.split exn.split)

lemma same_issued_command: "keeps same_issued (charger_command env uid topic stamp incoming)"
proof -
  have after: "keeps same_issued (bindS (lift (\<lambda>_. command_call env cp ty params)) (\<lambda>what. case what of
        Inl v \<Rightarrow> publish_ack env command_id cid stamp v
      | Inr (act, payload) \<Rightarrow> bindS (place_call env cp uid act payload) (\<lambda>out. case out of
            Some (ok, resp) \<Rightarrow> bindS (lift (\<lambda>_. ack_from env ok resp)) (publish_ack env command_id cid stamp)
          | None \<Rightarrow> modify (\<lambda>c. c\<lparr>cs_wait := Some (wt act)\<rparr>))))" for cp ty params command_id cid wt
  proof (rule same_issued_bindS [OF same_issued_basic(2)])
    fix what
    have wait: "keeps same_issued (modify (\<lambda>c. c\<lparr>cs_wait := Some x\<rparr>))" for x
      by (simp add: keeps_def same_issued_def issued_txns_def)
    show "keeps same_issued (case what of
        Inl v \<Rightarrow> publish_ack env command_id cid stamp v
      | Inr (act, payload) \<Rightarrow> bindS (place_call env cp uid act payload) (\<lambda>out. case out of
            Some (ok, resp) \<Rightarrow> bindS (lift (\<lambda>_. ack_from env ok resp)) (publish_ack env command_id cid stamp)
          | None \<Rightarrow> modify (\<lambda>c. c\<lparr>cs_wait := Some (wt act)\<rparr>)))"
      by (auto split: sum.split option.split intro!: same_issued_bindS same_issued_basic same_issued_place wait)
  qed
  have "same_issued c (snd (charger_command env uid topic stamp incoming c))" for c
  proof (cases "\<exists>d cid cp. incoming = Some (PDict d) \<and> addressed d topic = Inr (PStr cid) \<and> map_of (cs_cps c) cid = Some cp")
    case False
    then have "snd (charger_command env uid topic stamp incoming c) = c"
      by (auto simp: charger_command_def bindS_def split: option.splits pyval.splits sum.splits)
    then show ?thesis by (simp add: same_issued_def)
  next
    case True
    then obtain d cid cp where inc: "incoming = Some (PDict d)" "addressed d topic = Inr (PStr cid)" "map_of (cs_cps c) cid = Some cp"
      by blast
    let ?id = "dict_get d ''command_id'' PNone"
    have "charger_command env uid topic stamp incoming c =
      bindS (lift (\<lambda>_. command_call env cp (dict_get d ''command_type'' PNone) (params_of_command d))) (\<lambda>what. case what of
        Inl v \<Rightarrow> publish_ack env ?id cid stamp v
      | Inr (act, payload) \<Rightarrow> bindS (place_call env cp uid act payload) (\<lambda>out. case out of
            Some (ok, resp) \<Rightarrow> bindS (lift (\<lambda>_. ack_from env ok resp)) (publish_ack env ?id cid stamp)
          | None \<Rightarrow> modify (\<lambda>c. c\<lparr>cs_wait := Some \<lparr>wt_charger = cid, wt_command = ?id, wt_uid = uid, wt_action = act\<rparr>\<rparr>))) c"
      unfolding charger_command_def inc(1) option.case pyval.case bind_lift [OF inc(2)] inc(3) Let_def by simp
    then show ?thesis
      using after [of cp "dict_get d ''command_type'' PNone" "params_of_command d" ?id cid
          "\<lambda>act. \<lparr>wt_charger = cid, wt_command = ?id, wt_uid = uid, wt_action = act\<rparr>"] by (simp add: keeps_def)
  qed
  then show ?thesis by (simp add: keeps_def)
qed

lemma same_issued_end: "same_issued c (snd (end_wait env stamp c))"
proof (cases "cs_wait c")
  case (Some w)
  let ?c = "c\<lparr>cs_wait := None, cs_pending := dict_drop (wt_uid w) (cs_pending c)\<rparr>"
  obtain ok resp where out: "outcome_of w c = (ok, resp)" by fastforce
  have "keeps same_issued (bindS (lift (\<lambda>_. ack_from env ok resp)) (publish_ack env (wt_command w) (wt_charger w) stamp))"
    by (intro same_issued_bindS same_issued_basic)
  then have "same_issued ?c (snd (end_wait env stamp c))" by (simp add: end_wait_def Some out keeps_def)
  then show ?thesis by (simp add: same_issued_def issued_txns_def)
qed (simp add: end_wait_def same_issued_def)

lemma txns_issued: "txns_new c \<Longrightarrow> same_issued c c' \<Longrightarrow> txns_new c'"
  unfolding same_issued_def txns_new_def by auto

text \<open>
  The identifiers the central system gives to transactions are new each time, in every run.
\<close>

theorem ocpp_transactions_new: "csms_run env evs c \<Longrightarrow> distinct (issued_txns c) \<and> (\<forall>n \<in> set (issued_txns c). 1000 < n \<and> n \<le> cs_txn c)"
proof -
  assume "csms_run env evs c"
  then have "txns_new c"
  proof (induction rule: csms_run.induct)
    case start
    show ?case by (simp add: txns_new_def issued_txns_def fresh_csms_def)
  next
    case (step evs c ev c')
    from step.hyps(2) show ?case
    proof (cases rule: csms_step.cases)
      case (speaks w heard)
      then show ?thesis using txns_says [OF step.IH] by simp
    next
      case (commanded uid topic stamp incoming)
      show ?thesis unfolding commanded(2)
        by (rule txns_issued [OF step.IH]) (use same_issued_command in \<open>simp add: keeps_def\<close>)
    next
      case (wait_over w stamp)
      show ?thesis unfolding wait_over(2) by (rule txns_issued [OF step.IH same_issued_end])
    qed (simp_all, (rule txns_issued [OF step.IH], simp add: same_issued_def issued_txns_def on_connect_def on_close_def)+)
  qed
  then show ?thesis by (auto simp: txns_new_def strict_sorted_iff sorted_wrt_append dest: strict_sorted_imp_sorted)
qed

subsection \<open>A connection that ends late\<close>

text \<open>
  A charger that reconnects before its old connection is found dead is forgotten when that
  connection's end is noticed, although the new one is open: its commands are dropped.
\<close>

lemma stale_close_evicts:
  assumes "cid = snd w" "cid \<noteq> []" "snd w' = cid" "fst w \<noteq> fst w'"
  shows "let c' = snd (on_close w (snd (on_connect w' c))) in
    cs_open c' (fst w') \<and> map_of (cs_cps c') cid = None
    \<and> charger_command env uid (charger_topic cid @ ''/cmd'') stamp (Some (PDict [(''device_id'', PStr cid)])) c' = (Inr (), c')"
  using assms by (auto simp: on_close_def on_connect_def charger_command_def addressed_def dict_get_def bindS_def Let_def)

text \<open>
  A frame that is JSON but too short, or no array, is not dropped as a bad frame is: the exception
  escapes and the charge point is disconnected.
\<close>

lemma short_frame_disconnects:
  "says env w (Some (PList [])) c = snd (on_close w c)" "says env w (Some (PDict d)) c = snd (on_close w c)"
  "says env w None c = c"
  by (simp_all add: says_def ws_message_def decode_frame_def decode_items_def nth_item_def)

text \<open>An answer without a status, or with none at all, counts as acceptance.\<close>

lemma no_status_accepted: "ack_from env True (PDict []) = Inr (''ACKED'', PNone)" "ack_from env True PNone = Inr (''ACKED'', PNone)"
  by (simp_all add: ack_from_def attr_get_def dict_get_def)

end
