(* ===== verification/Readiness.thy ===== *)
theory Readiness
  imports Ocpp Iso_Time
begin

text \<open>
  The readiness assessment of \<^verbatim>\<open>src/fastapi/readiness.py\<close>: nine checks over what the probes
  return, the verdict over them, and the reports kept. The probes themselves (HTTP, database, Redis,
  docker, disk, \<^verbatim>\<open>/proc/meminfo\<close>) are a parameter, each with what it returns or raises; the texts of
  the checks' messages are left out. Times are seconds.
\<close>

subsection \<open>Results\<close>

datatype check_status = PASS | WARN | FAILED_CHECK

record check_result =
  ck_name :: string
  ck_status :: check_status
  ck_weight :: int
  ck_score :: int
  ck_critical :: bool
  ck_observed :: "(string \<times> pyval) list"
  ck_threshold :: "(string \<times> pyval) list"

definition pass_result :: "string \<Rightarrow> int \<Rightarrow> (string \<times> pyval) list \<Rightarrow> (string \<times> pyval) list \<Rightarrow> check_result" where
  "pass_result nm w obs thr = \<lparr>ck_name = nm, ck_status = PASS, ck_weight = w, ck_score = w, ck_critical = True,
     ck_observed = obs, ck_threshold = thr\<rparr>"

definition warn_result :: "string \<Rightarrow> int \<Rightarrow> (string \<times> pyval) list \<Rightarrow> (string \<times> pyval) list \<Rightarrow> check_result" where
  "warn_result nm w obs thr = \<lparr>ck_name = nm, ck_status = WARN, ck_weight = w, ck_score = w div 2, ck_critical = True,
     ck_observed = obs, ck_threshold = thr\<rparr>"

definition fail_result :: "string \<Rightarrow> int \<Rightarrow> (string \<times> pyval) list \<Rightarrow> (string \<times> pyval) list \<Rightarrow> check_result" where
  "fail_result nm w obs thr = \<lparr>ck_name = nm, ck_status = FAILED_CHECK, ck_weight = w, ck_score = 0, ck_critical = True,
     ck_observed = obs, ck_threshold = thr\<rparr>"

record run_report =
  rr_id :: string
  rr_at :: rat
  rr_passed :: bool
  rr_score :: int
  rr_threshold :: int
  rr_recommendation :: "msg list"
  rr_source :: string
  rr_tenant :: string
  rr_summary :: "(string \<times> pyval) list"
  rr_checks :: "check_result list"

record readiness_config =
  rc_readyz_url :: string
  rc_exporter_url :: string
  rc_db_host :: string
  rc_db_port :: int
  rc_db_name :: string
  rc_redis_host :: string
  rc_redis_port :: int
  rc_kafka_container :: string
  rc_docker_root :: string
  rc_disk_max :: pyfloat
  rc_memory_max :: pyfloat
  rc_min_uptime :: int
  rc_max_delta :: int
  rc_threshold :: int
  rc_containers :: "string list"
  rc_source :: string
  rc_tenant :: string

text \<open>What the probes of one run find. A command's output is its lines.\<close>

record probes =
  pr_inspect :: "pyval list result"
  pr_readyz :: "(int \<times> pyval) result"
  pr_database :: "(string \<times> string) result"
  pr_redis :: "(bool \<times> (string \<times> pyval) list) result"
  pr_topics :: "string list result"
  pr_metrics :: "(int \<times> string list) result"
  pr_disk :: "int \<times> int \<times> int"
  pr_meminfo :: "string list"
  pr_checked_at :: rat
  pr_now :: rat
  pr_min_now :: rat
  pr_utc_offset :: rat
  pr_unescape :: "string \<Rightarrow> string result"
  pr_hostname :: string
  pr_run_id :: string

subsection \<open>Container state\<close>

text \<open>\<^verbatim>\<open>^(?P<head>.+\.\d{6})\d*(?P<tail>Z|[+-]\d\d:\d\d)$\<close>: nanoseconds are cut to microseconds.\<close>

definition is_digit :: "char \<Rightarrow> bool" where
  "is_digit c \<longleftrightarrow> digit_val c \<noteq> None"

definition offset_text :: "string \<Rightarrow> bool" where
  "offset_text t \<longleftrightarrow> length t = 6 \<and> is_sign (t ! 0) \<and> is_digit (t ! 1) \<and> is_digit (t ! 2) \<and> t ! 3 = CHR '':'' \<and> is_digit (t ! 4) \<and> is_digit (t ! 5)"

definition split_tail :: "string \<Rightarrow> (string \<times> string) option" where
  "split_tail v = (if v \<noteq> [] \<and> List.last v = CHR ''Z'' then Some (butlast v, ''Z'')
     else if offset_text (drop (length v - 6) v) then Some (take (length v - 6) v, drop (length v - 6) v) else None)"

definition cut_nanos :: "string \<Rightarrow> string" where
  "cut_nanos v = (case split_tail v of None \<Rightarrow> v | Some (body, tail) \<Rightarrow>
     let ds = rev (takeWhile is_digit (rev body)); h = take (length body - length ds) body in
     if 6 \<le> length ds \<and> 2 \<le> length h \<and> List.last h = CHR ''.'' then h @ take 6 ds @ tail else v)"

definition parse_docker_timestamp :: "rat \<Rightarrow> pyval \<Rightarrow> rat result" where
  "parse_docker_timestamp local v = (case v of
       PStr s \<Rightarrow> (case fromisoformat (expand_z (cut_nanos s)) of
           None \<Rightarrow> Inl (ValueError (Fmt ''Invalid isoformat string'' []))
         | Some (dt, off) \<Rightarrow> Inr (seconds_of dt - (case off of None \<Rightarrow> local | Some us \<Rightarrow> of_int us / 1000000)))
     | _ \<Rightarrow> Inl (TypeErr (Fmt ''expected string or bytes-like object'' [])))"

record snapshot =
  sn_status :: pyval
  sn_running :: bool
  sn_restarts :: int
  sn_started :: "rat option"

definition snapshot_of :: "rat \<Rightarrow> pyval \<Rightarrow> (string \<times> snapshot) result" where
  "snapshot_of local item = bindR (attr_get item ''Name'' (PStr '''')) (\<lambda>nm.
     bindR (case nm of PStr s \<Rightarrow> Inr (dropWhile (\<lambda>c. c = CHR ''/'') s) | _ \<Rightarrow> Inl (AttrErr (Fmt ''object has no attribute lstrip'' []))) (\<lambda>name.
     bindR (attr_get item ''State'' PNone) (\<lambda>st0. let st = (if truthy st0 then st0 else PDict []) in
     bindR (attr_get st ''StartedAt'' PNone) (\<lambda>started.
     bindR (attr_get st ''Status'' (PStr ''unknown'')) (\<lambda>status.
     bindR (attr_get st ''Running'' PNone) (\<lambda>running.
     bindR (bindR (attr_get item ''RestartCount'' (PInt 0)) py_int) (\<lambda>restarts.
     bindR (if truthy started then bindR (parse_docker_timestamp local started) (\<lambda>t. Inr (Some t)) else Inr None) (\<lambda>t.
       Inr (name, \<lparr>sn_status = status, sn_running = truthy running, sn_restarts = restarts, sn_started = t\<rparr>)))))))))"

text \<open>\<^verbatim>\<open>docker inspect\<close> of one unknown container fails as a whole, and \<^verbatim>\<open>check=True\<close> raises.\<close>

definition inspect_containers :: "probes \<Rightarrow> readiness_config \<Rightarrow> (string \<times> snapshot) list result" where
  "inspect_containers pr cfg = (if rc_containers cfg = [] then Inr [] else
     bindR (pr_inspect pr) (\<lambda>items. foldR (\<lambda>item d. bindR (snapshot_of (pr_utc_offset pr) item) (\<lambda>(k, s). Inr (dict_put k s d))) items []))"

subsection \<open>Metrics in text form\<close>

definition name_start :: "char \<Rightarrow> bool" where
  "name_start c \<longleftrightarrow> (let n = of_char c :: nat in 65 \<le> n \<and> n \<le> 90 \<or> 97 \<le> n \<and> n \<le> 122 \<or> n = 95)"

definition name_char :: "char \<Rightarrow> bool" where
  "name_char c \<longleftrightarrow> name_start c \<or> is_digit c"

text \<open>\<^verbatim>\<open>((?:[^"\\]|\\.)*)"\<close>: the text to the closing quote and what follows it.\<close>

fun label_text :: "string \<Rightarrow> (string \<times> string) option" where
  "label_text [] = None"
| "label_text (c # cs) = (if c = CHR 0x22 then Some ([], cs)
     else if c = CHR 0x5C then (case cs of [] \<Rightarrow> None | d # ds \<Rightarrow> map_option (\<lambda>(t, r). (c # d # t, r)) (label_text ds))
     else map_option (\<lambda>(t, r). (c # t, r)) (label_text cs))"

lemma label_text_shorter: "label_text s = Some (t, r) \<Longrightarrow> length r < length s"
  by (induction s arbitrary: t r rule: label_text.induct) (fastforce split: if_splits list.splits)+

definition label_here :: "string \<Rightarrow> ((string \<times> string) \<times> string) option" where
  "label_here s = (case s of [] \<Rightarrow> None | c # cs \<Rightarrow> if \<not> name_start c then None else
     let k = takeWhile name_char s; r = dropWhile name_char s in
     if take 2 r = [CHR ''='', CHR 0x22] then map_option (\<lambda>(t, r'). ((k, t), r')) (label_text (drop 2 r)) else None)"

lemma label_here_shorter: "label_here s = Some (kv, r) \<Longrightarrow> length r < length s"
proof -
  assume "label_here s = Some (kv, r)"
  then obtain t where "label_text (drop 2 (dropWhile name_char s)) = Some (t, r)"
    by (auto simp: label_here_def Let_def split: list.splits if_splits)
  from label_text_shorter [OF this] have "length r < length (drop 2 (dropWhile name_char s))" .
  also have "\<dots> \<le> length s" using length_dropWhile_le [of name_char s] by simp
  finally show ?thesis .
qed

function labels_in :: "string \<Rightarrow> (string \<times> string) list" where
  "labels_in s = (if s = [] then [] else case label_here s of
     Some (kv, r) \<Rightarrow> kv # labels_in r | None \<Rightarrow> labels_in (tl s))"
  by pat_completeness auto
termination by (relation "measure length") (auto dest: label_here_shorter)

declare labels_in.simps [simp del]

definition metric_number :: "string \<Rightarrow> pyfloat option" where
  "metric_number s = (if list_all (\<lambda>c. is_digit c \<or> c \<in> set ''+-.eE'') s then float_of_string s else None)"

definition metric_line :: "string \<Rightarrow> (string \<times> string \<times> pyfloat) option" where
  "metric_line line = (let mn = (\<lambda>c. name_char c \<or> c = CHR '':''); nm = takeWhile mn line; r = dropWhile mn line in
     if nm = [] \<or> is_digit (hd nm) then None else
     case (if r \<noteq> [] \<and> hd r = CHR 0x7B
           then (if CHR 0x7D \<in> set r then Some (takeWhile (\<lambda>c. c \<noteq> CHR 0x7D) (tl r), tl (dropWhile (\<lambda>c. c \<noteq> CHR 0x7D) r)) else None)
           else Some ([], r)) of
       None \<Rightarrow> None
     | Some (blob, r2) \<Rightarrow> if r2 = [] \<or> \<not> is_space (hd r2) then None
         else map_option (\<lambda>v. (nm, blob, v)) (metric_number (dropWhile is_space r2)))"

definition sample_of :: "(string \<Rightarrow> string result) \<Rightarrow> string \<Rightarrow> (string \<times> (string \<times> string) list \<times> pyfloat) option result" where
  "sample_of unescape raw = (let line = strip raw in if line = [] \<or> hd line = CHR ''#'' then Inr None else
     case metric_line line of None \<Rightarrow> Inr None | Some (nm, blob, v) \<Rightarrow>
       bindR (mapR (\<lambda>(k, t). bindR (unescape t) (\<lambda>u. Inr (k, u))) (labels_in blob)) (\<lambda>kvs.
         Inr (Some (nm, fold (\<lambda>(k, u). dict_put k u) kvs [], v))))"

fun find_metric_value :: "(string \<Rightarrow> string result) \<Rightarrow> string list \<Rightarrow> string \<Rightarrow> (string \<times> string) list \<Rightarrow> pyfloat option result" where
  "find_metric_value unescape [] nm target = Inr None"
| "find_metric_value unescape (raw # ls) nm target = bindR (sample_of unescape raw) (\<lambda>s. case s of
     Some (n, labels, v) \<Rightarrow> if n = nm \<and> list_all (\<lambda>(k, e). map_of labels k = Some e) target then Inr (Some v)
       else find_metric_value unescape ls nm target
   | None \<Rightarrow> find_metric_value unescape ls nm target)"

lemma metric_line_examples:
  "metric_line ''kafka_brokers 1'' = Some (''kafka_brokers'', [], Fin 1)"
  "metric_line ''up 1 2'' = None"
  by code_simp+

subsection \<open>The nine checks\<close>

definition check_fastapi_readyz :: "probes \<Rightarrow> readiness_config \<Rightarrow> check_result result" where
  "check_fastapi_readyz pr cfg = (let url = (''url'', PStr (rc_readyz_url cfg)) in case pr_readyz pr of
       Inl e \<Rightarrow> Inr (fail_result ''fastapi_readyz'' 15 [url] [])
     | Inr (code, payload) \<Rightarrow>
         bindR (attr_get payload ''ready'' PNone) (\<lambda>ready. bindR (attr_get payload ''checks'' PNone) (\<lambda>cs.
           let obs = [url, (''status_code'', PInt code), (''checks'', if truthy cs then cs else PDict [])] in
           Inr ((if code = 200 \<and> truthy ready then pass_result else fail_result) ''fastapi_readyz'' 15 obs []))))"

definition check_postgres_connectivity :: "probes \<Rightarrow> readiness_config \<Rightarrow> check_result" where
  "check_postgres_connectivity pr cfg = (let at0 = [(''host'', PStr (rc_db_host cfg)), (''port'', PInt (rc_db_port cfg))] in
     case pr_database pr of
       Inl e \<Rightarrow> fail_result ''postgres_connectivity'' 10 (at0 @ [(''database'', PStr (rc_db_name cfg))]) []
     | Inr (db, user) \<Rightarrow> pass_result ''postgres_connectivity'' 10 (at0 @ [(''database'', PStr db), (''user'', PStr user)]) [])"

definition check_redis_connectivity :: "probes \<Rightarrow> readiness_config \<Rightarrow> check_result" where
  "check_redis_connectivity pr cfg = (let at0 = [(''host'', PStr (rc_redis_host cfg)), (''port'', PInt (rc_redis_port cfg))] in
     case pr_redis pr of
       Inl e \<Rightarrow> fail_result ''redis_connectivity'' 10 at0 []
     | Inr (pong, info) \<Rightarrow> if pong
         then pass_result ''redis_connectivity'' 10 (at0 @ [(''redis_version'', dict_get info ''redis_version'' PNone)]) []
         else fail_result ''redis_connectivity'' 10 at0 [])"

definition expected_topics :: "string list" where
  "expected_topics = [''__consumer_offsets'', ''diep.commands'']"

definition check_kafka_broker_health :: "probes \<Rightarrow> readiness_config \<Rightarrow> check_result" where
  "check_kafka_broker_health pr cfg = (let at0 = (''container'', PStr (rc_kafka_container cfg)) in case pr_topics pr of
       Inl e \<Rightarrow> fail_result ''kafka_broker_health'' 15 [at0] []
     | Inr ls \<Rightarrow> let topics = sort (filter (\<lambda>t. t \<noteq> []) (map strip ls)); obs = [at0, (''topics'', PList (map PStr topics))] in
         if set expected_topics \<subseteq> set topics then pass_result ''kafka_broker_health'' 15 obs []
         else fail_result ''kafka_broker_health'' 15 obs [(''expected_topics'', PList (map PStr (sort expected_topics)))])"

definition float_or_none :: "pyfloat option \<Rightarrow> pyval" where
  "float_or_none v = (case v of None \<Rightarrow> PNone | Some x \<Rightarrow> PFloat x)"

definition check_kafka_exporter_metrics :: "probes \<Rightarrow> readiness_config \<Rightarrow> check_result result" where
  "check_kafka_exporter_metrics pr cfg = (let url = (''url'', PStr (rc_exporter_url cfg)); find = find_metric_value (pr_unescape pr) in
     case pr_metrics pr of
       Inl e \<Rightarrow> Inr (fail_result ''kafka_exporter_metrics'' 10 [url] [])
     | Inr (code, ls) \<Rightarrow>
         bindR (find ls ''kafka_brokers'' []) (\<lambda>brokers.
         bindR (find ls ''kafka_broker_info'' [(''address'', ''diep-kafka:9092''), (''id'', ''1'')]) (\<lambda>info.
         bindR (find ls ''kafka_topic_partitions'' [(''topic'', ''diep.commands'')]) (\<lambda>parts.
         bindR (find ls ''kafka_consumergroup_lag_sum'' [(''consumergroup'', ''diep-command-dispatcher''), (''topic'', ''diep.commands'')]) (\<lambda>lag.
         let obs = [(''kafka_brokers'', float_or_none brokers), (''kafka_broker_info'', float_or_none info), (''diep_commands_partitions'', float_or_none parts)] in
         Inr (if code = 200 \<and> brokers \<noteq> None \<and> info \<noteq> None \<and> parts \<noteq> None
              then pass_result ''kafka_exporter_metrics'' 10 (url # obs @ [(''dispatcher_lag_sum'', float_or_none lag)]) []
              else fail_result ''kafka_exporter_metrics'' 10 (url # (''status_code'', PInt code) # obs) []))))))"

definition opt_int :: "int option \<Rightarrow> pyval" where
  "opt_int v = (case v of None \<Rightarrow> PNone | Some i \<Rightarrow> PInt i)"

text \<open>The counts a previous report holds, for the containers that had one.\<close>

definition previous_restart_counts :: "run_report option \<Rightarrow> (string \<times> int) list result" where
  "previous_restart_counts prev = (case prev of None \<Rightarrow> Inr [] | Some r \<Rightarrow>
     (case filter (\<lambda>c. ck_name c = ''container_restart_counts'') (rr_checks r) of
        [] \<Rightarrow> Inr []
      | c # cs \<Rightarrow> let raw = dict_get (ck_observed c) ''restart_counts'' PNone in
          (case (if truthy raw then raw else PDict []) of
             PDict d \<Rightarrow> mapR (\<lambda>(k, v). bindR (py_int v) (\<lambda>i. Inr (k, i))) (filter (\<lambda>(k, v). v \<noteq> PNone) d)
           | _ \<Rightarrow> Inl (AttrErr (Fmt ''object has no attribute items'' [])))))"

text \<open>The keys a dictionary over the containers has, in order.\<close>

definition names_once :: "readiness_config \<Rightarrow> string list" where
  "names_once cfg = rev (remdups (rev (rc_containers cfg)))"

definition current_counts :: "readiness_config \<Rightarrow> (string \<times> snapshot) list \<Rightarrow> (string \<times> int option) list" where
  "current_counts cfg cs = map (\<lambda>n. (n, map_option sn_restarts (map_of cs n))) (names_once cfg)"

definition restart_deltas :: "(string \<times> int option) list \<Rightarrow> (string \<times> int) list \<Rightarrow> (string \<times> int option) list" where
  "restart_deltas cur prev = map (\<lambda>(n, c). (n, case (c, map_of prev n) of (Some a, Some b) \<Rightarrow> Some (a - b) | _ \<Rightarrow> None)) cur"

definition known :: "('k \<times> 'v option) list \<Rightarrow> ('k \<times> 'v) list" where
  "known d = List.map_filter (\<lambda>(k, v). map_option (Pair k) v) d"

definition largest :: "int list \<Rightarrow> int" where
  "largest xs = (case xs of [] \<Rightarrow> 0 | y # ys \<Rightarrow> fold max ys y)"

definition check_container_restart_counts ::
    "readiness_config \<Rightarrow> (string \<times> snapshot) list \<Rightarrow> run_report option \<Rightarrow> check_result result" where
  "check_container_restart_counts cfg cs prev = bindR (previous_restart_counts prev) (\<lambda>pc.
     let cur = current_counts cfg cs; ds = restart_deltas cur pc;
         obs = [(''restart_counts'', PDict (map (\<lambda>(k, v). (k, opt_int v)) cur)), (''restart_deltas'', PDict (map (\<lambda>(k, v). (k, opt_int v)) ds))];
         thr = [(''max_restart_delta'', PInt (rc_max_delta cfg))];
         offenders = filter (\<lambda>(k, d). rc_max_delta cfg < d) (known ds) in
     Inr (if prev = None then pass_result ''container_restart_counts'' 10 obs thr
          else if offenders \<noteq> [] then fail_result ''container_restart_counts'' 10
            (obs @ [(''offenders'', PDict (map (\<lambda>(k, d). (k, PInt d)) offenders))]) thr
          else pass_result ''container_restart_counts'' 10 (obs @ [(''maximum_delta'', PInt (largest (map snd (known ds))))]) thr))"

definition disk_used_pct :: "probes \<Rightarrow> rat" where
  "disk_used_pct pr = (case pr_disk pr of (tot, used, free) \<Rightarrow> if tot = 0 then 0 else of_int used / of_int tot * 100)"

definition check_disk_utilization :: "probes \<Rightarrow> readiness_config \<Rightarrow> check_result" where
  "check_disk_utilization pr cfg = (case pr_disk pr of (tot, used, free) \<Rightarrow> let pct = disk_used_pct pr in
     (if fl_le (Fin pct) (rc_disk_max cfg) then pass_result else fail_result) ''disk_utilization'' 10
       [(''path'', PStr (rc_docker_root cfg)), (''used_percent'', PFloat (Fin (py_round 2 pct))), (''free_bytes'', PInt free), (''total_bytes'', PInt tot)]
       [(''max_used_percent'', PFloat (rc_disk_max cfg))])"

text \<open>\<^verbatim>\<open>/proc/meminfo\<close>: the first word after the colon, where it is a whole number.\<close>

definition first_word :: "string \<Rightarrow> string" where
  "first_word s = takeWhile (\<lambda>c. \<not> is_space c) (strip s)"

definition meminfo_line :: "string \<Rightarrow> (string \<times> int) list \<Rightarrow> (string \<times> int) list" where
  "meminfo_line line d = (if CHR '':'' \<notin> set line then d else
     let k = takeWhile (\<lambda>c. c \<noteq> CHR '':'') line; w = first_word (tl (dropWhile (\<lambda>c. c \<noteq> CHR '':'') line)) in
     if w = [] then d else case int_of_string w of Inl _ \<Rightarrow> d | Inr v \<Rightarrow> dict_put k v d)"

definition memory_used_pct :: "probes \<Rightarrow> rat" where
  "memory_used_pct pr = (let m = fold meminfo_line (pr_meminfo pr) []; tot = dict_get m ''MemTotal'' 0; avail = dict_get m ''MemAvailable'' 0 in
     if tot = 0 then 0 else (1 - of_int avail / of_int tot) * 100)"

definition check_memory_utilization :: "probes \<Rightarrow> readiness_config \<Rightarrow> check_result" where
  "check_memory_utilization pr cfg = (let pct = memory_used_pct pr; m = fold meminfo_line (pr_meminfo pr) [] in
     (if fl_le (Fin pct) (rc_memory_max cfg) then pass_result else fail_result) ''memory_utilization'' 10
       [(''used_percent'', PFloat (Fin (py_round 2 pct))), (''total_kb'', PInt (dict_get m ''MemTotal'' 0)), (''available_kb'', PInt (dict_get m ''MemAvailable'' 0))]
       [(''max_used_percent'', PFloat (rc_memory_max cfg))])"

text \<open>A container's uptime, or what is held against it.\<close>

definition uptime_of :: "rat \<Rightarrow> rat \<Rightarrow> int" where
  "uptime_of now0 started = trunc (now0 - started)"

definition uptime_entry :: "rat \<Rightarrow> int \<Rightarrow> (string \<times> snapshot) list \<Rightarrow> string \<Rightarrow> int option \<times> pyval option" where
  "uptime_entry now0 minimum cs n = (case map_of cs n of
       None \<Rightarrow> (None, Some (PDict [(''status'', PStr ''missing''), (''reason'', PStr ''not running'')]))
     | Some s \<Rightarrow>
         if \<not> sn_running s then (None, Some (PDict [(''status'', sn_status s), (''reason'', PStr ''not running'')]))
         else (case sn_started s of
             None \<Rightarrow> (None, Some (PDict [(''status'', sn_status s), (''reason'', PStr ''missing started_at'')]))
           | Some t \<Rightarrow> let u = uptime_of now0 t in (Some u, if u < minimum then Some (PDict [(''uptime_seconds'', PInt u)]) else None)))"

definition check_critical_service_uptime :: "probes \<Rightarrow> readiness_config \<Rightarrow> (string \<times> snapshot) list \<Rightarrow> check_result" where
  "check_critical_service_uptime pr cfg cs = (let names = names_once cfg; e = uptime_entry (pr_now pr) (rc_min_uptime cfg) cs;
     ups = (''uptime_seconds'', PDict (map (\<lambda>n. (n, opt_int (fst (e n)))) names));
     offenders = List.map_filter (\<lambda>n. map_option (Pair n) (snd (e n))) names;
     thr = [(''minimum_seconds'', PInt (rc_min_uptime cfg))] in
     if offenders \<noteq> [] then fail_result ''critical_service_uptime'' 10 [ups, (''offenders'', PDict offenders)] thr
     else pass_result ''critical_service_uptime'' 10 [ups] thr)"

subsection \<open>The assessment\<close>

definition minimum_uptime_seconds :: "probes \<Rightarrow> (string \<times> snapshot) list \<Rightarrow> int" where
  "minimum_uptime_seconds pr cs = (let us = List.map_filter (\<lambda>(n, s). if sn_running s then map_option (uptime_of (pr_min_now pr)) (sn_started s) else None) cs in
     case us of [] \<Rightarrow> 0 | u # r \<Rightarrow> fold min r u)"

definition maximum_restart_delta :: "check_result list \<Rightarrow> int result" where
  "maximum_restart_delta checks = (case filter (\<lambda>c. ck_name c = ''container_restart_counts'') checks of
       [] \<Rightarrow> Inr 0
     | c # cs \<Rightarrow> (case dict_get (ck_observed c) ''restart_deltas'' (PDict []) of
           PDict d \<Rightarrow> bindR (mapR (\<lambda>(k, v). py_int v) (filter (\<lambda>(k, v). v \<noteq> PNone) d)) (\<lambda>ds. Inr (largest ds))
         | _ \<Rightarrow> Inl (AttrErr (Fmt ''object has no attribute values'' []))))"

definition shown_int :: "int \<Rightarrow> string" where
  "shown_int i = (if i < 0 then CHR ''-'' # num_text (nat (- i)) else num_text (nat i))"

text \<open>The parts of the recommendation, the dash of the code written in ASCII.\<close>

definition readiness_recommendation :: "readiness_config \<Rightarrow> check_result list \<Rightarrow> check_result list \<Rightarrow> int \<Rightarrow> int \<Rightarrow> msg list" where
  "readiness_recommendation cfg failed warned uptime delta = (if failed \<noteq> [] then
       [Fmt ''FAIL - keep MW2 blocked until the failing checks are clean'' []]
       @ (if \<exists>c \<in> set failed. ck_name c = ''critical_service_uptime''
          then [Fmt ''the 24-hour stability window is incomplete (minimum uptime {}s, target {}s)'' [shown_int uptime, shown_int (rc_min_uptime cfg)]] else [])
       @ (if \<exists>c \<in> set failed. ck_name c = ''container_restart_counts''
          then [Fmt ''container restart delta exceeded the allowed threshold ({}>{})'' [shown_int delta, shown_int (rc_max_delta cfg)]] else [])
     else [Fmt ''PASS - MW2 may proceed if the scheduled change window and sign-offs are otherwise ready'' []]
       @ (if warned \<noteq> [] then [Fmt ''review the warning-level checks before scheduling'' []] else []))"

definition all_checks :: "probes \<Rightarrow> readiness_config \<Rightarrow> (string \<times> snapshot) list \<Rightarrow> run_report option \<Rightarrow> check_result list result" where
  "all_checks pr cfg cs prev =
     bindR (check_fastapi_readyz pr cfg) (\<lambda>c1. let c2 = check_postgres_connectivity pr cfg; c3 = check_redis_connectivity pr cfg;
       c4 = check_kafka_broker_health pr cfg in
     bindR (check_kafka_exporter_metrics pr cfg) (\<lambda>c5.
     bindR (check_container_restart_counts cfg cs prev) (\<lambda>c6.
       Inr [c1, c2, c3, c4, c5, c6, check_disk_utilization pr cfg, check_memory_utilization pr cfg, check_critical_service_uptime pr cfg cs])))"

definition run_readiness_assessment :: "probes \<Rightarrow> readiness_config \<Rightarrow> run_report option \<Rightarrow> run_report result" where
  "run_readiness_assessment pr cfg prev = bindR (inspect_containers pr cfg) (\<lambda>cs. bindR (all_checks pr cfg cs prev) (\<lambda>checks.
     let failed = filter (\<lambda>c. ck_status c = FAILED_CHECK) checks; warned = filter (\<lambda>c. ck_status c = WARN) checks;
         passed = filter (\<lambda>c. ck_status c = PASS) checks; score = sum_list (map ck_score checks); uptime = minimum_uptime_seconds pr cs in
     bindR (maximum_restart_delta checks) (\<lambda>delta.
     if score < 0 \<or> 100 < score \<or> rc_threshold cfg < 0 \<or> 100 < rc_threshold cfg then Inl (ValueError (Fmt ''validation error for ReadinessRunResponse'' [])) else
     Inr \<lparr>rr_id = pr_run_id pr, rr_at = pr_checked_at pr, rr_passed = (failed = [] \<and> rc_threshold cfg \<le> score), rr_score = score,
       rr_threshold = rc_threshold cfg, rr_recommendation = readiness_recommendation cfg failed warned uptime delta, rr_source = rc_source cfg,
       rr_tenant = rc_tenant cfg,
       rr_summary = [(''checks_passed'', PInt (int (length passed))), (''checks_warned'', PInt (int (length warned))),
         (''checks_failed'', PInt (int (length failed))),
         (''critical_failures'', PList (map (PStr \<circ> ck_name) (filter ck_critical failed))),
         (''critical_containers'', PList (map PStr (rc_containers cfg))), (''minimum_uptime_seconds'', PInt uptime),
         (''required_uptime_seconds'', PInt (rc_min_uptime cfg)), (''maximum_restart_delta'', PInt delta),
         (''allowed_restart_delta'', PInt (rc_max_delta cfg)), (''docker_root_dir'', PStr (rc_docker_root cfg)),
         (''host'', PStr (pr_hostname pr))],
       rr_checks = checks\<rparr>)))"

subsection \<open>The reports kept\<close>

definition persist_readiness_run :: "run_report \<Rightarrow> run_report list \<Rightarrow> run_report list" where
  "persist_readiness_run r rs = rs @ [r]"

definition newest_first :: "run_report list \<Rightarrow> run_report list" where
  "newest_first rs = sort_desc rr_at rs"

definition fetch_latest_readiness_run :: "run_report list \<Rightarrow> run_report option" where
  "fetch_latest_readiness_run rs = (case newest_first rs of [] \<Rightarrow> None | r # _ \<Rightarrow> Some r)"

definition fetch_readiness_history :: "rat \<Rightarrow> run_report list \<Rightarrow> int \<Rightarrow> int \<Rightarrow> bool option \<Rightarrow> nat \<times> run_report list" where
  "fetch_readiness_history now0 rs limit since status = (
     let lim = min (max limit 1) 500; hours = min (max since 1) (24 * 365);
         hits = filter (\<lambda>r. now0 - of_int hours * 3600 < rr_at r \<and> (case status of None \<Rightarrow> True | Some p \<Rightarrow> rr_passed r = p)) rs in
     (length hits, take (nat lim) (newest_first hits)))"

definition readiness_check_names :: "string list" where
  "readiness_check_names = [''fastapi_readyz'', ''postgres_connectivity'', ''redis_connectivity'', ''kafka_broker_health'',
     ''kafka_exporter_metrics'', ''container_restart_counts'', ''disk_utilization'', ''memory_utilization'', ''critical_service_uptime'']"

text \<open>The gauges: score, verdict, time of the last run, and one per check.\<close>

definition check_gauge :: "check_result list \<Rightarrow> string \<Rightarrow> rat" where
  "check_gauge cs n = (case filter (\<lambda>c. ck_name c = n) cs of [] \<Rightarrow> 0
     | xs \<Rightarrow> (case ck_status (List.last xs) of PASS \<Rightarrow> 1 | WARN \<Rightarrow> 1 / 2 | FAILED_CHECK \<Rightarrow> 0))"

definition refresh_prometheus_metrics :: "run_report list \<Rightarrow> int \<times> rat \<times> rat \<times> (string \<times> rat) list" where
  "refresh_prometheus_metrics rs = (case fetch_latest_readiness_run rs of
       None \<Rightarrow> (0, 0, 0, map (\<lambda>n. (n, 0)) readiness_check_names)
     | Some r \<Rightarrow> (rr_score r, if rr_passed r then 1 else 0, rr_at r, map (\<lambda>n. (n, check_gauge (rr_checks r) n)) readiness_check_names))"

end
