(* ===== verification/Readiness_Correct.thy ===== *)
theory Readiness_Correct
  imports Readiness
begin

text \<open>
  What the readiness verdict means: it is positive exactly when every probe satisfies its
  condition, and the score is a percentage. At the end, the situations in which the assessment
  does not do what it should.
\<close>

subsection \<open>What each check decides\<close>

definition decided :: "string \<Rightarrow> int \<Rightarrow> bool \<Rightarrow> check_result \<Rightarrow> bool" where
  "decided nm w ok c \<longleftrightarrow> ck_name c = nm \<and> ck_weight c = w \<and> ck_status c = (if ok then PASS else FAILED_CHECK)
     \<and> ck_score c = (if ok then w else 0)"

lemma decided_results [simp]:
  "decided nm w ok (pass_result nm' w' obs thr) \<longleftrightarrow> nm = nm' \<and> w = w' \<and> ok"
  "decided nm w ok (fail_result nm' w' obs thr) \<longleftrightarrow> nm = nm' \<and> w = w' \<and> \<not> ok"
  by (auto simp: decided_def pass_result_def fail_result_def)

lemma pass_not_fail [simp]: "pass_result a b c d \<noteq> fail_result a' b' c' d'" "fail_result a' b' c' d' \<noteq> pass_result a b c d"
  by (simp_all add: pass_result_def fail_result_def)

definition readyz_ok :: "probes \<Rightarrow> bool" where
  "readyz_ok pr \<longleftrightarrow> (case pr_readyz pr of Inr (code, PDict d) \<Rightarrow> code = 200 \<and> truthy (dict_get d ''ready'' PNone) | _ \<Rightarrow> False)"

definition database_ok :: "probes \<Rightarrow> bool" where
  "database_ok pr \<longleftrightarrow> (case pr_database pr of Inr _ \<Rightarrow> True | Inl _ \<Rightarrow> False)"

definition redis_ok :: "probes \<Rightarrow> bool" where
  "redis_ok pr \<longleftrightarrow> (case pr_redis pr of Inr (pong, info) \<Rightarrow> pong | Inl _ \<Rightarrow> False)"

definition topics_ok :: "probes \<Rightarrow> bool" where
  "topics_ok pr \<longleftrightarrow> (case pr_topics pr of Inr ls \<Rightarrow> (\<forall>t \<in> set expected_topics. \<exists>l \<in> set ls. strip l = t) | Inl _ \<Rightarrow> False)"

definition metric_present :: "probes \<Rightarrow> string list \<Rightarrow> string \<Rightarrow> (string \<times> string) list \<Rightarrow> bool" where
  "metric_present pr ls nm target \<longleftrightarrow> (case find_metric_value (pr_unescape pr) ls nm target of Inr (Some _) \<Rightarrow> True | _ \<Rightarrow> False)"

definition metrics_ok :: "probes \<Rightarrow> bool" where
  "metrics_ok pr \<longleftrightarrow> (case pr_metrics pr of Inl _ \<Rightarrow> False | Inr (code, ls) \<Rightarrow> code = 200 \<and> metric_present pr ls ''kafka_brokers'' []
     \<and> metric_present pr ls ''kafka_broker_info'' [(''address'', ''diep-kafka:9092''), (''id'', ''1'')]
     \<and> metric_present pr ls ''kafka_topic_partitions'' [(''topic'', ''diep.commands'')])"

text \<open>No container's restart count rose by more than allowed since the report before.\<close>

definition restarts_ok :: "readiness_config \<Rightarrow> (string \<times> snapshot) list \<Rightarrow> (string \<times> int) list \<Rightarrow> bool" where
  "restarts_ok cfg cs pc \<longleftrightarrow> (\<forall>n \<in> set (rc_containers cfg). \<forall>s b. map_of cs n = Some s \<longrightarrow> map_of pc n = Some b \<longrightarrow>
     sn_restarts s - b \<le> rc_max_delta cfg)"

text \<open>Every critical container runs, and has for long enough.\<close>

definition uptimes_ok :: "probes \<Rightarrow> readiness_config \<Rightarrow> (string \<times> snapshot) list \<Rightarrow> bool" where
  "uptimes_ok pr cfg cs \<longleftrightarrow> (\<forall>n \<in> set (rc_containers cfg). \<exists>s t. map_of cs n = Some s \<and> sn_running s \<and> sn_started s = Some t
     \<and> rc_min_uptime cfg \<le> uptime_of (pr_now pr) t)"

lemma readyz_decided: "check_fastapi_readyz pr cfg = Inr c \<Longrightarrow> decided ''fastapi_readyz'' 15 (readyz_ok pr) c"
  by (auto simp: check_fastapi_readyz_def readyz_ok_def attr_get_def bindR_eq_Inr Let_def split: sum.splits pyval.splits if_splits)

lemma database_decided: "decided ''postgres_connectivity'' 10 (database_ok pr) (check_postgres_connectivity pr cfg)"
  by (auto simp: check_postgres_connectivity_def database_ok_def Let_def split: sum.splits)

lemma redis_decided: "decided ''redis_connectivity'' 10 (redis_ok pr) (check_redis_connectivity pr cfg)"
  by (auto simp: check_redis_connectivity_def redis_ok_def Let_def split: sum.splits)

lemma topics_decided: "decided ''kafka_broker_health'' 15 (topics_ok pr) (check_kafka_broker_health pr cfg)"
proof (cases "pr_topics pr")
  case (Inr ls)
  have "set expected_topics \<subseteq> set (sort (filter (\<lambda>t. t \<noteq> []) (map strip ls))) \<longleftrightarrow> topics_ok pr"
    by (force simp: topics_ok_def Inr expected_topics_def)
  then show ?thesis by (simp add: check_kafka_broker_health_def Inr Let_def)
qed (simp add: check_kafka_broker_health_def topics_ok_def)

lemma metrics_decided: "check_kafka_exporter_metrics pr cfg = Inr c \<Longrightarrow> decided ''kafka_exporter_metrics'' 10 (metrics_ok pr) c"
  by (auto simp: check_kafka_exporter_metrics_def metrics_ok_def metric_present_def bindR_eq_Inr Let_def
      split: sum.splits if_splits option.splits)

lemma set_names_once [simp]: "set (names_once cfg) = set (rc_containers cfg)"
  by (simp add: names_once_def)

lemma set_known: "(n, d) \<in> set (known xs) \<longleftrightarrow> (n, Some d) \<in> set xs"
  by (induction xs) (auto simp: known_def map_filter_simps split: option.splits)

lemma known_deltas: "(n, d) \<in> set (known (restart_deltas (current_counts cfg cs) pc)) \<longleftrightarrow>
    n \<in> set (rc_containers cfg) \<and> (\<exists>s b. map_of cs n = Some s \<and> map_of pc n = Some b \<and> d = sn_restarts s - b)"
  unfolding set_known by (auto simp: restart_deltas_def current_counts_def image_iff split: option.splits)

lemma restarts_decided:
  assumes "check_container_restart_counts cfg cs prev = Inr c" "previous_restart_counts prev = Inr pc"
  shows "decided ''container_restart_counts'' 10 (restarts_ok cfg cs pc) c"
proof -
  have "filter (\<lambda>(k, d). rc_max_delta cfg < d) (known (restart_deltas (current_counts cfg cs) pc)) = [] \<longleftrightarrow> restarts_ok cfg cs pc"
    unfolding filter_empty_conv by (force simp: restarts_ok_def known_deltas)
  moreover have "restarts_ok cfg cs pc" if "prev = None"
    using assms(2) that by (simp add: previous_restart_counts_def restarts_ok_def)
  ultimately show ?thesis using assms by (auto simp: check_container_restart_counts_def Let_def split: if_splits)
qed

lemma disk_decided: "decided ''disk_utilization'' 10 (fl_le (Fin (disk_used_pct pr)) (rc_disk_max cfg)) (check_disk_utilization pr cfg)"
  by (cases "pr_disk pr") (simp add: check_disk_utilization_def Let_def)

lemma memory_decided: "decided ''memory_utilization'' 10 (fl_le (Fin (memory_used_pct pr)) (rc_memory_max cfg)) (check_memory_utilization pr cfg)"
  by (simp add: check_memory_utilization_def Let_def)

lemma uptimes_decided: "decided ''critical_service_uptime'' 10 (uptimes_ok pr cfg cs) (check_critical_service_uptime pr cfg cs)"
proof -
  have e: "snd (uptime_entry now0 m cs n) = None \<longleftrightarrow> (\<exists>s t. map_of cs n = Some s \<and> sn_running s \<and> sn_started s = Some t
      \<and> m \<le> uptime_of now0 t)" for now0 m n
    by (auto simp: uptime_entry_def Let_def split: option.splits)
  have "List.map_filter (\<lambda>n. map_option (Pair n) (snd (uptime_entry (pr_now pr) (rc_min_uptime cfg) cs n))) (names_once cfg) = []
      \<longleftrightarrow> uptimes_ok pr cfg cs"
    unfolding uptimes_ok_def e [symmetric] by (auto simp: map_filter_def filter_empty_conv)
  then show ?thesis by (simp add: check_critical_service_uptime_def Let_def)
qed

subsection \<open>The verdict\<close>

definition platform_ready :: "probes \<Rightarrow> readiness_config \<Rightarrow> (string \<times> snapshot) list \<Rightarrow> (string \<times> int) list \<Rightarrow> bool" where
  "platform_ready pr cfg cs pc \<longleftrightarrow> readyz_ok pr \<and> database_ok pr \<and> redis_ok pr \<and> topics_ok pr \<and> metrics_ok pr \<and> restarts_ok cfg cs pc
     \<and> fl_le (Fin (disk_used_pct pr)) (rc_disk_max cfg) \<and> fl_le (Fin (memory_used_pct pr)) (rc_memory_max cfg) \<and> uptimes_ok pr cfg cs"

lemma all_checks_decided:
  assumes "all_checks pr cfg cs prev = Inr checks"
  obtains pc where "previous_restart_counts prev = Inr pc"
    "list_all2 (\<lambda>(nm, w, ok) c. decided nm w ok c)
      [(''fastapi_readyz'', 15, readyz_ok pr), (''postgres_connectivity'', 10, database_ok pr), (''redis_connectivity'', 10, redis_ok pr),
       (''kafka_broker_health'', 15, topics_ok pr), (''kafka_exporter_metrics'', 10, metrics_ok pr),
       (''container_restart_counts'', 10, restarts_ok cfg cs pc), (''disk_utilization'', 10, fl_le (Fin (disk_used_pct pr)) (rc_disk_max cfg)),
       (''memory_utilization'', 10, fl_le (Fin (memory_used_pct pr)) (rc_memory_max cfg)),
       (''critical_service_uptime'', 10, uptimes_ok pr cfg cs)] checks"
proof -
  obtain c1 c5 c6 where c: "check_fastapi_readyz pr cfg = Inr c1" "check_kafka_exporter_metrics pr cfg = Inr c5"
    "check_container_restart_counts cfg cs prev = Inr c6"
    "checks = [c1, check_postgres_connectivity pr cfg, check_redis_connectivity pr cfg, check_kafka_broker_health pr cfg, c5, c6,
      check_disk_utilization pr cfg, check_memory_utilization pr cfg, check_critical_service_uptime pr cfg cs]"
    using assms by (auto simp: all_checks_def bindR_eq_Inr Let_def)
  from c(3) obtain pc where "previous_restart_counts prev = Inr pc"
    by (auto simp: check_container_restart_counts_def bindR_eq_Inr)
  then show thesis
    using that c readyz_decided metrics_decided restarts_decided [OF c(3)] database_decided redis_decided topics_decided
      disk_decided memory_decided uptimes_decided by simp
qed

lemma decided_sums:
  assumes "list_all2 (\<lambda>(nm, w, ok) c. decided nm w ok c) specs checks"
  shows "sum_list (map ck_score checks) = sum_list (map (\<lambda>(nm, w, ok). if ok then w else 0) specs)
    \<and> (filter (\<lambda>c. ck_status c = FAILED_CHECK) checks = [] \<longleftrightarrow> (\<forall>(nm, w, ok) \<in> set specs. ok))
    \<and> filter (\<lambda>c. ck_status c = WARN) checks = []"
  using assms by (induction specs checks rule: list_all2_induct) (auto simp: decided_def split: if_splits)

lemma assessed:
  assumes "run_readiness_assessment pr cfg prev = Inr r"
  obtains cs pc where "inspect_containers pr cfg = Inr cs" "previous_restart_counts prev = Inr pc" "rr_passed r \<longleftrightarrow> platform_ready pr cfg cs pc"
    "0 \<le> rr_score r" "rr_score r \<le> 100" "rr_passed r \<Longrightarrow> rr_score r = 100"
proof -
  obtain cs checks delta where run: "inspect_containers pr cfg = Inr cs" "all_checks pr cfg cs prev = Inr checks"
    "rr_score r = sum_list (map ck_score checks)" "rc_threshold cfg \<le> 100"
    "rr_passed r \<longleftrightarrow> filter (\<lambda>c. ck_status c = FAILED_CHECK) checks = [] \<and> rc_threshold cfg \<le> sum_list (map ck_score checks)"
    using assms by (auto simp: run_readiness_assessment_def bindR_eq_Inr Let_def split: if_splits)
  from run(2) obtain pc where pc: "previous_restart_counts prev = Inr pc" and d: "list_all2 (\<lambda>(nm, w, ok) c. decided nm w ok c)
      [(''fastapi_readyz'', 15, readyz_ok pr), (''postgres_connectivity'', 10, database_ok pr), (''redis_connectivity'', 10, redis_ok pr),
       (''kafka_broker_health'', 15, topics_ok pr), (''kafka_exporter_metrics'', 10, metrics_ok pr),
       (''container_restart_counts'', 10, restarts_ok cfg cs pc), (''disk_utilization'', 10, fl_le (Fin (disk_used_pct pr)) (rc_disk_max cfg)),
       (''memory_utilization'', 10, fl_le (Fin (memory_used_pct pr)) (rc_memory_max cfg)),
       (''critical_service_uptime'', 10, uptimes_ok pr cfg cs)] checks" by (rule all_checks_decided)
  note sums = decided_sums [OF d]
  have pass: "filter (\<lambda>c. ck_status c = FAILED_CHECK) checks = [] \<longleftrightarrow> platform_ready pr cfg cs pc"
    using sums by (simp add: platform_ready_def)
  have score: "platform_ready pr cfg cs pc \<Longrightarrow> rr_score r = 100" "0 \<le> rr_score r" "rr_score r \<le> 100"
    using sums run(3) by (simp_all add: platform_ready_def)
  then have "rr_passed r \<longleftrightarrow> platform_ready pr cfg cs pc" using run(3-5) pass by auto
  with that [OF run(1) pc] score show thesis by blast
qed

text \<open>
  C35: The platform is declared ready exactly when every condition holds: the API answers ready,
  database and Redis respond, the broker has its topics and its metrics, no critical container
  restarted more than allowed since the last report, disk and memory are within their limits, and
  every critical container has been running for the required time. The score is a percentage, and
  it is 100 whenever the verdict is positive.
\<close>
theorem readiness_verdict:
  assumes "run_readiness_assessment pr cfg prev = Inr r"
  shows "\<exists>cs pc. inspect_containers pr cfg = Inr cs \<and> previous_restart_counts prev = Inr pc
    \<and> (rr_passed r \<longleftrightarrow> platform_ready pr cfg cs pc) \<and> 0 \<le> rr_score r \<and> rr_score r \<le> 100 \<and> (rr_passed r \<longrightarrow> rr_score r = 100)"
  using assessed [OF assms] by metis

definition demo_readiness :: readiness_config where
  "demo_readiness = \<lparr>rc_readyz_url = ''u'', rc_exporter_url = ''e'', rc_db_host = ''h'', rc_db_port = 5432, rc_db_name = ''diep'',
     rc_redis_host = ''h'', rc_redis_port = 6379, rc_kafka_container = ''k'', rc_docker_root = ''/'', rc_disk_max = Fin 85, rc_memory_max = Fin 85,
     rc_min_uptime = 86400, rc_max_delta = 0, rc_threshold = 90, rc_containers = [], rc_source = ''s'', rc_tenant = ''default''\<rparr>"

definition demo_probes :: probes where
  "demo_probes = \<lparr>pr_inspect = Inr [], pr_readyz = Inr (200, PDict [(''ready'', PBool True)]), pr_database = Inr (''diep'', ''diep''),
     pr_redis = Inr (True, []), pr_topics = Inr [''diep.commands''], pr_metrics = Inl (OsErr (Fmt ''down'' [])), pr_disk = (100, 50, 50),
     pr_meminfo = [], pr_checked_at = 0, pr_now = 0, pr_min_now = 0, pr_utc_offset = 0, pr_unescape = Inr, pr_hostname = ''host'', pr_run_id = ''r''\<rparr>"

theorem readiness_verdict_witness:
  "\<exists>r. run_readiness_assessment demo_probes demo_readiness None = Inr r \<and> rr_score r = 75 \<and> \<not> platform_ready demo_probes demo_readiness [] []"
proof -
  have ev: "case run_readiness_assessment demo_probes demo_readiness None of Inr r \<Rightarrow> rr_score r = 75 | Inl _ \<Rightarrow> False"
    "inspect_containers demo_probes demo_readiness = Inr []" "previous_restart_counts None = Inr []" by code_simp+
  then obtain r where r: "run_readiness_assessment demo_probes demo_readiness None = Inr r" "rr_score r = 75" by (auto split: sum.splits)
  from readiness_verdict [OF r(1)] ev(2,3) r show ?thesis by auto
qed

subsection \<open>What the assessment misses\<close>

text \<open>A check is never a warning, and a positive verdict always comes with the full score, so the threshold decides nothing.\<close>

lemma threshold_decides_nothing:
  assumes "run_readiness_assessment pr cfg prev = Inr r" "run_readiness_assessment pr (cfg\<lparr>rc_threshold := t\<rparr>) prev = Inr r'"
  shows "rr_passed r' = rr_passed r"
proof -
  have "inspect_containers pr (cfg\<lparr>rc_threshold := t\<rparr>) = inspect_containers pr cfg" by (simp add: inspect_containers_def)
  moreover have "platform_ready pr (cfg\<lparr>rc_threshold := t\<rparr>) cs pc = platform_ready pr cfg cs pc" for cs pc
    by (simp add: platform_ready_def restarts_ok_def uptimes_ok_def)
  ultimately show ?thesis using assessed [OF assms(1)] assessed [OF assms(2)] by (metis sum.inject(2))
qed

text \<open>One critical container that does not exist makes the whole run raise: no report says that it is missing.\<close>

lemma missing_container_raises:
  "rc_containers cfg \<noteq> [] \<Longrightarrow> pr_inspect pr = Inl e \<Longrightarrow> run_readiness_assessment pr cfg prev = Inl e"
  by (simp add: run_readiness_assessment_def inspect_containers_def)

text \<open>Without \<^verbatim>\<open>MemTotal\<close> the memory counts as unused.\<close>

lemma unread_memory_passes: "pr_meminfo pr = [] \<Longrightarrow> memory_used_pct pr = 0"
  by (simp add: memory_used_pct_def dict_get_def)

text \<open>
  Each run compares with the run before it, whatever that one found: a restart that made one run
  fail is not counted in the next.
\<close>

lemma counts_kept:
  assumes "check_container_restart_counts cfg cs prev = Inr c" "rr_checks r = c # rest"
  shows "previous_restart_counts (Some r) = Inr (known (current_counts cfg cs))"
proof -
  have c: "ck_name c = ''container_restart_counts''"
    "dict_get (ck_observed c) ''restart_counts'' PNone = PDict (map (\<lambda>(k, v). (k, opt_int v)) (current_counts cfg cs))"
    using assms(1) by (auto simp: check_container_restart_counts_def bindR_eq_Inr Let_def pass_result_def fail_result_def dict_get_def split: if_splits)
  have "mapR (\<lambda>(k, v). bindR (py_int v) (\<lambda>i. Inr (k, i))) (filter (\<lambda>(k, v). v \<noteq> PNone) (map (\<lambda>(k, v). (k, opt_int v)) xs)) = Inr (known xs)" for xs :: "(string \<times> int option) list"
    by (induction xs) (auto simp: known_def map_filter_simps opt_int_def split: option.splits)
  then show ?thesis
    using c assms(2) by (cases "current_counts cfg cs = []") (auto simp: previous_restart_counts_def known_def map_filter_simps Let_def)
qed

lemma restart_counted_once:
  assumes "check_container_restart_counts cfg cs prev = Inr c" "rr_checks r = c # rest" "0 \<le> rc_max_delta cfg"
  shows "\<exists>c'. check_container_restart_counts cfg cs (Some r) = Inr c' \<and> ck_status c' = PASS"
proof -
  note prev = counts_kept [OF assms(1,2)]
  obtain c' where c': "check_container_restart_counts cfg cs (Some r) = Inr c'"
    using prev by (simp add: check_container_restart_counts_def Let_def)
  have "sn_restarts s = b" if "map_of cs n = Some s" "map_of (known (current_counts cfg cs)) n = Some b" for n s b
    using map_of_SomeD [OF that(2)] that(1) unfolding set_known by (auto simp: current_counts_def)
  then have "restarts_ok cfg cs (known (current_counts cfg cs))" using assms(3) by (auto simp: restarts_ok_def)
  with restarts_decided [OF c' prev] c' show ?thesis by (auto simp: decided_def)
qed

end
