(* ===== verification/Spec2Isabelle.thy ===== *)
theory Spec2Isabelle
  imports Automation_Correct Oms_Views Mdm_Correct Crew_Dispatch Network_Studies Fault_Location Telemetry_Chain Derms_Correct Analytics Tokens_Correct Ws_Handshake Ocpp_Transactions Readiness_Correct
begin

text \<open>
  DIEP is the control platform of a utility grid: field devices behind protocol drivers, an MQTT and Kafka
  backbone, a FastAPI application with its database, and the operators' applications on top. This
  development models the Python of that platform, \<^verbatim>\<open>src/\<close>, and proves what its parts promise, each alone and
  composed along the two ways that matter: a reading from the meter to the table, and a command from the
  operator to the inverter and back.

  \<^bold>\<open>How the parts interact.\<close> A driver (\<^verbatim>\<open>drivers/dlms\<close>, \<^verbatim>\<open>drivers/sunspec\<close>) runs in the edge loop
  (\<^verbatim>\<open>drivers/diep_driver\<close>), which publishes readings and answers commands over MQTT. Readings in the form
  of the contract (\<^verbatim>\<open>contracts\<close>) pass the meter data management (\<^verbatim>\<open>services/mdm\<close>) and the ingestor
  (\<^verbatim>\<open>ingestor\<close>), which posts them to the API (\<^verbatim>\<open>fastapi/app.py\<close>); the API writes the telemetry table and the
  Redis mirror. Commands are rows the API creates and sends to Kafka; the dispatcher (\<^verbatim>\<open>dispatcher\<close>) carries
  them to MQTT and posts the acknowledgements back. The network model (\<^verbatim>\<open>routers/topology.py\<close>) feeds the FLISR
  planner, the outage management, the inference, contingency and voltage engines; the control plane
  (\<^verbatim>\<open>routers/controls.py\<close> with its switch, FLISR and Volt/VAR handlers) actuates under a two-person rule, and
  the automation engine (\<^verbatim>\<open>routers/automation.py\<close>) acts only through it. Every endpoint goes through the
  authentication (\<^verbatim>\<open>fastapi/auth.py\<close>).

  \<^bold>\<open>The theories and the code they model.\<close>
  \<^item> \<^emph>\<open>Ground.\<close> \<open>Prelude\<close> (Python values, exceptions as values, dictionaries, sorts, the state-passing
    monad \<open>action\<close> with \<open>bindS\<close> and the frame rule \<open>keeps\<close>), \<open>Py_Numbers\<close> (float, int and round), \<open>Iso_Time\<close> (datetime),
    \<open>Wire_Numbers\<close> (struct), \<open>Base64\<close>, \<open>Store\<close> (one list of records per table of \<^verbatim>\<open>sql\<close>), \<open>Graph_Search\<close>
    (the graph walk, locale \<open>reachability\<close>), \<open>Radial_Tree\<close> (\<^verbatim>\<open>build_radial\<close>), \<open>Demo_Network\<close> (examples).
  \<^item> \<^emph>\<open>Network model.\<close> \<open>Network_Model\<close> and \<open>Topology_Analysis\<close>: \<^verbatim>\<open>routers/topology.py\<close>, \<^verbatim>\<open>common.py\<close>; every write, the
    downstream query, the validator. Lemmas: the validator's findings are right; referential integrity is the
    schema's, whose constraints are errors of the writes.
  \<^item> \<^emph>\<open>Engines on the network.\<close> \<open>Flisr_Planner\<close> (\<^verbatim>\<open>routers/dms.py\<close>), \<open>Voltage_Advice\<close> (same file), \<open>Outage_Inference\<close>
    and \<open>Crew_Dispatch\<close> (\<^verbatim>\<open>dms/outage_inference.py\<close>, \<^verbatim>\<open>outage_validation.py\<close>, \<^verbatim>\<open>crew_dispatch.py\<close>), \<open>Contingency\<close>
    (restoration and feasibility of \<^verbatim>\<open>dms/contingency.py\<close> and \<^verbatim>\<open>reconfiguration.py\<close>), \<open>Linalg\<close> (\<^verbatim>\<open>dms/linalg.py\<close>),
    \<open>State_Estimation\<close> (\<^verbatim>\<open>dms/state_estimation.py\<close>), \<open>Estimation_Service\<close> (its endpoint and its use by the outage inference),
    \<open>Power_Flow\<close> (\<^verbatim>\<open>dms/powerflow.py\<close>), \<open>Network_Studies\<close> (the N-1 analysis, the search for a configuration and the endpoints over the
    power flow), \<open>Fault_Location\<close> (\<^verbatim>\<open>dms/fault_location.py\<close>). Lemmas: elimination solves what it returns and returns whenever the matrix is
    \<open>regular\<close>, which the pseudo measurements guarantee; the estimate is the optimum; a converged flow is balanced; the search is exhaustive.
    \<open>Oms\<close>, \<open>Oms_Sweep\<close>, \<open>Oms_Views\<close> (\<^verbatim>\<open>routers/oms.py\<close>).
  \<^item> \<^emph>\<open>Control plane.\<close> \<open>Auth\<close> (role ladder), \<open>Field_Devices\<close> (dispatch, acknowledgement, echo), \<open>Controls\<close> and
    \<open>Control_Lifecycle\<close> (\<^verbatim>\<open>routers/controls.py\<close>; locale \<open>control_handlers\<close>, histories \<open>control_step\<close>), \<open>Switch_Ops\<close>, \<open>Flisr_Exec\<close>,
    \<open>Volt_Var\<close> (the three handlers), \<open>Control_Registry\<close> (the interpretation of \<open>control_handlers\<close> on the registry the
    application builds), \<open>Automation\<close> and \<open>Automation_Correct\<close> (locale \<open>tick_relation\<close>). \<open>control_step\<close> leaves the rest
    of the system free as long as it does not write actions or their audit; what the automation engine may do is the
    narrower \<open>automation_step\<close>: request, supervise, run an action, and note in its own tables.
  \<^item> \<^emph>\<open>Identity.\<close> \<open>Tokens\<close>, \<open>Auth_Requests\<close> (locale \<open>auth_relation\<close>), \<open>Tokens_Correct\<close>: \<^verbatim>\<open>auth.py\<close> and the
    \<^verbatim>\<open>/auth\<close> endpoints of \<^verbatim>\<open>app.py\<close>.
  \<^item> \<^emph>\<open>Edge.\<close> \<open>Dlms_Codec\<close>, \<open>Dlms_Hdlc\<close>, \<open>Dlms_Link\<close>, \<open>Dlms_Meter\<close> (\<^verbatim>\<open>drivers/dlms\<close>), \<open>Modbus_Tcp\<close>, \<open>Sunspec\<close>,
    \<open>Sunspec_Sim\<close> (\<^verbatim>\<open>drivers/sunspec\<close>), \<open>Edge_Runner\<close> (locale \<open>adapter\<close>), \<open>Edge_Adapters\<close> (its interpretations).
    \<open>Websocket\<close>, \<open>Ws_Handshake\<close>, \<open>Ocpp\<close>, \<open>Ocpp_Correct\<close>, \<open>Ocpp_Transactions\<close> (\<^verbatim>\<open>drivers/ocpp_csms\<close>): the central system for
    chargers as a step relation (\<open>csms_step\<close>, runs \<open>csms_run\<close>) over connections, messages, commands and their time-outs.
  \<^item> \<^emph>\<open>Data plane.\<close> \<open>Telemetry_Contract\<close> (\<^verbatim>\<open>contracts\<close>), \<open>Mdm_Engines\<close>, \<open>Mdm_Pipeline\<close>, \<open>Mdm_Correct\<close> (\<^verbatim>\<open>services/mdm\<close>),
    \<open>Ingestor\<close>, \<open>Ingestor_Correct\<close> (\<^verbatim>\<open>ingestor\<close>), \<open>Platform\<close> (telemetry, mirror, state, health and assets of
    \<^verbatim>\<open>app.py\<close>), \<open>Onboarding\<close>, \<open>Onboarding_Correct\<close>, \<open>Derms\<close>, \<open>Derms_Correct\<close> (the onboarding and DERMS endpoints of \<^verbatim>\<open>app.py\<close>),
    \<open>Analytics\<close> (its forecasts, anomalies, recommendations and overviews), \<open>Readiness\<close>, \<open>Readiness_Correct\<close>
    (\<^verbatim>\<open>readiness.py\<close>; what the probes return is \<open>probes\<close>, the verdict is proved equal to \<open>platform_ready\<close>).
  \<^item> \<^emph>\<open>The two ways.\<close> \<open>Command_Chain\<close> (\<^verbatim>\<open>dispatcher\<close>, and a command from the API to the inverter and back),
    \<open>Telemetry_Chain\<close> (a reading from the meter to the table and the mirror).

  \<^bold>\<open>How code becomes definitions.\<close> A handler is a state-passing function on the store (\<open>'a run\<close>) or on the
  platform (\<open>'a platform_run\<close>, which carries the store in \<open>pf_db\<close>), in the order of the code, with an exception
  as the left side of a sum; an exception keeps the writes made before it. A row is a record, an enum a datatype,
  a dict an association list in insertion order, JSON text the value it stands for. Floats are exact rationals or one
  of the three IEEE specials: comparisons, conversions, rounding to decimals and overflow on conversion are modelled,
  the rounding of a single operation is not. Values stored in single-precision columns are rounded (\<open>real4\<close>). A square root is compared and rounded
  through its square (\<open>round_sqrt\<close>); where the power flow adds magnitudes they are roots to fifteen decimals. Bytes on the wire are \<open>8 word\<close>s and checksums \<open>16 word\<close>s, so wrap-around is that of the code.
  UUIDs are a counter, hence pairwise different. Times are seconds, and UTC dates where their text matters; a request runs at one instant.

  \<^bold>\<open>What surrounds the code\<close> is a parameter: the environment flags and the acknowledgements and readings seen by
  each poll (\<open>field_env\<close>), what each publish attempt does (\<open>publish_env\<close>), the other end of a socket with
  the places where the network cuts the stream (\<open>peer\<close>, \<open>cn_cuts\<close>), the power the sun provides (\<open>avail\<close>),
  the keyed hash, key derivation, random bytes and JSON codec (\<open>auth_env\<close>, assumed to round-trip by \<open>codec_ok\<close>),
  the metadata queries, which may raise, and clocks of the data management (\<open>mdm_env\<close>), what \<^verbatim>\<open>str\<close> and \<^verbatim>\<open>json\<close> print
  (\<open>twin_env\<close>; that a decimal of at most fifteen digits is printed as that decimal is \<open>prints_decimals\<close>), and the reading of a request body by the API's data models (\<open>reads_bodies\<close>). Each such assumption is
  met by a concrete instance in the witness of the theorem that makes it.

  \<^bold>\<open>What the lemmas show.\<close> Per component: well-formedness kept by every operation, what each operation does on each branch,
  errors included, and termination of its loops. Between components: interfaces as locales, each interpreted on the
  model's own definitions, so that the history theorems of the control plane, the automation, the authentication and the
  edge loop hold of the real handlers and drivers. Situations in which the code does not do what it says are stated as
  lemmas of their own at the end of the theory concerned.

  \<^bold>\<open>Bounds and fuel.\<close> The graph walk carries a termination proof by the nodes not yet seen; \<open>subtree_list\<close>
  and \<open>descend\<close> get as much fuel as there are nodes and are proved to need no more (\<open>rooted\<close> trees); the
  parent chains of the outage engine stop at the 1000 steps of the code (\<open>chain_bound\<close>); the restoration
  passes are bounded by the number of open ties, each pass but the last closing one; \<^verbatim>\<open>discover\<close> reads at most 32 models,
  as the code does; polls for acknowledgements and echoes end with the list of stores they see. The
  eliminations of \<open>Linalg\<close> recurse on the columns, the power flow on its hundred iterations, the search for a configuration on the list of all combinations.
  The estimator is proved total up to \<open>10 ^ 9\<close> state variables, far beyond any feeder.

  \<^bold>\<open>Not modelled, and why.\<close> Metrics, logs, best-effort audit rows of \<^verbatim>\<open>auth.audit\<close>, health servers and connection set-up
  are I/O without effect on the modelled state. The power flow's report leaves out the phase angles, which nothing reads,
  and the engines of \<^verbatim>\<open>dms\<close> run with their default options, the only ones their callers pass. \<^verbatim>\<open>deployment.py\<close> assembles checklists from shell, container and database probes; the copilot
  formats prompts for language models; the digital twin is a user interface; OPC UA and CIM map rows to third-party models; the IEC 104,
  DNP3, Modbus meter and battery drivers are further adapters of the edge loop which repeat its pattern of connect, read and command,
  two of them over the Modbus exchange modelled for the inverter. Validation scripts and simulators are test code.
\<close>

end
